(* ===== verification/Prelude.thy ===== *)
theory Prelude
  imports Complex_Main "HOL-Library.AList" "HOL-Library.Multiset" "HOL-Library.Sublist"
    "HOL-Library.Char_ord" "HOL-Library.List_Lexorder"
begin

text \<open>
  Shared vocabulary of the development: the collections of automation facts, Go maps as
  association lists with one entry per key, the order in which Go enumerates a map (an explicit
  argument, because the runtime chooses it), results of code that may panic, decoded JSON values
  and floating point numbers as the program inspects them, and sums over lists of results.
  Integers are unbounded except where a wrap-around is written out with \<open>wrap64\<close>.
\<close>

named_theorems go_simps \<open>unfolding of the Go library operations on concrete values\<close>
named_theorems inv_intros \<open>preservation of component invariants by the operations\<close>
named_theorems frame \<open>fields an operation leaves unchanged\<close>

subsection \<open>Panics as values\<close>

datatype panic = Index_out_of_range | Slice_out_of_range | Makeslice_out_of_range | Nil_dereference | Not_full_blocks
  | Divide_by_zero | Type_assertion | Unknown_action string

type_synonym 'a res = "panic + 'a"

definition res_bind :: "'a res \<Rightarrow> ('a \<Rightarrow> 'b res) \<Rightarrow> 'b res" where
  "res_bind r f = (case r of Inl e \<Rightarrow> Inl e | Inr x \<Rightarrow> f x)"

lemma res_bind_simps [simp]:
  "res_bind (Inl e) f = Inl e"
  "res_bind (Inr x) f = f x"
  by (simp_all add: res_bind_def)

lemma res_bind_Inr_iff:
  "res_bind r f = Inr y \<longleftrightarrow> (\<exists>x. r = Inr x \<and> f x = Inr y)"
  by (cases r) auto

text \<open>A loop whose body may panic: it stops at the first panic.\<close>

fun res_fold :: "('a \<Rightarrow> 's \<Rightarrow> 's res) \<Rightarrow> 'a list \<Rightarrow> 's \<Rightarrow> 's res" where
  "res_fold f [] s = Inr s"
| "res_fold f (x # xs) s = res_bind (f x s) (res_fold f xs)"

lemma res_fold_append:
  "res_fold f (xs @ ys) s = res_bind (res_fold f xs s) (res_fold f ys)"
  by (induction xs arbitrary: s) (auto simp: res_bind_def split: sum.splits)

lemma res_fold_invariant:
  assumes "res_fold f xs s = Inr t" and "I s"
    and "\<And>x s t. x \<in> set xs \<Longrightarrow> I s \<Longrightarrow> f x s = Inr t \<Longrightarrow> I t"
  shows "I t"
  using assms
proof (induction xs arbitrary: s)
  case Nil
  then show ?case by simp
next
  case (Cons x xs)
  from Cons.prems(1) obtain u where u: "f x s = Inr u" "res_fold f xs u = Inr t"
    by (auto simp: res_bind_Inr_iff)
  have "I u" using Cons.prems(2,3) u(1) by (meson list.set_intros(1))
  then show ?case using Cons.IH [OF u(2)] Cons.prems(3) by (meson list.set_intros(2))
qed

lemma res_fold_total:
  assumes "I s"
    and "\<And>x s. x \<in> set xs \<Longrightarrow> I s \<Longrightarrow> \<exists>t. f x s = Inr t \<and> I t"
  shows "\<exists>t. res_fold f xs s = Inr t \<and> I t"
  using assms
proof (induction xs arbitrary: s)
  case Nil
  then show ?case by simp
next
  case (Cons x xs)
  obtain u where u: "f x s = Inr u" "I u" using Cons.prems by (meson list.set_intros(1))
  have "\<exists>t. res_fold f xs u = Inr t \<and> I t"
    using Cons.IH [OF u(2)] Cons.prems(2) by (meson list.set_intros(2))
  then show ?case using u by simp
qed

lemma fold_invariant_set:
  assumes "I s" and "\<And>x s. x \<in> set xs \<Longrightarrow> I s \<Longrightarrow> I (f x s)"
  shows "I (fold f xs s)"
  using assms by (induction xs arbitrary: s) auto

subsection \<open>Go maps\<close>

text \<open>
  A Go map is an association list; the interface below is what the program uses of the built-in
  type: look-up with the \<open>has\<close> flag, assignment, \<open>delete\<close> and the set of keys.
\<close>

type_synonym ('k, 'v) go_map = "('k \<times> 'v) list"

abbreviation go_get :: "('k, 'v) go_map \<Rightarrow> 'k \<Rightarrow> 'v option" where
  "go_get m k \<equiv> map_of m k"

abbreviation go_set :: "'k \<Rightarrow> 'v \<Rightarrow> ('k, 'v) go_map \<Rightarrow> ('k, 'v) go_map" where
  "go_set k v m \<equiv> AList.update k v m"

abbreviation go_del :: "'k \<Rightarrow> ('k, 'v) go_map \<Rightarrow> ('k, 'v) go_map" where
  "go_del k m \<equiv> AList.delete k m"

definition go_keys :: "('k, 'v) go_map \<Rightarrow> 'k list" where
  "go_keys m = map fst m"

definition go_wf :: "('k, 'v) go_map \<Rightarrow> bool" where
  "go_wf m \<longleftrightarrow> distinct (map fst m)"

locale go_map_spec =
  fixes get :: "'m \<Rightarrow> 'k \<Rightarrow> 'v option"
    and set_entry :: "'k \<Rightarrow> 'v \<Rightarrow> 'm \<Rightarrow> 'm"
    and del :: "'k \<Rightarrow> 'm \<Rightarrow> 'm"
    and keys :: "'m \<Rightarrow> 'k list"
    and wf :: "'m \<Rightarrow> bool"
  assumes get_set: "get (set_entry k v m) = (get m)(k \<mapsto> v)"
    and get_del: "get (del k m) = (get m)(k := None)"
    and keys_dom: "set (keys m) = dom (get m)"
    and wf_set: "wf m \<Longrightarrow> wf (set_entry k v m)"
    and wf_del: "wf m \<Longrightarrow> wf (del k m)"
    and wf_keys: "wf m \<Longrightarrow> distinct (keys m)"
begin

lemma get_set_same: "get (set_entry k v m) k = Some v"
  by (simp add: get_set)

lemma get_fold_del: "get (fold del ks m) = (\<lambda>k. if k \<in> set ks then None else get m k)"
  by (induction ks arbitrary: m) (auto simp: get_del)

lemma wf_fold_del: "wf m \<Longrightarrow> wf (fold del ks m)"
  by (induction ks arbitrary: m) (auto simp: wf_del)

lemma get_in_keys: "get m k = Some v \<Longrightarrow> k \<in> set (keys m)"
  by (auto simp: keys_dom)

end

interpretation gm: go_map_spec "\<lambda>m k. go_get m k" go_set go_del go_keys go_wf
  by unfold_locales
    (auto simp: update_conv' delete_conv' go_keys_def dom_map_of_conv_image_fst go_wf_def
      distinct_update distinct_delete)

lemmas go_map_laws [simp] = gm.get_set gm.get_del

lemma go_get_entry: "go_wf m \<Longrightarrow> go_get m k = Some v \<longleftrightarrow> (k, v) \<in> set m"
  by (simp add: go_wf_def)

lemma go_keys_Nil [simp]: "go_keys [] = []"
  by (simp add: go_keys_def)

lemma go_wf_Nil [simp]: "go_wf []"
  by (simp add: go_wf_def)

text \<open>The runtime picks the order of a \<open>range\<close> over a map; all that is known is that it
  enumerates each key once.\<close>

type_synonym 'k range_order = "'k list \<Rightarrow> 'k list"

definition fair_order :: "'k range_order \<Rightarrow> bool" where
  "fair_order ord \<longleftrightarrow> (\<forall>ks. mset (ord ks) = mset ks)"

lemma fair_order_set [simp]: "fair_order ord \<Longrightarrow> set (ord ks) = set ks"
  by (metis fair_order_def set_mset_mset)

lemma fair_order_distinct [simp]: "fair_order ord \<Longrightarrow> distinct (ord ks) = distinct ks"
  by (metis fair_order_def mset_eq_imp_distinct_iff)

lemma fair_order_length [simp]: "fair_order ord \<Longrightarrow> length (ord ks) = length ks"
  by (metis fair_order_def mset_eq_length)

lemma fair_order_id: "fair_order (\<lambda>ks. ks)"
  by (simp add: fair_order_def)

lemma fair_order_rev: "fair_order rev"
  by (simp add: fair_order_def)

subsection \<open>Machine integers, decimal numerals\<close>

definition wrap64 :: "int \<Rightarrow> int" where
  "wrap64 x = (x + 2 ^ 63) mod 2 ^ 64 - 2 ^ 63"

definition int64_range :: "int \<Rightarrow> bool" where
  "int64_range x \<longleftrightarrow> - (2 ^ 63) \<le> x \<and> x < 2 ^ 63"

lemma wrap64_id: "int64_range x \<Longrightarrow> wrap64 x = x"
  by (auto simp: wrap64_def int64_range_def)

lemma wrap64_range: "int64_range (wrap64 x)"
  by (auto simp: wrap64_def int64_range_def)

text \<open>Go's integer division truncates towards zero.\<close>

definition go_div :: "int \<Rightarrow> int \<Rightarrow> int" where
  "go_div a b = sgn a * sgn b * (\<bar>a\<bar> div \<bar>b\<bar>)"

lemma go_div_nonneg: "0 \<le> a \<Longrightarrow> 0 < b \<Longrightarrow> go_div a b = a div b"
  by (cases "a = 0") (auto simp: go_div_def)

subsection \<open>Values decoded from JSON and floating point numbers\<close>

datatype json = JNull | JBool bool | JNum string | JStr string | JArr "json list"
  | JObj "(string \<times> json) list"

datatype float64 = NaN | PosInf | NegInf | Finite rat

definition IsNaN :: "float64 \<Rightarrow> bool" where
  "IsNaN v \<longleftrightarrow> v = NaN"

end
