(* ===== verification/Go_Strings.thy ===== *)
theory Go_Strings
  imports Prelude
begin

text \<open>
  The part of Go's standard packages \<open>strings\<close>, \<open>strconv\<close>, \<open>sort\<close> and \<open>time\<close> that the
  program calls, on ASCII byte strings: splitting and joining, searching, trimming, replacing,
  decimal numerals, and the local wall clock of a Unix time stamp (the offset of the local time
  zone at a moment is an argument). The lemmas are the round trips and the search
  characterisations the components need. String comparison is bytewise lexicographic, which is
  the order of \<open>HOL-Library.List_Lexorder\<close> over \<open>HOL-Library.Char_ord\<close>.
\<close>

subsection \<open>White space: Fields and TrimSpace\<close>

definition is_space :: "char \<Rightarrow> bool" where
  "is_space c \<longleftrightarrow> c \<in> {CHR '' '', CHR 0x09, CHR 0x0A, CHR 0x0B, CHR 0x0C, CHR 0x0D}"

fun fields_acc :: "string \<Rightarrow> string \<Rightarrow> string list" where
  "fields_acc acc [] = (if acc = [] then [] else [rev acc])"
| "fields_acc acc (c # cs) =
     (if is_space c
      then (if acc = [] then fields_acc [] cs else rev acc # fields_acc [] cs)
      else fields_acc (c # acc) cs)"

definition Fields :: "string \<Rightarrow> string list" where
  "Fields s = fields_acc [] s"

definition TrimRight_by :: "(char \<Rightarrow> bool) \<Rightarrow> string \<Rightarrow> string" where
  "TrimRight_by p s = rev (dropWhile p (rev s))"

definition TrimSpace :: "string \<Rightarrow> string" where
  "TrimSpace s = TrimRight_by is_space (dropWhile is_space s)"

fun Join :: "string list \<Rightarrow> string \<Rightarrow> string" where
  "Join [] sep = ''''"
| "Join [x] sep = x"
| "Join (x # y # ys) sep = x @ sep @ Join (y # ys) sep"

definition word :: "string \<Rightarrow> bool" where
  "word w \<longleftrightarrow> w \<noteq> [] \<and> (\<forall>c \<in> set w. \<not> is_space c)"

lemma fields_acc_word:
  "\<forall>c \<in> set w. \<not> is_space c \<Longrightarrow> fields_acc acc (w @ s) = fields_acc (rev w @ acc) s"
  by (induction w arbitrary: acc) auto

lemma fields_acc_set:
  "x \<in> set (fields_acc acc s) \<Longrightarrow> \<forall>c \<in> set acc. \<not> is_space c \<Longrightarrow> word x"
proof (induction acc s rule: fields_acc.induct)
  case (1 acc)
  then show ?case by (auto simp: word_def split: if_splits)
next
  case (2 acc c cs)
  show ?case
  proof (cases "is_space c \<and> acc \<noteq> [] \<and> x = rev acc")
    case True
    then show ?thesis using 2 by (simp add: word_def)
  next
    case False
    then show ?thesis using 2 by (simp split: if_splits)
  qed
qed

lemma Fields_words: "x \<in> set (Fields s) \<Longrightarrow> word x"
  using fields_acc_set [of x "[]" s] by (simp add: Fields_def)

lemma Join_Cons: "xs \<noteq> [] \<Longrightarrow> Join (x # xs) sep = x @ sep @ Join xs sep"
  by (cases xs) auto

lemma Fields_Join: "\<forall>w \<in> set ws. word w \<Longrightarrow> Fields (Join ws '' '') = ws"
proof (induction ws)
  case Nil
  then show ?case by (simp add: Fields_def)
next
  case (Cons w ws)
  have w: "\<forall>c \<in> set w. \<not> is_space c" "w \<noteq> []" using Cons.prems by (auto simp: word_def)
  show ?case
  proof (cases "ws = []")
    case True
    then show ?thesis using w fields_acc_word [OF w(1), of "[]" "[]"] by (simp add: Fields_def)
  next
    case False
    have "is_space (CHR '' '')" by (simp add: is_space_def)
    then have "Fields (Join (w # ws) '' '') = w # Fields (Join ws '' '')"
      using w fields_acc_word [OF w(1), of "[]"] False by (simp add: Fields_def Join_Cons)
    then show ?thesis using Cons by simp
  qed
qed

lemma TrimRight_by_append: "TrimRight_by p (s @ [c]) = (if p c then TrimRight_by p s else s @ [c])"
  by (simp add: TrimRight_by_def)

lemma TrimRight_by_last: "TrimRight_by p s \<noteq> [] \<Longrightarrow> \<not> p (last (TrimRight_by p s))"
  unfolding TrimRight_by_def by (metis hd_dropWhile last_rev rev_is_Nil_conv)

lemma TrimRight_by_prefix: "prefix (TrimRight_by p s) s"
proof -
  have "suffix (dropWhile p (rev s)) (rev s)" by (rule suffix_dropWhile)
  then show ?thesis by (simp add: TrimRight_by_def suffix_to_prefix)
qed

subsection \<open>Separators: Split, SplitN, Index, Contains, Replace\<close>

fun split_acc :: "string \<Rightarrow> string \<Rightarrow> nat \<Rightarrow> string \<Rightarrow> string list" where
  "split_acc sep acc k [] = [rev acc]"
| "split_acc sep acc (Suc k) (c # cs) = split_acc sep acc k cs"
| "split_acc sep acc 0 (c # cs) =
     (if prefix sep (c # cs) then rev acc # split_acc sep [] (length sep - 1) cs
      else split_acc sep (c # acc) 0 cs)"

definition Split :: "string \<Rightarrow> string \<Rightarrow> string list" where
  "Split s sep = split_acc sep [] 0 s"

fun Index_acc :: "string \<Rightarrow> nat \<Rightarrow> string \<Rightarrow> nat option" where
  "Index_acc sub i [] = (if sub = [] then Some i else None)"
| "Index_acc sub i (c # cs) =
     (if prefix sub (c # cs) then Some i else Index_acc sub (Suc i) cs)"

definition Index :: "string \<Rightarrow> string \<Rightarrow> nat option" where
  "Index s sub = Index_acc sub 0 s"

definition Contains :: "string \<Rightarrow> string \<Rightarrow> bool" where
  "Contains s sub \<longleftrightarrow> Index s sub \<noteq> None"

definition SplitN2 :: "string \<Rightarrow> string \<Rightarrow> string list" where
  "SplitN2 s sep = (case Index s sep of None \<Rightarrow> [s]
     | Some i \<Rightarrow> [take i s, drop (i + length sep) s])"

text \<open>\<open>strings.ReplaceAll(s, old, new)\<close> for a non-empty \<open>old\<close>.\<close>

definition ReplaceAll :: "string \<Rightarrow> string \<Rightarrow> string \<Rightarrow> string" where
  "ReplaceAll s old new = Join (Split s old) new"

fun ReplaceAll_char :: "string \<Rightarrow> char \<Rightarrow> string \<Rightarrow> string" where
  "ReplaceAll_char [] c new = []"
| "ReplaceAll_char (x # xs) c new = (if x = c then new else [x]) @ ReplaceAll_char xs c new"

fun ReplaceFirst_char :: "string \<Rightarrow> char \<Rightarrow> string \<Rightarrow> string" where
  "ReplaceFirst_char [] c new = []"
| "ReplaceFirst_char (x # xs) c new =
     (if x = c then new @ xs else x # ReplaceFirst_char xs c new)"

lemma Index_acc_None: "Index_acc sub i s = None \<longleftrightarrow> \<not> sublist sub s"
  by (induction sub i s rule: Index_acc.induct) (auto simp: sublist_Cons_right)

lemma Contains_sublist: "Contains s sub \<longleftrightarrow> sublist sub s"
  by (simp add: Contains_def Index_def Index_acc_None)

lemma Contains_char: "Contains s [c] \<longleftrightarrow> c \<in> set s"
  by (auto simp: Contains_sublist sublist_def in_set_conv_decomp)

lemma Index_acc_Some:
  "Index_acc sub i s = Some j \<Longrightarrow> i \<le> j \<and> prefix sub (drop (j - i) s) \<and> j - i \<le> length s"
proof (induction sub i s rule: Index_acc.induct)
  case (1 sub i)
  then show ?case by (auto split: if_splits)
next
  case (2 sub i c cs)
  show ?case
  proof (cases "prefix sub (c # cs)")
    case True
    then show ?thesis using 2 by simp
  next
    case False
    then have h: "Suc i \<le> j" "prefix sub (drop (j - Suc i) cs)" "j - Suc i \<le> length cs"
      using 2 by auto
    then have "j - i = Suc (j - Suc i)" by simp
    then show ?thesis using h by simp
  qed
qed

lemma Index_SomeD: "Index s sub = Some j \<Longrightarrow> s = take j s @ sub @ drop (j + length sub) s"
proof -
  assume "Index s sub = Some j"
  then have "prefix sub (drop j s)" using Index_acc_Some [of sub 0 s j] by (simp add: Index_def)
  then obtain r where r: "drop j s = sub @ r" by (auto simp: prefix_def)
  then have "r = drop (j + length sub) s" by (metis add.commute append_eq_conv_conj drop_drop)
  then show ?thesis using r by (metis append_take_drop_id)
qed

lemma Index_prefix: "prefix sub s \<Longrightarrow> Index s sub = Some 0"
  by (cases s) (auto simp: Index_def)

lemma SplitN2_two: "SplitN2 s sep = [a, b] \<Longrightarrow> s = a @ sep @ b"
  using Index_SomeD [of s sep] by (auto simp: SplitN2_def split: option.splits)

lemma SplitN2_length: "length (SplitN2 s sep) = (if Contains s sep then 2 else 1)"
  by (auto simp: SplitN2_def Contains_def split: option.splits)

lemma Index_acc_first_char:
  "c \<notin> set a \<Longrightarrow> Index_acc [c] i (a @ c # b) = Some (i + length a)"
  by (induction a arbitrary: i) auto

lemma SplitN2_char: "c \<notin> set a \<Longrightarrow> SplitN2 (a @ c # b) [c] = [a, b]"
  by (simp add: SplitN2_def Index_def Index_acc_first_char)

lemma split_acc_skip: "k \<le> length s \<Longrightarrow> split_acc sep acc k s = split_acc sep acc 0 (drop k s)"
proof (induction k arbitrary: s)
  case 0
  then show ?case by simp
next
  case (Suc k)
  then show ?case by (cases s) auto
qed

lemma split_acc_free:
  assumes "c \<notin> set w"
  shows "split_acc (c # sep) acc 0 (w @ s) = split_acc (c # sep) (rev w @ acc) 0 s"
  using assms by (induction w arbitrary: acc) auto

lemma split_acc_sep:
  "sep \<noteq> [] \<Longrightarrow> split_acc sep acc 0 (sep @ s) = rev acc # split_acc sep [] 0 s"
  using split_acc_skip [of "length (tl sep)" "tl sep @ s" sep "[]"] by (cases sep) simp_all

lemma Split_Join:
  assumes "ws \<noteq> []" and "\<forall>w \<in> set ws. c \<notin> set w"
  shows "Split (Join ws (c # sep)) (c # sep) = ws"
  using assms
proof (induction ws)
  case Nil
  then show ?case by simp
next
  case (Cons w ws)
  have w: "c \<notin> set w" using Cons.prems by simp
  show ?case
  proof (cases "ws = []")
    case True
    then show ?thesis using split_acc_free [OF w, of sep "[]" "[]"] by (simp add: Split_def)
  next
    case False
    have "Split (Join (w # ws) (c # sep)) (c # sep)
        = split_acc (c # sep) (rev w) 0 ((c # sep) @ Join ws (c # sep))"
      using False split_acc_free [OF w, of sep "[]"] by (simp add: Split_def Join_Cons)
    also have "\<dots> = w # Split (Join ws (c # sep)) (c # sep)"
      by (subst split_acc_sep) (auto simp: Split_def)
    finally show ?thesis using Cons False by simp
  qed
qed

lemma split_acc_nonempty: "split_acc sep acc k s \<noteq> []"
  by (induction sep acc k s rule: split_acc.induct) auto

lemma Join_split_acc: "sep \<noteq> [] \<Longrightarrow> Join (split_acc sep acc 0 s) sep = rev acc @ s"
proof (induction "length s" arbitrary: acc s rule: less_induct)
  case less
  show ?case
  proof (cases "prefix sep s")
    case True
    then obtain r where r: "s = sep @ r" by (auto simp: prefix_def)
    then have "length r < length s" using less.prems by simp
    then show ?thesis using less.hyps [of r "[]"] less.prems split_acc_sep [of sep acc r] split_acc_nonempty
      by (simp add: r Join_Cons)
  next
    case False
    then show ?thesis using less.hyps [of "tl s" "hd s # acc"] less.prems by (cases s) auto
  qed
qed

text \<open>Splitting and joining with the same separator gives the text back.\<close>

lemma Join_Split: "sep \<noteq> [] \<Longrightarrow> Join (Split s sep) sep = s"
  by (simp add: Split_def Join_split_acc)
lemma ReplaceAll_char_free: "c \<notin> set new \<Longrightarrow> c \<notin> set (ReplaceAll_char s c new)"
  by (induction s) auto

lemma ReplaceAll_char_id: "c \<notin> set s \<Longrightarrow> ReplaceAll_char s c new = s"
  by (induction s) auto

lemma ReplaceAll_char_set: "set (ReplaceAll_char s c new) \<subseteq> set s \<union> set new"
  by (induction s) auto

lemma length_ReplaceAll_char: "length (ReplaceAll_char s c [d]) = length s"
  by (induction s) auto

text \<open>Case of ASCII letters.\<close>

definition to_lower :: "string \<Rightarrow> string" where
  "to_lower s = map (\<lambda>c. let v = of_char c :: nat in if 65 \<le> v \<and> v \<le> 90 then char_of (v + 32) else c) s"

definition to_upper :: "string \<Rightarrow> string" where
  "to_upper s = map (\<lambda>c. let v = of_char c :: nat in if 97 \<le> v \<and> v \<le> 122 then char_of (v - 32) else c) s"

subsection \<open>Decimal numerals: Sprintf, Itoa, ParseInt\<close>

definition digit :: "nat \<Rightarrow> char" where
  "digit d = ''0123456789'' ! (d mod 10)"

fun show_nat :: "nat \<Rightarrow> string" where
  "show_nat n = (if n < 10 then [digit n] else show_nat (n div 10) @ [digit (n mod 10)])"

declare show_nat.simps [simp del]

definition Itoa :: "int \<Rightarrow> string" where
  "Itoa i = (if i < 0 then CHR ''-'' # show_nat (nat (- i)) else show_nat (nat i))"

definition digit_val :: "char \<Rightarrow> nat option" where
  "digit_val c = (let v = of_char c :: nat in if 48 \<le> v \<and> v \<le> 57 then Some (v - 48) else None)"

fun read_nat :: "nat \<Rightarrow> string \<Rightarrow> nat option" where
  "read_nat acc [] = Some acc"
| "read_nat acc (c # cs) = (case digit_val c of None \<Rightarrow> None | Some d \<Rightarrow> read_nat (10 * acc + d) cs)"

definition read_digits :: "string \<Rightarrow> nat option" where
  "read_digits s = (if s = [] then None else read_nat 0 s)"

definition ParseInt :: "string \<Rightarrow> int option" where
  "ParseInt s =
     (let (neg, ds) = (case s of [] \<Rightarrow> (False, s)
        | c # cs \<Rightarrow> if c = CHR ''-'' then (True, cs) else if c = CHR ''+'' then (False, cs)
                  else (False, s))
      in case read_digits ds of None \<Rightarrow> None
         | Some n \<Rightarrow> (let i = (if neg then - int n else int n)
                     in if int64_range i then Some i else None))"

lemma digit_cases: "d < 10 \<Longrightarrow> d \<in> {0, 1, 2, 3, 4, 5, 6, 7, 8, 9 :: nat}"
  by auto

lemma digit_val_digit: "digit_val (digit d) = Some (d mod 10)"
proof -
  have "d mod 10 \<in> {0, 1, 2, 3, 4, 5, 6, 7, 8, 9 :: nat}" by (rule digit_cases) simp
  then show ?thesis by (auto simp: digit_def digit_val_def)
qed

lemma digit_no_sign: "digit d \<noteq> CHR ''-''" "digit d \<noteq> CHR ''+''" "digit d \<noteq> CHR ''_''"
  using digit_val_digit [of d] by (auto simp: digit_val_def)

lemma read_nat_append:
  "read_nat acc (s @ t) = (case read_nat acc s of None \<Rightarrow> None | Some a \<Rightarrow> read_nat a t)"
  by (induction s arbitrary: acc) (auto split: option.splits)

lemma read_nat_show_nat: "read_nat 0 (show_nat n) = Some n"
proof (induction n rule: show_nat.induct)
  case (1 n)
  show ?case
  proof (cases "n < 10")
    case True
    then show ?thesis by (subst show_nat.simps) (simp add: digit_val_digit)
  next
    case False
    then have "read_nat 0 (show_nat (n div 10)) = Some (n div 10)" using "1.IH" by simp
    then show ?thesis using False
      by (subst show_nat.simps) (simp add: read_nat_append digit_val_digit)
  qed
qed

lemma show_nat_nonempty: "show_nat n \<noteq> []"
  by (subst show_nat.simps) simp

lemma show_nat_digits: "c \<in> set (show_nat n) \<Longrightarrow> \<exists>d. c = digit d"
proof (induction n rule: show_nat.induct)
  case (1 n)
  then show ?case by (subst (asm) show_nat.simps) (auto split: if_splits)
qed

lemma show_nat_hd: "\<exists>d cs. show_nat n = digit d # cs"
  by (metis show_nat_nonempty show_nat_digits list.set_intros(1) neq_Nil_conv)

lemma ParseInt_Itoa: "int64_range i \<Longrightarrow> ParseInt (Itoa i) = Some i"
proof -
  assume r: "int64_range i"
  obtain d cs where d: "show_nat (nat \<bar>i\<bar>) = digit d # cs" using show_nat_hd by blast
  have n: "read_digits (show_nat (nat \<bar>i\<bar>)) = Some (nat \<bar>i\<bar>)"
    by (simp add: read_digits_def show_nat_nonempty read_nat_show_nat)
  show ?thesis
  proof (cases "i < 0")
    case True
    then show ?thesis using n r by (simp add: ParseInt_def Itoa_def)
  next
    case False
    then show ?thesis using n r d digit_no_sign by (simp add: ParseInt_def Itoa_def)
  qed
qed

lemma show_nat_inj: "show_nat m = show_nat n \<Longrightarrow> m = n"
  by (metis read_nat_show_nat option.inject)

lemma Itoa_inj: "Itoa i = Itoa j \<longleftrightarrow> i = j"
proof
  assume e: "Itoa i = Itoa j"
  have neg: "Itoa x \<noteq> show_nat m" if "x < 0" for x m
    using that show_nat_hd [of m] digit_no_sign(1) by (metis Itoa_def list.inject)
  show "i = j"
  proof (cases "i < 0"; cases "j < 0")
    assume "i < 0" "j < 0"
    then have "nat (- i) = nat (- j)" using e by (auto simp: Itoa_def intro: show_nat_inj)
    then show ?thesis using \<open>i < 0\<close> \<open>j < 0\<close> by linarith
  next
    assume "\<not> i < 0" "\<not> j < 0"
    then have "nat i = nat j" using e by (auto simp: Itoa_def intro: show_nat_inj)
    then show ?thesis using \<open>\<not> i < 0\<close> \<open>\<not> j < 0\<close> by linarith
  next
    assume "i < 0" "\<not> j < 0"
    then show ?thesis using e neg [of i "nat j"] by (simp add: Itoa_def)
  next
    assume "\<not> i < 0" "j < 0"
    then show ?thesis using e neg [of j "nat i"] by (metis Itoa_def)
  qed
qed simp

lemma Itoa_no_underscore: "CHR ''_'' \<notin> set (Itoa i)"
proof -
  have "CHR ''_'' \<notin> set (show_nat n)" for n
    using show_nat_digits digit_no_sign(3) by metis
  then show ?thesis by (auto simp: Itoa_def)
qed

subsection \<open>The wall clock: Format("15:04") and Weekday\<close>

text \<open>\<open>tz\<close> gives the offset of local time from UTC, in seconds, at a Unix time stamp.\<close>

definition two_digits :: "int \<Rightarrow> string" where
  "two_digits n = [digit (nat (n div 10)), digit (nat (n mod 10))]"

definition minute_of_day :: "(int \<Rightarrow> int) \<Rightarrow> int \<Rightarrow> int" where
  "minute_of_day tz ts = (ts + tz ts) mod 86400 div 60"

definition Format_15_04 :: "(int \<Rightarrow> int) \<Rightarrow> int \<Rightarrow> string" where
  "Format_15_04 tz ts =
     (let m = minute_of_day tz ts in two_digits (m div 60) @ '':'' @ two_digits (m mod 60))"

definition Weekday :: "(int \<Rightarrow> int) \<Rightarrow> int \<Rightarrow> int" where
  "Weekday tz ts = ((ts + tz ts) div 86400 + 4) mod 7"

definition clock :: "int \<Rightarrow> string" where
  "clock m = two_digits (m div 60) @ '':'' @ two_digits (m mod 60)"

lemma Format_clock: "Format_15_04 tz ts = clock (minute_of_day tz ts)"
  by (simp add: Format_15_04_def clock_def Let_def)

lemma minute_of_day_bounds: "0 \<le> minute_of_day tz ts" "minute_of_day tz ts < 1440"
proof -
  have "0 \<le> x div 60" "x div 60 < 1440" if "0 \<le> x" "x < 86400" for x :: int
    using that by presburger+
  then show "0 \<le> minute_of_day tz ts" "minute_of_day tz ts < 1440"
    unfolding minute_of_day_def by simp_all
qed

lemma Weekday_bounds: "0 \<le> Weekday tz ts" "Weekday tz ts < 7"
  by (simp_all add: Weekday_def)

lemma digit_less: "a < 10 \<Longrightarrow> b < 10 \<Longrightarrow> digit a < digit b \<longleftrightarrow> a < b"
proof -
  assume "a < 10" "b < 10"
  then have "of_char (digit a) = 48 + a" "of_char (digit b) = 48 + b"
    using digit_cases [of a] digit_cases [of b] by (auto simp: digit_def)
  then show ?thesis by (simp add: less_char_def)
qed

lemma digit_eq: "a < 10 \<Longrightarrow> b < 10 \<Longrightarrow> digit a = digit b \<longleftrightarrow> a = b"
  by (metis digit_val_digit mod_less option.inject)

lemma div_mod_less:
  assumes "0 < d"
  shows "(a::int) < b \<longleftrightarrow> a div d < b div d \<or> (a div d = b div d \<and> a mod d < b mod d)"
proof -
  have m: "a div d \<le> b div d" if "a \<le> b" using that assms by (simp add: zdiv_mono1)
  have m': "b div d \<le> a div d" if "b \<le> a" using that assms by (simp add: zdiv_mono1)
  have "a < b \<longleftrightarrow> a mod d < b mod d" if "a div d = b div d"
    using that by (metis add_less_cancel_left mult_div_mod_eq)
  then show ?thesis using m m' by fastforce
qed

lemma two_digits_less:
  assumes "0 \<le> a" "a < 100" "0 \<le> b" "b < 100"
  shows "two_digits a @ s < two_digits b @ t \<longleftrightarrow> a < b \<or> (a = b \<and> s < t)"
proof -
  have r: "nat (a div 10) < 10" "nat (b div 10) < 10" "nat (a mod 10) < 10" "nat (b mod 10) < 10"
    using assms by auto
  have n: "0 \<le> a div 10" "0 \<le> b div 10" "0 \<le> a mod 10" "0 \<le> b mod 10" using assms by auto
  have eq: "a = b \<longleftrightarrow> a div 10 = b div 10 \<and> a mod 10 = b mod 10" by (metis mult_div_mod_eq)
  have "two_digits a @ s < two_digits b @ t \<longleftrightarrow>
      a div 10 < b div 10 \<or> (a div 10 = b div 10 \<and> (a mod 10 < b mod 10 \<or> (a mod 10 = b mod 10 \<and> s < t)))"
    using n by (simp add: two_digits_def digit_less [OF r(1) r(2)] digit_less [OF r(3) r(4)]
        digit_eq [OF r(1) r(2)] digit_eq [OF r(3) r(4)] eq_nat_nat_iff nat_less_eq_zless
        del: zless_nat_conj)
  then show ?thesis using div_mod_less [of 10 a b] eq by auto
qed

text \<open>Clock times compare as strings the way they compare as minutes of the day, which is what
  the time windows of rules and mutes rely on; \<open>24:00\<close> is included.\<close>

lemma clock_less:
  assumes "0 \<le> a" "a \<le> 1440" "0 \<le> b" "b \<le> 1440"
  shows "clock a < clock b \<longleftrightarrow> a < b"
proof -
  have "clock a < clock b \<longleftrightarrow> a div 60 < b div 60 \<or> (a div 60 = b div 60 \<and>
      '':'' @ two_digits (a mod 60) < '':'' @ two_digits (b mod 60))"
    unfolding clock_def by (rule two_digits_less) (use assms in auto)
  moreover have "'':'' @ two_digits (a mod 60) < '':'' @ two_digits (b mod 60)
      \<longleftrightarrow> a mod 60 < b mod 60"
    using two_digits_less [of "a mod 60" "b mod 60" "[]" "[]"] by simp
  ultimately show ?thesis using div_mod_less [of 60 a b] by simp
qed

lemma clock_eq:
  assumes "0 \<le> a" "a \<le> 1440" "0 \<le> b" "b \<le> 1440"
  shows "clock a = clock b \<longleftrightarrow> a = b"
  using clock_less [OF assms] clock_less [OF assms(3,4,1,2)] by (metis less_irrefl linorder_neqE)

lemmas go_str_defs [go_simps] =
  Fields_def is_space_def Split_def SplitN2_def Index_def Contains_def TrimSpace_def
  TrimRight_by_def Itoa_def show_nat.simps digit_def Format_15_04_def minute_of_day_def
  Weekday_def two_digits_def

end
