(* ===== verification/Data_Model.thy ===== *)
theory Data_Model
  imports Go_Strings
begin

text \<open>
  The structs of the package \<open>models\<close> that the alerting pipeline reads and writes, one record per
  struct with every field of the source (column and front-end copies alike) under a short prefix;
  \<open>zero_\<dots>\<close> is the struct's zero value. Fields of an interface type hold decoded JSON, and a
  compiled regular expression is the predicate it decides (\<open>None\<close> is the nil pointer). Two
  fields that hold live database or transport handles are left out (\<open>BusiGroup.DB\<close> and
  \<open>Datasource.Transport\<close>), as is the list of user groups of a busi group, which only the web
  pages read; the struct \<open>TLS\<close>, with its one field, is inlined in \<open>HTTP\<close>. The record \<open>lib\<close> collects the code that lies
  outside the repository and is an argument of the model: the MD5 digest, the printed form of a
  label set, the regular expression compiler, the time zone, the template engine, the JSON codec
  and the check for dangerous characters.
\<close>

subsection \<open>Users, groups, targets and data sources\<close>

record User =
  us_Id :: int
  us_Username :: string
  us_Nickname :: string
  us_Password :: string
  us_Phone :: string
  us_Email :: string
  us_Portrait :: string
  us_Roles :: string
  us_RolesLst :: "string list"
  us_Contacts :: string
  us_Maintainer :: int
  us_CreateAt :: int
  us_CreateBy :: string
  us_UpdateAt :: int
  us_UpdateBy :: string
  us_Admin :: bool

record UserGroup =
  ug_Id :: int
  ug_Name :: string
  ug_Note :: string
  ug_CreateAt :: int
  ug_CreateBy :: string
  ug_UpdateAt :: int
  ug_UpdateBy :: string
  ug_UserIds :: "int list"

record BusiGroup =
  bg_Id :: int
  bg_Name :: string
  bg_LabelEnable :: int
  bg_LabelValue :: string
  bg_CreateAt :: int
  bg_CreateBy :: string
  bg_UpdateAt :: int
  bg_UpdateBy :: string

record Auth =
  au_BasicAuth :: bool
  au_BasicAuthUser :: string
  au_BasicAuthPassword :: string

record HTTP =
  ht_Timeout :: int
  ht_DialTimeout :: int
  ht_SkipTlsVerify :: bool
  ht_MaxIdleConnsPerHost :: int
  ht_Url :: string
  ht_Headers :: "(string, string) go_map"

record Datasource =
  ds_Id :: int
  ds_Name :: string
  ds_Description :: string
  ds_PluginId :: int
  ds_PluginType :: string
  ds_PluginTypeName :: string
  ds_Category :: string
  ds_ClusterName :: string
  ds_Settings :: string
  ds_SettingsJson :: "(string, json) go_map"
  ds_Status :: string
  ds_HTTP :: string
  ds_HTTPJson :: HTTP
  ds_Auth :: string
  ds_AuthJson :: Auth
  ds_CreatedAt :: int
  ds_UpdatedAt :: int
  ds_CreatedBy :: string
  ds_UpdatedBy :: string

record Target =
  tg_Id :: int
  tg_GroupId :: int
  tg_GroupObj :: "BusiGroup option"
  tg_Ident :: string
  tg_Note :: string
  tg_Tags :: string
  tg_TagsJSON :: "string list"
  tg_TagsMap :: "(string, string) go_map"
  tg_UpdateAt :: int
  tg_HostIp :: string
  tg_UnixTime :: int
  tg_Offset :: int
  tg_TargetUp :: float64
  tg_MemUtil :: float64
  tg_CpuNum :: int
  tg_CpuUtil :: float64
  tg_OS :: string
  tg_Arch :: string
  tg_RemoteAddr :: string

record Webhook =
  wh_Enable :: bool
  wh_Url :: string
  wh_BasicAuthUser :: string
  wh_BasicAuthPass :: string
  wh_Timeout :: int
  wh_HeaderMap :: "(string, string) go_map"
  wh_Headers :: "string list"
  wh_SkipVerify :: bool
  wh_Note :: string

subsection \<open>Mutes\<close>

record TagFilter =
  tf_Key :: string
  tf_Func :: string
  tf_Value :: string
  tf_Regexp :: "(string \<Rightarrow> bool) option"
  tf_Vset :: "string list"

record PeriodicMute =
  pm_EnableStime :: string
  pm_EnableEtime :: string
  pm_EnableDaysOfWeek :: string

record AlertMute =
  am_Id :: int
  am_GroupId :: int
  am_Note :: string
  am_Cate :: string
  am_Prod :: string
  am_DatasourceIds :: string
  am_DatasourceIdsJson :: "int list"
  am_Cluster :: string
  am_Tags :: string
  am_Cause :: string
  am_Btime :: int
  am_Etime :: int
  am_Disabled :: int
  am_CreateBy :: string
  am_UpdateBy :: string
  am_CreateAt :: int
  am_UpdateAt :: int
  am_ITags :: "TagFilter list"
  am_MuteTimeType :: int
  am_PeriodicMutes :: string
  am_PeriodicMutesJson :: "PeriodicMute list"
  am_Severities :: string
  am_SeveritiesJson :: "int list"

subsection \<open>Rules\<close>

record AlertRule =
  ar_Id :: int
  ar_GroupId :: int
  ar_Cate :: string
  ar_DatasourceIds :: string
  ar_DatasourceIdsJson :: "int list"
  ar_Cluster :: string
  ar_Name :: string
  ar_Note :: string
  ar_Prod :: string
  ar_Algorithm :: string
  ar_AlgoParams :: string
  ar_AlgoParamsJson :: json
  ar_Delay :: int
  ar_Severity :: int
  ar_Severities :: "int list"
  ar_Disabled :: int
  ar_PromForDuration :: int
  ar_PromQl :: string
  ar_RuleConfig :: string
  ar_RuleConfigJson :: json
  ar_PromEvalInterval :: int
  ar_EnableStime :: string
  ar_EnableStimeJSON :: string
  ar_EnableStimesJSON :: "string list"
  ar_EnableEtime :: string
  ar_EnableEtimeJSON :: string
  ar_EnableEtimesJSON :: "string list"
  ar_EnableDaysOfWeek :: string
  ar_EnableDaysOfWeekJSON :: "string list"
  ar_EnableDaysOfWeeksJSON :: "string list list"
  ar_EnableInBG :: int
  ar_NotifyRecovered :: int
  ar_NotifyChannels :: string
  ar_NotifyChannelsJSON :: "string list"
  ar_NotifyGroups :: string
  ar_NotifyGroupsObj :: "UserGroup list"
  ar_NotifyGroupsJSON :: "string list"
  ar_NotifyRepeatStep :: int
  ar_NotifyMaxNumber :: int
  ar_RecoverDuration :: int
  ar_Callbacks :: string
  ar_CallbacksJSON :: "string list"
  ar_RunbookUrl :: string
  ar_AppendTags :: string
  ar_AppendTagsJSON :: "string list"
  ar_Annotations :: string
  ar_AnnotationsJSON :: "(string, string) go_map"
  ar_ExtraConfig :: string
  ar_ExtraConfigJSON :: json
  ar_CreateAt :: int
  ar_CreateBy :: string
  ar_UpdateAt :: int
  ar_UpdateBy :: string

definition zero_AlertRule :: AlertRule where
  "zero_AlertRule = \<lparr>ar_Id = 0, ar_GroupId = 0, ar_Cate = '''', ar_DatasourceIds = '''',
     ar_DatasourceIdsJson = [], ar_Cluster = '''', ar_Name = '''', ar_Note = '''',
     ar_Prod = '''', ar_Algorithm = '''', ar_AlgoParams = '''', ar_AlgoParamsJson = JNull,
     ar_Delay = 0, ar_Severity = 0, ar_Severities = [], ar_Disabled = 0,
     ar_PromForDuration = 0, ar_PromQl = '''', ar_RuleConfig = '''',
     ar_RuleConfigJson = JNull, ar_PromEvalInterval = 0, ar_EnableStime = '''',
     ar_EnableStimeJSON = '''', ar_EnableStimesJSON = [], ar_EnableEtime = '''',
     ar_EnableEtimeJSON = '''', ar_EnableEtimesJSON = [], ar_EnableDaysOfWeek = '''',
     ar_EnableDaysOfWeekJSON = [], ar_EnableDaysOfWeeksJSON = [], ar_EnableInBG = 0,
     ar_NotifyRecovered = 0, ar_NotifyChannels = '''', ar_NotifyChannelsJSON = [],
     ar_NotifyGroups = '''', ar_NotifyGroupsObj = [], ar_NotifyGroupsJSON = [],
     ar_NotifyRepeatStep = 0, ar_NotifyMaxNumber = 0, ar_RecoverDuration = 0,
     ar_Callbacks = '''', ar_CallbacksJSON = [], ar_RunbookUrl = '''', ar_AppendTags = '''',
     ar_AppendTagsJSON = [], ar_Annotations = '''', ar_AnnotationsJSON = [],
     ar_ExtraConfig = '''', ar_ExtraConfigJSON = JNull, ar_CreateAt = 0, ar_CreateBy = '''',
     ar_UpdateAt = 0, ar_UpdateBy = ''''\<rparr>"

subsection \<open>Events\<close>

record AlertCurEvent =
  ev_Id :: int
  ev_Cate :: string
  ev_Cluster :: string
  ev_DatasourceId :: int
  ev_GroupId :: int
  ev_GroupName :: string
  ev_Hash :: string
  ev_RuleId :: int
  ev_RuleName :: string
  ev_RuleNote :: string
  ev_RuleProd :: string
  ev_RuleAlgo :: string
  ev_Severity :: int
  ev_PromForDuration :: int
  ev_PromQl :: string
  ev_RuleConfig :: string
  ev_RuleConfigJson :: json
  ev_PromEvalInterval :: int
  ev_Callbacks :: string
  ev_CallbacksJSON :: "string list"
  ev_RunbookUrl :: string
  ev_NotifyRecovered :: int
  ev_NotifyChannels :: string
  ev_NotifyChannelsJSON :: "string list"
  ev_NotifyGroups :: string
  ev_NotifyGroupsJSON :: "string list"
  ev_NotifyGroupsObj :: "UserGroup list"
  ev_TargetIdent :: string
  ev_TargetNote :: string
  ev_TriggerTime :: int
  ev_TriggerValue :: string
  ev_Tags :: string
  ev_TagsJSON :: "string list"
  ev_TagsMap :: "(string, string) go_map"
  ev_Annotations :: string
  ev_AnnotationsJSON :: "(string, string) go_map"
  ev_IsRecovered :: bool
  ev_NotifyUsersObj :: "User list"
  ev_LastEvalTime :: int
  ev_LastEscalationNotifyTime :: int
  ev_LastSentTime :: int
  ev_NotifyCurNumber :: int
  ev_FirstTriggerTime :: int
  ev_ExtraConfig :: json
  ev_Status :: int
  ev_Claimant :: string
  ev_SubRuleId :: int

definition zero_AlertCurEvent :: AlertCurEvent where
  "zero_AlertCurEvent = \<lparr>ev_Id = 0, ev_Cate = '''', ev_Cluster = '''', ev_DatasourceId = 0, ev_GroupId = 0,
     ev_GroupName = '''', ev_Hash = '''', ev_RuleId = 0, ev_RuleName = '''',
     ev_RuleNote = '''', ev_RuleProd = '''', ev_RuleAlgo = '''', ev_Severity = 0,
     ev_PromForDuration = 0, ev_PromQl = '''', ev_RuleConfig = '''',
     ev_RuleConfigJson = JNull, ev_PromEvalInterval = 0, ev_Callbacks = '''',
     ev_CallbacksJSON = [], ev_RunbookUrl = '''', ev_NotifyRecovered = 0,
     ev_NotifyChannels = '''', ev_NotifyChannelsJSON = [], ev_NotifyGroups = '''',
     ev_NotifyGroupsJSON = [], ev_NotifyGroupsObj = [], ev_TargetIdent = '''',
     ev_TargetNote = '''', ev_TriggerTime = 0, ev_TriggerValue = '''', ev_Tags = '''',
     ev_TagsJSON = [], ev_TagsMap = [], ev_Annotations = '''', ev_AnnotationsJSON = [],
     ev_IsRecovered = False, ev_NotifyUsersObj = [], ev_LastEvalTime = 0,
     ev_LastEscalationNotifyTime = 0, ev_LastSentTime = 0, ev_NotifyCurNumber = 0,
     ev_FirstTriggerTime = 0, ev_ExtraConfig = JNull, ev_Status = 0, ev_Claimant = '''',
     ev_SubRuleId = 0\<rparr>"

record AlertHisEvent =
  he_Id :: int
  he_Cate :: string
  he_IsRecovered :: int
  he_DatasourceId :: int
  he_Cluster :: string
  he_GroupId :: int
  he_GroupName :: string
  he_Hash :: string
  he_RuleId :: int
  he_RuleName :: string
  he_RuleNote :: string
  he_RuleProd :: string
  he_RuleAlgo :: string
  he_Severity :: int
  he_PromForDuration :: int
  he_PromQl :: string
  he_RuleConfig :: string
  he_RuleConfigJson :: json
  he_PromEvalInterval :: int
  he_Callbacks :: string
  he_CallbacksJSON :: "string list"
  he_RunbookUrl :: string
  he_NotifyRecovered :: int
  he_NotifyChannels :: string
  he_NotifyChannelsJSON :: "string list"
  he_NotifyGroups :: string
  he_NotifyGroupsJSON :: "string list"
  he_NotifyGroupsObj :: "UserGroup list"
  he_TargetIdent :: string
  he_TargetNote :: string
  he_TriggerTime :: int
  he_TriggerValue :: string
  he_RecoverTime :: int
  he_LastEvalTime :: int
  he_Tags :: string
  he_TagsJSON :: "string list"
  he_Annotations :: string
  he_AnnotationsJSON :: "(string, string) go_map"
  he_NotifyCurNumber :: int
  he_FirstTriggerTime :: int
  he_ExtraConfig :: json

subsection \<open>Subscriptions\<close>

record AlertSubscribe =
  as_Id :: int
  as_Name :: string
  as_Disabled :: int
  as_GroupId :: int
  as_Prod :: string
  as_Cate :: string
  as_DatasourceIds :: string
  as_DatasourceIdsJson :: "int list"
  as_Cluster :: string
  as_RuleId :: int
  as_Severities :: string
  as_SeveritiesJson :: "int list"
  as_ForDuration :: int
  as_RuleName :: string
  as_Tags :: string
  as_RedefineSeverity :: int
  as_NewSeverity :: int
  as_RedefineChannels :: int
  as_NewChannels :: string
  as_UserGroupIds :: string
  as_UserGroups :: "UserGroup list"
  as_RedefineWebhooks :: int
  as_Webhooks :: string
  as_WebhooksJson :: "string list"
  as_ExtraConfig :: string
  as_ExtraConfigJson :: json
  as_CreateBy :: string
  as_CreateAt :: int
  as_UpdateBy :: string
  as_UpdateAt :: int
  as_ITags :: "TagFilter list"
  as_BusiGroups :: string
  as_IBusiGroups :: "TagFilter list"

subsection \<open>Code outside the repository\<close>

record lib =
  lib_md5 :: "string \<Rightarrow> string"
  lib_metric_string :: "(string, string) go_map \<Rightarrow> string"
  lib_compile :: "string \<Rightarrow> (string \<Rightarrow> bool) option"
  lib_tz :: "int \<Rightarrow> int"
  lib_render :: "string \<Rightarrow> AlertCurEvent \<Rightarrow> string + string"
  lib_decode_filters :: "string \<Rightarrow> TagFilter list option"
  lib_marshal :: "json \<Rightarrow> string"
  lib_unmarshal :: "string \<Rightarrow> json \<Rightarrow> json"
  lib_unmarshal_strmap :: "string \<Rightarrow> (string, string) go_map \<Rightarrow> (string, string) go_map"
  lib_dangerous :: "string \<Rightarrow> bool"

text \<open>
  \<open>lib_unmarshal s v\<close> and \<open>lib_unmarshal_strmap s m\<close> are the destination after
  \<^verbatim>\<open>json.Unmarshal([]byte(s), &dst)\<close> on a destination that held \<open>v\<close> or \<open>m\<close>, whose
  error the callers ignore; \<open>lib_decode_filters\<close> is \<open>None\<close> where the decoding of a filter list
  reports an error; \<open>lib_render\<close> is \<open>Inl\<close> with the message of a parse or execution error.
\<close>

text \<open>The look-ups the alerting pipeline makes in the memory caches (package \<open>memsto\<close>).\<close>

record env =
  env_lib :: lib
  env_rule :: "int \<Rightarrow> AlertRule option"
  env_target :: "string \<Rightarrow> Target option"
  env_busi_group :: "int \<Rightarrow> BusiGroup option"
  env_mutes :: "int \<Rightarrow> AlertMute list option"
  env_datasource :: "int \<Rightarrow> Datasource option"

definition json_of_strmap :: "(string, string) go_map \<Rightarrow> json" where
  "json_of_strmap m = JObj (map (\<lambda>(k, v). (k, JStr v)) m)"

end
