(* ===== verification/Alert_Models.thy ===== *)
theory Alert_Models
  imports Data_Model
begin

text \<open>
  The operations of the package \<open>models\<close> on rules, events, mutes, subscriptions and targets:
  validation, the copies between the column form and the front-end form of a struct, the in-memory
  form of an event read back from the database, the projection to a history record, and the
  matching predicates of subscriptions. Validation errors are \<open>Inl\<close> with the message. The lemmas
  are the round trips of the column forms, what validation guarantees about a rule, and the exact
  reach of the tag look-ups, which search for the key as a substring.
\<close>

subsection \<open>Data source selections (models/common.go)\<close>

definition DatasourceIdAll :: int where
  "DatasourceIdAll = 0"

fun MatchDatasource_loop :: "int list \<Rightarrow> int \<Rightarrow> bool" where
  "MatchDatasource_loop [] i = False"
| "MatchDatasource_loop (j # js) i = (if j = i then True else MatchDatasource_loop js i)"

definition MatchDatasource :: "int list \<Rightarrow> int \<Rightarrow> bool" where
  "MatchDatasource ids i = (if i = DatasourceIdAll then True else MatchDatasource_loop ids i)"

fun IsAllDatasource :: "int list \<Rightarrow> bool" where
  "IsAllDatasource [] = False"
| "IsAllDatasource (i # is) = (if i = 0 then True else IsAllDatasource is)"

lemma MatchDatasource_loop_iff: "MatchDatasource_loop ids i \<longleftrightarrow> i \<in> set ids"
  by (induction ids) auto

lemma MatchDatasource_iff: "MatchDatasource ids i \<longleftrightarrow> i = 0 \<or> i \<in> set ids"
  by (simp add: MatchDatasource_def DatasourceIdAll_def MatchDatasource_loop_iff)

lemma IsAllDatasource_iff: "IsAllDatasource ids \<longleftrightarrow> 0 \<in> set ids"
  by (induction ids) auto

subsection \<open>Tag filters (models/alert_mute.go)\<close>

definition prepare_filter :: "lib \<Rightarrow> TagFilter \<Rightarrow> TagFilter option" where
  "prepare_filter L f =
     (if tf_Func f = ''=~'' \<or> tf_Func f = ''!~''
      then (case lib_compile L (tf_Value f) of None \<Rightarrow> None
            | Some r \<Rightarrow> Some (f\<lparr>tf_Regexp := Some r\<rparr>))
      else if tf_Func f = ''in'' \<or> tf_Func f = ''not in''
      then Some (f\<lparr>tf_Vset := remdups (Fields (tf_Value f))\<rparr>)
      else Some f)"

fun prepare_filters :: "lib \<Rightarrow> TagFilter list \<Rightarrow> TagFilter list option" where
  "prepare_filters L [] = Some []"
| "prepare_filters L (f # fs) = (case prepare_filter L f of None \<Rightarrow> None
     | Some g \<Rightarrow> (case prepare_filters L fs of None \<Rightarrow> None | Some gs \<Rightarrow> Some (g # gs)))"

definition GetTagFilters :: "lib \<Rightarrow> string \<Rightarrow> TagFilter list option" where
  "GetTagFilters L jsonArr =
     (if length jsonArr = 0 then Some []
      else case lib_decode_filters L jsonArr of None \<Rightarrow> None
           | Some fs \<Rightarrow> prepare_filters L fs)"

text \<open>A filter is ready when its operator finds the data it reads.\<close>

definition filter_ready :: "TagFilter \<Rightarrow> bool" where
  "filter_ready f \<longleftrightarrow>
     (tf_Func f = ''=~'' \<or> tf_Func f = ''!~'' \<longrightarrow> tf_Regexp f \<noteq> None) \<and>
     (tf_Func f = ''in'' \<or> tf_Func f = ''not in'' \<longrightarrow>
        set (tf_Vset f) = set (Fields (tf_Value f)))"

lemma prepare_filter_ready: "prepare_filter L f = Some g \<Longrightarrow> filter_ready g"
  by (auto simp: prepare_filter_def filter_ready_def split: if_splits option.splits)

lemma prepare_filters_ready: "prepare_filters L fs = Some gs \<Longrightarrow> g \<in> set gs \<Longrightarrow> filter_ready g"
  by (induction L fs arbitrary: gs rule: prepare_filters.induct)
    (auto split: option.splits dest: prepare_filter_ready)

lemma GetTagFilters_ready: "GetTagFilters L j = Some gs \<Longrightarrow> g \<in> set gs \<Longrightarrow> filter_ready g"
  by (auto simp: GetTagFilters_def split: if_splits option.splits dest: prepare_filters_ready)

subsection \<open>Mutes (models/alert_mute.go)\<close>

definition AlertMute_Parse :: "lib \<Rightarrow> AlertMute \<Rightarrow> AlertMute option" where
  "AlertMute_Parse L m = (case GetTagFilters L (am_Tags m) of None \<Rightarrow> None
     | Some fs \<Rightarrow> Some (m\<lparr>am_ITags := fs\<rparr>))"

definition AlertMute_Verify :: "lib \<Rightarrow> AlertMute \<Rightarrow> string + AlertMute" where
  "AlertMute_Verify L m0 =
     (if am_GroupId m0 < 0 then Inl ''group_id invalid'' else
      let m1 = (if IsAllDatasource (am_DatasourceIdsJson m0)
                then m0\<lparr>am_DatasourceIdsJson := [0]\<rparr> else m0) in
      if am_Etime m1 \<le> am_Btime m1
      then Inl (''oops... etime('' @ Itoa (am_Etime m1) @ '') <= btime('' @ Itoa (am_Btime m1)
        @ '')'') else
      case AlertMute_Parse L m1 of None \<Rightarrow> Inl ''tags''
      | Some m2 \<Rightarrow> if length (am_ITags m2) = 0 then Inl ''tags is blank'' else Inr m2)"

lemma AlertMute_Verify_ok:
  assumes "AlertMute_Verify L m = Inr m'"
  shows "0 \<le> am_GroupId m'" "am_Btime m' < am_Etime m'" "am_ITags m' \<noteq> []"
    "\<forall>f \<in> set (am_ITags m'). filter_ready f"
    "0 \<in> set (am_DatasourceIdsJson m') \<longrightarrow> am_DatasourceIdsJson m' = [0]"
  using assms GetTagFilters_ready
  by (auto simp: AlertMute_Verify_def AlertMute_Parse_def IsAllDatasource_iff Let_def
      split: if_splits option.splits)

subsection \<open>Rules (models/alert_rule.go)\<close>

definition METRIC :: string where "METRIC = ''metric''"
definition HOST :: string where "HOST = ''host''"
definition LOKI :: string where "LOKI = ''loki''"
definition PROMETHEUS :: string where "PROMETHEUS = ''prometheus''"

lemmas rule_types = METRIC_def HOST_def LOKI_def PROMETHEUS_def

definition IsPrometheusRule :: "AlertRule \<Rightarrow> bool" where
  "IsPrometheusRule ar \<longleftrightarrow> ar_Prod ar = METRIC \<and> ar_Cate ar = PROMETHEUS"

definition IsLokiRule :: "AlertRule \<Rightarrow> bool" where
  "IsLokiRule ar \<longleftrightarrow> ar_Prod ar = LOKI \<or> ar_Cate ar = LOKI"

definition IsHostRule :: "AlertRule \<Rightarrow> bool" where
  "IsHostRule ar \<longleftrightarrow> ar_Prod ar = HOST"

definition GetRuleType :: "AlertRule \<Rightarrow> string" where
  "GetRuleType ar = (if ar_Prod ar = METRIC then ar_Cate ar else ar_Prod ar)"

fun check_append_tags :: "string list \<Rightarrow> string option" where
  "check_append_tags [] = None"
| "check_append_tags (t # ts) =
     (if length (Split t ''='') \<noteq> 2 then Some (''AppendTags('' @ t @ '') invalid'')
      else check_append_tags ts)"

fun check_gids :: "string \<Rightarrow> string list \<Rightarrow> string option" where
  "check_gids msg [] = None"
| "check_gids msg (g # gs) = (case ParseInt g of None \<Rightarrow> Some msg | Some _ \<Rightarrow> check_gids msg gs)"

text \<open>The settings validation fills in, in the order of the code.\<close>

definition fix_datasources :: "AlertRule \<Rightarrow> AlertRule" where
  "fix_datasources a = (if IsAllDatasource (ar_DatasourceIdsJson a)
     then a\<lparr>ar_DatasourceIdsJson := [0]\<rparr> else a)"

definition fix_prod :: "AlertRule \<Rightarrow> AlertRule" where
  "fix_prod a = (if ar_Prod a = '''' then a\<lparr>ar_Prod := METRIC\<rparr> else a)"

definition fix_cate :: "AlertRule \<Rightarrow> AlertRule" where
  "fix_cate a = (if ar_Cate a = '''' then a\<lparr>ar_Cate := PROMETHEUS\<rparr> else a)"

definition fix_interval :: "AlertRule \<Rightarrow> AlertRule" where
  "fix_interval a = (if ar_PromEvalInterval a \<le> 0 then a\<lparr>ar_PromEvalInterval := 15\<rparr> else a)"

definition AlertRule_Verify :: "lib \<Rightarrow> AlertRule \<Rightarrow> string + AlertRule" where
  "AlertRule_Verify L a0 =
     (if ar_GroupId a0 < 0 then Inl (''GroupId('' @ Itoa (ar_GroupId a0) @ '') invalid'') else
      let a1 = fix_datasources a0 in
      if lib_dangerous L (ar_Name a1) then Inl ''Name has invalid characters'' else
      if ar_Name a1 = '''' then Inl ''name is blank'' else
      let a3 = fix_cate (fix_prod a1) in
      if ar_RuleConfig a3 = '''' then Inl ''rule_config is blank'' else
      let a4 = fix_interval a3; a5 = a4\<lparr>ar_AppendTags := TrimSpace (ar_AppendTags a4)\<rparr> in
      case check_append_tags (Fields (ar_AppendTags a5)) of Some e \<Rightarrow> Inl e | None \<Rightarrow>
      (case check_gids (''NotifyGroups('' @ ar_NotifyGroups a5 @ '') invalid'')
              (Fields (ar_NotifyGroups a5)) of Some e \<Rightarrow> Inl e
       | None \<Rightarrow> Inr a5))"

lemma fix_frame [simp, frame]:
  "ar_GroupId (fix_datasources a) = ar_GroupId a" "ar_GroupId (fix_prod a) = ar_GroupId a"
  "ar_GroupId (fix_cate a) = ar_GroupId a" "ar_GroupId (fix_interval a) = ar_GroupId a"
  "ar_Name (fix_datasources a) = ar_Name a" "ar_Name (fix_prod a) = ar_Name a"
  "ar_Name (fix_cate a) = ar_Name a" "ar_Name (fix_interval a) = ar_Name a"
  "ar_RuleConfig (fix_datasources a) = ar_RuleConfig a"
  "ar_RuleConfig (fix_prod a) = ar_RuleConfig a"
  "ar_RuleConfig (fix_cate a) = ar_RuleConfig a"
  "ar_RuleConfig (fix_interval a) = ar_RuleConfig a"
  "ar_DatasourceIdsJson (fix_prod a) = ar_DatasourceIdsJson a"
  "ar_DatasourceIdsJson (fix_cate a) = ar_DatasourceIdsJson a"
  "ar_DatasourceIdsJson (fix_interval a) = ar_DatasourceIdsJson a"
  "ar_Prod (fix_cate a) = ar_Prod a" "ar_Prod (fix_interval a) = ar_Prod a"
  "ar_Cate (fix_interval a) = ar_Cate a"
  by (simp_all add: fix_datasources_def fix_prod_def fix_cate_def fix_interval_def)

lemma fix_established [simp]:
  "ar_Prod (fix_prod a) \<noteq> ''''" "ar_Cate (fix_cate a) \<noteq> ''''"
  "0 < ar_PromEvalInterval (fix_interval a)"
  by (auto simp: fix_prod_def fix_cate_def fix_interval_def rule_types)

lemma fix_datasources_all:
  "0 \<in> set (ar_DatasourceIdsJson (fix_datasources a)) \<Longrightarrow>
     ar_DatasourceIdsJson (fix_datasources a) = [0]"
  by (auto simp: fix_datasources_def IsAllDatasource_iff)

lemma check_append_tags_None:
  "check_append_tags ts = None \<longleftrightarrow> (\<forall>t \<in> set ts. length (Split t ''='') = 2)"
  by (induction ts) auto

lemma check_gids_None: "check_gids msg gs = None \<longleftrightarrow> (\<forall>g \<in> set gs. ParseInt g \<noteq> None)"
  by (induction gs) (auto split: option.splits)

lemma split_acc_length:
  "length (split_acc [c] acc 0 s) = Suc (length (filter ((=) c) s))"
  by (induction "[c]" acc "0::nat" s rule: split_acc.induct) auto

lemma Split_char_length: "length (Split s [c]) = Suc (length (filter ((=) c) s))"
  by (simp add: Split_def split_acc_length)

lemma Split_two_Contains: "length (Split t [c]) = 2 \<Longrightarrow> Contains t [c]"
proof (rule ccontr)
  assume "length (Split t [c]) = 2" "\<not> Contains t [c]"
  then have "filter ((=) c) t = []" "length (filter ((=) c) t) = 1"
    by (auto simp: Split_char_length Contains_char filter_empty_conv)
  then show False by simp
qed

definition rule_valid :: "AlertRule \<Rightarrow> bool" where
  "rule_valid a \<longleftrightarrow> 0 \<le> ar_GroupId a \<and> ar_Name a \<noteq> '''' \<and> ar_Prod a \<noteq> '''' \<and> ar_Cate a \<noteq> '''' \<and>
     ar_RuleConfig a \<noteq> '''' \<and> 0 < ar_PromEvalInterval a \<and>
     (0 \<in> set (ar_DatasourceIdsJson a) \<longrightarrow> ar_DatasourceIdsJson a = [0]) \<and>
     (\<forall>t \<in> set (Fields (ar_AppendTags a)). length (Split t ''='') = 2) \<and>
     (\<forall>g \<in> set (Fields (ar_NotifyGroups a)). ParseInt g \<noteq> None)"

lemma AlertRule_Verify_valid: "AlertRule_Verify L a = Inr a' \<Longrightarrow> rule_valid a'"
  by (auto simp: AlertRule_Verify_def rule_valid_def Let_def
      check_append_tags_None check_gids_None split: if_splits option.splits
      dest: fix_datasources_all)

subsection \<open>Events generated from a rule\<close>

definition UpdateEvent :: "AlertRule \<Rightarrow> AlertCurEvent \<Rightarrow> AlertCurEvent" where
  "UpdateEvent ar e = e\<lparr>
     ev_GroupId := ar_GroupId ar, ev_Cate := ar_Cate ar, ev_RuleId := ar_Id ar,
     ev_RuleName := ar_Name ar, ev_RuleNote := ar_Note ar, ev_RuleProd := ar_Prod ar,
     ev_RuleAlgo := ar_Algorithm ar, ev_PromForDuration := ar_PromForDuration ar,
     ev_PromQl := ar_PromQl ar, ev_RuleConfig := ar_RuleConfig ar,
     ev_RuleConfigJson := ar_RuleConfigJson ar, ev_PromEvalInterval := ar_PromEvalInterval ar,
     ev_Callbacks := ar_Callbacks ar, ev_CallbacksJSON := ar_CallbacksJSON ar,
     ev_RunbookUrl := ar_RunbookUrl ar, ev_NotifyRecovered := ar_NotifyRecovered ar,
     ev_NotifyChannels := ar_NotifyChannels ar, ev_NotifyChannelsJSON := ar_NotifyChannelsJSON ar,
     ev_NotifyGroups := ar_NotifyGroups ar, ev_NotifyGroupsJSON := ar_NotifyGroupsJSON ar\<rparr>"

definition GenerateNewEvent :: "AlertRule \<Rightarrow> AlertCurEvent" where
  "GenerateNewEvent ar = UpdateEvent ar zero_AlertCurEvent"

text \<open>The fields that drive the alert state machine; \<open>UpdateEvent\<close> copies rule settings only.\<close>

lemma UpdateEvent_frame [simp, frame]:
  "ev_Hash (UpdateEvent ar e) = ev_Hash e"
  "ev_IsRecovered (UpdateEvent ar e) = ev_IsRecovered e"
  "ev_LastEvalTime (UpdateEvent ar e) = ev_LastEvalTime e"
  "ev_LastSentTime (UpdateEvent ar e) = ev_LastSentTime e"
  "ev_NotifyCurNumber (UpdateEvent ar e) = ev_NotifyCurNumber e"
  "ev_TriggerTime (UpdateEvent ar e) = ev_TriggerTime e"
  "ev_FirstTriggerTime (UpdateEvent ar e) = ev_FirstTriggerTime e"
  "ev_Severity (UpdateEvent ar e) = ev_Severity e"
  "ev_TagsMap (UpdateEvent ar e) = ev_TagsMap e"
  "ev_TriggerValue (UpdateEvent ar e) = ev_TriggerValue e"
  "ev_DatasourceId (UpdateEvent ar e) = ev_DatasourceId e"
  "ev_PromEvalInterval (UpdateEvent ar e) = ar_PromEvalInterval ar"
  by (simp_all add: UpdateEvent_def)

subsection \<open>Column and front-end forms of an event (models/alert_cur_event.go)\<close>

definition AlertCurEvent_DB2FE :: "lib \<Rightarrow> AlertCurEvent \<Rightarrow> AlertCurEvent" where
  "AlertCurEvent_DB2FE L e = e\<lparr>
     ev_NotifyChannelsJSON := Fields (ev_NotifyChannels e),
     ev_NotifyGroupsJSON := Fields (ev_NotifyGroups e),
     ev_CallbacksJSON := Fields (ev_Callbacks e),
     ev_TagsJSON := Split (ev_Tags e) '',,'',
     ev_AnnotationsJSON := lib_unmarshal_strmap L (ev_Annotations e) (ev_AnnotationsJSON e),
     ev_RuleConfigJson := lib_unmarshal L (ev_RuleConfig e) (ev_RuleConfigJson e)\<rparr>"

definition AlertCurEvent_FE2DB :: "lib \<Rightarrow> AlertCurEvent \<Rightarrow> AlertCurEvent" where
  "AlertCurEvent_FE2DB L e = e\<lparr>
     ev_NotifyChannels := Join (ev_NotifyChannelsJSON e) '' '',
     ev_NotifyGroups := Join (ev_NotifyGroupsJSON e) '' '',
     ev_Callbacks := Join (ev_CallbacksJSON e) '' '',
     ev_Tags := Join (ev_TagsJSON e) '',,'',
     ev_Annotations := lib_marshal L (json_of_strmap (ev_AnnotationsJSON e)),
     ev_RuleConfig := lib_marshal L (ev_RuleConfigJson e)\<rparr>"

fun tags_of_pairs :: "string list \<Rightarrow> (string, string) go_map \<Rightarrow> (string, string) go_map" where
  "tags_of_pairs [] m = m"
| "tags_of_pairs (t # ts) m =
     (let pair = TrimSpace t; arr = Split pair ''='' in
      if pair = '''' then tags_of_pairs ts m
      else if length arr \<noteq> 2 then tags_of_pairs ts m
      else tags_of_pairs ts (go_set (arr ! 0) (arr ! 1) m))"

definition DB2Mem :: "AlertCurEvent \<Rightarrow> AlertCurEvent" where
  "DB2Mem e0 =
     (let e1 = e0\<lparr>ev_IsRecovered := False,
                  ev_NotifyGroupsJSON := Fields (ev_NotifyGroups e0),
                  ev_CallbacksJSON := Fields (ev_Callbacks e0),
                  ev_NotifyChannelsJSON := Fields (ev_NotifyChannels e0),
                  ev_TagsJSON := Split (ev_Tags e0) '',,''\<rparr>
      in e1\<lparr>ev_TagsMap := tags_of_pairs (ev_TagsJSON e1) []\<rparr>)"

lemma DB2Mem_frame [simp, frame]:
  "ev_Hash (DB2Mem e) = ev_Hash e"
  "ev_IsRecovered (DB2Mem e) = False"
  "ev_NotifyCurNumber (DB2Mem e) = ev_NotifyCurNumber e"
  "ev_LastSentTime (DB2Mem e) = ev_LastSentTime e"
  "ev_LastEvalTime (DB2Mem e) = ev_LastEvalTime e"
  "ev_FirstTriggerTime (DB2Mem e) = ev_FirstTriggerTime e"
  "ev_TriggerTime (DB2Mem e) = ev_TriggerTime e"
  by (simp_all add: DB2Mem_def Let_def)

definition ToHis :: "AlertCurEvent \<Rightarrow> AlertHisEvent" where
  "ToHis e =
     \<lparr>he_Id = 0, he_Cate = ev_Cate e, he_IsRecovered = (if ev_IsRecovered e then 1 else 0),
      he_DatasourceId = ev_DatasourceId e, he_Cluster = ev_Cluster e, he_GroupId = ev_GroupId e,
      he_GroupName = ev_GroupName e, he_Hash = ev_Hash e, he_RuleId = ev_RuleId e,
      he_RuleName = ev_RuleName e, he_RuleNote = ev_RuleNote e, he_RuleProd = ev_RuleProd e,
      he_RuleAlgo = ev_RuleAlgo e, he_Severity = ev_Severity e,
      he_PromForDuration = ev_PromForDuration e, he_PromQl = ev_PromQl e,
      he_RuleConfig = ev_RuleConfig e, he_RuleConfigJson = ev_RuleConfigJson e,
      he_PromEvalInterval = ev_PromEvalInterval e, he_Callbacks = ev_Callbacks e,
      he_CallbacksJSON = [], he_RunbookUrl = ev_RunbookUrl e,
      he_NotifyRecovered = ev_NotifyRecovered e, he_NotifyChannels = ev_NotifyChannels e,
      he_NotifyChannelsJSON = [], he_NotifyGroups = ev_NotifyGroups e, he_NotifyGroupsJSON = [],
      he_NotifyGroupsObj = [], he_TargetIdent = ev_TargetIdent e, he_TargetNote = ev_TargetNote e,
      he_TriggerTime = ev_TriggerTime e, he_TriggerValue = ev_TriggerValue e,
      he_RecoverTime = (if ev_IsRecovered e then ev_LastEvalTime e else 0),
      he_LastEvalTime = ev_LastEvalTime e, he_Tags = ev_Tags e, he_TagsJSON = [],
      he_Annotations = ev_Annotations e, he_AnnotationsJSON = ev_AnnotationsJSON e,
      he_NotifyCurNumber = ev_NotifyCurNumber e, he_FirstTriggerTime = ev_FirstTriggerTime e,
      he_ExtraConfig = JNull\<rparr>"

definition GetField :: "AlertCurEvent \<Rightarrow> string \<Rightarrow> string" where
  "GetField e f =
     (if f = ''cluster'' then ev_Cluster e
      else if f = ''group_id'' then Itoa (ev_GroupId e)
      else if f = ''group_name'' then ev_GroupName e
      else if f = ''rule_id'' then Itoa (ev_RuleId e)
      else if f = ''rule_name'' then ev_RuleName e
      else if f = ''rule_note'' then ev_RuleNote e
      else if f = ''severity'' then Itoa (ev_Severity e)
      else if f = ''runbook_url'' then ev_RunbookUrl e
      else if f = ''target_ident'' then ev_TargetIdent e
      else if f = ''target_note'' then ev_TargetNote e
      else if f = ''callbacks'' then ev_Callbacks e
      else if f = ''annotations'' then ev_Annotations e
      else '''')"

fun tag_value :: "string list \<Rightarrow> string \<Rightarrow> string" where
  "tag_value [] key = ''''"
| "tag_value (t # ts) key =
     (case Index t (key @ ''='') of Some i \<Rightarrow> drop (length (key @ ''='')) t
      | None \<Rightarrow> tag_value ts key)"

definition GetTagValue :: "AlertCurEvent \<Rightarrow> string \<Rightarrow> string" where
  "GetTagValue e key = tag_value (ev_TagsJSON e) key"

record AggrRule =
  ag_Type :: string
  ag_Value :: string

definition card_part :: "AlertCurEvent \<Rightarrow> AggrRule \<Rightarrow> string" where
  "card_part e r =
     (let a = (if ag_Type r = ''field'' then GetField e (ag_Value r) else '''');
          b = (if ag_Type r = ''tagkey'' then GetTagValue e (ag_Value r) else a)
      in if length b = 0 then ''Null'' else b)"

definition GenCardTitle :: "AlertCurEvent \<Rightarrow> AggrRule list \<Rightarrow> string" where
  "GenCardTitle e rules = Join (map (card_part e) rules) ''::''"

definition ParseRule :: "lib \<Rightarrow> string \<Rightarrow> AlertCurEvent \<Rightarrow> string + AlertCurEvent" where
  "ParseRule L field e =
     (let f = TrimSpace (GetField e field) in
      if f = '''' then Inr e else
      case lib_render L (''{{$labels := .TagsMap}}'' @ ''{{$value := .TriggerValue}}'' @ f) e of
        Inl err \<Rightarrow> Inl err
      | Inr body \<Rightarrow>
          let e1 = (if field = ''rule_name'' then e\<lparr>ev_RuleName := body\<rparr> else e);
              e2 = (if field = ''rule_note'' then e1\<lparr>ev_RuleNote := body\<rparr> else e1);
              e3 = (if field = ''annotations''
                    then e2\<lparr>ev_Annotations := body,
                            ev_AnnotationsJSON := lib_unmarshal_strmap L body (ev_AnnotationsJSON e2)\<rparr>
                    else e2)
          in Inr e3)"

lemma tag_value_found:
  assumes "\<forall>t \<in> set ts. \<not> Contains t (key @ ''='')"
  shows "tag_value (ts @ (key @ ''='' @ v) # us) key = v"
  using assms
proof (induction ts)
  case Nil
  have "Index (key @ ''='' @ v) (key @ ''='') = Some 0" by (rule Index_prefix) simp
  then show ?case by simp
next
  case (Cons t ts)
  then have "Index t (key @ ''='') = None" by (auto simp: Contains_def)
  then show ?case using Cons by simp
qed

subsection \<open>Round trips\<close>

lemma FE2DB_DB2FE_lists:
  assumes "\<forall>w \<in> set (ev_NotifyChannelsJSON e). word w" "\<forall>w \<in> set (ev_NotifyGroupsJSON e). word w"
    "\<forall>w \<in> set (ev_CallbacksJSON e). word w"
    "ev_TagsJSON e \<noteq> []" "\<forall>t \<in> set (ev_TagsJSON e). CHR '','' \<notin> set t"
  shows "ev_NotifyChannelsJSON (AlertCurEvent_DB2FE L (AlertCurEvent_FE2DB L e)) = ev_NotifyChannelsJSON e"
    "ev_NotifyGroupsJSON (AlertCurEvent_DB2FE L (AlertCurEvent_FE2DB L e)) = ev_NotifyGroupsJSON e"
    "ev_CallbacksJSON (AlertCurEvent_DB2FE L (AlertCurEvent_FE2DB L e)) = ev_CallbacksJSON e"
    "ev_TagsJSON (AlertCurEvent_DB2FE L (AlertCurEvent_FE2DB L e)) = ev_TagsJSON e"
  using assms Split_Join [of "ev_TagsJSON e" "CHR '',''" "'',''"]
  by (auto simp: AlertCurEvent_DB2FE_def AlertCurEvent_FE2DB_def Fields_Join)

subsection \<open>Subscriptions (models/alert_subscribe.go)\<close>

definition IsDisabled :: "AlertSubscribe \<Rightarrow> bool" where
  "IsDisabled s \<longleftrightarrow> as_Disabled s = 1"

definition MatchProd :: "AlertSubscribe \<Rightarrow> string \<Rightarrow> bool" where
  "MatchProd s p = (if as_Prod s = '''' then True else as_Prod s = p)"

fun MatchCluster_loop :: "int list \<Rightarrow> int \<Rightarrow> bool" where
  "MatchCluster_loop [] dsId = False"
| "MatchCluster_loop (i # is) dsId = (if i = dsId \<or> i = 0 then True else MatchCluster_loop is dsId)"

definition MatchCluster :: "AlertSubscribe \<Rightarrow> int \<Rightarrow> bool" where
  "MatchCluster s dsId =
     (if length (as_DatasourceIdsJson s) = 0 \<or> dsId = 0 then True
      else MatchCluster_loop (as_DatasourceIdsJson s) dsId)"

lemma MatchCluster_loop_iff: "MatchCluster_loop ids d \<longleftrightarrow> d \<in> set ids \<or> 0 \<in> set ids"
  by (induction ids) auto

lemma MatchCluster_iff:
  "MatchCluster s d \<longleftrightarrow> as_DatasourceIdsJson s = [] \<or> d = 0 \<or> d \<in> set (as_DatasourceIdsJson s)
     \<or> 0 \<in> set (as_DatasourceIdsJson s)"
  by (auto simp: MatchCluster_def MatchCluster_loop_iff)

definition ModifyEvent :: "AlertSubscribe \<Rightarrow> AlertCurEvent \<Rightarrow> AlertCurEvent" where
  "ModifyEvent s e =
     (let e1 = (if as_RedefineSeverity s = 1 then e\<lparr>ev_Severity := as_NewSeverity s\<rparr> else e);
          e2 = (if as_RedefineChannels s = 1
                then e1\<lparr>ev_NotifyChannels := as_NewChannels s,
                        ev_NotifyChannelsJSON := Fields (as_NewChannels s)\<rparr> else e1);
          e3 = (if as_RedefineWebhooks s = 1
                then e2\<lparr>ev_Callbacks := as_Webhooks s, ev_CallbacksJSON := as_WebhooksJson s\<rparr>
                else e2)
      in e3\<lparr>ev_NotifyGroups := as_UserGroupIds s,
            ev_NotifyGroupsJSON := Fields (as_UserGroupIds s)\<rparr>)"

definition AlertSubscribe_Parse :: "lib \<Rightarrow> AlertSubscribe \<Rightarrow> AlertSubscribe option" where
  "AlertSubscribe_Parse L s = (case GetTagFilters L (as_Tags s) of None \<Rightarrow> None
     | Some its \<Rightarrow> (case GetTagFilters L (as_BusiGroups s) of None \<Rightarrow> None
       | Some bgs \<Rightarrow> Some (s\<lparr>as_ITags := its, as_IBusiGroups := bgs\<rparr>)))"

definition AlertSubscribe_Verify :: "lib \<Rightarrow> AlertSubscribe \<Rightarrow> string + AlertSubscribe" where
  "AlertSubscribe_Verify L s0 =
     (let s1 = (if IsAllDatasource (as_DatasourceIdsJson s0)
                then s0\<lparr>as_DatasourceIdsJson := [0]\<rparr> else s0) in
      case AlertSubscribe_Parse L s1 of None \<Rightarrow> Inl ''tags''
      | Some s2 \<Rightarrow>
        if length (as_SeveritiesJson s2) = 0 then Inl ''severities is required'' else
        case check_gids ''user_group_ids invalid'' (Fields (as_UserGroupIds s2)) of
          Some e \<Rightarrow> Inl e | None \<Rightarrow> Inr s2)"

lemma AlertSubscribe_Verify_ok:
  assumes "AlertSubscribe_Verify L s = Inr s'"
  shows "as_SeveritiesJson s' \<noteq> []"
    "\<forall>f \<in> set (as_ITags s') \<union> set (as_IBusiGroups s'). filter_ready f"
    "\<forall>g \<in> set (Fields (as_UserGroupIds s')). ParseInt g \<noteq> None"
  using assms GetTagFilters_ready
  by (auto simp: AlertSubscribe_Verify_def AlertSubscribe_Parse_def Let_def check_gids_None
      split: if_splits option.splits)

subsection \<open>Targets (models/target.go)\<close>

fun target_tags :: "string list \<Rightarrow> (string, string) go_map \<Rightarrow> (string, string) go_map" where
  "target_tags [] m = m"
| "target_tags (t # ts) m =
     (let arr = Split t ''='' in
      if length arr \<noteq> 2 then target_tags ts m
      else target_tags ts (go_set (arr ! 0) (arr ! 1) m))"

definition FillTagsMap :: "Target \<Rightarrow> Target" where
  "FillTagsMap t =
     t\<lparr>tg_TagsJSON := Fields (tg_Tags t), tg_TagsMap := target_tags (Fields (tg_Tags t)) []\<rparr>"

fun add_tags :: "string \<Rightarrow> string list \<Rightarrow> string" where
  "add_tags tags [] = tags"
| "add_tags tags (t # ts) =
     (if \<not> Contains tags (t @ '' '') then add_tags (tags @ t @ '' '') ts else add_tags tags ts)"

text \<open>The \<open>tags\<close> column \<open>AddTags\<close> and \<open>DelTags\<close> write.\<close>

definition AddTags :: "Target \<Rightarrow> string list \<Rightarrow> string" where
  "AddTags t tags = Join (sort (Fields (add_tags (tg_Tags t) tags))) '' '' @ '' ''"

definition DelTags :: "Target \<Rightarrow> string list \<Rightarrow> string" where
  "DelTags t tags = fold (\<lambda>tag s. ReplaceAll s (tag @ '' '') '''') tags (tg_Tags t)"

end
