(* ===== verification/Alert_Common.thy ===== *)
theory Alert_Common
  imports Alert_Models
begin

text \<open>
  The package \<open>alert/common\<close>: anomaly points and their conversion from query results
  (\<open>conv.go\<close>), the key of a rule and the matching of event tags against filters (\<open>key.go\<close>). A
  regular expression operator on a filter that was never prepared dereferences a nil pointer, so
  matching is a result; the lemmas show that prepared filters never panic and give the meaning of
  each operator.
\<close>

subsection \<open>Query results\<close>

text \<open>The value types of the Prometheus client: an instant vector, a range matrix, a scalar, a
  string; time stamps are in milliseconds.\<close>

type_synonym metric = "(string, string) go_map"

datatype prom_value =
    Vector "(metric \<times> int \<times> float64) list"
  | Matrix "(metric \<times> (int \<times> float64) list) list"
  | Scalar int float64
  | Prom_String string

definition unix_of_ms :: "int \<Rightarrow> int" where
  "unix_of_ms t = go_div t 1000"

record AnomalyPoint =
  ap_Key :: string
  ap_Labels :: metric
  ap_Timestamp :: int
  ap_Value :: float64
  ap_Severity :: int
  ap_Triggered :: bool
  ap_Query :: string

definition NewAnomalyPoint ::
    "string \<Rightarrow> (string, string) go_map \<Rightarrow> int \<Rightarrow> float64 \<Rightarrow> int \<Rightarrow> AnomalyPoint" where
  "NewAnomalyPoint key labels ts v severity =
     \<lparr>ap_Key = key, ap_Labels = go_set ''__name__'' key labels, ap_Timestamp = ts,
      ap_Value = v, ap_Severity = severity, ap_Triggered = False, ap_Query = ''''\<rparr>"

definition point_of :: "lib \<Rightarrow> metric \<Rightarrow> int \<Rightarrow> float64 \<Rightarrow> AnomalyPoint" where
  "point_of L m t v = \<lparr>ap_Key = lib_metric_string L m, ap_Labels = m,
     ap_Timestamp = unix_of_ms t, ap_Value = v, ap_Severity = 0, ap_Triggered = False,
     ap_Query = ''''\<rparr>"

fun convert_vector :: "lib \<Rightarrow> (metric \<times> int \<times> float64) list \<Rightarrow> AnomalyPoint list" where
  "convert_vector L [] = []"
| "convert_vector L ((m, t, v) # xs) =
     (if IsNaN v then convert_vector L xs else point_of L m t v # convert_vector L xs)"

text \<open>A series without samples ends the conversion of a matrix: what follows it is dropped.\<close>

fun convert_matrix :: "lib \<Rightarrow> (metric \<times> (int \<times> float64) list) list \<Rightarrow> AnomalyPoint list" where
  "convert_matrix L [] = []"
| "convert_matrix L ((m, vs) # xs) =
     (if length vs = 0 then []
      else case last vs of (t, v) \<Rightarrow>
        (if IsNaN v then convert_matrix L xs else point_of L m t v # convert_matrix L xs))"

fun ConvertAnomalyPoints :: "lib \<Rightarrow> prom_value option \<Rightarrow> AnomalyPoint list" where
  "ConvertAnomalyPoints L None = []"
| "ConvertAnomalyPoints L (Some (Vector items)) = convert_vector L items"
| "ConvertAnomalyPoints L (Some (Matrix items)) = convert_matrix L items"
| "ConvertAnomalyPoints L (Some (Scalar t v)) =
     (if IsNaN v then []
      else [\<lparr>ap_Key = ''{}'', ap_Labels = [], ap_Timestamp = unix_of_ms t, ap_Value = v,
             ap_Severity = 0, ap_Triggered = False, ap_Query = ''''\<rparr>])"
| "ConvertAnomalyPoints L (Some (Prom_String s)) = []"

lemma convert_vector_points:
  "convert_vector L items = map (\<lambda>(m, t, v). point_of L m t v) (filter (\<lambda>(m, t, v). \<not> IsNaN v) items)"
  by (induction L items rule: convert_vector.induct) auto

lemma convert_matrix_not_NaN: "p \<in> set (convert_matrix L items) \<Longrightarrow> \<not> IsNaN (ap_Value p)"
  by (induction L items rule: convert_matrix.induct)
    (auto simp: point_of_def split: if_splits prod.splits)

lemma convert_matrix_prefix:
  "\<forall>(m, vs) \<in> set xs. vs \<noteq> [] \<Longrightarrow> convert_matrix L (xs @ (m, []) # ys) = convert_matrix L xs"
  by (induction L xs rule: convert_matrix.induct) (auto split: prod.splits)

lemma convert_matrix_complete:
  "\<forall>(m, vs) \<in> set xs. vs \<noteq> [] \<Longrightarrow> convert_matrix L xs =
     map (\<lambda>(m, vs). point_of L m (fst (last vs)) (snd (last vs)))
       (filter (\<lambda>(m, vs). \<not> IsNaN (snd (last vs))) xs)"
  by (induction L xs rule: convert_matrix.induct) (auto split: prod.splits)

subsection \<open>Readable values\<close>

definition round_half_even :: "rat \<Rightarrow> int" where
  "round_half_even q =
     (let f = \<lfloor>q\<rfloor>; r = q - of_int f in
      if r < 1 / 2 then f else if 1 / 2 < r then f + 1 else if even f then f else f + 1)"

definition pad5 :: "nat \<Rightarrow> string" where
  "pad5 n = map digit [n div 10000, n div 1000, n div 100, n div 10, n]"

fun Sprintf_5f :: "float64 \<Rightarrow> string" where
  "Sprintf_5f NaN = ''NaN''"
| "Sprintf_5f PosInf = ''+Inf''"
| "Sprintf_5f NegInf = ''-Inf''"
| "Sprintf_5f (Finite q) =
     (let n = nat (round_half_even (\<bar>q\<bar> * 100000)) in
      (if q < 0 then ''-'' else '''') @ show_nat (n div 100000) @ ''.'' @ pad5 (n mod 100000))"

definition ReadableValue :: "AnomalyPoint \<Rightarrow> string" where
  "ReadableValue p =
     TrimRight_by (\<lambda>c. c = CHR ''.'') (TrimRight_by (\<lambda>c. c = CHR ''0'') (Sprintf_5f (ap_Value p)))"

lemma round_half_even_int: "round_half_even (of_int i) = i"
  by (simp add: round_half_even_def)

lemma TrimRight_by_all: "\<forall>c \<in> set t. p c \<Longrightarrow> TrimRight_by p (s @ t) = TrimRight_by p s"
  by (induction t rule: rev_induct) (auto simp: TrimRight_by_append simp flip: append_assoc)

lemma TrimRight_by_keep: "s \<noteq> [] \<Longrightarrow> \<not> p (last s) \<Longrightarrow> TrimRight_by p s = s"
  by (cases s rule: rev_cases) (auto simp: TrimRight_by_append)

lemma Itoa_last: "\<exists>d. last (Itoa i) = digit d"
proof -
  have "last (show_nat n) \<in> set (show_nat n)" for n
    using show_nat_nonempty by (rule last_in_set)
  then have "\<exists>d. last (show_nat n) = digit d" for n using show_nat_digits by blast
  then show ?thesis by (auto simp: Itoa_def show_nat_nonempty)
qed

lemma digit_not_dot: "digit d \<noteq> CHR ''.''"
  using digit_val_digit [of d] by (auto simp: digit_val_def)

lemma Sprintf_5f_int: "Sprintf_5f (Finite (of_int i)) = Itoa i @ ''.00000''"
proof -
  have "\<bar>of_int i :: rat\<bar> * 100000 = of_int (\<bar>i\<bar> * 100000)" by simp
  then have r: "round_half_even (\<bar>of_int i :: rat\<bar> * 100000) = \<bar>i\<bar> * 100000"
    by (metis round_half_even_int)
  have "nat (\<bar>i\<bar> * 100000) = nat \<bar>i\<bar> * 100000" by (simp add: nat_mult_distrib)
  then show ?thesis
    by (auto simp: r Let_def pad5_def digit_def Itoa_def)
qed

lemma ReadableValue_int: "ap_Value p = Finite (of_int i) \<Longrightarrow> ReadableValue p = Itoa i"
proof -
  assume v: "ap_Value p = Finite (of_int i)"
  have "TrimRight_by (\<lambda>c. c = CHR ''0'') (Itoa i @ ''.00000'') = Itoa i @ ''.''"
    using TrimRight_by_all [of "''00000''" "\<lambda>c. c = CHR ''0''" "Itoa i @ ''.''"]
    by (simp add: TrimRight_by_append)
  moreover have "TrimRight_by (\<lambda>c. c = CHR ''.'') (Itoa i @ ''.'') = Itoa i"
  proof -
    have "Itoa i \<noteq> []" by (simp add: Itoa_def show_nat_nonempty)
    moreover have "last (Itoa i) \<noteq> CHR ''.''" using Itoa_last [of i] digit_not_dot by metis
    ultimately show ?thesis by (simp add: TrimRight_by_append TrimRight_by_keep)
  qed
  ultimately show ?thesis using v by (simp add: ReadableValue_def Sprintf_5f_int del: Sprintf_5f.simps)
qed

subsection \<open>Rule keys\<close>

definition RuleKey :: "int \<Rightarrow> int \<Rightarrow> string" where
  "RuleKey datasourceId i = ''alert-'' @ Itoa datasourceId @ ''-'' @ Itoa i"

lemma append_sep_inj:
  "c \<notin> set a \<Longrightarrow> c \<notin> set b \<Longrightarrow> a @ c # r = b @ c # r' \<Longrightarrow> a = b \<and> r = r'"
  by (induction a arbitrary: b) (auto simp: Cons_eq_append_conv append_eq_Cons_conv)

lemma show_nat_no_minus: "CHR ''-'' \<notin> set (show_nat n)"
  using show_nat_digits digit_no_sign(1) by metis

lemma Itoa_minus_inj:
  "Itoa d @ CHR ''-'' # r = Itoa d' @ CHR ''-'' # r' \<Longrightarrow> d = d' \<and> r = r'"
proof -
  assume e: "Itoa d @ CHR ''-'' # r = Itoa d' @ CHR ''-'' # r'"
  have hd: "hd (show_nat n @ x) \<noteq> CHR ''-''" for n x
    using show_nat_no_minus [of n] show_nat_nonempty [of n] by (cases "show_nat n") auto
  have s: "d < 0 \<longleftrightarrow> d' < 0"
    using e hd by (metis Itoa_def append_Cons list.sel(1))
  have "show_nat (nat \<bar>d\<bar>) @ CHR ''-'' # r = show_nat (nat \<bar>d'\<bar>) @ CHR ''-'' # r'"
    using e s by (auto simp: Itoa_def split: if_splits)
  then have "show_nat (nat \<bar>d\<bar>) = show_nat (nat \<bar>d'\<bar>) \<and> r = r'"
    by (rule append_sep_inj [OF show_nat_no_minus show_nat_no_minus])
  then show ?thesis using s by (auto dest: show_nat_inj)
qed

lemma RuleKey_inj: "RuleKey d i = RuleKey d' i' \<longleftrightarrow> d = d' \<and> i = i'"
  using Itoa_minus_inj [of d "Itoa i" d' "Itoa i'"] by (auto simp: RuleKey_def Itoa_inj)

subsection \<open>Tag matching\<close>

definition matchTag :: "string \<Rightarrow> TagFilter \<Rightarrow> bool res" where
  "matchTag v f =
     (if tf_Func f = ''=='' then Inr (tf_Value f = v)
      else if tf_Func f = ''!='' then Inr (tf_Value f \<noteq> v)
      else if tf_Func f = ''in'' then Inr (v \<in> set (tf_Vset f))
      else if tf_Func f = ''not in'' then Inr (v \<notin> set (tf_Vset f))
      else if tf_Func f = ''=~'' then
        (case tf_Regexp f of None \<Rightarrow> Inl Nil_dereference | Some r \<Rightarrow> Inr (r v))
      else if tf_Func f = ''!~'' then
        (case tf_Regexp f of None \<Rightarrow> Inl Nil_dereference | Some r \<Rightarrow> Inr (\<not> r v))
      else Inr False)"

fun MatchTags :: "(string, string) go_map \<Rightarrow> TagFilter list \<Rightarrow> bool res" where
  "MatchTags tags [] = Inr True"
| "MatchTags tags (f # fs) =
     (case go_get tags (tf_Key f) of None \<Rightarrow> Inr False
      | Some v \<Rightarrow> res_bind (matchTag v f) (\<lambda>b. if \<not> b then Inr False else MatchTags tags fs))"

fun MatchGroupsName :: "string \<Rightarrow> TagFilter list \<Rightarrow> bool res" where
  "MatchGroupsName g [] = Inr True"
| "MatchGroupsName g (f # fs) =
     res_bind (matchTag g f) (\<lambda>b. if \<not> b then Inr False else MatchGroupsName g fs)"

text \<open>The meaning of a prepared filter on a value.\<close>

definition filter_holds :: "string \<Rightarrow> TagFilter \<Rightarrow> bool" where
  "filter_holds v f \<longleftrightarrow>
     tf_Func f = ''=='' \<and> tf_Value f = v \<or>
     tf_Func f = ''!='' \<and> tf_Value f \<noteq> v \<or>
     tf_Func f = ''in'' \<and> v \<in> set (Fields (tf_Value f)) \<or>
     tf_Func f = ''not in'' \<and> v \<notin> set (Fields (tf_Value f)) \<or>
     tf_Func f = ''=~'' \<and> (\<exists>r. tf_Regexp f = Some r \<and> r v) \<or>
     tf_Func f = ''!~'' \<and> (\<exists>r. tf_Regexp f = Some r \<and> \<not> r v)"

lemma matchTag_ready: "filter_ready f \<Longrightarrow> matchTag v f = Inr (filter_holds v f)"
  by (auto simp: filter_ready_def matchTag_def filter_holds_def)

lemma MatchTags_ready:
  "\<forall>f \<in> set fs. filter_ready f \<Longrightarrow>
     MatchTags tags fs = Inr (\<forall>f \<in> set fs. \<exists>v. go_get tags (tf_Key f) = Some v \<and> filter_holds v f)"
  by (induction tags fs rule: MatchTags.induct) (auto simp: matchTag_ready split: option.splits)

lemma MatchGroupsName_ready:
  "\<forall>f \<in> set fs. filter_ready f \<Longrightarrow>
     MatchGroupsName g fs = Inr (\<forall>f \<in> set fs. filter_holds g f)"
  by (induction g fs rule: MatchGroupsName.induct) (auto simp: matchTag_ready)

end
