(* ===== verification/Mute.thy ===== *)
theory Mute
  imports Alert_Common
begin

text \<open>
  The package \<open>alert/mute\<close>: the five strategies that decide whether an event is suppressed, in the
  order \<open>IsMuted\<close> tries them. The time windows of a rule are three parallel lists that the code
  indexes together, so a rule whose lists differ in length makes the strategy panic. The lemmas
  read the string comparisons of clock times as comparisons of minutes of the day, give each
  strategy its meaning, and show that rules with parallel lists and prepared mutes never panic.
\<close>

subsection \<open>TimeSpanMuteStrategy\<close>

fun span_loop :: "string \<Rightarrow> string \<Rightarrow> string list \<Rightarrow> string list \<Rightarrow> nat \<Rightarrow> string list \<Rightarrow> bool res" where
  "span_loop triggerTime triggerWeek stime etime i [] = Inr True"
| "span_loop triggerTime triggerWeek stime etime i (d # ds) =
     (let next = span_loop triggerTime triggerWeek stime etime (Suc i) ds in
      if \<not> Contains (ReplaceFirst_char d (CHR ''7'') ''0'') triggerWeek then next
      else if i \<ge> length stime \<or> i \<ge> length etime then Inl Index_out_of_range
      else if stime ! i < etime ! i then
        (if etime ! i = ''23:59'' then (if triggerTime < stime ! i then next else Inr False)
         else if triggerTime < stime ! i \<or> triggerTime \<ge> etime ! i then next else Inr False)
      else if stime ! i > etime ! i then
        (if triggerTime < stime ! i \<and> triggerTime \<ge> etime ! i then next else Inr False)
      else Inr False)"

definition TimeSpanMuteStrategy :: "lib \<Rightarrow> AlertRule \<Rightarrow> AlertCurEvent \<Rightarrow> bool res" where
  "TimeSpanMuteStrategy L rule event =
     span_loop (Format_15_04 (lib_tz L) (ev_TriggerTime event))
       (Itoa (Weekday (lib_tz L) (ev_TriggerTime event)))
       (Fields (ar_EnableStime rule)) (Fields (ar_EnableEtime rule)) 0
       (Split (ar_EnableDaysOfWeek rule) '';'')"

text \<open>A window from minute \<open>a\<close> to minute \<open>b\<close> contains minute \<open>m\<close>: half open, but closed when it
  ends at 23:59, across midnight when \<open>b < a\<close>, and the whole day when both ends agree.\<close>

definition in_window :: "int \<Rightarrow> int \<Rightarrow> int \<Rightarrow> bool" where
  "in_window a b m \<longleftrightarrow>
     (if a < b then a \<le> m \<and> (m < b \<or> b = 1439) else if b < a then a \<le> m \<or> m < b else True)"

definition day_enabled :: "string \<Rightarrow> int \<Rightarrow> bool" where
  "day_enabled d w \<longleftrightarrow> digit (nat w) \<in> set (ReplaceFirst_char d (CHR ''7'') ''0'')"

lemma Itoa_weekday: "Itoa (Weekday tz t) = [digit (nat (Weekday tz t))]"
  using Weekday_bounds [of tz t] by (simp add: Itoa_def show_nat.simps)

lemma clock_1439: "clock 1439 = ''23:59''"
  by (simp add: clock_def two_digits_def digit_def)

definition minute :: "int \<Rightarrow> bool" where
  "minute m \<longleftrightarrow> 0 \<le> m \<and> m \<le> 1440"

lemma clock_cmp [simp]:
  "minute a \<Longrightarrow> minute b \<Longrightarrow> clock a < clock b \<longleftrightarrow> a < b"
  "minute a \<Longrightarrow> minute b \<Longrightarrow> clock a \<le> clock b \<longleftrightarrow> a \<le> b"
  "minute a \<Longrightarrow> minute b \<Longrightarrow> clock a = clock b \<longleftrightarrow> a = b"
  "minute a \<Longrightarrow> clock a = ''23:59'' \<longleftrightarrow> a = 1439"
proof -
  show "minute a \<Longrightarrow> minute b \<Longrightarrow> clock a < clock b \<longleftrightarrow> a < b" for a b
    by (simp add: minute_def clock_less)
  show "minute a \<Longrightarrow> minute b \<Longrightarrow> clock a \<le> clock b \<longleftrightarrow> a \<le> b" for a b
    by (metis clock_less linorder_not_less minute_def)
  show "minute a \<Longrightarrow> minute b \<Longrightarrow> clock a = clock b \<longleftrightarrow> a = b" for a b
    by (simp add: minute_def clock_eq)
  show "minute a \<Longrightarrow> clock a = ''23:59'' \<longleftrightarrow> a = 1439"
    using clock_eq [of a 1439] by (simp add: clock_1439 minute_def)
qed

lemma minute_of_day_minute: "minute (minute_of_day tz t)"
  using minute_of_day_bounds [of tz t] by (simp add: minute_def)

lemma span_loop_windows:
  assumes "length as = length bs" "length bs = i + length ds"
    "\<forall>a \<in> set as. minute a" "\<forall>b \<in> set bs. minute b" "minute m"
  shows "span_loop (clock m) [digit (nat w)] (map clock as) (map clock bs) i ds =
    Inr (\<not> (\<exists>j < length ds. day_enabled (ds ! j) w \<and> in_window (as ! (i + j)) (bs ! (i + j)) m))"
  using assms
proof (induction ds arbitrary: i)
  case Nil
  then show ?case by simp
next
  case (Cons d ds)
  let ?P = "\<lambda>j. day_enabled ((d # ds) ! j) w \<and> in_window (as ! (i + j)) (bs ! (i + j)) m"
  have ih: "span_loop (clock m) [digit (nat w)] (map clock as) (map clock bs) (Suc i) ds =
      Inr (\<not> (\<exists>j < length ds. ?P (Suc j)))"
    using Cons.IH [of "Suc i"] Cons.prems by simp
  have ex: "(\<exists>j < length (d # ds). ?P j) \<longleftrightarrow> ?P 0 \<or> (\<exists>j < length ds. ?P (Suc j))"
    unfolding length_Cons by (rule Ex_less_Suc2)
  have i: "i < length as" "i < length bs" using Cons.prems by auto
  then have ab: "minute (as ! i)" "minute (bs ! i)" using Cons.prems by auto
  show ?case
    unfolding ex using ih i ab Cons.prems(5)
    by (simp add: Let_def Contains_char day_enabled_def in_window_def not_le not_less)
qed

lemma TimeSpanMuteStrategy_windows:
  assumes "Fields (ar_EnableStime rule) = map clock as" "Fields (ar_EnableEtime rule) = map clock bs"
    "Split (ar_EnableDaysOfWeek rule) '';'' = ds" "length as = length ds" "length bs = length ds"
    "\<forall>a \<in> set as. minute a" "\<forall>b \<in> set bs. minute b"
  shows "TimeSpanMuteStrategy L rule e =
    Inr (\<not> (\<exists>j < length ds. day_enabled (ds ! j) (Weekday (lib_tz L) (ev_TriggerTime e)) \<and>
       in_window (as ! j) (bs ! j) (minute_of_day (lib_tz L) (ev_TriggerTime e))))"
  unfolding TimeSpanMuteStrategy_def assms(1,2,3) Format_clock Itoa_weekday
  by (subst span_loop_windows) (use assms minute_of_day_minute in simp_all)

lemma span_loop_total:
  assumes "i + length ds \<le> length st" "i + length ds \<le> length et"
  shows "\<exists>b. span_loop tt tw st et i ds = Inr b"
  using assms
proof (induction ds arbitrary: i)
  case Nil
  then show ?case by auto
next
  case (Cons d ds)
  then have "\<exists>b. span_loop tt tw st et (Suc i) ds = Inr b" by simp
  then show ?case using Cons.prems by (auto simp: Let_def)
qed

definition spans_parallel :: "AlertRule \<Rightarrow> bool" where
  "spans_parallel r \<longleftrightarrow>
     length (Split (ar_EnableDaysOfWeek r) '';'') \<le> length (Fields (ar_EnableStime r)) \<and>
     length (Split (ar_EnableDaysOfWeek r) '';'') \<le> length (Fields (ar_EnableEtime r))"

lemma TimeSpanMuteStrategy_total:
  "spans_parallel r \<Longrightarrow> \<exists>b. TimeSpanMuteStrategy L r e = Inr b"
  unfolding TimeSpanMuteStrategy_def by (rule span_loop_total) (auto simp: spans_parallel_def)

subsection \<open>Strategies on the target of the event\<close>

definition IdentNotExistsMuteStrategy :: "env \<Rightarrow> AlertRule \<Rightarrow> AlertCurEvent \<Rightarrow> bool" where
  "IdentNotExistsMuteStrategy E rule event =
     (case go_get (ev_TagsMap event) ''ident'' of None \<Rightarrow> False
      | Some ident \<Rightarrow> env_target E ident = None \<and> Contains (ar_PromQl rule) ''target_up'')"

definition BgNotMatchMuteStrategy :: "env \<Rightarrow> AlertRule \<Rightarrow> AlertCurEvent \<Rightarrow> bool" where
  "BgNotMatchMuteStrategy E rule event =
     (if ar_EnableInBG rule = 0 then False
      else case go_get (ev_TagsMap event) ''ident'' of None \<Rightarrow> False
      | Some ident \<Rightarrow> (case env_target E ident of None \<Rightarrow> False
          | Some target \<Rightarrow> tg_GroupId target \<noteq> ar_GroupId rule))"

subsection \<open>EventMuteStrategy\<close>

definition TimeRange :: int where "TimeRange = 0"
definition Periodic :: int where "Periodic = 1"

definition period_covers :: "string \<Rightarrow> string \<Rightarrow> PeriodicMute \<Rightarrow> bool" where
  "period_covers triggerTime triggerWeek p \<longleftrightarrow>
     Contains (pm_EnableDaysOfWeek p) triggerWeek \<and>
     (if pm_EnableStime p = pm_EnableEtime p then True
      else if pm_EnableStime p < pm_EnableEtime p
      then triggerTime \<ge> pm_EnableStime p \<and> triggerTime < pm_EnableEtime p
      else triggerTime \<ge> pm_EnableStime p \<or> triggerTime < pm_EnableEtime p)"

fun periodic_loop :: "string \<Rightarrow> string \<Rightarrow> PeriodicMute list \<Rightarrow> bool" where
  "periodic_loop triggerTime triggerWeek [] = False"
| "periodic_loop triggerTime triggerWeek (p # ps) =
     (if period_covers triggerTime triggerWeek p then True
      else periodic_loop triggerTime triggerWeek ps)"

fun severity_loop :: "int \<Rightarrow> int list \<Rightarrow> bool" where
  "severity_loop sev [] = False"
| "severity_loop sev (s # ss) = (if sev = s \<or> s = 0 then True else severity_loop sev ss)"

definition mute_datasource :: "AlertMute \<Rightarrow> AlertCurEvent \<Rightarrow> bool" where
  "mute_datasource m e =
     (if \<not> (case am_DatasourceIdsJson m of [] \<Rightarrow> False | i # _ \<Rightarrow> i = 0) \<and> ev_DatasourceId e \<noteq> 0
      then ev_DatasourceId e \<in> set (am_DatasourceIdsJson m) else True)"

definition mute_time :: "lib \<Rightarrow> AlertMute \<Rightarrow> AlertCurEvent \<Rightarrow> int \<Rightarrow> bool" where
  "mute_time L m e ts =
     (if am_MuteTimeType m = TimeRange then \<not> (ts < am_Btime m \<or> ts > am_Etime m)
      else if am_MuteTimeType m = Periodic
      then periodic_loop (Format_15_04 (lib_tz L) (ev_TriggerTime e))
             (Itoa (Weekday (lib_tz L) (ev_TriggerTime e))) (am_PeriodicMutesJson m)
      else False)"

definition mute_severity :: "AlertMute \<Rightarrow> AlertCurEvent \<Rightarrow> bool" where
  "mute_severity m e =
     (if length (am_SeveritiesJson m) > 0 then severity_loop (ev_Severity e) (am_SeveritiesJson m)
      else True)"

definition matchMute :: "lib \<Rightarrow> AlertCurEvent \<Rightarrow> AlertMute \<Rightarrow> int option \<Rightarrow> bool res" where
  "matchMute L event mute clk =
     (if am_Disabled mute = 1 then Inr False else
      let ts = (case clk of None \<Rightarrow> ev_TriggerTime event | Some c \<Rightarrow> c) in
      if \<not> mute_datasource mute event then Inr False else
      if \<not> mute_time L mute event ts then Inr False else
      if \<not> mute_severity mute event then Inr False else
      MatchTags (ev_TagsMap event) (am_ITags mute))"

fun mutes_loop :: "lib \<Rightarrow> AlertCurEvent \<Rightarrow> AlertMute list \<Rightarrow> bool res" where
  "mutes_loop L event [] = Inr False"
| "mutes_loop L event (m # ms) =
     res_bind (matchMute L event m None) (\<lambda>b. if b then Inr True else mutes_loop L event ms)"

definition EventMuteStrategy :: "env \<Rightarrow> AlertCurEvent \<Rightarrow> bool res" where
  "EventMuteStrategy E event =
     (case env_mutes E (ev_GroupId event) of None \<Rightarrow> Inr False
      | Some mutes \<Rightarrow> if length mutes = 0 then Inr False else mutes_loop (env_lib E) event mutes)"

definition IsMuted :: "env \<Rightarrow> AlertRule \<Rightarrow> AlertCurEvent \<Rightarrow> bool res" where
  "IsMuted E rule event =
     (if ar_Disabled rule = 1 then Inr True else
      res_bind (TimeSpanMuteStrategy (env_lib E) rule event) (\<lambda>b1.
      if b1 then Inr True else
      if IdentNotExistsMuteStrategy E rule event then Inr True else
      if BgNotMatchMuteStrategy E rule event then Inr True else
      res_bind (EventMuteStrategy E event) (\<lambda>b2. if b2 then Inr True else Inr False)))"

subsection \<open>What a mute matches\<close>

lemma periodic_loop_iff: "periodic_loop tt tw ps \<longleftrightarrow> (\<exists>p \<in> set ps. period_covers tt tw p)"
  by (induction ps) auto

lemma severity_loop_iff: "severity_loop sev ss \<longleftrightarrow> sev \<in> set ss \<or> 0 \<in> set ss"
  by (induction ss) auto

lemma period_covers_clock:
  assumes "minute a" "minute b" "minute m" "pm_EnableStime p = clock a" "pm_EnableEtime p = clock b"
  shows "period_covers (clock m) [digit (nat w)] p \<longleftrightarrow>
    digit (nat w) \<in> set (pm_EnableDaysOfWeek p) \<and>
    (a = b \<or> (a < b \<and> a \<le> m \<and> m < b) \<or> (b < a \<and> (a \<le> m \<or> m < b)))"
  using assms by (auto simp: period_covers_def Contains_char)

definition mute_ready :: "AlertMute \<Rightarrow> bool" where
  "mute_ready m \<longleftrightarrow> (\<forall>f \<in> set (am_ITags m). filter_ready f)"

definition mute_matches :: "lib \<Rightarrow> AlertCurEvent \<Rightarrow> AlertMute \<Rightarrow> bool" where
  "mute_matches L e m \<longleftrightarrow> am_Disabled m \<noteq> 1 \<and> mute_datasource m e \<and>
     mute_time L m e (ev_TriggerTime e) \<and> mute_severity m e \<and>
     (\<forall>f \<in> set (am_ITags m). \<exists>v. go_get (ev_TagsMap e) (tf_Key f) = Some v \<and> filter_holds v f)"

lemma matchMute_ready: "mute_ready m \<Longrightarrow> matchMute L e m None = Inr (mute_matches L e m)"
  by (auto simp: matchMute_def mute_matches_def mute_ready_def MatchTags_ready Let_def)

lemma mutes_loop_ready:
  "\<forall>m \<in> set ms. mute_ready m \<Longrightarrow> mutes_loop L e ms = Inr (\<exists>m \<in> set ms. mute_matches L e m)"
  by (induction ms) (auto simp: matchMute_ready)

definition mutes_ready :: "env \<Rightarrow> bool" where
  "mutes_ready E \<longleftrightarrow> (\<forall>g ms. env_mutes E g = Some ms \<longrightarrow> (\<forall>m \<in> set ms. mute_ready m))"

lemma EventMuteStrategy_ready:
  "mutes_ready E \<Longrightarrow> EventMuteStrategy E e =
     Inr (\<exists>ms. env_mutes E (ev_GroupId e) = Some ms \<and> (\<exists>m \<in> set ms. mute_matches (env_lib E) e m))"
  by (auto simp: EventMuteStrategy_def mutes_ready_def mutes_loop_ready split: option.splits)

lemma IsMuted_ready:
  assumes "mutes_ready E" "TimeSpanMuteStrategy (env_lib E) r e = Inr b"
  shows "IsMuted E r e = Inr (ar_Disabled r = 1 \<or> b \<or> IdentNotExistsMuteStrategy E r e \<or>
    BgNotMatchMuteStrategy E r e \<or>
    (\<exists>ms. env_mutes E (ev_GroupId e) = Some ms \<and> (\<exists>m \<in> set ms. mute_matches (env_lib E) e m)))"
  using assms by (simp add: IsMuted_def EventMuteStrategy_ready)

lemma IsMuted_total:
  assumes "mutes_ready E" "spans_parallel r"
  shows "\<exists>b. IsMuted E r e = Inr b"
proof -
  obtain b where "TimeSpanMuteStrategy (env_lib E) r e = Inr b"
    using TimeSpanMuteStrategy_total [OF assms(2)] by blast
  from IsMuted_ready [OF assms(1) this] show ?thesis by blast
qed

end
