(* ===== verification/Processor.thy ===== *)
theory Processor
  imports Mute
begin

text \<open>
  The package \<open>alert/process\<close>: the maps of pending and firing events
  (\<open>alert_cur_event.go\<close>) and the processor of one rule on one data source (\<open>process.go\<close>).
  Both maps, the notification queue and the loops of one evaluation hold pointers to the same
  event objects, so events live in an explicit store: \<open>p_fires\<close> and \<open>p_pendings\<close> map a hash to an
  address, \<open>heap\<close> maps an address to the event, \<open>hnext\<close> is the next unused address. \<open>pushed\<close>
  records what \<open>pushEventToQueue\<close> hands to the queue, with the event as it was at that moment.
  The order in which Go enumerates a map is an argument of the loops that range over one. The nil
  checks on the processor's rule are not modelled: \<open>NewProcessor\<close> and \<open>Handle\<close> store non-nil
  rules only. \<open>NewProcessor\<close> leaves both maps nil; \<open>RecoverAlertCurEventFromDb\<close> makes them before the
  first evaluation, and until then nothing reads them, so they are empty here. The queue takes ten
  million events; the model has none dropped for want of room.
\<close>

subsection \<open>State\<close>

type_synonym addr = nat

record pstate =
  p_datasourceId :: int
  p_rule :: AlertRule
  p_fires :: "(string, addr) go_map"
  p_pendings :: "(string, addr) go_map"
  p_inhibit :: bool
  p_tagsMap :: "(string, string) go_map"
  p_tagsArr :: "string list"
  p_target :: string
  p_targetNote :: string
  p_groupName :: string
  p_HandleFireEventHook :: "AlertCurEvent \<Rightarrow> AlertCurEvent"
  p_HandleRecoverEventHook :: "AlertCurEvent \<Rightarrow> AlertCurEvent"
  p_EventMuteHook :: "AlertCurEvent \<Rightarrow> bool"
  heap :: "addr \<Rightarrow> AlertCurEvent"
  hnext :: addr
  pushed :: "(addr \<times> AlertCurEvent) list"

definition hupd :: "addr \<Rightarrow> (AlertCurEvent \<Rightarrow> AlertCurEvent) \<Rightarrow> pstate \<Rightarrow> pstate" where
  "hupd a f s = s\<lparr>heap := (heap s)(a := f (heap s a))\<rparr>"

definition alloc :: "AlertCurEvent \<Rightarrow> pstate \<Rightarrow> addr \<times> pstate" where
  "alloc e s = (hnext s, s\<lparr>heap := (heap s)(hnext s := e), hnext := Suc (hnext s)\<rparr>)"

subsection \<open>AlertCurEventMap\<close>

definition NewAlertCurEventMap :: "(string, addr) go_map option \<Rightarrow> (string, addr) go_map" where
  "NewAlertCurEventMap d = (case d of None \<Rightarrow> [] | Some m \<Rightarrow> m)"

definition SetAll :: "(string, addr) go_map \<Rightarrow> (string, addr) go_map \<Rightarrow> (string, addr) go_map" where
  "SetAll d m = d"

definition Set :: "string \<Rightarrow> addr \<Rightarrow> (string, addr) go_map \<Rightarrow> (string, addr) go_map" where
  "Set key a m = go_set key a m"

definition Get :: "(string, addr) go_map \<Rightarrow> string \<Rightarrow> addr option" where
  "Get m key = go_get m key"

definition UpdateLastEvalTime ::
    "(string, addr) go_map \<Rightarrow> string \<Rightarrow> int \<Rightarrow> pstate \<Rightarrow> pstate" where
  "UpdateLastEvalTime m key t s =
     (case go_get m key of None \<Rightarrow> s | Some a \<Rightarrow> hupd a (\<lambda>e. e\<lparr>ev_LastEvalTime := t\<rparr>) s)"

definition Delete :: "string \<Rightarrow> (string, addr) go_map \<Rightarrow> (string, addr) go_map" where
  "Delete key m = go_del key m"

definition Keys :: "(string, addr) go_map \<Rightarrow> string list" where
  "Keys m = go_keys m"

interpretation em: go_map_spec Get Set Delete Keys go_wf
proof unfold_locales
  show "go_wf m \<Longrightarrow> go_wf (Set k v m)" for m k v unfolding Set_def by (rule gm.wf_set)
  show "go_wf m \<Longrightarrow> go_wf (Delete k m)" for m k unfolding Delete_def by (rule gm.wf_del)
  show "go_wf m \<Longrightarrow> distinct (Keys m)" for m unfolding Keys_def by (rule gm.wf_keys)
  show "set (Keys m) = dom (Get m)" for m
    unfolding Keys_def using gm.keys_dom [of m] by (auto simp: Get_def dom_def)
qed (auto simp: Get_def Set_def Delete_def fun_eq_iff)

lemmas em_laws [simp] = em.get_set em.get_del

subsection \<open>Building an event\<close>

definition Hash :: "lib \<Rightarrow> int \<Rightarrow> int \<Rightarrow> AnomalyPoint \<Rightarrow> string" where
  "Hash L ruleId datasourceId v = lib_md5 L (Itoa ruleId @ ''_'' @ lib_metric_string L (ap_Labels v)
     @ ''_'' @ Itoa datasourceId @ ''_'' @ Itoa (ap_Severity v) @ ''_'' @ ap_Query v)"

definition TagHash :: "lib \<Rightarrow> AnomalyPoint \<Rightarrow> string" where
  "TagHash L v = lib_md5 L (lib_metric_string L (ap_Labels v))"

definition labelMapToArr :: "(string, string) go_map \<Rightarrow> string list" where
  "labelMapToArr m =
     (let labelStrings = map (\<lambda>(label, v). label @ ''='' @ v) m
      in if length m > 1 then sort labelStrings else labelStrings)"

fun fill_rule_tags ::
    "lib \<Rightarrow> string list \<Rightarrow> (string, string) go_map \<Rightarrow> (string, string) go_map res" where
  "fill_rule_tags L [] m = Inr m"
| "fill_rule_tags L (tag # tags) m =
     (let arr = SplitN2 tag ''='' in
      if length arr < 2 then Inl Index_out_of_range
      else case lib_render L (''{{$labels := .TagsMap}}'' @ ''{{$value := .TriggerValue}}'' @ arr ! 1)
                  (zero_AlertCurEvent\<lparr>ev_TagsMap := m\<rparr>) of
        Inl err \<Rightarrow> fill_rule_tags L tags (go_set (arr ! 0) (''parse tag value failed, err:'' @ err) m)
      | Inr body \<Rightarrow> fill_rule_tags L tags (go_set (arr ! 0) body m))"

definition fillTags :: "env \<Rightarrow> AnomalyPoint \<Rightarrow> pstate \<Rightarrow> pstate res" where
  "fillTags E pt s =
     res_bind (fill_rule_tags (env_lib E) (ar_AppendTagsJSON (p_rule s)) (ap_Labels pt)) (\<lambda>m.
     let tagsMap = go_set ''rulename'' (ar_Name (p_rule s)) m
     in Inr (s\<lparr>p_tagsMap := tagsMap, p_tagsArr := labelMapToArr tagsMap\<rparr>))"

definition mayHandleIdent :: "env \<Rightarrow> pstate \<Rightarrow> pstate" where
  "mayHandleIdent E s =
     (case go_get (p_tagsMap s) ''ident'' of
        Some ident \<Rightarrow>
          (case env_target E ident of
             Some target \<Rightarrow> s\<lparr>p_target := tg_Ident target, p_targetNote := tg_Note target\<rparr>
           | None \<Rightarrow> s\<lparr>p_target := ident, p_targetNote := ''''\<rparr>)
      | None \<Rightarrow> s\<lparr>p_target := '''', p_targetNote := ''''\<rparr>)"

definition mayHandleGroup :: "env \<Rightarrow> pstate \<Rightarrow> pstate" where
  "mayHandleGroup E s =
     (case env_busi_group E (ar_GroupId (p_rule s)) of None \<Rightarrow> s
      | Some bg \<Rightarrow> s\<lparr>p_groupName := bg_Name bg\<rparr>)"

definition NewProcessor :: "env \<Rightarrow> AlertRule \<Rightarrow> int \<Rightarrow> pstate" where
  "NewProcessor E rule datasourceId = mayHandleGroup E
     \<lparr>p_datasourceId = datasourceId, p_rule = rule, p_fires = [], p_pendings = [],
      p_inhibit = False, p_tagsMap = [], p_tagsArr = [], p_target = '''', p_targetNote = '''',
      p_groupName = '''', p_HandleFireEventHook = (\<lambda>e. e), p_HandleRecoverEventHook = (\<lambda>e. e),
      p_EventMuteHook = (\<lambda>e. False), heap = (\<lambda>_. zero_AlertCurEvent), hnext = 0, pushed = []\<rparr>"

definition Key :: "pstate \<Rightarrow> string" where
  "Key s = RuleKey (p_datasourceId s) (ar_Id (p_rule s))"

definition Processor_Hash :: "lib \<Rightarrow> pstate \<Rightarrow> string" where
  "Processor_Hash L s = lib_md5 L (Itoa (ar_Id (p_rule s)) @ ''_'' @
     Itoa (ar_PromEvalInterval (p_rule s)) @ ''_'' @ ar_RuleConfig (p_rule s) @ ''_'' @
     Itoa (p_datasourceId s))"

definition event_of :: "env \<Rightarrow> AnomalyPoint \<Rightarrow> string \<Rightarrow> int \<Rightarrow> pstate \<Rightarrow> AlertCurEvent" where
  "event_of E pt origin now s =
     (let r = p_rule s;
          dsName = (case env_datasource E (p_datasourceId s) of None \<Rightarrow> '''' | Some ds \<Rightarrow> ds_Name ds)
      in (GenerateNewEvent r)\<lparr>
        ev_TriggerTime := ap_Timestamp pt, ev_TagsMap := p_tagsMap s,
        ev_DatasourceId := p_datasourceId s, ev_Cluster := dsName,
        ev_Hash := Hash (env_lib E) (ar_Id r) (p_datasourceId s) pt,
        ev_TargetIdent := p_target s, ev_TargetNote := p_targetNote s,
        ev_TriggerValue := ReadableValue pt, ev_TagsJSON := p_tagsArr s,
        ev_GroupName := p_groupName s, ev_Tags := Join (p_tagsArr s) '',,'',
        ev_IsRecovered := False, ev_Callbacks := ar_Callbacks r,
        ev_CallbacksJSON := ar_CallbacksJSON r, ev_Annotations := ar_Annotations r,
        ev_AnnotationsJSON := [], ev_RuleConfig := ar_RuleConfig r,
        ev_RuleConfigJson := ar_RuleConfigJson r, ev_Severity := ap_Severity pt,
        ev_ExtraConfig := ar_ExtraConfigJSON r, ev_PromQl := ap_Query pt,
        ev_LastEvalTime := (if origin = ''inner'' then now else ap_Timestamp pt)\<rparr>)"

definition BuildEvent ::
    "env \<Rightarrow> AnomalyPoint \<Rightarrow> string \<Rightarrow> int \<Rightarrow> pstate \<Rightarrow> (addr \<times> pstate) res" where
  "BuildEvent E pt origin now s0 =
     res_bind (fillTags E pt s0) (\<lambda>s1.
     let s2 = mayHandleIdent E s1 in Inr (alloc (event_of E pt origin now s2) s2))"

subsection \<open>Firing\<close>

definition pushEventToQueue :: "addr \<Rightarrow> pstate \<Rightarrow> pstate" where
  "pushEventToQueue a s =
     (let s1 = (if \<not> ev_IsRecovered (heap s a)
                then (hupd a (\<lambda>e. e\<lparr>ev_LastSentTime := ev_LastEvalTime e\<rparr>) s)
                       \<lparr>p_fires := Set (ev_Hash (heap s a)) a (p_fires s)\<rparr>
                else s)
      in s1\<lparr>pushed := pushed s1 @ [(a, heap s1 a)]\<rparr>)"

definition fireEvent :: "addr \<Rightarrow> pstate \<Rightarrow> pstate" where
  "fireEvent a s =
     (case Get (p_fires s) (ev_Hash (heap s a)) of
        Some f \<Rightarrow>
          (let s1 = UpdateLastEvalTime (p_fires s) (ev_Hash (heap s a)) (ev_LastEvalTime (heap s a)) s;
               s2 = hupd a (\<lambda>e. e\<lparr>ev_FirstTriggerTime := ev_FirstTriggerTime (heap s1 f)\<rparr>) s1;
               s3 = hupd a (p_HandleFireEventHook s2) s2;
               rule = p_rule s3
           in if ar_NotifyRepeatStep rule = 0 then s3
              else if ev_LastEvalTime (heap s3 a) \<ge> ev_LastSentTime (heap s3 f) + ar_NotifyRepeatStep rule * 60
              then (if ar_NotifyMaxNumber rule = 0
                    then pushEventToQueue a
                           (hupd a (\<lambda>e. e\<lparr>ev_NotifyCurNumber := ev_NotifyCurNumber (heap s3 f) + 1\<rparr>) s3)
                    else if ev_NotifyCurNumber (heap s3 f) \<ge> ar_NotifyMaxNumber rule then s3
                    else pushEventToQueue a
                           (hupd a (\<lambda>e. e\<lparr>ev_NotifyCurNumber := ev_NotifyCurNumber (heap s3 f) + 1\<rparr>) s3))
              else s3)
      | None \<Rightarrow>
          (let s1 = hupd a (\<lambda>e. e\<lparr>ev_NotifyCurNumber := 1, ev_FirstTriggerTime := ev_TriggerTime e\<rparr>) s;
               s2 = hupd a (p_HandleFireEventHook s1) s1
           in pushEventToQueue a s2))"

fun inhibitEvent :: "addr list \<Rightarrow> int \<Rightarrow> pstate \<Rightarrow> pstate" where
  "inhibitEvent [] highSeverity s = s"
| "inhibitEvent (a # as) highSeverity s =
     (if p_inhibit s \<and> ev_Severity (heap s a) > highSeverity then inhibitEvent as highSeverity s
      else inhibitEvent as highSeverity (fireEvent a s))"

fun pending_loop :: "addr list \<Rightarrow> pstate \<Rightarrow> addr list \<Rightarrow> int \<Rightarrow> pstate \<times> addr list \<times> int" where
  "pending_loop [] s fireEvents severity = (s, fireEvents, severity)"
| "pending_loop (a # as) s fireEvents severity =
     (if ar_PromForDuration (p_rule s) = 0
      then pending_loop as s (fireEvents @ [a]) (min severity (ev_Severity (heap s a)))
      else
        let (s1, preTriggerTime) =
          (case Get (p_pendings s) (ev_Hash (heap s a)) of
             Some q \<Rightarrow> (UpdateLastEvalTime (p_pendings s) (ev_Hash (heap s a)) (ev_LastEvalTime (heap s a)) s,
                        ev_TriggerTime (heap s q))
           | None \<Rightarrow> (s\<lparr>p_pendings := Set (ev_Hash (heap s a)) a (p_pendings s)\<rparr>,
                      ev_TriggerTime (heap s a)))
        in if ev_LastEvalTime (heap s1 a) - preTriggerTime + ev_PromEvalInterval (heap s1 a)
                \<ge> ar_PromForDuration (p_rule s1)
           then pending_loop as s1 (fireEvents @ [a]) (min severity (ev_Severity (heap s1 a)))
           else pending_loop as s1 fireEvents severity)"

definition handleEvent :: "addr list \<Rightarrow> pstate \<Rightarrow> pstate" where
  "handleEvent events s =
     (let (s1, fireEvents, severity) = pending_loop events s [] 4
      in inhibitEvent fireEvents severity s1)"

subsection \<open>Recovery\<close>

definition RecoverSingle :: "string \<Rightarrow> int \<Rightarrow> string option \<Rightarrow> pstate \<Rightarrow> pstate" where
  "RecoverSingle hash now v s =
     (case Get (p_fires s) hash of None \<Rightarrow> s
      | Some a \<Rightarrow>
        if ar_RecoverDuration (p_rule s) > 0 \<and>
           now - ev_LastEvalTime (heap s a) < ar_RecoverDuration (p_rule s) then s
        else
          let s1 = (case v of None \<Rightarrow> s | Some x \<Rightarrow> hupd a (\<lambda>e. e\<lparr>ev_TriggerValue := x\<rparr>) s);
              s2 = s1\<lparr>p_fires := Delete hash (p_fires s1), p_pendings := Delete hash (p_pendings s1)\<rparr>;
              s3 = hupd a (UpdateEvent (p_rule s2)) s2;
              s4 = hupd a (\<lambda>e. e\<lparr>ev_IsRecovered := True, ev_LastEvalTime := now\<rparr>) s3;
              s5 = hupd a (p_HandleRecoverEventHook s4) s4
          in pushEventToQueue a s5)"

definition drop_pending :: "string set \<Rightarrow> string \<Rightarrow> pstate \<Rightarrow> pstate" where
  "drop_pending alertingKeys hash s =
     (if hash \<in> alertingKeys then s else s\<lparr>p_pendings := Delete hash (p_pendings s)\<rparr>)"

definition recover_fire :: "string set \<Rightarrow> int \<Rightarrow> string \<Rightarrow> pstate \<Rightarrow> pstate" where
  "recover_fire alertingKeys now hash s =
     (if hash \<in> alertingKeys then s else RecoverSingle hash now None s)"

definition HandleRecover ::
    "string range_order \<Rightarrow> string range_order \<Rightarrow> string set \<Rightarrow> int \<Rightarrow> pstate \<Rightarrow> pstate" where
  "HandleRecover ordP ordF alertingKeys now s =
     (let s1 = fold (drop_pending alertingKeys) (ordP (Keys (p_pendings s))) s
      in fold (recover_fire alertingKeys now) (ordF (Keys (p_fires s1))) s1)"

fun load_events :: "AlertCurEvent list \<Rightarrow> (string, addr) go_map \<Rightarrow> pstate \<Rightarrow> (string, addr) go_map \<times> pstate" where
  "load_events [] fireMap s = (fireMap, s)"
| "load_events (e # es) fireMap s =
     (let (a, s1) = alloc (DB2Mem e) s in load_events es (go_set (ev_Hash e) a fireMap) s1)"

text \<open>The events of the rule and data source in the database; \<open>None\<close> is a failed query.\<close>

definition RecoverAlertCurEventFromDb :: "AlertCurEvent list option \<Rightarrow> pstate \<Rightarrow> pstate" where
  "RecoverAlertCurEventFromDb curEvents s =
     (let s0 = s\<lparr>p_pendings := NewAlertCurEventMap None\<rparr> in
      case curEvents of None \<Rightarrow> s0\<lparr>p_fires := NewAlertCurEventMap None\<rparr>
      | Some es \<Rightarrow> (let (fireMap, s1) = load_events es [] s0
                   in s1\<lparr>p_fires := NewAlertCurEventMap (Some fireMap)\<rparr>))"

subsection \<open>One evaluation\<close>

type_synonym groups = "(string, addr list) go_map"

definition handle_point ::
    "env \<Rightarrow> AlertRule \<Rightarrow> string \<Rightarrow> int \<Rightarrow> AnomalyPoint \<Rightarrow> pstate \<times> string set \<times> groups
     \<Rightarrow> (pstate \<times> string set \<times> groups) res" where
  "handle_point E rule origin now pt = (\<lambda>(s, alertingKeys, eventsMap).
     res_bind (BuildEvent E pt origin now s) (\<lambda>(a, s1).
     let event = heap s1 a; keys1 = insert (ev_Hash event) alertingKeys in
     res_bind (IsMuted E rule event) (\<lambda>muted.
     if muted then Inr (s1, keys1, eventsMap)
     else if p_EventMuteHook s1 event then Inr (s1, keys1, eventsMap)
     else let tagHash = TagHash (env_lib E) pt;
              old = (case go_get eventsMap tagHash of None \<Rightarrow> [] | Some as \<Rightarrow> as)
          in Inr (s1, keys1, go_set tagHash (old @ [a]) eventsMap))))"

definition handle_group :: "groups \<Rightarrow> string \<Rightarrow> pstate \<Rightarrow> pstate" where
  "handle_group eventsMap tagHash s =
     (case go_get eventsMap tagHash of None \<Rightarrow> s | Some events \<Rightarrow> handleEvent events s)"

record range_orders =
  ord_groups :: "string range_order"
  ord_pendings :: "string range_order"
  ord_fires :: "string range_order"

definition Handle ::
    "env \<Rightarrow> range_orders \<Rightarrow> int \<Rightarrow> AnomalyPoint list \<Rightarrow> string \<Rightarrow> bool \<Rightarrow> pstate \<Rightarrow> pstate res" where
  "Handle E ords now anomalyPoints origin inhibit s =
     (let s0 = s\<lparr>p_inhibit := inhibit\<rparr> in
      case env_rule E (ar_Id (p_rule s0)) of None \<Rightarrow> Inr s0
      | Some cachedRule \<Rightarrow>
          res_bind (res_fold (handle_point E cachedRule origin now) anomalyPoints
                      (s0\<lparr>p_rule := cachedRule\<rparr>, {}, [])) (\<lambda>(s1, alertingKeys, eventsMap).
          let s2 = fold (handle_group eventsMap) (ord_groups ords (go_keys eventsMap)) s1
          in Inr (HandleRecover (ord_pendings ords) (ord_fires ords) alertingKeys now s2)))"

end
