(* ===== verification/Processor_Invariant.thy ===== *)
theory Processor_Invariant
  imports Processor
begin

text \<open>
  The invariant of a processor and its preservation by every operation. \<open>proc_inv\<close> ties the two
  maps to the event store: every entry points to an allocated event that carries the key as its
  hash and is not recovered, so entries under different keys never share an event. \<open>same_core\<close>
  is the frame of the firing side: which fields of an event are fixed when it is built.
\<close>

subsection \<open>Field access after the primitive operations\<close>

lemma hupd_simps [simp]:
  "heap (hupd a f s) = (heap s)(a := f (heap s a))"
  "hnext (hupd a f s) = hnext s" "pushed (hupd a f s) = pushed s"
  "p_fires (hupd a f s) = p_fires s" "p_pendings (hupd a f s) = p_pendings s"
  "p_rule (hupd a f s) = p_rule s" "p_inhibit (hupd a f s) = p_inhibit s"
  "p_datasourceId (hupd a f s) = p_datasourceId s"
  "p_HandleFireEventHook (hupd a f s) = p_HandleFireEventHook s"
  "p_HandleRecoverEventHook (hupd a f s) = p_HandleRecoverEventHook s"
  "p_EventMuteHook (hupd a f s) = p_EventMuteHook s"
  by (simp_all add: hupd_def)

lemma UpdateLastEvalTime_simps [simp]:
  "hnext (UpdateLastEvalTime m k t s) = hnext s" "pushed (UpdateLastEvalTime m k t s) = pushed s"
  "p_fires (UpdateLastEvalTime m k t s) = p_fires s"
  "p_pendings (UpdateLastEvalTime m k t s) = p_pendings s"
  "p_rule (UpdateLastEvalTime m k t s) = p_rule s"
  "p_inhibit (UpdateLastEvalTime m k t s) = p_inhibit s"
  "p_datasourceId (UpdateLastEvalTime m k t s) = p_datasourceId s"
  "p_HandleFireEventHook (UpdateLastEvalTime m k t s) = p_HandleFireEventHook s"
  "p_HandleRecoverEventHook (UpdateLastEvalTime m k t s) = p_HandleRecoverEventHook s"
  "p_EventMuteHook (UpdateLastEvalTime m k t s) = p_EventMuteHook s"
  by (simp_all add: UpdateLastEvalTime_def split: option.split)

lemma UpdateLastEvalTime_heap:
  "heap (UpdateLastEvalTime m k t s) b =
     (if Get m k = Some b then (heap s b)\<lparr>ev_LastEvalTime := t\<rparr> else heap s b)"
  by (auto simp: UpdateLastEvalTime_def Get_def split: option.split)

lemma pushEventToQueue_simps [simp]:
  "hnext (pushEventToQueue a s) = hnext s"
  "p_pendings (pushEventToQueue a s) = p_pendings s"
  "p_rule (pushEventToQueue a s) = p_rule s" "p_inhibit (pushEventToQueue a s) = p_inhibit s"
  "p_datasourceId (pushEventToQueue a s) = p_datasourceId s"
  "p_HandleFireEventHook (pushEventToQueue a s) = p_HandleFireEventHook s"
  "p_HandleRecoverEventHook (pushEventToQueue a s) = p_HandleRecoverEventHook s"
  "p_EventMuteHook (pushEventToQueue a s) = p_EventMuteHook s"
  by (simp_all add: pushEventToQueue_def Let_def)

lemma pushEventToQueue_fires:
  "p_fires (pushEventToQueue a s) =
     (if ev_IsRecovered (heap s a) then p_fires s else Set (ev_Hash (heap s a)) a (p_fires s))"
  by (simp add: pushEventToQueue_def Let_def)

lemma pushEventToQueue_heap:
  "heap (pushEventToQueue a s) b =
     (if b = a \<and> \<not> ev_IsRecovered (heap s a)
      then (heap s a)\<lparr>ev_LastSentTime := ev_LastEvalTime (heap s a)\<rparr> else heap s b)"
  by (simp add: pushEventToQueue_def Let_def)

lemma pushEventToQueue_pushed:
  "pushed (pushEventToQueue a s) = pushed s @ [(a, heap (pushEventToQueue a s) a)]"
  by (simp add: pushEventToQueue_def Let_def)

lemmas push_simps = pushEventToQueue_fires pushEventToQueue_heap pushEventToQueue_pushed

subsection \<open>The frame of the firing side\<close>

definition default_hooks :: "pstate \<Rightarrow> bool" where
  "default_hooks s \<longleftrightarrow> p_HandleFireEventHook s = (\<lambda>e. e) \<and> p_HandleRecoverEventHook s = (\<lambda>e. e) \<and>
     p_EventMuteHook s = (\<lambda>e. False)"

text \<open>What an event keeps from the moment it is built while it is handled.\<close>

definition ident_fields :: "AlertCurEvent \<Rightarrow> string \<times> bool \<times> int \<times> int \<times> int" where
  "ident_fields e = (ev_Hash e, ev_IsRecovered e, ev_Severity e, ev_TriggerTime e, ev_PromEvalInterval e)"

definition same_core :: "pstate \<Rightarrow> pstate \<Rightarrow> bool" where
  "same_core s t \<longleftrightarrow> hnext t = hnext s \<and> p_rule t = p_rule s \<and> p_inhibit t = p_inhibit s \<and>
     p_datasourceId t = p_datasourceId s \<and> p_HandleFireEventHook t = p_HandleFireEventHook s \<and>
     p_HandleRecoverEventHook t = p_HandleRecoverEventHook s \<and>
     p_EventMuteHook t = p_EventMuteHook s \<and>
     (\<forall>b. ident_fields (heap t b) = ident_fields (heap s b))"

lemma same_core_refl [simp]: "same_core s s"
  by (simp add: same_core_def)

lemma same_core_trans [trans]: "same_core s t \<Longrightarrow> same_core t u \<Longrightarrow> same_core s u"
  by (simp add: same_core_def)

lemma same_coreD:
  assumes "same_core s t"
  shows "hnext t = hnext s" "p_rule t = p_rule s" "p_inhibit t = p_inhibit s"
    "p_datasourceId t = p_datasourceId s" "default_hooks t = default_hooks s"
    "ev_Hash (heap t b) = ev_Hash (heap s b)" "ev_IsRecovered (heap t b) = ev_IsRecovered (heap s b)"
    "ev_Severity (heap t b) = ev_Severity (heap s b)"
    "ev_TriggerTime (heap t b) = ev_TriggerTime (heap s b)"
    "ev_PromEvalInterval (heap t b) = ev_PromEvalInterval (heap s b)"
  using assms by (auto simp: same_core_def default_hooks_def ident_fields_def)

lemma same_core_hupd:
  "ident_fields (f (heap s a)) = ident_fields (heap s a) \<Longrightarrow> same_core s (hupd a f s)"
  by (simp add: same_core_def)

lemma same_core_UpdateLastEvalTime: "same_core s (UpdateLastEvalTime m k t s)"
  by (simp add: same_core_def UpdateLastEvalTime_heap ident_fields_def)

lemma same_core_push: "same_core s (pushEventToQueue a s)"
  by (auto simp: same_core_def pushEventToQueue_heap ident_fields_def)

text \<open>\<open>fireEvent\<close> in closed form for a processor with the default hooks.\<close>

definition may_repeat :: "AlertRule \<Rightarrow> AlertCurEvent \<Rightarrow> AlertCurEvent \<Rightarrow> bool" where
  "may_repeat r e fired \<longleftrightarrow> ar_NotifyRepeatStep r \<noteq> 0 \<and>
     ev_LastEvalTime e \<ge> ev_LastSentTime fired + ar_NotifyRepeatStep r * 60 \<and>
     (ar_NotifyMaxNumber r = 0 \<or> ev_NotifyCurNumber fired < ar_NotifyMaxNumber r)"

definition refresh :: "addr \<Rightarrow> addr \<Rightarrow> pstate \<Rightarrow> pstate" where
  "refresh a f s = (let s1 = hupd f (\<lambda>e. e\<lparr>ev_LastEvalTime := ev_LastEvalTime (heap s a)\<rparr>) s
     in hupd a (\<lambda>e. e\<lparr>ev_FirstTriggerTime := ev_FirstTriggerTime (heap s1 f)\<rparr>) s1)"

definition renumber :: "addr \<Rightarrow> addr \<Rightarrow> pstate \<Rightarrow> pstate" where
  "renumber a f s = hupd a (\<lambda>e. e\<lparr>ev_NotifyCurNumber := ev_NotifyCurNumber (heap s f) + 1\<rparr>) s"

definition first_notice :: "addr \<Rightarrow> pstate \<Rightarrow> pstate" where
  "first_notice a s =
     hupd a (\<lambda>e. e\<lparr>ev_NotifyCurNumber := 1, ev_FirstTriggerTime := ev_TriggerTime e\<rparr>) s"

lemma hupd_id: "hupd a (\<lambda>e. e) s = s"
  by (simp add: hupd_def)

lemma fireEvent_eq:
  assumes "default_hooks s"
  shows "fireEvent a s = (case Get (p_fires s) (ev_Hash (heap s a)) of
      Some f \<Rightarrow> (let s1 = refresh a f s in
        if may_repeat (p_rule s) (heap s1 a) (heap s1 f) then pushEventToQueue a (renumber a f s1) else s1)
    | None \<Rightarrow> pushEventToQueue a (first_notice a s))"
proof (cases "Get (p_fires s) (ev_Hash (heap s a))")
  case None
  then show ?thesis using assms by (simp add: fireEvent_def default_hooks_def first_notice_def hupd_id)
next
  case (Some f)
  have u: "UpdateLastEvalTime (p_fires s) (ev_Hash (heap s a)) t s = hupd f (\<lambda>e. e\<lparr>ev_LastEvalTime := t\<rparr>) s" for t
    using Some by (simp add: UpdateLastEvalTime_def Get_def)
  have h: "p_HandleFireEventHook s = (\<lambda>e. e)" using assms by (simp add: default_hooks_def)
  show ?thesis
    unfolding fireEvent_def Some u option.simps Let_def refresh_def renumber_def may_repeat_def
      hupd_simps(9) h hupd_id by simp
qed

lemma same_core_refresh: "same_core s (refresh a f s)"
  unfolding refresh_def Let_def
  by (rule same_core_trans; rule same_core_hupd) (simp_all add: ident_fields_def)

lemma same_core_renumber: "same_core s (renumber a f s)"
  unfolding renumber_def by (rule same_core_hupd) (simp add: ident_fields_def)

lemma same_core_first_notice: "same_core s (first_notice a s)"
  unfolding first_notice_def by (rule same_core_hupd) (simp add: ident_fields_def)

lemma refresh_simps [simp]:
  "p_fires (refresh a f s) = p_fires s" "p_pendings (refresh a f s) = p_pendings s"
  "pushed (refresh a f s) = pushed s" "p_rule (refresh a f s) = p_rule s"
  "p_fires (renumber a f s) = p_fires s" "p_pendings (renumber a f s) = p_pendings s"
  "pushed (renumber a f s) = pushed s" "p_rule (renumber a f s) = p_rule s"
  "p_fires (first_notice a s) = p_fires s" "p_pendings (first_notice a s) = p_pendings s"
  "pushed (first_notice a s) = pushed s" "p_rule (first_notice a s) = p_rule s"
  by (simp_all add: refresh_def renumber_def first_notice_def Let_def)

lemma same_core_fireEvent: "default_hooks s \<Longrightarrow> same_core s (fireEvent a s)"
proof -
  assume d: "default_hooks s"
  have "same_core s (pushEventToQueue a (renumber a f (refresh a f s)))" for f
    by (rule same_core_trans [OF same_core_refresh
          same_core_trans [OF same_core_renumber same_core_push]])
  moreover have "same_core s (pushEventToQueue a (first_notice a s))"
    by (rule same_core_trans [OF same_core_first_notice same_core_push])
  ultimately show ?thesis
    using same_core_refresh by (simp add: fireEvent_eq [OF d] Let_def split: option.split)
qed

lemma same_core_inhibitEvent: "default_hooks s \<Longrightarrow> same_core s (inhibitEvent as sev s)"
proof (induction as sev s rule: inhibitEvent.induct)
  case (1 sev s)
  then show ?case by simp
next
  case (2 a as sev s)
  have f: "same_core s (fireEvent a s)" using 2 by (simp add: same_core_fireEvent)
  then have "default_hooks (fireEvent a s)" using 2 by (simp add: same_coreD)
  then show ?case using 2 f by (auto intro: same_core_trans)
qed

text \<open>One step of the loop over the events of a group: the pending entry, if any, is refreshed,
  otherwise the event itself becomes the pending entry.\<close>

definition pend :: "addr \<Rightarrow> pstate \<Rightarrow> pstate" where
  "pend a s = (if ar_PromForDuration (p_rule s) = 0 then s
     else case Get (p_pendings s) (ev_Hash (heap s a)) of
       Some q \<Rightarrow> UpdateLastEvalTime (p_pendings s) (ev_Hash (heap s a)) (ev_LastEvalTime (heap s a)) s
     | None \<Rightarrow> s\<lparr>p_pendings := Set (ev_Hash (heap s a)) a (p_pendings s)\<rparr>)"

definition ripe :: "addr \<Rightarrow> pstate \<Rightarrow> bool" where
  "ripe a s \<longleftrightarrow> ar_PromForDuration (p_rule s) = 0 \<or>
     (\<exists>q. Get (p_pendings s) (ev_Hash (heap s a)) = Some q \<and>
        ev_LastEvalTime (heap s a) - ev_TriggerTime (heap s q) + ev_PromEvalInterval (heap s a)
          \<ge> ar_PromForDuration (p_rule s))"

lemma pending_loop_step:
  "pending_loop (a # as) s fe sev =
     (if ripe a (pend a s) then pending_loop as (pend a s) (fe @ [a]) (min sev (ev_Severity (heap s a)))
      else pending_loop as (pend a s) fe sev)"
  by (auto simp: pend_def ripe_def Let_def UpdateLastEvalTime_heap split: option.splits prod.splits)

declare pending_loop.simps(2) [simp del]

lemma pend_simps [simp]:
  "pushed (pend a s) = pushed s" "p_fires (pend a s) = p_fires s"
  by (simp_all add: pend_def split: option.split)

lemma same_core_pend: "same_core s (pend a s)"
  by (auto simp: pend_def same_core_def UpdateLastEvalTime_heap ident_fields_def split: option.split)

text \<open>The whole loop in one equation: the state after all events, the events that are ripe, and
  their most urgent severity.\<close>

fun pend_all :: "addr list \<Rightarrow> pstate \<Rightarrow> pstate" where
  "pend_all [] s = s"
| "pend_all (a # as) s = pend_all as (pend a s)"

fun ripe_events :: "addr list \<Rightarrow> pstate \<Rightarrow> addr list" where
  "ripe_events [] s = []"
| "ripe_events (a # as) s =
     (if ripe a (pend a s) then a # ripe_events as (pend a s) else ripe_events as (pend a s))"

lemma pending_loop_eq:
  "pending_loop as s fe sev = (pend_all as s, fe @ ripe_events as s,
     fold min (map (\<lambda>a. ev_Severity (heap s a)) (ripe_events as s)) sev)"
proof (induction as arbitrary: s fe sev)
  case Nil
  then show ?case by simp
next
  case (Cons a as)
  have "ev_Severity (heap (pend a s) b) = ev_Severity (heap s b)" for b
    by (rule same_coreD [OF same_core_pend])
  then show ?case by (simp add: pending_loop_step Cons.IH min.commute)
qed

lemma same_core_pend_all: "same_core s (pend_all as s)"
  by (induction as s rule: pend_all.induct) (auto intro: same_core_trans same_core_pend)

lemma ripe_events_subset: "set (ripe_events as s) \<subseteq> set as"
  by (induction as arbitrary: s) auto

lemma pend_all_simps [simp]:
  "pushed (pend_all as s) = pushed s" "p_fires (pend_all as s) = p_fires s"
  by (induction as s rule: pend_all.induct) auto

lemma handleEvent_eq:
  "handleEvent as s = inhibitEvent (ripe_events as s)
     (fold min (map (\<lambda>a. ev_Severity (heap s a)) (ripe_events as s)) 4) (pend_all as s)"
  by (simp add: handleEvent_def pending_loop_eq)

lemma same_core_handleEvent: "default_hooks s \<Longrightarrow> same_core s (handleEvent as s)"
proof -
  assume "default_hooks s"
  then have "default_hooks (pend_all as s)" by (simp add: same_coreD [OF same_core_pend_all])
  then show ?thesis unfolding handleEvent_eq
    by (rule same_core_trans [OF same_core_pend_all same_core_inhibitEvent])
qed

subsection \<open>The invariant\<close>

definition live :: "pstate \<Rightarrow> addr \<Rightarrow> bool" where
  "live s a \<longleftrightarrow> a < hnext s \<and> \<not> ev_IsRecovered (heap s a)"

definition entries_ok :: "pstate \<Rightarrow> (string, addr) go_map \<Rightarrow> bool" where
  "entries_ok s m \<longleftrightarrow> go_wf m \<and>
     (\<forall>k a. Get m k = Some a \<longrightarrow> live s a \<and> ev_Hash (heap s a) = k)"

definition proc_inv :: "pstate \<Rightarrow> bool" where
  "proc_inv s \<longleftrightarrow> default_hooks s \<and> entries_ok s (p_fires s) \<and> entries_ok s (p_pendings s)"

lemma same_core_live: "same_core s t \<Longrightarrow> live t a = live s a"
  by (simp add: live_def same_coreD)

lemma same_core_entries: "same_core s t \<Longrightarrow> entries_ok t m = entries_ok s m"
  by (simp add: entries_ok_def same_core_live same_coreD)

lemma entries_ok_Nil [simp]: "entries_ok s []"
  by (simp add: entries_ok_def Get_def)

lemma entries_ok_Set:
  "entries_ok s m \<Longrightarrow> live s a \<Longrightarrow> entries_ok s (Set (ev_Hash (heap s a)) a m)"
  by (auto simp: entries_ok_def em.wf_set split: if_splits)

lemma entries_ok_Delete: "entries_ok s m \<Longrightarrow> entries_ok s (Delete k m)"
  by (auto simp: entries_ok_def em.wf_del split: if_splits)

lemma fireEvent_pendings [simp]: "p_pendings (fireEvent a s) = p_pendings s"
  by (simp add: fireEvent_def Let_def split: option.split)

lemma fireEvent_fires_cases:
  assumes "default_hooks s" "live s a"
  shows "p_fires (fireEvent a s) = p_fires s \<or>
    p_fires (fireEvent a s) = Set (ev_Hash (heap s a)) a (p_fires s)"
  using assms
  by (auto simp: fireEvent_eq Let_def pushEventToQueue_fires live_def
      same_coreD [OF same_core_refresh] same_coreD [OF same_core_renumber]
      same_coreD [OF same_core_first_notice] split: option.split)

lemma fireEvent_inv [inv_intros]:
  assumes "proc_inv s" "live s a"
  shows "proc_inv (fireEvent a s)"
proof -
  have h: "default_hooks s" using assms by (simp add: proc_inv_def)
  note c = same_core_fireEvent [OF h, of a]
  have "entries_ok s (p_fires (fireEvent a s))"
    using fireEvent_fires_cases [OF h assms(2)] assms by (auto simp: proc_inv_def entries_ok_Set)
  then show ?thesis using assms c by (simp add: proc_inv_def same_core_entries same_coreD)
qed

lemma inhibitEvent_inv [inv_intros]:
  "proc_inv s \<Longrightarrow> \<forall>a \<in> set as. live s a \<Longrightarrow> proc_inv (inhibitEvent as sev s)"
proof (induction as sev s rule: inhibitEvent.induct)
  case (1 sev s)
  then show ?case by simp
next
  case (2 a as sev s)
  then have f: "proc_inv (fireEvent a s)" by (simp add: inv_intros)
  have "same_core s (fireEvent a s)" using 2 by (simp add: same_core_fireEvent proc_inv_def)
  then have "\<forall>b \<in> set as. live (fireEvent a s) b" using 2 by (simp add: same_core_live)
  then show ?case using 2 f by simp
qed

lemma pend_inv [inv_intros]: "proc_inv s \<Longrightarrow> live s a \<Longrightarrow> proc_inv (pend a s)"
  using same_core_pend [of s a]
  by (auto simp: proc_inv_def same_core_entries same_coreD pend_def entries_ok_Set split: option.splits)

lemma pend_all_inv [inv_intros]:
  "proc_inv s \<Longrightarrow> \<forall>a \<in> set as. live s a \<Longrightarrow> proc_inv (pend_all as s)"
proof (induction as s rule: pend_all.induct)
  case (2 a as s)
  have "\<forall>b \<in> set as. live (pend a s) b" using 2 by (simp add: same_core_live [OF same_core_pend])
  then show ?case using 2 by (simp add: inv_intros)
qed simp

lemma handleEvent_inv [inv_intros]:
  assumes "proc_inv s" "\<forall>a \<in> set as. live s a"
  shows "proc_inv (handleEvent as s)"
  unfolding handleEvent_eq
proof (rule inhibitEvent_inv)
  show "proc_inv (pend_all as s)" using assms by (rule pend_all_inv)
  show "\<forall>a \<in> set (ripe_events as s). live (pend_all as s) a"
    using assms(2) ripe_events_subset by (auto simp: same_core_live [OF same_core_pend_all])
qed

text \<open>Recovery is the only operation that marks an event as recovered; it removes the entry from
  both maps first.\<close>

definition recoverable :: "pstate \<Rightarrow> int \<Rightarrow> addr \<Rightarrow> bool" where
  "recoverable s now a \<longleftrightarrow>
     \<not> (ar_RecoverDuration (p_rule s) > 0 \<and> now - ev_LastEvalTime (heap s a) < ar_RecoverDuration (p_rule s))"

definition recovered_event :: "AlertRule \<Rightarrow> int \<Rightarrow> string option \<Rightarrow> AlertCurEvent \<Rightarrow> AlertCurEvent" where
  "recovered_event r now v e =
     (UpdateEvent r (case v of None \<Rightarrow> e | Some x \<Rightarrow> e\<lparr>ev_TriggerValue := x\<rparr>))
       \<lparr>ev_IsRecovered := True, ev_LastEvalTime := now\<rparr>"

lemma RecoverSingle_eq:
  assumes "default_hooks s"
  shows "RecoverSingle h now v s =
    (case Get (p_fires s) h of None \<Rightarrow> s
     | Some a \<Rightarrow> if recoverable s now a
         then s\<lparr>p_fires := Delete h (p_fires s), p_pendings := Delete h (p_pendings s),
                heap := (heap s)(a := recovered_event (p_rule s) now v (heap s a)),
                pushed := pushed s @ [(a, recovered_event (p_rule s) now v (heap s a))]\<rparr>
         else s)"
proof -
  have hk: "p_HandleRecoverEventHook s = (\<lambda>e. e)" using assms by (simp add: default_hooks_def)
  have push: "ev_IsRecovered (heap t a) \<Longrightarrow>
      pushEventToQueue a t = t\<lparr>pushed := pushed t @ [(a, heap t a)]\<rparr>" for t a
    by (simp add: pushEventToQueue_def)
  have neg: "ar_RecoverDuration (p_rule s) > 0 \<and> now - ev_LastEvalTime (heap s a)
      < ar_RecoverDuration (p_rule s) \<longleftrightarrow> \<not> recoverable s now a" for a
    by (simp add: recoverable_def)
  have val: "(case v of None \<Rightarrow> s | Some x \<Rightarrow> hupd a (\<lambda>e. e\<lparr>ev_TriggerValue := x\<rparr>) s) =
      hupd a (\<lambda>e. case v of None \<Rightarrow> e | Some x \<Rightarrow> e\<lparr>ev_TriggerValue := x\<rparr>) s" for a
    by (cases v) (simp_all add: hupd_id)
  show ?thesis
    unfolding RecoverSingle_def Let_def neg val
    by (simp add: push hk hupd_def recovered_event_def split: option.split)
qed

lemma recovered_event_simps [simp]:
  "ev_Hash (recovered_event r now v e) = ev_Hash e"
  "ev_IsRecovered (recovered_event r now v e)"
  "ev_LastEvalTime (recovered_event r now v e) = now"
  "ev_NotifyCurNumber (recovered_event r now v e) = ev_NotifyCurNumber e"
  by (simp_all add: recovered_event_def split: option.split)

lemma entries_ok_recover:
  assumes "entries_ok s m" "ev_Hash (heap s a) = h" "hnext t = hnext s"
    "heap t = (heap s)(a := e')"
  shows "entries_ok t (Delete h m)"
  using assms by (auto simp: entries_ok_def em.wf_del live_def split: if_splits)

lemma RecoverSingle_inv [inv_intros]: "proc_inv s \<Longrightarrow> proc_inv (RecoverSingle h now v s)"
proof -
  assume i: "proc_inv s"
  then have d: "default_hooks s" by (simp add: proc_inv_def)
  show ?thesis
  proof (cases "\<exists>a. Get (p_fires s) h = Some a \<and> recoverable s now a")
    case True
    then obtain a where a: "Get (p_fires s) h = Some a" "recoverable s now a" by blast
    then have h: "ev_Hash (heap s a) = h" using i by (auto simp: proc_inv_def entries_ok_def)
    let ?t = "s\<lparr>p_fires := Delete h (p_fires s), p_pendings := Delete h (p_pendings s),
                heap := (heap s)(a := recovered_event (p_rule s) now v (heap s a)),
                pushed := pushed s @ [(a, recovered_event (p_rule s) now v (heap s a))]\<rparr>"
    have "entries_ok ?t (Delete h (p_fires s))" "entries_ok ?t (Delete h (p_pendings s))"
      using i h by (auto simp: proc_inv_def intro!: entries_ok_recover [where s = s and a = a])
    then have "proc_inv ?t" using d by (simp add: proc_inv_def default_hooks_def)
    then show ?thesis using a by (simp add: RecoverSingle_eq [OF d])
  next
    case False
    then have "RecoverSingle h now v s = s"
      by (auto simp: RecoverSingle_eq [OF d] split: option.split)
    then show ?thesis using i by simp
  qed
qed

lemma drop_pending_inv [inv_intros]: "proc_inv s \<Longrightarrow> proc_inv (drop_pending K h s)"
  by (auto simp: drop_pending_def proc_inv_def default_hooks_def entries_ok_def live_def em.wf_del
      split: if_splits)

lemma recover_fire_inv [inv_intros]: "proc_inv s \<Longrightarrow> proc_inv (recover_fire K now h s)"
  by (simp add: recover_fire_def inv_intros)

lemma HandleRecover_inv [inv_intros]: "proc_inv s \<Longrightarrow> proc_inv (HandleRecover ordP ordF K now s)"
  unfolding HandleRecover_def Let_def
  by (rule fold_invariant_set, rule fold_invariant_set) (auto intro: inv_intros)

end
