(* ===== verification/Processor_Spec.thy ===== *)
theory Processor_Spec
  imports Processor_Invariant
begin

text \<open>
  What one evaluation of a rule does. The lemmas follow the three phases of \<open>Handle\<close>: building and
  muting the events of the anomaly points, firing the groups, recovering what is no longer
  anomalous. The runs of a processor are a step relation (evaluations, external recoveries,
  reloads from the database and the consumer's edits of queued events), and the invariant holds in
  every reachable state.
\<close>

subsection \<open>Building the events\<close>

definition point_frame :: "pstate \<Rightarrow> pstate \<Rightarrow> bool" where
  "point_frame s t \<longleftrightarrow> p_fires t = p_fires s \<and> p_pendings t = p_pendings s \<and> pushed t = pushed s \<and>
     p_rule t = p_rule s \<and> p_inhibit t = p_inhibit s \<and> p_datasourceId t = p_datasourceId s \<and>
     p_HandleFireEventHook t = p_HandleFireEventHook s \<and>
     p_HandleRecoverEventHook t = p_HandleRecoverEventHook s \<and>
     p_EventMuteHook t = p_EventMuteHook s \<and> hnext s \<le> hnext t \<and>
     (\<forall>b < hnext s. heap t b = heap s b)"

lemma point_frame_refl [simp]: "point_frame s s"
  by (simp add: point_frame_def)

lemma point_frame_trans: "point_frame s t \<Longrightarrow> point_frame t u \<Longrightarrow> point_frame s u"
  by (simp add: point_frame_def)

lemma point_frame_hooks: "point_frame s t \<Longrightarrow> default_hooks t = default_hooks s"
  by (simp add: point_frame_def default_hooks_def)

lemma point_frame_live: "point_frame s t \<Longrightarrow> live s a \<Longrightarrow> live t a \<and> heap t a = heap s a"
  by (auto simp: point_frame_def live_def)

lemma point_frame_inv: "point_frame s t \<Longrightarrow> proc_inv s \<Longrightarrow> proc_inv t"
  using point_frame_live [of s t]
  by (auto simp: proc_inv_def entries_ok_def point_frame_hooks) (auto simp: point_frame_def)

lemma fillTags_frame: "fillTags E pt s = Inr t \<Longrightarrow> point_frame s t"
  by (auto simp: fillTags_def res_bind_Inr_iff point_frame_def Let_def)

lemma mayHandleIdent_frame: "point_frame s (mayHandleIdent E s)"
  by (simp add: mayHandleIdent_def point_frame_def split: option.split)

lemma event_of_simps [simp]:
  "ev_Hash (event_of E pt org now s) = Hash (env_lib E) (ar_Id (p_rule s)) (p_datasourceId s) pt"
  "ev_IsRecovered (event_of E pt org now s) = False"
  "ev_Severity (event_of E pt org now s) = ap_Severity pt"
  "ev_TriggerTime (event_of E pt org now s) = ap_Timestamp pt"
  "ev_LastEvalTime (event_of E pt org now s) = (if org = ''inner'' then now else ap_Timestamp pt)"
  "ev_PromEvalInterval (event_of E pt org now s) = ar_PromEvalInterval (p_rule s)"
  by (simp_all add: event_of_def Let_def GenerateNewEvent_def)

lemma BuildEvent_spec:
  assumes "BuildEvent E pt org now s = Inr (a, t)"
  shows "point_frame s t" "live t a" "\<not> live s a"
    "ev_Hash (heap t a) = Hash (env_lib E) (ar_Id (p_rule s)) (p_datasourceId s) pt"
    "ev_Severity (heap t a) = ap_Severity pt" "ev_TriggerTime (heap t a) = ap_Timestamp pt"
    "ev_LastEvalTime (heap t a) = (if org = ''inner'' then now else ap_Timestamp pt)"
proof -
  obtain s1 where s1: "fillTags E pt s = Inr s1"
    and t: "(a, t) = alloc (event_of E pt org now (mayHandleIdent E s1)) (mayHandleIdent E s1)"
    using assms by (auto simp: BuildEvent_def res_bind_Inr_iff Let_def)
  let ?s2 = "mayHandleIdent E s1"
  have f: "point_frame s ?s2"
    using point_frame_trans [OF fillTags_frame [OF s1] mayHandleIdent_frame] .
  have a: "a = hnext ?s2" and tt: "t = ?s2\<lparr>heap := (heap ?s2)(a := event_of E pt org now ?s2), hnext := Suc a\<rparr>"
    using t by (auto simp: alloc_def)
  have r: "p_rule ?s2 = p_rule s" "p_datasourceId ?s2 = p_datasourceId s" "hnext s \<le> hnext ?s2"
    using f by (auto simp: point_frame_def)
  show "point_frame s t" using f a by (auto simp: tt point_frame_def)
  show "live t a" by (simp add: tt live_def)
  show "\<not> live s a" using a r by (simp add: live_def)
  show "ev_Hash (heap t a) = Hash (env_lib E) (ar_Id (p_rule s)) (p_datasourceId s) pt"
    using r by (simp add: tt)
  show "ev_Severity (heap t a) = ap_Severity pt" "ev_TriggerTime (heap t a) = ap_Timestamp pt"
    "ev_LastEvalTime (heap t a) = (if org = ''inner'' then now else ap_Timestamp pt)"
    by (simp_all add: tt)
qed

definition groups_ok :: "pstate \<Rightarrow> string set \<Rightarrow> groups \<Rightarrow> bool" where
  "groups_ok s K G \<longleftrightarrow> (\<forall>g as a. go_get G g = Some as \<longrightarrow> a \<in> set as \<longrightarrow>
     live s a \<and> ev_Hash (heap s a) \<in> K)"

lemma handle_point_spec:
  assumes "handle_point E r org now pt (s, K, G) = Inr (t, K', G')" and "groups_ok s K G"
  shows "point_frame s t"
    "K' = insert (Hash (env_lib E) (ar_Id (p_rule s)) (p_datasourceId s) pt) K"
    "groups_ok t K' G'"
proof -
  obtain a s1 where b: "BuildEvent E pt org now s = Inr (a, s1)"
    using assms(1) by (cases "BuildEvent E pt org now s") (auto simp: handle_point_def)
  obtain muted where m: "IsMuted E r (heap s1 a) = Inr muted"
    using assms(1) by (cases "IsMuted E r (heap s1 a)") (auto simp: handle_point_def b Let_def)
  have h: "t = s1 \<and> K' = insert (ev_Hash (heap s1 a)) K \<and>
      (G' = G \<or> G' = go_set (TagHash (env_lib E) pt)
        ((case go_get G (TagHash (env_lib E) pt) of None \<Rightarrow> [] | Some as \<Rightarrow> as) @ [a]) G)"
    using assms(1) unfolding handle_point_def prod.case b res_bind_simps Let_def m
    by (cases muted; cases "p_EventMuteHook s1 (heap s1 a)") auto
  then have t: "t = s1" and K': "K' = insert (ev_Hash (heap s1 a)) K"
    and G': "G' = G \<or> G' = go_set (TagHash (env_lib E) pt)
      ((case go_get G (TagHash (env_lib E) pt) of None \<Rightarrow> [] | Some as \<Rightarrow> as) @ [a]) G"
    by simp_all
  note B = BuildEvent_spec [OF b]
  show f: "point_frame s t" using B t by simp
  show "K' = insert (Hash (env_lib E) (ar_Id (p_rule s)) (p_datasourceId s) pt) K" using B K' by simp
  have old: "groups_ok t K' G"
    using assms(2) point_frame_live [OF f] K' by (fastforce simp: groups_ok_def)
  show "groups_ok t K' G'"
    using G'
  proof
    assume "G' = G"
    then show ?thesis using old by simp
  next
    assume g: "G' = go_set (TagHash (env_lib E) pt)
      ((case go_get G (TagHash (env_lib E) pt) of None \<Rightarrow> [] | Some as \<Rightarrow> as) @ [a]) G"
    have "live t a \<and> ev_Hash (heap t a) \<in> K'" using B t K' by simp
    then show ?thesis using old unfolding g groups_ok_def
      by (cases "go_get G (TagHash (env_lib E) pt)") (auto split: if_splits)
  qed
qed

definition alerting :: "env \<Rightarrow> AlertRule \<Rightarrow> int \<Rightarrow> AnomalyPoint list \<Rightarrow> string set" where
  "alerting E r ds pts = Hash (env_lib E) (ar_Id r) ds ` set pts"

lemma handle_points_spec:
  assumes "res_fold (handle_point E r org now) pts (s, K, G) = Inr (t, K', G')" and "groups_ok s K G"
  shows "point_frame s t \<and> K' = K \<union> alerting E (p_rule s) (p_datasourceId s) pts \<and> groups_ok t K' G'"
  using assms
proof (induction pts arbitrary: s K G)
  case Nil
  then show ?case by (simp add: alerting_def)
next
  case (Cons pt pts)
  obtain s1 K1 G1 where p: "handle_point E r org now pt (s, K, G) = Inr (s1, K1, G1)"
    and rest: "res_fold (handle_point E r org now) pts (s1, K1, G1) = Inr (t, K', G')"
    using Cons.prems(1) by (auto simp: res_bind_Inr_iff)
  note P = handle_point_spec [OF p Cons.prems(2)]
  have r: "p_rule s1 = p_rule s" "p_datasourceId s1 = p_datasourceId s"
    using P(1) by (simp_all add: point_frame_def)
  show ?case
    using Cons.IH [OF rest P(3)] P(1,2) r by (auto simp: alerting_def intro: point_frame_trans)
qed

subsection \<open>Firing touches only the hashes that are alerting\<close>

definition outside_same :: "string set \<Rightarrow> pstate \<Rightarrow> pstate \<Rightarrow> bool" where
  "outside_same K s t \<longleftrightarrow> (\<forall>b. ev_Hash (heap s b) \<notin> K \<longrightarrow> heap t b = heap s b) \<and>
     (\<forall>k. k \<notin> K \<longrightarrow> Get (p_fires t) k = Get (p_fires s) k \<and> Get (p_pendings t) k = Get (p_pendings s) k)"

text \<open>Entries under alerting hashes only grow: a firing hash keeps firing and a pending hash keeps
  its pending event, hence the time at which it was first seen.\<close>

definition entries_grow :: "pstate \<Rightarrow> pstate \<Rightarrow> bool" where
  "entries_grow s t \<longleftrightarrow> dom (Get (p_fires s)) \<subseteq> dom (Get (p_fires t)) \<and>
     (\<forall>k q. Get (p_pendings s) k = Some q \<longrightarrow> Get (p_pendings t) k = Some q)"

text \<open>What goes to the queue on the way: firing events with alerting hashes, each the first notice
  or a repeated one that the rule allows.\<close>

definition notice_ok :: "AlertRule \<Rightarrow> AlertCurEvent \<Rightarrow> bool" where
  "notice_ok r e \<longleftrightarrow> \<not> ev_IsRecovered e \<and> ev_LastSentTime e = ev_LastEvalTime e \<and>
     (ev_NotifyCurNumber e = 1 \<and> ev_FirstTriggerTime e = ev_TriggerTime e \<or>
      ar_NotifyRepeatStep r \<noteq> 0 \<and>
        (ar_NotifyMaxNumber r = 0 \<or> ev_NotifyCurNumber e \<le> ar_NotifyMaxNumber r))"

definition fires_only :: "string set \<Rightarrow> AlertRule \<Rightarrow> (addr \<times> AlertCurEvent) list \<Rightarrow> bool" where
  "fires_only K r xs \<longleftrightarrow> (\<forall>x \<in> set xs. ev_Hash (snd x) \<in> K \<and> notice_ok r (snd x))"

definition push_grow :: "string set \<Rightarrow> pstate \<Rightarrow> pstate \<Rightarrow> bool" where
  "push_grow K s t \<longleftrightarrow> (\<exists>xs. pushed t = pushed s @ xs \<and> fires_only K (p_rule s) xs)"

lemma push_grow_same: "pushed t = pushed s \<Longrightarrow> push_grow K s t"
  unfolding push_grow_def by (intro exI [of _ "[]"]) (simp add: fires_only_def)

lemma push_grow_one:
  "pushed t = pushed s @ [(a, e)] \<Longrightarrow> ev_Hash e \<in> K \<Longrightarrow> notice_ok (p_rule s) e \<Longrightarrow> push_grow K s t"
  unfolding push_grow_def by (intro exI [of _ "[(a, e)]"]) (simp add: fires_only_def)

lemma push_grow_opt:
  "pushed t = pushed s @ (if c then [(a, e)] else []) \<Longrightarrow>
     (c \<Longrightarrow> ev_Hash e \<in> K \<and> notice_ok (p_rule s) e) \<Longrightarrow> push_grow K s t"
  by (cases c) (auto intro: push_grow_same push_grow_one)

lemma push_grow_trans:
  "p_rule t = p_rule s \<Longrightarrow> push_grow K s t \<Longrightarrow> push_grow K t u \<Longrightarrow> push_grow K s u"
  unfolding push_grow_def fires_only_def by fastforce

definition fire_frame :: "string set \<Rightarrow> pstate \<Rightarrow> pstate \<Rightarrow> bool" where
  "fire_frame K s t \<longleftrightarrow> same_core s t \<and> outside_same K s t \<and> entries_grow s t \<and> push_grow K s t"

lemma fire_frame_refl [simp]: "fire_frame K s s"
  by (simp add: fire_frame_def outside_same_def entries_grow_def push_grow_same)

lemma outside_same_trans:
  assumes "same_core s t" "outside_same K s t" "outside_same K t u"
  shows "outside_same K s u"
  using assms(2,3) by (simp add: outside_same_def same_coreD(6) [OF assms(1)])

lemma entries_grow_trans: "entries_grow s t \<Longrightarrow> entries_grow t u \<Longrightarrow> entries_grow s u"
  unfolding entries_grow_def by (meson subset_trans)

lemma fire_frame_trans [trans]: "fire_frame K s t \<Longrightarrow> fire_frame K t u \<Longrightarrow> fire_frame K s u"
  unfolding fire_frame_def
  using same_core_trans outside_same_trans entries_grow_trans push_grow_trans same_coreD(2) by metis

lemma fire_frame_live:
  assumes "fire_frame K s t"
  shows "\<forall>a \<in> A. live s a \<and> ev_Hash (heap s a) \<in> K \<Longrightarrow> \<forall>a \<in> A. live t a \<and> ev_Hash (heap t a) \<in> K"
proof -
  have c: "same_core s t" using assms by (simp add: fire_frame_def)
  show "\<forall>a \<in> A. live s a \<and> ev_Hash (heap s a) \<in> K \<Longrightarrow> \<forall>a \<in> A. live t a \<and> ev_Hash (heap t a) \<in> K"
    by (simp add: same_core_live [OF c] same_coreD(6) [OF c])
qed

text \<open>What \<open>fireEvent\<close> hands to the queue: nothing, or the event itself as it now is.\<close>

lemma fireEvent_repeat:
  assumes "default_hooks s" "\<not> ev_IsRecovered (heap s a)" "a \<noteq> f"
    "Get (p_fires s) (ev_Hash (heap s a)) = Some f"
  shows "pushed (fireEvent a s) = pushed s @ (if may_repeat (p_rule s) (heap s a) (heap s f)
      then [(a, (heap s a)\<lparr>ev_FirstTriggerTime := ev_FirstTriggerTime (heap s f),
                ev_NotifyCurNumber := ev_NotifyCurNumber (heap s f) + 1,
                ev_LastSentTime := ev_LastEvalTime (heap s a)\<rparr>)] else [])"
  using assms(2-4)
  by (auto simp: fireEvent_eq [OF assms(1)] Let_def push_simps refresh_def renumber_def may_repeat_def)

lemma fireEvent_same:
  assumes "default_hooks s" "\<not> ev_IsRecovered (heap s a)"
    "Get (p_fires s) (ev_Hash (heap s a)) = Some a"
  shows "pushed (fireEvent a s) = pushed s @ (if may_repeat (p_rule s) (heap s a) (heap s a)
      then [(a, (heap s a)\<lparr>ev_NotifyCurNumber := ev_NotifyCurNumber (heap s a) + 1,
                ev_LastSentTime := ev_LastEvalTime (heap s a)\<rparr>)] else [])"
  using assms(2,3)
  by (auto simp: fireEvent_eq [OF assms(1)] Let_def push_simps refresh_def renumber_def may_repeat_def)

lemma fireEvent_first:
  assumes "default_hooks s" "\<not> ev_IsRecovered (heap s a)"
    "Get (p_fires s) (ev_Hash (heap s a)) = None"
  shows "pushed (fireEvent a s) = pushed s @ [(a, (heap s a)\<lparr>ev_NotifyCurNumber := 1,
     ev_FirstTriggerTime := ev_TriggerTime (heap s a), ev_LastSentTime := ev_LastEvalTime (heap s a)\<rparr>)]"
  using assms(2,3) by (simp add: fireEvent_eq [OF assms(1)] push_simps first_notice_def)

lemma fireEvent_push_grow:
  assumes d: "default_hooks s" and l: "live s a" and K: "ev_Hash (heap s a) \<in> K"
  shows "push_grow K s (fireEvent a s)"
proof -
  have r: "\<not> ev_IsRecovered (heap s a)" using l by (simp add: live_def)
  consider (none) "Get (p_fires s) (ev_Hash (heap s a)) = None"
    | (same) "Get (p_fires s) (ev_Hash (heap s a)) = Some a"
    | (other) f where "Get (p_fires s) (ev_Hash (heap s a)) = Some f" "a \<noteq> f"
    by (cases "Get (p_fires s) (ev_Hash (heap s a))") auto
  then show ?thesis
  proof cases
    case none
    show ?thesis
      by (rule push_grow_one [OF fireEvent_first [OF d r none]]) (simp_all add: K r notice_ok_def)
  next
    case same
    show ?thesis
      by (rule push_grow_opt [OF fireEvent_same [OF d r same]])
        (use K r in \<open>auto simp: notice_ok_def may_repeat_def\<close>)
  next
    case other
    show ?thesis
      by (rule push_grow_opt [OF fireEvent_repeat [OF d r other(2,1)]])
        (use K r in \<open>auto simp: notice_ok_def may_repeat_def\<close>)
  qed
qed

lemma fireEvent_frame:
  assumes "proc_inv s" "live s a" "ev_Hash (heap s a) \<in> K"
  shows "fire_frame K s (fireEvent a s)"
proof -
  have d: "default_hooks s" using assms(1) by (simp add: proc_inv_def)
  have f: "ev_Hash (heap s f) \<in> K" if "Get (p_fires s) (ev_Hash (heap s a)) = Some f" for f
    using that assms by (auto simp: proc_inv_def entries_ok_def)
  have heap: "heap (fireEvent a s) b = heap s b" if b: "ev_Hash (heap s b) \<notin> K" for b
  proof -
    have "b \<noteq> a" using b assms(3) by auto
    moreover have "b \<noteq> f" if "Get (p_fires s) (ev_Hash (heap s a)) = Some f" for f
      using f [OF that] b by auto
    ultimately show ?thesis
      by (auto simp: fireEvent_eq [OF d] Let_def pushEventToQueue_heap refresh_def renumber_def
          first_notice_def split: option.split)
  qed
  show ?thesis
    using same_core_fireEvent [OF d] heap fireEvent_fires_cases [OF d assms(2)] assms(3)
      fireEvent_push_grow [OF d assms(2,3)]
    by (auto simp: fire_frame_def outside_same_def entries_grow_def)
qed

lemma inhibitEvent_frame:
  "proc_inv s \<Longrightarrow> \<forall>a \<in> set as. live s a \<and> ev_Hash (heap s a) \<in> K \<Longrightarrow>
     fire_frame K s (inhibitEvent as sev s)"
proof (induction as sev s rule: inhibitEvent.induct)
  case (1 sev s)
  then show ?case by simp
next
  case (2 a as sev s)
  have f: "fire_frame K s (fireEvent a s)" using 2 by (simp add: fireEvent_frame)
  have i: "proc_inv (fireEvent a s)" using 2 by (simp add: fireEvent_inv)
  have "\<forall>b \<in> set as. live (fireEvent a s) b \<and> ev_Hash (heap (fireEvent a s) b) \<in> K"
    by (rule fire_frame_live [OF f]) (use 2 in simp)
  then show ?case using 2 f i by (auto intro: fire_frame_trans)
qed

lemma pend_frame:
  assumes "proc_inv s" "live s a" "ev_Hash (heap s a) \<in> K"
  shows "fire_frame K s (pend a s)"
proof -
  have q: "ev_Hash (heap s q) \<in> K" if "Get (p_pendings s) (ev_Hash (heap s a)) = Some q" for q
    using that assms by (auto simp: proc_inv_def entries_ok_def)
  have "heap (pend a s) b = heap s b" if b: "ev_Hash (heap s b) \<notin> K" for b
  proof -
    have "Get (p_pendings s) (ev_Hash (heap s a)) \<noteq> Some b" using q [of b] b by blast
    then show ?thesis by (simp add: pend_def UpdateLastEvalTime_heap split: option.split)
  qed
  moreover have "Get (p_pendings (pend a s)) k = Get (p_pendings s) k" if "k \<notin> K" for k
    using that assms(3) by (auto simp: pend_def split: option.split)
  moreover have "entries_grow s (pend a s)"
    by (auto simp: entries_grow_def pend_def split: option.split)
  ultimately show ?thesis using same_core_pend [of s a]
    by (simp add: fire_frame_def outside_same_def push_grow_same)
qed

lemma pend_all_frame:
  "proc_inv s \<Longrightarrow> \<forall>a \<in> set as. live s a \<and> ev_Hash (heap s a) \<in> K \<Longrightarrow> fire_frame K s (pend_all as s)"
proof (induction as s rule: pend_all.induct)
  case (1 s)
  then show ?case by simp
next
  case (2 a as s)
  have f: "fire_frame K s (pend a s)" using 2 by (simp add: pend_frame)
  have "proc_inv (pend a s)" using 2 by (simp add: pend_inv)
  moreover have "\<forall>b \<in> set as. live (pend a s) b \<and> ev_Hash (heap (pend a s) b) \<in> K"
    by (rule fire_frame_live [OF f]) (use 2 in simp)
  ultimately show ?case using 2 f by (auto intro: fire_frame_trans)
qed

lemma handleEvent_frame:
  assumes "proc_inv s" "\<forall>a \<in> set as. live s a \<and> ev_Hash (heap s a) \<in> K"
  shows "fire_frame K s (handleEvent as s)"
proof -
  have p: "fire_frame K s (pend_all as s)" using assms by (rule pend_all_frame)
  have "proc_inv (pend_all as s)" using assms by (simp add: pend_all_inv)
  moreover have "\<forall>a \<in> set (ripe_events as s). live (pend_all as s) a \<and> ev_Hash (heap (pend_all as s) a) \<in> K"
    by (rule fire_frame_live [OF p]) (use assms ripe_events_subset in blast)
  ultimately show ?thesis unfolding handleEvent_eq
    using p inhibitEvent_frame fire_frame_trans by blast
qed

lemma handle_groups_frame:
  assumes "proc_inv s" "groups_ok s K G"
  shows "proc_inv (fold (handle_group G) gs s) \<and> fire_frame K s (fold (handle_group G) gs s)"
  using assms
proof (induction gs arbitrary: s)
  case Nil
  then show ?case by simp
next
  case (Cons g gs)
  have "proc_inv (handle_group G g s) \<and> fire_frame K s (handle_group G g s)"
    using Cons.prems handleEvent_frame [of s _ K]
    by (auto simp: handle_group_def groups_ok_def handleEvent_inv split: option.split)
  moreover from this have "groups_ok (handle_group G g s) K G"
    using Cons.prems(2) by (auto simp: groups_ok_def fire_frame_def same_core_live same_coreD)
  ultimately show ?case using Cons.IH [of "handle_group G g s"] by (auto intro: fire_frame_trans)
qed

subsection \<open>Recovery\<close>

definition recovers :: "string set \<Rightarrow> int \<Rightarrow> pstate \<Rightarrow> string \<Rightarrow> bool" where
  "recovers K now s h \<longleftrightarrow> h \<notin> K \<and> (\<exists>a. Get (p_fires s) h = Some a \<and> recoverable s now a)"

definition recovery_of :: "int \<Rightarrow> pstate \<Rightarrow> string \<Rightarrow> addr \<times> AlertCurEvent" where
  "recovery_of now s h = (let a = the (Get (p_fires s) h)
     in (a, recovered_event (p_rule s) now None (heap s a)))"

lemma recover_fire_eq:
  assumes "default_hooks s"
  shows "recover_fire K now h s = (if recovers K now s h
     then (let (a, e) = recovery_of now s h in
       s\<lparr>p_fires := Delete h (p_fires s), p_pendings := Delete h (p_pendings s),
         heap := (heap s)(a := e), pushed := pushed s @ [(a, e)]\<rparr>)
     else s)"
  by (auto simp: recover_fire_def RecoverSingle_eq [OF assms] recovers_def recovery_of_def Let_def
      split: option.split)

lemma recover_fire_other:
  assumes i: "proc_inv s" and "k \<noteq> h"
  shows "Get (p_fires (recover_fire K now h s)) k = Get (p_fires s) k"
    "recovers K now (recover_fire K now h s) k = recovers K now s k"
    "recovers K now s k \<Longrightarrow> recovery_of now (recover_fire K now h s) k = recovery_of now s k"
    "Get (p_pendings (recover_fire K now h s)) k = Get (p_pendings s) k"
proof -
  have d: "default_hooks s" using i by (simp add: proc_inv_def)
  show f: "Get (p_fires (recover_fire K now h s)) k = Get (p_fires s) k"
    "Get (p_pendings (recover_fire K now h s)) k = Get (p_pendings s) k"
    using assms(2) by (auto simp: recover_fire_eq [OF d] split: prod.split)
  have h: "heap (recover_fire K now h s) a = heap s a" if a: "Get (p_fires s) k = Some a" for a
  proof (cases "recovers K now s h")
    case True
    then obtain b where b: "Get (p_fires s) h = Some b" by (auto simp: recovers_def)
    have "ev_Hash (heap s a) = k" "ev_Hash (heap s b) = h"
      using a b i by (auto simp: proc_inv_def entries_ok_def)
    then have "a \<noteq> b" using assms(2) by auto
    then show ?thesis using True b by (simp add: recover_fire_eq [OF d] recovery_of_def Let_def)
  next
    case False
    then show ?thesis by (simp add: recover_fire_eq [OF d])
  qed
  have r: "p_rule (recover_fire K now h s) = p_rule s"
    by (auto simp: recover_fire_eq [OF d] split: prod.split)
  show "recovers K now (recover_fire K now h s) k = recovers K now s k"
    using f h r by (auto simp: recovers_def recoverable_def)
  show "recovers K now s k \<Longrightarrow> recovery_of now (recover_fire K now h s) k = recovery_of now s k"
    using f h r by (auto simp: recovers_def recovery_of_def)
qed

lemma fold_recover_fire:
  assumes "proc_inv s" "distinct hs"
  shows "pushed (fold (recover_fire K now) hs s) =
      pushed s @ map (recovery_of now s) (filter (recovers K now s) hs) \<and>
    (\<forall>k. Get (p_fires (fold (recover_fire K now) hs s)) k =
       (if k \<in> set hs \<and> recovers K now s k then None else Get (p_fires s) k)) \<and>
    (\<forall>k. Get (p_pendings (fold (recover_fire K now) hs s)) k =
       (if k \<in> set hs \<and> recovers K now s k then None else Get (p_pendings s) k))"
  using assms
proof (induction hs arbitrary: s)
  case Nil
  then show ?case by simp
next
  case (Cons h hs)
  let ?s = "recover_fire K now h s"
  have i: "proc_inv ?s" using Cons.prems(1) by (rule recover_fire_inv)
  have d: "default_hooks s" using Cons.prems(1) by (simp add: proc_inv_def)
  note oth = recover_fire_other [OF Cons.prems(1)]
  have neq: "k \<noteq> h" if "k \<in> set hs" for k using that Cons.prems(2) by auto
  have flt: "filter (recovers K now ?s) hs = filter (recovers K now s) hs"
    using neq oth(2) by (auto intro!: filter_cong)
  have mp: "map (recovery_of now ?s) (filter (recovers K now s) hs) =
      map (recovery_of now s) (filter (recovers K now s) hs)"
    using neq oth(3) by auto
  have p: "pushed ?s = pushed s @ (if recovers K now s h then [recovery_of now s h] else [])"
    by (auto simp: recover_fire_eq [OF d] split: prod.split)
  have fh: "Get (p_fires ?s) h = (if recovers K now s h then None else Get (p_fires s) h)"
    "Get (p_pendings ?s) h = (if recovers K now s h then None else Get (p_pendings s) h)"
    by (auto simp: recover_fire_eq [OF d] split: prod.split)
  have ff: "Get (p_fires ?s) k = (if k = h \<and> recovers K now s k then None else Get (p_fires s) k)"
    "Get (p_pendings ?s) k = (if k = h \<and> recovers K now s k then None else Get (p_pendings s) k)" for k
    using fh oth(1,4) [of k h] by (cases "k = h"; simp)+
  have rs: "k \<in> set hs \<and> recovers K now ?s k \<longleftrightarrow> k \<in> set hs \<and> recovers K now s k" for k
    using neq oth(2) by blast
  have ih: "pushed (fold (recover_fire K now) hs ?s) =
      pushed ?s @ map (recovery_of now ?s) (filter (recovers K now ?s) hs)"
    "Get (p_fires (fold (recover_fire K now) hs ?s)) k =
       (if k \<in> set hs \<and> recovers K now ?s k then None else Get (p_fires ?s) k)"
    "Get (p_pendings (fold (recover_fire K now) hs ?s)) k =
       (if k \<in> set hs \<and> recovers K now ?s k then None else Get (p_pendings ?s) k)" for k
    using Cons.IH [OF i] Cons.prems(2) by auto
  show ?case unfolding fold_simps ih rs ff p flt mp by auto
qed

lemma fold_drop_pending:
  "fold (drop_pending K) hs s =
     s\<lparr>p_pendings := fold Delete (filter (\<lambda>h. h \<notin> K) hs) (p_pendings s)\<rparr>"
  by (induction hs arbitrary: s) (auto simp: drop_pending_def)

lemma HandleRecover_spec:
  assumes i: "proc_inv s" and o: "fair_order ordP" "fair_order ordF"
    and t_def: "t = HandleRecover ordP ordF K now s"
  shows "Get (p_pendings t) k = (if k \<in> K then Get (p_pendings s) k else None)"
    "Get (p_fires t) k = (if recovers K now s k then None else Get (p_fires s) k)"
    "pushed t = pushed s @ map (recovery_of now s) (filter (recovers K now s) (ordF (Keys (p_fires s))))"
proof -
  let ?s1 = "fold (drop_pending K) (ordP (Keys (p_pendings s))) s"
  have s1: "?s1 = s\<lparr>p_pendings := fold Delete (filter (\<lambda>h. h \<notin> K) (ordP (Keys (p_pendings s)))) (p_pendings s)\<rparr>"
    by (rule fold_drop_pending)
  have i1: "proc_inv ?s1" by (rule fold_invariant_set) (auto intro: i drop_pending_inv)
  have eqs: "p_fires ?s1 = p_fires s" "pushed ?s1 = pushed s" "recovers K now ?s1 = recovers K now s"
    "recovery_of now ?s1 = recovery_of now s"
    by (simp_all add: s1 recovers_def recoverable_def recovery_of_def fun_eq_iff)
  have pend: "Get (p_pendings ?s1) k = (if k \<in> K then Get (p_pendings s) k else None)" for k
    using em.get_in_keys [of "p_pendings s" k] o(1)
    by (cases "Get (p_pendings s) k") (auto simp: s1 em.get_fold_del)
  have "distinct (ordF (Keys (p_fires s)))"
    using i o(2) em.wf_keys by (simp add: proc_inv_def entries_ok_def)
  note F = fold_recover_fire [OF i1, of "ordF (Keys (p_fires s))" K now, OF this]
  have t: "t = fold (recover_fire K now) (ordF (Keys (p_fires s))) ?s1"
    unfolding t_def HandleRecover_def Let_def eqs(1) ..
  have rk: "recovers K now s k \<Longrightarrow> k \<in> set (ordF (Keys (p_fires s))) \<and> k \<notin> K"
    using em.get_in_keys o(2) by (auto simp: recovers_def)
  show "Get (p_pendings t) k = (if k \<in> K then Get (p_pendings s) k else None)"
    using F pend rk by (auto simp: t eqs)
  show "Get (p_fires t) k = (if recovers K now s k then None else Get (p_fires s) k)"
    using F rk by (auto simp: t eqs)
  show "pushed t = pushed s @ map (recovery_of now s) (filter (recovers K now s) (ordF (Keys (p_fires s))))"
    using F by (simp add: t eqs)
qed

end
