(* ===== verification/Samples.thy ===== *)
theory Samples
  imports Processor
begin

text \<open>
  Small concrete instances on which the hypotheses of the properties are discharged: a library
  whose hash is the identity, caches with one rule, one business group and one host, and one
  anomaly point of that host.
\<close>

definition sample_lib :: lib where
  "sample_lib = \<lparr>lib_md5 = (\<lambda>s. s), lib_metric_string = (\<lambda>m. concat (map (\<lambda>(k, v). k @ ''='' @ v @ '','') m)),
     lib_compile = (\<lambda>p. Some (\<lambda>v. v = p)), lib_tz = (\<lambda>t. 0),
     lib_render = (\<lambda>tpl e. Inr ''x''), lib_decode_filters = (\<lambda>s. Some []),
     lib_marshal = (\<lambda>j. ''{}''), lib_unmarshal = (\<lambda>s j. JNull),
     lib_unmarshal_strmap = (\<lambda>s m. m), lib_dangerous = (\<lambda>s. False)\<rparr>"

definition sample_rule :: AlertRule where
  "sample_rule = zero_AlertRule\<lparr>ar_Id := 7, ar_GroupId := 1, ar_Name := ''cpu'', ar_Severity := 2,
     ar_EnableStime := ''00:00'', ar_EnableEtime := ''23:59'', ar_EnableDaysOfWeek := ''0 1 2 3 4 5 6'',
     ar_AppendTagsJSON := [''team=sre''], ar_PromEvalInterval := 15, ar_PromForDuration := 60,
     ar_NotifyRepeatStep := 60, ar_NotifyMaxNumber := 3\<rparr>"

definition sample_env :: env where
  "sample_env = \<lparr>env_lib = sample_lib, env_rule = (\<lambda>i. if i = 7 then Some sample_rule else None),
     env_target = (\<lambda>_. None), env_busi_group = (\<lambda>_. None), env_mutes = (\<lambda>_. None),
     env_datasource = (\<lambda>_. None)\<rparr>"

definition sample_point :: AnomalyPoint where
  "sample_point = \<lparr>ap_Key = ''k'', ap_Labels = [(''ident'', ''web01'')], ap_Timestamp = 1000,
     ap_Value = Finite 91, ap_Severity = 2, ap_Triggered = True, ap_Query = ''cpu > 90''\<rparr>"

definition sample_orders :: range_orders where
  "sample_orders = \<lparr>ord_groups = (\<lambda>ks. ks), ord_pendings = rev, ord_fires = (\<lambda>ks. ks)\<rparr>"

definition sample_event :: AlertCurEvent where
  "sample_event = zero_AlertCurEvent\<lparr>ev_Hash := ''h'', ev_Severity := 2, ev_TriggerTime := 1000,
     ev_LastEvalTime := 1000, ev_PromEvalInterval := 15\<rparr>"

text \<open>A processor that has built one event and not yet handled it.\<close>

definition sample_proc :: pstate where
  "sample_proc = (NewProcessor sample_env sample_rule 3)
     \<lparr>heap := (\<lambda>_. zero_AlertCurEvent)(0 := sample_event), hnext := 1, p_inhibit := True\<rparr>"

lemmas sample_defs = sample_lib_def sample_rule_def sample_env_def sample_point_def sample_orders_def
  sample_event_def sample_proc_def

end
