(* ===== verification/Processor_Runs.thy ===== *)
theory Processor_Runs
  imports Processor_Spec Samples
begin

text \<open>
  Whole evaluations and whole runs of a processor. \<open>Handle_effect\<close> composes the phases of
  \<open>Processor_Spec\<close> into what an evaluation does to the two maps and to the queue;
  \<open>fireEvent\<close>, \<open>handleEvent\<close> and recovery get their functional specifications (repeat
  interval and maximum number, for-duration, severity inhibition), and \<open>proc_step\<close> is the
  transition relation of a processor with the invariant of every reachable state.
\<close>

subsection \<open>One evaluation\<close>

lemma Handle_phases:
  assumes "Handle E ords now pts org inh s = Inr t" "env_rule E (ar_Id (p_rule s)) = Some r"
  obtains s1 K G where
    "res_fold (handle_point E r org now) pts (s\<lparr>p_inhibit := inh, p_rule := r\<rparr>, {}, []) = Inr (s1, K, G)"
    "t = HandleRecover (ord_pendings ords) (ord_fires ords) K now
           (fold (handle_group G) (ord_groups ords (go_keys G)) s1)"
  using assms
  by (cases "res_fold (handle_point E r org now) pts (s\<lparr>p_inhibit := inh, p_rule := r\<rparr>, {}, [])")
    (auto simp: Handle_def)

lemma proc_inv_rule: "proc_inv (s\<lparr>p_inhibit := i, p_rule := r\<rparr>) = proc_inv s"
  by (simp add: proc_inv_def default_hooks_def entries_ok_def live_def)

lemma recovers_cong:
  assumes "Get (p_fires t) h = Get (p_fires s) h" "p_rule t = p_rule s"
    and "\<And>a. Get (p_fires s) h = Some a \<Longrightarrow> heap t a = heap s a"
  shows "recovers K now t h = recovers K now s h"
    "recovers K now s h \<Longrightarrow> recovery_of now t h = recovery_of now s h"
  using assms by (auto simp: recovers_def recoverable_def recovery_of_def)

text \<open>The state between the two phases, seen from a hash that is not alerting: nothing of it has
  changed since the evaluation started.\<close>

lemma not_alerting_unchanged:
  assumes i: "proc_inv s" and p: "point_frame s s1" and f: "fire_frame K s1 s2" and "h \<notin> K"
  shows "Get (p_fires s2) h = Get (p_fires s) h" "p_rule s2 = p_rule s"
    "Get (p_fires s) h = Some a \<Longrightarrow> heap s2 a = heap s a"
proof -
  have c: "same_core s1 s2" and o: "outside_same K s1 s2" using f by (auto simp: fire_frame_def)
  show "Get (p_fires s2) h = Get (p_fires s) h"
    using o p assms(4) by (simp add: outside_same_def point_frame_def)
  show "p_rule s2 = p_rule s" using same_coreD [OF c] p by (simp add: point_frame_def)
  assume "Get (p_fires s) h = Some a"
  then have a: "live s a" "ev_Hash (heap s a) = h"
    using i by (auto simp: proc_inv_def entries_ok_def)
  then have "heap s1 a = heap s a" using point_frame_live [OF p] by blast
  then show "heap s2 a = heap s a" using o assms(4) a by (simp add: outside_same_def)
qed

lemma Handle_effect:
  assumes h: "Handle E ords now pts org inh s = Inr t" and i: "proc_inv s"
    and r: "env_rule E (ar_Id (p_rule s)) = Some r"
    and o: "fair_order (ord_pendings ords)" "fair_order (ord_fires ords)"
    and K_def: "K = alerting E r (p_datasourceId s) pts" and s0_def: "s0 = s\<lparr>p_rule := r\<rparr>"
  shows "\<exists>fired rec. pushed t = pushed s @ fired @ map (recovery_of now s0) rec \<and>
      fires_only K r fired \<and> distinct rec \<and> set rec = {k. recovers K now s0 k}" (is ?push)
    "k \<notin> K \<Longrightarrow> Get (p_fires t) k = (if recovers K now s0 k then None else Get (p_fires s) k)"
    "k \<in> K \<Longrightarrow> Get (p_fires s) k \<noteq> None \<Longrightarrow> Get (p_fires t) k \<noteq> None"
    "k \<notin> K \<Longrightarrow> Get (p_pendings t) k = None"
    "k \<in> K \<Longrightarrow> Get (p_pendings s) k = Some q \<Longrightarrow> Get (p_pendings t) k = Some q"
    "proc_inv t"
proof -
  let ?s = "s\<lparr>p_inhibit := inh, p_rule := r\<rparr>"
  obtain s1 K1 G where f: "res_fold (handle_point E r org now) pts (?s, {}, []) = Inr (s1, K1, G)"
    and t: "t = HandleRecover (ord_pendings ords) (ord_fires ords) K1 now
           (fold (handle_group G) (ord_groups ords (go_keys G)) s1)"
    using h r by (rule Handle_phases)
  let ?s2 = "fold (handle_group G) (ord_groups ords (go_keys G)) s1"
  have i0: "proc_inv ?s" using i by (simp add: proc_inv_rule)
  have P: "point_frame ?s s1" "K1 = K" "groups_ok s1 K G"
    using handle_points_spec [OF f] by (auto simp: groups_ok_def K_def)
  have i1: "proc_inv s1" using P(1) i0 by (rule point_frame_inv)
  have i2: "proc_inv ?s2" and f2: "fire_frame K s1 ?s2"
    using handle_groups_frame [OF i1 P(3), of "ord_groups ords (go_keys G)"] by blast+
  note N = not_alerting_unchanged [OF i0 P(1) f2]
  have rec: "recovers K now ?s2 k = recovers K now s0 k"
    "recovers K now s0 k \<Longrightarrow> recovery_of now ?s2 k = recovery_of now s0 k" for k
  proof -
    have "k \<in> K \<or> (recovers K now ?s2 k = recovers K now s0 k \<and>
        (recovers K now s0 k \<longrightarrow> recovery_of now ?s2 k = recovery_of now s0 k))"
      using N [of k] recovers_cong [of ?s2 k s0 K now] by (auto simp: s0_def)
    then show "recovers K now ?s2 k = recovers K now s0 k"
      "recovers K now s0 k \<Longrightarrow> recovery_of now ?s2 k = recovery_of now s0 k"
      by (auto simp: recovers_def)
  qed
  note R = HandleRecover_spec [OF i2 o t [unfolded P(2)]]
  let ?rec = "filter (recovers K now ?s2) (ord_fires ords (Keys (p_fires ?s2)))"
  obtain fired where fired: "pushed ?s2 = pushed s @ fired" "fires_only K r fired"
    using f2 P(1) by (auto simp: fire_frame_def push_grow_def point_frame_def)
  have "distinct ?rec"
    using i2 o(2) em.wf_keys by (simp add: proc_inv_def entries_ok_def)
  moreover have "recovers K now ?s2 k \<Longrightarrow> k \<in> set (Keys (p_fires ?s2))" for k
    using em.get_in_keys by (auto simp: recovers_def)
  then have "set ?rec = {k. recovers K now s0 k}" using o(2) unfolding rec(1) by auto
  moreover have "map (recovery_of now ?s2) ?rec = map (recovery_of now s0) ?rec"
    using rec by (auto intro!: map_cong)
  ultimately show ?push using R(3) fired by (intro exI [of _ fired] exI [of _ ?rec]) simp
  show "k \<notin> K \<Longrightarrow> Get (p_fires t) k = (if recovers K now s0 k then None else Get (p_fires s) k)"
    using R(2) [of k] N(1) [of k] rec(1) [of k] by simp
  have g: "entries_grow s1 ?s2" using f2 by (simp add: fire_frame_def)
  show "k \<in> K \<Longrightarrow> Get (p_fires s) k \<noteq> None \<Longrightarrow> Get (p_fires t) k \<noteq> None"
    using R(2) [of k] g P(1) by (auto simp: recovers_def entries_grow_def point_frame_def)
  show "k \<notin> K \<Longrightarrow> Get (p_pendings t) k = None" using R(1) [of k] by simp
  show "k \<in> K \<Longrightarrow> Get (p_pendings s) k = Some q \<Longrightarrow> Get (p_pendings t) k = Some q"
    using R(1) [of k] g P(1) by (simp add: entries_grow_def point_frame_def)
  show "proc_inv t" unfolding t using i2 by (rule HandleRecover_inv)
qed

lemma Handle_inv:
  assumes "Handle E ords now pts org inh s = Inr t" "proc_inv s"
  shows "proc_inv t"
proof (cases "env_rule E (ar_Id (p_rule s))")
  case None
  then have "t = s\<lparr>p_inhibit := inh, p_rule := p_rule s\<rparr>" using assms(1) by (auto simp: Handle_def)
  then show ?thesis using assms(2) by (simp only: proc_inv_rule)
next
  case (Some r)
  obtain s1 K G where f: "res_fold (handle_point E r org now) pts
      (s\<lparr>p_inhibit := inh, p_rule := r\<rparr>, {}, []) = Inr (s1, K, G)"
    and t: "t = HandleRecover (ord_pendings ords) (ord_fires ords) K now
           (fold (handle_group G) (ord_groups ords (go_keys G)) s1)"
    using assms(1) Some by (rule Handle_phases)
  have P: "point_frame (s\<lparr>p_inhibit := inh, p_rule := r\<rparr>) s1" "groups_ok s1 K G"
    using handle_points_spec [OF f] by (auto simp: groups_ok_def)
  have "proc_inv s1" using P(1) assms(2) by (auto intro: point_frame_inv simp: proc_inv_rule)
  then show ?thesis unfolding t using handle_groups_frame [OF _ P(2)] HandleRecover_inv by blast
qed

subsection \<open>An evaluation never panics on a rule that was verified\<close>

definition rule_runnable :: "AlertRule \<Rightarrow> bool" where
  "rule_runnable r \<longleftrightarrow> (\<forall>t \<in> set (ar_AppendTagsJSON r). Contains t ''='') \<and> spans_parallel r"

lemma fill_rule_tags_total:
  "\<forall>t \<in> set ts. Contains t ''='' \<Longrightarrow> \<exists>m'. fill_rule_tags L ts m = Inr m'"
proof (induction ts arbitrary: m)
  case Nil
  then show ?case by simp
next
  case (Cons t ts)
  then have "length (SplitN2 t ''='') = 2" by (auto simp: SplitN2_def Contains_def)
  then show ?case using Cons by (auto simp: Let_def split: sum.split)
qed

lemma handle_point_total:
  assumes "rule_runnable r" "mutes_ready E" "p_rule s = r"
  shows "\<exists>t K' G'. handle_point E r org now pt (s, K, G) = Inr (t, K', G') \<and> p_rule t = r"
proof -
  obtain m where "fill_rule_tags (env_lib E) (ar_AppendTagsJSON r) (ap_Labels pt) = Inr m"
    using fill_rule_tags_total assms(1) rule_runnable_def by blast
  then obtain a s1 where b: "BuildEvent E pt org now s = Inr (a, s1)"
    using assms(3) by (simp add: BuildEvent_def fillTags_def Let_def alloc_def)
  have r: "p_rule s1 = r" using BuildEvent_spec(1) [OF b] assms(3) by (simp add: point_frame_def)
  obtain x where "IsMuted E r (heap s1 a) = Inr x"
    using IsMuted_total assms(1,2) rule_runnable_def by blast
  then show ?thesis using r by (simp add: handle_point_def b Let_def)
qed

lemma Handle_total:
  assumes "\<And>r. env_rule E (ar_Id (p_rule s)) = Some r \<Longrightarrow> rule_runnable r" "mutes_ready E"
  shows "\<exists>t. Handle E ords now pts org inh s = Inr t"
proof (cases "env_rule E (ar_Id (p_rule s))")
  case None
  then show ?thesis by (simp add: Handle_def)
next
  case (Some r)
  have "\<exists>x. res_fold (handle_point E r org now) pts (s\<lparr>p_inhibit := inh, p_rule := r\<rparr>, {}, []) = Inr x
      \<and> p_rule (fst x) = r"
  proof (rule res_fold_total)
    fix pt and x :: "pstate \<times> string set \<times> groups"
    assume x: "p_rule (fst x) = r"
    obtain s' K G where "x = (s', K, G)" by (cases x)
    then show "\<exists>t. handle_point E r org now pt x = Inr t \<and> p_rule (fst t) = r"
      using x handle_point_total [OF assms(1) [OF Some] assms(2), of s' org now pt K G] by auto
  qed simp
  then show ?thesis using Some by (auto simp: Handle_def Let_def split: prod.split)
qed

subsection \<open>Severity inhibition\<close>

lemma fireEvent_pushed:
  assumes "default_hooks s"
  shows "pushed (fireEvent a s) = pushed s \<or>
    pushed (fireEvent a s) = pushed s @ [(a, heap (fireEvent a s) a)]"
  by (auto simp: fireEvent_eq [OF assms] Let_def pushEventToQueue_pushed split: option.split)

lemma fireEvent_hit:
  assumes "default_hooks s" "live s a"
  shows "Get (p_fires (fireEvent a s)) (ev_Hash (heap s a)) \<noteq> None"
proof (cases "Get (p_fires s) (ev_Hash (heap s a))")
  case None
  then show ?thesis using assms(2)
    by (simp add: fireEvent_eq [OF assms(1)] pushEventToQueue_fires live_def
        same_coreD [OF same_core_first_notice])
next
  case (Some f)
  then show ?thesis using fireEvent_fires_cases [OF assms] by auto
qed

lemma inhibitEvent_pushes:
  assumes "proc_inv s" "\<forall>a \<in> set as. live s a" "p_inhibit s"
  shows "\<exists>xs. pushed (inhibitEvent as sev s) = pushed s @ xs \<and>
    (\<forall>x \<in> set xs. fst x \<in> set as \<and> ev_Severity (snd x) \<le> sev)"
  using assms
proof (induction as arbitrary: s)
  case Nil
  then show ?case by simp
next
  case (Cons a as)
  show ?case
  proof (cases "ev_Severity (heap s a) > sev")
    case True
    then show ?thesis using Cons by fastforce
  next
    case False
    have d: "default_hooks s" using Cons.prems(1) by (simp add: proc_inv_def)
    note c = same_core_fireEvent [OF d, of a]
    obtain xs where xs: "pushed (inhibitEvent as sev (fireEvent a s)) = pushed (fireEvent a s) @ xs"
      "\<forall>x \<in> set xs. fst x \<in> set as \<and> ev_Severity (snd x) \<le> sev"
      using Cons.IH [of "fireEvent a s"] Cons.prems
      by (auto simp: fireEvent_inv same_core_live [OF c] same_coreD [OF c])
    obtain ys where ys: "pushed (fireEvent a s) = pushed s @ ys"
      "\<forall>y \<in> set ys. y = (a, heap (fireEvent a s) a)"
      using fireEvent_pushed [OF d, of a] by fastforce
    have "\<forall>x \<in> set (ys @ xs). fst x \<in> set (a # as) \<and> ev_Severity (snd x) \<le> sev"
      using xs(2) ys(2) False by (auto simp: same_coreD(8) [OF c])
    then show ?thesis using xs(1) ys(1) False by (intro exI [of _ "ys @ xs"]) simp
  qed
qed

lemma fold_min_le: "fold min xs (c::int) \<le> c \<and> (\<forall>x \<in> set xs. fold min xs c \<le> x)"
proof (induction xs arbitrary: c)
  case (Cons x xs)
  show ?case using Cons.IH [of "min x c"] by (auto simp: min.bounded_iff)
qed simp

lemma fold_min_ge: "(y::int) \<le> c \<Longrightarrow> \<forall>x \<in> set xs. y \<le> x \<Longrightarrow> y \<le> fold min xs c"
  by (induction xs arbitrary: c) auto

text \<open>Which hashes begin to fire, and what is queued: exactly the events that are not inhibited.\<close>

lemma fireEvent_dom:
  assumes "default_hooks s" "live s a"
  shows "dom (Get (p_fires (fireEvent a s))) = insert (ev_Hash (heap s a)) (dom (Get (p_fires s)))"
  using fireEvent_fires_cases [OF assms] fireEvent_hit [OF assms] by (auto split: if_splits)

lemma fireEvent_queued:
  assumes "default_hooks s" "live s a"
  shows "\<exists>xs. pushed (fireEvent a s) = pushed s @ xs \<and> fst ` set xs \<subseteq> {a} \<and>
    (Get (p_fires s) (ev_Hash (heap s a)) = None \<longrightarrow> ev_Hash (heap s a) \<in> (ev_Hash \<circ> snd) ` set xs)"
proof (cases "Get (p_fires s) (ev_Hash (heap s a))")
  case None
  then show ?thesis using fireEvent_first [OF assms(1) _ None] assms(2) by (simp add: live_def)
next
  case (Some f)
  then show ?thesis using fireEvent_pushed [OF assms(1), of a] by fastforce
qed

lemma insert_covered: "y \<in> D \<union> Y \<Longrightarrow> X \<subseteq> insert y D \<union> Z \<Longrightarrow> insert y X \<subseteq> D \<union> (Y \<union> Z)"
  by blast

lemma inhibitEvent_exact:
  assumes "proc_inv s" "\<forall>a \<in> set as. live s a"
    and "G = {a \<in> set as. p_inhibit s \<longrightarrow> ev_Severity (heap s a) \<le> sev}"
  shows "dom (Get (p_fires (inhibitEvent as sev s))) =
      dom (Get (p_fires s)) \<union> (\<lambda>a. ev_Hash (heap s a)) ` G \<and>
    (\<exists>xs. pushed (inhibitEvent as sev s) = pushed s @ xs \<and> fst ` set xs \<subseteq> G \<and>
      (\<lambda>a. ev_Hash (heap s a)) ` G \<subseteq> dom (Get (p_fires s)) \<union> (ev_Hash \<circ> snd) ` set xs)"
  using assms
proof (induction as arbitrary: s G)
  case Nil
  then show ?case by simp
next
  case (Cons a as)
  show ?case
  proof (cases "p_inhibit s \<and> ev_Severity (heap s a) > sev")
    case True
    then have "G = {a \<in> set as. p_inhibit s \<longrightarrow> ev_Severity (heap s a) \<le> sev}" using Cons.prems(3) by auto
    then show ?thesis using True Cons.IH [of s G] Cons.prems(1,2) by simp
  next
    case False
    have d: "default_hooks s" and l: "live s a" using Cons.prems by (auto simp: proc_inv_def)
    note c = same_core_fireEvent [OF d, of a]
    let ?G = "{b \<in> set as. p_inhibit s \<longrightarrow> ev_Severity (heap s b) \<le> sev}"
    have G: "G = insert a ?G" using Cons.prems(3) False by auto
    have ih: "dom (Get (p_fires (inhibitEvent as sev (fireEvent a s)))) =
        dom (Get (p_fires (fireEvent a s))) \<union> (\<lambda>a. ev_Hash (heap s a)) ` ?G \<and>
      (\<exists>xs. pushed (inhibitEvent as sev (fireEvent a s)) = pushed (fireEvent a s) @ xs \<and> fst ` set xs \<subseteq> ?G \<and>
        (\<lambda>a. ev_Hash (heap s a)) ` ?G \<subseteq> dom (Get (p_fires (fireEvent a s))) \<union> (ev_Hash \<circ> snd) ` set xs)"
      using Cons.IH [of "fireEvent a s" ?G] Cons.prems
      by (simp add: fireEvent_inv same_core_live [OF c] same_coreD [OF c])
    from ih [THEN conjunct2] obtain xs
      where xs: "pushed (inhibitEvent as sev (fireEvent a s)) = pushed (fireEvent a s) @ xs"
      "fst ` set xs \<subseteq> ?G"
      "(\<lambda>a. ev_Hash (heap s a)) ` ?G \<subseteq> dom (Get (p_fires (fireEvent a s))) \<union> (ev_Hash \<circ> snd) ` set xs"
      by (elim exE conjE)
    from fireEvent_queued [OF d l] obtain ys
      where ys: "pushed (fireEvent a s) = pushed s @ ys" "fst ` set ys \<subseteq> {a}"
      "Get (p_fires s) (ev_Hash (heap s a)) = None \<longrightarrow> ev_Hash (heap s a) \<in> (ev_Hash \<circ> snd) ` set ys"
      by (elim exE conjE)
    have i: "inhibitEvent (a # as) sev s = inhibitEvent as sev (fireEvent a s)" using False by auto
    have "pushed (inhibitEvent (a # as) sev s) = pushed s @ (ys @ xs)" unfolding i xs(1) ys(1) by simp
    moreover have "fst ` set (ys @ xs) \<subseteq> G" using xs(2) ys(2) unfolding G by auto
    moreover have "(\<lambda>a. ev_Hash (heap s a)) ` G \<subseteq> dom (Get (p_fires s)) \<union> (ev_Hash \<circ> snd) ` set (ys @ xs)"
    proof -
      have "ev_Hash (heap s a) \<in> dom (Get (p_fires s)) \<union> (ev_Hash \<circ> snd) ` set ys" using ys(3) by blast
      from insert_covered [OF this xs(3) [unfolded fireEvent_dom [OF d l]]]
      show ?thesis unfolding G image_insert set_append image_Un .
    qed
    ultimately have "\<exists>zs. pushed (inhibitEvent (a # as) sev s) = pushed s @ zs \<and> fst ` set zs \<subseteq> G \<and>
        (\<lambda>a. ev_Hash (heap s a)) ` G \<subseteq> dom (Get (p_fires s)) \<union> (ev_Hash \<circ> snd) ` set zs"
      by (intro exI conjI)
    moreover have "dom (Get (p_fires (inhibitEvent (a # as) sev s))) =
        dom (Get (p_fires s)) \<union> (\<lambda>a. ev_Hash (heap s a)) ` G"
      using ih unfolding i G fireEvent_dom [OF d l] by auto
    ultimately show ?thesis by (rule conjI [rotated])
  qed
qed

subsection \<open>Reloading the firing events\<close>

lemma load_events_spec:
  assumes "load_events es m s = (m', t)" "entries_ok s m"
  shows "entries_ok t m' \<and> hnext s \<le> hnext t \<and> (\<forall>b < hnext s. heap t b = heap s b) \<and>
    default_hooks t = default_hooks s \<and> pushed t = pushed s \<and>
    (\<forall>k. k \<notin> ev_Hash ` set es \<longrightarrow> Get m' k = Get m k) \<and>
    (distinct (map ev_Hash es) \<longrightarrow>
      (\<forall>e \<in> set es. \<exists>a. Get m' (ev_Hash e) = Some a \<and> heap t a = DB2Mem e))"
  using assms
proof (induction es arbitrary: m s)
  case Nil
  then show ?case by simp
next
  case (Cons e es)
  let ?s = "s\<lparr>heap := (heap s)(hnext s := DB2Mem e), hnext := Suc (hnext s)\<rparr>"
  let ?m = "go_set (ev_Hash e) (hnext s) m"
  have l: "load_events es ?m ?s = (m', t)" using Cons.prems(1) by (simp add: alloc_def)
  have "entries_ok ?s m" using Cons.prems(2) by (fastforce simp: entries_ok_def live_def)
  then have m: "entries_ok ?s ?m"
    using entries_ok_Set [of ?s m "hnext s"] by (simp add: live_def Set_def)
  note ih = Cons.IH [OF l m]
  have g: "Get ?m k = (if k = ev_Hash e then Some (hnext s) else Get m k)" for k
    by (simp add: Get_def)
  have d: "default_hooks ?s = default_hooks s" by (simp add: default_hooks_def)
  have "heap t (hnext s) = DB2Mem e" using ih by (auto simp: less_Suc_eq)
  then show ?case using ih g d by (fastforce simp: less_Suc_eq)
qed

lemma load_events_pendings: "load_events es m s = (m', t) \<Longrightarrow> p_pendings t = p_pendings s"
  by (induction es arbitrary: m s) (auto simp: alloc_def)

lemma RecoverAlertCurEventFromDb_inv [inv_intros]:
  assumes "proc_inv s"
  shows "proc_inv (RecoverAlertCurEventFromDb db s)"
proof (cases db)
  case None
  then show ?thesis using assms(1)
    by (simp add: RecoverAlertCurEventFromDb_def NewAlertCurEventMap_def proc_inv_def default_hooks_def)
next
  case (Some es)
  obtain m t where l: "load_events es [] (s\<lparr>p_pendings := []\<rparr>) = (m, t)" by fastforce
  have L: "entries_ok t m" "default_hooks t = default_hooks (s\<lparr>p_pendings := []\<rparr>)"
    using load_events_spec [OF l] by auto

  have "proc_inv (t\<lparr>p_fires := m\<rparr>)"
    using L assms(1) load_events_pendings [OF l]
    by (simp add: proc_inv_def entries_ok_def live_def default_hooks_def Get_def)
  then show ?thesis
    by (simp add: RecoverAlertCurEventFromDb_def NewAlertCurEventMap_def Some l)
qed

subsection \<open>Runs of a processor\<close>

text \<open>
  The steps another part of the program makes a processor take: an evaluation (with whatever the
  caches hold at that moment), the recovery of one hash, the reload when the rule's worker starts,
  and the consumer of the queue editing an event it was handed (it fills in identifiers, users and
  templates, never what identifies the event).
\<close>

inductive proc_step :: "pstate \<Rightarrow> pstate \<Rightarrow> bool" where
  evaluate: "Handle E ords now pts org inh s = Inr t \<Longrightarrow> proc_step s t"
| recover: "proc_step s (RecoverSingle h now v s)"
| reload: "proc_step s (RecoverAlertCurEventFromDb db s)"
| consume: "ident_fields (f (heap s a)) = ident_fields (heap s a) \<Longrightarrow> proc_step s (hupd a f s)"

inductive reachable_proc :: "pstate \<Rightarrow> bool" where
  start: "reachable_proc (NewProcessor E r d)"
| step: "reachable_proc s \<Longrightarrow> proc_step s t \<Longrightarrow> reachable_proc t"

inductive_cases proc_stepE: "proc_step s t"

lemma NewProcessor_inv: "proc_inv (NewProcessor E r d)"
  by (simp add: NewProcessor_def mayHandleGroup_def proc_inv_def default_hooks_def split: option.split)

lemma consume_inv:
  assumes "ident_fields (f (heap s a)) = ident_fields (heap s a)" "proc_inv s"
  shows "proc_inv (hupd a f s)"
proof -
  have c: "same_core s (hupd a f s)" using assms(1) by (rule same_core_hupd)
  show ?thesis using assms(2) by (simp add: proc_inv_def same_core_entries [OF c] same_coreD [OF c])
qed

lemma proc_step_inv: "proc_step s t \<Longrightarrow> proc_inv s \<Longrightarrow> proc_inv t"
  by (auto elim!: proc_stepE intro: Handle_inv RecoverSingle_inv RecoverAlertCurEventFromDb_inv consume_inv)

lemma reachable_proc_inv: "reachable_proc s \<Longrightarrow> proc_inv s"
  by (induction rule: reachable_proc.induct) (auto intro: NewProcessor_inv proc_step_inv)

subsection \<open>The for-duration\<close>

text \<open>Since when the anomaly of an event is pending.\<close>

definition since :: "addr \<Rightarrow> pstate \<Rightarrow> int" where
  "since a s = (case Get (p_pendings s) (ev_Hash (heap s a)) of
     Some q \<Rightarrow> ev_TriggerTime (heap s q) | None \<Rightarrow> ev_TriggerTime (heap s a))"

definition lasted :: "addr \<Rightarrow> pstate \<Rightarrow> bool" where
  "lasted a s \<longleftrightarrow> ar_PromForDuration (p_rule s) = 0 \<or>
     ev_LastEvalTime (heap s a) - since a s + ev_PromEvalInterval (heap s a) \<ge> ar_PromForDuration (p_rule s)"

definition fresh_events :: "addr list \<Rightarrow> pstate \<Rightarrow> bool" where
  "fresh_events as s \<longleftrightarrow> distinct as \<and> distinct (map (\<lambda>a. ev_Hash (heap s a)) as) \<and>
     (\<forall>a \<in> set as. a \<notin> ran (Get (p_pendings s)))"

lemma pend_heap_fresh: "a \<notin> ran (Get (p_pendings s)) \<Longrightarrow> heap (pend b s) a = heap s a"
  by (auto simp: pend_def UpdateLastEvalTime_heap ran_def split: option.split)

lemma pend_ripe:
  assumes "a \<notin> ran (Get (p_pendings s))"
  shows "ripe a (pend a s) \<longleftrightarrow> lasted a s"
proof (cases "ar_PromForDuration (p_rule s) = 0")
  case True
  then show ?thesis by (simp add: ripe_def lasted_def same_coreD(2) [OF same_core_pend])
next
  case False
  note c = same_coreD [OF same_core_pend [of s a]]
  have "\<exists>q. Get (p_pendings (pend a s)) (ev_Hash (heap s a)) = Some q \<and> ev_TriggerTime (heap s q) = since a s"
    using False by (cases "Get (p_pendings s) (ev_Hash (heap s a))") (auto simp: pend_def since_def)
  then show ?thesis using False
    by (auto simp: ripe_def lasted_def c pend_heap_fresh [OF assms])
qed

lemma pend_lasted:
  assumes "a \<notin> ran (Get (p_pendings s))" "ev_Hash (heap s a) \<noteq> ev_Hash (heap s b)" "a \<noteq> b"
  shows "lasted a (pend b s) = lasted a s" "a \<notin> ran (Get (p_pendings (pend b s)))"
proof -
  note c = same_coreD [OF same_core_pend [of s b]]
  have g: "Get (p_pendings (pend b s)) (ev_Hash (heap s a)) = Get (p_pendings s) (ev_Hash (heap s a))"
    using assms(2) by (auto simp: pend_def split: option.split)
  show "lasted a (pend b s) = lasted a s"
    by (simp add: lasted_def since_def c g pend_heap_fresh [OF assms(1)] split: option.split)
  show "a \<notin> ran (Get (p_pendings (pend b s)))"
    using assms(1,3) by (auto simp: pend_def ran_def split: option.splits if_splits)
qed

lemma ripe_events_lasted: "fresh_events as s \<Longrightarrow> ripe_events as s = filter (\<lambda>a. lasted a s) as"
proof (induction as arbitrary: s)
  case Nil
  then show ?case by simp
next
  case (Cons a as)
  note c = same_coreD [OF same_core_pend [of s a]]
  have o: "b \<notin> ran (Get (p_pendings s))" "ev_Hash (heap s b) \<noteq> ev_Hash (heap s a)" "b \<noteq> a"
    if "b \<in> set as" for b using Cons.prems that by (auto simp: fresh_events_def image_iff)
  have "fresh_events as (pend a s)"
    using Cons.prems o pend_lasted(2) by (auto simp: fresh_events_def c)
  then have "ripe_events as (pend a s) = filter (\<lambda>b. lasted b s) as"
    using Cons.IH pend_lasted(1) [OF o] by (simp cong: filter_cong)
  moreover have "ripe a (pend a s) \<longleftrightarrow> lasted a s"
    using Cons.prems by (intro pend_ripe) (simp add: fresh_events_def)
  ultimately show ?case by simp
qed

lemma handleEvent_pushes:
  assumes "proc_inv s" "\<forall>a \<in> set as. live s a" "p_inhibit s"
  shows "\<exists>xs. pushed (handleEvent as s) = pushed s @ xs \<and> (\<forall>x \<in> set xs. fst x \<in> set (ripe_events as s) \<and>
    (\<forall>b \<in> set (ripe_events as s). ev_Severity (snd x) \<le> ev_Severity (heap s b)))"
proof -
  let ?sev = "fold min (map (\<lambda>a. ev_Severity (heap s a)) (ripe_events as s)) 4"
  have "\<forall>b \<in> set (ripe_events as s). ?sev \<le> ev_Severity (heap s b)"
    using fold_min_le [of "map (\<lambda>a. ev_Severity (heap s a)) (ripe_events as s)" 4] by auto
  moreover have "\<forall>a \<in> set (ripe_events as s). live (pend_all as s) a"
    using assms(2) ripe_events_subset by (auto simp: same_core_live [OF same_core_pend_all])
  then obtain xs where "pushed (handleEvent as s) = pushed s @ xs"
    "\<forall>x \<in> set xs. fst x \<in> set (ripe_events as s) \<and> ev_Severity (snd x) \<le> ?sev"
    using inhibitEvent_pushes [of "pend_all as s" "ripe_events as s" ?sev] assms
    by (auto simp: handleEvent_eq pend_all_inv same_coreD(3) [OF same_core_pend_all])
  ultimately show ?thesis by (meson order_trans)
qed

text \<open>The same for the whole group: what fires and what is queued are the events whose anomaly has
  lasted, less those a more urgent one of them inhibits.\<close>

lemma handleEvent_exact:
  assumes "proc_inv s" "\<forall>a \<in> set as. live s a" "fresh_events as s"
    and "F = {a \<in> set as. lasted a s \<and> (p_inhibit s \<longrightarrow> ev_Severity (heap s a) \<le> 4 \<and>
        (\<forall>b \<in> set as. lasted b s \<longrightarrow> ev_Severity (heap s a) \<le> ev_Severity (heap s b)))}"
  shows "dom (Get (p_fires (handleEvent as s))) = dom (Get (p_fires s)) \<union> (\<lambda>a. ev_Hash (heap s a)) ` F \<and>
    (\<exists>xs. pushed (handleEvent as s) = pushed s @ xs \<and> fst ` set xs \<subseteq> F \<and>
      (\<lambda>a. ev_Hash (heap s a)) ` F \<subseteq> dom (Get (p_fires s)) \<union> (ev_Hash \<circ> snd) ` set xs)"
proof -
  note c = same_core_pend_all [of s as]
  note R = ripe_events_lasted [OF assms(3)]
  let ?R = "filter (\<lambda>a. lasted a s) as"
  let ?sev = "fold min (map (\<lambda>a. ev_Severity (heap s a)) ?R) 4"
  have "ev_Severity (heap s a) \<le> ?sev \<longleftrightarrow> ev_Severity (heap s a) \<le> 4 \<and>
      (\<forall>b \<in> set as. lasted b s \<longrightarrow> ev_Severity (heap s a) \<le> ev_Severity (heap s b))" for a
    using fold_min_le [of "map (\<lambda>a. ev_Severity (heap s a)) ?R" 4]
      fold_min_ge [of "ev_Severity (heap s a)" 4 "map (\<lambda>a. ev_Severity (heap s a)) ?R"] by force
  then have "F = {a \<in> set ?R. p_inhibit (pend_all as s) \<longrightarrow> ev_Severity (heap (pend_all as s) a) \<le> ?sev}"
    by (auto simp: assms(4) same_coreD [OF c])
  then show ?thesis
    using inhibitEvent_exact [of "pend_all as s" ?R F ?sev] assms(1,2)
    by (simp add: handleEvent_eq R pend_all_inv same_core_live [OF c] same_coreD [OF c])
qed

subsection \<open>The properties of a processor\<close>

text \<open>C1. One evaluation of a rule in any reachable state of its processor. With \<open>K\<close> the hashes of
  this evaluation's anomaly points: the queue receives firing events under hashes of \<open>K\<close> only, each
  a first notice or a repeat the rule allows, followed by exactly one recovered event for every
  firing hash outside \<open>K\<close> whose recover-duration has passed; those hashes stop firing, every other
  firing hash keeps firing; pending events outside \<open>K\<close> are dropped and those inside \<open>K\<close> keep the
  event that records when the anomaly began.\<close>

theorem processor_evaluation:
  assumes "reachable_proc s" "Handle E ords now pts org inh s = Inr t"
    and "env_rule E (ar_Id (p_rule s)) = Some r"
    and "fair_order (ord_pendings ords)" "fair_order (ord_fires ords)"
    and "K = alerting E r (p_datasourceId s) pts" "s0 = s\<lparr>p_rule := r\<rparr>"
  shows "(\<exists>fired rec. pushed t = pushed s @ fired @ map (recovery_of now s0) rec \<and>
      fires_only K r fired \<and> distinct rec \<and> set rec = {k. recovers K now s0 k}) \<and>
    (\<forall>k. k \<notin> K \<longrightarrow> Get (p_pendings t) k = None \<and>
      Get (p_fires t) k = (if recovers K now s0 k then None else Get (p_fires s) k)) \<and>
    (\<forall>k \<in> K. (Get (p_fires s) k \<noteq> None \<longrightarrow> Get (p_fires t) k \<noteq> None) \<and>
      (\<forall>q. Get (p_pendings s) k = Some q \<longrightarrow> Get (p_pendings t) k = Some q))"
proof -
  note H = Handle_effect [OF assms(2) reachable_proc_inv [OF assms(1)] assms(3-7)]
  show ?thesis using H(1) H(2-5) by blast
qed

lemma sample_rule_runnable: "rule_runnable sample_rule"
  unfolding rule_runnable_def spans_parallel_def by (simp add: sample_rule_def; code_simp)

lemma sample_mutes_ready: "mutes_ready sample_env"
  by (simp add: mutes_ready_def sample_env_def)

lemma sample_Handle: "\<exists>t. Handle sample_env sample_orders 1000 [sample_point] ''inner'' False
    (NewProcessor sample_env sample_rule 3) = Inr t"
proof (rule Handle_total)
  show "rule_runnable r"
    if "env_rule sample_env (ar_Id (p_rule (NewProcessor sample_env sample_rule 3))) = Some r" for r
    using that sample_rule_runnable by (auto simp: sample_env_def split: if_splits)
qed (rule sample_mutes_ready)

theorem processor_evaluation_witness:
  "\<exists>t. Handle sample_env sample_orders 1000 [sample_point] ''inner'' False
    (NewProcessor sample_env sample_rule 3) = Inr t \<and>
    (\<forall>k. k \<notin> alerting sample_env sample_rule 3 [sample_point] \<longrightarrow> Get (p_pendings t) k = None)"
proof -
  let ?s = "NewProcessor sample_env sample_rule 3"
  obtain t where t: "Handle sample_env sample_orders 1000 [sample_point] ''inner'' False ?s = Inr t"
    using sample_Handle by blast
  have r: "env_rule sample_env (ar_Id (p_rule ?s)) = Some sample_rule" "p_datasourceId ?s = 3"
    by (simp_all add: NewProcessor_def mayHandleGroup_def sample_env_def)
      (simp add: sample_rule_def)
  have o: "fair_order (ord_pendings sample_orders)" "fair_order (ord_fires sample_orders)"
    by (simp_all add: sample_orders_def fair_order_id fair_order_rev)
  show ?thesis
    using processor_evaluation [OF reachable_proc.start t r(1) o refl refl] t r(2) by auto
qed

text \<open>An evaluation never panics when every extra tag of the rule contains an equals sign, its
  day list has no more entries than its start and end times, and the filters of the cached mutes
  were prepared: \<open>Handle\<close> always returns a state.\<close>

theorem evaluation_returns:
  assumes "\<And>r. env_rule E (ar_Id (p_rule s)) = Some r \<Longrightarrow>
      (\<forall>t \<in> set (ar_AppendTagsJSON r). Contains t ''='') \<and> spans_parallel r"
    and "mutes_ready E"
  shows "\<exists>t. Handle E ords now pts org inh s = Inr t"
  by (rule Handle_total) (use assms in \<open>auto simp: rule_runnable_def\<close>)

theorem evaluation_returns_witness:
  "\<exists>t. Handle sample_env sample_orders 1000 [sample_point] ''inner'' True
    (NewProcessor sample_env sample_rule 3) = Inr t"
proof (rule evaluation_returns)
  fix r
  assume "env_rule sample_env (ar_Id (p_rule (NewProcessor sample_env sample_rule 3))) = Some r"
  then have "r = sample_rule" by (auto simp: sample_env_def split: if_splits)
  then show "(\<forall>t \<in> set (ar_AppendTagsJSON r). Contains t ''='') \<and> spans_parallel r"
    using sample_rule_runnable by (simp add: rule_runnable_def)
qed (rule sample_mutes_ready)

text \<open>C2. In every reachable state of a processor (any interleaving of evaluations, external
  recoveries, reloads and consumer edits) an entry of the firing or pending map points to an
  allocated event that has the entry's key as its hash and is not marked as recovered; so two
  hashes never share an event.\<close>

theorem reachable_entries:
  assumes "reachable_proc s" "m = p_fires s \<or> m = p_pendings s"
  shows "go_wf m \<and> (\<forall>k a. Get m k = Some a \<longrightarrow>
      a < hnext s \<and> \<not> ev_IsRecovered (heap s a) \<and> ev_Hash (heap s a) = k) \<and>
    (\<forall>k k' a. Get m k = Some a \<longrightarrow> Get m k' = Some a \<longrightarrow> k = k')"
proof -
  have "entries_ok s m" using reachable_proc_inv [OF assms(1)] assms(2) by (auto simp: proc_inv_def)
  then show ?thesis by (auto simp: entries_ok_def live_def)
qed

lemma sample_reload:
  "RecoverAlertCurEventFromDb (Some [sample_event]) (NewProcessor sample_env sample_rule 3) =
   (NewProcessor sample_env sample_rule 3)\<lparr>heap := (\<lambda>_. zero_AlertCurEvent)(0 := DB2Mem sample_event),
      hnext := 1, p_fires := [(''h'', 0)]\<rparr>"
  by (simp add: RecoverAlertCurEventFromDb_def NewAlertCurEventMap_def NewProcessor_def
      mayHandleGroup_def alloc_def sample_env_def) (simp add: sample_event_def)


theorem reachable_entries_witness:
  "\<not> ev_IsRecovered (heap (RecoverAlertCurEventFromDb (Some [sample_event])
     (NewProcessor sample_env sample_rule 3)) 0)"
proof -
  let ?s = "RecoverAlertCurEventFromDb (Some [sample_event]) (NewProcessor sample_env sample_rule 3)"
  have "reachable_proc ?s"
    by (rule reachable_proc.step [OF reachable_proc.start proc_step.reload])
  moreover have "Get (p_fires ?s) ''h'' = Some 0" by (simp add: sample_reload Get_def)
  ultimately show ?thesis using reachable_entries [of ?s "p_fires ?s"] by blast
qed

text \<open>C3. Throttling. For an event whose hash is already firing, \<open>fireEvent\<close> queues a notice exactly
  when the rule repeats at all, the repeat interval (in minutes) has passed since the last notice,
  and the maximum number, if there is one, is not reached; the notice carries the next number and
  the first trigger time of the firing event, and the firing event's last evaluation time is
  refreshed in any case.\<close>

theorem fireEvent_throttled:
  assumes "proc_inv s" "live s a" "Get (p_fires s) (ev_Hash (heap s a)) = Some f" "a \<noteq> f"
  shows "pushed (fireEvent a s) = pushed s @
      (if ar_NotifyRepeatStep (p_rule s) \<noteq> 0 \<and>
          ev_LastEvalTime (heap s a) \<ge> ev_LastSentTime (heap s f) + ar_NotifyRepeatStep (p_rule s) * 60 \<and>
          (ar_NotifyMaxNumber (p_rule s) = 0 \<or>
             ev_NotifyCurNumber (heap s f) < ar_NotifyMaxNumber (p_rule s))
       then [(a, (heap s a)\<lparr>ev_FirstTriggerTime := ev_FirstTriggerTime (heap s f),
                ev_NotifyCurNumber := ev_NotifyCurNumber (heap s f) + 1,
                ev_LastSentTime := ev_LastEvalTime (heap s a)\<rparr>)] else []) \<and>
    ev_LastEvalTime (heap (fireEvent a s) f) = ev_LastEvalTime (heap s a)"
proof -
  have d: "default_hooks s" using assms(1) by (simp add: proc_inv_def)
  have r: "\<not> ev_IsRecovered (heap s a)" using assms(2) by (simp add: live_def)
  have "ev_LastEvalTime (heap (fireEvent a s) f) = ev_LastEvalTime (heap s a)"
    using assms(3,4)
    by (simp add: fireEvent_eq [OF d] Let_def pushEventToQueue_heap refresh_def renumber_def)
  then show ?thesis using fireEvent_repeat [OF d r assms(4,3)] by (simp add: may_repeat_def)
qed

definition sample_firing :: pstate where
  "sample_firing = sample_proc\<lparr>p_fires := [(''h'', 1)], hnext := 2,
     heap := (heap sample_proc)(0 := sample_event\<lparr>ev_LastEvalTime := 5000\<rparr>,
       1 := sample_event\<lparr>ev_NotifyCurNumber := 1, ev_LastSentTime := 1000\<rparr>)\<rparr>"

lemma sample_proc_simps [simp]:
  "p_fires sample_proc = []" "p_pendings sample_proc = []" "hnext sample_proc = 1"
  "heap sample_proc = (\<lambda>_. zero_AlertCurEvent)(0 := sample_event)" "p_rule sample_proc = sample_rule"
  "p_inhibit sample_proc" "pushed sample_proc = []" "default_hooks sample_proc"
  by (simp_all add: sample_proc_def NewProcessor_def mayHandleGroup_def sample_env_def default_hooks_def)

lemma sample_event_simps [simp]:
  "ev_Hash sample_event = ''h''" "\<not> ev_IsRecovered sample_event" "ev_LastEvalTime sample_event = 1000"
  "ev_TriggerTime sample_event = 1000" "ev_PromEvalInterval sample_event = 15" "ev_Severity sample_event = 2"
  by (simp_all add: sample_event_def zero_AlertCurEvent_def)

lemma sample_rule_simps [simp]:
  "ar_PromForDuration sample_rule = 60" "ar_NotifyRepeatStep sample_rule = 60"
  "ar_NotifyMaxNumber sample_rule = 3" "ar_RecoverDuration sample_rule = 0"
  by (simp_all add: sample_rule_def zero_AlertRule_def)

lemma sample_proc_inv: "proc_inv sample_proc" "live sample_proc 0"
  by (simp_all add: proc_inv_def live_def)

lemma sample_firing_inv: "proc_inv sample_firing"
  using sample_proc_simps(8)
  by (auto simp: proc_inv_def sample_firing_def entries_ok_def live_def Get_def go_wf_def
      default_hooks_def split: if_splits)

theorem fireEvent_throttled_witness:
  "map fst (pushed (fireEvent 0 sample_firing)) = [0]"
proof -
  have "live sample_firing 0" "Get (p_fires sample_firing) (ev_Hash (heap sample_firing 0)) = Some 1"
    by (simp_all add: sample_firing_def live_def Get_def)
  from fireEvent_throttled [OF sample_firing_inv this] show ?thesis
    by (simp add: sample_firing_def)
qed

text \<open>C4. Severity inhibition. With the rule's inhibition on, the events of one tag group that go to
  the queue are ripe ones of the most urgent severity among the ripe events of the group (a smaller
  number is more urgent).\<close>

theorem inhibition_most_urgent:
  assumes "proc_inv s" "\<forall>a \<in> set as. live s a" "p_inhibit s"
  shows "\<exists>xs. pushed (handleEvent as s) = pushed s @ xs \<and>
    (\<forall>x \<in> set xs. fst x \<in> set (ripe_events as s) \<and>
      (\<forall>b \<in> set (ripe_events as s). ev_Severity (snd x) \<le> ev_Severity (heap s b)))"
  using assms by (rule handleEvent_pushes)

theorem inhibition_most_urgent_witness:
  "\<exists>xs. pushed (handleEvent [0] sample_proc) = xs \<and> (\<forall>x \<in> set xs. fst x = 0)"
  using inhibition_most_urgent [OF sample_proc_inv(1), of "[0]"] sample_proc_inv(2)
    ripe_events_subset [of "[0]" sample_proc] by fastforce

text \<open>C5. For-duration. An anomaly has lasted when the rule has no for-duration, or when the time
  between the start of the pending period (the trigger time of the pending event under the same
  hash, or the event's own) and this evaluation, plus one evaluation interval, is at least the
  rule's for-duration. Handling the freshly built events of a group makes exactly the hashes fire
  that fired before and those of the due events: the ones whose anomaly has lasted and that, with
  inhibition on, have severity at most 4 and the most urgent severity among the lasted ones. Only
  due events are put on the queue, and every hash that begins to fire is.\<close>

theorem for_duration:
  assumes "proc_inv s" "\<forall>a \<in> set as. live s a" "fresh_events as s"
    and "due = {a \<in> set as. lasted a s \<and> (p_inhibit s \<longrightarrow> ev_Severity (heap s a) \<le> 4 \<and>
        (\<forall>b \<in> set as. lasted b s \<longrightarrow> ev_Severity (heap s a) \<le> ev_Severity (heap s b)))}"
  shows "dom (Get (p_fires (handleEvent as s))) = dom (Get (p_fires s)) \<union> (\<lambda>a. ev_Hash (heap s a)) ` due \<and>
    (\<exists>xs. pushed (handleEvent as s) = pushed s @ xs \<and> fst ` set xs \<subseteq> due \<and>
      (\<lambda>a. ev_Hash (heap s a)) ` due \<subseteq> dom (Get (p_fires s)) \<union> (ev_Hash \<circ> snd) ` set xs)"
  using assms by (rule handleEvent_exact)

theorem for_duration_witness:
  "pushed (handleEvent [0] sample_proc) = [] \<and> dom (Get (p_fires (handleEvent [0] sample_proc))) = {} \<and>
   dom (Get (p_fires (handleEvent [0] (sample_proc\<lparr>p_rule := sample_rule\<lparr>ar_PromForDuration := 15\<rparr>\<rparr>)))) = {''h''}"
proof -
  let ?t = "sample_proc\<lparr>p_rule := sample_rule\<lparr>ar_PromForDuration := 15\<rparr>\<rparr>"
  have f: "fresh_events [0] sample_proc" "fresh_events [0] ?t" by (simp_all add: fresh_events_def Get_def ran_def)
  have l: "\<forall>a \<in> set [0]. live sample_proc a" "\<forall>a \<in> set [0]. live ?t a"
    using sample_proc_inv(2) by (simp_all add: live_def)
  have i: "proc_inv ?t"
    using sample_proc_inv(1) by (simp add: proc_inv_def default_hooks_def)
  have n: "\<not> lasted 0 sample_proc" "lasted 0 ?t" by (simp_all add: lasted_def since_def Get_def)
  have due: "{a \<in> set [0]. lasted a sample_proc \<and> (p_inhibit sample_proc \<longrightarrow> ev_Severity (heap sample_proc a) \<le> 4 \<and>
      (\<forall>b \<in> set [0]. lasted b sample_proc \<longrightarrow> ev_Severity (heap sample_proc a) \<le> ev_Severity (heap sample_proc b)))} = {}"
    "{a \<in> set [0]. lasted a ?t \<and> (p_inhibit ?t \<longrightarrow> ev_Severity (heap ?t a) \<le> 4 \<and>
      (\<forall>b \<in> set [0]. lasted b ?t \<longrightarrow> ev_Severity (heap ?t a) \<le> ev_Severity (heap ?t b)))} = {0}"
    using n by auto
  have e: "dom (Get ([] :: (string, addr) go_map)) = {}" by (simp add: Get_def dom_def)
  show ?thesis
    using for_duration [OF sample_proc_inv(1) l(1) f(1) due(1) [symmetric]]
      for_duration [OF i l(2) f(2) due(2) [symmetric]] e by auto
qed

text \<open>Reloading. After \<open>RecoverAlertCurEventFromDb\<close> with stored events of different hashes,
  the firing map holds exactly those hashes, each with its stored event converted back to memory
  form, and nothing is pending.\<close>

theorem reload_restores:
  assumes "distinct (map ev_Hash es)" and "t = RecoverAlertCurEventFromDb (Some es) s"
  shows "(\<forall>e \<in> set es. \<exists>a. Get (p_fires t) (ev_Hash e) = Some a \<and> heap t a = DB2Mem e) \<and>
    (\<forall>k. Get (p_fires t) k \<noteq> None \<longrightarrow> k \<in> ev_Hash ` set es) \<and>
    (\<forall>k. Get (p_pendings t) k = None) \<and> pushed t = pushed s"
proof -
  obtain m u where l: "load_events es [] (s\<lparr>p_pendings := []\<rparr>) = (m, u)" by fastforce
  have t: "t = u\<lparr>p_fires := m\<rparr>"
    by (simp add: assms(2) RecoverAlertCurEventFromDb_def NewAlertCurEventMap_def l)
  note L = load_events_spec [OF l entries_ok_Nil]
  have "\<forall>k. k \<notin> ev_Hash ` set es \<longrightarrow> Get m k = None" using L by (simp add: Get_def)
  moreover have "\<forall>k. Get (p_pendings u) k = None" using load_events_pendings [OF l] by (simp add: Get_def)
  ultimately show ?thesis using L assms(1) unfolding t by auto
qed

theorem reload_restores_witness:
  "\<exists>a. Get (p_fires (RecoverAlertCurEventFromDb (Some [sample_event])
     (NewProcessor sample_env sample_rule 3))) ''h'' = Some a"
  using reload_restores [OF _ refl, of "[sample_event]"] by fastforce

end
