(* ===== verification/Senders.thy ===== *)
theory Senders
  imports Alert_Common
begin

text \<open>
  The package \<open>alert/sender\<close>: from the users and events of a message to the requests that leave the
  program. A sender is a function from the message context to the list of its requests; the
  network itself is not modelled. The code of other packages that the senders consult is the
  record \<open>nlib\<close>: the JSON path look-up in a user's contacts, URL parsing, the validity of a request
  URL, the Unicode tables of \<open>strings.ToLower\<close>, the JSON of a notice (empty when it cannot be
  marshalled), the task templates and the task service, the script file.
\<close>

subsection \<open>Parameters and messages\<close>

record url_parts =
  up_Scheme :: string
  up_Host :: string
  up_Path :: string
  up_query :: "string \<Rightarrow> string list"

record TaskTpl =
  tt_Id :: int
  tt_GroupId :: int
  tt_Title :: string
  tt_Batch :: int
  tt_Tolerance :: int
  tt_Timeout :: int
  tt_Pause :: string
  tt_Script :: string
  tt_Args :: string
  tt_Tags :: string
  tt_TagsJSON :: "string list"
  tt_Account :: string
  tt_CreateAt :: int
  tt_CreateBy :: string
  tt_UpdateAt :: int
  tt_UpdateBy :: string

record TaskForm =
  tk_Title :: string
  tk_Account :: string
  tk_Batch :: int
  tk_Tolerance :: int
  tk_Timeout :: int
  tk_Pause :: string
  tk_Script :: string
  tk_Args :: string
  tk_Stdin :: string
  tk_Action :: string
  tk_Creator :: string
  tk_Hosts :: "string list"

record TaskRecord =
  tr_Id :: int
  tr_EventId :: int
  tr_GroupId :: int
  tr_IbexAddress :: string
  tr_IbexAuthUser :: string
  tr_IbexAuthPass :: string
  tr_Title :: string
  tr_Account :: string
  tr_Batch :: int
  tr_Tolerance :: int
  tr_Timeout :: int
  tr_Pause :: string
  tr_Script :: string
  tr_Args :: string
  tr_CreateAt :: int
  tr_CreateBy :: string

record SMTPConfig =
  sc_Host :: string
  sc_Port :: int
  sc_User :: string
  sc_Pass :: string
  sc_From :: string
  sc_InsecureSkipVerify :: bool
  sc_Batch :: int

record Ibex =
  ib_Address :: string
  ib_BasicAuthUser :: string
  ib_BasicAuthPass :: string
  ib_Timeout :: int

record NotifyScript =
  ns_Enable :: bool
  ns_Type :: int
  ns_Content :: string
  ns_Timeout :: int

text \<open>What a request carries: a JSON body, an event, a webhook call with its basic authentication,
  host and header assignments, a mail, a task with its bookkeeping record, or a script run.\<close>

datatype request =
    PostJSON string json
  | PostEvent string AlertCurEvent
  | PostWebhook string "(string \<times> string) option" "string option" "(string \<times> string) list" int AlertCurEvent
  | Mail string "string list" string string
  | CreateTask Ibex TaskForm
  | AddTaskRecord TaskRecord
  | WriteScript string
  | RunScript string string int

record nlib =
  nl_lib :: lib
  nl_contact :: "string \<Rightarrow> string \<Rightarrow> string option"
  nl_url_parse :: "string \<Rightarrow> url_parts option"
  nl_valid_url :: "string \<Rightarrow> bool"
  nl_to_lower :: "string \<Rightarrow> string"
  nl_task_tpl :: "int \<Rightarrow> string + TaskTpl option"
  nl_create_task :: "TaskForm \<Rightarrow> string + string \<times> int"
  nl_user_by_name :: "string \<Rightarrow> User option"
  nl_target :: "string \<Rightarrow> Target option"
  nl_script_file :: "(string + string) option"
  nl_write_ok :: bool
  nl_notice :: "AlertCurEvent \<Rightarrow> (string, string) go_map \<Rightarrow> string"

type_synonym tpl = "AlertCurEvent \<Rightarrow> string + string"

record MessageContext =
  mc_Users :: "User list"
  mc_Rule :: AlertRule
  mc_Events :: "AlertCurEvent list"

definition newline :: string where "newline = [CHR 0x0A]"

subsection \<open>Users\<close>

definition Dingtalk :: string where "Dingtalk = ''dingtalk''"
definition Wecom :: string where "Wecom = ''wecom''"
definition Feishu :: string where "Feishu = ''feishu''"
definition FeishuCard :: string where "FeishuCard = ''feishucard''"
definition Mm :: string where "Mm = ''mm''"
definition Telegram :: string where "Telegram = ''telegram''"
definition Email :: string where "Email = ''email''"
definition EmailSubject :: string where "EmailSubject = ''mailsubject''"

lemmas channel_defs = Dingtalk_def Wecom_def Feishu_def FeishuCard_def Mm_def Telegram_def Email_def

definition AdminRole :: string where "AdminRole = ''Admin''"

definition IsAdmin :: "User \<Rightarrow> bool" where
  "IsAdmin u \<longleftrightarrow> AdminRole \<in> set (us_RolesLst u)"

definition ExtractToken :: "nlib \<Rightarrow> User \<Rightarrow> string \<Rightarrow> string option" where
  "ExtractToken N u key =
     (if key = Dingtalk then nl_contact N (us_Contacts u) ''dingtalk_robot_token''
      else if key = Wecom then nl_contact N (us_Contacts u) ''wecom_robot_token''
      else if key = Feishu \<or> key = FeishuCard then nl_contact N (us_Contacts u) ''feishu_robot_token''
      else if key = Mm then nl_contact N (us_Contacts u) ''mm_webhook_url''
      else if key = Telegram then nl_contact N (us_Contacts u) ''telegram_robot_token''
      else if key = Email then (if us_Email u \<noteq> '''' then Some (us_Email u) else None)
      else None)"

subsection \<open>Message bodies\<close>

fun tpl_loop :: "tpl \<Rightarrow> AlertCurEvent list \<Rightarrow> string \<Rightarrow> string" where
  "tpl_loop tpl [] content = content"
| "tpl_loop tpl (e # es) content =
     (case tpl e of Inl err \<Rightarrow> err | Inr body \<Rightarrow> tpl_loop tpl es (content @ body @ newline @ newline))"

definition buildTplMessage :: "tpl option \<Rightarrow> AlertCurEvent list \<Rightarrow> string" where
  "buildTplMessage tpl events =
     (case tpl of None \<Rightarrow> ''tpl for current sender not found, please check configuration''
      | Some t \<Rightarrow> tpl_loop t events '''')"

definition is_http :: "string \<Rightarrow> bool" where
  "is_http s \<longleftrightarrow> prefix ''https://'' s \<or> prefix ''http://'' s"

definition robot_url :: "string \<Rightarrow> string \<Rightarrow> string" where
  "robot_url base token = (if \<not> is_http token then base @ token else token)"

subsection \<open>The senders\<close>

definition dingtalk_extract :: "nlib \<Rightarrow> User list \<Rightarrow> string list \<times> string list" where
  "dingtalk_extract N users =
     (List.map_filter (\<lambda>u. map_option (robot_url ''https://oapi.dingtalk.com/robot/send?access_token='')
        (ExtractToken N u Dingtalk)) users,
      map (\<lambda>u. ''@'' @ us_Phone u) (filter (\<lambda>u. us_Phone u \<noteq> '''') users))"

definition at_json :: "string list option \<Rightarrow> json" where
  "at_json ats = JObj [(''atMobiles'', case ats of None \<Rightarrow> JNull | Some xs \<Rightarrow> JArr (map JStr xs)),
     (''isAtAll'', JBool False)]"

definition dingtalk_body :: "string \<Rightarrow> string \<Rightarrow> string list \<Rightarrow> string \<Rightarrow> json" where
  "dingtalk_body title message ats url =
     (let text = (if Contains url ''noat=1'' then message else message @ newline @ Join ats '' '');
          atv = (if Contains url ''noat=1'' then None else Some ats)
      in JObj [(''msgtype'', JStr ''markdown''),
               (''markdown'', JObj [(''title'', JStr title), (''text'', JStr text)]), (''at'', at_json atv)])"

definition DingtalkSender_Send :: "nlib \<Rightarrow> tpl option \<Rightarrow> MessageContext \<Rightarrow> request list" where
  "DingtalkSender_Send N tpl ctx =
     (if mc_Users ctx = [] \<or> mc_Events ctx = [] then []
      else let (urls, ats) = dingtalk_extract N (mc_Users ctx) in
           if urls = [] then []
           else let message = buildTplMessage tpl (mc_Events ctx);
                    title = ev_RuleName (mc_Events ctx ! 0)
                in map (\<lambda>url. PostJSON url (dingtalk_body title message ats url)) urls)"

definition wecom_extract :: "nlib \<Rightarrow> User list \<Rightarrow> string list" where
  "wecom_extract N users =
     List.map_filter (\<lambda>u. map_option (robot_url ''https://qyapi.weixin.qq.com/cgi-bin/webhook/send?key='')
        (ExtractToken N u Wecom)) users"

definition WecomSender_Send :: "nlib \<Rightarrow> tpl option \<Rightarrow> MessageContext \<Rightarrow> request list" where
  "WecomSender_Send N tpl ctx =
     (if mc_Users ctx = [] \<or> mc_Events ctx = [] then []
      else let message = buildTplMessage tpl (mc_Events ctx) in
           map (\<lambda>url. PostJSON url (JObj [(''msgtype'', JStr ''markdown''),
                 (''markdown'', JObj [(''content'', JStr message)])])) (wecom_extract N (mc_Users ctx)))"

definition feishu_extract :: "nlib \<Rightarrow> User list \<Rightarrow> string list \<times> string list" where
  "feishu_extract N users =
     (List.map_filter (\<lambda>u. map_option (robot_url ''https://open.feishu.cn/open-apis/bot/v2/hook/'')
        (ExtractToken N u Feishu)) users,
      map us_Phone (filter (\<lambda>u. us_Phone u \<noteq> '''') users))"

definition FeishuSender_Send :: "nlib \<Rightarrow> tpl option \<Rightarrow> MessageContext \<Rightarrow> request list" where
  "FeishuSender_Send N tpl ctx =
     (if mc_Users ctx = [] \<or> mc_Events ctx = [] then []
      else let (urls, ats) = feishu_extract N (mc_Users ctx);
               message = buildTplMessage tpl (mc_Events ctx)
           in map (\<lambda>url. PostJSON url (JObj [(''msg_type'', JStr ''text''),
                 (''content'', JObj [(''text'', JStr message)]),
                 (''at'', at_json (if \<not> Contains url ''noat=1'' then Some ats else None))])) urls)"

definition email_extract :: "User list \<Rightarrow> string list" where
  "email_extract users = map us_Email (filter (\<lambda>u. us_Email u \<noteq> '''') users)"

definition EmailSender_Send :: "tpl option \<Rightarrow> tpl option \<Rightarrow> SMTPConfig \<Rightarrow> MessageContext \<Rightarrow> request list" where
  "EmailSender_Send subjectTpl contentTpl smtp ctx =
     (if mc_Users ctx = [] \<or> mc_Events ctx = [] then []
      else let tos = email_extract (mc_Users ctx);
               subject = (case subjectTpl of None \<Rightarrow> ev_RuleName (mc_Events ctx ! 0)
                          | Some t \<Rightarrow> buildTplMessage subjectTpl [mc_Events ctx ! 0]);
               content = buildTplMessage contentTpl (mc_Events ctx)
           in [Mail (sc_From smtp) tos subject content])"

definition token_extract :: "nlib \<Rightarrow> string \<Rightarrow> User list \<Rightarrow> string list" where
  "token_extract N key users = List.map_filter (\<lambda>u. ExtractToken N u key) users"

definition mm_message :: "string \<Rightarrow> url_parts \<Rightarrow> request list" where
  "mm_message text u =
     (let channels = up_query u ''channel'';
          atuser = up_query u ''atuser'';
          txt = (if atuser \<noteq> [] then Join (map (\<lambda>x. ''@'' @ x) atuser) '','' @ newline else '''');
          username = (case up_query u ''username'' of [] \<Rightarrow> '''' | x # _ \<Rightarrow> x);
          ur = up_Scheme u @ ''://'' @ up_Host u @ up_Path u
      in map (\<lambda>channel. PostJSON ur (JObj [(''channel'', JStr channel), (''username'', JStr username),
            (''text'', JStr (txt @ text))])) channels)"

definition SendMM :: "nlib \<Rightarrow> string \<Rightarrow> string list \<Rightarrow> request list" where
  "SendMM N text tokens =
     concat (map (\<lambda>t. case nl_url_parse N t of None \<Rightarrow> [] | Some u \<Rightarrow> mm_message text u) tokens)"

definition MmSender_Send :: "nlib \<Rightarrow> tpl option \<Rightarrow> MessageContext \<Rightarrow> request list" where
  "MmSender_Send N tpl ctx =
     (if mc_Users ctx = [] \<or> mc_Events ctx = [] then []
      else let urls = token_extract N Mm (mc_Users ctx) in
           if urls = [] then [] else SendMM N (buildTplMessage tpl (mc_Events ctx)) urls)"

definition telegram_url :: "string \<Rightarrow> string option" where
  "telegram_url token =
     (if \<not> Contains token ''/'' \<and> \<not> prefix ''https://'' token then None
      else if is_http token then Some token
      else let array = Split token ''/'' in
           if length array \<noteq> 2 then None
           else Some (''https://api.telegram.org/bot'' @ array ! 0 @ ''/sendMessage?chat_id='' @ array ! 1))"

definition SendTelegram :: "string \<Rightarrow> string list \<Rightarrow> request list" where
  "SendTelegram text tokens =
     List.map_filter (\<lambda>t. map_option (\<lambda>url. PostJSON url
        (JObj [(''parse_mode'', JStr ''markdown''), (''text'', JStr text)])) (telegram_url t)) tokens"

definition TelegramSender_Send :: "nlib \<Rightarrow> tpl option \<Rightarrow> MessageContext \<Rightarrow> request list" where
  "TelegramSender_Send N tpl ctx =
     (if mc_Users ctx = [] \<or> mc_Events ctx = [] then []
      else SendTelegram (buildTplMessage tpl (mc_Events ctx)) (token_extract N Telegram (mc_Users ctx)))"

text \<open>
  The card sender fills in one package variable and posts it to every URL. \<open>card_action\<close> is one
  access to that variable: the four assignments and the posts of a \<open>Send\<close>, in its order. A post
  marshals the variable as it is at that moment.
\<close>

record card =
  cd_title :: string
  cd_template :: string
  cd_text :: string
  cd_note :: string

datatype card_action = Set_title string | Set_template string | Set_text string | Set_note string
  | Post_card string

definition plain_element :: "string \<Rightarrow> string \<Rightarrow> string \<Rightarrow> string \<Rightarrow> json \<Rightarrow> json" where
  "plain_element tag text_content text_tag content elements =
     JObj [(''tag'', JStr tag), (''text'', JObj [(''content'', JStr text_content), (''tag'', JStr text_tag)]),
           (''content'', JStr content), (''elements'', elements)]"

definition card_json :: "card \<Rightarrow> json" where
  "card_json c = JObj [(''msg_type'', JStr ''interactive''),
     (''content'', JObj [(''text'', JStr '''')]), (''at'', at_json None),
     (''card'', JObj [(''config'', JObj [(''wide_screen_mode'', JBool True), (''enable_forward'', JBool True)]),
       (''elements'', JArr [plain_element ''div'' (cd_text c) ''lark_md'' '''' JNull,
          plain_element ''hr'' '''' '''' '''' JNull,
          plain_element ''note'' '''' '''' ''''
            (JArr [plain_element ''lark_md'' '''' '''' (cd_note c) JNull])]),
       (''header'', JObj [(''title'', JObj [(''content'', JStr (cd_title c)), (''tag'', JStr ''plain_text'')]),
                        (''template'', JStr (cd_template c))])])]"

fun card_step :: "card_action \<Rightarrow> card \<times> request list \<Rightarrow> card \<times> request list" where
  "card_step (Set_title x) (c, out) = (c\<lparr>cd_title := x\<rparr>, out)"
| "card_step (Set_template x) (c, out) = (c\<lparr>cd_template := x\<rparr>, out)"
| "card_step (Set_text x) (c, out) = (c\<lparr>cd_text := x\<rparr>, out)"
| "card_step (Set_note x) (c, out) = (c\<lparr>cd_note := x\<rparr>, out)"
| "card_step (Post_card url) (c, out) = (c, out @ [PostJSON url (card_json c)])"

definition feishucard_extract :: "nlib \<Rightarrow> User list \<Rightarrow> string list" where
  "feishucard_extract N users =
     List.map_filter (\<lambda>u. map_option (\<lambda>t. if \<not> is_http t
          then ''https://open.feishu.cn/open-apis/bot/v2/hook/'' @ TrimSpace t else t)
        (ExtractToken N u FeishuCard)) users"

definition card_color :: "nlib \<Rightarrow> string \<Rightarrow> string" where
  "card_color N message =
     (let low = nl_to_lower N message in
      if Contains low ''recovered'' \<and> Contains low ''triggered'' then ''orange''
      else if Contains low ''recovered'' then ''green'' else ''red'')"

definition bell :: string where
  "bell = [CHR 0xF0, CHR 0x9F, CHR 0x94, CHR 0x94]"

definition FeishuCardSender_actions :: "nlib \<Rightarrow> tpl option \<Rightarrow> MessageContext \<Rightarrow> card_action list" where
  "FeishuCardSender_actions N tpl ctx =
     (if mc_Users ctx = [] \<or> mc_Events ctx = [] then []
      else let urls = feishucard_extract N (mc_Users ctx);
               message = buildTplMessage tpl (mc_Events ctx);
               SendTitle = bell @ '' '' @ ev_RuleName (mc_Events ctx ! 0)
           in [Set_title SendTitle, Set_template (card_color N message), Set_text message, Set_note SendTitle]
              @ map Post_card urls)"

definition FeishuCardSender_Send :: "nlib \<Rightarrow> tpl option \<Rightarrow> MessageContext \<Rightarrow> card \<Rightarrow> card \<times> request list" where
  "FeishuCardSender_Send N tpl ctx c = fold card_step (FeishuCardSender_actions N tpl ctx) (c, [])"

subsection \<open>Callbacks\<close>

definition canDoIbex :: "nlib \<Rightarrow> string \<Rightarrow> TaskTpl \<Rightarrow> string \<Rightarrow> bool" where
  "canDoIbex N username tpl host =
     (if (case nl_user_by_name N username of None \<Rightarrow> False | Some u \<Rightarrow> IsAdmin u) then True
      else case nl_target N host of None \<Rightarrow> False | Some t \<Rightarrow> tg_GroupId t = tt_GroupId tpl)"

definition ibex_stdin :: "nlib \<Rightarrow> AlertCurEvent \<Rightarrow> string" where
  "ibex_stdin N event =
     (let m0 = tags_of_pairs (ev_TagsJSON event) [];
          m1 = go_set ''alert_severity'' (Itoa (ev_Severity event)) m0;
          m2 = go_set ''alert_trigger_value'' (ev_TriggerValue event) m1
      in lib_marshal (nl_lib N) (json_of_strmap m2))"

definition task_form :: "nlib \<Rightarrow> TaskTpl \<Rightarrow> string \<Rightarrow> AlertCurEvent \<Rightarrow> TaskForm" where
  "task_form N tpl host event =
     \<lparr>tk_Title = tt_Title tpl @ '' FH: '' @ host, tk_Account = tt_Account tpl, tk_Batch = tt_Batch tpl,
      tk_Tolerance = tt_Tolerance tpl, tk_Timeout = tt_Timeout tpl, tk_Pause = tt_Pause tpl,
      tk_Script = tt_Script tpl, tk_Args = tt_Args tpl, tk_Stdin = ibex_stdin N event,
      tk_Action = ''start'', tk_Creator = tt_UpdateBy tpl, tk_Hosts = [host]\<rparr>"

definition task_record :: "int \<Rightarrow> int \<Rightarrow> AlertCurEvent \<Rightarrow> TaskTpl \<Rightarrow> Ibex \<Rightarrow> TaskForm \<Rightarrow> TaskRecord" where
  "task_record now dat event tpl conf f =
     \<lparr>tr_Id = dat, tr_EventId = ev_Id event, tr_GroupId = tt_GroupId tpl, tr_IbexAddress = ib_Address conf,
      tr_IbexAuthUser = ib_BasicAuthUser conf, tr_IbexAuthPass = ib_BasicAuthPass conf,
      tr_Title = tk_Title f, tr_Account = tk_Account f, tr_Batch = tk_Batch f,
      tr_Tolerance = tk_Tolerance f, tr_Timeout = tk_Timeout f, tr_Pause = tk_Pause f,
      tr_Script = tk_Script f, tr_Args = tk_Args f, tr_CreateAt = now, tr_CreateBy = tk_Creator f\<rparr>"

definition run_ibex :: "nlib \<Rightarrow> int \<Rightarrow> Ibex \<Rightarrow> AlertCurEvent \<Rightarrow> TaskTpl \<Rightarrow> string \<Rightarrow> request list" where
  "run_ibex N now conf event tpl host =
     (if \<not> canDoIbex N (tt_UpdateBy tpl) tpl host then [] else
      let form = task_form N tpl host event in
      CreateTask conf form #
      (case nl_create_task N form of Inl err \<Rightarrow> []
       | Inr (err, dat) \<Rightarrow> if err \<noteq> '''' then []
           else [AddTaskRecord (task_record now dat event tpl conf form)]))"

definition handleIbex :: "nlib \<Rightarrow> int \<Rightarrow> Ibex \<Rightarrow> string \<Rightarrow> AlertCurEvent \<Rightarrow> request list" where
  "handleIbex N now conf url event =
     (let arr = Split url ''/'';
          idstr = (if length arr > 1 then arr ! 1 else '''');
          host0 = (if length arr > 2 then arr ! 2 else '''')
      in case ParseInt idstr of None \<Rightarrow> []
      | Some i \<Rightarrow>
        let host = (if host0 = '''' then ev_TargetIdent event else host0) in
        if host = '''' then [] else
        case nl_task_tpl N i of
          Inl err \<Rightarrow> []
        | Inr None \<Rightarrow> []
        | Inr (Some tpl) \<Rightarrow> run_ibex N now conf event tpl host)"

definition callback_requests :: "nlib \<Rightarrow> int \<Rightarrow> Ibex \<Rightarrow> AlertCurEvent \<Rightarrow> string \<Rightarrow> request list" where
  "callback_requests N now conf event url =
     (if url = '''' then []
      else if prefix ''${ibex}'' url
      then (if \<not> ev_IsRecovered event then handleIbex N now conf url event else [])
      else [PostEvent (if \<not> (prefix ''http://'' url \<or> prefix ''https://'' url) then ''http://'' @ url else url) event])"

definition SendCallbacks :: "nlib \<Rightarrow> int \<Rightarrow> Ibex \<Rightarrow> string list \<Rightarrow> AlertCurEvent \<Rightarrow> request list" where
  "SendCallbacks N now conf urls event = concat (map (callback_requests N now conf event) urls)"

subsection \<open>Webhooks and the notify script\<close>

fun header_loop :: "string list \<Rightarrow> string option \<Rightarrow> (string \<times> string) list \<Rightarrow>
    string option \<times> (string \<times> string) list" where
  "header_loop (k # v # hs) host sets =
     (if k = ''host'' then header_loop hs (Some v) sets else header_loop hs host (sets @ [(k, v)]))"
| "header_loop _ host sets = (host, sets)"

definition webhook_request :: "nlib \<Rightarrow> AlertCurEvent \<Rightarrow> Webhook \<Rightarrow> request list" where
  "webhook_request N event conf =
     (if wh_Url conf = '''' \<or> \<not> wh_Enable conf then []
      else if \<not> nl_valid_url N (wh_Url conf) then []
      else let auth = (if wh_BasicAuthUser conf \<noteq> '''' \<and> wh_BasicAuthPass conf \<noteq> ''''
                       then Some (wh_BasicAuthUser conf, wh_BasicAuthPass conf) else None);
               ct = (''Content-Type'', ''application/json'');
               (host, sets) = (if wh_Headers conf \<noteq> [] \<and> length (wh_Headers conf) mod 2 = 0
                 then header_loop (wh_Headers conf) None [ct] else (None, [ct]))
           in [PostWebhook (wh_Url conf) auth host sets (wh_Timeout conf) event])"

definition SendWebhooks :: "nlib \<Rightarrow> Webhook list \<Rightarrow> AlertCurEvent \<Rightarrow> request list" where
  "SendWebhooks N webhooks event = concat (map (webhook_request N event) webhooks)"

definition alertingCallScript :: "nlib \<Rightarrow> string \<Rightarrow> NotifyScript \<Rightarrow> request list" where
  "alertingCallScript N stdin config =
     (if \<not> ns_Enable config \<or> ns_Content config = '''' then []
      else if ns_Type config = 1 then [RunScript (ns_Content config) stdin (ns_Timeout config)]
      else let run = RunScript ''./.notify_scriptt'' stdin (ns_Timeout config);
               rewrite = WriteScript (ns_Content config) # (if nl_write_ok N then [run] else []) in
        case nl_script_file N of
          None \<Rightarrow> rewrite
        | Some (Inl err) \<Rightarrow> []
        | Some (Inr old) \<Rightarrow> if old = ns_Content config then [run] else rewrite)"

definition MayPluginNotify :: "nlib \<Rightarrow> string \<Rightarrow> NotifyScript \<Rightarrow> request list" where
  "MayPluginNotify N noticeBytes config =
     (if length noticeBytes = 0 then [] else alertingCallScript N noticeBytes config)"

subsection \<open>Properties of the requests\<close>

lemma is_http_robot_url: "is_http base \<Longrightarrow> is_http (robot_url base t)"
  by (auto simp: robot_url_def is_http_def prefix_def)

lemma robot_url_in_filter:
  "url \<in> set (List.map_filter (\<lambda>u. map_option (robot_url base) (tok u)) users) \<Longrightarrow> is_http base \<Longrightarrow> is_http url"
  by (auto simp: List.map_filter_def is_http_robot_url)

lemma telegram_url_http: "telegram_url t = Some url \<Longrightarrow> is_http url"
  by (auto simp: telegram_url_def Let_def is_http_def split: if_splits)

lemma run_ibex_task:
  assumes "CreateTask conf f \<in> set (run_ibex N now c event tpl host)"
  shows "canDoIbex N (tt_UpdateBy tpl) tpl host" "f = task_form N tpl host event" "conf = c"
  using assms by (auto simp: run_ibex_def Let_def split: if_splits sum.splits prod.splits)

lemma handleIbex_task:
  assumes "CreateTask conf f \<in> set (handleIbex N now c url event)"
  shows "\<exists>i tpl host. nl_task_tpl N i = Inr (Some tpl) \<and> host \<noteq> '''' \<and>
    CreateTask conf f \<in> set (run_ibex N now c event tpl host)"
proof -
  let ?P = "\<lambda>xs. CreateTask conf f \<in> set xs \<longrightarrow> (\<exists>i tpl host. nl_task_tpl N i = Inr (Some tpl) \<and> host \<noteq> '''' \<and>
    CreateTask conf f \<in> set (run_ibex N now c event tpl host))"
  have "?P (if host = '''' then [] else case nl_task_tpl N i of Inl err \<Rightarrow> [] | Inr None \<Rightarrow> []
        | Inr (Some tpl) \<Rightarrow> run_ibex N now c event tpl host)" for host i
    by (auto split: sum.split option.split) metis
  note step = this
  have "?P (handleIbex N now c url event)"
  proof (cases "ParseInt (if length (Split url ''/'') > 1 then Split url ''/'' ! 1 else '''')")
    case None
    show ?thesis unfolding handleIbex_def Let_def None option.case by simp
  next
    case (Some i)
    show ?thesis unfolding handleIbex_def Let_def Some option.case by (rule step)
  qed
  then show ?thesis using assms by blast
qed

end
