(* ===== verification/Memsto.thy ===== *)
theory Memsto
  imports Alert_Models
begin

text \<open>
  The package \<open>memsto\<close>: caches of database tables. Each cache keeps the row count and the latest
  update time of the table at its last refresh; a sync queries those two numbers, does nothing when
  they are unchanged, and otherwise reads the whole table and replaces the content. The answers of
  the database are arguments of a sync (\<open>None\<close> for a failed query). \<open>synced_cache\<close> is the contract
  that the nine caches share; each of them is shown to satisfy it.
\<close>

subsection \<open>State and primitive operations\<close>

record Statistics =
  st_Total :: int
  st_LastUpdated :: int

record ('k, 'v) cache =
  ch_statTotal :: int
  ch_statLastUpdated :: int
  ch_data :: "('k, 'v) go_map"

definition NewCache :: "('k, 'v) cache" where
  "NewCache = \<lparr>ch_statTotal = -1, ch_statLastUpdated = -1, ch_data = []\<rparr>"

definition Reset :: "('k, 'v) cache \<Rightarrow> ('k, 'v) cache" where
  "Reset c = c\<lparr>ch_statTotal := -1, ch_statLastUpdated := -1, ch_data := []\<rparr>"

definition StatChanged :: "('k, 'v) cache \<Rightarrow> int \<Rightarrow> int \<Rightarrow> bool" where
  "StatChanged c tot lastUpdated =
     (if ch_statTotal c = tot \<and> ch_statLastUpdated c = lastUpdated then False else True)"

definition cache_Set :: "('k, 'v) go_map \<Rightarrow> int \<Rightarrow> int \<Rightarrow> ('k, 'v) cache \<Rightarrow> ('k, 'v) cache" where
  "cache_Set m tot lastUpdated c =
     c\<lparr>ch_data := m, ch_statTotal := tot, ch_statLastUpdated := lastUpdated\<rparr>"

definition cache_Get :: "('k, 'v) cache \<Rightarrow> 'k \<Rightarrow> 'v option" where
  "cache_Get c k = go_get (ch_data c) k"

datatype sync_result = Sync_failed | Not_changed | Synced

subsection \<open>Rows by key and rows grouped by key\<close>

definition index_by :: "('r \<Rightarrow> 'k) \<Rightarrow> 'r list \<Rightarrow> ('k, 'r) go_map" where
  "index_by key rows = fold (\<lambda>r m. go_set (key r) r m) rows []"

definition group_by :: "('r \<Rightarrow> 'k) \<Rightarrow> 'r list \<Rightarrow> ('k, 'r list) go_map" where
  "group_by key rows = fold (\<lambda>r m. go_set (key r)
     ((case go_get m (key r) of None \<Rightarrow> [] | Some l \<Rightarrow> l) @ [r]) m) rows []"

lemma index_by_fold:
  "go_get (fold (\<lambda>r m. go_set (key r) r m) rows m) k =
     (case filter (\<lambda>r. key r = k) rows of [] \<Rightarrow> go_get m k | l \<Rightarrow> Some (last l))"
  by (induction rows arbitrary: m) (auto split: list.splits)

lemma index_by_get: "go_get (index_by key rows) k =
    (case filter (\<lambda>r. key r = k) rows of [] \<Rightarrow> None | l \<Rightarrow> Some (last l))"
  by (simp add: index_by_def index_by_fold split: list.split)

lemma filter_key_single:
  "distinct (map key rows) \<Longrightarrow> r \<in> set rows \<Longrightarrow> filter (\<lambda>x. key x = key r) rows = [r]"
proof (induction rows)
  case (Cons x xs)
  show ?case
  proof (cases "x = r")
    case True
    then have "\<forall>y \<in> set xs. key y \<noteq> key r" using Cons.prems by (auto simp: image_iff)
    then show ?thesis using True by (simp add: filter_empty_conv)
  next
    case False
    then have "key x \<noteq> key r" "r \<in> set xs" using Cons.prems by (auto simp: image_iff)
    then show ?thesis using Cons by simp
  qed
qed simp

lemma index_by_distinct:
  assumes "distinct (map key rows)"
  shows "go_get (index_by key rows) k = Some r \<longleftrightarrow> r \<in> set rows \<and> key r = k"
proof
  assume "go_get (index_by key rows) k = Some r"
  then have "r \<in> set (filter (\<lambda>r. key r = k) rows)"
    unfolding index_by_get by (auto split: list.splits if_splits simp del: set_filter)
  then show "r \<in> set rows \<and> key r = k" by simp
next
  assume "r \<in> set rows \<and> key r = k"
  then show "go_get (index_by key rows) k = Some r"
    using filter_key_single [OF assms] by (auto simp: index_by_get)
qed

lemma group_by_fold:
  "go_get (fold (\<lambda>r m. go_set (key r) ((case go_get m (key r) of None \<Rightarrow> [] | Some l \<Rightarrow> l) @ [r]) m) rows m) k =
     (case filter (\<lambda>r. key r = k) rows of [] \<Rightarrow> go_get m k
      | l \<Rightarrow> Some ((case go_get m k of None \<Rightarrow> [] | Some l0 \<Rightarrow> l0) @ l))"
  by (induction rows arbitrary: m) (auto split: list.splits option.splits)

lemma group_by_member: "go_get (group_by key rows) k = Some l \<Longrightarrow> set l = {r \<in> set rows. key r = k}"
proof -
  assume "go_get (group_by key rows) k = Some l"
  then have "l = filter (\<lambda>r. key r = k) rows"
    by (simp add: group_by_def group_by_fold split: list.splits)
  then show ?thesis by simp
qed

lemma group_by_get: "go_get (group_by key rows) k =
    (case filter (\<lambda>r. key r = k) rows of [] \<Rightarrow> None | l \<Rightarrow> Some l)"
  by (simp add: group_by_def group_by_fold split: list.split)

subsection \<open>The contract of a sync\<close>

definition query_key :: "Statistics \<Rightarrow> int \<times> int" where
  "query_key s = (st_Total s, st_LastUpdated s)"

locale synced_cache =
  fixes sync :: "Statistics option \<Rightarrow> 'rows option \<Rightarrow> ('k, 'v) cache \<Rightarrow> ('k, 'v) cache \<times> sync_result"
    and build :: "'rows \<Rightarrow> ('k, 'v) go_map"
  assumes sync_stat_failed: "sync None rows c = (c, Sync_failed)"
    and sync_unchanged:
      "query_key s = (ch_statTotal c, ch_statLastUpdated c) \<Longrightarrow> sync (Some s) rows c = (c, Not_changed)"
    and sync_rows_failed:
      "query_key s \<noteq> (ch_statTotal c, ch_statLastUpdated c) \<Longrightarrow> sync (Some s) None c = (c, Sync_failed)"
    and sync_refresh:
      "query_key s \<noteq> (ch_statTotal c, ch_statLastUpdated c) \<Longrightarrow> sync (Some s) (Some lst) c =
         (\<lparr>ch_statTotal = st_Total s, ch_statLastUpdated = st_LastUpdated s, ch_data = build lst\<rparr>, Synced)"
begin

text \<open>The state after a sequence of syncs, each with the answers it got.\<close>

fun run :: "(Statistics option \<times> 'rows option) list \<Rightarrow> ('k, 'v) cache \<Rightarrow> ('k, 'v) cache" where
  "run [] c = c"
| "run ((s, rows) # qs) c = run qs (fst (sync s rows c))"

text \<open>A cache is coherent with a pair of numbers and a table when it shows that table whenever it
  carries these numbers.\<close>

definition coherent :: "(int \<times> int \<Rightarrow> 'rows) \<Rightarrow> ('k, 'v) cache \<Rightarrow> bool" where
  "coherent table c \<longleftrightarrow> (ch_statTotal c, ch_statLastUpdated c) = (-1, -1) \<or>
     ch_data c = build (table (ch_statTotal c, ch_statLastUpdated c))"

lemma sync_coherent:
  assumes "coherent table c" and "\<And>st rs. s = Some st \<Longrightarrow> rows = Some rs \<Longrightarrow> rs = table (query_key st)"
  shows "coherent table (fst (sync s rows c))"
proof (cases s)
  case None
  then show ?thesis using assms(1) by (simp add: sync_stat_failed)
next
  case (Some st)
  consider (same) "query_key st = (ch_statTotal c, ch_statLastUpdated c)"
    | (failed) "query_key st \<noteq> (ch_statTotal c, ch_statLastUpdated c)" "rows = None"
    | (refresh) rs where "query_key st \<noteq> (ch_statTotal c, ch_statLastUpdated c)" "rows = Some rs"
    by (cases rows) auto
  then show ?thesis
  proof cases
    case same
    then show ?thesis using assms(1) Some by (simp add: sync_unchanged)
  next
    case failed
    then show ?thesis using assms(1) Some by (simp add: sync_rows_failed)
  next
    case refresh
    then show ?thesis using assms(2) [OF Some refresh(2)] Some
      by (simp add: sync_refresh coherent_def query_key_def)
  qed
qed

lemma run_coherent:
  assumes "coherent table c"
    and "\<forall>(s, rows) \<in> set qs. \<forall>st rs. s = Some st \<longrightarrow> rows = Some rs \<longrightarrow> rs = table (query_key st)"
  shows "coherent table (run qs c)"
  using assms
proof (induction qs arbitrary: c)
  case (Cons q qs)
  obtain s rows where q: "q = (s, rows)" by (cases q)
  have "coherent table (fst (sync s rows c))"
    by (rule sync_coherent [OF Cons.prems(1)]) (use Cons.prems(2) q in auto)
  then show ?case using Cons q by simp
qed simp

lemma sync_data: "ch_data (fst (sync s rows c)) = ch_data c \<or> (\<exists>rs. ch_data (fst (sync s rows c)) = build rs)"
proof (cases s)
  case None
  then show ?thesis by (simp add: sync_stat_failed)
next
  case (Some st)
  show ?thesis
  proof (cases "query_key st = (ch_statTotal c, ch_statLastUpdated c)")
    case True
    then show ?thesis by (simp add: Some sync_unchanged)
  next
    case False
    then show ?thesis by (cases rows) (auto simp: Some sync_rows_failed sync_refresh)
  qed
qed

lemma run_data: "ch_data (run qs c) = ch_data c \<or> (\<exists>rs. ch_data (run qs c) = build rs)"
proof (induction qs arbitrary: c)
  case (Cons q qs)
  obtain s rows where q: "q = (s, rows)" by (cases q)
  show ?case using Cons [of "fst (sync s rows c)"] sync_data [of s rows c] q by auto
qed simp

lemma sync_current:
  assumes "coherent table c" "query_key st \<noteq> (-1, -1)"
  shows "ch_data (fst (sync (Some st) (Some (table (query_key st))) c)) = build (table (query_key st))"
proof (cases "query_key st = (ch_statTotal c, ch_statLastUpdated c)")
  case True
  then show ?thesis using assms by (auto simp: sync_unchanged coherent_def)
next
  case False
  then show ?thesis by (simp add: sync_refresh)
qed

end

subsection \<open>The caches\<close>

definition sync_cache :: "('rows \<Rightarrow> ('k, 'v) go_map) \<Rightarrow> Statistics option \<Rightarrow> 'rows option \<Rightarrow>
    ('k, 'v) cache \<Rightarrow> ('k, 'v) cache \<times> sync_result" where
  "sync_cache build stat rows c =
     (case stat of None \<Rightarrow> (c, Sync_failed)
      | Some s \<Rightarrow>
        if \<not> StatChanged c (st_Total s) (st_LastUpdated s) then (c, Not_changed)
        else case rows of None \<Rightarrow> (c, Sync_failed)
        | Some lst \<Rightarrow> (cache_Set (build lst) (st_Total s) (st_LastUpdated s) c, Synced))"

lemma sync_cache_contract: "synced_cache (sync_cache build) build"
  by unfold_locales (auto simp: sync_cache_def StatChanged_def cache_Set_def query_key_def)

record QueryConfig =
  qc_Queries :: json
  qc_NewMetric :: string
  qc_Exp :: string
  qc_WriteDatasourceId :: int
  qc_Delay :: int

record RecordingRule =
  rr_Id :: int
  rr_GroupId :: int
  rr_DatasourceIds :: string
  rr_DatasourceIdsJson :: "int list"
  rr_Cluster :: string
  rr_Name :: string
  rr_Disabled :: int
  rr_PromQl :: string
  rr_QueryConfigs :: string
  rr_QueryConfigsJson :: "QueryConfig list"
  rr_PromEvalInterval :: int
  rr_AppendTags :: string
  rr_AppendTagsJSON :: "string list"
  rr_Note :: string
  rr_CreateAt :: int
  rr_CreateBy :: string
  rr_UpdateAt :: int
  rr_UpdateBy :: string

record HostMeta =
  hm_AgentVersion :: string
  hm_OS :: string
  hm_Arch :: string
  hm_Hostname :: string
  hm_CpuNum :: int
  hm_CpuUtil :: float64
  hm_MemUtil :: float64
  hm_Offset :: int
  hm_UnixTime :: int
  hm_RemoteAddr :: string
  hm_HostIp :: string

definition syncAlertRules where
  "syncAlertRules = sync_cache (index_by ar_Id :: AlertRule list \<Rightarrow> (int, AlertRule) go_map)"

definition syncRecordingRules where
  "syncRecordingRules = sync_cache (index_by rr_Id :: RecordingRule list \<Rightarrow> (int, RecordingRule) go_map)"

definition syncUsers where
  "syncUsers = sync_cache (index_by us_Id :: User list \<Rightarrow> (int, User) go_map)"

text \<open>Business groups and data sources are already maps when they arrive.\<close>

definition syncBusiGroups where
  "syncBusiGroups = sync_cache (\<lambda>m :: (int, BusiGroup) go_map. m)"

definition syncDatasources where
  "syncDatasources = sync_cache (\<lambda>m :: (int, Datasource) go_map. m)"

text \<open>Mutes that do not parse are skipped; the others are grouped by business group.\<close>

definition mute_map :: "lib \<Rightarrow> AlertMute list \<Rightarrow> (int, AlertMute list) go_map" where
  "mute_map L lst = group_by am_GroupId (List.map_filter (AlertMute_Parse L) lst)"

definition syncAlertMutes where
  "syncAlertMutes L = sync_cache (mute_map L)"

text \<open>Subscriptions are parsed, decoded and grouped by rule; \<open>decode\<close> is \<open>DB2FE\<close> followed by
  \<open>FillDatasourceIds\<close>, whose JSON decoding may fail.\<close>

definition subscribe_map ::
    "lib \<Rightarrow> (AlertSubscribe \<Rightarrow> AlertSubscribe option) \<Rightarrow> AlertSubscribe list \<Rightarrow> (int, AlertSubscribe list) go_map" where
  "subscribe_map L decode lst = group_by as_RuleId
     (List.map_filter (\<lambda>s. Option.bind (AlertSubscribe_Parse L s) decode) lst)"

definition syncAlertSubscribes where
  "syncAlertSubscribes L decode = sync_cache (subscribe_map L decode)"

text \<open>User groups are two queries: the groups, then their members.\<close>

definition add_member :: "int \<times> int \<Rightarrow> (int, UserGroup) go_map \<Rightarrow> (int, UserGroup) go_map" where
  "add_member gu m = (case go_get m (fst gu) of None \<Rightarrow> m
     | Some ug \<Rightarrow> go_set (fst gu) (ug\<lparr>ug_UserIds := ug_UserIds ug @ [snd gu]\<rparr>) m)"

definition group_map :: "UserGroup list \<times> (int \<times> int) list \<Rightarrow> (int, UserGroup) go_map" where
  "group_map q = fold add_member (snd q) (index_by ug_Id (fst q))"

definition pair_query :: "'a option \<Rightarrow> 'b option \<Rightarrow> ('a \<times> 'b) option" where
  "pair_query lst members = (case lst of None \<Rightarrow> None | Some l \<Rightarrow> map_option (Pair l) members)"

definition syncUserGroups where
  "syncUserGroups stat lst members = sync_cache group_map stat (pair_query lst members)"

text \<open>Targets get the host meta data of the center's Redis.\<close>

definition FillMeta :: "HostMeta \<Rightarrow> Target \<Rightarrow> Target" where
  "FillMeta meta t = t\<lparr>tg_MemUtil := hm_MemUtil meta, tg_CpuUtil := hm_CpuUtil meta,
     tg_CpuNum := hm_CpuNum meta, tg_UnixTime := hm_UnixTime meta, tg_Offset := hm_Offset meta,
     tg_OS := hm_OS meta, tg_Arch := hm_Arch meta, tg_RemoteAddr := hm_RemoteAddr meta\<rparr>"

definition fill_metas :: "bool \<Rightarrow> (string, HostMeta) go_map \<Rightarrow> Target list \<Rightarrow> Target list" where
  "fill_metas isCenter metaMap lst =
     (if isCenter then map (\<lambda>t. case go_get metaMap (tg_Ident t) of None \<Rightarrow> t | Some m \<Rightarrow> FillMeta m t) lst
      else lst)"

definition target_map :: "bool \<Rightarrow> (string, HostMeta) go_map \<Rightarrow> Target list \<Rightarrow> (string, Target) go_map" where
  "target_map isCenter metaMap lst = index_by tg_Ident (fill_metas isCenter metaMap lst)"

definition syncTargets where
  "syncTargets isCenter metaMap = sync_cache (target_map isCenter metaMap)"

lemma FillMeta_frame [simp, frame]:
  "tg_Ident (FillMeta m t) = tg_Ident t" "tg_GroupId (FillMeta m t) = tg_GroupId t"
  "tg_Tags (FillMeta m t) = tg_Tags t" "tg_UpdateAt (FillMeta m t) = tg_UpdateAt t"
  by (simp_all add: FillMeta_def)

interpretation arc: synced_cache syncAlertRules "index_by ar_Id"
  unfolding syncAlertRules_def by (rule sync_cache_contract)

interpretation rrc: synced_cache syncRecordingRules "index_by rr_Id"
  unfolding syncRecordingRules_def by (rule sync_cache_contract)

interpretation uc: synced_cache syncUsers "index_by us_Id"
  unfolding syncUsers_def by (rule sync_cache_contract)

interpretation bgc: synced_cache syncBusiGroups "\<lambda>m. m"
  unfolding syncBusiGroups_def by (rule sync_cache_contract)

interpretation dsc: synced_cache syncDatasources "\<lambda>m. m"
  unfolding syncDatasources_def by (rule sync_cache_contract)

interpretation amc: synced_cache "syncAlertMutes L" "mute_map L" for L
  unfolding syncAlertMutes_def by (rule sync_cache_contract)

interpretation asc: synced_cache "syncAlertSubscribes L decode" "subscribe_map L decode" for L decode
  unfolding syncAlertSubscribes_def by (rule sync_cache_contract)

interpretation ugc: synced_cache "\<lambda>stat q. syncUserGroups stat (map_option fst q) (map_option snd q)" group_map
proof -
  have "pair_query (map_option fst q) (map_option snd q) = q" for q :: "(UserGroup list \<times> (int \<times> int) list) option"
    by (cases q) (auto simp: pair_query_def)
  then show "synced_cache (\<lambda>stat q. syncUserGroups stat (map_option fst q) (map_option snd q)) group_map"
    unfolding syncUserGroups_def using sync_cache_contract [of group_map] by simp
qed

interpretation tc: synced_cache "syncTargets isCenter metaMap" "target_map isCenter metaMap" for isCenter metaMap
  unfolding syncTargets_def by (rule sync_cache_contract)

subsection \<open>Look-ups\<close>

fun get_by_ids :: "(int, 'v) go_map \<Rightarrow> int list \<Rightarrow> int list \<Rightarrow> 'v list" where
  "get_by_ids m [] seen = []"
| "get_by_ids m (i # is) seen =
     (case go_get m i of None \<Rightarrow> get_by_ids m is seen
      | Some v \<Rightarrow> if i \<in> set seen then get_by_ids m is seen
                 else v # get_by_ids m is (i # seen))"

definition GetByUserGroupIds :: "(int, UserGroup) cache \<Rightarrow> int list \<Rightarrow> UserGroup list" where
  "GetByUserGroupIds c ids = get_by_ids (ch_data c) ids []"

definition GetByUserIds :: "(int, User) cache \<Rightarrow> int list \<Rightarrow> User list" where
  "GetByUserIds c ids = get_by_ids (ch_data c) ids []"

definition GetMaintainerUsers :: "User list \<Rightarrow> User list" where
  "GetMaintainerUsers users = filter (\<lambda>u. us_Maintainer u = 1) users"

fun GetByUsername :: "User list \<Rightarrow> string \<Rightarrow> User option" where
  "GetByUsername [] name = None"
| "GetByUsername (u # us) name = (if us_Username u = name then Some u else GetByUsername us name)"

fun GetOffsetHost :: "(string, Target) go_map \<Rightarrow> int \<Rightarrow> int \<Rightarrow> Target list \<Rightarrow> (string, int) go_map \<Rightarrow>
    (string, int) go_map" where
  "GetOffsetHost targets now offset [] hostOffset = hostOffset"
| "GetOffsetHost targets now offset (t0 # ts) hostOffset =
     (case go_get targets (tg_Ident t0) of None \<Rightarrow> GetOffsetHost targets now offset ts hostOffset
      | Some t \<Rightarrow>
        if tg_CpuNum t \<le> 0 then GetOffsetHost targets now offset ts hostOffset
        else if now - tg_UpdateAt t > 120 then GetOffsetHost targets now offset ts hostOffset
        else if \<bar>tg_Offset t\<bar> > offset
        then GetOffsetHost targets now offset ts (go_set (tg_Ident t) (tg_Offset t) hostOffset)
        else GetOffsetHost targets now offset ts hostOffset)"

lemma get_by_ids_set: "set (get_by_ids m is seen) = {v. \<exists>i \<in> set is - set seen. go_get m i = Some v}"
  by (induction m "is" seen rule: get_by_ids.induct) (auto split: option.splits)


end
