(* ===== verification/Notify_Target.thy ===== *)
theory Notify_Target
  imports Memsto
begin

text \<open>
  \<open>alert/dispatch/notify_channel.go\<close> and \<open>notify_target.go\<close>: who is notified through which
  channel, and the union and intersection merges of two such answers. The merges are one loop with
  the combining operation as an argument; \<open>channel_merge\<close> states what a client may assume of the
  operation, and both merges of the program are instances.
\<close>

subsection \<open>NotifyChannels\<close>

type_synonym NotifyChannels = "(string, bool) go_map"

fun NewNotifyChannels_loop :: "string list \<Rightarrow> NotifyChannels \<Rightarrow> NotifyChannels" where
  "NewNotifyChannels_loop [] nc = nc"
| "NewNotifyChannels_loop (ch # chs) nc = NewNotifyChannels_loop chs (go_set ch True nc)"

definition NewNotifyChannels :: "string list \<Rightarrow> NotifyChannels" where
  "NewNotifyChannels channels = NewNotifyChannels_loop channels []"

fun channels_merge :: "(bool \<Rightarrow> bool \<Rightarrow> bool) \<Rightarrow> (string \<times> bool) list \<Rightarrow> NotifyChannels \<Rightarrow> NotifyChannels" where
  "channels_merge f [] nc = nc"
| "channels_merge f ((k, v) # other) nc =
     (case go_get nc k of
        Some curV \<Rightarrow> channels_merge f other (go_set k (f curV v) nc)
      | None \<Rightarrow> channels_merge f other (go_set k v nc))"

definition NotifyChannels_OrMerge :: "NotifyChannels \<Rightarrow> NotifyChannels \<Rightarrow> NotifyChannels" where
  "NotifyChannels_OrMerge nc other = channels_merge (\<or>) other nc"

definition NotifyChannels_AndMerge :: "NotifyChannels \<Rightarrow> NotifyChannels \<Rightarrow> NotifyChannels" where
  "NotifyChannels_AndMerge nc other = channels_merge (\<and>) other nc"

subsection \<open>NotifyTarget\<close>

record NotifyTarget =
  nt_userMap :: "(int, NotifyChannels) go_map"
  nt_webhooks :: "(string, Webhook) go_map"
  nt_callbacks :: "(string, unit) go_map"

definition NewNotifyTarget :: NotifyTarget where
  "NewNotifyTarget = \<lparr>nt_userMap = [], nt_webhooks = [], nt_callbacks = []\<rparr>"

fun users_merge :: "(NotifyChannels \<Rightarrow> NotifyChannels \<Rightarrow> NotifyChannels) \<Rightarrow> (int \<times> NotifyChannels) list \<Rightarrow>
    (int, NotifyChannels) go_map \<Rightarrow> (int, NotifyChannels) go_map" where
  "users_merge f [] m = m"
| "users_merge f ((k, v) # other) m =
     (case go_get m k of
        Some curV \<Rightarrow> users_merge f other (go_set k (f curV v) m)
      | None \<Rightarrow> users_merge f other (go_set k v m))"

definition set_all :: "('k \<times> 'v) list \<Rightarrow> ('k, 'v) go_map \<Rightarrow> ('k, 'v) go_map" where
  "set_all other m = fold (\<lambda>(k, v). go_set k v) other m"

definition target_merge :: "(NotifyChannels \<Rightarrow> NotifyChannels \<Rightarrow> NotifyChannels) \<Rightarrow> NotifyTarget \<Rightarrow>
    NotifyTarget option \<Rightarrow> NotifyTarget" where
  "target_merge f s other =
     (case other of None \<Rightarrow> s
      | Some t \<Rightarrow> \<lparr>nt_userMap = users_merge f (nt_userMap t) (nt_userMap s),
                  nt_webhooks = set_all (nt_webhooks t) (nt_webhooks s),
                  nt_callbacks = set_all (nt_callbacks t) (nt_callbacks s)\<rparr>)"

definition NotifyTarget_OrMerge :: "NotifyTarget \<Rightarrow> NotifyTarget option \<Rightarrow> NotifyTarget" where
  "NotifyTarget_OrMerge s other = target_merge NotifyChannels_OrMerge s other"

definition NotifyTarget_AndMerge :: "NotifyTarget \<Rightarrow> NotifyTarget option \<Rightarrow> NotifyTarget" where
  "NotifyTarget_AndMerge s other = target_merge NotifyChannels_AndMerge s other"

text \<open>The answer per channel. The outer and the inner loop range over maps.\<close>

fun add_channels :: "int \<Rightarrow> (string \<times> bool) list \<Rightarrow> (string, int list) go_map \<Rightarrow> (string, int list) go_map" where
  "add_channels uid [] m = m"
| "add_channels uid ((ch, send) # nc) m =
     add_channels uid nc (if send then go_set ch ((case go_get m ch of None \<Rightarrow> [] | Some us \<Rightarrow> us) @ [uid]) m
                          else m)"

definition ToChannelUserMap :: "(int \<times> NotifyChannels) range_order \<Rightarrow> NotifyTarget \<Rightarrow> (string, int list) go_map" where
  "ToChannelUserMap ord s = fold (\<lambda>(uid, nc). add_channels uid nc) (ord (nt_userMap s)) []"

text \<open>The loops behind the next two lists only collect, so the order of the range shows in the order
  of the list alone; the lists follow the association lists.\<close>

definition ToCallbackList :: "NotifyTarget \<Rightarrow> string list" where
  "ToCallbackList s = map fst (nt_callbacks s)"

definition ToWebhookList :: "NotifyTarget \<Rightarrow> Webhook list" where
  "ToWebhookList s = map snd (nt_webhooks s)"

subsection \<open>Look-ups after a merge\<close>

definition combine :: "('a \<Rightarrow> 'a \<Rightarrow> 'a) \<Rightarrow> 'a option \<Rightarrow> 'a option \<Rightarrow> 'a option" where
  "combine f x y = (case x of None \<Rightarrow> y | Some a \<Rightarrow> (case y of None \<Rightarrow> x | Some b \<Rightarrow> Some (f a b)))"

lemma NewNotifyChannels_loop_get:
  "go_get (NewNotifyChannels_loop chs nc) ch = (if ch \<in> set chs then Some True else go_get nc ch)"
  by (induction chs arbitrary: nc) auto

lemma NewNotifyChannels_get: "go_get (NewNotifyChannels chs) ch = (if ch \<in> set chs then Some True else None)"
  by (simp add: NewNotifyChannels_def NewNotifyChannels_loop_get)

lemma NewNotifyChannels_loop_wf: "go_wf nc \<Longrightarrow> go_wf (NewNotifyChannels_loop chs nc)"
  by (induction chs arbitrary: nc) (auto intro: gm.wf_set)

lemma NewNotifyChannels_wf: "go_wf (NewNotifyChannels chs)"
  by (simp add: NewNotifyChannels_def NewNotifyChannels_loop_wf)

lemma channels_merge_get:
  "distinct (map fst other) \<Longrightarrow> go_get (channels_merge f other nc) k = combine f (go_get nc k) (go_get other k)"
proof (induction other arbitrary: nc)
  case Nil
  then show ?case by (simp add: combine_def split: option.split)
next
  case (Cons p other)
  obtain k' v where p: "p = (k', v)" by (cases p)
  have n: "k = k' \<Longrightarrow> go_get other k = None" using Cons.prems p by (auto simp: map_of_eq_None_iff)
  show ?case using Cons n p by (cases "go_get nc k'") (auto simp: combine_def split: option.split)
qed

lemma users_merge_get:
  "distinct (map fst other) \<Longrightarrow> go_get (users_merge f other m) k = combine f (go_get m k) (go_get other k)"
proof (induction other arbitrary: m)
  case Nil
  then show ?case by (simp add: combine_def split: option.split)
next
  case (Cons p other)
  obtain k' v where p: "p = (k', v)" by (cases p)
  have n: "k = k' \<Longrightarrow> go_get other k = None" using Cons.prems p by (auto simp: map_of_eq_None_iff)
  show ?case using Cons n p by (cases "go_get m k'") (auto simp: combine_def split: option.split)
qed

lemma users_merge_wf: "go_wf m \<Longrightarrow> go_wf (users_merge f other m)"
  by (induction f other m rule: users_merge.induct) (auto intro: gm.wf_set split: option.split)

lemma channels_merge_wf: "go_wf m \<Longrightarrow> go_wf (channels_merge f other m)"
  by (induction f other m rule: channels_merge.induct) (auto intro: gm.wf_set split: option.split)

lemma set_all_get:
  "distinct (map fst other) \<Longrightarrow> go_get (set_all other m) k =
     (case go_get other k of None \<Rightarrow> go_get m k | Some v \<Rightarrow> Some v)"
proof (induction other arbitrary: m)
  case (Cons p other)
  obtain k' v where p: "p = (k', v)" by (cases p)
  have n: "k = k' \<Longrightarrow> go_get other k = None" using Cons.prems p by (auto simp: map_of_eq_None_iff)
  show ?case using Cons n p by (auto simp: set_all_def split: option.split)
qed (simp add: set_all_def)

lemma set_all_wf: "go_wf m \<Longrightarrow> go_wf (set_all other m)"
  by (induction other arbitrary: m) (auto simp: set_all_def intro: gm.wf_set)

text \<open>A combining operation that is associative, commutative and idempotent makes the merge of
  channel maps the same up to the order and the repetition of the answers.\<close>

locale channel_merge =
  fixes f :: "bool \<Rightarrow> bool \<Rightarrow> bool" and merge :: "NotifyChannels \<Rightarrow> NotifyChannels \<Rightarrow> NotifyChannels"
  assumes f_assoc: "f (f a b) c = f a (f b c)" and f_comm: "f a b = f b a" and f_idem: "f a a = a"
    and merge_get: "go_wf other \<Longrightarrow> go_get (merge nc other) k = combine f (go_get nc k) (go_get other k)"
    and merge_wf: "go_wf nc \<Longrightarrow> go_wf (merge nc other)"
begin

lemma merge_comm: "go_wf a \<Longrightarrow> go_wf b \<Longrightarrow> go_get (merge a b) k = go_get (merge b a) k"
  by (simp add: merge_get combine_def f_comm split: option.split)

lemma merge_assoc: "go_wf a \<Longrightarrow> go_wf b \<Longrightarrow> go_wf c \<Longrightarrow>
    go_get (merge (merge a b) c) k = go_get (merge a (merge b c)) k"
  by (simp add: merge_get merge_wf combine_def f_assoc split: option.split)

lemma merge_idem: "go_wf a \<Longrightarrow> go_get (merge a a) k = go_get a k"
  by (simp add: merge_get combine_def f_idem split: option.split)

end

interpretation orm: channel_merge "(\<or>)" NotifyChannels_OrMerge
  by unfold_locales (auto simp: NotifyChannels_OrMerge_def channels_merge_get [folded go_wf_def] channels_merge_wf)

interpretation andm: channel_merge "(\<and>)" NotifyChannels_AndMerge
  by unfold_locales (auto simp: NotifyChannels_AndMerge_def channels_merge_get [folded go_wf_def] channels_merge_wf)

subsection \<open>The recipients of a channel\<close>

definition notified :: "NotifyTarget \<Rightarrow> int \<Rightarrow> string \<Rightarrow> bool" where
  "notified s uid ch \<longleftrightarrow> (\<exists>nc. go_get (nt_userMap s) uid = Some nc \<and> go_get nc ch = Some True)"

definition target_wf :: "NotifyTarget \<Rightarrow> bool" where
  "target_wf s \<longleftrightarrow> go_wf (nt_userMap s) \<and> (\<forall>uid nc. go_get (nt_userMap s) uid = Some nc \<longrightarrow> go_wf nc) \<and>
     go_wf (nt_webhooks s) \<and> go_wf (nt_callbacks s)"

definition recipients :: "(string, int list) go_map \<Rightarrow> string \<Rightarrow> int set" where
  "recipients m ch = (case go_get m ch of None \<Rightarrow> {} | Some us \<Rightarrow> set us)"

lemma add_channels_recipients:
  "distinct (map fst nc) \<Longrightarrow> recipients (add_channels uid nc m) ch =
     recipients m ch \<union> (if go_get nc ch = Some True then {uid} else {})"
proof (induction nc arbitrary: m)
  case (Cons p nc)
  obtain c s where p: "p = (c, s)" by (cases p)
  have n: "go_get nc c = None" using Cons.prems p by (auto simp: map_of_eq_None_iff)
  have step: "recipients (if s then go_set c ((case go_get m c of None \<Rightarrow> [] | Some us \<Rightarrow> us) @ [uid]) m else m) ch
      = recipients m ch \<union> (if s \<and> c = ch then {uid} else {})"
    by (auto simp: recipients_def split: option.split)
  show ?case using Cons n p by (auto simp: step)
qed simp

lemma fold_recipients:
  assumes "\<forall>(uid, nc) \<in> set us. distinct (map fst nc)"
  shows "recipients (fold (\<lambda>(uid, nc). add_channels uid nc) us m) ch =
    recipients m ch \<union> {uid. \<exists>nc. (uid, nc) \<in> set us \<and> go_get nc ch = Some True}"
  using assms
proof (induction us arbitrary: m)
  case (Cons p us)
  obtain uid nc where p: "p = (uid, nc)" by (cases p)
  show ?case using Cons p by (auto simp: add_channels_recipients)
qed simp

lemma ToChannelUserMap_recipients:
  assumes "target_wf s" "fair_order ord"
  shows "recipients (ToChannelUserMap ord s) ch = {uid. notified s uid ch}"
proof -
  have wf: "go_wf (nt_userMap s)" using assms(1) by (simp add: target_wf_def)
  have "\<forall>(uid, nc) \<in> set (ord (nt_userMap s)). distinct (map fst nc)"
    using assms go_get_entry [OF wf] by (auto simp: target_wf_def go_wf_def [symmetric])
  then show ?thesis using fold_recipients assms(2) go_get_entry [OF wf]
    by (auto simp: ToChannelUserMap_def notified_def recipients_def [of "[]"])
qed

lemma target_merge_wf:
  assumes "target_wf s" "target_wf t" and "\<And>a b. go_wf a \<Longrightarrow> go_wf b \<Longrightarrow> go_wf (f a b)"
  shows "target_wf (target_merge f s (Some t))"
proof -
  have "go_wf nc" if "combine f (go_get (nt_userMap s) uid) (go_get (nt_userMap t) uid) = Some nc" for uid nc
    using that assms by (auto simp: combine_def target_wf_def split: option.splits)
  then show ?thesis using assms(1,2)
    by (simp add: target_merge_def target_wf_def users_merge_wf set_all_wf users_merge_get [folded go_wf_def])
qed

lemma OrMerge_notified:
  assumes "target_wf s" "target_wf t"
  shows "notified (NotifyTarget_OrMerge s (Some t)) uid ch \<longleftrightarrow> notified s uid ch \<or> notified t uid ch"
proof -
  have d: "distinct (map fst (nt_userMap t))" using assms(2) by (simp add: target_wf_def go_wf_def)
  have g: "go_get (nt_userMap (NotifyTarget_OrMerge s (Some t))) uid =
      combine NotifyChannels_OrMerge (go_get (nt_userMap s) uid) (go_get (nt_userMap t) uid)"
    by (simp add: NotifyTarget_OrMerge_def target_merge_def users_merge_get [OF d])
  show ?thesis
  proof (cases "go_get (nt_userMap s) uid"; cases "go_get (nt_userMap t) uid")
    fix a b
    assume ab: "go_get (nt_userMap s) uid = Some a" "go_get (nt_userMap t) uid = Some b"
    then have "go_wf b" using assms(2) by (auto simp: target_wf_def)
    then show ?thesis using ab g
      by (auto simp: notified_def combine_def orm.merge_get split: option.splits)
  qed (use g in \<open>auto simp: notified_def combine_def\<close>)
qed

end
