(* ===== verification/Persist.thy ===== *)
theory Persist
  imports Alert_Models
begin

text \<open>
  Persisting an event (\<open>EventPersist\<close> in \<open>models/alert_his_event.go\<close>): every event is appended to
  the history table; the table of current alerts holds one row per firing hash. The statements on
  the two tables are the record \<open>db_ops\<close> over an abstract database; \<open>event_store\<close> states what they
  do to the rows, and \<open>tables\<close> is the pair of tables with statements that may fail at will.
\<close>

subsection \<open>Statements\<close>

record 'd db_ops =
  op_exists :: "string \<Rightarrow> 'd \<Rightarrow> string + bool"
  op_add_his :: "AlertHisEvent \<Rightarrow> 'd \<Rightarrow> 'd \<times> (string + int)"
  op_del_by_hash :: "string \<Rightarrow> 'd \<Rightarrow> 'd \<times> string option"
  op_add_cur :: "AlertCurEvent \<Rightarrow> 'd \<Rightarrow> 'd \<times> string option"

text \<open>The result: the database, the event (its identifier may have been set), and the error.\<close>

type_synonym 'd persist_result = "'d \<times> AlertCurEvent \<times> string option"

definition add_current :: "'d db_ops \<Rightarrow> string \<Rightarrow> int \<Rightarrow> AlertCurEvent \<Rightarrow> 'd \<Rightarrow> 'd persist_result" where
  "add_current ops msg hisId event d =
     (let event1 = event\<lparr>ev_Id := hisId\<rparr> in
      if ev_Id event1 > 0
      then (case op_add_cur ops event1 d of
              (d1, Some err) \<Rightarrow> (d1, event1, Some (msg @ err))
            | (d1, None) \<Rightarrow> (d1, event1, None))
      else (d, event1, None))"

definition EventPersist :: "'d db_ops \<Rightarrow> AlertCurEvent \<Rightarrow> 'd \<Rightarrow> 'd persist_result" where
  "EventPersist ops event d =
     (case op_exists ops (ev_Hash event) d of
        Inl err \<Rightarrow> (d, event, Some (''event_persist_check_exists_fail: '' @ err @ '' rule_id='' @
          Itoa (ev_RuleId event) @ '' hash='' @ ev_Hash event))
      | Inr has \<Rightarrow>
        (case op_add_his ops (ToHis event) d of
           (d1, Inl err) \<Rightarrow> (d1, event, Some (''add his event error:'' @ err))
         | (d1, Inr hisId) \<Rightarrow>
           if has then
             (case op_del_by_hash ops (ev_Hash event) d1 of
                (d2, Some err) \<Rightarrow> (d2, event, Some (''event_del_cur_fail: '' @ err @ '' hash='' @ ev_Hash event))
              | (d2, None) \<Rightarrow>
                  if \<not> ev_IsRecovered event then add_current ops ''add cur event err:'' hisId event d2
                  else (d2, event, None))
           else if ev_IsRecovered event then (d1, event, None)
           else add_current ops ''add cur event error:'' hisId event d1))"

subsection \<open>The contract of the statements\<close>

locale event_store =
  fixes ops :: "'d db_ops" and cur :: "'d \<Rightarrow> AlertCurEvent list" and his :: "'d \<Rightarrow> AlertHisEvent list"
  assumes exists_ok: "op_exists ops h d = Inr b \<Longrightarrow> b \<longleftrightarrow> (\<exists>e \<in> set (cur d). ev_Hash e = h)"
    and add_his_ok: "op_add_his ops x d = (d', Inr i) \<Longrightarrow>
      cur d' = cur d \<and> his d' = his d @ [x\<lparr>he_Id := i\<rparr>] \<and> i > 0"
    and add_his_fail: "op_add_his ops x d = (d', Inl err) \<Longrightarrow> cur d' = cur d \<and> his d' = his d"
    and del_ok: "op_del_by_hash ops h d = (d', None) \<Longrightarrow>
      cur d' = filter (\<lambda>e. ev_Hash e \<noteq> h) (cur d) \<and> his d' = his d"
    and del_fail: "op_del_by_hash ops h d = (d', Some err) \<Longrightarrow> cur d' = cur d \<and> his d' = his d"
    and add_cur_ok: "op_add_cur ops e d = (d', None) \<Longrightarrow> cur d' = cur d @ [e] \<and> his d' = his d"
    and add_cur_fail: "op_add_cur ops e d = (d', Some err) \<Longrightarrow> cur d' = cur d \<and> his d' = his d"
begin

lemma add_current_cases:
  assumes "add_current ops msg i e d = (d', e', r)" "i > 0"
  shows "e' = e\<lparr>ev_Id := i\<rparr>" "his d' = his d" "r = None \<Longrightarrow> cur d' = cur d @ [e']"
    "r \<noteq> None \<Longrightarrow> cur d' = cur d"
  using assms add_cur_ok add_cur_fail
  by (auto simp: add_current_def Let_def split: prod.splits option.splits)

text \<open>The effect of a successful persist.\<close>

lemma persist_ok:
  assumes "EventPersist ops e d = (d', e', None)"
  shows "\<exists>i. i > 0 \<and> his d' = his d @ [(ToHis e)\<lparr>he_Id := i\<rparr>] \<and>
    cur d' = filter (\<lambda>x. ev_Hash x \<noteq> ev_Hash e) (cur d) @ (if ev_IsRecovered e then [] else [e\<lparr>ev_Id := i\<rparr>])"
proof -
  obtain b where b: "op_exists ops (ev_Hash e) d = Inr b"
    using assms by (cases "op_exists ops (ev_Hash e) d") (auto simp: EventPersist_def)
  obtain d1 i where h: "op_add_his ops (ToHis e) d = (d1, Inr i)"
    using assms b by (cases "op_add_his ops (ToHis e) d"; cases "snd (op_add_his ops (ToHis e) d)")
      (auto simp: EventPersist_def)
  note H = add_his_ok [OF h]
  show ?thesis
  proof (cases b)
    case True
    obtain d2 where dl: "op_del_by_hash ops (ev_Hash e) d1 = (d2, None)"
      using assms b h True
      by (cases "op_del_by_hash ops (ev_Hash e) d1"; cases "snd (op_del_by_hash ops (ev_Hash e) d1)")
        (auto simp: EventPersist_def)
    show ?thesis
    proof (cases "ev_IsRecovered e")
      case True
      then show ?thesis using assms b h \<open>b\<close> dl H del_ok [OF dl] by (auto simp: EventPersist_def)
    next
      case False
      have a: "add_current ops ''add cur event err:'' i e d2 = (d', e', None)"
        using assms b h \<open>b\<close> dl False by (simp add: EventPersist_def)
      show ?thesis using add_current_cases [OF a] H del_ok [OF dl] False by auto
    qed
  next
    case False
    have none: "filter (\<lambda>x. ev_Hash x \<noteq> ev_Hash e) (cur d) = cur d"
      using exists_ok [OF b] False by (auto simp: filter_id_conv)
    show ?thesis
    proof (cases "ev_IsRecovered e")
      case True
      then show ?thesis using assms b h False H none by (auto simp: EventPersist_def)
    next
      case nr: False
      have a: "add_current ops ''add cur event error:'' i e d1 = (d', e', None)"
        using assms b h False nr by (simp add: EventPersist_def)
      show ?thesis using add_current_cases [OF a] H nr none by auto
    qed
  qed
qed

lemma persist_cur_subset:
  assumes "EventPersist ops e d = (d', e', r)"
  shows "cur d' = cur d \<or> cur d' = filter (\<lambda>x. ev_Hash x \<noteq> ev_Hash e) (cur d) \<or>
    (\<exists>i. cur d' = filter (\<lambda>x. ev_Hash x \<noteq> ev_Hash e) (cur d) @ [e\<lparr>ev_Id := i\<rparr>])"
proof (cases r)
  case None
  then obtain i where "cur d' = filter (\<lambda>x. ev_Hash x \<noteq> ev_Hash e) (cur d) @
      (if ev_IsRecovered e then [] else [e\<lparr>ev_Id := i\<rparr>])"
    using persist_ok [of e d d' e'] assms by auto
  then show ?thesis by (cases "ev_IsRecovered e") auto
next
  case (Some err)
  obtain d1 w where h: "op_add_his ops (ToHis e) d = (d1, w)" by fastforce
  show ?thesis
  proof (cases "op_exists ops (ev_Hash e) d"; cases w)
    fix b i
    assume 3: "op_exists ops (ev_Hash e) d = Inr b" "w = Inr i"
    have 4: "op_add_his ops (ToHis e) d = (d1, Inr i)" using h 3 by simp
    note H = add_his_ok [OF 4]
    show ?thesis
    proof (cases b)
      case True
      obtain d2 z where dl: "op_del_by_hash ops (ev_Hash e) d1 = (d2, z)" by fastforce
      show ?thesis
        using assms 3 4 True dl H Some del_ok [of "ev_Hash e" d1 d2] del_fail [of "ev_Hash e" d1 d2]
          add_current_cases(4) [of "''add cur event err:''" i e d2 d' e' r]
        by (cases z) (auto simp: EventPersist_def split: if_splits)
    next
      case False
      then show ?thesis
        using assms 3 4 H Some add_current_cases(4) [of "''add cur event error:''" i e d1 d' e' r]
        by (auto simp: EventPersist_def split: if_splits)
    qed
  qed (use assms h add_his_fail [of "ToHis e" d d1] in \<open>auto simp: EventPersist_def\<close>)
qed

definition one_per_hash :: "'d \<Rightarrow> bool" where
  "one_per_hash d \<longleftrightarrow> distinct (map ev_Hash (cur d))"

lemma persist_one_per_hash:
  assumes "EventPersist ops e d = (d', e', r)" "one_per_hash d"
  shows "one_per_hash d'"
  using persist_cur_subset [OF assms(1)] assms(2)
  by (auto simp: one_per_hash_def distinct_map_filter)

end

subsection \<open>The tables\<close>

record tables =
  tb_cur :: "AlertCurEvent list"
  tb_his :: "AlertHisEvent list"
  tb_next_id :: nat

text \<open>Which statements fail: each is asked with the tables it runs on.\<close>

record faults =
  f_exists :: "tables \<Rightarrow> bool"
  f_add_his :: "tables \<Rightarrow> bool"
  f_del :: "tables \<Rightarrow> bool"
  f_add_cur :: "tables \<Rightarrow> bool"

definition AlertCurEventExists :: "faults \<Rightarrow> string \<Rightarrow> tables \<Rightarrow> string + bool" where
  "AlertCurEventExists F h t =
     (if f_exists F t then Inl ''db'' else Inr (\<exists>e \<in> set (tb_cur t). ev_Hash e = h))"

definition AlertHisEvent_Add :: "faults \<Rightarrow> AlertHisEvent \<Rightarrow> tables \<Rightarrow> tables \<times> (string + int)" where
  "AlertHisEvent_Add F e t =
     (if f_add_his F t then (t, Inl ''db'')
      else (let i = int (Suc (tb_next_id t))
            in (t\<lparr>tb_his := tb_his t @ [e\<lparr>he_Id := i\<rparr>], tb_next_id := Suc (tb_next_id t)\<rparr>, Inr i)))"

definition AlertCurEventDelByHash :: "faults \<Rightarrow> string \<Rightarrow> tables \<Rightarrow> tables \<times> string option" where
  "AlertCurEventDelByHash F h t =
     (if f_del F t then (t, Some ''db'')
      else (t\<lparr>tb_cur := filter (\<lambda>e. ev_Hash e \<noteq> h) (tb_cur t)\<rparr>, None))"

text \<open>
  The table keeps the whole record. In the database the decoded lists and maps have no column of their own: a reader
  fills them again from the columns they were encoded to (\<open>AlertCurEvent_DB2FE\<close>).
\<close>

definition AlertCurEvent_Add :: "faults \<Rightarrow> AlertCurEvent \<Rightarrow> tables \<Rightarrow> tables \<times> string option" where
  "AlertCurEvent_Add F e t =
     (if f_add_cur F t then (t, Some ''db'') else (t\<lparr>tb_cur := tb_cur t @ [e]\<rparr>, None))"

definition table_ops :: "faults \<Rightarrow> tables db_ops" where
  "table_ops F = \<lparr>op_exists = AlertCurEventExists F, op_add_his = AlertHisEvent_Add F,
     op_del_by_hash = AlertCurEventDelByHash F, op_add_cur = AlertCurEvent_Add F\<rparr>"

interpretation tb: event_store "table_ops F" tb_cur tb_his for F
  by unfold_locales
    (auto simp: table_ops_def AlertCurEventExists_def AlertHisEvent_Add_def AlertCurEventDelByHash_def
      AlertCurEvent_Add_def Let_def split: if_splits)

end
