(* ===== verification/Dispatch.thy ===== *)
theory Dispatch
  imports Senders Notify_Target Persist
begin

text \<open>
  \<open>alert/dispatch\<close>: from an event taken off the queue to the requests that leave the program. The
  consumer renders the event's texts, persists it and dispatches it; the dispatcher computes who is
  to be notified (\<open>NotifyTarget\<close>), starts one send job for the event, and repeats this for every
  subscription that matches a copy of the event. A job is a value: the goroutine that runs it is
  \<open>Send\<close>. The hook before sending is a field of the dispatcher, as in the code.
\<close>

subsection \<open>The dispatcher\<close>

datatype sender = DingtalkSender "tpl option" | WecomSender "tpl option" | FeishuSender "tpl option"
  | FeishuCardSender "tpl option" | EmailSender "tpl option" "tpl option" SMTPConfig
  | MmSender "tpl option" | TelegramSender "tpl option"
  | ExtraSender "MessageContext \<Rightarrow> request list"

record dispatch =
  di_env :: env
  di_nlib :: nlib
  di_users :: "(int, User) cache"
  di_groups :: "(int, UserGroup) cache"
  di_subs :: "(int, AlertSubscribe list) cache"
  di_webhooks :: "Webhook list"
  di_smtp :: SMTPConfig
  di_script :: NotifyScript
  di_ibex :: Ibex
  di_Senders :: "(string, sender) go_map"
  di_tpls :: "(string, tpl) go_map"
  di_ExtraSenders :: "(string, sender) go_map"
  di_BeforeSenderHook :: "AlertCurEvent \<Rightarrow> bool"

definition NewSender :: "string \<Rightarrow> (string, tpl) go_map \<Rightarrow> SMTPConfig \<Rightarrow> sender option" where
  "NewSender key tpls smtp =
     (if key = Dingtalk then Some (DingtalkSender (go_get tpls Dingtalk))
      else if key = Wecom then Some (WecomSender (go_get tpls Wecom))
      else if key = Feishu then Some (FeishuSender (go_get tpls Feishu))
      else if key = FeishuCard then Some (FeishuCardSender (go_get tpls FeishuCard))
      else if key = Email then Some (EmailSender (go_get tpls EmailSubject) (go_get tpls Email) smtp)
      else if key = Mm then Some (MmSender (go_get tpls Mm))
      else if key = Telegram then Some (TelegramSender (go_get tpls Telegram))
      else None)"

definition builtin_senders :: "(string, tpl) go_map \<Rightarrow> SMTPConfig \<Rightarrow> (string, sender) go_map" where
  "builtin_senders tpls smtp =
     List.map_filter (\<lambda>k. map_option (Pair k) (NewSender k tpls smtp))
       [Email, Dingtalk, Wecom, Feishu, Mm, Telegram, FeishuCard]"

text \<open>\<open>ListTpls\<close> failing leaves the senders as they are.\<close>

definition relaodTpls :: "(string, tpl) go_map option \<Rightarrow> dispatch \<Rightarrow> dispatch" where
  "relaodTpls tmpTpls D =
     (case tmpTpls of None \<Rightarrow> D
      | Some tpls \<Rightarrow> D\<lparr>di_tpls := tpls,
          di_Senders := set_all (di_ExtraSenders D) (builtin_senders tpls (di_smtp D))\<rparr>)"

subsection \<open>Who is notified\<close>

definition group_ids :: "string list \<Rightarrow> int list" where
  "group_ids gs = List.map_filter ParseInt gs"

definition NotifyGroupDispatch :: "dispatch \<Rightarrow> AlertCurEvent \<Rightarrow> NotifyTarget" where
  "NotifyGroupDispatch D event =
     (let groups = GetByUserGroupIds (di_groups D) (group_ids (ev_NotifyGroupsJSON event));
          uids = concat (map ug_UserIds groups)
      in NewNotifyTarget\<lparr>nt_userMap :=
           fold (\<lambda>uid m. go_set uid (NewNotifyChannels (ev_NotifyChannelsJSON event)) m) uids []\<rparr>)"

definition GlobalWebhookDispatch :: "dispatch \<Rightarrow> NotifyTarget" where
  "GlobalWebhookDispatch D =
     NewNotifyTarget\<lparr>nt_webhooks := fold (\<lambda>w m. go_set (wh_Url w) w m) (filter wh_Enable (di_webhooks D)) []\<rparr>"

definition EventCallbacksDispatch :: "AlertCurEvent \<Rightarrow> NotifyTarget \<Rightarrow> NotifyTarget" where
  "EventCallbacksDispatch event prev =
     prev\<lparr>nt_callbacks := fold (\<lambda>c m. go_set c () m) (filter (\<lambda>c. c \<noteq> '''') (ev_CallbacksJSON event))
            (nt_callbacks prev)\<rparr>"

definition fillUsers :: "int range_order \<Rightarrow> dispatch \<Rightarrow> AlertCurEvent \<Rightarrow> AlertCurEvent" where
  "fillUsers ord D ce =
     (let groups = GetByUserGroupIds (di_groups D) (group_ids (ev_NotifyGroupsJSON ce));
          uids = fold (\<lambda>uid m. go_set uid () m) (concat (map ug_UserIds groups)) []
      in ce\<lparr>ev_NotifyGroupsObj := groups, ev_NotifyUsersObj := GetByUserIds (di_users D) (ord (go_keys uids))\<rparr>)"

text \<open>The handlers in their order. The callbacks handler changes the target in place and returns
  nothing to merge; there are no interceptors.\<close>

definition notify_target :: "dispatch \<Rightarrow> AlertCurEvent \<Rightarrow> bool \<Rightarrow> NotifyTarget" where
  "notify_target D event isSubscribe =
     (let t1 = NotifyTarget_OrMerge NewNotifyTarget (Some (NotifyGroupDispatch D event));
          t2 = (if isSubscribe then t1 else NotifyTarget_OrMerge t1 (Some (GlobalWebhookDispatch D)))
      in NotifyTarget_OrMerge (EventCallbacksDispatch event t2) None)"

record job =
  jb_rule :: AlertRule
  jb_event :: AlertCurEvent
  jb_target :: NotifyTarget

text \<open>\<open>HandleEventNotify\<close> without the subscriptions: the event with its users and the send job, if
  the rule is still known.\<close>

definition notify_event :: "int range_order \<Rightarrow> dispatch \<Rightarrow> AlertCurEvent \<Rightarrow> bool \<Rightarrow> AlertCurEvent \<times> job list" where
  "notify_event ord D event isSubscribe =
     (case env_rule (di_env D) (ev_RuleId event) of None \<Rightarrow> (event, [])
      | Some rule \<Rightarrow>
        (let event1 = fillUsers ord D event
         in (event1, [\<lparr>jb_rule = rule, jb_event = event1, jb_target = notify_target D event1 isSubscribe\<rparr>])))"

fun sub_severity :: "int list \<Rightarrow> int \<Rightarrow> bool" where
  "sub_severity [] sev = False"
| "sub_severity (s # ss) sev = (if s = sev \<or> s = 0 then True else sub_severity ss sev)"

definition handleSub :: "int range_order \<Rightarrow> dispatch \<Rightarrow> AlertSubscribe \<Rightarrow> AlertCurEvent \<Rightarrow> job list res" where
  "handleSub ord D sub event =
     (if IsDisabled sub then Inr []
      else if \<not> MatchCluster sub (ev_DatasourceId event) then Inr []
      else if \<not> MatchProd sub (ev_RuleProd event) then Inr []
      else res_bind (MatchTags (ev_TagsMap event) (as_ITags sub)) (\<lambda>tags_ok.
      if \<not> tags_ok then Inr []
      else res_bind (MatchGroupsName (ev_GroupName event) (as_IBusiGroups sub)) (\<lambda>groups_ok.
      if \<not> groups_ok then Inr []
      else if as_ForDuration sub > ev_TriggerTime event - ev_FirstTriggerTime event then Inr []
      else if length (as_SeveritiesJson sub) \<noteq> 0 \<and> \<not> sub_severity (as_SeveritiesJson sub) (ev_Severity event)
      then Inr []
      else Inr (snd (notify_event ord D ((ModifyEvent sub event)\<lparr>ev_SubRuleId := as_Id sub\<rparr>) True)))))"

fun handle_sub_loop :: "int range_order \<Rightarrow> dispatch \<Rightarrow> AlertSubscribe list \<Rightarrow> AlertCurEvent \<Rightarrow> job list res" where
  "handle_sub_loop ord D [] event = Inr []"
| "handle_sub_loop ord D (sub # subs) event =
     res_bind (handleSub ord D sub event) (\<lambda>js.
     res_bind (handle_sub_loop ord D subs event) (\<lambda>js'. Inr (js @ js')))"

definition handleSubs :: "int range_order \<Rightarrow> dispatch \<Rightarrow> AlertCurEvent \<Rightarrow> job list res" where
  "handleSubs ord D event =
     (let rule_subs = (case cache_Get (di_subs D) (ev_RuleId event) of None \<Rightarrow> [] | Some subs \<Rightarrow> subs);
          global_subs = (case cache_Get (di_subs D) 0 of None \<Rightarrow> [] | Some subs \<Rightarrow> subs)
      in handle_sub_loop ord D (rule_subs @ global_subs) event)"

definition HandleEventNotify ::
    "int range_order \<Rightarrow> dispatch \<Rightarrow> AlertCurEvent \<Rightarrow> bool \<Rightarrow> (AlertCurEvent \<times> job list) res" where
  "HandleEventNotify ord D event isSubscribe =
     (case env_rule (di_env D) (ev_RuleId event) of None \<Rightarrow> Inr (event, [])
      | Some rule \<Rightarrow>
        (let (event1, js) = notify_event ord D event isSubscribe
         in if \<not> isSubscribe then res_bind (handleSubs ord D event1) (\<lambda>js'. Inr (event1, js @ js'))
            else Inr (event1, js)))"

subsection \<open>Sending\<close>

definition BuildMessageContext :: "AlertRule \<Rightarrow> AlertCurEvent list \<Rightarrow> int list \<Rightarrow> (int, User) cache \<Rightarrow> MessageContext" where
  "BuildMessageContext rule events uids users =
     \<lparr>mc_Users = GetByUserIds users uids, mc_Rule = rule, mc_Events = events\<rparr>"

fun sender_Send :: "nlib \<Rightarrow> sender \<Rightarrow> MessageContext \<Rightarrow> card \<Rightarrow> card \<times> request list" where
  "sender_Send N (DingtalkSender t) ctx c = (c, DingtalkSender_Send N t ctx)"
| "sender_Send N (WecomSender t) ctx c = (c, WecomSender_Send N t ctx)"
| "sender_Send N (FeishuSender t) ctx c = (c, FeishuSender_Send N t ctx)"
| "sender_Send N (FeishuCardSender t) ctx c = FeishuCardSender_Send N t ctx c"
| "sender_Send N (EmailSender st t smtp) ctx c = (c, EmailSender_Send st t smtp ctx)"
| "sender_Send N (MmSender t) ctx c = (c, MmSender_Send N t ctx)"
| "sender_Send N (TelegramSender t) ctx c = (c, TelegramSender_Send N t ctx)"
| "sender_Send N (ExtraSender f) ctx c = (c, f ctx)"

fun send_channels :: "dispatch \<Rightarrow> AlertRule \<Rightarrow> AlertCurEvent \<Rightarrow> (string \<times> int list) list \<Rightarrow> card \<Rightarrow> card \<times> request list" where
  "send_channels D rule event [] c = (c, [])"
| "send_channels D rule event ((channel, uids) # chs) c =
     (case go_get (di_Senders D) channel of None \<Rightarrow> send_channels D rule event chs c
      | Some s \<Rightarrow>
        (let (c1, rs) = sender_Send (di_nlib D) s (BuildMessageContext rule [event] uids (di_users D)) c;
             (c2, rs') = send_channels D rule event chs c1
         in (c2, rs @ rs')))"

definition genNoticeBytes :: "dispatch \<Rightarrow> AlertCurEvent \<Rightarrow> string" where
  "genNoticeBytes D event =
     nl_notice (di_nlib D) event
       (map (\<lambda>(filename, t). (filename, case t event of Inl err \<Rightarrow> err | Inr body \<Rightarrow> body)) (di_tpls D))"

definition GetNotifyScript :: "NotifyScript \<Rightarrow> NotifyScript" where
  "GetNotifyScript s = (if ns_Timeout s = 0 then s\<lparr>ns_Timeout := 10\<rparr> else s)"

definition Send :: "dispatch \<Rightarrow> (int \<times> NotifyChannels) range_order \<Rightarrow> (string \<times> int list) range_order \<Rightarrow> int \<Rightarrow>
    job \<Rightarrow> card \<Rightarrow> card \<times> request list" where
  "Send D ordU ordC now j c =
     (let event = jb_event j;
          (c1, rs) = (if di_BeforeSenderHook D event
             then send_channels D (jb_rule j) event (ordC (ToChannelUserMap ordU (jb_target j))) c else (c, []));
          cbs = SendCallbacks (di_nlib D) now (di_ibex D) (ToCallbackList (jb_target j)) event;
          whs = SendWebhooks (di_nlib D) (ToWebhookList (jb_target j)) event;
          plugin = MayPluginNotify (di_nlib D) (genNoticeBytes D event) (GetNotifyScript (di_script D))
      in (c1, rs @ cbs @ whs @ plugin))"

subsection \<open>The consumer\<close>

definition persist :: "bool \<Rightarrow> tables db_ops \<Rightarrow> lib \<Rightarrow> AlertCurEvent \<Rightarrow> tables \<Rightarrow> AlertCurEvent \<times> tables \<times> request list" where
  "persist isCenter ops L event t =
     (if ev_Status event \<noteq> 0 then (event, t, [])
      else if \<not> isCenter
      then (let e1 = AlertCurEvent_DB2FE L event in (e1, t, [PostEvent ''/v1/n9e/event-persist'' e1]))
      else (case EventPersist ops event t of (t1, e1, _) \<Rightarrow> (e1, t1, [])))"

definition parse_fields :: "lib \<Rightarrow> AlertCurEvent \<Rightarrow> AlertCurEvent" where
  "parse_fields L e =
     (let e1 = (case ParseRule L ''rule_name'' e of
                  Inl err \<Rightarrow> e\<lparr>ev_RuleName := ''failed to parse rule name: '' @ err\<rparr> | Inr x \<Rightarrow> x);
          e2 = (case ParseRule L ''rule_note'' e1 of
                  Inl err \<Rightarrow> e1\<lparr>ev_RuleNote := ''failed to parse rule note: '' @ err\<rparr> | Inr x \<Rightarrow> x)
      in (case ParseRule L ''annotations'' e2 of
            Inl err \<Rightarrow> e2\<lparr>ev_Annotations := ''failed to parse rule note: '' @ err\<rparr> | Inr x \<Rightarrow> x))"

definition consumeOne :: "bool \<Rightarrow> tables db_ops \<Rightarrow> int range_order \<Rightarrow> dispatch \<Rightarrow> AlertCurEvent \<Rightarrow> tables \<Rightarrow>
    (AlertCurEvent \<times> tables \<times> request list \<times> job list) res" where
  "consumeOne isCenter ops ord D event t =
     (let e1 = parse_fields (env_lib (di_env D)) event;
          (e2, t1, rs) = persist isCenter ops (env_lib (di_env D)) e1 t
      in if ev_IsRecovered e2 \<and> ev_NotifyRecovered e2 = 0 then Inr (e2, t1, rs, [])
         else res_bind (HandleEventNotify ord D e2 False) (\<lambda>(e3, js). Inr (e3, t1, rs, js)))"

end
