(* ===== verification/Dispatch_Spec.thy ===== *)
theory Dispatch_Spec
  imports Dispatch Samples
begin

text \<open>
  What the dispatcher promises: the recipients of an event are exactly the members of its notify
  groups, through exactly its channels; a subscription gets a job exactly when it matches, for a
  copy of the event that carries the subscription's own groups; persisting and dispatching a
  recovered event are independent.
\<close>

subsection \<open>Targets\<close>

lemma fold_go_set_const: "go_get (fold (\<lambda>k m. go_set k v m) ks m) x = (if x \<in> set ks then Some v else go_get m x)"
  by (induction ks arbitrary: m) auto

lemma fold_go_set_wf: "go_wf m \<Longrightarrow> go_wf (fold (\<lambda>k m. go_set (f k) (g k) m) ks m)"
  by (induction ks arbitrary: m) (auto intro: gm.wf_set)

lemma NewNotifyTarget_wf: "target_wf NewNotifyTarget"
  by (simp add: NewNotifyTarget_def target_wf_def)

lemma NotifyGroupDispatch_wf: "target_wf (NotifyGroupDispatch D e)"
  using fold_go_set_wf [of "[]" "\<lambda>uid. uid" "\<lambda>uid. NewNotifyChannels (ev_NotifyChannelsJSON e)"]
  by (auto simp: NotifyGroupDispatch_def Let_def target_wf_def NewNotifyTarget_def fold_go_set_const
      NewNotifyChannels_wf split: if_splits)

lemma GlobalWebhookDispatch_wf: "target_wf (GlobalWebhookDispatch D)"
  using fold_go_set_wf [of "[]" wh_Url "\<lambda>w. w"]
  by (simp add: GlobalWebhookDispatch_def target_wf_def NewNotifyTarget_def)

lemma EventCallbacksDispatch_wf: "target_wf t \<Longrightarrow> target_wf (EventCallbacksDispatch e t)"
  using fold_go_set_wf [of "nt_callbacks t" "\<lambda>c. c" "\<lambda>_. ()"]
  by (simp add: EventCallbacksDispatch_def target_wf_def)

lemma OrMerge_wf: "target_wf s \<Longrightarrow> target_wf t \<Longrightarrow> target_wf (NotifyTarget_OrMerge s (Some t))"
  unfolding NotifyTarget_OrMerge_def by (rule target_merge_wf) (auto intro: orm.merge_wf)

lemma OrMerge_None [simp]: "NotifyTarget_OrMerge s None = s"
  by (simp add: NotifyTarget_OrMerge_def target_merge_def)

lemma OrMerge_fields:
  assumes "target_wf t"
  shows "go_get (nt_webhooks (NotifyTarget_OrMerge s (Some t))) u =
      (case go_get (nt_webhooks t) u of None \<Rightarrow> go_get (nt_webhooks s) u | Some w \<Rightarrow> Some w)"
    "go_get (nt_callbacks (NotifyTarget_OrMerge s (Some t))) u =
      (case go_get (nt_callbacks t) u of None \<Rightarrow> go_get (nt_callbacks s) u | Some w \<Rightarrow> Some w)"
  using assms by (simp_all add: NotifyTarget_OrMerge_def target_merge_def set_all_get target_wf_def go_wf_def)

lemma OrMerge_parts [simp]:
  "nt_callbacks (NotifyTarget_OrMerge s (Some t)) = set_all (nt_callbacks t) (nt_callbacks s)"
  "nt_webhooks (NotifyTarget_OrMerge s (Some t)) = set_all (nt_webhooks t) (nt_webhooks s)"
  by (simp_all add: NotifyTarget_OrMerge_def target_merge_def)

lemma set_all_Nil [simp]: "set_all [] m = m"
  by (simp add: set_all_def)

lemma handler_parts [simp]:
  "nt_callbacks NewNotifyTarget = []" "nt_webhooks NewNotifyTarget = []"
  "nt_callbacks (NotifyGroupDispatch D e) = []" "nt_webhooks (NotifyGroupDispatch D e) = []"
  "nt_callbacks (GlobalWebhookDispatch D) = []"
  "nt_callbacks (EventCallbacksDispatch e t) =
     fold (\<lambda>c m. go_set c () m) (filter (\<lambda>c. c \<noteq> '''') (ev_CallbacksJSON e)) (nt_callbacks t)"
  "nt_webhooks (EventCallbacksDispatch e t) = nt_webhooks t"
  by (simp_all add: NewNotifyTarget_def NotifyGroupDispatch_def GlobalWebhookDispatch_def
      EventCallbacksDispatch_def Let_def)

lemma notify_target_wf: "target_wf (notify_target D e sub)"
  unfolding notify_target_def Let_def OrMerge_None
  by (auto intro!: EventCallbacksDispatch_wf OrMerge_wf NotifyGroupDispatch_wf GlobalWebhookDispatch_wf
      NewNotifyTarget_wf)

text \<open>The members of the groups an event names.\<close>

definition group_members :: "dispatch \<Rightarrow> AlertCurEvent \<Rightarrow> int set" where
  "group_members D e = {uid. \<exists>gid g. gid \<in> set (group_ids (ev_NotifyGroupsJSON e)) \<and>
     cache_Get (di_groups D) gid = Some g \<and> uid \<in> set (ug_UserIds g)}"

lemma dispatch_groups:
  "(\<exists>g \<in> set (GetByUserGroupIds (di_groups D) (group_ids (ev_NotifyGroupsJSON e))). uid \<in> set (ug_UserIds g))
     \<longleftrightarrow> uid \<in> group_members D e"
  by (auto simp: GetByUserGroupIds_def get_by_ids_set group_members_def cache_Get_def)

lemma NotifyGroupDispatch_notified:
  "notified (NotifyGroupDispatch D e) uid ch \<longleftrightarrow> uid \<in> group_members D e \<and> ch \<in> set (ev_NotifyChannelsJSON e)"
  using dispatch_groups [of D e uid]
  by (auto simp: notified_def NotifyGroupDispatch_def Let_def NewNotifyTarget_def fold_go_set_const
      NewNotifyChannels_get)

lemma empty_notified: "nt_userMap t = [] \<Longrightarrow> \<not> notified t uid ch"
  by (simp add: notified_def)

lemma notify_target_notified:
  "notified (notify_target D e sub) uid ch \<longleftrightarrow> uid \<in> group_members D e \<and> ch \<in> set (ev_NotifyChannelsJSON e)"
proof -
  have cb: "notified (EventCallbacksDispatch e t) uid ch = notified t uid ch" for t
    by (simp add: notified_def EventCallbacksDispatch_def)
  have "\<not> notified NewNotifyTarget uid ch" "\<not> notified (GlobalWebhookDispatch D) uid ch"
    by (simp_all add: empty_notified NewNotifyTarget_def GlobalWebhookDispatch_def)
  then show ?thesis
    by (simp add: notify_target_def Let_def cb OrMerge_notified OrMerge_wf NotifyGroupDispatch_wf
        GlobalWebhookDispatch_wf NewNotifyTarget_wf NotifyGroupDispatch_notified)
qed

lemma notify_target_callbacks:
  "set (ToCallbackList (notify_target D e sub)) = {c \<in> set (ev_CallbacksJSON e). c \<noteq> ''''}"
proof -
  have dom: "set (ToCallbackList t) = {c. go_get (nt_callbacks t) c \<noteq> None}" for t
    by (auto simp: ToCallbackList_def map_of_eq_None_iff)
  have "nt_callbacks (notify_target D e sub) =
      fold (\<lambda>c m. go_set c () m) (filter (\<lambda>c. c \<noteq> '''') (ev_CallbacksJSON e)) []"
    by (simp add: notify_target_def Let_def)
  then show ?thesis unfolding dom by (simp add: fold_go_set_const)
qed

lemma notify_target_sub_webhooks: "ToWebhookList (notify_target D e True) = []"
  by (simp add: notify_target_def Let_def ToWebhookList_def)

lemma go_set_entries: "q \<in> set (go_set k v m) \<Longrightarrow> q = (k, v) \<or> q \<in> set m"
  by (induction m) (auto split: if_splits)

lemma webhook_entries: "(u, w) \<in> set (fold (\<lambda>w m. go_set (wh_Url w) w m) ws m) \<Longrightarrow> w \<in> set ws \<or> (u, w) \<in> set m"
  by (induction ws arbitrary: m) (auto dest: go_set_entries)

lemma set_all_values:
  "\<forall>p \<in> set other. P (snd p) \<Longrightarrow> \<forall>p \<in> set m. P (snd p) \<Longrightarrow> \<forall>p \<in> set (set_all other m). P (snd p)"
proof (induction other arbitrary: m)
  case (Cons p other)
  have upd: "\<forall>q \<in> set (go_set (fst p) (snd p) m). P (snd q)"
    using Cons.prems by (auto dest: go_set_entries)
  have eq: "set_all (p # other) m = set_all other (go_set (fst p) (snd p) m)"
    by (simp add: set_all_def case_prod_unfold)
  show ?case unfolding eq by (rule Cons.IH [OF _ upd]) (use Cons.prems in simp)
qed simp

lemma notify_target_webhooks: "w \<in> set (ToWebhookList (notify_target D e sub)) \<Longrightarrow> wh_Enable w \<and> w \<in> set (di_webhooks D)"
proof -
  assume w: "w \<in> set (ToWebhookList (notify_target D e sub))"
  have "\<forall>p \<in> set (nt_webhooks (GlobalWebhookDispatch D)). wh_Enable (snd p) \<and> snd p \<in> set (di_webhooks D)"
    by (auto simp: GlobalWebhookDispatch_def dest: webhook_entries)
  then have "\<forall>p \<in> set (set_all (nt_webhooks (GlobalWebhookDispatch D)) []). wh_Enable (snd p) \<and> snd p \<in> set (di_webhooks D)"
    by (rule set_all_values) simp
  then show ?thesis using w by (cases sub) (auto simp: notify_target_def Let_def ToWebhookList_def)
qed

subsection \<open>Subscriptions\<close>

lemma sub_severity_iff: "sub_severity ss sev \<longleftrightarrow> sev \<in> set ss \<or> 0 \<in> set ss"
  by (induction ss) auto

definition sub_ready :: "AlertSubscribe \<Rightarrow> bool" where
  "sub_ready s \<longleftrightarrow> (\<forall>f \<in> set (as_ITags s) \<union> set (as_IBusiGroups s). filter_ready f)"

text \<open>The declarative reading of the chain of early returns.\<close>

definition sub_matches :: "AlertSubscribe \<Rightarrow> AlertCurEvent \<Rightarrow> bool" where
  "sub_matches s e \<longleftrightarrow> as_Disabled s \<noteq> 1 \<and>
     (as_DatasourceIdsJson s = [] \<or> ev_DatasourceId e = 0 \<or>
        ev_DatasourceId e \<in> set (as_DatasourceIdsJson s) \<or> 0 \<in> set (as_DatasourceIdsJson s)) \<and>
     (as_Prod s = '''' \<or> as_Prod s = ev_RuleProd e) \<and>
     (\<forall>f \<in> set (as_ITags s). \<exists>v. go_get (ev_TagsMap e) (tf_Key f) = Some v \<and> filter_holds v f) \<and>
     (\<forall>f \<in> set (as_IBusiGroups s). filter_holds (ev_GroupName e) f) \<and>
     as_ForDuration s \<le> ev_TriggerTime e - ev_FirstTriggerTime e \<and>
     (as_SeveritiesJson s = [] \<or> ev_Severity e \<in> set (as_SeveritiesJson s) \<or> 0 \<in> set (as_SeveritiesJson s))"

definition sub_event :: "AlertSubscribe \<Rightarrow> AlertCurEvent \<Rightarrow> AlertCurEvent" where
  "sub_event s e = (ModifyEvent s e)\<lparr>ev_SubRuleId := as_Id s\<rparr>"

lemma handleSub_ready:
  assumes "sub_ready s"
  shows "handleSub ord D s e =
    Inr (if sub_matches s e then snd (notify_event ord D (sub_event s e) True) else [])"
proof -
  have t: "MatchTags (ev_TagsMap e) (as_ITags s) =
      Inr (\<forall>f \<in> set (as_ITags s). \<exists>v. go_get (ev_TagsMap e) (tf_Key f) = Some v \<and> filter_holds v f)"
    using assms by (intro MatchTags_ready) (auto simp: sub_ready_def)
  have g: "MatchGroupsName (ev_GroupName e) (as_IBusiGroups s) =
      Inr (\<forall>f \<in> set (as_IBusiGroups s). filter_holds (ev_GroupName e) f)"
    using assms by (intro MatchGroupsName_ready) (auto simp: sub_ready_def)
  have p: "MatchProd s (ev_RuleProd e) \<longleftrightarrow> as_Prod s = '''' \<or> as_Prod s = ev_RuleProd e"
    by (simp add: MatchProd_def)
  show ?thesis
    unfolding handleSub_def t g res_bind_simps IsDisabled_def MatchCluster_iff p sub_severity_iff
      sub_event_def [symmetric]
    by (simp add: sub_matches_def not_le) (smt (verit) linorder_not_less)
qed

lemma handle_sub_loop_ready:
  "\<forall>s \<in> set subs. sub_ready s \<Longrightarrow> handle_sub_loop ord D subs e =
     Inr (concat (map (\<lambda>s. snd (notify_event ord D (sub_event s e) True)) (filter (\<lambda>s. sub_matches s e) subs)))"
  by (induction subs) (auto simp: handleSub_ready)

definition subscriptions_of :: "dispatch \<Rightarrow> AlertCurEvent \<Rightarrow> AlertSubscribe list" where
  "subscriptions_of D e =
     (case cache_Get (di_subs D) (ev_RuleId e) of None \<Rightarrow> [] | Some ss \<Rightarrow> ss) @
     (case cache_Get (di_subs D) 0 of None \<Rightarrow> [] | Some ss \<Rightarrow> ss)"

definition subs_ready :: "dispatch \<Rightarrow> bool" where
  "subs_ready D \<longleftrightarrow> (\<forall>k ss. cache_Get (di_subs D) k = Some ss \<longrightarrow> (\<forall>s \<in> set ss. sub_ready s))"

lemma sub_event_simps [simp]:
  "ev_RuleId (sub_event s e) = ev_RuleId e" "ev_SubRuleId (sub_event s e) = as_Id s"
  "ev_NotifyGroupsJSON (sub_event s e) = Fields (as_UserGroupIds s)"
  "ev_Hash (sub_event s e) = ev_Hash e" "ev_IsRecovered (sub_event s e) = ev_IsRecovered e"
  by (simp_all add: sub_event_def ModifyEvent_def Let_def)

lemma fillUsers_frame [simp, frame]:
  "ev_RuleId (fillUsers ord D e) = ev_RuleId e" "ev_TagsMap (fillUsers ord D e) = ev_TagsMap e"
  "ev_NotifyGroupsJSON (fillUsers ord D e) = ev_NotifyGroupsJSON e"
  "ev_NotifyChannelsJSON (fillUsers ord D e) = ev_NotifyChannelsJSON e"
  "ev_CallbacksJSON (fillUsers ord D e) = ev_CallbacksJSON e" "ev_Hash (fillUsers ord D e) = ev_Hash e"
  "ev_SubRuleId (fillUsers ord D e) = ev_SubRuleId e"
  by (simp_all add: fillUsers_def Let_def)

lemma HandleEventNotify_jobs:
  assumes "subs_ready D" "env_rule (di_env D) (ev_RuleId e) = Some rule"
  shows "HandleEventNotify ord D e False = Inr (fillUsers ord D e,
    \<lparr>jb_rule = rule, jb_event = fillUsers ord D e, jb_target = notify_target D (fillUsers ord D e) False\<rparr> #
    map (\<lambda>s. let e1 = fillUsers ord D (sub_event s (fillUsers ord D e))
         in \<lparr>jb_rule = rule, jb_event = e1, jb_target = notify_target D e1 True\<rparr>)
      (filter (\<lambda>s. sub_matches s (fillUsers ord D e)) (subscriptions_of D e)))"
proof -
  let ?e = "fillUsers ord D e"
  have r: "\<forall>s \<in> set (subscriptions_of D ?e). sub_ready s"
    using assms(1) unfolding subs_ready_def subscriptions_of_def
    by (cases "cache_Get (di_subs D) (ev_RuleId ?e)"; cases "cache_Get (di_subs D) 0") auto
  have s: "subscriptions_of D ?e = subscriptions_of D e" by (simp add: subscriptions_of_def)
  have n: "notify_event ord D (sub_event s ?e) True = (let e1 = fillUsers ord D (sub_event s ?e)
      in (e1, [\<lparr>jb_rule = rule, jb_event = e1, jb_target = notify_target D e1 True\<rparr>]))" for s
    by (simp add: notify_event_def assms(2))
  have "handleSubs ord D ?e = Inr (map (\<lambda>s. let e1 = fillUsers ord D (sub_event s ?e)
         in \<lparr>jb_rule = rule, jb_event = e1, jb_target = notify_target D e1 True\<rparr>)
      (filter (\<lambda>s. sub_matches s ?e) (subscriptions_of D e)))"
    unfolding handleSubs_def Let_def subscriptions_of_def [symmetric] s handle_sub_loop_ready [OF r [unfolded s]] n
    by (simp add: Let_def concat_map_singleton)
  then show ?thesis using assms(2) by (simp add: HandleEventNotify_def notify_event_def Let_def)
qed

subsection \<open>Consuming\<close>

lemma ParseRule_frame:
  "ParseRule L f e = Inr e' \<Longrightarrow> ev_IsRecovered e' = ev_IsRecovered e \<and> ev_NotifyRecovered e' = ev_NotifyRecovered e \<and>
     ev_Hash e' = ev_Hash e \<and> ev_Status e' = ev_Status e"
  by (auto simp: ParseRule_def Let_def split: if_splits sum.splits)

lemma parse_fields_frame [simp, frame]:
  "ev_IsRecovered (parse_fields L e) = ev_IsRecovered e"
  "ev_NotifyRecovered (parse_fields L e) = ev_NotifyRecovered e"
  "ev_Hash (parse_fields L e) = ev_Hash e" "ev_Status (parse_fields L e) = ev_Status e"
  unfolding parse_fields_def Let_def
  by (auto split: sum.split dest!: ParseRule_frame)

lemma EventPersist_event:
  "EventPersist ops e d = (d', e', r) \<Longrightarrow> e' = e \<or> (\<exists>i. e' = e\<lparr>ev_Id := i\<rparr>)"
  by (auto simp: EventPersist_def add_current_def Let_def split: sum.splits prod.splits if_splits option.splits)

lemma persist_frame:
  assumes "persist c ops L e t = (e', t', rs)"
  shows "ev_IsRecovered e' = ev_IsRecovered e" "ev_NotifyRecovered e' = ev_NotifyRecovered e"
proof -
  have "ev_IsRecovered e' = ev_IsRecovered e \<and> ev_NotifyRecovered e' = ev_NotifyRecovered e"
  proof (cases "EventPersist ops e t")
    case (fields d1 e1 r1)
    then show ?thesis using assms EventPersist_event [OF fields]
      by (auto simp: persist_def AlertCurEvent_DB2FE_def Let_def split: if_splits)
  qed
  then show "ev_IsRecovered e' = ev_IsRecovered e" "ev_NotifyRecovered e' = ev_NotifyRecovered e" by auto
qed

subsection \<open>Sample dispatcher\<close>

definition sample_nlib :: nlib where
  "sample_nlib = \<lparr>nl_lib = sample_lib, nl_contact = (\<lambda>c k. None), nl_url_parse = (\<lambda>s. None),
     nl_valid_url = (\<lambda>s. True), nl_to_lower = (\<lambda>s. s),
     nl_task_tpl = (\<lambda>i. Inr (Some \<lparr>tt_Id = i, tt_GroupId = 1, tt_Title = ''fix'', tt_Batch = 0, tt_Tolerance = 0,
       tt_Timeout = 30, tt_Pause = '''', tt_Script = ''restart'', tt_Args = '''', tt_Tags = '''', tt_TagsJSON = [],
       tt_Account = ''root'', tt_CreateAt = 0, tt_CreateBy = ''amy'', tt_UpdateAt = 0, tt_UpdateBy = ''amy''\<rparr>)),
     nl_create_task = (\<lambda>f. Inr ('''', 9)),
     nl_user_by_name = (\<lambda>n. Some \<lparr>us_Id = 11, us_Username = n, us_Nickname = '''', us_Password = '''', us_Phone = '''',
       us_Email = '''', us_Portrait = '''', us_Roles = ''Admin'', us_RolesLst = [''Admin''], us_Contacts = '''',
       us_Maintainer = 0, us_CreateAt = 0, us_CreateBy = '''', us_UpdateAt = 0, us_UpdateBy = '''', us_Admin = True\<rparr>),
     nl_target = (\<lambda>h. None), nl_script_file = None, nl_write_ok = True, nl_notice = (\<lambda>e m. '''')\<rparr>"

definition sample_dispatch :: dispatch where
  "sample_dispatch = \<lparr>di_env = sample_env, di_nlib = sample_nlib, di_users = NewCache,
     di_groups = NewCache\<lparr>ch_data := [(5, \<lparr>ug_Id = 5, ug_Name = ''ops'', ug_Note = '''', ug_CreateAt = 0,
       ug_CreateBy = '''', ug_UpdateAt = 0, ug_UpdateBy = '''', ug_UserIds = [11, 12]\<rparr>)]\<rparr>,
     di_subs = NewCache, di_webhooks = [],
     di_smtp = \<lparr>sc_Host = '''', sc_Port = 0, sc_User = '''', sc_Pass = '''', sc_From = '''',
       sc_InsecureSkipVerify = True, sc_Batch = 5\<rparr>,
     di_script = \<lparr>ns_Enable = False, ns_Type = 0, ns_Content = '''', ns_Timeout = 0\<rparr>,
     di_ibex = \<lparr>ib_Address = '''', ib_BasicAuthUser = '''', ib_BasicAuthPass = '''', ib_Timeout = 0\<rparr>,
     di_Senders = [], di_tpls = [], di_ExtraSenders = [], di_BeforeSenderHook = (\<lambda>e. True)\<rparr>"

definition sample_notice :: AlertCurEvent where
  "sample_notice = sample_event\<lparr>ev_RuleId := 7, ev_NotifyGroupsJSON := [''5''], ev_NotifyChannelsJSON := [''email''],
     ev_CallbacksJSON := [''${ibex}/3/web01'']\<rparr>"

definition no_faults :: faults where
  "no_faults = \<lparr>f_exists = (\<lambda>t. False), f_add_his = (\<lambda>t. False), f_del = (\<lambda>t. False), f_add_cur = (\<lambda>t. False)\<rparr>"

definition empty_tables :: tables where
  "empty_tables = \<lparr>tb_cur = [], tb_his = [], tb_next_id = 0\<rparr>"

lemma empty_tables_simps [simp]: "tb_cur empty_tables = []" "tb_his empty_tables = []"
  by (simp_all add: empty_tables_def)

subsection \<open>Properties\<close>

text \<open>C6. Recipients. In the send job of an event the users of a channel are, in whatever order the
  maps are enumerated, exactly the members of the user groups the event names and the cache knows,
  for the channels the event names, and nobody for any other channel; the callbacks are exactly the
  non-empty ones of the event, and every webhook is an enabled one of the configuration.\<close>

theorem event_recipients:
  assumes "fair_order ord"
  shows "recipients (ToChannelUserMap ord (notify_target D e isSub)) ch =
      (if ch \<in> set (ev_NotifyChannelsJSON e)
       then {uid. \<exists>gid g. gid \<in> set (group_ids (ev_NotifyGroupsJSON e)) \<and>
               cache_Get (di_groups D) gid = Some g \<and> uid \<in> set (ug_UserIds g)} else {}) \<and>
    set (ToCallbackList (notify_target D e isSub)) = {c \<in> set (ev_CallbacksJSON e). c \<noteq> ''''} \<and>
    set (ToWebhookList (notify_target D e isSub)) \<subseteq> {w \<in> set (di_webhooks D). wh_Enable w}"
proof (intro conjI)
  show "recipients (ToChannelUserMap ord (notify_target D e isSub)) ch =
      (if ch \<in> set (ev_NotifyChannelsJSON e)
       then {uid. \<exists>gid g. gid \<in> set (group_ids (ev_NotifyGroupsJSON e)) \<and>
               cache_Get (di_groups D) gid = Some g \<and> uid \<in> set (ug_UserIds g)} else {})"
    unfolding ToChannelUserMap_recipients [OF notify_target_wf assms] notify_target_notified group_members_def
    by simp
  show "set (ToCallbackList (notify_target D e isSub)) = {c \<in> set (ev_CallbacksJSON e). c \<noteq> ''''}"
    by (rule notify_target_callbacks)
  show "set (ToWebhookList (notify_target D e isSub)) \<subseteq> {w \<in> set (di_webhooks D). wh_Enable w}"
    using notify_target_webhooks by blast
qed

theorem event_recipients_witness:
  "recipients (ToChannelUserMap rev (notify_target sample_dispatch sample_notice False)) ''email'' = {11, 12}"
proof -
  have g: "group_ids (ev_NotifyGroupsJSON sample_notice) = [5]"
  proof -
    have "ev_NotifyGroupsJSON sample_notice = [''5'']" by (simp add: sample_notice_def)
    moreover have "ParseInt ''5'' = Some 5"
      by (simp add: ParseInt_def read_digits_def digit_val_def int64_range_def)
    ultimately show ?thesis by (simp add: group_ids_def List.map_filter_simps)
  qed
  have c: "cache_Get (di_groups sample_dispatch) gid = (if gid = 5 then Some \<lparr>ug_Id = 5, ug_Name = ''ops'', ug_Note = '''',
      ug_CreateAt = 0, ug_CreateBy = '''', ug_UpdateAt = 0, ug_UpdateBy = '''', ug_UserIds = [11, 12]\<rparr> else None)" for gid
    by (simp add: sample_dispatch_def cache_Get_def NewCache_def)
  have m: "''email'' \<in> set (ev_NotifyChannelsJSON sample_notice)" by (simp add: sample_notice_def)
  have s: "{uid. \<exists>gid ug. gid \<in> set [5] \<and> cache_Get (di_groups sample_dispatch) gid = Some ug \<and>
      uid \<in> set (ug_UserIds ug)} = {11, 12}"
    by (auto simp: c)
  show ?thesis
    using event_recipients [OF fair_order_rev, of sample_dispatch sample_notice False "''email''",
        unfolded g s if_P [OF m]] by (rule conjunct1)
qed

text \<open>C7. Subscriptions. Dispatching an event starts one job for the event itself and one for every
  subscription of its rule, then every global subscription, that is enabled and matches its data
  source, product, tags, business group, duration and severity, in that order; a subscription's job
  is for a copy of the event that carries the subscription's identifier and groups, goes to no
  webhook, and starts no further subscription.\<close>

theorem dispatched_jobs:
  assumes "subs_ready D" "env_rule (di_env D) (ev_RuleId e) = Some rule"
  shows "\<exists>e1 js. HandleEventNotify ord D e False = Inr (e1, js) \<and>
    map jb_event js = e1 # map (\<lambda>s. fillUsers ord D (sub_event s e1))
      (filter (\<lambda>s. sub_matches s e1) (subscriptions_of D e)) \<and>
    (\<forall>j \<in> set (tl js). ToWebhookList (jb_target j) = []) \<and>
    (\<forall>j \<in> set js. jb_rule j = rule \<and> (\<exists>isSub. jb_target j = notify_target D (jb_event j) isSub))"
  unfolding HandleEventNotify_jobs [OF assms]
  by (auto simp: Let_def notify_target_sub_webhooks)

theorem dispatched_jobs_witness:
  "\<exists>e1 js. HandleEventNotify (\<lambda>ks. ks) sample_dispatch sample_notice False = Inr (e1, js) \<and> length js = 1"
proof -
  have s: "subs_ready sample_dispatch" "subscriptions_of sample_dispatch sample_notice = []"
    by (auto simp: subs_ready_def subscriptions_of_def sample_dispatch_def cache_Get_def NewCache_def)
  have r: "env_rule (di_env sample_dispatch) (ev_RuleId sample_notice) = Some sample_rule"
    by (simp add: sample_dispatch_def sample_env_def sample_notice_def)
  show ?thesis using dispatched_jobs [OF s(1) r, of "\<lambda>ks. ks"] s(2)
    by (metis length_Cons length_map filter.simps(1) list.map(1) list.size(3) One_nat_def)
qed

text \<open>C8. Persisting. When \<open>EventPersist\<close> reports no error, the history has one more row for the event
  with a fresh positive identifier; a recovered event leaves no current row under its hash and a
  firing one leaves exactly one, the event with the history row's identifier; rows of other hashes
  are untouched.\<close>

theorem persist_effect:
  assumes "EventPersist (table_ops F) e t = (t', e', None)"
  shows "\<exists>i. i > 0 \<and> tb_his t' = tb_his t @ [(ToHis e)\<lparr>he_Id := i\<rparr>] \<and>
    tb_cur t' = filter (\<lambda>x. ev_Hash x \<noteq> ev_Hash e) (tb_cur t) @
      (if ev_IsRecovered e then [] else [e\<lparr>ev_Id := i\<rparr>])"
  using assms by (rule tb.persist_ok)

lemma sample_persist:
  "EventPersist (table_ops no_faults) sample_event empty_tables =
    (\<lparr>tb_cur = [sample_event\<lparr>ev_Id := 1\<rparr>], tb_his = [(ToHis sample_event)\<lparr>he_Id := 1\<rparr>], tb_next_id = 1\<rparr>,
     sample_event\<lparr>ev_Id := 1\<rparr>, None)"
proof -
  have r: "\<not> ev_IsRecovered sample_event" by (simp add: sample_event_def zero_AlertCurEvent_def)
  show ?thesis using r
    by (simp add: EventPersist_def add_current_def table_ops_def AlertCurEventExists_def AlertHisEvent_Add_def
        AlertCurEvent_Add_def no_faults_def empty_tables_def Let_def)
qed

theorem persist_effect_witness:
  "\<exists>i. i > 0 \<and> tb_his (fst (EventPersist (table_ops no_faults) sample_event empty_tables)) =
     [(ToHis sample_event)\<lparr>he_Id := i\<rparr>]"
  using persist_effect [OF sample_persist] by (auto simp: sample_persist)

text \<open>Whatever statements fail on the way, persisting an event never leaves two current rows with
  one hash when there were none before.\<close>

theorem persist_unique:
  assumes "distinct (map ev_Hash (tb_cur t))" "EventPersist (table_ops F) e t = (t', e', r)"
  shows "distinct (map ev_Hash (tb_cur t'))"
  using tb.persist_one_per_hash [OF assms(2)] assms(1) by (simp add: tb.one_per_hash_def)

theorem persist_unique_witness:
  "distinct (map ev_Hash (tb_cur (fst (EventPersist (table_ops no_faults) sample_event empty_tables))))"
  using persist_unique [OF _ sample_persist] by (simp add: sample_persist)

text \<open>A recovered event whose rule does not want recovery notices is persisted like any other and
  starts no send job.\<close>

theorem recovery_not_notified:
  assumes "ev_IsRecovered e" "ev_NotifyRecovered e = 0"
  shows "\<exists>e1 t1 rs. persist c ops (env_lib (di_env D)) (parse_fields (env_lib (di_env D)) e) t = (e1, t1, rs) \<and>
    consumeOne c ops ord D e t = Inr (e1, t1, rs, [])"
proof -
  obtain e1 t1 rs where p: "persist c ops (env_lib (di_env D)) (parse_fields (env_lib (di_env D)) e) t = (e1, t1, rs)"
    by (cases "persist c ops (env_lib (di_env D)) (parse_fields (env_lib (di_env D)) e) t")
  show ?thesis using persist_frame [OF p] assms by (simp add: consumeOne_def p)
qed

theorem recovery_not_notified_witness:
  "\<exists>e1 t1 rs. consumeOne True (table_ops no_faults) (\<lambda>ks. ks) sample_dispatch
     (sample_event\<lparr>ev_IsRecovered := True\<rparr>) empty_tables = Inr (e1, t1, rs, [])"
  using recovery_not_notified [of "sample_event\<lparr>ev_IsRecovered := True\<rparr>" True "table_ops no_faults"
    sample_dispatch empty_tables "\<lambda>ks. ks"]
  by (auto simp: sample_event_def zero_AlertCurEvent_def)

text \<open>C32. A callback starts a task only for an event that is firing, only on a non-empty host, from a
  template that exists, and only when the last editor of the template is an administrator or the
  host is a known target in the template's business group; the task runs in that editor's name.\<close>

theorem task_permission:
  assumes "CreateTask conf f \<in> set (SendCallbacks N now c urls e)"
  shows "\<not> ev_IsRecovered e \<and> (\<exists>i tpl host. nl_task_tpl N i = Inr (Some tpl) \<and> host \<noteq> '''' \<and>
    tk_Hosts f = [host] \<and> tk_Creator f = tt_UpdateBy tpl \<and> tk_Script f = tt_Script tpl \<and>
    ((\<exists>u. nl_user_by_name N (tt_UpdateBy tpl) = Some u \<and> AdminRole \<in> set (us_RolesLst u)) \<or>
     (\<exists>t. nl_target N host = Some t \<and> tg_GroupId t = tt_GroupId tpl)))"
proof -
  obtain url where u: "CreateTask conf f \<in> set (callback_requests N now c e url)"
    using assms by (auto simp: SendCallbacks_def)
  then have r: "\<not> ev_IsRecovered e" and h: "CreateTask conf f \<in> set (handleIbex N now c url e)"
    by (auto simp: callback_requests_def split: if_splits)
  obtain i tpl host where i: "nl_task_tpl N i = Inr (Some tpl)" "host \<noteq> ''''"
    "CreateTask conf f \<in> set (run_ibex N now c e tpl host)"
    using handleIbex_task [OF h] by blast
  note T = run_ibex_task [OF i(3)]
  have "(\<exists>u. nl_user_by_name N (tt_UpdateBy tpl) = Some u \<and> AdminRole \<in> set (us_RolesLst u)) \<or>
     (\<exists>t. nl_target N host = Some t \<and> tg_GroupId t = tt_GroupId tpl)"
    using T(1) by (auto simp: canDoIbex_def IsAdmin_def split: if_splits option.splits)
  then show ?thesis using r i(1,2) T(2) by (auto simp: task_form_def)
qed

lemma sample_task:
  "\<exists>f. CreateTask (di_ibex sample_dispatch) f \<in> set (SendCallbacks sample_nlib 0 (di_ibex sample_dispatch)
     [''${ibex}/3/web01''] sample_notice)"
proof -
  have p: "prefix ''${ibex}'' ''${ibex}/3/web01''" by simp
  have q: "Split ''${ibex}/3/web01'' ''/'' = [''${ibex}'', ''3'', ''web01'']" by (simp add: Split_def)
  have n: "ParseInt ''3'' = Some 3"
    by (simp add: ParseInt_def read_digits_def digit_val_def int64_range_def)
  have r: "\<not> ev_IsRecovered sample_notice" by (simp add: sample_notice_def sample_event_def zero_AlertCurEvent_def)
  show ?thesis using r
    by (simp add: SendCallbacks_def callback_requests_def handleIbex_def p q n run_ibex_def canDoIbex_def
        sample_nlib_def IsAdmin_def AdminRole_def Let_def)
qed

theorem task_permission_witness: "\<not> ev_IsRecovered sample_notice"
  using sample_task task_permission by blast

end
