(* ===== verification/Pipeline.thy ===== *)
theory Pipeline
  imports Processor_Runs Dispatch_Spec
begin

text \<open>
  Properties that join the components: what the caches guarantee to the code that reads them, and
  that the table of current alerts, fed by the queue, mirrors the firing map of the processor.
\<close>

subsection \<open>The caches hand out prepared filters\<close>

lemma mute_map_ready:
  assumes "go_get (mute_map L lst) g = Some ms" "m \<in> set ms"
  shows "mute_ready m"
proof -
  have "m \<in> set (List.map_filter (AlertMute_Parse L) lst)"
    using group_by_member [OF assms(1) [unfolded mute_map_def]] assms(2) by auto
  then show ?thesis
    by (auto simp: List.map_filter_def AlertMute_Parse_def mute_ready_def GetTagFilters_ready split: option.splits)
qed

text \<open>\<open>DB2FE\<close> and \<open>FillDatasourceIds\<close> do not touch the parsed filters.\<close>

definition keeps_filters :: "(AlertSubscribe \<Rightarrow> AlertSubscribe option) \<Rightarrow> bool" where
  "keeps_filters decode \<longleftrightarrow> (\<forall>s t. decode s = Some t \<longrightarrow> as_ITags t = as_ITags s \<and> as_IBusiGroups t = as_IBusiGroups s)"

lemma subscribe_map_ready:
  assumes "go_get (subscribe_map L decode lst) k = Some ss" "s \<in> set ss" "keeps_filters decode"
  shows "sub_ready s"
proof -
  have "s \<in> set (List.map_filter (\<lambda>s. Option.bind (AlertSubscribe_Parse L s) decode) lst)"
    using group_by_member [OF assms(1) [unfolded subscribe_map_def]] assms(2) by auto
  then obtain s0 s1 where "AlertSubscribe_Parse L s0 = Some s1" "decode s1 = Some s"
    by (auto simp: List.map_filter_def bind_eq_Some_conv split: option.splits)
  then have "as_ITags s = as_ITags s1" "as_IBusiGroups s = as_IBusiGroups s1"
    "sub_ready s1"
    using assms(3) by (auto simp: keeps_filters_def AlertSubscribe_Parse_def sub_ready_def GetTagFilters_ready
        split: option.splits)
  then show ?thesis by (simp add: sub_ready_def)
qed

lemma NewCache_data [simp]: "ch_data NewCache = []"
  by (simp add: NewCache_def)

lemma cached_mutes_ready:
  assumes "env_mutes E = cache_Get (amc.run L qs NewCache)"
  shows "mutes_ready E"
  using amc.run_data [of L qs NewCache] mute_map_ready
  by (auto simp: mutes_ready_def assms cache_Get_def)

lemma cached_subs_ready:
  assumes "di_subs D = asc.run L decode qs NewCache" "keeps_filters decode"
  shows "subs_ready D"
  using asc.run_data [of L decode qs NewCache] subscribe_map_ready [OF _ _ assms(2)]
  by (auto simp: subs_ready_def assms(1) cache_Get_def)

subsection \<open>The current alerts mirror the firing map\<close>

text \<open>The hashes with a current row after events with the given hashes and marks have been persisted
  one after the other: the last event of a hash decides.\<close>

definition after_event :: "AlertCurEvent \<Rightarrow> string set \<Rightarrow> string set" where
  "after_event e H = (if ev_IsRecovered e then H - {ev_Hash e} else insert (ev_Hash e) H)"


text \<open>What the queue and the store have in common: an entry points to an allocated event with the
  hash of the entry; an event that was recovered when it was queued still is; and one that has
  recovered since then is queued again, further back.\<close>

definition queue_inv :: "pstate \<Rightarrow> bool" where
  "queue_inv s \<longleftrightarrow> (\<forall>b. ev_Status (heap s b) = 0) \<and>
     (\<forall>xs a e ys. pushed s = xs @ (a, e) # ys \<longrightarrow> a < hnext s \<and> ev_Hash (heap s a) = ev_Hash e \<and>
        (ev_IsRecovered e \<longrightarrow> ev_IsRecovered (heap s a)) \<and>
        (ev_IsRecovered (heap s a) \<longrightarrow> (\<exists>y \<in> set ((a, e) # ys). fst y = a \<and> ev_IsRecovered (snd y))))"


lemma queue_inv_other [simp]:
  "queue_inv (s\<lparr>p_inhibit := i\<rparr>) = queue_inv s" "queue_inv (s\<lparr>p_rule := r\<rparr>) = queue_inv s"
  "queue_inv (s\<lparr>p_pendings := m\<rparr>) = queue_inv s"
  by (simp_all add: queue_inv_def)
















text \<open>Processor steps only append to the queue and never unmark a recovered event.\<close>

definition grows :: "pstate \<Rightarrow> pstate \<Rightarrow> bool" where
  "grows s t \<longleftrightarrow> hnext s \<le> hnext t \<and> prefix (pushed s) (pushed t) \<and>
     (\<forall>b < hnext s. ev_IsRecovered (heap s b) \<longrightarrow> ev_IsRecovered (heap t b))"

lemma grows_refl [simp]: "grows s s"
  by (simp add: grows_def)







subsection \<open>The worker, the queue and the consumer together\<close>

text \<open>
  \<open>LoopConsume\<close> takes the entries of the queue in order; for each one it acquires a slot of a
  semaphore of \<open>NotifyConcurrency\<close> slots and starts a goroutine that consumes the event and frees the
  slot. The consumer's state: how many entries were taken, which of them are being consumed, and,
  in the order they were finished, those that are done with the event as the goroutine read it. The
  queue holds pointers: what a goroutine reads is the event at that moment, not when it was queued,
  and its edits go to the shared event. The processor's queue is taken never to be full
  (\<open>pushEventToQueue\<close> drops an event when ten million wait), and the instance is a center.
\<close>

record cstate =
  c_taken :: nat
  c_running :: "nat list"
  c_done :: "(nat \<times> AlertCurEvent) list"


definition consume_go :: "int range_order \<Rightarrow> dispatch \<Rightarrow> nat \<Rightarrow> pstate \<Rightarrow> cstate \<Rightarrow> tables \<Rightarrow>
    (pstate \<times> cstate \<times> tables) res" where
  "consume_go ord D i s c t =
     (let a = fst (pushed s ! i); event = heap s a
      in res_bind (consumeOne True (table_ops no_faults) ord D event t) (\<lambda>(event', t', rs, js).
         Inr (hupd a (\<lambda>_. event') s,
              c\<lparr>c_running := remove1 i (c_running c), c_done := c_done c @ [(i, event)]\<rparr>, t')))"




lemma persist_no_faults: "\<exists>t' e'. EventPersist (table_ops no_faults) e t = (t', e', None)"
  by (simp add: EventPersist_def add_current_def table_ops_def AlertCurEventExists_def AlertHisEvent_Add_def
      AlertCurEventDelByHash_def AlertCurEvent_Add_def no_faults_def Let_def)

text \<open>Consuming an event keeps what identifies it and applies it to the table.\<close>

lemma ParseRule_ident: "ParseRule L f e = Inr e' \<Longrightarrow> ident_fields e' = ident_fields e"
  by (auto simp: ParseRule_def Let_def ident_fields_def split: if_splits sum.splits)

lemma parse_fields_ident: "ident_fields (parse_fields L e) = ident_fields e"
  unfolding parse_fields_def Let_def
  by (auto split: sum.split dest!: ParseRule_ident) (simp_all add: ident_fields_def)

lemma notify_ident:
  "HandleEventNotify ord D e False = Inr (e', js) \<Longrightarrow> ident_fields e' = ident_fields e \<and> ev_Status e' = ev_Status e"
  by (auto simp: HandleEventNotify_def notify_event_def fillUsers_def ident_fields_def res_bind_Inr_iff Let_def
      split: option.splits)

lemma consumeOne_effect:
  assumes "consumeOne True (table_ops no_faults) ord D e t = Inr (e', t', rs, js)" "ev_Status e = 0"
  shows "ident_fields e' = ident_fields e" "ev_Status e' = 0"
    "ev_Hash ` set (tb_cur t') = after_event e (ev_Hash ` set (tb_cur t))"
proof -
  let ?e1 = "parse_fields (env_lib (di_env D)) e"
  obtain t1 e2 where p: "EventPersist (table_ops no_faults) ?e1 t = (t1, e2, None)"
    using persist_no_faults by blast
  have q: "persist True (table_ops no_faults) (env_lib (di_env D)) ?e1 t = (e2, t1, [])"
    using assms(2) by (simp add: persist_def p)
  have e2: "ident_fields e2 = ident_fields e" "ev_Status e2 = 0"
    using EventPersist_event [OF p] assms(2) parse_fields_ident [of "env_lib (di_env D)" e]
    by (auto simp: ident_fields_def)
  have "t' = t1 \<and> ident_fields e' = ident_fields e2 \<and> ev_Status e' = ev_Status e2"
    using assms(1) notify_ident [of ord D e2]
    by (auto simp: consumeOne_def q res_bind_Inr_iff split: if_splits)
  moreover have "ev_Hash ` set (tb_cur t1) = after_event e (ev_Hash ` set (tb_cur t))"
    using tb.persist_ok [OF p] by (auto simp: after_event_def)
  ultimately show "ident_fields e' = ident_fields e" "ev_Status e' = 0"
    "ev_Hash ` set (tb_cur t') = after_event e (ev_Hash ` set (tb_cur t))"
    using e2 by simp_all
qed













subsection \<open>Properties\<close>


lemma sample_dispatch_total: "\<exists>r. HandleEventNotify ord sample_dispatch e False = Inr r"
proof (cases "env_rule (di_env sample_dispatch) (ev_RuleId e)")
  case None
  then show ?thesis by (simp add: HandleEventNotify_def)
next
  case (Some rule)
  have "subs_ready sample_dispatch" by (simp add: subs_ready_def sample_dispatch_def cache_Get_def)
  then show ?thesis using HandleEventNotify_jobs Some by blast
qed

lemma sample_consume:
  "\<exists>e' t' rs js. consumeOne True (table_ops no_faults) ord sample_dispatch e t = Inr (e', t', rs, js)"
proof -
  obtain e2 t1 rs where p: "persist True (table_ops no_faults) (env_lib (di_env sample_dispatch))
      (parse_fields (env_lib (di_env sample_dispatch)) e) t = (e2, t1, rs)" by (rule prod_cases3)
  obtain r where "HandleEventNotify ord sample_dispatch e2 False = Inr r" using sample_dispatch_total by blast
  then show ?thesis by (cases r) (simp add: consumeOne_def p)
qed

lemma sample_go:
  "\<exists>e' t'. consumeOne True (table_ops no_faults) ord sample_dispatch (heap s (fst (pushed s ! i))) t = Inr (e', t') \<and>
     consume_go ord sample_dispatch i s c t = Inr (hupd (fst (pushed s ! i)) (\<lambda>_. e') s,
       c\<lparr>c_running := remove1 i (c_running c), c_done := c_done c @ [(i, heap s (fst (pushed s ! i)))]\<rparr>, fst t')"
  using sample_consume [of ord "heap s (fst (pushed s ! i))" t] by (auto simp: consume_go_def Let_def)


text \<open>With two slots the table can go wrong. An alert that recovered and fired again has two entries
  with different events in the queue; when the goroutine of the second one finishes first, the first
  one's deletes the row the second has written, and a firing alert has no row.\<close>

lemma overtaking_loses_row:
  assumes "s = sample_proc\<lparr>hnext := 2, p_fires := [(''h'', 1)],
      heap := (heap sample_proc)(0 := sample_event\<lparr>ev_IsRecovered := True\<rparr>, 1 := sample_event),
      pushed := [(0, sample_event\<lparr>ev_IsRecovered := True\<rparr>), (1, sample_event)]\<rparr>"
    and "c = \<lparr>c_taken = 2, c_running = [0, 1], c_done = []\<rparr>" "t = empty_tables\<lparr>tb_cur := []\<rparr>"
  shows "\<exists>s1 c1 t1 s2 c2 t2. consume_go (\<lambda>ks. ks) sample_dispatch 1 s c t = Inr (s1, c1, t1) \<and>
    consume_go (\<lambda>ks. ks) sample_dispatch 0 s1 c1 t1 = Inr (s2, c2, t2) \<and> c_running c2 = [] \<and>
    Get (p_fires s2) ''h'' = Some 1 \<and> tb_cur t2 = []"
proof -
  have st: "ev_Status sample_event = 0" by (simp add: sample_event_def zero_AlertCurEvent_def)
  obtain e1 t1 x1 where 1: "consumeOne True (table_ops no_faults) (\<lambda>ks. ks) sample_dispatch sample_event t = Inr (e1, t1, x1)"
    "consume_go (\<lambda>ks. ks) sample_dispatch 1 s c t = Inr (hupd 1 (\<lambda>_. e1) s, \<lparr>c_taken = 2, c_running = [0], c_done = [(1, sample_event)]\<rparr>, t1)"
    using sample_go [of "\<lambda>ks. ks" s 1 t c] by (auto simp: assms(1,2))
  let ?s = "hupd 1 (\<lambda>_. e1) s" and ?c = "\<lparr>c_taken = 2, c_running = [0], c_done = [(1, sample_event)]\<rparr>"
  let ?e = "sample_event\<lparr>ev_IsRecovered := True\<rparr>"
  obtain e2 t2 x2 where 2: "consumeOne True (table_ops no_faults) (\<lambda>ks. ks) sample_dispatch ?e t1 = Inr (e2, t2, x2)"
    "consume_go (\<lambda>ks. ks) sample_dispatch 0 ?s ?c t1 =
       Inr (hupd 0 (\<lambda>_. e2) ?s, \<lparr>c_taken = 2, c_running = [], c_done = [(1, sample_event), (0, ?e)]\<rparr>, t2)"
    using sample_go [of "\<lambda>ks. ks" ?s 0 t1 ?c] by (auto simp: assms(1))
  obtain rs1 js1 rs2 js2 where x: "x1 = (rs1, js1)" "x2 = (rs2, js2)" by (cases x1, cases x2)
  have "ev_Hash ` set (tb_cur t2) = {}"
    using consumeOne_effect(3) [OF 1(1) [unfolded x]] consumeOne_effect(3) [OF 2(1) [unfolded x]] st
    by (simp add: after_event_def assms(3))
  then show ?thesis using 1(2) 2(2) by (auto simp: assms(1) Get_def)
qed

text \<open>With mutes read from the mute cache, after any sequence of its syncs, and a rule whose extra
  tags and time spans are well formed, an evaluation always returns: the cache keeps only mutes
  whose filters were prepared.\<close>

theorem evaluation_with_cached_mutes:
  assumes "env_mutes E = cache_Get (amc.run L qs NewCache)"
    and "\<And>r. env_rule E (ar_Id (p_rule s)) = Some r \<Longrightarrow> rule_runnable r"
  shows "\<exists>t. Handle E ords now pts org inh s = Inr t"
  using assms(2) cached_mutes_ready [OF assms(1)] by (rule Handle_total)

theorem evaluation_with_cached_mutes_witness:
  "\<exists>t. Handle sample_env sample_orders 1000 [sample_point] ''inner'' True
    (NewProcessor sample_env sample_rule 3) = Inr t"
proof (rule evaluation_with_cached_mutes [of _ sample_lib "[]"])
  show "env_mutes sample_env = cache_Get (amc.run sample_lib [] NewCache)"
    by (simp add: sample_env_def cache_Get_def fun_eq_iff)
  show "rule_runnable r"
    if "env_rule sample_env (ar_Id (p_rule (NewProcessor sample_env sample_rule 3))) = Some r" for r
    using that sample_rule_runnable by (auto simp: sample_env_def split: if_splits)
qed

text \<open>With subscriptions read from the subscription cache, after any sequence of its syncs, dispatching
  an event never panics.\<close>

theorem dispatch_with_cached_subs:
  assumes "di_subs D = asc.run L decode qs NewCache" "keeps_filters decode"
  shows "\<exists>r. HandleEventNotify ord D e isSub = Inr r"
proof (cases "env_rule (di_env D) (ev_RuleId e)")
  case None
  then show ?thesis by (simp add: HandleEventNotify_def)
next
  case (Some rule)
  then show ?thesis
    using HandleEventNotify_jobs [OF cached_subs_ready [OF assms] Some]
    by (cases isSub) (auto simp: HandleEventNotify_def notify_event_def Let_def)
qed

theorem dispatch_with_cached_subs_witness:
  "\<exists>r. HandleEventNotify (\<lambda>ks. ks) sample_dispatch sample_notice False = Inr r"
  by (rule dispatch_with_cached_subs [where L = sample_lib and decode = Some and qs = "[]"])
    (simp_all add: sample_dispatch_def keeps_filters_def)

text \<open>The queue holds pointers. An event that fires and recovers before the consumer takes it is seen
  by the consumer as recovered both times: the firing notice is lost.\<close>

lemma firing_notice_lost:
  "let s1 = fireEvent 0 sample_proc; s2 = RecoverSingle ''h'' 2000 None s1 in
     map fst (pushed s2) = [0, 0] \<and> \<not> ev_IsRecovered (snd (pushed s2 ! 0)) \<and> ev_IsRecovered (heap s2 0)"
proof -
  let ?s1 = "fireEvent 0 sample_proc"
  have d: "default_hooks sample_proc" by simp
  have n: "Get (p_fires sample_proc) (ev_Hash (heap sample_proc 0)) = None" by (simp add: Get_def)
  have e: "?s1 = pushEventToQueue 0 (first_notice 0 sample_proc)"
    unfolding fireEvent_eq [OF d] n by simp
  have d1: "default_hooks ?s1" using same_coreD(5) [OF same_core_fireEvent [OF d]] d by blast
  have f: "Get (p_fires ?s1) ''h'' = Some 0"
    by (simp add: e pushEventToQueue_fires first_notice_def)
  have p: "map fst (pushed ?s1) = [0]" "\<not> ev_IsRecovered (snd (pushed ?s1 ! 0))"
    by (simp_all add: e pushEventToQueue_pushed pushEventToQueue_heap first_notice_def)
  have "p_rule ?s1 = sample_rule" using same_coreD(2) [OF same_core_fireEvent [OF d]] by simp
  then have "recoverable ?s1 2000 0" by (simp add: recoverable_def)
  then show ?thesis using f p
    by (auto simp: Let_def RecoverSingle_eq [OF d1] nth_append)
qed

end
