(* ===== verification/Prom_Clients.thy ===== *)
theory Prom_Clients
  imports Alert_Models
begin

text \<open>
  The package \<open>prom\<close>: one reader and one writer client per data source, rebuilt when the options of
  the data source change (\<open>client.go\<close>, \<open>option.go\<close>, \<open>reader.go\<close>). A client is the options it was
  made from. The HTTP library refuses to make a client when the address does not parse
  (\<open>parses\<close>, a parameter); TLS files are not configured on this path. The column copies that \<open>FE2DB\<close> writes on an
  edge instance are not read here. The orders in which Go enumerates the header and settings maps
  and the client map are arguments.
\<close>

subsection \<open>Options\<close>

record PromOption =
  po_ClusterName :: string
  po_Url :: string
  po_WriteAddr :: string
  po_BasicAuthUser :: string
  po_BasicAuthPass :: string
  po_Timeout :: int
  po_DialTimeout :: int
  po_MaxIdleConnsPerHost :: int
  po_Headers :: "string list"
  po_UseTLS :: bool
  po_InsecureSkipVerify :: bool

fun same_headers :: "string list \<Rightarrow> string list \<Rightarrow> bool" where
  "same_headers (a # as) (b # bs) = (if a \<noteq> b then False else same_headers as bs)"
| "same_headers as bs = True"

definition PromOption_Equal :: "PromOption \<Rightarrow> PromOption \<Rightarrow> bool" where
  "PromOption_Equal po target =
     (if po_Url po \<noteq> po_Url target then False
      else if po_BasicAuthUser po \<noteq> po_BasicAuthUser target then False
      else if po_BasicAuthPass po \<noteq> po_BasicAuthPass target then False
      else if po_WriteAddr po \<noteq> po_WriteAddr target then False
      else if po_Timeout po \<noteq> po_Timeout target then False
      else if po_DialTimeout po \<noteq> po_DialTimeout target then False
      else if po_MaxIdleConnsPerHost po \<noteq> po_MaxIdleConnsPerHost target then False
      else if length (po_Headers po) \<noteq> length (po_Headers target) then False
      else same_headers (po_Headers po) (po_Headers target))"

lemma same_headers_eq: "length as = length bs \<Longrightarrow> same_headers as bs \<longleftrightarrow> as = bs"
  by (induction as bs rule: same_headers.induct) auto

lemma PromOption_Equal_iff:
  "PromOption_Equal p q \<longleftrightarrow> po_Url p = po_Url q \<and> po_WriteAddr p = po_WriteAddr q \<and>
     po_BasicAuthUser p = po_BasicAuthUser q \<and> po_BasicAuthPass p = po_BasicAuthPass q \<and>
     po_Timeout p = po_Timeout q \<and> po_DialTimeout p = po_DialTimeout q \<and>
     po_MaxIdleConnsPerHost p = po_MaxIdleConnsPerHost q \<and> po_Headers p = po_Headers q"
  by (auto simp: PromOption_Equal_def same_headers_eq)

text \<open>The comparison does not see whether the certificate is verified.\<close>

lemma PromOption_Equal_skip_verify: "PromOption_Equal p (p\<lparr>po_InsecureSkipVerify := b\<rparr>)"
  by (simp add: PromOption_Equal_iff)

subsection \<open>The client map\<close>

record prom_clients =
  pc_ReaderClients :: "(int, PromOption) go_map"
  pc_WriterClients :: "(int, PromOption) go_map"
  pc_PromOptions :: "(int, PromOption) go_map"

definition pc_Set :: "int \<Rightarrow> PromOption \<Rightarrow> PromOption \<Rightarrow> prom_clients \<Rightarrow> prom_clients" where
  "pc_Set datasourceId r w pc =
     pc\<lparr>pc_ReaderClients := go_set datasourceId r (pc_ReaderClients pc),
        pc_WriterClients := go_set datasourceId w (pc_WriterClients pc)\<rparr>"

definition GetDatasourceIds :: "int range_order \<Rightarrow> prom_clients \<Rightarrow> int list" where
  "GetDatasourceIds ord pc = ord (go_keys (pc_ReaderClients pc))"

definition GetCli :: "prom_clients \<Rightarrow> int \<Rightarrow> PromOption option" where
  "GetCli pc datasourceId = go_get (pc_ReaderClients pc) datasourceId"

definition GetWriterCli :: "prom_clients \<Rightarrow> int \<Rightarrow> PromOption option" where
  "GetWriterCli pc datasourceId = go_get (pc_WriterClients pc) datasourceId"

definition IsNil :: "prom_clients \<Rightarrow> int \<Rightarrow> bool" where
  "IsNil pc datasourceId = (go_get (pc_ReaderClients pc) datasourceId = None)"

definition Hit :: "int range_order \<Rightarrow> prom_clients \<Rightarrow> int list \<Rightarrow> int list" where
  "Hit ord pc datasourceIds =
     (if length datasourceIds = 1 \<and> datasourceIds ! 0 = DatasourceIdAll then ord (go_keys (pc_ReaderClients pc))
      else concat (map (\<lambda>dsId. filter (\<lambda>i. i = dsId) datasourceIds) (ord (go_keys (pc_ReaderClients pc)))))"

definition pc_Reset :: "prom_clients \<Rightarrow> prom_clients" where
  "pc_Reset pc = pc\<lparr>pc_ReaderClients := [], pc_WriterClients := []\<rparr>"

definition pc_Del :: "int \<Rightarrow> prom_clients \<Rightarrow> prom_clients" where
  "pc_Del datasourceId pc =
     pc\<lparr>pc_ReaderClients := go_del datasourceId (pc_ReaderClients pc),
        pc_WriterClients := go_del datasourceId (pc_WriterClients pc)\<rparr>"

definition NewPromClient :: prom_clients where
  "NewPromClient = \<lparr>pc_ReaderClients = [], pc_WriterClients = [], pc_PromOptions = []\<rparr>"

lemma Hit_set:
  assumes "fair_order ord"
  shows "set (Hit ord pc ids) =
    (if ids = [DatasourceIdAll] then dom (go_get (pc_ReaderClients pc)) else set ids \<inter> dom (go_get (pc_ReaderClients pc)))"
proof -
  have k: "set (go_keys m) = dom (go_get m)" for m :: "(int, PromOption) go_map" by (rule gm.keys_dom)
  have one: "length ids = 1 \<and> ids ! 0 = DatasourceIdAll \<longleftrightarrow> ids = [DatasourceIdAll]"
    by (cases ids) auto
  show ?thesis using assms unfolding Hit_def one by (auto simp: k)
qed

lemma Hit_distinct:
  assumes "fair_order ord" "go_wf (pc_ReaderClients pc)" "distinct ids"
  shows "distinct (Hit ord pc ids)"
proof -
  have d: "distinct (ord (go_keys (pc_ReaderClients pc)))"
    using assms(1,2) gm.wf_keys by simp
  have "distinct (concat (map (\<lambda>k. filter (\<lambda>i. i = k) ids) ks))" if "distinct ks" for ks
    using that assms(3) by (induction ks) auto
  then show ?thesis using d by (simp add: Hit_def)
qed

subsection \<open>Loading\<close>

text \<open>A setting that is not a string makes the type assertion panic.\<close>

fun read_addrs :: "(string \<times> json) list \<Rightarrow> string \<times> string \<Rightarrow> (string \<times> string) res" where
  "read_addrs [] a = Inr a"
| "read_addrs ((k, v) # kvs) (writeAddr, internalAddr) =
     (if Contains k ''write_addr''
      then (case v of JStr s \<Rightarrow> read_addrs kvs (s, internalAddr) | _ \<Rightarrow> Inl Type_assertion)
      else if Contains k ''internal_addr''
      then (case v of JStr s \<Rightarrow> read_addrs kvs (writeAddr, if s \<noteq> '''' then s else internalAddr)
            | _ \<Rightarrow> Inl Type_assertion)
      else read_addrs kvs (writeAddr, internalAddr))"

record load_orders =
  lo_headers :: "(string \<times> string) range_order"
  lo_settings :: "(string \<times> json) range_order"
  lo_clients :: "int range_order"

definition prom_option :: "load_orders \<Rightarrow> bool \<Rightarrow> Datasource \<Rightarrow> PromOption res" where
  "prom_option ords isCenter ds =
     (let http = ds_HTTPJson ds;
          header = concat (map (\<lambda>(k, v). [k, v]) (lo_headers ords (ht_Headers http))) in
      res_bind (read_addrs (lo_settings ords (ds_SettingsJson ds)) ('''', '''')) (\<lambda>(writeAddr, internalAddr).
      let https = prefix ''https'' (ht_Url http) in
      Inr \<lparr>po_ClusterName = ds_Name ds,
           po_Url = (if internalAddr \<noteq> '''' \<and> \<not> isCenter then internalAddr else ht_Url http),
           po_WriteAddr = writeAddr,
           po_BasicAuthUser = au_BasicAuthUser (ds_AuthJson ds), po_BasicAuthPass = au_BasicAuthPassword (ds_AuthJson ds),
           po_Timeout = ht_Timeout http, po_DialTimeout = ht_DialTimeout http,
           po_MaxIdleConnsPerHost = ht_MaxIdleConnsPerHost http, po_Headers = header,
           po_UseTLS = https, po_InsecureSkipVerify = (if https then ht_SkipTlsVerify http else False)\<rparr>))"

definition setClientFromPromOption ::
    "(string \<Rightarrow> bool) \<Rightarrow> int \<Rightarrow> PromOption \<Rightarrow> prom_clients \<Rightarrow> string + prom_clients" where
  "setClientFromPromOption parses datasourceId po pc =
     (if datasourceId < 0 then Inl ''argument clusterName is blank''
      else if po_Url po = '''' then Inl ''prometheus url is blank''
      else if \<not> parses (po_Url po) then Inl ''failed to newClientFromPromOption: reader''
      else if \<not> parses (po_WriteAddr po) then Inl ''failed to newClientFromPromOption: writer''
      else Inr (pc_Set datasourceId po po pc))"

definition set_client :: "(string \<Rightarrow> bool) \<Rightarrow> int \<Rightarrow> PromOption \<Rightarrow> prom_clients \<Rightarrow> prom_clients" where
  "set_client parses dsId po pc =
     (case setClientFromPromOption parses dsId po pc of Inl err \<Rightarrow> pc
      | Inr pc1 \<Rightarrow> pc1\<lparr>pc_PromOptions := go_set dsId po (pc_PromOptions pc1)\<rparr>)"

definition load_one :: "load_orders \<Rightarrow> (string \<Rightarrow> bool) \<Rightarrow> bool \<Rightarrow> Datasource \<Rightarrow> prom_clients \<Rightarrow> prom_clients res" where
  "load_one ords parses isCenter ds pc =
     res_bind (prom_option ords isCenter ds) (\<lambda>po. Inr (
       if IsNil pc (ds_Id ds) then set_client parses (ds_Id ds) po pc
       else (case go_get (pc_PromOptions pc) (ds_Id ds) of
               Some localPo \<Rightarrow> (if \<not> PromOption_Equal localPo po then set_client parses (ds_Id ds) po pc else pc)
             | None \<Rightarrow> set_client parses (ds_Id ds) po pc)))"

definition drop_useless :: "int set \<Rightarrow> int \<Rightarrow> prom_clients \<Rightarrow> prom_clients" where
  "drop_useless newCluster oldId pc =
     (if oldId \<in> newCluster then pc
      else let pc1 = pc_Del oldId pc in pc1\<lparr>pc_PromOptions := go_del oldId (pc_PromOptions pc1)\<rparr>)"

text \<open>The answers to the two queries, each a list and an error. The second query declares a new
  variable \<open>err\<close>, so the error of the first is never looked at.\<close>

definition loadFromDatabase ::
    "load_orders \<Rightarrow> (string \<Rightarrow> bool) \<Rightarrow> bool \<Rightarrow> Datasource list \<times> string option \<Rightarrow> Datasource list \<times> string option
     \<Rightarrow> prom_clients \<Rightarrow> prom_clients res" where
  "loadFromDatabase ords parses isCenter promAnswer lokiAnswer pc =
     (let datasources = fst promAnswer @ fst lokiAnswer in
      if snd lokiAnswer \<noteq> None then Inr pc
      else res_bind (res_fold (load_one ords parses isCenter) datasources pc) (\<lambda>pc1.
        Inr (fold (drop_useless (set (map ds_Id datasources))) (GetDatasourceIds (lo_clients ords) pc1) pc1)))"

subsection \<open>Clients and options agree\<close>

definition pc_inv :: "prom_clients \<Rightarrow> bool" where
  "pc_inv pc \<longleftrightarrow> go_get (pc_WriterClients pc) = go_get (pc_ReaderClients pc) \<and>
     go_get (pc_PromOptions pc) = go_get (pc_ReaderClients pc) \<and> go_wf (pc_ReaderClients pc)"

definition usable :: "(string \<Rightarrow> bool) \<Rightarrow> int \<Rightarrow> PromOption \<Rightarrow> bool" where
  "usable parses i po \<longleftrightarrow> 0 \<le> i \<and> po_Url po \<noteq> '''' \<and> parses (po_Url po) \<and> parses (po_WriteAddr po)"

lemma NewPromClient_inv: "pc_inv NewPromClient"
  by (simp add: pc_inv_def NewPromClient_def)

lemma set_client_cases:
  "set_client parses i po pc =
     (if usable parses i po then (pc_Set i po po pc)\<lparr>pc_PromOptions := go_set i po (pc_PromOptions pc)\<rparr> else pc)"
  by (auto simp: set_client_def setClientFromPromOption_def usable_def pc_Set_def)

lemma set_client_inv: "pc_inv pc \<Longrightarrow> pc_inv (set_client parses i po pc)"
  using gm.wf_set by (auto simp: set_client_cases pc_Set_def pc_inv_def)

lemma drop_useless_inv: "pc_inv pc \<Longrightarrow> pc_inv (drop_useless S i pc)"
  using gm.wf_del by (auto simp: drop_useless_def pc_Del_def pc_inv_def Let_def)

lemma load_one_Inr:
  assumes "load_one ords parses c ds pc = Inr pc'"
  obtains po where "prom_option ords c ds = Inr po"
    "pc' = pc \<or> pc' = set_client parses (ds_Id ds) po pc"
  using assms by (auto simp: load_one_def res_bind_Inr_iff split: if_splits option.splits)

lemma load_one_inv: "load_one ords parses c ds pc = Inr pc' \<Longrightarrow> pc_inv pc \<Longrightarrow> pc_inv pc'"
  by (erule load_one_Inr) (auto intro: set_client_inv)

lemma load_one_frame:
  assumes "load_one ords parses c ds pc = Inr pc'" "i \<noteq> ds_Id ds"
  shows "GetCli pc' i = GetCli pc i"
  using assms(1) by (rule load_one_Inr) (use assms(2) in \<open>auto simp: set_client_cases pc_Set_def GetCli_def\<close>)

lemma PromOption_Equal_refl [simp]: "PromOption_Equal p p"
  by (simp add: PromOption_Equal_iff)

text \<open>What a data source's client is after a load, given the one before: unusable options keep it.\<close>

definition client_ok ::
    "load_orders \<Rightarrow> (string \<Rightarrow> bool) \<Rightarrow> bool \<Rightarrow> Datasource \<Rightarrow> PromOption option \<Rightarrow> PromOption option \<Rightarrow> bool" where
  "client_ok ords parses c ds old new \<longleftrightarrow> (\<exists>po. prom_option ords c ds = Inr po \<and>
     (if usable parses (ds_Id ds) po then \<exists>q. new = Some q \<and> PromOption_Equal q po else new = old))"

lemma load_one_self:
  assumes "load_one ords parses c ds pc = Inr pc'" "pc_inv pc"
  shows "client_ok ords parses c ds (GetCli pc (ds_Id ds)) (GetCli pc' (ds_Id ds))"
proof -
  obtain po where po: "prom_option ords c ds = Inr po"
    and pc': "pc' = (if IsNil pc (ds_Id ds) then set_client parses (ds_Id ds) po pc
       else (case go_get (pc_PromOptions pc) (ds_Id ds) of
               Some q \<Rightarrow> (if \<not> PromOption_Equal q po then set_client parses (ds_Id ds) po pc else pc)
             | None \<Rightarrow> set_client parses (ds_Id ds) po pc))"
    using assms(1) by (auto simp: load_one_def res_bind_Inr_iff)
  have o: "go_get (pc_PromOptions pc) (ds_Id ds) = GetCli pc (ds_Id ds)"
    using assms(2) by (simp add: pc_inv_def GetCli_def)
  have s: "GetCli (set_client parses (ds_Id ds) po pc) (ds_Id ds) =
      (if usable parses (ds_Id ds) po then Some po else GetCli pc (ds_Id ds))"
    by (simp add: set_client_cases pc_Set_def GetCli_def)
  show ?thesis
  proof (cases "GetCli pc (ds_Id ds)")
    case None
    then have "pc' = set_client parses (ds_Id ds) po pc" using pc' by (simp add: IsNil_def GetCli_def)
    then show ?thesis using po s by (auto simp: client_ok_def)
  next
    case (Some q)
    then have "pc' = (if \<not> PromOption_Equal q po then set_client parses (ds_Id ds) po pc else pc)"
      using pc' o by (simp add: IsNil_def GetCli_def)
    then show ?thesis using po s Some by (auto simp: client_ok_def)
  qed
qed

lemma load_fold_frame:
  "res_fold (load_one ords parses c) dss pc = Inr pc' \<Longrightarrow> i \<notin> set (map ds_Id dss) \<Longrightarrow> GetCli pc' i = GetCli pc i"
proof (induction dss arbitrary: pc)
  case (Cons ds dss)
  then obtain pc1 where "load_one ords parses c ds pc = Inr pc1" "res_fold (load_one ords parses c) dss pc1 = Inr pc'"
    by (auto simp: res_bind_Inr_iff)
  then show ?case using Cons.IH [of pc1] Cons.prems(2) load_one_frame by auto
qed simp

lemma load_fold_self:
  assumes "res_fold (load_one ords parses c) dss pc = Inr pc'" "pc_inv pc" "distinct (map ds_Id dss)" "ds \<in> set dss"
  shows "client_ok ords parses c ds (GetCli pc (ds_Id ds)) (GetCli pc' (ds_Id ds))"
  using assms
proof (induction dss arbitrary: pc)
  case (Cons x xs)
  then obtain pc1 where 1: "load_one ords parses c x pc = Inr pc1" "res_fold (load_one ords parses c) xs pc1 = Inr pc'"
    by (auto simp: res_bind_Inr_iff)
  show ?case
  proof (cases "ds = x")
    case True
    then have "GetCli pc' (ds_Id ds) = GetCli pc1 (ds_Id ds)"
      using load_fold_frame [OF 1(2)] Cons.prems(3) by simp
    then show ?thesis using load_one_self [OF 1(1) Cons.prems(2)] True by simp
  next
    case False
    then have m: "ds \<in> set xs" using Cons.prems(4) by simp
    moreover have "ds_Id ds \<noteq> ds_Id x" using Cons.prems(3) imageI [OF m, of ds_Id] by auto
    ultimately have "ds \<in> set xs" "ds_Id ds \<noteq> ds_Id x" by simp_all
    then show ?thesis
      using Cons.IH [OF 1(2) load_one_inv [OF 1(1) Cons.prems(2)]] Cons.prems(3) load_one_frame [OF 1(1)] by auto
  qed
qed simp

lemma drop_useless_get:
  "GetCli (fold (drop_useless S) is pc) i = (if i \<in> set is \<and> i \<notin> S then None else GetCli pc i)"
  by (induction "is" arbitrary: pc) (auto simp: drop_useless_def pc_Del_def GetCli_def Let_def)

lemma drop_useless_fold_inv: "pc_inv pc \<Longrightarrow> pc_inv (fold (drop_useless S) is pc)"
  by (induction "is" arbitrary: pc) (auto intro: drop_useless_inv)

lemma drop_all_useless:
  assumes "fair_order ord"
  shows "GetCli (fold (drop_useless S) (GetDatasourceIds ord pc) pc) i = (if i \<in> S then GetCli pc i else None)"
proof -
  have "i \<in> set (GetDatasourceIds ord pc) \<longleftrightarrow> GetCli pc i \<noteq> None"
    using assms gm.keys_dom [of "pc_ReaderClients pc"] by (auto simp: GetDatasourceIds_def GetCli_def)
  then show ?thesis by (auto simp: drop_useless_get)
qed

lemma load_unfold:
  assumes "loadFromDatabase ords parses c (ps, e) (ls, None) pc = Inr pc'"
  obtains pc1 where "res_fold (load_one ords parses c) (ps @ ls) pc = Inr pc1"
    "pc' = fold (drop_useless (set (map ds_Id (ps @ ls)))) (GetDatasourceIds (lo_clients ords) pc1) pc1"
  using assms that by (auto simp: loadFromDatabase_def res_bind_Inr_iff simp del: set_map set_append)

subsection \<open>Properties\<close>

text \<open>After a load whose second query succeeded, readers, writers and remembered options agree, there
  are clients for listed data sources only, every listed data source with usable options has a
  client made from options equal to its own, and one without keeps the client it had.\<close>

theorem load_clients:
  assumes "loadFromDatabase ords parses c (ps, e) (ls, None) pc = Inr pc'" "pc_inv pc"
    "fair_order (lo_clients ords)" "distinct (map ds_Id (ps @ ls))"
  shows "pc_inv pc' \<and> (\<forall>i. GetCli pc' i \<noteq> None \<longrightarrow> i \<in> set (map ds_Id (ps @ ls))) \<and>
    (\<forall>ds \<in> set (ps @ ls). client_ok ords parses c ds (GetCli pc (ds_Id ds)) (GetCli pc' (ds_Id ds)))"
proof -
  obtain pc1 where f: "res_fold (load_one ords parses c) (ps @ ls) pc = Inr pc1"
    and pc': "pc' = fold (drop_useless (set (map ds_Id (ps @ ls)))) (GetDatasourceIds (lo_clients ords) pc1) pc1"
    using assms(1) by (rule load_unfold)
  have i1: "pc_inv pc1" by (rule res_fold_invariant [OF f]) (use assms(2) load_one_inv in blast)+
  have g: "GetCli pc' i = (if i \<in> set (map ds_Id (ps @ ls)) then GetCli pc1 i else None)" for i
    unfolding pc' using assms(3) by (rule drop_all_useless)
  have "pc_inv pc'" unfolding pc' using i1 by (rule drop_useless_fold_inv)
  moreover have "GetCli pc' (ds_Id ds) = GetCli pc1 (ds_Id ds)" if "ds \<in> set (ps @ ls)" for ds
    using that g by auto
  ultimately show ?thesis using g load_fold_self [OF f assms(2,4)] by (auto split: if_splits)
qed

definition sample_source :: Datasource where
  "sample_source = \<lparr>ds_Id = 1, ds_Name = ''prom'', ds_Description = '''', ds_PluginId = 1,
     ds_PluginType = ''prometheus'', ds_PluginTypeName = '''', ds_Category = ''timeseries'', ds_ClusterName = ''default'',
     ds_Settings = '''', ds_SettingsJson = [(''write_addr'', JStr ''http://w'')], ds_Status = ''enabled'', ds_HTTP = '''',
     ds_HTTPJson = \<lparr>ht_Timeout = 10000, ht_DialTimeout = 10000, ht_SkipTlsVerify = False,
       ht_MaxIdleConnsPerHost = 100, ht_Url = ''http://p'', ht_Headers = []\<rparr>, ds_Auth = '''',
     ds_AuthJson = \<lparr>au_BasicAuth = False, au_BasicAuthUser = '''', au_BasicAuthPassword = ''''\<rparr>,
     ds_CreatedAt = 0, ds_UpdatedAt = 0, ds_CreatedBy = '''', ds_UpdatedBy = ''''\<rparr>"

definition same_orders :: load_orders where
  "same_orders = \<lparr>lo_headers = (\<lambda>x. x), lo_settings = (\<lambda>x. x), lo_clients = (\<lambda>x. x)\<rparr>"

theorem load_clients_witness:
  "\<exists>pc po q. loadFromDatabase same_orders (\<lambda>u. True) True ([sample_source], None) ([], None) NewPromClient = Inr pc \<and>
     prom_option same_orders True sample_source = Inr po \<and> GetCli pc 1 = Some q \<and> PromOption_Equal q po"
proof -
  have o: "\<exists>po. prom_option same_orders True sample_source = Inr po \<and> po_Url po = ''http://p''"
    by (simp add: prom_option_def same_orders_def sample_source_def Contains_def Index_def)
  then have "\<exists>pc. loadFromDatabase same_orders (\<lambda>u. True) True ([sample_source], None) ([], None) NewPromClient = Inr pc"
    by (auto simp: loadFromDatabase_def load_one_def)
  then obtain pc where pc: "loadFromDatabase same_orders (\<lambda>u. True) True ([sample_source], None) ([], None) NewPromClient = Inr pc"
    by blast
  have "fair_order (lo_clients same_orders)" by (simp add: same_orders_def fair_order_id)
  from load_clients [OF pc NewPromClient_inv this] have "client_ok same_orders (\<lambda>u. True) True sample_source (GetCli NewPromClient 1) (GetCli pc 1)"
    by (simp add: sample_source_def)
  moreover have "usable (\<lambda>u. True) (ds_Id sample_source) po" if "po_Url po = ''http://p''" for po
    using that by (simp add: usable_def sample_source_def)
  ultimately show ?thesis using o pc by (auto simp: client_ok_def)
qed

text \<open>The error of the first query is overwritten, so a failure of the Prometheus query alone removes
  the clients of all Prometheus data sources.\<close>

lemma prom_query_failure_drops_clients:
  assumes "loadFromDatabase ords parses c ([], Some err) (ls, None) pc = Inr pc'" "fair_order (lo_clients ords)"
    "i \<notin> set (map ds_Id ls)"
  shows "GetCli pc' i = None"
proof -
  obtain pc1 where "pc' = fold (drop_useless (set (map ds_Id ([] @ ls)))) (GetDatasourceIds (lo_clients ords) pc1) pc1"
    using assms(1) by (rule load_unfold)
  then show ?thesis using drop_all_useless [OF assms(2)] assms(3) by simp
qed

end
