(* ===== verification/Float64.thy ===== *)
theory Float64
  imports Alert_Common
begin

text \<open>
  Arithmetic on 64-bit floating point numbers as the evaluator uses it: quotients and products of
  counters, whose magnitudes lie well inside the normal range. A result is rounded to 53 binary
  digits, ties to even; overflow and subnormal numbers do not occur at these magnitudes and are
  not modelled. The lemmas bound the rounding error by one part in \<open>2 ^ 53\<close>.
\<close>

fun bitlen :: "nat \<Rightarrow> nat" where
  "bitlen n = (if n = 0 then 0 else Suc (bitlen (n div 2)))"

declare bitlen.simps [simp del]

lemma bitlen_bounds: "0 < n \<Longrightarrow> 2 ^ (bitlen n - 1) \<le> n \<and> n < 2 ^ bitlen n \<and> 0 < bitlen n"
proof (induction n rule: bitlen.induct)
  case (1 n)
  show ?case
  proof (cases "n div 2 = 0")
    case True
    then have "n = 1" using "1.prems" by linarith
    then show ?thesis by (simp add: bitlen.simps)
  next
    case False
    let ?b = "bitlen (n div 2)"
    have ih: "2 ^ (?b - 1) \<le> n div 2" "n div 2 < 2 ^ ?b" "0 < ?b" using 1 False by auto
    have "(2::nat) ^ ?b = 2 * 2 ^ (?b - 1)" using ih(3) by (simp add: power_eq_if)
    then have "(2::nat) ^ ?b \<le> n" "n < 2 * 2 ^ ?b" using ih(1,2) by linarith+
    then show ?thesis using "1.prems" by (simp add: bitlen.simps [of n])
  qed
qed

text \<open>The binary exponent of a positive number.\<close>

definition ilog2 :: "rat \<Rightarrow> int" where
  "ilog2 q = (case quotient_of q of (a, b) \<Rightarrow>
     let k = int (bitlen (nat a)) - int (bitlen (nat b)) in if 2 powi k \<le> q then k else k - 1)"

definition round64 :: "rat \<Rightarrow> rat" where
  "round64 q = (if q = 0 then 0
     else let u = 2 powi (ilog2 \<bar>q\<bar> - 52) in of_int (round_half_even (q / u)) * u)"

lemma ilog2_lower:
  assumes "0 < q"
  shows "2 powi (ilog2 q) \<le> q"
proof -
  obtain a b where ab: "quotient_of q = (a, b)" by fastforce
  have b: "0 < b" using quotient_of_denom_pos [OF ab] .
  have q: "q = of_int a / of_int b" using quotient_of_div [OF ab] .
  have a: "0 < a" using assms b q by (simp add: zero_less_divide_iff)
  let ?m = "bitlen (nat a)" and ?n = "bitlen (nat b)"
  have m: "2 ^ (?m - 1) \<le> nat a" "0 < ?m" using bitlen_bounds [of "nat a"] a by auto
  have n: "nat b < 2 ^ ?n" using bitlen_bounds [of "nat b"] b by auto
  have "of_nat (2 ^ (?m - 1)) \<le> (of_nat (nat a) :: rat)" using m(1) by (rule of_nat_mono)
  then have A: "(2::rat) ^ (?m - 1) \<le> of_int a" using a by simp
  have "of_nat (nat b) < (of_nat (2 ^ ?n) :: rat)" using n by (simp only: of_nat_less_iff)
  then have B: "(of_int b :: rat) \<le> 2 ^ ?n" using b by simp
  have "(2::rat) powi (int ?m - int ?n - 1) = 2 ^ (?m - 1) / 2 ^ ?n"
    using m(2) by (simp add: power_int_diff of_nat_diff flip: power_int_of_nat)
  also have "\<dots> \<le> of_int a / of_int b" using A B a b by (intro frac_le) auto
  finally have low: "(2::rat) powi (int ?m - int ?n - 1) \<le> q" using q by simp
  then show ?thesis by (simp add: ilog2_def ab Let_def)
qed

lemma ilog2_upper:
  assumes "0 < q"
  shows "q < 2 powi (ilog2 q + 1)"
proof -
  obtain a b where ab: "quotient_of q = (a, b)" by fastforce
  have b: "0 < b" using quotient_of_denom_pos [OF ab] .
  have q: "q = of_int a / of_int b" using quotient_of_div [OF ab] .
  have a: "0 < a" using assms b q by (simp add: zero_less_divide_iff)
  let ?m = "bitlen (nat a)" and ?n = "bitlen (nat b)"
  have m: "nat a < 2 ^ ?m" using bitlen_bounds [of "nat a"] a by auto
  have n: "2 ^ (?n - 1) \<le> nat b" "0 < ?n" using bitlen_bounds [of "nat b"] b by auto
  have "of_nat (nat a) < (of_nat (2 ^ ?m) :: rat)" using m by (simp only: of_nat_less_iff)
  then have A: "(of_int a :: rat) < 2 ^ ?m" using a by simp
  have "of_nat (2 ^ (?n - 1)) \<le> (of_nat (nat b) :: rat)" using n(1) by (rule of_nat_mono)
  then have B: "(2::rat) ^ (?n - 1) \<le> of_int b" using b by simp
  have "q < 2 ^ ?m / 2 ^ (?n - 1)" unfolding q using A B a by (intro frac_less) auto
  also have "\<dots> = (2::rat) powi (int ?m - int ?n + 1)"
  proof -
    have e: "int ?m - int ?n + 1 = int ?m - int (?n - 1)" using n(2) by simp
    show ?thesis unfolding e by (simp add: power_int_diff)
  qed
  finally show ?thesis by (simp add: ilog2_def ab Let_def)
qed

lemma ilog2_eq: "0 < q \<Longrightarrow> 2 powi e \<le> q \<Longrightarrow> q < 2 powi (e + 1) \<Longrightarrow> ilog2 q = e"
proof (rule ccontr)
  assume q: "0 < q" "2 powi e \<le> q" "q < 2 powi (e + 1)" and "ilog2 q \<noteq> e"
  then consider "e + 1 \<le> ilog2 q" | "ilog2 q + 1 \<le> e" by linarith
  then show False
  proof cases
    case 1
    then have "(2::rat) powi (e + 1) \<le> 2 powi (ilog2 q)" by (intro power_int_increasing) auto
    then show False using ilog2_lower [OF q(1)] q(3) by simp
  next
    case 2
    then have "(2::rat) powi (ilog2 q + 1) \<le> 2 powi e" by (intro power_int_increasing) auto
    then show False using ilog2_upper [OF q(1)] q(2) by simp
  qed
qed

lemma round_half_even_error: "\<bar>of_int (round_half_even q) - q\<bar> \<le> 1 / 2"
proof -
  define f where "f = (of_int \<lfloor>q\<rfloor> :: rat)"
  have f: "f \<le> q" "q - f < 1" unfolding f_def by linarith+
  have "of_int (round_half_even q) = f \<and> q - f \<le> 1 / 2 \<or> of_int (round_half_even q) = f + 1 \<and> 1 / 2 \<le> q - f"
    by (auto simp: round_half_even_def Let_def f_def)
  then show ?thesis using f by linarith
qed

lemma round_half_even_nearest:
  assumes "\<bar>of_int n - q\<bar> < 1 / 2"
  shows "round_half_even q = n"
proof -
  have "\<bar>(of_int (round_half_even q) :: rat) - of_int n\<bar> < 1"
    using assms round_half_even_error [of q] by linarith
  then show ?thesis by linarith
qed

lemma powi_minus_numeral: "(2::rat) powi (- numeral n) = 1 / 2 ^ numeral n"
  by (simp add: power_int_minus field_simps)

lemma round64_error: "\<bar>round64 q - q\<bar> \<le> \<bar>q\<bar> / 2 ^ 53"
proof (cases "q = 0")
  case True
  then show ?thesis by (simp add: round64_def)
next
  case False
  let ?u = "(2::rat) powi (ilog2 \<bar>q\<bar> - 52)"
  have u: "0 < ?u" by simp
  have "?u = 2 powi (ilog2 \<bar>q\<bar>) / 2 ^ 52" by (simp add: power_int_diff)
  also have "\<dots> \<le> \<bar>q\<bar> / 2 ^ 52" using ilog2_lower [of "\<bar>q\<bar>"] False by (simp add: divide_right_mono)
  finally have ul: "?u \<le> \<bar>q\<bar> / 2 ^ 52" .
  have "round64 q - q = (of_int (round_half_even (q / ?u)) - q / ?u) * ?u"
    using u False by (simp add: round64_def Let_def field_simps)
  then have "\<bar>round64 q - q\<bar> = \<bar>of_int (round_half_even (q / ?u)) - q / ?u\<bar> * ?u"
    using u by (simp add: abs_mult)
  also have "\<dots> \<le> 1 / 2 * ?u" using round_half_even_error u by (intro mult_right_mono) auto
  also have "\<dots> \<le> \<bar>q\<bar> / 2 ^ 53" using ul by simp
  finally show ?thesis .
qed

subsection \<open>Operations\<close>

text \<open>\<open>float64(a) / float64(b)\<close> of two counters: a zero divisor gives a NaN or an infinity.\<close>

definition fdiv :: "int \<Rightarrow> int \<Rightarrow> float64" where
  "fdiv a b = (if b = 0 then (if a = 0 then NaN else if a > 0 then PosInf else NegInf)
     else Finite (round64 (of_int a / of_int b)))"

fun fmul :: "float64 \<Rightarrow> rat \<Rightarrow> float64" where
  "fmul NaN c = NaN"
| "fmul PosInf c = (if c = 0 then NaN else if c > 0 then PosInf else NegInf)"
| "fmul NegInf c = (if c = 0 then NaN else if c > 0 then NegInf else PosInf)"
| "fmul (Finite q) c = Finite (round64 (q * c))"

fun fge :: "float64 \<Rightarrow> rat \<Rightarrow> bool" where
  "fge NaN c = False"
| "fge PosInf c = True"
| "fge NegInf c = False"
| "fge (Finite q) c = (c \<le> q)"

text \<open>The rounded percentage of a part of a whole.\<close>

definition percent64 :: "int \<Rightarrow> int \<Rightarrow> float64" where
  "percent64 a b = fmul (fdiv a b) 100"

lemma percent64_error:
  assumes "0 \<le> a" "a \<le> b" "0 < b"
  shows "\<exists>p. percent64 a b = Finite p \<and> \<bar>p - 100 * of_int a / of_int b\<bar> \<le> 1 / 10 ^ 12"
proof -
  let ?x = "(of_int a :: rat) / of_int b"
  let ?r = "round64 ?x" and ?p = "round64 (round64 ?x * 100)"
  have x: "0 \<le> ?x" "?x \<le> 1" using assms by (auto simp: divide_le_eq)
  have "\<bar>?r - ?x\<bar> \<le> \<bar>?x\<bar> / 2 ^ 53" by (rule round64_error)
  also have "\<dots> \<le> 1 / 2 ^ 53" using x by (intro divide_right_mono) auto
  finally have e1: "\<bar>?r - ?x\<bar> \<le> 1 / 2 ^ 53" .
  have "(1::rat) / 2 ^ 53 \<le> 1" by simp
  then have "\<bar>?r\<bar> \<le> 2" using e1 x by linarith
  then have r: "\<bar>?r * 100\<bar> \<le> 200" by (simp add: abs_mult)
  have "\<bar>?p - ?r * 100\<bar> \<le> \<bar>?r * 100\<bar> / 2 ^ 53" by (rule round64_error)
  also have "\<dots> \<le> 200 / 2 ^ 53" using r by (simp add: divide_right_mono)
  finally have e2: "\<bar>?p - ?r * 100\<bar> \<le> 200 / 2 ^ 53" .
  have "\<bar>p - 100 * x\<bar> \<le> \<bar>p - r * 100\<bar> + 100 * \<bar>r - x\<bar>" for p r x :: rat by (auto simp: abs_if)
  then have "\<bar>?p - 100 * ?x\<bar> \<le> \<bar>?p - ?r * 100\<bar> + 100 * \<bar>?r - ?x\<bar>" .
  also have "\<dots> \<le> 200 / 2 ^ 53 + 100 * (1 / 2 ^ 53)" using e1 e2 by (intro add_mono mult_left_mono) auto
  also have "\<dots> \<le> 1 / 10 ^ 12" by simp
  finally show ?thesis using assms(3) by (simp add: percent64_def fdiv_def)
qed

text \<open>Of one hundred, twenty-nine are less than 29 percent: the quotient is rounded down.\<close>

lemma ilog2_29_100: "ilog2 (29 / 100) = -2"
  by (rule ilog2_eq) (simp_all add: powi_minus_numeral)

lemma round64_29_100: "round64 (29 / 100) = 5224175567749775 / 18014398509481984"
proof -
  have "round_half_even (130604389193744384 / 25) = 5224175567749775" by (rule round_half_even_nearest) simp
  then show ?thesis by (simp add: round64_def ilog2_29_100 Let_def powi_minus_numeral)
qed

lemma percent64_29_100: "percent64 29 100 = Finite (8162774324609023 / 281474976710656)"
proof -
  have "ilog2 (130604389193744375 / 4503599627370496) = 4"
    by (rule ilog2_eq) (simp_all add: powi_minus_numeral)
  moreover have "round_half_even (130604389193744375 / 16) = 8162774324609023"
    by (rule round_half_even_nearest) simp
  ultimately have "round64 (130604389193744375 / 4503599627370496) = 8162774324609023 / 281474976710656"
    by (simp add: round64_def Let_def powi_minus_numeral)
  then show ?thesis by (simp add: percent64_def fdiv_def round64_29_100)
qed

end
