(* ===== verification/Host_Query.thy ===== *)
theory Host_Query
  imports Alert_Common
begin

text \<open>
  Rules on hosts select their hosts with filters on groups, tags and names. \<open>GetHostsQuery\<close>
  (\<open>models/alert_rule.go\<close>) turns each filter into a map from SQL conditions to arguments, and
  \<open>TargetFilterQueryBuild\<close> (\<open>models/target.go\<close>) joins the conditions of one map with OR and the
  maps with AND. The table of targets is a list; the comparison \<open>LIKE\<close> of the database is the
  field \<open>hd_like\<close> (value, pattern), and \<open>hd_fail\<close> says which statements fail. The group object
  that \<open>TargetGetsByFilter\<close> attaches to a target is read by the web pages only and left out.
\<close>

subsection \<open>Filters as conditions\<close>

record HostQuery =
  hq_Key :: string
  hq_Op :: string
  hq_Values :: "json list"

datatype sql_arg = Ids "int list" | Pattern string | Idents "string list"

type_synonym host_cond = "(string, sql_arg) go_map"

text \<open>Re-decoding the values as integers: a number is written without a fraction of zeros, what is not an
  integer becomes zero, and the error is ignored. Numbers are literals without an exponent.\<close>

fun json_int64 :: "json \<Rightarrow> int" where
  "json_int64 (JNum s) =
     (let n = takeWhile (\<lambda>c. c \<noteq> CHR ''.'') s; fraction = tl (drop (length n) s)
      in case ParseInt (if list_all (\<lambda>c. c = CHR ''0'') fraction then n else s) of Some i \<Rightarrow> i | None \<Rightarrow> 0)"
| "json_int64 _ = 0"

definition ParseInt64 :: "json list \<Rightarrow> int list" where
  "ParseInt64 values = map json_int64 values"

fun host_strings :: "json list \<Rightarrow> string list res" where
  "host_strings [] = Inr []"
| "host_strings (JNull # vs) = host_strings vs"
| "host_strings (JStr s # vs) = res_bind (host_strings vs) (\<lambda>lst. Inr (s # lst))"
| "host_strings (_ # vs) = Inl Type_assertion"

fun tag_conds :: "string \<Rightarrow> string \<Rightarrow> string list \<Rightarrow> host_cond \<Rightarrow> host_cond" where
  "tag_conds cond blank [] m = m"
| "tag_conds cond blank (tag # tags) m =
     tag_conds cond (blank @ '' '') tags (go_set (cond @ blank) (Pattern (''%'' @ tag @ ''%'')) m)"

definition host_cond_of :: "HostQuery \<Rightarrow> host_cond res" where
  "host_cond_of q =
     (if hq_Key q = ''group_ids'' then
        Inr [(if hq_Op q = ''=='' then ''group_id in (?)'' else ''group_id not in (?)'', Ids (ParseInt64 (hq_Values q)))]
      else if hq_Key q = ''tags'' then
        res_bind (host_strings (hq_Values q)) (\<lambda>lst.
        Inr (tag_conds (if hq_Op q = ''=='' then ''tags like ?'' else ''tags not like ?'') '' '' lst []))
      else if hq_Key q = ''hosts'' then
        res_bind (host_strings (hq_Values q)) (\<lambda>lst.
        Inr [(if hq_Op q = ''=='' then ''ident in (?)'' else ''ident not in (?)'', Idents lst)])
      else Inr [])"

fun GetHostsQuery :: "HostQuery list \<Rightarrow> host_cond list res" where
  "GetHostsQuery [] = Inr []"
| "GetHostsQuery (q # qs) =
     res_bind (host_cond_of q) (\<lambda>m. res_bind (GetHostsQuery qs) (\<lambda>ms. Inr (m # ms)))"

subsection \<open>Statements on the table of targets\<close>

record host_db =
  hd_targets :: "Target list"
  hd_like :: "string \<Rightarrow> string \<Rightarrow> bool"
  hd_fail :: "string \<Rightarrow> bool"

text \<open>An empty list is written as \<open>(NULL)\<close>, so that neither \<open>IN\<close> nor \<open>NOT IN\<close> is true of it.\<close>

fun cond_holds :: "host_db \<Rightarrow> Target \<Rightarrow> string \<times> sql_arg \<Rightarrow> bool" where
  "cond_holds D t (k, Ids ids) =
     (if k = ''group_id in (?)'' then tg_GroupId t \<in> set ids else ids \<noteq> [] \<and> tg_GroupId t \<notin> set ids)"
| "cond_holds D t (k, Pattern p) =
     (if TrimSpace k = ''tags like ?'' then hd_like D (tg_Tags t) p else \<not> hd_like D (tg_Tags t) p)"
| "cond_holds D t (k, Idents l) =
     (if k = ''ident in (?)'' then tg_Ident t \<in> set l else l \<noteq> [] \<and> tg_Ident t \<notin> set l)"

definition query_holds :: "host_db \<Rightarrow> host_cond list \<Rightarrow> Target \<Rightarrow> bool" where
  "query_holds D query t = list_all (\<lambda>q. q = [] \<or> list_ex (cond_holds D t) q) query"

definition TargetFilterQueryBuild :: "host_db \<Rightarrow> host_cond list \<Rightarrow> nat \<Rightarrow> nat \<Rightarrow> Target list \<Rightarrow> Target list" where
  "TargetFilterQueryBuild D query limit offset rows =
     (let lst = sort_key tg_Ident (filter (query_holds D query) rows)
      in if limit > 0 then take limit (drop offset lst) else lst)"

definition TargetGetsByFilter :: "host_db \<Rightarrow> host_cond list \<Rightarrow> nat \<Rightarrow> nat \<Rightarrow> string + Target list" where
  "TargetGetsByFilter D query limit offset =
     (if hd_fail D ''targets'' then Inl ''db''
      else Inr (map (\<lambda>t. t\<lparr>tg_TagsJSON := Fields (tg_Tags t)\<rparr>)
        (TargetFilterQueryBuild D query limit offset (hd_targets D))))"

definition TargetCountByFilter :: "host_db \<Rightarrow> host_cond list \<Rightarrow> string + int" where
  "TargetCountByFilter D query =
     (if hd_fail D ''count'' then Inl ''db''
      else Inr (int (length (TargetFilterQueryBuild D query 0 0 (hd_targets D)))))"

definition MissTargetGetsByFilter :: "host_db \<Rightarrow> host_cond list \<Rightarrow> int \<Rightarrow> string + Target list" where
  "MissTargetGetsByFilter D query ts =
     (if hd_fail D ''miss'' then Inl ''db''
      else Inr (TargetFilterQueryBuild D query 0 0 (filter (\<lambda>t. tg_UpdateAt t < ts) (hd_targets D))))"

definition MissTargetCountByFilter :: "host_db \<Rightarrow> host_cond list \<Rightarrow> int \<Rightarrow> string + int" where
  "MissTargetCountByFilter D query ts =
     (if hd_fail D ''miss_count'' then Inl ''db''
      else Inr (int (length (TargetFilterQueryBuild D query 0 0 (filter (\<lambda>t. tg_UpdateAt t < ts) (hd_targets D))))))"

subsection \<open>What a filter selects\<close>

lemma filter_build_set:
  "set (TargetFilterQueryBuild D query 0 0 rows) = {t \<in> set rows. query_holds D query t}"
  by (auto simp: TargetFilterQueryBuild_def)

lemma miss_count_le:
  "MissTargetCountByFilter D q ts = Inr c \<Longrightarrow> TargetCountByFilter D q = Inr n \<Longrightarrow> 0 \<le> c \<and> c \<le> n"
proof -
  assume a: "MissTargetCountByFilter D q ts = Inr c" "TargetCountByFilter D q = Inr n"
  have "length (filter P (filter Q xs)) \<le> length (filter P xs)" for P Q and xs :: "Target list"
    by (induction xs) auto
  then show ?thesis using a
    by (auto simp: MissTargetCountByFilter_def TargetCountByFilter_def TargetFilterQueryBuild_def split: if_splits)
qed

text \<open>The keys of the tag conditions are told apart by trailing blanks.\<close>

definition tag_keys :: "string \<Rightarrow> nat \<Rightarrow> string list \<Rightarrow> host_cond" where
  "tag_keys cond n tags = map (\<lambda>i. (cond @ replicate (n + i) CHR '' '', Pattern (''%'' @ tags ! i @ ''%''))) [0..<length tags]"

lemma go_set_new: "k \<notin> fst ` set m \<Longrightarrow> go_set k v m = m @ [(k, v)]"
  by (induction m) auto

lemma tag_conds_keys:
  assumes "\<forall>k \<in> fst ` set m. \<exists>j < n. k = cond @ replicate j CHR '' ''"
  shows "tag_conds cond (replicate n CHR '' '') tags m = m @ tag_keys cond n tags"
  using assms
proof (induction tags arbitrary: n m)
  case Nil
  then show ?case by (simp add: tag_keys_def)
next
  case (Cons tag tags)
  let ?k = "cond @ replicate n CHR '' ''" and ?v = "Pattern (''%'' @ tag @ ''%'')"
  have "?k \<notin> fst ` set m"
  proof
    assume "?k \<in> fst ` set m"
    then obtain j where "j < n" "?k = cond @ replicate j CHR '' ''" using Cons.prems by blast
    then show False by (metis append_same_eq length_replicate less_irrefl_nat same_append_eq)
  qed
  then have s: "go_set ?k ?v m = m @ [(?k, ?v)]" by (rule go_set_new)
  have "\<forall>k \<in> fst ` set (m @ [(?k, ?v)]). \<exists>j < Suc n. k = cond @ replicate j CHR '' ''"
    using Cons.prems less_Suc_eq by fastforce
  then have "tag_conds cond (replicate (Suc n) CHR '' '') tags (m @ [(?k, ?v)]) =
      (m @ [(?k, ?v)]) @ tag_keys cond (Suc n) tags" by (rule Cons.IH)
  moreover have "tag_keys cond n (tag # tags) = (?k, ?v) # tag_keys cond (Suc n) tags"
    by (auto simp: tag_keys_def upt_conv_Cons map_Suc_upt [symmetric] simp del: upt_Suc map_Suc_upt)
  ultimately show ?case unfolding tag_conds.simps s by (simp add: replicate_append_same)
qed

lemma TrimSpace_blanks:
  assumes "s \<noteq> []" "\<not> is_space (hd s)" "\<not> is_space (last s)"
  shows "TrimSpace (s @ replicate n CHR '' '') = s"
proof -
  have "dropWhile is_space (s @ x) = s @ x" for x using assms(1,2) by (cases s) auto
  moreover have "TrimRight_by is_space (s @ replicate n CHR '' '') = TrimRight_by is_space s"
    by (rule TrimRight_by_all) (simp add: is_space_def)
  ultimately show ?thesis using assms by (simp add: TrimSpace_def TrimRight_by_keep)
qed

lemma cond_holds_tag_keys:
  "list_ex (cond_holds D t) (tag_keys ''tags like ?'' n tags) \<longleftrightarrow>
     (\<exists>tag \<in> set tags. hd_like D (tg_Tags t) (''%'' @ tag @ ''%''))"
  "list_ex (cond_holds D t) (tag_keys ''tags not like ?'' n tags) \<longleftrightarrow>
     (\<exists>tag \<in> set tags. \<not> hd_like D (tg_Tags t) (''%'' @ tag @ ''%''))"
proof -
  have a: "TrimSpace (''tags like ?'' @ replicate k CHR '' '') = ''tags like ?''" for k
    by (rule TrimSpace_blanks) (simp_all add: is_space_def)
  have b: "TrimSpace (''tags not like ?'' @ replicate k CHR '' '') = ''tags not like ?''" for k
    by (rule TrimSpace_blanks) (simp_all add: is_space_def)
  have st: "set tags = (!) tags ` set [0..<length tags]" by (metis map_nth set_map)
  have ex: "(\<exists>i \<in> set [0..<length tags]. P (tags ! i)) \<longleftrightarrow> (\<exists>tag \<in> set tags. P tag)" for P
    unfolding st bex_simps ..
  have k: "list_ex (cond_holds D t) (tag_keys c n tags) \<longleftrightarrow> (\<exists>i \<in> set [0..<length tags].
      cond_holds D t (c @ replicate (n + i) CHR '' '', Pattern (''%'' @ tags ! i @ ''%'')))" for c
    by (simp add: tag_keys_def list_ex_iff)
  have h: "cond_holds D t (''tags like ?'' @ replicate j CHR '' '', Pattern p) \<longleftrightarrow> hd_like D (tg_Tags t) p" for j p
    unfolding cond_holds.simps a by simp
  have h': "cond_holds D t (''tags not like ?'' @ replicate j CHR '' '', Pattern p) \<longleftrightarrow> \<not> hd_like D (tg_Tags t) p" for j p
    unfolding cond_holds.simps b by simp
  show "list_ex (cond_holds D t) (tag_keys ''tags like ?'' n tags) \<longleftrightarrow>
     (\<exists>tag \<in> set tags. hd_like D (tg_Tags t) (''%'' @ tag @ ''%''))"
    unfolding k h by (rule ex)
  show "list_ex (cond_holds D t) (tag_keys ''tags not like ?'' n tags) \<longleftrightarrow>
     (\<exists>tag \<in> set tags. \<not> hd_like D (tg_Tags t) (''%'' @ tag @ ''%''))"
    unfolding k h' by (rule ex)
qed

text \<open>What the conditions of one filter select. Those on tags hold when one of its tags does, with the negated
  operator just as with the positive one; a filter without values selects nothing, except on tags,
  where it selects every host.\<close>

definition strings_of :: "json list \<Rightarrow> string list" where
  "strings_of vs = List.map_filter (\<lambda>v. case v of JStr s \<Rightarrow> Some s | _ \<Rightarrow> None) vs"

definition conditions_select :: "host_db \<Rightarrow> HostQuery \<Rightarrow> Target \<Rightarrow> bool" where
  "conditions_select D q t \<longleftrightarrow>
     (let pos = (hq_Op q = ''==''); ids = ParseInt64 (hq_Values q); names = strings_of (hq_Values q) in
      if hq_Key q = ''group_ids'' then ids \<noteq> [] \<and> (tg_GroupId t \<in> set ids \<longleftrightarrow> pos)
      else if hq_Key q = ''tags''
      then names = [] \<or> (\<exists>tag \<in> set names. hd_like D (tg_Tags t) (''%'' @ tag @ ''%'') \<longleftrightarrow> pos)
      else if hq_Key q = ''hosts'' then names \<noteq> [] \<and> (tg_Ident t \<in> set names \<longleftrightarrow> pos)
      else True)"

definition host_values_ok :: "HostQuery \<Rightarrow> bool" where
  "host_values_ok q \<longleftrightarrow> hq_Key q \<in> {''tags'', ''hosts''} \<longrightarrow> (\<forall>v \<in> set (hq_Values q). v = JNull \<or> (\<exists>s. v = JStr s))"

lemma host_strings_ok:
  "\<forall>v \<in> set vs. v = JNull \<or> (\<exists>s. v = JStr s) \<Longrightarrow> host_strings vs = Inr (strings_of vs)"
  by (induction vs rule: host_strings.induct) (auto simp: strings_of_def map_filter_simps)

lemma host_cond_of_selects:
  assumes "host_values_ok q"
  shows "\<exists>m. host_cond_of q = Inr m \<and> (m = [] \<or> list_ex (cond_holds D t) m \<longleftrightarrow> conditions_select D q t)"
proof -
  let ?names = "strings_of (hq_Values q)"
  have s: "host_strings (hq_Values q) = Inr ?names" if "hq_Key q = ''tags'' \<or> hq_Key q = ''hosts''"
    using that assms host_strings_ok unfolding host_values_ok_def by blast
  have tc: "tag_conds c '' '' ?names [] = tag_keys c (Suc 0) ?names" for c
    using tag_conds_keys [of "[]" 1 c ?names] by simp
  have e: "tag_keys c (Suc 0) ?names = [] \<longleftrightarrow> ?names = []" for c by (auto simp: tag_keys_def)
  consider "hq_Key q = ''tags''" | "hq_Key q = ''group_ids''" | "hq_Key q = ''hosts''"
    | "hq_Key q \<notin> {''tags'', ''group_ids'', ''hosts''}" by auto
  then show ?thesis
  proof cases
    case 1
    then show ?thesis using s by (auto simp: host_cond_of_def conditions_select_def tc e cond_holds_tag_keys Let_def)
  next
    case 2
    then show ?thesis by (auto simp: host_cond_of_def conditions_select_def Let_def)
  next
    case 3
    then show ?thesis using s by (auto simp: host_cond_of_def conditions_select_def Let_def)
  next
    case 4
    then show ?thesis by (auto simp: host_cond_of_def conditions_select_def Let_def)
  qed
qed

lemma GetHostsQuery_selects:
  "\<forall>q \<in> set qs. host_values_ok q \<Longrightarrow>
   \<exists>query. GetHostsQuery qs = Inr query \<and> (\<forall>t. query_holds D query t \<longleftrightarrow> (\<forall>q \<in> set qs. conditions_select D q t))"
proof (induction qs)
  case Nil
  then show ?case by (simp add: query_holds_def)
next
  case (Cons q qs)
  obtain query where r: "GetHostsQuery qs = Inr query"
    "\<And>t. query_holds D query t \<longleftrightarrow> (\<forall>q \<in> set qs. conditions_select D q t)" using Cons by auto
  have "host_values_ok q" using Cons.prems by simp
  from host_cond_of_selects [OF this] obtain m where m: "host_cond_of q = Inr m" by blast
  have "m = [] \<or> list_ex (cond_holds D t) m \<longleftrightarrow> conditions_select D q t" for t
    using host_cond_of_selects [of q D t] Cons.prems m by auto
  then show ?case using r m by (auto simp: query_holds_def)
qed

subsection \<open>Properties\<close>

text \<open>What a filter means: the host is in one of the named groups (has one of the named tags, is one
  of the named hosts), or, with the negated operator, in none of them. A filter on tags that names
  none does not restrict, and neither does a filter with an unknown key.\<close>

definition host_selects :: "host_db \<Rightarrow> HostQuery \<Rightarrow> Target \<Rightarrow> bool" where
  "host_selects D q t \<longleftrightarrow>
     (let hit = (if hq_Key q = ''group_ids'' then tg_GroupId t \<in> set (ParseInt64 (hq_Values q))
                 else if hq_Key q = ''tags''
                 then \<exists>tag \<in> set (strings_of (hq_Values q)). hd_like D (tg_Tags t) (''%'' @ tag @ ''%'')
                 else tg_Ident t \<in> set (strings_of (hq_Values q)))
      in if hq_Key q \<notin> {''group_ids'', ''tags'', ''hosts''} then True
         else if hq_Key q = ''tags'' \<and> strings_of (hq_Values q) = [] then True
         else if hq_Op q = ''=='' then hit else \<not> hit)"

text \<open>The negated filters the conditions are right for: at most one tag, at least one group or host.\<close>

definition negation_ok :: "HostQuery \<Rightarrow> bool" where
  "negation_ok q \<longleftrightarrow> hq_Op q = ''=='' \<or>
     (hq_Key q = ''group_ids'' \<longrightarrow> ParseInt64 (hq_Values q) \<noteq> []) \<and>
     (hq_Key q = ''tags'' \<longrightarrow> length (strings_of (hq_Values q)) \<le> 1) \<and>
     (hq_Key q = ''hosts'' \<longrightarrow> strings_of (hq_Values q) \<noteq> [])"

lemma conditions_mean:
  assumes "negation_ok q"
  shows "conditions_select D q t = host_selects D q t"
proof (cases "hq_Key q = ''tags''")
  case True
  show ?thesis
  proof (cases "strings_of (hq_Values q)")
    case Nil
    then show ?thesis using True by (simp add: conditions_select_def host_selects_def)
  next
    case (Cons tag tags)
    then have "hq_Op q = ''=='' \<or> tags = []" using assms True by (simp add: negation_ok_def)
    then show ?thesis using True Cons by (auto simp: conditions_select_def host_selects_def)
  qed
next
  case False
  then show ?thesis using assms by (auto simp: conditions_select_def host_selects_def negation_ok_def Let_def)
qed

text \<open>C31. The hosts a rule selects are exactly the hosts that satisfy each of its filters: a host is in
  (or, with the negated operator, not in) the groups, tags or hosts the filter names. Tags and hosts
  are strings; a negated filter names at most one tag (the conditions of several negated tags are
  joined by or: \<open>tags_excluded_any\<close>) and at least one group or host.\<close>

theorem hosts_selected:
  assumes "\<forall>q \<in> set qs. host_values_ok q \<and> negation_ok q" "\<not> hd_fail D ''targets''"
  shows "\<exists>query lst. GetHostsQuery qs = Inr query \<and> TargetGetsByFilter D query 0 0 = Inr lst \<and>
    tg_Ident ` set lst = tg_Ident ` {t \<in> set (hd_targets D). \<forall>q \<in> set qs. host_selects D q t} \<and>
    sorted (map tg_Ident lst)"
proof -
  obtain query where q: "GetHostsQuery qs = Inr query"
    "\<And>t. query_holds D query t \<longleftrightarrow> (\<forall>q \<in> set qs. conditions_select D q t)"
    using GetHostsQuery_selects [of qs D] assms(1) by blast
  then have q: "GetHostsQuery qs = Inr query" "\<And>t. query_holds D query t \<longleftrightarrow> (\<forall>q \<in> set qs. host_selects D q t)"
    using assms(1) by (simp_all add: conditions_mean)
  let ?rows = "TargetFilterQueryBuild D query 0 0 (hd_targets D)"
  have "tg_Ident ` (\<lambda>t. t\<lparr>tg_TagsJSON := Fields (tg_Tags t)\<rparr>) ` A = tg_Ident ` A" for A
    by (simp add: image_image)
  moreover have "sorted (map tg_Ident ?rows)" by (simp add: TargetFilterQueryBuild_def)
  ultimately show ?thesis
    using q assms(2) by (simp add: TargetGetsByFilter_def filter_build_set o_def)
qed

definition sample_host :: Target where
  "sample_host = \<lparr>tg_Id = 1, tg_GroupId = 2, tg_GroupObj = None, tg_Ident = ''web01'', tg_Note = '''',
     tg_Tags = ''env=prod '', tg_TagsJSON = [], tg_TagsMap = [], tg_UpdateAt = 100, tg_HostIp = '''', tg_UnixTime = 0,
     tg_Offset = 0, tg_TargetUp = Finite 0, tg_MemUtil = Finite 0, tg_CpuNum = 4, tg_CpuUtil = Finite 0,
     tg_OS = '''', tg_Arch = '''', tg_RemoteAddr = ''''\<rparr>"

definition sample_host_db :: host_db where
  "sample_host_db = \<lparr>hd_targets = [sample_host], hd_like = (\<lambda>v p. Contains v (butlast (tl p))), hd_fail = (\<lambda>_. False)\<rparr>"

theorem hosts_selected_witness:
  "\<exists>query lst. GetHostsQuery [\<lparr>hq_Key = ''group_ids'', hq_Op = ''=='', hq_Values = [JNum ''2'']\<rparr>,
       \<lparr>hq_Key = ''tags'', hq_Op = ''!='', hq_Values = [JStr ''env=test'']\<rparr>] = Inr query \<and>
     TargetGetsByFilter sample_host_db query 0 0 = Inr lst \<and> tg_Ident ` set lst = {''web01''}"
proof -
  let ?q = "\<lparr>hq_Key = ''group_ids'', hq_Op = ''=='', hq_Values = [JNum ''2'']\<rparr>"
  let ?r = "\<lparr>hq_Key = ''tags'', hq_Op = ''!='', hq_Values = [JStr ''env=test'']\<rparr>"
  have p: "ParseInt ''2'' = Some 2"
    by (simp add: ParseInt_def read_digits_def digit_val_def int64_range_def)
  have "host_selects sample_host_db ?r sample_host" by code_simp
  then have "{t \<in> set (hd_targets sample_host_db). \<forall>q \<in> set [?q, ?r]. host_selects sample_host_db q t} = {sample_host}"
    by (auto simp: sample_host_db_def host_selects_def ParseInt64_def p sample_host_def)
  moreover have "negation_ok ?r" by (simp add: negation_ok_def strings_of_def map_filter_simps)
  ultimately show ?thesis
    using hosts_selected [of "[?q, ?r]" sample_host_db]
    by (auto simp: host_values_ok_def negation_ok_def sample_host_db_def sample_host_def)
qed

text \<open>With two tags and the negated operator a host is selected as soon as it lacks one of them: a host
  that carries the other one is selected too, against the meaning of the filter.\<close>

lemma tags_excluded_any:
  assumes "hq_Key q = ''tags''" "hq_Op q = ''!=''" "hq_Values q = [JStr a, JStr b]"
    "\<not> hd_like D (tg_Tags t) (''%'' @ b @ ''%'')"
  shows "conditions_select D q t"
    "hd_like D (tg_Tags t) (''%'' @ a @ ''%'') \<Longrightarrow> \<not> host_selects D q t"
  using assms by (simp_all add: conditions_select_def host_selects_def strings_of_def map_filter_simps)

end
