(* ===== verification/Eval.thy ===== *)
theory Eval
  imports Processor Memsto Prom_Clients Float64 Host_Query
begin

text \<open>
  \<open>alert/eval/eval.go\<close>: the worker of a rule on a data source. Each tick it collects anomaly
  points, from Prometheus queries or from the table of hosts, and hands them to its processor. The
  decoders of the rule's configuration, the query on the data source and the host table are
  arguments. Counters and differences of time stamps convert to floating point numbers exactly
  below \<open>2 ^ 53\<close>; the percentage of missing hosts is computed with rounding.
\<close>

subsection \<open>Configuration of a rule\<close>

record PromQuery =
  pq_PromQl :: string
  pq_Severity :: int

record PromRuleConfig =
  prc_Queries :: "PromQuery list"
  prc_Inhibit :: bool
  prc_PromQl :: string
  prc_Severity :: int
  prc_AlgoParams :: json

record HostTrigger =
  htr_Type :: string
  htr_Duration :: int
  htr_Percent :: int
  htr_Severity :: int

record HostRuleConfig =
  hrc_Queries :: "HostQuery list"
  hrc_Triggers :: "HostTrigger list"
  hrc_Inhibit :: bool

text \<open>Decoding returns an error, a nil configuration (JSON \<open>null\<close>) or a configuration; a query
  returns an error or a value with warnings.\<close>

record eval_lib =
  el_prom_rule :: "string \<Rightarrow> string + PromRuleConfig option"
  el_host_rule :: "string \<Rightarrow> string + HostRuleConfig option"
  el_query :: "int \<Rightarrow> string \<Rightarrow> int \<Rightarrow> string + prom_value option \<times> string list"

record worker =
  wk_datasourceId :: int
  wk_inhibit :: bool
  wk_severity :: int
  wk_rule :: AlertRule
  wk_processor :: pstate

definition NewAlertRuleWorker :: "AlertRule \<Rightarrow> int \<Rightarrow> pstate \<Rightarrow> worker" where
  "NewAlertRuleWorker rule datasourceId processor =
     \<lparr>wk_datasourceId = datasourceId, wk_inhibit = False, wk_severity = 0, wk_rule = rule, wk_processor = processor\<rparr>"

definition wk_Key :: "worker \<Rightarrow> string" where
  "wk_Key arw = RuleKey (wk_datasourceId arw) (ar_Id (wk_rule arw))"

definition wk_Hash :: "lib \<Rightarrow> worker \<Rightarrow> string" where
  "wk_Hash L arw = lib_md5 L (Itoa (ar_Id (wk_rule arw)) @ ''_'' @ Itoa (ar_PromEvalInterval (wk_rule arw)) @ ''_'' @
     ar_RuleConfig (wk_rule arw) @ ''_'' @ Itoa (wk_datasourceId arw))"

definition Prepare :: "AlertCurEvent list option \<Rightarrow> worker \<Rightarrow> worker" where
  "Prepare curEvents arw = arw\<lparr>wk_processor := RecoverAlertCurEventFromDb curEvents (wk_processor arw)\<rparr>"

definition eval_interval :: "AlertRule \<Rightarrow> int" where
  "eval_interval rule = (if ar_PromEvalInterval rule \<le> 0 then 10 else ar_PromEvalInterval rule)"

subsection \<open>Points from queries\<close>

definition stamp_points :: "int \<Rightarrow> string \<Rightarrow> AnomalyPoint list \<Rightarrow> AnomalyPoint list" where
  "stamp_points severity promql points = map (\<lambda>p. p\<lparr>ap_Severity := severity, ap_Query := promql\<rparr>) points"

definition query_points :: "lib \<Rightarrow> eval_lib \<Rightarrow> prom_clients \<Rightarrow> int \<Rightarrow> int \<Rightarrow> PromQuery \<Rightarrow> AnomalyPoint list" where
  "query_points L X pc ds now query =
     (let promql = TrimSpace (pq_PromQl query) in
      if promql = '''' then []
      else if IsNil pc ds then []
      else (case el_query X ds promql now of Inl err \<Rightarrow> []
            | Inr (value, warnings) \<Rightarrow>
                if length warnings > 0 then []
                else stamp_points (pq_Severity query) promql (ConvertAnomalyPoints L value)))"

text \<open>The local variable the severities are compared with is never assigned, so it stays zero.\<close>

fun prom_loop :: "lib \<Rightarrow> eval_lib \<Rightarrow> prom_clients \<Rightarrow> int \<Rightarrow> PromQuery list \<Rightarrow> worker \<Rightarrow> AnomalyPoint list
    \<Rightarrow> worker \<times> AnomalyPoint list" where
  "prom_loop L X pc now [] arw lst = (arw, lst)"
| "prom_loop L X pc now (q # qs) arw lst =
     (let arw1 = (if pq_Severity q < 0 then arw\<lparr>wk_severity := pq_Severity q\<rparr> else arw)
      in prom_loop L X pc now qs arw1 (lst @ query_points L X pc (wk_datasourceId arw) now q))"

definition GetPromAnomalyPoint :: "lib \<Rightarrow> eval_lib \<Rightarrow> prom_clients \<Rightarrow> int \<Rightarrow> string \<Rightarrow> worker \<Rightarrow> worker \<times> AnomalyPoint list" where
  "GetPromAnomalyPoint L X pc now ruleConfig arw =
     (case el_prom_rule X ruleConfig of
        Inl err \<Rightarrow> (arw, [])
      | Inr None \<Rightarrow> (arw, [])
      | Inr (Some rule) \<Rightarrow> prom_loop L X pc now (prc_Queries rule) (arw\<lparr>wk_inhibit := prc_Inhibit rule\<rparr>) [])"

subsection \<open>Points from hosts\<close>

definition group_label :: "env \<Rightarrow> int \<Rightarrow> (string, string) go_map \<Rightarrow> (string, string) go_map" where
  "group_label E groupId m =
     (case env_busi_group E groupId of None \<Rightarrow> m
      | Some bg \<Rightarrow> if bg_LabelEnable bg = 1 then go_set ''busigroup'' (bg_LabelValue bg) m else m)"

definition miss_point :: "env \<Rightarrow> int \<Rightarrow> HostTrigger \<Rightarrow> Target \<Rightarrow> AnomalyPoint" where
  "miss_point E now trigger target =
     (let target1 = FillTagsMap target;
          m = go_set ''ident'' (tg_Ident target1) (tg_TagsMap target1)
      in NewAnomalyPoint (htr_Type trigger) (group_label E (tg_GroupId target1) m) now
           (Finite (of_int (now - tg_UpdateAt target1))) (htr_Severity trigger))"

text \<open>A host of the offset map that is not among the selected targets leaves a nil pointer.\<close>

fun offset_points :: "env \<Rightarrow> int \<Rightarrow> HostTrigger \<Rightarrow> (string, Target) go_map \<Rightarrow> (string \<times> int) list \<Rightarrow> AnomalyPoint list res" where
  "offset_points E now trigger targetMap [] = Inr []"
| "offset_points E now trigger targetMap ((host, offset) # hs) =
     (case go_get targetMap host of
        None \<Rightarrow> Inl Nil_dereference
      | Some target \<Rightarrow>
          (let target1 = FillTagsMap target;
               m = go_set ''ident'' host (tg_TagsMap target1);
               p = NewAnomalyPoint (htr_Type trigger) (group_label E (tg_GroupId target1) m) now
                     (Finite (of_int offset)) (htr_Severity trigger)
           in res_bind (offset_points E now trigger targetMap hs) (\<lambda>ps. Inr (p # ps))))"

record host_env =
  hv_db :: host_db
  hv_cache :: "(string, Target) go_map"
  hv_order :: "(string \<times> int) range_order"

definition trigger_points :: "env \<Rightarrow> host_env \<Rightarrow> int \<Rightarrow> host_cond list \<Rightarrow> HostTrigger \<Rightarrow> AnomalyPoint list res" where
  "trigger_points E V now query trigger =
     (if htr_Type trigger = ''target_miss'' then
        (case MissTargetGetsByFilter (hv_db V) query (now - htr_Duration trigger) of
           Inl err \<Rightarrow> Inr [] | Inr targets \<Rightarrow> Inr (map (miss_point E now trigger) targets))
      else if htr_Type trigger = ''offset'' then
        (case TargetGetsByFilter (hv_db V) query 0 0 of
           Inl err \<Rightarrow> Inr []
         | Inr targets \<Rightarrow> offset_points E now trigger (index_by tg_Ident targets)
             (hv_order V (GetOffsetHost (hv_cache V) now (htr_Duration trigger) targets [])))
      else if htr_Type trigger = ''pct_target_miss'' then
        (case MissTargetCountByFilter (hv_db V) query (now - htr_Duration trigger) of
           Inl err \<Rightarrow> Inr []
         | Inr cnt \<Rightarrow>
           (case TargetCountByFilter (hv_db V) query of
              Inl err \<Rightarrow> Inr []
            | Inr tot \<Rightarrow>
                (let pct = percent64 cnt tot in
                 if fge pct (of_int (htr_Percent trigger))
                 then Inr [NewAnomalyPoint (htr_Type trigger) [] now pct (htr_Severity trigger)] else Inr [])))
      else Inr [])"

fun host_loop :: "env \<Rightarrow> host_env \<Rightarrow> int \<Rightarrow> HostQuery list \<Rightarrow> HostTrigger list \<Rightarrow> worker \<Rightarrow> AnomalyPoint list
    \<Rightarrow> (worker \<times> AnomalyPoint list) res" where
  "host_loop E V now queries [] arw lst = Inr (arw, lst)"
| "host_loop E V now queries (tr # trs) arw lst =
     (let arw1 = (if htr_Severity tr < 0 then arw\<lparr>wk_severity := htr_Severity tr\<rparr> else arw) in
      res_bind (GetHostsQuery queries) (\<lambda>query.
      res_bind (trigger_points E V now query tr) (\<lambda>ps. host_loop E V now queries trs arw1 (lst @ ps))))"

definition GetHostAnomalyPoint ::
    "env \<Rightarrow> eval_lib \<Rightarrow> host_env \<Rightarrow> int \<Rightarrow> string \<Rightarrow> worker \<Rightarrow> (worker \<times> AnomalyPoint list) res" where
  "GetHostAnomalyPoint E X V now ruleConfig arw =
     (case el_host_rule X ruleConfig of
        Inl err \<Rightarrow> Inr (arw, [])
      | Inr None \<Rightarrow> Inr (arw, [])
      | Inr (Some rule) \<Rightarrow>
          host_loop E V now (hrc_Queries rule) (hrc_Triggers rule) (arw\<lparr>wk_inhibit := hrc_Inhibit rule\<rparr>) [])"

subsection \<open>One tick\<close>

definition eval_points ::
    "env \<Rightarrow> eval_lib \<Rightarrow> host_env \<Rightarrow> prom_clients \<Rightarrow> int \<Rightarrow> worker \<Rightarrow> (worker \<times> AnomalyPoint list) option res" where
  "eval_points E X V pc now arw =
     (let typ = GetRuleType (wk_rule arw) in
      if typ = PROMETHEUS \<or> typ = LOKI
      then Inr (Some (GetPromAnomalyPoint (env_lib E) X pc now (ar_RuleConfig (wk_rule arw)) arw))
      else if typ = HOST
      then res_bind (GetHostAnomalyPoint E X V now (ar_RuleConfig (wk_rule arw)) arw) (\<lambda>r. Inr (Some r))
      else Inr None)"

definition Eval ::
    "env \<Rightarrow> eval_lib \<Rightarrow> host_env \<Rightarrow> prom_clients \<Rightarrow> range_orders \<Rightarrow> int \<Rightarrow> worker \<Rightarrow> worker res" where
  "Eval E X V pc ords now arw =
     res_bind (eval_points E X V pc now arw) (\<lambda>r.
     case r of None \<Rightarrow> Inr arw
     | Some (arw1, lst) \<Rightarrow>
         res_bind (Handle E ords now lst ''inner'' (wk_inhibit arw1) (wk_processor arw1)) (\<lambda>p.
         Inr (arw1\<lparr>wk_processor := p\<rparr>)))"

subsection \<open>The points of a query\<close>

lemma prom_loop_eq:
  "prom_loop L X pc now qs arw lst = (arw', out) \<Longrightarrow>
   out = lst @ concat (map (query_points L X pc (wk_datasourceId arw) now) qs) \<and>
   wk_rule arw' = wk_rule arw \<and> wk_processor arw' = wk_processor arw \<and> wk_inhibit arw' = wk_inhibit arw"
proof (induction qs arbitrary: arw lst)
  case (Cons q qs)
  let ?arw1 = "if pq_Severity q < 0 then arw\<lparr>wk_severity := pq_Severity q\<rparr> else arw"
  have "prom_loop L X pc now qs ?arw1 (lst @ query_points L X pc (wk_datasourceId arw) now q) = (arw', out)"
    using Cons.prems by (simp only: prom_loop.simps Let_def)
  from Cons.IH [OF this] show ?case by simp
qed simp

lemma query_points_iff:
  "p \<in> set (query_points L X pc ds now q) \<longleftrightarrow>
     TrimSpace (pq_PromQl q) \<noteq> '''' \<and> GetCli pc ds \<noteq> None \<and>
     (\<exists>value. el_query X ds (TrimSpace (pq_PromQl q)) now = Inr (value, []) \<and>
        p \<in> set (stamp_points (pq_Severity q) (TrimSpace (pq_PromQl q)) (ConvertAnomalyPoints L value)))"
proof (cases "el_query X ds (TrimSpace (pq_PromQl q)) now")
  case (Inl err)
  then show ?thesis by (simp add: query_points_def Let_def)
next
  case (Inr r)
  then show ?thesis by (cases r) (auto simp: query_points_def Let_def IsNil_def GetCli_def)
qed

subsection \<open>Hosts\<close>

definition cache_idents :: "(string, Target) go_map \<Rightarrow> bool" where
  "cache_idents m \<longleftrightarrow> (\<forall>i t. go_get m i = Some t \<longrightarrow> tg_Ident t = i)"

lemma target_map_idents: "cache_idents (target_map c metas rows)"
  unfolding cache_idents_def target_map_def index_by_get
proof (intro allI impI)
  fix i t
  let ?l = "filter (\<lambda>r. tg_Ident r = i) (fill_metas c metas rows)"
  assume a: "(case ?l of [] \<Rightarrow> None | l \<Rightarrow> Some (last l)) = Some t"
  then have "?l \<noteq> []" "t = last ?l" by (auto split: list.splits)
  then have "t \<in> set ?l" using last_in_set by blast
  then show "tg_Ident t = i" by simp
qed

lemma offset_hosts:
  assumes "cache_idents cache" "go_get (GetOffsetHost cache now off ts m) h \<noteq> None"
  shows "go_get m h \<noteq> None \<or> h \<in> tg_Ident ` set ts"
  using assms(2)
proof (induction ts arbitrary: m)
  case (Cons t0 ts)
  show ?case
  proof (cases "go_get cache (tg_Ident t0)")
    case None
    then show ?thesis using Cons by auto
  next
    case (Some t)
    show ?thesis
    proof (cases "tg_CpuNum t \<le> 0 \<or> now - tg_UpdateAt t > 120 \<or> \<not> \<bar>tg_Offset t\<bar> > off")
      case True
      then have "GetOffsetHost cache now off (t0 # ts) m = GetOffsetHost cache now off ts m" using Some by auto
      then have "go_get (GetOffsetHost cache now off ts m) h \<noteq> None" using Cons.prems by simp
      then show ?thesis using Cons.IH by auto
    next
      case False
      have "tg_Ident t = tg_Ident t0" using assms(1) Some unfolding cache_idents_def by simp
      then show ?thesis using Cons.IH [of "go_set (tg_Ident t) (tg_Offset t) m"] Cons.prems False Some
        by (auto split: if_splits)
    qed
  qed
qed simp

lemma offset_points_total:
  "\<forall>(h, off) \<in> set hs. go_get tm h \<noteq> None \<Longrightarrow> \<exists>ps. offset_points E now tr tm hs = Inr ps"
proof (induction hs)
  case (Cons x hs)
  obtain h off where x: "x = (h, off)" by fastforce
  obtain t where "go_get tm h = Some t" using Cons.prems x by auto
  moreover obtain ps where "offset_points E now tr tm hs = Inr ps" using Cons by auto
  ultimately show ?case by (simp add: x Let_def)
qed simp

lemma index_by_dom: "go_get (index_by key rows) k \<noteq> None \<longleftrightarrow> k \<in> key ` set rows"
proof -
  have "go_get (index_by key rows) k \<noteq> None \<longleftrightarrow> filter (\<lambda>r. key r = k) rows \<noteq> []"
    by (simp add: index_by_get split: list.split)
  then show ?thesis by (auto simp: filter_empty_conv)
qed

lemma trigger_points_total:
  assumes "cache_idents (hv_cache V)" "fair_order (hv_order V)"
  shows "\<exists>ps. trigger_points E V now query tr = Inr ps"
proof (cases "htr_Type tr = ''offset'' \<and> \<not> hd_fail (hv_db V) ''targets''")
  case True
  then obtain targets where t: "TargetGetsByFilter (hv_db V) query 0 0 = Inr targets"
    by (auto simp: TargetGetsByFilter_def)
  let ?m = "GetOffsetHost (hv_cache V) now (htr_Duration tr) targets []"
  have "go_get (index_by tg_Ident targets) h \<noteq> None" if "(h, off) \<in> set (hv_order V ?m)" for h off
  proof -
    have "(h, off) \<in> set ?m" using that assms(2) by simp
    then have "go_get ?m h \<noteq> None" by (metis weak_map_of_SomeI option.distinct(1))
    then have "h \<in> tg_Ident ` set targets" using offset_hosts [OF assms(1)] by fastforce
    then show ?thesis using index_by_dom by metis
  qed
  then have "\<exists>ps. offset_points E now tr (index_by tg_Ident targets) (hv_order V ?m) = Inr ps"
    by (intro offset_points_total) auto
  then show ?thesis using True t by (simp add: trigger_points_def)
next
  case False
  then show ?thesis
    by (auto simp: trigger_points_def TargetGetsByFilter_def Let_def split: sum.split)
qed

lemma host_loop_total:
  assumes "cache_idents (hv_cache V)" "fair_order (hv_order V)" "\<forall>q \<in> set qs. host_values_ok q"
  shows "\<exists>arw' ps. host_loop E V now qs trs arw lst = Inr (arw', ps) \<and> wk_processor arw' = wk_processor arw \<and>
    wk_rule arw' = wk_rule arw"
proof (induction trs arbitrary: arw lst)
  case (Cons tr trs)
  obtain query where q: "GetHostsQuery qs = Inr query"
    using GetHostsQuery_selects [OF assms(3)] by blast
  obtain ps where "trigger_points E V now query tr = Inr ps" using trigger_points_total [OF assms(1,2)] by blast
  then have "host_loop E V now qs (tr # trs) arw lst =
      host_loop E V now qs trs (if htr_Severity tr < 0 then arw\<lparr>wk_severity := htr_Severity tr\<rparr> else arw) (lst @ ps)"
    using q by (simp add: Let_def)
  then show ?case
    using Cons.IH [of "if htr_Severity tr < 0 then arw\<lparr>wk_severity := htr_Severity tr\<rparr> else arw" "lst @ ps"] by auto
qed simp

end
