(* ===== verification/Eval_Runs.thy ===== *)
theory Eval_Runs
  imports Eval Pipeline
begin

text \<open>
  Properties of the evaluation of a rule: which points a Prometheus rule and a host rule produce,
  how the percentage trigger decides, and that a tick returns when the worker reads its mutes and
  targets from the caches.
\<close>

subsection \<open>A sample\<close>

definition sample_eval_lib :: eval_lib where
  "sample_eval_lib = \<lparr>el_prom_rule = (\<lambda>s. Inr (Some \<lparr>prc_Queries = [\<lparr>pq_PromQl = ''up'', pq_Severity = 2\<rparr>],
       prc_Inhibit = True, prc_PromQl = '''', prc_Severity = 0, prc_AlgoParams = JNull\<rparr>)),
     el_host_rule = (\<lambda>s. Inr (Some \<lparr>hrc_Queries = [], hrc_Triggers = [], hrc_Inhibit = False\<rparr>)),
     el_query = (\<lambda>ds q now. Inr (Some (Vector [([(''ident'', ''web01'')], 1000, Finite 0)]), []))\<rparr>"

definition sample_option :: PromOption where
  "sample_option = \<lparr>po_ClusterName = '''', po_Url = ''http://p'', po_WriteAddr = '''', po_BasicAuthUser = '''',
     po_BasicAuthPass = '''', po_Timeout = 0, po_DialTimeout = 0, po_MaxIdleConnsPerHost = 0, po_Headers = [],
     po_UseTLS = False, po_InsecureSkipVerify = False\<rparr>"

definition sample_clients :: prom_clients where
  "sample_clients = pc_Set 3 sample_option sample_option NewPromClient"

definition sample_worker :: worker where
  "sample_worker = NewAlertRuleWorker sample_rule 3 (NewProcessor sample_env sample_rule 3)"

definition sample_host_env :: host_env where
  "sample_host_env = \<lparr>hv_db = sample_host_db, hv_cache = [], hv_order = (\<lambda>x. x)\<rparr>"

lemma TrimSpace_up: "TrimSpace ''up'' = ''up''"
  by (simp add: TrimSpace_def TrimRight_by_def is_space_def)

lemma GetPromAnomalyPoint_processor:
  "GetPromAnomalyPoint L X pc now cfg arw = (arw', ps) \<Longrightarrow> wk_processor arw' = wk_processor arw"
  by (auto simp: GetPromAnomalyPoint_def dest: prom_loop_eq split: sum.splits option.splits)

lemma GetHostAnomalyPoint_returns:
  assumes "cache_idents (hv_cache V)" "fair_order (hv_order V)"
    "\<And>r q. el_host_rule X cfg = Inr (Some r) \<Longrightarrow> q \<in> set (hrc_Queries r) \<Longrightarrow> host_values_ok q"
  shows "\<exists>arw' ps. GetHostAnomalyPoint E X V now cfg arw = Inr (arw', ps) \<and> wk_processor arw' = wk_processor arw"
proof (cases "\<exists>r. el_host_rule X cfg = Inr (Some r)")
  case True
  then obtain r where r: "el_host_rule X cfg = Inr (Some r)" by blast
  then have "\<forall>q \<in> set (hrc_Queries r). host_values_ok q" using assms(3) by blast
  from host_loop_total [OF assms(1,2) this, of E now "hrc_Triggers r" "arw\<lparr>wk_inhibit := hrc_Inhibit r\<rparr>" "[]"]
  show ?thesis using r by (auto simp: GetHostAnomalyPoint_def)
next
  case False
  then have "GetHostAnomalyPoint E X V now cfg arw = Inr (arw, [])"
    by (auto simp: GetHostAnomalyPoint_def split: sum.split option.split)
  then show ?thesis by simp
qed

lemma eval_points_returns:
  assumes "cache_idents (hv_cache V)" "fair_order (hv_order V)"
    "\<And>r q. el_host_rule X (ar_RuleConfig (wk_rule arw)) = Inr (Some r) \<Longrightarrow> q \<in> set (hrc_Queries r) \<Longrightarrow> host_values_ok q"
  shows "eval_points E X V pc now arw = Inr None \<or>
    (\<exists>arw1 ps. eval_points E X V pc now arw = Inr (Some (arw1, ps)) \<and> wk_processor arw1 = wk_processor arw)"
proof -
  obtain a b where p: "GetPromAnomalyPoint (env_lib E) X pc now (ar_RuleConfig (wk_rule arw)) arw = (a, b)" by fastforce
  have "\<exists>c d. GetHostAnomalyPoint E X V now (ar_RuleConfig (wk_rule arw)) arw = Inr (c, d) \<and>
      wk_processor c = wk_processor arw"
    using assms by (rule GetHostAnomalyPoint_returns)
  then obtain c d where h: "GetHostAnomalyPoint E X V now (ar_RuleConfig (wk_rule arw)) arw = Inr (c, d)"
    "wk_processor c = wk_processor arw" by blast
  show ?thesis using p h GetPromAnomalyPoint_processor [OF p] by (simp add: eval_points_def Let_def)
qed

subsection \<open>Properties\<close>

text \<open>The points of a Prometheus rule, in order: those of each query whose expression is not blank and
  that was answered without error or warning, each with the severity and expression of its query.\<close>

theorem prom_anomaly_points:
  assumes "el_prom_rule X cfg = Inr (Some r)"
  shows "snd (GetPromAnomalyPoint L X pc now cfg arw) =
      concat (map (query_points L X pc (wk_datasourceId arw) now) (prc_Queries r)) \<and>
    wk_inhibit (fst (GetPromAnomalyPoint L X pc now cfg arw)) = prc_Inhibit r \<and>
    (\<forall>p. p \<in> set (snd (GetPromAnomalyPoint L X pc now cfg arw)) \<longleftrightarrow>
      GetCli pc (wk_datasourceId arw) \<noteq> None \<and>
      (\<exists>q \<in> set (prc_Queries r). \<exists>value. TrimSpace (pq_PromQl q) \<noteq> '''' \<and>
         el_query X (wk_datasourceId arw) (TrimSpace (pq_PromQl q)) now = Inr (value, []) \<and>
         p \<in> set (stamp_points (pq_Severity q) (TrimSpace (pq_PromQl q)) (ConvertAnomalyPoints L value))))"
proof -
  obtain arw' out where l: "prom_loop L X pc now (prc_Queries r) (arw\<lparr>wk_inhibit := prc_Inhibit r\<rparr>) [] = (arw', out)"
    by fastforce
  have out: "out = concat (map (query_points L X pc (wk_datasourceId arw) now) (prc_Queries r))"
    and inh: "wk_inhibit arw' = prc_Inhibit r"
    using prom_loop_eq [OF l] by simp_all
  have g: "GetPromAnomalyPoint L X pc now cfg arw = (arw', out)"
    using assms l by (simp add: GetPromAnomalyPoint_def)
  have "p \<in> set out \<longleftrightarrow> (\<exists>q \<in> set (prc_Queries r). p \<in> set (query_points L X pc (wk_datasourceId arw) now q))" for p
    by (simp add: out)
  then show ?thesis unfolding g using out inh by (auto simp: query_points_iff)
qed

theorem prom_anomaly_points_witness:
  "snd (GetPromAnomalyPoint sample_lib sample_eval_lib sample_clients 1000 ''{}'' sample_worker) =
     [(point_of sample_lib [(''ident'', ''web01'')] 1000 (Finite 0))\<lparr>ap_Severity := 2, ap_Query := ''up''\<rparr>]"
  using prom_anomaly_points [of sample_eval_lib "''{}''" _ sample_lib sample_clients 1000 sample_worker]
  by (simp add: sample_eval_lib_def query_points_def TrimSpace_up IsNil_def sample_clients_def pc_Set_def Let_def
      sample_worker_def NewAlertRuleWorker_def stamp_points_def IsNaN_def)

text \<open>Missing hosts: a trigger of type target_miss yields one point for each selected host whose last
  update is older than the duration, in the order of the names, with the name as its ident label and
  the age as its value.\<close>

theorem missing_hosts_reported:
  assumes "htr_Type tr = ''target_miss''" "\<forall>q \<in> set qs. host_values_ok q" "\<not> hd_fail (hv_db V) ''miss''"
    "GetHostsQuery qs = Inr query"
  shows "\<exists>hosts. trigger_points E V now query tr = Inr (map (miss_point E now tr) hosts) \<and>
    set hosts = {t \<in> set (hd_targets (hv_db V)). tg_UpdateAt t < now - htr_Duration tr \<and>
                   (\<forall>q \<in> set qs. conditions_select (hv_db V) q t)} \<and> sorted (map tg_Ident hosts) \<and>
    (\<forall>t. go_get (ap_Labels (miss_point E now tr t)) ''ident'' = Some (tg_Ident t) \<and>
         ap_Value (miss_point E now tr t) = Finite (of_int (now - tg_UpdateAt t)) \<and>
         ap_Severity (miss_point E now tr t) = htr_Severity tr)"
proof -
  let ?hosts = "TargetFilterQueryBuild (hv_db V) query 0 0
    (filter (\<lambda>t. tg_UpdateAt t < now - htr_Duration tr) (hd_targets (hv_db V)))"
  have q: "query_holds (hv_db V) query t \<longleftrightarrow> (\<forall>q \<in> set qs. conditions_select (hv_db V) q t)" for t
    using GetHostsQuery_selects [OF assms(2), of "hv_db V"] assms(4) by auto
  have "trigger_points E V now query tr = Inr (map (miss_point E now tr) ?hosts)"
    using assms(1,3) by (simp add: trigger_points_def MissTargetGetsByFilter_def)
  moreover have "set ?hosts = {t \<in> set (hd_targets (hv_db V)). tg_UpdateAt t < now - htr_Duration tr \<and>
      (\<forall>q \<in> set qs. conditions_select (hv_db V) q t)}"
    by (auto simp: filter_build_set q)
  moreover have "sorted (map tg_Ident ?hosts)" by (simp add: TargetFilterQueryBuild_def)
  moreover have "go_get (ap_Labels (miss_point E now tr t)) ''ident'' = Some (tg_Ident t) \<and>
         ap_Value (miss_point E now tr t) = Finite (of_int (now - tg_UpdateAt t)) \<and>
         ap_Severity (miss_point E now tr t) = htr_Severity tr" for t
    by (simp add: miss_point_def NewAnomalyPoint_def group_label_def FillTagsMap_def Let_def split: option.split)
  ultimately show ?thesis by blast
qed

theorem missing_hosts_reported_witness:
  "\<exists>hosts. trigger_points sample_env sample_host_env 1000 [] \<lparr>htr_Type = ''target_miss'', htr_Duration = 60,
       htr_Percent = 0, htr_Severity = 1\<rparr> = Inr (map (miss_point sample_env 1000 \<lparr>htr_Type = ''target_miss'',
       htr_Duration = 60, htr_Percent = 0, htr_Severity = 1\<rparr>) hosts) \<and> set hosts = {sample_host}"
proof -
  have "{t \<in> set (hd_targets sample_host_db). tg_UpdateAt t < 1000 - 60 \<and> (\<forall>q \<in> set []. conditions_select sample_host_db q t)} =
      {sample_host}"
    by (auto simp: sample_host_db_def sample_host_def)
  then show ?thesis
    using missing_hosts_reported [of "\<lparr>htr_Type = ''target_miss'', htr_Duration = 60, htr_Percent = 0, htr_Severity = 1\<rparr>"
        "[]" sample_host_env "[]" sample_env 1000]
    by (auto simp: sample_host_env_def sample_host_db_def)
qed

text \<open>C30. The percentage trigger decides correctly up to rounding: with a thousandth of a millionth of a
  percent to spare it fires, and when it fires the share of missing hosts is at most that far below
  the threshold. Without any host it does not fire.\<close>

theorem percent_trigger:
  assumes "htr_Type tr = ''pct_target_miss''"
    "MissTargetCountByFilter (hv_db V) query (now - htr_Duration tr) = Inr c" "TargetCountByFilter (hv_db V) query = Inr n"
  shows "\<exists>ps. trigger_points E V now query tr = Inr ps \<and>
    (n = 0 \<longrightarrow> ps = []) \<and>
    (n > 0 \<longrightarrow> of_int (htr_Percent tr) + 1 / 10 ^ 9 \<le> 100 * rat_of_int c / of_int n \<longrightarrow> length ps = 1) \<and>
    (n > 0 \<longrightarrow> ps \<noteq> [] \<longrightarrow> of_int (htr_Percent tr) - 1 / 10 ^ 9 \<le> 100 * rat_of_int c / of_int n)"
proof -
  have c: "0 \<le> c" "c \<le> n" using miss_count_le [OF assms(2,3)] by auto
  let ?ps = "if fge (percent64 c n) (of_int (htr_Percent tr))
     then [NewAnomalyPoint (htr_Type tr) [] now (percent64 c n) (htr_Severity tr)] else []"
  have t: "trigger_points E V now query tr = Inr ?ps"
    using assms by (simp add: trigger_points_def Let_def)
  show ?thesis
  proof (cases "n = 0")
    case True
    then show ?thesis using t c by (simp add: percent64_def fdiv_def)
  next
    case False
    then obtain p where p: "percent64 c n = Finite p" "\<bar>p - 100 * of_int c / of_int n\<bar> \<le> 1 / 10 ^ 12"
      using percent64_error c by (metis less_le order_trans)
    have "(1::rat) / 10 ^ 12 \<le> 1 / 10 ^ 9" by simp
    then have d: "\<bar>p - 100 * of_int c / of_int n\<bar> \<le> 1 / 10 ^ 9" using p(2) by (rule order_trans [rotated])
    define x e where "x = 100 * rat_of_int c / of_int n" and "e = (1::rat) / 10 ^ 9"
    have "of_int (htr_Percent tr) + e \<le> x \<Longrightarrow> of_int (htr_Percent tr) \<le> p"
      "of_int (htr_Percent tr) \<le> p \<Longrightarrow> of_int (htr_Percent tr) - e \<le> x"
      using d unfolding x_def [symmetric] e_def [symmetric] by linarith+
    then show ?thesis using t p(1) unfolding x_def [symmetric] e_def [symmetric]
      by (intro exI [of _ ?ps]) (simp add: False)
  qed
qed

theorem percent_trigger_witness:
  "\<exists>ps. trigger_points sample_env sample_host_env 1000 [] \<lparr>htr_Type = ''pct_target_miss'', htr_Duration = 60,
       htr_Percent = 50, htr_Severity = 1\<rparr> = Inr ps \<and> length ps = 1"
proof -
  let ?tr = "\<lparr>htr_Type = ''pct_target_miss'', htr_Duration = 60, htr_Percent = 50, htr_Severity = 1\<rparr>"
  have m: "MissTargetCountByFilter (hv_db sample_host_env) [] (1000 - htr_Duration ?tr) = Inr 1"
    "TargetCountByFilter (hv_db sample_host_env) [] = Inr 1"
    by (simp_all add: MissTargetCountByFilter_def TargetCountByFilter_def TargetFilterQueryBuild_def query_holds_def
        sample_host_env_def sample_host_db_def sample_host_def)
  show ?thesis using percent_trigger [OF _ m, of sample_env] by auto
qed

text \<open>Rounding can lose a trigger that is met exactly: with 29 of 100 hosts missing, a threshold of 29
  percent does not fire.\<close>

lemma percent_trigger_rounded_down:
  assumes "htr_Type tr = ''pct_target_miss''" "htr_Percent tr = 29"
    "MissTargetCountByFilter (hv_db V) query (now - htr_Duration tr) = Inr 29" "TargetCountByFilter (hv_db V) query = Inr 100"
  shows "trigger_points E V now query tr = Inr []"
  using assms by (simp add: trigger_points_def percent64_29_100 Let_def)

text \<open>C29. A tick returns: with mutes and targets read from their caches after any sequence of syncs, a rule
  whose extra tags and time spans are well formed, and host filters with string values, the worker
  computes its points and its processor handles them.\<close>

theorem eval_returns:
  assumes "env_mutes E = cache_Get (amc.run L qs NewCache)"
    and "hv_cache V = ch_data (tc.run c metas qs' NewCache)" "fair_order (hv_order V)"
    and "\<And>r. env_rule E (ar_Id (p_rule (wk_processor arw))) = Some r \<Longrightarrow> rule_runnable r"
    and "\<And>r q. el_host_rule X (ar_RuleConfig (wk_rule arw)) = Inr (Some r) \<Longrightarrow> q \<in> set (hrc_Queries r) \<Longrightarrow> host_values_ok q"
  shows "\<exists>arw'. Eval E X V pc ords now arw = Inr arw'"
proof -
  have h: "\<exists>t. Handle E ords now pts ''inner'' inh (wk_processor arw) = Inr t" for pts inh
    using assms(4) cached_mutes_ready [OF assms(1)] by (rule Handle_total)
  have ci: "cache_idents (hv_cache V)"
    using tc.run_data [of c metas qs' NewCache] target_map_idents by (auto simp: assms(2) cache_idents_def)
  have "eval_points E X V pc now arw = Inr None \<or>
      (\<exists>arw1 ps. eval_points E X V pc now arw = Inr (Some (arw1, ps)) \<and> wk_processor arw1 = wk_processor arw)"
    using ci assms(3,5) by (rule eval_points_returns)
  then show ?thesis
  proof (elim disjE exE conjE)
    fix arw1 ps
    assume a: "eval_points E X V pc now arw = Inr (Some (arw1, ps))" "wk_processor arw1 = wk_processor arw"
    obtain t where "Handle E ords now ps ''inner'' (wk_inhibit arw1) (wk_processor arw) = Inr t" using h by blast
    then show ?thesis using a by (simp add: Eval_def)
  qed (simp add: Eval_def)
qed

theorem eval_returns_witness:
  "\<exists>arw'. Eval sample_env sample_eval_lib sample_host_env sample_clients sample_orders 1000 sample_worker = Inr arw'"
proof (rule eval_returns [where L = sample_lib and qs = "[]" and qs' = "[]" and c = True and metas = "[]"])
  show "env_mutes sample_env = cache_Get (amc.run sample_lib [] NewCache)"
    by (simp add: sample_env_def cache_Get_def fun_eq_iff)
  show "rule_runnable r" if "env_rule sample_env (ar_Id (p_rule (wk_processor sample_worker))) = Some r" for r
    using that sample_rule_runnable by (auto simp: sample_env_def split: if_splits)
qed (auto simp: sample_host_env_def fair_order_id sample_eval_lib_def)

end
