(* ===== verification/Naming.thy ===== *)
theory Naming
  imports Data_Model
begin

text \<open>
  \<open>alert/naming\<close> and \<open>models/alerting_engine.go\<close>: the instances of the alerting engine announce
  themselves in a table, and every instance builds one consistent hash ring per data source from
  the instances that announced themselves in the last 30 seconds. A rule belongs to the instance
  its identifier hashes to. The ring itself is a library; \<open>ring_ops\<close> are the calls made on it, and
  \<open>ring_laws\<close> is what the code relies on: a look-up in a ring with members returns one of them, a
  look-up in an empty ring is an error. The time is an argument of each operation.
\<close>

subsection \<open>The table of engines\<close>

record AlertingEngines =
  ae_Id :: int
  ae_Instance :: string
  ae_EngineCluster :: string
  ae_DatasourceId :: int
  ae_Clock :: int

record engine_db =
  ed_engines :: "AlertingEngines list"
  ed_next_id :: int
  ed_datasources :: "Datasource list"

text \<open>Which statements fail, given the tables they run on.\<close>

record engine_faults =
  ef_count :: "engine_db \<Rightarrow> bool"
  ef_write :: "engine_db \<Rightarrow> bool"
  ef_list :: "engine_db \<Rightarrow> bool"

definition engine_insert :: "string \<Rightarrow> string \<Rightarrow> int \<Rightarrow> int \<Rightarrow> engine_db \<Rightarrow> engine_db" where
  "engine_insert instance_name cluster datasourceId now d =
     d\<lparr>ed_engines := ed_engines d @ [\<lparr>ae_Id = ed_next_id d, ae_Instance = instance_name,
         ae_EngineCluster = cluster, ae_DatasourceId = datasourceId, ae_Clock = now\<rparr>],
       ed_next_id := ed_next_id d + 1\<rparr>"

definition UpdateDatasourceId ::
    "engine_faults \<Rightarrow> AlertingEngines \<Rightarrow> int \<Rightarrow> engine_db \<Rightarrow> engine_db \<times> AlertingEngines \<times> string option" where
  "UpdateDatasourceId F e i d =
     (if ef_count F d then (d, e, Some ''db'')
      else if \<exists>x \<in> set (ed_engines d). ae_Id x \<noteq> ae_Id e \<and> ae_Instance x = ae_Instance e \<and> ae_DatasourceId x = i
      then (d, e, Some (''instance '' @ ae_Instance e @ '' and datasource_id '' @ Itoa i @ '' already exists''))
      else let e1 = e\<lparr>ae_DatasourceId := i\<rparr> in
        if ef_write F d then (d, e1, Some ''db'')
        else (d\<lparr>ed_engines := map (\<lambda>x. if ae_Id x = ae_Id e1 then x\<lparr>ae_DatasourceId := i\<rparr> else x) (ed_engines d)\<rparr>,
              e1, None))"

definition AlertingEngineAdd ::
    "engine_faults \<Rightarrow> string \<Rightarrow> int \<Rightarrow> int \<Rightarrow> engine_db \<Rightarrow> engine_db \<times> string option" where
  "AlertingEngineAdd F instance_name datasourceId now d =
     (if ef_count F d then (d, Some ''db'')
      else if \<exists>x \<in> set (ed_engines d). ae_Instance x = instance_name \<and> ae_DatasourceId x = datasourceId
      then (d, Some (''instance '' @ instance_name @ '' and datasource_id '' @ Itoa datasourceId @ '' already exists''))
      else if ef_write F d then (d, Some ''db'')
      else (engine_insert instance_name '''' datasourceId now d, None))"

definition AlertingEngineDel :: "engine_faults \<Rightarrow> int list \<Rightarrow> engine_db \<Rightarrow> engine_db \<times> string option" where
  "AlertingEngineDel F ids d =
     (if length ids = 0 then (d, None)
      else if ef_write F d then (d, Some ''db'')
      else (d\<lparr>ed_engines := filter (\<lambda>x. ae_Id x \<notin> set ids) (ed_engines d)\<rparr>, None))"

definition AlertingEngineGetDatasourceIds :: "engine_faults \<Rightarrow> string \<Rightarrow> engine_db \<Rightarrow> string + int list" where
  "AlertingEngineGetDatasourceIds F instance_name d =
     (if ef_list F d then Inl ''db''
      else Inr (map ae_DatasourceId (filter (\<lambda>x. ae_Instance x = instance_name) (ed_engines d))))"

text \<open>The condition of the query is a predicate on the row.\<close>

definition AlertingEngineGetsInstances ::
    "engine_faults \<Rightarrow> (AlertingEngines \<Rightarrow> bool) \<Rightarrow> engine_db \<Rightarrow> string + string list" where
  "AlertingEngineGetsInstances F cond d =
     (if ef_list F d then Inl ''db'' else Inr (sort (map ae_Instance (filter cond (ed_engines d)))))"

definition AlertingEngineHeartbeatWithCluster ::
    "engine_faults \<Rightarrow> string \<Rightarrow> string \<Rightarrow> int \<Rightarrow> int \<Rightarrow> engine_db \<Rightarrow> engine_db \<times> string option" where
  "AlertingEngineHeartbeatWithCluster F instance_name cluster datasourceId now d =
     (let mine = (\<lambda>x. ae_Instance x = instance_name \<and> ae_EngineCluster x = cluster \<and> ae_DatasourceId x = datasourceId) in
      if ef_count F d then (d, Some ''db'')
      else if \<not> (\<exists>x \<in> set (ed_engines d). mine x)
      then (if ef_write F d then (d, Some ''db'') else (engine_insert instance_name cluster datasourceId now d, None))
      else (if ef_write F d then (d, Some ''db'')
            else (d\<lparr>ed_engines := map (\<lambda>x. if mine x then x\<lparr>ae_Clock := now\<rparr> else x) (ed_engines d)\<rparr>, None)))"

definition DeleteInactiveInstances :: "engine_faults \<Rightarrow> int \<Rightarrow> engine_db \<Rightarrow> engine_db" where
  "DeleteInactiveInstances F now d =
     (if ef_write F d then d else d\<lparr>ed_engines := filter (\<lambda>x. \<not> ae_Clock x < now - 600) (ed_engines d)\<rparr>)"

definition GetDatasourceIdsByEngineName :: "engine_faults \<Rightarrow> string \<Rightarrow> engine_db \<Rightarrow> string + int list" where
  "GetDatasourceIdsByEngineName F engineName d =
     (if ef_list F d then Inl ''db''
      else Inr (map ds_Id (filter (\<lambda>ds. ds_ClusterName ds = engineName) (ed_datasources d))))"

text \<open>The three calls a heartbeat makes: an instance that is not the centre makes them over HTTP.\<close>

record 'd engine_ops =
  eo_ids :: "string \<Rightarrow> 'd \<Rightarrow> string + int list"
  eo_beat :: "string \<Rightarrow> string \<Rightarrow> int \<Rightarrow> int \<Rightarrow> 'd \<Rightarrow> 'd \<times> string option"
  eo_active :: "int \<Rightarrow> int \<Rightarrow> 'd \<Rightarrow> string + string list"

definition center_ops :: "engine_faults \<Rightarrow> engine_db engine_ops" where
  "center_ops F = \<lparr>eo_ids = GetDatasourceIdsByEngineName F,
     eo_beat = AlertingEngineHeartbeatWithCluster F,
     eo_active = (\<lambda>ds now. AlertingEngineGetsInstances F (\<lambda>x. ae_DatasourceId x = ds \<and> ae_Clock x > now - 30))\<rparr>"

subsection \<open>Rings\<close>

record 'r ring_ops =
  rg_new :: 'r
  rg_set_replicas :: "int \<Rightarrow> 'r \<Rightarrow> 'r"
  rg_add :: "string \<Rightarrow> 'r \<Rightarrow> 'r"
  rg_get :: "'r \<Rightarrow> string \<Rightarrow> string + string"

definition ring_laws :: "'r ring_ops \<Rightarrow> ('r \<Rightarrow> string set) \<Rightarrow> bool" where
  "ring_laws R members \<longleftrightarrow> members (rg_new R) = {} \<and>
     (\<forall>n r. members (rg_set_replicas R n r) = members r) \<and>
     (\<forall>x r. members (rg_add R x r) = insert x (members r)) \<and>
     (\<forall>r k. members r = {} \<longrightarrow> (\<exists>err. rg_get R r k = Inl err)) \<and>
     (\<forall>r k. members r \<noteq> {} \<longrightarrow> (\<exists>x \<in> members r. rg_get R r k = Inr x))"

definition NodeReplicas :: int where "NodeReplicas = 500"

definition HostDatasource :: int where "HostDatasource = 99999999"

type_synonym 'r rings = "(int, 'r) go_map"

definition NewConsistentHashRing :: "'r ring_ops \<Rightarrow> int \<Rightarrow> string list \<Rightarrow> 'r" where
  "NewConsistentHashRing R replicas nodes = fold (rg_add R) nodes (rg_set_replicas R replicas (rg_new R))"

definition rings_Set :: "int \<Rightarrow> 'r \<Rightarrow> 'r rings \<Rightarrow> 'r rings" where
  "rings_Set datasourceId r rings = go_set datasourceId r rings"

definition RebuildConsistentHashRing :: "'r ring_ops \<Rightarrow> int \<Rightarrow> string list \<Rightarrow> 'r rings \<Rightarrow> 'r rings" where
  "RebuildConsistentHashRing R datasourceId nodes rings =
     rings_Set datasourceId (fold (rg_add R) nodes (rg_set_replicas R NodeReplicas (rg_new R))) rings"

definition GetNode :: "'r ring_ops \<Rightarrow> int \<Rightarrow> string \<Rightarrow> 'r rings \<Rightarrow> 'r rings \<times> (string + string)" where
  "GetNode R datasourceId pk rings =
     (case go_get rings datasourceId of
        Some r \<Rightarrow> (rings, rg_get R r pk)
      | None \<Rightarrow> (let r = NewConsistentHashRing R NodeReplicas []
                 in (go_set datasourceId r rings, rg_get R r pk)))"

definition IsHit :: "'r ring_ops \<Rightarrow> int \<Rightarrow> string \<Rightarrow> string \<Rightarrow> 'r rings \<Rightarrow> 'r rings \<times> bool" where
  "IsHit R datasourceId pk currentNode rings =
     (case GetNode R datasourceId pk rings of
        (rings1, Inl err) \<Rightarrow> (rings1, False)
      | (rings1, Inr node) \<Rightarrow> (rings1, node = currentNode))"

definition Clear :: "'r rings \<Rightarrow> 'r rings" where
  "Clear rings = fold (\<lambda>i m. if i = HostDatasource then m else go_del i m) (go_keys rings) rings"

subsection \<open>Heartbeats\<close>

record naming_cfg =
  nc_Endpoint :: string
  nc_EngineName :: string
  nc_IsCenter :: bool

record 'r naming =
  nm_Rings :: "'r rings"
  nm_localss :: "(int, string) go_map"

definition ActiveServers :: "'d engine_ops \<Rightarrow> int \<Rightarrow> int \<Rightarrow> 'd \<Rightarrow> string + string list" where
  "ActiveServers ops datasourceId now d =
     (if datasourceId = -1 then Inl ''cluster is empty'' else eo_active ops datasourceId now d)"

fun beat_all :: "'d engine_ops \<Rightarrow> naming_cfg \<Rightarrow> int \<Rightarrow> int list \<Rightarrow> 'd \<Rightarrow> 'd" where
  "beat_all ops C now [] d = d"
| "beat_all ops C now (i # is) d =
     beat_all ops C now is (fst (eo_beat ops (nc_Endpoint C) (nc_EngineName C) i now d))"

definition clear_all :: "'r naming \<Rightarrow> 'r naming" where
  "clear_all n = n\<lparr>nm_Rings := Clear (nm_Rings n),
     nm_localss := fold (\<lambda>i m. if i = HostDatasource then m else go_del i m) (go_keys (nm_localss n)) (nm_localss n)\<rparr>"

definition refresh_ring :: "'r ring_ops \<Rightarrow> 'd engine_ops \<Rightarrow> int \<Rightarrow> 'd \<Rightarrow> int \<Rightarrow> 'r naming \<Rightarrow> 'r naming" where
  "refresh_ring R ops now d i n =
     (case ActiveServers ops i now d of Inl err \<Rightarrow> n
      | Inr lst \<Rightarrow>
        (let servers = sort lst; newss = Join servers '' '' in
         if go_get (nm_localss n) i = Some newss then n
         else n\<lparr>nm_Rings := RebuildConsistentHashRing R i servers (nm_Rings n),
                nm_localss := go_set i newss (nm_localss n)\<rparr>))"

text \<open>One heartbeat takes all its time stamps at one moment \<open>now\<close>: the code reads the clock for each statement.\<close>

definition heartbeat ::
    "'r ring_ops \<Rightarrow> 'd engine_ops \<Rightarrow> naming_cfg \<Rightarrow> int \<Rightarrow> 'd \<Rightarrow> 'r naming \<Rightarrow> 'd \<times> 'r naming \<times> string option" where
  "heartbeat R ops C now d n =
     (case eo_ids ops (nc_EngineName C) d of Inl err \<Rightarrow> (d, n, Some err)
      | Inr ids \<Rightarrow>
        (let d1 = beat_all ops C now (if length ids = 0 then [0] else ids) d;
             n1 = (if length ids = 0 then clear_all n else n);
             n2 = fold (refresh_ring R ops now d1) ids n1
         in if nc_IsCenter C
            then (let d2 = fst (eo_beat ops (nc_Endpoint C) (nc_EngineName C) HostDatasource now d1)
                  in (d2, refresh_ring R ops now d2 HostDatasource n2, None))
            else (d1, n2, None)))"

definition NewNaming :: "'r ring_ops \<Rightarrow> 'd engine_ops \<Rightarrow> naming_cfg \<Rightarrow> int \<Rightarrow> 'd \<Rightarrow> 'r rings \<Rightarrow> 'd \<times> 'r naming" where
  "NewNaming R ops C now d rings =
     (case heartbeat R ops C now d \<lparr>nm_Rings = rings, nm_localss = []\<rparr> of (d1, n1, _) \<Rightarrow> (d1, n1))"

subsection \<open>The contract of the engine table\<close>

locale engine_table =
  fixes ops :: "'d engine_ops" and good :: "'d \<Rightarrow> bool"
  assumes beat_good: "word inst \<Longrightarrow> good d \<Longrightarrow> good (fst (eo_beat ops inst cl ds now d))"
    and active_words: "good d \<Longrightarrow> eo_active ops ds now d = Inr l \<Longrightarrow> w \<in> set l \<Longrightarrow> word w"
    and beat_listed: "eo_beat ops inst cl ds now d = (d', None) \<Longrightarrow> eo_active ops ds now' d' = Inr l \<Longrightarrow>
      now' - 30 < now \<Longrightarrow> inst \<in> set l"
    and beat_others: "eo_active ops ds' now' d = Inr l \<Longrightarrow>
      eo_active ops ds' now' (fst (eo_beat ops inst cl ds now d)) = Inr l' \<Longrightarrow>
      w \<noteq> inst \<or> ds' \<noteq> ds \<Longrightarrow> w \<in> set l' \<longleftrightarrow> w \<in> set l"

definition words_db :: "engine_db \<Rightarrow> bool" where
  "words_db d \<longleftrightarrow> (\<forall>x \<in> set (ed_engines d). word (ae_Instance x))"

lemma words_db_insert: "word inst \<Longrightarrow> words_db d \<Longrightarrow> words_db (engine_insert inst cl ds now d)"
  by (simp add: words_db_def engine_insert_def)

interpretation center: engine_table "center_ops F" words_db for F
proof
  show "words_db (fst (eo_beat (center_ops F) inst cl ds now d))" if "word inst" "words_db d" for inst d cl ds now
    using that words_db_insert
    by (auto simp: center_ops_def AlertingEngineHeartbeatWithCluster_def Let_def words_db_def)
  show "word w" if "words_db d" "eo_active (center_ops F) ds now d = Inr l" "w \<in> set l" for d ds now l w
    using that by (auto simp: center_ops_def AlertingEngineGetsInstances_def words_db_def split: if_splits)
  show "inst \<in> set l"
    if "eo_beat (center_ops F) inst cl ds now d = (d', None)" "eo_active (center_ops F) ds now' d' = Inr l" "now' - 30 < now"
    for inst cl ds now d d' now' l
  proof -
    let ?mine = "\<lambda>x. ae_Instance x = inst \<and> ae_EngineCluster x = cl \<and> ae_DatasourceId x = ds"
    have "\<exists>x \<in> set (ed_engines d'). ae_Instance x = inst \<and> ae_DatasourceId x = ds \<and> ae_Clock x = now"
    proof (cases "\<exists>x \<in> set (ed_engines d). ?mine x")
      case True
      then obtain x where x: "x \<in> set (ed_engines d)" "?mine x" by blast
      have "ed_engines d' = map (\<lambda>x. if ?mine x then x\<lparr>ae_Clock := now\<rparr> else x) (ed_engines d)"
        using that(1) True by (auto simp: center_ops_def AlertingEngineHeartbeatWithCluster_def Let_def split: if_splits)
      then have "x\<lparr>ae_Clock := now\<rparr> \<in> set (ed_engines d')" using x by (auto simp: image_iff)
      then show ?thesis using x(2) by (intro bexI [of _ "x\<lparr>ae_Clock := now\<rparr>"]) auto
    next
      case False
      then have "d' = engine_insert inst cl ds now d"
        using that(1) by (auto simp: center_ops_def AlertingEngineHeartbeatWithCluster_def Let_def split: if_splits)
      then show ?thesis by (simp add: engine_insert_def)
    qed
    then show ?thesis using that(2,3)
      by (auto simp: center_ops_def AlertingEngineGetsInstances_def image_iff split: if_splits)
  qed
  show "w \<in> set l' \<longleftrightarrow> w \<in> set l"
    if "eo_active (center_ops F) ds' now' d = Inr l"
      "eo_active (center_ops F) ds' now' (fst (eo_beat (center_ops F) inst cl ds now d)) = Inr l'"
      "w \<noteq> inst \<or> ds' \<noteq> ds" for ds' now' d l inst cl ds now l' w
    using that
    by (auto simp: center_ops_def AlertingEngineGetsInstances_def AlertingEngineHeartbeatWithCluster_def
        engine_insert_def Let_def image_iff split: if_splits)
qed

subsection \<open>Rows\<close>

definition engine_key :: "AlertingEngines \<Rightarrow> string \<times> string \<times> int" where
  "engine_key x = (ae_Instance x, ae_EngineCluster x, ae_DatasourceId x)"

lemma beat_keys_distinct:
  "distinct (map engine_key (ed_engines d)) \<Longrightarrow>
   distinct (map engine_key (ed_engines (fst (AlertingEngineHeartbeatWithCluster F inst cl ds now d))))"
proof -
  assume a: "distinct (map engine_key (ed_engines d))"
  have "engine_key (if P x then x\<lparr>ae_Clock := now\<rparr> else x) = engine_key x" for P x by (simp add: engine_key_def)
  then have "map engine_key (map (\<lambda>x. if P x then x\<lparr>ae_Clock := now\<rparr> else x) xs) = map engine_key xs" for P xs
    by (simp add: o_def)
  then show ?thesis using a
    by (auto simp: AlertingEngineHeartbeatWithCluster_def engine_insert_def Let_def engine_key_def simp del: map_map)
qed

lemma delete_inactive_keeps_active:
  "eo_active (center_ops F) ds now d = Inr l \<Longrightarrow>
   eo_active (center_ops F) ds now (DeleteInactiveInstances F' now d) = Inr l' \<Longrightarrow> l' = l"
proof -
  have f: "filter (\<lambda>x. ae_DatasourceId x = ds \<and> now - 30 < ae_Clock x) (filter (\<lambda>x. \<not> ae_Clock x < now - 600) xs) =
    filter (\<lambda>x. ae_DatasourceId x = ds \<and> now - 30 < ae_Clock x) xs" for xs
    by (induction xs) auto
  show "eo_active (center_ops F) ds now d = Inr l \<Longrightarrow>
   eo_active (center_ops F) ds now (DeleteInactiveInstances F' now d) = Inr l' \<Longrightarrow> l' = l"
    by (auto simp: f center_ops_def AlertingEngineGetsInstances_def DeleteInactiveInstances_def simp del: filter_filter
        split: if_splits)
qed

subsection \<open>Rings and the servers they were built from\<close>

definition ring_of :: "'r ring_ops \<Rightarrow> string list \<Rightarrow> 'r" where
  "ring_of R servers = fold (rg_add R) servers (rg_set_replicas R NodeReplicas (rg_new R))"

text \<open>What an instance remembers of a data source is the list its ring was built from.\<close>

definition naming_inv :: "'r ring_ops \<Rightarrow> 'r naming \<Rightarrow> bool" where
  "naming_inv R n \<longleftrightarrow> (\<forall>i s. go_get (nm_localss n) i = Some s \<longrightarrow>
     (\<exists>servers. (\<forall>w \<in> set servers. word w) \<and> s = Join servers '' '' \<and>
        go_get (nm_Rings n) i = Some (ring_of R servers)))"

lemma Join_words_inj:
  "\<forall>w \<in> set a. word w \<Longrightarrow> \<forall>w \<in> set b. word w \<Longrightarrow> Join a '' '' = Join b '' '' \<Longrightarrow> a = b"
  by (metis Fields_Join)

lemma ring_members:
  assumes "ring_laws R members"
  shows "members (ring_of R servers) = set servers"
proof -
  have "members (fold (rg_add R) servers r) = members r \<union> set servers" for r
    using assms by (induction servers arbitrary: r) (auto simp: ring_laws_def)
  then show ?thesis using assms by (simp add: ring_of_def ring_laws_def)
qed

lemma go_get_delete_except:
  "go_get (fold (\<lambda>i m. if i = h then m else go_del i m) ks m) k =
     (if k \<in> set ks \<and> k \<noteq> h then None else go_get m k)"
  by (induction ks arbitrary: m) auto

lemma go_get_Clear:
  fixes m :: "(int, 'a) go_map"
  shows "go_get (fold (\<lambda>i m. if i = HostDatasource then m else go_del i m) (go_keys m) m) k =
     (if k = HostDatasource then go_get m k else None)"
proof -
  have "go_get m k = None" if "k \<notin> set (go_keys m)" using that gm.get_in_keys [of m k] by fastforce
  then show ?thesis by (auto simp: go_get_delete_except)
qed

lemma clear_all_inv: "naming_inv R n \<Longrightarrow> naming_inv R (clear_all n)"
  by (simp add: naming_inv_def clear_all_def Clear_def go_get_Clear)

lemma refresh_ring_frame:
  "j \<noteq> i \<Longrightarrow> go_get (nm_Rings (refresh_ring R ops now d i n)) j = go_get (nm_Rings n) j"
  by (auto simp: refresh_ring_def RebuildConsistentHashRing_def rings_Set_def Let_def split: sum.split)

lemma refresh_rings_frame:
  "j \<notin> set is \<Longrightarrow> go_get (nm_Rings (fold (refresh_ring R ops now d) is n)) j = go_get (nm_Rings n) j"
  by (induction "is" arbitrary: n) (auto simp: refresh_ring_frame)

context engine_table
begin

lemma beat_all_good: "word (nc_Endpoint C) \<Longrightarrow> good d \<Longrightarrow> good (beat_all ops C now is d)"
  by (induction "is" arbitrary: d) (auto intro: beat_good)

lemma active_server_words:
  "good d \<Longrightarrow> ActiveServers ops i now d = Inr l \<Longrightarrow> \<forall>w \<in> set (sort l). word w"
  by (auto simp: ActiveServers_def split: if_splits intro: active_words)

lemma refresh_ring_current:
  assumes "naming_inv R n" "good d" "ActiveServers ops i now d = Inr l"
  shows "go_get (nm_Rings (refresh_ring R ops now d i n)) i = Some (ring_of R (sort l))"
proof (cases "go_get (nm_localss n) i = Some (Join (sort l) '' '')")
  case True
  then obtain servers where s: "\<forall>w \<in> set servers. word w" "Join (sort l) '' '' = Join servers '' ''"
    "go_get (nm_Rings n) i = Some (ring_of R servers)"
    using assms(1) unfolding naming_inv_def by blast
  have "sort l = servers" using active_server_words [OF assms(2,3)] s(1,2) by (rule Join_words_inj)
  then show ?thesis using True s(3) assms(3) by (simp add: refresh_ring_def)
next
  case False
  then show ?thesis using assms(3)
    by (simp add: refresh_ring_def RebuildConsistentHashRing_def rings_Set_def ring_of_def Let_def)
qed

lemma refresh_ring_inv:
  assumes "naming_inv R n" "good d"
  shows "naming_inv R (refresh_ring R ops now d i n)"
proof (cases "ActiveServers ops i now d")
  case (Inl err)
  then show ?thesis using assms(1) by (simp add: refresh_ring_def)
next
  case (Inr l)
  note w = active_server_words [OF assms(2) Inr]
  show ?thesis unfolding naming_inv_def
  proof (intro allI impI)
    fix j s
    assume j: "go_get (nm_localss (refresh_ring R ops now d i n)) j = Some s"
    show "\<exists>servers. (\<forall>w \<in> set servers. word w) \<and> s = Join servers '' '' \<and>
        go_get (nm_Rings (refresh_ring R ops now d i n)) j = Some (ring_of R servers)"
    proof (cases "j = i")
      case True
      have "s = Join (sort l) '' ''"
        using j Inr True by (auto simp: refresh_ring_def Let_def split: if_splits)
      then show ?thesis using True w refresh_ring_current [OF assms Inr] by blast
    next
      case False
      then have "go_get (nm_localss n) j = Some s"
        using j Inr by (auto simp: refresh_ring_def Let_def split: if_splits)
      then show ?thesis using assms(1) False by (auto simp: naming_inv_def refresh_ring_frame)
    qed
  qed
qed

lemma refresh_rings_inv:
  "naming_inv R n \<Longrightarrow> good d \<Longrightarrow> naming_inv R (fold (refresh_ring R ops now d) is n)"
  by (induction "is" arbitrary: n) (auto intro: refresh_ring_inv)

lemma refresh_rings_current:
  assumes "naming_inv R n" "good d" "i \<in> set is" "ActiveServers ops i now d = Inr l"
  shows "go_get (nm_Rings (fold (refresh_ring R ops now d) is n)) i = Some (ring_of R (sort l))"
  using assms
proof (induction "is" arbitrary: n)
  case (Cons j js)
  show ?case
  proof (cases "i \<in> set js")
    case True
    then show ?thesis using Cons.IH [OF refresh_ring_inv] Cons.prems by simp
  next
    case False
    then have "i = j" using Cons.prems(3) by simp
    then show ?thesis
      using False refresh_ring_current [OF Cons.prems(1,2,4)] by (simp add: refresh_rings_frame)
  qed
qed simp

lemma heartbeat_inv:
  assumes "heartbeat R ops C now d n = (d', n', r)" "naming_inv R n" "good d" "word (nc_Endpoint C)"
  shows "naming_inv R n' \<and> good d'"
proof (cases "eo_ids ops (nc_EngineName C) d")
  case (Inl err)
  then show ?thesis using assms by (simp add: heartbeat_def)
next
  case (Inr ids)
  let ?d1 = "beat_all ops C now (if length ids = 0 then [0] else ids) d"
  let ?n2 = "fold (refresh_ring R ops now ?d1) ids (if length ids = 0 then clear_all n else n)"
  have d1: "good ?d1" using assms(3,4) by (simp only: beat_all_good)
  have n2: "naming_inv R ?n2" using refresh_rings_inv [OF _ d1] assms(2) clear_all_inv by metis
  show ?thesis using assms(1) Inr d1 n2 refresh_ring_inv [OF n2 beat_good [OF assms(4) d1]] beat_good [OF assms(4) d1]
    by (auto simp: heartbeat_def Let_def simp del: fold_simps split: if_splits)
qed

end

subsection \<open>Who owns a rule\<close>

lemma IsHit_ring:
  assumes "ring_laws R members" "go_get rings ds = Some (ring_of R servers)" "servers \<noteq> []"
  shows "\<exists>owner \<in> set servers. \<forall>node. snd (IsHit R ds pk node rings) \<longleftrightarrow> node = owner"
proof -
  have "members (ring_of R servers) \<noteq> {}" using assms(3) ring_members [OF assms(1)] by simp
  then obtain owner where "owner \<in> set servers" "rg_get R (ring_of R servers) pk = Inr owner"
    using assms(1) ring_members [OF assms(1)] unfolding ring_laws_def by metis
  then show ?thesis using assms(2) by (intro bexI [of _ owner]) (auto simp: IsHit_def GetNode_def)
qed

lemma IsHit_same_ring:
  "go_get rings ds = Some r \<Longrightarrow> go_get rings' ds = Some r \<Longrightarrow> snd (IsHit R ds pk node rings) = snd (IsHit R ds pk node rings')"
  by (simp add: IsHit_def GetNode_def split: sum.split)

lemma IsHit_no_ring:
  assumes "ring_laws R members" "go_get rings ds = None"
  shows "\<not> snd (IsHit R ds pk node rings)"
proof -
  have "members (NewConsistentHashRing R NodeReplicas []) = {}"
    using ring_members [OF assms(1), of "[]"] by (simp add: ring_of_def NewConsistentHashRing_def)
  moreover have "\<exists>err. rg_get R r k = Inl err" if "members r = {}" for r k
    using assms(1) that by (simp add: ring_laws_def)
  ultimately obtain err where "rg_get R (NewConsistentHashRing R NodeReplicas []) pk = Inl err" by blast
  then show ?thesis using assms(2) by (simp add: IsHit_def GetNode_def Let_def)
qed

lemma IsHit_keeps:
  "go_get rings j = Some r \<Longrightarrow> go_get (fst (IsHit R ds pk node rings)) j = Some r"
  by (auto simp: IsHit_def GetNode_def Let_def split: option.split sum.split)

lemma IsHit_rings_inv:
  assumes "naming_inv R n"
  shows "naming_inv R (n\<lparr>nm_Rings := fst (IsHit R ds pk node (nm_Rings n))\<rparr>)"
  unfolding naming_inv_def
proof (intro allI impI)
  fix i s
  assume "go_get (nm_localss (n\<lparr>nm_Rings := fst (IsHit R ds pk node (nm_Rings n))\<rparr>)) i = Some s"
  then have "go_get (nm_localss n) i = Some s" by simp
  then obtain servers where "\<forall>w \<in> set servers. word w" "s = Join servers '' ''"
    "go_get (nm_Rings n) i = Some (ring_of R servers)"
    using assms unfolding naming_inv_def by blast
  then show "\<exists>servers. (\<forall>w \<in> set servers. word w) \<and> s = Join servers '' '' \<and>
      go_get (nm_Rings (n\<lparr>nm_Rings := fst (IsHit R ds pk node (nm_Rings n))\<rparr>)) i = Some (ring_of R servers)"
    using IsHit_keeps by fastforce
qed

text \<open>An instance is up to date on a data source when its last heartbeat read the list \<open>l\<close> of active
  servers for it.\<close>

definition up_to_date ::
    "'r ring_ops \<Rightarrow> engine_faults \<Rightarrow> naming_cfg \<Rightarrow> int \<Rightarrow> string list \<Rightarrow> 'r naming \<Rightarrow> bool" where
  "up_to_date R F C ds l n' \<longleftrightarrow> (\<exists>now d n d' ids. naming_inv R n \<and> words_db d \<and> word (nc_Endpoint C) \<and>
     heartbeat R (center_ops F) C now d n = (d', n', None) \<and>
     eo_ids (center_ops F) (nc_EngineName C) d = Inr ids \<and> ds \<in> set ids \<and> ds \<noteq> HostDatasource \<and>
     ActiveServers (center_ops F) ds now (beat_all (center_ops F) C now ids d) = Inr l)"

lemma up_to_date_ring:
  assumes "up_to_date R F C ds l n'"
  shows "go_get (nm_Rings n') ds = Some (ring_of R (sort l))"
proof -
  obtain now d n d' ids where h: "naming_inv R n" "words_db d" "word (nc_Endpoint C)"
    "heartbeat R (center_ops F) C now d n = (d', n', None)"
    "eo_ids (center_ops F) (nc_EngineName C) d = Inr ids" "ds \<in> set ids" "ds \<noteq> HostDatasource"
    "ActiveServers (center_ops F) ds now (beat_all (center_ops F) C now ids d) = Inr l"
    using assms unfolding up_to_date_def by blast
  let ?d1 = "beat_all (center_ops F) C now ids d"
  have ne: "length ids \<noteq> 0" using h(6) by auto
  have g: "words_db ?d1" using h(2,3) by (rule center.beat_all_good [rotated])
  have "go_get (nm_Rings (fold (refresh_ring R (center_ops F) now ?d1) ids n)) ds = Some (ring_of R (sort l))"
    using center.refresh_rings_current [OF h(1) g h(6,8)] .
  then show ?thesis using h(4,5,7) ne
    by (auto simp: heartbeat_def Let_def refresh_ring_frame split: if_splits)
qed

lemma heartbeat_frame:
  assumes "heartbeat R ops C now d n = (d', n', None)" "eo_ids ops (nc_EngineName C) d = Inr ids"
    "ds \<notin> set ids" "ds \<noteq> HostDatasource"
  shows "go_get (nm_Rings n') ds = (if ids = [] then None else go_get (nm_Rings n) ds)"
  using assms
  by (auto simp: heartbeat_def Let_def refresh_ring_frame refresh_rings_frame clear_all_def Clear_def go_get_Clear
      split: if_splits)

context engine_table
begin

definition reliable :: bool where
  "reliable \<longleftrightarrow> (\<forall>inst cl ds now d. snd (eo_beat ops inst cl ds now d) = None) \<and>
     (\<forall>ds now d. \<exists>l. eo_active ops ds now d = Inr l)"

lemma beat_all_others:
  assumes "reliable" "ds \<notin> set is" "eo_active ops ds now' d = Inr l" "eo_active ops ds now' (beat_all ops C now is d) = Inr l'"
  shows "set l' = set l"
  using assms
proof (induction "is" arbitrary: d l)
  case (Cons i "is")
  let ?d = "fst (eo_beat ops (nc_Endpoint C) (nc_EngineName C) i now d)"
  obtain m where m: "eo_active ops ds now' ?d = Inr m" using Cons.prems(1) unfolding reliable_def by blast
  have "w \<in> set m \<longleftrightarrow> w \<in> set l" for w by (rule beat_others [OF Cons.prems(3) m]) (use Cons.prems(2) in auto)
  then show ?case using Cons.IH [OF Cons.prems(1) _ m] Cons.prems(2,4) by auto
qed simp

lemma beat_all_listed:
  assumes "reliable" "ds \<in> set is" "now' - 30 < now" "eo_active ops ds now' (beat_all ops C now is d) = Inr l"
  shows "nc_Endpoint C \<in> set l"
  using assms(2,4)
proof (induction "is" arbitrary: d)
  case (Cons i "is")
  let ?d = "fst (eo_beat ops (nc_Endpoint C) (nc_EngineName C) i now d)"
  show ?case
  proof (cases "ds \<in> set is")
    case True
    then show ?thesis using Cons.IH [of ?d] Cons.prems(2) by simp
  next
    case False
    obtain m where m: "eo_active ops ds now' ?d = Inr m" using assms(1) unfolding reliable_def by blast
    have "eo_beat ops (nc_Endpoint C) (nc_EngineName C) i now d = (?d, None)"
      using assms(1) by (simp add: reliable_def prod_eq_iff)
    then have "nc_Endpoint C \<in> set m" using beat_listed m assms(3) False Cons.prems(1) by (metis set_ConsD)
    then show ?thesis using beat_all_others [OF assms(1) False m] Cons.prems(2) by simp
  qed
qed simp

end

lemma one_owner:
  assumes "ring_laws R members" "servers \<noteq> []"
    "\<And>k. k \<in> set servers \<Longrightarrow> up_to_date R (F k) (C k) ds (l k) (n k)"
    "\<And>k. k \<in> set servers \<Longrightarrow> nc_Endpoint (C k) = k \<and> mset (l k) = mset servers"
  shows "\<exists>!k. k \<in> set servers \<and> snd (IsHit R ds pk (nc_Endpoint (C k)) (nm_Rings (n k)))"
proof -
  have r: "go_get (nm_Rings (n k)) ds = Some (ring_of R (sort servers))" if "k \<in> set servers" for k
    using up_to_date_ring [OF assms(3) [OF that]] assms(4) [OF that]
    by (metis mset_sort properties_for_sort sorted_sort)
  let ?k = "hd servers"
  have "?k \<in> set servers" using assms(2) by simp
  note k = r [OF this]
  have "sort servers \<noteq> []" using assms(2) by (metis set_empty set_sort)
  then obtain owner where "owner \<in> set servers"
    "\<And>node. snd (IsHit R ds pk node (nm_Rings (n ?k))) \<longleftrightarrow> node = owner"
    using IsHit_ring [OF assms(1) k] by auto
  then show ?thesis using IsHit_same_ring [OF r k] assms(4) by (intro ex1I [of _ owner]) auto
qed

subsection \<open>A sample\<close>

definition list_ring :: "string list ring_ops" where
  "list_ring = \<lparr>rg_new = [], rg_set_replicas = (\<lambda>n r. r), rg_add = (\<lambda>x r. x # r),
     rg_get = (\<lambda>r k. case r of [] \<Rightarrow> Inl ''empty circle'' | x # xs \<Rightarrow> Inr x)\<rparr>"

lemma list_ring_laws: "ring_laws list_ring set"
  by (simp add: ring_laws_def list_ring_def split: list.split)

definition no_engine_faults :: engine_faults where
  "no_engine_faults = \<lparr>ef_count = (\<lambda>_. False), ef_write = (\<lambda>_. False), ef_list = (\<lambda>_. False)\<rparr>"

definition sample_datasource :: Datasource where
  "sample_datasource = \<lparr>ds_Id = 1, ds_Name = ''prom'', ds_Description = '''', ds_PluginId = 1,
     ds_PluginType = ''prometheus'', ds_PluginTypeName = '''', ds_Category = ''timeseries'', ds_ClusterName = ''default'',
     ds_Settings = '''', ds_SettingsJson = [], ds_Status = ''enabled'', ds_HTTP = '''',
     ds_HTTPJson = \<lparr>ht_Timeout = 10000, ht_DialTimeout = 10000, ht_SkipTlsVerify = False,
       ht_MaxIdleConnsPerHost = 100, ht_Url = ''http://p'', ht_Headers = []\<rparr>, ds_Auth = '''',
     ds_AuthJson = \<lparr>au_BasicAuth = False, au_BasicAuthUser = '''', au_BasicAuthPassword = ''''\<rparr>,
     ds_CreatedAt = 0, ds_UpdatedAt = 0, ds_CreatedBy = '''', ds_UpdatedBy = ''''\<rparr>"

definition sample_engine_db :: engine_db where
  "sample_engine_db = \<lparr>ed_engines =
     [\<lparr>ae_Id = 1, ae_Instance = ''a:1'', ae_EngineCluster = ''default'', ae_DatasourceId = 1, ae_Clock = 100\<rparr>,
      \<lparr>ae_Id = 2, ae_Instance = ''b:1'', ae_EngineCluster = ''default'', ae_DatasourceId = 1, ae_Clock = 100\<rparr>],
     ed_next_id = 3, ed_datasources = [sample_datasource]\<rparr>"

definition sample_cfg :: "string \<Rightarrow> naming_cfg" where
  "sample_cfg k = \<lparr>nc_Endpoint = k, nc_EngineName = ''default'', nc_IsCenter = True\<rparr>"

definition sample_beat :: "string \<Rightarrow> engine_db \<times> string list naming \<times> string option" where
  "sample_beat k = heartbeat list_ring (center_ops no_engine_faults) (sample_cfg k) 110 sample_engine_db
     \<lparr>nm_Rings = [], nm_localss = []\<rparr>"

definition sample_naming :: "string \<Rightarrow> string list naming" where
  "sample_naming k = fst (snd (sample_beat k))"

lemma sample_ids: "GetDatasourceIdsByEngineName no_engine_faults (nc_EngineName (sample_cfg k)) sample_engine_db = Inr [1]"
  by (simp add: GetDatasourceIdsByEngineName_def no_engine_faults_def sample_engine_db_def sample_cfg_def sample_datasource_def)

lemma sample_heartbeat:
  "heartbeat list_ring (center_ops no_engine_faults) (sample_cfg k) 110 sample_engine_db
     \<lparr>nm_Rings = [], nm_localss = []\<rparr> = (fst (sample_beat k), sample_naming k, None)"
proof -
  have "snd (snd (sample_beat k)) = None"
    using sample_ids [of k] by (simp add: sample_beat_def heartbeat_def center_ops_def Let_def)
  then show ?thesis by (simp add: sample_naming_def prod_eq_iff flip: sample_beat_def)
qed

lemma sample_words_db: "words_db sample_engine_db"
  by (simp add: words_db_def sample_engine_db_def word_def is_space_def)

lemma sort_sample: "sort [''a:1'', ''b:1''] = [''a:1'', ''b:1'']"
  by (simp add: less_eq_char_def)

lemma sample_active:
  "k \<in> set [''a:1'', ''b:1''] \<Longrightarrow>
   ActiveServers (center_ops no_engine_faults) 1 110 (beat_all (center_ops no_engine_faults) (sample_cfg k) 110 [1] sample_engine_db)
     = Inr [''a:1'', ''b:1'']"
  by (auto simp: ActiveServers_def center_ops_def AlertingEngineGetsInstances_def AlertingEngineHeartbeatWithCluster_def
      no_engine_faults_def sample_engine_db_def sample_cfg_def sort_sample)

lemma sample_up_to_date:
  "k \<in> set [''a:1'', ''b:1''] \<Longrightarrow>
   up_to_date list_ring no_engine_faults (sample_cfg k) 1 [''a:1'', ''b:1''] (sample_naming k)"
proof -
  assume k: "k \<in> set [''a:1'', ''b:1'']"
  have "word (nc_Endpoint (sample_cfg k))" using k by (auto simp: sample_cfg_def word_def is_space_def)
  moreover have "naming_inv list_ring \<lparr>nm_Rings = [], nm_localss = []\<rparr>" by (simp add: naming_inv_def)
  moreover have "eo_ids (center_ops no_engine_faults) (nc_EngineName (sample_cfg k)) sample_engine_db = Inr [1]"
    using sample_ids [of k] by (simp add: center_ops_def)
  moreover have "(1::int) \<in> set [1]" "(1::int) \<noteq> HostDatasource" by (simp_all add: HostDatasource_def)
  ultimately show ?thesis
    unfolding up_to_date_def using sample_heartbeat sample_words_db sample_active [OF k] by blast
qed

subsection \<open>Properties\<close>

text \<open>Every rule has exactly one owner: when the instances listed as active for a data source are
  all up to date on that list, in whatever order each read it, the identifier of a rule hits the
  ring of exactly one of them.\<close>

theorem rule_one_owner:
  assumes "ring_laws R members" "servers \<noteq> []"
    "\<And>k. k \<in> set servers \<Longrightarrow> up_to_date R (F k) (C k) ds (l k) (n k)"
    "\<And>k. k \<in> set servers \<Longrightarrow> nc_Endpoint (C k) = k \<and> mset (l k) = mset servers"
  shows "\<exists>!k. k \<in> set servers \<and> snd (IsHit R ds pk (nc_Endpoint (C k)) (nm_Rings (n k)))"
  using assms by (rule one_owner)

theorem rule_one_owner_witness:
  "\<exists>!k. k \<in> set [''a:1'', ''b:1''] \<and>
     snd (IsHit list_ring 1 ''7'' (nc_Endpoint (sample_cfg k)) (nm_Rings (sample_naming k)))"
proof (rule rule_one_owner [where F = "\<lambda>k. no_engine_faults" and l = "\<lambda>k. [''a:1'', ''b:1'']"])
  show "ring_laws list_ring set" by (rule list_ring_laws)
  show "k \<in> set [''a:1'', ''b:1''] \<Longrightarrow>
    up_to_date list_ring no_engine_faults (sample_cfg k) 1 [''a:1'', ''b:1''] (sample_naming k)" for k
    by (rule sample_up_to_date) simp
qed (simp_all add: sample_cfg_def)

text \<open>What a heartbeat does to the rings of an instance: an assigned data source whose active
  servers could be read gets the ring of exactly these servers; without assigned data sources every
  ring but that of the host rules is dropped; otherwise the rings of other data sources stay.\<close>

theorem heartbeat_effect:
  assumes "heartbeat R (center_ops F) C now d n = (d', n', None)" "naming_inv R n" "words_db d"
    "word (nc_Endpoint C)" "GetDatasourceIdsByEngineName F (nc_EngineName C) d = Inr ids"
  shows "naming_inv R n' \<and>
    (\<forall>ds l. ds \<in> set ids \<longrightarrow> ds \<noteq> HostDatasource \<longrightarrow>
      ActiveServers (center_ops F) ds now (beat_all (center_ops F) C now ids d) = Inr l \<longrightarrow>
      go_get (nm_Rings n') ds = Some (ring_of R (sort l))) \<and>
    (\<forall>ds. ds \<notin> set ids \<longrightarrow> ds \<noteq> HostDatasource \<longrightarrow>
      go_get (nm_Rings n') ds = (if ids = [] then None else go_get (nm_Rings n) ds))"
proof (intro conjI allI impI)
  have i: "eo_ids (center_ops F) (nc_EngineName C) d = Inr ids" using assms(5) by (simp add: center_ops_def)
  show "naming_inv R n'" using center.heartbeat_inv [OF assms(1-4)] by simp
  show "ds \<in> set ids \<Longrightarrow> ds \<noteq> HostDatasource \<Longrightarrow>
      ActiveServers (center_ops F) ds now (beat_all (center_ops F) C now ids d) = Inr l \<Longrightarrow>
      go_get (nm_Rings n') ds = Some (ring_of R (sort l))" for ds l
    by (rule up_to_date_ring [of _ F C]) (use assms(1-4) i in \<open>auto simp: up_to_date_def\<close>)
  show "ds \<notin> set ids \<Longrightarrow> ds \<noteq> HostDatasource \<Longrightarrow>
      go_get (nm_Rings n') ds = (if ids = [] then None else go_get (nm_Rings n) ds)" for ds
    by (rule heartbeat_frame [OF assms(1) i])
qed

theorem heartbeat_effect_witness:
  "naming_inv list_ring (sample_naming ''a:1'') \<and> go_get (nm_Rings (sample_naming ''a:1'')) 1 = Some [''b:1'', ''a:1''] \<and>
   go_get (nm_Rings (sample_naming ''a:1'')) 2 = None"
  using heartbeat_effect [OF sample_heartbeat _ sample_words_db _ sample_ids, of "''a:1''"] sample_active [of "''a:1''"]
  by (simp add: sample_cfg_def ring_of_def list_ring_def word_def is_space_def naming_inv_def HostDatasource_def
      sort_sample)

text \<open>C28. After a heartbeat whose statements succeed, the instance is listed as active for each of its
  data sources during the next 30 seconds.\<close>

theorem heartbeat_announces:
  assumes "\<And>d. \<not> ef_count F d" "\<And>d. \<not> ef_write F d" "\<And>d. \<not> ef_list F d"
    "GetDatasourceIdsByEngineName F (nc_EngineName C) d = Inr ids" "ds \<in> set ids"
    "heartbeat R (center_ops F) C now d n = (d', n', r)" "now' < now + 30" "ds \<noteq> -1" "ds \<noteq> HostDatasource"
  shows "\<exists>l. ActiveServers (center_ops F) ds now' d' = Inr l \<and> nc_Endpoint C \<in> set l"
proof -
  have rel: "center.reliable F"
    using assms(1-3) unfolding center.reliable_def
    by (simp add: center_ops_def AlertingEngineHeartbeatWithCluster_def AlertingEngineGetsInstances_def Let_def)
  then obtain l where l: "eo_active (center_ops F) ds now' d' = Inr l" unfolding center.reliable_def by blast
  let ?d1 = "beat_all (center_ops F) C now ids d"
  obtain m where m: "eo_active (center_ops F) ds now' ?d1 = Inr m" using rel unfolding center.reliable_def by blast
  have "nc_Endpoint C \<in> set m" by (rule center.beat_all_listed [OF rel assms(5) _ m]) (use assms(7) in simp)
  moreover have "length ids \<noteq> 0" using assms(5) by auto
  then have "d' = ?d1 \<or> d' = fst (eo_beat (center_ops F) (nc_Endpoint C) (nc_EngineName C) HostDatasource now ?d1)"
    using assms(4,6) by (auto simp: heartbeat_def center_ops_def Let_def split: if_splits)
  then have "set l = set m"
    using l m assms(9) center.beat_others [OF m] by auto
  ultimately show ?thesis using l assms(8) by (simp add: ActiveServers_def)
qed

theorem heartbeat_announces_witness:
  "\<exists>l. ActiveServers (center_ops no_engine_faults) 1 120 (fst (sample_beat ''a:1'')) = Inr l \<and>
     nc_Endpoint (sample_cfg ''a:1'') \<in> set l"
  by (rule heartbeat_announces [OF _ _ _ sample_ids _ sample_heartbeat])
    (simp_all add: no_engine_faults_def HostDatasource_def)

text \<open>An instance that loses one of several data sources keeps its old ring for it: after the engine
  table and the other instances have moved on, it still claims rules on that data source.\<close>

lemma stale_ring_kept:
  assumes "heartbeat R (center_ops F) C now d n = (d', n', None)"
    "GetDatasourceIdsByEngineName F (nc_EngineName C) d = Inr ids" "ids \<noteq> []" "ds \<notin> set ids" "ds \<noteq> HostDatasource"
  shows "snd (IsHit R ds pk node (nm_Rings n')) = snd (IsHit R ds pk node (nm_Rings n))"
proof -
  have "go_get (nm_Rings n') ds = go_get (nm_Rings n) ds"
    using heartbeat_frame [OF assms(1) _ assms(4,5)] assms(2,3) by (simp add: center_ops_def)
  then show ?thesis by (simp add: IsHit_def GetNode_def Let_def split: option.split sum.split)
qed

end
