(* ===== verification/Scheduler.thy ===== *)
theory Scheduler
  imports Eval Naming
begin

text \<open>
  The schedulers of alerting rules (\<open>alert/eval/alert_rule.go\<close>) and of recording rules
  (\<open>alert/record/scheduler.go\<close>). Every nine seconds a scheduler computes the workers it ought to
  run, keyed by a hash of what a worker depends on, starts those that are missing and stops those
  that are no longer wanted. Both share the last two loops, \<open>start_missing\<close> and \<open>stop_useless\<close>; the
  locale \<open>reconciler\<close> states what one pass does to the table of workers and is interpreted for
  both. \<open>ws_log\<close> records the calls of \<open>Start\<close> and \<open>Stop\<close>: a second \<open>Stop\<close> would close a closed
  channel. The orders in which Go enumerates maps are arguments.
\<close>

subsection \<open>Starting and stopping\<close>

datatype action = Started string | Stopped string

record 'w workers =
  ws_rules :: "(string, 'w) go_map"
  ws_log :: "action list"

definition start_worker :: "(string, 'w) go_map \<Rightarrow> ('w \<Rightarrow> 'w) \<Rightarrow> string \<Rightarrow> 'w workers \<Rightarrow> 'w workers" where
  "start_worker wanted prepare hash s =
     (case go_get wanted hash of None \<Rightarrow> s
      | Some rule \<Rightarrow>
          if go_get (ws_rules s) hash \<noteq> None then s
          else s\<lparr>ws_rules := go_set hash (prepare rule) (ws_rules s), ws_log := ws_log s @ [Started hash]\<rparr>)"

definition stop_worker :: "(string, 'w) go_map \<Rightarrow> string \<Rightarrow> 'w workers \<Rightarrow> 'w workers" where
  "stop_worker wanted hash s =
     (if go_get wanted hash \<noteq> None then s
      else s\<lparr>ws_rules := go_del hash (ws_rules s), ws_log := ws_log s @ [Stopped hash]\<rparr>)"

definition start_missing :: "string range_order \<Rightarrow> ('w \<Rightarrow> 'w) \<Rightarrow> (string, 'w) go_map \<Rightarrow> 'w workers \<Rightarrow> 'w workers" where
  "start_missing ord prepare wanted s = fold (start_worker wanted prepare) (ord (go_keys wanted)) s"

definition stop_useless :: "string range_order \<Rightarrow> (string, 'w) go_map \<Rightarrow> 'w workers \<Rightarrow> 'w workers" where
  "stop_useless ord wanted s = fold (stop_worker wanted) (ord (go_keys (ws_rules s))) s"

subsection \<open>Alerting rules\<close>

text \<open>What one pass reads: caches, clients, the ring library, the endpoint of the instance, the rows of
  current alerts by rule and data source, and the enumeration orders.\<close>

record 'r sched_env =
  se_env :: env
  se_rules :: "(int, AlertRule) cache"
  se_clients :: prom_clients
  se_ringops :: "'r ring_ops"
  se_endpoint :: string
  se_isCenter :: bool
  se_events :: "int \<Rightarrow> int \<Rightarrow> AlertCurEvent list option"
  se_ids :: "int range_order"
  se_hits :: "int range_order"
  se_hashes :: "string range_order"

definition GetRuleIds :: "int range_order \<Rightarrow> (int, 'v) cache \<Rightarrow> int list" where
  "GetRuleIds ord c = ord (go_keys (ch_data c))"

definition datasource_enabled :: "env \<Rightarrow> int \<Rightarrow> bool" where
  "datasource_enabled E dsId =
     (case env_datasource E dsId of None \<Rightarrow> False | Some ds \<Rightarrow> if ds_Status ds \<noteq> ''enabled'' then False else True)"

definition new_worker :: "'r sched_env \<Rightarrow> AlertRule \<Rightarrow> int \<Rightarrow> worker" where
  "new_worker S rule dsId = NewAlertRuleWorker rule dsId (NewProcessor (se_env S) rule dsId)"

definition add_worker :: "'r sched_env \<Rightarrow> AlertRule \<Rightarrow> int \<Rightarrow> (string, worker) go_map \<Rightarrow> (string, worker) go_map" where
  "add_worker S rule dsId m =
     (let alertRule = new_worker S rule dsId in go_set (wk_Hash (env_lib (se_env S)) alertRule) alertRule m)"

fun prom_rule_workers :: "'r sched_env \<Rightarrow> AlertRule \<Rightarrow> int list \<Rightarrow> 'r rings \<times> (string, worker) go_map
    \<Rightarrow> 'r rings \<times> (string, worker) go_map" where
  "prom_rule_workers S rule [] (rings, m) = (rings, m)"
| "prom_rule_workers S rule (dsId # ids) (rings, m) =
     (case IsHit (se_ringops S) dsId (Itoa (ar_Id rule)) (se_endpoint S) rings of (rings1, hit) \<Rightarrow>
      if \<not> hit then prom_rule_workers S rule ids (rings1, m)
      else if \<not> datasource_enabled (se_env S) dsId then prom_rule_workers S rule ids (rings1, m)
      else prom_rule_workers S rule ids (rings1, add_worker S rule dsId m))"

fun external_rule_workers :: "'r sched_env \<Rightarrow> AlertRule \<Rightarrow> int list \<Rightarrow> (string, pstate) go_map \<Rightarrow> (string, pstate) go_map" where
  "external_rule_workers S rule [] m = m"
| "external_rule_workers S rule (dsId # ids) m =
     (if \<not> datasource_enabled (se_env S) dsId then external_rule_workers S rule ids m
      else let processor = NewProcessor (se_env S) rule dsId
           in external_rule_workers S rule ids (go_set (Key processor) processor m))"

type_synonym 'r collected = "'r rings \<times> (string, worker) go_map \<times> (string, pstate) go_map"

definition collect_rule :: "'r sched_env \<Rightarrow> int \<Rightarrow> 'r collected \<Rightarrow> 'r collected" where
  "collect_rule S ruleId = (\<lambda>(rings, workers, externals).
     case cache_Get (se_rules S) ruleId of None \<Rightarrow> (rings, workers, externals)
     | Some rule \<Rightarrow>
        if IsPrometheusRule rule \<or> IsLokiRule rule then
          (case prom_rule_workers S rule (Hit (se_hits S) (se_clients S) (ar_DatasourceIdsJson rule)) (rings, workers) of
             (rings1, workers1) \<Rightarrow> (rings1, workers1, externals))
        else if IsHostRule rule \<and> se_isCenter S then
          (case IsHit (se_ringops S) HostDatasource (Itoa (ar_Id rule)) (se_endpoint S) rings of (rings1, hit) \<Rightarrow>
             if \<not> hit then (rings1, workers, externals) else (rings1, add_worker S rule 0 workers, externals))
        else (rings, workers, external_rule_workers S rule (ar_DatasourceIdsJson rule) externals))"

definition collect_rules :: "'r sched_env \<Rightarrow> 'r rings \<Rightarrow> 'r collected" where
  "collect_rules S rings = fold (collect_rule S) (GetRuleIds (se_ids S) (se_rules S)) (rings, [], [])"

text \<open>A processor outside the scheduler is replaced when the hash of its rule changed.\<close>

definition recover_external :: "'r sched_env \<Rightarrow> pstate \<Rightarrow> pstate" where
  "recover_external S p = RecoverAlertCurEventFromDb (se_events S (ar_Id (p_rule p)) (p_datasourceId p)) p"

definition set_external :: "'r sched_env \<Rightarrow> (string, pstate) go_map \<Rightarrow> string \<Rightarrow> (string, pstate) go_map
    \<Rightarrow> (string, pstate) go_map" where
  "set_external S wanted key m =
     (case go_get wanted key of None \<Rightarrow> m
      | Some processor \<Rightarrow>
         (case go_get m key of
            Some cur \<Rightarrow> (if Processor_Hash (env_lib (se_env S)) processor = Processor_Hash (env_lib (se_env S)) cur then m
                         else go_set key (recover_external S processor) m)
          | None \<Rightarrow> go_set key (recover_external S processor) m))"

definition drop_external :: "(string, pstate) go_map \<Rightarrow> string \<Rightarrow> (string, pstate) go_map \<Rightarrow> (string, pstate) go_map" where
  "drop_external wanted key m = (if go_get wanted key \<noteq> None then m else go_del key m)"

definition sync_externals :: "'r sched_env \<Rightarrow> (string, pstate) go_map \<Rightarrow> (string, pstate) go_map \<Rightarrow> (string, pstate) go_map" where
  "sync_externals S wanted m =
     (let m1 = fold (set_external S wanted) (se_hashes S (go_keys wanted)) m
      in fold (drop_external wanted) (se_hashes S (go_keys m1)) m1)"

definition GetExternalAlertRule :: "(string, pstate) go_map \<Rightarrow> int \<Rightarrow> int \<Rightarrow> pstate option" where
  "GetExternalAlertRule m datasourceId i = go_get m (RuleKey datasourceId i)"

definition prepare_worker :: "'r sched_env \<Rightarrow> worker \<Rightarrow> worker" where
  "prepare_worker S w = Prepare (se_events S (ar_Id (p_rule (wk_processor w))) (p_datasourceId (wk_processor w))) w"

record 'r scheduler =
  sc_rings :: "'r rings"
  sc_alertRules :: "worker workers"
  sc_external :: "(string, pstate) go_map"

definition Scheduler_syncAlertRules :: "'r sched_env \<Rightarrow> 'r scheduler \<Rightarrow> 'r scheduler" where
  "Scheduler_syncAlertRules S s =
     (case collect_rules S (sc_rings s) of (rings, workers, externals) \<Rightarrow>
      \<lparr>sc_rings = rings,
       sc_alertRules = stop_useless (se_hashes S) workers
         (start_missing (se_hashes S) (prepare_worker S) workers (sc_alertRules s)),
       sc_external = sync_externals S externals (sc_external s)\<rparr>)"

subsection \<open>Recording rules\<close>

record record_worker =
  rw_datasourceId :: int
  rw_rule :: RecordingRule

definition NewRecordRuleContext :: "RecordingRule \<Rightarrow> int \<Rightarrow> record_worker" where
  "NewRecordRuleContext rule datasourceId = \<lparr>rw_datasourceId = datasourceId, rw_rule = rule\<rparr>"

definition rw_Key :: "record_worker \<Rightarrow> string" where
  "rw_Key w = ''record-'' @ Itoa (rw_datasourceId w) @ ''-'' @ Itoa (rr_Id (rw_rule w))"

definition rw_Hash :: "lib \<Rightarrow> record_worker \<Rightarrow> string" where
  "rw_Hash L w = lib_md5 L (Itoa (rr_Id (rw_rule w)) @ ''_'' @ Itoa (rr_PromEvalInterval (rw_rule w)) @ ''_'' @
     rr_PromQl (rw_rule w) @ ''_'' @ Itoa (rw_datasourceId w))"

record 'r record_env =
  re_lib :: lib
  re_rules :: "(int, RecordingRule) cache"
  re_clients :: prom_clients
  re_ringops :: "'r ring_ops"
  re_endpoint :: string
  re_ids :: "int range_order"
  re_hits :: "int range_order"
  re_hashes :: "string range_order"

fun record_rule_workers :: "'r record_env \<Rightarrow> RecordingRule \<Rightarrow> int list \<Rightarrow> 'r rings \<times> (string, record_worker) go_map
    \<Rightarrow> 'r rings \<times> (string, record_worker) go_map" where
  "record_rule_workers S rule [] (rings, m) = (rings, m)"
| "record_rule_workers S rule (dsId # ids) (rings, m) =
     (case IsHit (re_ringops S) dsId (Itoa (rr_Id rule)) (re_endpoint S) rings of (rings1, hit) \<Rightarrow>
      if \<not> hit then record_rule_workers S rule ids (rings1, m)
      else let recordRule = NewRecordRuleContext rule dsId
           in record_rule_workers S rule ids (rings1, go_set (rw_Hash (re_lib S) recordRule) recordRule m))"

definition collect_record :: "'r record_env \<Rightarrow> int \<Rightarrow> 'r rings \<times> (string, record_worker) go_map
    \<Rightarrow> 'r rings \<times> (string, record_worker) go_map" where
  "collect_record S ruleId rm =
     (case cache_Get (re_rules S) ruleId of None \<Rightarrow> rm
      | Some rule \<Rightarrow> record_rule_workers S rule (Hit (re_hits S) (re_clients S) (rr_DatasourceIdsJson rule)) rm)"

definition syncRecordRules :: "'r record_env \<Rightarrow> 'r rings \<times> record_worker workers \<Rightarrow> 'r rings \<times> record_worker workers" where
  "syncRecordRules S = (\<lambda>(rings, s).
     case fold (collect_record S) (GetRuleIds (re_ids S) (re_rules S)) (rings, []) of (rings1, recordRules) \<Rightarrow>
       (rings1, stop_useless (re_hashes S) recordRules (start_missing (re_hashes S) (\<lambda>w. w) recordRules s)))"

end
