(* ===== verification/Scheduler_Spec.thy ===== *)
theory Scheduler_Spec
  imports Scheduler Samples
begin

text \<open>
  What a pass of a scheduler guarantees: it runs exactly the wanted workers, keeps those that were
  running, and never starts a running worker or stops one that does not run. The contract is the
  locale \<open>reconciler\<close>; both schedulers satisfy it. With the rings of the other instances this gives
  the division of labour: one worker per rule and data source in the whole installation.
\<close>

subsection \<open>Replaying the log\<close>

text \<open>The set of running workers after a log; \<open>None\<close> when a running worker is started or a stopped one
  is stopped again.\<close>

fun replay :: "string set \<Rightarrow> action list \<Rightarrow> string set option" where
  "replay R [] = Some R"
| "replay R (Started h # l) = (if h \<in> R then None else replay (insert h R) l)"
| "replay R (Stopped h # l) = (if h \<notin> R then None else replay (R - {h}) l)"

lemma replay_append: "replay R (a @ b) = Option.bind (replay R a) (\<lambda>R'. replay R' b)"
  by (induction R a rule: replay.induct) auto

abbreviation running :: "'w workers \<Rightarrow> string set" where
  "running s \<equiv> dom (go_get (ws_rules s))"

definition logged :: "'w workers \<Rightarrow> 'w workers \<Rightarrow> bool" where
  "logged s t \<longleftrightarrow> (\<exists>l. ws_log t = ws_log s @ l \<and> replay (running s) l = Some (running t))"

lemma logged_refl [simp]: "logged s s"
  unfolding logged_def by (rule exI [of _ "[]"]) simp

lemma logged_trans: "logged s t \<Longrightarrow> logged t u \<Longrightarrow> logged s u"
  unfolding logged_def by (auto simp: replay_append)

subsection \<open>The two loops\<close>

lemma start_worker_get:
  "go_get (ws_rules (start_worker wanted prep k s)) h =
     (case go_get (ws_rules s) h of Some w \<Rightarrow> Some w
      | None \<Rightarrow> if h = k then map_option prep (go_get wanted h) else None)"
  by (auto simp: start_worker_def split: option.split)

lemma start_worker_logged: "logged s (start_worker wanted prep k s)"
proof (cases "go_get wanted k = None \<or> go_get (ws_rules s) k \<noteq> None")
  case True
  then have "start_worker wanted prep k s = s" by (auto simp: start_worker_def split: option.splits)
  then show ?thesis by simp
next
  case False
  then obtain w where "go_get wanted k = Some w" "go_get (ws_rules s) k = None" by auto
  then show ?thesis unfolding logged_def start_worker_def by (intro exI [of _ "[Started k]"]) auto
qed

lemma start_worker_wf: "go_wf (ws_rules s) \<Longrightarrow> go_wf (ws_rules (start_worker wanted prep k s))"
  using gm.wf_set by (auto simp: start_worker_def split: option.split)

lemma start_fold:
  "go_get (ws_rules (fold (start_worker wanted prep) ks s)) h =
     (case go_get (ws_rules s) h of Some w \<Rightarrow> Some w
      | None \<Rightarrow> if h \<in> set ks then map_option prep (go_get wanted h) else None) \<and>
   logged s (fold (start_worker wanted prep) ks s) \<and>
   (go_wf (ws_rules s) \<longrightarrow> go_wf (ws_rules (fold (start_worker wanted prep) ks s)))"
proof (induction ks arbitrary: s)
  case Nil
  then show ?case by (simp split: option.split)
next
  case (Cons k ks)
  let ?t = "start_worker wanted prep k s"
  have "logged s (fold (start_worker wanted prep) ks ?t)"
    using logged_trans [OF start_worker_logged] Cons [of ?t] by blast
  moreover have "go_wf (ws_rules s) \<longrightarrow> go_wf (ws_rules (fold (start_worker wanted prep) ks ?t))"
    using start_worker_wf Cons [of ?t] by blast
  moreover have "go_get (ws_rules (fold (start_worker wanted prep) ks ?t)) h =
     (case go_get (ws_rules s) h of Some w \<Rightarrow> Some w
      | None \<Rightarrow> if h \<in> set (k # ks) then map_option prep (go_get wanted h) else None)"
    using Cons [of ?t] by (auto simp: start_worker_get split: option.splits)
  ultimately show ?case by simp
qed

lemma stop_worker_logged: "go_get (ws_rules s) k \<noteq> None \<Longrightarrow> logged s (stop_worker wanted k s)"
proof (cases "go_get wanted k")
  case None
  assume "go_get (ws_rules s) k \<noteq> None"
  then show ?thesis unfolding logged_def stop_worker_def using None by (intro exI [of _ "[Stopped k]"]) auto
next
  case (Some w)
  then show ?thesis by (simp add: stop_worker_def)
qed

lemma stop_worker_get:
  "go_get (ws_rules (stop_worker wanted k s)) h =
     (if h = k \<and> go_get wanted k = None then None else go_get (ws_rules s) h)"
  by (auto simp: stop_worker_def)

lemma stop_worker_wf: "go_wf (ws_rules s) \<Longrightarrow> go_wf (ws_rules (stop_worker wanted k s))"
  using gm.wf_del by (auto simp: stop_worker_def)

lemma stop_fold:
  assumes "distinct ks" "set ks \<subseteq> running s"
  shows "go_get (ws_rules (fold (stop_worker wanted) ks s)) h =
     (if h \<in> set ks \<and> go_get wanted h = None then None else go_get (ws_rules s) h) \<and>
   logged s (fold (stop_worker wanted) ks s) \<and>
   (go_wf (ws_rules s) \<longrightarrow> go_wf (ws_rules (fold (stop_worker wanted) ks s)))"
  using assms
proof (induction ks arbitrary: s)
  case (Cons k ks)
  let ?t = "stop_worker wanted k s"
  have k: "go_get (ws_rules s) k \<noteq> None" using Cons.prems(2) by auto
  have "set ks \<subseteq> running ?t" using Cons.prems by (auto simp: stop_worker_get)
  then have ih: "go_get (ws_rules (fold (stop_worker wanted) ks ?t)) h =
     (if h \<in> set ks \<and> go_get wanted h = None then None else go_get (ws_rules ?t) h) \<and>
   logged ?t (fold (stop_worker wanted) ks ?t) \<and>
   (go_wf (ws_rules ?t) \<longrightarrow> go_wf (ws_rules (fold (stop_worker wanted) ks ?t)))"
    using Cons.IH [of ?t] Cons.prems(1) by simp
  have "logged s (fold (stop_worker wanted) ks ?t)"
    using logged_trans [OF stop_worker_logged [OF k]] ih by blast
  moreover have "go_wf (ws_rules s) \<longrightarrow> go_wf (ws_rules (fold (stop_worker wanted) ks ?t))"
    using stop_worker_wf ih by blast
  moreover have "go_get (ws_rules (fold (stop_worker wanted) ks ?t)) h =
     (if h \<in> set (k # ks) \<and> go_get wanted h = None then None else go_get (ws_rules s) h)"
    using ih by (auto simp: stop_worker_get)
  ultimately show ?case by simp
qed simp

definition keep_or_prepare :: "('w \<Rightarrow> 'w) \<Rightarrow> 'w option \<Rightarrow> 'w option \<Rightarrow> 'w option" where
  "keep_or_prepare prep wanted current =
     (case wanted of None \<Rightarrow> None | Some w \<Rightarrow> (case current of Some w0 \<Rightarrow> Some w0 | None \<Rightarrow> Some (prep w)))"

lemma reconcile:
  fixes wanted :: "(string, 'w) go_map"
  assumes "fair_order ord" "go_wf (ws_rules s)" and t_def: "t = stop_useless ord wanted (start_missing ord prep wanted s)"
  shows "go_get (ws_rules t) h = keep_or_prepare prep (go_get wanted h) (go_get (ws_rules s) h)"
    and "logged s t" and "go_wf (ws_rules t)"
proof -
  let ?u = "start_missing ord prep wanted s"
  have keys: "set (ord (go_keys m)) = dom (go_get m)" for m :: "(string, 'w) go_map"
    using assms(1) gm.keys_dom [of m] by simp
  note u = start_fold [of wanted prep "ord (go_keys wanted)" s, folded start_missing_def]
  have wf: "go_wf (ws_rules ?u)" using u assms(2) by blast
  have d: "distinct (ord (go_keys (ws_rules ?u)))" using assms(1) gm.wf_keys [OF wf] by simp
  have sub: "set (ord (go_keys (ws_rules ?u))) \<subseteq> running ?u" using keys by simp
  note v = stop_fold [OF d sub, where wanted = wanted, folded stop_useless_def, folded t_def]
  show "logged s t" using logged_trans u v by blast
  show "go_wf (ws_rules t)" using v wf by blast
  have "go_get (ws_rules ?u) h = (case go_get (ws_rules s) h of Some w \<Rightarrow> Some w
      | None \<Rightarrow> map_option prep (go_get wanted h))"
    using u [of h] keys [of wanted] by (auto split: option.splits)
  then show "go_get (ws_rules t) h = keep_or_prepare prep (go_get wanted h) (go_get (ws_rules s) h)"
    using v [of h] keys [of "ws_rules ?u"] by (auto simp: keep_or_prepare_def dom_def split: option.splits)
qed

subsection \<open>The contract of a scheduler\<close>

locale reconciler =
  fixes sync :: "'e \<Rightarrow> 's \<Rightarrow> 's" and workers :: "'s \<Rightarrow> 'w workers" and wanted :: "'e \<Rightarrow> 's \<Rightarrow> string \<Rightarrow> 'w option"
    and prep :: "'e \<Rightarrow> 'w \<Rightarrow> 'w" and ok :: "'e \<Rightarrow> bool"
  assumes sync_get: "ok e \<Longrightarrow> go_wf (ws_rules (workers s)) \<Longrightarrow> go_get (ws_rules (workers (sync e s))) h =
      keep_or_prepare (prep e) (wanted e s h) (go_get (ws_rules (workers s)) h)"
    and sync_logged: "ok e \<Longrightarrow> go_wf (ws_rules (workers s)) \<Longrightarrow> logged (workers s) (workers (sync e s))"
    and sync_wf: "ok e \<Longrightarrow> go_wf (ws_rules (workers s)) \<Longrightarrow> go_wf (ws_rules (workers (sync e s)))"
begin

definition passes :: "'e list \<Rightarrow> 's \<Rightarrow> 's" where
  "passes es s = fold sync es s"

lemma sync_running:
  "ok e \<Longrightarrow> go_wf (ws_rules (workers s)) \<Longrightarrow> running (workers (sync e s)) = dom (wanted e s)"
  by (auto simp: sync_get keep_or_prepare_def split: option.splits)

lemma sync_keeps:
  "ok e \<Longrightarrow> go_wf (ws_rules (workers s)) \<Longrightarrow> go_get (ws_rules (workers s)) h = Some w \<Longrightarrow>
   wanted e s h \<noteq> None \<Longrightarrow> go_get (ws_rules (workers (sync e s))) h = Some w"
  by (auto simp: sync_get keep_or_prepare_def)

lemma passes_logged:
  "\<forall>e \<in> set es. ok e \<Longrightarrow> go_wf (ws_rules (workers s)) \<Longrightarrow>
   logged (workers s) (workers (passes es s)) \<and> go_wf (ws_rules (workers (passes es s)))"
proof (induction es arbitrary: s)
  case (Cons e es)
  then show ?case
    using logged_trans [OF sync_logged [of e s]] sync_wf [of e s] Cons.IH [of "sync e s"] by (simp add: passes_def)
qed (simp add: passes_def)

lemma passes_running:
  assumes "\<forall>e \<in> set (es @ [e]). ok e" "go_wf (ws_rules (workers s))"
  shows "running (workers (passes (es @ [e]) s)) = dom (wanted e (passes es s))"
  using sync_running [of e "passes es s"] passes_logged [of es s] assms by (simp add: passes_def)

end

definition alert_wanted :: "'r sched_env \<Rightarrow> 'r scheduler \<Rightarrow> string \<Rightarrow> worker option" where
  "alert_wanted S s = go_get (fst (snd (collect_rules S (sc_rings s))))"

interpretation alert: reconciler Scheduler_syncAlertRules sc_alertRules alert_wanted prepare_worker "\<lambda>S. fair_order (se_hashes S)"
proof
  fix S :: "'r sched_env" and s :: "'r scheduler" and h
  assume a: "fair_order (se_hashes S)" "go_wf (ws_rules (sc_alertRules s))"
  obtain rings ws ex where c: "collect_rules S (sc_rings s) = (rings, ws, ex)" by (cases "collect_rules S (sc_rings s)") auto
  have t: "sc_alertRules (Scheduler_syncAlertRules S s) =
      stop_useless (se_hashes S) ws (start_missing (se_hashes S) (prepare_worker S) ws (sc_alertRules s))"
    by (simp add: Scheduler_syncAlertRules_def c)
  note r = reconcile [OF a t]
  show "go_get (ws_rules (sc_alertRules (Scheduler_syncAlertRules S s))) h =
      keep_or_prepare (prepare_worker S) (alert_wanted S s h) (go_get (ws_rules (sc_alertRules s)) h)"
    using r(1) by (simp add: alert_wanted_def c)
  show "logged (sc_alertRules s) (sc_alertRules (Scheduler_syncAlertRules S s))" by (rule r(2))
  show "go_wf (ws_rules (sc_alertRules (Scheduler_syncAlertRules S s)))" by (rule r(3))
qed

definition record_wanted :: "'r record_env \<Rightarrow> 'r rings \<times> record_worker workers \<Rightarrow> string \<Rightarrow> record_worker option" where
  "record_wanted S rs = go_get (snd (fold (collect_record S) (GetRuleIds (re_ids S) (re_rules S)) (fst rs, [])))"

interpretation recording: reconciler syncRecordRules snd record_wanted "\<lambda>S w. w" "\<lambda>S. fair_order (re_hashes S)"
proof
  fix S :: "'r record_env" and rs :: "'r rings \<times> record_worker workers" and h
  assume a: "fair_order (re_hashes S)" "go_wf (ws_rules (snd rs))"
  obtain rings ws where c: "fold (collect_record S) (GetRuleIds (re_ids S) (re_rules S)) (fst rs, []) = (rings, ws)"
    by fastforce
  have t: "snd (syncRecordRules S rs) = stop_useless (re_hashes S) ws (start_missing (re_hashes S) (\<lambda>w. w) ws (snd rs))"
    using c by (cases rs) (simp add: syncRecordRules_def)
  note r = reconcile [OF a t]
  show "go_get (ws_rules (snd (syncRecordRules S rs))) h =
      keep_or_prepare (\<lambda>w. w) (record_wanted S rs h) (go_get (ws_rules (snd rs)) h)"
    using r(1) by (simp add: record_wanted_def c)
  show "logged (snd rs) (snd (syncRecordRules S rs))" by (rule r(2))
  show "go_wf (ws_rules (snd (syncRecordRules S rs)))" by (rule r(3))
qed

subsection \<open>Which workers are wanted\<close>

lemma IsHit_stable:
  "snd (IsHit R ds pk node (fst (IsHit R ds' pk' node' rings))) = snd (IsHit R ds pk node rings)"
proof (cases "go_get rings ds'")
  case None
  let ?r = "NewConsistentHashRing R NodeReplicas []"
  have "fst (IsHit R ds' pk' node' rings) = go_set ds' ?r rings"
    using None by (simp add: IsHit_def GetNode_def Let_def split: sum.split)
  then show ?thesis using None by (cases "ds = ds'") (simp_all add: IsHit_def GetNode_def Let_def split: sum.split option.split)
next
  case (Some r)
  then have "fst (IsHit R ds' pk' node' rings) = rings" by (simp add: IsHit_def GetNode_def split: sum.split)
  then show ?thesis by simp
qed

definition same_hits :: "'r ring_ops \<Rightarrow> 'r rings \<Rightarrow> 'r rings \<Rightarrow> bool" where
  "same_hits R rings rings' \<longleftrightarrow> (\<forall>ds pk node. snd (IsHit R ds pk node rings') = snd (IsHit R ds pk node rings))"

lemma same_hits_refl [simp]: "same_hits R rings rings"
  by (simp add: same_hits_def)

lemma same_hits_trans: "same_hits R a b \<Longrightarrow> same_hits R b c \<Longrightarrow> same_hits R a c"
  by (simp add: same_hits_def)

lemma same_hits_IsHit: "same_hits R rings (fst (IsHit R ds pk node rings))"
  by (simp add: same_hits_def IsHit_stable)

abbreviation hits :: "'r sched_env \<Rightarrow> 'r rings \<Rightarrow> int \<Rightarrow> AlertRule \<Rightarrow> bool" where
  "hits S rings ds rule \<equiv> snd (IsHit (se_ringops S) ds (Itoa (ar_Id rule)) (se_endpoint S) rings)"

abbreviation worker_hash :: "'r sched_env \<Rightarrow> AlertRule \<Rightarrow> int \<Rightarrow> string" where
  "worker_hash S rule ds \<equiv> wk_Hash (env_lib (se_env S)) (new_worker S rule ds)"

definition assigned :: "'r sched_env \<Rightarrow> 'r rings \<Rightarrow> AlertRule \<Rightarrow> int \<Rightarrow> bool" where
  "assigned S rings rule ds \<longleftrightarrow>
     (if IsPrometheusRule rule \<or> IsLokiRule rule
      then ds \<in> set (Hit (se_hits S) (se_clients S) (ar_DatasourceIdsJson rule)) \<and> hits S rings ds rule \<and>
           datasource_enabled (se_env S) ds
      else IsHostRule rule \<and> se_isCenter S \<and> ds = 0 \<and> hits S rings HostDatasource rule)"

text \<open>What the maps of workers gain: every new entry is the worker of a rule and data source in \<open>D\<close>, and
  each of these has an entry.\<close>

definition gains :: "'r sched_env \<Rightarrow> (AlertRule \<times> int) set \<Rightarrow> (string, worker) go_map \<Rightarrow> (string, worker) go_map \<Rightarrow> bool" where
  "gains S D m m' \<longleftrightarrow> dom (go_get m) \<subseteq> dom (go_get m') \<and> (\<forall>(rule, ds) \<in> D. worker_hash S rule ds \<in> dom (go_get m')) \<and>
     (\<forall>h w. go_get m' h = Some w \<longrightarrow> go_get m h = Some w \<or>
        (\<exists>(rule, ds) \<in> D. w = new_worker S rule ds \<and> h = worker_hash S rule ds))"

lemma gains_refl [simp]: "gains S {} m m"
  by (simp add: gains_def)

lemma gains_trans:
  assumes a: "gains S D m m'" and b: "gains S D' m' m''"
  shows "gains S (D \<union> D') m m''"
  unfolding gains_def
proof (intro conjI allI impI)
  show "dom (go_get m) \<subseteq> dom (go_get m'')" using a b by (auto simp: gains_def)
  show "\<forall>(rule, ds) \<in> D \<union> D'. worker_hash S rule ds \<in> dom (go_get m'')"
  proof (rule ballI)
    fix x assume "x \<in> D \<union> D'"
    moreover have "case x of (rule, ds) \<Rightarrow> worker_hash S rule ds \<in> dom (go_get m')" if "x \<in> D"
      using that a by (auto simp: gains_def)
    moreover have "case x of (rule, ds) \<Rightarrow> worker_hash S rule ds \<in> dom (go_get m'')" if "x \<in> D'"
      using that b by (auto simp: gains_def)
    moreover have "dom (go_get m') \<subseteq> dom (go_get m'')" using b by (simp add: gains_def)
    ultimately show "case x of (rule, ds) \<Rightarrow> worker_hash S rule ds \<in> dom (go_get m'')" by (cases x) blast
  qed
  show "go_get m h = Some w \<or> (\<exists>(rule, ds) \<in> D \<union> D'. w = new_worker S rule ds \<and> h = worker_hash S rule ds)"
    if "go_get m'' h = Some w" for h w
  proof -
    have "go_get m' h = Some w \<or> (\<exists>(rule, ds) \<in> D'. w = new_worker S rule ds \<and> h = worker_hash S rule ds)"
      using that b by (simp add: gains_def)
    moreover have "go_get m h = Some w \<or> (\<exists>(rule, ds) \<in> D. w = new_worker S rule ds \<and> h = worker_hash S rule ds)"
      if "go_get m' h = Some w" using that a by (simp add: gains_def)
    ultimately show ?thesis by (auto simp: split_beta)
  qed
qed

lemma gains_add_worker: "gains S {(rule, ds)} m (add_worker S rule ds m)"
  by (auto simp: gains_def add_worker_def Let_def)

lemma prom_rule_workers_gain:
  assumes "prom_rule_workers S rule ids (rings, m) = (rings', m')"
  shows "same_hits (se_ringops S) rings rings' \<and>
    gains S ({rule} \<times> {ds \<in> set ids. hits S rings ds rule \<and> datasource_enabled (se_env S) ds}) m m'"
  using assms
proof (induction ids arbitrary: rings m)
  case (Cons d ids)
  obtain rings1 hit where i: "IsHit (se_ringops S) d (Itoa (ar_Id rule)) (se_endpoint S) rings = (rings1, hit)" by fastforce
  have hit: "hit = hits S rings d rule" using i by simp
  have same: "same_hits (se_ringops S) rings rings1"
    using same_hits_IsHit [of "se_ringops S" rings d "Itoa (ar_Id rule)" "se_endpoint S"] i by simp
  let ?m1 = "if hit \<and> datasource_enabled (se_env S) d then add_worker S rule d m else m"
  let ?D = "\<lambda>rings ids. {ds \<in> set ids. hits S rings ds rule \<and> datasource_enabled (se_env S) ds}"
  have "prom_rule_workers S rule ids (rings1, ?m1) = (rings', m')"
    using Cons.prems i by (auto split: if_splits)
  from Cons.IH [OF this] have ih: "same_hits (se_ringops S) rings1 rings'" "gains S ({rule} \<times> ?D rings1 ids) ?m1 m'" by auto
  have D: "?D rings1 ids = ?D rings ids" using same by (simp add: same_hits_def)
  have "?D rings [d] = (if hit \<and> datasource_enabled (se_env S) d then {d} else {})" using hit by auto
  then have one: "gains S ({rule} \<times> ?D rings [d]) m ?m1" using gains_add_worker [of S rule d m] by simp
  have "{rule} \<times> ?D rings (d # ids) = {rule} \<times> ?D rings [d] \<union> {rule} \<times> ?D rings ids" by auto
  then show ?case using same_hits_trans [OF same ih(1)] gains_trans [OF one ih(2) [unfolded D]] by simp
qed simp

lemma collect_rule_gain:
  assumes "collect_rule S i (rings, m, ex) = (rings', m', ex')"
  shows "same_hits (se_ringops S) rings rings' \<and>
    gains S {(rule, ds). cache_Get (se_rules S) i = Some rule \<and> assigned S rings rule ds} m m'"
proof (cases "cache_Get (se_rules S) i")
  case None
  then show ?thesis using assms by (simp add: collect_rule_def)
next
  case (Some rule)
  have P: "{(r, ds). cache_Get (se_rules S) i = Some r \<and> assigned S rings r ds} = {rule} \<times> {ds. assigned S rings rule ds}"
    using Some by auto
  consider "IsPrometheusRule rule \<or> IsLokiRule rule"
    | "\<not> (IsPrometheusRule rule \<or> IsLokiRule rule)" "IsHostRule rule \<and> se_isCenter S"
    | "\<not> (IsPrometheusRule rule \<or> IsLokiRule rule)" "\<not> (IsHostRule rule \<and> se_isCenter S)" by blast
  then show ?thesis
  proof cases
    case 1
    then have p: "prom_rule_workers S rule (Hit (se_hits S) (se_clients S) (ar_DatasourceIdsJson rule)) (rings, m) = (rings', m')"
      using assms Some by (auto simp: collect_rule_def split: prod.splits)
    have D: "{ds. assigned S rings rule ds} =
        {ds \<in> set (Hit (se_hits S) (se_clients S) (ar_DatasourceIdsJson rule)). hits S rings ds rule \<and> datasource_enabled (se_env S) ds}"
      using 1 by (auto simp: assigned_def)
    show ?thesis unfolding P D by (rule prom_rule_workers_gain [OF p])
  next
    case 2
    obtain rings1 hit where h: "IsHit (se_ringops S) HostDatasource (Itoa (ar_Id rule)) (se_endpoint S) rings = (rings1, hit)"
      by fastforce
    have "rings' = rings1" "m' = (if hit then add_worker S rule 0 m else m)"
      using assms Some 2 h by (auto simp: collect_rule_def split: if_splits)
    moreover have "hit = hits S rings HostDatasource rule" using h by simp
    moreover have "same_hits (se_ringops S) rings rings1"
      using same_hits_IsHit [of "se_ringops S" rings HostDatasource "Itoa (ar_Id rule)" "se_endpoint S"] h by simp
    moreover have D: "{ds. assigned S rings rule ds} = (if hits S rings HostDatasource rule then {0} else {})"
      using 2 by (auto simp: assigned_def)
    ultimately show ?thesis unfolding P D using gains_add_worker [of S rule 0 m] by simp
  next
    case 3
    then have D: "{ds. assigned S rings rule ds} = {}" by (auto simp: assigned_def)
    have "rings' = rings" "m' = m" using assms Some 3 by (auto simp: collect_rule_def)
    then show ?thesis unfolding P D by simp
  qed
qed

lemma collect_fold:
  assumes "fold (collect_rule S) is (rings, m, ex) = (rings', m', ex')"
  shows "same_hits (se_ringops S) rings rings' \<and>
    gains S {(rule, ds). \<exists>i \<in> set is. cache_Get (se_rules S) i = Some rule \<and> assigned S rings rule ds} m m'"
  using assms
proof (induction "is" arbitrary: rings m ex)
  case (Cons j "is")
  let ?D = "\<lambda>rings is. {(rule, ds). \<exists>i \<in> set is. cache_Get (se_rules S) i = Some rule \<and> assigned S rings rule ds}"
  obtain rings1 m1 ex1 where 1: "collect_rule S j (rings, m, ex) = (rings1, m1, ex1)"
    by (cases "collect_rule S j (rings, m, ex)") auto
  have 2: "fold (collect_rule S) is (rings1, m1, ex1) = (rings', m', ex')" using Cons.prems by (simp add: 1)
  have g: "same_hits (se_ringops S) rings rings1" "gains S (?D rings [j]) m m1" using collect_rule_gain [OF 1] by simp_all
  have as: "assigned S rings1 = assigned S rings"
    using g(1) by (auto simp: assigned_def same_hits_def fun_eq_iff)
  have ih: "same_hits (se_ringops S) rings1 rings'" "gains S (?D rings is) m1 m'"
    using Cons.IH [OF 2] unfolding as by blast+
  have "?D rings (j # is) = ?D rings [j] \<union> ?D rings is" by auto
  then show ?case using same_hits_trans [OF g(1) ih(1)] gains_trans [OF g(2) ih(2)] by simp
qed simp

lemma GetRuleIds_set: "fair_order ord \<Longrightarrow> set (GetRuleIds ord c) = dom (cache_Get c)"
  using gm.keys_dom [of "ch_data c"] by (simp add: GetRuleIds_def cache_Get_def [abs_def])

text \<open>The wanted workers: one for every rule of the cache and every data source it is assigned on.\<close>

lemma alert_wanted_gains:
  assumes "fair_order (se_ids S)"
  shows "gains S {(rule, ds). (\<exists>i. cache_Get (se_rules S) i = Some rule) \<and> assigned S (sc_rings s) rule ds} []
    (fst (snd (collect_rules S (sc_rings s))))"
proof -
  obtain rings ws ex where c: "collect_rules S (sc_rings s) = (rings, ws, ex)" by (cases "collect_rules S (sc_rings s)") auto
  have D: "{(rule, ds). \<exists>i \<in> set (GetRuleIds (se_ids S) (se_rules S)). cache_Get (se_rules S) i = Some rule \<and>
      assigned S (sc_rings s) rule ds} = {(rule, ds). (\<exists>i. cache_Get (se_rules S) i = Some rule) \<and> assigned S (sc_rings s) rule ds}"
    using GetRuleIds_set [OF assms, of "se_rules S"] by auto
  show ?thesis using collect_fold [OF c [unfolded collect_rules_def]] unfolding D c by simp
qed

subsection \<open>Hashes of workers\<close>

lemma append_last_sep_inj:
  assumes "c \<notin> set a" "c \<notin> set b" "x @ c # a = y @ c # b"
  shows "x = y \<and> a = b"
proof -
  have "rev a @ c # rev x = rev b @ c # rev y" using arg_cong [OF assms(3), of rev] by simp
  then show ?thesis using append_sep_inj [of c "rev a" "rev b" "rev x" "rev y"] assms(1,2) by simp
qed

lemma hash_text_inj:
  assumes "Itoa i @ ''_'' @ Itoa n @ ''_'' @ c @ ''_'' @ Itoa d = Itoa i' @ ''_'' @ Itoa n' @ ''_'' @ c' @ ''_'' @ Itoa d'"
  shows "i = i' \<and> n = n' \<and> c = c' \<and> d = d'"
proof -
  let ?u = "CHR ''_''"
  have "Itoa i = Itoa i' \<and> Itoa n @ ?u # c @ ?u # Itoa d = Itoa n' @ ?u # c' @ ?u # Itoa d'"
    by (rule append_sep_inj [of ?u]) (use assms in \<open>simp_all add: Itoa_no_underscore\<close>)
  moreover from this have "Itoa n = Itoa n' \<and> c @ ?u # Itoa d = c' @ ?u # Itoa d'"
    by (intro append_sep_inj [of ?u]) (simp_all add: Itoa_no_underscore)
  moreover from this have "c = c' \<and> Itoa d = Itoa d'"
    by (intro append_last_sep_inj [of ?u]) (simp_all add: Itoa_no_underscore)
  ultimately show ?thesis by (simp add: Itoa_inj)
qed

definition hash_text :: "AlertRule \<Rightarrow> int \<Rightarrow> string" where
  "hash_text r d = Itoa (ar_Id r) @ ''_'' @ Itoa (ar_PromEvalInterval r) @ ''_'' @ ar_RuleConfig r @ ''_'' @ Itoa d"

lemma worker_hash_text: "worker_hash S r d = lib_md5 (env_lib (se_env S)) (hash_text r d)"
  by (simp add: wk_Hash_def new_worker_def NewAlertRuleWorker_def hash_text_def)

lemma hash_text_eq: "hash_text r d = hash_text r' d' \<Longrightarrow> ar_Id r = ar_Id r' \<and> d = d'"
  unfolding hash_text_def using hash_text_inj by blast

text \<open>The digest does not collide with that of the given rule on the workers the instance may run.\<close>

definition no_collision :: "'r sched_env \<Rightarrow> 'r rings \<Rightarrow> AlertRule \<Rightarrow> int \<Rightarrow> bool" where
  "no_collision S rings rule ds \<longleftrightarrow> (\<forall>i r d. cache_Get (se_rules S) i = Some r \<longrightarrow> assigned S rings r d \<longrightarrow>
     worker_hash S r d = worker_hash S rule ds \<longrightarrow> hash_text r d = hash_text rule ds)"

subsection \<open>External processors\<close>

lemma set_external_get:
  "go_get (set_external S wanted k m) h = (if h \<noteq> k then go_get m h else
     case go_get wanted h of None \<Rightarrow> go_get m h
     | Some p \<Rightarrow> (case go_get m h of
          Some c \<Rightarrow> if Processor_Hash (env_lib (se_env S)) p = Processor_Hash (env_lib (se_env S)) c then Some c
                    else Some (recover_external S p)
        | None \<Rightarrow> Some (recover_external S p)))"
  by (auto simp: set_external_def split: option.split)

lemma set_external_fold:
  "distinct ks \<Longrightarrow> go_get (fold (set_external S wanted) ks m) h =
     (if h \<in> set ks then go_get (set_external S wanted h m) h else go_get m h)"
proof (induction ks arbitrary: m)
  case (Cons k ks)
  let ?m1 = "set_external S wanted k m"
  have o: "go_get ?m1 h = go_get m h" if "h \<noteq> k" using that by (simp add: set_external_get)
  have s: "go_get (set_external S wanted h ?m1) h = go_get (set_external S wanted h m) h" if "h \<noteq> k"
    unfolding set_external_get [of S wanted h] o [OF that] ..
  show ?case using Cons.IH [of ?m1] Cons.prems s o by auto
qed simp

lemma drop_external_fold:
  "go_get (fold (drop_external wanted) ks m) h = (if h \<in> set ks \<and> go_get wanted h = None then None else go_get m h)"
  by (induction ks arbitrary: m) (auto simp: drop_external_def)

lemma sync_externals_get:
  assumes "fair_order (se_hashes S)" "go_wf wanted"
  shows "go_get (sync_externals S wanted m) h = (case go_get wanted h of None \<Rightarrow> None
     | Some p \<Rightarrow> (case go_get m h of
          Some c \<Rightarrow> if Processor_Hash (env_lib (se_env S)) p = Processor_Hash (env_lib (se_env S)) c then Some c
                    else Some (recover_external S p)
        | None \<Rightarrow> Some (recover_external S p)))"
proof -
  let ?m1 = "fold (set_external S wanted) (se_hashes S (go_keys wanted)) m"
  have k: "set (se_hashes S (go_keys m)) = dom (go_get m)" for m :: "(string, pstate) go_map"
    using assms(1) gm.keys_dom [of m] by simp
  have d: "distinct (se_hashes S (go_keys wanted))" using assms gm.wf_keys by simp
  have m1: "go_get ?m1 h = (if h \<in> dom (go_get wanted) then go_get (set_external S wanted h m) h else go_get m h)"
    unfolding set_external_fold [OF d] k ..
  have "go_get (sync_externals S wanted m) h = (if h \<in> dom (go_get ?m1) \<and> go_get wanted h = None then None else go_get ?m1 h)"
    unfolding sync_externals_def Let_def drop_external_fold k ..
  then have "go_get (sync_externals S wanted m) h = (if go_get wanted h = None then None else go_get ?m1 h)"
    by (auto simp: dom_def)
  then show ?thesis unfolding m1 by (auto simp: set_external_get split: option.splits)
qed

text \<open>An instance of the installation, seen from a Prometheus rule on a data source: it knows the rule
  under its identifier, has a client for the data source, and reads the rings of its naming state.\<close>

definition instance_ready ::
    "'r ring_ops \<Rightarrow> AlertRule \<Rightarrow> int \<Rightarrow> string \<Rightarrow> 'r sched_env \<Rightarrow> 'r scheduler \<Rightarrow> 'r naming \<Rightarrow> bool" where
  "instance_ready R rule ds k S s n \<longleftrightarrow> se_ringops S = R \<and> se_endpoint S = k \<and> sc_rings s = nm_Rings n \<and>
     fair_order (se_hashes S) \<and> fair_order (se_ids S) \<and> go_wf (ws_rules (sc_alertRules s)) \<and>
     (\<forall>i r. cache_Get (se_rules S) i = Some r \<longrightarrow> ar_Id r = i) \<and> cache_Get (se_rules S) (ar_Id rule) = Some rule \<and>
     IsPrometheusRule rule \<and> ds \<in> set (Hit (se_hits S) (se_clients S) (ar_DatasourceIdsJson rule)) \<and>
     datasource_enabled (se_env S) ds \<and> no_collision S (sc_rings s) rule ds"

lemma instance_runs_iff:
  assumes "instance_ready R rule ds k S s n"
  shows "worker_hash S rule ds \<in> running (sc_alertRules (Scheduler_syncAlertRules S s)) \<longleftrightarrow>
    snd (IsHit R ds (Itoa (ar_Id rule)) k (nm_Rings n))"
proof -
  note a = assms [unfolded instance_ready_def]
  have g: "gains S {(rule, ds). (\<exists>i. cache_Get (se_rules S) i = Some rule) \<and> assigned S (sc_rings s) rule ds} []
      (fst (snd (collect_rules S (sc_rings s))))" using a alert_wanted_gains by blast
  have run: "running (sc_alertRules (Scheduler_syncAlertRules S s)) = dom (alert_wanted S s)"
    using a alert.sync_running by blast
  have iff: "assigned S (sc_rings s) rule ds \<longleftrightarrow> snd (IsHit R ds (Itoa (ar_Id rule)) k (nm_Rings n))"
    using a by (auto simp: assigned_def)
  have "assigned S (sc_rings s) rule ds" if h: "worker_hash S rule ds \<in> dom (alert_wanted S s)"
  proof -
    obtain w where "alert_wanted S s (worker_hash S rule ds) = Some w" using h by blast
    then have "\<exists>(r, d) \<in> {(rule, ds). (\<exists>i. cache_Get (se_rules S) i = Some rule) \<and> assigned S (sc_rings s) rule ds}.
        w = new_worker S r d \<and> worker_hash S rule ds = worker_hash S r d"
      using g unfolding gains_def alert_wanted_def by fastforce
    then obtain r d i where r: "cache_Get (se_rules S) i = Some r" "assigned S (sc_rings s) r d"
      "worker_hash S rule ds = worker_hash S r d" by blast
    then have "hash_text r d = hash_text rule ds" using a unfolding no_collision_def by metis
    then have "ar_Id r = ar_Id rule" "d = ds" using hash_text_eq by blast+
    moreover have "ar_Id r = i" using a r(1) by blast
    ultimately have "r = rule" using a r(1) by (metis option.inject)
    then show ?thesis using r(2) \<open>d = ds\<close> by simp
  qed
  moreover have "worker_hash S rule ds \<in> dom (alert_wanted S s)" if "assigned S (sc_rings s) rule ds"
    using g that a unfolding gains_def alert_wanted_def by blast
  ultimately show ?thesis using run iff by blast
qed

subsection \<open>A sample\<close>

definition sched_rule :: AlertRule where
  "sched_rule = sample_rule\<lparr>ar_Prod := METRIC, ar_Cate := PROMETHEUS, ar_DatasourceIdsJson := [1]\<rparr>"

definition sched_option :: PromOption where
  "sched_option = \<lparr>po_ClusterName = '''', po_Url = ''http://p'', po_WriteAddr = '''', po_BasicAuthUser = '''',
     po_BasicAuthPass = '''', po_Timeout = 0, po_DialTimeout = 0, po_MaxIdleConnsPerHost = 0, po_Headers = [],
     po_UseTLS = False, po_InsecureSkipVerify = False\<rparr>"

definition sample_sched :: "string \<Rightarrow> string list sched_env" where
  "sample_sched k = \<lparr>se_env = sample_env\<lparr>env_datasource := (\<lambda>i. if i = 1 then Some sample_datasource else None)\<rparr>,
     se_rules = \<lparr>ch_statTotal = 1, ch_statLastUpdated = 1, ch_data = [(7, sched_rule)]\<rparr>,
     se_clients = pc_Set 1 sched_option sched_option NewPromClient, se_ringops = list_ring, se_endpoint = k,
     se_isCenter = True, se_events = (\<lambda>i d. Some []), se_ids = rev, se_hits = rev, se_hashes = rev\<rparr>"

definition sample_scheduler :: "string \<Rightarrow> string list scheduler" where
  "sample_scheduler k = \<lparr>sc_rings = nm_Rings (sample_naming k), sc_alertRules = \<lparr>ws_rules = [], ws_log = []\<rparr>, sc_external = []\<rparr>"

lemma sample_sched_rule: "cache_Get (se_rules (sample_sched k)) i = (if i = 7 then Some sched_rule else None)"
  by (simp add: sample_sched_def cache_Get_def)

lemma sched_rule_simps [simp]:
  "ar_Id sched_rule = 7" "IsPrometheusRule sched_rule" "ar_DatasourceIdsJson sched_rule = [1]"
  by (simp_all add: sched_rule_def sample_rule_def IsPrometheusRule_def)

lemma sample_sched_hits: "set (Hit (se_hits (sample_sched k)) (se_clients (sample_sched k)) [1]) = {1}"
  by (subst Hit_set) (simp_all add: sample_sched_def fair_order_rev DatasourceIdAll_def pc_Set_def NewPromClient_def)

lemma sample_instance_ready:
  "instance_ready list_ring sched_rule 1 k (sample_sched k) (sample_scheduler k) (sample_naming k)"
proof -
  have "no_collision (sample_sched k) (sc_rings (sample_scheduler k)) sched_rule 1"
    unfolding no_collision_def worker_hash_text by (simp add: sample_sched_def sample_env_def sample_lib_def)
  moreover have "datasource_enabled (se_env (sample_sched k)) 1"
    by (simp add: datasource_enabled_def sample_sched_def sample_datasource_def)
  ultimately show ?thesis
    unfolding instance_ready_def sample_sched_rule
    by (auto simp: sample_sched_hits) (simp_all add: sample_sched_def sample_scheduler_def fair_order_rev)
qed

subsection \<open>Properties\<close>

text \<open>C27. After a pass of the alert scheduler the running workers are exactly those of the rules in the
  cache on the data sources this instance is assigned, a worker that was already running is kept
  with its state, and a new one starts from the rows of the database.\<close>

theorem scheduler_pass:
  assumes "fair_order (se_hashes S)" "fair_order (se_ids S)" "go_wf (ws_rules (sc_alertRules s))"
  shows "running (sc_alertRules (Scheduler_syncAlertRules S s)) =
      {worker_hash S rule ds | rule ds. (\<exists>i. cache_Get (se_rules S) i = Some rule) \<and> assigned S (sc_rings s) rule ds} \<and>
    (\<forall>h w. go_get (ws_rules (sc_alertRules (Scheduler_syncAlertRules S s))) h = Some w \<longrightarrow>
      go_get (ws_rules (sc_alertRules s)) h = Some w \<or>
      (go_get (ws_rules (sc_alertRules s)) h = None \<and>
        (\<exists>rule ds. assigned S (sc_rings s) rule ds \<and> w = prepare_worker S (new_worker S rule ds) \<and> h = worker_hash S rule ds)))"
proof -
  let ?D = "{(rule, ds). (\<exists>i. cache_Get (se_rules S) i = Some rule) \<and> assigned S (sc_rings s) rule ds}"
  let ?m = "fst (snd (collect_rules S (sc_rings s)))"
  have g: "gains S ?D [] ?m" using assms(2) by (rule alert_wanted_gains)
  have dom: "dom (alert_wanted S s) = {worker_hash S rule ds | rule ds. (rule, ds) \<in> ?D}"
    using g unfolding alert_wanted_def gains_def by fastforce
  have val: "\<exists>rule ds. (rule, ds) \<in> ?D \<and> w = new_worker S rule ds \<and> h = worker_hash S rule ds"
    if "alert_wanted S s h = Some w" for h w
    using g that by (auto simp: alert_wanted_def gains_def)
  have "running (sc_alertRules (Scheduler_syncAlertRules S s)) = dom (alert_wanted S s)"
    using alert.sync_running [OF assms(1,3)] .
  moreover have "go_get (ws_rules (sc_alertRules s)) h = Some w \<or>
      (go_get (ws_rules (sc_alertRules s)) h = None \<and>
        (\<exists>rule ds. assigned S (sc_rings s) rule ds \<and> w = prepare_worker S (new_worker S rule ds) \<and> h = worker_hash S rule ds))"
    if "go_get (ws_rules (sc_alertRules (Scheduler_syncAlertRules S s))) h = Some w" for h w
    using that alert.sync_get [OF assms(1,3), of h] val [of h]
    by (auto simp: keep_or_prepare_def split: option.splits)
  ultimately show ?thesis using dom by simp
qed

theorem scheduler_pass_witness:
  "running (sc_alertRules (Scheduler_syncAlertRules (sample_sched ''a:1'') (sample_scheduler ''a:1''))) =
     {worker_hash (sample_sched ''a:1'') rule ds | rule ds. (\<exists>i. cache_Get (se_rules (sample_sched ''a:1'')) i = Some rule) \<and>
       assigned (sample_sched ''a:1'') (sc_rings (sample_scheduler ''a:1'')) rule ds}"
  using scheduler_pass [of "sample_sched ''a:1''" "sample_scheduler ''a:1''"]
  by (simp add: sample_sched_def sample_scheduler_def fair_order_rev)

text \<open>However many passes are made, with whatever rules, rings and orders, no running worker is started
  a second time and no stopped worker is stopped again, and what runs is what the log says.\<close>

theorem scheduler_log_safe:
  assumes "\<forall>S \<in> set Ss. fair_order (se_hashes S)" "ws_rules (sc_alertRules s) = []" "ws_log (sc_alertRules s) = []"
  shows "replay {} (ws_log (sc_alertRules (fold Scheduler_syncAlertRules Ss s))) =
    Some (running (sc_alertRules (fold Scheduler_syncAlertRules Ss s)))"
  using alert.passes_logged [OF assms(1), of s] assms(2,3) by (auto simp: logged_def alert.passes_def)

theorem scheduler_log_safe_witness:
  "replay {} (ws_log (sc_alertRules (fold Scheduler_syncAlertRules [sample_sched ''a:1'', sample_sched ''a:1''] (sample_scheduler ''a:1'')))) =
    Some (running (sc_alertRules (fold Scheduler_syncAlertRules [sample_sched ''a:1'', sample_sched ''a:1''] (sample_scheduler ''a:1''))))"
  by (rule scheduler_log_safe) (simp_all add: sample_sched_def sample_scheduler_def fair_order_rev)

text \<open>C24. One worker per rule and data source, among the instances that are listed for the data source:
  when the last heartbeat of each of them read that list and each has the rule, the data source and
  its client, then after their next pass exactly one of them runs the worker of the rule on the data
  source. Nothing is said about an instance that is not on the list and still has an older ring.\<close>

theorem one_worker_per_rule:
  assumes "ring_laws R members" "servers \<noteq> []"
    "\<And>k. k \<in> set servers \<Longrightarrow> up_to_date R (F k) (C k) ds (l k) (n k)"
    "\<And>k. k \<in> set servers \<Longrightarrow> nc_Endpoint (C k) = k \<and> mset (l k) = mset servers"
    "\<And>k. k \<in> set servers \<Longrightarrow> instance_ready R rule ds k (S k) (s k) (n k)"
  shows "\<exists>!k. k \<in> set servers \<and>
    worker_hash (S k) rule ds \<in> running (sc_alertRules (Scheduler_syncAlertRules (S k) (s k)))"
proof -
  have "\<exists>!k. k \<in> set servers \<and> snd (IsHit R ds (Itoa (ar_Id rule)) (nc_Endpoint (C k)) (nm_Rings (n k)))"
    using assms(1-4) by (rule one_owner)
  moreover have "worker_hash (S k) rule ds \<in> running (sc_alertRules (Scheduler_syncAlertRules (S k) (s k))) \<longleftrightarrow>
      snd (IsHit R ds (Itoa (ar_Id rule)) (nc_Endpoint (C k)) (nm_Rings (n k)))" if "k \<in> set servers" for k
    using instance_runs_iff [OF assms(5) [OF that]] assms(4) [OF that] by simp
  ultimately show ?thesis by metis
qed

theorem one_worker_per_rule_witness:
  "\<exists>!k. k \<in> set [''a:1'', ''b:1''] \<and> worker_hash (sample_sched k) sched_rule 1 \<in>
     running (sc_alertRules (Scheduler_syncAlertRules (sample_sched k) (sample_scheduler k)))"
proof (rule one_worker_per_rule [where F = "\<lambda>k. no_engine_faults" and C = sample_cfg and l = "\<lambda>k. [''a:1'', ''b:1'']"
      and n = sample_naming])
  show "ring_laws list_ring set" by (rule list_ring_laws)
  show "k \<in> set [''a:1'', ''b:1''] \<Longrightarrow>
    up_to_date list_ring no_engine_faults (sample_cfg k) 1 [''a:1'', ''b:1''] (sample_naming k)" for k
    by (rule sample_up_to_date) simp
  show "instance_ready list_ring sched_rule 1 k (sample_sched k) (sample_scheduler k) (sample_naming k)" for k
    by (rule sample_instance_ready)
qed (simp_all add: sample_cfg_def)

text \<open>The scheduler of recording rules: after any number of passes from an empty table the log is
  consistent and what runs is what the last pass wanted.\<close>

theorem recording_passes:
  assumes "\<forall>S \<in> set (Ss @ [S]). fair_order (re_hashes S)" "ws_rules w = []" "ws_log w = []"
  shows "running (snd (fold syncRecordRules (Ss @ [S]) (rings, w))) = dom (record_wanted S (fold syncRecordRules Ss (rings, w))) \<and>
    replay {} (ws_log (snd (fold syncRecordRules (Ss @ [S]) (rings, w)))) =
      Some (running (snd (fold syncRecordRules (Ss @ [S]) (rings, w))))"
proof -
  have wf: "go_wf (ws_rules (snd (rings, w)))" using assms(2) by simp
  show ?thesis
    using recording.passes_running [OF assms(1) wf] recording.passes_logged [OF assms(1) wf] assms(2,3)
    by (auto simp: recording.passes_def logged_def simp del: fold_append)
qed

definition sample_record_env :: "string list record_env" where
  "sample_record_env = \<lparr>re_lib = sample_lib, re_rules = NewCache, re_clients = NewPromClient, re_ringops = list_ring,
     re_endpoint = ''a:1'', re_ids = rev, re_hits = rev, re_hashes = rev\<rparr>"

theorem recording_passes_witness:
  "running (snd (fold syncRecordRules ([] @ [sample_record_env]) ([], \<lparr>ws_rules = [], ws_log = []\<rparr>))) = {}"
  using recording_passes [of "[]" sample_record_env "\<lparr>ws_rules = [], ws_log = []\<rparr>" "[]"]
  by (simp add: sample_record_env_def fair_order_rev record_wanted_def GetRuleIds_def NewCache_def)

text \<open>The processors of external rules after a pass: one for every wanted key; it is the old one, with
  its state, when the hash of its rule is unchanged, and otherwise a new one that recovered the
  firing events from the database.\<close>

theorem external_processors:
  assumes "fair_order (se_hashes S)" "go_wf wanted"
  shows "go_get (sync_externals S wanted m) h = (case go_get wanted h of None \<Rightarrow> None
     | Some p \<Rightarrow> (case go_get m h of
          Some c \<Rightarrow> if Processor_Hash (env_lib (se_env S)) p = Processor_Hash (env_lib (se_env S)) c then Some c
                    else Some (recover_external S p)
        | None \<Rightarrow> Some (recover_external S p)))"
  using assms by (rule sync_externals_get)

theorem external_processors_witness:
  "go_get (sync_externals (sample_sched ''a:1'') [(''alert-1-7'', NewProcessor sample_env sched_rule 1)] []) ''alert-1-7'' =
     Some (recover_external (sample_sched ''a:1'') (NewProcessor sample_env sched_rule 1))"
  using external_processors [of "sample_sched ''a:1''" "[(''alert-1-7'', NewProcessor sample_env sched_rule 1)]" "[]" "''alert-1-7''"]
  by (simp add: sample_sched_def fair_order_rev go_wf_def)

end
