(* ===== verification/Time_Series.thy ===== *)
theory Time_Series
  imports Alert_Common
begin

text \<open>
  Time series as they are written to remote storage: the messages \<open>Label\<close>, \<open>Sample\<close> and
  \<open>TimeSeries\<close> of the remote-write protocol, and the two patterns for metric and label names of the
  Prometheus library, which are arguments of the model (\<open>prom_names\<close>). Time stamps are in
  milliseconds.
\<close>

record Label =
  lb_Name :: string
  lb_Value :: string

record Sample =
  sm_Timestamp :: int
  sm_Value :: float64

record TimeSeries =
  ts_Labels :: "Label list"
  ts_Samples :: "Sample list"

record prom_names =
  pn_MetricNameRE :: "string \<Rightarrow> bool"
  pn_LabelNameRE :: "string \<Rightarrow> bool"

abbreviation mk_label :: "string \<Rightarrow> string \<Rightarrow> Label" where
  "mk_label k v \<equiv> \<lparr>lb_Name = k, lb_Value = v\<rparr>"

abbreviation label_names :: "Label list \<Rightarrow> string list" where
  "label_names ls \<equiv> map lb_Name ls"

text \<open>The value of the first label of a name.\<close>

definition label_value :: "Label list \<Rightarrow> string \<Rightarrow> string option" where
  "label_value ls k = map_of (map (\<lambda>l. (lb_Name l, lb_Value l)) ls) k"

lemma label_value_simps [simp]:
  "label_value [] k = None"
  "label_value (l # ls) k = (if lb_Name l = k then Some (lb_Value l) else label_value ls k)"
  by (auto simp: label_value_def)

lemma label_value_append [simp]:
  "label_value (xs @ ys) k = (case label_value xs k of None \<Rightarrow> label_value ys k | Some v \<Rightarrow> Some v)"
  by (induction xs) auto

lemma label_value_None: "label_value ls k = None \<longleftrightarrow> k \<notin> set (label_names ls)"
  by (induction ls) auto

lemma label_value_distinct:
  "distinct (label_names ls) \<Longrightarrow> label_value ls k = Some v \<longleftrightarrow> mk_label k v \<in> set ls"
proof (induction ls)
  case (Cons l ls)
  have "mk_label k v \<in> set ls \<Longrightarrow> k \<in> lb_Name ` set ls" by force
  then show ?case using Cons by (cases l) auto
qed simp

text \<open>A whole second as milliseconds, the way the recording rules compute it: the seconds become
  nanoseconds, which wrap beyond the year 2262, and those are divided again.\<close>

definition unix_nano_ms :: "int \<Rightarrow> int" where
  "unix_nano_ms sec = go_div (wrap64 (sec * 1000000000)) 1000000"

lemma unix_nano_ms_exact:
  assumes "0 \<le> sec" "sec \<le> 9223372036"
  shows "unix_nano_ms sec = sec * 1000"
proof -
  have "wrap64 (sec * 1000000000) = sec * 1000000000"
    by (rule wrap64_id) (use assms in \<open>auto simp: int64_range_def\<close>)
  then show ?thesis using assms by (simp add: unix_nano_ms_def go_div_nonneg)
qed

end
