(* ===== verification/Recording.thy ===== *)
theory Recording
  imports Scheduler Time_Series
begin

text \<open>
  Recording rules: their validation and column codec (\<open>models/recording_rule.go\<close>), the conversion
  of a query result into time series (\<open>alert/record/sample.go\<close>) and one evaluation of a rule
  (\<open>alert/record/prom_rule.go\<close>), whose outcome is the request it sends to the writer client of its
  data source. The JSON codec of the two list columns is an argument. An extra tag without an equal
  sign makes the conversion panic; validated rules have none.
\<close>

subsection \<open>Rules\<close>

record record_codec =
  rc_marshal_ids :: "int list \<Rightarrow> string"
  rc_unmarshal_ids :: "string \<Rightarrow> int list \<Rightarrow> int list"
  rc_marshal_queries :: "QueryConfig list \<Rightarrow> string"
  rc_unmarshal_queries :: "string \<Rightarrow> QueryConfig list \<Rightarrow> QueryConfig list"

definition RecordingRule_FE2DB :: "record_codec \<Rightarrow> RecordingRule \<Rightarrow> RecordingRule" where
  "RecordingRule_FE2DB C re = re\<lparr>rr_AppendTags := Join (rr_AppendTagsJSON re) '' '',
     rr_DatasourceIds := rc_marshal_ids C (rr_DatasourceIdsJson re),
     rr_QueryConfigs := rc_marshal_queries C (rr_QueryConfigsJson re)\<rparr>"

definition RecordingRule_DB2FE :: "record_codec \<Rightarrow> RecordingRule \<Rightarrow> RecordingRule" where
  "RecordingRule_DB2FE C re = re\<lparr>rr_AppendTagsJSON := Fields (rr_AppendTags re),
     rr_DatasourceIdsJson := rc_unmarshal_ids C (rr_DatasourceIds re) (rr_DatasourceIdsJson re),
     rr_QueryConfigsJson := rc_unmarshal_queries C (rr_QueryConfigs re) (rr_QueryConfigsJson re)\<rparr>"

fun check_record_tags :: "prom_names \<Rightarrow> string list \<Rightarrow> string option" where
  "check_record_tags N [] = None"
| "check_record_tags N (t # ts) =
     (let pair = Split t ''='' in
      if length pair \<noteq> 2 \<or> \<not> pn_LabelNameRE N (pair ! 0) then Some (''AppendTags('' @ t @ '') invalid'')
      else check_record_tags N ts)"

definition RecordingRule_Verify :: "prom_names \<Rightarrow> RecordingRule \<Rightarrow> string + RecordingRule" where
  "RecordingRule_Verify N re0 =
     (if rr_GroupId re0 < 0 then Inl (''GroupId('' @ Itoa (rr_GroupId re0) @ '') invalid'') else
      let re1 = (if IsAllDatasource (rr_DatasourceIdsJson re0) then re0\<lparr>rr_DatasourceIdsJson := [0]\<rparr> else re0) in
      if rr_PromQl re1 \<noteq> '''' \<and> \<not> pn_MetricNameRE N (rr_Name re1) then Inl ''Name has invalid chreacters'' else
      if list_ex (\<lambda>q. \<not> pn_MetricNameRE N (qc_NewMetric q)) (rr_QueryConfigsJson re1)
      then Inl ''Metric Name has invalid chreacters'' else
      if rr_Name re1 = '''' \<and> rr_PromQl re1 \<noteq> '''' then Inl ''name is blank'' else
      let re2 = (if rr_PromEvalInterval re1 \<le> 0 then re1\<lparr>rr_PromEvalInterval := 60\<rparr> else re1);
          re3 = re2\<lparr>rr_AppendTags := TrimSpace (rr_AppendTags re2)\<rparr>
      in case check_record_tags N (Fields (rr_AppendTags re3)) of Some e \<Rightarrow> Inl e | None \<Rightarrow> Inr re3)"

definition tag_valid :: "prom_names \<Rightarrow> string \<Rightarrow> bool" where
  "tag_valid N t \<longleftrightarrow> (\<exists>k v. t = k @ ''='' @ v \<and> CHR ''='' \<notin> set k \<and> CHR ''='' \<notin> set v \<and> pn_LabelNameRE N k)"

lemma Split_two: "length (Split t [c]) = 2 \<Longrightarrow> \<exists>k v. t = k @ c # v \<and> c \<notin> set k \<and> c \<notin> set v \<and> Split t [c] = [k, v]"
proof -
  assume l: "length (Split t [c]) = 2"
  then have "c \<in> set t" using Split_two_Contains Contains_char by blast
  then obtain k v where t: "t = k @ c # v" "c \<notin> set k" by (meson split_list_first)
  have "Split t [c] = k # Split v [c]"
    using split_acc_free [OF t(2), of "[]" "[]" "c # v"] t(1) by (simp add: Split_def)
  moreover have "c \<notin> set v"
    using l calculation by (auto simp: Split_char_length filter_empty_conv)
  moreover have "Split v [c] = [v]"
    using split_acc_free [of c v "[]" "[]" "[]"] calculation(2) by (simp add: Split_def)
  ultimately show ?thesis using t by auto
qed

lemma check_record_tags_None: "check_record_tags N ts = None \<Longrightarrow> \<forall>t \<in> set ts. tag_valid N t"
proof (induction N ts rule: check_record_tags.induct)
  case (2 N t ts)
  then have h: "length (Split t ''='') = 2" "pn_LabelNameRE N (Split t ''='' ! 0)"
    "check_record_tags N ts = None" by (auto simp: Let_def split: if_splits)
  obtain k v where t: "t = k @ CHR ''='' # v" "CHR ''='' \<notin> set k" "CHR ''='' \<notin> set v" "Split t ''='' = [k, v]"
    using Split_two [OF h(1)] by blast
  then have "tag_valid N t" unfolding tag_valid_def using h(2) by (intro exI [of _ k] exI [of _ v]) simp
  then show ?case using 2 h by simp
qed simp

lemma RecordingRule_Verify_tags:
  "RecordingRule_Verify N re = Inr re' \<Longrightarrow> \<forall>t \<in> set (Fields (rr_AppendTags re')). tag_valid N t"
  using check_record_tags_None by (auto simp: RecordingRule_Verify_def Let_def split: if_splits option.splits)

subsection \<open>From a query result to time series\<close>

fun tag_labels :: "prom_names \<Rightarrow> string list \<Rightarrow> Label list res" where
  "tag_labels N [] = Inr []"
| "tag_labels N (v # vs) =
     (case Index v ''='' of None \<Rightarrow> Inl Slice_out_of_range
      | Some index \<Rightarrow> res_bind (tag_labels N vs) (\<lambda>ls.
          Inr (if pn_LabelNameRE N (take index v) then mk_label (take index v) (drop (index + 1) v) # ls else ls)))"

definition LabelName :: string where
  "LabelName = ''__name__''"

definition metric_labels :: "prom_names \<Rightarrow> (string \<times> string) list \<Rightarrow> Label list" where
  "metric_labels N kvs = map (\<lambda>(k, v). mk_label k v) (filter (\<lambda>(k, v). k \<noteq> LabelName \<and> pn_LabelNameRE N k) kvs)"

definition labelsToLabelsProto ::
    "prom_names \<Rightarrow> (string \<times> string) range_order \<Rightarrow> metric \<Rightarrow> RecordingRule \<Rightarrow> Label list res" where
  "labelsToLabelsProto N ord labels rule =
     res_bind (if length (rr_AppendTagsJSON rule) \<noteq> 0 then tag_labels N (rr_AppendTagsJSON rule) else Inr []) (\<lambda>tags.
     Inr (mk_label LabelName (rr_Name rule) # metric_labels N (ord labels) @ tags))"

definition record_sample :: "int \<times> float64 \<Rightarrow> Sample" where
  "record_sample = (\<lambda>(t, v). \<lparr>sm_Timestamp = unix_nano_ms (unix_of_ms t), sm_Value = v\<rparr>)"

fun record_vector :: "prom_names \<Rightarrow> (string \<times> string) range_order \<Rightarrow> RecordingRule
    \<Rightarrow> (metric \<times> int \<times> float64) list \<Rightarrow> TimeSeries list res" where
  "record_vector N ord rule [] = Inr []"
| "record_vector N ord rule ((m, t, v) # xs) =
     (if IsNaN v then record_vector N ord rule xs
      else res_bind (labelsToLabelsProto N ord m rule) (\<lambda>l.
           res_bind (record_vector N ord rule xs) (\<lambda>lst.
           Inr (\<lparr>ts_Labels = l, ts_Samples = [record_sample (t, v)]\<rparr> # lst))))"

text \<open>A series without samples ends the conversion.\<close>

fun record_matrix :: "prom_names \<Rightarrow> (string \<times> string) range_order \<Rightarrow> RecordingRule
    \<Rightarrow> (metric \<times> (int \<times> float64) list) list \<Rightarrow> TimeSeries list res" where
  "record_matrix N ord rule [] = Inr []"
| "record_matrix N ord rule ((m, vs) # xs) =
     (if length vs = 0 then Inr []
      else if IsNaN (snd (last vs)) then record_matrix N ord rule xs
      else res_bind (labelsToLabelsProto N ord m rule) (\<lambda>l.
           res_bind (record_matrix N ord rule xs) (\<lambda>lst.
           Inr (\<lparr>ts_Labels = l, ts_Samples = map record_sample (filter (\<lambda>(t, v). \<not> IsNaN v) vs)\<rparr> # lst))))"

fun ConvertToTimeSeries :: "prom_names \<Rightarrow> (string \<times> string) range_order \<Rightarrow> prom_value option
    \<Rightarrow> RecordingRule \<Rightarrow> TimeSeries list res" where
  "ConvertToTimeSeries N ord None rule = Inl Nil_dereference"
| "ConvertToTimeSeries N ord (Some (Vector items)) rule = record_vector N ord rule items"
| "ConvertToTimeSeries N ord (Some (Matrix items)) rule = record_matrix N ord rule items"
| "ConvertToTimeSeries N ord (Some (Scalar t v)) rule =
     (if IsNaN v then Inr [] else Inr [\<lparr>ts_Labels = [], ts_Samples = [record_sample (t, v)]\<rparr>])"
| "ConvertToTimeSeries N ord (Some (Prom_String s)) rule = Inr []"

subsection \<open>One evaluation\<close>

text \<open>The outcome is the remote-write request: the writer client and the series. \<open>write_request\<close>
  is what the writer marshals and posts; an empty list posts nothing.\<close>

definition write_request :: "PromOption \<Rightarrow> TimeSeries list \<Rightarrow> (PromOption \<times> TimeSeries list) option" where
  "write_request w items = (if length items = 0 then None else Some (w, items))"

definition RecordRuleContext_Eval :: "prom_names \<Rightarrow> (string \<times> string) range_order \<Rightarrow> eval_lib \<Rightarrow> prom_clients \<Rightarrow> int
    \<Rightarrow> record_worker \<Rightarrow> (PromOption \<times> TimeSeries list) option res" where
  "RecordRuleContext_Eval N ord X pc now rrc =
     (let promql = TrimSpace (rr_PromQl (rw_rule rrc)) in
      if promql = '''' then Inr None
      else if IsNil pc (rw_datasourceId rrc) then Inr None
      else (case el_query X (rw_datasourceId rrc) promql now of
          Inl err \<Rightarrow> Inr None
        | Inr (value, warnings) \<Rightarrow>
            if length warnings > 0 then Inr None
            else res_bind (ConvertToTimeSeries N ord value (rw_rule rrc)) (\<lambda>ts.
              if length ts \<noteq> 0
              then (case GetWriterCli pc (rw_datasourceId rrc) of None \<Rightarrow> Inl Nil_dereference
                    | Some w \<Rightarrow> Inr (write_request w ts))
              else Inr None)))"

definition record_interval :: "RecordingRule \<Rightarrow> int" where
  "record_interval rule = (if rr_PromEvalInterval rule \<le> 0 then 10 else rr_PromEvalInterval rule)"

subsection \<open>What is recorded\<close>

text \<open>The points of a result that are worth recording, and the series they become.\<close>

fun recorded_points :: "prom_value \<Rightarrow> (metric option \<times> (int \<times> float64) list) list" where
  "recorded_points (Vector items) =
     map (\<lambda>(m, t, v). (Some m, [(t, v)])) (filter (\<lambda>(m, t, v). \<not> IsNaN v) items)"
| "recorded_points (Matrix items) =
     map (\<lambda>(m, vs). (Some m, filter (\<lambda>(t, v). \<not> IsNaN v) vs))
       (filter (\<lambda>(m, vs). \<not> IsNaN (snd (last vs))) (takeWhile (\<lambda>(m, vs). vs \<noteq> []) items))"
| "recorded_points (Scalar t v) = (if IsNaN v then [] else [(None, [(t, v)])])"
| "recorded_points (Prom_String s) = []"

definition split_tag :: "string \<Rightarrow> Label" where
  "split_tag t = mk_label (takeWhile ((\<noteq>) CHR ''='') t) (tl (dropWhile ((\<noteq>) CHR ''='') t))"

fun recorded_labels :: "prom_names \<Rightarrow> (string \<times> string) range_order \<Rightarrow> RecordingRule \<Rightarrow> metric option \<Rightarrow> Label list" where
  "recorded_labels N ord rule None = []"
| "recorded_labels N ord rule (Some m) =
     mk_label LabelName (rr_Name rule) # metric_labels N (ord m) @ map split_tag (rr_AppendTagsJSON rule)"

definition recorded_series :: "prom_names \<Rightarrow> (string \<times> string) range_order \<Rightarrow> RecordingRule
    \<Rightarrow> metric option \<times> (int \<times> float64) list \<Rightarrow> TimeSeries" where
  "recorded_series N ord rule = (\<lambda>(m, vs). \<lparr>ts_Labels = recorded_labels N ord rule m, ts_Samples = map record_sample vs\<rparr>)"

lemma takeWhile_sep: "c \<notin> set k \<Longrightarrow> takeWhile ((\<noteq>) c) (k @ c # v) = k \<and> dropWhile ((\<noteq>) c) (k @ c # v) = c # v"
  by (induction k) auto

lemma tag_labels_valid: "\<forall>t \<in> set ts. tag_valid N t \<Longrightarrow> tag_labels N ts = Inr (map split_tag ts)"
proof (induction ts)
  case (Cons t ts)
  then obtain k v where t: "t = k @ CHR ''='' # v" "CHR ''='' \<notin> set k" "pn_LabelNameRE N k"
    by (auto simp: tag_valid_def)
  have i: "Index t ''='' = Some (length k)"
    using Index_acc_first_char [OF t(2), of 0 v] t(1) by (simp add: Index_def)
  have "split_tag t = mk_label k v" using takeWhile_sep [OF t(2), of v] t(1) by (simp add: split_tag_def)
  then show ?case using Cons i t by simp
qed simp

lemma labelsToLabelsProto_valid:
  "\<forall>t \<in> set (rr_AppendTagsJSON rule). tag_valid N t \<Longrightarrow>
   labelsToLabelsProto N ord m rule = Inr (recorded_labels N ord rule (Some m))"
  by (simp add: labelsToLabelsProto_def tag_labels_valid)

lemma record_vector_valid:
  assumes "\<forall>t \<in> set (rr_AppendTagsJSON rule). tag_valid N t"
  shows "record_vector N ord rule xs = Inr (map (recorded_series N ord rule) (recorded_points (Vector xs)))"
  using assms
  by (induction xs) (auto simp: labelsToLabelsProto_valid recorded_series_def)

lemma record_matrix_valid:
  assumes "\<forall>t \<in> set (rr_AppendTagsJSON rule). tag_valid N t"
  shows "record_matrix N ord rule xs = Inr (map (recorded_series N ord rule) (recorded_points (Matrix xs)))"
  using assms
  by (induction xs) (auto simp: labelsToLabelsProto_valid recorded_series_def)

lemma ConvertToTimeSeries_valid:
  assumes "\<forall>t \<in> set (rr_AppendTagsJSON rule). tag_valid N t"
  shows "ConvertToTimeSeries N ord (Some value) rule = Inr (map (recorded_series N ord rule) (recorded_points value))"
  by (cases "value") (simp_all add: record_vector_valid [OF assms] record_matrix_valid [OF assms] recorded_series_def
      del: recorded_points.simps(1,2))

text \<open>An extra tag without an equal sign panics on the first point that is not NaN.\<close>

lemma append_tag_panics:
  assumes "\<not> Contains t ''=''" "rr_AppendTagsJSON rule = [t]" "\<not> IsNaN v"
  shows "ConvertToTimeSeries N ord (Some (Vector [(m, ts, v)])) rule = Inl Slice_out_of_range"
  using assms by (simp add: labelsToLabelsProto_def Contains_def)

lemma IsNil_writer: "pc_inv pc \<Longrightarrow> IsNil pc ds \<longleftrightarrow> GetWriterCli pc ds = None"
  by (auto simp: pc_inv_def IsNil_def GetWriterCli_def dom_def set_eq_iff)

text \<open>C39. An evaluation of a recording rule that passed validation never panics. It sends nothing
  when the query is blank, when the data source has no client, when the query fails or comes with
  warnings, or when no point of the result is worth recording. Otherwise it sends one request to
  the writer client of its data source, with one series per point: the rule's name as metric name,
  the valid labels of the point, the extra tags of the rule, and the samples that are numbers.\<close>

theorem recording_evaluation:
  assumes "RecordingRule_Verify N re = Inr re'" and "rule = RecordingRule_DB2FE C re'" and "pc_inv pc"
    and "\<And>d q t w. el_query X d q t \<noteq> Inr (None, w)"
  shows "RecordRuleContext_Eval N ord X pc now (NewRecordRuleContext rule ds) =
    Inr (case (GetWriterCli pc ds, el_query X ds (TrimSpace (rr_PromQl rule)) now) of
           (Some w, Inr (Some v, [])) \<Rightarrow>
             (if TrimSpace (rr_PromQl rule) = '''' \<or> recorded_points v = [] then None
              else Some (w, map (recorded_series N ord rule) (recorded_points v)))
         | _ \<Rightarrow> None)"
proof -
  have tags: "\<forall>t \<in> set (rr_AppendTagsJSON rule). tag_valid N t"
    using RecordingRule_Verify_tags [OF assms(1)] assms(2) by (simp add: RecordingRule_DB2FE_def)
  note conv = ConvertToTimeSeries_valid [OF tags]
  consider (err) e where "el_query X ds (TrimSpace (rr_PromQl rule)) now = Inl e"
    | (ok) v ws where "el_query X ds (TrimSpace (rr_PromQl rule)) now = Inr (Some v, ws)"
    using assms(4) by (metis obj_sumE option.exhaust surj_pair)
  then show ?thesis
  proof cases
    case err
    then show ?thesis
      by (simp add: RecordRuleContext_Eval_def NewRecordRuleContext_def Let_def split: option.splits)
  next
    case ok
    then show ?thesis
      by (auto simp: RecordRuleContext_Eval_def NewRecordRuleContext_def conv IsNil_writer [OF assms(3)]
          write_request_def Let_def split: option.splits list.splits)
  qed
qed

definition sample_recording :: RecordingRule where
  "sample_recording = \<lparr>rr_Id = 3, rr_GroupId = 1, rr_DatasourceIds = ''[1]'', rr_DatasourceIdsJson = [1],
     rr_Cluster = '''', rr_Name = ''cpu'', rr_Disabled = 0, rr_PromQl = '' up '', rr_QueryConfigs = '''',
     rr_QueryConfigsJson = [], rr_PromEvalInterval = 0, rr_AppendTags = '' team=sre'', rr_AppendTagsJSON = [],
     rr_Note = '''', rr_CreateAt = 0, rr_CreateBy = '''', rr_UpdateAt = 0, rr_UpdateBy = ''''\<rparr>"

definition sample_names :: prom_names where
  "sample_names = \<lparr>pn_MetricNameRE = (\<lambda>s. s \<noteq> []), pn_LabelNameRE = (\<lambda>s. s \<noteq> [])\<rparr>"

definition sample_codec :: record_codec where
  "sample_codec = \<lparr>rc_marshal_ids = (\<lambda>_. ''[1]''), rc_unmarshal_ids = (\<lambda>_ _. [1]),
     rc_marshal_queries = (\<lambda>_. ''[]''), rc_unmarshal_queries = (\<lambda>_ q. q)\<rparr>"

definition sample_query :: eval_lib where
  "sample_query = \<lparr>el_prom_rule = (\<lambda>_. Inl ''''), el_host_rule = (\<lambda>_. Inl ''''),
     el_query = (\<lambda>d q t. Inr (Some (Vector [([(''host'', ''a'')], 5000, Finite 1), ([], 5000, NaN)]), []))\<rparr>"

definition sample_option :: PromOption where
  "sample_option = \<lparr>po_ClusterName = ''c'', po_Url = ''http://p'', po_WriteAddr = ''http://w'', po_BasicAuthUser = '''',
     po_BasicAuthPass = '''', po_Timeout = 10, po_DialTimeout = 3, po_MaxIdleConnsPerHost = 100, po_Headers = [],
     po_UseTLS = False, po_InsecureSkipVerify = False\<rparr>"

definition sample_clients :: prom_clients where
  "sample_clients = \<lparr>pc_ReaderClients = [(1, sample_option)], pc_WriterClients = [(1, sample_option)],
     pc_PromOptions = [(1, sample_option)]\<rparr>"

lemma sample_recording_verified:
  "RecordingRule_Verify sample_names sample_recording =
     Inr (sample_recording\<lparr>rr_PromEvalInterval := 60, rr_AppendTags := ''team=sre''\<rparr>)"
  by (simp add: RecordingRule_Verify_def sample_recording_def sample_names_def IsAllDatasource_iff go_simps)

theorem recording_evaluation_witness:
  "RecordRuleContext_Eval sample_names (\<lambda>ks. ks) sample_query sample_clients 9 (NewRecordRuleContext
       (RecordingRule_DB2FE sample_codec (sample_recording\<lparr>rr_PromEvalInterval := 60, rr_AppendTags := ''team=sre''\<rparr>)) 1) =
     Inr (Some (sample_option, [\<lparr>ts_Labels = [mk_label ''__name__'' ''cpu'', mk_label ''host'' ''a'', mk_label ''team'' ''sre''],
       ts_Samples = [\<lparr>sm_Timestamp = 5000, sm_Value = Finite 1\<rparr>]\<rparr>]))"
proof -
  have pc: "pc_inv sample_clients"
    by (simp add: pc_inv_def sample_clients_def go_wf_def)
  have q: "el_query sample_query d q t \<noteq> Inr (None, w)" for d q t w
    by (simp add: sample_query_def)
  have ms: "unix_nano_ms (unix_of_ms 5000) = 5000"
    using unix_nano_ms_exact [of 5] by (simp add: unix_of_ms_def go_div_nonneg)
  show ?thesis
    unfolding recording_evaluation [OF sample_recording_verified refl pc q]
    by (simp add: RecordingRule_DB2FE_def sample_recording_def sample_query_def sample_clients_def GetWriterCli_def
        IsNaN_def recorded_series_def metric_labels_def LabelName_def split_tag_def record_sample_def sample_names_def ms go_simps)
qed

end
