(* ===== verification/Ingest.thy ===== *)
theory Ingest
  imports Time_Series Float64
begin

text \<open>
  The formats the push gateway accepts besides remote write (\<open>pushgw/router/router_openfalcon.go\<close>,
  \<open>router_opentsdb.go\<close>, \<open>router_datadog.go\<close>): cleaning of a metric and its conversion to a time
  series, and the helpers of remote write that look into a series (\<open>router_remotewrite.go\<close>). A value
  whose JSON type was not fixed is one of the dynamic types the code distinguishes. The number
  parser, the printing of a value in an error and the conversion of a float outside the range of
  integers are arguments. Time stamps are 64-bit integers; products that may overflow wrap.
\<close>

datatype untyped = U_string string | U_float64 float64 | U_uint64 int | U_int64 int | U_int int | U_other json

record ingest_lib =
  ig_names :: prom_names
  ig_ParseFloat :: "string \<Rightarrow> float64 option"
  ig_show :: "untyped \<Rightarrow> string"
  ig_out_of_range :: "float64 \<Rightarrow> int"

subsection \<open>Cleaning\<close>

fun typed_value :: "ingest_lib \<Rightarrow> untyped \<Rightarrow> float64 option" where
  "typed_value L (U_string s) = ig_ParseFloat L s"
| "typed_value L (U_float64 f) = Some f"
| "typed_value L (U_uint64 n) = Some (Finite (round64 (of_int n)))"
| "typed_value L (U_int64 n) = Some (Finite (round64 (of_int n)))"
| "typed_value L (U_int n) = Some (Finite (round64 (of_int n)))"
| "typed_value L (U_other j) = None"

text \<open>A stamp beyond 32 bits is taken as milliseconds; one more than five minutes ahead is replaced
  by the current time.\<close>

definition clean_timestamp :: "int \<Rightarrow> int \<Rightarrow> int" where
  "clean_timestamp ts t =
     (let t1 = (if t > 0xffffffff then go_div t 1000 else t); diff = wrap64 (t1 - ts)
      in if diff > 300 then ts else t1)"

text \<open>Dots and dashes of a name become underscores.\<close>

definition prom_name :: "string \<Rightarrow> string" where
  "prom_name s =
     (let s1 = (if Contains s ''.'' then ReplaceAll_char s CHR ''.'' ''_'' else s)
      in if Contains s1 ''-'' then ReplaceAll_char s1 CHR ''-'' ''_'' else s1)"

fun checked_labels :: "ingest_lib \<Rightarrow> (string \<times> string) list \<Rightarrow> string + Label list" where
  "checked_labels L [] = Inr []"
| "checked_labels L ((key, val) # kvs) =
     (if \<not> pn_LabelNameRE (ig_names L) (prom_name key) then Inl (''invalid tag name: '' @ prom_name key)
      else case checked_labels L kvs of Inl e \<Rightarrow> Inl e | Inr ls \<Rightarrow> Inr (mk_label (prom_name key) val # ls))"

subsection \<open>Open-Falcon\<close>

record FalconMetric =
  fm_Metric :: string
  fm_Endpoint :: string
  fm_Timestamp :: int
  fm_ValueUnTyped :: untyped
  fm_Value :: float64
  fm_Tags :: string

definition Falcon_Clean :: "ingest_lib \<Rightarrow> int \<Rightarrow> FalconMetric \<Rightarrow> string + FalconMetric" where
  "Falcon_Clean L ts m =
     (if fm_Metric m = '''' then Inl ''metric is blank''
      else case typed_value L (fm_ValueUnTyped m) of
        None \<Rightarrow> Inl (''unparseable value '' @ ig_show L (fm_ValueUnTyped m))
      | Some f \<Rightarrow> Inr (m\<lparr>fm_Value := f, fm_Timestamp := clean_timestamp ts (fm_Timestamp m)\<rparr>))"

fun falcon_tags :: "string list \<Rightarrow> (string, string) go_map \<Rightarrow> (string, string) go_map" where
  "falcon_tags [] tagmap = tagmap"
| "falcon_tags (t # ts) tagmap =
     (let tmp = SplitN2 t ''='' in
      falcon_tags ts (if length tmp \<noteq> 2 then tagmap else go_set (tmp ! 0) (tmp ! 1) tagmap))"

definition falcon_ident :: "FalconMetric \<Rightarrow> (string, string) go_map \<Rightarrow> string \<times> (string, string) go_map" where
  "falcon_ident m tagmap =
     (if length (fm_Endpoint m) > 0
      then (case go_get tagmap ''ident'' of
              Some i \<Rightarrow> (i, go_set ''endpoint'' (fm_Endpoint m) tagmap)
            | None \<Rightarrow> (fm_Endpoint m, go_set ''ident'' (fm_Endpoint m) tagmap))
      else ('''', tagmap))"

text \<open>The series, the ident and the metric name as the code leaves it in the struct.\<close>

definition Falcon_ToProm ::
    "ingest_lib \<Rightarrow> (string \<times> string) range_order \<Rightarrow> FalconMetric \<Rightarrow> string + TimeSeries \<times> string \<times> string" where
  "Falcon_ToProm L ord m =
     (let metric = prom_name (fm_Metric m);
          sample = \<lparr>sm_Timestamp = wrap64 (fm_Timestamp m * 1000), sm_Value = fm_Value m\<rparr> in
      if \<not> pn_MetricNameRE (ig_names L) metric then Inl (''invalid metric name: '' @ metric)
      else (case falcon_ident m (falcon_tags (Split (fm_Tags m) '','') []) of (ident, tagmap) \<Rightarrow>
           (case checked_labels L (ord tagmap) of
              Inl e \<Rightarrow> Inl e
            | Inr ls \<Rightarrow> Inr (\<lparr>ts_Labels = mk_label ''__name__'' metric # ls, ts_Samples = [sample]\<rparr>, ident, metric))))"

subsection \<open>OpenTSDB\<close>

record HTTPMetric =
  hx_Metric :: string
  hx_Timestamp :: int
  hx_ValueUnTyped :: untyped
  hx_Value :: float64
  hx_Tags :: "(string, string) go_map"

definition HTTP_Clean :: "ingest_lib \<Rightarrow> int \<Rightarrow> HTTPMetric \<Rightarrow> string + HTTPMetric" where
  "HTTP_Clean L ts m =
     (if hx_Metric m = '''' then Inl ''metric is blank''
      else case typed_value L (hx_ValueUnTyped m) of
        None \<Rightarrow> Inl (''unparseable value '' @ ig_show L (hx_ValueUnTyped m))
      | Some f \<Rightarrow> Inr (m\<lparr>hx_Value := f, hx_Timestamp := clean_timestamp ts (hx_Timestamp m)\<rparr>))"

definition host_to_ident :: "(string, string) go_map \<Rightarrow> (string, string) go_map" where
  "host_to_ident tags =
     (case go_get tags ''ident'' of Some _ \<Rightarrow> tags
      | None \<Rightarrow> (case go_get tags ''host'' of None \<Rightarrow> tags
                | Some host \<Rightarrow> go_set ''ident'' host (go_del ''host'' tags)))"

text \<open>The series and the struct with its renamed metric and tags.\<close>

definition HTTP_ToProm ::
    "ingest_lib \<Rightarrow> (string \<times> string) range_order \<Rightarrow> HTTPMetric \<Rightarrow> string + TimeSeries \<times> HTTPMetric" where
  "HTTP_ToProm L ord m =
     (let metric = prom_name (hx_Metric m);
          sample = \<lparr>sm_Timestamp = wrap64 (hx_Timestamp m * 1000), sm_Value = hx_Value m\<rparr> in
      if \<not> pn_MetricNameRE (ig_names L) metric then Inl (''invalid metric name: '' @ metric)
      else (let tags = host_to_ident (hx_Tags m) in
            case checked_labels L (ord tags) of
              Inl e \<Rightarrow> Inl e
            | Inr ls \<Rightarrow> Inr (\<lparr>ts_Labels = mk_label ''__name__'' metric # ls, ts_Samples = [sample]\<rparr>,
                m\<lparr>hx_Metric := metric, hx_Tags := tags\<rparr>)))"

subsection \<open>Datadog\<close>

record DatadogMetric =
  dd_Metric :: string
  dd_Points :: "(float64 \<times> float64) list"
  dd_Host :: string
  dd_Tags :: "string list"

definition Datadog_Clean :: "DatadogMetric \<Rightarrow> string option" where
  "Datadog_Clean m = (if dd_Metric m = '''' then Some ''metric is blank'' else None)"

fun int64_of_float :: "ingest_lib \<Rightarrow> float64 \<Rightarrow> int" where
  "int64_of_float L (Finite q) =
     (let i = (if 0 \<le> q then \<lfloor>q\<rfloor> else \<lceil>q\<rceil>) in if int64_range i then i else ig_out_of_range L (Finite q))"
| "int64_of_float L f = ig_out_of_range L f"

text \<open>The labels of the tags, the ident and the host found in them.\<close>

fun datadog_tags :: "ingest_lib \<Rightarrow> string list \<Rightarrow> Label list \<Rightarrow> string \<Rightarrow> string \<Rightarrow> string + Label list \<times> string \<times> string" where
  "datadog_tags L [] ls identInTag hostInTag = Inr (ls, identInTag, hostInTag)"
| "datadog_tags L (t # ts) ls identInTag hostInTag =
     (let arr = SplitN2 t '':'' in
      if length arr \<noteq> 2 then datadog_tags L ts ls identInTag hostInTag
      else let key = arr ! 0 in
        if key = ''ident'' then datadog_tags L ts (ls @ [mk_label key (arr ! 1)]) (arr ! 1) hostInTag
        else if key = ''host'' then datadog_tags L ts ls identInTag (arr ! 1)
        else if \<not> pn_LabelNameRE (ig_names L) (prom_name key) then Inl (''invalid tag name: '' @ prom_name key)
        else datadog_tags L ts (ls @ [mk_label (prom_name key) (arr ! 1)]) identInTag hostInTag)"

definition Datadog_ToProm :: "ingest_lib \<Rightarrow> DatadogMetric \<Rightarrow> string + TimeSeries \<times> string \<times> string" where
  "Datadog_ToProm L m =
     (let samples = map (\<lambda>(t, v). \<lparr>sm_Timestamp = wrap64 (int64_of_float L t * 1000), sm_Value = v\<rparr>) (dd_Points m);
          metric = prom_name (dd_Metric m) in
      if \<not> pn_MetricNameRE (ig_names L) metric then Inl (''invalid metric name: '' @ metric)
      else (case datadog_tags L (dd_Tags m) [mk_label ''__name__'' metric] '''' '''' of
              Inl e \<Rightarrow> Inl e
            | Inr (ls, identInTag, hostInTag0) \<Rightarrow>
                (let hostInTag = (if dd_Host m \<noteq> '''' then dd_Host m else hostInTag0);
                     ls1 = (if hostInTag \<noteq> ''''
                            then ls @ [if identInTag \<noteq> '''' then mk_label ''host'' hostInTag else mk_label ''ident'' hostInTag]
                            else ls);
                     ident = (if identInTag \<noteq> '''' then identInTag else hostInTag)
                 in Inr (\<lparr>ts_Labels = ls1, ts_Samples = samples\<rparr>, ident, metric))))"

subsection \<open>Remote write\<close>

fun extract_metric :: "Label list \<Rightarrow> string" where
  "extract_metric [] = ''''"
| "extract_metric (l # ls) = (if lb_Name l = ''__name__'' then lb_Value l else extract_metric ls)"

definition extractMetricFromTimeSeries :: "TimeSeries \<Rightarrow> string" where
  "extractMetricFromTimeSeries s = extract_metric (ts_Labels s)"

text \<open>The first label of a name is renamed to \<open>ident\<close>; its value is the ident.\<close>

fun rename_first :: "string \<Rightarrow> Label list \<Rightarrow> (string \<times> Label list) option" where
  "rename_first name [] = None"
| "rename_first name (l # ls) =
     (if lb_Name l = name then Some (lb_Value l, l\<lparr>lb_Name := ''ident''\<rparr> # ls)
      else map_option (\<lambda>(v, ls'). (v, l # ls')) (rename_first name ls))"

definition extractIdentFromTimeSeries :: "TimeSeries \<Rightarrow> bool \<Rightarrow> string \<times> TimeSeries" where
  "extractIdentFromTimeSeries s ignoreIdent =
     (case label_value (ts_Labels s) ''ident'' of Some v \<Rightarrow> (v, s)
      | None \<Rightarrow>
         (case rename_first ''agent_hostname'' (ts_Labels s) of Some (v, ls) \<Rightarrow> (v, s\<lparr>ts_Labels := ls\<rparr>)
          | None \<Rightarrow>
             if \<not> ignoreIdent
             then (case rename_first ''host'' (ts_Labels s) of Some (v, ls) \<Rightarrow> (v, s\<lparr>ts_Labels := ls\<rparr>) | None \<Rightarrow> ('''', s))
             else ('''', s)))"

fun duplicate_loop :: "string list \<Rightarrow> Label list \<Rightarrow> bool" where
  "duplicate_loop seen [] = False"
| "duplicate_loop seen (l # ls) = (if lb_Name l \<in> set seen then True else duplicate_loop (lb_Name l # seen) ls)"

definition duplicateLabelKey :: "TimeSeries \<Rightarrow> bool" where
  "duplicateLabelKey s = duplicate_loop [] (ts_Labels s)"

lemma duplicate_loop_iff:
  "duplicate_loop seen ls \<longleftrightarrow> \<not> (distinct (label_names ls) \<and> set (label_names ls) \<inter> set seen = {})"
  by (induction seen ls rule: duplicate_loop.induct) auto

lemma duplicateLabelKey_iff: "duplicateLabelKey s \<longleftrightarrow> \<not> distinct (label_names (ts_Labels s))"
  by (simp add: duplicateLabelKey_def duplicate_loop_iff)

lemma extract_metric_value: "extract_metric ls = (case label_value ls ''__name__'' of Some v \<Rightarrow> v | None \<Rightarrow> '''')"
  by (induction ls) auto

lemma rename_first_Some:
  assumes "rename_first name ls = Some (v, ls')" "distinct (label_names ls)" "''ident'' \<notin> set (label_names ls)"
  shows "label_value ls name = Some v \<and> distinct (label_names ls') \<and>
    set (label_names ls') \<subseteq> insert ''ident'' (set (label_names ls)) \<and>
    label_value ls' = (label_value ls)(name := None, ''ident'' \<mapsto> v)"
  using assms
proof (induction ls arbitrary: ls')
  case (Cons l ls)
  show ?case
  proof (cases "lb_Name l = name")
    case True
    then have "label_value ls name = None" "label_value ls ''ident'' = None"
      using Cons.prems by (auto simp: label_value_None)
    then show ?thesis using True Cons.prems by (auto simp: fun_eq_iff)
  next
    case False
    then obtain ls1 where r: "rename_first name ls = Some (v, ls1)" "ls' = l # ls1" using Cons.prems by auto
    have ih: "label_value ls name = Some v" "distinct (label_names ls1)"
      "set (label_names ls1) \<subseteq> insert ''ident'' (set (label_names ls))"
      "label_value ls1 = (label_value ls)(name := None, ''ident'' \<mapsto> v)"
      using Cons.IH [OF r(1)] Cons.prems by auto
    have "lb_Name l \<notin> set (label_names ls1)" using ih(3) Cons.prems by auto
    then show ?thesis using False Cons.prems ih r(2) by (auto simp: fun_eq_iff)
  qed
qed simp

text \<open>The ident a series is registered under: the value of \<open>ident\<close>, else of \<open>agent_hostname\<close>, else
  (unless told otherwise) of \<open>host\<close>.\<close>

definition ident_source :: "bool \<Rightarrow> Label list \<Rightarrow> string option" where
  "ident_source ignoreIdent ls =
     (if label_value ls ''ident'' \<noteq> None then Some ''ident''
      else if label_value ls ''agent_hostname'' \<noteq> None then Some ''agent_hostname''
      else if \<not> ignoreIdent \<and> label_value ls ''host'' \<noteq> None then Some ''host'' else None)"

definition ident_of :: "bool \<Rightarrow> Label list \<Rightarrow> string" where
  "ident_of ignoreIdent ls = (case ident_source ignoreIdent ls of None \<Rightarrow> '''' | Some k \<Rightarrow> the (label_value ls k))"

lemma rename_first_None: "rename_first name ls = None \<longleftrightarrow> label_value ls name = None"
  by (induction ls) auto

lemma extractIdent_labels:
  assumes "distinct (label_names (ts_Labels s))"
  shows "\<exists>ls. extractIdentFromTimeSeries s ig = (ident_of ig (ts_Labels s), s\<lparr>ts_Labels := ls\<rparr>) \<and> distinct (label_names ls) \<and>
    label_value ls = (case ident_source ig (ts_Labels s) of None \<Rightarrow> label_value (ts_Labels s)
      | Some k \<Rightarrow> (label_value (ts_Labels s))(k := None, ''ident'' := label_value (ts_Labels s) k))"
proof -
  let ?ls = "ts_Labels s"
  have self: "s = s\<lparr>ts_Labels := ?ls\<rparr>" by simp
  have ren: "\<exists>ls v. rename_first k ?ls = Some (v, ls) \<and> label_value ?ls k = Some v \<and> distinct (label_names ls) \<and>
      label_value ls = (label_value ?ls)(k := None, ''ident'' \<mapsto> v)"
    if h: "label_value ?ls ''ident'' = None" "label_value ?ls k \<noteq> None" for k
  proof -
    obtain v ls where r: "rename_first k ?ls = Some (v, ls)"
      using h(2) rename_first_None [of k ?ls] by (cases "rename_first k ?ls") auto
    have "''ident'' \<notin> set (label_names ?ls)" using h(1) by (simp only: label_value_None simp_thms)
    then show ?thesis using rename_first_Some [OF r assms] r by blast
  qed
  consider (ident) v where "label_value ?ls ''ident'' = Some v"
    | (agent) "label_value ?ls ''ident'' = None" "label_value ?ls ''agent_hostname'' \<noteq> None"
    | (host) "label_value ?ls ''ident'' = None" "label_value ?ls ''agent_hostname'' = None" "\<not> ig" "label_value ?ls ''host'' \<noteq> None"
    | (none) "label_value ?ls ''ident'' = None" "label_value ?ls ''agent_hostname'' = None" "ig \<or> label_value ?ls ''host'' = None"
    by (cases "label_value ?ls ''ident''") auto
  then show ?thesis
  proof cases
    case ident
    then show ?thesis using assms
      by (intro exI [of _ ?ls]) (auto simp: extractIdentFromTimeSeries_def ident_of_def ident_source_def)
  next
    case agent
    then show ?thesis using ren [OF agent]
      by (auto simp: extractIdentFromTimeSeries_def ident_of_def ident_source_def)
  next
    case host
    then have "rename_first ''agent_hostname'' ?ls = None" by (simp add: rename_first_None)
    then show ?thesis using ren [OF host(1,4)] host
      by (auto simp: extractIdentFromTimeSeries_def ident_of_def ident_source_def)
  next
    case none
    then have "rename_first ''agent_hostname'' ?ls = None" "ig \<or> rename_first ''host'' ?ls = None"
      by (simp_all add: rename_first_None)
    then show ?thesis using assms none
      by (intro exI [of _ ?ls]) (auto simp: extractIdentFromTimeSeries_def ident_of_def ident_source_def)
  qed
qed

subsection \<open>Cleaned metrics and their series\<close>

lemma clean_timestamp_bound:
  assumes "0 \<le> ts" "ts < 2 ^ 62" "int64_range t"
  shows "clean_timestamp ts t \<le> ts + 300"
proof -
  define t1 where "t1 = (if t > 0xffffffff then go_div t 1000 else t)"
  have r: "int64_range t1" "t1 \<le> t \<or> t1 \<le> 0xffffffff"
    using assms(3) by (auto simp: t1_def int64_range_def go_div_nonneg)
  have "t1 \<le> ts + 300 \<or> wrap64 (t1 - ts) > 300"
  proof (cases "t1 \<le> ts + 300")
    case False
    then have "wrap64 (t1 - ts) = t1 - ts"
      by (intro wrap64_id) (use r(1) assms in \<open>auto simp: int64_range_def\<close>)
    then show ?thesis using False by simp
  qed simp
  then show ?thesis using assms by (auto simp: clean_timestamp_def Let_def simp flip: t1_def)
qed

lemma clean_timestamp_nonneg: "0 \<le> ts \<Longrightarrow> 0 \<le> t \<Longrightarrow> 0 \<le> clean_timestamp ts t"
  by (auto simp: clean_timestamp_def Let_def go_div_nonneg)

lemma prom_name_clean: "CHR ''.'' \<notin> set (prom_name s) \<and> CHR ''-'' \<notin> set (prom_name s)"
proof -
  define s1 where "s1 = (if Contains s ''.'' then ReplaceAll_char s CHR ''.'' ''_'' else s)"
  have dot: "CHR ''.'' \<notin> set s1" using ReplaceAll_char_free [of "CHR ''.''" "''_''" s] by (auto simp: s1_def Contains_char)
  have e: "prom_name s = (if Contains s1 ''-'' then ReplaceAll_char s1 CHR ''-'' ''_'' else s1)"
    by (simp add: prom_name_def s1_def)
  show ?thesis unfolding e using dot ReplaceAll_char_free [of "CHR ''-''" "''_''" s1] ReplaceAll_char_set [of s1 "CHR ''-''" "''_''"]
    by (auto simp: Contains_char)
qed

lemma prom_name_id: "CHR ''.'' \<notin> set s \<Longrightarrow> CHR ''-'' \<notin> set s \<Longrightarrow> prom_name s = s"
  by (simp add: prom_name_def Contains_char)

lemma checked_labels_Inr:
  "checked_labels L kvs = Inr ls \<Longrightarrow>
   ls = map (\<lambda>(k, v). mk_label (prom_name k) v) kvs \<and> (\<forall>l \<in> set ls. pn_LabelNameRE (ig_names L) (lb_Name l))"
  by (induction L kvs arbitrary: ls rule: checked_labels.induct) (auto split: if_splits sum.splits)

lemma checked_labels_total:
  "(\<exists>ls. checked_labels L kvs = Inr ls) \<longleftrightarrow> (\<forall>(k, v) \<in> set kvs. pn_LabelNameRE (ig_names L) (prom_name k))"
  by (induction L kvs rule: checked_labels.induct) (auto split: sum.splits)

lemma falcon_ident_label:
  "falcon_ident m tagmap = (ident, tagmap') \<Longrightarrow> ident \<noteq> '''' \<Longrightarrow> go_get tagmap' ''ident'' = Some ident"
  by (auto simp: falcon_ident_def split: if_splits option.splits)

text \<open>C38. An Open-Falcon metric that passes cleaning and conversion becomes a series with exactly
  one sample, stamped in milliseconds, never more than five minutes ahead of the server and without
  overflow for stamps that are not negative. Its first label is the metric name with dots and dashes
  replaced; all other label names are valid; and the ident under which it is registered, unless
  empty, is the value of a label \<open>ident\<close>.\<close>

theorem falcon_series:
  assumes "Falcon_Clean L ts m = Inr m'" and "Falcon_ToProm L ord m' = Inr (pt, ident, metric)" and "fair_order ord"
    and "0 \<le> ts" and "ts < 2 ^ 53" and "0 \<le> fm_Timestamp m" and "int64_range (fm_Timestamp m)"
  shows "\<exists>s ls. pt = \<lparr>ts_Labels = mk_label ''__name__'' metric # ls, ts_Samples = [s]\<rparr> \<and>
     sm_Timestamp s = fm_Timestamp m' * 1000 \<and> 0 \<le> sm_Timestamp s \<and> sm_Timestamp s \<le> (ts + 300) * 1000 \<and>
     Some (sm_Value s) = typed_value L (fm_ValueUnTyped m) \<and>
     metric = prom_name (fm_Metric m) \<and> pn_MetricNameRE (ig_names L) metric \<and>
     (\<forall>l \<in> set ls. pn_LabelNameRE (ig_names L) (lb_Name l)) \<and>
     (ident \<noteq> '''' \<longrightarrow> mk_label ''ident'' ident \<in> set ls)"
proof -
  obtain f where f: "typed_value L (fm_ValueUnTyped m) = Some f"
    and m': "m' = m\<lparr>fm_Value := f, fm_Timestamp := clean_timestamp ts (fm_Timestamp m)\<rparr>"
    using assms(1) by (auto simp: Falcon_Clean_def split: if_splits option.splits)
  obtain tagmap ls where t: "falcon_ident m' (falcon_tags (Split (fm_Tags m') '','') []) = (ident, tagmap)"
    "checked_labels L (ord tagmap) = Inr ls" "metric = prom_name (fm_Metric m')" "pn_MetricNameRE (ig_names L) metric"
    "pt = \<lparr>ts_Labels = mk_label ''__name__'' metric # ls,
           ts_Samples = [\<lparr>sm_Timestamp = wrap64 (fm_Timestamp m' * 1000), sm_Value = fm_Value m'\<rparr>]\<rparr>"
    using assms(2) by (auto simp: Falcon_ToProm_def Let_def split: if_splits prod.splits sum.splits)
  have b: "0 \<le> fm_Timestamp m'" "fm_Timestamp m' \<le> ts + 300"
    using clean_timestamp_nonneg clean_timestamp_bound assms(4,5,6,7) by (auto simp: m')
  have w: "wrap64 (fm_Timestamp m' * 1000) = fm_Timestamp m' * 1000"
    by (rule wrap64_id) (use b assms(5) in \<open>auto simp: int64_range_def\<close>)
  have "mk_label ''ident'' ident \<in> set ls" if i: "ident \<noteq> ''''"
  proof -
    have "(''ident'', ident) \<in> set (ord tagmap)"
      using falcon_ident_label [OF t(1) i] assms(3) by (auto dest: map_of_SomeD)
    moreover have "prom_name ''ident'' = ''ident''" by (rule prom_name_id) simp_all
    ultimately show ?thesis using checked_labels_Inr [OF t(2)] by force
  qed
  then show ?thesis using t b w f checked_labels_Inr [OF t(2)] by (simp add: m')
qed

definition sample_ingest :: ingest_lib where
  "sample_ingest = \<lparr>ig_names = \<lparr>pn_MetricNameRE = (\<lambda>s. s \<noteq> []), pn_LabelNameRE = (\<lambda>s. s \<noteq> [])\<rparr>,
     ig_ParseFloat = (\<lambda>s. None), ig_show = (\<lambda>_. ''?''), ig_out_of_range = (\<lambda>_. 0)\<rparr>"

definition sample_falcon :: FalconMetric where
  "sample_falcon = \<lparr>fm_Metric = ''cpu.idle'', fm_Endpoint = ''h1'', fm_Timestamp = 9000, fm_ValueUnTyped = U_float64 (Finite 3),
     fm_Value = Finite 0, fm_Tags = ''a=b''\<rparr>"

theorem falcon_series_witness:
  "\<exists>pt ident metric s ls. Falcon_ToProm sample_ingest (\<lambda>ks. ks) (sample_falcon\<lparr>fm_Value := Finite 3, fm_Timestamp := 1000\<rparr>) = Inr (pt, ident, metric) \<and>
     pt = \<lparr>ts_Labels = mk_label ''__name__'' metric # ls, ts_Samples = [s]\<rparr> \<and> sm_Timestamp s = 1000000 \<and>
     metric = ''cpu_idle'' \<and> mk_label ''ident'' ''h1'' \<in> set ls"
proof -
  let ?m = "sample_falcon\<lparr>fm_Value := Finite 3, fm_Timestamp := 1000\<rparr>"
  have c: "Falcon_Clean sample_ingest 1000 sample_falcon = Inr ?m"
    by (simp add: Falcon_Clean_def sample_falcon_def clean_timestamp_def wrap64_def Let_def)
  obtain pt metric where t: "Falcon_ToProm sample_ingest (\<lambda>ks. ks) ?m = Inr (pt, ''h1'', metric)"
    by (simp add: Falcon_ToProm_def sample_falcon_def sample_ingest_def Let_def falcon_ident_def prom_name_def go_simps)
  have n: "prom_name ''cpu.idle'' = ''cpu_idle''" by (simp add: prom_name_def go_simps)
  from falcon_series [OF c t fair_order_id] show ?thesis using t n by (force simp: sample_falcon_def int64_range_def)
qed

end
