(* ===== verification/Relabel.thy ===== *)
theory Relabel
  imports Time_Series "HOL-Library.Word"
begin

unbundle bit_operations_syntax

text \<open>
  \<open>pushgw/writer/relabel.go\<close>: rewriting and filtering of the labels of a series by the rules of a
  writer, and the defaults of those rules (\<open>pushgw/pconf/conf.go\<close>). A compiled regular expression
  is the function that gives the groups of a match (group 0 is the whole match), with the names of
  the groups; the compiler itself and the MD5 digest are arguments. The expressions are anchored at
  both ends, so \<open>ReplaceAllString\<close> replaces the whole string or nothing. The main lemma gives, for
  each action, the value of every label of the result in terms of the input.
\<close>

subsection \<open>Regular expressions and templates\<close>

record regexp =
  rx_find :: "string \<Rightarrow> string option list option"
  rx_names :: "string list"

definition MatchString :: "regexp \<Rightarrow> string \<Rightarrow> bool" where
  "MatchString rx s \<longleftrightarrow> rx_find rx s \<noteq> None"

definition word_char :: "char \<Rightarrow> bool" where
  "word_char c = (let v = of_char c :: nat in
     48 \<le> v \<and> v \<le> 57 \<or> 65 \<le> v \<and> v \<le> 90 \<or> 97 \<le> v \<and> v \<le> 122 \<or> v = 95)"

text \<open>\<open>$name\<close> and \<open>${name}\<close> in a template, after the dollar sign.\<close>

definition extract_ref :: "string \<Rightarrow> (string \<times> string) option" where
  "extract_ref str =
     (case str of [] \<Rightarrow> None
      | c # cs \<Rightarrow>
         (let body = (if c = CHR ''{'' then cs else str);
              name = takeWhile word_char body; rest = dropWhile word_char body
          in if name = [] then None
             else if c = CHR ''{''
             then (case rest of [] \<Rightarrow> None | d # r \<Rightarrow> if d = CHR ''}'' then Some (name, r) else None)
             else Some (name, rest)))"

fun group_number :: "nat \<Rightarrow> string \<Rightarrow> nat option" where
  "group_number n [] = Some n"
| "group_number n (c # cs) =
     (case digit_val c of None \<Rightarrow> None
      | Some d \<Rightarrow> if 100000000 \<le> n then None else group_number (n * 10 + d) cs)"

fun named_group :: "string \<Rightarrow> string list \<Rightarrow> string option list \<Rightarrow> string" where
  "named_group name (n # ns) (g # gs) =
     (case g of Some t \<Rightarrow> if name = n then t else named_group name ns gs
      | None \<Rightarrow> named_group name ns gs)"
| "named_group name _ _ = ''''"

definition group_text :: "regexp \<Rightarrow> string option list \<Rightarrow> string \<Rightarrow> string" where
  "group_text rx gs name =
     (case (if hd name = CHR ''0'' \<and> 1 < length name then None else group_number 0 name) of
        Some i \<Rightarrow> if i < length gs then (case gs ! i of Some t \<Rightarrow> t | None \<Rightarrow> '''') else ''''
      | None \<Rightarrow> named_group name (rx_names rx) gs)"

lemma extract_ref_length: "extract_ref str = Some (name, rest) \<Longrightarrow> length rest < Suc (length str)"
proof -
  have "length (dropWhile word_char xs) \<le> length xs" for xs by (rule length_dropWhile_le)
  note d = this [THEN le_imp_less_Suc] this
  assume "extract_ref str = Some (name, rest)"
  then show ?thesis
    using d(1) [of str] d(2) [of "tl str"]
    by (auto simp: extract_ref_def Let_def split: list.splits if_splits)
qed

function Expand :: "regexp \<Rightarrow> string option list \<Rightarrow> string \<Rightarrow> string" where
  "Expand rx gs template =
     (case template of [] \<Rightarrow> []
      | c # cs \<Rightarrow>
         if c \<noteq> CHR ''$'' then c # Expand rx gs cs
         else if prefix ''$'' cs then CHR ''$'' # Expand rx gs (tl cs)
         else (case extract_ref cs of None \<Rightarrow> CHR ''$'' # Expand rx gs cs
               | Some (name, rest) \<Rightarrow> group_text rx gs name @ Expand rx gs rest))"
  by pat_completeness auto
termination
  by (relation "measure (\<lambda>(_, _, t). length t)") (auto dest: extract_ref_length)

declare Expand.simps [simp del]

definition ReplaceAllString :: "regexp \<Rightarrow> string \<Rightarrow> string \<Rightarrow> string" where
  "ReplaceAllString rx src repl = (case rx_find rx src of None \<Rightarrow> src | Some gs \<Rightarrow> Expand rx gs repl)"

subsection \<open>Rules\<close>

record RelabelConfig =
  rl_SourceLabels :: "string list"
  rl_Separator :: string
  rl_Regex :: string
  rl_RegexCompiled :: "regexp option"
  rl_Modulus :: "64 word"
  rl_TargetLabel :: string
  rl_Replacement :: string
  rl_Action :: string

definition getValue :: "Label list \<Rightarrow> string \<Rightarrow> string" where
  "getValue ls name = (case label_value ls name of Some v \<Rightarrow> v | None \<Rightarrow> '''')"

type_synonym label_builder = "(string, string) go_map"

definition newBuilder :: "Label list \<Rightarrow> label_builder" where
  "newBuilder ls = fold (\<lambda>l m. go_set (lb_Name l) (lb_Value l) m) ls []"

definition lb_del :: "string \<Rightarrow> label_builder \<Rightarrow> label_builder" where
  "lb_del k m = go_del k m"

definition lb_set :: "string \<Rightarrow> string \<Rightarrow> label_builder \<Rightarrow> label_builder" where
  "lb_set k v m = (if v = '''' then lb_del k m else go_set k v m)"

text \<open>The names are distinct, so the sorted list does not depend on the order of the map.\<close>

definition lb_labels :: "label_builder \<Rightarrow> Label list" where
  "lb_labels m = map (\<lambda>(k, v). mk_label k v) (rev (sort_key fst m))"

definition sum64 :: "8 word list \<Rightarrow> 64 word" where
  "sum64 hash = fold (\<lambda>(i, b) s. s OR push_bit ((16 - i - 1) * 8) (ucast b)) (enumerate 0 hash) 0"

record relabel_lib =
  rb_names :: prom_names
  rb_md5 :: "string \<Rightarrow> 8 word list"

definition relabel_value :: "RelabelConfig \<Rightarrow> Label list \<Rightarrow> string" where
  "relabel_value cfg lset = Join (map (getValue lset) (rl_SourceLabels cfg)) (rl_Separator cfg)"

definition replace_label :: "relabel_lib \<Rightarrow> RelabelConfig \<Rightarrow> regexp \<Rightarrow> string \<Rightarrow> label_builder \<Rightarrow> label_builder" where
  "replace_label L cfg regx val lb =
     (case rx_find regx val of None \<Rightarrow> lb
      | Some gs \<Rightarrow>
         (let target = Expand regx gs (rl_TargetLabel cfg); res = Expand regx gs (rl_Replacement cfg) in
          if \<not> pn_LabelNameRE (rb_names L) target then lb_del (rl_TargetLabel cfg) lb
          else if length res = 0 then lb_del (rl_TargetLabel cfg) lb
          else lb_set target res lb))"

definition map_label :: "RelabelConfig \<Rightarrow> regexp \<Rightarrow> Label \<Rightarrow> label_builder \<Rightarrow> label_builder" where
  "map_label cfg regx l lb =
     (if MatchString regx (lb_Name l) then lb_set (ReplaceAllString regx (lb_Name l) (rl_Replacement cfg)) (lb_Value l) lb
      else lb)"

definition drop_label :: "(string \<Rightarrow> bool) \<Rightarrow> Label \<Rightarrow> label_builder \<Rightarrow> label_builder" where
  "drop_label p l lb = (if p (lb_Name l) then lb_del (lb_Name l) lb else lb)"

text \<open>\<open>None\<close> is the nil slice: the series is dropped.\<close>

definition with_regexp :: "RelabelConfig \<Rightarrow> (regexp \<Rightarrow> 'a res) \<Rightarrow> 'a res" where
  "with_regexp cfg f = (case rl_RegexCompiled cfg of None \<Rightarrow> Inl Nil_dereference | Some r \<Rightarrow> f r)"

definition relabel :: "relabel_lib \<Rightarrow> Label list \<Rightarrow> RelabelConfig \<Rightarrow> Label list option res" where
  "relabel L lset cfg =
     (let val = relabel_value cfg lset; lb = newBuilder lset; act = rl_Action cfg in
      if act = ''drop'' then
        with_regexp cfg (\<lambda>r. if MatchString r val then Inr None else Inr (Some (lb_labels lb)))
      else if act = ''keep'' then
        with_regexp cfg (\<lambda>r. if \<not> MatchString r val then Inr None else Inr (Some (lb_labels lb)))
      else if act = ''replace'' then
        with_regexp cfg (\<lambda>r. Inr (Some (lb_labels (replace_label L cfg r val lb))))
      else if act = ''lowercase'' then Inr (Some (lb_labels (lb_set (rl_TargetLabel cfg) (to_lower val) lb)))
      else if act = ''uppercase'' then Inr (Some (lb_labels (lb_set (rl_TargetLabel cfg) (to_upper val) lb)))
      else if act = ''hashmod'' then
        (if rl_Modulus cfg = 0 then Inl Divide_by_zero
         else Inr (Some (lb_labels (lb_set (rl_TargetLabel cfg)
                (show_nat (unat (sum64 (rb_md5 L val) mod rl_Modulus cfg))) lb))))
      else if act = ''labelmap'' then
        with_regexp cfg (\<lambda>r. Inr (Some (lb_labels (fold (map_label cfg r) lset lb))))
      else if act = ''labeldrop'' then
        with_regexp cfg (\<lambda>r. Inr (Some (lb_labels (fold (drop_label (MatchString r)) lset lb))))
      else if act = ''labelkeep'' then
        with_regexp cfg (\<lambda>r. Inr (Some (lb_labels (fold (drop_label (\<lambda>n. \<not> MatchString r n)) lset lb))))
      else Inl (Unknown_action act))"

fun Process :: "relabel_lib \<Rightarrow> Label list \<Rightarrow> RelabelConfig list \<Rightarrow> Label list option res" where
  "Process L labels [] = Inr (Some labels)"
| "Process L labels (cfg # cfgs) =
     res_bind (relabel L labels cfg) (\<lambda>r. case r of None \<Rightarrow> Inr None | Some ls \<Rightarrow> Process L ls cfgs)"

subsection \<open>Defaults\<close>

text \<open>Loading the configuration fills in the defaults and compiles the expression; a pattern that
  does not compile ends the process (\<open>None\<close>).\<close>

definition default_str :: "('r \<Rightarrow> string) \<Rightarrow> ((string \<Rightarrow> string) \<Rightarrow> 'r \<Rightarrow> 'r) \<Rightarrow> string \<Rightarrow> 'r \<Rightarrow> 'r" where
  "default_str get upd d r = (if get r = '''' then upd (\<lambda>_. d) r else r)"

definition relabel_defaults :: "(string \<Rightarrow> regexp option) \<Rightarrow> RelabelConfig \<Rightarrow> RelabelConfig option" where
  "relabel_defaults compile r0 =
     (let r1 = default_str rl_Regex rl_Regex_update ''(.*)'' r0 in
      case compile (''^(?:'' @ rl_Regex r1 @ '')$'') of None \<Rightarrow> None
      | Some regex \<Rightarrow>
         (let r2 = r1\<lparr>rl_RegexCompiled := Some regex\<rparr>;
              r3 = default_str rl_Separator rl_Separator_update '';'' r2;
              r4 = default_str rl_Action rl_Action_update ''replace'' r3
          in Some (default_str rl_Replacement rl_Replacement_update ''$1'' r4)))"

subsection \<open>The builder\<close>

lemma newBuilder_get: "go_get (newBuilder ls) k = label_value (rev ls) k"
proof -
  have "go_get (fold (\<lambda>l m. go_set (lb_Name l) (lb_Value l) m) ls m) k =
      (case label_value (rev ls) k of None \<Rightarrow> go_get m k | Some v \<Rightarrow> Some v)" for m
    by (induction ls arbitrary: m) (auto split: option.splits)
  then show ?thesis by (simp add: newBuilder_def split: option.split)
qed

lemma label_value_rev: "distinct (label_names ls) \<Longrightarrow> label_value (rev ls) = label_value ls"
proof -
  assume d: "distinct (label_names ls)"
  let ?xs = "map (\<lambda>l. (lb_Name l, lb_Value l)) ls"
  have "distinct (map fst ?xs)" using d by (simp add: comp_def)
  then have "map_of (rev ?xs) = map_of ?xs" using map_of_inject_set [of "rev ?xs" ?xs] by (simp flip: rev_map)
  then show ?thesis by (simp add: label_value_def rev_map fun_eq_iff)
qed

lemma builder_get: "distinct (label_names ls) \<Longrightarrow> go_get (newBuilder ls) = label_value ls"
  using label_value_rev by (auto simp: newBuilder_get)

lemma fold_wf: "(\<And>x m. go_wf m \<Longrightarrow> go_wf (f x m)) \<Longrightarrow> go_wf m \<Longrightarrow> go_wf (fold f xs m)"
  by (induction xs arbitrary: m) auto

lemma lb_wf [intro]:
  "go_wf (newBuilder ls)" "go_wf m \<Longrightarrow> go_wf (lb_del k m)" "go_wf m \<Longrightarrow> go_wf (lb_set k v m)"
  by (auto simp: newBuilder_def lb_del_def lb_set_def intro: fold_wf gm.wf_set gm.wf_del)

lemma replace_label_wf: "go_wf m \<Longrightarrow> go_wf (replace_label L cfg r val m)"
  by (auto simp: replace_label_def Let_def split: option.splits)

lemma lb_folds_wf:
  "go_wf m \<Longrightarrow> go_wf (fold (map_label cfg r) ls m)" "go_wf m \<Longrightarrow> go_wf (fold (drop_label p) ls m)"
  by (auto intro!: fold_wf simp: map_label_def drop_label_def)

lemma lb_labels_value:
  assumes "go_wf m"
  shows "label_value (lb_labels m) = go_get m"
proof -
  have "distinct (map fst (rev (sort_key fst m)))" using assms
    by (simp add: go_wf_def rev_map [symmetric] distinct_map)
  moreover have "set (rev (sort_key fst m)) = set m" by simp
  ultimately have "map_of (rev (sort_key fst m)) = map_of m"
    using assms map_of_inject_set [of "rev (sort_key fst m)" m] by (simp add: go_wf_def)
  moreover have "map (\<lambda>l. (lb_Name l, lb_Value l)) (lb_labels m) = rev (sort_key fst m)"
    by (simp add: lb_labels_def comp_def case_prod_unfold)
  ultimately show ?thesis by (simp add: label_value_def fun_eq_iff)
qed

lemma lb_labels_sorted:
  assumes "go_wf m"
  shows "sorted_wrt (>) (label_names (lb_labels m))"
proof -
  have n: "label_names (lb_labels m) = rev (map fst (sort_key fst m))"
    by (simp add: lb_labels_def comp_def case_prod_unfold rev_map)
  have "sorted (map fst (sort_key fst m))" by simp
  moreover have "distinct (map fst (sort_key fst m))" using assms by (simp add: go_wf_def distinct_map)
  ultimately have "sorted_wrt (<) (map fst (sort_key fst m))" by (simp add: strict_sorted_iff)
  then show ?thesis unfolding n by (simp add: sorted_wrt_rev)
qed

lemma sorted_labels_distinct: "sorted_wrt (>) (label_names ls) \<Longrightarrow> distinct (label_names ls)"
  by (induction ls) auto

subsection \<open>What a rule does to a set of labels\<close>

text \<open>Labels as a map from names to values; assigning the empty value removes a label.\<close>

definition set_value :: "string \<Rightarrow> string \<Rightarrow> (string \<rightharpoonup> string) \<Rightarrow> (string \<rightharpoonup> string)" where
  "set_value k v f = (if v = '''' then f(k := None) else f(k \<mapsto> v))"

definition replace_spec :: "relabel_lib \<Rightarrow> RelabelConfig \<Rightarrow> regexp \<Rightarrow> string \<Rightarrow> (string \<rightharpoonup> string) \<Rightarrow> (string \<rightharpoonup> string)" where
  "replace_spec L cfg r val f =
     (case rx_find r val of None \<Rightarrow> f
      | Some gs \<Rightarrow>
         if pn_LabelNameRE (rb_names L) (Expand r gs (rl_TargetLabel cfg)) \<and> Expand r gs (rl_Replacement cfg) \<noteq> ''''
         then f(Expand r gs (rl_TargetLabel cfg) \<mapsto> Expand r gs (rl_Replacement cfg))
         else f(rl_TargetLabel cfg := None))"

definition relabel_spec :: "relabel_lib \<Rightarrow> RelabelConfig \<Rightarrow> regexp \<Rightarrow> Label list \<Rightarrow> (string \<rightharpoonup> string) option" where
  "relabel_spec L cfg r ls =
     (let f = label_value ls; val = relabel_value cfg ls; target = rl_TargetLabel cfg; act = rl_Action cfg in
      if act = ''drop'' then (if MatchString r val then None else Some f)
      else if act = ''keep'' then (if MatchString r val then Some f else None)
      else if act = ''replace'' then Some (replace_spec L cfg r val f)
      else if act = ''lowercase'' then Some (set_value target (to_lower val) f)
      else if act = ''uppercase'' then Some (set_value target (to_upper val) f)
      else if act = ''hashmod'' then Some (f(target \<mapsto> show_nat (unat (sum64 (rb_md5 L val)) mod unat (rl_Modulus cfg))))
      else if act = ''labelmap'' then
        Some (fold (\<lambda>l. set_value (ReplaceAllString r (lb_Name l) (rl_Replacement cfg)) (lb_Value l))
               (filter (\<lambda>l. MatchString r (lb_Name l)) ls) f)
      else if act = ''labeldrop'' then Some (\<lambda>k. if MatchString r k then None else f k)
      else Some (\<lambda>k. if MatchString r k then f k else None))"

definition relabel_actions :: "string list" where
  "relabel_actions = [''replace'', ''keep'', ''drop'', ''hashmod'', ''labelmap'', ''labeldrop'', ''labelkeep'',
     ''lowercase'', ''uppercase'']"

definition relabel_ready :: "RelabelConfig \<Rightarrow> bool" where
  "relabel_ready cfg \<longleftrightarrow> rl_RegexCompiled cfg \<noteq> None \<and> rl_Action cfg \<in> set relabel_actions \<and>
     (rl_Action cfg = ''hashmod'' \<longrightarrow> rl_Modulus cfg \<noteq> 0)"

lemma lb_set_get: "go_get (lb_set k v m) = set_value k v (go_get m)"
  by (auto simp: lb_set_def lb_del_def set_value_def)

lemma replace_label_get: "go_get (replace_label L cfg r val m) = replace_spec L cfg r val (go_get m)"
  by (auto simp: replace_label_def replace_spec_def Let_def lb_set_get lb_del_def set_value_def split: option.splits)

lemma map_labels_get:
  "go_get (fold (map_label cfg r) ls m) =
     fold (\<lambda>l. set_value (ReplaceAllString r (lb_Name l) (rl_Replacement cfg)) (lb_Value l))
       (filter (\<lambda>l. MatchString r (lb_Name l)) ls) (go_get m)"
  by (induction ls arbitrary: m) (auto simp: map_label_def lb_set_get)

lemma drop_labels_get:
  "go_get (fold (drop_label p) ls m) = (\<lambda>k. if k \<in> set (label_names ls) \<and> p k then None else go_get m k)"
  by (induction ls arbitrary: m) (auto simp: drop_label_def lb_del_def)

lemma drop_labels_all:
  assumes "distinct (label_names ls)"
  shows "go_get (fold (drop_label p) ls (newBuilder ls)) = (\<lambda>k. if p k then None else label_value ls k)"
  using label_value_None by (fastforce simp: drop_labels_get builder_get [OF assms])

text \<open>The builder after the action; \<open>None\<close> for a dropped series.\<close>

definition relabel_builder :: "relabel_lib \<Rightarrow> RelabelConfig \<Rightarrow> regexp \<Rightarrow> Label list \<Rightarrow> label_builder option" where
  "relabel_builder L cfg r ls =
     (let lb = newBuilder ls; val = relabel_value cfg ls; target = rl_TargetLabel cfg; act = rl_Action cfg in
      if act = ''drop'' then (if MatchString r val then None else Some lb)
      else if act = ''keep'' then (if MatchString r val then Some lb else None)
      else if act = ''replace'' then Some (replace_label L cfg r val lb)
      else if act = ''lowercase'' then Some (lb_set target (to_lower val) lb)
      else if act = ''uppercase'' then Some (lb_set target (to_upper val) lb)
      else if act = ''hashmod'' then Some (lb_set target (show_nat (unat (sum64 (rb_md5 L val) mod rl_Modulus cfg))) lb)
      else if act = ''labelmap'' then Some (fold (map_label cfg r) ls lb)
      else if act = ''labeldrop'' then Some (fold (drop_label (MatchString r)) ls lb)
      else Some (fold (drop_label (\<lambda>n. \<not> MatchString r n)) ls lb))"

lemma relabel_builder_eq:
  assumes "rl_RegexCompiled cfg = Some r" and "relabel_ready cfg"
  shows "relabel L ls cfg = Inr (map_option lb_labels (relabel_builder L cfg r ls))"
  using assms
  by (auto simp: relabel_def relabel_builder_def with_regexp_def relabel_ready_def relabel_actions_def)

lemma relabel_builder_wf: "relabel_builder L cfg r ls = Some m \<Longrightarrow> go_wf m"
  using lb_wf(1) [of ls]
  by (auto simp: relabel_builder_def Let_def replace_label_wf lb_folds_wf split: if_splits)

lemma set_value_number: "set_value k (show_nat n) f = f(k \<mapsto> show_nat n)"
  by (simp add: set_value_def show_nat_nonempty)

lemma keep_swap: "(\<lambda>k. if \<not> p k then None else f k) = (\<lambda>k. if p k then f k else None)"
  by (simp add: fun_eq_iff)

lemma relabel_builder_get:
  assumes d: "distinct (label_names ls)" and "relabel_ready cfg"
  shows "map_option go_get (relabel_builder L cfg r ls) = relabel_spec L cfg r ls"
  using assms(2) builder_get [OF d] drop_labels_all [OF d]
  by (auto simp: relabel_builder_def relabel_spec_def relabel_ready_def relabel_actions_def replace_label_get
      map_labels_get lb_set_get set_value_number unat_mod keep_swap)

text \<open>C36. A relabelling rule whose expression compiled, with a known action (and a modulus other
  than zero where one is used), never panics on labels with distinct names. It drops the series
  exactly when its action says so; otherwise the result has the labels the action prescribes, as a
  map from names to values, and they are sorted by name, descending and without duplicates.\<close>

theorem relabel_refines:
  assumes "distinct (label_names ls)" and "relabel_ready cfg" and "rl_RegexCompiled cfg = Some r"
  shows "\<exists>out. relabel L ls cfg = Inr out \<and> map_option label_value out = relabel_spec L cfg r ls \<and>
     (\<forall>ls'. out = Some ls' \<longrightarrow> sorted_wrt (>) (label_names ls'))"
proof (intro exI conjI)
  show "relabel L ls cfg = Inr (map_option lb_labels (relabel_builder L cfg r ls))"
    using assms(3,2) by (rule relabel_builder_eq)
  show "map_option label_value (map_option lb_labels (relabel_builder L cfg r ls)) = relabel_spec L cfg r ls"
    using relabel_builder_get [OF assms(1,2), of L r] relabel_builder_wf [of L cfg r ls]
    by (cases "relabel_builder L cfg r ls") (simp_all add: lb_labels_value)
  show "\<forall>ls'. map_option lb_labels (relabel_builder L cfg r ls) = Some ls' \<longrightarrow> sorted_wrt (>) (label_names ls')"
    using relabel_builder_wf lb_labels_sorted by blast
qed

definition sample_relabel :: RelabelConfig where
  "sample_relabel = \<lparr>rl_SourceLabels = [''host''], rl_Separator = '';'', rl_Regex = ''(.*)'',
     rl_RegexCompiled = Some \<lparr>rx_find = (\<lambda>s. Some [Some s, Some s]), rx_names = ['''', '''']\<rparr>,
     rl_Modulus = 0, rl_TargetLabel = ''ident'', rl_Replacement = ''n-$1'', rl_Action = ''replace''\<rparr>"

definition sample_relabel_lib :: relabel_lib where
  "sample_relabel_lib = \<lparr>rb_names = \<lparr>pn_MetricNameRE = (\<lambda>s. True), pn_LabelNameRE = (\<lambda>s. True)\<rparr>,
     rb_md5 = (\<lambda>_. replicate 16 0)\<rparr>"

theorem relabel_refines_witness:
  "\<exists>ls. relabel sample_relabel_lib [mk_label ''host'' ''a''] sample_relabel = Inr (Some ls) \<and>
     label_value ls ''ident'' = Some ''n-a'' \<and> label_value ls ''host'' = Some ''a'' \<and> sorted_wrt (>) (label_names ls)"
proof -
  let ?r = "\<lparr>rx_find = (\<lambda>s. Some [Some s, Some s]), rx_names = ['''', '''']\<rparr>"
  have c: "rl_RegexCompiled sample_relabel = Some ?r" by (simp add: sample_relabel_def)
  have ready: "relabel_ready sample_relabel"
    by (simp add: relabel_ready_def sample_relabel_def relabel_actions_def)
  have e: "Expand ?r [Some ''a'', Some ''a''] ''n-$1'' = ''n-a''" "Expand ?r [Some ''a'', Some ''a''] ''ident'' = ''ident''"
    by (simp_all add: Expand.simps extract_ref_def word_char_def group_text_def digit_val_def)
  have s: "relabel_spec sample_relabel_lib sample_relabel ?r [mk_label ''host'' ''a''] =
      Some [''host'' \<mapsto> ''a'', ''ident'' \<mapsto> ''n-a'']"
    by (simp add: relabel_spec_def replace_spec_def sample_relabel_def sample_relabel_lib_def relabel_value_def getValue_def e
        fun_eq_iff)
  obtain out where "relabel sample_relabel_lib [mk_label ''host'' ''a''] sample_relabel = Inr out"
    "map_option label_value out = Some [''host'' \<mapsto> ''a'', ''ident'' \<mapsto> ''n-a'']"
    "\<forall>ls'. out = Some ls' \<longrightarrow> sorted_wrt (>) (label_names ls')"
    using relabel_refines [OF _ ready c, of "[mk_label ''host'' ''a'']" sample_relabel_lib] s by auto
  then show ?thesis by (auto simp: map_option_eq_Some)
qed

subsection \<open>A whole pipeline\<close>

lemma Process_total:
  assumes "distinct (label_names ls)" and "\<forall>cfg \<in> set cfgs. relabel_ready cfg"
  shows "\<exists>out. Process L ls cfgs = Inr out \<and> (\<forall>ls'. out = Some ls' \<longrightarrow> distinct (label_names ls'))"
  using assms
proof (induction cfgs arbitrary: ls)
  case (Cons cfg cfgs)
  then obtain r where r: "rl_RegexCompiled cfg = Some r" by (auto simp: relabel_ready_def)
  have eq: "relabel L ls cfg = Inr (map_option lb_labels (relabel_builder L cfg r ls))"
    using Cons.prems r by (simp add: relabel_builder_eq)
  show ?case
  proof (cases "relabel_builder L cfg r ls")
    case None
    then show ?thesis using eq by simp
  next
    case (Some m)
    have "distinct (label_names (lb_labels m))"
      using lb_labels_sorted [OF relabel_builder_wf [OF Some]] by (rule sorted_labels_distinct)
    then show ?thesis using Cons.IH [of "lb_labels m"] Cons.prems eq Some by simp
  qed
qed simp

lemma default_frame:
  "rl_Action (default_str rl_Regex rl_Regex_update d r) = rl_Action r"
  "rl_Action (default_str rl_Separator rl_Separator_update d r) = rl_Action r"
  "rl_Action (default_str rl_Replacement rl_Replacement_update d r) = rl_Action r"
  "rl_Action (default_str rl_Action rl_Action_update d r) = (if rl_Action r = '''' then d else rl_Action r)"
  "rl_Modulus (default_str rl_Regex rl_Regex_update d r) = rl_Modulus r"
  "rl_Modulus (default_str rl_Separator rl_Separator_update d r) = rl_Modulus r"
  "rl_Modulus (default_str rl_Replacement rl_Replacement_update d r) = rl_Modulus r"
  "rl_Modulus (default_str rl_Action rl_Action_update d r) = rl_Modulus r"
  "rl_RegexCompiled (default_str rl_Separator rl_Separator_update d r) = rl_RegexCompiled r"
  "rl_RegexCompiled (default_str rl_Replacement rl_Replacement_update d r) = rl_RegexCompiled r"
  "rl_RegexCompiled (default_str rl_Action rl_Action_update d r) = rl_RegexCompiled r"
  by (simp_all add: default_str_def)

lemma relabel_defaults_ready:
  assumes "relabel_defaults compile r = Some cfg" "rl_Action r \<in> set ('''' # relabel_actions)"
    "rl_Action r = ''hashmod'' \<longrightarrow> rl_Modulus r \<noteq> 0"
  shows "relabel_ready cfg"
proof -
  have act: "rl_Action cfg = (if rl_Action r = '''' then ''replace'' else rl_Action r)"
    and m: "rl_Modulus cfg = rl_Modulus r" and c: "rl_RegexCompiled cfg \<noteq> None"
    using assms(1) by (auto simp: relabel_defaults_def Let_def default_frame split: option.splits)
  have "''replace'' \<in> set relabel_actions" by (simp add: relabel_actions_def)
  then show ?thesis using assms(2,3) act m c by (auto simp: relabel_ready_def)
qed

text \<open>The sum of a digest keeps its last eight bytes only: the others are shifted out.\<close>

lemma sum64_tail:
  assumes "length hash = 16"
  shows "sum64 hash = sum64 (replicate 8 0 @ drop 8 hash)"
proof -
  let ?f = "\<lambda>(i, b :: 8 word) s. s OR push_bit ((16 - i - 1) * 8) (ucast b :: 64 word)"
  have z: "fold ?f (enumerate n bs) s = s" if "n + length bs \<le> 8" for n bs s
    using that
  proof (induction bs arbitrary: n s)
    case (Cons b bs)
    have "64 \<le> (16 - n - 1) * 8" using Cons.prems by simp
    then have "push_bit ((16 - n - 1) * 8) (ucast b :: 64 word) = 0"
      by (intro bit_word_eqI) (auto simp: bit_push_bit_iff)
    then show ?case using Cons by (simp del: One_nat_def)
  qed simp
  have e: "enumerate 0 hash = enumerate 0 (take 8 hash) @ enumerate 8 (drop 8 hash)"
    using assms enumerate_append_eq [of 0 "take 8 hash" "drop 8 hash"] by simp
  have "sum64 hash = fold ?f (enumerate 8 (drop 8 hash)) 0"
    unfolding sum64_def e using z [of 0 "take 8 hash" 0] by simp
  moreover have "enumerate 0 (replicate 8 0 @ drop 8 hash) = enumerate 0 (replicate 8 (0::8 word)) @ enumerate 8 (drop 8 hash)"
    using enumerate_append_eq [of 0 "replicate 8 (0::8 word)" "drop 8 hash"] by simp
  ultimately show ?thesis unfolding sum64_def using z [of 0 "replicate 8 0" 0] by simp
qed

end
