(* ===== verification/Write_Queue.thy ===== *)
theory Write_Queue
  imports Relabel
begin

text \<open>
  The bounded queues of the push gateway (\<open>pushgw/writer/queue.go\<close>): a list whose front is the
  head, filled at the front and emptied at the back. The queues hold pointers to series only, so
  the type assertion of \<open>PopBack\<close> always succeeds. \<open>bounded_fifo\<close> is the contract of such a queue;
  its clients get the order and the bound of any sequence of operations. The length is checked
  under one lock and the element inserted under another, so the last part models concurrent
  producers by a step relation and bounds how far the limit can be exceeded.
\<close>

subsection \<open>Operations\<close>

definition SafeList_PushFront :: "'a \<Rightarrow> 'a list \<Rightarrow> 'a list" where
  "SafeList_PushFront v l = v # l"

definition SafeList_PushFrontBatch :: "'a list \<Rightarrow> 'a list \<Rightarrow> 'a list" where
  "SafeList_PushFrontBatch vs l = fold SafeList_PushFront vs l"

fun pop_loop :: "nat \<Rightarrow> 'a list \<Rightarrow> 'a list \<Rightarrow> 'a list \<times> 'a list" where
  "pop_loop 0 l items = (items, l)"
| "pop_loop (Suc n) l items = pop_loop n (butlast l) (items @ [last l])"

text \<open>A negative count makes the allocation of the result panic.\<close>

definition SafeList_PopBack :: "int \<Rightarrow> 'a list \<Rightarrow> ('a list \<times> 'a list) res" where
  "SafeList_PopBack m l =
     (let count = int (length l) in
      if count = 0 then Inr ([], l)
      else let count = (if count > m then m else count) in
           if count < 0 then Inl Makeslice_out_of_range else Inr (pop_loop (nat count) l []))"

record 'a SafeListLimited =
  sl_maxSize :: int
  sl_L :: "'a list"

definition NewSafeListLimited :: "int \<Rightarrow> 'a SafeListLimited" where
  "NewSafeListLimited maxSize = \<lparr>sl_maxSize = maxSize, sl_L = []\<rparr>"

definition sll_Len :: "'a SafeListLimited \<Rightarrow> int" where
  "sll_Len q = int (length (sl_L q))"

definition sll_PopBack :: "int \<Rightarrow> 'a SafeListLimited \<Rightarrow> ('a list \<times> 'a SafeListLimited) res" where
  "sll_PopBack m q = res_bind (SafeList_PopBack m (sl_L q)) (\<lambda>(items, l). Inr (items, q\<lparr>sl_L := l\<rparr>))"

definition sll_PushFront :: "'a \<Rightarrow> 'a SafeListLimited \<Rightarrow> 'a SafeListLimited \<times> bool" where
  "sll_PushFront v q =
     (if sll_Len q \<ge> sl_maxSize q then (q, False) else (q\<lparr>sl_L := SafeList_PushFront v (sl_L q)\<rparr>, True))"

definition sll_PushFrontBatch :: "'a list \<Rightarrow> 'a SafeListLimited \<Rightarrow> 'a SafeListLimited \<times> bool" where
  "sll_PushFrontBatch vs q =
     (if sll_Len q \<ge> sl_maxSize q then (q, False) else (q\<lparr>sl_L := SafeList_PushFrontBatch vs (sl_L q)\<rparr>, True))"

definition sll_RemoveAll :: "'a SafeListLimited \<Rightarrow> 'a SafeListLimited" where
  "sll_RemoveAll q = q\<lparr>sl_L := []\<rparr>"

text \<open>The queue from its oldest to its newest element.\<close>

definition oldest_first :: "'a SafeListLimited \<Rightarrow> 'a list" where
  "oldest_first q = rev (sl_L q)"

lemma pop_loop_take:
  "n \<le> length l \<Longrightarrow> pop_loop n l items = (items @ take n (rev l), rev (drop n (rev l)))"
proof (induction n l items rule: pop_loop.induct)
  case (2 n l items)
  then have l: "l \<noteq> []" by auto
  then obtain l' x where "l = l' @ [x]" by (metis rev_exhaust)
  then show ?case using 2 by simp
qed simp

lemma SafeList_PopBack_take:
  assumes "0 \<le> m"
  shows "SafeList_PopBack m l = Inr (take (nat m) (rev l), rev (drop (nat m) (rev l)))"
  using assms pop_loop_take [of "nat (if int (length l) > m then m else int (length l))" l "[]"]
  by (auto simp: SafeList_PopBack_def Let_def)

lemma sll_PopBack_take:
  "0 \<le> m \<Longrightarrow> sll_PopBack m q = Inr (take (nat m) (oldest_first q), q\<lparr>sl_L := rev (drop (nat m) (oldest_first q))\<rparr>)"
  by (simp add: sll_PopBack_def SafeList_PopBack_take oldest_first_def)

lemma SafeList_PushFrontBatch_rev: "SafeList_PushFrontBatch vs l = rev vs @ l"
  unfolding SafeList_PushFrontBatch_def by (induction vs arbitrary: l) (simp_all add: SafeList_PushFront_def)

subsection \<open>The contract\<close>

datatype 'a qop = Enq 'a | Deq nat

locale bounded_fifo =
  fixes content :: "'q \<Rightarrow> 'a list"
    and cap :: "'q \<Rightarrow> nat"
    and push :: "'a \<Rightarrow> 'q \<Rightarrow> 'q \<times> bool"
    and pop :: "nat \<Rightarrow> 'q \<Rightarrow> 'a list \<times> 'q"
  assumes push_room: "length (content q) < cap q \<Longrightarrow> snd (push v q) \<and> content (fst (push v q)) = content q @ [v]"
    and push_full: "cap q \<le> length (content q) \<Longrightarrow> push v q = (q, False)"
    and pop_items: "fst (pop n q) = take n (content q)"
    and pop_rest: "content (snd (pop n q)) = drop n (content q)"
    and cap_push: "cap (fst (push v q)) = cap q"
    and cap_pop: "cap (snd (pop n q)) = cap q"
begin

text \<open>A sequence of operations, with the elements that were accepted and those that were taken.\<close>

fun qrun :: "'a qop list \<Rightarrow> 'q \<Rightarrow> 'q \<times> 'a list \<times> 'a list" where
  "qrun [] q = (q, [], [])"
| "qrun (Enq v # ops) q = (case push v q of (q1, ok) \<Rightarrow>
     case qrun ops q1 of (q2, acc, out) \<Rightarrow> (q2, (if ok then v # acc else acc), out))"
| "qrun (Deq n # ops) q = (case pop n q of (xs, q1) \<Rightarrow>
     case qrun ops q1 of (q2, acc, out) \<Rightarrow> (q2, acc, xs @ out))"

lemma push_content: "content (fst (push v q)) = content q @ (if snd (push v q) then [v] else [])"
  using push_room [of q v] push_full [of q v] by (cases "length (content q) < cap q") auto

lemma qrun_fifo: "qrun ops q = (q', acc, out) \<Longrightarrow> content q @ acc = out @ content q'"
proof (induction ops q arbitrary: q' acc out rule: qrun.induct)
  case (2 v ops q)
  obtain q1 ok where p: "push v q = (q1, ok)" by fastforce
  obtain q2 acc2 out2 where r: "qrun ops q1 = (q2, acc2, out2)" by (cases "qrun ops q1")
  have "content q1 @ acc2 = out2 @ content q2" using 2(1) [OF p [symmetric] r] .
  then show ?case using 2(2) p r push_content [of v q] by auto
next
  case (3 n ops q)
  obtain xs q1 where p: "pop n q = (xs, q1)" by fastforce
  obtain q2 acc2 out2 where r: "qrun ops q1 = (q2, acc2, out2)" by (cases "qrun ops q1")
  have "content q1 @ acc2 = out2 @ content q2" using 3(1) [OF p [symmetric] r] .
  then show ?case using 3(2) p r pop_items [of n q] pop_rest [of n q]
    by auto (metis append.assoc append_take_drop_id)
qed simp

lemma qrun_bound: "qrun ops q = (q', acc, out) \<Longrightarrow> length (content q) \<le> cap q \<Longrightarrow> length (content q') \<le> cap q"
proof (induction ops q arbitrary: q' acc out rule: qrun.induct)
  case (2 v ops q)
  obtain q1 ok where p: "push v q = (q1, ok)" by fastforce
  obtain q2 acc2 out2 where r: "qrun ops q1 = (q2, acc2, out2)" by (cases "qrun ops q1")
  have c: "cap q1 = cap q" using cap_push [of v q] p by simp
  have "length (content q1) \<le> cap q"
    using p push_room [of q v] push_full [of q v] 2(3) by (cases "length (content q) < cap q") auto
  then show ?case using 2(1) [OF p [symmetric] r] 2(2) p r c by simp
next
  case (3 n ops q)
  obtain xs q1 where p: "pop n q = (xs, q1)" by fastforce
  obtain q2 acc2 out2 where r: "qrun ops q1 = (q2, acc2, out2)" by (cases "qrun ops q1")
  have "cap q1 = cap q" "length (content q1) \<le> cap q"
    using cap_pop [of n q] pop_rest [of n q] p 3(3) by auto
  then show ?case using 3(1) [OF p [symmetric] r] 3(2) p r by simp
qed simp

text \<open>Enough rounds of taking \<open>n\<close> elements empty the queue.\<close>

lemma qrun_drain:
  "0 < n \<Longrightarrow> length (content q) \<le> k * n \<Longrightarrow> qrun (replicate k (Deq n)) q = (q', acc, out) \<Longrightarrow>
   content q' = [] \<and> out = content q"
proof (induction k arbitrary: q q' acc out)
  case (Suc k)
  obtain xs q1 where p: "pop n q = (xs, q1)" by fastforce
  obtain q2 acc2 out2 where r: "qrun (replicate k (Deq n)) q1 = (q2, acc2, out2)" by (cases "qrun (replicate k (Deq n)) q1")
  have c: "content q1 = drop n (content q)" "xs = take n (content q)" using p pop_items [of n q] pop_rest [of n q] by auto
  then have "length (content q1) \<le> k * n" using Suc.prems(2) by simp
  then show ?case using Suc.IH [OF Suc.prems(1) _ r] Suc.prems(3) p r c by simp
qed simp

end

interpretation sl: bounded_fifo oldest_first "\<lambda>q. nat (sl_maxSize q)" sll_PushFront "\<lambda>n q. projr (sll_PopBack (int n) q)"
  by unfold_locales
    (auto simp: oldest_first_def sll_PushFront_def sll_Len_def SafeList_PushFront_def sll_PopBack_take)

text \<open>A batch is accepted whole as soon as there is room for one element.\<close>

lemma batch_over_limit:
  "snd (sll_PushFrontBatch [1, 2, 3 :: nat] (NewSafeListLimited 1)) \<and>
   sll_Len (fst (sll_PushFrontBatch [1, 2, 3 :: nat] (NewSafeListLimited 1))) = 3"
  by (simp add: sll_PushFrontBatch_def NewSafeListLimited_def sll_Len_def SafeList_PushFrontBatch_rev)

subsection \<open>Concurrent producers\<close>

text \<open>
  \<open>n\<close> producers share a queue. \<open>PushFront\<close> reads the length under the read lock and inserts under
  the write lock; \<open>cq_checked\<close> holds the producers between the two, with their values. \<open>cq_pushed\<close>
  and \<open>cq_popped\<close> record the order of insertions and removals.
\<close>

record 'a shared_queue =
  cq_queue :: "'a SafeListLimited"
  cq_checked :: "(nat \<times> 'a) list"
  cq_pushed :: "'a list"
  cq_popped :: "'a list"

inductive queue_step :: "nat \<Rightarrow> 'a shared_queue \<Rightarrow> 'a shared_queue \<Rightarrow> bool" for n where
  check: "p < n \<Longrightarrow> p \<notin> fst ` set (cq_checked s) \<Longrightarrow> \<not> sll_Len (cq_queue s) \<ge> sl_maxSize (cq_queue s) \<Longrightarrow>
    queue_step n s (s\<lparr>cq_checked := (p, v) # cq_checked s\<rparr>)"
| insert_front: "(p, v) \<in> set (cq_checked s) \<Longrightarrow>
    queue_step n s (s\<lparr>cq_queue := (cq_queue s)\<lparr>sl_L := SafeList_PushFront v (sl_L (cq_queue s))\<rparr>,
      cq_checked := remove1 (p, v) (cq_checked s), cq_pushed := cq_pushed s @ [v]\<rparr>)"
| pop: "sll_PopBack m (cq_queue s) = Inr (items, q) \<Longrightarrow> 0 \<le> m \<Longrightarrow>
    queue_step n s (s\<lparr>cq_queue := q, cq_popped := cq_popped s @ items\<rparr>)"

definition queue_start :: "int \<Rightarrow> 'a shared_queue" where
  "queue_start m = \<lparr>cq_queue = NewSafeListLimited m, cq_checked = [], cq_pushed = [], cq_popped = []\<rparr>"

definition queue_reachable :: "nat \<Rightarrow> int \<Rightarrow> 'a shared_queue \<Rightarrow> bool" where
  "queue_reachable n m s \<longleftrightarrow> (queue_step n)\<^sup>*\<^sup>* (queue_start m) s"

definition queue_inv :: "nat \<Rightarrow> int \<Rightarrow> 'a shared_queue \<Rightarrow> bool" where
  "queue_inv n m s \<longleftrightarrow> sl_maxSize (cq_queue s) = m \<and>
     distinct (map fst (cq_checked s)) \<and> fst ` set (cq_checked s) \<subseteq> {..<n} \<and>
     sll_Len (cq_queue s) + int (length (cq_checked s)) \<le> max 0 (m + int n - 1) \<and>
     cq_pushed s = cq_popped s @ oldest_first (cq_queue s)"

lemma checked_bound:
  assumes "distinct (map fst cs)" "fst ` set cs \<subseteq> {..<n}"
  shows "length cs \<le> n"
proof -
  have "length cs = card (fst ` set cs)" using assms(1) distinct_card [of "map fst cs"] by simp
  also have "\<dots> \<le> card {..<n}" using assms(2) by (intro card_mono) auto
  finally show ?thesis by simp
qed

lemma queue_step_inv:
  assumes "queue_step n s t" "queue_inv n m s"
  shows "queue_inv n m t"
  using assms(1)
proof (cases rule: queue_step.cases)
  case (check p v)
  have "distinct (map fst ((p, v) # cq_checked s))" "fst ` set ((p, v) # cq_checked s) \<subseteq> {..<n}"
    using check assms(2) by (auto simp: queue_inv_def)
  then have "length ((p, v) # cq_checked s) \<le> n" by (rule checked_bound)
  then show ?thesis using check assms(2) by (auto simp: queue_inv_def)
next
  case (insert_front p v)
  have l: "Suc (length (remove1 (p, v) (cq_checked s))) = length (cq_checked s)"
    using insert_front(2) length_pos_if_in_set [OF insert_front(2)] by (simp add: length_remove1)
  have "distinct (map fst (remove1 (p, v) (cq_checked s)))"
    using assms(2) by (auto simp: queue_inv_def distinct_map distinct_remove1 inj_on_def dest: notin_set_remove1)
  moreover have "fst ` set (remove1 (p, v) (cq_checked s)) \<subseteq> {..<n}"
    using assms(2) set_remove1_subset by (fastforce simp: queue_inv_def)
  ultimately show ?thesis using l assms(2) unfolding insert_front(1)
    by (auto simp: queue_inv_def sll_Len_def SafeList_PushFront_def oldest_first_def)
next
  case (pop k items q)
  then show ?thesis using assms(2)
    by (auto simp: queue_inv_def sll_PopBack_take sll_Len_def oldest_first_def)
qed

text \<open>C35. With \<open>n\<close> concurrent producers the queue exceeds its limit by at most \<open>n - 1\<close> elements,
  whatever the interleaving of checks, insertions and removals; and the elements leave it in the
  order in which they were inserted, none lost and none twice.\<close>

theorem queue_concurrent:
  assumes "queue_reachable n m s" and "0 < n" and "0 \<le> m"
  shows "sll_Len (cq_queue s) \<le> m + int n - 1 \<and> cq_pushed s = cq_popped s @ oldest_first (cq_queue s)"
proof -
  have "(queue_step n)\<^sup>*\<^sup>* (queue_start m) s" using assms(1) by (simp add: queue_reachable_def)
  then have "queue_inv n m s"
  proof (induction rule: rtranclp_induct)
    case base
    then show ?case
      by (simp add: queue_inv_def queue_start_def NewSafeListLimited_def sll_Len_def oldest_first_def)
  next
    case (step t u)
    then show ?case by (metis queue_step_inv)
  qed
  then show ?thesis using assms(2,3) by (simp add: queue_inv_def)
qed

text \<open>The bound is reached: two producers put two elements into a queue of size one.\<close>

definition two_in_one :: "nat shared_queue" where
  "two_in_one = \<lparr>cq_queue = \<lparr>sl_maxSize = 1, sl_L = [8, 7]\<rparr>, cq_checked = [], cq_pushed = [7, 8], cq_popped = []\<rparr>"

lemma two_in_one_reachable: "queue_reachable 2 1 two_in_one"
proof -
  let ?s = "\<lambda>l c p. \<lparr>cq_queue = \<lparr>sl_maxSize = 1, sl_L = l\<rparr>, cq_checked = c, cq_pushed = p, cq_popped = []\<rparr> :: nat shared_queue"
  have 1: "queue_step 2 (queue_start 1) (?s [] [(0, 7)] [])"
    using queue_step.check [of 0 2 "queue_start 1" 7] by (simp add: queue_start_def NewSafeListLimited_def sll_Len_def)
  have 2: "queue_step 2 (?s [] [(0, 7)] []) (?s [] [(1, 8), (0, 7)] [])"
    using queue_step.check [of 1 2 "?s [] [(0, 7)] []" 8] by (simp add: sll_Len_def)
  have 3: "queue_step 2 (?s [] [(1, 8), (0, 7)] []) (?s [7] [(1, 8)] [7])"
    using queue_step.insert_front [of 0 7 "?s [] [(1, 8), (0, 7)] []" 2] by (simp add: SafeList_PushFront_def)
  have 4: "queue_step 2 (?s [7] [(1, 8)] [7]) two_in_one"
    using queue_step.insert_front [of 1 8 "?s [7] [(1, 8)] [7]" 2] by (simp add: SafeList_PushFront_def two_in_one_def)
  show ?thesis unfolding queue_reachable_def
    by (rule converse_rtranclp_into_rtranclp, rule 1, rule converse_rtranclp_into_rtranclp, rule 2,
        rule converse_rtranclp_into_rtranclp, rule 3, rule r_into_rtranclp, rule 4)
qed

theorem queue_concurrent_witness:
  "sll_Len (cq_queue two_in_one) \<le> 1 + int 2 - 1 \<and>
   cq_pushed two_in_one = cq_popped two_in_one @ oldest_first (cq_queue two_in_one) \<and> sll_Len (cq_queue two_in_one) = 2"
  using queue_concurrent [OF two_in_one_reachable] by (simp add: two_in_one_def sll_Len_def)

end
