(* ===== verification/Writers.thy ===== *)
theory Writers
  imports Write_Queue
begin

text \<open>
  The writers of the push gateway (\<open>pushgw/writer/writer.go\<close>): one bounded queue per key, a
  consumer per queue that takes batches and starts a goroutine per backend on each batch, and the
  removal of queues that were idle for an hour. The state is the table of queues and backends and
  the goroutines in flight. HTTP, protocol buffers and compression are not modelled: a write yields
  the request it posts, and the environment decides whether the post fails. The number of slots of
  the semaphore is not modelled either: a goroutine that waits for one is in flight. The
  client handle of a backend and its transport settings are left out. \<open>wrun\<close> runs a sequence of
  pushes, consumer rounds, ends of goroutines and removals, each as one step, and logs what happened
  to each series. Goroutines of different backends share the series of a batch: when the server's
  time is forced they all write the time stamp of a first sample, so a request may carry the time
  another backend's goroutine has written; the properties leave these time stamps open.
\<close>

subsection \<open>Configuration\<close>

record WriterOptions =
  wo_Url :: string
  wo_BasicAuthUser :: string
  wo_BasicAuthPass :: string
  wo_Headers :: "string list"
  wo_WriteRelabels :: "RelabelConfig list"

record Pushgw =
  pg_BusiGroupLabelKey :: string
  pg_WriteConcurrency :: int
  pg_LabelRewrite :: bool
  pg_ForceUseServerTS :: bool
  pg_DebugSample :: "(string, string) go_map"
  pg_QueueMaxSize :: int
  pg_QueuePopSize :: int
  pg_Writers :: "WriterOptions list"

fun map_all :: "('a \<Rightarrow> 'b option) \<Rightarrow> 'a list \<Rightarrow> 'b list option" where
  "map_all f [] = Some []"
| "map_all f (x # xs) = (case f x of None \<Rightarrow> None | Some y \<Rightarrow> map_option ((#) y) (map_all f xs))"

definition writer_defaults :: "(string \<Rightarrow> regexp option) \<Rightarrow> WriterOptions \<Rightarrow> WriterOptions option" where
  "writer_defaults compile w =
     map_option (\<lambda>rs. w\<lparr>wo_WriteRelabels := rs\<rparr>) (map_all (relabel_defaults compile) (wo_WriteRelabels w))"

definition Pushgw_PreCheck :: "(string \<Rightarrow> regexp option) \<Rightarrow> Pushgw \<Rightarrow> Pushgw option" where
  "Pushgw_PreCheck compile p =
     (let p1 = (if pg_BusiGroupLabelKey p = '''' then p\<lparr>pg_BusiGroupLabelKey := ''busigroup''\<rparr> else p);
          p2 = (if pg_QueueMaxSize p1 \<le> 0 then p1\<lparr>pg_QueueMaxSize := 10000000\<rparr> else p1);
          p3 = (if pg_QueuePopSize p2 \<le> 0 then p2\<lparr>pg_QueuePopSize := 1000\<rparr> else p2);
          p4 = (if pg_WriteConcurrency p3 \<le> 0 then p3\<lparr>pg_WriteConcurrency := 5000\<rparr> else p3)
      in map_option (\<lambda>ws. p4\<lparr>pg_Writers := ws\<rparr>) (map_all (writer_defaults compile) (pg_Writers p4)))"

subsection \<open>One backend\<close>

record WriterType =
  wt_Opts :: WriterOptions
  wt_ForceUseServerTS :: bool

definition keeps :: "Label list option \<Rightarrow> bool" where
  "keeps lbls = (case lbls of None \<Rightarrow> False | Some ls \<Rightarrow> length ls \<noteq> 0)"

fun writeRelabel :: "relabel_lib \<Rightarrow> RelabelConfig list \<Rightarrow> TimeSeries list \<Rightarrow> TimeSeries list res" where
  "writeRelabel L cfgs [] = Inr []"
| "writeRelabel L cfgs (item # items) =
     res_bind (Process L (ts_Labels item) cfgs) (\<lambda>lbls.
     res_bind (writeRelabel L cfgs items) (\<lambda>ritems.
     Inr (if \<not> keeps lbls then ritems else item # ritems)))"

definition server_ts :: "int \<Rightarrow> TimeSeries \<Rightarrow> TimeSeries" where
  "server_ts ts item = (case ts_Samples item of [] \<Rightarrow> item
     | s # ss \<Rightarrow> item\<lparr>ts_Samples := s\<lparr>sm_Timestamp := ts\<rparr> # ss\<rparr>)"

datatype header_op = Header_Add string string | Header_Set string string

record post_request =
  pr_Url :: string
  pr_headers :: "header_op list"
  pr_basic :: "(string \<times> string) option"
  pr_Host :: "string option"
  pr_series :: "TimeSeries list"

fun header_pairs :: "string list \<Rightarrow> (string \<times> string) list" where
  "header_pairs (k # v # hs) = (k, v) # header_pairs hs"
| "header_pairs hs = []"

definition extra_headers :: "WriterOptions \<Rightarrow> (string \<times> string) list" where
  "extra_headers opt = (let headerCount = length (wo_Headers opt) in
     if headerCount > 0 \<and> headerCount mod 2 = 0 then header_pairs (wo_Headers opt) else [])"

definition Post :: "WriterType \<Rightarrow> TimeSeries list \<Rightarrow> post_request" where
  "Post w items = \<lparr>pr_Url = wo_Url (wt_Opts w),
     pr_headers = [Header_Add ''Content-Encoding'' ''snappy'', Header_Set ''Content-Type'' ''application/x-protobuf'',
       Header_Set ''User-Agent'' ''n9e'', Header_Set ''X-Prometheus-Remote-Write-Version'' ''0.1.0''] @
       map (\<lambda>(k, v). Header_Add k v) (extra_headers (wt_Opts w)),
     pr_basic = (if wo_BasicAuthUser (wt_Opts w) \<noteq> '''' then Some (wo_BasicAuthUser (wt_Opts w), wo_BasicAuthPass (wt_Opts w)) else None),
     pr_Host = fold (\<lambda>(k, v) h. if k = ''Host'' then Some v else h) (extra_headers (wt_Opts w)) None,
     pr_series = items\<rparr>"

definition Write :: "relabel_lib \<Rightarrow> int \<Rightarrow> WriterType \<Rightarrow> TimeSeries list \<Rightarrow> post_request option res" where
  "Write L nowMs w items =
     (if length items = 0 then Inr None
      else res_bind (writeRelabel L (wo_WriteRelabels (wt_Opts w)) items) (\<lambda>items.
        if length items = 0 then Inr None
        else let items = (if wt_ForceUseServerTS w then map (server_ts nowMs) items else items)
             in Inr (Some (Post w items))))"

subsection \<open>Queues and backends\<close>

record IdentQueue =
  iq_list :: "TimeSeries SafeListLimited"
  iq_ts :: int

record Writers =
  wr_backends :: "(string, WriterType) go_map"
  wr_queues :: "(string, IdentQueue) go_map"
  wr_QueueMaxSize :: int
  wr_QueuePopSize :: int

definition Put :: "string \<Rightarrow> WriterType \<Rightarrow> Writers \<Rightarrow> Writers" where
  "Put name writer ws = ws\<lparr>wr_backends := go_set name writer (wr_backends ws)\<rparr>"

text \<open>\<open>ok\<close> tells whether the TLS files load and the client can be made; the first failure ends the
  initialisation, and its error is discarded.\<close>

fun writers_Init :: "(WriterOptions \<Rightarrow> bool) \<Rightarrow> bool \<Rightarrow> WriterOptions list \<Rightarrow> Writers \<Rightarrow> Writers" where
  "writers_Init ok force [] ws = ws"
| "writers_Init ok force (opt # opts) ws =
     (if \<not> ok opt then ws
      else writers_Init ok force opts (Put (wo_Url opt) \<lparr>wt_Opts = opt, wt_ForceUseServerTS = force\<rparr> ws))"

definition NewWriters :: "(WriterOptions \<Rightarrow> bool) \<Rightarrow> Pushgw \<Rightarrow> Writers" where
  "NewWriters ok p = writers_Init ok (pg_ForceUseServerTS p) (pg_Writers p)
     \<lparr>wr_backends = [], wr_queues = [], wr_QueueMaxSize = pg_QueueMaxSize p, wr_QueuePopSize = pg_QueuePopSize p\<rparr>"

definition ident_queue :: "Writers \<Rightarrow> string \<Rightarrow> IdentQueue" where
  "ident_queue ws ident = (case go_get (wr_queues ws) ident of Some q \<Rightarrow> q
     | None \<Rightarrow> \<lparr>iq_list = NewSafeListLimited (wr_QueueMaxSize ws), iq_ts = 0\<rparr>)"

definition PushSample :: "int \<Rightarrow> string \<Rightarrow> TimeSeries \<Rightarrow> Writers \<Rightarrow> Writers \<times> bool" where
  "PushSample now ident v ws =
     (let identQueue = (ident_queue ws ident)\<lparr>iq_ts := now\<rparr>;
          (l, succ) = sll_PushFront v (iq_list identQueue)
      in (ws\<lparr>wr_queues := go_set ident (identQueue\<lparr>iq_list := l\<rparr>) (wr_queues ws)\<rparr>, succ))"

definition queue_expired :: "int \<Rightarrow> IdentQueue \<Rightarrow> bool" where
  "queue_expired now q \<longleftrightarrow> now - iq_ts q > 3600"

definition clean_queue :: "int \<Rightarrow> string \<Rightarrow> Writers \<Rightarrow> Writers" where
  "clean_queue now ident ws =
     (case go_get (wr_queues ws) ident of None \<Rightarrow> ws
      | Some q \<Rightarrow> if queue_expired now q then ws\<lparr>wr_queues := go_del ident (wr_queues ws)\<rparr> else ws)"

definition CleanExpQueue :: "string range_order \<Rightarrow> int \<Rightarrow> Writers \<Rightarrow> Writers" where
  "CleanExpQueue ord now ws = fold (clean_queue now) (ord (go_keys (wr_queues ws))) ws"

text \<open>One round of the consumer of a queue: it takes a batch and starts a goroutine for every backend,
  each on the whole batch. The result is the batch and the goroutines, as pairs of the backend's key
  and the series it is to write.\<close>

definition consume_round :: "(string \<times> WriterType) range_order \<Rightarrow> string \<Rightarrow> Writers
    \<Rightarrow> (Writers \<times> TimeSeries list \<times> (string \<times> TimeSeries list) list) res" where
  "consume_round ord ident ws =
     (case go_get (wr_queues ws) ident of None \<Rightarrow> Inr (ws, [], [])
      | Some q \<Rightarrow>
         res_bind (sll_PopBack (wr_QueuePopSize ws) (iq_list q)) (\<lambda>(series, l).
         let ws1 = ws\<lparr>wr_queues := go_set ident (q\<lparr>iq_list := l\<rparr>) (wr_queues ws)\<rparr> in
         if length series = 0 then Inr (ws1, [], [])
         else Inr (ws1, series, map (\<lambda>(key, w). (key, series)) (ord (wr_backends ws)))))"

text \<open>A goroutine that ends: what \<open>Write\<close> of its backend posts, \<open>None\<close> when there is nothing to post.
  Go reads the map of backends when the goroutine starts; the map does not change after \<open>Init\<close>.\<close>

definition write_go :: "relabel_lib \<Rightarrow> int \<Rightarrow> Writers \<Rightarrow> string \<times> TimeSeries list \<Rightarrow> post_request option res" where
  "write_go L nowMs ws = (\<lambda>(key, series). case go_get (wr_backends ws) key of None \<Rightarrow> Inr None
     | Some w \<Rightarrow> Write L nowMs w series)"

subsection \<open>The requests of a batch\<close>

definition writer_ready :: "WriterType \<Rightarrow> bool" where
  "writer_ready w \<longleftrightarrow> (\<forall>cfg \<in> set (wo_WriteRelabels (wt_Opts w)). relabel_ready cfg)"

definition kept_series :: "relabel_lib \<Rightarrow> WriterType \<Rightarrow> TimeSeries list \<Rightarrow> TimeSeries list" where
  "kept_series L w xs = filter (\<lambda>s. \<exists>ls. Process L (ts_Labels s) (wo_WriteRelabels (wt_Opts w)) = Inr (Some ls) \<and> ls \<noteq> []) xs"

lemma Process_returns: "\<forall>cfg \<in> set cfgs. relabel_ready cfg \<Longrightarrow> \<exists>out. Process L ls cfgs = Inr out"
proof (induction cfgs arbitrary: ls)
  case (Cons cfg cfgs)
  then obtain r where "rl_RegexCompiled cfg = Some r" by (auto simp: relabel_ready_def)
  then have eq: "relabel L ls cfg = Inr (map_option lb_labels (relabel_builder L cfg r ls))"
    using Cons.prems by (simp add: relabel_builder_eq)
  show ?case using Cons eq by (cases "relabel_builder L cfg r ls") auto
qed simp

lemma writeRelabel_filter:
  assumes "\<forall>cfg \<in> set cfgs. relabel_ready cfg"
  shows "writeRelabel L cfgs xs = Inr (filter (\<lambda>s. \<exists>ls. Process L (ts_Labels s) cfgs = Inr (Some ls) \<and> ls \<noteq> []) xs)"
proof (induction xs)
  case (Cons x xs)
  obtain out where "Process L (ts_Labels x) cfgs = Inr out" using Process_returns [OF assms] by blast
  then show ?case using Cons by (auto simp: keeps_def split: option.splits)
qed simp

text \<open>A series is sent with the labels it came with: what relabelling computes decides whether it
  is sent and is then thrown away.\<close>

lemma relabelled_labels_discarded: "writeRelabel L cfgs xs = Inr ys \<Longrightarrow> subseq ys xs"
  by (induction L cfgs xs arbitrary: ys rule: writeRelabel.induct)
    (auto simp: res_bind_Inr_iff split: if_splits)

lemma Write_kept:
  assumes "writer_ready w"
  shows "Write L nowMs w xs = Inr (if kept_series L w xs = [] then None
     else Some (Post w (if wt_ForceUseServerTS w then map (server_ts nowMs) (kept_series L w xs) else kept_series L w xs)))"
  using assms writeRelabel_filter [of "wo_WriteRelabels (wt_Opts w)" L xs]
  by (auto simp: Write_def kept_series_def writer_ready_def Let_def)

subsection \<open>Runs\<close>

text \<open>
  A run of the gateway: pushes, consumer rounds, ends of goroutines and removals of idle queues, in
  any order. A goroutine that was started, or waits for a slot of the semaphore, is in flight; it
  may end at any time, before or after those that were started earlier, and its request may fail, in
  which case the series in it are lost for that backend.
\<close>

record gateway =
  gw_writers :: Writers
  gw_flight :: "(string \<times> TimeSeries list) list"

datatype writer_op = Push string TimeSeries int | Consume string | End nat int bool | Clean int

datatype writer_event =
    Accepted string TimeSeries
  | Refused string TimeSeries
  | Taken string "TimeSeries list"
  | Ended string "TimeSeries list" "post_request option" bool
  | Expired string "TimeSeries list"

definition pending :: "string \<Rightarrow> Writers \<Rightarrow> TimeSeries list" where
  "pending ident ws = (case go_get (wr_queues ws) ident of None \<Rightarrow> [] | Some q \<Rightarrow> oldest_first (iq_list q))"

definition expired_events :: "string range_order \<Rightarrow> int \<Rightarrow> Writers \<Rightarrow> writer_event list" where
  "expired_events ord now ws = map (\<lambda>k. Expired k (pending k ws))
     (filter (\<lambda>k. queue_expired now (ident_queue ws k)) (ord (go_keys (wr_queues ws))))"

record writer_orders =
  wor_backends :: "(string \<times> WriterType) range_order"
  wor_queues :: "string range_order"

fun wstep :: "relabel_lib \<Rightarrow> writer_orders \<Rightarrow> writer_op \<Rightarrow> gateway \<Rightarrow> (gateway \<times> writer_event list) res" where
  "wstep L ords (Push ident v now) g =
     (case PushSample now ident v (gw_writers g) of (ws1, ok) \<Rightarrow>
        Inr (g\<lparr>gw_writers := ws1\<rparr>, [if ok then Accepted ident v else Refused ident v]))"
| "wstep L ords (Consume ident) g =
     res_bind (consume_round (wor_backends ords) ident (gw_writers g)) (\<lambda>(ws1, xs, gos).
       Inr (g\<lparr>gw_writers := ws1, gw_flight := gw_flight g @ gos\<rparr>, [Taken ident xs]))"
| "wstep L ords (End i nowMs ok) g =
     (if i < length (gw_flight g)
      then res_bind (write_go L nowMs (gw_writers g) (gw_flight g ! i)) (\<lambda>req.
        Inr (g\<lparr>gw_flight := take i (gw_flight g) @ drop (Suc i) (gw_flight g)\<rparr>,
             [Ended (fst (gw_flight g ! i)) (snd (gw_flight g ! i)) req ok]))
      else Inr (g, []))"
| "wstep L ords (Clean now) g =
     Inr (g\<lparr>gw_writers := CleanExpQueue (wor_queues ords) now (gw_writers g)\<rparr>,
          expired_events (wor_queues ords) now (gw_writers g))"

fun wrun :: "relabel_lib \<Rightarrow> writer_orders \<Rightarrow> writer_op list \<Rightarrow> gateway \<Rightarrow> (gateway \<times> writer_event list) res" where
  "wrun L ords [] g = Inr (g, [])"
| "wrun L ords (op # ops) g =
     res_bind (wstep L ords op g) (\<lambda>(g1, es1). res_bind (wrun L ords ops g1) (\<lambda>(g2, es2). Inr (g2, es1 @ es2)))"

text \<open>The series a key accepted, and those that left its queue.\<close>

fun accepted_by :: "string \<Rightarrow> writer_event \<Rightarrow> TimeSeries list" where
  "accepted_by i (Accepted k v) = (if k = i then [v] else [])"
| "accepted_by i _ = []"

fun left_by :: "string \<Rightarrow> writer_event \<Rightarrow> TimeSeries list" where
  "left_by i (Taken k xs) = (if k = i then xs else [])"
| "left_by i (Expired k xs) = (if k = i then xs else [])"
| "left_by i _ = []"

text \<open>The batches that were taken, and those whose goroutine for a backend has ended.\<close>

fun batch_of :: "writer_event \<Rightarrow> TimeSeries list list" where
  "batch_of (Taken k xs) = (if xs = [] then [] else [xs])"
| "batch_of _ = []"

fun ended_of :: "string \<Rightarrow> writer_event \<Rightarrow> TimeSeries list list" where
  "ended_of key (Ended k xs _ _) = (if k = key then [xs] else [])"
| "ended_of key _ = []"

abbreviation accepted :: "string \<Rightarrow> writer_event list \<Rightarrow> TimeSeries list" where
  "accepted i es \<equiv> concat (map (accepted_by i) es)"

abbreviation left :: "string \<Rightarrow> writer_event list \<Rightarrow> TimeSeries list" where
  "left i es \<equiv> concat (map (left_by i) es)"

abbreviation batches :: "writer_event list \<Rightarrow> TimeSeries list list" where
  "batches es \<equiv> concat (map batch_of es)"

abbreviation ended :: "string \<Rightarrow> writer_event list \<Rightarrow> TimeSeries list list" where
  "ended key es \<equiv> concat (map (ended_of key) es)"

definition in_flight :: "string \<Rightarrow> gateway \<Rightarrow> TimeSeries list list" where
  "in_flight key g = map snd (filter (\<lambda>x. fst x = key) (gw_flight g))"

definition writers_inv :: "Writers \<Rightarrow> bool" where
  "writers_inv ws \<longleftrightarrow> 0 < wr_QueuePopSize ws \<and> go_wf (wr_queues ws) \<and> go_wf (wr_backends ws) \<and>
     (\<forall>b \<in> set (wr_backends ws). writer_ready (snd b))"

text \<open>The request of a goroutine that has ended: the series of its batch that the relabelling rules of
  its backend keep, in their order, up to the time stamps when the server's time is forced.\<close>

definition request_ok :: "relabel_lib \<Rightarrow> WriterType \<Rightarrow> TimeSeries list \<Rightarrow> post_request option \<Rightarrow> bool" where
  "request_ok L w xs r \<longleftrightarrow> (case r of None \<Rightarrow> kept_series L w xs = []
     | Some req \<Rightarrow> kept_series L w xs \<noteq> [] \<and> req = Post w (pr_series req) \<and>
        (if wt_ForceUseServerTS w then map (server_ts 0) (pr_series req) = map (server_ts 0) (kept_series L w xs)
         else pr_series req = kept_series L w xs))"

definition event_ok :: "relabel_lib \<Rightarrow> Writers \<Rightarrow> writer_event \<Rightarrow> bool" where
  "event_ok L ws e \<longleftrightarrow> (case e of Taken i xs \<Rightarrow> int (length xs) \<le> wr_QueuePopSize ws
     | Ended key xs r ok \<Rightarrow> (\<exists>w. go_get (wr_backends ws) key = Some w \<and> request_ok L w xs r)
     | _ \<Rightarrow> True)"

definition config_of :: "Writers \<Rightarrow> (string, WriterType) go_map \<times> int \<times> int" where
  "config_of ws = (wr_backends ws, wr_QueueMaxSize ws, wr_QueuePopSize ws)"

lemma kept_nil [simp]: "kept_series L w [] = []"
  by (simp add: kept_series_def)

lemma PushSample_pending:
  assumes "PushSample now ident v ws = (ws1, ok)"
  shows "pending i ws1 = pending i ws @ (if i = ident \<and> ok then [v] else [])"
    and "config_of ws1 = config_of ws" and "go_wf (wr_queues ws) \<Longrightarrow> go_wf (wr_queues ws1)"
proof -
  let ?q = "iq_list (ident_queue ws ident)"
  have e: "oldest_first (fst (sll_PushFront v ?q)) = oldest_first ?q @ (if snd (sll_PushFront v ?q) then [v] else [])"
    by (rule sl.push_content)
  have p: "oldest_first ?q = pending ident ws"
    by (simp add: ident_queue_def pending_def NewSafeListLimited_def oldest_first_def split: option.split)
  show "pending i ws1 = pending i ws @ (if i = ident \<and> ok then [v] else [])"
    using assms e p by (auto simp: PushSample_def Let_def pending_def split: prod.splits)
  show "config_of ws1 = config_of ws"
    using assms by (auto simp: PushSample_def Let_def config_of_def split: prod.splits)
  show "go_wf (wr_queues ws1)" if "go_wf (wr_queues ws)"
    using assms gm.wf_set [OF that] by (auto simp: PushSample_def Let_def split: prod.splits)
qed

lemma goroutine_per_backend:
  assumes "go_wf bs" "fair_order ord" "go_get bs key \<noteq> None"
  shows "filter (\<lambda>x. fst x = key) (map (\<lambda>(k, w). (k, xs)) (ord bs)) = [(key, xs)]"
proof -
  have d: "distinct (map fst (ord bs))"
    using assms(1,2) by (metis fair_order_def go_wf_def mset_map mset_eq_imp_distinct_iff)
  obtain w where "(key, w) \<in> set (ord bs)" using assms(2,3) by (auto dest: map_of_SomeD)
  then obtain ys zs where o: "ord bs = ys @ (key, w) # zs" by (meson split_list)
  have n: "filter (\<lambda>x. fst x = key) (map (\<lambda>(k, w). (k, xs)) us) = []" if "key \<notin> fst ` set us" for us
    using that by (induction us) auto
  have "key \<notin> fst ` set ys" "key \<notin> fst ` set zs" using d by (simp_all add: o)
  then show ?thesis using n [of ys] n [of zs] by (simp add: o)
qed

lemma consume_round_ok:
  assumes "writers_inv ws" and "fair_order ord"
  shows "\<exists>ws1 xs. consume_round ord ident ws =
      Inr (ws1, xs, if xs = [] then [] else map (\<lambda>(key, w). (key, xs)) (ord (wr_backends ws))) \<and>
      (\<forall>i. pending i ws = (if i = ident then xs else []) @ pending i ws1) \<and>
      int (length xs) \<le> wr_QueuePopSize ws \<and> config_of ws1 = config_of ws \<and> go_wf (wr_queues ws1)"
proof (cases "go_get (wr_queues ws) ident")
  case None
  then show ?thesis using assms by (auto simp: consume_round_def pending_def writers_inv_def)
next
  case (Some q)
  let ?n = "nat (wr_QueuePopSize ws)" and ?c = "oldest_first (iq_list q)"
  let ?l = "(iq_list q)\<lparr>sl_L := rev (drop ?n ?c)\<rparr>"
  let ?ws1 = "ws\<lparr>wr_queues := go_set ident (q\<lparr>iq_list := ?l\<rparr>) (wr_queues ws)\<rparr>"
  have pos: "0 < wr_QueuePopSize ws" using assms by (simp add: writers_inv_def)
  have pop: "sll_PopBack (wr_QueuePopSize ws) (iq_list q) = Inr (take ?n ?c, ?l)"
    using pos by (simp add: sll_PopBack_take)
  have "consume_round ord ident ws = Inr (?ws1, take ?n ?c, if take ?n ?c = [] then []
      else map (\<lambda>(key, w). (key, take ?n ?c)) (ord (wr_backends ws)))"
    using pos by (simp add: consume_round_def Some pop Let_def)
  moreover have "pending i ws = (if i = ident then take ?n ?c else []) @ pending i ?ws1" for i
    using Some by (simp add: pending_def oldest_first_def)
  moreover have "int (length (take ?n ?c)) \<le> wr_QueuePopSize ws" using pos by simp
  moreover have "go_wf (wr_queues ?ws1)" using assms by (simp add: writers_inv_def gm.wf_set)
  ultimately show ?thesis by (intro exI [of _ ?ws1] exI [of _ "take ?n ?c"]) (simp add: config_of_def)
qed

lemma clean_queue_frame: "config_of (clean_queue now k ws) = config_of ws"
  by (simp add: clean_queue_def config_of_def split: option.split)

lemma clean_fold:
  assumes "distinct ks"
  shows "go_get (wr_queues (fold (clean_queue now) ks ws)) i =
      (if i \<in> set ks \<and> queue_expired now (ident_queue ws i) then None else go_get (wr_queues ws) i) \<and>
    config_of (fold (clean_queue now) ks ws) = config_of ws \<and>
    (go_wf (wr_queues ws) \<longrightarrow> go_wf (wr_queues (fold (clean_queue now) ks ws)))"
  using assms
proof (induction ks arbitrary: ws)
  case (Cons k ks)
  let ?w = "clean_queue now k ws"
  have g: "go_get (wr_queues ?w) j = (if j = k \<and> queue_expired now (ident_queue ws k) then None else go_get (wr_queues ws) j)" for j
    by (auto simp: clean_queue_def ident_queue_def split: option.splits)
  have "go_wf (wr_queues ws) \<longrightarrow> go_wf (wr_queues ?w)"
    by (auto simp: clean_queue_def gm.wf_del split: option.splits)
  moreover have "wr_QueueMaxSize ?w = wr_QueueMaxSize ws" using clean_queue_frame [of now k ws] by (simp add: config_of_def)
  moreover have "ident_queue ?w i = ident_queue ws i" if "i \<in> set ks"
    using that Cons.prems g [of i] calculation(2) by (auto simp: ident_queue_def split: option.split)
  ultimately show ?case using Cons.IH [of ?w] Cons.prems g [of i] clean_queue_frame [of now k ws] by auto
qed simp

lemma left_expired:
  "distinct ks \<Longrightarrow> left i (map (\<lambda>k. Expired k (pending k ws)) ks) = (if i \<in> set ks then pending i ws else [])"
  by (induction ks) auto

lemma clean_round_ok:
  assumes "writers_inv ws" and "fair_order ord"
  shows "pending i ws = left i (expired_events ord now ws) @ pending i (CleanExpQueue ord now ws)"
    and "config_of (CleanExpQueue ord now ws) = config_of ws" and "go_wf (wr_queues (CleanExpQueue ord now ws))"
proof -
  let ?ks = "ord (go_keys (wr_queues ws))"
  have d: "distinct ?ks" using assms by (simp add: writers_inv_def gm.wf_keys)
  note c = clean_fold [OF d, of now ws i]
  have keys: "go_get (wr_queues ws) i \<noteq> None \<Longrightarrow> i \<in> set ?ks" using assms(2) by (auto intro: gm.get_in_keys)
  have "left i (expired_events ord now ws) =
      (if i \<in> set ?ks \<and> queue_expired now (ident_queue ws i) then pending i ws else [])"
    unfolding expired_events_def by (subst left_expired) (use d in auto)
  then show "pending i ws = left i (expired_events ord now ws) @ pending i (CleanExpQueue ord now ws)"
    using c keys by (auto simp: CleanExpQueue_def pending_def split: option.splits)
  show "config_of (CleanExpQueue ord now ws) = config_of ws" using c by (simp add: CleanExpQueue_def)
  show "go_wf (wr_queues (CleanExpQueue ord now ws))" using c assms(1) by (simp add: CleanExpQueue_def writers_inv_def)
qed

lemma accepted_expired: "accepted i (expired_events ord now ws) = []"
  by (simp add: expired_events_def comp_def)

lemma expired_other: "batches (expired_events ord now ws) = []" "ended key (expired_events ord now ws) = []"
  by (simp_all add: expired_events_def comp_def)

definition orders_fair :: "writer_orders \<Rightarrow> bool" where
  "orders_fair ords \<longleftrightarrow> fair_order (wor_backends ords) \<and> fair_order (wor_queues ords)"

definition gateway_inv :: "gateway \<Rightarrow> bool" where
  "gateway_inv g \<longleftrightarrow> writers_inv (gw_writers g) \<and> (\<forall>x \<in> set (gw_flight g). go_get (wr_backends (gw_writers g)) (fst x) \<noteq> None)"

text \<open>What a step (or a run) with the logged events does: the configuration stays, the queues are first
  in, first out, every batch taken has one goroutine per backend, in flight or ended.\<close>

definition step_ok :: "relabel_lib \<Rightarrow> gateway \<Rightarrow> writer_event list \<Rightarrow> gateway \<Rightarrow> bool" where
  "step_ok L g es g1 \<longleftrightarrow> config_of (gw_writers g1) = config_of (gw_writers g) \<and> gateway_inv g1 \<and>
     (\<forall>i. pending i (gw_writers g) @ accepted i es = left i es @ pending i (gw_writers g1)) \<and>
     (\<forall>e \<in> set es. event_ok L (gw_writers g) e) \<and>
     (\<forall>key. go_get (wr_backends (gw_writers g)) key \<noteq> None \<longrightarrow>
        mset (in_flight key g) + mset (batches es) = mset (ended key es) + mset (in_flight key g1))"

lemma writers_inv_same:
  "writers_inv ws \<Longrightarrow> config_of ws1 = config_of ws \<Longrightarrow> go_wf (wr_queues ws1) \<Longrightarrow> writers_inv ws1"
  by (simp add: writers_inv_def config_of_def)

lemma gateway_inv_same:
  "gateway_inv g \<Longrightarrow> config_of ws1 = config_of (gw_writers g) \<Longrightarrow> go_wf (wr_queues ws1) \<Longrightarrow>
     gateway_inv (g\<lparr>gw_writers := ws1\<rparr>)"
  using writers_inv_same [of "gw_writers g" ws1] by (auto simp: gateway_inv_def config_of_def)

lemma gateway_inv_update: "gateway_inv (g\<lparr>gw_writers := ws, gw_flight := fl\<rparr>) \<longleftrightarrow>
    writers_inv ws \<and> (\<forall>x \<in> set fl. go_get (wr_backends ws) (fst x) \<noteq> None)"
  by (simp add: gateway_inv_def)

lemma in_flight_writers [simp]: "in_flight key (g\<lparr>gw_writers := ws\<rparr>) = in_flight key g"
  by (simp add: in_flight_def)

lemma Push_ok:
  assumes "gateway_inv g"
  shows "\<exists>g1 es. wstep L ords (Push ident v now) g = Inr (g1, es) \<and> step_ok L g es g1"
proof -
  obtain ws1 ok where p: "PushSample now ident v (gw_writers g) = (ws1, ok)" by fastforce
  have "go_wf (wr_queues ws1)" using PushSample_pending(3) [OF p] assms by (simp add: gateway_inv_def writers_inv_def)
  then have "gateway_inv (g\<lparr>gw_writers := ws1\<rparr>)" using assms PushSample_pending(2) [OF p] by (rule gateway_inv_same [rotated 2])
  then show ?thesis using PushSample_pending(1,2) [OF p] p by (auto simp: step_ok_def event_ok_def)
qed

lemma Consume_ok:
  assumes "gateway_inv g" "fair_order (wor_backends ords)"
  shows "\<exists>g1 es. wstep L ords (Consume ident) g = Inr (g1, es) \<and> step_ok L g es g1"
proof -
  let ?bs = "wr_backends (gw_writers g)"
  have inv: "writers_inv (gw_writers g)" using assms(1) by (simp add: gateway_inv_def)
  obtain ws1 xs where c: "consume_round (wor_backends ords) ident (gw_writers g) =
        Inr (ws1, xs, if xs = [] then [] else map (\<lambda>(key, w). (key, xs)) (wor_backends ords ?bs))"
      "\<forall>i. pending i (gw_writers g) = (if i = ident then xs else []) @ pending i ws1"
      "int (length xs) \<le> wr_QueuePopSize (gw_writers g)" "config_of ws1 = config_of (gw_writers g)" "go_wf (wr_queues ws1)"
    using consume_round_ok [OF inv assms(2), of ident] by blast
  let ?gos = "if xs = [] then [] else map (\<lambda>(key, w). (key, xs)) (wor_backends ords ?bs)"
  let ?g1 = "g\<lparr>gw_writers := ws1, gw_flight := gw_flight g @ ?gos\<rparr>"
  have "fst ` set ?gos \<subseteq> fst ` set ?bs" using assms(2) by (auto simp: rev_image_eqI)
  then have "go_get ?bs (fst x) \<noteq> None" if "x \<in> set ?gos" for x
    using that unfolding map_of_eq_None_iff by blast
  then have "\<forall>x \<in> set (gw_flight g @ ?gos). go_get ?bs (fst x) \<noteq> None"
    using assms(1) unfolding gateway_inv_def set_append by blast
  moreover have "writers_inv ws1" and b: "wr_backends ws1 = ?bs"
    using writers_inv_same [OF inv c(4,5)] c(4) by (simp_all add: config_of_def)
  ultimately have "gateway_inv ?g1" unfolding gateway_inv_update b by blast
  moreover have "mset (in_flight key g) + mset (batches [Taken ident xs]) = mset (in_flight key ?g1)"
    if "go_get ?bs key \<noteq> None" for key
  proof -
    have "go_wf ?bs" using inv by (simp add: writers_inv_def)
    then have "in_flight key ?g1 = in_flight key g @ (if xs = [] then [] else [xs])"
      using goroutine_per_backend [OF _ assms(2) that, of xs] by (simp add: in_flight_def)
    then show ?thesis by simp
  qed
  ultimately show ?thesis using c by (simp add: step_ok_def event_ok_def)
qed

lemma server_ts_twice [simp]: "server_ts a (server_ts b x) = server_ts a x"
  by (simp add: server_ts_def split: list.split)

lemma mset_remove_nth: "i < length xs \<Longrightarrow> mset (take i xs @ drop (Suc i) xs) + {#xs ! i#} = mset xs"
  by (metis add_mset_add_single id_take_nth_drop mset_append mset.simps(2) union_mset_add_mset_right)

lemma filter_map_mset: "mset (map f (filter P xs)) = image_mset f (filter_mset P (mset xs))"
  by simp

lemma End_ok:
  assumes "gateway_inv g"
  shows "\<exists>g1 es. wstep L ords (End i nowMs ok) g = Inr (g1, es) \<and> step_ok L g es g1"
proof (cases "i < length (gw_flight g)")
  case False
  then show ?thesis using assms by (simp add: step_ok_def)
next
  case True
  let ?fl = "gw_flight g"
  obtain key xs where x: "?fl ! i = (key, xs)" by fastforce
  have "(key, xs) \<in> set ?fl" using nth_mem [OF True] x by simp
  then obtain w where w: "go_get (wr_backends (gw_writers g)) key = Some w"
    using assms unfolding gateway_inv_def by fastforce
  have "\<forall>b \<in> set (wr_backends (gw_writers g)). writer_ready (snd b)"
    using assms by (simp add: gateway_inv_def writers_inv_def)
  then have "writer_ready w" using map_of_SomeD [OF w] by fastforce
  note W = Write_kept [OF this, of L nowMs xs]
  obtain r where r: "Write L nowMs w xs = Inr r" "request_ok L w xs r"
    unfolding W by (auto simp: request_ok_def Post_def)
  let ?g1 = "g\<lparr>gw_flight := take i ?fl @ drop (Suc i) ?fl\<rparr>"
  have "gateway_inv ?g1" using assms by (auto simp: gateway_inv_def dest: in_set_takeD in_set_dropD)
  moreover have "mset (in_flight k g) = mset (ended k [Ended key xs r ok]) + mset (in_flight k ?g1)" for k
  proof -
    have m: "mset ?fl = add_mset (key, xs) (mset (take i ?fl @ drop (Suc i) ?fl))"
      using mset_remove_nth [OF True] x by simp
    show ?thesis unfolding in_flight_def filter_map_mset m by simp
  qed
  ultimately show ?thesis using True r w by (simp add: write_go_def x step_ok_def event_ok_def)
qed

lemma Clean_ok:
  assumes "gateway_inv g" "fair_order (wor_queues ords)"
  shows "\<exists>g1 es. wstep L ords (Clean now) g = Inr (g1, es) \<and> step_ok L g es g1"
proof -
  have inv: "writers_inv (gw_writers g)" using assms(1) by (simp add: gateway_inv_def)
  note C = clean_round_ok [OF inv assms(2), where now = now]
  have "\<forall>e \<in> set (expired_events (wor_queues ords) now (gw_writers g)). event_ok L (gw_writers g) e"
    by (auto simp: expired_events_def event_ok_def)
  then show ?thesis using gateway_inv_same [OF assms(1) C(2,3)] C
    by (simp add: step_ok_def accepted_expired expired_other)
qed

lemma wstep_ok:
  assumes "gateway_inv g" "orders_fair ords"
  shows "\<exists>g1 es. wstep L ords op g = Inr (g1, es) \<and> step_ok L g es g1"
  using assms Push_ok Consume_ok End_ok Clean_ok by (cases op) (auto simp: orders_fair_def)

lemma event_ok_config: "config_of ws1 = config_of ws \<Longrightarrow> event_ok L ws1 e = event_ok L ws e"
  by (simp add: event_ok_def config_of_def cong: writer_event.case_cong)

lemma mset_chain:
  fixes a b c d e f :: "'a multiset"
  assumes "a + b = c + d" "d + e = f + g"
  shows "a + (b + e) = c + f + g"
  using assms by (metis add.assoc)

lemma step_ok_trans:
  assumes "step_ok L g es g1" "step_ok L g1 es1 g2"
  shows "step_ok L g (es @ es1) g2"
proof -
  have c: "config_of (gw_writers g1) = config_of (gw_writers g)" using assms(1) by (simp add: step_ok_def)
  have "pending i (gw_writers g) @ accepted i (es @ es1) = left i (es @ es1) @ pending i (gw_writers g2)" for i
  proof -
    have "pending i (gw_writers g) @ accepted i es = left i es @ pending i (gw_writers g1)"
      "pending i (gw_writers g1) @ accepted i es1 = left i es1 @ pending i (gw_writers g2)"
      using assms unfolding step_ok_def by blast+
    then show ?thesis by (metis append.assoc concat_append map_append)
  qed
  moreover have "mset (in_flight key g) + mset (batches (es @ es1)) = mset (ended key (es @ es1)) + mset (in_flight key g2)"
    if "go_get (wr_backends (gw_writers g)) key \<noteq> None" for key
  proof -
    have "go_get (wr_backends (gw_writers g1)) key \<noteq> None" using that c by (simp add: config_of_def)
    then have "mset (in_flight key g) + mset (batches es) = mset (ended key es) + mset (in_flight key g1)"
      "mset (in_flight key g1) + mset (batches es1) = mset (ended key es1) + mset (in_flight key g2)"
      using assms that unfolding step_ok_def by blast+
    from mset_chain [OF this] show ?thesis by simp
  qed
  moreover have "\<forall>e \<in> set (es @ es1). event_ok L (gw_writers g) e"
    using assms event_ok_config [OF c] unfolding step_ok_def by (metis Un_iff set_append)
  ultimately show ?thesis using assms c unfolding step_ok_def by metis
qed

lemma wrun_ok:
  assumes "gateway_inv g" and "orders_fair ords"
  shows "\<exists>g1 es. wrun L ords ops g = Inr (g1, es) \<and> step_ok L g es g1"
  using assms(1)
proof (induction ops arbitrary: g)
  case Nil
  then show ?case by (simp add: step_ok_def)
next
  case (Cons op ops)
  obtain g1 es where s: "wstep L ords op g = Inr (g1, es)" "step_ok L g es g1"
    using wstep_ok [OF Cons.prems assms(2)] by blast
  then have "gateway_inv g1" by (simp add: step_ok_def)
  then obtain g2 es1 where "wrun L ords ops g1 = Inr (g2, es1)" "step_ok L g1 es1 g2" using Cons.IH by blast
  then show ?case using s step_ok_trans by fastforce
qed

subsection \<open>From the configuration to the backends\<close>

lemma map_all_member: "map_all f xs = Some ys \<Longrightarrow> y \<in> set ys \<Longrightarrow> \<exists>x \<in> set xs. f x = Some y"
proof (induction xs arbitrary: ys)
  case (Cons x xs)
  then obtain z zs where "f x = Some z" "map_all f xs = Some zs" "ys = z # zs" by (auto split: option.splits)
  then show ?case using Cons.IH [of zs] Cons.prems(2) by auto
qed simp

definition rules_known :: "WriterOptions \<Rightarrow> bool" where
  "rules_known w \<longleftrightarrow> (\<forall>r \<in> set (wo_WriteRelabels w). rl_Action r \<in> set ('''' # relabel_actions) \<and>
     (rl_Action r = ''hashmod'' \<longrightarrow> rl_Modulus r \<noteq> 0))"

lemma writer_defaults_ready:
  assumes "writer_defaults compile w = Some w'" "rules_known w"
  shows "writer_ready \<lparr>wt_Opts = w', wt_ForceUseServerTS = force\<rparr>"
proof -
  obtain rs where rs: "map_all (relabel_defaults compile) (wo_WriteRelabels w) = Some rs" "w' = w\<lparr>wo_WriteRelabels := rs\<rparr>"
    using assms(1) by (auto simp: writer_defaults_def)
  have "relabel_ready cfg" if cfg: "cfg \<in> set rs" for cfg
  proof -
    obtain r where "r \<in> set (wo_WriteRelabels w)" "relabel_defaults compile r = Some cfg"
      using map_all_member [OF rs(1) cfg] by blast
    then show ?thesis using assms(2) relabel_defaults_ready by (simp add: rules_known_def)
  qed
  then show ?thesis using rs(2) by (simp add: writer_ready_def)
qed

lemma update_entries: "set (AList.update k v m) \<subseteq> insert (k, v) (set m)"
  by (induction m) auto

lemma writers_Init_backends:
  assumes "\<forall>opt \<in> set opts. writer_ready \<lparr>wt_Opts = opt, wt_ForceUseServerTS = force\<rparr>"
    and "\<forall>b \<in> set (wr_backends ws). writer_ready (snd b)"
  shows "(\<forall>b \<in> set (wr_backends (writers_Init ok force opts ws)). writer_ready (snd b)) \<and>
    wr_queues (writers_Init ok force opts ws) = wr_queues ws \<and>
    wr_QueuePopSize (writers_Init ok force opts ws) = wr_QueuePopSize ws \<and>
    (go_wf (wr_backends ws) \<longrightarrow> go_wf (wr_backends (writers_Init ok force opts ws)))"
  using assms
proof (induction opts arbitrary: ws)
  case (Cons opt opts)
  let ?w = "Put (wo_Url opt) \<lparr>wt_Opts = opt, wt_ForceUseServerTS = force\<rparr> ws"
  have "set (wr_backends ?w) \<subseteq> insert (wo_Url opt, \<lparr>wt_Opts = opt, wt_ForceUseServerTS = force\<rparr>) (set (wr_backends ws))"
    using update_entries [of "wo_Url opt" "\<lparr>wt_Opts = opt, wt_ForceUseServerTS = force\<rparr>" "wr_backends ws"] by (simp add: Put_def)
  then have "\<forall>b \<in> set (wr_backends ?w). writer_ready (snd b)" using Cons.prems by auto
  moreover have "go_wf (wr_backends ws) \<longrightarrow> go_wf (wr_backends ?w)" by (simp add: Put_def gm.wf_set)
  moreover have "wr_queues ?w = wr_queues ws" "wr_QueuePopSize ?w = wr_QueuePopSize ws" by (simp_all add: Put_def)
  ultimately show ?case using Cons.IH [of ?w] Cons.prems by simp
qed simp

lemma PreCheck_parts:
  assumes "Pushgw_PreCheck compile p0 = Some p"
  shows "map_all (writer_defaults compile) (pg_Writers p0) = Some (pg_Writers p)" "0 < pg_QueuePopSize p" "0 < pg_QueueMaxSize p"
    "pg_BusiGroupLabelKey p \<noteq> ''''"
  using assms by (auto simp: Pushgw_PreCheck_def Let_def split: if_splits)

lemma NewWriters_inv:
  assumes "Pushgw_PreCheck compile p0 = Some p" and "\<forall>w \<in> set (pg_Writers p0). rules_known w"
  shows "writers_inv (NewWriters ok p)" and "wr_queues (NewWriters ok p) = []"
proof -
  have "\<forall>opt \<in> set (pg_Writers p). writer_ready \<lparr>wt_Opts = opt, wt_ForceUseServerTS = pg_ForceUseServerTS p\<rparr>"
    using map_all_member [OF PreCheck_parts(1) [OF assms(1)]] assms(2) writer_defaults_ready by blast
  from writers_Init_backends [OF this, of "\<lparr>wr_backends = [], wr_queues = [], wr_QueueMaxSize = pg_QueueMaxSize p,
      wr_QueuePopSize = pg_QueuePopSize p\<rparr>" ok]
  show "writers_inv (NewWriters ok p)" "wr_queues (NewWriters ok p) = []"
    using PreCheck_parts(2) [OF assms(1)] by (simp_all add: NewWriters_def writers_inv_def)
qed

text \<open>C34. With a configuration that passed its check and relabelling rules with known actions, any
  interleaving of pushes, consumer rounds, ends of write goroutines and removals of idle queues runs
  without panic. For every key, the series its queue accepted are, in the same order, those that
  left it (in batches, or with an expired queue) followed by those still queued. A batch is at most
  as large as configured; for every backend each batch taken has exactly one goroutine, in flight or
  ended, and one that has ended made the request with exactly the series of its batch that the
  backend's relabelling rules keep (up to time stamps when the server's time is forced), or none
  when they keep none. Requests of different batches may reach a backend in any order, and a
  request that fails is not repeated.\<close>

theorem series_delivered:
  assumes "Pushgw_PreCheck compile p0 = Some p" and "\<forall>w \<in> set (pg_Writers p0). rules_known w"
    and "orders_fair ords" "ws = NewWriters ok p"
  shows "\<exists>g es. wrun L ords ops \<lparr>gw_writers = ws, gw_flight = []\<rparr> = Inr (g, es) \<and>
     (\<forall>i. accepted i es = left i es @ pending i (gw_writers g)) \<and>
     (\<forall>key. go_get (wr_backends ws) key \<noteq> None \<longrightarrow> mset (batches es) = mset (ended key es) + mset (in_flight key g)) \<and>
     (\<forall>i xs. Taken i xs \<in> set es \<longrightarrow> int (length xs) \<le> wr_QueuePopSize ws) \<and>
     (\<forall>key xs r posted. Ended key xs r posted \<in> set es \<longrightarrow>
        (\<exists>w. go_get (wr_backends ws) key = Some w \<and> request_ok L w xs r))"
proof -
  let ?g = "\<lparr>gw_writers = ws, gw_flight = []\<rparr>"
  have inv: "gateway_inv ?g" using NewWriters_inv(1) [OF assms(1,2), of ok] by (simp add: gateway_inv_def assms(4))
  obtain g es where r: "wrun L ords ops ?g = Inr (g, es)" "step_ok L ?g es g" using wrun_ok [OF inv assms(3)] by blast
  have "pending i ws = []" for i using NewWriters_inv(2) [OF assms(1,2), of ok] by (simp add: pending_def assms(4))
  moreover have "in_flight key ?g = []" for key by (simp add: in_flight_def)
  ultimately show ?thesis using r by (intro exI [of _ g] exI [of _ es]) (auto simp: step_ok_def event_ok_def)
qed

definition sample_pushgw :: Pushgw where
  "sample_pushgw = \<lparr>pg_BusiGroupLabelKey = '''', pg_WriteConcurrency = 0, pg_LabelRewrite = False, pg_ForceUseServerTS = False,
     pg_DebugSample = [], pg_QueueMaxSize = 0, pg_QueuePopSize = 0,
     pg_Writers = [\<lparr>wo_Url = ''http://w'', wo_BasicAuthUser = '''', wo_BasicAuthPass = '''', wo_Headers = [], wo_WriteRelabels = []\<rparr>]\<rparr>"

definition sample_series :: TimeSeries where
  "sample_series = \<lparr>ts_Labels = [mk_label ''__name__'' ''up'', mk_label ''ident'' ''a''],
     ts_Samples = [\<lparr>sm_Timestamp = 5000, sm_Value = Finite 1\<rparr>]\<rparr>"

definition sample_pushgw_checked :: Pushgw where
  "sample_pushgw_checked = sample_pushgw\<lparr>pg_BusiGroupLabelKey := ''busigroup'', pg_WriteConcurrency := 5000,
     pg_QueueMaxSize := 10000000, pg_QueuePopSize := 1000\<rparr>"

lemma sample_pushgw_check: "Pushgw_PreCheck (\<lambda>_. None) sample_pushgw = Some sample_pushgw_checked"
  by (simp add: Pushgw_PreCheck_def sample_pushgw_def sample_pushgw_checked_def writer_defaults_def)

theorem series_delivered_witness:
  "\<exists>g es. wrun sample_relabel_lib \<lparr>wor_backends = rev, wor_queues = rev\<rparr>
       [Push ''a'' sample_series 10, Consume ''a'', End 0 11000 True, Clean 9000]
       \<lparr>gw_writers = NewWriters (\<lambda>_. True) sample_pushgw_checked, gw_flight = []\<rparr> = Inr (g, es) \<and>
     accepted ''a'' es = [sample_series] \<and> left ''a'' es = [sample_series] \<and> pending ''a'' (gw_writers g) = [] \<and>
     mset (ended ''http://w'' es) + mset (in_flight ''http://w'' g) = {#[sample_series]#}"
proof -
  let ?ords = "\<lparr>wor_backends = rev, wor_queues = rev\<rparr>"
  let ?ops = "[Push ''a'' sample_series 10, Consume ''a'', End 0 11000 True, Clean 9000]"
  let ?ws = "NewWriters (\<lambda>_. True) sample_pushgw_checked"
  have known: "\<forall>w \<in> set (pg_Writers sample_pushgw). rules_known w" by (simp add: sample_pushgw_def rules_known_def)
  have fair: "orders_fair ?ords" by (simp add: orders_fair_def fair_order_rev)
  have b: "go_get (wr_backends ?ws) ''http://w'' \<noteq> None"
    by (simp add: NewWriters_def Put_def sample_pushgw_checked_def sample_pushgw_def)
  obtain g es where r: "wrun sample_relabel_lib ?ords ?ops \<lparr>gw_writers = ?ws, gw_flight = []\<rparr> = Inr (g, es)"
    "\<forall>i. accepted i es = left i es @ pending i (gw_writers g)"
    "mset (batches es) = mset (ended ''http://w'' es) + mset (in_flight ''http://w'' g)"
    using series_delivered [OF sample_pushgw_check known fair refl, of sample_relabel_lib ?ops "\<lambda>_. True"] b by blast
  have push: "PushSample 10 ''a'' sample_series ?ws =
      (?ws\<lparr>wr_queues := [(''a'', \<lparr>iq_list = \<lparr>sl_maxSize = 10000000, sl_L = [sample_series]\<rparr>, iq_ts = 10\<rparr>)]\<rparr>, True)"
    by (simp add: PushSample_def NewWriters_def Put_def sample_pushgw_checked_def sample_pushgw_def ident_queue_def
        NewSafeListLimited_def sll_PushFront_def sll_Len_def SafeList_PushFront_def)
  have "accepted ''a'' es = [sample_series]" "pending ''a'' (gw_writers g) = []" "batches es = [[sample_series]]"
    using r(1) push
    by (auto simp: res_bind_Inr_iff consume_round_def sll_PopBack_take oldest_first_def NewWriters_def Put_def
        sample_pushgw_checked_def sample_pushgw_def sample_series_def write_go_def Write_def keeps_def Let_def accepted_expired
        pending_def CleanExpQueue_def clean_queue_def queue_expired_def go_keys_def expired_events_def)
  then show ?thesis using r by auto
qed

end
