(* ===== verification/Idents.thy ===== *)
theory Idents
  imports Go_Strings
begin

text \<open>
  \<open>pushgw/idents/idents.go\<close>: the set of hosts seen by the push gateway and its periodic write to
  the table of targets, in batches of a hundred. On an edge instance a batch is posted to the
  center, whose handler (\<open>pushgw/router/router_target.go\<close>) runs the same update. The database is an
  argument: whether a statement fails, how many rows it reports as affected, and the library's
  difference of two lists; a row of the table is shown by its ident and time stamp, the only columns
  touched here. The main lemma holds for any count between the changed and the matched rows, which
  is what database drivers report.
\<close>

type_synonym ident_set = "(string, unit) go_map"
type_synonym target_rows = "(string \<times> int) list"

record target_db =
  td_affected :: "string list \<Rightarrow> int \<Rightarrow> target_rows \<Rightarrow> nat option"
  td_pluck_ok :: "string list \<Rightarrow> target_rows \<Rightarrow> bool"
  td_insert_ok :: "string \<Rightarrow> target_rows \<Rightarrow> bool"
  td_sub :: "string list \<Rightarrow> string list \<Rightarrow> string list"

subsection \<open>Operations\<close>

definition MSet :: "string range_order \<Rightarrow> ident_set \<Rightarrow> ident_set \<Rightarrow> ident_set" where
  "MSet ord items s = fold (\<lambda>ident s. go_set ident () s) (ord (go_keys items)) s"

fun batch_loop :: "string list \<Rightarrow> string list \<Rightarrow> string list list" where
  "batch_loop [] lst = [lst]"
| "batch_loop (ident # ids) lst =
     (if length (lst @ [ident]) = 100 then (lst @ [ident]) # batch_loop ids [] else batch_loop ids (lst @ [ident]))"

text \<open>The lists that \<open>updateTimestamp\<close> hands to \<open>UpdateTargets\<close>, the last one possibly empty.\<close>

definition updateTimestamp :: "string range_order \<Rightarrow> ident_set \<Rightarrow> string list list" where
  "updateTimestamp ord items = batch_loop (ord (go_keys items)) []"

definition persist_idents :: "string range_order \<Rightarrow> ident_set \<Rightarrow> ident_set \<times> string list list" where
  "persist_idents ord s = (if length s = 0 then (s, []) else ([], updateTimestamp ord s))"

definition touch_rows :: "string list \<Rightarrow> int \<Rightarrow> target_rows \<Rightarrow> target_rows" where
  "touch_rows lst now rows = map (\<lambda>(i, u). if i \<in> set lst then (i, now) else (i, u)) rows"

definition insert_row :: "target_db \<Rightarrow> int \<Rightarrow> string \<Rightarrow> target_rows \<Rightarrow> target_rows" where
  "insert_row D now ident rows = (if td_insert_ok D ident rows then rows @ [(ident, now)] else rows)"

text \<open>On the center; the second component tells whether an error is returned.\<close>

definition UpdateTargets :: "target_db \<Rightarrow> string list \<Rightarrow> int \<Rightarrow> target_rows \<Rightarrow> target_rows \<times> bool" where
  "UpdateTargets D lst now rows =
     (if length lst = 0 then (rows, False)
      else case td_affected D lst now rows of None \<Rightarrow> (rows, True)
      | Some n \<Rightarrow>
         (let rows1 = touch_rows lst now rows in
          if n = length lst then (rows1, False)
          else if \<not> td_pluck_ok D lst rows1 then (rows1, True)
          else let exists = filter (\<lambda>i. i \<in> set lst) (map fst rows1); news = td_sub D lst exists
               in (fold (insert_row D now) news rows1, False)))"

definition update_all :: "target_db \<Rightarrow> int \<Rightarrow> string list list \<Rightarrow> target_rows \<Rightarrow> target_rows" where
  "update_all D now batches rows = fold (\<lambda>lst rows. fst (UpdateTargets D lst now rows)) batches rows"

text \<open>An edge instance posts the same batches to the center.\<close>

definition edge_posts :: "int \<Rightarrow> string list list \<Rightarrow> (string list \<times> int) list" where
  "edge_posts now batches = map (\<lambda>lst. (lst, now)) batches"

definition targetUpdate :: "target_db \<Rightarrow> string list \<times> int \<Rightarrow> target_rows \<Rightarrow> target_rows" where
  "targetUpdate D f rows = fst (UpdateTargets D (fst f) (snd f) rows)"

subsection \<open>Batches\<close>

lemma batch_loop_concat: "concat (batch_loop ids lst) = lst @ ids"
  by (induction ids lst rule: batch_loop.induct) auto

lemma batch_loop_size: "length lst < 100 \<Longrightarrow> b \<in> set (batch_loop ids lst) \<Longrightarrow> length b \<le> 100"
  by (induction ids lst rule: batch_loop.induct) (auto split: if_splits)

lemma MSet_keys:
  "fair_order ord \<Longrightarrow> dom (go_get (MSet ord items s)) = dom (go_get s) \<union> dom (go_get items)"
proof -
  have "dom (go_get (fold (\<lambda>i s. go_set i () s) is s)) = dom (go_get s) \<union> set is" for "is" and s :: ident_set
    by (induction "is" arbitrary: s) auto
  then show "fair_order ord \<Longrightarrow> ?thesis" by (simp add: MSet_def gm.keys_dom)
qed

lemma MSet_wf: "go_wf s \<Longrightarrow> go_wf (MSet ord items s)"
  unfolding MSet_def by (rule fold_invariant_set) (auto intro: gm.wf_set)

subsection \<open>The table\<close>

definition db_ok :: "target_db \<Rightarrow> bool" where
  "db_ok D \<longleftrightarrow>
     (\<forall>lst now rows. \<exists>n. td_affected D lst now rows = Some n \<and> n \<le> length (filter (\<lambda>r. fst r \<in> set lst) rows)) \<and>
     (\<forall>lst rows. td_pluck_ok D lst rows) \<and>
     (\<forall>ident rows. ident \<notin> fst ` set rows \<longrightarrow> td_insert_ok D ident rows) \<and>
     (\<forall>xs ys. distinct xs \<longrightarrow> distinct (td_sub D xs ys) \<and> set (td_sub D xs ys) = set xs - set ys)"

lemma touch_rows_fst [simp]: "map fst (touch_rows lst now rows) = map fst rows"
  by (simp add: touch_rows_def comp_def case_prod_unfold if_distrib cong: if_cong)

lemma touch_rows_get:
  "map_of (touch_rows lst now rows) i = (case map_of rows i of None \<Rightarrow> None
     | Some u \<Rightarrow> Some (if i \<in> set lst then now else u))"
  by (induction rows) (auto simp: touch_rows_def)

lemma all_matched:
  assumes "distinct lst" "distinct (map fst rows)" "length lst \<le> length (filter (\<lambda>r. fst r \<in> set lst) rows)"
  shows "set lst \<subseteq> fst ` set rows"
proof -
  let ?m = "filter (\<lambda>r. fst r \<in> set lst) rows"
  have d: "distinct (map fst ?m)" using assms(2) by (rule distinct_map_filter)
  have "set (map fst ?m) \<subseteq> set lst" by auto
  moreover have "card (set lst) \<le> card (set (map fst ?m))"
    using assms(1,3) d by (simp add: distinct_card [OF d, simplified] distinct_card)
  ultimately have "set (map fst ?m) = set lst" by (simp add: card_subset_eq card_mono le_antisym)
  then show ?thesis by auto
qed

lemma insert_rows:
  assumes "db_ok D" "distinct news" "set news \<inter> fst ` set rows = {}" "distinct (map fst rows)"
  shows "map_of (fold (insert_row D now) news rows) = (\<lambda>i. if i \<in> set news then Some now else map_of rows i) \<and>
     distinct (map fst (fold (insert_row D now) news rows))"
  using assms(2,3,4)
proof (induction news arbitrary: rows)
  case (Cons x xs)
  have ok: "insert_row D now x rows = rows @ [(x, now)]"
    using assms(1) Cons.prems by (auto simp: insert_row_def db_ok_def)
  have "map_of (fold (insert_row D now) xs (rows @ [(x, now)])) =
        (\<lambda>i. if i \<in> set xs then Some now else map_of (rows @ [(x, now)]) i) \<and>
      distinct (map fst (fold (insert_row D now) xs (rows @ [(x, now)])))"
    by (rule Cons.IH) (use Cons.prems in auto)
  moreover have "map_of (rows @ [(x, now)]) i = (if i = x then Some now else map_of rows i)" for i
  proof -
    have "map_of rows x = None" using Cons.prems by (simp add: map_of_eq_None_iff)
    then show ?thesis by (simp add: map_add_def split: option.splits)
  qed
  ultimately show ?case using ok by (auto simp: fun_eq_iff)
qed simp

lemma UpdateTargets_rows:
  assumes "db_ok D" "distinct lst" "distinct (map fst rows)"
  shows "map_of (fst (UpdateTargets D lst now rows)) = (\<lambda>i. if i \<in> set lst then Some now else map_of rows i) \<and>
    distinct (map fst (fst (UpdateTargets D lst now rows)))"
proof (cases "lst = []")
  case False
  obtain n where n: "td_affected D lst now rows = Some n" "n \<le> length (filter (\<lambda>r. fst r \<in> set lst) rows)"
    using assms(1) unfolding db_ok_def by blast
  let ?r1 = "touch_rows lst now rows"
  let ?news = "td_sub D lst (filter (\<lambda>i. i \<in> set lst) (map fst ?r1))"
  show ?thesis
  proof (cases "n = length lst")
    case True
    then have "set lst \<subseteq> fst ` set rows" using all_matched [OF assms(2,3)] n(2) by simp
    then have "map_of rows i \<noteq> None" if "i \<in> set lst" for i using that map_of_eq_None_iff [of rows i] by blast
    then have "map_of ?r1 = (\<lambda>i. if i \<in> set lst then Some now else map_of rows i)"
      by (intro ext) (fastforce simp: touch_rows_get split: option.split)
    then show ?thesis using True False n assms(3) by (simp add: UpdateTargets_def Let_def)
  next
    case rest: False
    have news: "distinct ?news" "set ?news = set lst - fst ` set rows"
      using assms(1,2) by (auto simp: db_ok_def)
    have "set ?news \<inter> fst ` set ?r1 = {}" using news(2) by (metis Diff_disjoint Int_commute list.set_map touch_rows_fst)
    then have ins: "map_of (fold (insert_row D now) ?news ?r1) = (\<lambda>i. if i \<in> set ?news then Some now else map_of ?r1 i) \<and>
        distinct (map fst (fold (insert_row D now) ?news ?r1))"
      using insert_rows [OF assms(1) news(1), of ?r1 now] assms(3) by simp
    have "(if i \<in> set ?news then Some now else map_of ?r1 i) = (if i \<in> set lst then Some now else map_of rows i)" for i
      unfolding news(2) using map_of_eq_None_iff [of rows i] by (auto simp: touch_rows_get split: option.splits)
    moreover have "td_pluck_ok D lst ?r1" using assms(1) by (simp add: db_ok_def)
    ultimately show ?thesis using rest False n ins by (simp add: UpdateTargets_def Let_def)
  qed
qed (use assms in \<open>simp add: UpdateTargets_def\<close>)

lemma update_all_rows:
  assumes "db_ok D" "\<forall>b \<in> set batches. distinct b" "distinct (map fst rows)"
  shows "map_of (update_all D now batches rows) = (\<lambda>i. if i \<in> set (concat batches) then Some now else map_of rows i) \<and>
    distinct (map fst (update_all D now batches rows))"
  using assms(2,3)
proof (induction batches arbitrary: rows)
  case (Cons b bs)
  have u: "map_of (fst (UpdateTargets D b now rows)) = (\<lambda>i. if i \<in> set b then Some now else map_of rows i)"
    "distinct (map fst (fst (UpdateTargets D b now rows)))"
    using UpdateTargets_rows [OF assms(1), of b rows now] Cons.prems by auto
  have "update_all D now (b # bs) rows = update_all D now bs (fst (UpdateTargets D b now rows))"
    by (simp add: update_all_def)
  then show ?case using Cons.IH [OF _ u(2)] Cons.prems u(1) by (auto simp: fun_eq_iff)
qed (simp add: update_all_def)

lemma edge_same: "fold (targetUpdate D) (edge_posts now batches) rows = update_all D now batches rows"
  by (induction batches arbitrary: rows) (simp_all add: edge_posts_def targetUpdate_def update_all_def)

text \<open>A round of the ident set empties it and hands its hosts over in batches of at most a
  hundred. With a working database, whether the batches are applied on the center or posted by an
  edge instance, every host of the set then has exactly one row, stamped with the current time; the
  rows of all other hosts are as before, and none is added for them.\<close>

theorem idents_persisted:
  assumes "persist_idents ord s = (s', batches)" and "go_wf s" and "fair_order ord" and "db_ok D"
    and "distinct (map fst rows)"
  shows "s' = [] \<and> (\<forall>b \<in> set batches. length b \<le> 100) \<and>
     fold (targetUpdate D) (edge_posts now batches) rows = update_all D now batches rows \<and>
     distinct (map fst (update_all D now batches rows)) \<and>
     map_of (update_all D now batches rows) = (\<lambda>i. if i \<in> set (go_keys s) then Some now else map_of rows i)"
proof (cases "s = []")
  case True
  then show ?thesis using assms by (simp add: persist_idents_def update_all_def edge_posts_def)
next
  case False
  let ?ids = "ord (go_keys s)"
  have b: "batches = batch_loop ?ids []" "s' = []"
    using assms(1) False by (auto simp: persist_idents_def updateTimestamp_def)
  have c: "concat batches = ?ids" using batch_loop_concat [of ?ids "[]"] b(1) by simp
  have "distinct ?ids" using assms(2,3) by (simp add: gm.wf_keys)
  then have "\<forall>b \<in> set batches. distinct b" using c by (metis distinct_concat_iff)
  note u = update_all_rows [OF assms(4) this assms(5), of now]
  have "\<forall>b \<in> set batches. length b \<le> 100" using batch_loop_size [of "[]"] b(1) by simp
  then show ?thesis using u c b(2) edge_same [of D now batches rows] assms(3) by simp
qed

definition sample_db :: target_db where
  "sample_db = \<lparr>td_affected = (\<lambda>lst now rows. Some (length (filter (\<lambda>r. fst r \<in> set lst) rows))), td_pluck_ok = (\<lambda>_ _. True),
     td_insert_ok = (\<lambda>_ _. True), td_sub = (\<lambda>xs ys. filter (\<lambda>x. x \<notin> set ys) xs)\<rparr>"

theorem idents_persisted_witness:
  "persist_idents rev [(''a'', ()), (''b'', ())] = ([], [[''b'', ''a'']]) \<and>
   map_of (update_all sample_db 9 [[''b'', ''a'']] [(''a'', 3), (''c'', 4)]) = [''a'' \<mapsto> 9, ''b'' \<mapsto> 9, ''c'' \<mapsto> 4]"
proof -
  have p: "persist_idents rev [(''a'', ()), (''b'', ())] = ([], [[''b'', ''a'']])"
    by (simp add: persist_idents_def updateTimestamp_def go_keys_def)
  have "db_ok sample_db" by (auto simp: db_ok_def sample_db_def)
  from idents_persisted [OF p _ fair_order_rev this, of "[(''a'', 3), (''c'', 4)]" 9]
  show ?thesis using p by (auto simp: go_wf_def go_keys_def fun_eq_iff)
qed

end
