(* ===== verification/Push_Router.thy ===== *)
theory Push_Router
  imports Ingest Writers Idents Memsto
begin

text \<open>
  The HTTP handlers of the push gateway (\<open>pushgw/router\<close>): they convert what an agent sends to
  series, add the tags of the host and of its business group, register the host and put each series
  into the queue of its host, or of the first two characters of its metric. Reading and decoding a
  request body are arguments. A panic inside a handler is caught by the web framework: what was
  pushed before it stays, so a handler returns the new state beside its outcome. Log output and
  counters are left out.
\<close>

record Router =
  rt_Pushgw :: Pushgw
  rt_TargetCache :: "(string, Target) cache"
  rt_BusiGroupCache :: "(int, BusiGroup) cache"
  rt_IdentSet :: ident_set
  rt_Writers :: Writers
  rt_EnrichLabels :: "TimeSeries \<Rightarrow> TimeSeries"

subsection \<open>Labels of the host\<close>

definition label_keys :: "Label list \<Rightarrow> (string, nat) go_map" where
  "label_keys ls = fold (\<lambda>j m. go_set (lb_Name (ls ! j)) j m) [0..<length ls] []"

definition overwrite_label :: "bool \<Rightarrow> nat \<Rightarrow> string \<Rightarrow> Label list \<Rightarrow> Label list" where
  "overwrite_label rewrite index v ls = (if rewrite then ls[index := (ls ! index)\<lparr>lb_Value := v\<rparr>] else ls)"

fun append_tags :: "bool \<Rightarrow> (string, nat) go_map \<Rightarrow> (string \<times> string) list \<Rightarrow> Label list \<Rightarrow> Label list" where
  "append_tags rewrite labelKeys [] ls = ls"
| "append_tags rewrite labelKeys ((key, v) # kvs) ls =
     (case go_get labelKeys key of
        Some index \<Rightarrow> append_tags rewrite labelKeys kvs (overwrite_label rewrite index v ls)
      | None \<Rightarrow> append_tags rewrite labelKeys kvs (ls @ [mk_label key v]))"

definition append_group :: "Pushgw \<Rightarrow> (string, nat) go_map \<Rightarrow> (int, BusiGroup) cache \<Rightarrow> int \<Rightarrow> Label list \<Rightarrow> Label list" where
  "append_group p labelKeys bgCache groupId ls =
     (let key = pg_BusiGroupLabelKey p in
      if go_get labelKeys key \<noteq> None then ls
      else if groupId > 0 \<and> length key > 0
      then (case cache_Get bgCache groupId of None \<Rightarrow> ls
            | Some bg \<Rightarrow>
               if bg_LabelEnable bg = 0 then ls
               else (case go_get labelKeys key of
                       Some index \<Rightarrow> overwrite_label (pg_LabelRewrite p) index (bg_LabelValue bg) ls
                     | None \<Rightarrow> ls @ [mk_label key (bg_LabelValue bg)]))
      else ls)"

definition AppendLabels :: "Pushgw \<Rightarrow> (string \<times> string) range_order \<Rightarrow> Target option \<Rightarrow> (int, BusiGroup) cache
    \<Rightarrow> TimeSeries \<Rightarrow> TimeSeries" where
  "AppendLabels p ord target bgCache pt =
     (case target of None \<Rightarrow> pt
      | Some t \<Rightarrow>
         (let labelKeys = label_keys (ts_Labels pt);
              ls = append_tags (pg_LabelRewrite p) labelKeys (ord (tg_TagsMap t)) (ts_Labels pt)
          in pt\<lparr>ts_Labels := append_group p labelKeys bgCache (tg_GroupId t) ls\<rparr>))"

subsection \<open>Forwarding\<close>

definition push_series :: "int \<Rightarrow> string \<Rightarrow> TimeSeries \<Rightarrow> Router \<Rightarrow> Router" where
  "push_series now key v rt = rt\<lparr>rt_Writers := fst (PushSample now key v (rt_Writers rt))\<rparr>"

definition BeforePush :: "Router \<Rightarrow> TimeSeries \<Rightarrow> TimeSeries" where
  "BeforePush rt v = rt_EnrichLabels rt v"

definition ForwardByIdent :: "int \<Rightarrow> string \<Rightarrow> TimeSeries \<Rightarrow> Router \<Rightarrow> Router \<times> panic option" where
  "ForwardByIdent now ident v rt = (push_series now ident (BeforePush rt v) rt, None)"

text \<open>The first two characters of the metric select the queue; slicing an empty name panics.\<close>

definition ForwardByMetric :: "int \<Rightarrow> string \<Rightarrow> TimeSeries \<Rightarrow> Router \<Rightarrow> Router \<times> panic option" where
  "ForwardByMetric now metric v rt =
     (let v1 = BeforePush rt v in
      if length metric \<ge> 2 then (push_series now (take 2 metric) v1 rt, None)
      else if length metric \<ge> 1 then (push_series now (take 1 metric) v1 rt, None)
      else (rt, Some Slice_out_of_range))"

definition enrich_host :: "(string \<times> string) range_order \<Rightarrow> Router \<Rightarrow> string \<Rightarrow> TimeSeries \<Rightarrow> TimeSeries" where
  "enrich_host ord rt ident pt =
     (case cache_Get (rt_TargetCache rt) ident of None \<Rightarrow> pt
      | Some target \<Rightarrow> AppendLabels (rt_Pushgw rt) ord (Some target) (rt_BusiGroupCache rt) pt)"

subsection \<open>The loop of the handlers\<close>

text \<open>What the conversion of an item says: skip it, count it as failed, or push the series, with
  the host to register (if any), and the metric to route it by when there is no host name.\<close>

datatype converted = Skip | Fail string | Item "string option" string TimeSeries

record push_acc =
  pa_succ :: int
  pa_fail :: int
  pa_msg :: string
  pa_ids :: ident_set

definition acc_start :: push_acc where
  "acc_start = \<lparr>pa_succ = 0, pa_fail = 0, pa_msg = ''received'', pa_ids = []\<rparr>"

definition count_failure :: "(string \<Rightarrow> string \<Rightarrow> string) \<Rightarrow> string \<Rightarrow> push_acc \<Rightarrow> push_acc" where
  "count_failure report e acc =
     acc\<lparr>pa_msg := (if pa_fail acc = 0 then report (pa_msg acc) e else pa_msg acc), pa_fail := pa_fail acc + 1\<rparr>"

definition register_host :: "string option \<Rightarrow> push_acc \<Rightarrow> push_acc" where
  "register_host host acc = (case host of None \<Rightarrow> acc | Some h \<Rightarrow> acc\<lparr>pa_ids := go_set h () (pa_ids acc)\<rparr>)"

definition forward_series :: "int \<Rightarrow> string option \<Rightarrow> string \<Rightarrow> TimeSeries \<Rightarrow> Router \<Rightarrow> Router \<times> panic option" where
  "forward_series now host metric pt rt =
     (case host of None \<Rightarrow> ForwardByMetric now metric pt rt
      | Some h \<Rightarrow> if h \<noteq> '''' then ForwardByIdent now h pt rt else ForwardByMetric now metric pt rt)"

fun push_loop :: "('m \<Rightarrow> converted) \<Rightarrow> (string \<Rightarrow> string \<Rightarrow> string) \<Rightarrow> (string \<times> string) range_order \<Rightarrow> int \<Rightarrow> 'm list
    \<Rightarrow> push_acc \<Rightarrow> Router \<Rightarrow> Router \<times> (panic + push_acc)" where
  "push_loop conv report ord now [] acc rt = (rt, Inr acc)"
| "push_loop conv report ord now (m # ms) acc rt =
     (case conv m of
        Skip \<Rightarrow> push_loop conv report ord now ms acc rt
      | Fail e \<Rightarrow> push_loop conv report ord now ms (count_failure report e acc) rt
      | Item host metric pt \<Rightarrow>
          (let acc1 = register_host host acc;
               pt1 = (case host of None \<Rightarrow> pt | Some h \<Rightarrow> enrich_host ord rt h pt)
           in case forward_series now host metric pt1 rt of
                (rt1, Some p) \<Rightarrow> (rt1, Inl p)
              | (rt1, None) \<Rightarrow> push_loop conv report ord now ms (acc1\<lparr>pa_succ := pa_succ acc1 + 1\<rparr>) rt1))"

datatype response = Status int string | Counts int int string | Panicked panic

definition mset_idents :: "ident_set \<Rightarrow> Router \<Rightarrow> Router" where
  "mset_idents ids rt = rt\<lparr>rt_IdentSet := MSet (\<lambda>ks. ks) ids (rt_IdentSet rt)\<rparr>"

definition finish_counts :: "Router \<times> (panic + push_acc) \<Rightarrow> Router \<times> response" where
  "finish_counts r =
     (case r of (rt, Inl p) \<Rightarrow> (rt, Panicked p)
      | (rt, Inr acc) \<Rightarrow>
          ((if pa_succ acc > 0 then mset_idents (pa_ids acc) rt else rt), Counts (pa_succ acc) (pa_fail acc) (pa_msg acc)))"

definition host_of :: "string \<Rightarrow> string option" where
  "host_of ident = (if ident \<noteq> '''' then Some ident else None)"

subsection \<open>The handlers\<close>

definition remote_item :: "bool \<Rightarrow> TimeSeries \<Rightarrow> converted" where
  "remote_item ignoreIdent s =
     (if duplicateLabelKey s then Skip
      else case extractIdentFromTimeSeries s ignoreIdent of (ident, s1) \<Rightarrow>
        Item (host_of ident) (extractMetricFromTimeSeries s1) s1)"

text \<open>\<open>req\<close> is the decoded request, or the error of decoding it.\<close>

definition remoteWrite :: "(string \<times> string) range_order \<Rightarrow> int \<Rightarrow> bool \<Rightarrow> string + TimeSeries list \<Rightarrow> Router \<Rightarrow> Router \<times> response" where
  "remoteWrite ord now ignoreIdent req rt =
     (case req of Inl err \<Rightarrow> (rt, Status 400 err)
      | Inr series \<Rightarrow>
         if length series = 0 then (rt, Status 200 '''')
         else (case push_loop (remote_item ignoreIdent) (\<lambda>msg e. msg) ord now series acc_start rt of
                 (rt1, Inl p) \<Rightarrow> (rt1, Panicked p)
               | (rt1, Inr acc) \<Rightarrow> (mset_idents (pa_ids acc) rt1, Status 200 '''')))"

definition falcon_item :: "ingest_lib \<Rightarrow> (string \<times> string) range_order \<Rightarrow> int \<Rightarrow> FalconMetric \<Rightarrow> converted" where
  "falcon_item L ord ts m =
     (case Falcon_Clean L ts m of Inl e \<Rightarrow> Fail e
      | Inr m1 \<Rightarrow> (case Falcon_ToProm L ord m1 of Inl e \<Rightarrow> Fail e
                   | Inr (pt, ident, metric) \<Rightarrow> Item (host_of ident) metric pt))"

text \<open>A body that cannot be read is an error; the first byte of an empty body is out of range. A body
  that does not start with a bracket is a single metric.\<close>

definition decode_body :: "(string \<Rightarrow> string + 'm list) \<Rightarrow> (string \<Rightarrow> string + 'm) \<Rightarrow> string + string \<Rightarrow> panic + string + 'm list" where
  "decode_body arr one body =
     (case body of Inl err \<Rightarrow> Inr (Inl err)
      | Inr bs \<Rightarrow>
         (case bs of [] \<Rightarrow> Inl Index_out_of_range
          | b # _ \<Rightarrow> if b = CHR ''['' then Inr (arr bs) else Inr (map_sum id (\<lambda>m. [m]) (one bs))))"

definition falconPush :: "ingest_lib \<Rightarrow> (string \<Rightarrow> string + FalconMetric list) \<Rightarrow> (string \<Rightarrow> string + FalconMetric)
    \<Rightarrow> (string \<times> string) range_order \<Rightarrow> int \<Rightarrow> string + string \<Rightarrow> Router \<Rightarrow> Router \<times> response" where
  "falconPush L arr one ord now body rt =
     (case decode_body arr one body of Inl p \<Rightarrow> (rt, Panicked p)
      | Inr (Inl err) \<Rightarrow> (rt, Status 400 err)
      | Inr (Inr ms) \<Rightarrow> finish_counts (push_loop (falcon_item L ord now) (\<lambda>msg e. msg) ord now ms acc_start rt))"

text \<open>Here a host tag counts as present even when it is empty.\<close>

definition http_item :: "ingest_lib \<Rightarrow> (string \<times> string) range_order \<Rightarrow> int \<Rightarrow> HTTPMetric \<Rightarrow> converted" where
  "http_item L ord ts m =
     (case HTTP_Clean L ts m of Inl e \<Rightarrow> Fail ('' , Error clean: '' @ e)
      | Inr m1 \<Rightarrow> (case HTTP_ToProm L ord m1 of Inl e \<Rightarrow> Fail ('' , Error toprom: '' @ e)
                   | Inr (pt, m2) \<Rightarrow> Item (go_get (hx_Tags m2) ''ident'') (hx_Metric m2) pt))"

definition openTSDBPut :: "ingest_lib \<Rightarrow> (string \<Rightarrow> string + HTTPMetric list) \<Rightarrow> (string \<Rightarrow> string + HTTPMetric)
    \<Rightarrow> (string \<times> string) range_order \<Rightarrow> int \<Rightarrow> string + string \<Rightarrow> Router \<Rightarrow> Router \<times> response" where
  "openTSDBPut L arr one ord now body rt =
     (case decode_body arr one body of Inl p \<Rightarrow> (rt, Panicked p)
      | Inr (Inl err) \<Rightarrow> (rt, Status 400 err)
      | Inr (Inr ms) \<Rightarrow> finish_counts (push_loop (http_item L ord now) (\<lambda>msg e. msg @ e) ord now ms acc_start rt))"

definition datadog_item :: "ingest_lib \<Rightarrow> DatadogMetric option \<Rightarrow> converted" where
  "datadog_item L item =
     (case item of None \<Rightarrow> Skip
      | Some m \<Rightarrow>
         (case Datadog_Clean m of Some e \<Rightarrow> Fail e
          | None \<Rightarrow> (case Datadog_ToProm L m of Inl e \<Rightarrow> Fail e
                    | Inr (pt, ident, metric) \<Rightarrow> Item (host_of ident) metric pt)))"

definition api_key_ok :: "(string, string) go_map \<Rightarrow> string option \<Rightarrow> bool" where
  "api_key_ok basicAuth key =
     (let apiKey = (case key of None \<Rightarrow> '''' | Some k \<Rightarrow> k) in
      if length basicAuth > 0 then list_ex (\<lambda>(u, v). apiKey = v) basicAuth else True)"

definition datadogSeries :: "ingest_lib \<Rightarrow> (string, string) go_map \<Rightarrow> (string \<Rightarrow> string + DatadogMetric option list)
    \<Rightarrow> (string \<times> string) range_order \<Rightarrow> int \<Rightarrow> string option \<Rightarrow> string + string \<Rightarrow> Router \<Rightarrow> Router \<times> response" where
  "datadogSeries L basicAuth decode ord now key body rt =
     (if \<not> api_key_ok basicAuth key then (rt, Status 401 ''unauthorized'')
      else case body of Inl err \<Rightarrow> (rt, Status 400 err)
      | Inr bs \<Rightarrow>
         (case decode bs of Inl err \<Rightarrow> (rt, Status 400 err)
          | Inr ms \<Rightarrow>
             if length ms = 0 then (rt, Status 400 ''series empty'')
             else finish_counts (push_loop (datadog_item L) (\<lambda>msg e. msg) ord now ms acc_start rt)))"

end
