(* ===== verification/Push_Spec.thy ===== *)
theory Push_Spec
  imports Push_Router
begin

text \<open>
  What the handlers of the push gateway do: the labels a series gets from its host and business
  group, which queue each series of a request goes to and which hosts are registered, and how
  failures and panics are accounted for.
\<close>

subsection \<open>Labels of the host\<close>

lemma label_keys_fold:
  "go_get (fold (\<lambda>j m. go_set (lb_Name (ls ! j)) j m) js m) k =
     (case filter (\<lambda>j. lb_Name (ls ! j) = k) js of [] \<Rightarrow> go_get m k | l \<Rightarrow> Some (last l))"
  by (induction js arbitrary: m) (auto split: list.splits)

lemma label_keys_Some: "go_get (label_keys ls) k = Some j \<Longrightarrow> j < length ls \<and> lb_Name (ls ! j) = k"
proof -
  assume "go_get (label_keys ls) k = Some j"
  then have "j \<in> set (filter (\<lambda>j. lb_Name (ls ! j) = k) [0..<length ls])"
    unfolding label_keys_def label_keys_fold by (auto split: list.splits if_splits simp del: set_filter)
  then show ?thesis by simp
qed

lemma label_keys_None: "go_get (label_keys ls) k = None \<longleftrightarrow> k \<notin> set (label_names ls)"
proof -
  have "go_get (label_keys ls) k = None \<longleftrightarrow> filter (\<lambda>j. lb_Name (ls ! j) = k) [0..<length ls] = []"
    unfolding label_keys_def label_keys_fold by (simp split: list.split)
  then have "go_get (label_keys ls) k = None \<longleftrightarrow> (\<forall>j < length ls. label_names ls ! j \<noteq> k)"
    by (auto simp: filter_empty_conv)
  then show ?thesis by (metis in_set_conv_nth length_map)
qed

lemma overwrite_names [simp]: "i < length ls \<Longrightarrow> label_names (overwrite_label rw i v ls) = label_names ls"
  by (simp add: overwrite_label_def map_update list_update_same_conv)

lemma overwrite_value:
  assumes "i < length ls" "distinct (label_names ls)"
  shows "label_value (overwrite_label rw i v ls) =
    (if rw then (label_value ls)(lb_Name (ls ! i) \<mapsto> v) else label_value ls)"
proof -
  have "label_value (ls[i := (ls ! i)\<lparr>lb_Value := v\<rparr>]) = (label_value ls)(lb_Name (ls ! i) \<mapsto> v)"
    using assms
  proof (induction ls arbitrary: i)
    case (Cons l ls)
    show ?case
    proof (cases i)
      case 0
      then show ?thesis by (auto simp: fun_eq_iff)
    next
      case (Suc j)
      then have j: "j < length ls" using Cons.prems by simp
      have "lb_Name (ls ! j) \<in> set (label_names ls)" using j by simp
      then have "lb_Name (ls ! j) \<noteq> lb_Name l" using Cons.prems(2) by auto
      then show ?thesis using Cons.IH [OF j] Cons.prems Suc by (auto simp: fun_eq_iff)
    qed
  qed simp
  then show ?thesis by (simp add: overwrite_label_def)
qed

text \<open>One tag of the host on top of the labels \<open>f\<close>, of which \<open>old\<close> came with the series.\<close>

definition tag_over :: "bool \<Rightarrow> string set \<Rightarrow> (string \<rightharpoonup> string) \<Rightarrow> (string \<rightharpoonup> string) \<Rightarrow> (string \<rightharpoonup> string)" where
  "tag_over rw old tags f = (\<lambda>k. case tags k of None \<Rightarrow> f k | Some v \<Rightarrow> if k \<in> old \<and> \<not> rw then f k else Some v)"

lemma append_tags_labels:
  assumes "distinct (label_names ls0)" "distinct (map fst kvs)" "distinct (label_names ls)"
    "take (length ls0) (label_names ls) = label_names ls0" "fst ` set kvs \<inter> set (label_names ls) \<subseteq> set (label_names ls0)"
  shows "distinct (label_names (append_tags rw (label_keys ls0) kvs ls)) \<and>
    set (label_names (append_tags rw (label_keys ls0) kvs ls)) = set (label_names ls) \<union> fst ` set kvs \<and>
    label_value (append_tags rw (label_keys ls0) kvs ls) = tag_over rw (set (label_names ls0)) (map_of kvs) (label_value ls)"
  using assms(2-)
proof (induction kvs arbitrary: ls)
  case Nil
  then show ?case by (simp add: tag_over_def)
next
  case (Cons kv kvs)
  obtain k v where kv: "kv = (k, v)" by fastforce
  have kn: "k \<notin> fst ` set kvs" using Cons.prems(1) kv by simp
  have le: "length ls0 \<le> length ls"
    using arg_cong [OF Cons.prems(3), of length] by (simp add: min_def split: if_splits)
  define ls1 where "ls1 = (case go_get (label_keys ls0) k of Some i \<Rightarrow> overwrite_label rw i v ls | None \<Rightarrow> ls @ [mk_label k v])"
  have step: "append_tags rw (label_keys ls0) (kv # kvs) ls = append_tags rw (label_keys ls0) kvs ls1"
    by (simp add: kv ls1_def split: option.split)
  have facts: "distinct (label_names ls1) \<and> take (length ls0) (label_names ls1) = label_names ls0 \<and>
      set (label_names ls1) = insert k (set (label_names ls)) \<and>
      label_value ls1 = (if k \<in> set (label_names ls0) \<and> \<not> rw then label_value ls else (label_value ls)(k \<mapsto> v))"
  proof (cases "go_get (label_keys ls0) k")
    case None
    then have "k \<notin> set (label_names ls0)" using label_keys_None by blast
    moreover from this have new: "k \<notin> set (label_names ls)" using Cons.prems(4) kv by auto
    moreover have "label_value ls1 = (label_value ls)(k \<mapsto> v)"
      using None new label_value_None [of ls k] by (auto simp: ls1_def fun_eq_iff split: option.splits)
    ultimately show ?thesis using None Cons.prems le by (auto simp: ls1_def)
  next
    case (Some i)
    have i: "i < length ls0" "lb_Name (ls0 ! i) = k" using label_keys_Some [OF Some] by auto
    have n: "lb_Name (ls ! i) = k"
      using i le Cons.prems(3) by (metis length_map nth_map nth_take order_less_le_trans)
    have il: "i < length ls" using i le by simp
    have kin: "k \<in> set (label_names ls0)" using i by force
    have "k \<in> set (label_names ls)" using n il by force
    then show ?thesis using Some overwrite_value [OF il Cons.prems(2), of rw v] il n kin Cons.prems
      by (auto simp: ls1_def insert_absorb)
  qed
  have ih: "distinct (label_names (append_tags rw (label_keys ls0) kvs ls1)) \<and>
    set (label_names (append_tags rw (label_keys ls0) kvs ls1)) = set (label_names ls1) \<union> fst ` set kvs \<and>
    label_value (append_tags rw (label_keys ls0) kvs ls1) = tag_over rw (set (label_names ls0)) (map_of kvs) (label_value ls1)"
    by (rule Cons.IH) (use facts Cons.prems kn kv in auto)
  have "map_of kvs k = None" using kn by (simp add: map_of_eq_None_iff)
  then have "tag_over rw (set (label_names ls0)) (map_of kvs) (label_value ls1) =
      tag_over rw (set (label_names ls0)) (map_of (kv # kvs)) (label_value ls)"
    using facts kv by (auto simp: tag_over_def fun_eq_iff split: option.split)
  then show ?case unfolding step using ih facts kv by (auto simp: fun_upd_def)
qed

definition group_value :: "Pushgw \<Rightarrow> (int, BusiGroup) cache \<Rightarrow> int \<Rightarrow> string option" where
  "group_value p bgCache groupId =
     (if groupId > 0 \<and> pg_BusiGroupLabelKey p \<noteq> ''''
      then (case cache_Get bgCache groupId of None \<Rightarrow> None
            | Some bg \<Rightarrow> if bg_LabelEnable bg = 0 then None else Some (bg_LabelValue bg))
      else None)"

text \<open>The value of a label after the host's tags and the label of its business group were added.\<close>

definition host_labels :: "Pushgw \<Rightarrow> (int, BusiGroup) cache \<Rightarrow> Target \<Rightarrow> (string \<rightharpoonup> string) \<Rightarrow> (string \<rightharpoonup> string)" where
  "host_labels p bgCache t f k =
     (case (f k, go_get (tg_TagsMap t) k) of
        (Some v, Some w) \<Rightarrow> Some (if pg_LabelRewrite p then w else v)
      | (Some v, None) \<Rightarrow> Some v
      | (None, Some w) \<Rightarrow> Some w
      | (None, None) \<Rightarrow> if k = pg_BusiGroupLabelKey p then group_value p bgCache (tg_GroupId t) else None)"

lemma append_group_eq:
  "append_group p (label_keys ls0) bgCache g ls =
     (if pg_BusiGroupLabelKey p \<in> set (label_names ls0) then ls
      else case group_value p bgCache g of None \<Rightarrow> ls | Some v \<Rightarrow> ls @ [mk_label (pg_BusiGroupLabelKey p) v])"
  using label_keys_None [of ls0 "pg_BusiGroupLabelKey p"]
  by (auto simp: append_group_def group_value_def Let_def split: option.splits)

lemma tag_over_host:
  "tag_over (pg_LabelRewrite p) (dom f) (map_of m) f k =
     (case (f k, map_of m k) of (Some v, Some w) \<Rightarrow> Some (if pg_LabelRewrite p then w else v)
      | (Some v, None) \<Rightarrow> Some v | (None, w) \<Rightarrow> w)"
  by (auto simp: tag_over_def split: option.splits)

lemma dom_label_value: "dom (label_value ls) = set (label_names ls)"
  using label_value_None by (auto simp: dom_def)

lemma AppendLabels_labels:
  assumes "distinct (label_names (ts_Labels pt))" and "go_wf (tg_TagsMap t)" and "fair_order ord"
    and "pg_BusiGroupLabelKey p \<notin> set (go_keys (tg_TagsMap t))"
  shows "distinct (label_names (ts_Labels (AppendLabels p ord (Some t) bgCache pt))) \<and>
     label_value (ts_Labels (AppendLabels p ord (Some t) bgCache pt)) = host_labels p bgCache t (label_value (ts_Labels pt))"
proof -
  let ?ls = "ts_Labels pt" and ?tags = "tg_TagsMap t" and ?key = "pg_BusiGroupLabelKey p"
  let ?out = "append_tags (pg_LabelRewrite p) (label_keys ?ls) (ord ?tags) ?ls"
  have perm: "mset (ord ?tags) = mset ?tags" using assms(3) by (simp add: fair_order_def)
  have d: "distinct (map fst (ord ?tags))"
    using assms(2) perm by (metis go_wf_def mset_eq_imp_distinct_iff mset_map)
  have get: "map_of (ord ?tags) = map_of ?tags"
    using d assms(2) perm by (intro map_of_inject_set [THEN iffD2]) (auto simp: go_wf_def dest: mset_eq_setD)
  have app: "distinct (label_names ?out)" "set (label_names ?out) = set (label_names ?ls) \<union> fst ` set ?tags"
    "label_value ?out = tag_over (pg_LabelRewrite p) (dom (label_value ?ls)) (map_of ?tags) (label_value ?ls)"
    using append_tags_labels [OF assms(1) d assms(1), of "pg_LabelRewrite p"] get assms(3) by (auto simp: dom_label_value)
  have key: "?key \<notin> fst ` set ?tags" using assms(4) by (simp add: go_keys_def)
  have res: "ts_Labels (AppendLabels p ord (Some t) bgCache pt) = append_group p (label_keys ?ls) bgCache (tg_GroupId t) ?out"
    by (simp add: AppendLabels_def Let_def)
  have "distinct (label_names (append_group p (label_keys ?ls) bgCache (tg_GroupId t) ?out))"
    using app(1,2) key by (auto simp: append_group_eq split: option.splits)
  moreover have "label_value (append_group p (label_keys ?ls) bgCache (tg_GroupId t) ?out) k = host_labels p bgCache t (label_value ?ls) k" for k
  proof -
    have o: "label_value ?out k = (case (label_value ?ls k, map_of ?tags k) of (Some v, Some w) \<Rightarrow> Some (if pg_LabelRewrite p then w else v)
        | (Some v, None) \<Rightarrow> Some v | (None, w) \<Rightarrow> w)"
      unfolding app(3) by (rule tag_over_host)
    have "label_value ?out ?key \<noteq> None" if "?key \<in> set (label_names ?ls)" using that app(2) label_value_None [of ?out ?key] by blast
    then have ag: "label_value (append_group p (label_keys ?ls) bgCache (tg_GroupId t) ?out) k =
        (case label_value ?out k of Some v \<Rightarrow> Some v | None \<Rightarrow> if k = ?key then group_value p bgCache (tg_GroupId t) else None)"
      unfolding append_group_eq
      by (cases "?key \<in> set (label_names ?ls)"; cases "group_value p bgCache (tg_GroupId t)") (auto split: option.split)
    show ?thesis unfolding ag o host_labels_def by (simp split: option.split)
  qed
  ultimately show ?thesis unfolding res by auto
qed

text \<open>Adding the labels of a host to a series with distinct label names, where the host has no
  tag named like the label of business groups: the names stay distinct, and every label has the
  value it should have, independently of the order in which the tags are enumerated. A label of the
  series keeps its value unless the host has a tag of that name and rewriting is on; other tags of
  the host are added; and the label of the business group is added, if it is enabled and the series
  did not come with one.\<close>

theorem host_labels_added:
  assumes "distinct (label_names (ts_Labels pt))" and "go_wf (tg_TagsMap t)" and "fair_order ord"
    and "pg_BusiGroupLabelKey p \<notin> set (go_keys (tg_TagsMap t))"
  shows "distinct (label_names (ts_Labels (AppendLabels p ord (Some t) bgCache pt))) \<and>
     label_value (ts_Labels (AppendLabels p ord (Some t) bgCache pt)) = host_labels p bgCache t (label_value (ts_Labels pt)) \<and>
     ts_Samples (AppendLabels p ord (Some t) bgCache pt) = ts_Samples pt"
  using AppendLabels_labels [OF assms] by (simp add: AppendLabels_def Let_def)

definition sample_target :: Target where
  "sample_target = \<lparr>tg_Id = 1, tg_GroupId = 2, tg_GroupObj = None, tg_Ident = ''a'', tg_Note = '''', tg_Tags = '''', tg_TagsJSON = [],
     tg_TagsMap = [(''rack'', ''r1''), (''job'', ''x'')], tg_UpdateAt = 0, tg_HostIp = '''', tg_UnixTime = 0, tg_Offset = 0,
     tg_TargetUp = Finite 0, tg_MemUtil = Finite 0, tg_CpuNum = 1, tg_CpuUtil = Finite 0, tg_OS = '''', tg_Arch = '''', tg_RemoteAddr = ''''\<rparr>"

definition sample_groups :: "(int, BusiGroup) cache" where
  "sample_groups = \<lparr>ch_statTotal = 1, ch_statLastUpdated = 1, ch_data = [(2, \<lparr>bg_Id = 2, bg_Name = ''g'', bg_LabelEnable = 1,
     bg_LabelValue = ''cloud'', bg_CreateAt = 0, bg_CreateBy = '''', bg_UpdateAt = 0, bg_UpdateBy = ''''\<rparr>)]\<rparr>"

theorem host_labels_added_witness:
  "map (label_value (ts_Labels (AppendLabels sample_pushgw_checked rev (Some sample_target) sample_groups sample_series)))
     [''ident'', ''rack'', ''job'', ''busigroup'', ''zone''] = [Some ''a'', Some ''r1'', Some ''x'', Some ''cloud'', None]"
proof -
  have "label_value (ts_Labels (AppendLabels sample_pushgw_checked rev (Some sample_target) sample_groups sample_series)) =
      host_labels sample_pushgw_checked sample_groups sample_target (label_value (ts_Labels sample_series))"
    using host_labels_added [of sample_series sample_target rev sample_pushgw_checked sample_groups, OF _ _ fair_order_rev]
    by (simp add: sample_series_def sample_target_def go_wf_def go_keys_def sample_pushgw_checked_def)
  then show ?thesis
    by (simp add: host_labels_def sample_series_def sample_target_def sample_groups_def sample_pushgw_checked_def
        sample_pushgw_def group_value_def cache_Get_def)
qed

text \<open>A host tag with the name of the business group label leads to that label twice: the check
  looks at the labels the series came with only.\<close>

lemma group_label_twice:
  "label_names (ts_Labels (AppendLabels sample_pushgw_checked rev (Some (sample_target\<lparr>tg_TagsMap := [(''busigroup'', ''x'')]\<rparr>))
     sample_groups sample_series)) = [''__name__'', ''ident'', ''busigroup'', ''busigroup'']"
  by (simp add: AppendLabels_def label_keys_def append_group_def sample_series_def sample_target_def sample_groups_def
      sample_pushgw_checked_def sample_pushgw_def cache_Get_def Let_def)

subsection \<open>Routing\<close>

text \<open>What of the state decides how a series is enriched; the loops do not change it.\<close>

definition push_config :: "Router \<Rightarrow> Pushgw \<times> (string, Target) cache \<times> (int, BusiGroup) cache \<times> (TimeSeries \<Rightarrow> TimeSeries)" where
  "push_config rt = (rt_Pushgw rt, rt_TargetCache rt, rt_BusiGroupCache rt, rt_EnrichLabels rt)"

definition push_all :: "int \<Rightarrow> (string \<times> TimeSeries) list \<Rightarrow> Router \<Rightarrow> Router" where
  "push_all now kvs rt = fold (\<lambda>(k, v). push_series now k v) kvs rt"

text \<open>The queue and the final form of an item.\<close>

definition routed :: "('m \<Rightarrow> converted) \<Rightarrow> (string \<times> string) range_order \<Rightarrow> Router \<Rightarrow> 'm \<Rightarrow> (string \<times> TimeSeries) list" where
  "routed conv ord rt m =
     (case conv m of
        Item host metric pt \<Rightarrow>
          [(case host of None \<Rightarrow> take 2 metric | Some h \<Rightarrow> if h \<noteq> '''' then h else take 2 metric,
            rt_EnrichLabels rt (case host of None \<Rightarrow> pt | Some h \<Rightarrow> enrich_host ord rt h pt))]
      | _ \<Rightarrow> [])"

definition routable :: "converted \<Rightarrow> bool" where
  "routable c = (case c of Item host metric pt \<Rightarrow> host \<notin> {None, Some ''''} \<or> metric \<noteq> '''' | _ \<Rightarrow> True)"

definition registered :: "('m \<Rightarrow> converted) \<Rightarrow> 'm list \<Rightarrow> string set" where
  "registered conv ms = {h. \<exists>m \<in> set ms. \<exists>metric pt. conv m = Item (Some h) metric pt}"

fun is_item :: "converted \<Rightarrow> bool" where
  "is_item (Item _ _ _) = True"
| "is_item _ = False"

fun is_fail :: "converted \<Rightarrow> bool" where
  "is_fail (Fail _) = True"
| "is_fail _ = False"

lemma push_config_cong: "push_config rt = push_config rt' \<Longrightarrow> routed conv ord rt m = routed conv ord rt' m"
  by (auto simp: push_config_def routed_def enrich_host_def split: converted.split option.split)

lemma push_series_config [simp]: "push_config (push_series now k v rt) = push_config rt"
  by (simp add: push_series_def push_config_def)

lemma take_two: "length s < 2 \<Longrightarrow> take 2 s = s"
  by simp

lemma forward_routed:
  assumes "conv m = Item host metric pt" "routable (conv m)"
  shows "forward_series now host metric (case host of None \<Rightarrow> pt | Some h \<Rightarrow> enrich_host ord rt h pt) rt =
    (push_all now (routed conv ord rt m) rt, None)"
proof -
  have metric: "ForwardByMetric now metric v rt = (push_series now (take 2 metric) (rt_EnrichLabels rt v) rt, None)"
    if "metric \<noteq> ''''" for v
    using that by (auto simp: ForwardByMetric_def BeforePush_def Let_def Suc_le_eq take_Cons' split: if_splits)
  show ?thesis using assms
    by (auto simp: forward_series_def routed_def routable_def push_all_def ForwardByIdent_def BeforePush_def metric split: option.splits)
qed

lemma push_all_simps [simp]:
  "push_all now [] rt = rt" "push_all now (xs @ ys) rt = push_all now ys (push_all now xs rt)"
  by (simp_all add: push_all_def)

lemma push_all_frame [simp]:
  "push_config (push_all now kvs rt) = push_config rt" "rt_IdentSet (push_all now kvs rt) = rt_IdentSet rt"
  unfolding push_all_def
  by (induction kvs arbitrary: rt) (auto simp: push_series_def push_config_def)

lemma push_loop_ok:
  assumes "\<forall>m \<in> set ms. routable (conv m)"
  shows "\<exists>acc'. push_loop conv report ord now ms acc rt = (push_all now (concat (map (routed conv ord rt) ms)) rt, Inr acc') \<and>
    pa_succ acc' = pa_succ acc + int (length (filter (\<lambda>m. is_item (conv m)) ms)) \<and>
    pa_fail acc' = pa_fail acc + int (length (filter (\<lambda>m. is_fail (conv m)) ms)) \<and>
    dom (go_get (pa_ids acc')) = dom (go_get (pa_ids acc)) \<union> registered conv ms"
  using assms
proof (induction ms arbitrary: acc rt)
  case (Cons m ms)
  show ?case
  proof (cases "conv m")
    case (Item host metric pt)
    have f: "forward_series now host metric (case host of None \<Rightarrow> pt | Some h \<Rightarrow> enrich_host ord rt h pt) rt =
        (push_all now (routed conv ord rt m) rt, None)"
      using Item Cons.prems by (intro forward_routed) auto
    let ?rt1 = "push_all now (routed conv ord rt m) rt"
    have r: "map (routed conv ord ?rt1) ms = map (routed conv ord rt) ms"
      by (simp add: push_config_cong [of ?rt1 rt])
    let ?acc = "register_host host acc"
    have acc: "pa_fail ?acc = pa_fail acc" "pa_succ ?acc = pa_succ acc"
      "dom (go_get (pa_ids ?acc)) = dom (go_get (pa_ids acc)) \<union> set_option host"
      by (auto simp: register_host_def split: option.splits)
    have reg: "registered conv (m # ms) = set_option host \<union> registered conv ms"
      using Item by (cases host) (auto simp: registered_def)
    show ?thesis using Cons.IH [of "?acc\<lparr>pa_succ := pa_succ ?acc + 1\<rparr>" ?rt1] Cons.prems Item f r acc reg by (auto simp: Let_def)
  next
    case (Fail e)
    have "registered conv (m # ms) = registered conv ms" using Fail by (auto simp: registered_def)
    then show ?thesis using Cons.IH [of "count_failure report e acc" rt] Cons.prems Fail
      by (auto simp: count_failure_def routed_def)
  next
    case Skip
    have "registered conv (m # ms) = registered conv ms" using Skip by (auto simp: registered_def)
    then show ?thesis using Cons Skip by (simp add: routed_def)
  qed
qed (simp add: registered_def)

lemma push_loop_append:
  "push_loop conv report ord now (xs @ ys) acc rt =
     (case push_loop conv report ord now xs acc rt of (rt1, Inl p) \<Rightarrow> (rt1, Inl p)
      | (rt1, Inr acc1) \<Rightarrow> push_loop conv report ord now ys acc1 rt1)"
  by (induction xs arbitrary: acc rt) (auto simp: Let_def split: converted.split prod.split option.split)

text \<open>A queue takes the series routed to it as long as it has room.\<close>

definition room :: "string \<Rightarrow> Writers \<Rightarrow> nat" where
  "room i ws = nat (sl_maxSize (iq_list (ident_queue ws i))) - length (pending i ws)"

lemma PushSample_room:
  assumes "PushSample now ident v ws = (ws1, ok)"
  shows "ok \<longleftrightarrow> 0 < room ident ws" "room i ws1 = (if i = ident \<and> ok then room i ws - 1 else room i ws)"
proof -
  have p: "length (pending i ws) = length (sl_L (iq_list (ident_queue ws i)))" for i
    by (simp add: pending_def ident_queue_def oldest_first_def NewSafeListLimited_def split: option.split)
  show "ok \<longleftrightarrow> 0 < room ident ws"
    using assms p by (auto simp: PushSample_def sll_PushFront_def sll_Len_def room_def Let_def split: if_splits)
  have "sl_maxSize (iq_list (ident_queue ws1 i)) = sl_maxSize (iq_list (ident_queue ws i))"
    using assms by (auto simp: PushSample_def sll_PushFront_def ident_queue_def Let_def split: if_splits option.splits)
  then show "room i ws1 = (if i = ident \<and> ok then room i ws - 1 else room i ws)"
    using PushSample_pending(1) [OF assms, of i] by (auto simp: room_def)
qed

lemma push_all_pending:
  "pending i (rt_Writers (push_all now kvs rt)) = pending i (rt_Writers rt) @
     take (room i (rt_Writers rt)) (map snd (filter (\<lambda>kv. fst kv = i) kvs))"
proof (induction kvs arbitrary: rt)
  case (Cons kv kvs)
  obtain k v where kv: "kv = (k, v)" by fastforce
  obtain ws1 ok where p: "PushSample now k v (rt_Writers rt) = (ws1, ok)" by fastforce
  let ?rt1 = "push_series now k v rt"
  have w: "rt_Writers ?rt1 = ws1" by (simp add: push_series_def p)
  have "push_all now (kv # kvs) rt = push_all now kvs ?rt1" by (simp add: push_all_def kv)
  then have ih: "pending i (rt_Writers (push_all now (kv # kvs) rt)) =
      pending i ws1 @ take (room i ws1) (map snd (filter (\<lambda>kv. fst kv = i) kvs))"
    using Cons.IH [of ?rt1] w by simp
  show ?case unfolding ih PushSample_pending(1) [OF p, of i] PushSample_room(2) [OF p, of i]
    using PushSample_room(1) [OF p] by (cases "room i (rt_Writers rt)") (auto simp: kv)
qed simp

subsection \<open>Remote write\<close>

text \<open>The labels of a series after its ident was found, and after its host's labels were added.\<close>

definition renamed :: "bool \<Rightarrow> Label list \<Rightarrow> (string \<rightharpoonup> string)" where
  "renamed ig ls = (case ident_source ig ls of None \<Rightarrow> label_value ls
     | Some k \<Rightarrow> (label_value ls)(k := None, ''ident'' := label_value ls k))"

definition remote_labels :: "Router \<Rightarrow> bool \<Rightarrow> TimeSeries \<Rightarrow> (string \<rightharpoonup> string)" where
  "remote_labels rt ig s =
     (let f = renamed ig (ts_Labels s); ident = ident_of ig (ts_Labels s) in
      case cache_Get (rt_TargetCache rt) ident of
        Some t \<Rightarrow> if ident = '''' then f else host_labels (rt_Pushgw rt) (rt_BusiGroupCache rt) t f
      | None \<Rightarrow> f)"

definition remote_key :: "bool \<Rightarrow> TimeSeries \<Rightarrow> string" where
  "remote_key ig s = (let ident = ident_of ig (ts_Labels s) in
     if ident \<noteq> '''' then ident else take 2 (the (label_value (ts_Labels s) ''__name__'')))"

definition series_named :: "bool \<Rightarrow> TimeSeries \<Rightarrow> bool" where
  "series_named ig s \<longleftrightarrow> ident_of ig (ts_Labels s) \<noteq> '''' \<or> label_value (ts_Labels s) ''__name__'' \<notin> {None, Some ''''}"

definition targets_ok :: "Router \<Rightarrow> bool" where
  "targets_ok rt \<longleftrightarrow> (\<forall>t \<in> ran (go_get (ch_data (rt_TargetCache rt))). go_wf (tg_TagsMap t) \<and>
     pg_BusiGroupLabelKey (rt_Pushgw rt) \<notin> set (go_keys (tg_TagsMap t))) \<and> rt_EnrichLabels rt = (\<lambda>pt. pt)"

lemma remote_item_distinct:
  assumes "distinct (label_names (ts_Labels s))"
  shows "\<exists>ls metric. remote_item ig s = Item (host_of (ident_of ig (ts_Labels s))) metric (s\<lparr>ts_Labels := ls\<rparr>) \<and>
    distinct (label_names ls) \<and> label_value ls = renamed ig (ts_Labels s) \<and>
    metric = (case label_value (ts_Labels s) ''__name__'' of Some v \<Rightarrow> v | None \<Rightarrow> '''')"
proof -
  obtain ls where e: "extractIdentFromTimeSeries s ig = (ident_of ig (ts_Labels s), s\<lparr>ts_Labels := ls\<rparr>)"
    "distinct (label_names ls)" "label_value ls = renamed ig (ts_Labels s)"
    using extractIdent_labels [OF assms, of ig] unfolding renamed_def by blast
  have "renamed ig (ts_Labels s) ''__name__'' = label_value (ts_Labels s) ''__name__''"
    by (auto simp: renamed_def ident_source_def)
  then show ?thesis using e assms
    by (auto simp: remote_item_def duplicateLabelKey_iff extractMetricFromTimeSeries_def extract_metric_value)
qed

lemma remote_routed:
  assumes "distinct (label_names (ts_Labels s))" "series_named ig s" "targets_ok rt" "fair_order ord"
  shows "\<exists>v. routed (remote_item ig) ord rt s = [(remote_key ig s, v)] \<and> ts_Samples v = ts_Samples s \<and>
    distinct (label_names (ts_Labels v)) \<and> label_value (ts_Labels v) = remote_labels rt ig s"
proof -
  let ?i = "ident_of ig (ts_Labels s)"
  obtain ls metric where it: "remote_item ig s = Item (host_of ?i) metric (s\<lparr>ts_Labels := ls\<rparr>)"
    "distinct (label_names ls)" "label_value ls = renamed ig (ts_Labels s)"
    "metric = (case label_value (ts_Labels s) ''__name__'' of Some v \<Rightarrow> v | None \<Rightarrow> '''')"
    using remote_item_distinct [OF assms(1)] by blast
  have id: "rt_EnrichLabels rt = (\<lambda>pt. pt)" using assms(3) by (simp add: targets_ok_def)
  show ?thesis
  proof (cases "?i = ''''")
    case True
    then have "take 2 metric = remote_key ig s"
      using assms(2) it(4) by (auto simp: remote_key_def series_named_def)
    then show ?thesis using it True id
      by (auto simp: routed_def host_of_def remote_labels_def Let_def split: option.split)
  next
    case False
    let ?v = "enrich_host ord rt ?i (s\<lparr>ts_Labels := ls\<rparr>)"
    have "routed (remote_item ig) ord rt s = [(remote_key ig s, ?v)]"
      using it(1) False id by (simp add: routed_def host_of_def remote_key_def)
    moreover have "ts_Samples ?v = ts_Samples s \<and> distinct (label_names (ts_Labels ?v)) \<and> label_value (ts_Labels ?v) = remote_labels rt ig s"
    proof (cases "cache_Get (rt_TargetCache rt) ?i")
      case None
      then show ?thesis using it by (simp add: enrich_host_def remote_labels_def Let_def)
    next
      case (Some t)
      then have "go_wf (tg_TagsMap t)" "pg_BusiGroupLabelKey (rt_Pushgw rt) \<notin> set (go_keys (tg_TagsMap t))"
        using assms(3) by (auto simp: targets_ok_def cache_Get_def ran_def)
      then show ?thesis
        using AppendLabels_labels [of "s\<lparr>ts_Labels := ls\<rparr>" t ord "rt_Pushgw rt" "rt_BusiGroupCache rt"] it Some False assms(4)
        by (simp add: enrich_host_def remote_labels_def Let_def AppendLabels_def)
    qed
    ultimately show ?thesis by blast
  qed
qed

lemma remote_item_duplicate: "\<not> distinct (label_names (ts_Labels s)) \<Longrightarrow> remote_item ig s = Skip"
  by (simp add: remote_item_def duplicateLabelKey_iff)

abbreviation kept :: "TimeSeries list \<Rightarrow> TimeSeries list" where
  "kept series \<equiv> filter (\<lambda>s. distinct (label_names (ts_Labels s))) series"

lemma remote_routed_all:
  assumes "\<forall>s \<in> set (kept series). series_named ig s" "targets_ok rt" "fair_order ord"
  shows "list_all2 (\<lambda>s (k, v). k = remote_key ig s \<and> ts_Samples v = ts_Samples s \<and>
      distinct (label_names (ts_Labels v)) \<and> label_value (ts_Labels v) = remote_labels rt ig s)
    (kept series) (concat (map (routed (remote_item ig) ord rt) series))"
  using assms(1)
proof (induction series)
  case (Cons s series)
  show ?case
  proof (cases "distinct (label_names (ts_Labels s))")
    case True
    then obtain v where "routed (remote_item ig) ord rt s = [(remote_key ig s, v)]" "ts_Samples v = ts_Samples s"
      "distinct (label_names (ts_Labels v))" "label_value (ts_Labels v) = remote_labels rt ig s"
      using remote_routed [OF True _ assms(2,3), of ig] Cons.prems by auto
    then show ?thesis using Cons True by simp
  next
    case False
    then show ?thesis using Cons by (simp add: routed_def remote_item_duplicate)
  qed
qed simp

lemma remote_routable:
  assumes "\<forall>s \<in> set (kept series). series_named ig s" "s \<in> set series"
  shows "routable (remote_item ig s)"
proof (cases "distinct (label_names (ts_Labels s))")
  case True
  then have "series_named ig s" using assms by simp
  then show ?thesis using remote_item_distinct [OF True, of ig]
    by (auto simp: routable_def series_named_def host_of_def split: option.splits)
qed (simp add: remote_item_duplicate routable_def)

lemma remote_registered:
  "registered (remote_item ig) series = {ident_of ig (ts_Labels s) | s. s \<in> set (kept series) \<and> ident_of ig (ts_Labels s) \<noteq> ''''}"
proof -
  have "(\<exists>metric pt. remote_item ig s = Item (Some h) metric pt) \<longleftrightarrow>
      distinct (label_names (ts_Labels s)) \<and> h = ident_of ig (ts_Labels s) \<and> h \<noteq> ''''" for s h
    using remote_item_distinct [of s ig] remote_item_duplicate [of s ig]
    by (cases "distinct (label_names (ts_Labels s))") (auto simp: host_of_def split: if_splits)
  then show ?thesis unfolding registered_def by auto
qed

lemma mset_idents_dom:
  "dom (go_get (rt_IdentSet (mset_idents ids rt))) = dom (go_get (rt_IdentSet rt)) \<union> dom (go_get ids)"
  by (simp add: mset_idents_def MSet_keys fair_order_id)

lemma acc_start_simps [simp]: "pa_succ acc_start = 0" "pa_fail acc_start = 0" "pa_ids acc_start = []"
  by (simp_all add: acc_start_def)

text \<open>C33. A remote-write request is answered with 200 when each of its series names a host or a
  metric. Series with duplicate label names are dropped. Every other series is put, in the order of
  the request, at the end of exactly one queue, the queue of its host or else of the first two
  characters of its metric, as far as that queue has room; its samples are unchanged, and its labels
  are its own, with the label that names the host renamed to \<open>ident\<close> and the labels of the host
  added. The hosts registered are exactly those named by the series kept.\<close>

theorem remote_write_effect:
  assumes "series \<noteq> []" and "\<forall>s \<in> set (kept series). series_named ig s" and "targets_ok rt" and "fair_order ord"
  shows "\<exists>rt' kvs. remoteWrite ord now ig (Inr series) rt = (rt', Status 200 '''') \<and>
     list_all2 (\<lambda>s (k, v). k = remote_key ig s \<and> ts_Samples v = ts_Samples s \<and>
        distinct (label_names (ts_Labels v)) \<and> label_value (ts_Labels v) = remote_labels rt ig s) (kept series) kvs \<and>
     (\<forall>i. pending i (rt_Writers rt') = pending i (rt_Writers rt) @
        take (room i (rt_Writers rt)) (map snd (filter (\<lambda>kv. fst kv = i) kvs))) \<and>
     dom (go_get (rt_IdentSet rt')) = dom (go_get (rt_IdentSet rt)) \<union>
        {ident_of ig (ts_Labels s) | s. s \<in> set (kept series) \<and> ident_of ig (ts_Labels s) \<noteq> ''''}"
proof -
  let ?kvs = "concat (map (routed (remote_item ig) ord rt) series)"
  have "\<forall>s \<in> set series. routable (remote_item ig s)" using remote_routable [OF assms(2)] by blast
  from push_loop_ok [OF this, of "\<lambda>msg e. msg" ord now acc_start rt]
  obtain acc where loop: "push_loop (remote_item ig) (\<lambda>msg e. msg) ord now series acc_start rt = (push_all now ?kvs rt, Inr acc)"
    "dom (go_get (pa_ids acc)) = registered (remote_item ig) series" by auto
  let ?rt = "mset_idents (pa_ids acc) (push_all now ?kvs rt)"
  have "remoteWrite ord now ig (Inr series) rt = (?rt, Status 200 '''')"
    using assms(1) loop(1) by (simp add: remoteWrite_def)
  moreover have "\<forall>i. pending i (rt_Writers ?rt) = pending i (rt_Writers rt) @
      take (room i (rt_Writers rt)) (map snd (filter (\<lambda>kv. fst kv = i) ?kvs))"
    using push_all_pending by (simp add: mset_idents_def)
  moreover have "dom (go_get (rt_IdentSet ?rt)) = dom (go_get (rt_IdentSet rt)) \<union>
      {ident_of ig (ts_Labels s) | s. s \<in> set (kept series) \<and> ident_of ig (ts_Labels s) \<noteq> ''''}"
    unfolding mset_idents_dom loop(2) remote_registered by simp
  ultimately show ?thesis using remote_routed_all [OF assms(2,3,4)] by blast
qed

definition sample_router :: Router where
  "sample_router = \<lparr>rt_Pushgw = sample_pushgw_checked,
     rt_TargetCache = \<lparr>ch_statTotal = 1, ch_statLastUpdated = 1, ch_data = [(''a'', sample_target)]\<rparr>,
     rt_BusiGroupCache = sample_groups, rt_IdentSet = [],
     rt_Writers = \<lparr>wr_backends = [], wr_queues = [], wr_QueueMaxSize = 10, wr_QueuePopSize = 5\<rparr>,
     rt_EnrichLabels = (\<lambda>pt. pt)\<rparr>"

definition nameless :: TimeSeries where
  "nameless = \<lparr>ts_Labels = [mk_label ''job'' ''x''], ts_Samples = []\<rparr>"

lemma sample_targets_ok: "targets_ok sample_router"
  by (auto simp: targets_ok_def sample_router_def sample_target_def go_wf_def go_keys_def sample_pushgw_checked_def ran_def
      split: if_splits)

theorem remote_write_effect_witness:
  "\<exists>rt' v. remoteWrite rev 9 False (Inr [sample_series]) sample_router = (rt', Status 200 '''') \<and>
     pending ''a'' (rt_Writers rt') = [v] \<and> label_value (ts_Labels v) ''busigroup'' = Some ''cloud'' \<and>
     dom (go_get (rt_IdentSet rt')) = {''a''}"
proof -
  have k: "kept [sample_series] = [sample_series]" "ident_of False (ts_Labels sample_series) = ''a''"
    by (simp_all add: sample_series_def ident_of_def ident_source_def)
  have named: "\<forall>s \<in> set (kept [sample_series]). series_named False s" by (simp add: k series_named_def)
  from remote_write_effect [OF _ named sample_targets_ok fair_order_rev, of 9]
  obtain rt' kvs where r: "remoteWrite rev 9 False (Inr [sample_series]) sample_router = (rt', Status 200 '''')"
    "list_all2 (\<lambda>s (k, v). k = remote_key False s \<and> ts_Samples v = ts_Samples s \<and> distinct (label_names (ts_Labels v)) \<and>
        label_value (ts_Labels v) = remote_labels sample_router False s) [sample_series] kvs"
    "\<forall>i. pending i (rt_Writers rt') = pending i (rt_Writers sample_router) @
        take (room i (rt_Writers sample_router)) (map snd (filter (\<lambda>kv. fst kv = i) kvs))"
    "dom (go_get (rt_IdentSet rt')) = {''a''}"
    unfolding k(1) by (auto simp: k(2) sample_router_def)
  obtain v where v: "kvs = [(''a'', v)]" "label_value (ts_Labels v) = remote_labels sample_router False sample_series"
    using r(2) k(2) by (auto simp: list_all2_Cons1 remote_key_def)
  have "room ''a'' (rt_Writers sample_router) = 10" "pending ''a'' (rt_Writers sample_router) = []"
    by (simp_all add: room_def pending_def ident_queue_def NewSafeListLimited_def sample_router_def)
  then have "pending ''a'' (rt_Writers rt') = [v]" using r(3) v(1) by simp
  moreover have "remote_labels sample_router False sample_series ''busigroup'' = Some ''cloud''"
    by (simp add: remote_labels_def Let_def ident_of_def renamed_def ident_source_def host_labels_def sample_router_def sample_series_def
        sample_target_def sample_groups_def sample_pushgw_checked_def sample_pushgw_def group_value_def cache_Get_def)
  ultimately show ?thesis using r(1,4) v(2) by auto
qed

text \<open>A series that names neither a host nor a metric makes the handler panic: the series before it
  were queued, those after it are lost, and no host of the request is registered.\<close>

lemma nameless_series_aborts:
  assumes "\<forall>s \<in> set (kept xs). series_named ig s" "distinct (label_names (ts_Labels s))" "\<not> series_named ig s"
  shows "remoteWrite ord now ig (Inr (xs @ s # ys)) rt =
    (push_all now (concat (map (routed (remote_item ig) ord rt) xs)) rt, Panicked Slice_out_of_range)"
proof -
  have "\<forall>s \<in> set xs. routable (remote_item ig s)" using remote_routable [OF assms(1)] by blast
  from push_loop_ok [OF this, of "\<lambda>msg e. msg" ord now acc_start rt]
  obtain acc where loop: "push_loop (remote_item ig) (\<lambda>msg e. msg) ord now xs acc_start rt =
      (push_all now (concat (map (routed (remote_item ig) ord rt) xs)) rt, Inr acc)" by auto
  obtain pt where "remote_item ig s = Item None '''' pt"
    using remote_item_distinct [OF assms(2), of ig] assms(3) by (auto simp: series_named_def host_of_def split: option.splits)
  then show ?thesis using loop
    by (simp add: remoteWrite_def push_loop_append forward_series_def ForwardByMetric_def Let_def)
qed

subsection \<open>Open-Falcon\<close>

lemma length_prom_name: "length (prom_name s) = length s"
  by (simp add: prom_name_def Let_def length_ReplaceAll_char)

lemma falcon_item_routable: "routable (falcon_item L ord ts m)"
proof -
  have "metric \<noteq> ''''" if "Falcon_Clean L ts m = Inr m1" "Falcon_ToProm L ord m1 = Inr (pt, ident, metric)" for m1 pt ident metric
  proof -
    have "fm_Metric m1 \<noteq> ''''" using that(1) by (auto simp: Falcon_Clean_def split: if_splits option.splits)
    moreover have "metric = prom_name (fm_Metric m1)"
      using that(2) by (auto simp: Falcon_ToProm_def Let_def split: if_splits prod.splits sum.splits)
    ultimately show ?thesis using length_prom_name [of "fm_Metric m1"] by auto
  qed
  then show ?thesis by (auto simp: falcon_item_def routable_def split: sum.splits)
qed

lemma falcon_item_total: "is_item (falcon_item L ord ts m) \<noteq> is_fail (falcon_item L ord ts m)"
  by (auto simp: falcon_item_def split: sum.splits)

text \<open>C37. The Open-Falcon handler answers every body that can be read and decoded, and never panics
  on one that is not empty. A body it cannot read or decode is answered with 400 and changes
  nothing. Otherwise the answer counts the accepted and the refused metrics, which together are all
  metrics of the body; the accepted ones, and only those, are queued in order, and the hosts they
  name are registered.\<close>

theorem falcon_push_effect:
  assumes "body \<noteq> Inr []"
  shows "\<exists>rt' resp. falconPush L arr one ord now body rt = (rt', resp) \<and>
     (case decode_body arr one body of Inr (Inr ms) \<Rightarrow>
        (\<exists>succ fail msg. resp = Counts succ fail msg \<and> succ + fail = int (length ms) \<and>
           succ = int (length (filter (\<lambda>m. is_item (falcon_item L ord now m)) ms))) \<and>
        (\<forall>i. pending i (rt_Writers rt') = pending i (rt_Writers rt) @ take (room i (rt_Writers rt))
           (map snd (filter (\<lambda>kv. fst kv = i) (concat (map (routed (falcon_item L ord now) ord rt) ms))))) \<and>
        dom (go_get (rt_IdentSet rt')) = dom (go_get (rt_IdentSet rt)) \<union> registered (falcon_item L ord now) ms
      | Inr (Inl err) \<Rightarrow> rt' = rt \<and> resp = Status 400 err
      | Inl p \<Rightarrow> False)"
proof (cases "decode_body arr one body")
  case (Inl p)
  then show ?thesis using assms by (auto simp: decode_body_def split: sum.splits list.splits if_splits)
next
  case (Inr r)
  show ?thesis
  proof (cases r)
    case (Inl err)
    then show ?thesis using Inr by (simp add: falconPush_def)
  next
    case ms: (Inr ms)
    let ?conv = "falcon_item L ord now"
    let ?rt1 = "push_all now (concat (map (routed ?conv ord rt) ms)) rt"
    have "\<forall>m \<in> set ms. routable (?conv m)" using falcon_item_routable by blast
    from push_loop_ok [OF this, of "\<lambda>msg e. msg" ord now acc_start rt]
    obtain acc where loop: "push_loop ?conv (\<lambda>msg e. msg) ord now ms acc_start rt = (?rt1, Inr acc)"
      "pa_succ acc = int (length (filter (\<lambda>m. is_item (?conv m)) ms))"
      "pa_fail acc = int (length (filter (\<lambda>m. is_fail (?conv m)) ms))"
      "dom (go_get (pa_ids acc)) = registered ?conv ms" by auto
    have "filter (\<lambda>m. is_fail (?conv m)) ms = filter (\<lambda>m. \<not> is_item (?conv m)) ms"
      using falcon_item_total by (intro filter_cong) auto
    then have sum: "pa_succ acc + pa_fail acc = int (length ms)"
      using sum_length_filter_compl [of "\<lambda>m. is_item (?conv m)" ms] loop(2,3) by simp
    have none: "registered ?conv ms = {}" if "\<not> pa_succ acc > 0"
      using that loop(2) by (auto simp: registered_def filter_empty_conv)
    have res: "falconPush L arr one ord now body rt =
        ((if pa_succ acc > 0 then mset_idents (pa_ids acc) ?rt1 else ?rt1), Counts (pa_succ acc) (pa_fail acc) (pa_msg acc))"
      using Inr ms loop(1) by (simp add: falconPush_def finish_counts_def)
    have "pending i (rt_Writers (if pa_succ acc > 0 then mset_idents (pa_ids acc) ?rt1 else ?rt1)) = pending i (rt_Writers ?rt1)" for i
      by (simp add: mset_idents_def)
    moreover have "dom (go_get (rt_IdentSet (if pa_succ acc > 0 then mset_idents (pa_ids acc) ?rt1 else ?rt1))) =
        dom (go_get (rt_IdentSet rt)) \<union> registered ?conv ms"
      using none loop(4) by (auto simp: mset_idents_dom)
    ultimately show ?thesis unfolding res Inr ms using sum loop(2) push_all_pending by simp
  qed
qed

theorem falcon_push_effect_witness:
  "\<exists>rt'. falconPush sample_ingest (\<lambda>_. Inr [sample_falcon, sample_falcon\<lparr>fm_Metric := ''''\<rparr>]) (\<lambda>_. Inl ''bad'') (\<lambda>ks. ks) 9000
     (Inr ''[..]'') sample_router = (rt', Counts 1 1 ''received'') \<and> length (pending ''h1'' (rt_Writers rt')) = 1"
proof -
  let ?ms = "[sample_falcon, sample_falcon\<lparr>fm_Metric := ''''\<rparr>]"
  have d: "decode_body (\<lambda>_. Inr ?ms) (\<lambda>_. Inl ''bad'') (Inr ''[..]'') = Inr (Inr ?ms)"
    by (simp add: decode_body_def)
  obtain pt where i: "falcon_item sample_ingest (\<lambda>ks. ks) 9000 sample_falcon = Item (Some ''h1'') ''cpu_idle'' pt"
    by (simp add: falcon_item_def Falcon_Clean_def Falcon_ToProm_def sample_falcon_def sample_ingest_def Let_def falcon_ident_def
        prom_name_def host_of_def go_simps)
  have f: "falcon_item sample_ingest (\<lambda>ks. ks) 9000 (sample_falcon\<lparr>fm_Metric := ''''\<rparr>) = Fail ''metric is blank''"
    by (simp add: falcon_item_def Falcon_Clean_def)
  have w: "room ''h1'' (rt_Writers sample_router) = 10" "pending ''h1'' (rt_Writers sample_router) = []"
    by (simp_all add: room_def pending_def ident_queue_def NewSafeListLimited_def sample_router_def)
  from falcon_push_effect [of "Inr ''[..]''" sample_ingest "\<lambda>_. Inr ?ms" "\<lambda>_. Inl ''bad''" "\<lambda>ks. ks" 9000 sample_router]
  obtain rt' resp succ fail msg where r: "falconPush sample_ingest (\<lambda>_. Inr ?ms) (\<lambda>_. Inl ''bad'') (\<lambda>ks. ks) 9000 (Inr ''[..]'') sample_router = (rt', resp)"
    "resp = Counts succ fail msg" "succ + fail = 2" "succ = 1" "length (pending ''h1'' (rt_Writers rt')) = 1"
    unfolding d by (auto simp: i f w routed_def)
  have "msg = ''received''" using r(1,2) d i f
    by (auto simp: falconPush_def finish_counts_def count_failure_def register_host_def acc_start_def forward_series_def ForwardByIdent_def)
  then show ?thesis using r by simp
qed

end
