(* ===== verification/Secu.thy ===== *)
theory Secu
  imports Go_Strings "HOL-Library.Word"
begin

unbundle bit_operations_syntax

text \<open>
  Encrypted configuration values (\<open>pkg/secu/aes.go\<close>) and their use when the configuration is loaded
  (\<open>conf/crypto.go\<close>): standard base64, PKCS7 padding and the CBC chaining of AES, with the first
  sixteen bytes of the key as initial vector. The AES block functions are arguments; all that is
  assumed of them is that decryption inverts encryption on blocks of sixteen bytes. A value that is
  not a whole number of blocks, is empty, or has a wrong padding makes decryption panic. The lemmas
  lead to the round trip of a configuration value.
\<close>

type_synonym byte = "8 word"

definition bytes_of :: "string \<Rightarrow> byte list" where
  "bytes_of s = map (\<lambda>c. of_nat (of_char c)) s"

definition string_of :: "byte list \<Rightarrow> string" where
  "string_of bs = map (\<lambda>b. char_of (unat b)) bs"

lemma string_of_bytes_of [simp]: "string_of (bytes_of s) = s"
proof -
  have "unat (of_nat (of_char c) :: byte) = of_char c" for c
    by (simp add: unat_of_nat)
  then show ?thesis by (simp add: string_of_def bytes_of_def comp_def)
qed

subsection \<open>Base64\<close>

definition alphabet :: string where
  "alphabet = ''ABCDEFGHIJKLMNOPQRSTUVWXYZabcdefghijklmnopqrstuvwxyz0123456789+/''"

fun position :: "'a \<Rightarrow> 'a list \<Rightarrow> nat option" where
  "position c [] = None"
| "position c (x # xs) = (if x = c then Some 0 else map_option Suc (position c xs))"

definition enc_char :: "nat \<Rightarrow> char" where
  "enc_char n = alphabet ! (n mod 64)"

definition dec_char :: "char \<Rightarrow> nat option" where
  "dec_char c = position c alphabet"

fun b64_encode :: "byte list \<Rightarrow> string" where
  "b64_encode [] = []"
| "b64_encode [a] = (let n = unat a * 65536 in [enc_char (n div 262144), enc_char (n div 4096), CHR ''='', CHR ''=''])"
| "b64_encode [a, b] = (let n = unat a * 65536 + unat b * 256 in
     [enc_char (n div 262144), enc_char (n div 4096), enc_char (n div 64), CHR ''=''])"
| "b64_encode (a # b # c # bs) = (let n = unat a * 65536 + unat b * 256 + unat c in
     [enc_char (n div 262144), enc_char (n div 4096), enc_char (n div 64), enc_char n] @ b64_encode bs)"

text \<open>The decoder reads groups of four characters; padding may only end the last group.\<close>

fun b64_groups :: "string \<Rightarrow> byte list option" where
  "b64_groups [] = Some []"
| "b64_groups (a # b # c # d # rest) =
     (case (dec_char a, dec_char b) of
        (Some s1, Some s2) \<Rightarrow>
          if c = CHR ''='' then
            (if d = CHR ''='' \<and> rest = [] then Some [of_nat ((s1 * 262144 + s2 * 4096) div 65536)] else None)
          else (case dec_char c of None \<Rightarrow> None
            | Some s3 \<Rightarrow>
               if d = CHR ''='' then
                 (if rest = []
                  then (let n = s1 * 262144 + s2 * 4096 + s3 * 64 in Some [of_nat (n div 65536), of_nat (n div 256)])
                  else None)
               else (case dec_char d of None \<Rightarrow> None
                 | Some s4 \<Rightarrow>
                    (let n = s1 * 262144 + s2 * 4096 + s3 * 64 + s4 in
                     map_option (\<lambda>bs. of_nat (n div 65536) # of_nat (n div 256) # of_nat n # bs) (b64_groups rest))))
      | _ \<Rightarrow> None)"
| "b64_groups _ = None"

definition BASE64StdEncode :: "byte list \<Rightarrow> string" where
  "BASE64StdEncode src = b64_encode src"

text \<open>Line breaks are skipped wherever they occur.\<close>

definition BASE64StdDecode :: "string \<Rightarrow> byte list option" where
  "BASE64StdDecode src = b64_groups (filter (\<lambda>c. c \<noteq> CHR 0x0A \<and> c \<noteq> CHR 0x0D) src)"

lemma position_nth: "distinct xs \<Longrightarrow> i < length xs \<Longrightarrow> position (xs ! i) xs = Some i"
proof (induction xs arbitrary: i)
  case (Cons x xs)
  then show ?case by (cases i) (auto simp: nth_mem)
qed simp

lemma alphabet_distinct: "distinct alphabet" "length alphabet = 64"
  by (simp_all add: alphabet_def)

lemma dec_enc [simp]: "dec_char (enc_char n) = Some (n mod 64)"
  unfolding dec_char_def enc_char_def by (rule position_nth) (simp_all add: alphabet_distinct)

lemma enc_char_in: "enc_char n \<in> set alphabet"
  unfolding enc_char_def by (rule nth_mem) (simp add: alphabet_distinct)

lemma enc_char_plain [simp]: "enc_char n \<noteq> CHR ''=''" "enc_char n \<noteq> CHR 0x0A" "enc_char n \<noteq> CHR 0x0D"
  using enc_char_in [of n] by (auto simp: alphabet_def)

lemma b64_encode_plain: "c \<in> set (b64_encode bs) \<Longrightarrow> c \<noteq> CHR 0x0A \<and> c \<noteq> CHR 0x0D"
  by (induction bs rule: b64_encode.induct) (auto simp: Let_def)

lemma byte_bound: "unat (a :: byte) < 256"
  using unsigned_less [of a] by simp

lemma of_nat_unat_mod: "of_nat (unat (a :: byte) + 256 * k) = a"
proof -
  have "unat (of_nat (unat a + 256 * k) :: byte) = (unat a + 256 * k) mod 256"
    by (simp only: unat_of_nat) simp
  also have "\<dots> = unat a" using byte_bound [of a] by simp
  finally show ?thesis by (simp only: word_unat_eq_iff)
qed

lemma sextets:
  fixes n :: nat
  assumes "n < 16777216"
  shows "n div 262144 mod 64 * 262144 + n div 4096 mod 64 * 4096 + n div 64 mod 64 * 64 + n mod 64 = n"
proof -
  have d: "n div 4096 = n div 64 div 64" "n div 262144 = n div 4096 div 64" by (simp_all add: div_mult2_eq [symmetric])
  have "n div 262144 < 64" using assms by (simp add: div_less_iff_less_mult)
  then have m: "n div 262144 mod 64 = n div 262144" by simp
  have "n div 64 * 64 + n mod 64 = n" "n div 4096 * 64 + n div 64 mod 64 = n div 64"
    "n div 262144 * 64 + n div 4096 mod 64 = n div 4096"
    unfolding d by (rule div_mult_mod_eq)+
  then show ?thesis unfolding m by linarith
qed

lemma byte_parts:
  fixes A B C :: nat
  assumes "A < 256" "B < 256" "C < 256"
  shows "(A * 65536 + B * 256 + C) div 65536 = A" "(A * 65536 + B * 256 + C) div 256 = B + 256 * A"
    "A * 65536 + B * 256 + C = C + 256 * (A * 256 + B)" "A * 65536 + B * 256 + C < 16777216"
proof -
  show "(A * 65536 + B * 256 + C) div 65536 = A" by (rule div_nat_eqI) (use assms in simp_all)
  show "(A * 65536 + B * 256 + C) div 256 = B + 256 * A" by (rule div_nat_eqI) (use assms in simp_all)
  show "A * 65536 + B * 256 + C = C + 256 * (A * 256 + B)" by simp
  show "A * 65536 + B * 256 + C < 16777216" using assms by linarith
qed

lemma b64_roundtrip: "b64_groups (b64_encode bs) = Some bs"
proof (induction bs rule: b64_encode.induct)
  case (2 a)
  let ?n = "unat a * 65536"
  have "?n div 64 mod 64 = 0" by (simp add: mult.commute [of _ 65536] flip: mult.assoc div_mult2_eq)
  then have "?n div 262144 mod 64 * 262144 + ?n div 4096 mod 64 * 4096 = ?n"
    using sextets [of ?n] byte_bound [of a] by simp
  then have "b64_groups (b64_encode [a]) = Some [of_nat (?n div 65536)]"
    by (simp only: b64_encode.simps b64_groups.simps Let_def dec_enc option.case prod.case simp_thms if_True)
  then show ?case by simp
next
  case (3 a b)
  let ?n = "unat a * 65536 + unat b * 256"
  have l: "unat a < 256" "unat b < 256" by (rule byte_bound)+
  have "?n mod 64 = 0" by (simp add: mod_add_eq [symmetric] mod_mult_right_eq [symmetric])
  then have s: "?n div 262144 mod 64 * 262144 + ?n div 4096 mod 64 * 4096 + ?n div 64 mod 64 * 64 = ?n"
    using sextets [of ?n] byte_parts(4) [OF l, of 0] by simp
  have p: "?n div 65536 = unat a" "?n div 256 = unat b + 256 * unat a" using byte_parts [OF l, of 0] by simp_all
  have "b64_groups (b64_encode [a, b]) = Some [of_nat (?n div 65536), of_nat (?n div 256)]"
    by (simp only: b64_encode.simps b64_groups.simps Let_def dec_enc option.case prod.case simp_thms if_True if_False enc_char_plain s)
  also have "\<dots> = Some [a, b]" unfolding p of_nat_unat_mod by simp
  finally show ?case .
next
  case (4 a b c bs)
  let ?n = "unat a * 65536 + unat b * 256 + unat c"
  have l: "unat a < 256" "unat b < 256" "unat c < 256"
    by (rule byte_bound)+
  note s = sextets [OF byte_parts(4) [OF l]] and p = byte_parts(1,2) [OF l]
  have n: "of_nat ?n = c" unfolding byte_parts(3) [OF l] by (rule of_nat_unat_mod)
  have "b64_groups (b64_encode (a # b # c # bs)) =
      map_option (\<lambda>bs. of_nat (?n div 65536) # of_nat (?n div 256) # of_nat ?n # bs) (b64_groups (b64_encode bs))"
    by (simp only: b64_encode.simps b64_groups.simps Let_def dec_enc option.case prod.case if_False enc_char_plain
        append_Cons append_Nil s)
  also have "\<dots> = Some (a # b # c # bs)"
    unfolding p n of_nat_unat_mod using 4 by simp
  finally show ?case .
qed simp

lemma base64_roundtrip: "BASE64StdDecode (BASE64StdEncode bs) = Some bs"
proof -
  have "filter (\<lambda>c. c \<noteq> CHR 0x0A \<and> c \<noteq> CHR 0x0D) (b64_encode bs) = b64_encode bs"
    using b64_encode_plain [of _ bs] by (simp add: filter_id_conv)
  then show ?thesis by (simp add: BASE64StdDecode_def BASE64StdEncode_def b64_roundtrip)
qed

subsection \<open>Padding\<close>

definition PKCS7Padding :: "byte list \<Rightarrow> nat \<Rightarrow> byte list" where
  "PKCS7Padding ciphertext blockSize =
     (let padding = blockSize - length ciphertext mod blockSize in ciphertext @ replicate padding (of_nat padding))"

definition PKCS7UnPadding :: "byte list \<Rightarrow> byte list res" where
  "PKCS7UnPadding originData =
     (if originData = [] then Inl Index_out_of_range
      else let unpadding = unat (last originData) in
        if unpadding > length originData then Inl Slice_out_of_range
        else Inr (take (length originData - unpadding) originData))"

lemma padding_length: "0 < n \<Longrightarrow> n dvd length (PKCS7Padding xs n)"
proof -
  assume n: "0 < n"
  then have "length xs mod n < n" by simp
  then have "length (PKCS7Padding xs n) = length xs div n * n + n"
    using div_mult_mod_eq [of "length xs" n] by (simp only: PKCS7Padding_def Let_def length_append length_replicate)
  then show ?thesis by simp
qed

lemma unpadding_padding:
  assumes "0 < n" "n < 256"
  shows "PKCS7UnPadding (PKCS7Padding xs n) = Inr xs"
proof -
  let ?p = "n - length xs mod n"
  have p: "0 < ?p" "?p < 256" using assms by simp_all
  have u: "unat (of_nat ?p :: byte) = ?p" using p(2) by (simp add: unat_of_nat)
  have l: "last (PKCS7Padding xs n) = of_nat ?p" using p(1) by (simp add: PKCS7Padding_def Let_def)
  have n: "PKCS7Padding xs n \<noteq> []" using p(1) by (simp add: PKCS7Padding_def Let_def)
  have "length (PKCS7Padding xs n) = length xs + ?p" by (simp add: PKCS7Padding_def Let_def)
  moreover have "take (length xs) (PKCS7Padding xs n) = xs" by (simp add: PKCS7Padding_def Let_def)
  ultimately show ?thesis using n l u by (simp add: PKCS7UnPadding_def Let_def)
qed

subsection \<open>Cipher block chaining\<close>

record aes_ops =
  aes_encrypt :: "byte list \<Rightarrow> byte list \<Rightarrow> byte list"
  aes_decrypt :: "byte list \<Rightarrow> byte list \<Rightarrow> byte list"

definition xor_block :: "byte list \<Rightarrow> byte list \<Rightarrow> byte list" where
  "xor_block xs ys = map2 (XOR) xs ys"

fun cbc_encrypt :: "(byte list \<Rightarrow> byte list) \<Rightarrow> byte list \<Rightarrow> nat \<Rightarrow> byte list \<Rightarrow> byte list" where
  "cbc_encrypt e iv 0 xs = []"
| "cbc_encrypt e iv (Suc n) xs = (let c = e (xor_block (take 16 xs) iv) in c @ cbc_encrypt e c n (drop 16 xs))"

fun cbc_decrypt :: "(byte list \<Rightarrow> byte list) \<Rightarrow> byte list \<Rightarrow> nat \<Rightarrow> byte list \<Rightarrow> byte list" where
  "cbc_decrypt d iv 0 xs = []"
| "cbc_decrypt d iv (Suc n) xs = xor_block (d (take 16 xs)) iv @ cbc_decrypt d (take 16 xs) n (drop 16 xs)"

text \<open>\<open>aes.NewCipher\<close> accepts keys of 16, 24 or 32 bytes.\<close>

definition key_error :: "byte list \<Rightarrow> string option" where
  "key_error key = (if length key \<in> {16, 24, 32} then None
     else Some (''crypto/aes: invalid key size '' @ show_nat (length key)))"

definition AesEncrypt :: "aes_ops \<Rightarrow> byte list \<Rightarrow> byte list \<Rightarrow> string + byte list" where
  "AesEncrypt A origData key =
     (case key_error key of Some err \<Rightarrow> Inl err
      | None \<Rightarrow>
         (let padOrigData = PKCS7Padding origData 16
          in Inr (cbc_encrypt (aes_encrypt A key) (take 16 key) (length padOrigData div 16) padOrigData)))"

definition AesDecrypt :: "aes_ops \<Rightarrow> byte list \<Rightarrow> byte list \<Rightarrow> (string + byte list) res" where
  "AesDecrypt A crypted key =
     (case key_error key of Some err \<Rightarrow> Inr (Inl err)
      | None \<Rightarrow>
         if length crypted mod 16 \<noteq> 0 then Inl Not_full_blocks
         else res_bind (PKCS7UnPadding (cbc_decrypt (aes_decrypt A key) (take 16 key) (length crypted div 16) crypted))
                (\<lambda>origData. Inr (Inr origData)))"

definition aes_ok :: "aes_ops \<Rightarrow> bool" where
  "aes_ok A \<longleftrightarrow> (\<forall>key b. length key \<in> {16, 24, 32} \<longrightarrow> length b = 16 \<longrightarrow>
     length (aes_encrypt A key b) = 16 \<and> aes_decrypt A key (aes_encrypt A key b) = b)"

lemma xor_block_length [simp]: "length (xor_block xs ys) = min (length xs) (length ys)"
  by (simp add: xor_block_def)

lemma xor_block_self: "length xs = length ys \<Longrightarrow> xor_block (xor_block xs ys) ys = xs"
  unfolding xor_block_def by (induction xs ys rule: list_induct2) (auto simp: xor.assoc)

lemma cbc_roundtrip:
  assumes "\<And>b. length b = 16 \<Longrightarrow> length (e b) = 16 \<and> d (e b) = b" "length iv = 16" "length xs = n * 16"
  shows "cbc_decrypt d iv n (cbc_encrypt e iv n xs) = xs \<and> length (cbc_encrypt e iv n xs) = n * 16"
  using assms(2,3)
proof (induction n arbitrary: iv xs)
  case (Suc n)
  let ?b = "xor_block (take 16 xs) iv"
  have b: "length ?b = 16" using Suc.prems by simp
  have e: "length (e ?b) = 16" "d (e ?b) = ?b" using assms(1) [OF b] by auto
  have x: "xor_block ?b iv = take 16 xs" by (rule xor_block_self) (use Suc.prems in simp)
  have "cbc_decrypt d (e ?b) n (cbc_encrypt e (e ?b) n (drop 16 xs)) = drop 16 xs \<and>
      length (cbc_encrypt e (e ?b) n (drop 16 xs)) = n * 16"
    by (rule Suc.IH [OF e(1)]) (use Suc.prems in simp)
  then show ?case using e x by (simp add: Let_def)
qed simp

lemma aes_roundtrip:
  assumes "aes_ok A" "length key \<in> {16, 24, 32}"
  shows "\<exists>c. AesEncrypt A xs key = Inr c \<and> AesDecrypt A c key = Inr (Inr xs)"
proof -
  let ?p = "PKCS7Padding xs 16" and ?n = "length (PKCS7Padding xs 16) div 16"
  have k: "key_error key = None" using assms(2) by (simp add: key_error_def)
  have l: "length ?p = ?n * 16" using padding_length [of 16 xs] by simp
  have iv: "length (take 16 key) = 16" using assms(2) by auto
  have ok: "length b = 16 \<Longrightarrow> length (aes_encrypt A key b) = 16 \<and> aes_decrypt A key (aes_encrypt A key b) = b" for b
    using assms unfolding aes_ok_def by blast
  let ?c = "cbc_encrypt (aes_encrypt A key) (take 16 key) ?n ?p"
  have c: "length ?c = ?n * 16" "cbc_decrypt (aes_decrypt A key) (take 16 key) ?n ?c = ?p"
    using cbc_roundtrip [OF ok iv l] by auto
  have "AesDecrypt A ?c key = Inr (Inr xs)"
    using c unpadding_padding [of 16 xs] by (simp add: AesDecrypt_def k)
  then show ?thesis by (simp add: AesEncrypt_def k Let_def)
qed

subsection \<open>Configuration values\<close>

text \<open>The value returned, and the error if there is one.\<close>

definition DealWithDecrypt :: "aes_ops \<Rightarrow> string \<Rightarrow> string \<Rightarrow> (string \<times> string option) res" where
  "DealWithDecrypt A src key =
     (if prefix ''{{cipher}}'' src
      then (case BASE64StdDecode (drop 10 src) of None \<Rightarrow> Inr (src, Some ''illegal base64 data'')
            | Some decodeData \<Rightarrow>
               res_bind (AesDecrypt A decodeData (bytes_of key)) (\<lambda>r.
               case r of Inl err \<Rightarrow> Inr (src, Some err) | Inr origin \<Rightarrow> Inr (string_of origin, None)))
      else Inr (src, None))"

definition DealWithEncrypt :: "aes_ops \<Rightarrow> string \<Rightarrow> string \<Rightarrow> string \<times> string option" where
  "DealWithEncrypt A src key =
     (case AesEncrypt A (bytes_of src) (bytes_of key) of
        Inl err \<Rightarrow> (src, Some err)
      | Inr encrypted \<Rightarrow> (''{{cipher}}'' @ BASE64StdEncode encrypted, None))"

lemma DealWith_roundtrip:
  assumes "aes_ok A" "length key \<in> {16, 24, 32}"
  shows "\<exists>c. DealWithEncrypt A src key = (c, None) \<and> DealWithDecrypt A c key = Inr (src, None)"
proof -
  have "length (bytes_of key) \<in> {16, 24, 32}" using assms(2) by (simp add: bytes_of_def)
  from aes_roundtrip [OF assms(1) this, of "bytes_of src"]
  obtain c where c: "AesEncrypt A (bytes_of src) (bytes_of key) = Inr c" "AesDecrypt A c (bytes_of key) = Inr (Inr (bytes_of src))"
    by blast
  have "DealWithDecrypt A (''{{cipher}}'' @ BASE64StdEncode c) key = Inr (src, None)"
    using c(2) by (simp add: DealWithDecrypt_def base64_roundtrip)
  then show ?thesis using c(1) by (simp add: DealWithEncrypt_def)
qed

subsection \<open>Loading the configuration\<close>

text \<open>The values of the configuration that may be encrypted.\<close>

record secrets =
  sec_DSN :: string
  sec_service_auth :: "(string, string) go_map"
  sec_agent_auth :: "(string, string) go_map"
  sec_writer_pass :: "string list"

definition decrypt_value :: "aes_ops \<Rightarrow> string \<Rightarrow> string \<Rightarrow> string \<Rightarrow> (string + string) res" where
  "decrypt_value A key what v =
     res_bind (DealWithDecrypt A v key) (\<lambda>(d, err). case err of None \<Rightarrow> Inr (Inr d)
       | Some e \<Rightarrow> Inr (Inl (''failed to decrypt '' @ what @ '': '' @ e)))"

fun decrypt_map :: "aes_ops \<Rightarrow> string \<Rightarrow> string list \<Rightarrow> (string, string) go_map \<Rightarrow> (string + (string, string) go_map) res" where
  "decrypt_map A key [] m = Inr (Inr m)"
| "decrypt_map A key (k # ks) m =
     res_bind (decrypt_value A key ''http basic auth password'' (case go_get m k of Some v \<Rightarrow> v | None \<Rightarrow> ''''))
       (\<lambda>r. case r of Inl e \<Rightarrow> Inr (Inl e) | Inr d \<Rightarrow> decrypt_map A key ks (go_set k d m))"

fun decrypt_writers :: "aes_ops \<Rightarrow> string \<Rightarrow> string list \<Rightarrow> (string + string list) res" where
  "decrypt_writers A key [] = Inr (Inr [])"
| "decrypt_writers A key (v # vs) =
     res_bind (decrypt_value A key ''writer basic auth password'' v) (\<lambda>r. case r of Inl e \<Rightarrow> Inr (Inl e)
       | Inr d \<Rightarrow> res_bind (decrypt_writers A key vs) (\<lambda>rs. Inr (map_sum id ((#) d) rs)))"

definition decryptConfig :: "aes_ops \<Rightarrow> string range_order \<Rightarrow> string \<Rightarrow> secrets \<Rightarrow> (string + secrets) res" where
  "decryptConfig A ord key c =
     res_bind (decrypt_value A key ''the db dsn'' (sec_DSN c)) (\<lambda>r. case r of Inl e \<Rightarrow> Inr (Inl e) | Inr dsn \<Rightarrow>
     res_bind (decrypt_map A key (ord (go_keys (sec_service_auth c))) (sec_service_auth c)) (\<lambda>r. case r of Inl e \<Rightarrow> Inr (Inl e) | Inr service \<Rightarrow>
     res_bind (decrypt_map A key (ord (go_keys (sec_agent_auth c))) (sec_agent_auth c)) (\<lambda>r. case r of Inl e \<Rightarrow> Inr (Inl e) | Inr agent \<Rightarrow>
     res_bind (decrypt_writers A key (sec_writer_pass c)) (\<lambda>r. case r of Inl e \<Rightarrow> Inr (Inl e) | Inr passes \<Rightarrow>
     Inr (Inr (c\<lparr>sec_DSN := dsn, sec_service_auth := service, sec_agent_auth := agent, sec_writer_pass := passes\<rparr>))))))"

text \<open>A value is protected by a form of it that is its encryption, or itself where it does not look
  encrypted.\<close>

definition protects :: "aes_ops \<Rightarrow> string \<Rightarrow> string \<Rightarrow> string \<Rightarrow> bool" where
  "protects A key v v' \<longleftrightarrow> v' = fst (DealWithEncrypt A v key) \<or> v' = v \<and> \<not> prefix ''{{cipher}}'' v"

definition protects_map :: "aes_ops \<Rightarrow> string \<Rightarrow> (string, string) go_map \<Rightarrow> (string, string) go_map \<Rightarrow> bool" where
  "protects_map A key m m' \<longleftrightarrow> go_wf m' \<and> (\<forall>k. case go_get m' k of None \<Rightarrow> go_get m k = None
     | Some v' \<Rightarrow> \<exists>v. go_get m k = Some v \<and> protects A key v v')"

definition key_usable :: "aes_ops \<Rightarrow> string \<Rightarrow> bool" where
  "key_usable A key \<longleftrightarrow> aes_ok A \<and> length key \<in> {16, 24, 32}"

lemma decrypt_value_protected: "key_usable A key \<Longrightarrow> protects A key v v' \<Longrightarrow> decrypt_value A key what v' = Inr (Inr v)"
proof -
  assume "key_usable A key" and p: "protects A key v v'"
  then obtain c where c: "DealWithEncrypt A v key = (c, None)" "DealWithDecrypt A c key = Inr (v, None)"
    using DealWith_roundtrip unfolding key_usable_def by blast
  have "DealWithDecrypt A v key = Inr (v, None)" if "\<not> prefix ''{{cipher}}'' v" using that by (simp add: DealWithDecrypt_def)
  then have "DealWithDecrypt A v' key = Inr (v, None)" using p c unfolding protects_def by auto
  then show ?thesis by (simp add: decrypt_value_def)
qed

lemma decrypt_map_protected:
  assumes "key_usable A key" "distinct ks" "\<forall>k \<in> set ks. \<exists>v v'. go_get m' k = Some v' \<and> go_get m k = Some v \<and> protects A key v v'"
  shows "\<exists>r. decrypt_map A key ks m' = Inr (Inr r) \<and> (\<forall>k. go_get r k = (if k \<in> set ks then go_get m k else go_get m' k))"
  using assms(2,3)
proof (induction ks arbitrary: m')
  case (Cons k ks)
  then obtain v v' where v: "go_get m' k = Some v'" "go_get m k = Some v" "protects A key v v'" by auto
  have "\<exists>r. decrypt_map A key ks (go_set k v m') = Inr (Inr r) \<and>
      (\<forall>j. go_get r j = (if j \<in> set ks then go_get m j else go_get (go_set k v m') j))"
    by (rule Cons.IH) (use Cons.prems in auto)
  then show ?case using v decrypt_value_protected [OF assms(1) v(3)] Cons.prems(1) by auto
qed simp

lemma decrypt_map_all:
  assumes "key_usable A key" "protects_map A key m m'" "fair_order ord"
  shows "\<exists>r. decrypt_map A key (ord (go_keys m')) m' = Inr (Inr r) \<and> go_get r = go_get m"
proof -
  have ks: "set (ord (go_keys m')) = dom (go_get m')" "distinct (ord (go_keys m'))"
    using assms(2,3) by (simp_all add: gm.keys_dom gm.wf_keys protects_map_def)
  have p: "case go_get m' k of None \<Rightarrow> go_get m k = None | Some v' \<Rightarrow> \<exists>v. go_get m k = Some v \<and> protects A key v v'" for k
    using assms(2) by (simp add: protects_map_def)
  have "\<exists>v v'. go_get m' k = Some v' \<and> go_get m k = Some v \<and> protects A key v v'" if "k \<in> set (ord (go_keys m'))" for k
    using that p [of k] unfolding ks(1) by auto
  then obtain r where r: "decrypt_map A key (ord (go_keys m')) m' = Inr (Inr r)"
    "\<forall>k. go_get r k = (if k \<in> set (ord (go_keys m')) then go_get m k else go_get m' k)"
    using decrypt_map_protected [OF assms(1) ks(2)] by blast
  have "go_get r k = go_get m k" for k using r(2) p [of k] unfolding ks(1) by (auto simp: dom_def split: option.splits)
  then show ?thesis using r(1) by auto
qed

lemma decrypt_writers_all:
  "key_usable A key \<Longrightarrow> list_all2 (protects A key) vs vs' \<Longrightarrow> decrypt_writers A key vs' = Inr (Inr vs)"
  by (induction vs' arbitrary: vs) (auto simp: list_all2_Cons2 decrypt_value_protected)

text \<open>C40. Encrypting any of the data base address and the passwords of a configuration with a key of
  16, 24 or 32 bytes and loading it with that key gives back the configuration: decryption inverts
  encryption, values that were left in plain text are kept, and loading neither fails nor panics.\<close>

theorem config_roundtrip:
  assumes "aes_ok A" and "length key \<in> {16, 24, 32}" and "fair_order ord"
    and "protects A key (sec_DSN c) (sec_DSN c')" and "protects_map A key (sec_service_auth c) (sec_service_auth c')"
    and "protects_map A key (sec_agent_auth c) (sec_agent_auth c')"
    and "list_all2 (protects A key) (sec_writer_pass c) (sec_writer_pass c')"
  shows "\<exists>r. decryptConfig A ord key c' = Inr (Inr r) \<and> sec_DSN r = sec_DSN c \<and> sec_writer_pass r = sec_writer_pass c \<and>
     go_get (sec_service_auth r) = go_get (sec_service_auth c) \<and> go_get (sec_agent_auth r) = go_get (sec_agent_auth c)"
proof -
  have k: "key_usable A key" using assms(1,2) by (simp add: key_usable_def)
  obtain s where s: "decrypt_map A key (ord (go_keys (sec_service_auth c'))) (sec_service_auth c') = Inr (Inr s)"
    "go_get s = go_get (sec_service_auth c)" using decrypt_map_all [OF k assms(5,3)] by blast
  obtain a where a: "decrypt_map A key (ord (go_keys (sec_agent_auth c'))) (sec_agent_auth c') = Inr (Inr a)"
    "go_get a = go_get (sec_agent_auth c)" using decrypt_map_all [OF k assms(6,3)] by blast
  show ?thesis using s a decrypt_value_protected [OF k assms(4)] decrypt_writers_all [OF k assms(7)]
    by (simp add: decryptConfig_def)
qed

definition sample_aes :: aes_ops where
  "sample_aes = \<lparr>aes_encrypt = (\<lambda>k b. rev b), aes_decrypt = (\<lambda>k b. rev b)\<rparr>"

definition sample_secrets :: secrets where
  "sample_secrets = \<lparr>sec_DSN = ''root:1234@tcp'', sec_service_auth = [(''user'', ''pw'')], sec_agent_auth = [], sec_writer_pass = [''w'', '''']\<rparr>"

theorem config_roundtrip_witness:
  "\<exists>r. decryptConfig sample_aes rev ''0123456789abcdef''
       (sample_secrets\<lparr>sec_DSN := fst (DealWithEncrypt sample_aes ''root:1234@tcp'' ''0123456789abcdef'')\<rparr>) = Inr (Inr r) \<and>
     sec_DSN r = ''root:1234@tcp'' \<and> sec_writer_pass r = [''w'', ''''] \<and> go_get (sec_service_auth r) ''user'' = Some ''pw''"
proof -
  let ?key = "''0123456789abcdef''"
  have plain: "protects sample_aes ?key v v" if "\<not> prefix ''{{cipher}}'' v" for v using that by (simp add: protects_def)
  have m: "protects_map sample_aes ?key m m" if "go_wf m" "\<forall>v \<in> ran (go_get m). \<not> prefix ''{{cipher}}'' v" for m
    using that plain by (auto simp: protects_map_def ran_def split: option.splits)
  have "\<exists>r. decryptConfig sample_aes rev ?key (sample_secrets\<lparr>sec_DSN := fst (DealWithEncrypt sample_aes ''root:1234@tcp'' ?key)\<rparr>) = Inr (Inr r) \<and>
      sec_DSN r = sec_DSN sample_secrets \<and> sec_writer_pass r = sec_writer_pass sample_secrets \<and>
      go_get (sec_service_auth r) = go_get (sec_service_auth sample_secrets) \<and> go_get (sec_agent_auth r) = go_get (sec_agent_auth sample_secrets)"
  proof (rule config_roundtrip)
    show "protects_map sample_aes ?key (sec_service_auth sample_secrets)
        (sec_service_auth (sample_secrets\<lparr>sec_DSN := fst (DealWithEncrypt sample_aes ''root:1234@tcp'' ?key)\<rparr>))"
      "protects_map sample_aes ?key (sec_agent_auth sample_secrets)
        (sec_agent_auth (sample_secrets\<lparr>sec_DSN := fst (DealWithEncrypt sample_aes ''root:1234@tcp'' ?key)\<rparr>))"
      by (auto intro!: m simp: sample_secrets_def go_wf_def ran_def split: if_splits)
    show "aes_ok sample_aes" by (simp add: aes_ok_def sample_aes_def)
  qed (auto simp: fair_order_rev sample_secrets_def protects_def)
  then show ?thesis by (auto simp: sample_secrets_def)
qed

end
