(* ===== verification/Effects.thy ===== *)
theory Effects
  imports Prelude
begin

text \<open>
  Code of the center that reads and writes a state and may stop early: a function from the state to
  an outcome and the state after it. A failure is an error value that the caller sees (\<open>Err\<close>), an
  answer that ends the request (\<open>Bomb\<close> with its status, \<open>Danger\<close> for an error handed to
  \<open>ginx.Dangerous\<close>), a look-up of a missing key in the request context, or a panic of the
  runtime. \<open>sat P m Q F\<close> is the triple of such an action: from a state with \<open>P\<close>, a result satisfies
  \<open>Q\<close> and a failure \<open>F\<close>. The rules in \<open>sat_rules\<close> reduce a triple to its primitive actions.
\<close>

datatype failure = Err string | Bomb int string | Danger string | Missing_key string | Crash panic

type_synonym ('s, 'a) act = "'s \<Rightarrow> (failure + 'a) \<times> 's"

definition ret :: "'a \<Rightarrow> ('s, 'a) act" where
  "ret x s = (Inr x, s)"

definition stop :: "failure \<Rightarrow> ('s, 'a) act" where
  "stop e s = (Inl e, s)"

definition bind_act :: "('s, 'a) act \<Rightarrow> ('a \<Rightarrow> ('s, 'b) act) \<Rightarrow> ('s, 'b) act" where
  "bind_act m f s = (case m s of (Inl e, s1) \<Rightarrow> (Inl e, s1) | (Inr x, s1) \<Rightarrow> f x s1)"

text \<open>The Go idiom of looking at a returned error: a panic or an answer passes through.\<close>

definition attempt :: "('s, 'a) act \<Rightarrow> ('s, string + 'a) act" where
  "attempt m s = (case m s of (Inl (Err e), s1) \<Rightarrow> (Inr (Inl e), s1) | (Inl f, s1) \<Rightarrow> (Inl f, s1) | (Inr x, s1) \<Rightarrow> (Inr (Inr x), s1))"

definition change_err :: "(string \<Rightarrow> failure) \<Rightarrow> ('s, 'a) act \<Rightarrow> ('s, 'a) act" where
  "change_err h m s = (case m s of (Inl (Err e), s1) \<Rightarrow> (Inl (h e), s1) | r \<Rightarrow> r)"

definition with_message :: "string \<Rightarrow> ('s, 'a) act \<Rightarrow> ('s, 'a) act" where
  "with_message msg m = change_err (\<lambda>e. Err (msg @ '': '' @ e)) m"

definition dangerous :: "('s, 'a) act \<Rightarrow> ('s, 'a) act" where
  "dangerous m = change_err Danger m"

text \<open>A loop whose body may stop: it ends at the first failure.\<close>

fun each :: "('a \<Rightarrow> ('s, unit) act) \<Rightarrow> 'a list \<Rightarrow> ('s, unit) act" where
  "each f [] = ret ()"
| "each f (x # xs) = bind_act (f x) (\<lambda>_. each f xs)"

subsection \<open>Laws\<close>

lemma bind_ret [simp]: "bind_act (ret x) f = f x"
  by (rule ext) (simp add: bind_act_def ret_def)

lemma bind_stop [simp]: "bind_act (stop e) f = stop e"
  by (rule ext) (simp add: bind_act_def stop_def)

lemma bind_assoc [simp]: "bind_act (bind_act m f) g = bind_act m (\<lambda>x. bind_act (f x) g)"
  by (rule ext) (simp add: bind_act_def split: prod.split sum.split)

lemma attempt_simps [simp]:
  "attempt (ret x) = ret (Inr x)"
  "attempt (stop (Err e)) = ret (Inl e)"
  "attempt (stop (Bomb n t)) = stop (Bomb n t)"
  by (rule ext, simp add: attempt_def ret_def stop_def)+

lemma change_err_simps [simp]:
  "change_err h (ret x) = ret x"
  "change_err h (stop (Err e)) = stop (h e)"
  by (rule ext, simp add: change_err_def ret_def stop_def)+

lemma ret_apply: "ret x s = (Inr x, s)"
  by (simp add: ret_def)

lemma stop_apply: "stop e s = (Inl e, s)"
  by (simp add: stop_def)

lemma bind_step: "m s = (Inr x, t) \<Longrightarrow> bind_act m f s = f x t"
  by (simp add: bind_act_def)

lemma bind_fail: "m s = (Inl e, t) \<Longrightarrow> bind_act m f s = (Inl e, t)"
  by (simp add: bind_act_def)

lemma bind_Inr_iff: "bind_act m f s = (Inr y, u) \<longleftrightarrow> (\<exists>x t. m s = (Inr x, t) \<and> f x t = (Inr y, u))"
  by (auto simp: bind_act_def split: prod.splits sum.splits)

lemma attempt_ok: "m s = (Inr x, t) \<Longrightarrow> attempt m s = (Inr (Inr x), t)"
  by (simp add: attempt_def)

lemma attempt_err: "m s = (Inl (Err e), t) \<Longrightarrow> attempt m s = (Inr (Inl e), t)"
  by (simp add: attempt_def)

lemma change_err_ok: "m s = (Inr x, t) \<Longrightarrow> change_err h m s = (Inr x, t)"
  by (simp add: change_err_def)

lemma change_err_Inr_iff: "change_err h m s = (Inr y, u) \<longleftrightarrow> m s = (Inr y, u)"
  by (auto simp: change_err_def split: prod.splits sum.splits failure.splits)

subsection \<open>Triples\<close>

named_theorems sat_rules \<open>triples of the constructs of an action\<close>

definition sat :: "('s \<Rightarrow> bool) \<Rightarrow> ('s, 'a) act \<Rightarrow> ('a \<Rightarrow> 's \<Rightarrow> bool) \<Rightarrow> (failure \<Rightarrow> 's \<Rightarrow> bool) \<Rightarrow> bool" where
  "sat P m Q F \<longleftrightarrow> (\<forall>s. P s \<longrightarrow> (case m s of (Inl e, s1) \<Rightarrow> F e s1 | (Inr x, s1) \<Rightarrow> Q x s1))"

lemma sat_ret [sat_rules]: "(\<And>s. P s \<Longrightarrow> Q x s) \<Longrightarrow> sat P (ret x) Q F"
  by (simp add: sat_def ret_def)

lemma sat_stop [sat_rules]: "(\<And>s. P s \<Longrightarrow> F e s) \<Longrightarrow> sat P (stop e) Q F"
  by (simp add: sat_def stop_def)

lemma sat_bind: "sat P m R F \<Longrightarrow> (\<And>x. sat (R x) (f x) Q F) \<Longrightarrow> sat P (bind_act m f) Q F"
  by (fastforce simp: sat_def bind_act_def split: prod.splits sum.splits)

lemma sat_weaken: "sat P m Q F \<Longrightarrow> (\<And>s. P' s \<Longrightarrow> P s) \<Longrightarrow> (\<And>x s. Q x s \<Longrightarrow> Q' x s) \<Longrightarrow> (\<And>e s. F e s \<Longrightarrow> F' e s) \<Longrightarrow> sat P' m Q' F'"
  by (fastforce simp: sat_def split: prod.splits sum.splits)

lemma sat_attempt: "sat P m (\<lambda>x. Q (Inr x)) (\<lambda>e s. F e s \<and> (\<forall>msg. e = Err msg \<longrightarrow> Q (Inl msg) s)) \<Longrightarrow> sat P (attempt m) Q F"
  by (fastforce simp: sat_def attempt_def split: prod.splits sum.splits failure.splits)

text \<open>A property of the state that every action of a program preserves, failing or not.\<close>

definition preserves :: "('s \<Rightarrow> bool) \<Rightarrow> ('s, 'a) act \<Rightarrow> bool" where
  "preserves P m \<longleftrightarrow> (\<forall>s. P s \<longrightarrow> P (snd (m s)))"

lemma preserves_ret [sat_rules]: "preserves P (ret x)"
  by (simp add: preserves_def ret_def)

lemma preserves_stop [sat_rules]: "preserves P (stop e)"
  by (simp add: preserves_def stop_def)

lemma preserves_bind [sat_rules]: "preserves P m \<Longrightarrow> (\<And>x. preserves P (f x)) \<Longrightarrow> preserves P (bind_act m f)"
  by (fastforce simp: preserves_def bind_act_def split: prod.splits sum.splits)

lemma preserves_attempt [sat_rules]: "preserves P m \<Longrightarrow> preserves P (attempt m)"
  by (fastforce simp: preserves_def attempt_def split: prod.splits sum.splits failure.splits)

lemma preserves_change_err [sat_rules]: "preserves P m \<Longrightarrow> preserves P (change_err h m)"
  by (fastforce simp: preserves_def change_err_def split: prod.splits sum.splits failure.splits)

lemma preserves_if [sat_rules]: "(b \<Longrightarrow> preserves P m) \<Longrightarrow> (\<not> b \<Longrightarrow> preserves P n) \<Longrightarrow> preserves P (if b then m else n)"
  by simp

lemma preserves_option [sat_rules]: "preserves P m \<Longrightarrow> (\<And>x. preserves P (f x)) \<Longrightarrow> preserves P (case x of None \<Rightarrow> m | Some x \<Rightarrow> f x)"
  by (cases x) auto

lemma preserves_sum [sat_rules]: "(\<And>e. preserves P (g e)) \<Longrightarrow> (\<And>x. preserves P (f x)) \<Longrightarrow> preserves P (case x of Inl e \<Rightarrow> g e | Inr x \<Rightarrow> f x)"
  by (cases x) auto

lemma preserves_each [sat_rules]: "(\<And>x. x \<in> set xs \<Longrightarrow> preserves P (f x)) \<Longrightarrow> preserves P (each f xs)"
  by (induction xs) (auto intro: preserves_ret preserves_bind)

lemmas preserves_with_message [sat_rules] = preserves_change_err [of _ _ "\<lambda>e. Err (msg @ '': '' @ e)" for msg, folded with_message_def]
lemmas preserves_dangerous [sat_rules] = preserves_change_err [of _ _ Danger, folded dangerous_def]

end
