(* ===== verification/Center.thy ===== *)
theory Center
  imports Effects Senders Memsto
begin

text \<open>
  Users, teams, business groups and roles of the center (\<open>models/user.go\<close>, \<open>user_group.go\<close>,
  \<open>user_group_member.go\<close>, \<open>busi_group.go\<close>, \<open>busi_group_member.go\<close>, \<open>role.go\<close>, \<open>role_operation.go\<close>,
  \<open>common.go\<close>). The state \<open>center\<close> holds the tables; a statement of the source is the operation on
  lists of rows its text describes. Rows are found in the order of insertion where the statement
  does not order them, and strings are equal when they are the same. Every statement asks the
  environment for its next \<open>answer\<close>: whether it fails, the identifier a new row gets, the time and a
  random identifier. A request runs alone; a transaction that fails leaves the tables as they were.
\<close>

subsection \<open>Tables and statements\<close>

record UserGroupMember =
  ugm_GroupId :: int
  ugm_UserId :: int

record BusiGroupMember =
  bgm_BusiGroupId :: int
  bgm_UserGroupId :: int
  bgm_PermFlag :: string

record Role =
  ro_Id :: int
  ro_Name :: string
  ro_Note :: string

record RoleOperation =
  op_RoleName :: string
  op_Operation :: string

record Board =
  bo_Id :: int
  bo_GroupId :: int
  bo_Name :: string
  bo_Ident :: string
  bo_Tags :: string
  bo_CreateAt :: int
  bo_CreateBy :: string
  bo_UpdateAt :: int
  bo_UpdateBy :: string
  bo_Configs :: string
  bo_Public :: int
  bo_BuiltIn :: int
  bo_Hide :: int

record BoardPayload =
  bp_Id :: int
  bp_Payload :: string

record AlertAggrView =
  av_Id :: int
  av_Name :: string
  av_Rule :: string
  av_Cate :: int
  av_CreateAt :: int
  av_CreateBy :: int
  av_UpdateAt :: int

record answer =
  an_fault :: "string option"
  an_id :: int
  an_now :: int
  an_uuid :: string

record center =
  ce_users :: "User list"
  ce_user_group :: "UserGroup list"
  ce_user_group_member :: "UserGroupMember list"
  ce_busi_group :: "BusiGroup list"
  ce_busi_group_member :: "BusiGroupMember list"
  ce_role :: "Role list"
  ce_role_operation :: "RoleOperation list"
  ce_configs :: "(string \<times> string) list"
  ce_target :: "Target list"
  ce_alert_mute :: "AlertMute list"
  ce_alert_subscribe :: "AlertSubscribe list"
  ce_board :: "Board list"
  ce_task_tpl :: "TaskTpl list"
  ce_alert_rule :: "AlertRule list"
  ce_alert_cur_event :: "AlertCurEvent list"
  ce_recording_rule :: "RecordingRule list"
  ce_board_payload :: "BoardPayload list"
  ce_alert_his_event :: "AlertHisEvent list"
  ce_alert_aggr_view :: "AlertAggrView list"
  ce_redis :: "(string, string \<times> int option) go_map"
  ce_answers :: "nat \<Rightarrow> answer"
  ce_step :: nat

type_synonym 'a center_act = "(center, 'a) act"

text \<open>
  Library code: checks of strings, the operator \<open>LIKE\<close> on a value and a pattern and the collation of
  the database, and what an instance outside the center gets from the center's service interface.
\<close>

record center_lib =
  cl_md5 :: "string \<Rightarrow> string"
  cl_Dangerous :: "string \<Rightarrow> bool"
  cl_IsPhone :: "string \<Rightarrow> bool"
  cl_IsMail :: "string \<Rightarrow> bool"
  cl_like :: "string \<Rightarrow> string \<Rightarrow> bool"
  cl_collate :: "string \<Rightarrow> string"
  cl_IsCenter :: bool
  cl_remote_users :: "string \<Rightarrow> string + User list"
  cl_remote_groups :: "string \<Rightarrow> string + UserGroup list"
  cl_remote_members :: "string \<Rightarrow> string + UserGroupMember list"
  cl_remote_config :: "string \<Rightarrow> string + string"

definition ask :: "answer center_act" where
  "ask s = (Inr (ce_answers s (ce_step s)), s\<lparr>ce_step := Suc (ce_step s)\<rparr>)"

definition statement :: "(answer \<Rightarrow> 'a center_act) \<Rightarrow> 'a center_act" where
  "statement f = bind_act ask (\<lambda>a. case an_fault a of Some e \<Rightarrow> stop (Err e) | None \<Rightarrow> f a)"

definition query :: "(center \<Rightarrow> 'a) \<Rightarrow> 'a center_act" where
  "query q = statement (\<lambda>a s. (Inr (q s), s))"

definition execute :: "(center \<Rightarrow> center) \<Rightarrow> unit center_act" where
  "execute g = statement (\<lambda>a s. (Inr (), g s))"

definition create :: "(int \<Rightarrow> center \<Rightarrow> center) \<Rightarrow> int center_act" where
  "create g = statement (\<lambda>a s. (Inr (an_id a), g (an_id a) s))"

definition Now_Unix :: "int center_act" where
  "Now_Unix = bind_act ask (\<lambda>a. ret (an_now a))"

definition transaction :: "'a center_act \<Rightarrow> 'a center_act" where
  "transaction m s =
     (case bind_act m (\<lambda>x. bind_act (execute (\<lambda>s. s)) (\<lambda>_. ret x)) s of
        (Inl e, s1) \<Rightarrow> (Inl e, s\<lparr>ce_step := ce_step s1\<rparr>) | r \<Rightarrow> r)"

definition remote :: "string + 'a \<Rightarrow> 'a center_act" where
  "remote r = (case r of Inl e \<Rightarrow> stop (Err e) | Inr x \<Rightarrow> ret x)"

definition first :: "'a list \<Rightarrow> 'a option" where
  "first xs = (case xs of [] \<Rightarrow> None | x # _ \<Rightarrow> Some x)"

definition update_where :: "('r \<Rightarrow> bool) \<Rightarrow> ('r \<Rightarrow> 'r) \<Rightarrow> 'r list \<Rightarrow> 'r list" where
  "update_where p f rows = map (\<lambda>r. if p r then f r else r) rows"

definition order_by :: "center_lib \<Rightarrow> ('r \<Rightarrow> string) \<Rightarrow> 'r list \<Rightarrow> 'r list" where
  "order_by L key rows = sort_key (\<lambda>r. cl_collate L (key r)) rows"

definition limit_offset :: "int \<Rightarrow> int \<Rightarrow> 'r list \<Rightarrow> 'r list" where
  "limit_offset limit offset rows =
     (let rows = (if offset > 0 then drop (nat offset) rows else rows)
      in if limit > 0 then take (nat limit) rows else rows)"

definition contains_pattern :: "string \<Rightarrow> string" where
  "contains_pattern q = ''%'' @ q @ ''%''"

subsection \<open>Shared queries\<close>

definition Count :: "(center \<Rightarrow> 'r list) \<Rightarrow> ('r \<Rightarrow> bool) \<Rightarrow> int center_act" where
  "Count table p = query (\<lambda>s. int (length (filter p (table s))))"

definition Exists :: "(center \<Rightarrow> 'r list) \<Rightarrow> ('r \<Rightarrow> bool) \<Rightarrow> bool center_act" where
  "Exists table p = bind_act (Count table p) (\<lambda>num. ret (num > 0))"

definition Find :: "(center \<Rightarrow> 'r list) \<Rightarrow> ('r \<Rightarrow> bool) \<Rightarrow> 'r list center_act" where
  "Find table p = query (\<lambda>s. filter p (table s))"

definition ConfigsGet :: "center_lib \<Rightarrow> string \<Rightarrow> string center_act" where
  "ConfigsGet L ckey =
     (if \<not> cl_IsCenter L then remote (cl_remote_config L (''/v1/n9e/config?key='' @ ckey))
      else bind_act (with_message ''failed to query configs''
             (query (\<lambda>s. map snd (filter (\<lambda>c. fst c = ckey) (ce_configs s)))))
           (\<lambda>lst. case lst of v # _ \<Rightarrow> ret v | [] \<Rightarrow> ret ''''))"

definition CryptoPass :: "center_lib \<Rightarrow> string \<Rightarrow> string center_act" where
  "CryptoPass L raw = bind_act (ConfigsGet L ''salt'') (\<lambda>salt. ret (cl_md5 L (salt @ ''<-*Uk30^96eY*->'' @ raw)))"

subsection \<open>Team members\<close>

definition MyGroupIds :: "int \<Rightarrow> int list center_act" where
  "MyGroupIds userId = query (\<lambda>s. map ugm_GroupId (filter (\<lambda>m. ugm_UserId m = userId) (ce_user_group_member s)))"

definition MemberIds :: "int \<Rightarrow> int list center_act" where
  "MemberIds groupId = query (\<lambda>s. map ugm_UserId (filter (\<lambda>m. ugm_GroupId m = groupId) (ce_user_group_member s)))"

definition UserGroupMemberCount :: "(UserGroupMember \<Rightarrow> bool) \<Rightarrow> int center_act" where
  "UserGroupMemberCount p = Count ce_user_group_member p"

definition UserGroupMemberAdd :: "int \<Rightarrow> int \<Rightarrow> unit center_act" where
  "UserGroupMemberAdd groupId userId =
     bind_act (UserGroupMemberCount (\<lambda>m. ugm_UserId m = userId \<and> ugm_GroupId m = groupId)) (\<lambda>num.
     if num > 0 then ret ()
     else execute (\<lambda>s. s\<lparr>ce_user_group_member := ce_user_group_member s @ [\<lparr>ugm_GroupId = groupId, ugm_UserId = userId\<rparr>]\<rparr>))"

definition UserGroupMemberDel :: "int \<Rightarrow> int list \<Rightarrow> unit center_act" where
  "UserGroupMemberDel groupId userIds =
     (if length userIds = 0 then ret ()
      else execute (\<lambda>s. s\<lparr>ce_user_group_member :=
        filter (\<lambda>m. \<not> (ugm_GroupId m = groupId \<and> ugm_UserId m \<in> set userIds)) (ce_user_group_member s)\<rparr>))"

definition UserGroupMemberGetAll :: "center_lib \<Rightarrow> UserGroupMember list center_act" where
  "UserGroupMemberGetAll L =
     (if \<not> cl_IsCenter L then remote (cl_remote_members L ''/v1/n9e/user-group-members'')
      else query ce_user_group_member)"

subsection \<open>Members of business groups\<close>

text \<open>The optional argument \<open>permFlag\<close> of the source is a list; only its first element counts.\<close>

definition flag_ok :: "string list \<Rightarrow> BusiGroupMember \<Rightarrow> bool" where
  "flag_ok permFlag m = (case permFlag of [] \<Rightarrow> True | f # _ \<Rightarrow> bgm_PermFlag m = f)"

definition BusiGroupIds :: "int list \<Rightarrow> string list \<Rightarrow> int list center_act" where
  "BusiGroupIds userGroupIds permFlag =
     (if length userGroupIds = 0 then ret []
      else query (\<lambda>s. map bgm_BusiGroupId
        (filter (\<lambda>m. bgm_UserGroupId m \<in> set userGroupIds \<and> flag_ok permFlag m) (ce_busi_group_member s))))"

definition UserGroupIdsOfBusiGroup :: "int \<Rightarrow> string list \<Rightarrow> int list center_act" where
  "UserGroupIdsOfBusiGroup busiGroupId permFlag =
     query (\<lambda>s. map bgm_UserGroupId
       (filter (\<lambda>m. bgm_BusiGroupId m = busiGroupId \<and> flag_ok permFlag m) (ce_busi_group_member s)))"

definition BusiGroupMemberCount :: "(BusiGroupMember \<Rightarrow> bool) \<Rightarrow> int center_act" where
  "BusiGroupMemberCount p = Count ce_busi_group_member p"

definition BusiGroupMemberGet :: "(BusiGroupMember \<Rightarrow> bool) \<Rightarrow> BusiGroupMember option center_act" where
  "BusiGroupMemberGet p = bind_act (Find ce_busi_group_member p) (\<lambda>lst. ret (first lst))"

definition same_pair :: "BusiGroupMember \<Rightarrow> BusiGroupMember \<Rightarrow> bool" where
  "same_pair m x \<longleftrightarrow> bgm_BusiGroupId x = bgm_BusiGroupId m \<and> bgm_UserGroupId x = bgm_UserGroupId m"

definition BusiGroupMemberAdd :: "BusiGroupMember \<Rightarrow> unit center_act" where
  "BusiGroupMemberAdd member =
     bind_act (BusiGroupMemberGet (same_pair member)) (\<lambda>obj.
     case obj of
       None \<Rightarrow> execute (\<lambda>s. s\<lparr>ce_busi_group_member := ce_busi_group_member s @ [member]\<rparr>)
     | Some x \<Rightarrow>
        if bgm_PermFlag x = bgm_PermFlag member then ret ()
        else execute (\<lambda>s. s\<lparr>ce_busi_group_member :=
          update_where (same_pair member) (\<lambda>r. r\<lparr>bgm_PermFlag := bgm_PermFlag member\<rparr>) (ce_busi_group_member s)\<rparr>))"

definition BusiGroupMemberDel :: "(BusiGroupMember \<Rightarrow> bool) \<Rightarrow> unit center_act" where
  "BusiGroupMemberDel p = execute (\<lambda>s. s\<lparr>ce_busi_group_member := filter (\<lambda>m. \<not> p m) (ce_busi_group_member s)\<rparr>)"

definition BusiGroupMemberGetsByBusiGroupId :: "center_lib \<Rightarrow> int \<Rightarrow> BusiGroupMember list center_act" where
  "BusiGroupMemberGetsByBusiGroupId L busiGroupId =
     query (\<lambda>s. order_by L bgm_PermFlag (filter (\<lambda>m. bgm_BusiGroupId m = busiGroupId) (ce_busi_group_member s)))"

subsection \<open>Roles\<close>

definition RoleGet :: "(Role \<Rightarrow> bool) \<Rightarrow> Role option center_act" where
  "RoleGet p = bind_act (Find ce_role p) (\<lambda>lst. ret (first lst))"

definition RoleGetsAll :: "Role list center_act" where
  "RoleGetsAll = with_message ''failed to query roles'' (query ce_role)"

definition RoleCount :: "(Role \<Rightarrow> bool) \<Rightarrow> int center_act" where
  "RoleCount p = Count ce_role p"

definition Role_Add :: "Role \<Rightarrow> unit center_act" where
  "Role_Add r =
     bind_act (with_message ''failed to query user'' (RoleGet (\<lambda>x. ro_Name x = ro_Name r))) (\<lambda>role.
     if role \<noteq> None then stop (Err ''role name already exists'')
     else bind_act (create (\<lambda>i s. s\<lparr>ce_role := ce_role s @ [if ro_Id r = 0 then r\<lparr>ro_Id := i\<rparr> else r]\<rparr>)) (\<lambda>_. ret ()))"

definition Role_Del :: "Role \<Rightarrow> unit center_act" where
  "Role_Del r = execute (\<lambda>s. s\<lparr>ce_role := filter (\<lambda>x. ro_Id x \<noteq> ro_Id r) (ce_role s)\<rparr>)"

definition Role_Update :: "Role \<Rightarrow> unit center_act" where
  "Role_Update r = execute (\<lambda>s. s\<lparr>ce_role :=
     update_where (\<lambda>x. ro_Id x = ro_Id r) (\<lambda>x. x\<lparr>ro_Name := ro_Name r, ro_Note := ro_Note r\<rparr>) (ce_role s)\<rparr>)"

definition RoleHasOperation :: "string list \<Rightarrow> string \<Rightarrow> bool center_act" where
  "RoleHasOperation roles operation =
     (if length roles = 0 then ret False
      else Exists ce_role_operation (\<lambda>o'. op_Operation o' = operation \<and> op_RoleName o' \<in> set roles))"

definition OperationsOfRole :: "string list \<Rightarrow> string list center_act" where
  "OperationsOfRole roles =
     query (\<lambda>s. remdups (map op_Operation
       (if AdminRole \<notin> set roles then filter (\<lambda>o'. op_RoleName o' \<in> set roles) (ce_role_operation s)
        else ce_role_operation s)))"

definition RoleOperationBind :: "string \<Rightarrow> string list \<Rightarrow> unit center_act" where
  "RoleOperationBind roleName operation =
     transaction (bind_act (execute (\<lambda>s. s\<lparr>ce_role_operation := filter (\<lambda>o'. op_RoleName o' \<noteq> roleName) (ce_role_operation s)\<rparr>)) (\<lambda>_.
       if length operation = 0 then ret ()
       else execute (\<lambda>s. s\<lparr>ce_role_operation := ce_role_operation s @
         map (\<lambda>x. \<lparr>op_RoleName = roleName, op_Operation = x\<rparr>) operation\<rparr>)))"

end
