(* ===== verification/Center_Users.thy ===== *)
theory Center_Users
  imports Center
begin

text \<open>
  The operations on users, teams and business groups (\<open>models/user.go\<close>, \<open>models/user_group.go\<close>,
  \<open>models/busi_group.go\<close>), among them the decisions who may do what: \<open>CheckPerm\<close> by role,
  \<open>CanDoBusiGroup\<close> by team and permission flag, \<open>CanModifyUserGroup\<close> and \<open>NopriIdents\<close>. The fields of
  a user that are not columns (\<open>RolesLst\<close>, \<open>Admin\<close>) are empty in the table and filled when a row is
  read. An update of selected columns takes the function that copies them.
\<close>

subsection \<open>Users\<close>

definition User_Verify :: "center_lib \<Rightarrow> User \<Rightarrow> string + User" where
  "User_Verify L u =
     (let u1 = u\<lparr>us_Username := TrimSpace (us_Username u)\<rparr> in
      if us_Username u1 = '''' then Inl ''Username is blank''
      else if cl_Dangerous L (us_Username u1) then Inl ''Username has invalid characters''
      else if cl_Dangerous L (us_Nickname u1) then Inl ''Nickname has invalid characters''
      else if us_Phone u1 \<noteq> '''' \<and> \<not> cl_IsPhone L (us_Phone u1) then Inl ''Phone invalid''
      else if us_Email u1 \<noteq> '''' \<and> \<not> cl_IsMail L (us_Email u1) then Inl ''Email invalid''
      else Inr u1)"

definition user_row :: "User \<Rightarrow> User" where
  "user_row u = u\<lparr>us_RolesLst := [], us_Admin := False\<rparr>"

definition fill_roles :: "User \<Rightarrow> User" where
  "fill_roles u = (let u1 = u\<lparr>us_RolesLst := Fields (us_Roles u)\<rparr> in u1\<lparr>us_Admin := IsAdmin u1\<rparr>)"

definition UserGet :: "(User \<Rightarrow> bool) \<Rightarrow> User option center_act" where
  "UserGet p = bind_act (Find ce_users p) (\<lambda>lst. ret (map_option fill_roles (first lst)))"

definition UserGetByUsername :: "string \<Rightarrow> User option center_act" where
  "UserGetByUsername username = UserGet (\<lambda>u. us_Username u = username)"

definition UserGetById :: "int \<Rightarrow> User option center_act" where
  "UserGetById i = UserGet (\<lambda>u. us_Id u = i)"

definition insert_user :: "User \<Rightarrow> User center_act" where
  "insert_user u = bind_act (create (\<lambda>i s. s\<lparr>ce_users := ce_users s @ [(user_row u)\<lparr>us_Id := i\<rparr>]\<rparr>)) (\<lambda>i. ret (u\<lparr>us_Id := i\<rparr>))"

definition User_Add :: "User \<Rightarrow> User center_act" where
  "User_Add u =
     bind_act (with_message ''failed to query user'' (UserGetByUsername (us_Username u))) (\<lambda>user.
     if user \<noteq> None then stop (Err ''Username already exists'')
     else bind_act Now_Unix (\<lambda>now. insert_user (u\<lparr>us_CreateAt := now, us_UpdateAt := now\<rparr>)))"

definition update_user :: "int \<Rightarrow> (User \<Rightarrow> User) \<Rightarrow> unit center_act" where
  "update_user i f = execute (\<lambda>s. s\<lparr>ce_users := update_where (\<lambda>r. us_Id r = i) f (ce_users s)\<rparr>)"

definition User_Update :: "center_lib \<Rightarrow> (User \<Rightarrow> User \<Rightarrow> User) \<Rightarrow> User \<Rightarrow> unit center_act" where
  "User_Update L sel u = (case User_Verify L u of Inl e \<Rightarrow> stop (Err e) | Inr u1 \<Rightarrow> update_user (us_Id u1) (sel u1))"

definition User_UpdateAllFields :: "center_lib \<Rightarrow> User \<Rightarrow> unit center_act" where
  "User_UpdateAllFields L u =
     (case User_Verify L u of Inl e \<Rightarrow> stop (Err e)
      | Inr u1 \<Rightarrow> bind_act Now_Unix (\<lambda>now. update_user (us_Id u1) (\<lambda>r. user_row (u1\<lparr>us_UpdateAt := now\<rparr>))))"

definition User_UpdatePassword :: "User \<Rightarrow> string \<Rightarrow> string \<Rightarrow> unit center_act" where
  "User_UpdatePassword u password updateBy =
     bind_act Now_Unix (\<lambda>now. update_user (us_Id u)
       (\<lambda>r. r\<lparr>us_Password := password, us_UpdateAt := now, us_UpdateBy := updateBy\<rparr>))"

definition User_Del :: "User \<Rightarrow> unit center_act" where
  "User_Del u = transaction (
     bind_act (execute (\<lambda>s. s\<lparr>ce_user_group_member := filter (\<lambda>m. ugm_UserId m \<noteq> us_Id u) (ce_user_group_member s)\<rparr>)) (\<lambda>_.
     execute (\<lambda>s. s\<lparr>ce_users := filter (\<lambda>r. us_Id r \<noteq> us_Id u) (ce_users s)\<rparr>)))"

definition User_ChangePassword :: "center_lib \<Rightarrow> User \<Rightarrow> string \<Rightarrow> string \<Rightarrow> unit center_act" where
  "User_ChangePassword L u oldpass newpass =
     bind_act (CryptoPass L oldpass) (\<lambda>oldp.
     bind_act (CryptoPass L newpass) (\<lambda>newp.
     if us_Password u \<noteq> oldp then stop (Err ''Incorrect old password'')
     else User_UpdatePassword u newp (us_Username u)))"

text \<open>\<open>InitRoot\<close> runs at start-up; an error there ends the process (\<open>os.Exit\<close>), here as \<open>Err\<close>.\<close>

definition InitRoot :: "center_lib \<Rightarrow> unit center_act" where
  "InitRoot L =
     bind_act (UserGetByUsername ''root'') (\<lambda>user.
     case user of None \<Rightarrow> ret ()
     | Some u \<Rightarrow>
        if length (us_Password u) > 31 then ret ()
        else bind_act (CryptoPass L (us_Password u)) (\<lambda>newPass.
             update_user (us_Id u) (\<lambda>r. r\<lparr>us_Password := newPass\<rparr>)))"

definition PassLogin :: "center_lib \<Rightarrow> string \<Rightarrow> string \<Rightarrow> User center_act" where
  "PassLogin L username pass =
     bind_act (UserGetByUsername username) (\<lambda>user.
     case user of None \<Rightarrow> stop (Err ''Username or password invalid'')
     | Some u \<Rightarrow> bind_act (CryptoPass L pass) (\<lambda>loginPass.
         if loginPass \<noteq> us_Password u then stop (Err ''Username or password invalid'') else ret u))"

definition new_user :: "string \<Rightarrow> string \<Rightarrow> User" where
  "new_user username nickname = \<lparr>us_Id = 0, us_Username = username, us_Nickname = nickname, us_Password = '''', us_Phone = '''',
     us_Email = '''', us_Portrait = '''', us_Roles = '''', us_RolesLst = [], us_Contacts = '''', us_Maintainer = 0,
     us_CreateAt = 0, us_CreateBy = '''', us_UpdateAt = 0, us_UpdateBy = '''', us_Admin = False\<rparr>"

text \<open>What the directory server answers (\<open>ldapx\<close>): the attributes of the entry found, or an error.
  \<open>Updates\<close> of a struct writes the columns whose value is not the zero value.\<close>

record ldap_client =
  ld_req :: "string \<Rightarrow> string \<Rightarrow> string + (string \<Rightarrow> string)"
  ld_Nickname :: string
  ld_Email :: string
  ld_Phone :: string
  ld_CoverAttributes :: bool

definition nonzero :: "string \<Rightarrow> string \<Rightarrow> string" where
  "nonzero new old = (if new = '''' then old else new)"

definition nonzero_int :: "int \<Rightarrow> int \<Rightarrow> int" where
  "nonzero_int new old = (if new = 0 then old else new)"

definition update_nonzero :: "User \<Rightarrow> User \<Rightarrow> User" where
  "update_nonzero u r = \<lparr>us_Id = us_Id r, us_Username = nonzero (us_Username u) (us_Username r),
     us_Nickname = nonzero (us_Nickname u) (us_Nickname r), us_Password = nonzero (us_Password u) (us_Password r),
     us_Phone = nonzero (us_Phone u) (us_Phone r), us_Email = nonzero (us_Email u) (us_Email r),
     us_Portrait = nonzero (us_Portrait u) (us_Portrait r), us_Roles = nonzero (us_Roles u) (us_Roles r), us_RolesLst = [],
     us_Contacts = nonzero (us_Contacts u) (us_Contacts r), us_Maintainer = nonzero_int (us_Maintainer u) (us_Maintainer r),
     us_CreateAt = nonzero_int (us_CreateAt u) (us_CreateAt r), us_CreateBy = nonzero (us_CreateBy u) (us_CreateBy r),
     us_UpdateAt = nonzero_int (us_UpdateAt u) (us_UpdateAt r), us_UpdateBy = nonzero (us_UpdateBy u) (us_UpdateBy r), us_Admin = False\<rparr>"

definition ldap_attributes :: "ldap_client \<Rightarrow> (string \<Rightarrow> string) \<Rightarrow> string \<Rightarrow> User \<Rightarrow> User" where
  "ldap_attributes ld entry roles u =
     (let u1 = (if ld_Nickname ld \<noteq> '''' then u\<lparr>us_Nickname := entry (ld_Nickname ld)\<rparr> else u);
          u2 = (if ld_Email ld \<noteq> '''' then u1\<lparr>us_Email := entry (ld_Email ld)\<rparr> else u1);
          u3 = (if ld_Phone ld \<noteq> '''' then u2\<lparr>us_Phone := filter (\<lambda>c. c \<noteq> CHR '' '') (entry (ld_Phone ld))\<rparr> else u2)
      in if us_Roles u3 = '''' then u3\<lparr>us_Roles := roles\<rparr> else u3)"

definition LdapLogin :: "string \<Rightarrow> string \<Rightarrow> string \<Rightarrow> ldap_client \<Rightarrow> User center_act" where
  "LdapLogin username pass roles ld =
     (case ld_req ld username pass of Inl e \<Rightarrow> stop (Err e)
      | Inr entry \<Rightarrow>
         bind_act (UserGetByUsername username) (\<lambda>found.
         let user = ldap_attributes ld entry roles (case found of None \<Rightarrow> new_user username username | Some u \<Rightarrow> u) in
         if us_Id user > 0 then
           (if ld_CoverAttributes ld
            then bind_act (with_message ''failed to update user'' (update_user (us_Id user) (update_nonzero user))) (\<lambda>_. ret user)
            else ret user)
         else bind_act Now_Unix (\<lambda>now.
              insert_user (user\<lparr>us_Password := ''******'', us_Portrait := '''', us_Contacts := ''{}'', us_CreateAt := now,
                us_UpdateAt := now, us_CreateBy := ''ldap'', us_UpdateBy := ''ldap''\<rparr>))))"

definition user_like :: "center_lib \<Rightarrow> string \<Rightarrow> User \<Rightarrow> bool" where
  "user_like L q u \<longleftrightarrow> cl_like L (us_Username u) (contains_pattern q) \<or> cl_like L (us_Nickname u) (contains_pattern q) \<or>
     cl_like L (us_Phone u) (contains_pattern q) \<or> cl_like L (us_Email u) (contains_pattern q)"

definition UserTotal :: "center_lib \<Rightarrow> string \<Rightarrow> int center_act" where
  "UserTotal L q = with_message ''failed to count user'' (Count ce_users (\<lambda>u. q \<noteq> '''' \<longrightarrow> user_like L q u))"

definition UserGets :: "center_lib \<Rightarrow> string \<Rightarrow> int \<Rightarrow> int \<Rightarrow> User list center_act" where
  "UserGets L q limit offset =
     bind_act (with_message ''failed to query user''
       (query (\<lambda>s. limit_offset limit offset (order_by L us_Username (filter (\<lambda>u. q \<noteq> '''' \<longrightarrow> user_like L q u) (ce_users s))))))
     (\<lambda>users. ret (map (\<lambda>u. (fill_roles u)\<lparr>us_Password := ''''\<rparr>) users))"

definition UserGetAll :: "center_lib \<Rightarrow> User list center_act" where
  "UserGetAll L =
     (if \<not> cl_IsCenter L then remote (cl_remote_users L ''/v1/n9e/users'')
      else bind_act (query ce_users) (\<lambda>lst. ret (map fill_roles lst)))"

definition UserGetsByIds :: "center_lib \<Rightarrow> int list \<Rightarrow> User list center_act" where
  "UserGetsByIds L ids =
     (if length ids = 0 then ret []
      else bind_act (query (\<lambda>s. order_by L us_Username (filter (\<lambda>u. us_Id u \<in> set ids) (ce_users s))))
             (\<lambda>lst. ret (map fill_roles lst)))"

subsection \<open>Permissions\<close>

definition CanModifyUserGroup :: "User \<Rightarrow> UserGroup \<Rightarrow> bool center_act" where
  "CanModifyUserGroup u ug =
     (if IsAdmin u then ret True
      else if ug_CreateBy ug = us_Username u then ret True
      else bind_act (UserGroupMemberCount (\<lambda>m. ugm_UserId m = us_Id u \<and> ugm_GroupId m = ug_Id ug)) (\<lambda>num. ret (num > 0)))"

definition CanDoBusiGroup :: "User \<Rightarrow> BusiGroup \<Rightarrow> string list \<Rightarrow> bool center_act" where
  "CanDoBusiGroup u bg permFlag =
     (if IsAdmin u then ret True
      else bind_act (UserGroupIdsOfBusiGroup (bg_Id bg) permFlag) (\<lambda>ugids.
        if length ugids = 0 then ret False
        else bind_act (UserGroupMemberCount (\<lambda>m. ugm_UserId m = us_Id u \<and> ugm_GroupId m \<in> set ugids)) (\<lambda>num. ret (num > 0))))"

definition CheckPerm :: "User \<Rightarrow> string \<Rightarrow> bool center_act" where
  "CheckPerm u operation = (if IsAdmin u then ret True else RoleHasOperation (us_RolesLst u) operation)"

text \<open>\<open>slice.SubString\<close> of the library removes the elements of its second argument from its first.\<close>

definition NopriIdents :: "User \<Rightarrow> string list \<Rightarrow> string list center_act" where
  "NopriIdents u idents =
     (if IsAdmin u then ret []
      else bind_act (MyGroupIds (us_Id u)) (\<lambda>ugids.
        if length ugids = 0 then ret idents
        else bind_act (BusiGroupIds ugids [''rw'']) (\<lambda>bgids.
          if length bgids = 0 then ret idents
          else bind_act (query (\<lambda>s. map tg_Ident (filter (\<lambda>t. tg_GroupId t \<in> set bgids) (ce_target s)))) (\<lambda>arr.
            ret (filter (\<lambda>i. i \<notin> set arr) idents)))))"

definition TargetGet :: "(Target \<Rightarrow> bool) \<Rightarrow> Target option center_act" where
  "TargetGet p = bind_act (Find ce_target p) (\<lambda>lst. ret (map_option (\<lambda>t. t\<lparr>tg_TagsJSON := Fields (tg_Tags t)\<rparr>) (first lst)))"

definition groups_page :: "center_lib \<Rightarrow> int \<Rightarrow> (BusiGroup \<Rightarrow> bool) \<Rightarrow> BusiGroup list center_act" where
  "groups_page L limit p = query (\<lambda>s. limit_offset limit 0 (order_by L bg_Name (filter p (ce_busi_group s))))"

definition BusiGroups :: "center_lib \<Rightarrow> User \<Rightarrow> int \<Rightarrow> string \<Rightarrow> bool list \<Rightarrow> BusiGroup list center_act" where
  "BusiGroups L u limit q all =
     (if IsAdmin u \<or> (all \<noteq> [] \<and> hd all) then
        bind_act (groups_page L limit (\<lambda>bg. cl_like L (bg_Name bg) (contains_pattern q))) (\<lambda>lst.
        if length lst = 0 \<and> length q > 0 then
          bind_act (TargetGet (\<lambda>t. tg_Ident t = q)) (\<lambda>t.
          case t of None \<Rightarrow> ret lst | Some t \<Rightarrow> groups_page L limit (\<lambda>bg. bg_Id bg = tg_GroupId t))
        else ret lst)
      else
        bind_act (with_message ''failed to get MyGroupIds'' (MyGroupIds (us_Id u))) (\<lambda>userGroupIds.
        bind_act (with_message ''failed to get BusiGroupIds'' (BusiGroupIds userGroupIds [])) (\<lambda>busiGroupIds.
        if length busiGroupIds = 0 then ret []
        else bind_act (groups_page L limit (\<lambda>bg. bg_Id bg \<in> set busiGroupIds \<and> cl_like L (bg_Name bg) (contains_pattern q))) (\<lambda>lst.
          if length lst = 0 \<and> length q > 0 then
            bind_act (TargetGet (\<lambda>t. tg_Ident t = q)) (\<lambda>t.
            case t of None \<Rightarrow> stop (Crash Nil_dereference)
            | Some t \<Rightarrow> if tg_GroupId t \<in> set busiGroupIds then groups_page L limit (\<lambda>bg. bg_Id bg = tg_GroupId t) else ret lst)
          else ret lst))))"

subsection \<open>Teams\<close>

definition UserGroup_Verify :: "center_lib \<Rightarrow> UserGroup \<Rightarrow> string option" where
  "UserGroup_Verify L ug =
     (if cl_Dangerous L (ug_Name ug) then Some ''Name has invalid characters''
      else if cl_Dangerous L (ug_Note ug) then Some ''Note has invalid characters''
      else None)"

definition group_row :: "UserGroup \<Rightarrow> UserGroup" where
  "group_row ug = ug\<lparr>ug_UserIds := []\<rparr>"

definition UserGroup_Update :: "center_lib \<Rightarrow> (UserGroup \<Rightarrow> UserGroup \<Rightarrow> UserGroup) \<Rightarrow> UserGroup \<Rightarrow> unit center_act" where
  "UserGroup_Update L sel ug =
     (case UserGroup_Verify L ug of Some e \<Rightarrow> stop (Err e)
      | None \<Rightarrow> execute (\<lambda>s. s\<lparr>ce_user_group := update_where (\<lambda>r. ug_Id r = ug_Id ug) (sel ug) (ce_user_group s)\<rparr>))"

definition UserGroupCount :: "(UserGroup \<Rightarrow> bool) \<Rightarrow> int center_act" where
  "UserGroupCount p = Count ce_user_group p"

definition UserGroup_Add :: "center_lib \<Rightarrow> UserGroup \<Rightarrow> UserGroup center_act" where
  "UserGroup_Add L ug =
     (case UserGroup_Verify L ug of Some e \<Rightarrow> stop (Err e)
      | None \<Rightarrow>
         bind_act (with_message ''failed to count user-groups'' (UserGroupCount (\<lambda>g. ug_Name g = ug_Name ug))) (\<lambda>num.
         if num > 0 then stop (Err ''UserGroup already exists'')
         else bind_act Now_Unix (\<lambda>now.
              let ug1 = ug\<lparr>ug_CreateAt := now, ug_UpdateAt := now\<rparr> in
              bind_act (create (\<lambda>i s. s\<lparr>ce_user_group := ce_user_group s @ [(group_row ug1)\<lparr>ug_Id := i\<rparr>]\<rparr>))
                (\<lambda>i. ret (ug1\<lparr>ug_Id := i\<rparr>)))))"

definition UserGroup_Del :: "UserGroup \<Rightarrow> unit center_act" where
  "UserGroup_Del ug = transaction (
     bind_act (execute (\<lambda>s. s\<lparr>ce_user_group_member := filter (\<lambda>m. ugm_GroupId m \<noteq> ug_Id ug) (ce_user_group_member s)\<rparr>)) (\<lambda>_.
     execute (\<lambda>s. s\<lparr>ce_user_group := filter (\<lambda>r. ug_Id r \<noteq> ug_Id ug) (ce_user_group s)\<rparr>)))"

definition UserGroupGet :: "(UserGroup \<Rightarrow> bool) \<Rightarrow> UserGroup option center_act" where
  "UserGroupGet p = bind_act (Find ce_user_group p) (\<lambda>lst. ret (first lst))"

definition UserGroupGetById :: "int \<Rightarrow> UserGroup option center_act" where
  "UserGroupGetById i = UserGroupGet (\<lambda>g. ug_Id g = i)"

definition UserGroupGetByIds :: "center_lib \<Rightarrow> int list \<Rightarrow> UserGroup list center_act" where
  "UserGroupGetByIds L ids =
     (if length ids = 0 then ret []
      else query (\<lambda>s. order_by L ug_Name (filter (\<lambda>g. ug_Id g \<in> set ids) (ce_user_group s))))"

definition UserGroupGetAll :: "center_lib \<Rightarrow> UserGroup list center_act" where
  "UserGroupGetAll L =
     (if \<not> cl_IsCenter L then remote (cl_remote_groups L ''/v1/n9e/users'') else query ce_user_group)"

definition add_group_member :: "UserGroup \<Rightarrow> int \<Rightarrow> unit center_act" where
  "add_group_member ug userId =
     bind_act (UserGetById userId) (\<lambda>user.
     case user of None \<Rightarrow> ret () | Some u \<Rightarrow> UserGroupMemberAdd (ug_Id ug) (us_Id u))"

definition UserGroup_AddMembers :: "UserGroup \<Rightarrow> int list \<Rightarrow> unit center_act" where
  "UserGroup_AddMembers ug userIds = each (add_group_member ug) userIds"

definition UserGroup_DelMembers :: "UserGroup \<Rightarrow> int list \<Rightarrow> unit center_act" where
  "UserGroup_DelMembers ug userIds = UserGroupMemberDel (ug_Id ug) userIds"

definition teams_page :: "center_lib \<Rightarrow> int \<Rightarrow> (UserGroup \<Rightarrow> bool) \<Rightarrow> UserGroup list center_act" where
  "teams_page L limit p = query (\<lambda>s. limit_offset limit 0 (order_by L ug_Name (filter p (ce_user_group s))))"

text \<open>The error of the last query of an administrator's search is assigned to a shadowed variable and lost.\<close>

definition UserGroups :: "center_lib \<Rightarrow> User \<Rightarrow> int \<Rightarrow> string \<Rightarrow> UserGroup list center_act" where
  "UserGroups L u limit q =
     (if IsAdmin u then
        bind_act (teams_page L limit (\<lambda>g. cl_like L (ug_Name g) (contains_pattern q))) (\<lambda>lst.
        if length lst = 0 \<and> length q > 0 then
          bind_act (UserGetByUsername q) (\<lambda>user.
          case user of None \<Rightarrow> ret lst
          | Some x \<Rightarrow> bind_act (MyGroupIds (us_Id x)) (\<lambda>ids.
              if length ids = 0 then ret lst
              else bind_act (attempt (UserGroupGetByIds L ids)) (\<lambda>r. case r of Inl e \<Rightarrow> ret [] | Inr gs \<Rightarrow> ret gs)))
        else ret lst)
      else
        bind_act (with_message ''failed to get MyGroupIds'' (MyGroupIds (us_Id u))) (\<lambda>ids.
        teams_page L limit (\<lambda>g.
          (if length ids > 0 then ug_Id g \<in> set ids \<or> ug_CreateBy g = us_Username u else ug_CreateBy g = us_Username u) \<and>
          (length q > 0 \<longrightarrow> cl_like L (ug_Name g) (contains_pattern q)))))"

subsection \<open>Business groups\<close>

definition BusiGroupGet :: "(BusiGroup \<Rightarrow> bool) \<Rightarrow> BusiGroup option center_act" where
  "BusiGroupGet p = bind_act (Find ce_busi_group p) (\<lambda>lst. ret (first lst))"

definition BusiGroupGetById :: "int \<Rightarrow> BusiGroup option center_act" where
  "BusiGroupGetById i = BusiGroupGet (\<lambda>bg. bg_Id bg = i)"

definition BusiGroupGetAll :: "BusiGroup list center_act" where
  "BusiGroupGetAll = query ce_busi_group"

definition BusiGroupExists :: "(BusiGroup \<Rightarrow> bool) \<Rightarrow> bool center_act" where
  "BusiGroupExists p = bind_act (Count ce_busi_group p) (\<lambda>num. ret (num > 0))"

fun fill_members :: "BusiGroupMember list \<Rightarrow> (UserGroup option \<times> string) list center_act" where
  "fill_members [] = ret []"
| "fill_members (m # ms) =
     bind_act (UserGroupGetById (bgm_UserGroupId m)) (\<lambda>ug.
     bind_act (fill_members ms) (\<lambda>r. ret ((ug, bgm_PermFlag m) # r)))"

definition FillUserGroups :: "center_lib \<Rightarrow> BusiGroup \<Rightarrow> (UserGroup option \<times> string) list center_act" where
  "FillUserGroups L bg = bind_act (BusiGroupMemberGetsByBusiGroupId L (bg_Id bg)) fill_members"

definition refuse_if :: "bool center_act \<Rightarrow> string \<Rightarrow> unit center_act" where
  "refuse_if m msg = bind_act m (\<lambda>has. if has then stop (Err msg) else ret ())"

definition BusiGroup_Del :: "BusiGroup \<Rightarrow> unit center_act" where
  "BusiGroup_Del bg =
     bind_act (refuse_if (Exists ce_alert_mute (\<lambda>r. am_GroupId r = bg_Id bg)) ''Some alert mutes still in the BusiGroup'') (\<lambda>_.
     bind_act (refuse_if (Exists ce_alert_subscribe (\<lambda>r. as_GroupId r = bg_Id bg)) ''Some alert subscribes still in the BusiGroup'') (\<lambda>_.
     bind_act (refuse_if (Exists ce_target (\<lambda>r. tg_GroupId r = bg_Id bg)) ''Some targets still in the BusiGroup'') (\<lambda>_.
     bind_act (refuse_if (Exists ce_board (\<lambda>r. bo_GroupId r = bg_Id bg)) ''Some dashboards still in the BusiGroup'') (\<lambda>_.
     bind_act (refuse_if (Exists ce_task_tpl (\<lambda>r. tt_GroupId r = bg_Id bg)) ''Some recovery scripts still in the BusiGroup'') (\<lambda>_.
     bind_act (refuse_if (Exists ce_alert_rule (\<lambda>r. ar_GroupId r = bg_Id bg)) ''Some alert rules still in the BusiGroup'') (\<lambda>_.
     transaction (
       bind_act (execute (\<lambda>s. s\<lparr>ce_busi_group_member := filter (\<lambda>m. bgm_BusiGroupId m \<noteq> bg_Id bg) (ce_busi_group_member s)\<rparr>)) (\<lambda>_.
       bind_act (execute (\<lambda>s. s\<lparr>ce_busi_group := filter (\<lambda>r. bg_Id r \<noteq> bg_Id bg) (ce_busi_group s)\<rparr>)) (\<lambda>_.
       execute (\<lambda>s. s\<lparr>ce_alert_cur_event := filter (\<lambda>e. ev_GroupId e \<noteq> bg_Id bg) (ce_alert_cur_event s)\<rparr>))))))))))"

definition touch_group :: "BusiGroup \<Rightarrow> string \<Rightarrow> unit center_act" where
  "touch_group bg username =
     bind_act Now_Unix (\<lambda>now. execute (\<lambda>s. s\<lparr>ce_busi_group :=
       update_where (\<lambda>r. bg_Id r = bg_Id bg) (\<lambda>r. r\<lparr>bg_UpdateAt := now, bg_UpdateBy := username\<rparr>) (ce_busi_group s)\<rparr>))"

definition BusiGroup_AddMembers :: "BusiGroup \<Rightarrow> BusiGroupMember list \<Rightarrow> string \<Rightarrow> unit center_act" where
  "BusiGroup_AddMembers bg members username =
     bind_act (each BusiGroupMemberAdd members) (\<lambda>_. touch_group bg username)"

definition del_group_member :: "BusiGroupMember \<Rightarrow> unit center_act" where
  "del_group_member m =
     bind_act (BusiGroupMemberCount (\<lambda>x. bgm_BusiGroupId x = bgm_BusiGroupId m \<and> bgm_UserGroupId x \<noteq> bgm_UserGroupId m)) (\<lambda>num.
     if num = 0 then stop (Err ''the business group must retain at least one team'')
     else BusiGroupMemberDel (same_pair m))"

definition BusiGroup_DelMembers :: "BusiGroup \<Rightarrow> BusiGroupMember list \<Rightarrow> string \<Rightarrow> unit center_act" where
  "BusiGroup_DelMembers bg members username =
     bind_act (each del_group_member members) (\<lambda>_. touch_group bg username)"

definition label_free :: "int \<Rightarrow> (BusiGroup \<Rightarrow> bool) \<Rightarrow> string \<Rightarrow> string center_act" where
  "label_free labelEnable other labelValue =
     (if labelEnable = 1 then
        bind_act (with_message ''failed to count BusiGroup''
          (BusiGroupExists (\<lambda>bg. bg_LabelEnable bg = 1 \<and> bg_LabelValue bg = labelValue \<and> other bg))) (\<lambda>ex.
        if ex then stop (Err ''BusiGroup already exists'') else ret labelValue)
      else ret '''')"

definition BusiGroup_Update :: "BusiGroup \<Rightarrow> string \<Rightarrow> int \<Rightarrow> string \<Rightarrow> string \<Rightarrow> unit center_act" where
  "BusiGroup_Update bg name labelEnable labelValue updateBy =
     (if bg_Name bg = name \<and> bg_LabelEnable bg = labelEnable \<and> bg_LabelValue bg = labelValue then ret ()
      else bind_act (with_message ''failed to count BusiGroup'' (BusiGroupExists (\<lambda>x. bg_Name x = name \<and> bg_Id x \<noteq> bg_Id bg))) (\<lambda>ex.
        if ex then stop (Err ''BusiGroup already exists'')
        else bind_act (label_free labelEnable (\<lambda>x. bg_Id x \<noteq> bg_Id bg) labelValue) (\<lambda>v.
        bind_act Now_Unix (\<lambda>now. execute (\<lambda>s. s\<lparr>ce_busi_group :=
          update_where (\<lambda>r. bg_Id r = bg_Id bg)
            (\<lambda>r. r\<lparr>bg_Name := name, bg_LabelEnable := labelEnable, bg_LabelValue := v, bg_UpdateAt := now, bg_UpdateBy := updateBy\<rparr>)
            (ce_busi_group s)\<rparr>)))))"

definition check_team :: "BusiGroupMember \<Rightarrow> unit center_act" where
  "check_team m =
     bind_act (with_message ''failed to get UserGroup'' (UserGroupGet (\<lambda>g. ug_Id g = bgm_UserGroupId m))) (\<lambda>ug.
     if ug = None then stop (Err ''Some UserGroup id not exists'') else ret ())"

definition insert_member :: "int \<Rightarrow> BusiGroupMember \<Rightarrow> unit center_act" where
  "insert_member i m = execute (\<lambda>s. s\<lparr>ce_busi_group_member := ce_busi_group_member s @
     [\<lparr>bgm_BusiGroupId = i, bgm_UserGroupId = bgm_UserGroupId m, bgm_PermFlag = bgm_PermFlag m\<rparr>]\<rparr>)"

definition BusiGroupAdd :: "string \<Rightarrow> int \<Rightarrow> string \<Rightarrow> BusiGroupMember list \<Rightarrow> string \<Rightarrow> unit center_act" where
  "BusiGroupAdd name labelEnable labelValue members creator =
     bind_act (with_message ''failed to count BusiGroup'' (BusiGroupExists (\<lambda>x. bg_Name x = name))) (\<lambda>ex.
     if ex then stop (Err ''BusiGroup already exists'')
     else bind_act (label_free labelEnable (\<lambda>_. True) labelValue) (\<lambda>v.
     bind_act (each check_team members) (\<lambda>_.
     bind_act Now_Unix (\<lambda>now.
     transaction (
       bind_act (create (\<lambda>i s. s\<lparr>ce_busi_group := ce_busi_group s @ [\<lparr>bg_Id = i, bg_Name = name, bg_LabelEnable = labelEnable,
         bg_LabelValue = v, bg_CreateAt = now, bg_CreateBy = creator, bg_UpdateAt = now, bg_UpdateBy = creator\<rparr>]\<rparr>)) (\<lambda>i.
       each (insert_member i) members))))))"

end
