(* ===== verification/Sessions.thy ===== *)
theory Sessions
  imports Center_Users
begin

text \<open>
  Sessions of the center and the middleware in front of its handlers
  (\<open>center/router/router_mw.go\<close>, \<open>router_login.go\<close>, \<open>router_funcs.go\<close>). A login creates a pair of JSON
  web tokens and two entries in Redis; a request carries the access token, whose entry names the
  user. The library of tokens is the record \<open>jwt_lib\<close>: signing, and parsing at a time with the
  function that supplies the key. A Redis key has a value and possibly a time at which it expires.
  The request context is the record \<open>gin_ctx\<close>; reading a key that is not set panics. Decoding of
  request bodies and the helper that reads a number from the path are arguments.
\<close>

subsection \<open>Configuration, requests and answers\<close>

record http_conf =
  hc_ProxyAuth_Enable :: bool
  hc_HeaderUserNameKey :: string
  hc_DefaultRoles :: "string list"
  hc_SigningKey :: string
  hc_AccessExpired :: int
  hc_RefreshExpired :: int
  hc_RedisKeyPrefix :: string
  hc_ShowCaptcha :: bool
  hc_OpenRSA :: bool

type_synonym claims = "(string \<times> json) list"

record jwt_lib =
  jl_SignedString :: "string \<Rightarrow> claims \<Rightarrow> string + string"
  jl_Parse :: "int \<Rightarrow> (bool \<Rightarrow> string \<Rightarrow> string + string) \<Rightarrow> string \<Rightarrow> string + (claims \<times> bool)"
  jl_Parse_dgrijalva :: "int \<Rightarrow> (bool \<Rightarrow> string \<Rightarrow> string + string) \<Rightarrow> string \<Rightarrow> string + (claims \<times> bool)"

record center_router =
  cr_http :: http_conf
  cr_lib :: center_lib
  cr_jwt :: jwt_lib
  cr_captcha :: "string \<Rightarrow> string \<Rightarrow> bool"
  cr_rsa :: "string \<Rightarrow> string + string"
  cr_ldap_Enable :: bool
  cr_ldap_DefaultRoles :: "string list"
  cr_ldap :: ldap_client

record request =
  rq_header :: "string \<Rightarrow> string"
  rq_path :: string
  rq_int :: "string \<Rightarrow> failure + int"

record gin_ctx =
  gc_userid :: "int option"
  gc_username :: "string option"
  gc_user :: "User option"
  gc_isadmin :: "bool option"
  gc_user_group :: "UserGroup option"
  gc_busi_group :: "BusiGroup option"

definition empty_ctx :: gin_ctx where
  "empty_ctx = \<lparr>gc_userid = None, gc_username = None, gc_user = None, gc_isadmin = None, gc_user_group = None, gc_busi_group = None\<rparr>"

definition must_get :: "string \<Rightarrow> 'a option \<Rightarrow> 'a center_act" where
  "must_get key v = (case v of None \<Rightarrow> stop (Missing_key key) | Some x \<Rightarrow> ret x)"

definition UrlParamInt64 :: "request \<Rightarrow> string \<Rightarrow> int center_act" where
  "UrlParamInt64 rq name = (case rq_int rq name of Inl e \<Rightarrow> stop e | Inr i \<Rightarrow> ret i)"

datatype 'a reply = Data 'a | Message int string

definition render_data :: "'a center_act \<Rightarrow> 'a reply center_act" where
  "render_data m = bind_act (attempt m) (\<lambda>r. case r of Inl e \<Rightarrow> ret (Message 200 e) | Inr x \<Rightarrow> ret (Data x))"

definition render_message :: "'a center_act \<Rightarrow> unit reply center_act" where
  "render_message m = bind_act (attempt m) (\<lambda>r. case r of Inl e \<Rightarrow> ret (Message 200 e) | Inr x \<Rightarrow> ret (Message 200 ''''))"

definition unauthorized :: "'a center_act" where
  "unauthorized = stop (Bomb 401 ''unauthorized'')"

definition forbidden :: "'a center_act" where
  "forbidden = stop (Bomb 403 ''forbidden'')"

subsection \<open>Redis\<close>

definition redis_live :: "int \<Rightarrow> center \<Rightarrow> string \<Rightarrow> string option" where
  "redis_live now s key =
     (case go_get (ce_redis s) key of None \<Rightarrow> None
      | Some (v, None) \<Rightarrow> Some v
      | Some (v, Some e) \<Rightarrow> if now < e then Some v else None)"

definition redis_Set :: "string \<Rightarrow> string \<Rightarrow> int \<Rightarrow> unit center_act" where
  "redis_Set key v ttl = statement (\<lambda>a s. (Inr (), s\<lparr>ce_redis :=
     go_set key (v, if ttl > 0 then Some (an_now a + ttl) else None) (ce_redis s)\<rparr>))"

definition redis_Get :: "string \<Rightarrow> string center_act" where
  "redis_Get key = statement (\<lambda>a s. case redis_live (an_now a) s key of
     None \<Rightarrow> (Inl (Err ''redis: nil''), s) | Some v \<Rightarrow> (Inr v, s))"

definition redis_Del :: "string \<Rightarrow> unit center_act" where
  "redis_Del key = execute (\<lambda>s. s\<lparr>ce_redis := go_del key (ce_redis s)\<rparr>)"

subsection \<open>Tokens\<close>

record AccessDetails =
  ad_AccessUuid :: string
  ad_UserIdentity :: string

record TokenDetails =
  td_AccessToken :: string
  td_RefreshToken :: string
  td_AccessUuid :: string
  td_RefreshUuid :: string
  td_AtExpires :: int
  td_RtExpires :: int

definition wrapJwtKey :: "center_router \<Rightarrow> string \<Rightarrow> string" where
  "wrapJwtKey R key = hc_RedisKeyPrefix (cr_http R) @ key"

definition fetchAuth :: "center_router \<Rightarrow> string \<Rightarrow> string center_act" where
  "fetchAuth R givenUuid = redis_Get (wrapJwtKey R givenUuid)"

definition deleteAuth :: "center_router \<Rightarrow> string \<Rightarrow> unit center_act" where
  "deleteAuth R givenUuid = redis_Del (wrapJwtKey R givenUuid)"

definition deleteTokens :: "center_router \<Rightarrow> AccessDetails \<Rightarrow> unit center_act" where
  "deleteTokens R authD =
     (let refreshUuid = ad_AccessUuid authD @ ''++'' @ ad_UserIdentity authD in
      bind_act (redis_Del (wrapJwtKey R (ad_AccessUuid authD))) (\<lambda>_. redis_Del (wrapJwtKey R refreshUuid)))"

definition createAuth :: "center_router \<Rightarrow> string \<Rightarrow> TokenDetails \<Rightarrow> unit center_act" where
  "createAuth R userIdentity td =
     bind_act Now_Unix (\<lambda>now.
     bind_act (redis_Set (wrapJwtKey R (td_AccessUuid td)) userIdentity (td_AtExpires td - now)) (\<lambda>_.
     redis_Set (wrapJwtKey R (td_RefreshUuid td)) userIdentity (td_RtExpires td - now)))"

definition access_claims :: "string \<Rightarrow> string \<Rightarrow> int \<Rightarrow> claims" where
  "access_claims accessUuid userIdentity expires =
     [(''authorized'', JBool True), (''access_uuid'', JStr accessUuid), (''user_identity'', JStr userIdentity),
      (''exp'', JNum (Itoa expires))]"

definition refresh_claims :: "string \<Rightarrow> string \<Rightarrow> int \<Rightarrow> claims" where
  "refresh_claims refreshUuid userIdentity expires =
     [(''refresh_uuid'', JStr refreshUuid), (''user_identity'', JStr userIdentity), (''exp'', JNum (Itoa expires))]"

text \<open>The lifetimes are minutes; they are far below the range of a duration in nanoseconds.\<close>

definition createTokens :: "center_router \<Rightarrow> string \<Rightarrow> string \<Rightarrow> TokenDetails center_act" where
  "createTokens R signingKey userIdentity =
     bind_act Now_Unix (\<lambda>now1.
     bind_act ask (\<lambda>a.
     bind_act Now_Unix (\<lambda>now2.
     let atExpires = now1 + 60 * hc_AccessExpired (cr_http R);
         accessUuid = an_uuid a;
         rtExpires = now2 + 60 * hc_RefreshExpired (cr_http R);
         refreshUuid = accessUuid @ ''++'' @ userIdentity
     in bind_act (remote (jl_SignedString (cr_jwt R) signingKey (access_claims accessUuid userIdentity atExpires))) (\<lambda>atoken.
        bind_act (remote (jl_SignedString (cr_jwt R) signingKey (refresh_claims refreshUuid userIdentity rtExpires))) (\<lambda>rtoken.
        ret \<lparr>td_AccessToken = atoken, td_RefreshToken = rtoken, td_AccessUuid = accessUuid, td_RefreshUuid = refreshUuid,
             td_AtExpires = atExpires, td_RtExpires = rtExpires\<rparr>)))))"

definition key_func :: "string \<Rightarrow> bool \<Rightarrow> string \<Rightarrow> string + string" where
  "key_func signingKey hmac alg = (if \<not> hmac then Inl (''unexpected jwt signing method: '' @ alg) else Inr signingKey)"

definition verifyToken :: "center_router \<Rightarrow> string \<Rightarrow> string \<Rightarrow> (claims \<times> bool) center_act" where
  "verifyToken R signingKey tokenString =
     (if tokenString = '''' then stop (Err ''bearer token not found'')
      else bind_act Now_Unix (\<lambda>now. remote (jl_Parse (cr_jwt R) now (key_func signingKey) tokenString)))"

definition extractToken :: "request \<Rightarrow> string" where
  "extractToken rq =
     (let tok = rq_header rq ''Authorization'' in
      if length tok > 6 \<and> to_upper (take 7 tok) = ''BEARER '' then drop 7 tok else '''')"

definition claim_string :: "claims \<Rightarrow> string \<Rightarrow> string option" where
  "claim_string cl name = (case go_get cl name of Some (JStr v) \<Rightarrow> Some v | _ \<Rightarrow> None)"

text \<open>A token that parses but is not valid gives neither details nor an error.\<close>

definition extractTokenMetadata :: "center_router \<Rightarrow> request \<Rightarrow> AccessDetails option center_act" where
  "extractTokenMetadata R rq =
     bind_act (verifyToken R (hc_SigningKey (cr_http R)) (extractToken rq)) (\<lambda>(cl, valid).
     if valid then
       (case claim_string cl ''access_uuid'' of
          None \<Rightarrow> stop (Err ''failed to parse access_uuid from jwt'')
        | Some accessUuid \<Rightarrow>
           (case claim_string cl ''user_identity'' of
              None \<Rightarrow> stop (Crash Type_assertion)
            | Some ident \<Rightarrow> ret (Some \<lparr>ad_AccessUuid = accessUuid, ad_UserIdentity = ident\<rparr>)))
     else ret None)"

subsection \<open>Authentication\<close>

definition handleProxyUser :: "center_router \<Rightarrow> request \<Rightarrow> User center_act" where
  "handleProxyUser R rq =
     (let username = rq_header rq (hc_HeaderUserNameKey (cr_http R)) in
      if username = '''' then unauthorized
      else bind_act (change_err (Bomb 500) (UserGetByUsername username)) (\<lambda>user.
        case user of Some u \<Rightarrow> ret u
        | None \<Rightarrow> bind_act Now_Unix (\<lambda>now.
            change_err (Bomb 500) (User_Add ((new_user username username)\<lparr>us_Roles := Join (hc_DefaultRoles (cr_http R)) '' '',
              us_CreateAt := now, us_UpdateAt := now, us_CreateBy := ''system'', us_UpdateBy := ''system''\<rparr>)))))"

definition proxyAuth :: "center_router \<Rightarrow> request \<Rightarrow> gin_ctx \<Rightarrow> gin_ctx center_act" where
  "proxyAuth R rq c = bind_act (handleProxyUser R rq) (\<lambda>user.
     ret (c\<lparr>gc_userid := Some (us_Id user), gc_username := Some (us_Username user)\<rparr>))"

definition jwtAuth :: "center_router \<Rightarrow> request \<Rightarrow> gin_ctx \<Rightarrow> gin_ctx center_act" where
  "jwtAuth R rq c =
     bind_act (change_err (\<lambda>_. Bomb 401 ''unauthorized'') (extractTokenMetadata R rq)) (\<lambda>metadata.
     case metadata of None \<Rightarrow> stop (Crash Nil_dereference)
     | Some md \<Rightarrow>
        bind_act (change_err (\<lambda>_. Bomb 401 ''unauthorized'') (fetchAuth R (ad_AccessUuid md))) (\<lambda>userIdentity.
        case SplitN2 userIdentity ''-'' of
          [a, b] \<Rightarrow> (case ParseInt a of None \<Rightarrow> unauthorized
                     | Some userid \<Rightarrow> ret (c\<lparr>gc_userid := Some userid, gc_username := Some b\<rparr>))
        | _ \<Rightarrow> unauthorized))"

definition auth :: "center_router \<Rightarrow> request \<Rightarrow> gin_ctx \<Rightarrow> gin_ctx center_act" where
  "auth R rq c = (if hc_ProxyAuth_Enable (cr_http R) then proxyAuth R rq c else jwtAuth R rq c)"

text \<open>With proxy authentication the requests of a session are answered here: \<open>Inr\<close> is the answer.\<close>

definition jwtMock :: "center_router \<Rightarrow> request \<Rightarrow> gin_ctx \<Rightarrow> (gin_ctx + User \<times> string \<times> string) center_act" where
  "jwtMock R rq c =
     (if \<not> hc_ProxyAuth_Enable (cr_http R) then ret (Inl c)
      else if Contains (rq_path rq) ''logout'' then stop (Bomb 400 ''logout is not supported when proxy auth is enabled'')
      else bind_act (handleProxyUser R rq) (\<lambda>user. ret (Inr (user, '''', ''''))))"

definition user_mw :: "gin_ctx \<Rightarrow> gin_ctx center_act" where
  "user_mw c =
     bind_act (must_get ''userid'' (gc_userid c)) (\<lambda>userid.
     bind_act (change_err (\<lambda>_. Bomb 401 ''unauthorized'') (UserGetById userid)) (\<lambda>user.
     case user of None \<Rightarrow> unauthorized
     | Some u \<Rightarrow> ret (c\<lparr>gc_user := Some u, gc_isadmin := Some (IsAdmin u)\<rparr>)))"

definition admin_mw :: "gin_ctx \<Rightarrow> gin_ctx center_act" where
  "admin_mw c =
     bind_act (must_get ''userid'' (gc_userid c)) (\<lambda>userid.
     bind_act (change_err (\<lambda>_. Bomb 401 ''unauthorized'') (UserGetById userid)) (\<lambda>user.
     case user of None \<Rightarrow> unauthorized
     | Some u \<Rightarrow> if AdminRole \<notin> set (Fields (us_Roles u)) then forbidden else ret (c\<lparr>gc_user := Some u\<rparr>)))"

subsection \<open>Authorisation\<close>

definition load :: "'a option center_act \<Rightarrow> string \<Rightarrow> 'a center_act" where
  "load m msg = bind_act (dangerous m) (\<lambda>obj. case obj of None \<Rightarrow> stop (Bomb 404 msg) | Some x \<Rightarrow> ret x)"

definition router_User :: "int \<Rightarrow> User center_act" where
  "router_User i = load (UserGetById i) ''No such user''"

definition router_UserGroup :: "int \<Rightarrow> UserGroup center_act" where
  "router_UserGroup i = load (UserGroupGetById i) ''No such UserGroup''"

definition router_BusiGroup :: "int \<Rightarrow> BusiGroup center_act" where
  "router_BusiGroup i = load (BusiGroupGetById i) ''No such BusiGroup''"

definition allow :: "bool center_act \<Rightarrow> gin_ctx \<Rightarrow> gin_ctx center_act" where
  "allow m c = bind_act (dangerous m) (\<lambda>can. if \<not> can then forbidden else ret c)"

definition userGroupWrite :: "request \<Rightarrow> gin_ctx \<Rightarrow> gin_ctx center_act" where
  "userGroupWrite rq c =
     bind_act (must_get ''user'' (gc_user c)) (\<lambda>me.
     bind_act (UrlParamInt64 rq ''id'') (\<lambda>i.
     bind_act (router_UserGroup i) (\<lambda>ug. allow (CanModifyUserGroup me ug) (c\<lparr>gc_user_group := Some ug\<rparr>))))"

definition group_check :: "string list \<Rightarrow> int \<Rightarrow> gin_ctx \<Rightarrow> gin_ctx center_act" where
  "group_check permFlag bgid c =
     bind_act (must_get ''user'' (gc_user c)) (\<lambda>me.
     bind_act (router_BusiGroup bgid) (\<lambda>bg. allow (CanDoBusiGroup me bg permFlag) (c\<lparr>gc_busi_group := Some bg\<rparr>)))"

definition group_mw :: "string list \<Rightarrow> request \<Rightarrow> gin_ctx \<Rightarrow> gin_ctx center_act" where
  "group_mw permFlag rq c =
     bind_act (must_get ''user'' (gc_user c)) (\<lambda>me.
     bind_act (UrlParamInt64 rq ''id'') (\<lambda>i.
     bind_act (router_BusiGroup i) (\<lambda>bg. allow (CanDoBusiGroup me bg permFlag) (c\<lparr>gc_busi_group := Some bg\<rparr>))))"

definition bgro :: "request \<Rightarrow> gin_ctx \<Rightarrow> gin_ctx center_act" where
  "bgro rq c = group_mw [] rq c"

definition bgrw :: "request \<Rightarrow> gin_ctx \<Rightarrow> gin_ctx center_act" where
  "bgrw rq c = group_mw [''rw''] rq c"

definition bgrwCheck :: "int \<Rightarrow> gin_ctx \<Rightarrow> gin_ctx center_act" where
  "bgrwCheck bgid c = group_check [''rw''] bgid c"

definition bgroCheck :: "int \<Rightarrow> gin_ctx \<Rightarrow> gin_ctx center_act" where
  "bgroCheck bgid c = group_check [] bgid c"

fun checks_loop :: "int list \<Rightarrow> int set \<Rightarrow> gin_ctx \<Rightarrow> gin_ctx center_act" where
  "checks_loop [] checked c = ret c"
| "checks_loop (i # bgids) checked c =
     (if i \<in> checked then checks_loop bgids checked c
      else bind_act (bgrwCheck i c) (\<lambda>c1. checks_loop bgids (insert i checked) c1))"

definition bgrwChecks :: "int list \<Rightarrow> gin_ctx \<Rightarrow> gin_ctx center_act" where
  "bgrwChecks bgids c = checks_loop bgids {} c"

definition perm :: "string \<Rightarrow> gin_ctx \<Rightarrow> gin_ctx center_act" where
  "perm operation c = bind_act (must_get ''user'' (gc_user c)) (\<lambda>me. allow (CheckPerm me operation) c)"

subsection \<open>Login, logout, refresh\<close>

record loginForm =
  lf_Username :: string
  lf_Password :: string
  lf_Captchaid :: string
  lf_Verifyvalue :: string

definition user_identity :: "User \<Rightarrow> string" where
  "user_identity user = Itoa (us_Id user) @ ''-'' @ us_Username user"

definition start_session :: "center_router \<Rightarrow> string \<Rightarrow> TokenDetails center_act" where
  "start_session R userIdentity =
     bind_act (dangerous (createTokens R (hc_SigningKey (cr_http R)) userIdentity)) (\<lambda>ts.
     bind_act (dangerous (createAuth R userIdentity ts)) (\<lambda>_. ret ts))"

definition login_user :: "center_router \<Rightarrow> string \<Rightarrow> string \<Rightarrow> User center_act" where
  "login_user R username password =
     bind_act (attempt (PassLogin (cr_lib R) username password)) (\<lambda>r.
     case r of Inr u \<Rightarrow> ret u
     | Inl e \<Rightarrow>
        if cr_ldap_Enable R then
          bind_act (LdapLogin username password (Join (cr_ldap_DefaultRoles R) '' '') (cr_ldap R)) (\<lambda>u.
          ret (u\<lparr>us_RolesLst := Fields (us_Roles u)\<rparr>))
        else stop (Err e))"

definition loginPost :: "center_router \<Rightarrow> loginForm \<Rightarrow> (User \<times> string \<times> string) reply center_act" where
  "loginPost R f =
     (if hc_ShowCaptcha (cr_http R) \<and> \<not> cr_captcha R (lf_Captchaid f) (lf_Verifyvalue f)
      then ret (Message 200 ''incorrect verification code'')
      else case (if hc_OpenRSA (cr_http R) then cr_rsa R (lf_Password f) else Inr (lf_Password f)) of
        Inl e \<Rightarrow> ret (Message 200 e)
      | Inr authPassWord \<Rightarrow>
         bind_act (attempt (login_user R (lf_Username f) authPassWord)) (\<lambda>r.
         case r of Inl e \<Rightarrow> ret (Message 200 e)
         | Inr user \<Rightarrow>
            bind_act (start_session R (user_identity user)) (\<lambda>ts.
            ret (Data (user, td_AccessToken ts, td_RefreshToken ts)))))"

definition logoutPost :: "center_router \<Rightarrow> request \<Rightarrow> unit reply center_act" where
  "logoutPost R rq =
     bind_act (attempt (extractTokenMetadata R rq)) (\<lambda>r.
     case r of Inl e \<Rightarrow> ret (Message 400 ''failed to parse jwt token'')
     | Inr None \<Rightarrow> stop (Crash Nil_dereference)
     | Inr (Some metadata) \<Rightarrow>
        bind_act (attempt (deleteTokens R metadata)) (\<lambda>d.
        case d of Inl e \<Rightarrow> ret (Message 200 ''Internal Server Error'') | Inr _ \<Rightarrow> ret (Message 200 '''')))"

definition refresh_session :: "center_router \<Rightarrow> string \<Rightarrow> string \<Rightarrow> (string \<times> string) reply center_act" where
  "refresh_session R refreshUuid userIdentity =
     bind_act (attempt (deleteAuth R refreshUuid)) (\<lambda>d.
     case d of Inl e \<Rightarrow> ret (Message 401 ''Internal Server Error'')
     | Inr _ \<Rightarrow>
        bind_act (attempt (deleteAuth R (hd (Split refreshUuid ''++'')))) (\<lambda>_.
        bind_act (start_session R userIdentity) (\<lambda>ts. ret (Data (td_AccessToken ts, td_RefreshToken ts)))))"

definition refresh_claimed :: "center_router \<Rightarrow> claims \<Rightarrow> (string \<times> string) reply center_act" where
  "refresh_claimed R cl =
     (case claim_string cl ''refresh_uuid'' of
        None \<Rightarrow> ret (Message 401 ''failed to parse refresh_uuid from jwt'')
      | Some refreshUuid \<Rightarrow>
         (case claim_string cl ''user_identity'' of
            None \<Rightarrow> ret (Message 401 ''failed to parse user_identity from jwt'')
          | Some userIdentity \<Rightarrow>
             (case ParseInt (hd (Split userIdentity ''-'')) of
                None \<Rightarrow> ret (Message 401 ''failed to parse user_identity from jwt'')
              | Some userid \<Rightarrow>
                 bind_act (attempt (UserGetById userid)) (\<lambda>u.
                 case u of Inl e \<Rightarrow> ret (Message 500 ''failed to query user by id'')
                 | Inr None \<Rightarrow> ret (Message 401 ''user already deleted'')
                 | Inr (Some _) \<Rightarrow> refresh_session R refreshUuid userIdentity))))"

definition refreshPost :: "center_router \<Rightarrow> string \<Rightarrow> (string \<times> string) reply center_act" where
  "refreshPost R refreshToken =
     bind_act Now_Unix (\<lambda>now.
     case jl_Parse_dgrijalva (cr_jwt R) now (key_func (hc_SigningKey (cr_http R))) refreshToken of
       Inl e \<Rightarrow> ret (Message 401 ''refresh token expired'')
     | Inr (cl, valid) \<Rightarrow> if valid then refresh_claimed R cl else ret (Message 401 ''refresh token expired''))"

subsection \<open>Single sign-on\<close>

text \<open>What a provider reports about the user, and the settings that the three callbacks read.\<close>

record sso_user =
  su_Username :: string
  su_Nickname :: string
  su_Email :: string
  su_Phone :: string
  su_Redirect :: string

record sso_conf =
  sc_CoverAttributes :: bool
  sc_DefaultRoles :: "string list"

definition cover_attributes :: "sso_user \<Rightarrow> User \<Rightarrow> User" where
  "cover_attributes r u =
     u\<lparr>us_Nickname := nonzero (su_Nickname r) (us_Nickname u), us_Email := nonzero (su_Email r) (us_Email u),
       us_Phone := nonzero (su_Phone r) (us_Phone u)\<rparr>"

definition sso_columns :: "User \<Rightarrow> User \<Rightarrow> User" where
  "sso_columns u row = row\<lparr>us_Email := us_Email u, us_Nickname := us_Nickname u, us_Phone := us_Phone u, us_UpdateAt := us_UpdateAt u\<rparr>"

definition sso_new :: "string \<Rightarrow> sso_conf \<Rightarrow> sso_user \<Rightarrow> int \<Rightarrow> User" where
  "sso_new by C r now = (new_user (su_Username r) (su_Nickname r))\<lparr>us_Password := ''******'', us_Phone := su_Phone r,
     us_Email := su_Email r, us_Roles := Join (sc_DefaultRoles C) '' '', us_RolesLst := sc_DefaultRoles C, us_Contacts := ''{}'',
     us_CreateAt := now, us_UpdateAt := now, us_CreateBy := by, us_UpdateBy := by\<rparr>"

text \<open>\<open>strict\<close> tells whether a failed update of the attributes ends the request.\<close>

definition sso_login :: "center_router \<Rightarrow> bool \<Rightarrow> string \<Rightarrow> sso_conf \<Rightarrow> sso_user \<Rightarrow> (string \<times> User \<times> string \<times> string) reply center_act" where
  "sso_login R strict by C r =
     bind_act (dangerous (UserGet (\<lambda>u. us_Username u = su_Username r))) (\<lambda>found.
     bind_act (case found of
         Some u \<Rightarrow>
           (if sc_CoverAttributes C then
              bind_act Now_Unix (\<lambda>now.
              let u1 = (cover_attributes r u)\<lparr>us_UpdateAt := now\<rparr> in
              bind_act (if strict then dangerous (User_Update (cr_lib R) sso_columns u1)
                        else bind_act (attempt (User_Update (cr_lib R) sso_columns u1)) (\<lambda>_. ret ())) (\<lambda>_. ret u1))
            else ret u)
       | None \<Rightarrow> bind_act Now_Unix (\<lambda>now. dangerous (User_Add (sso_new by C r now)))) (\<lambda>user.
     bind_act (start_session R (user_identity user)) (\<lambda>ts.
     ret (Data (if su_Redirect r \<noteq> ''/login'' then su_Redirect r else ''/'', user, td_AccessToken ts, td_RefreshToken ts)))))"

definition sso_callback :: "center_router \<Rightarrow> bool \<Rightarrow> string \<Rightarrow> sso_conf \<Rightarrow> string + sso_user \<Rightarrow> (string \<times> User \<times> string \<times> string) reply center_act" where
  "sso_callback R strict by C answer =
     (case answer of Inl e \<Rightarrow> ret (Message 200 e) | Inr r \<Rightarrow> sso_login R strict by C r)"

definition loginCallback :: "center_router \<Rightarrow> sso_conf \<Rightarrow> string + sso_user \<Rightarrow> (string \<times> User \<times> string \<times> string) reply center_act" where
  "loginCallback R C answer = sso_callback R False ''oidc'' C answer"

definition loginCallbackCas :: "center_router \<Rightarrow> sso_conf \<Rightarrow> string + sso_user \<Rightarrow> (string \<times> User \<times> string \<times> string) reply center_act" where
  "loginCallbackCas R C answer = sso_callback R True ''CAS'' C answer"

definition loginCallbackOAuth :: "center_router \<Rightarrow> sso_conf \<Rightarrow> string + sso_user \<Rightarrow> (string \<times> User \<times> string \<times> string) reply center_act" where
  "loginCallbackOAuth R C answer = sso_callback R False ''oauth2'' C answer"

text \<open>\<open>authorize\<close> builds the address of the provider and stores its state in Redis.\<close>

definition redirect_login :: "gin_ctx \<Rightarrow> bool \<Rightarrow> 'a \<Rightarrow> 'a \<Rightarrow> 'a center_act \<Rightarrow> 'a reply center_act" where
  "redirect_login c enable already disabled authorize =
     bind_act (case gc_userid c of None \<Rightarrow> ret False
       | Some userid \<Rightarrow> bind_act (dangerous (UserGetById userid)) (\<lambda>user.
           case user of None \<Rightarrow> stop (Bomb 200 ''user not found'') | Some u \<Rightarrow> ret (us_Username u \<noteq> ''''))) (\<lambda>logged.
     if logged then ret (Data already)
     else if \<not> enable then ret (Data disabled)
     else bind_act (dangerous authorize) (\<lambda>r. ret (Data r)))"

datatype redirect_output = Redirect_address string | RedirectOutput string string

definition loginRedirect :: "gin_ctx \<Rightarrow> bool \<Rightarrow> string \<Rightarrow> string center_act \<Rightarrow> string reply center_act" where
  "loginRedirect c enable redirect authorize = redirect_login c enable redirect '''' authorize"

definition loginRedirectCas :: "gin_ctx \<Rightarrow> bool \<Rightarrow> string \<Rightarrow> (string \<times> string) center_act \<Rightarrow> redirect_output reply center_act" where
  "loginRedirectCas c enable redirect authorize =
     redirect_login c enable (Redirect_address redirect) (Redirect_address '''')
       (bind_act authorize (\<lambda>(r, state). ret (RedirectOutput r state)))"

definition loginRedirectOAuth :: "gin_ctx \<Rightarrow> bool \<Rightarrow> string \<Rightarrow> string center_act \<Rightarrow> string reply center_act" where
  "loginRedirectOAuth c enable redirect authorize = redirect_login c enable redirect '''' authorize"

end
