(* ===== verification/Center_Handlers.thy ===== *)
theory Center_Handlers
  imports Sessions
begin

text \<open>
  The handlers for users, teams, business groups and roles (\<open>center/router/router_user.go\<close>,
  \<open>router_self.go\<close>, \<open>router_user_group.go\<close>, \<open>router_busi_group.go\<close>, \<open>router_role.go\<close>,
  \<open>router_role_operation.go\<close>) and the routes of \<open>router.go\<close> that put the middleware in front of them. A
  form that was decoded from the body is an argument.
\<close>

subsection \<open>Users\<close>

definition userFindAll :: "center_router \<Rightarrow> User list reply center_act" where
  "userFindAll R = render_data (UserGetAll (cr_lib R))"

definition userGets :: "center_router \<Rightarrow> string \<Rightarrow> int \<Rightarrow> int \<Rightarrow> gin_ctx \<Rightarrow> (User list \<times> int \<times> bool) reply center_act" where
  "userGets R q limit offset c =
     bind_act (dangerous (UserTotal (cr_lib R) q)) (\<lambda>total.
     bind_act (dangerous (UserGets (cr_lib R) q limit offset)) (\<lambda>lst.
     bind_act (must_get ''user'' (gc_user c)) (\<lambda>user. ret (Data (lst, total, IsAdmin user)))))"

record userAddForm =
  uf_Username :: string
  uf_Password :: string
  uf_Nickname :: string
  uf_Phone :: string
  uf_Email :: string
  uf_Portrait :: string
  uf_Roles :: "string list"
  uf_Contacts :: string

definition userAddPost :: "center_router \<Rightarrow> userAddForm \<Rightarrow> gin_ctx \<Rightarrow> unit reply center_act" where
  "userAddPost R f c =
     bind_act (dangerous (CryptoPass (cr_lib R) (uf_Password f))) (\<lambda>password.
     if length (uf_Roles f) = 0 then stop (Bomb 400 ''roles empty'')
     else bind_act (must_get ''user'' (gc_user c)) (\<lambda>user.
     render_message (User_Add ((new_user (uf_Username f) (uf_Nickname f))\<lparr>us_Password := password, us_Phone := uf_Phone f,
       us_Email := uf_Email f, us_Portrait := uf_Portrait f, us_Roles := Join (uf_Roles f) '' '', us_Contacts := uf_Contacts f,
       us_CreateBy := us_Username user, us_UpdateBy := us_Username user\<rparr>))))"

definition userProfileGet :: "request \<Rightarrow> User reply center_act" where
  "userProfileGet rq = bind_act (UrlParamInt64 rq ''id'') (\<lambda>i. bind_act (router_User i) (\<lambda>u. ret (Data u)))"

record userProfileForm =
  pf_Nickname :: string
  pf_Phone :: string
  pf_Email :: string
  pf_Roles :: "string list"
  pf_Contacts :: string

definition userProfilePut :: "center_router \<Rightarrow> request \<Rightarrow> userProfileForm \<Rightarrow> gin_ctx \<Rightarrow> unit reply center_act" where
  "userProfilePut R rq f c =
     (if length (pf_Roles f) = 0 then stop (Bomb 400 ''roles empty'')
      else bind_act (UrlParamInt64 rq ''id'') (\<lambda>i.
      bind_act (router_User i) (\<lambda>target.
      bind_act (must_get ''username'' (gc_username c)) (\<lambda>username.
      render_message (User_UpdateAllFields (cr_lib R) (target\<lparr>us_Nickname := pf_Nickname f, us_Phone := pf_Phone f,
        us_Email := pf_Email f, us_Roles := Join (pf_Roles f) '' '', us_Contacts := pf_Contacts f, us_UpdateBy := username\<rparr>))))))"

definition userPasswordPut :: "center_router \<Rightarrow> request \<Rightarrow> string \<Rightarrow> gin_ctx \<Rightarrow> unit reply center_act" where
  "userPasswordPut R rq password c =
     bind_act (UrlParamInt64 rq ''id'') (\<lambda>i.
     bind_act (router_User i) (\<lambda>target.
     bind_act (dangerous (CryptoPass (cr_lib R) password)) (\<lambda>cryptoPass.
     bind_act (must_get ''username'' (gc_username c)) (\<lambda>username.
     render_message (User_UpdatePassword target cryptoPass username)))))"

definition userDel :: "request \<Rightarrow> unit reply center_act" where
  "userDel rq =
     bind_act (UrlParamInt64 rq ''id'') (\<lambda>i.
     bind_act (dangerous (UserGetById i)) (\<lambda>target.
     case target of None \<Rightarrow> ret (Message 200 '''') | Some u \<Rightarrow> render_message (User_Del u)))"

definition selfProfileGet :: "gin_ctx \<Rightarrow> User reply center_act" where
  "selfProfileGet c = bind_act (must_get ''user'' (gc_user c)) (\<lambda>user.
     ret (Data (if IsAdmin user then user\<lparr>us_Admin := True\<rparr> else user)))"

record selfProfileForm =
  sf_Nickname :: string
  sf_Phone :: string
  sf_Email :: string
  sf_Portrait :: string
  sf_Contacts :: string

definition selfProfilePut :: "center_router \<Rightarrow> selfProfileForm \<Rightarrow> gin_ctx \<Rightarrow> unit reply center_act" where
  "selfProfilePut R f c =
     bind_act (must_get ''user'' (gc_user c)) (\<lambda>user.
     render_message (User_UpdateAllFields (cr_lib R) (user\<lparr>us_Nickname := sf_Nickname f, us_Phone := sf_Phone f, us_Email := sf_Email f,
       us_Portrait := sf_Portrait f, us_Contacts := sf_Contacts f, us_UpdateBy := us_Username user\<rparr>)))"

definition selfPasswordPut :: "center_router \<Rightarrow> string \<Rightarrow> string \<Rightarrow> gin_ctx \<Rightarrow> unit reply center_act" where
  "selfPasswordPut R oldPass newPass c =
     bind_act (must_get ''user'' (gc_user c)) (\<lambda>user. render_message (User_ChangePassword (cr_lib R) user oldPass newPass))"

subsection \<open>Teams\<close>

definition checkBusiGroupPerm :: "request \<Rightarrow> string \<Rightarrow> gin_ctx \<Rightarrow> bool reply center_act" where
  "checkBusiGroupPerm rq flag c =
     bind_act (must_get ''user'' (gc_user c)) (\<lambda>me.
     bind_act (UrlParamInt64 rq ''id'') (\<lambda>i.
     bind_act (router_BusiGroup i) (\<lambda>bg. render_data (CanDoBusiGroup me bg [flag]))))"

definition userGroupGets :: "center_router \<Rightarrow> int \<Rightarrow> string \<Rightarrow> gin_ctx \<Rightarrow> UserGroup list reply center_act" where
  "userGroupGets R limit q c =
     bind_act (must_get ''user'' (gc_user c)) (\<lambda>me. render_data (UserGroups (cr_lib R) me limit q))"

definition userGroupAdd :: "center_router \<Rightarrow> string \<Rightarrow> string \<Rightarrow> gin_ctx \<Rightarrow> int reply center_act" where
  "userGroupAdd R name note c =
     bind_act (must_get ''user'' (gc_user c)) (\<lambda>me.
     bind_act (attempt (UserGroup_Add (cr_lib R) \<lparr>ug_Id = 0, ug_Name = name, ug_Note = note, ug_CreateAt = 0, ug_CreateBy = us_Username me,
       ug_UpdateAt = 0, ug_UpdateBy = us_Username me, ug_UserIds = []\<rparr>)) (\<lambda>r.
     case r of Inl e \<Rightarrow> ret (Message 200 e)
     | Inr ug \<Rightarrow> bind_act (attempt (UserGroupMemberAdd (ug_Id ug) (us_Id me))) (\<lambda>_. ret (Data (ug_Id ug)))))"

definition group_columns :: "UserGroup \<Rightarrow> UserGroup \<Rightarrow> UserGroup" where
  "group_columns ug r = r\<lparr>ug_Name := ug_Name ug, ug_Note := ug_Note ug, ug_UpdateAt := ug_UpdateAt ug, ug_UpdateBy := ug_UpdateBy ug\<rparr>"

definition userGroupPut :: "center_router \<Rightarrow> string \<Rightarrow> string \<Rightarrow> gin_ctx \<Rightarrow> unit reply center_act" where
  "userGroupPut R name note c =
     bind_act (must_get ''user'' (gc_user c)) (\<lambda>me.
     bind_act (must_get ''user_group'' (gc_user_group c)) (\<lambda>ug.
     bind_act (if ug_Name ug \<noteq> name then
         bind_act (dangerous (UserGroupCount (\<lambda>g. ug_Name g = name \<and> ug_Id g \<noteq> ug_Id ug))) (\<lambda>num.
         if num > 0 then stop (Bomb 200 ''UserGroup already exists'') else ret ())
       else ret ()) (\<lambda>_.
     bind_act Now_Unix (\<lambda>now.
     render_message (UserGroup_Update (cr_lib R) group_columns
       (ug\<lparr>ug_Name := name, ug_Note := note, ug_UpdateBy := us_Username me, ug_UpdateAt := now\<rparr>))))))"

definition userGroupGet :: "center_router \<Rightarrow> request \<Rightarrow> (User list \<times> UserGroup) reply center_act" where
  "userGroupGet R rq =
     bind_act (UrlParamInt64 rq ''id'') (\<lambda>i.
     bind_act (router_UserGroup i) (\<lambda>ug.
     bind_act (dangerous (MemberIds (ug_Id ug))) (\<lambda>ids.
     render_data (bind_act (UserGetsByIds (cr_lib R) ids) (\<lambda>users. ret (users, ug))))))"

definition userGroupDel :: "gin_ctx \<Rightarrow> unit reply center_act" where
  "userGroupDel c = bind_act (must_get ''user_group'' (gc_user_group c)) (\<lambda>ug. render_message (UserGroup_Del ug))"

definition touch_columns :: "UserGroup \<Rightarrow> UserGroup \<Rightarrow> UserGroup" where
  "touch_columns ug r = r\<lparr>ug_UpdateAt := ug_UpdateAt ug, ug_UpdateBy := ug_UpdateBy ug\<rparr>"

definition change_members :: "center_router \<Rightarrow> (UserGroup \<Rightarrow> int list \<Rightarrow> unit center_act) \<Rightarrow> int list \<Rightarrow> gin_ctx \<Rightarrow> unit reply center_act" where
  "change_members R change ids c =
     (if length ids = 0 then stop (Bomb 400 ''ids empty'')
      else bind_act (must_get ''user'' (gc_user c)) (\<lambda>me.
      bind_act (must_get ''user_group'' (gc_user_group c)) (\<lambda>ug.
      bind_act (attempt (change ug ids)) (\<lambda>r.
      case r of Inl e \<Rightarrow> ret (Message 200 e)
      | Inr _ \<Rightarrow> bind_act Now_Unix (\<lambda>now.
          bind_act (attempt (UserGroup_Update (cr_lib R) touch_columns (ug\<lparr>ug_UpdateAt := now, ug_UpdateBy := us_Username me\<rparr>)))
            (\<lambda>_. ret (Message 200 '''')))))))"

definition userGroupMemberAdd :: "center_router \<Rightarrow> int list \<Rightarrow> gin_ctx \<Rightarrow> unit reply center_act" where
  "userGroupMemberAdd R ids c = change_members R UserGroup_AddMembers ids c"

definition userGroupMemberDel :: "center_router \<Rightarrow> int list \<Rightarrow> gin_ctx \<Rightarrow> unit reply center_act" where
  "userGroupMemberDel R ids c = change_members R UserGroup_DelMembers ids c"

subsection \<open>Business groups\<close>

record busiGroupForm =
  bf_Name :: string
  bf_LabelEnable :: int
  bf_LabelValue :: string
  bf_Members :: "BusiGroupMember list"

definition busiGroupAdd :: "busiGroupForm \<Rightarrow> gin_ctx \<Rightarrow> int reply center_act" where
  "busiGroupAdd f c =
     (if length (bf_Members f) = 0 then stop (Bomb 400 ''members empty'')
      else if \<not> (\<exists>m \<in> set (bf_Members f). bgm_PermFlag m = ''rw'') then stop (Bomb 400 ''At least one team have rw permission'')
      else bind_act (must_get ''username'' (gc_username c)) (\<lambda>username.
      bind_act (dangerous (BusiGroupAdd (bf_Name f) (bf_LabelEnable f) (bf_LabelValue f) (bf_Members f) username)) (\<lambda>_.
      bind_act (dangerous (BusiGroupGet (\<lambda>bg. bg_Name bg = bf_Name f))) (\<lambda>newbg.
      case newbg of None \<Rightarrow> ret (Message 200 (''Failed to create BusiGroup('' @ bf_Name f @ '')''))
      | Some bg \<Rightarrow> ret (Data (bg_Id bg))))))"

definition busiGroupPut :: "busiGroupForm \<Rightarrow> gin_ctx \<Rightarrow> unit reply center_act" where
  "busiGroupPut f c =
     bind_act (must_get ''username'' (gc_username c)) (\<lambda>username.
     bind_act (must_get ''busi_group'' (gc_busi_group c)) (\<lambda>targetbg.
     render_message (BusiGroup_Update targetbg (bf_Name f) (bf_LabelEnable f) (bf_LabelValue f) username)))"

definition change_teams :: "(BusiGroup \<Rightarrow> BusiGroupMember list \<Rightarrow> string \<Rightarrow> unit center_act) \<Rightarrow> BusiGroupMember list \<Rightarrow> gin_ctx \<Rightarrow> unit reply center_act" where
  "change_teams change members c =
     bind_act (must_get ''username'' (gc_username c)) (\<lambda>username.
     bind_act (must_get ''busi_group'' (gc_busi_group c)) (\<lambda>targetbg.
     if \<exists>m \<in> set members. bgm_BusiGroupId m \<noteq> bg_Id targetbg then stop (Bomb 400 ''business group id invalid'')
     else render_message (change targetbg members username)))"

definition busiGroupMemberAdd :: "BusiGroupMember list \<Rightarrow> gin_ctx \<Rightarrow> unit reply center_act" where
  "busiGroupMemberAdd members c = change_teams BusiGroup_AddMembers members c"

definition busiGroupMemberDel :: "BusiGroupMember list \<Rightarrow> gin_ctx \<Rightarrow> unit reply center_act" where
  "busiGroupMemberDel members c = change_teams BusiGroup_DelMembers members c"

definition busiGroupDel :: "gin_ctx \<Rightarrow> unit reply center_act" where
  "busiGroupDel c =
     bind_act (must_get ''username'' (gc_username c)) (\<lambda>username.
     bind_act (must_get ''busi_group'' (gc_busi_group c)) (\<lambda>targetbg. render_message (BusiGroup_Del targetbg)))"

definition busiGroupGets :: "center_router \<Rightarrow> int \<Rightarrow> string \<Rightarrow> bool \<Rightarrow> gin_ctx \<Rightarrow> BusiGroup list reply center_act" where
  "busiGroupGets R limit q all c =
     bind_act (must_get ''user'' (gc_user c)) (\<lambda>me. render_data (BusiGroups (cr_lib R) me limit q [all]))"

definition busiGroupGet :: "center_router \<Rightarrow> request \<Rightarrow> (BusiGroup \<times> (UserGroup option \<times> string) list) reply center_act" where
  "busiGroupGet R rq =
     bind_act (UrlParamInt64 rq ''id'') (\<lambda>i.
     bind_act (router_BusiGroup i) (\<lambda>bg.
     bind_act (dangerous (FillUserGroups (cr_lib R) bg)) (\<lambda>ugs. ret (Data (bg, ugs)))))"

subsection \<open>Roles\<close>

definition rolesGets :: "Role list reply center_act" where
  "rolesGets = render_data RoleGetsAll"

definition roleGets :: "Role list reply center_act" where
  "roleGets = render_data RoleGetsAll"

definition permsGets :: "gin_ctx \<Rightarrow> string list reply center_act" where
  "permsGets c = bind_act (must_get ''user'' (gc_user c)) (\<lambda>user. render_data (OperationsOfRole (Fields (us_Roles user))))"

definition roleAdd :: "Role \<Rightarrow> unit reply center_act" where
  "roleAdd f = render_message (Role_Add f)"

definition rolePut :: "Role \<Rightarrow> unit reply center_act" where
  "rolePut f =
     bind_act (dangerous (RoleGet (\<lambda>r. ro_Id r = ro_Id f))) (\<lambda>oldRule.
     case oldRule of None \<Rightarrow> stop (Bomb 200 ''role not found'')
     | Some r \<Rightarrow>
        if ro_Name r = ''Admin'' then stop (Bomb 200 ''admin role can not be modified'')
        else bind_act (if ro_Name r \<noteq> ro_Name f then
            bind_act (dangerous (RoleCount (\<lambda>x. ro_Name x = ro_Name f \<and> ro_Id x \<noteq> ro_Id r))) (\<lambda>num.
            if num > 0 then stop (Bomb 200 ''role name already exists'') else ret ())
          else ret ()) (\<lambda>_.
        render_message (Role_Update (r\<lparr>ro_Name := ro_Name f, ro_Note := ro_Note f\<rparr>))))"

text \<open>The name of the role is read before the test whether there is one.\<close>

definition roleDel :: "request \<Rightarrow> unit reply center_act" where
  "roleDel rq =
     bind_act (UrlParamInt64 rq ''id'') (\<lambda>i.
     bind_act (dangerous (RoleGet (\<lambda>r. ro_Id r = i))) (\<lambda>target.
     case target of None \<Rightarrow> stop (Crash Nil_dereference)
     | Some r \<Rightarrow>
        if ro_Name r = ''Admin'' then stop (Bomb 200 ''admin role can not be modified'')
        else render_message (Role_Del r)))"

definition operationOfRole :: "request \<Rightarrow> string list reply center_act" where
  "operationOfRole rq =
     bind_act (UrlParamInt64 rq ''id'') (\<lambda>i.
     bind_act (dangerous (RoleGet (\<lambda>r. ro_Id r = i))) (\<lambda>role.
     case role of None \<Rightarrow> stop (Bomb 200 ''role not found'') | Some r \<Rightarrow> render_data (OperationsOfRole [ro_Name r])))"

definition roleBindOperation :: "request \<Rightarrow> string list \<Rightarrow> unit reply center_act" where
  "roleBindOperation rq ops =
     bind_act (UrlParamInt64 rq ''id'') (\<lambda>i.
     bind_act (dangerous (RoleGet (\<lambda>r. ro_Id r = i))) (\<lambda>role.
     case role of None \<Rightarrow> stop (Bomb 200 ''role not found'')
     | Some r \<Rightarrow>
        if ro_Name r = ''Admin'' then stop (Bomb 200 ''admin role can not be modified'')
        else render_message (RoleOperationBind (ro_Name r) ops)))"

fun perms_loop :: "Role list \<Rightarrow> (string, string list) go_map \<Rightarrow> (string, string list) go_map center_act" where
  "perms_loop [] m = ret m"
| "perms_loop (r # rs) m =
     bind_act (attempt (OperationsOfRole (Fields (ro_Name r)))) (\<lambda>x.
     case x of Inl e \<Rightarrow> perms_loop rs m | Inr lst \<Rightarrow> perms_loop rs (go_set (ro_Name r) lst m))"

definition allPerms :: "(string, string list) go_map reply center_act" where
  "allPerms = bind_act (dangerous RoleGetsAll) (\<lambda>roles. bind_act (perms_loop roles []) (\<lambda>m. ret (Data m)))"

subsection \<open>Routes\<close>

text \<open>
  A route runs its middleware in order on a fresh context and then its handler. \<open>call\<close> lists the
  requests of the web pages on users, teams, business groups and roles with their decoded bodies;
  the data of an answer is left out of \<open>serve\<close>.
\<close>

definition chain :: "(gin_ctx \<Rightarrow> gin_ctx center_act) list \<Rightarrow> (gin_ctx \<Rightarrow> 'a center_act) \<Rightarrow> 'a center_act" where
  "chain mws h = foldr (\<lambda>mw k c. bind_act (mw c) k) mws h empty_ctx"

definition answered :: "'a reply center_act \<Rightarrow> unit reply center_act" where
  "answered m = bind_act m (\<lambda>r. case r of Data _ \<Rightarrow> ret (Data ()) | Message n t \<Rightarrow> ret (Message n t))"

datatype call =
    Self_perms | Self_profile_get | Self_profile_put selfProfileForm | Self_password_put string string
  | Users_get string int int | Users_post userAddForm | User_profile_get | User_profile_put userProfileForm
  | User_password_put string | User_delete
  | User_groups_get int string | User_groups_post string string | User_group_get | User_group_put string string
  | User_group_delete | User_group_members_post "int list" | User_group_members_delete "int list"
  | Busi_groups_get int string bool | Busi_groups_post busiGroupForm | Busi_group_get | Busi_group_put busiGroupForm
  | Busi_group_members_post "BusiGroupMember list" | Busi_group_members_delete "BusiGroupMember list" | Busi_group_delete
  | Busi_group_perm string
  | Roles_get | Roles_post Role | Roles_put Role | Role_delete | Role_ops_get | Role_ops_put "string list"

datatype guard = Mw_user | Mw_admin | Mw_perm string | Mw_userGroupWrite | Mw_bgro | Mw_bgrw

fun mw :: "request \<Rightarrow> guard \<Rightarrow> gin_ctx \<Rightarrow> gin_ctx center_act" where
  "mw rq Mw_user c = user_mw c"
| "mw rq Mw_admin c = admin_mw c"
| "mw rq (Mw_perm operation) c = perm operation c"
| "mw rq Mw_userGroupWrite c = userGroupWrite rq c"
| "mw rq Mw_bgro c = bgro rq c"
| "mw rq Mw_bgrw c = bgrw rq c"

text \<open>Every route starts with \<open>auth\<close>; here are the guards that follow it and the handler.\<close>

fun route :: "center_router \<Rightarrow> request \<Rightarrow> call \<Rightarrow> guard list \<times> (gin_ctx \<Rightarrow> unit reply center_act)" where
  "route R rq Self_perms = ([Mw_user], (\<lambda>c. answered (permsGets c)))"
| "route R rq Self_profile_get = ([Mw_user], (\<lambda>c. answered (selfProfileGet c)))"
| "route R rq (Self_profile_put f) = ([Mw_user], (selfProfilePut R f))"
| "route R rq (Self_password_put old new) = ([Mw_user], (selfPasswordPut R old new))"
| "route R rq (Users_get q limit offset) = ([Mw_user, Mw_perm ''/users''], (\<lambda>c. answered (userGets R q limit offset c)))"
| "route R rq (Users_post f) = ([Mw_admin], (userAddPost R f))"
| "route R rq User_profile_get = ([], (\<lambda>c. answered (userProfileGet rq)))"
| "route R rq (User_profile_put f) = ([Mw_admin], (userProfilePut R rq f))"
| "route R rq (User_password_put p) = ([Mw_admin], (userPasswordPut R rq p))"
| "route R rq User_delete = ([Mw_admin], (\<lambda>c. userDel rq))"
| "route R rq (User_groups_get limit q) = ([Mw_user], (\<lambda>c. answered (userGroupGets R limit q c)))"
| "route R rq (User_groups_post name note) = ([Mw_user, Mw_perm ''/user-groups/add''], (\<lambda>c. answered (userGroupAdd R name note c)))"
| "route R rq User_group_get = ([Mw_user], (\<lambda>c. answered (userGroupGet R rq)))"
| "route R rq (User_group_put name note) = ([Mw_user, Mw_perm ''/user-groups/put'', Mw_userGroupWrite], (userGroupPut R name note))"
| "route R rq User_group_delete = ([Mw_user, Mw_perm ''/user-groups/del'', Mw_userGroupWrite], userGroupDel)"
| "route R rq (User_group_members_post ids) = ([Mw_user, Mw_perm ''/user-groups/put'', Mw_userGroupWrite], (userGroupMemberAdd R ids))"
| "route R rq (User_group_members_delete ids) = ([Mw_user, Mw_perm ''/user-groups/put'', Mw_userGroupWrite], (userGroupMemberDel R ids))"
| "route R rq (Busi_groups_get limit q all) = ([Mw_user], (\<lambda>c. answered (busiGroupGets R limit q all c)))"
| "route R rq (Busi_groups_post f) = ([Mw_user, Mw_perm ''/busi-groups/add''], (\<lambda>c. answered (busiGroupAdd f c)))"
| "route R rq Busi_group_get = ([Mw_user, Mw_bgro], (\<lambda>c. answered (busiGroupGet R rq)))"
| "route R rq (Busi_group_put f) = ([Mw_user, Mw_perm ''/busi-groups/put'', Mw_bgrw], (busiGroupPut f))"
| "route R rq (Busi_group_members_post ms) = ([Mw_user, Mw_perm ''/busi-groups/put'', Mw_bgrw], (busiGroupMemberAdd ms))"
| "route R rq (Busi_group_members_delete ms) = ([Mw_user, Mw_perm ''/busi-groups/put'', Mw_bgrw], (busiGroupMemberDel ms))"
| "route R rq Busi_group_delete = ([Mw_user, Mw_perm ''/busi-groups/del'', Mw_bgrw], busiGroupDel)"
| "route R rq (Busi_group_perm flag) = ([Mw_user], (\<lambda>c. answered (checkBusiGroupPerm rq flag c)))"
| "route R rq Roles_get = ([Mw_admin], (\<lambda>c. answered roleGets))"
| "route R rq (Roles_post r) = ([Mw_admin], (\<lambda>c. roleAdd r))"
| "route R rq (Roles_put r) = ([Mw_admin], (\<lambda>c. rolePut r))"
| "route R rq Role_delete = ([Mw_admin], (\<lambda>c. roleDel rq))"
| "route R rq Role_ops_get = ([Mw_admin], (\<lambda>c. answered (operationOfRole rq)))"
| "route R rq (Role_ops_put ops) = ([Mw_admin], (\<lambda>c. roleBindOperation rq ops))"

definition serve :: "center_router \<Rightarrow> request \<Rightarrow> call \<Rightarrow> unit reply center_act" where
  "serve R rq call = (case route R rq call of (guards, handler) \<Rightarrow> chain (auth R rq # map (mw rq) guards) handler)"

definition serve_login :: "center_router \<Rightarrow> request \<Rightarrow> loginForm \<Rightarrow> (User \<times> string \<times> string) reply center_act" where
  "serve_login R rq f = bind_act (jwtMock R rq empty_ctx) (\<lambda>r. case r of Inr d \<Rightarrow> ret (Data d) | Inl c \<Rightarrow> loginPost R f)"

definition serve_logout :: "center_router \<Rightarrow> request \<Rightarrow> unit reply center_act" where
  "serve_logout R rq = bind_act (jwtMock R rq empty_ctx) (\<lambda>r. case r of Inr d \<Rightarrow> ret (Data ())
     | Inl c \<Rightarrow> bind_act (auth R rq c) (\<lambda>_. logoutPost R rq))"

definition serve_refresh :: "center_router \<Rightarrow> request \<Rightarrow> string \<Rightarrow> (string \<times> string) reply center_act" where
  "serve_refresh R rq refreshToken = bind_act (jwtMock R rq empty_ctx) (\<lambda>r. case r of Inr (u, a, b) \<Rightarrow> ret (Data (a, b))
     | Inl c \<Rightarrow> refreshPost R refreshToken)"

end
