(* ===== verification/Center_Samples.thy ===== *)
theory Center_Samples
  imports Center_Handlers
begin

text \<open>
  A small instance of the center for witnesses: one user in one team that may write one business
  group, and a token library whose tokens spell out their key and string claims.
\<close>

definition sample_field :: "string \<Rightarrow> string" where
  "sample_field s = concat (map (\<lambda>c. [CHR ''x'', c]) s) @ ''.''"

fun sample_unfield :: "string \<Rightarrow> string \<Rightarrow> string \<times> string" where
  "sample_unfield acc (c # d # r) = (if c = CHR ''x'' then sample_unfield (acc @ [d]) r else (acc, d # r))"
| "sample_unfield acc r = (acc, [])"

lemma sample_unfield_field: "sample_unfield acc (sample_field s @ r) = (acc @ s, r)"
proof (induction s arbitrary: acc)
  case Nil
  then show ?case by (cases r) (auto simp: sample_field_def)
next
  case (Cons c s)
  have "sample_field (c # s) @ r = CHR ''x'' # c # (sample_field s @ r)" by (simp add: sample_field_def)
  then show ?case using Cons.IH [of "acc @ [c]"] by simp
qed

definition sample_sign :: "string \<Rightarrow> claims \<Rightarrow> string + string" where
  "sample_sign key cl =
     (let y = (case claim_string cl ''user_identity'' of Some y \<Rightarrow> y | None \<Rightarrow> '''') in
      case claim_string cl ''access_uuid'' of
        Some x \<Rightarrow> Inr (CHR ''A'' # sample_field key @ sample_field x @ sample_field y)
      | None \<Rightarrow> (case claim_string cl ''refresh_uuid'' of
          Some x \<Rightarrow> Inr (CHR ''R'' # sample_field key @ sample_field x @ sample_field y)
        | None \<Rightarrow> Inr ''-''))"

definition sample_parse :: "int \<Rightarrow> (bool \<Rightarrow> string \<Rightarrow> string + string) \<Rightarrow> string \<Rightarrow> string + (claims \<times> bool)" where
  "sample_parse now f tok =
     (case tok of [] \<Rightarrow> Inl ''empty''
      | k # r \<Rightarrow>
         (let (key, r1) = sample_unfield [] r; (x, r2) = sample_unfield [] r1; (y, r3) = sample_unfield [] r2 in
          case f True ''HS256'' of Inl e \<Rightarrow> Inl e
          | Inr key' \<Rightarrow> if key' \<noteq> key then Inl ''signature is invalid''
              else if k = CHR ''A'' then Inr (access_claims x y 0, True) else Inr (refresh_claims x y 0, True)))"

definition sample_conf :: http_conf where
  "sample_conf = \<lparr>hc_ProxyAuth_Enable = False, hc_HeaderUserNameKey = '''', hc_DefaultRoles = [], hc_SigningKey = ''k'',
     hc_AccessExpired = 10, hc_RefreshExpired = 100, hc_RedisKeyPrefix = ''/jwt/'', hc_ShowCaptcha = False, hc_OpenRSA = False\<rparr>"

definition sample_center_lib :: center_lib where
  "sample_center_lib = \<lparr>cl_md5 = (\<lambda>x. x), cl_Dangerous = (\<lambda>x. False), cl_IsPhone = (\<lambda>x. True), cl_IsMail = (\<lambda>x. True),
     cl_like = (\<lambda>v p. True), cl_collate = (\<lambda>x. x), cl_IsCenter = True, cl_remote_users = (\<lambda>x. Inr []),
     cl_remote_groups = (\<lambda>x. Inr []), cl_remote_members = (\<lambda>x. Inr []), cl_remote_config = (\<lambda>x. Inr '''')\<rparr>"

definition sample_crouter :: center_router where
  "sample_crouter = \<lparr>cr_http = sample_conf, cr_lib = sample_center_lib,
     cr_jwt = \<lparr>jl_SignedString = sample_sign, jl_Parse = sample_parse, jl_Parse_dgrijalva = sample_parse\<rparr>,
     cr_captcha = (\<lambda>x y. True), cr_rsa = (\<lambda>x. Inr x), cr_ldap_Enable = False, cr_ldap_DefaultRoles = [],
     cr_ldap = \<lparr>ld_req = (\<lambda>u p. Inl ''no directory''), ld_Nickname = '''', ld_Email = '''', ld_Phone = '''', ld_CoverAttributes = False\<rparr>\<rparr>"

definition sample_user :: User where
  "sample_user = (new_user ''bob'' ''Bob'')\<lparr>us_Id := 7, us_Roles := ''Standard'', us_Password := ''s<-*Uk30^96eY*->pw''\<rparr>"

definition sample_group :: BusiGroup where
  "sample_group = \<lparr>bg_Id = 5, bg_Name = ''infra'', bg_LabelEnable = 0, bg_LabelValue = '''', bg_CreateAt = 0, bg_CreateBy = ''root'',
     bg_UpdateAt = 0, bg_UpdateBy = ''root''\<rparr>"

definition sample_team :: UserGroup where
  "sample_team = \<lparr>ug_Id = 3, ug_Name = ''ops'', ug_Note = '''', ug_CreateAt = 0, ug_CreateBy = ''root'', ug_UpdateAt = 0,
     ug_UpdateBy = ''root'', ug_UserIds = []\<rparr>"

text \<open>The \<open>n\<close>-th answer is given at time \<open>n\<close>; no statement fails.\<close>

definition sample_center :: "string \<Rightarrow> (string, string \<times> int option) go_map \<Rightarrow> center" where
  "sample_center uuid redis = \<lparr>ce_users = [sample_user], ce_user_group = [sample_team],
     ce_user_group_member = [\<lparr>ugm_GroupId = 3, ugm_UserId = 7\<rparr>], ce_busi_group = [sample_group],
     ce_busi_group_member = [\<lparr>bgm_BusiGroupId = 5, bgm_UserGroupId = 3, bgm_PermFlag = ''rw''\<rparr>],
     ce_role = [\<lparr>ro_Id = 1, ro_Name = ''Admin'', ro_Note = ''''\<rparr>, \<lparr>ro_Id = 2, ro_Name = ''Standard'', ro_Note = ''''\<rparr>],
     ce_role_operation = [\<lparr>op_RoleName = ''Standard'', op_Operation = ''/busi-groups/put''\<rparr>],
     ce_configs = [(''salt'', ''s'')], ce_target = [], ce_alert_mute = [], ce_alert_subscribe = [], ce_board = [], ce_task_tpl = [],
     ce_alert_rule = [], ce_alert_cur_event = [], ce_recording_rule = [], ce_board_payload = [], ce_alert_his_event = [],
     ce_alert_aggr_view = [], ce_redis = redis,
     ce_answers = (\<lambda>n. \<lparr>an_fault = None, an_id = 100 + int n, an_now = int n, an_uuid = uuid\<rparr>), ce_step = 0\<rparr>"

definition sample_request :: "string \<Rightarrow> request" where
  "sample_request tok = \<lparr>rq_header = (\<lambda>h. if h = ''Authorization'' then ''Bearer '' @ tok else ''''), rq_path = '''', rq_int = (\<lambda>n. Inr 5)\<rparr>"

definition sample_token :: string where
  "sample_token = CHR ''A'' # sample_field ''k'' @ sample_field ''u'' @ sample_field ''7-bob''"

end
