(* ===== verification/Access_Spec.thy ===== *)
theory Access_Spec
  imports Center_Samples
begin

text \<open>
  What the middleware of the center guarantees. An action that only reads (\<open>reads\<close>) leaves the
  state as it was, apart from the count of answers it took. The checks of permissions read, so a
  request changes a table only if its handler was reached; \<open>permitted\<close> states over the tables who
  reaches it, and both directions are shown: a handler that runs was permitted, whatever statements
  failed, and without failures a permitted request reaches its handler.
\<close>

subsection \<open>Reading actions\<close>

definition reads :: "'a center_act \<Rightarrow> bool" where
  "reads m \<longleftrightarrow> (\<forall>s. \<exists>n \<ge> ce_step s. snd (m s) = s\<lparr>ce_step := n\<rparr>)"

lemma reads_state: "reads m \<Longrightarrow> m s = (r, t) \<Longrightarrow> \<exists>n \<ge> ce_step s. t = s\<lparr>ce_step := n\<rparr>"
  unfolding reads_def by (metis snd_conv)

lemma reads_ret [sat_rules]: "reads (ret x)"
  by (auto simp: reads_def ret_def intro!: exI [of _ "ce_step s" for s])

lemma reads_stop [sat_rules]: "reads (stop e)"
  by (auto simp: reads_def stop_def intro!: exI [of _ "ce_step s" for s])

lemma reads_ask [sat_rules]: "reads ask"
  by (auto simp: reads_def ask_def intro!: exI [of _ "Suc (ce_step s)" for s])

lemma reads_bind [sat_rules]:
  assumes "reads m" and "\<And>x. reads (f x)"
  shows "reads (bind_act m f)"
  unfolding reads_def
proof
  fix s
  obtain r t where m: "m s = (r, t)" by (cases "m s")
  obtain n where n: "n \<ge> ce_step s" "t = s\<lparr>ce_step := n\<rparr>" using reads_state [OF assms(1) m] by blast
  show "\<exists>n \<ge> ce_step s. snd (bind_act m f s) = s\<lparr>ce_step := n\<rparr>"
  proof (cases r)
    case (Inl e)
    then show ?thesis using m n by (auto simp: bind_act_def)
  next
    case (Inr x)
    obtain k where "k \<ge> ce_step t" "snd (f x t) = t\<lparr>ce_step := k\<rparr>" using assms(2) [of x] unfolding reads_def by blast
    then have "ce_step s \<le> k" "snd (bind_act m f s) = s\<lparr>ce_step := k\<rparr>" using m Inr n by (auto simp: bind_act_def)
    then show ?thesis by blast
  qed
qed

lemma snd_attempt: "snd (attempt m s) = snd (m s)"
  by (auto simp: attempt_def split: prod.split sum.split failure.split)

lemma snd_change_err: "snd (change_err h m s) = snd (m s)"
  by (auto simp: change_err_def split: prod.split sum.split failure.split)

lemma reads_attempt [sat_rules]: "reads m \<Longrightarrow> reads (attempt m)"
  by (simp add: reads_def snd_attempt)

lemma reads_change_err [sat_rules]: "reads m \<Longrightarrow> reads (change_err h m)"
  by (simp add: reads_def snd_change_err)

lemmas reads_with_message [sat_rules] = reads_change_err [of _ "\<lambda>e. Err (msg @ '': '' @ e)" for msg, folded with_message_def]
lemmas reads_dangerous [sat_rules] = reads_change_err [of _ Danger, folded dangerous_def]

lemma reads_if [sat_rules]: "(b \<Longrightarrow> reads m) \<Longrightarrow> (\<not> b \<Longrightarrow> reads n) \<Longrightarrow> reads (if b then m else n)"
  by simp

lemma reads_option [sat_rules]: "reads m \<Longrightarrow> (\<And>x. reads (f x)) \<Longrightarrow> reads (case x of None \<Rightarrow> m | Some x \<Rightarrow> f x)"
  by (cases x) auto

lemma reads_sum [sat_rules]: "(\<And>e. reads (g e)) \<Longrightarrow> (\<And>x. reads (f x)) \<Longrightarrow> reads (case x of Inl e \<Rightarrow> g e | Inr x \<Rightarrow> f x)"
  by (cases x) auto

lemma reads_prod [sat_rules]: "(\<And>a b. reads (f a b)) \<Longrightarrow> reads (case x of (a, b) \<Rightarrow> f a b)"
  by (cases x) auto

lemma reads_list [sat_rules]: "reads m \<Longrightarrow> (\<And>x xs. reads (f x xs)) \<Longrightarrow> reads (case x of [] \<Rightarrow> m | x # xs \<Rightarrow> f x xs)"
  by (cases x) auto

lemma reads_reply [sat_rules]: "(\<And>x. reads (g x)) \<Longrightarrow> (\<And>n t. reads (f n t)) \<Longrightarrow> reads (case x of Data y \<Rightarrow> g y | Message n t \<Rightarrow> f n t)"
  by (cases x) auto

lemma reads_let [sat_rules]: "reads (f x) \<Longrightarrow> reads (let y = x in f y)"
  by simp

lemma reads_statement:
  assumes "\<And>a s. snd (f a s) = s"
  shows "reads (statement f)"
proof -
  have "reads (f a)" for a using assms by (auto simp: reads_def intro!: exI [of _ "ce_step s" for s])
  then show ?thesis unfolding statement_def by (intro sat_rules) auto
qed

lemma reads_query [sat_rules]: "reads (query q)"
  unfolding query_def by (rule reads_statement) simp

lemma reads_redis_Get [sat_rules]: "reads (redis_Get key)"
  unfolding redis_Get_def by (rule reads_statement) (simp split: option.split)

lemma reads_remote [sat_rules]: "reads (remote r)"
  by (cases r) (auto simp: remote_def intro: sat_rules)

lemma reads_lookups [sat_rules]:
  "reads Now_Unix" "reads (Count table p)" "reads (Exists table p)" "reads (Find table q)"
  "reads (ConfigsGet L k)" "reads (CryptoPass L k)" "reads (MyGroupIds i)" "reads (MemberIds i)"
  "reads (BusiGroupIds ids flag)" "reads (UserGroupIdsOfBusiGroup i flag)"
  "reads (UserGet up)" "reads (UserGetById i)" "reads (UserGetByUsername n)"
  "reads (UserGroupGetById i)" "reads (BusiGroupGetById i)" "reads (RoleHasOperation roles x)" "reads (OperationsOfRole roles)"
  by (simp_all add: Now_Unix_def Count_def Exists_def Find_def ConfigsGet_def CryptoPass_def MyGroupIds_def MemberIds_def
      BusiGroupIds_def UserGroupIdsOfBusiGroup_def UserGet_def UserGetById_def UserGetByUsername_def UserGroupGetById_def
      UserGroupGet_def BusiGroupGetById_def BusiGroupGet_def RoleHasOperation_def OperationsOfRole_def sat_rules)

lemma reads_checks [sat_rules]:
  "reads (must_get k x)" "reads (UrlParamInt64 rq k)" "reads unauthorized" "reads forbidden"
  "reads (CanModifyUserGroup u ug)" "reads (CanDoBusiGroup u bg flag)" "reads (CheckPerm u oper)"
  by (simp_all add: must_get_def UrlParamInt64_def unauthorized_def forbidden_def CanModifyUserGroup_def UserGroupMemberCount_def
      CanDoBusiGroup_def CheckPerm_def sat_rules)

subsection \<open>What a reading action sees\<close>

text \<open>
  The environment is calm if none of the statements to come fails. \<open>sees m v\<close>: the action \<open>m\<close> only
  reads, and its outcome is \<open>v\<close> of the tables, unless a statement fails; then it fails too.
\<close>

definition calm :: "center \<Rightarrow> bool" where
  "calm s \<longleftrightarrow> (\<forall>n \<ge> ce_step s. an_fault (ce_answers s n) = None)"

lemma calm_later: "calm s \<Longrightarrow> ce_step s \<le> n \<Longrightarrow> calm (s\<lparr>ce_step := n\<rparr>)"
  by (simp add: calm_def)

definition steady :: "(center \<Rightarrow> 'a) \<Rightarrow> bool" where
  "steady q \<longleftrightarrow> (\<forall>s n. q (s\<lparr>ce_step := n\<rparr>) = q s)"

definition sees :: "'a center_act \<Rightarrow> (center \<Rightarrow> failure + 'a) \<Rightarrow> bool" where
  "sees m v \<longleftrightarrow> reads m \<and> steady v \<and> (\<forall>s. fst (m s) = v s \<or> (isl (fst (m s)) \<and> \<not> calm s))"

lemma sees_reads: "sees m v \<Longrightarrow> reads m"
  by (simp add: sees_def)

lemma sees_eq: "sees m v \<Longrightarrow> (\<And>s. v s = w s) \<Longrightarrow> sees m w"
  by (simp add: sees_def steady_def)

lemma sees_ret: "sees (ret x) (\<lambda>s. Inr x)"
  by (simp add: sees_def steady_def sat_rules) (simp add: ret_def)

lemma sees_stop: "sees (stop e) (\<lambda>s. Inl e)"
  by (simp add: sees_def steady_def sat_rules) (simp add: stop_def)

lemma sees_query: "steady q \<Longrightarrow> sees (query q) (\<lambda>s. Inr (q s))"
  unfolding sees_def using reads_query [of q]
  by (auto simp: steady_def query_def statement_def bind_act_def ask_def calm_def stop_def split: option.split)

lemma sees_bind:
  assumes m: "sees m v" and f: "\<And>x. sees (f x) (w x)"
  shows "sees (bind_act m f) (\<lambda>s. case v s of Inl e \<Rightarrow> Inl e | Inr x \<Rightarrow> w x s)"
proof -
  have "steady (\<lambda>s. case v s of Inl e \<Rightarrow> Inl e | Inr x \<Rightarrow> w x s)"
    using m f by (simp add: sees_def steady_def split: sum.split)
  moreover have "fst (bind_act m f s) = (case v s of Inl e \<Rightarrow> Inl e | Inr x \<Rightarrow> w x s) \<or> (isl (fst (bind_act m f s)) \<and> \<not> calm s)" for s
  proof -
    obtain r t where ms: "m s = (r, t)" by (cases "m s")
    obtain n where n: "n \<ge> ce_step s" "t = s\<lparr>ce_step := n\<rparr>" using reads_state [OF sees_reads [OF m] ms] by blast
    have r: "r = v s \<or> (isl r \<and> \<not> calm s)" using m ms by (metis sees_def fst_conv)
    show ?thesis
    proof (cases r)
      case (Inl e)
      then show ?thesis using r ms by (cases "v s") (auto simp: bind_act_def)
    next
      case (Inr x)
      then have v: "v s = Inr x" using r by auto
      have "fst (f x t) = w x t \<or> (isl (fst (f x t)) \<and> \<not> calm t)" using f by (simp add: sees_def)
      moreover have "w x t = w x s" using f n(2) by (simp add: sees_def steady_def)
      moreover have "\<not> calm t \<Longrightarrow> \<not> calm s" using n calm_later by blast
      ultimately show ?thesis using v ms Inr by (auto simp: bind_act_def)
    qed
  qed
  ultimately show ?thesis using m f by (simp add: sees_def reads_bind)
qed

definition map_err :: "(string \<Rightarrow> failure) \<Rightarrow> failure + 'a \<Rightarrow> failure + 'a" where
  "map_err h r = (case r of Inl (Err e) \<Rightarrow> Inl (h e) | _ \<Rightarrow> r)"

lemma map_err_simps [simp]: "map_err h (Inr x) = Inr x" "map_err h (Inl (Bomb n t)) = Inl (Bomb n t)" "isl (map_err h r) = isl r"
  by (auto simp: map_err_def split: sum.split failure.split)

lemma sees_change_err:
  assumes "sees m v"
  shows "sees (change_err h m) (\<lambda>s. map_err h (v s))"
proof -
  have e: "fst (change_err h m s) = map_err h (fst (m s))" for s
    by (auto simp: change_err_def map_err_def split: prod.split sum.split failure.split)
  show ?thesis using assms unfolding sees_def e by (simp add: steady_def reads_change_err) metis
qed

lemma sees_if: "(b \<Longrightarrow> sees m v) \<Longrightarrow> (\<not> b \<Longrightarrow> sees n w) \<Longrightarrow> sees (if b then m else n) (\<lambda>s. if b then v s else w s)"
  by (cases b) auto

lemma sees_option:
  "sees m v \<Longrightarrow> (\<And>y. sees (f y) (w y)) \<Longrightarrow>
   sees (case x of None \<Rightarrow> m | Some y \<Rightarrow> f y) (\<lambda>s. case x of None \<Rightarrow> v s | Some y \<Rightarrow> w y s)"
  by (cases x) auto

lemmas sees_rules = sees_ret sees_stop sees_bind sees_if sees_option sees_query
  sees_change_err [of _ _ Danger, folded dangerous_def] sees_change_err

lemma steady_tables [simp]:
  "steady (\<lambda>s. g (ce_users s))" "steady (\<lambda>s. g2 (ce_user_group s))" "steady (\<lambda>s. g3 (ce_user_group_member s))"
  "steady (\<lambda>s. g4 (ce_busi_group s))" "steady (\<lambda>s. g5 (ce_busi_group_member s))" "steady (\<lambda>s. g6 (ce_role_operation s))"
  "steady (\<lambda>s. g7 (ce_target s))"
  by (simp_all add: steady_def)

subsection \<open>Who may do what\<close>

definition roles_of :: "User \<Rightarrow> string set" where
  "roles_of u = set (Fields (us_Roles u))"

definition member_of :: "center \<Rightarrow> User \<Rightarrow> int \<Rightarrow> bool" where
  "member_of s u g \<longleftrightarrow> (\<exists>m \<in> set (ce_user_group_member s). ugm_UserId m = us_Id u \<and> ugm_GroupId m = g)"

definition may_operate :: "center \<Rightarrow> User \<Rightarrow> string \<Rightarrow> bool" where
  "may_operate s u oper \<longleftrightarrow> AdminRole \<in> roles_of u \<or>
     (\<exists>x \<in> set (ce_role_operation s). op_Operation x = oper \<and> op_RoleName x \<in> roles_of u)"

definition may_group :: "center \<Rightarrow> User \<Rightarrow> string list \<Rightarrow> BusiGroup \<Rightarrow> bool" where
  "may_group s u flag bg \<longleftrightarrow> AdminRole \<in> roles_of u \<or>
     (\<exists>m \<in> set (ce_busi_group_member s). bgm_BusiGroupId m = bg_Id bg \<and> flag_ok flag m \<and> member_of s u (bgm_UserGroupId m))"

definition may_team :: "center \<Rightarrow> User \<Rightarrow> UserGroup \<Rightarrow> bool" where
  "may_team s u ug \<longleftrightarrow> AdminRole \<in> roles_of u \<or> ug_CreateBy ug = us_Username u \<or> member_of s u (ug_Id ug)"

lemma fill_roles_simps [simp]:
  "us_RolesLst (fill_roles u) = Fields (us_Roles u)" "IsAdmin (fill_roles u) \<longleftrightarrow> AdminRole \<in> roles_of u"
  "us_Id (fill_roles u) = us_Id u" "us_Username (fill_roles u) = us_Username u" "us_Roles (fill_roles u) = us_Roles u"
  "us_Password (fill_roles u) = us_Password u"
  by (simp_all add: fill_roles_def IsAdmin_def roles_of_def Let_def)

lemma filter_ex: "(length (filter P xs) > 0) = (\<exists>x \<in> set xs. P x)" "(filter P xs = []) = (\<forall>x \<in> set xs. \<not> P x)"
  by (auto simp: filter_empty_conv)

lemma sees_Count: "steady table \<Longrightarrow> sees (Count table p) (\<lambda>s. Inr (int (length (filter p (table s)))))"
  unfolding Count_def by (rule sees_query) (simp add: steady_def)

lemma steady_field [simp]:
  "steady ce_users" "steady ce_user_group" "steady ce_user_group_member" "steady ce_busi_group" "steady ce_busi_group_member"
  "steady ce_role" "steady ce_role_operation" "steady ce_target"
  by (simp_all add: steady_def)

lemmas sees_intros = sees_rules sees_Count steady_field steady_tables

lemma sees_CheckPerm: "sees (CheckPerm (fill_roles u) oper) (\<lambda>s. Inr (may_operate s u oper))"
  unfolding CheckPerm_def RoleHasOperation_def Exists_def
  by (rule sees_eq, (rule sees_intros)+)
    (auto simp: may_operate_def roles_of_def filter_empty_conv)

lemma sees_CanDoBusiGroup: "sees (CanDoBusiGroup (fill_roles u) bg flag) (\<lambda>s. Inr (may_group s u flag bg))"
  unfolding CanDoBusiGroup_def UserGroupIdsOfBusiGroup_def UserGroupMemberCount_def
  by (rule sees_eq, (rule sees_intros)+)
    (auto simp: may_group_def member_of_def filter_empty_conv)

lemma sees_CanModifyUserGroup: "sees (CanModifyUserGroup (fill_roles u) ug) (\<lambda>s. Inr (may_team s u ug))"
  unfolding CanModifyUserGroup_def UserGroupMemberCount_def
  by (rule sees_eq, (rule sees_intros)+)
    (auto simp: may_team_def member_of_def filter_empty_conv)

subsection \<open>The guards\<close>

definition user_with :: "center \<Rightarrow> int \<Rightarrow> User option" where
  "user_with s i = first (filter (\<lambda>u. us_Id u = i) (ce_users s))"

definition team_with :: "center \<Rightarrow> int \<Rightarrow> UserGroup option" where
  "team_with s i = first (filter (\<lambda>g. ug_Id g = i) (ce_user_group s))"

definition group_with :: "center \<Rightarrow> int \<Rightarrow> BusiGroup option" where
  "group_with s i = first (filter (\<lambda>g. bg_Id g = i) (ce_busi_group s))"

lemma sees_lookups:
  "sees (UserGetById i) (\<lambda>s. Inr (map_option fill_roles (user_with s i)))"
  "sees (UserGroupGetById i) (\<lambda>s. Inr (team_with s i))"
  "sees (BusiGroupGetById i) (\<lambda>s. Inr (group_with s i))"
  unfolding UserGetById_def UserGet_def UserGroupGetById_def UserGroupGet_def BusiGroupGetById_def BusiGroupGet_def Find_def
    user_with_def team_with_def group_with_def
  by (rule sees_eq, (rule sees_intros)+, simp)+

text \<open>What the user \<open>uid\<close> of a session needs for a guard to let a request through.\<close>

definition grants :: "center \<Rightarrow> request \<Rightarrow> int \<Rightarrow> guard \<Rightarrow> bool" where
  "grants s rq uid g =
     (case user_with s uid of None \<Rightarrow> False
      | Some u \<Rightarrow>
         (case g of
            Mw_user \<Rightarrow> True
          | Mw_admin \<Rightarrow> AdminRole \<in> roles_of u
          | Mw_perm oper \<Rightarrow> may_operate s u oper
          | Mw_userGroupWrite \<Rightarrow> (\<exists>i ug. rq_int rq ''id'' = Inr i \<and> team_with s i = Some ug \<and> may_team s u ug)
          | Mw_bgro \<Rightarrow> (\<exists>i bg. rq_int rq ''id'' = Inr i \<and> group_with s i = Some bg \<and> may_group s u [] bg)
          | Mw_bgrw \<Rightarrow> (\<exists>i bg. rq_int rq ''id'' = Inr i \<and> group_with s i = Some bg \<and> may_group s u [''rw''] bg)))"

text \<open>What a context holds: rows of the tables.\<close>

definition ctx_ok :: "center \<Rightarrow> request \<Rightarrow> int \<Rightarrow> gin_ctx \<Rightarrow> bool" where
  "ctx_ok s rq uid c \<longleftrightarrow> gc_userid c = Some uid \<and>
     (\<forall>u. gc_user c = Some u \<longrightarrow> (\<exists>r. user_with s uid = Some r \<and> u = fill_roles r)) \<and>
     (\<forall>ug. gc_user_group c = Some ug \<longrightarrow> (\<exists>i. rq_int rq ''id'' = Inr i \<and> team_with s i = Some ug)) \<and>
     (\<forall>bg. gc_busi_group c = Some bg \<longrightarrow> (\<exists>i. rq_int rq ''id'' = Inr i \<and> group_with s i = Some bg))"

lemma sees_allow: "sees m (\<lambda>s. Inr (p s)) \<Longrightarrow> sees (allow m c) (\<lambda>s. if p s then Inr c else Inl (Bomb 403 ''forbidden''))"
  unfolding allow_def forbidden_def by (rule sees_eq, (rule sees_intros | assumption)+) simp

lemma sees_load: "sees m (\<lambda>s. Inr (p s)) \<Longrightarrow> sees (load m msg) (\<lambda>s. case p s of None \<Rightarrow> Inl (Bomb 404 msg) | Some x \<Rightarrow> Inr x)"
  unfolding load_def by (rule sees_eq, (rule sees_intros | assumption)+) (simp split: option.split)

lemma sees_must_get: "sees (must_get k v) (\<lambda>s. case v of None \<Rightarrow> Inl (Missing_key k) | Some x \<Rightarrow> Inr x)"
  unfolding must_get_def by (rule sees_intros)+

lemma sees_UrlParam: "sees (UrlParamInt64 rq k) (\<lambda>s. rq_int rq k)"
  unfolding UrlParamInt64_def by (cases "rq_int rq k") (auto intro: sees_ret sees_stop)

lemma sees_user_mw:
  "gc_userid c = Some i \<Longrightarrow> sees (user_mw c) (\<lambda>s. case user_with s i of None \<Rightarrow> Inl (Bomb 401 ''unauthorized'')
     | Some u \<Rightarrow> Inr (c\<lparr>gc_user := Some (fill_roles u), gc_isadmin := Some (AdminRole \<in> roles_of u)\<rparr>))"
  unfolding user_mw_def unauthorized_def
  by (rule sees_eq, (rule sees_must_get sees_lookups sees_intros)+) (simp split: option.split)

lemma sees_admin_mw:
  "gc_userid c = Some i \<Longrightarrow> sees (admin_mw c) (\<lambda>s. case user_with s i of None \<Rightarrow> Inl (Bomb 401 ''unauthorized'')
     | Some u \<Rightarrow> if AdminRole \<in> roles_of u then Inr (c\<lparr>gc_user := Some (fill_roles u)\<rparr>) else Inl (Bomb 403 ''forbidden''))"
  unfolding admin_mw_def unauthorized_def forbidden_def
  by (rule sees_eq, (rule sees_must_get sees_lookups sees_intros)+) (simp add: roles_of_def split: option.split)

lemma sees_perm:
  "gc_user c = Some (fill_roles u) \<Longrightarrow>
   sees (perm oper c) (\<lambda>s. if may_operate s u oper then Inr c else Inl (Bomb 403 ''forbidden''))"
  by (simp add: perm_def must_get_def sees_allow [OF sees_CheckPerm])

lemma sees_userGroupWrite:
  "gc_user c = Some (fill_roles u) \<Longrightarrow>
   sees (userGroupWrite rq c) (\<lambda>s. case rq_int rq ''id'' of Inl e \<Rightarrow> Inl e
     | Inr i \<Rightarrow> (case team_with s i of None \<Rightarrow> Inl (Bomb 404 ''No such UserGroup'')
        | Some ug \<Rightarrow> if may_team s u ug then Inr (c\<lparr>gc_user_group := Some ug\<rparr>) else Inl (Bomb 403 ''forbidden'')))"
  unfolding userGroupWrite_def router_UserGroup_def must_get_def
  by (rule sees_eq, simp, rule sees_bind [OF sees_UrlParam], rule sees_bind [OF sees_load [OF sees_lookups(2)]],
      rule sees_allow [OF sees_CanModifyUserGroup]) (auto split: sum.split option.split)

lemma sees_group_mw:
  "gc_user c = Some (fill_roles u) \<Longrightarrow>
   sees (group_mw flag rq c) (\<lambda>s. case rq_int rq ''id'' of Inl e \<Rightarrow> Inl e
     | Inr i \<Rightarrow> (case group_with s i of None \<Rightarrow> Inl (Bomb 404 ''No such BusiGroup'')
        | Some bg \<Rightarrow> if may_group s u flag bg then Inr (c\<lparr>gc_busi_group := Some bg\<rparr>) else Inl (Bomb 403 ''forbidden'')))"
  unfolding group_mw_def router_BusiGroup_def must_get_def
  by (rule sees_eq, simp, rule sees_bind [OF sees_UrlParam], rule sees_bind [OF sees_load [OF sees_lookups(3)]],
      rule sees_allow [OF sees_CanDoBusiGroup]) (auto split: sum.split option.split)

text \<open>An outcome of a guard on a state: through with a context of rows, or refused.\<close>

definition refused :: "center \<Rightarrow> (failure + 'a) \<times> center \<Rightarrow> bool" where
  "refused s out \<longleftrightarrow> isl (fst out) \<and> (\<exists>n \<ge> ce_step s. snd out = s\<lparr>ce_step := n\<rparr>)"

definition passed :: "center \<Rightarrow> request \<Rightarrow> int \<Rightarrow> (failure + gin_ctx) \<times> center \<Rightarrow> bool" where
  "passed s rq uid out \<longleftrightarrow> (\<exists>c n. out = (Inr c, s\<lparr>ce_step := n\<rparr>) \<and> n \<ge> ce_step s \<and> ctx_ok s rq uid c \<and> gc_user c \<noteq> None)"

definition opens :: "guard \<Rightarrow> bool" where
  "opens g \<longleftrightarrow> g = Mw_user \<or> g = Mw_admin"

lemma sees_outcome:
  assumes "sees m v"
  shows "(\<exists>n \<ge> ce_step s. snd (m s) = s\<lparr>ce_step := n\<rparr>) \<and> (fst (m s) = v s \<or> (isl (fst (m s)) \<and> \<not> calm s))"
  using assms by (simp add: sees_def reads_def)

lemma sees_guarded:
  assumes m: "sees m v"
    and yes: "P \<Longrightarrow> \<exists>c. v s = Inr c \<and> ctx_ok s rq uid c \<and> gc_user c \<noteq> None" and no: "\<not> P \<Longrightarrow> isl (v s)"
  shows "(passed s rq uid (m s) \<and> P) \<or> (refused s (m s) \<and> (P \<longrightarrow> \<not> calm s))"
proof -
  obtain n where n: "n \<ge> ce_step s" "snd (m s) = s\<lparr>ce_step := n\<rparr>" and r: "fst (m s) = v s \<or> (isl (fst (m s)) \<and> \<not> calm s)"
    using sees_outcome [OF m, of s] by blast
  from r show ?thesis
  proof
    assume v: "fst (m s) = v s"
    show ?thesis
    proof (cases P)
      case True
      then obtain c where "v s = Inr c" "ctx_ok s rq uid c" "gc_user c \<noteq> None" using yes by blast
      then have "m s = (Inr c, s\<lparr>ce_step := n\<rparr>)" using v n by (simp add: prod_eq_iff)
      then show ?thesis using True n \<open>ctx_ok s rq uid c\<close> \<open>gc_user c \<noteq> None\<close> unfolding passed_def by blast
    next
      case False
      then show ?thesis using no v n unfolding refused_def by auto
    qed
  qed (use n in \<open>auto simp: refused_def\<close>)
qed

lemma guard_outcome:
  assumes c: "ctx_ok s rq uid c" and u: "gc_user c \<noteq> None \<or> opens g"
  shows "(passed s rq uid (mw rq g c s) \<and> grants s rq uid g) \<or> (refused s (mw rq g c s) \<and> (grants s rq uid g \<longrightarrow> \<not> calm s))"
proof (cases "opens g")
  case True
  have uid: "gc_userid c = Some uid" using c by (simp add: ctx_ok_def)
  show ?thesis
  proof (cases "g = Mw_user")
    case True
    show ?thesis unfolding True mw.simps
      by (rule sees_guarded [OF sees_user_mw [OF uid]]) (use c in \<open>auto simp: grants_def ctx_ok_def split: option.splits\<close>)
  next
    case False
    then have g: "g = Mw_admin" using \<open>opens g\<close> by (simp add: opens_def)
    show ?thesis unfolding g mw.simps
      by (rule sees_guarded [OF sees_admin_mw [OF uid]]) (use c in \<open>auto simp: grants_def ctx_ok_def split: option.splits if_splits\<close>)
  qed
next
  case False
  then obtain r where r: "user_with s uid = Some r" "gc_user c = Some (fill_roles r)" using c u by (auto simp: ctx_ok_def)
  show ?thesis
  proof (cases g)
    case (Mw_perm oper)
    show ?thesis unfolding Mw_perm mw.simps
      by (rule sees_guarded [OF sees_perm [OF r(2)]]) (use c r in \<open>auto simp: grants_def\<close>)
  next
    case Mw_userGroupWrite
    show ?thesis unfolding Mw_userGroupWrite mw.simps
      by (rule sees_guarded [OF sees_userGroupWrite [OF r(2)]])
        (use c r in \<open>auto simp: grants_def ctx_ok_def split: sum.splits option.splits if_splits\<close>)
  next
    case Mw_bgro
    show ?thesis unfolding Mw_bgro mw.simps bgro_def
      by (rule sees_guarded [OF sees_group_mw [OF r(2)]])
        (use c r in \<open>auto simp: grants_def ctx_ok_def split: sum.splits option.splits if_splits\<close>)
  next
    case Mw_bgrw
    show ?thesis unfolding Mw_bgrw mw.simps bgrw_def
      by (rule sees_guarded [OF sees_group_mw [OF r(2)]])
        (use c r in \<open>auto simp: grants_def ctx_ok_def split: sum.splits option.splits if_splits\<close>)
  qed (use False in \<open>auto simp: opens_def\<close>)
qed

subsection \<open>Sessions and whole routes\<close>

text \<open>The details in a token, read at a time; the user an entry of Redis names.\<close>

definition token_details :: "center_router \<Rightarrow> request \<Rightarrow> int \<Rightarrow> failure + AccessDetails option" where
  "token_details R rq now =
     (if extractToken rq = '''' then Inl (Err ''bearer token not found'')
      else case jl_Parse (cr_jwt R) now (key_func (hc_SigningKey (cr_http R))) (extractToken rq) of
        Inl e \<Rightarrow> Inl (Err e)
      | Inr (cl, valid) \<Rightarrow>
          if \<not> valid then Inr None
          else (case claim_string cl ''access_uuid'' of None \<Rightarrow> Inl (Err ''failed to parse access_uuid from jwt'')
            | Some x \<Rightarrow> (case claim_string cl ''user_identity'' of None \<Rightarrow> Inl (Crash Type_assertion)
                | Some y \<Rightarrow> Inr (Some \<lparr>ad_AccessUuid = x, ad_UserIdentity = y\<rparr>))))"

definition named_user :: "string \<Rightarrow> (int \<times> string) option" where
  "named_user ident = (case SplitN2 ident ''-'' of [a, b] \<Rightarrow> map_option (\<lambda>i. (i, b)) (ParseInt a) | _ \<Rightarrow> None)"

text \<open>The user of a request: its token is valid at the time of the first answer, and the entry of the
  token is alive in Redis at the time of the second.\<close>

definition session :: "center_router \<Rightarrow> request \<Rightarrow> center \<Rightarrow> (int \<times> string) option" where
  "session R rq s =
     (case token_details R rq (an_now (ce_answers s (ce_step s))) of
        Inr (Some d) \<Rightarrow>
          (case redis_live (an_now (ce_answers s (Suc (ce_step s)))) s (wrapJwtKey R (ad_AccessUuid d)) of None \<Rightarrow> None
           | Some ident \<Rightarrow> named_user ident)
      | _ \<Rightarrow> None)"

lemma reads_auth: "\<not> hc_ProxyAuth_Enable (cr_http R) \<Longrightarrow> reads (auth R rq c)"
  unfolding auth_def jwtAuth_def extractTokenMetadata_def verifyToken_def fetchAuth_def
  by (auto intro!: sat_rules)

lemma redis_live_step [simp]: "redis_live now (s\<lparr>ce_step := n\<rparr>) k = redis_live now s k"
  by (simp add: redis_live_def)

lemma ask_apply: "ask s = (Inr (ce_answers s (ce_step s)), s\<lparr>ce_step := Suc (ce_step s)\<rparr>)"
  by (simp add: ask_def)

lemma extractTokenMetadata_eq:
  "extractTokenMetadata R rq s = (token_details R rq (an_now (ce_answers s (ce_step s))),
     if extractToken rq = '''' then s else s\<lparr>ce_step := Suc (ce_step s)\<rparr>)"
proof (cases "extractToken rq = ''''")
  case True
  then show ?thesis by (simp add: extractTokenMetadata_def verifyToken_def token_details_def stop_def)
next
  case False
  let ?p = "jl_Parse (cr_jwt R) (an_now (ce_answers s (ce_step s))) (key_func (hc_SigningKey (cr_http R))) (extractToken rq)"
  have "verifyToken R (hc_SigningKey (cr_http R)) (extractToken rq) s =
      (case ?p of Inl e \<Rightarrow> Inl (Err e) | Inr x \<Rightarrow> Inr x, s\<lparr>ce_step := Suc (ce_step s)\<rparr>)"
    using False by (simp add: verifyToken_def Now_Unix_def bind_act_def ask_apply ret_def stop_def remote_def split: sum.split)
  then show ?thesis using False
    by (cases ?p) (auto simp: extractTokenMetadata_def bind_act_def token_details_def ret_def stop_def split: option.split)
qed

lemma redis_Get_eq:
  "redis_Get k s = (case an_fault (ce_answers s (ce_step s)) of
      Some e \<Rightarrow> Inl (Err e)
    | None \<Rightarrow> (case redis_live (an_now (ce_answers s (ce_step s))) s k of None \<Rightarrow> Inl (Err ''redis: nil'') | Some v \<Rightarrow> Inr v),
      s\<lparr>ce_step := Suc (ce_step s)\<rparr>)"
  by (simp add: redis_Get_def statement_def bind_act_def ask_apply stop_def split: option.split)

text \<open>The last step of \<open>jwtAuth\<close>, from an entry to the context.\<close>

lemma named_user_ctx:
  "(case SplitN2 ident ''-'' of [a, b] \<Rightarrow> (case ParseInt a of None \<Rightarrow> unauthorized
       | Some userid \<Rightarrow> ret (c\<lparr>gc_userid := Some userid, gc_username := Some b\<rparr>)) | _ \<Rightarrow> unauthorized) =
   (case named_user ident of None \<Rightarrow> unauthorized | Some (i, b) \<Rightarrow> ret (c\<lparr>gc_userid := Some i, gc_username := Some b\<rparr>))"
  by (auto simp: named_user_def split: list.split option.split)

lemma jwtAuth_outcome:
  "case session R rq s of
     None \<Rightarrow> isl (fst (jwtAuth R rq c s))
   | Some (uid, un) \<Rightarrow> fst (jwtAuth R rq c s) = Inr (c\<lparr>gc_userid := Some uid, gc_username := Some un\<rparr>) \<or>
       (isl (fst (jwtAuth R rq c s)) \<and> \<not> calm s)"
proof (cases "token_details R rq (an_now (ce_answers s (ce_step s)))")
  case (Inl e)
  then show ?thesis
    by (cases e) (simp_all add: session_def jwtAuth_def bind_act_def change_err_def extractTokenMetadata_eq)
next
  case (Inr d)
  show ?thesis
  proof (cases d)
    case None
    then show ?thesis using Inr by (simp add: session_def jwtAuth_def bind_act_def change_err_def extractTokenMetadata_eq stop_def)
  next
    case (Some md)
    have tok: "extractToken rq \<noteq> ''''" using Inr by (auto simp: token_details_def)
    let ?t = "s\<lparr>ce_step := Suc (ce_step s)\<rparr>"
    have j: "jwtAuth R rq c s = bind_act (change_err (\<lambda>_. Bomb 401 ''unauthorized'') (fetchAuth R (ad_AccessUuid md)))
        (\<lambda>ident. case named_user ident of None \<Rightarrow> unauthorized
           | Some (i, b) \<Rightarrow> ret (c\<lparr>gc_userid := Some i, gc_username := Some b\<rparr>)) ?t"
      unfolding jwtAuth_def named_user_ctx using Inr Some tok by (simp add: bind_act_def [of "change_err _ (extractTokenMetadata R rq)"] change_err_def [of _ "extractTokenMetadata R rq"] extractTokenMetadata_eq)
    show ?thesis
      unfolding j session_def Inr Some
      by (auto simp: fetchAuth_def bind_act_def change_err_def redis_Get_eq unauthorized_def stop_def ret_def calm_def
          split: option.splits intro!: exI [of _ "Suc (ce_step s)"])
  qed
qed

lemma step_frame [simp]:
  "user_with (s\<lparr>ce_step := n\<rparr>) i = user_with s i" "team_with (s\<lparr>ce_step := n\<rparr>) i = team_with s i" "group_with (s\<lparr>ce_step := n\<rparr>) i = group_with s i"
  "member_of (s\<lparr>ce_step := n\<rparr>) u j = member_of s u j"
  by (simp_all add: user_with_def team_with_def group_with_def member_of_def)

lemma step_frame_may [simp]:
  "may_operate (s\<lparr>ce_step := n\<rparr>) u oper = may_operate s u oper" "may_group (s\<lparr>ce_step := n\<rparr>) u flag bg = may_group s u flag bg"
  "may_team (s\<lparr>ce_step := n\<rparr>) u ug = may_team s u ug"
  by (simp_all add: may_operate_def may_group_def may_team_def)

lemma step_frame_grants [simp]: "grants (s\<lparr>ce_step := n\<rparr>) rq uid g = grants s rq uid g"
  by (cases "user_with s uid"; cases g) (simp_all add: grants_def)

lemma step_frame_ctx [simp]: "ctx_ok (s\<lparr>ce_step := n\<rparr>) rq uid c = ctx_ok s rq uid c"
  by (simp add: ctx_ok_def)

lemma refused_later: "refused (s\<lparr>ce_step := n\<rparr>) out \<Longrightarrow> ce_step s \<le> n \<Longrightarrow> refused s out"
  by (auto simp: refused_def intro: order_trans)

lemma refused_bind:
  assumes "refused s (m s)"
  shows "refused s (bind_act m f s)"
proof -
  obtain e t where "m s = (Inl e, t)" using assms by (cases "m s") (auto simp: refused_def isl_def)
  then show ?thesis using assms by (simp add: refused_def bind_act_def)
qed

definition run_guards :: "request \<Rightarrow> guard list \<Rightarrow> (gin_ctx \<Rightarrow> 'a center_act) \<Rightarrow> gin_ctx \<Rightarrow> 'a center_act" where
  "run_guards rq gs h = foldr (\<lambda>f k c. bind_act (f c) k) (map (mw rq) gs) h"

lemma run_guards_simps:
  "run_guards rq [] h c = h c" "run_guards rq (g # gs) h c = bind_act (mw rq g c) (run_guards rq gs h)"
  by (simp_all add: run_guards_def)

lemma guards_outcome:
  assumes "ctx_ok s rq uid c" and "gc_user c \<noteq> None \<or> gs = [] \<or> opens (hd gs)"
  shows "(\<exists>c1 n. run_guards rq gs h c s = h c1 (s\<lparr>ce_step := n\<rparr>) \<and> ce_step s \<le> n \<and> ctx_ok s rq uid c1 \<and>
      (gs \<noteq> [] \<or> gc_user c \<noteq> None \<longrightarrow> gc_user c1 \<noteq> None) \<and> (\<forall>g \<in> set gs. grants s rq uid g)) \<or>
    (refused s (run_guards rq gs h c s) \<and> ((\<forall>g \<in> set gs. grants s rq uid g) \<longrightarrow> \<not> calm s))"
  using assms
proof (induction gs arbitrary: s c)
  case Nil
  have "run_guards rq [] h c s = h c (s\<lparr>ce_step := ce_step s\<rparr>)" by (simp add: run_guards_simps)
  then show ?case using Nil.prems by (intro disjI1 exI [of _ c] exI [of _ "ce_step s"]) simp
next
  case (Cons g gs)
  from guard_outcome [OF Cons.prems(1), of g] Cons.prems(2)
  consider (pass) "passed s rq uid (mw rq g c s)" "grants s rq uid g"
    | (no) "refused s (mw rq g c s)" "grants s rq uid g \<longrightarrow> \<not> calm s" by auto
  then show ?case
  proof cases
    case pass
    then obtain c1 n where n: "mw rq g c s = (Inr c1, s\<lparr>ce_step := n\<rparr>)" "ce_step s \<le> n" "ctx_ok s rq uid c1" "gc_user c1 \<noteq> None"
      by (auto simp: passed_def)
    let ?s = "s\<lparr>ce_step := n\<rparr>"
    have run: "run_guards rq (g # gs) h c s = run_guards rq gs h c1 ?s" by (simp add: run_guards_simps bind_act_def n(1))
    have later: "\<not> calm ?s \<Longrightarrow> \<not> calm s" using calm_later n(2) by blast
    show ?thesis unfolding run
      using Cons.IH [of ?s c1] n pass(2) later refused_later [of n s "run_guards rq gs h c1 ?s"] by fastforce
  next
    case no
    then show ?thesis using refused_bind [where m = "mw rq g c" and f = "run_guards rq gs h", OF no(1)] by (simp add: run_guards_simps)
  qed
qed

lemma route_opens: "fst (route R rq call) = [] \<or> opens (hd (fst (route R rq call)))"
  by (cases call) (auto simp: opens_def)

text \<open>The middleware in front of any handler.\<close>

lemma chain_outcome:
  assumes noproxy: "\<not> hc_ProxyAuth_Enable (cr_http R)" and gs: "gs = [] \<or> opens (hd gs)"
  shows "(\<exists>c n uid un. chain (auth R rq # map (mw rq) gs) h s = h c (s\<lparr>ce_step := n\<rparr>) \<and> ce_step s \<le> n \<and> ctx_ok s rq uid c \<and>
       (gs \<noteq> [] \<longrightarrow> gc_user c \<noteq> None) \<and> session R rq s = Some (uid, un) \<and> (\<forall>g \<in> set gs. grants s rq uid g)) \<or>
     (refused s (chain (auth R rq # map (mw rq) gs) h s) \<and>
       ((\<exists>uid un. session R rq s = Some (uid, un) \<and> (\<forall>g \<in> set gs. grants s rq uid g)) \<longrightarrow> \<not> calm s))"
proof -
  let ?a = "auth R rq empty_ctx s" and ?m = "chain (auth R rq # map (mw rq) gs) h s"
  have run: "?m = bind_act (auth R rq empty_ctx) (run_guards rq gs h) s" by (simp add: chain_def run_guards_def)
  obtain n where n: "ce_step s \<le> n" "snd ?a = s\<lparr>ce_step := n\<rparr>" using reads_auth [OF noproxy] unfolding reads_def by blast
  have auth: "auth R rq empty_ctx s = jwtAuth R rq empty_ctx s" using noproxy by (simp add: auth_def)
  note outcome = jwtAuth_outcome [where c = empty_ctx and s = s and rq = rq and R = R]
  show ?thesis
  proof (cases "fst ?a")
    case (Inl e)
    then have "refused s ?a" using n by (auto simp: refused_def)
    then show ?thesis
      using refused_bind [where m = "auth R rq empty_ctx" and f = "run_guards rq gs h"] outcome Inl by (auto simp: run auth)
  next
    case (Inr c)
    then obtain uid un where u: "session R rq s = Some (uid, un)" "c = empty_ctx\<lparr>gc_userid := Some uid, gc_username := Some un\<rparr>"
      using outcome by (auto simp: auth split: option.splits)
    let ?t = "s\<lparr>ce_step := n\<rparr>"
    have "?a = (Inr c, ?t)" using Inr n by (simp add: prod_eq_iff)
    then have m: "?m = run_guards rq gs h c ?t" by (simp add: run bind_act_def)
    have c: "ctx_ok s rq uid c" by (simp add: u(2) ctx_ok_def empty_ctx_def)
    have later: "\<not> calm ?t \<Longrightarrow> \<not> calm s" using calm_later n(1) by blast
    from guards_outcome [where s = ?t and c = c and gs = gs and h = h and rq = rq and uid = uid] c gs
    consider (pass) c1 k where "?m = h c1 (s\<lparr>ce_step := k\<rparr>)" "n \<le> k" "ctx_ok s rq uid c1" "gs \<noteq> [] \<longrightarrow> gc_user c1 \<noteq> None"
        "\<forall>g \<in> set gs. grants s rq uid g"
      | (no) "refused ?t ?m" "(\<forall>g \<in> set gs. grants s rq uid g) \<longrightarrow> \<not> calm ?t"
      by (auto simp: m)
    then show ?thesis
    proof cases
      case pass
      then have "ce_step s \<le> k" using n(1) by simp
      then show ?thesis using pass u(1) by blast
    next
      case no
      have "refused s ?m" by (rule refused_later [OF no(1) n(1)])
      then show ?thesis using no(2) later u(1) by auto
    qed
  qed
qed

definition permitted :: "center_router \<Rightarrow> request \<Rightarrow> call \<Rightarrow> center \<Rightarrow> bool" where
  "permitted R rq call s \<longleftrightarrow>
     (\<exists>uid un. session R rq s = Some (uid, un) \<and> (\<forall>g \<in> set (fst (route R rq call)). grants s rq uid g))"

text \<open>C10. A request reaches its handler exactly when it is permitted: then the handler runs, with the
  rows of the session's user and of the named team or group in its context, on tables that the
  guards left untouched; the user of the session has the role and, for a business group, a team
  with the flag the route asks for. Otherwise the request is refused and nothing changes, whatever
  statements fail; a permitted request is refused only when a statement failed.\<close>

theorem guarded_routes:
  assumes "\<not> hc_ProxyAuth_Enable (cr_http R)"
  shows "(\<exists>c n uid. serve R rq call s = snd (route R rq call) c (s\<lparr>ce_step := n\<rparr>) \<and> ce_step s \<le> n \<and> ctx_ok s rq uid c \<and>
       permitted R rq call s) \<or>
     (isl (fst (serve R rq call s)) \<and> (\<exists>n \<ge> ce_step s. snd (serve R rq call s) = s\<lparr>ce_step := n\<rparr>) \<and>
       (permitted R rq call s \<longrightarrow> \<not> calm s))"
proof -
  let ?gs = "fst (route R rq call)" and ?h = "snd (route R rq call)"
  have "serve R rq call s = chain (auth R rq # map (mw rq) ?gs) ?h s" by (simp add: serve_def split: prod.split)
  then show ?thesis
    using chain_outcome [OF assms route_opens, where R1 = R and rq1 = rq and call1 = call and rq = rq and h = ?h and s = s]
    unfolding permitted_def refused_def by auto
qed

theorem guarded_routes_witness:
  "\<exists>c n. serve sample_crouter (sample_request sample_token) (Busi_group_members_delete []) (sample_center ''u'' [(''/jwt/u'', (''7-bob'', None))])
     = busiGroupMemberDel [] c ((sample_center ''u'' [(''/jwt/u'', (''7-bob'', None))])\<lparr>ce_step := n\<rparr>)"
proof -
  let ?s = "sample_center ''u'' [(''/jwt/u'', (''7-bob'', None))]" and ?rq = "sample_request sample_token"
  have "session sample_crouter ?rq ?s = Some (7, ''bob'')" by code_simp
  moreover have u: "user_with ?s 7 = Some sample_user" by code_simp
  moreover have "may_operate ?s sample_user ''/busi-groups/put''" "may_group ?s sample_user [''rw''] sample_group" by code_simp+
  moreover have "group_with ?s 5 = Some sample_group" "rq_int ?rq ''id'' = Inr 5" by code_simp+
  ultimately have p: "permitted sample_crouter ?rq (Busi_group_members_delete []) ?s"
    by (auto simp: permitted_def grants_def)
  have "\<not> hc_ProxyAuth_Enable (cr_http sample_crouter)" by code_simp
  from guarded_routes [OF this, of ?rq "Busi_group_members_delete []" ?s] p
  show ?thesis by (auto simp: calm_def sample_center_def)
qed

end
