(* ===== verification/Session_Spec.thy ===== *)
theory Session_Spec
  imports Access_Spec
begin

text \<open>
  The life of a session: a login gives a token that names the user until it expires, a logout ends
  it, a refresh replaces it. The laws of the token library are \<open>jwt_ok\<close>: what was signed with the key
  parses again, before it expires, with the same string claims.
\<close>

definition jwt_ok :: "center_router \<Rightarrow> bool" where
  "jwt_ok R \<longleftrightarrow>
     (\<forall>x y e tok now. jl_SignedString (cr_jwt R) (hc_SigningKey (cr_http R)) (access_claims x y e) = Inr tok \<longrightarrow> now < e \<longrightarrow>
        tok \<noteq> '''' \<and> (\<exists>cl. jl_Parse (cr_jwt R) now (key_func (hc_SigningKey (cr_http R))) tok = Inr (cl, True) \<and>
          claim_string cl = claim_string (access_claims x y e))) \<and>
     (\<forall>x y e tok now. jl_SignedString (cr_jwt R) (hc_SigningKey (cr_http R)) (refresh_claims x y e) = Inr tok \<longrightarrow> now < e \<longrightarrow>
        (\<exists>cl. jl_Parse_dgrijalva (cr_jwt R) now (key_func (hc_SigningKey (cr_http R))) tok = Inr (cl, True) \<and>
          claim_string cl = claim_string (refresh_claims x y e)))"

definition bearer :: "string \<Rightarrow> request \<Rightarrow> bool" where
  "bearer tok rq \<longleftrightarrow> rq_header rq ''Authorization'' = ''Bearer '' @ tok"

definition now_at :: "center \<Rightarrow> nat \<Rightarrow> int" where
  "now_at s n = an_now (ce_answers s n)"

definition clock_ok :: "center \<Rightarrow> bool" where
  "clock_ok s \<longleftrightarrow> (\<forall>m n. m \<le> n \<longrightarrow> now_at s m \<le> now_at s n)"

lemma bearer_upper: "to_upper ''Bearer '' = ''BEARER ''"
  by code_simp

lemma extractToken_bearer: "bearer tok rq \<Longrightarrow> extractToken rq = tok"
  using bearer_upper by (simp add: bearer_def extractToken_def Let_def)

lemma claim_string_access:
  "claim_string (access_claims x y e) ''access_uuid'' = Some x" "claim_string (access_claims x y e) ''user_identity'' = Some y"
  by (simp_all add: claim_string_def access_claims_def)

lemma claim_string_refresh:
  "claim_string (refresh_claims x y e) ''refresh_uuid'' = Some x" "claim_string (refresh_claims x y e) ''user_identity'' = Some y"
  by (simp_all add: claim_string_def refresh_claims_def)

lemma token_details_signed:
  assumes "jwt_ok R" "bearer tok rq" "now < e"
    and "jl_SignedString (cr_jwt R) (hc_SigningKey (cr_http R)) (access_claims x y e) = Inr tok"
  shows "token_details R rq now = Inr (Some \<lparr>ad_AccessUuid = x, ad_UserIdentity = y\<rparr>)"
proof -
  obtain cl where "tok \<noteq> ''''" "jl_Parse (cr_jwt R) now (key_func (hc_SigningKey (cr_http R))) tok = Inr (cl, True)"
    "claim_string cl = claim_string (access_claims x y e)"
    using assms unfolding jwt_ok_def by blast
  then show ?thesis using extractToken_bearer [OF assms(2)] by (simp add: token_details_def claim_string_access)
qed

subsection \<open>Starting a session\<close>

lemma attempt_Inr_iff:
  "attempt m s = (Inr r, t) \<longleftrightarrow> (\<exists>x. r = Inr x \<and> m s = (Inr x, t)) \<or> (\<exists>e. r = Inl e \<and> m s = (Inl (Err e), t))"
  by (auto simp: attempt_def split: prod.splits sum.splits failure.splits)

lemma statement_ok: "statement f s = (Inr x, t) \<Longrightarrow> an_fault (ce_answers s (ce_step s)) = None \<and>
    f (ce_answers s (ce_step s)) (s\<lparr>ce_step := Suc (ce_step s)\<rparr>) = (Inr x, t)"
  by (auto simp: statement_def bind_act_def ask_apply stop_def split: option.splits)

lemma Now_Unix_apply: "Now_Unix s = (Inr (now_at s (ce_step s)), s\<lparr>ce_step := Suc (ce_step s)\<rparr>)"
  by (simp add: Now_Unix_def bind_act_def ask_apply ret_def now_at_def)

definition expiry :: "int \<Rightarrow> int \<Rightarrow> int option" where
  "expiry now ttl = (if ttl > 0 then Some (now + ttl) else None)"

lemma redis_Set_ok:
  "redis_Set k v ttl s = (Inr u, t) \<Longrightarrow>
   t = s\<lparr>ce_step := Suc (ce_step s), ce_redis := go_set k (v, expiry (now_at s (ce_step s)) ttl) (ce_redis s)\<rparr>"
  unfolding redis_Set_def by (auto dest!: statement_ok simp: expiry_def now_at_def)

lemma redis_Del_ok: "redis_Del k s = (Inr u, t) \<Longrightarrow> t = s\<lparr>ce_step := Suc (ce_step s), ce_redis := go_del k (ce_redis s)\<rparr>"
  unfolding redis_Del_def execute_def by (auto dest!: statement_ok)

lemma remote_ok: "remote r s = (Inr x, t) \<longleftrightarrow> r = Inr x \<and> t = s"
  by (cases r) (auto simp: remote_def ret_def stop_def)

lemma start_session_ok:
  assumes "start_session R ident s = (Inr ts, t)"
  shows "jl_SignedString (cr_jwt R) (hc_SigningKey (cr_http R)) (access_claims (td_AccessUuid ts) ident (td_AtExpires ts)) = Inr (td_AccessToken ts)"
    and "jl_SignedString (cr_jwt R) (hc_SigningKey (cr_http R)) (refresh_claims (td_RefreshUuid ts) ident (td_RtExpires ts)) = Inr (td_RefreshToken ts)"
    and "td_AccessUuid ts = an_uuid (ce_answers s (Suc (ce_step s)))" "td_RefreshUuid ts = td_AccessUuid ts @ ''++'' @ ident"
    and "td_AtExpires ts = now_at s (ce_step s) + 60 * hc_AccessExpired (cr_http R)"
    and "td_RtExpires ts = now_at s (ce_step s + 2) + 60 * hc_RefreshExpired (cr_http R)"
    and "t = s\<lparr>ce_step := ce_step s + 6, ce_redis :=
      go_set (wrapJwtKey R (td_RefreshUuid ts)) (ident, expiry (now_at s (ce_step s + 5)) (td_RtExpires ts - now_at s (ce_step s + 3)))
        (go_set (wrapJwtKey R (td_AccessUuid ts)) (ident, expiry (now_at s (ce_step s + 4)) (td_AtExpires ts - now_at s (ce_step s + 3))) (ce_redis s))\<rparr>"
proof -
  let ?s3 = "s\<lparr>ce_step := ce_step s + 3\<rparr>"
  obtain s1 where c: "createTokens R (hc_SigningKey (cr_http R)) ident s = (Inr ts, s1)" and a: "createAuth R ident ts s1 = (Inr (), t)"
    using assms by (auto simp: start_session_def bind_Inr_iff dangerous_def change_err_Inr_iff ret_def)
  have c': "s1 = ?s3 \<and> td_AccessUuid ts = an_uuid (ce_answers s (Suc (ce_step s))) \<and>
      td_RefreshUuid ts = td_AccessUuid ts @ ''++'' @ ident \<and>
      td_AtExpires ts = now_at s (ce_step s) + 60 * hc_AccessExpired (cr_http R) \<and>
      td_RtExpires ts = now_at s (ce_step s + 2) + 60 * hc_RefreshExpired (cr_http R) \<and>
      jl_SignedString (cr_jwt R) (hc_SigningKey (cr_http R)) (access_claims (td_AccessUuid ts) ident (td_AtExpires ts)) = Inr (td_AccessToken ts) \<and>
      jl_SignedString (cr_jwt R) (hc_SigningKey (cr_http R)) (refresh_claims (td_RefreshUuid ts) ident (td_RtExpires ts)) = Inr (td_RefreshToken ts)"
    using c by (auto simp: createTokens_def bind_Inr_iff Now_Unix_apply ask_apply remote_ok ret_def Let_def now_at_def numeral_eq_Suc)
  then show "jl_SignedString (cr_jwt R) (hc_SigningKey (cr_http R)) (access_claims (td_AccessUuid ts) ident (td_AtExpires ts)) = Inr (td_AccessToken ts)"
    "jl_SignedString (cr_jwt R) (hc_SigningKey (cr_http R)) (refresh_claims (td_RefreshUuid ts) ident (td_RtExpires ts)) = Inr (td_RefreshToken ts)"
    "td_AccessUuid ts = an_uuid (ce_answers s (Suc (ce_step s)))" "td_RefreshUuid ts = td_AccessUuid ts @ ''++'' @ ident"
    "td_AtExpires ts = now_at s (ce_step s) + 60 * hc_AccessExpired (cr_http R)"
    "td_RtExpires ts = now_at s (ce_step s + 2) + 60 * hc_RefreshExpired (cr_http R)" by blast+
  show "t = s\<lparr>ce_step := ce_step s + 6, ce_redis :=
      go_set (wrapJwtKey R (td_RefreshUuid ts)) (ident, expiry (now_at s (ce_step s + 5)) (td_RtExpires ts - now_at s (ce_step s + 3)))
        (go_set (wrapJwtKey R (td_AccessUuid ts)) (ident, expiry (now_at s (ce_step s + 4)) (td_AtExpires ts - now_at s (ce_step s + 3))) (ce_redis s))\<rparr>"
    using a c' by (auto simp: createAuth_def bind_Inr_iff Now_Unix_apply dest!: redis_Set_ok) (simp add: now_at_def numeral_eq_Suc)
qed

lemma named_user_identity:
  assumes "0 \<le> us_Id u" "int64_range (us_Id u)"
  shows "named_user (user_identity u) = Some (us_Id u, us_Username u)"
proof -
  have "CHR ''-'' \<notin> set (Itoa (us_Id u))"
    using assms(1) show_nat_digits digit_no_sign(1) by (metis Itoa_def linorder_not_le)
  then have "SplitN2 (Itoa (us_Id u) @ ''-'' @ us_Username u) ''-'' = [Itoa (us_Id u), us_Username u]"
    using SplitN2_char [of "CHR ''-''" "Itoa (us_Id u)" "us_Username u"] by simp
  then show ?thesis using ParseInt_Itoa [OF assms(2)] by (simp add: named_user_def user_identity_def)
qed

subsection \<open>Login\<close>

text \<open>Looking up and updating the user of a login touches neither Redis nor the answers.\<close>

definition quiet :: "(string, string \<times> int option) go_map \<Rightarrow> (nat \<Rightarrow> answer) \<Rightarrow> nat \<Rightarrow> center \<Rightarrow> bool" where
  "quiet r a n s \<longleftrightarrow> ce_redis s = r \<and> ce_answers s = a \<and> n \<le> ce_step s"

lemma quiet_reads:
  assumes "reads m"
  shows "preserves (quiet r a n) m"
  unfolding preserves_def
proof (intro allI impI)
  fix s
  assume q: "quiet r a n s"
  obtain k where "ce_step s \<le> k" "snd (m s) = s\<lparr>ce_step := k\<rparr>" using assms unfolding reads_def by blast
  then show "quiet r a n (snd (m s))" using q by (simp add: quiet_def)
qed

lemma quiet_statement: "(\<And>x. preserves (quiet r a n) (f x)) \<Longrightarrow> preserves (quiet r a n) (statement f)"
  unfolding statement_def using quiet_reads [OF reads_ask]
  by (intro preserves_bind preserves_option preserves_stop) auto

lemma quiet_users:
  "preserves (quiet r a n) (update_user i f)" "preserves (quiet r a n) (insert_user u)"
  unfolding update_user_def insert_user_def execute_def create_def
  by (intro preserves_bind preserves_ret quiet_statement; simp add: preserves_def quiet_def)+

lemma reads_PassLogin: "reads (PassLogin L username pass)"
  unfolding PassLogin_def by (intro sat_rules)

lemma quiet_login_user: "preserves (quiet r a n) (login_user R username password)"
proof -
  have "preserves (quiet r a n) (LdapLogin username password roles ld)" for roles ld
    unfolding LdapLogin_def Let_def
    by (intro sat_rules quiet_users quiet_reads [OF reads_lookups(1)] quiet_reads [OF reads_lookups(13)])
  then show ?thesis unfolding login_user_def
    by (intro sat_rules quiet_reads [OF reads_PassLogin])
qed

lemma loginPost_ok:
  assumes "loginPost R f s = (Inr (Data (u, atok, rtok)), t)"
  shows "\<exists>s1 ts. ce_redis s1 = ce_redis s \<and> ce_answers s1 = ce_answers s \<and> ce_step s \<le> ce_step s1 \<and>
    start_session R (user_identity u) s1 = (Inr ts, t) \<and> atok = td_AccessToken ts \<and> rtok = td_RefreshToken ts"
proof -
  obtain p where "bind_act (attempt (login_user R (lf_Username f) p)) (\<lambda>r. case r of Inl e \<Rightarrow> ret (Message 200 e)
      | Inr user \<Rightarrow> bind_act (start_session R (user_identity user)) (\<lambda>ts. ret (Data (user, td_AccessToken ts, td_RefreshToken ts)))) s =
      (Inr (Data (u, atok, rtok)), t)"
    using assms by (auto simp: loginPost_def ret_apply split: if_splits sum.splits)
  then obtain r s1 where r: "attempt (login_user R (lf_Username f) p) s = (Inr r, s1)"
    "(case r of Inl e \<Rightarrow> ret (Message 200 e)
      | Inr user \<Rightarrow> bind_act (start_session R (user_identity user)) (\<lambda>ts. ret (Data (user, td_AccessToken ts, td_RefreshToken ts)))) s1 =
      (Inr (Data (u, atok, rtok)), t)" unfolding bind_Inr_iff by blast
  then obtain ts where "login_user R (lf_Username f) p s = (Inr u, s1)" "start_session R (user_identity u) s1 = (Inr ts, t)"
    "atok = td_AccessToken ts" "rtok = td_RefreshToken ts"
    by (cases r) (auto simp: ret_apply bind_Inr_iff attempt_Inr_iff)
  moreover have "quiet (ce_redis s) (ce_answers s) (ce_step s) s1"
    using quiet_login_user [of "ce_redis s" "ce_answers s" "ce_step s" R "lf_Username f" p] calculation(1)
    by (fastforce simp: preserves_def quiet_def)
  ultimately show ?thesis by (auto simp: quiet_def)
qed

lemma wrap_inj: "wrapJwtKey R x = wrapJwtKey R y \<longleftrightarrow> x = y"
  by (simp add: wrapJwtKey_def)

lemma refresh_key_other: "wrapJwtKey R (x @ ''++'' @ y) \<noteq> wrapJwtKey R x"
  by (simp add: wrap_inj)

text \<open>A request with the access token, in a state whose Redis holds the entries of the session.\<close>

lemma session_alive:
  assumes J: "jwt_ok R" and st: "start_session R ident s = (Inr ts, t)" and clock: "clock_ok s"
    and w: "ce_redis w = ce_redis t" and rq: "bearer (td_AccessToken ts) rq"
    and now: "now_at w (ce_step w) < td_AtExpires ts" "now_at w (Suc (ce_step w)) < td_AtExpires ts"
  shows "token_details R rq (now_at w (ce_step w)) = Inr (Some \<lparr>ad_AccessUuid = td_AccessUuid ts, ad_UserIdentity = ident\<rparr>)"
    and "session R rq w = named_user ident"
proof -
  show d: "token_details R rq (now_at w (ce_step w)) = Inr (Some \<lparr>ad_AccessUuid = td_AccessUuid ts, ad_UserIdentity = ident\<rparr>)"
    by (rule token_details_signed [OF J rq now(1) start_session_ok(1) [OF st]])
  have "now_at s (ce_step s + 3) \<le> now_at s (ce_step s + 4)" using clock by (simp add: clock_ok_def)
  then have "redis_live (now_at w (Suc (ce_step w))) w (wrapJwtKey R (td_AccessUuid ts)) = Some ident"
    using now(2) w refresh_key_other [of R "td_AccessUuid ts" ident] start_session_ok(7) [OF st] start_session_ok(4) [OF st]
    by (auto simp: redis_live_def expiry_def)
  then show "session R rq w = named_user ident" using d by (simp add: session_def now_at_def)
qed

definition signs :: "center_router \<Rightarrow> bool" where
  "signs R \<longleftrightarrow> (\<forall>cl. \<not> isl (jl_SignedString (cr_jwt R) (hc_SigningKey (cr_http R)) cl))"

lemma signs_ok: "signs R \<Longrightarrow> \<exists>tok. jl_SignedString (cr_jwt R) (hc_SigningKey (cr_http R)) cl = Inr tok"
  unfolding signs_def by (metis sum.collapse(2))

subsection \<open>The sample instance\<close>

lemma claim_string_exp: "claim_string (access_claims x y e) = claim_string (access_claims x y 0)"
    "claim_string (refresh_claims x y e) = claim_string (refresh_claims x y 0)"
  by (rule ext, simp add: claim_string_def access_claims_def refresh_claims_def)+

lemma sample_parse_signed:
  "sample_parse now (key_func key) (CHR ''A'' # sample_field key @ sample_field x @ sample_field y) = Inr (access_claims x y 0, True)"
  "sample_parse now (key_func key) (CHR ''R'' # sample_field key @ sample_field x @ sample_field y) = Inr (refresh_claims x y 0, True)"
  using sample_unfield_field [of "[]" y "[]"] by (simp_all add: sample_parse_def sample_unfield_field key_func_def)

lemma sample_jwt_ok: "jwt_ok sample_crouter" "signs sample_crouter"
proof -
  have a: "sample_sign key (access_claims x y e) = Inr (CHR ''A'' # sample_field key @ sample_field x @ sample_field y)" for key x y e
    by (simp add: sample_sign_def claim_string_access)
  have "claim_string (refresh_claims x y e) ''access_uuid'' = None" for x y e by (simp add: claim_string_def refresh_claims_def)
  then have r: "sample_sign key (refresh_claims x y e) = Inr (CHR ''R'' # sample_field key @ sample_field x @ sample_field y)" for key x y e
    by (simp add: sample_sign_def claim_string_refresh)
  show "jwt_ok sample_crouter" unfolding jwt_ok_def using claim_string_exp
    by (auto simp: sample_crouter_def a r sample_parse_signed) metis+
  show "signs sample_crouter" by (auto simp: signs_def sample_crouter_def sample_sign_def Let_def split: option.split)
qed

definition sample_login :: loginForm where
  "sample_login = \<lparr>lf_Username = ''bob'', lf_Password = ''pw'', lf_Captchaid = '''', lf_Verifyvalue = ''''\<rparr>"

definition sample_refresh_token :: string where
  "sample_refresh_token = CHR ''R'' # sample_field ''k'' @ sample_field ''u++7-bob'' @ sample_field ''7-bob''"

lemma sample_login_ok:
  "\<exists>t. loginPost sample_crouter sample_login (sample_center ''u'' []) = (Inr (Data (fill_roles sample_user, sample_token, sample_refresh_token)), t) \<and>
     ce_step t = 8 \<and> ce_answers t = ce_answers (sample_center ''u'' [])"
proof -
  let ?r = "loginPost sample_crouter sample_login (sample_center ''u'' [])"
  have "fst ?r = Inr (Data (fill_roles sample_user, sample_token, sample_refresh_token))" "ce_step (snd ?r) = 8" by code_simp+
  moreover have "ce_answers (snd ?r) = ce_answers (sample_center ''u'' [])"
  proof -
    obtain s1 ts where "ce_answers s1 = ce_answers (sample_center ''u'' [])" "start_session sample_crouter (user_identity (fill_roles sample_user)) s1 = (Inr ts, snd ?r)"
      using loginPost_ok [of sample_crouter sample_login "sample_center ''u'' []" _ _ _ "snd ?r"] calculation(1) by (metis prod.collapse)
    then show ?thesis using start_session_ok(7) by (metis (no_types, lifting) center.select_convs(21) center.surjective center.update_convs(20,22))
  qed
  ultimately show ?thesis by (metis prod.collapse)
qed

lemma sample_clock: "clock_ok (sample_center uuid redis)"
  by (simp add: clock_ok_def now_at_def sample_center_def)

lemma sample_user_id: "us_Id (fill_roles sample_user) = 7" "us_Username (fill_roles sample_user) = ''bob''" "int64_range 7"
  by (simp_all add: sample_user_def new_user_def int64_range_def)

subsection \<open>Login and logout\<close>

text \<open>C11. A login answers with a token that names its user: until the session's lifetime is over,
  every request that carries the token is taken as that user's, as long as Redis keeps the entry.
  A logout with the token succeeds and ends the session: within the same lifetime no request with
  this token has a user afterwards.\<close>

theorem session_lifecycle:
  assumes J: "jwt_ok R" and clock: "clock_ok s" and login: "loginPost R f s = (Inr (Data (u, atok, rtok)), t)"
    and ident: "0 \<le> us_Id u" "int64_range (us_Id u)"
    and w: "ce_redis w = ce_redis t" and rq: "bearer atok rq"
    and now: "now_at w (ce_step w) < now_at s (ce_step s) + 60 * hc_AccessExpired (cr_http R)"
      "now_at w (Suc (ce_step w)) < now_at s (ce_step s) + 60 * hc_AccessExpired (cr_http R)"
  shows "session R rq w = Some (us_Id u, us_Username u) \<and>
    (\<forall>w1. logoutPost R rq w = (Inr (Message 200 ''''), w1) \<longrightarrow>
       (\<forall>w2 rq2. ce_redis w2 = ce_redis w1 \<longrightarrow> bearer atok rq2 \<longrightarrow> now_at w2 (ce_step w2) < now_at s (ce_step s) + 60 * hc_AccessExpired (cr_http R) \<longrightarrow>
          session R rq2 w2 = None)) \<and>
    (calm w \<longrightarrow> (\<exists>w1. logoutPost R rq w = (Inr (Message 200 ''''), w1)))"
proof -
  obtain s1 ts where s1: "ce_redis s1 = ce_redis s" "ce_answers s1 = ce_answers s" "ce_step s \<le> ce_step s1"
    "start_session R (user_identity u) s1 = (Inr ts, t)" "atok = td_AccessToken ts"
    using loginPost_ok [OF login] by blast
  have c1: "clock_ok s1" using clock s1(2) by (simp add: clock_ok_def now_at_def)
  have e: "now_at s (ce_step s) + 60 * hc_AccessExpired (cr_http R) \<le> td_AtExpires ts"
    using clock s1(2,3) start_session_ok(5) [OF s1(4)] by (simp add: clock_ok_def now_at_def)
  note alive = session_alive [OF J s1(4) c1 w rq [unfolded s1(5)] less_le_trans [OF now(1) e] less_le_trans [OF now(2) e]]
  have "session R rq w = Some (us_Id u, us_Username u)" using alive(2) named_user_identity [OF ident] by simp
  moreover have "session R rq2 w2 = None"
    if out: "logoutPost R rq w = (Inr (Message 200 ''''), w1)" and w2: "ce_redis w2 = ce_redis w1" "bearer atok rq2"
      "now_at w2 (ce_step w2) < now_at s (ce_step s) + 60 * hc_AccessExpired (cr_http R)" for w1 w2 rq2
  proof -
    have "go_get (ce_redis w1) (wrapJwtKey R (td_AccessUuid ts)) = None"
      using out alive(1) unfolding logoutPost_def deleteTokens_def
      by (auto simp: bind_act_def attempt_def extractTokenMetadata_eq now_at_def Let_def ret_def
          split: prod.splits sum.splits failure.splits dest!: redis_Del_ok)
    moreover have "token_details R rq2 (now_at w2 (ce_step w2)) = Inr (Some \<lparr>ad_AccessUuid = td_AccessUuid ts, ad_UserIdentity = user_identity u\<rparr>)"
      using token_details_signed [OF J w2(2) [unfolded s1(5)] less_le_trans [OF w2(3) e] start_session_ok(1) [OF s1(4)]] .
    ultimately show ?thesis using w2(1) by (simp add: session_def now_at_def redis_live_def)
  qed
  moreover have "\<exists>w1. logoutPost R rq w = (Inr (Message 200 ''''), w1)" if "calm w"
    using that alive(1) unfolding logoutPost_def deleteTokens_def redis_Del_def execute_def statement_def
    by (auto simp: bind_act_def attempt_def extractTokenMetadata_eq now_at_def Let_def ret_def calm_def ask_apply)
  ultimately show ?thesis by blast
qed

theorem session_lifecycle_witness:
  "\<exists>t. loginPost sample_crouter sample_login (sample_center ''u'' []) = (Inr (Data (fill_roles sample_user, sample_token, sample_refresh_token)), t) \<and>
     session sample_crouter (sample_request sample_token) t = Some (7, ''bob'')"
proof -
  obtain t where t: "loginPost sample_crouter sample_login (sample_center ''u'' []) = (Inr (Data (fill_roles sample_user, sample_token, sample_refresh_token)), t)"
    "ce_step t = 8" "ce_answers t = ce_answers (sample_center ''u'' [])" using sample_login_ok by blast
  have b: "bearer sample_token (sample_request sample_token)" by (simp add: bearer_def sample_request_def)
  have "hc_AccessExpired (cr_http sample_crouter) = 10" by code_simp
  then have "now_at t (ce_step t) < now_at (sample_center ''u'' []) (ce_step (sample_center ''u'' [])) + 60 * hc_AccessExpired (cr_http sample_crouter)"
    "now_at t (Suc (ce_step t)) < now_at (sample_center ''u'' []) (ce_step (sample_center ''u'' [])) + 60 * hc_AccessExpired (cr_http sample_crouter)"
    using t(2,3) by (simp_all add: now_at_def sample_center_def)
  then show ?thesis
    using session_lifecycle [OF sample_jwt_ok(1) sample_clock t(1) _ _ refl b] t(1) sample_user_id by simp
qed

subsection \<open>Refresh\<close>

lemma hd_Split: "c \<notin> set a \<Longrightarrow> hd (Split (a @ (c # sep) @ b) (c # sep)) = a"
  using split_acc_free [of c a sep "[]" "(c # sep) @ b"] split_acc_sep [of "c # sep" "rev a" b] by (simp add: Split_def)

lemma Itoa_no_dash: "0 \<le> i \<Longrightarrow> CHR ''-'' \<notin> set (Itoa i)"
  using show_nat_digits digit_no_sign(1) by (metis Itoa_def linorder_not_le)

lemma calm_fault: "calm s \<Longrightarrow> ce_step s \<le> n \<Longrightarrow> an_fault (ce_answers s n) = None"
  by (simp add: calm_def)

lemma calm_statement: "calm s \<Longrightarrow> statement f s = f (ce_answers s (ce_step s)) (s\<lparr>ce_step := Suc (ce_step s)\<rparr>)"
  by (simp add: statement_def bind_act_def ask_apply calm_fault)

lemma start_session_calm:
  assumes "calm s" "signs R"
  shows "\<exists>ts t. start_session R ident s = (Inr ts, t)"
proof -
  let ?key = "hc_SigningKey (cr_http R)" and ?x = "an_uuid (ce_answers s (Suc (ce_step s)))"
  obtain atok rtok where tok: "jl_SignedString (cr_jwt R) ?key (access_claims ?x ident (now_at s (ce_step s) + 60 * hc_AccessExpired (cr_http R))) = Inr atok"
    "jl_SignedString (cr_jwt R) ?key (refresh_claims (?x @ ''++'' @ ident) ident (now_at s (Suc (Suc (ce_step s))) + 60 * hc_RefreshExpired (cr_http R))) = Inr rtok"
    using signs_ok [OF assms(2)] by metis
  obtain ts where c: "createTokens R ?key ident s = (Inr ts, s\<lparr>ce_step := ce_step s + 3\<rparr>)"
    using tok by (simp add: createTokens_def bind_act_def Now_Unix_apply ask_apply Let_def remote_def ret_def now_at_def numeral_eq_Suc)
  have "\<exists>t. createAuth R ident ts (s\<lparr>ce_step := ce_step s + 3\<rparr>) = (Inr (), t)"
    using assms(1) by (simp add: createAuth_def bind_act_def Now_Unix_apply redis_Set_def calm_statement calm_def)
  then show ?thesis using c by (auto simp: start_session_def bind_act_def dangerous_def change_err_def ret_def)
qed

lemma UserGetById_calm: "calm s \<Longrightarrow> UserGetById i s = (Inr (map_option fill_roles (user_with s i)), s\<lparr>ce_step := Suc (ce_step s)\<rparr>)"
  by (simp add: UserGetById_def UserGet_def Find_def query_def calm_statement bind_act_def ret_def user_with_def)

lemma redis_Del_calm: "calm s \<Longrightarrow> redis_Del k s = (Inr (), s\<lparr>ce_step := Suc (ce_step s), ce_redis := go_del k (ce_redis s)\<rparr>)"
  by (simp add: redis_Del_def execute_def calm_statement)

lemma calm_redis: "calm s \<Longrightarrow> ce_step s \<le> n \<Longrightarrow> calm (s\<lparr>ce_step := n, ce_redis := r\<rparr>)"
  by (simp add: calm_def)

lemma refreshPost_signed:
  assumes J: "jwt_ok R" and R: "signs R" and calm: "calm w"
    and tok: "jl_SignedString (cr_jwt R) (hc_SigningKey (cr_http R)) (refresh_claims (x @ ''++'' @ user_identity u) (user_identity u) e) = Inr rtok"
    and now: "now_at w (ce_step w) < e" and u: "0 \<le> us_Id u" "int64_range (us_Id u)" "user_with w (us_Id u) \<noteq> None"
    and x: "CHR ''+'' \<notin> set x"
  shows "\<exists>ts w1. refreshPost R rtok w = (Inr (Data (td_AccessToken ts, td_RefreshToken ts)), w1) \<and>
    start_session R (user_identity u) (w\<lparr>ce_step := ce_step w + 4,
      ce_redis := go_del (wrapJwtKey R x) (go_del (wrapJwtKey R (x @ ''++'' @ user_identity u)) (ce_redis w))\<rparr>) = (Inr ts, w1)"
proof -
  let ?id = "user_identity u" and ?r = "x @ ''++'' @ user_identity u"
  let ?w2 = "w\<lparr>ce_step := ce_step w + 2\<rparr>"
  let ?w4 = "w\<lparr>ce_step := ce_step w + 4, ce_redis := go_del (wrapJwtKey R x) (go_del (wrapJwtKey R ?r) (ce_redis w))\<rparr>"
  obtain cl where cl: "jl_Parse_dgrijalva (cr_jwt R) (now_at w (ce_step w)) (key_func (hc_SigningKey (cr_http R))) rtok = Inr (cl, True)"
    "claim_string cl = claim_string (refresh_claims ?r ?id e)" using J tok now unfolding jwt_ok_def by blast
  have "hd (Split ?id ''-'') = Itoa (us_Id u)"
    using hd_Split [of "CHR ''-''" "Itoa (us_Id u)" "[]" "us_Username u"] Itoa_no_dash [OF u(1)] by (simp add: user_identity_def)
  then have uid: "ParseInt (hd (Split ?id ''-'')) = Some (us_Id u)" using ParseInt_Itoa [OF u(2)] by simp
  have acc: "hd (Split ?r ''++'') = x" using hd_Split [of "CHR ''+''" x "''+''" ?id] x by simp
  obtain row where row: "user_with w (us_Id u) = Some row" using u(3) by blast
  have "refreshPost R rtok w = refresh_session R ?r ?id ?w2"
    using cl uid row calm UserGetById_calm [OF calm_later [OF calm, of "Suc (ce_step w)"], of "us_Id u"]
    by (simp add: refreshPost_def refresh_claimed_def bind_act_def Now_Unix_apply claim_string_refresh attempt_def numeral_eq_Suc)
  also have "\<dots> = bind_act (start_session R ?id) (\<lambda>ts. ret (Data (td_AccessToken ts, td_RefreshToken ts))) ?w4"
  proof -
    have c: "calm ?w2" "calm (w\<lparr>ce_step := Suc (ce_step w + 2), ce_redis := go_del (wrapJwtKey R ?r) (ce_redis w)\<rparr>)"
      using calm by (simp_all add: calm_def)
    show ?thesis using acc redis_Del_calm [OF c(1), of "wrapJwtKey R ?r"] redis_Del_calm [OF c(2), of "wrapJwtKey R x"]
      by (simp add: refresh_session_def deleteAuth_def bind_act_def [of "attempt _"] attempt_def numeral_eq_Suc)
  qed
  finally have eq: "refreshPost R rtok w = bind_act (start_session R ?id) (\<lambda>ts. ret (Data (td_AccessToken ts, td_RefreshToken ts))) ?w4" .
  have "\<exists>ts w1. start_session R ?id ?w4 = (Inr ts, w1)" by (rule start_session_calm [OF calm_redis [OF calm] R]) simp
  then show ?thesis using eq by (auto simp: bind_act_def ret_def)
qed

text \<open>C12. A refresh token that has not expired gets its user a new pair of tokens, as long as the user
  exists: the old access token is refused from then on, and the new one names the same user until
  it expires. The entries of Redis are not consulted, so this also holds after a logout.\<close>

theorem refresh_rotates:
  assumes J: "jwt_ok R" and R: "signs R" and clock: "clock_ok w" and calm: "calm w"
    and login: "loginPost R f s = (Inr (Data (u, atok, rtok)), t)" and sclock: "clock_ok s"
    and u: "0 \<le> us_Id u" "int64_range (us_Id u)" "user_with w (us_Id u) \<noteq> None"
    and uuid: "\<forall>n. CHR ''+'' \<notin> set (an_uuid (ce_answers s n))" "\<forall>m n. an_uuid (ce_answers s m) \<noteq> an_uuid (ce_answers w n)"
    and now: "now_at w (ce_step w) < now_at s (ce_step s) + 60 * hc_RefreshExpired (cr_http R)"
  shows "\<exists>atok2 rtok2 w1. refreshPost R rtok w = (Inr (Data (atok2, rtok2)), w1) \<and>
    (\<forall>v rq. ce_redis v = ce_redis w1 \<longrightarrow> bearer atok rq \<longrightarrow>
       now_at v (ce_step v) < now_at s (ce_step s) + 60 * hc_AccessExpired (cr_http R) \<longrightarrow> session R rq v = None) \<and>
    (\<forall>v rq. ce_redis v = ce_redis w1 \<longrightarrow> bearer atok2 rq \<longrightarrow>
       now_at v (ce_step v) < now_at w (ce_step w) + 60 * hc_AccessExpired (cr_http R) \<longrightarrow>
       now_at v (Suc (ce_step v)) < now_at w (ce_step w) + 60 * hc_AccessExpired (cr_http R) \<longrightarrow>
       session R rq v = Some (us_Id u, us_Username u))"
proof -
  obtain s1 ts where s1: "ce_answers s1 = ce_answers s" "ce_step s \<le> ce_step s1"
    "start_session R (user_identity u) s1 = (Inr ts, t)" "atok = td_AccessToken ts" "rtok = td_RefreshToken ts"
    using loginPost_ok [OF login] by blast
  let ?x = "td_AccessUuid ts"
  have x: "CHR ''+'' \<notin> set ?x" "\<forall>n. ?x \<noteq> an_uuid (ce_answers w n)"
    using uuid start_session_ok(3) [OF s1(3)] by (simp_all add: s1(1))
  have le: "now_at s (ce_step s) \<le> now_at s1 n" if "ce_step s1 \<le> n" for n
    using sclock s1(1,2) that by (simp add: clock_ok_def now_at_def)
  have e: "now_at s (ce_step s) + 60 * hc_AccessExpired (cr_http R) \<le> td_AtExpires ts"
    "now_at s (ce_step s) + 60 * hc_RefreshExpired (cr_http R) \<le> td_RtExpires ts"
    using start_session_ok(5,6) [OF s1(3)] le [of "ce_step s1"] le [of "ce_step s1 + 2"] by simp_all
  let ?w4 = "w\<lparr>ce_step := ce_step w + 4, ce_redis := go_del (wrapJwtKey R ?x) (go_del (wrapJwtKey R (?x @ ''++'' @ user_identity u)) (ce_redis w))\<rparr>"
  obtain ts2 w1 where r: "refreshPost R rtok w = (Inr (Data (td_AccessToken ts2, td_RefreshToken ts2)), w1)"
    "start_session R (user_identity u) ?w4 = (Inr ts2, w1)"
    using refreshPost_signed [OF J R calm _ less_le_trans [OF now e(2)] u x(1)] start_session_ok(2,4) [OF s1(3)] s1(5) by auto
  have clock4: "clock_ok ?w4" using clock by (simp add: clock_ok_def now_at_def)
  have new: "?x \<noteq> td_AccessUuid ts2" using x(2) start_session_ok(3) [OF r(2)] by simp
  have old: "wrapJwtKey R ?x \<noteq> wrapJwtKey R (td_RefreshUuid ts2)"
    using x(1) start_session_ok(4) [OF r(2)] by (auto simp: wrap_inj)
  have "session R rq v = None" if v: "ce_redis v = ce_redis w1" "bearer atok rq"
    "now_at v (ce_step v) < now_at s (ce_step s) + 60 * hc_AccessExpired (cr_http R)" for v rq
  proof -
    have "go_get (ce_redis v) (wrapJwtKey R ?x) = None"
      using v(1) start_session_ok(7) [OF r(2)] new old by (simp add: wrap_inj)
    moreover have "token_details R rq (now_at v (ce_step v)) = Inr (Some \<lparr>ad_AccessUuid = ?x, ad_UserIdentity = user_identity u\<rparr>)"
      using token_details_signed [OF J v(2) [unfolded s1(4)] less_le_trans [OF v(3) e(1)] start_session_ok(1) [OF s1(3)]] .
    ultimately show ?thesis by (simp add: session_def now_at_def redis_live_def)
  qed
  moreover have "session R rq v = Some (us_Id u, us_Username u)" if v: "ce_redis v = ce_redis w1" "bearer (td_AccessToken ts2) rq"
    "now_at v (ce_step v) < now_at w (ce_step w) + 60 * hc_AccessExpired (cr_http R)"
    "now_at v (Suc (ce_step v)) < now_at w (ce_step w) + 60 * hc_AccessExpired (cr_http R)" for v rq
  proof -
    have "now_at w (ce_step w) \<le> now_at w (ce_step w + 4)" using clock by (simp add: clock_ok_def)
    then have "now_at w (ce_step w) + 60 * hc_AccessExpired (cr_http R) \<le> td_AtExpires ts2"
      using start_session_ok(5) [OF r(2)] by (simp add: now_at_def)
    then show ?thesis using session_alive(2) [OF J r(2) clock4 v(1,2)] v(3,4) named_user_identity [OF u(1,2)] by simp
  qed
  ultimately show ?thesis using r(1) by blast
qed

theorem refresh_rotates_witness:
  "\<exists>a r w. refreshPost sample_crouter sample_refresh_token (sample_center ''v'' []) = (Inr (Data (a, r)), w)"
proof -
  obtain t where t: "loginPost sample_crouter sample_login (sample_center ''u'' []) = (Inr (Data (fill_roles sample_user, sample_token, sample_refresh_token)), t)"
    using sample_login_ok by blast
  have "calm (sample_center ''v'' [])" by (simp add: calm_def sample_center_def)
  moreover have "user_with (sample_center ''v'' []) (us_Id (fill_roles sample_user)) \<noteq> None" by code_simp
  moreover have "hc_RefreshExpired (cr_http sample_crouter) = 100" by code_simp
  ultimately show ?thesis
    using refresh_rotates [OF sample_jwt_ok sample_clock _ t sample_clock, of "''v''" "[]"] sample_user_id
    by (fastforce simp: sample_center_def now_at_def)
qed

end
