(* ===== verification/Center_Inv.thy ===== *)
theory Center_Inv
  imports Session_Spec
begin

text \<open>
  Invariants of the tables under every request. The locale \<open>table_invariant\<close> collects what a
  property of the tables needs for this: it must not depend on the count of answers. Its rules
  reduce the preservation by an action to its statements; \<open>under P m\<close> is preservation by an action
  that runs after a check established \<open>P\<close>, and a transaction need only restore the invariant at its
  end. The instance is \<open>group_inv\<close>: business groups have unique identifiers, names and label values
  and at least one row each in the table of group members (which may name a deleted team), and no
  user is in a team twice.
\<close>

locale table_invariant =
  fixes I :: "center \<Rightarrow> bool"
  assumes later: "I s \<Longrightarrow> ce_step s \<le> n \<Longrightarrow> I (s\<lparr>ce_step := n\<rparr>)"
begin

definition under :: "(center \<Rightarrow> bool) \<Rightarrow> 'a center_act \<Rightarrow> bool" where
  "under P m \<longleftrightarrow> (\<forall>s. I s \<longrightarrow> P s \<longrightarrow> I (snd (m s)))"

lemma reads_kept: "reads m \<Longrightarrow> I s \<Longrightarrow> I (snd (m s))"
  unfolding reads_def by (metis later)

lemma preserves_reads: "reads m \<Longrightarrow> preserves I m"
  unfolding preserves_def by (blast intro: reads_kept)

lemma under_all: "under (\<lambda>s. True) m \<Longrightarrow> preserves I m"
  by (simp add: under_def preserves_def)

lemma under_preserves: "preserves I m \<Longrightarrow> under P m"
  by (simp add: under_def preserves_def)

lemma under_sees:
  assumes "sees m v" and "steady P" and "\<And>x. under (\<lambda>s. P s \<and> v s = Inr x) (f x)"
  shows "under P (bind_act m f)"
  unfolding under_def
proof (intro allI impI)
  fix s
  assume I: "I s" and P: "P s"
  obtain r t where m: "m s = (r, t)" by (cases "m s")
  obtain n where n: "ce_step s \<le> n" "t = s\<lparr>ce_step := n\<rparr>" using reads_state [OF sees_reads [OF assms(1)] m] by blast
  have t: "I t" "P t" using later [OF I n(1)] P n(2) assms(2) by (simp_all add: steady_def)
  show "I (snd (bind_act m f s))"
  proof (cases r)
    case (Inl e)
    then show ?thesis using m t by (simp add: bind_act_def)
  next
    case (Inr x)
    then have "v s = Inr x" using sees_outcome [OF assms(1), of s] m by auto
    then have "v t = Inr x" using n(2) assms(1) by (simp add: sees_def steady_def)
    then have "I (snd (f x t))" using assms(3) [of x] t by (simp add: under_def)
    then show ?thesis using m Inr by (simp add: bind_act_def)
  qed
qed

lemma under_reads:
  assumes "reads m" and "steady P" and "\<And>x. under P (f x)"
  shows "under P (bind_act m f)"
  unfolding under_def
proof (intro allI impI)
  fix s
  assume I: "I s" and P: "P s"
  obtain r t where m: "m s = (r, t)" by (cases "m s")
  obtain n where n: "ce_step s \<le> n" "t = s\<lparr>ce_step := n\<rparr>" using reads_state [OF assms(1) m] by blast
  have "I t" "P t" using later [OF I n(1)] P n(2) assms(2) by (simp_all add: steady_def)
  then show "I (snd (bind_act m f s))" using assms(3) m by (cases r) (auto simp: bind_act_def under_def)
qed

lemma under_if: "(b \<Longrightarrow> under P m) \<Longrightarrow> (\<not> b \<Longrightarrow> under P n) \<Longrightarrow> under P (if b then m else n)"
  by simp

lemma under_statement:
  assumes "steady P" and "\<And>a s. I s \<Longrightarrow> P s \<Longrightarrow> I (snd (f a s))"
  shows "under P (statement f)"
  unfolding statement_def
proof (rule under_reads [OF reads_ask assms(1)])
  fix a
  show "under P (case an_fault a of None \<Rightarrow> f a | Some e \<Rightarrow> stop (Err e))"
    using assms(2) by (cases "an_fault a") (simp_all add: under_def stop_def)
qed

lemma under_execute: "steady P \<Longrightarrow> (\<And>s. I s \<Longrightarrow> P s \<Longrightarrow> I (g s)) \<Longrightarrow> under P (execute g)"
  unfolding execute_def by (rule under_statement) simp_all

lemma preserves_execute: "(\<And>s. I s \<Longrightarrow> I (g s)) \<Longrightarrow> preserves I (execute g)"
  using under_execute [of "\<lambda>s. True" g] by (simp add: under_all steady_def)

lemma preserves_create: "(\<And>i s. I s \<Longrightarrow> I (g i s)) \<Longrightarrow> preserves I (create g)"
  unfolding create_def by (rule under_all, rule under_statement) (simp_all add: steady_def)

text \<open>A transaction: an action that fails is undone, one that succeeds restores the invariant.\<close>

lemma under_transaction:
  assumes steps: "\<And>s. ce_step s \<le> ce_step (snd (m s))" and fin: "\<And>s x t. I s \<Longrightarrow> P s \<Longrightarrow> m s = (Inr x, t) \<Longrightarrow> I t"
  shows "under P (transaction m)"
  unfolding under_def
proof (intro allI impI)
  fix s
  assume I: "I s" and P: "P s"
  let ?c = "bind_act m (\<lambda>x. bind_act (execute (\<lambda>s. s)) (\<lambda>_. ret x))"
  have rd: "reads (bind_act (execute (\<lambda>s. s)) (\<lambda>_. ret x))" for x
    unfolding execute_def by (intro sat_rules reads_statement) simp
  obtain r t where m: "m s = (r, t)" by (cases "m s")
  have st: "ce_step s \<le> ce_step (snd (?c s))"
  proof (cases r)
    case (Inl e)
    then show ?thesis using steps [of s] m by (simp add: bind_act_def)
  next
    case (Inr x)
    obtain n where "ce_step t \<le> n" "snd (bind_act (execute (\<lambda>s. s)) (\<lambda>_. ret x) t) = t\<lparr>ce_step := n\<rparr>"
      using rd [of x] unfolding reads_def by blast
    then show ?thesis using steps [of s] m Inr by (simp add: bind_act_def [of m])
  qed
  have "I (snd (?c s))" if "fst (?c s) = Inr x" for x
    using that m fin [OF I P] reads_kept [OF rd] by (cases r) (auto simp: bind_act_def [of m])
  then show "I (snd (transaction m s))"
    using later [OF I st] by (cases "?c s"; cases "fst (?c s)") (auto simp: transaction_def)
qed

end

subsection \<open>Statements that succeed\<close>

definition advances :: "'a center_act \<Rightarrow> bool" where
  "advances m \<longleftrightarrow> (\<forall>s. ce_step s \<le> ce_step (snd (m s)))"

lemma advances_bind: "advances m \<Longrightarrow> (\<And>x. advances (f x)) \<Longrightarrow> advances (bind_act m f)"
proof -
  assume m: "advances m" and f: "\<And>x. advances (f x)"
  have "ce_step s \<le> ce_step (snd (bind_act m f s))" for s
  proof -
    obtain r t where r: "m s = (r, t)" by (cases "m s")
    then have t: "ce_step s \<le> ce_step t" using m unfolding advances_def by (metis snd_conv)
    show ?thesis
    proof (cases r)
      case (Inr x)
      have "ce_step t \<le> ce_step (snd (f x t))" using f by (simp add: advances_def)
      then show ?thesis using r t Inr by (simp add: bind_act_def)
    qed (use r t in \<open>simp add: bind_act_def\<close>)
  qed
  then show ?thesis by (simp add: advances_def)
qed

lemma advances_ret: "advances (ret x)"
  by (simp add: advances_def ret_def)

lemma advances_statement: "(\<And>a s. ce_step (snd (f a s)) = ce_step s) \<Longrightarrow> advances (statement f)"
  by (simp add: advances_def statement_def bind_act_def ask_apply stop_def split: option.split)

lemma advances_each: "(\<And>x. advances (f x)) \<Longrightarrow> advances (each f xs)"
  by (induction xs) (auto intro: advances_ret advances_bind)

lemma advances_execute: "(\<And>s. ce_step (g s) = ce_step s) \<Longrightarrow> advances (execute g)"
  unfolding execute_def by (rule advances_statement) simp

lemma advances_create: "(\<And>i s. ce_step (g i s) = ce_step s) \<Longrightarrow> advances (create g)"
  unfolding create_def by (rule advances_statement) simp

lemma execute_ok: "execute g s = (Inr u, t) \<Longrightarrow> t = g (s\<lparr>ce_step := Suc (ce_step s)\<rparr>)"
  unfolding execute_def by (auto dest!: statement_ok)

lemma create_ok: "create g s = (Inr i, t) \<Longrightarrow> i = an_id (ce_answers s (ce_step s)) \<and> t = g i (s\<lparr>ce_step := Suc (ce_step s)\<rparr>)"
  unfolding create_def by (auto dest!: statement_ok)

lemma sees_steady: "sees m v \<Longrightarrow> steady v"
  by (simp add: sees_def)

lemma steady_const: "steady (\<lambda>s. c)"
  by (simp add: steady_def)

lemma steady_and: "steady P \<Longrightarrow> steady v \<Longrightarrow> steady (\<lambda>s. P s \<and> v s = c)"
  by (simp add: steady_def)

subsection \<open>Business groups and teams\<close>

definition labels_of :: "BusiGroup list \<Rightarrow> string list" where
  "labels_of bgs = map bg_LabelValue (filter (\<lambda>bg. bg_LabelEnable bg = 1) bgs)"

definition has_member_row :: "center \<Rightarrow> BusiGroup \<Rightarrow> bool" where
  "has_member_row s bg \<longleftrightarrow> (\<exists>m \<in> set (ce_busi_group_member s). bgm_BusiGroupId m = bg_Id bg)"

text \<open>The database numbers new rows upwards.\<close>

definition fresh_ids :: "center \<Rightarrow> bool" where
  "fresh_ids s \<longleftrightarrow> (\<forall>n \<ge> ce_step s. \<forall>bg \<in> set (ce_busi_group s). bg_Id bg < an_id (ce_answers s n)) \<and>
     (\<forall>m n. m < n \<longrightarrow> an_id (ce_answers s m) < an_id (ce_answers s n))"

definition group_inv :: "center \<Rightarrow> bool" where
  "group_inv s \<longleftrightarrow> distinct (map bg_Id (ce_busi_group s)) \<and> distinct (map bg_Name (ce_busi_group s)) \<and>
     distinct (labels_of (ce_busi_group s)) \<and> (\<forall>bg \<in> set (ce_busi_group s). has_member_row s bg) \<and>
     distinct (ce_user_group_member s) \<and> fresh_ids s"

lemma group_inv_frame [simp]:
  "group_inv (s\<lparr>ce_users := a\<rparr>) = group_inv s" "group_inv (s\<lparr>ce_user_group := b\<rparr>) = group_inv s"
  "group_inv (s\<lparr>ce_role := c\<rparr>) = group_inv s" "group_inv (s\<lparr>ce_role_operation := d\<rparr>) = group_inv s"
  "group_inv (s\<lparr>ce_redis := e\<rparr>) = group_inv s" "group_inv (s\<lparr>ce_alert_cur_event := f\<rparr>) = group_inv s"
  by (simp_all add: group_inv_def has_member_row_def fresh_ids_def)

interpretation gi: table_invariant group_inv
  by unfold_locales (auto simp: group_inv_def has_member_row_def fresh_ids_def)

lemmas gi_intros = sat_rules gi.preserves_reads gi.preserves_execute gi.preserves_create

lemma gi_users:
  "preserves group_inv (insert_user u)" "preserves group_inv (update_user i f)" "preserves group_inv (User_Add u)"
  "preserves group_inv (User_Update L sel u)" "preserves group_inv (User_UpdateAllFields L u)"
  "preserves group_inv (User_UpdatePassword u p by)" "preserves group_inv (User_ChangePassword L u p q)"
  unfolding insert_user_def update_user_def User_Add_def User_Update_def User_UpdateAllFields_def User_UpdatePassword_def
    User_ChangePassword_def
  by (intro gi_intros; simp)+

lemma gi_transaction:
  assumes "advances m" "preserves group_inv m"
  shows "preserves group_inv (transaction m)"
proof (rule gi.under_all, rule gi.under_transaction)
  show "ce_step s \<le> ce_step (snd (m s))" for s using assms(1) by (simp add: advances_def)
  show "group_inv t" if "group_inv s" "m s = (Inr x, t)" for s x t using assms(2) that unfolding preserves_def by (metis snd_conv)
qed

lemma group_inv_members: "group_inv s \<Longrightarrow> distinct ms \<Longrightarrow> group_inv (s\<lparr>ce_user_group_member := ms\<rparr>)"
  by (simp add: group_inv_def has_member_row_def fresh_ids_def)

lemma group_inv_fewer [simp]: "group_inv s \<Longrightarrow> group_inv (s\<lparr>ce_user_group_member := filter p (ce_user_group_member s)\<rparr>)"
  by (rule group_inv_members) (simp_all add: group_inv_def)

lemma gi_delete:
  "preserves group_inv (User_Del u)" "preserves group_inv (UserGroup_Del ug)" "preserves group_inv (UserGroupMemberDel g us)"
  unfolding User_Del_def UserGroup_Del_def UserGroupMemberDel_def
  by (intro gi_transaction gi_intros advances_bind advances_execute; simp)+

lemma sees_Exists_group:
  "sees (with_message msg (BusiGroupExists p)) (\<lambda>s. Inr (\<exists>bg \<in> set (ce_busi_group s). p bg))"
  unfolding BusiGroupExists_def with_message_def
  by (rule sees_eq, (rule sees_intros)+) (auto simp: filter_empty_conv)

lemma sees_label_free:
  "sees (label_free e other v) (\<lambda>s. if e = 1 then (if \<exists>bg \<in> set (ce_busi_group s). bg_LabelEnable bg = 1 \<and> bg_LabelValue bg = v \<and> other bg
      then Inl (Err ''BusiGroup already exists'') else Inr v) else Inr '''')"
  unfolding label_free_def
  by (rule sees_eq, (rule sees_Exists_group sees_intros)+) auto

lemma gi_member_add: "preserves group_inv (UserGroupMemberAdd g u)"
proof (rule gi.under_all, unfold UserGroupMemberAdd_def UserGroupMemberCount_def,
    rule gi.under_sees [OF sees_Count [OF steady_field(3)] steady_const], rule gi.under_if)
  show "gi.under P (ret ())" for P by (intro gi.under_preserves sat_rules)
  fix num :: int
  let ?v = "\<lambda>s. Inr (int (length (filter (\<lambda>m. ugm_UserId m = u \<and> ugm_GroupId m = g) (ce_user_group_member s)))) :: failure + int"
  assume n: "\<not> num > 0"
  show "gi.under (\<lambda>s. True \<and> ?v s = Inr num)
      (execute (\<lambda>s. s\<lparr>ce_user_group_member := ce_user_group_member s @ [\<lparr>ugm_GroupId = g, ugm_UserId = u\<rparr>]\<rparr>))"
  proof (rule gi.under_execute)
    show "steady (\<lambda>s. True \<and> ?v s = Inr num)" by (simp add: steady_def)
    fix s
    assume "group_inv s" "True \<and> ?v s = Inr num"
    then have "filter (\<lambda>m. ugm_UserId m = u \<and> ugm_GroupId m = g) (ce_user_group_member s) = []" using n by auto
    then have none: "\<forall>m \<in> set (ce_user_group_member s). \<not> (ugm_UserId m = u \<and> ugm_GroupId m = g)"
      by (simp add: filter_empty_conv)
    have "\<lparr>ugm_GroupId = g, ugm_UserId = u\<rparr> \<notin> set (ce_user_group_member s)"
      using bspec [OF none, of "\<lparr>ugm_GroupId = g, ugm_UserId = u\<rparr>"] by auto
    then show "group_inv (s\<lparr>ce_user_group_member := ce_user_group_member s @ [\<lparr>ugm_GroupId = g, ugm_UserId = u\<rparr>]\<rparr>)"
      using \<open>group_inv s\<close> by (intro group_inv_members) (auto simp: group_inv_def)
  qed
qed

lemma group_inv_teams:
  assumes "group_inv s" and "\<And>bg. bg \<in> set (ce_busi_group s) \<Longrightarrow> \<exists>m \<in> set ms. bgm_BusiGroupId m = bg_Id bg"
  shows "group_inv (s\<lparr>ce_busi_group_member := ms\<rparr>)"
  using assms by (simp add: group_inv_def has_member_row_def fresh_ids_def)

lemma gi_team_add: "preserves group_inv (BusiGroupMemberAdd m)"
proof -
  have "group_inv (s\<lparr>ce_busi_group_member := ce_busi_group_member s @ [m]\<rparr>)" if "group_inv s" for s
    using that by (intro group_inv_teams) (auto simp: group_inv_def has_member_row_def)
  moreover have "group_inv (s\<lparr>ce_busi_group_member := update_where p (\<lambda>r. r\<lparr>bgm_PermFlag := f\<rparr>) (ce_busi_group_member s)\<rparr>)"
    if inv: "group_inv s" for s p f
  proof (rule group_inv_teams [OF inv])
    fix bg
    assume "bg \<in> set (ce_busi_group s)"
    then obtain y where y: "y \<in> set (ce_busi_group_member s)" "bgm_BusiGroupId y = bg_Id bg"
      using inv by (auto simp: group_inv_def has_member_row_def)
    then show "\<exists>r \<in> set (update_where p (\<lambda>r. r\<lparr>bgm_PermFlag := f\<rparr>) (ce_busi_group_member s)). bgm_BusiGroupId r = bg_Id bg"
      by (intro bexI [of _ "if p y then y\<lparr>bgm_PermFlag := f\<rparr> else y"]) (auto simp: update_where_def)
  qed
  ultimately show ?thesis unfolding BusiGroupMemberAdd_def BusiGroupMemberGet_def by (intro gi_intros) auto
qed

lemma gi_team_del: "preserves group_inv (del_group_member m)"
proof (rule gi.under_all, unfold del_group_member_def BusiGroupMemberCount_def BusiGroupMemberDel_def,
    rule gi.under_sees [OF sees_Count [OF steady_field(5)] steady_const], rule gi.under_if)
  show "gi.under P (stop e)" for P e by (intro gi.under_preserves sat_rules)
  fix num :: int
  let ?p = "\<lambda>x. bgm_BusiGroupId x = bgm_BusiGroupId m \<and> bgm_UserGroupId x \<noteq> bgm_UserGroupId m"
  let ?v = "\<lambda>s. Inr (int (length (filter ?p (ce_busi_group_member s)))) :: failure + int"
  assume n: "num \<noteq> 0"
  show "gi.under (\<lambda>s. True \<and> ?v s = Inr num)
      (execute (\<lambda>s. s\<lparr>ce_busi_group_member := filter (\<lambda>x. \<not> same_pair m x) (ce_busi_group_member s)\<rparr>))"
  proof (rule gi.under_execute)
    show "steady (\<lambda>s. True \<and> ?v s = Inr num)" by (simp add: steady_def)
    fix s
    assume inv: "group_inv s" and v: "True \<and> ?v s = Inr num"
    obtain x where x: "x \<in> set (ce_busi_group_member s)" "?p x" using v n by (auto simp: filter_empty_conv)
    show "group_inv (s\<lparr>ce_busi_group_member := filter (\<lambda>x. \<not> same_pair m x) (ce_busi_group_member s)\<rparr>)"
    proof (rule group_inv_teams [OF inv])
      fix bg
      assume "bg \<in> set (ce_busi_group s)"
      then obtain y where y: "y \<in> set (ce_busi_group_member s)" "bgm_BusiGroupId y = bg_Id bg"
        using inv by (auto simp: group_inv_def has_member_row_def)
      show "\<exists>r \<in> set (filter (\<lambda>x. \<not> same_pair m x) (ce_busi_group_member s)). bgm_BusiGroupId r = bg_Id bg"
      proof (cases "same_pair m y")
        case True
        then show ?thesis using x y by (intro bexI [of _ x]) (auto simp: same_pair_def)
      next
        case False
        then show ?thesis using y by auto
      qed
    qed
  qed
qed

lemma update_where_map:
  assumes "\<And>r. p r \<Longrightarrow> g (f r) = g r"
  shows "map g (update_where p f rows) = map g rows"
  using assms by (induction rows) (auto simp: update_where_def)

lemma labels_update_same:
  assumes "\<And>r. p r \<Longrightarrow> bg_LabelEnable (f r) = bg_LabelEnable r \<and> bg_LabelValue (f r) = bg_LabelValue r"
  shows "labels_of (update_where p f rows) = labels_of rows"
  using assms by (induction rows) (auto simp: update_where_def labels_of_def)

lemma set_update_where: "set (update_where p f rows) = {if p r then f r else r | r. r \<in> set rows}"
  by (auto simp: update_where_def)

lemma group_inv_groups:
  assumes "group_inv s" and "map bg_Id gs = map bg_Id (ce_busi_group s)"
    and "distinct (map bg_Name gs)" and "distinct (labels_of gs)"
  shows "group_inv (s\<lparr>ce_busi_group := gs\<rparr>)"
proof -
  have "bg_Id ` set gs = bg_Id ` set (ce_busi_group s)" using assms(2) by (metis set_map)
  then have "\<forall>bg \<in> set gs. \<exists>b \<in> set (ce_busi_group s). bg_Id b = bg_Id bg" by (metis image_iff)
  then show ?thesis using assms unfolding group_inv_def fresh_ids_def has_member_row_def by simp metis
qed

lemma gi_touch: "preserves group_inv (touch_group bg name)"
proof -
  have "group_inv (s\<lparr>ce_busi_group := update_where p (\<lambda>r. r\<lparr>bg_UpdateAt := now, bg_UpdateBy := name\<rparr>) (ce_busi_group s)\<rparr>)"
    if "group_inv s" for s p now
    using that by (intro group_inv_groups) (auto simp: update_where_map labels_update_same group_inv_def)
  then show ?thesis unfolding touch_group_def by (intro gi_intros)
qed

lemma gi_teams:
  "preserves group_inv (BusiGroup_AddMembers bg ms name)" "preserves group_inv (BusiGroup_DelMembers bg ms name)"
  "preserves group_inv (UserGroup_AddMembers ug ids)" "preserves group_inv (UserGroup_DelMembers ug ids)"
  unfolding BusiGroup_AddMembers_def BusiGroup_DelMembers_def UserGroup_AddMembers_def UserGroup_DelMembers_def add_group_member_def
  by (intro gi_intros gi_team_add gi_team_del gi_touch gi_member_add gi_delete)+

subsection \<open>Changes of business groups\<close>

text \<open>Two rows of a list whose identifiers are distinct are the same row if they have the same identifier.\<close>

lemma others_same:
  assumes "distinct (map bg_Id (r # rows))" and "bg_Id r = i"
  shows "\<forall>x \<in> set rows. bg_Id x \<noteq> i" "update_where (\<lambda>r. bg_Id r = i) f rows = rows"
proof -
  show o: "\<forall>x \<in> set rows. bg_Id x \<noteq> i" using assms by (metis distinct.simps(2) image_eqI list.set_map list.simps(9))
  then show "update_where (\<lambda>r. bg_Id r = i) f rows = rows" by (simp add: update_where_def map_idI)
qed

lemma update_where_Cons: "update_where p f (r # rows) = (if p r then f r else r) # update_where p f rows"
  by (simp add: update_where_def)

lemma distinct_update:
  assumes ids: "distinct (map bg_Id rows)" and d: "distinct (map g (filter q rows))"
    and f: "\<And>r. q (f r) \<Longrightarrow> g (f r) = v"
    and free: "\<And>r y. r \<in> set rows \<Longrightarrow> bg_Id r \<noteq> i \<Longrightarrow> q r \<Longrightarrow> q (f y) \<Longrightarrow> g r \<noteq> v"
  shows "distinct (map g (filter q (update_where (\<lambda>r. bg_Id r = i) f rows)))"
  using ids d free
proof (induction rows)
  case Nil
  then show ?case by (simp add: update_where_def)
next
  case (Cons r rows)
  let ?U = "update_where (\<lambda>r. bg_Id r = i) f rows"
  show ?case
  proof (cases "bg_Id r = i")
    case True
    note o = others_same [OF Cons.prems(1) True]
    have "g x \<noteq> v" if "q (f r)" "x \<in> set rows" "q x" for x
      using o(1) Cons.prems(3) [of x r] that by simp
    then have "g (f r) \<notin> g ` set (filter q rows)" if "q (f r)" using that f [OF that] by fastforce
    then show ?thesis using True Cons.prems(2) o(2) [of f] by (auto simp: update_where_Cons split: if_splits)
  next
    case False
    have IH: "distinct (map g (filter q ?U))"
      using Cons.IH Cons.prems by (simp split: if_splits)
    have "g r \<noteq> g x" if "q r" "x \<in> set ?U" "q x" for x
    proof -
      obtain y where y: "y \<in> set rows" "x = (if bg_Id y = i then f y else y)" using \<open>x \<in> set ?U\<close> by (auto simp: update_where_def)
      show ?thesis
      proof (cases "bg_Id y = i")
        case True
        then show ?thesis using Cons.prems(3) [of r y] y f [of y] False that by auto
      next
        case f: False
        then show ?thesis using Cons.prems(2) y that by auto
      qed
    qed
    then have "g r \<notin> g ` set (filter q ?U)" if "q r" using that by auto
    then show ?thesis using IH False by (simp add: update_where_Cons)
  qed
qed

lemmas distinct_names = distinct_update [of _ bg_Name "\<lambda>r. True", simplified]

lemma distinct_labels:
  assumes "distinct (map bg_Id rows)" and "distinct (labels_of rows)"
    and "\<And>r. bg_LabelEnable (f r) = e \<and> bg_LabelValue (f r) = v"
    and "\<And>r. e = 1 \<Longrightarrow> r \<in> set rows \<Longrightarrow> bg_Id r \<noteq> i \<Longrightarrow> bg_LabelEnable r = 1 \<Longrightarrow> bg_LabelValue r \<noteq> v"
  shows "distinct (labels_of (update_where (\<lambda>r. bg_Id r = i) f rows))"
  using assms unfolding labels_of_def by (intro distinct_update [where v = v]) auto

lemma steady_groups: "steady (\<lambda>s. F (ce_busi_group s))"
  by (simp add: steady_def)

lemma gi_group_update: "preserves group_inv (BusiGroup_Update bg name e v who)"
proof -
  let ?taken = "\<lambda>s. \<exists>x \<in> set (ce_busi_group s). bg_Name x = name \<and> bg_Id x \<noteq> bg_Id bg"
  let ?label = "\<lambda>s. if e = 1 then (if \<exists>x \<in> set (ce_busi_group s). bg_LabelEnable x = 1 \<and> bg_LabelValue x = v \<and> bg_Id x \<noteq> bg_Id bg
      then Inl (Err ''BusiGroup already exists'') else Inr v) else Inr '''' :: failure + string"
  have upd: "group_inv (s\<lparr>ce_busi_group := update_where (\<lambda>r. bg_Id r = bg_Id bg)
      (\<lambda>r. r\<lparr>bg_Name := name, bg_LabelEnable := e, bg_LabelValue := w, bg_UpdateAt := now, bg_UpdateBy := who\<rparr>) (ce_busi_group s)\<rparr>)"
    if inv: "group_inv s" and "\<not> ?taken s" "?label s = Inr w" for s w now
    using that
    by (intro group_inv_groups distinct_names distinct_labels)
       (auto simp: update_where_map group_inv_def split: if_splits)
  show ?thesis
    unfolding BusiGroup_Update_def
  proof (intro preserves_if preserves_ret gi.under_all gi.under_sees [OF sees_Exists_group steady_const] gi.under_if)
    fix ex
    assume ex: "\<not> ex"
    let ?P = "\<lambda>s. True \<and> (Inr (?taken s) :: failure + bool) = Inr ex"
    show "gi.under ?P (bind_act (label_free e (\<lambda>x. bg_Id x \<noteq> bg_Id bg) v) (\<lambda>v. bind_act Now_Unix (\<lambda>now. execute (\<lambda>s. s\<lparr>ce_busi_group :=
          update_where (\<lambda>r. bg_Id r = bg_Id bg)
            (\<lambda>r. r\<lparr>bg_Name := name, bg_LabelEnable := e, bg_LabelValue := v, bg_UpdateAt := now, bg_UpdateBy := who\<rparr>)
            (ce_busi_group s)\<rparr>))))"
      by (intro gi.under_sees [OF sees_label_free] gi.under_reads gi.under_execute upd reads_lookups)
        (use ex in \<open>simp_all add: steady_def\<close>)
  qed (simp add: gi.under_preserves sat_rules)
qed

lemma under_stop: "gi.under P (stop e)"
  by (intro gi.under_preserves sat_rules)

lemma gi_refuse: "preserves group_inv (refuse_if (Exists table p) msg)"
  unfolding refuse_if_def by (intro gi_intros)

lemma labels_filter: "distinct (labels_of rows) \<Longrightarrow> distinct (labels_of (filter p rows))"
proof -
  assume "distinct (labels_of rows)"
  moreover have "labels_of (filter p rows) = map bg_LabelValue (filter p (filter (\<lambda>bg. bg_LabelEnable bg = 1) rows))"
    by (simp add: labels_of_def conj_commute)
  ultimately show ?thesis by (simp add: labels_of_def distinct_map_filter del: filter_filter)
qed

text \<open>Deleting a group takes its teams away and then the group itself.\<close>

lemma gi_group_del: "preserves group_inv (BusiGroup_Del bg)"
proof -
  let ?m = "bind_act (execute (\<lambda>s. s\<lparr>ce_busi_group_member := filter (\<lambda>m. bgm_BusiGroupId m \<noteq> bg_Id bg) (ce_busi_group_member s)\<rparr>)) (\<lambda>_.
       bind_act (execute (\<lambda>s. s\<lparr>ce_busi_group := filter (\<lambda>r. bg_Id r \<noteq> bg_Id bg) (ce_busi_group s)\<rparr>)) (\<lambda>_.
       execute (\<lambda>s. s\<lparr>ce_alert_cur_event := filter (\<lambda>e. ev_GroupId e \<noteq> bg_Id bg) (ce_alert_cur_event s)\<rparr>)))"
  have "advances ?m" by (intro advances_bind advances_execute) simp_all
  then have steps: "ce_step s \<le> ce_step (snd (?m s))" for s by (simp add: advances_def)
  have "preserves group_inv (transaction ?m)"
  proof (rule gi.under_all, rule gi.under_transaction [OF steps])
    fix s x t
    assume inv: "group_inv s" and run: "?m s = (Inr x, t)"
    define n where "n = ce_step t"
    let ?s = "s\<lparr>ce_step := n, ce_busi_group_member := filter (\<lambda>m. bgm_BusiGroupId m \<noteq> bg_Id bg) (ce_busi_group_member s),
      ce_busi_group := filter (\<lambda>r. bg_Id r \<noteq> bg_Id bg) (ce_busi_group s),
      ce_alert_cur_event := filter (\<lambda>e. ev_GroupId e \<noteq> bg_Id bg) (ce_alert_cur_event s)\<rparr>"
    have t: "t = ?s" using run by (auto simp: bind_Inr_iff n_def dest!: execute_ok)
    have step: "ce_step s \<le> n" using steps [of s] run by (simp add: n_def)
    have "distinct (labels_of (filter (\<lambda>r. bg_Id r \<noteq> bg_Id bg) (ce_busi_group s)))"
      using inv by (auto simp: group_inv_def intro: labels_filter)
    then show "group_inv t" using inv step unfolding t
      by (auto simp: group_inv_def has_member_row_def fresh_ids_def intro: distinct_map_filter) metis
  qed
  then show ?thesis unfolding BusiGroup_Del_def by (intro preserves_bind gi_refuse)
qed

lemma reads_each [sat_rules]: "(\<And>x. x \<in> set xs \<Longrightarrow> reads (f x)) \<Longrightarrow> reads (each f xs)"
  by (induction xs) (auto intro: reads_ret reads_bind)

lemma insert_members_ok:
  "each (insert_member i) ms s = (Inr u, t) \<Longrightarrow> \<exists>n \<ge> ce_step s. t = s\<lparr>ce_step := n, ce_busi_group_member := ce_busi_group_member s @
     map (\<lambda>m. \<lparr>bgm_BusiGroupId = i, bgm_UserGroupId = bgm_UserGroupId m, bgm_PermFlag = bgm_PermFlag m\<rparr>) ms\<rparr>"
proof (induction ms arbitrary: s)
  case Nil
  then show ?case by (auto simp: ret_def intro: exI [of _ "ce_step s"])
next
  case (Cons m ms)
  then obtain s1 x where "insert_member i m s = (Inr x, s1)" and e: "each (insert_member i) ms s1 = (Inr u, t)"
    by (auto simp: bind_Inr_iff)
  then have s1: "s1 = s\<lparr>ce_step := Suc (ce_step s), ce_busi_group_member := ce_busi_group_member s @
      [\<lparr>bgm_BusiGroupId = i, bgm_UserGroupId = bgm_UserGroupId m, bgm_PermFlag = bgm_PermFlag m\<rparr>]\<rparr>"
    unfolding insert_member_def by (auto dest!: execute_ok)
  from Cons.IH [OF e] obtain n where "n \<ge> ce_step s1" "t = s1\<lparr>ce_step := n, ce_busi_group_member := ce_busi_group_member s1 @
     map (\<lambda>m. \<lparr>bgm_BusiGroupId = i, bgm_UserGroupId = bgm_UserGroupId m, bgm_PermFlag = bgm_PermFlag m\<rparr>) ms\<rparr>" by blast
  then show ?case unfolding s1 by (intro exI [of _ n]) simp
qed

text \<open>A new group: its identifier is fresh, its name and label were free, and it has at least one team.\<close>

lemma group_inv_new:
  assumes inv: "group_inv s" and name: "\<not> (\<exists>x \<in> set (ce_busi_group s). bg_Name x = bg_Name bg)"
    and label: "bg_LabelEnable bg = 1 \<Longrightarrow> \<not> (\<exists>x \<in> set (ce_busi_group s). bg_LabelEnable x = 1 \<and> bg_LabelValue x = bg_LabelValue bg)"
    and i: "bg_Id bg = an_id (ce_answers s (ce_step s))" and n: "ce_step s < n"
    and team: "m \<in> set ms" "bgm_BusiGroupId m = bg_Id bg"
  shows "group_inv (s\<lparr>ce_step := n, ce_busi_group := ce_busi_group s @ [bg], ce_busi_group_member := ce_busi_group_member s @ ms\<rparr>)"
proof -
  have "\<forall>b \<in> set (ce_busi_group s). bg_Id b < bg_Id bg" using inv i by (simp add: group_inv_def fresh_ids_def)
  then have ids: "distinct (map bg_Id (ce_busi_group s @ [bg]))" using inv by (auto simp: group_inv_def)
  have names: "distinct (map bg_Name (ce_busi_group s @ [bg]))" using inv name by (auto simp: group_inv_def)
  have labels: "distinct (labels_of (ce_busi_group s @ [bg]))" using inv label by (force simp: group_inv_def labels_of_def)
  have fresh: "fresh_ids (s\<lparr>ce_step := n, ce_busi_group := ce_busi_group s @ [bg], ce_busi_group_member := ce_busi_group_member s @ ms\<rparr>)"
    using inv i n by (auto simp: group_inv_def fresh_ids_def)
  show ?thesis using inv ids names labels fresh team unfolding group_inv_def has_member_row_def by auto
qed

lemma gi_group_add:
  assumes "members \<noteq> []"
  shows "preserves group_inv (BusiGroupAdd name e v members creator)"
proof -
  let ?taken = "\<lambda>s. \<exists>x \<in> set (ce_busi_group s). bg_Name x = name"
  let ?label = "\<lambda>s. if e = 1 then (if \<exists>x \<in> set (ce_busi_group s). bg_LabelEnable x = 1 \<and> bg_LabelValue x = v \<and> True
      then Inl (Err ''BusiGroup already exists'') else Inr v) else Inr '''' :: failure + string"
  let ?bg = "\<lambda>i w now. \<lparr>bg_Id = i, bg_Name = name, bg_LabelEnable = e, bg_LabelValue = w, bg_CreateAt = now, bg_CreateBy = creator,
      bg_UpdateAt = now, bg_UpdateBy = creator\<rparr>"
  let ?m = "\<lambda>w now. bind_act (create (\<lambda>i s. s\<lparr>ce_busi_group := ce_busi_group s @ [?bg i w now]\<rparr>)) (\<lambda>i. each (insert_member i) members)"
  have "advances (?m w now)" for w now
    unfolding insert_member_def by (intro advances_bind advances_create advances_each advances_execute) simp_all
  then have steps: "ce_step s \<le> ce_step (snd (?m w now s))" for s w now by (simp add: advances_def)
  have new: "group_inv t" if inv: "group_inv s" and free: "\<not> ?taken s" "?label s = Inr w" and run: "?m w now s = (Inr x, t)" for s w now x t
  proof -
    obtain i s1 where c: "create (\<lambda>i s. s\<lparr>ce_busi_group := ce_busi_group s @ [?bg i w now]\<rparr>) s = (Inr i, s1)"
      and ins: "each (insert_member i) members s1 = (Inr x, t)" using run by (auto simp: bind_Inr_iff)
    obtain n where n: "n \<ge> ce_step s1" and t: "t = s1\<lparr>ce_step := n, ce_busi_group_member := ce_busi_group_member s1 @
       map (\<lambda>m. \<lparr>bgm_BusiGroupId = i, bgm_UserGroupId = bgm_UserGroupId m, bgm_PermFlag = bgm_PermFlag m\<rparr>) members\<rparr>"
      using insert_members_ok [OF ins] by blast
    note s1 = create_ok [OF c]
    obtain m0 ms where m0: "members = m0 # ms" using assms by (cases members) auto
    let ?row = "\<lambda>m. \<lparr>bgm_BusiGroupId = i, bgm_UserGroupId = bgm_UserGroupId m, bgm_PermFlag = bgm_PermFlag m\<rparr>"
    have "t = s\<lparr>ce_step := n, ce_busi_group := ce_busi_group s @ [?bg i w now], ce_busi_group_member := ce_busi_group_member s @ map ?row members\<rparr>"
      using t s1 by simp
    moreover have "group_inv (s\<lparr>ce_step := n, ce_busi_group := ce_busi_group s @ [?bg i w now], ce_busi_group_member := ce_busi_group_member s @ map ?row members\<rparr>)"
      using free n s1 m0 by (intro group_inv_new [OF inv, where m = "?row m0"]) (auto split: if_splits)
    ultimately show ?thesis by simp
  qed
  show ?thesis
    unfolding BusiGroupAdd_def check_team_def
  proof (intro gi.under_all gi.under_sees [OF sees_Exists_group steady_const] gi.under_if under_stop
      gi.under_sees [OF sees_label_free] gi.under_reads gi.under_transaction [OF steps] sat_rules)
    fix ex w now s x t
    assume "\<not> ex" "group_inv s" "(True \<and> (Inr (?taken s) :: failure + bool) = Inr ex) \<and> ?label s = Inr w" "?m w now s = (Inr x, t)"
    then show "group_inv t" by (intro new [of s w now x t]) auto
  qed (auto simp: steady_def UserGroupGet_def intro!: sat_rules)
qed

subsection \<open>Every request\<close>

lemma preserves_prod [sat_rules]: "(\<And>a b. preserves P (f a b)) \<Longrightarrow> preserves P (case x of (a, b) \<Rightarrow> f a b)"
  by (cases x) auto

lemma preserves_list [sat_rules]: "preserves P m \<Longrightarrow> (\<And>x xs. preserves P (f x xs)) \<Longrightarrow> preserves P (case x of [] \<Rightarrow> m | x # xs \<Rightarrow> f x xs)"
  by (cases x) auto

lemma preserves_reply [sat_rules]:
  "(\<And>x. preserves P (g x)) \<Longrightarrow> (\<And>n t. preserves P (f n t)) \<Longrightarrow> preserves P (case x of Data y \<Rightarrow> g y | Message n t \<Rightarrow> f n t)"
  by (cases x) auto

lemma preserves_let [sat_rules]: "preserves P (f x) \<Longrightarrow> preserves P (let y = x in f y)"
  by simp

lemma reads_lists [sat_rules]:
  "reads (UserTotal L q)" "reads (UserGets L q l off)" "reads (UserGetAll L)" "reads (UserGetsByIds L ids)"
  "reads (UserGroupGet gp)" "reads (UserGroupCount gp)" "reads (UserGroupGetByIds L ids)" "reads (BusiGroupGet bp)"
  "reads (RoleGet rp)" "reads (RoleGetsAll)" "reads (RoleCount rp)" "reads (BusiGroupMemberGetsByBusiGroupId L i)"
  "reads (groups_page L l bp)" "reads (teams_page L l gp)" "reads (TargetGet tp)"
  by (simp_all add: UserTotal_def UserGets_def UserGetAll_def UserGetsByIds_def UserGroupGet_def UserGroupCount_def UserGroupGetByIds_def
      BusiGroupGet_def RoleGet_def RoleGetsAll_def RoleCount_def BusiGroupMemberGetsByBusiGroupId_def groups_page_def teams_page_def
      TargetGet_def sat_rules)

lemma reads_fill: "reads (fill_members ms)"
  by (induction ms) (auto intro!: sat_rules)

lemma reads_pages [sat_rules]:
  "reads (UserGroups L u l q)" "reads (BusiGroups L u l q flags)" "reads (FillUserGroups L bg)"
  unfolding UserGroups_def BusiGroups_def FillUserGroups_def by (intro sat_rules reads_fill)+

lemmas gi_steps = sat_rules gi.preserves_reads gi.preserves_execute gi.preserves_create

lemma gi_tables:
  "preserves group_inv (UserGroup_Update L sel ug)" "preserves group_inv (UserGroup_Add L ug)"
  "preserves group_inv (Role_Add r)" "preserves group_inv (Role_Del r)" "preserves group_inv (Role_Update r)"
  "preserves group_inv (RoleOperationBind n ops)" "preserves group_inv (redis_Set k v ttl)" "preserves group_inv (redis_Del k)"
proof -
  show "preserves group_inv (UserGroup_Update L sel ug)" "preserves group_inv (UserGroup_Add L ug)"
    "preserves group_inv (Role_Add r)" "preserves group_inv (Role_Del r)" "preserves group_inv (Role_Update r)" "preserves group_inv (redis_Del k)"
    unfolding UserGroup_Update_def UserGroup_Add_def Role_Add_def Role_Del_def Role_Update_def redis_Del_def
    by (intro gi_steps; simp)+
  show "preserves group_inv (RoleOperationBind n ops)"
    unfolding RoleOperationBind_def by (intro gi_transaction gi_steps advances_bind advances_execute) (auto intro: advances_ret advances_execute)
  show "preserves group_inv (redis_Set k v ttl)"
    unfolding redis_Set_def by (rule gi.under_all, rule gi.under_statement) (simp_all add: steady_def)
qed

lemmas gi_ops = gi_users gi_delete gi_member_add gi_teams gi_group_update gi_group_del gi_tables

lemma gi_sessions:
  "preserves group_inv (createTokens R k u)" "preserves group_inv (createAuth R u td)" "preserves group_inv (start_session R u)"
  "preserves group_inv (extractTokenMetadata R rq)" "preserves group_inv (handleProxyUser R rq)"
  "preserves group_inv (PassLogin L n p)" "preserves group_inv (LdapLogin n p roles ld)"
proof -
  show t: "preserves group_inv (createTokens R k u)" "preserves group_inv (createAuth R u td)" for u td k
    unfolding createTokens_def createAuth_def Let_def by (intro gi_steps gi_ops)+
  then show "preserves group_inv (start_session R u)" unfolding start_session_def by (intro gi_steps t)
  show "preserves group_inv (extractTokenMetadata R rq)" "preserves group_inv (handleProxyUser R rq)"
    "preserves group_inv (PassLogin L n p)" "preserves group_inv (LdapLogin n p roles ld)"
    unfolding extractTokenMetadata_def verifyToken_def handleProxyUser_def PassLogin_def LdapLogin_def Let_def
    by (intro gi_steps gi_ops)+
qed

lemma gi_auth: "preserves group_inv (auth R rq c)"
  unfolding auth_def proxyAuth_def jwtAuth_def fetchAuth_def by (intro gi_steps gi_sessions)

lemma gi_guard: "preserves group_inv (mw rq g c)"
  by (cases g) (auto simp: user_mw_def admin_mw_def perm_def userGroupWrite_def bgro_def bgrw_def group_mw_def allow_def
      router_UserGroup_def router_BusiGroup_def load_def intro!: gi_steps)

lemma gi_login_requests:
  "preserves group_inv (serve_login R rq f)" "preserves group_inv (serve_logout R rq)" "preserves group_inv (serve_refresh R rq tok)"
  "preserves group_inv (sso_callback R strict who C a)"
proof -
  have m: "preserves group_inv (jwtMock R rq c)" for c
    unfolding jwtMock_def by (intro gi_steps gi_sessions)
  have l: "preserves group_inv (loginPost R f)"
    unfolding loginPost_def login_user_def by (intro gi_steps gi_sessions)
  have r: "preserves group_inv (refreshPost R tok)"
    unfolding refreshPost_def refresh_claimed_def refresh_session_def deleteAuth_def by (intro gi_steps gi_sessions gi_ops)
  have o: "preserves group_inv (logoutPost R rq)"
    unfolding logoutPost_def deleteTokens_def by (intro gi_steps gi_sessions gi_ops)
  show "preserves group_inv (serve_login R rq f)" "preserves group_inv (serve_logout R rq)" "preserves group_inv (serve_refresh R rq tok)"
    unfolding serve_login_def serve_logout_def serve_refresh_def by (intro gi_steps m l r o gi_auth)+
  show "preserves group_inv (sso_callback R strict who C a)"
    unfolding sso_callback_def sso_login_def Let_def by (intro gi_steps gi_sessions gi_ops)
qed

lemma gi_handlers:
  "preserves group_inv (permsGets c)" "preserves group_inv (selfProfileGet c)" "preserves group_inv (selfProfilePut R sf c)"
  "preserves group_inv (selfPasswordPut R p q c)" "preserves group_inv (userGets R n l off c)" "preserves group_inv (userAddPost R uf c)"
  "preserves group_inv (userProfileGet rq)" "preserves group_inv (userProfilePut R rq pf c)" "preserves group_inv (userPasswordPut R rq p c)"
  "preserves group_inv (userDel rq)" "preserves group_inv (userGroupGets R l n c)" "preserves group_inv (userGroupAdd R n q c)"
  "preserves group_inv (userGroupGet R rq)" "preserves group_inv (userGroupPut R n q c)" "preserves group_inv (userGroupDel c)"
  "preserves group_inv (userGroupMemberAdd R ids c)" "preserves group_inv (userGroupMemberDel R ids c)"
  unfolding permsGets_def selfProfileGet_def selfProfilePut_def selfPasswordPut_def userGets_def userAddPost_def userProfileGet_def
    userProfilePut_def userPasswordPut_def userDel_def userGroupGets_def userGroupAdd_def userGroupGet_def userGroupPut_def userGroupDel_def
    userGroupMemberAdd_def userGroupMemberDel_def change_members_def render_data_def render_message_def router_User_def router_UserGroup_def load_def
  by (intro gi_steps gi_ops)+

lemma gi_group_handlers:
  "preserves group_inv (busiGroupGets R l n flag c)" "preserves group_inv (busiGroupAdd bf c)" "preserves group_inv (busiGroupGet R rq)"
  "preserves group_inv (busiGroupPut bf c)" "preserves group_inv (busiGroupMemberAdd ms c)" "preserves group_inv (busiGroupMemberDel ms c)"
  "preserves group_inv (busiGroupDel c)" "preserves group_inv (checkBusiGroupPerm rq p c)"
proof -
  show "preserves group_inv (busiGroupGets R l n flag c)" "preserves group_inv (busiGroupGet R rq)"
    "preserves group_inv (busiGroupPut bf c)" "preserves group_inv (busiGroupMemberAdd ms c)" "preserves group_inv (busiGroupMemberDel ms c)"
    "preserves group_inv (busiGroupDel c)" "preserves group_inv (checkBusiGroupPerm rq p c)"
    unfolding busiGroupGets_def busiGroupGet_def busiGroupPut_def busiGroupMemberAdd_def busiGroupMemberDel_def
      change_teams_def busiGroupDel_def checkBusiGroupPerm_def render_data_def render_message_def router_BusiGroup_def load_def
    by (intro gi_steps gi_ops)+
  have a: "preserves group_inv (BusiGroupAdd n e v ms who)" if "length ms \<noteq> 0" for n e v ms who using that by (simp add: gi_group_add)
  show "preserves group_inv (busiGroupAdd bf c)"
    unfolding busiGroupAdd_def by (intro gi_steps a) simp
qed

lemma gi_role_handlers:
  "preserves group_inv rolesGets" "preserves group_inv roleGets" "preserves group_inv (roleAdd r)" "preserves group_inv (rolePut r)" "preserves group_inv (roleDel rq)"
  "preserves group_inv (operationOfRole rq)" "preserves group_inv (roleBindOperation rq ops)"
  unfolding rolesGets_def roleGets_def roleAdd_def rolePut_def roleDel_def operationOfRole_def roleBindOperation_def render_data_def render_message_def
  by (intro gi_steps gi_ops)+

lemma gi_route: "preserves group_inv (snd (route R rq call) c)"
  by (cases call) (auto simp: answered_def intro!: preserves_bind preserves_reply preserves_ret gi_handlers gi_group_handlers gi_role_handlers)

lemma gi_chain: "(\<And>m c. m \<in> set mws \<Longrightarrow> preserves I (m c)) \<Longrightarrow> (\<And>c. preserves I (h c)) \<Longrightarrow> preserves I (chain mws h)"
proof -
  assume mws: "\<And>m c. m \<in> set mws \<Longrightarrow> preserves I (m c)" and h: "\<And>c. preserves I (h c)"
  have "preserves I (foldr (\<lambda>mw k c. bind_act (mw c) k) mws h c)" for c
    using mws by (induction mws arbitrary: c) (auto intro!: preserves_bind h)
  then show ?thesis by (simp add: chain_def)
qed

lemma gi_serve: "preserves group_inv (serve R rq call)"
proof -
  obtain gs h where r: "route R rq call = (gs, h)" by (cases "route R rq call")
  have "preserves group_inv (h c)" for c using gi_route [of R rq call c] r by simp
  then show ?thesis unfolding serve_def r using gi_auth gi_guard by (auto intro!: gi_chain)
qed

text \<open>The states of the center under any sequence of requests: of the web pages, of sessions and of the callbacks of a provider.\<close>

inductive center_reach :: "center_router \<Rightarrow> center \<Rightarrow> center \<Rightarrow> bool" for R s0 where
  Start: "center_reach R s0 s0"
| Page: "center_reach R s0 s \<Longrightarrow> center_reach R s0 (snd (serve R rq call s))"
| Login: "center_reach R s0 s \<Longrightarrow> center_reach R s0 (snd (serve_login R rq f s))"
| Logout: "center_reach R s0 s \<Longrightarrow> center_reach R s0 (snd (serve_logout R rq s))"
| Refresh: "center_reach R s0 s \<Longrightarrow> center_reach R s0 (snd (serve_refresh R rq tok s))"
| Callback: "center_reach R s0 s \<Longrightarrow> center_reach R s0 (snd (sso_callback R strict who C a s))"

lemma reach_group_inv: "center_reach R s0 s \<Longrightarrow> group_inv s0 \<Longrightarrow> group_inv s"
  by (induction rule: center_reach.induct)
     (use gi_serve gi_login_requests in \<open>auto simp: preserves_def\<close>)

text \<open>C13. Whatever requests the center serves, in whatever order and with whatever statements failing in
  between, the business groups stay well formed: identifiers and names are unique, the label values of
  the groups that publish one are unique, every group keeps at least one row in the table of its
  member teams, and no user is in a team twice. Removing the last row of a group is refused, but
  deleting a team leaves the rows that name it: a row need not name an existing team. \<open>fresh_ids\<close>
  says that the database numbers rows upwards.
\<close>

theorem groups_stay_well_formed:
  assumes "group_inv s0" and "center_reach R s0 s"
  shows "distinct (map bg_Id (ce_busi_group s)) \<and> distinct (map bg_Name (ce_busi_group s)) \<and>
    distinct (labels_of (ce_busi_group s)) \<and>
    (\<forall>bg \<in> set (ce_busi_group s). \<exists>m \<in> set (ce_busi_group_member s). bgm_BusiGroupId m = bg_Id bg) \<and>
    distinct (ce_user_group_member s)"
  using reach_group_inv [OF assms(2,1)] by (auto simp: group_inv_def has_member_row_def)

text \<open>The member of the only team may not remove that team from the group.\<close>

definition sample_removal :: center where
  "sample_removal = snd (serve sample_crouter (sample_request sample_token)
     (Busi_group_members_delete [\<lparr>bgm_BusiGroupId = 5, bgm_UserGroupId = 3, bgm_PermFlag = ''rw''\<rparr>])
     (sample_center ''u'' [(''/jwt/u'', (''7-bob'', None))]))"

theorem groups_stay_well_formed_witness:
  "ce_busi_group_member sample_removal = [\<lparr>bgm_BusiGroupId = 5, bgm_UserGroupId = 3, bgm_PermFlag = ''rw''\<rparr>] \<and>
   list_all (\<lambda>bg. list_ex (\<lambda>m. bgm_BusiGroupId m = bg_Id bg) (ce_busi_group_member sample_removal)) (ce_busi_group sample_removal)"
proof -
  have "group_inv (sample_center ''u'' [(''/jwt/u'', (''7-bob'', None))])"
    by (simp add: group_inv_def has_member_row_def fresh_ids_def labels_of_def sample_center_def sample_group_def)
  moreover have "center_reach sample_crouter (sample_center ''u'' [(''/jwt/u'', (''7-bob'', None))]) sample_removal"
    unfolding sample_removal_def by (intro center_reach.Page center_reach.Start)
  moreover have "ce_busi_group_member sample_removal = [\<lparr>bgm_BusiGroupId = 5, bgm_UserGroupId = 3, bgm_PermFlag = ''rw''\<rparr>]"
    by code_simp
  ultimately show ?thesis using groups_stay_well_formed [of _ sample_crouter sample_removal] unfolding list_all_iff list_ex_iff by blast
qed

end
