(* ===== verification/Host_Pages.thy ===== *)
theory Host_Pages
  imports Center_Handlers Host_Query Time_Series
begin

text \<open>
  The pages for hosts: the operations on the table of targets (\<open>models/target.go\<close>) and their
  handlers (\<open>center/router/router_target.go\<close>), with the routes of \<open>router.go\<close>. A host that belongs to a
  business group may be changed by the members of its teams with write permission; only an
  administrator assigns a host that belongs to none. The tables of the database have no column for
  the data source of a host, so a search by data source fails.
\<close>

subsection \<open>The table of targets\<close>

text \<open>Columns only; the other fields of a target are filled in memory.\<close>

definition FillGroup :: "(int, BusiGroup option) go_map \<Rightarrow> Target \<Rightarrow> (Target \<times> (int, BusiGroup option) go_map) center_act" where
  "FillGroup cache t =
     (if tg_GroupId t \<le> 0 then ret (t, cache)
      else case go_get cache (tg_GroupId t) of
        Some bg \<Rightarrow> ret (t\<lparr>tg_GroupObj := bg\<rparr>, cache)
      | None \<Rightarrow>
         bind_act (with_message ''failed to get busi group'' (BusiGroupGetById (tg_GroupId t))) (\<lambda>bg.
         ret (t\<lparr>tg_GroupObj := bg\<rparr>, go_set (tg_GroupId t) bg cache)))"

text \<open>An empty list of hosts panics explicitly.\<close>

definition TargetDel :: "string list \<Rightarrow> unit center_act" where
  "TargetDel idents =
     (if length idents = 0 then stop (Crash (Unknown_action ''idents empty''))
      else execute (\<lambda>s. s\<lparr>ce_target := filter (\<lambda>t. tg_Ident t \<notin> set idents) (ce_target s)\<rparr>))"

definition target_like :: "center_lib \<Rightarrow> string \<Rightarrow> Target \<Rightarrow> bool" where
  "target_like L w t \<longleftrightarrow> cl_like L (tg_Ident t) (contains_pattern w) \<or> cl_like L (tg_Note t) (contains_pattern w) \<or>
     cl_like L (tg_Tags t) (contains_pattern w)"

definition target_where :: "center_lib \<Rightarrow> int list \<Rightarrow> string \<Rightarrow> int \<Rightarrow> int \<Rightarrow> Target \<Rightarrow> bool" where
  "target_where L bgids q downtime now t \<longleftrightarrow>
     (length bgids > 0 \<longrightarrow> tg_GroupId t \<in> set bgids) \<and>
     (downtime > 0 \<longrightarrow> tg_UpdateAt t < now - downtime) \<and>
     (\<forall>w \<in> set (Fields q). target_like L w t)"

definition buildTargetWhere :: "center_lib \<Rightarrow> int list \<Rightarrow> int list \<Rightarrow> string \<Rightarrow> int \<Rightarrow> (Target list \<Rightarrow> 'a) \<Rightarrow> 'a center_act" where
  "buildTargetWhere L bgids dsIds q downtime k =
     bind_act (if downtime > 0 then Now_Unix else ret 0) (\<lambda>now.
     if length dsIds > 0 then statement (\<lambda>a. stop (Err ''Unknown column datasource_id''))
     else query (\<lambda>s. k (filter (target_where L bgids q downtime now) (ce_target s))))"

definition TargetTotalCount :: "int center_act" where
  "TargetTotalCount = Count ce_target (\<lambda>t. True)"

definition TargetTotal :: "center_lib \<Rightarrow> int list \<Rightarrow> int list \<Rightarrow> string \<Rightarrow> int \<Rightarrow> int center_act" where
  "TargetTotal L bgids dsIds q downtime = buildTargetWhere L bgids dsIds q downtime (\<lambda>rows. int (length rows))"

definition TargetGets :: "center_lib \<Rightarrow> int list \<Rightarrow> int list \<Rightarrow> string \<Rightarrow> int \<Rightarrow> int \<Rightarrow> int \<Rightarrow> Target list center_act" where
  "TargetGets L bgids dsIds q downtime limit offset =
     bind_act (buildTargetWhere L bgids dsIds q downtime (\<lambda>rows. limit_offset limit offset (order_by L tg_Ident rows))) (\<lambda>lst.
     ret (map (\<lambda>t. t\<lparr>tg_TagsJSON := Fields (tg_Tags t)\<rparr>) lst))"

definition TargetGetsAll :: "center_lib \<Rightarrow> (string \<Rightarrow> string + Target list) \<Rightarrow> Target list center_act" where
  "TargetGetsAll L remote_targets =
     (if \<not> cl_IsCenter L then remote (remote_targets ''/v1/n9e/targets'')
      else bind_act (query ce_target) (\<lambda>lst. ret (map FillTagsMap lst)))"

definition update_targets :: "(Target \<Rightarrow> bool) \<Rightarrow> (Target \<Rightarrow> Target) \<Rightarrow> unit center_act" where
  "update_targets p f = execute (\<lambda>s. s\<lparr>ce_target := update_where p f (ce_target s)\<rparr>)"

definition TargetUpdateNote :: "string list \<Rightarrow> string \<Rightarrow> unit center_act" where
  "TargetUpdateNote idents note =
     bind_act Now_Unix (\<lambda>now. update_targets (\<lambda>t. tg_Ident t \<in> set idents) (\<lambda>t. t\<lparr>tg_Note := note, tg_UpdateAt := now\<rparr>))"

definition TargetUpdateBgid :: "string list \<Rightarrow> int \<Rightarrow> bool \<Rightarrow> unit center_act" where
  "TargetUpdateBgid idents bgid clearTags =
     bind_act Now_Unix (\<lambda>now. update_targets (\<lambda>t. tg_Ident t \<in> set idents)
       (\<lambda>t. let u = t\<lparr>tg_GroupId := bgid, tg_UpdateAt := now\<rparr> in if clearTags then u\<lparr>tg_Tags := ''''\<rparr> else u))"

definition TargetUpdateHostIpAndBgid :: "string \<Rightarrow> string \<Rightarrow> int \<Rightarrow> unit center_act" where
  "TargetUpdateHostIpAndBgid ident ipv4 bgid =
     bind_act Now_Unix (\<lambda>now. update_targets (\<lambda>t. tg_Ident t = ident)
       (\<lambda>t. t\<lparr>tg_HostIp := ipv4, tg_GroupId := bgid, tg_UpdateAt := now\<rparr>))"

definition TargetGetById :: "int \<Rightarrow> Target option center_act" where
  "TargetGetById i = TargetGet (\<lambda>t. tg_Id t = i)"

definition TargetGetByIdent :: "string \<Rightarrow> Target option center_act" where
  "TargetGetByIdent ident = TargetGet (\<lambda>t. tg_Ident t = ident)"

text \<open>The keys of the set are sorted at the end, so the order in which it is enumerated does not matter.\<close>

definition TargetGetTags :: "string list \<Rightarrow> string list center_act" where
  "TargetGetTags idents =
     bind_act (query (\<lambda>s. remdups (map tg_Tags (filter (\<lambda>t. length idents > 0 \<longrightarrow> tg_Ident t \<in> set idents) (ce_target s))))) (\<lambda>arr.
     if length arr = 0 then ret [] else ret (sort (remdups (concat (map Fields arr)))))"

definition Target_AddTags :: "Target \<Rightarrow> string list \<Rightarrow> unit center_act" where
  "Target_AddTags t tags =
     bind_act Now_Unix (\<lambda>now. update_targets (\<lambda>r. tg_Id r = tg_Id t) (\<lambda>r. r\<lparr>tg_Tags := AddTags t tags, tg_UpdateAt := now\<rparr>))"

definition Target_DelTags :: "Target \<Rightarrow> string list \<Rightarrow> unit center_act" where
  "Target_DelTags t tags =
     bind_act Now_Unix (\<lambda>now. update_targets (\<lambda>r. tg_Id r = tg_Id t) (\<lambda>r. r\<lparr>tg_Tags := DelTags t tags, tg_UpdateAt := now\<rparr>))"

definition TargetIdents :: "int list \<Rightarrow> string list center_act" where
  "TargetIdents ids =
     (if length ids = 0 then ret [] else query (\<lambda>s. map tg_Ident (filter (\<lambda>t. tg_Id t \<in> set ids) (ce_target s))))"

definition TargetIds :: "string list \<Rightarrow> int list center_act" where
  "TargetIds idents =
     (if length idents = 0 then ret [] else query (\<lambda>s. map tg_Id (filter (\<lambda>t. tg_Ident t \<in> set idents) (ce_target s))))"

definition IdentsFilter :: "string list \<Rightarrow> (Target \<Rightarrow> bool) \<Rightarrow> string list center_act" where
  "IdentsFilter idents p =
     (if length idents = 0 then ret []
      else query (\<lambda>s. map tg_Ident (filter (\<lambda>t. tg_Ident t \<in> set idents \<and> p t) (ce_target s))))"

subsection \<open>Handlers\<close>

definition checkTargetPerm :: "string list \<Rightarrow> gin_ctx \<Rightarrow> unit center_act" where
  "checkTargetPerm idents c =
     bind_act (must_get ''user'' (gc_user c)) (\<lambda>user.
     bind_act (dangerous (NopriIdents user idents)) (\<lambda>nopri.
     if length nopri > 0 then stop (Bomb 403 (''No permission to operate the targets: '' @ Join nopri '', '')) else ret ()))"

text \<open>\<open>now\<close> is the time of the request; \<open>metas\<close> what Redis holds for the listed hosts, by host name.\<close>

definition target_state :: "int \<Rightarrow> Target \<Rightarrow> Target" where
  "target_state now t =
     (if now - tg_UpdateAt t < 60 then t\<lparr>tg_TargetUp := Finite 2\<rparr>
      else if now - tg_UpdateAt t < 180 then t\<lparr>tg_TargetUp := Finite 1\<rparr> else t)"

fun fill_list :: "int \<Rightarrow> (int, BusiGroup option) go_map \<Rightarrow> Target list \<Rightarrow> Target list center_act" where
  "fill_list now cache [] = ret []"
| "fill_list now cache (t # ts) =
     bind_act (dangerous (FillGroup cache t)) (\<lambda>(t1, cache1).
     bind_act (fill_list now cache1 ts) (\<lambda>r. ret (target_state now t1 # r)))"

definition fill_meta :: "(string, HostMeta) go_map \<Rightarrow> Target \<Rightarrow> Target" where
  "fill_meta metas t = (case go_get metas (tg_Ident t) of Some m \<Rightarrow> FillMeta m t | None \<Rightarrow> t\<lparr>tg_CpuNum := -1\<rparr>)"

definition target_groups :: "int \<Rightarrow> gin_ctx \<Rightarrow> int list center_act" where
  "target_groups bgid c =
     (if bgid = -1 then
        bind_act (must_get ''user'' (gc_user c)) (\<lambda>user.
        if \<not> IsAdmin user then
          bind_act (dangerous (MyGroupIds (us_Id user))) (\<lambda>userGroupIds.
          bind_act (dangerous (BusiGroupIds userGroupIds [])) (\<lambda>bgids. ret (bgids @ [0])))
        else ret [])
      else ret [bgid])"

definition targetGets :: "center_router \<Rightarrow> (string, HostMeta) go_map \<Rightarrow> int \<Rightarrow> string \<Rightarrow> int \<Rightarrow> int \<Rightarrow> int \<Rightarrow> int list \<Rightarrow> gin_ctx
    \<Rightarrow> (Target list \<times> int) reply center_act" where
  "targetGets R metas bgid q limit offset downtime dsIds c =
     bind_act (target_groups bgid c) (\<lambda>bgids.
     bind_act (dangerous (TargetTotal (cr_lib R) bgids dsIds q downtime)) (\<lambda>total.
     bind_act (dangerous (TargetGets (cr_lib R) bgids dsIds q downtime limit offset)) (\<lambda>lst.
     bind_act Now_Unix (\<lambda>now.
     bind_act (fill_list now [] lst) (\<lambda>filled. ret (Data (map (fill_meta metas) filled, total)))))))"

definition targetGetTags :: "string \<Rightarrow> string list reply center_act" where
  "targetGetTags idents = render_data (TargetGetTags (Fields (ReplaceAll idents '','' '' '')))"

record targetTagsForm =
  tf_Idents :: "string list"
  tf_Tags :: "string list"

definition idents_given :: "string list \<Rightarrow> unit center_act" where
  "idents_given idents = (if length idents = 0 then stop (Bomb 400 ''idents empty'') else ret ())"

fun check_tags :: "prom_names \<Rightarrow> string list \<Rightarrow> string option" where
  "check_tags N [] = None"
| "check_tags N (t # ts) =
     (case Split t ''='' of
        [k, v] \<Rightarrow>
          (if TrimSpace k = '''' \<or> TrimSpace v = '''' then Some (''invalid tag('' @ t @ '')'')
           else if CHR ''.'' \<in> set k then Some (''invalid tagkey('' @ k @ ''): cannot contains . '')
           else if CHR ''-'' \<in> set k then Some (''invalid tagkey('' @ k @ ''): cannot contains -'')
           else if \<not> pn_LabelNameRE N k then Some (''invalid tagkey('' @ k @ '')'')
           else check_tags N ts)
      | _ \<Rightarrow> Some (''invalid tag('' @ t @ '')''))"

text \<open>Only the beginning of the list of tags is compared with the key.\<close>

fun duplicate_key :: "string \<Rightarrow> string list \<Rightarrow> string option" where
  "duplicate_key tags [] = None"
| "duplicate_key tags (t # ts) =
     (let tagkey = hd (Split t ''='') in
      if take (length (tagkey @ ''='')) tags = tagkey @ ''='' then Some (''duplicate tagkey('' @ tagkey @ '')'')
      else duplicate_key tags ts)"

definition bind_tags :: "string list \<Rightarrow> string \<Rightarrow> unit center_act" where
  "bind_tags tags ident =
     bind_act (TargetGetByIdent ident) (\<lambda>target.
     case target of None \<Rightarrow> ret ()
     | Some t \<Rightarrow> (case duplicate_key (tg_Tags t) tags of Some e \<Rightarrow> stop (Err e) | None \<Rightarrow> Target_AddTags t tags))"

definition targetBindTags :: "prom_names \<Rightarrow> targetTagsForm \<Rightarrow> unit center_act" where
  "targetBindTags N f =
     (case check_tags N (tf_Tags f) of Some e \<Rightarrow> stop (Err e) | None \<Rightarrow> each (bind_tags (tf_Tags f)) (tf_Idents f))"

definition targetBindTagsByFE :: "prom_names \<Rightarrow> targetTagsForm \<Rightarrow> gin_ctx \<Rightarrow> unit reply center_act" where
  "targetBindTagsByFE N f c =
     bind_act (idents_given (tf_Idents f)) (\<lambda>_.
     bind_act (checkTargetPerm (tf_Idents f) c) (\<lambda>_. render_message (targetBindTags N f)))"

definition targetBindTagsByService :: "prom_names \<Rightarrow> targetTagsForm \<Rightarrow> unit reply center_act" where
  "targetBindTagsByService N f = bind_act (idents_given (tf_Idents f)) (\<lambda>_. render_message (targetBindTags N f))"

definition unbind_tags :: "string list \<Rightarrow> string \<Rightarrow> unit center_act" where
  "unbind_tags tags ident =
     bind_act (TargetGetByIdent ident) (\<lambda>target. case target of None \<Rightarrow> ret () | Some t \<Rightarrow> Target_DelTags t tags)"

definition targetUnbindTags :: "targetTagsForm \<Rightarrow> unit center_act" where
  "targetUnbindTags f = each (unbind_tags (tf_Tags f)) (tf_Idents f)"

definition targetUnbindTagsByFE :: "targetTagsForm \<Rightarrow> gin_ctx \<Rightarrow> unit reply center_act" where
  "targetUnbindTagsByFE f c =
     bind_act (idents_given (tf_Idents f)) (\<lambda>_.
     bind_act (checkTargetPerm (tf_Idents f) c) (\<lambda>_. render_message (targetUnbindTags f)))"

definition targetUnbindTagsByService :: "targetTagsForm \<Rightarrow> unit reply center_act" where
  "targetUnbindTagsByService f = bind_act (idents_given (tf_Idents f)) (\<lambda>_. render_message (targetUnbindTags f))"

definition targetUpdateNote :: "string list \<Rightarrow> string \<Rightarrow> gin_ctx \<Rightarrow> unit reply center_act" where
  "targetUpdateNote idents note c =
     bind_act (idents_given idents) (\<lambda>_.
     bind_act (checkTargetPerm idents c) (\<lambda>_. render_message (TargetUpdateNote idents note)))"

definition targetUpdateNoteByService :: "string list \<Rightarrow> string \<Rightarrow> unit reply center_act" where
  "targetUpdateNoteByService idents note = bind_act (idents_given idents) (\<lambda>_. render_message (TargetUpdateNote idents note))"

definition check_bgid :: "string list \<Rightarrow> int \<Rightarrow> User \<Rightarrow> gin_ctx \<Rightarrow> unit center_act" where
  "check_bgid idents bgid user c =
     (if bgid > 0 then
        bind_act (dangerous (IdentsFilter idents (\<lambda>t. tg_GroupId t = 0))) (\<lambda>orphans.
        if length orphans > 0 \<and> \<not> IsAdmin user then stop (Bomb 403 ''No permission. Only admin can assign BG'')
        else bind_act (dangerous (IdentsFilter idents (\<lambda>t. tg_GroupId t > 0))) (\<lambda>reBelongs.
          if length reBelongs > 0 then
            bind_act (checkTargetPerm idents c) (\<lambda>_.
            bind_act (router_BusiGroup bgid) (\<lambda>bg.
            bind_act (dangerous (CanDoBusiGroup user bg [''rw''])) (\<lambda>can.
            if \<not> can then stop (Bomb 403 (''No permission. You are not admin of BG('' @ bg_Name bg @ '')'')) else ret ())))
          else ret ()))
      else if bgid = 0 then checkTargetPerm idents c
      else stop (Bomb 400 ''invalid bgid''))"

definition targetUpdateBgid :: "string list \<Rightarrow> int \<Rightarrow> gin_ctx \<Rightarrow> unit reply center_act" where
  "targetUpdateBgid idents bgid c =
     bind_act (idents_given idents) (\<lambda>_.
     bind_act (must_get ''user'' (gc_user c)) (\<lambda>user.
     if IsAdmin user then render_message (TargetUpdateBgid idents bgid False)
     else bind_act (check_bgid idents bgid user c) (\<lambda>_. render_message (TargetUpdateBgid idents bgid False))))"

definition targetDel :: "string list \<Rightarrow> gin_ctx \<Rightarrow> unit reply center_act" where
  "targetDel idents c =
     bind_act (idents_given idents) (\<lambda>_.
     bind_act (checkTargetPerm idents c) (\<lambda>_. render_message (TargetDel idents)))"

text \<open>The changes that the pages offer, with the operation each route asks for; the requests pass \<open>auth\<close> and \<open>user\<close> first.\<close>

datatype host_call =
    Targets_delete "string list" | Tags_post targetTagsForm | Tags_delete targetTagsForm
  | Note_put "string list" string | Bgid_put "string list" int

fun host_operation :: "host_call \<Rightarrow> string" where
  "host_operation (Targets_delete idents) = ''/targets/del''"
| "host_operation _ = ''/targets/put''"

fun host_handler :: "prom_names \<Rightarrow> host_call \<Rightarrow> gin_ctx \<Rightarrow> unit reply center_act" where
  "host_handler N (Targets_delete idents) c = targetDel idents c"
| "host_handler N (Tags_post f) c = targetBindTagsByFE N f c"
| "host_handler N (Tags_delete f) c = targetUnbindTagsByFE f c"
| "host_handler N (Note_put idents note) c = targetUpdateNote idents note c"
| "host_handler N (Bgid_put idents bgid) c = targetUpdateBgid idents bgid c"

definition serve_host :: "center_router \<Rightarrow> prom_names \<Rightarrow> request \<Rightarrow> host_call \<Rightarrow> unit reply center_act" where
  "serve_host R N rq call = chain [auth R rq, user_mw, perm (host_operation call)] (host_handler N call)"

end
