(* ===== verification/Host_Spec.thy ===== *)
theory Host_Spec
  imports Center_Inv Host_Pages
begin

text \<open>
  Who may change which hosts. \<open>host_changes idents g rows rows'\<close> says that the table went from \<open>rows\<close> to
  \<open>rows'\<close> by changing or deleting only the hosts named in \<open>idents\<close>, without touching their identifiers
  and without moving them to a group other than \<open>g\<close>. It is an invariant of the actions of a handler
  in the sense of \<open>table_invariant\<close>.
\<close>

subsection \<open>Changes of the table\<close>

definition host_changes :: "string list \<Rightarrow> int option \<Rightarrow> Target list \<Rightarrow> Target list \<Rightarrow> bool" where
  "host_changes idents g rows rows' \<longleftrightarrow>
     (\<forall>t' \<in> set rows'. \<exists>t \<in> set rows. tg_Id t' = tg_Id t \<and> tg_Ident t' = tg_Ident t \<and>
        (t' = t \<or> (tg_Ident t \<in> set idents \<and> (tg_GroupId t' = tg_GroupId t \<or> g = Some (tg_GroupId t'))))) \<and>
     (\<forall>t \<in> set rows. tg_Ident t \<notin> set idents \<longrightarrow> t \<in> set rows')"

lemma host_changes_refl: "host_changes idents g rows rows"
  by (auto simp: host_changes_def)

lemma host_changes_update:
  assumes ch: "host_changes idents g rows rows'"
    and p: "\<And>r. r \<in> set rows' \<Longrightarrow> p r \<Longrightarrow> tg_Ident r \<in> set idents"
    and f: "\<And>r. tg_Id (f r) = tg_Id r \<and> tg_Ident (f r) = tg_Ident r \<and> (tg_GroupId (f r) = tg_GroupId r \<or> g = Some (tg_GroupId (f r)))"
  shows "host_changes idents g rows (update_where p f rows')"
proof -
  have "\<exists>t \<in> set rows. tg_Id r' = tg_Id t \<and> tg_Ident r' = tg_Ident t \<and>
      (r' = t \<or> (tg_Ident t \<in> set idents \<and> (tg_GroupId r' = tg_GroupId t \<or> g = Some (tg_GroupId r'))))"
    if r': "r' \<in> set (update_where p f rows')" for r'
  proof -
    obtain r where r: "r \<in> set rows'" "r' = (if p r then f r else r)" using r' by (auto simp: set_update_where)
    obtain t where t: "t \<in> set rows" "tg_Id r = tg_Id t" "tg_Ident r = tg_Ident t"
      "r = t \<or> (tg_Ident t \<in> set idents \<and> (tg_GroupId r = tg_GroupId t \<or> g = Some (tg_GroupId r)))"
      using ch r(1) by (auto simp: host_changes_def)
    show ?thesis using t r p [OF r(1)] f [of r] by (cases "p r") (intro bexI [of _ t]; auto)+
  qed
  moreover have "t \<in> set (update_where p f rows')" if "t \<in> set rows" "tg_Ident t \<notin> set idents" for t
  proof -
    have "t \<in> set rows'" using ch that by (simp add: host_changes_def)
    then have "\<not> p t" using p that(2) by blast
    then show ?thesis using \<open>t \<in> set rows'\<close> by (force simp: set_update_where)
  qed
  ultimately show ?thesis by (simp add: host_changes_def)
qed

lemma host_changes_delete:
  assumes "host_changes idents g rows rows'"
  shows "host_changes idents g rows (filter (\<lambda>t. tg_Ident t \<notin> set idents) rows')"
  using assms by (auto simp: host_changes_def)

text \<open>Rows with the same identifier are the same host.\<close>

lemma host_changes_ident:
  assumes "host_changes idents g rows rows'" and "distinct (map tg_Id rows)"
    and "r \<in> set rows'" "t \<in> set rows'" "tg_Id r = tg_Id t"
  shows "tg_Ident r = tg_Ident t"
proof -
  obtain r0 t0 where "r0 \<in> set rows" "tg_Id r = tg_Id r0" "tg_Ident r = tg_Ident r0"
    "t0 \<in> set rows" "tg_Id t = tg_Id t0" "tg_Ident t = tg_Ident t0"
    using assms(1,3,4) unfolding host_changes_def by meson
  then show ?thesis using assms(2,5) by (metis distinct_map inj_onD)
qed

interpretation hc: table_invariant "\<lambda>s. host_changes idents g rows (ce_target s)" for idents g rows
  by unfold_locales simp

abbreviation keeps_hosts :: "string list \<Rightarrow> int option \<Rightarrow> Target list \<Rightarrow> 'a center_act \<Rightarrow> bool" where
  "keeps_hosts idents g rows m \<equiv> preserves (\<lambda>s. host_changes idents g rows (ce_target s)) m"

lemmas hc_steps = sat_rules hc.preserves_reads

lemma keeps_update:
  assumes "\<And>r s :: center. host_changes idents g rows (ce_target s) \<Longrightarrow> r \<in> set (ce_target s) \<Longrightarrow> p r \<Longrightarrow> tg_Ident r \<in> set idents"
    and "\<And>r. tg_Id (f r) = tg_Id r \<and> tg_Ident (f r) = tg_Ident r \<and> (tg_GroupId (f r) = tg_GroupId r \<or> g = Some (tg_GroupId (f r)))"
  shows "keeps_hosts idents g rows (update_targets p f)"
  unfolding update_targets_def
proof (rule hc.preserves_execute)
  fix s :: center
  assume ch: "host_changes idents g rows (ce_target s)"
  show "host_changes idents g rows (ce_target (s\<lparr>ce_target := update_where p f (ce_target s)\<rparr>))"
    using host_changes_update [OF ch assms(1) [OF ch] assms(2)] by simp
qed

lemma keeps_statements:
  "keeps_hosts idents g rows (TargetDel idents)" "keeps_hosts idents g rows (TargetUpdateNote idents note)"
  "g = Some bgid \<Longrightarrow> keeps_hosts idents g rows (TargetUpdateBgid idents bgid flag)"
  unfolding TargetDel_def TargetUpdateNote_def TargetUpdateBgid_def
  by (intro hc_steps hc.preserves_execute keeps_update; simp add: host_changes_delete Let_def)+

lemma sees_TargetGet:
  "sees (TargetGet p) (\<lambda>s. Inr (map_option (\<lambda>t. t\<lparr>tg_TagsJSON := Fields (tg_Tags t)\<rparr>) (first (filter p (ce_target s)))))"
  unfolding TargetGet_def Find_def by (rule sees_eq, (rule sees_intros)+) (simp_all add: steady_def)

text \<open>An update of the row that was just read, by its identifier.\<close>

abbreviation hosts_under :: "string list \<Rightarrow> int option \<Rightarrow> Target list \<Rightarrow> (center \<Rightarrow> bool) \<Rightarrow> 'a center_act \<Rightarrow> bool" where
  "hosts_under idents g rows \<equiv> table_invariant.under (\<lambda>s. host_changes idents g rows (ce_target s))"

lemma first_filter: "first (filter p xs) = Some x \<Longrightarrow> x \<in> set xs \<and> p x"
  by (induction xs) (auto simp: first_def split: if_splits)

definition row_update :: "Target \<Rightarrow> unit center_act \<Rightarrow> bool" where
  "row_update t m \<longleftrightarrow> (\<exists>f. m = bind_act Now_Unix (\<lambda>now. update_targets (\<lambda>r. tg_Id r = tg_Id t) (f now)) \<and>
     (\<forall>now r. tg_Id (f now r) = tg_Id r \<and> tg_Ident (f now r) = tg_Ident r \<and> tg_GroupId (f now r) = tg_GroupId r))"

lemma under_row_update:
  assumes ids: "distinct (map tg_Id rows)" and ident: "ident \<in> set idents" and m: "row_update t m"
  shows "hosts_under idents g rows
    (\<lambda>s. True \<and> Inr (map_option (\<lambda>t. t\<lparr>tg_TagsJSON := Fields (tg_Tags t)\<rparr>) (first (filter (\<lambda>t. tg_Ident t = ident) (ce_target s)))) = (Inr (Some t) :: failure + Target option)) m"
proof -
  obtain f where f: "m = bind_act Now_Unix (\<lambda>now. update_targets (\<lambda>r. tg_Id r = tg_Id t) (f now))"
    "\<And>now r. tg_Id (f now r) = tg_Id r \<and> tg_Ident (f now r) = tg_Ident r \<and> tg_GroupId (f now r) = tg_GroupId r"
    using m by (auto simp: row_update_def)
  have "host_changes idents g rows (update_where (\<lambda>r. tg_Id r = tg_Id t) (f now) (ce_target s))"
    if ch: "host_changes idents g rows (ce_target s)"
      and found: "map_option (\<lambda>t. t\<lparr>tg_TagsJSON := Fields (tg_Tags t)\<rparr>) (first (filter (\<lambda>t. tg_Ident t = ident) (ce_target s))) = Some t"
    for now and s :: center
  proof (rule host_changes_update [OF ch])
    obtain x where "first (filter (\<lambda>t. tg_Ident t = ident) (ce_target s)) = Some x" "tg_Id x = tg_Id t" using found by auto
    then have x: "x \<in> set (ce_target s)" "tg_Ident x = ident" "tg_Id x = tg_Id t" using first_filter by fastforce+
    show "tg_Ident r \<in> set idents" if "r \<in> set (ce_target s)" "tg_Id r = tg_Id t" for r
      using host_changes_ident [OF ch ids that(1) x(1)] that(2) x(2,3) ident by simp
  qed (use f(2) in auto)
  then show ?thesis
    unfolding f(1) update_targets_def
    by (intro hc.under_reads hc.under_execute reads_lookups) (auto simp: steady_def simp del: map_option_eq_Some)
qed

lemma keeps_found:
  assumes ids: "distinct (map tg_Id rows)" and ident: "ident \<in> set idents" and k: "\<And>t. (\<exists>e. k t = stop e) \<or> row_update t (k t)"
  shows "keeps_hosts idents g rows (bind_act (TargetGetByIdent ident) (\<lambda>target. case target of None \<Rightarrow> ret () | Some t \<Rightarrow> k t))"
  unfolding TargetGetByIdent_def
proof (rule hc.under_all, rule hc.under_sees [OF sees_TargetGet steady_const])
  fix target
  show "hosts_under idents g rows (\<lambda>s. True \<and> Inr (map_option (\<lambda>t. t\<lparr>tg_TagsJSON := Fields (tg_Tags t)\<rparr>)
      (first (filter (\<lambda>t. tg_Ident t = ident) (ce_target s)))) = (Inr target :: failure + Target option)) (case target of None \<Rightarrow> ret () | Some t \<Rightarrow> k t)"
  proof (cases target)
    case None
    then show ?thesis by (simp add: hc.under_preserves sat_rules)
  next
    case (Some t)
    from k [of t] show ?thesis
    proof
      assume "\<exists>e. k t = stop e"
      then obtain e where e: "k t = stop e" by blast
      show ?thesis unfolding Some option.case e by (intro hc.under_preserves sat_rules)
    next
      assume "row_update t (k t)"
      then show ?thesis unfolding Some option.case by (rule under_row_update [OF ids ident])
    qed
  qed
qed

lemma row_update_tags: "row_update t (Target_AddTags t tags)" "row_update t (Target_DelTags t tags)"
proof -
  show "row_update t (Target_AddTags t tags)" unfolding row_update_def Target_AddTags_def
    by (rule exI [of _ "\<lambda>now r. r\<lparr>tg_Tags := AddTags t tags, tg_UpdateAt := now\<rparr>"]) simp
  show "row_update t (Target_DelTags t tags)" unfolding row_update_def Target_DelTags_def
    by (rule exI [of _ "\<lambda>now r. r\<lparr>tg_Tags := DelTags t tags, tg_UpdateAt := now\<rparr>"]) simp
qed

lemma keeps_tags:
  assumes "distinct (map tg_Id rows)"
  shows "keeps_hosts (tf_Idents f) g rows (targetBindTags N f)" "keeps_hosts (tf_Idents f) g rows (targetUnbindTags f)"
proof -
  have "(\<exists>e. (case duplicate_key x tags of Some e \<Rightarrow> stop (Err e) | None \<Rightarrow> Target_AddTags t tags) = stop e) \<or>
      row_update t (case duplicate_key x tags of Some e \<Rightarrow> stop (Err e) | None \<Rightarrow> Target_AddTags t tags)" for t x tags
    using row_update_tags(1) by (cases "duplicate_key x tags") auto
  then have "keeps_hosts (tf_Idents f) g rows (bind_tags (tf_Tags f) ident)" if "ident \<in> set (tf_Idents f)" for ident
    unfolding bind_tags_def by (intro keeps_found assms that)
  then show "keeps_hosts (tf_Idents f) g rows (targetBindTags N f)"
    unfolding targetBindTags_def by (intro sat_rules)
  have "keeps_hosts (tf_Idents f) g rows (unbind_tags (tf_Tags f) ident)" if "ident \<in> set (tf_Idents f)" for ident
    unfolding unbind_tags_def using row_update_tags(2) by (intro keeps_found assms that) auto
  then show "keeps_hosts (tf_Idents f) g rows (targetUnbindTags f)"
    unfolding targetUnbindTags_def by (intro sat_rules)
qed

subsection \<open>Permission\<close>

definition may_write :: "center \<Rightarrow> User \<Rightarrow> int \<Rightarrow> bool" where
  "may_write s u g \<longleftrightarrow> AdminRole \<in> roles_of u \<or>
     (\<exists>m \<in> set (ce_busi_group_member s). bgm_BusiGroupId m = g \<and> bgm_PermFlag m = ''rw'' \<and> member_of s u (bgm_UserGroupId m))"

definition host_writable :: "center \<Rightarrow> User \<Rightarrow> string \<Rightarrow> bool" where
  "host_writable s u i \<longleftrightarrow> AdminRole \<in> roles_of u \<or> (\<exists>t \<in> set (ce_target s). tg_Ident t = i \<and> may_write s u (tg_GroupId t))"

lemma may_group_write: "group_with s i = Some bg \<Longrightarrow> may_group s u [''rw''] bg \<Longrightarrow> may_write s u i"
  using first_filter by (fastforce simp: group_with_def may_group_def may_write_def flag_ok_def)

lemma nopri_idents:
  fixes s :: center and u :: User
  defines "ugids \<equiv> map ugm_GroupId (filter (\<lambda>m. ugm_UserId m = us_Id u) (ce_user_group_member s))"
  defines "bgids \<equiv> map bgm_BusiGroupId (filter (\<lambda>m. bgm_UserGroupId m \<in> set ugids \<and> flag_ok [''rw''] m) (ce_busi_group_member s))"
  assumes "AdminRole \<notin> roles_of u"
  shows "(if length ugids = 0 then idents else if length bgids = 0 then idents
      else filter (\<lambda>i. i \<notin> set (map tg_Ident (filter (\<lambda>t. tg_GroupId t \<in> set bgids) (ce_target s)))) idents) =
    filter (\<lambda>i. \<not> host_writable s u i) idents"
proof -
  have "g \<in> set ugids \<longleftrightarrow> member_of s u g" for g by (auto simp: ugids_def member_of_def)
  then have "b \<in> set bgids \<longleftrightarrow> may_write s u b" for b using assms(3) by (auto simp: bgids_def may_write_def flag_ok_def)
  then have "i \<in> set (map tg_Ident (filter (\<lambda>t. tg_GroupId t \<in> set bgids) (ce_target s))) \<longleftrightarrow> host_writable s u i" for i
    using assms(3) by (auto simp: host_writable_def)
  moreover have "ugids = [] \<Longrightarrow> bgids = []" by (simp add: bgids_def)
  ultimately show ?thesis by (cases "bgids = []") (auto simp: filter_True)
qed

lemma sees_NopriIdents:
  "sees (NopriIdents (fill_roles u) idents) (\<lambda>s. Inr (filter (\<lambda>i. \<not> host_writable s u i) idents))"
proof (cases "AdminRole \<in> roles_of u")
  case True
  then show ?thesis by (simp add: NopriIdents_def sees_ret host_writable_def)
next
  case False
  have "sees (NopriIdents (fill_roles u) idents) (\<lambda>s.
      let ugids = map ugm_GroupId (filter (\<lambda>m. ugm_UserId m = us_Id u) (ce_user_group_member s));
          bgids = map bgm_BusiGroupId (filter (\<lambda>m. bgm_UserGroupId m \<in> set ugids \<and> flag_ok [''rw''] m) (ce_busi_group_member s))
      in Inr (if length ugids = 0 then idents else if length bgids = 0 then idents
        else filter (\<lambda>i. i \<notin> set (map tg_Ident (filter (\<lambda>t. tg_GroupId t \<in> set bgids) (ce_target s)))) idents))"
    unfolding NopriIdents_def MyGroupIds_def BusiGroupIds_def Let_def
    by (rule sees_eq, (rule sees_intros)+) (simp_all add: False)
  then show ?thesis by (rule sees_eq) (simp only: Let_def nopri_idents [OF False])
qed

lemma sees_checkTargetPerm:
  assumes "gc_user c = Some (fill_roles u)"
  shows "sees (checkTargetPerm idents c) (\<lambda>s. if \<forall>i \<in> set idents. host_writable s u i then Inr ()
    else Inl (Bomb 403 (''No permission to operate the targets: '' @ Join (filter (\<lambda>i. \<not> host_writable s u i) idents) '', '')))"
proof -
  have "sees (bind_act (dangerous (NopriIdents (fill_roles u) idents)) (\<lambda>nopri. if length nopri > 0 then stop (Bomb 403 (msg nopri)) else ret ()))
      (\<lambda>s. if \<forall>i \<in> set idents. host_writable s u i then Inr () else Inl (Bomb 403 (msg (filter (\<lambda>i. \<not> host_writable s u i) idents))))" for msg
    by (rule sees_eq, (rule sees_NopriIdents sees_intros)+) (auto simp: filter_empty_conv)
  then show ?thesis unfolding checkTargetPerm_def assms must_get_def option.case bind_ret .
qed

lemma sees_IdentsFilter:
  "sees (IdentsFilter idents p) (\<lambda>s. Inr (map tg_Ident (filter (\<lambda>t. tg_Ident t \<in> set idents \<and> p t) (ce_target s))))"
  unfolding IdentsFilter_def by (rule sees_eq, (rule sees_intros)+) (auto simp: steady_def)

text \<open>What an action that starts with a check does.\<close>

lemma sees_then:
  assumes "sees m v" and "bind_act m f s = (r, s')"
  obtains (stopped) n where "s' = s\<lparr>ce_step := n\<rparr>" | (passed) x n where "v s = Inr x" "f x (s\<lparr>ce_step := n\<rparr>) = (r, s')"
proof -
  obtain y t where m: "m s = (y, t)" by (cases "m s")
  obtain n where n: "t = s\<lparr>ce_step := n\<rparr>" using reads_state [OF sees_reads [OF assms(1)] m] by blast
  show thesis
  proof (cases y)
    case (Inl e)
    then have "s' = s\<lparr>ce_step := n\<rparr>" using assms(2) m n by (simp add: bind_act_def)
    then show thesis by (rule stopped)
  next
    case (Inr x)
    then have "v s = Inr x" using sees_outcome [OF assms(1), of s] m by auto
    moreover have "f x (s\<lparr>ce_step := n\<rparr>) = (r, s')" using assms(2) m n Inr by (simp add: bind_act_def)
    ultimately show thesis by (rule passed)
  qed
qed

lemma sees_idents_given: "sees (idents_given idents) (\<lambda>s. if length idents = 0 then Inl (Bomb 400 ''idents empty'') else Inr ())"
  unfolding idents_given_def by (rule sees_intros)+

subsection \<open>What a request may change\<close>

definition hosts_ok :: "center \<Rightarrow> bool" where
  "hosts_ok s \<longleftrightarrow> distinct (map tg_Id (ce_target s)) \<and> distinct (map tg_Ident (ce_target s)) \<and> (\<forall>t \<in> set (ce_target s). 0 \<le> tg_GroupId t)"

definition rightful :: "center \<Rightarrow> User \<Rightarrow> Target list \<Rightarrow> bool" where
  "rightful s u rows' \<longleftrightarrow>
     (\<forall>t' \<in> set rows'. t' \<in> set (ce_target s) \<or> (\<exists>t \<in> set (ce_target s). tg_Id t' = tg_Id t \<and> tg_Ident t' = tg_Ident t \<and>
        may_write s u (tg_GroupId t) \<and> (tg_GroupId t' \<in> {tg_GroupId t, 0} \<or> may_write s u (tg_GroupId t')))) \<and>
     (\<forall>t \<in> set (ce_target s). t \<in> set rows' \<or> may_write s u (tg_GroupId t))"

lemma rightful_refl: "rightful s u (ce_target s)"
  by (simp add: rightful_def)

lemma rightful_changes:
  assumes "host_changes idents g (ce_target s) rows'"
    and "\<And>t. t \<in> set (ce_target s) \<Longrightarrow> tg_Ident t \<in> set idents \<Longrightarrow> may_write s u (tg_GroupId t)"
    and "\<And>t b. t \<in> set (ce_target s) \<Longrightarrow> tg_Ident t \<in> set idents \<Longrightarrow> g = Some b \<Longrightarrow> b = 0 \<or> may_write s u b"
  shows "rightful s u rows'"
  using assms unfolding rightful_def host_changes_def by (metis insert_iff)

lemma writable_rows:
  assumes "hosts_ok s" and "\<forall>i \<in> set idents. host_writable s u i" and "t \<in> set (ce_target s)" "tg_Ident t \<in> set idents"
  shows "may_write s u (tg_GroupId t)"
proof (cases "AdminRole \<in> roles_of u")
  case True
  then show ?thesis by (simp add: may_write_def)
next
  case False
  then obtain x where "x \<in> set (ce_target s)" "tg_Ident x = tg_Ident t" "may_write s u (tg_GroupId x)"
    using assms(2,4) by (auto simp: host_writable_def)
  moreover have "x = t" using calculation(1,2) assms(1,3) by (simp add: hosts_ok_def distinct_map inj_on_def)
  ultimately show ?thesis by simp
qed

lemma keeps_hosts_run:
  assumes "keeps_hosts idents g (ce_target s) m" and "m (s\<lparr>ce_step := n\<rparr>) = (r, s')"
  shows "host_changes idents g (ce_target s) (ce_target s')"
  using assms host_changes_refl unfolding preserves_def by (metis center.select_convs(9) center.update_convs(22) center.surjective snd_conv)

lemma keeps_render: "keeps_hosts idents g rows m \<Longrightarrow> keeps_hosts idents g rows (render_message m)"
  unfolding render_message_def by (intro sat_rules)

text \<open>A handler that checks the named hosts first.\<close>

lemma rightful_checked:
  assumes s: "hosts_ok s" and c: "gc_user c = Some (fill_roles u)" and m: "keeps_hosts idents None (ce_target s) m"
    and run: "bind_act (idents_given idents) (\<lambda>_. bind_act (checkTargetPerm idents c) (\<lambda>_. m)) (s\<lparr>ce_step := n0\<rparr>) = (r, s')"
  shows "rightful s u (ce_target s')"
proof (rule sees_then [OF sees_idents_given run])
  show "rightful s u (ce_target s')" if "s' = s\<lparr>ce_step := n0, ce_step := n\<rparr>" for n using that rightful_refl [of s u] by simp
  fix x n
  assume "bind_act (checkTargetPerm idents c) (\<lambda>_. m) (s\<lparr>ce_step := n0, ce_step := n\<rparr>) = (r, s')"
  then show "rightful s u (ce_target s')"
  proof (rule sees_then [OF sees_checkTargetPerm [OF c]])
    show ?thesis if "s' = s\<lparr>ce_step := n0, ce_step := n, ce_step := k\<rparr>" for k using that rightful_refl [of s u] by simp
    fix y k
    assume v: "(if \<forall>i \<in> set idents. host_writable (s\<lparr>ce_step := n0, ce_step := n\<rparr>) u i then Inr () else Inl (Bomb 403 (''No permission to operate the targets: '' @
        Join (filter (\<lambda>i. \<not> host_writable (s\<lparr>ce_step := n0, ce_step := n\<rparr>) u i) idents) '', ''))) = Inr y"
      and "m (s\<lparr>ce_step := n0, ce_step := n, ce_step := k\<rparr>) = (r, s')"
    then have "host_changes idents None (ce_target s) (ce_target s')" using keeps_hosts_run [OF m, of k] by simp
    moreover have "\<forall>i \<in> set idents. host_writable s u i"
      using v by (auto simp: host_writable_def may_write_def split: if_splits)
    ultimately show ?thesis using writable_rows [OF s] by (intro rightful_changes) auto
  qed
qed

definition bgid_rights :: "center \<Rightarrow> User \<Rightarrow> string list \<Rightarrow> int \<Rightarrow> bool" where
  "bgid_rights s u idents bgid \<longleftrightarrow>
     (\<forall>t \<in> set (ce_target s). tg_Ident t \<in> set idents \<longrightarrow> may_write s u (tg_GroupId t) \<and> (bgid = 0 \<or> may_write s u bgid))"

lemma sees_router_BusiGroup:
  "sees (router_BusiGroup i) (\<lambda>s. case group_with s i of None \<Rightarrow> Inl (Bomb 404 ''No such BusiGroup'') | Some bg \<Rightarrow> Inr bg)"
  unfolding router_BusiGroup_def by (rule sees_load [OF sees_lookups(3)])

lemma rights_of_groups:
  assumes s: "hosts_ok s"
    and o: "filter (\<lambda>t. tg_Ident t \<in> set idents \<and> tg_GroupId t = 0) (ce_target s) = []"
    and b: "filter (\<lambda>t. tg_Ident t \<in> set idents \<and> tg_GroupId t > 0) (ce_target s) = [] \<or>
      ((\<forall>i \<in> set idents. host_writable s u i) \<and> may_write s u bgid)"
  shows "bgid_rights s u idents bgid"
  unfolding bgid_rights_def
proof (intro ballI impI)
  fix t
  assume t: "t \<in> set (ce_target s)" "tg_Ident t \<in> set idents"
  then have "tg_GroupId t > 0" using s o by (force simp: hosts_ok_def filter_empty_conv)
  then have "(\<forall>i \<in> set idents. host_writable s u i) \<and> may_write s u bgid" using b t by (auto simp: filter_empty_conv)
  then show "may_write s u (tg_GroupId t) \<and> (bgid = 0 \<or> may_write s u bgid)" using writable_rows [OF s] t by blast
qed

lemma check_bgid_rights:
  assumes c: "gc_user c = Some (fill_roles u)" and admin: "AdminRole \<notin> roles_of u"
  obtains v where "sees (check_bgid idents bgid (fill_roles u) c) v" "\<And>s. v s = Inr () \<Longrightarrow> hosts_ok s \<Longrightarrow> bgid_rights s u idents bgid"
proof -
  let ?o = "\<lambda>s. map tg_Ident (filter (\<lambda>t. tg_Ident t \<in> set idents \<and> tg_GroupId t = 0) (ce_target s))"
  let ?b = "\<lambda>s. map tg_Ident (filter (\<lambda>t. tg_Ident t \<in> set idents \<and> tg_GroupId t > 0) (ce_target s))"
  obtain v1 where v1: "sees (checkTargetPerm idents c) v1" "\<And>s. v1 s = Inr () \<longleftrightarrow> (\<forall>i \<in> set idents. host_writable s u i)"
    using sees_checkTargetPerm [OF c, of idents] by (rule that) simp
  obtain v2 where v2: "sees (bind_act (router_BusiGroup bgid) (\<lambda>bg. bind_act (dangerous (CanDoBusiGroup (fill_roles u) bg [''rw'']))
      (\<lambda>can. if \<not> can then stop (Bomb 403 (''No permission. You are not admin of BG('' @ bg_Name bg @ '')'')) else ret ()))) v2"
    "\<And>s. v2 s = Inr () \<Longrightarrow> may_write s u bgid"
  proof -
    have "sees (bind_act (router_BusiGroup bgid) (\<lambda>bg. bind_act (dangerous (CanDoBusiGroup (fill_roles u) bg [''rw'']))
        (\<lambda>can. if \<not> can then stop (Bomb 403 (msg bg)) else ret ())))
      (\<lambda>s. case group_with s bgid of None \<Rightarrow> Inl (Bomb 404 ''No such BusiGroup'')
        | Some bg \<Rightarrow> if may_group s u [''rw''] bg then Inr () else Inl (Bomb 403 (msg bg)))" for msg
      by (rule sees_eq, (rule sees_router_BusiGroup sees_CanDoBusiGroup sees_intros)+) (simp split: option.split)
    then show thesis by (rule that) (auto split: option.splits if_splits intro: may_group_write)
  qed
  have "sees (check_bgid idents bgid (fill_roles u) c) (\<lambda>s.
      if bgid > 0 then (if ?o s \<noteq> [] then Inl (Bomb 403 ''No permission. Only admin can assign BG'')
        else if ?b s \<noteq> [] then (case v1 s of Inl e \<Rightarrow> Inl e | Inr _ \<Rightarrow> v2 s) else Inr ())
      else if bgid = 0 then v1 s else Inl (Bomb 400 ''invalid bgid''))"
    unfolding check_bgid_def
    by (rule sees_eq, (rule sees_IdentsFilter v1(1) v2(1) sees_intros)+) (simp add: admin)
  then show thesis
  proof (rule that)
    fix s
    assume "(if bgid > 0 then (if ?o s \<noteq> [] then Inl (Bomb 403 ''No permission. Only admin can assign BG'')
        else if ?b s \<noteq> [] then (case v1 s of Inl e \<Rightarrow> Inl e | Inr _ \<Rightarrow> v2 s) else Inr ())
      else if bgid = 0 then v1 s else Inl (Bomb 400 ''invalid bgid'')) = Inr ()" and s: "hosts_ok s"
    then consider "bgid > 0" "?o s = []" "?b s = [] \<or> (v1 s = Inr () \<and> v2 s = Inr ())" | "bgid = 0" "v1 s = Inr ()"
      by (auto split: if_splits sum.splits)
    then show "bgid_rights s u idents bgid"
    proof cases
      case 1
      then show ?thesis using v1(2) v2(2) by (intro rights_of_groups [OF s]) auto
    next
      case 2
      then show ?thesis using v1(2) writable_rows [OF s] by (auto simp: bgid_rights_def)
    qed
  qed
qed

lemma bgid_rights_step [simp]: "bgid_rights (s\<lparr>ce_step := n\<rparr>) u idents bgid = bgid_rights s u idents bgid" "hosts_ok (s\<lparr>ce_step := n\<rparr>) = hosts_ok s"
  by (simp_all add: bgid_rights_def hosts_ok_def may_write_def)

lemma rightful_bgid:
  assumes s: "hosts_ok s" and c: "gc_user c = Some (fill_roles u)"
    and run: "targetUpdateBgid idents bgid c (s\<lparr>ce_step := n0\<rparr>) = (r, s')"
  shows "rightful s u (ce_target s')"
proof -
  let ?m = "render_message (TargetUpdateBgid idents bgid False)"
  have m: "keeps_hosts idents (Some bgid) (ce_target s) ?m" by (intro keeps_render keeps_statements refl)
  have finish: "rightful s u (ce_target s')" if "?m (s\<lparr>ce_step := k\<rparr>) = (r, s')" "bgid_rights s u idents bgid" for k
    using rightful_changes [OF keeps_hosts_run [OF m that(1)]] that(2) unfolding bgid_rights_def by blast
  have "bind_act (idents_given idents) (\<lambda>_. if IsAdmin (fill_roles u) then ?m
      else bind_act (check_bgid idents bgid (fill_roles u) c) (\<lambda>_. ?m)) (s\<lparr>ce_step := n0\<rparr>) = (r, s')"
    using run unfolding targetUpdateBgid_def c must_get_def option.case bind_ret .
  then show ?thesis
  proof (rule sees_then [OF sees_idents_given])
    show ?thesis if "s' = s\<lparr>ce_step := n0, ce_step := n\<rparr>" for n using that rightful_refl [of s u] by simp
    fix x n
    assume go: "(if IsAdmin (fill_roles u) then ?m else bind_act (check_bgid idents bgid (fill_roles u) c) (\<lambda>_. ?m)) (s\<lparr>ce_step := n0, ce_step := n\<rparr>) = (r, s')"
    show ?thesis
    proof (cases "AdminRole \<in> roles_of u")
      case True
      then show ?thesis using go finish [of n] by (simp add: bgid_rights_def may_write_def)
    next
      case False
      obtain v where v: "sees (check_bgid idents bgid (fill_roles u) c) v" "\<And>s. v s = Inr () \<Longrightarrow> hosts_ok s \<Longrightarrow> bgid_rights s u idents bgid"
        using check_bgid_rights [OF c False] by blast
      have "bind_act (check_bgid idents bgid (fill_roles u) c) (\<lambda>_. ?m) (s\<lparr>ce_step := n\<rparr>) = (r, s')" using go False by simp
      then show ?thesis
      proof (rule sees_then [OF v(1)])
        show ?thesis if "s' = s\<lparr>ce_step := n, ce_step := k\<rparr>" for k using that rightful_refl [of s u] by simp
        show ?thesis if "v (s\<lparr>ce_step := n\<rparr>) = Inr y" "?m (s\<lparr>ce_step := n, ce_step := k\<rparr>) = (r, s')" for y k
          using finish [of k] v(2) [of "s\<lparr>ce_step := n\<rparr>"] that s by simp
      qed
    qed
  qed
qed

lemma rightful_handler:
  assumes s: "hosts_ok s" and c: "gc_user c = Some (fill_roles u)" and run: "host_handler N call c (s\<lparr>ce_step := n\<rparr>) = (r, s')"
  shows "rightful s u (ce_target s')"
proof -
  have ids: "distinct (map tg_Id (ce_target s))" using s by (simp add: hosts_ok_def)
  note checked = rightful_checked [OF s c] keeps_render keeps_statements keeps_tags [OF ids]
  show ?thesis
  proof (cases call)
    case (Targets_delete idents)
    then show ?thesis using run checked(1) [OF checked(2) [OF checked(3)]] by (simp add: targetDel_def)
  next
    case (Tags_post f)
    then show ?thesis using run checked(1) [OF checked(2) [OF checked(6)]] by (simp add: targetBindTagsByFE_def)
  next
    case (Tags_delete f)
    then show ?thesis using run checked(1) [OF checked(2) [OF checked(7)]] by (simp add: targetUnbindTagsByFE_def)
  next
    case (Note_put idents remark)
    then show ?thesis using run checked(1) [OF checked(2) [OF checked(4)]] by (simp add: targetUpdateNote_def)
  next
    case (Bgid_put idents bgid)
    then show ?thesis using run rightful_bgid [OF s c] by simp
  qed
qed

lemma mw_user: "mw rq Mw_user = user_mw" "mw rq (Mw_perm oper) = perm oper"
  by (rule ext, simp)+

text \<open>C14. A request on the pages for hosts leaves the table of hosts as it was, or it belongs to a user
  whose role allows the operation; then every host that is changed or deleted was in a business group
  the user may write, keeps its identifiers, and stays in its group, returns to no group or moves to
  a group the user may write as well. Hosts without a group are left to the administrators.\<close>

theorem hosts_guarded:
  assumes "\<not> hc_ProxyAuth_Enable (cr_http R)" and "hosts_ok s" and "serve_host R N rq call s = (r, s')"
  shows "ce_target s' = ce_target s \<or>
    (\<exists>uid un u. session R rq s = Some (uid, un) \<and> user_with s uid = Some u \<and> may_operate s u (host_operation call) \<and>
       rightful s u (ce_target s'))"
proof -
  let ?gs = "[Mw_user, Mw_perm (host_operation call)]"
  have serve: "serve_host R N rq call s = chain (auth R rq # map (mw rq) ?gs) (host_handler N call) s"
    by (simp add: serve_host_def mw_user)
  from chain_outcome [OF assms(1), of ?gs rq "host_handler N call" s]
  show ?thesis
  proof
    assume "\<exists>c n uid un. chain (auth R rq # map (mw rq) ?gs) (host_handler N call) s = host_handler N call c (s\<lparr>ce_step := n\<rparr>) \<and>
       ce_step s \<le> n \<and> ctx_ok s rq uid c \<and> (?gs \<noteq> [] \<longrightarrow> gc_user c \<noteq> None) \<and> session R rq s = Some (uid, un) \<and> (\<forall>g \<in> set ?gs. grants s rq uid g)"
    then obtain c n uid un where c: "host_handler N call c (s\<lparr>ce_step := n\<rparr>) = (r, s')" "ctx_ok s rq uid c" "gc_user c \<noteq> None"
      and u: "session R rq s = Some (uid, un)" "grants s rq uid (Mw_perm (host_operation call))"
      using assms(3) unfolding serve by auto
    obtain u where "user_with s uid = Some u" "gc_user c = Some (fill_roles u)" using c(2,3) by (auto simp: ctx_ok_def)
    moreover from this have "rightful s u (ce_target s')" using rightful_handler [OF assms(2) _ c(1)] by blast
    ultimately show ?thesis using u by (auto simp: grants_def)
  qed (use assms(3) in \<open>auto simp: serve refused_def opens_def\<close>)
qed

definition sample_machine :: Target where
  "sample_machine = \<lparr>tg_Id = 1, tg_GroupId = 5, tg_GroupObj = None, tg_Ident = ''h1'', tg_Note = '''', tg_Tags = '''', tg_TagsJSON = [],
     tg_TagsMap = [], tg_UpdateAt = 0, tg_HostIp = '''', tg_UnixTime = 0, tg_Offset = 0, tg_TargetUp = Finite 0, tg_MemUtil = Finite 0,
     tg_CpuNum = 0, tg_CpuUtil = Finite 0, tg_OS = '''', tg_Arch = '''', tg_RemoteAddr = ''''\<rparr>"

definition sample_hosts :: center where
  "sample_hosts = (sample_center ''u'' [(''/jwt/u'', (''7-bob'', None))])\<lparr>ce_target := [sample_machine],
     ce_role_operation := [\<lparr>op_RoleName = ''Standard'', op_Operation = ''/targets/put''\<rparr>]\<rparr>"

definition sample_names_any :: prom_names where
  "sample_names_any = \<lparr>pn_MetricNameRE = (\<lambda>x. True), pn_LabelNameRE = (\<lambda>x. True)\<rparr>"

definition sample_noted :: center where
  "sample_noted = snd (serve_host sample_crouter sample_names_any (sample_request sample_token) (Note_put [''h1''] ''x'') sample_hosts)"

theorem hosts_guarded_witness:
  "map tg_Note (ce_target sample_noted) = [''x''] \<and> may_operate sample_hosts sample_user ''/targets/put'' \<and>
   rightful sample_hosts sample_user (ce_target sample_noted)"
proof -
  have "\<not> hc_ProxyAuth_Enable (cr_http sample_crouter)" "hosts_ok sample_hosts"
    by (simp_all add: sample_crouter_def sample_conf_def hosts_ok_def sample_hosts_def sample_machine_def)
  moreover have n: "map tg_Note (ce_target sample_noted) = [''x'']" "map tg_Note (ce_target sample_hosts) = ['''']" by code_simp+
  moreover have "user_with sample_hosts 7 = Some sample_user" by code_simp
  moreover have "session sample_crouter (sample_request sample_token) sample_hosts = Some (7, ''bob'')" by code_simp
  ultimately show ?thesis
    using hosts_guarded [of sample_crouter sample_hosts sample_names_any "sample_request sample_token" "Note_put [''h1''] ''x''"
        "fst (serve_host sample_crouter sample_names_any (sample_request sample_token) (Note_put [''h1''] ''x'') sample_hosts)" sample_noted]
    by (auto simp: sample_noted_def)
qed

text \<open>Binding a tag compares its key with the first tag of the host only: a second value of another key is accepted.\<close>

lemma duplicate_key_missed:
  "duplicate_key ''a=1 b=1 '' [''b=2''] = None" "AddTags (sample_machine\<lparr>tg_Tags := ''a=1 b=1 ''\<rparr>) [''b=2''] = ''a=1 b=1 b=2 ''"
  by code_simp+

end
