(* ===== verification/Rule_Tables.thy ===== *)
theory Rule_Tables
  imports Center_Handlers Recording
begin

text \<open>
  The tables of alerting rules, mutes, subscriptions and recording rules: the operations of
  \<open>models/alert_rule.go\<close>, \<open>alert_mute.go\<close>, \<open>alert_subscribe.go\<close> and \<open>recording_rule.go\<close> that the web pages
  call. A row holds the columns of its struct; the fields for the front end are empty in a row and
  filled when it is read. The JSON codecs of the columns and what the database stores when a named
  column is set to a decoded value are arguments (\<open>rule_lib\<close>). Encoding a decoded value does not fail.
\<close>

subsection \<open>Codecs and statements\<close>

record Trigger =
  trg_Expressions :: json
  trg_Mode :: int
  trg_Exp :: string
  trg_Severity :: int

record RuleQuery =
  rqu_Queries :: "json list"
  rqu_Triggers :: "Trigger list"

text \<open>
  A decoder with a destination returns the error, if there is one, and the destination after it.
  \<open>rl_int\<close> is the integer part of a JSON number.
\<close>

record rule_lib =
  rl_lib :: lib
  rl_int :: "string \<Rightarrow> int"
  rl_marshal_ints :: "int list \<Rightarrow> string"
  rl_unmarshal_ints :: "string \<Rightarrow> int list \<Rightarrow> string option \<times> int list"
  rl_marshal_strings :: "string list \<Rightarrow> string"
  rl_unmarshal_strings :: "string \<Rightarrow> string list \<Rightarrow> string option \<times> string list"
  rl_marshal_periodic :: "PeriodicMute list \<Rightarrow> string"
  rl_unmarshal_periodic :: "string \<Rightarrow> PeriodicMute list \<Rightarrow> string option \<times> PeriodicMute list"
  rl_unmarshal_json :: "string \<Rightarrow> json \<Rightarrow> string option \<times> json"
  rl_decode_strmap :: "string \<Rightarrow> (string, string) go_map \<Rightarrow> string + (string, string) go_map"
  rl_marshal_prom :: "PromRuleConfig \<Rightarrow> string"
  rl_decode_prom :: "string \<Rightarrow> string + PromRuleConfig"
  rl_marshal_host :: "HostRuleConfig \<Rightarrow> string"
  rl_decode_host :: "string \<Rightarrow> string + HostRuleConfig"
  rl_marshal_query :: "RuleQuery \<Rightarrow> string"
  rl_decode_query :: "string \<Rightarrow> string + RuleQuery"
  rl_records :: record_codec
  rl_names :: prom_names
  rl_i18n :: "string \<Rightarrow> string \<Rightarrow> string"
  rl_rule_column :: "string \<Rightarrow> json \<Rightarrow> AlertRule \<Rightarrow> AlertRule option"
  rl_mute_column :: "string \<Rightarrow> json \<Rightarrow> AlertMute \<Rightarrow> AlertMute option"
  rl_record_column :: "string \<Rightarrow> json \<Rightarrow> RecordingRule \<Rightarrow> RecordingRule option"

definition panicking :: "'a res \<Rightarrow> 'a center_act" where
  "panicking r = (case r of Inl p \<Rightarrow> stop (Crash p) | Inr x \<Rightarrow> ret x)"

definition checked :: "string + 'a \<Rightarrow> 'a center_act" where
  "checked r = (case r of Inl e \<Rightarrow> stop (Err e) | Inr x \<Rightarrow> ret x)"

text \<open>\<^verbatim>\<open>strconv.ParseInt\<close> with its error ignored: zero, or the nearest number of 64 bits.\<close>

definition parse_id :: "string \<Rightarrow> int" where
  "parse_id g =
     (let (neg, ds) = (case g of [] \<Rightarrow> (False, g) | c # cs \<Rightarrow>
        if c = CHR ''-'' then (True, cs) else if c = CHR ''+'' then (False, cs) else (False, g))
      in case read_digits ds of None \<Rightarrow> 0
         | Some n \<Rightarrow> if neg then max (- int n) (- (2 ^ 63)) else min (int n) (2 ^ 63 - 1))"

text \<open>A new row: the database chooses an identifier where none is given and refuses a second row with the same.\<close>

definition add_row :: "(center \<Rightarrow> 'r list) \<Rightarrow> ('r list \<Rightarrow> center \<Rightarrow> center) \<Rightarrow> ('r \<Rightarrow> int) \<Rightarrow> (int \<Rightarrow> 'r \<Rightarrow> 'r) \<Rightarrow> 'r \<Rightarrow> unit center_act" where
  "add_row table put key set_key r = statement (\<lambda>a s.
     let i = (if key r = 0 then an_id a else key r) in
     if i \<in> set (map key (table s)) then (Inl (Err ''Duplicate entry for key PRIMARY''), s)
     else (Inr (), put (table s @ [set_key i r]) s))"

definition update_rule :: "int \<Rightarrow> (AlertRule \<Rightarrow> AlertRule) \<Rightarrow> unit center_act" where
  "update_rule i f = execute (\<lambda>s. s\<lparr>ce_alert_rule := update_where (\<lambda>r. ar_Id r = i) f (ce_alert_rule s)\<rparr>)"

text \<open>Setting a column by its name fails when there is no such column or the value does not fit.\<close>

definition set_columns :: "(string \<Rightarrow> json \<Rightarrow> 'r \<Rightarrow> 'r option) \<Rightarrow> (string \<times> json) list \<Rightarrow> 'r \<Rightarrow> 'r option" where
  "set_columns col kvs r = fold (\<lambda>(k, v) x. Option.bind x (col k v)) kvs (Some r)"

definition update_columns :: "(center \<Rightarrow> 'r list) \<Rightarrow> ('r list \<Rightarrow> center \<Rightarrow> center) \<Rightarrow> ('r \<Rightarrow> bool) \<Rightarrow> ('r \<Rightarrow> 'r option) \<Rightarrow> unit center_act" where
  "update_columns table put p f = statement (\<lambda>a s.
     if list_ex (\<lambda>r. p r \<and> f r = None) (table s) then (Inl (Err ''invalid column or value''), s)
     else (Inr (), put (update_where p (\<lambda>r. the (f r)) (table s)) s))"

text \<open>The count and the latest change, from the column \<^verbatim>\<open>update_at\<close>; there is none in an empty table.\<close>

definition stat_of :: "int list \<Rightarrow> Statistics" where
  "stat_of ts = \<lparr>st_Total = int (length ts), st_LastUpdated = (case ts of [] \<Rightarrow> 0 | t # ts \<Rightarrow> fold max ts t)\<rparr>"

subsection \<open>Alerting rules: front end and columns\<close>

definition rule_row :: "AlertRule \<Rightarrow> AlertRule" where
  "rule_row ar = ar\<lparr>ar_DatasourceIdsJson := [], ar_AlgoParamsJson := JNull, ar_Severities := [], ar_RuleConfigJson := JNull,
     ar_EnableStimeJSON := '''', ar_EnableStimesJSON := [], ar_EnableEtimeJSON := '''', ar_EnableEtimesJSON := [],
     ar_EnableDaysOfWeekJSON := [], ar_EnableDaysOfWeeksJSON := [], ar_NotifyChannelsJSON := [], ar_NotifyGroupsObj := [],
     ar_NotifyGroupsJSON := [], ar_CallbacksJSON := [], ar_AppendTagsJSON := [], ar_AnnotationsJSON := [], ar_ExtraConfigJSON := JNull\<rparr>"

fun days_loop :: "string \<Rightarrow> string list list \<Rightarrow> string" where
  "days_loop acc [] = acc"
| "days_loop acc [w] = acc @ Join w '' ''"
| "days_loop acc (w # ws) = days_loop (acc @ Join w '' '' @ '';'') ws"

definition single_query :: "string \<Rightarrow> int \<Rightarrow> json" where
  "single_query promQl severity = JObj [(''queries'', JArr [JObj [(''prom_ql'', JStr promQl), (''severity'', JNum (Itoa severity))]]),
     (''inhibit'', JBool False), (''prom_ql'', JStr ''''), (''severity'', JNum ''0''), (''algo_params'', JNull)]"

text \<open>The steps of \<^verbatim>\<open>FE2DB\<close>, in the order of the code; the first list of week days replaces what was there, several are appended.\<close>

definition fe_times :: "AlertRule \<Rightarrow> AlertRule" where
  "fe_times a = (if length (ar_EnableStimesJSON a) > 0
     then a\<lparr>ar_EnableStime := Join (ar_EnableStimesJSON a) '' '', ar_EnableEtime := Join (ar_EnableEtimesJSON a) '' ''\<rparr>
     else a\<lparr>ar_EnableStime := ar_EnableStimeJSON a, ar_EnableEtime := ar_EnableEtimeJSON a\<rparr>)"

definition fe_days :: "AlertRule \<Rightarrow> AlertRule" where
  "fe_days a = (let days = ar_EnableDaysOfWeeksJSON a in a\<lparr>ar_EnableDaysOfWeek :=
     (if length days > 0
      then if length days = 1 then Join (days ! 0) '' '' else days_loop (ar_EnableDaysOfWeek a) days
      else Join (ar_EnableDaysOfWeekJSON a) '' '')\<rparr>)"

definition fe_lists :: "rule_lib \<Rightarrow> AlertRule \<Rightarrow> AlertRule" where
  "fe_lists L a = a\<lparr>ar_NotifyChannels := Join (ar_NotifyChannelsJSON a) '' '', ar_NotifyGroups := Join (ar_NotifyGroupsJSON a) '' '',
     ar_Callbacks := Join (ar_CallbacksJSON a) '' '', ar_AppendTags := Join (ar_AppendTagsJSON a) '' '',
     ar_AlgoParams := lib_marshal (rl_lib L) (ar_AlgoParamsJson a)\<rparr>"

definition fe_datasources :: "rule_lib \<Rightarrow> AlertRule \<Rightarrow> AlertRule" where
  "fe_datasources L a = (if length (ar_DatasourceIdsJson a) > 0 then a\<lparr>ar_DatasourceIds := rl_marshal_ints L (ar_DatasourceIdsJson a)\<rparr> else a)"

definition fe_config :: "rule_lib \<Rightarrow> AlertRule \<Rightarrow> AlertRule" where
  "fe_config L a =
     (let a1 = (if ar_RuleConfigJson a = JNull then a\<lparr>ar_RuleConfigJson := single_query (ar_PromQl a) (ar_Severity a)\<rparr> else a)
      in if ar_RuleConfigJson a1 \<noteq> JNull
         then a1\<lparr>ar_RuleConfig := lib_marshal (rl_lib L) (ar_RuleConfigJson a1), ar_PromQl := ''''\<rparr> else a1)"

text \<open>\<open>annotated\<close> tells whether the body had annotations at all (the map is not nil).\<close>

definition fe_annotations :: "rule_lib \<Rightarrow> bool \<Rightarrow> AlertRule \<Rightarrow> AlertRule" where
  "fe_annotations L annotated a =
     (if annotated then a\<lparr>ar_Annotations := lib_marshal (rl_lib L) (json_of_strmap (ar_AnnotationsJSON a))\<rparr> else a)"

definition fe_extra :: "rule_lib \<Rightarrow> AlertRule \<Rightarrow> AlertRule" where
  "fe_extra L a = (if ar_ExtraConfigJSON a \<noteq> JNull then a\<lparr>ar_ExtraConfig := lib_marshal (rl_lib L) (ar_ExtraConfigJSON a)\<rparr> else a)"

definition AlertRule_FE2DB :: "rule_lib \<Rightarrow> bool \<Rightarrow> AlertRule \<Rightarrow> AlertRule" where
  "AlertRule_FE2DB L annotated a =
     fe_extra L (fe_annotations L annotated (fe_config L (fe_datasources L (fe_lists L (fe_days (fe_times a))))))"

definition AlertRule_FillDatasourceIds :: "rule_lib \<Rightarrow> AlertRule \<Rightarrow> AlertRule" where
  "AlertRule_FillDatasourceIds L ar =
     (if ar_DatasourceIds ar \<noteq> '''' then ar\<lparr>ar_DatasourceIdsJson := snd (rl_unmarshal_ints L (ar_DatasourceIds ar) (ar_DatasourceIdsJson ar))\<rparr>
      else ar)"

text \<open>The first start time is read as soon as there is an end time.\<close>

definition db_times :: "AlertRule \<Rightarrow> AlertRule res" where
  "db_times a0 =
     (let a1 = a0\<lparr>ar_EnableStimesJSON := Fields (ar_EnableStime a0), ar_EnableEtimesJSON := Fields (ar_EnableEtime a0)\<rparr> in
      if length (ar_EnableEtimesJSON a1) > 0
      then if length (ar_EnableStimesJSON a1) = 0 then Inl Index_out_of_range
        else Inr (a1\<lparr>ar_EnableStimeJSON := ar_EnableStimesJSON a1 ! 0, ar_EnableEtimeJSON := ar_EnableEtimesJSON a1 ! 0\<rparr>)
      else Inr a1)"

definition db_days :: "AlertRule \<Rightarrow> AlertRule" where
  "db_days a0 =
     (let a1 = a0\<lparr>ar_EnableDaysOfWeeksJSON := ar_EnableDaysOfWeeksJSON a0 @ map Fields (Split (ar_EnableDaysOfWeek a0) '';'')\<rparr>
      in if length (ar_EnableDaysOfWeeksJSON a1) > 0 then a1\<lparr>ar_EnableDaysOfWeekJSON := ar_EnableDaysOfWeeksJSON a1 ! 0\<rparr> else a1)"

definition db_lists :: "rule_lib \<Rightarrow> AlertRule \<Rightarrow> AlertRule" where
  "db_lists L a = a\<lparr>ar_NotifyChannelsJSON := Fields (ar_NotifyChannels a), ar_NotifyGroupsJSON := Fields (ar_NotifyGroups a),
     ar_CallbacksJSON := Fields (ar_Callbacks a), ar_AppendTagsJSON := Fields (ar_AppendTags a),
     ar_AlgoParamsJson := lib_unmarshal (rl_lib L) (ar_AlgoParams a) (ar_AlgoParamsJson a),
     ar_RuleConfigJson := lib_unmarshal (rl_lib L) (ar_RuleConfig a) (ar_RuleConfigJson a),
     ar_AnnotationsJSON := lib_unmarshal_strmap (rl_lib L) (ar_Annotations a) (ar_AnnotationsJSON a),
     ar_ExtraConfigJSON := lib_unmarshal (rl_lib L) (ar_ExtraConfig a) (ar_ExtraConfigJSON a)\<rparr>"

definition AlertRule_DB2FE :: "rule_lib \<Rightarrow> AlertRule \<Rightarrow> AlertRule res" where
  "AlertRule_DB2FE L a = res_bind (db_times a) (\<lambda>a1. Inr (AlertRule_FillDatasourceIds L (db_lists L (db_days a1))))"

definition FillSeverities :: "rule_lib \<Rightarrow> AlertRule \<Rightarrow> AlertRule" where
  "FillSeverities L ar =
     (if ar_RuleConfig ar = '''' then ar
      else if ar_Cate ar = PROMETHEUS \<or> ar_Cate ar = LOKI then
        (case rl_decode_prom L (ar_RuleConfig ar) of Inl e \<Rightarrow> ar
         | Inr rule \<Rightarrow>
            if length (prc_Queries rule) = 0 then ar\<lparr>ar_Severities := ar_Severities ar @ [prc_Severity rule]\<rparr>
            else ar\<lparr>ar_Severities := ar_Severities ar @ map pq_Severity (prc_Queries rule)\<rparr>)
      else (case rl_decode_host L (ar_RuleConfig ar) of Inl e \<Rightarrow> ar
         | Inr rule \<Rightarrow> ar\<lparr>ar_Severities := ar_Severities ar @ map htr_Severity (hrc_Triggers rule)\<rparr>))"

subsection \<open>Alerting rules: statements\<close>

text \<open>
  The teams named in a column, looked up one after the other with a cache. The outcome is the error
  that ended the loop, the names kept, the teams found, whether one was missing, and the cache.
\<close>

fun fill_groups :: "string list \<Rightarrow> string list \<Rightarrow> UserGroup list \<Rightarrow> bool \<Rightarrow> (int, UserGroup) go_map
    \<Rightarrow> (string option \<times> string list \<times> UserGroup list \<times> bool \<times> (int, UserGroup) go_map) center_act" where
  "fill_groups [] exists objs del cache = ret (None, exists, objs, del, cache)"
| "fill_groups (g # gs) exists objs del cache =
     (case go_get cache (parse_id g) of
        Some ug \<Rightarrow> fill_groups gs (exists @ [g]) (objs @ [ug]) del cache
      | None \<Rightarrow> bind_act (attempt (UserGroupGetById (parse_id g))) (\<lambda>r.
          case r of Inl e \<Rightarrow> ret (Some e, exists, objs, del, cache)
          | Inr None \<Rightarrow> fill_groups gs exists objs True cache
          | Inr (Some ug) \<Rightarrow> fill_groups gs (exists @ [g]) (objs @ [ug]) del (go_set (parse_id g) ug cache)))"

definition AlertRule_FillNotifyGroups :: "AlertRule \<Rightarrow> (int, UserGroup) go_map \<Rightarrow> (string option \<times> AlertRule \<times> (int, UserGroup) go_map) center_act" where
  "AlertRule_FillNotifyGroups ar cache =
     (if length (ar_NotifyGroupsJSON ar) = 0 then ret (None, ar\<lparr>ar_NotifyGroupsObj := []\<rparr>, cache)
      else bind_act (fill_groups (ar_NotifyGroupsJSON ar) [] (ar_NotifyGroupsObj ar) False cache) (\<lambda>(err, exists, objs, del, cache1).
        let ar1 = ar\<lparr>ar_NotifyGroupsObj := objs\<rparr> in
        if err \<noteq> None then ret (err, ar1, cache1)
        else if del then
          (let ar2 = ar1\<lparr>ar_NotifyGroupsJSON := exists, ar_NotifyGroups := Join exists '' ''\<rparr> in
           bind_act (attempt (update_rule (ar_Id ar) (\<lambda>r. r\<lparr>ar_NotifyGroups := ar_NotifyGroups ar2\<rparr>))) (\<lambda>_. ret (None, ar2, cache1)))
        else ret (None, ar1, cache1)))"

definition AlertRuleExists :: "rule_lib \<Rightarrow> int \<Rightarrow> int \<Rightarrow> int list \<Rightarrow> string \<Rightarrow> bool center_act" where
  "AlertRuleExists L i groupId datasourceIds name =
     bind_act (Find ce_alert_rule (\<lambda>r. ar_Id r \<noteq> i \<and> ar_GroupId r = groupId \<and> ar_Name r = name)) (\<lambda>lst.
     if length lst = 0 then ret False
     else ret (list_ex (\<lambda>r. list_ex (MatchDatasource datasourceIds) (ar_DatasourceIdsJson (AlertRule_FillDatasourceIds L r))) lst))"

definition AlertRule_Add :: "rule_lib \<Rightarrow> AlertRule \<Rightarrow> unit center_act" where
  "AlertRule_Add L a0 =
     bind_act (checked (AlertRule_Verify (rl_lib L) a0)) (\<lambda>ar.
     bind_act (AlertRuleExists L 0 (ar_GroupId ar) (ar_DatasourceIdsJson ar) (ar_Name ar)) (\<lambda>exists.
     if exists then stop (Err ''AlertRule already exists'')
     else bind_act Now_Unix (\<lambda>now.
       add_row ce_alert_rule (\<lambda>rows s. s\<lparr>ce_alert_rule := rows\<rparr>) ar_Id (\<lambda>i r. r\<lparr>ar_Id := i\<rparr>)
         (rule_row (ar\<lparr>ar_CreateAt := now, ar_UpdateAt := now\<rparr>)))))"

definition AlertRule_Update :: "rule_lib \<Rightarrow> AlertRule \<Rightarrow> bool \<Rightarrow> AlertRule \<Rightarrow> unit center_act" where
  "AlertRule_Update L ar annotated arf =
     bind_act (if ar_Name ar \<noteq> ar_Name arf then
         bind_act (AlertRuleExists L (ar_Id ar) (ar_GroupId ar) (ar_DatasourceIdsJson ar) (ar_Name arf)) (\<lambda>exists.
         if exists then stop (Err ''AlertRule already exists'') else ret ())
       else ret ()) (\<lambda>_.
     bind_act Now_Unix (\<lambda>now.
     bind_act (checked (AlertRule_Verify (rl_lib L) ((AlertRule_FE2DB L annotated arf)\<lparr>ar_Id := ar_Id ar, ar_GroupId := ar_GroupId ar,
       ar_CreateAt := ar_CreateAt ar, ar_CreateBy := ar_CreateBy ar, ar_UpdateAt := now\<rparr>))) (\<lambda>arf1.
     update_rule (ar_Id ar) (\<lambda>_. rule_row arf1))))"

definition update_rule_column :: "rule_lib \<Rightarrow> int \<Rightarrow> (string \<times> json) list \<Rightarrow> unit center_act" where
  "update_rule_column L i kvs = update_columns ce_alert_rule (\<lambda>rows s. s\<lparr>ce_alert_rule := rows\<rparr>) (\<lambda>r. ar_Id r = i)
     (set_columns (rl_rule_column L) kvs)"

text \<open>A changed severity goes into the configuration, if that has one query or trigger.\<close>

definition with_severity :: "rule_lib \<Rightarrow> AlertRule \<Rightarrow> int \<Rightarrow> string + string option" where
  "with_severity L ar severity =
     (if ar_Cate ar = PROMETHEUS then
        (case rl_decode_prom L (ar_RuleConfig ar) of Inl e \<Rightarrow> Inl e
         | Inr cfg \<Rightarrow>
            if length (prc_Queries cfg) < 1 then Inr (Some (rl_marshal_prom L (cfg\<lparr>prc_Severity := severity\<rparr>)))
            else if length (prc_Queries cfg) \<noteq> 1 then Inr None
            else Inr (Some (rl_marshal_prom L (cfg\<lparr>prc_Queries := [(prc_Queries cfg ! 0)\<lparr>pq_Severity := severity\<rparr>]\<rparr>))))
      else if ar_Cate ar = HOST then
        (case rl_decode_host L (ar_RuleConfig ar) of Inl e \<Rightarrow> Inl e
         | Inr cfg \<Rightarrow>
            if length (hrc_Triggers cfg) \<noteq> 1 then Inr None
            else Inr (Some (rl_marshal_host L (cfg\<lparr>hrc_Triggers := [(hrc_Triggers cfg ! 0)\<lparr>htr_Severity := severity\<rparr>]\<rparr>))))
      else
        (case rl_decode_query L (ar_RuleConfig ar) of Inl e \<Rightarrow> Inl e
         | Inr cfg \<Rightarrow>
            if length (rqu_Triggers cfg) \<noteq> 1 then Inr None
            else Inr (Some (rl_marshal_query L (cfg\<lparr>rqu_Triggers := [(rqu_Triggers cfg ! 0)\<lparr>trg_Severity := severity\<rparr>]\<rparr>)))))"

text \<open>The library of the database also sets the field of the struct; the result is the struct after it.\<close>

definition UpdateColumn :: "rule_lib \<Rightarrow> AlertRule \<Rightarrow> string \<Rightarrow> json \<Rightarrow> AlertRule center_act" where
  "UpdateColumn L ar column v =
     (let store = (\<lambda>v. bind_act (update_rule_column L (ar_Id ar) [(column, v)]) (\<lambda>_.
        ret (case rl_rule_column L column v ar of None \<Rightarrow> ar | Some ar1 \<Rightarrow> ar1))) in
      if v = JNull then ret ar
      else if column = ''datasource_ids'' then store (JStr (lib_marshal (rl_lib L) v))
      else if column = ''severity'' then
        (case v of JNum n \<Rightarrow>
           bind_act (checked (with_severity L ar (rl_int L n))) (\<lambda>cfg.
           case cfg of None \<Rightarrow> ret ar
           | Some b \<Rightarrow> bind_act (update_rule (ar_Id ar) (\<lambda>r. r\<lparr>ar_RuleConfig := b\<rparr>)) (\<lambda>_. ret (ar\<lparr>ar_RuleConfig := b\<rparr>)))
         | _ \<Rightarrow> stop (Crash Type_assertion))
      else if column = ''runbook_url'' then
        (case v of JStr url \<Rightarrow>
           bind_act (checked (rl_decode_strmap L (ar_Annotations ar) (ar_AnnotationsJSON ar))) (\<lambda>m0.
           let m = go_set ''runbook_url'' url m0; b = lib_marshal (rl_lib L) (json_of_strmap m) in
           bind_act (update_rule (ar_Id ar) (\<lambda>r. r\<lparr>ar_Annotations := b\<rparr>)) (\<lambda>_. ret (ar\<lparr>ar_AnnotationsJSON := m, ar_Annotations := b\<rparr>)))
         | _ \<Rightarrow> stop (Crash Type_assertion))
      else store v)"

text \<open>The optional group of \<^verbatim>\<open>AlertRuleDels\<close> is a list. Whether the alerts of a rule are deleted with it is not reported.\<close>

definition delete_rule :: "int \<Rightarrow> int list \<Rightarrow> int center_act" where
  "delete_rule i bgid =
     (let p = (\<lambda>r. ar_Id r = i \<and> (case bgid of [] \<Rightarrow> True | g # _ \<Rightarrow> ar_GroupId r = g)) in
      statement (\<lambda>a s. (Inr (int (length (filter p (ce_alert_rule s)))),
        s\<lparr>ce_alert_rule := filter (\<lambda>r. \<not> p r) (ce_alert_rule s)\<rparr>)))"

definition AlertRuleDels :: "int list \<Rightarrow> int list \<Rightarrow> unit center_act" where
  "AlertRuleDels ids bgid = each (\<lambda>i.
     bind_act (delete_rule i bgid) (\<lambda>rows.
     if rows > 0 then
       bind_act (attempt (execute (\<lambda>s. s\<lparr>ce_alert_cur_event := filter (\<lambda>e. ev_RuleId e \<noteq> i) (ce_alert_cur_event s)\<rparr>))) (\<lambda>_. ret ())
     else ret ())) ids"

definition map_panicking :: "('a \<Rightarrow> 'b res) \<Rightarrow> 'a list \<Rightarrow> 'b list center_act" where
  "map_panicking f xs = panicking (foldr (\<lambda>x r. res_bind (f x) (\<lambda>y. res_bind r (\<lambda>ys. Inr (y # ys)))) xs (Inr []))"

definition AlertRuleGets :: "center_router \<Rightarrow> rule_lib \<Rightarrow> int \<Rightarrow> AlertRule list center_act" where
  "AlertRuleGets R L groupId =
     bind_act (query (\<lambda>s. order_by (cr_lib R) ar_Name (filter (\<lambda>r. ar_GroupId r = groupId) (ce_alert_rule s)))) (map_panicking (AlertRule_DB2FE L))"

definition AlertRuleGetsAll :: "center_router \<Rightarrow> rule_lib \<Rightarrow> (string \<Rightarrow> string + (bool \<times> AlertRule) list) \<Rightarrow> AlertRule list center_act" where
  "AlertRuleGetsAll R L remote_rules =
     (if \<not> cl_IsCenter (cr_lib R)
      then bind_act (remote (remote_rules ''/v1/n9e/alert-rules?disabled=0'')) (\<lambda>lst. ret (map (\<lambda>(annotated, r). AlertRule_FE2DB L annotated r) lst))
      else bind_act (Find ce_alert_rule (\<lambda>r. ar_Disabled r = 0)) (map_panicking (AlertRule_DB2FE L)))"

definition rules_where :: "center_router \<Rightarrow> string list \<Rightarrow> string \<Rightarrow> string \<Rightarrow> string \<Rightarrow> string list \<Rightarrow> int \<Rightarrow> AlertRule \<Rightarrow> bool" where
  "rules_where R prods q algorithm cluster cates disabled r \<longleftrightarrow>
     (length prods > 0 \<longrightarrow> ar_Prod r \<in> set prods) \<and>
     list_all (\<lambda>w. cl_like (cr_lib R) (ar_AppendTags r) (contains_pattern w)) (Fields q) \<and>
     (algorithm \<noteq> '''' \<longrightarrow> ar_Algorithm r = algorithm) \<and>
     (cluster \<noteq> '''' \<longrightarrow> cl_like (cr_lib R) (ar_Cluster r) (contains_pattern cluster)) \<and>
     (length cates \<noteq> 0 \<longrightarrow> ar_Cate r \<in> set cates) \<and> (disabled \<noteq> -1 \<longrightarrow> ar_Disabled r = disabled)"

definition AlertRulesGetsBy :: "center_router \<Rightarrow> rule_lib \<Rightarrow> string list \<Rightarrow> string \<Rightarrow> string \<Rightarrow> string \<Rightarrow> string list \<Rightarrow> int \<Rightarrow> AlertRule list center_act" where
  "AlertRulesGetsBy R L prods q algorithm cluster cates disabled =
     bind_act (Find ce_alert_rule (rules_where R prods q algorithm cluster cates disabled)) (map_panicking (AlertRule_DB2FE L))"

definition AlertRuleGet :: "rule_lib \<Rightarrow> (AlertRule \<Rightarrow> bool) \<Rightarrow> AlertRule option center_act" where
  "AlertRuleGet L p =
     bind_act (Find ce_alert_rule p) (\<lambda>lst.
     case first lst of None \<Rightarrow> ret None | Some r \<Rightarrow> bind_act (panicking (AlertRule_DB2FE L r)) (\<lambda>ar. ret (Some ar)))"

definition AlertRuleGetById :: "rule_lib \<Rightarrow> int \<Rightarrow> AlertRule option center_act" where
  "AlertRuleGetById L i = AlertRuleGet L (\<lambda>r. ar_Id r = i)"

definition AlertRuleGetName :: "int \<Rightarrow> string center_act" where
  "AlertRuleGetName i =
     bind_act (query (\<lambda>s. map ar_Name (filter (\<lambda>r. ar_Id r = i) (ce_alert_rule s)))) (\<lambda>names.
     case first names of None \<Rightarrow> ret '''' | Some n \<Rightarrow> ret n)"

definition AlertRuleStatistics :: "center_router \<Rightarrow> (string \<Rightarrow> string + Statistics) \<Rightarrow> Statistics center_act" where
  "AlertRuleStatistics R remote_stats =
     (if \<not> cl_IsCenter (cr_lib R) then remote (remote_stats ''/v1/n9e/statistic?name=alert_rule'')
      else query (\<lambda>s. stat_of (map ar_UpdateAt (filter (\<lambda>r. ar_Disabled r = 0) (ce_alert_rule s)))))"

subsection \<open>Mutes\<close>

definition mute_row :: "AlertMute \<Rightarrow> AlertMute" where
  "mute_row m = m\<lparr>am_DatasourceIdsJson := [], am_ITags := [], am_PeriodicMutesJson := [], am_SeveritiesJson := []\<rparr>"

definition AlertMute_FE2DB :: "rule_lib \<Rightarrow> AlertMute \<Rightarrow> AlertMute" where
  "AlertMute_FE2DB L m0 =
     (let m1 = m0\<lparr>am_DatasourceIds := rl_marshal_ints L (am_DatasourceIdsJson m0), am_PeriodicMutes := rl_marshal_periodic L (am_PeriodicMutesJson m0)\<rparr>
      in if length (am_SeveritiesJson m1) > 0 then m1\<lparr>am_Severities := rl_marshal_ints L (am_SeveritiesJson m1)\<rparr> else m1)"

text \<open>The outcome is the error, if there is one, and the mute as far as it was filled.\<close>

definition AlertMute_DB2FE :: "rule_lib \<Rightarrow> AlertMute \<Rightarrow> string option \<times> AlertMute" where
  "AlertMute_DB2FE L m0 =
     (let (e1, ids) = rl_unmarshal_ints L (am_DatasourceIds m0) (am_DatasourceIdsJson m0); m1 = m0\<lparr>am_DatasourceIdsJson := ids\<rparr> in
      if e1 \<noteq> None then (e1, m1)
      else let (e2, ps) = rl_unmarshal_periodic L (am_PeriodicMutes m1) (am_PeriodicMutesJson m1); m2 = m1\<lparr>am_PeriodicMutesJson := ps\<rparr> in
      if e2 \<noteq> None then (e2, m2)
      else if am_Severities m2 \<noteq> '''' then
        let (e3, ss) = rl_unmarshal_ints L (am_Severities m2) (am_SeveritiesJson m2) in (e3, m2\<lparr>am_SeveritiesJson := ss\<rparr>)
      else (None, m2))"

definition AlertMuteGet :: "rule_lib \<Rightarrow> (AlertMute \<Rightarrow> bool) \<Rightarrow> AlertMute option center_act" where
  "AlertMuteGet L p =
     bind_act (Find ce_alert_mute p) (\<lambda>lst.
     case first lst of None \<Rightarrow> ret None
     | Some m \<Rightarrow> (case AlertMute_DB2FE L m of (Some e, _) \<Rightarrow> stop (Err e) | (None, m1) \<Rightarrow> ret (Some m1)))"

definition AlertMuteGetById :: "rule_lib \<Rightarrow> int \<Rightarrow> AlertMute option center_act" where
  "AlertMuteGetById L i = AlertMuteGet L (\<lambda>m. am_Id m = i)"

definition mutes_where :: "center_router \<Rightarrow> string list \<Rightarrow> int \<Rightarrow> string \<Rightarrow> AlertMute \<Rightarrow> bool" where
  "mutes_where R prods bgid q m \<longleftrightarrow>
     (bgid \<noteq> -1 \<longrightarrow> am_GroupId m = bgid) \<and> (length prods > 0 \<longrightarrow> am_Prod m \<in> set prods) \<and>
     list_all (\<lambda>w. cl_like (cr_lib R) (am_Cause m) (contains_pattern w)) (Fields q)"

definition newest_first :: "('r \<Rightarrow> int) \<Rightarrow> 'r list \<Rightarrow> 'r list" where
  "newest_first key rows = sort_key (\<lambda>r. - key r) rows"

definition AlertMuteGets :: "center_router \<Rightarrow> rule_lib \<Rightarrow> string list \<Rightarrow> int \<Rightarrow> string \<Rightarrow> AlertMute list center_act" where
  "AlertMuteGets R L prods bgid q =
     bind_act (query (\<lambda>s. newest_first am_Id (filter (mutes_where R prods bgid q) (ce_alert_mute s)))) (\<lambda>lst. ret (map (\<lambda>m. snd (AlertMute_DB2FE L m)) lst))"

definition AlertMuteGetsByBG :: "rule_lib \<Rightarrow> int \<Rightarrow> AlertMute list center_act" where
  "AlertMuteGetsByBG L groupId =
     bind_act (query (\<lambda>s. newest_first am_Id (filter (\<lambda>m. am_GroupId m = groupId) (ce_alert_mute s)))) (\<lambda>lst. ret (map (\<lambda>m. snd (AlertMute_DB2FE L m)) lst))"

definition AlertMute_Add :: "rule_lib \<Rightarrow> AlertMute \<Rightarrow> unit center_act" where
  "AlertMute_Add L m0 =
     bind_act (checked (AlertMute_Verify (rl_lib L) m0)) (\<lambda>m.
     bind_act Now_Unix (\<lambda>now.
     add_row ce_alert_mute (\<lambda>rows s. s\<lparr>ce_alert_mute := rows\<rparr>) am_Id (\<lambda>i r. r\<lparr>am_Id := i\<rparr>)
       (mute_row ((AlertMute_FE2DB L m)\<lparr>am_CreateAt := now, am_UpdateAt := now\<rparr>))))"

definition AlertMute_Update :: "rule_lib \<Rightarrow> AlertMute \<Rightarrow> AlertMute \<Rightarrow> unit center_act" where
  "AlertMute_Update L m arm =
     bind_act Now_Unix (\<lambda>now.
     bind_act (checked (AlertMute_Verify (rl_lib L) (arm\<lparr>am_Id := am_Id m, am_GroupId := am_GroupId m, am_CreateAt := am_CreateAt m,
       am_CreateBy := am_CreateBy m, am_UpdateAt := now\<rparr>))) (\<lambda>arm1.
     execute (\<lambda>s. s\<lparr>ce_alert_mute := update_where (\<lambda>r. am_Id r = am_Id m) (\<lambda>_. mute_row (AlertMute_FE2DB L arm1)) (ce_alert_mute s)\<rparr>)))"

definition AlertMute_UpdateFieldsMap :: "rule_lib \<Rightarrow> AlertMute \<Rightarrow> (string \<times> json) list \<Rightarrow> unit center_act" where
  "AlertMute_UpdateFieldsMap L m kvs = update_columns ce_alert_mute (\<lambda>rows s. s\<lparr>ce_alert_mute := rows\<rparr>) (\<lambda>r. am_Id r = am_Id m)
     (set_columns (rl_mute_column L) kvs)"

definition AlertMuteDel :: "int list \<Rightarrow> unit center_act" where
  "AlertMuteDel ids =
     (if length ids = 0 then ret ()
      else execute (\<lambda>s. s\<lparr>ce_alert_mute := filter (\<lambda>m. am_Id m \<notin> set ids) (ce_alert_mute s)\<rparr>))"

text \<open>The statistics of the mutes are taken after the expired ones are deleted.\<close>

definition AlertMuteStatistics :: "center_router \<Rightarrow> (string \<Rightarrow> string + Statistics) \<Rightarrow> Statistics center_act" where
  "AlertMuteStatistics R remote_stats =
     (if \<not> cl_IsCenter (cr_lib R) then remote (remote_stats ''/v1/n9e/statistic?name=alert_mute'')
      else bind_act Now_Unix (\<lambda>now.
      bind_act (execute (\<lambda>s. s\<lparr>ce_alert_mute := filter (\<lambda>m. \<not> (am_Etime m < now - 30 \<and> am_MuteTimeType m = 0)) (ce_alert_mute s)\<rparr>)) (\<lambda>_.
      query (\<lambda>s. stat_of (map am_UpdateAt (ce_alert_mute s))))))"

definition AlertMuteGetsAll :: "center_router \<Rightarrow> rule_lib \<Rightarrow> (string \<Rightarrow> string + AlertMute list) \<Rightarrow> AlertMute list center_act" where
  "AlertMuteGetsAll R L remote_mutes =
     (if \<not> cl_IsCenter (cr_lib R) then bind_act (remote (remote_mutes ''/v1/n9e/alert-mutes'')) (\<lambda>lst. ret (map (AlertMute_FE2DB L) lst))
      else bind_act (query ce_alert_mute) (\<lambda>lst. ret (map (\<lambda>m. snd (AlertMute_DB2FE L m)) lst)))"

text \<open>\<open>ids_given\<close> tells whether the mute has a list of data sources at all (it is not nil).\<close>

definition muted_where :: "bool \<Rightarrow> AlertMute \<Rightarrow> AlertCurEvent \<Rightarrow> bool" where
  "muted_where ids_given m e \<longleftrightarrow>
     ev_GroupId e = am_GroupId m \<and> ev_RuleProd e = am_Prod m \<and>
     (length (am_SeveritiesJson m) \<noteq> 0 \<longrightarrow> ev_Severity e \<in> set (am_SeveritiesJson m)) \<and>
     (am_Prod m \<noteq> HOST \<longrightarrow> ev_Cate e = am_Cate m \<and>
        (ids_given \<and> \<not> IsAllDatasource (am_DatasourceIdsJson m) \<longrightarrow> ev_DatasourceId e \<in> set (am_DatasourceIdsJson m)))"

definition AlertCurEventGetsFromAlertMute :: "bool \<Rightarrow> AlertMute \<Rightarrow> AlertCurEvent list center_act" where
  "AlertCurEventGetsFromAlertMute ids_given m = query (\<lambda>s. newest_first ev_Id (filter (muted_where ids_given m) (ce_alert_cur_event s)))"

subsection \<open>Subscriptions\<close>

definition subscribe_row :: "AlertSubscribe \<Rightarrow> AlertSubscribe" where
  "subscribe_row b = b\<lparr>as_DatasourceIdsJson := [], as_SeveritiesJson := [], as_RuleName := '''', as_UserGroups := [], as_WebhooksJson := [],
     as_ExtraConfigJson := JNull, as_ITags := [], as_IBusiGroups := []\<rparr>"

definition AlertSubscribe_FE2DB :: "rule_lib \<Rightarrow> AlertSubscribe \<Rightarrow> AlertSubscribe" where
  "AlertSubscribe_FE2DB L b0 =
     (let b1 = (if length (as_DatasourceIdsJson b0) > 0 then b0\<lparr>as_DatasourceIds := rl_marshal_ints L (as_DatasourceIdsJson b0)\<rparr> else b0);
          b2 = (if length (as_WebhooksJson b1) > 0 then b1\<lparr>as_Webhooks := rl_marshal_strings L (as_WebhooksJson b1)\<rparr> else b1);
          b3 = b2\<lparr>as_ExtraConfig := lib_marshal (rl_lib L) (as_ExtraConfigJson b2)\<rparr>
      in if length (as_SeveritiesJson b3) > 0 then b3\<lparr>as_Severities := rl_marshal_ints L (as_SeveritiesJson b3)\<rparr> else b3)"

text \<open>Each column is decoded unless it is empty; the first error ends the function.\<close>

definition decode_column :: "(string \<Rightarrow> 'v \<Rightarrow> string option \<times> 'v) \<Rightarrow> string \<Rightarrow> 'v \<Rightarrow> string option \<times> 'v" where
  "decode_column decode text v = (if text \<noteq> '''' then decode text v else (None, v))"

definition AlertSubscribe_DB2FE :: "rule_lib \<Rightarrow> AlertSubscribe \<Rightarrow> string option \<times> AlertSubscribe" where
  "AlertSubscribe_DB2FE L b0 =
     (let (e1, ids) = decode_column (rl_unmarshal_ints L) (as_DatasourceIds b0) (as_DatasourceIdsJson b0); b1 = b0\<lparr>as_DatasourceIdsJson := ids\<rparr> in
      if e1 \<noteq> None then (e1, b1)
      else let (e2, ws) = decode_column (rl_unmarshal_strings L) (as_Webhooks b1) (as_WebhooksJson b1); b2 = b1\<lparr>as_WebhooksJson := ws\<rparr> in
      if e2 \<noteq> None then (e2, b2)
      else let (e3, x) = decode_column (rl_unmarshal_json L) (as_ExtraConfig b2) (as_ExtraConfigJson b2); b3 = b2\<lparr>as_ExtraConfigJson := x\<rparr> in
      if e3 \<noteq> None then (e3, b3)
      else let (e4, ss) = decode_column (rl_unmarshal_ints L) (as_Severities b3) (as_SeveritiesJson b3) in (e4, b3\<lparr>as_SeveritiesJson := ss\<rparr>))"

definition AlertSubscribeGets :: "int \<Rightarrow> AlertSubscribe list center_act" where
  "AlertSubscribeGets groupId = query (\<lambda>s. newest_first as_Id (filter (\<lambda>b. as_GroupId b = groupId) (ce_alert_subscribe s)))"

definition AlertSubscribeGetsByService :: "rule_lib \<Rightarrow> AlertSubscribe list center_act" where
  "AlertSubscribeGetsByService L = bind_act (query ce_alert_subscribe) (\<lambda>lst. ret (map (\<lambda>b. snd (AlertSubscribe_DB2FE L b)) lst))"

definition AlertSubscribeGet :: "(AlertSubscribe \<Rightarrow> bool) \<Rightarrow> AlertSubscribe option center_act" where
  "AlertSubscribeGet p = bind_act (Find ce_alert_subscribe p) (\<lambda>lst. ret (first lst))"

definition AlertSubscribe_Add :: "rule_lib \<Rightarrow> AlertSubscribe \<Rightarrow> unit center_act" where
  "AlertSubscribe_Add L b0 =
     bind_act (checked (AlertSubscribe_Verify (rl_lib L) b0)) (\<lambda>b.
     bind_act Now_Unix (\<lambda>now.
     add_row ce_alert_subscribe (\<lambda>rows s. s\<lparr>ce_alert_subscribe := rows\<rparr>) as_Id (\<lambda>i r. r\<lparr>as_Id := i\<rparr>)
       (subscribe_row ((AlertSubscribe_FE2DB L b)\<lparr>as_CreateAt := now, as_UpdateAt := now\<rparr>))))"

definition FillRuleName :: "AlertSubscribe \<Rightarrow> (int, string) go_map \<Rightarrow> (AlertSubscribe \<times> (int, string) go_map) center_act" where
  "FillRuleName b cache =
     (if as_RuleId b \<le> 0 then ret (b\<lparr>as_RuleName := ''''\<rparr>, cache)
      else case go_get cache (as_RuleId b) of Some name \<Rightarrow> ret (b\<lparr>as_RuleName := name\<rparr>, cache)
      | None \<Rightarrow> bind_act (AlertRuleGetName (as_RuleId b)) (\<lambda>name0.
          let name = (if name0 = '''' then ''Error: AlertRule not found'' else name0)
          in ret (b\<lparr>as_RuleName := name\<rparr>, go_set (as_RuleId b) name cache)))"

definition AlertSubscribe_FillDatasourceIds :: "rule_lib \<Rightarrow> AlertSubscribe \<Rightarrow> AlertSubscribe" where
  "AlertSubscribe_FillDatasourceIds L b =
     (if as_DatasourceIds b \<noteq> '''' then b\<lparr>as_DatasourceIdsJson := snd (rl_unmarshal_ints L (as_DatasourceIds b) (as_DatasourceIdsJson b))\<rparr> else b)"

definition AlertSubscribe_FillUserGroups :: "AlertSubscribe \<Rightarrow> (int, UserGroup) go_map \<Rightarrow> (AlertSubscribe \<times> (int, UserGroup) go_map) center_act" where
  "AlertSubscribe_FillUserGroups b cache =
     (let ugids = Fields (as_UserGroupIds b) in
      if length ugids = 0 then ret (b\<lparr>as_UserGroups := []\<rparr>, cache)
      else bind_act (fill_groups ugids [] (as_UserGroups b) False cache) (\<lambda>(err, exists, objs, del, cache1).
        case err of Some e \<Rightarrow> stop (Err e)
        | None \<Rightarrow>
           if del then
             bind_act (attempt (execute (\<lambda>s. s\<lparr>ce_alert_subscribe :=
               update_where (\<lambda>r. as_Id r = as_Id b) (\<lambda>r. r\<lparr>as_UserGroupIds := Join exists '' ''\<rparr>) (ce_alert_subscribe s)\<rparr>))) (\<lambda>_.
             ret (b\<lparr>as_UserGroups := objs, as_UserGroupIds := Join exists '' ''\<rparr>, cache1))
           else ret (b\<lparr>as_UserGroups := objs\<rparr>, cache1)))"

text \<open>
  The row of the subscription gets the columns that are selected; without an identifier there is
  no condition for a row, which the library of the database refuses.
\<close>

definition AlertSubscribe_Update :: "rule_lib \<Rightarrow> (AlertSubscribe \<Rightarrow> AlertSubscribe \<Rightarrow> AlertSubscribe) \<Rightarrow> AlertSubscribe \<Rightarrow> unit center_act" where
  "AlertSubscribe_Update L columns b0 =
     bind_act (checked (AlertSubscribe_Verify (rl_lib L) b0)) (\<lambda>b.
     if as_Id b = 0 then stop (Err ''WHERE conditions required'')
     else execute (\<lambda>s. s\<lparr>ce_alert_subscribe :=
       update_where (\<lambda>r. as_Id r = as_Id b) (columns (AlertSubscribe_FE2DB L b)) (ce_alert_subscribe s)\<rparr>))"

definition AlertSubscribeDel :: "int list \<Rightarrow> unit center_act" where
  "AlertSubscribeDel ids =
     (if length ids = 0 then ret ()
      else execute (\<lambda>s. s\<lparr>ce_alert_subscribe := filter (\<lambda>b. as_Id b \<notin> set ids) (ce_alert_subscribe s)\<rparr>))"

definition AlertSubscribeStatistics :: "center_router \<Rightarrow> (string \<Rightarrow> string + Statistics) \<Rightarrow> Statistics center_act" where
  "AlertSubscribeStatistics R remote_stats =
     (if \<not> cl_IsCenter (cr_lib R) then remote (remote_stats ''/v1/n9e/statistic?name=alert_subscribe'')
      else query (\<lambda>s. stat_of (map as_UpdateAt (ce_alert_subscribe s))))"

definition AlertSubscribeGetsAll :: "center_router \<Rightarrow> rule_lib \<Rightarrow> (string \<Rightarrow> string + AlertSubscribe list) \<Rightarrow> AlertSubscribe list center_act" where
  "AlertSubscribeGetsAll R L remote_subs =
     (if \<not> cl_IsCenter (cr_lib R) then bind_act (remote (remote_subs ''/v1/n9e/alert-subscribes'')) (\<lambda>lst. ret (map (AlertSubscribe_FE2DB L) lst))
      else query ce_alert_subscribe)"

subsection \<open>Recording rules\<close>

definition record_row :: "RecordingRule \<Rightarrow> RecordingRule" where
  "record_row re = re\<lparr>rr_DatasourceIdsJson := [], rr_QueryConfigsJson := [], rr_AppendTagsJSON := []\<rparr>"

definition RecordingRule_Add :: "rule_lib \<Rightarrow> RecordingRule \<Rightarrow> unit center_act" where
  "RecordingRule_Add L re0 =
     bind_act (checked (RecordingRule_Verify (rl_names L) re0)) (\<lambda>re.
     bind_act Now_Unix (\<lambda>now.
     add_row ce_recording_rule (\<lambda>rows s. s\<lparr>ce_recording_rule := rows\<rparr>) rr_Id (\<lambda>i r. r\<lparr>rr_Id := i\<rparr>)
       (record_row (re\<lparr>rr_CreateAt := now, rr_UpdateAt := now\<rparr>))))"

definition RecordingRule_Update :: "rule_lib \<Rightarrow> RecordingRule \<Rightarrow> RecordingRule \<Rightarrow> unit center_act" where
  "RecordingRule_Update L re ref0 =
     bind_act Now_Unix (\<lambda>now.
     bind_act (checked (RecordingRule_Verify (rl_names L) ((RecordingRule_FE2DB (rl_records L) ref0)\<lparr>rr_Id := rr_Id re, rr_GroupId := rr_GroupId re,
       rr_CreateAt := rr_CreateAt re, rr_CreateBy := rr_CreateBy re, rr_UpdateAt := now\<rparr>))) (\<lambda>ref1.
     execute (\<lambda>s. s\<lparr>ce_recording_rule := update_where (\<lambda>r. rr_Id r = rr_Id re) (\<lambda>_. record_row ref1) (ce_recording_rule s)\<rparr>)))"

definition RecordingRule_UpdateFieldsMap :: "rule_lib \<Rightarrow> RecordingRule \<Rightarrow> (string \<times> json) list \<Rightarrow> unit center_act" where
  "RecordingRule_UpdateFieldsMap L re kvs = update_columns ce_recording_rule (\<lambda>rows s. s\<lparr>ce_recording_rule := rows\<rparr>) (\<lambda>r. rr_Id r = rr_Id re)
     (set_columns (rl_record_column L) kvs)"

definition RecordingRuleDels :: "int list \<Rightarrow> int \<Rightarrow> unit center_act" where
  "RecordingRuleDels ids groupId = each (\<lambda>i.
     execute (\<lambda>s. s\<lparr>ce_recording_rule := filter (\<lambda>r. \<not> (rr_Id r = i \<and> rr_GroupId r = groupId)) (ce_recording_rule s)\<rparr>)) ids"

definition RecordingRuleGets :: "center_router \<Rightarrow> rule_lib \<Rightarrow> int \<Rightarrow> RecordingRule list center_act" where
  "RecordingRuleGets R L groupId =
     bind_act (query (\<lambda>s. order_by (cr_lib R) rr_Name (filter (\<lambda>r. rr_GroupId r = groupId) (ce_recording_rule s)))) (\<lambda>lst.
     ret (map (RecordingRule_DB2FE (rl_records L)) lst))"

definition RecordingRuleGet :: "rule_lib \<Rightarrow> (RecordingRule \<Rightarrow> bool) \<Rightarrow> RecordingRule option center_act" where
  "RecordingRuleGet L p = bind_act (Find ce_recording_rule p) (\<lambda>lst. ret (map_option (RecordingRule_DB2FE (rl_records L)) (first lst)))"

definition RecordingRuleGetById :: "rule_lib \<Rightarrow> int \<Rightarrow> RecordingRule option center_act" where
  "RecordingRuleGetById L i = RecordingRuleGet L (\<lambda>r. rr_Id r = i)"

definition RecordingRuleEnabledGets :: "rule_lib \<Rightarrow> RecordingRule list center_act" where
  "RecordingRuleEnabledGets L =
     bind_act (Find ce_recording_rule (\<lambda>r. rr_Disabled r = 0)) (\<lambda>lst. ret (map (RecordingRule_DB2FE (rl_records L)) lst))"

definition RecordingRuleGetsByCluster :: "center_router \<Rightarrow> rule_lib \<Rightarrow> (string \<Rightarrow> string + RecordingRule list) \<Rightarrow> RecordingRule list center_act" where
  "RecordingRuleGetsByCluster R L remote_rules =
     (if \<not> cl_IsCenter (cr_lib R)
      then bind_act (remote (remote_rules ''/v1/n9e/recording-rules'')) (\<lambda>lst. ret (map (RecordingRule_FE2DB (rl_records L)) lst))
      else bind_act (Find ce_recording_rule (\<lambda>r. rr_Disabled r = 0)) (\<lambda>lst. ret (map (RecordingRule_DB2FE (rl_records L)) lst)))"

definition RecordingRuleStatistics :: "center_router \<Rightarrow> (string \<Rightarrow> string + Statistics) \<Rightarrow> Statistics center_act" where
  "RecordingRuleStatistics R remote_stats =
     (if \<not> cl_IsCenter (cr_lib R) then remote (remote_stats ''/v1/n9e/statistic?name=recording_rule'')
      else query (\<lambda>s. stat_of (map rr_UpdateAt (ce_recording_rule s))))"

end
