(* ===== verification/Rule_Pages.thy ===== *)
theory Rule_Pages
  imports Rule_Tables
begin

text \<open>
  The handlers for alerting rules, mutes, subscriptions and recording rules
  (\<open>center/router/router_alert_rule.go\<close>, \<open>router_mute.go\<close>, \<open>router_alert_subscribe.go\<close>,
  \<open>router_recording_rule.go\<close>) and their routes of \<open>router.go\<close>. The decoded body is an argument; a rule in
  a body comes with a flag that tells whether it has annotations. The order in which a handler ranges
  over the fields of a body is an argument too.
\<close>

type_synonym rule_form = "bool \<times> AlertRule"

definition ids_form :: "int list \<Rightarrow> unit center_act" where
  "ids_form ids = (if length ids = 0 then stop (Bomb 400 ''ids empty'') else ret ())"

definition not_found :: "string \<Rightarrow> 'a reply center_act" where
  "not_found msg = ret (Message 404 msg)"

subsection \<open>Alerting rules\<close>

fun fill_rules :: "(AlertRule \<Rightarrow> AlertRule) \<Rightarrow> AlertRule list \<Rightarrow> (int, UserGroup) go_map \<Rightarrow> AlertRule list center_act" where
  "fill_rules f [] cache = ret []"
| "fill_rules f (ar # ars) cache =
     bind_act (AlertRule_FillNotifyGroups ar cache) (\<lambda>(err, ar1, cache1).
     bind_act (fill_rules f ars cache1) (\<lambda>ars1. ret (f ar1 # ars1)))"

definition alertRuleGets :: "center_router \<Rightarrow> rule_lib \<Rightarrow> request \<Rightarrow> AlertRule list reply center_act" where
  "alertRuleGets R L rq =
     bind_act (UrlParamInt64 rq ''id'') (\<lambda>busiGroupId.
     bind_act (attempt (AlertRuleGets R L busiGroupId)) (\<lambda>r.
     case r of Inl e \<Rightarrow> ret (Message 200 e)
     | Inr ars \<Rightarrow> bind_act (fill_rules (FillSeverities L) ars []) (\<lambda>ars1. ret (Data ars1))))"

definition alertRulesGetByService ::
    "center_router \<Rightarrow> rule_lib \<Rightarrow> string \<Rightarrow> string \<Rightarrow> string \<Rightarrow> string \<Rightarrow> string \<Rightarrow> int \<Rightarrow> AlertRule list reply center_act" where
  "alertRulesGetByService R L prodStr q algorithm cluster cate disabled =
     (let prods = (if prodStr \<noteq> '''' then Split prodStr '','' else []); cates = (if cate \<noteq> ''$all'' then Split cate '','' else []) in
      bind_act (attempt (AlertRulesGetsBy R L prods q algorithm cluster cates disabled)) (\<lambda>r.
      case r of Inl e \<Rightarrow> ret (Message 200 e)
      | Inr ars \<Rightarrow> bind_act (fill_rules (\<lambda>ar. ar) ars []) (\<lambda>ars1. ret (Data ars1))))"

text \<open>The result maps the name of each rule to its error, empty where the rule was added; \<open>tr\<close> translates errors.\<close>

fun add_rules :: "rule_lib \<Rightarrow> (string \<Rightarrow> string) \<Rightarrow> (AlertRule \<Rightarrow> AlertRule) \<Rightarrow> rule_form list \<Rightarrow> (string, string) go_map \<Rightarrow> (string, string) go_map center_act" where
  "add_rules L tr prepare [] reterr = ret reterr"
| "add_rules L tr prepare ((annotated, a) # lst) reterr =
     (let ar = AlertRule_FE2DB L annotated (prepare a) in
      bind_act (attempt (AlertRule_Add L ar)) (\<lambda>r.
      add_rules L tr prepare lst (go_set (ar_Name ar) (case r of Inl e \<Rightarrow> tr e | Inr _ \<Rightarrow> '''') reterr)))"

definition signed :: "string \<Rightarrow> AlertRule \<Rightarrow> AlertRule" where
  "signed username ar = (if username \<noteq> '''' then ar\<lparr>ar_CreateBy := username, ar_UpdateBy := username\<rparr> else ar)"

definition alertRuleAddForService :: "rule_lib \<Rightarrow> rule_form list \<Rightarrow> string \<Rightarrow> (string, string) go_map center_act" where
  "alertRuleAddForService L lst username = add_rules L (\<lambda>e. e) (\<lambda>a. signed username (a\<lparr>ar_Id := 0\<rparr>)) lst []"

definition alertRuleAdd :: "rule_lib \<Rightarrow> rule_form list \<Rightarrow> string \<Rightarrow> int \<Rightarrow> string \<Rightarrow> (string, string) go_map center_act" where
  "alertRuleAdd L lst username bgid lang =
     add_rules L (rl_i18n L lang) (\<lambda>a. signed username (a\<lparr>ar_Id := 0, ar_GroupId := bgid\<rparr>)) lst []"

definition alertRuleAddByFE :: "rule_lib \<Rightarrow> request \<Rightarrow> rule_form list \<Rightarrow> gin_ctx \<Rightarrow> (string, string) go_map reply center_act" where
  "alertRuleAddByFE L rq lst c =
     bind_act (must_get ''username'' (gc_username c)) (\<lambda>username.
     if length lst = 0 then stop (Bomb 400 ''input json is empty'')
     else bind_act (UrlParamInt64 rq ''id'') (\<lambda>bgid.
     bind_act (alertRuleAdd L lst username bgid (rq_header rq ''X-Language'')) (\<lambda>reterr. ret (Data reterr))))"

definition alertRuleAddByImport :: "rule_lib \<Rightarrow> request \<Rightarrow> rule_form list \<Rightarrow> gin_ctx \<Rightarrow> (string, string) go_map reply center_act" where
  "alertRuleAddByImport L rq lst c =
     bind_act (must_get ''username'' (gc_username c)) (\<lambda>username.
     if length lst = 0 then stop (Bomb 400 ''input json is empty'')
     else bind_act (UrlParamInt64 rq ''id'') (\<lambda>bgid.
     bind_act (alertRuleAdd L lst username bgid (rq_header rq ''X-Language'')) (\<lambda>reterr. ret (Data reterr))))"

definition alertRuleAddByService :: "rule_lib \<Rightarrow> rule_form list \<Rightarrow> (string, string) go_map reply center_act" where
  "alertRuleAddByService L lst =
     (if length lst = 0 then stop (Bomb 400 ''input json is empty'')
      else bind_act (alertRuleAddForService L lst '''') (\<lambda>reterr. ret (Data reterr)))"

definition alertRuleDel :: "request \<Rightarrow> int list \<Rightarrow> unit reply center_act" where
  "alertRuleDel rq ids =
     bind_act (ids_form ids) (\<lambda>_. bind_act (UrlParamInt64 rq ''id'') (\<lambda>bgid. render_message (AlertRuleDels ids [bgid])))"

definition alertRuleDelByService :: "int list \<Rightarrow> unit reply center_act" where
  "alertRuleDelByService ids = bind_act (ids_form ids) (\<lambda>_. render_message (AlertRuleDels ids []))"

definition alertRulePutByFE :: "rule_lib \<Rightarrow> request \<Rightarrow> rule_form \<Rightarrow> gin_ctx \<Rightarrow> unit reply center_act" where
  "alertRulePutByFE L rq f c =
     bind_act (UrlParamInt64 rq ''arid'') (\<lambda>arid.
     bind_act (dangerous (AlertRuleGetById L arid)) (\<lambda>r.
     case r of None \<Rightarrow> not_found ''No such AlertRule''
     | Some ar \<Rightarrow>
        bind_act (bgrwCheck (ar_GroupId ar) c) (\<lambda>c1.
        bind_act (must_get ''username'' (gc_username c1)) (\<lambda>username.
        render_message (AlertRule_Update L ar (fst f) ((snd f)\<lparr>ar_UpdateBy := username\<rparr>))))))"

definition alertRulePutByService :: "rule_lib \<Rightarrow> request \<Rightarrow> rule_form \<Rightarrow> unit reply center_act" where
  "alertRulePutByService L rq f =
     bind_act (UrlParamInt64 rq ''arid'') (\<lambda>arid.
     bind_act (dangerous (AlertRuleGetById L arid)) (\<lambda>r.
     case r of None \<Rightarrow> not_found ''No such AlertRule''
     | Some ar \<Rightarrow> render_message (AlertRule_Update L ar (fst f) (snd f))))"

definition stamped :: "string \<Rightarrow> int \<Rightarrow> (string, json) go_map \<Rightarrow> (string, json) go_map" where
  "stamped username now flds = go_set ''update_at'' (JNum (Itoa now)) (go_set ''update_by'' (JStr username) flds)"

record alertRuleFieldForm =
  rff_Ids :: "int list"
  rff_Fields :: "(string, json) go_map"
  rff_Action :: string

fun update_fields :: "rule_lib \<Rightarrow> AlertRule \<Rightarrow> (string \<times> json) list \<Rightarrow> unit center_act" where
  "update_fields L ar [] = ret ()"
| "update_fields L ar ((k, v) # kvs) = bind_act (dangerous (UpdateColumn L ar k v)) (\<lambda>ar1. update_fields L ar1 kvs)"

text \<open>
  Adding and removing a callback address; \<open>None\<close> where the handler goes on to set all fields of the
  body, as it does when the address to add is already contained in the list.
\<close>

definition change_callbacks :: "string \<Rightarrow> (string, json) go_map \<Rightarrow> AlertRule \<Rightarrow> (string option) res" where
  "change_callbacks action flds ar =
     (if action = ''callback_add'' then
        (case go_get flds ''callbacks'' of None \<Rightarrow> Inr None
         | Some (JStr callback) \<Rightarrow> Inr (if \<not> Contains (ar_Callbacks ar) callback then Some (ar_Callbacks ar @ '' '' @ callback) else None)
         | Some _ \<Rightarrow> Inl Type_assertion)
      else if action = ''callback_del'' then
        (case go_get flds ''callbacks'' of None \<Rightarrow> Inr None
         | Some (JStr callback) \<Rightarrow> Inr (Some (ReplaceAll (ar_Callbacks ar) callback ''''))
         | Some _ \<Rightarrow> Inl Type_assertion)
      else Inr None)"

definition put_fields :: "rule_lib \<Rightarrow> (string \<times> json) range_order \<Rightarrow> string \<Rightarrow> (string, json) go_map \<Rightarrow> int \<Rightarrow> unit center_act" where
  "put_fields L ord action flds i =
     bind_act (dangerous (AlertRuleGetById L i)) (\<lambda>r.
     case r of None \<Rightarrow> ret ()
     | Some ar \<Rightarrow>
        bind_act (panicking (change_callbacks action flds ar)) (\<lambda>new.
        case new of Some cb \<Rightarrow> dangerous (update_rule (ar_Id ar) (\<lambda>r. r\<lparr>ar_Callbacks := cb\<rparr>))
        | None \<Rightarrow> update_fields L ar (ord flds)))"

definition alertRulePutFields :: "rule_lib \<Rightarrow> (string \<times> json) range_order \<Rightarrow> alertRuleFieldForm \<Rightarrow> gin_ctx \<Rightarrow> unit reply center_act" where
  "alertRulePutFields L ord f c =
     (if length (rff_Fields f) = 0 then stop (Bomb 400 ''fields empty'')
      else bind_act (must_get ''username'' (gc_username c)) (\<lambda>username.
      bind_act Now_Unix (\<lambda>now.
      bind_act (each (put_fields L ord (rff_Action f) (stamped username now (rff_Fields f))) (rff_Ids f)) (\<lambda>_.
      ret (Message 200 '''')))))"

definition alertRuleGet :: "rule_lib \<Rightarrow> request \<Rightarrow> AlertRule reply center_act" where
  "alertRuleGet L rq =
     bind_act (UrlParamInt64 rq ''arid'') (\<lambda>arid.
     bind_act (dangerous (AlertRuleGetById L arid)) (\<lambda>r.
     case r of None \<Rightarrow> not_found ''No such AlertRule''
     | Some ar \<Rightarrow> bind_act (AlertRule_FillNotifyGroups ar []) (\<lambda>(err, ar1, cache).
        case err of Some e \<Rightarrow> stop (Danger e) | None \<Rightarrow> ret (Data ar1))))"

text \<open>The channels of a rule that no user of its teams has a contact for; other than the default channels are not checked.\<close>

definition absent_channels :: "nlib \<Rightarrow> User list \<Rightarrow> string list \<Rightarrow> string list" where
  "absent_channels N users channels =
     filter (\<lambda>ch. ch \<in> {Dingtalk, Wecom, Feishu, Mm, Telegram, Email, FeishuCard} \<and> list_all (\<lambda>u. ExtractToken N u ch = None) users) channels"

definition alertRuleValidation :: "nlib \<Rightarrow> (int, UserGroup) cache \<Rightarrow> (int, User) cache \<Rightarrow> AlertRule \<Rightarrow> unit reply center_act" where
  "alertRuleValidation N groups users f =
     (if length (ar_NotifyChannelsJSON f) > 0 \<and> length (ar_NotifyGroupsJSON f) > 0 then
        let userGroups = GetByUserGroupIds groups (map parse_id (ar_NotifyGroupsJSON f));
            us = GetByUserIds users (concat (map ug_UserIds userGroups));
            ancs = absent_channels N us (ar_NotifyChannelsJSON f)
        in if length ancs > 0
           then ret (Message 200 (''All users are missing notify channel configurations. Please check for missing tokens (each channel should be configured with at least one user). [''
             @ Join ancs '' '' @ '']''))
           else ret (Message 200 '''')
      else ret (Message 200 ''''))"

subsection \<open>Mutes\<close>

definition alertMuteGetsByBG :: "rule_lib \<Rightarrow> request \<Rightarrow> AlertMute list reply center_act" where
  "alertMuteGetsByBG L rq = bind_act (UrlParamInt64 rq ''id'') (\<lambda>bgid. render_data (AlertMuteGetsByBG L bgid))"

definition alertMuteGets :: "center_router \<Rightarrow> rule_lib \<Rightarrow> string \<Rightarrow> int \<Rightarrow> string \<Rightarrow> AlertMute list reply center_act" where
  "alertMuteGets R L prods bgid q = render_data (AlertMuteGets R L (Fields prods) bgid q)"

definition alertMuteAdd :: "rule_lib \<Rightarrow> request \<Rightarrow> AlertMute \<Rightarrow> gin_ctx \<Rightarrow> unit reply center_act" where
  "alertMuteAdd L rq f c =
     bind_act (must_get ''username'' (gc_username c)) (\<lambda>username.
     bind_act (UrlParamInt64 rq ''id'') (\<lambda>bgid.
     render_message (AlertMute_Add L (f\<lparr>am_CreateBy := username, am_GroupId := bgid\<rparr>))))"

fun match_events :: "TagFilter list \<Rightarrow> AlertCurEvent list \<Rightarrow> AlertCurEvent list res" where
  "match_events its [] = Inr []"
| "match_events its (e # es) =
     (let e1 = DB2Mem e in
      res_bind (MatchTags (ev_TagsMap e1) its) (\<lambda>b.
      res_bind (match_events its es) (\<lambda>es1. Inr (if b then e1 # es1 else es1))))"

definition alertMutePreview :: "rule_lib \<Rightarrow> request \<Rightarrow> bool \<Rightarrow> AlertMute \<Rightarrow> AlertCurEvent list reply center_act" where
  "alertMutePreview L rq ids_given f =
     bind_act (UrlParamInt64 rq ''id'') (\<lambda>bgid.
     bind_act (dangerous (checked (AlertMute_Verify (rl_lib L) (f\<lparr>am_GroupId := bgid\<rparr>)))) (\<lambda>m.
     bind_act (dangerous (AlertCurEventGetsFromAlertMute ids_given m)) (\<lambda>events.
     bind_act (panicking (match_events (am_ITags m) events)) (\<lambda>matchEvents. ret (Data matchEvents)))))"

definition alertMuteAddByService :: "rule_lib \<Rightarrow> AlertMute \<Rightarrow> unit reply center_act" where
  "alertMuteAddByService L f = render_message (AlertMute_Add L f)"

definition alertMuteDel :: "int list \<Rightarrow> unit reply center_act" where
  "alertMuteDel ids = bind_act (ids_form ids) (\<lambda>_. render_message (AlertMuteDel ids))"

definition alertMutePutByFE :: "rule_lib \<Rightarrow> request \<Rightarrow> AlertMute \<Rightarrow> gin_ctx \<Rightarrow> unit reply center_act" where
  "alertMutePutByFE L rq f c =
     bind_act (UrlParamInt64 rq ''amid'') (\<lambda>amid.
     bind_act (dangerous (AlertMuteGetById L amid)) (\<lambda>r.
     case r of None \<Rightarrow> not_found ''No such AlertMute''
     | Some am \<Rightarrow>
        bind_act (bgrwCheck (am_GroupId am) c) (\<lambda>c1.
        bind_act (must_get ''username'' (gc_username c1)) (\<lambda>username.
        render_message (AlertMute_Update L am (f\<lparr>am_UpdateBy := username\<rparr>))))))"

text \<open>The form of the fields that are set on several rows at once.\<close>

record fieldForm =
  ff_Ids :: "int list"
  ff_Fields :: "(string, json) go_map"


definition alertMutePutFields :: "rule_lib \<Rightarrow> fieldForm \<Rightarrow> gin_ctx \<Rightarrow> unit reply center_act" where
  "alertMutePutFields L f c =
     (if length (ff_Fields f) = 0 then stop (Bomb 400 ''fields empty'')
      else bind_act (must_get ''username'' (gc_username c)) (\<lambda>username.
      bind_act Now_Unix (\<lambda>now.
      bind_act (each (\<lambda>i. bind_act (dangerous (AlertMuteGetById L i)) (\<lambda>r.
        case r of None \<Rightarrow> ret () | Some am \<Rightarrow> dangerous (AlertMute_UpdateFieldsMap L am (stamped username now (ff_Fields f))))) (ff_Ids f)) (\<lambda>_.
      ret (Message 200 '''')))))"

subsection \<open>Subscriptions\<close>

definition fill_subscribe :: "rule_lib \<Rightarrow> AlertSubscribe \<Rightarrow> (int, UserGroup) go_map \<Rightarrow> (int, string) go_map
    \<Rightarrow> (AlertSubscribe \<times> (int, UserGroup) go_map \<times> (int, string) go_map) center_act" where
  "fill_subscribe L b ugcache rulecache =
     bind_act (dangerous (AlertSubscribe_FillUserGroups b ugcache)) (\<lambda>(b1, ugcache1).
     bind_act (dangerous (FillRuleName b1 rulecache)) (\<lambda>(b2, rulecache1).
     case AlertSubscribe_DB2FE L (AlertSubscribe_FillDatasourceIds L b2) of
       (Some e, _) \<Rightarrow> stop (Danger e) | (None, b3) \<Rightarrow> ret (b3, ugcache1, rulecache1)))"

fun fill_subscribes :: "rule_lib \<Rightarrow> AlertSubscribe list \<Rightarrow> (int, UserGroup) go_map \<Rightarrow> (int, string) go_map \<Rightarrow> AlertSubscribe list center_act" where
  "fill_subscribes L [] ugcache rulecache = ret []"
| "fill_subscribes L (b # bs) ugcache rulecache =
     bind_act (fill_subscribe L b ugcache rulecache) (\<lambda>(b1, ugcache1, rulecache1).
     bind_act (fill_subscribes L bs ugcache1 rulecache1) (\<lambda>bs1. ret (b1 # bs1)))"

definition alertSubscribeGets :: "rule_lib \<Rightarrow> request \<Rightarrow> AlertSubscribe list reply center_act" where
  "alertSubscribeGets L rq =
     bind_act (UrlParamInt64 rq ''id'') (\<lambda>bgid.
     bind_act (dangerous (AlertSubscribeGets bgid)) (\<lambda>lst.
     bind_act (fill_subscribes L lst [] []) (\<lambda>lst1. ret (Data lst1))))"

definition alertSubscribeGet :: "rule_lib \<Rightarrow> request \<Rightarrow> AlertSubscribe reply center_act" where
  "alertSubscribeGet L rq =
     bind_act (UrlParamInt64 rq ''sid'') (\<lambda>subid.
     bind_act (dangerous (AlertSubscribeGet (\<lambda>b. as_Id b = subid))) (\<lambda>r.
     case r of None \<Rightarrow> not_found ''No such alert subscribe''
     | Some b \<Rightarrow> bind_act (fill_subscribe L b [] []) (\<lambda>(b1, x). ret (Data b1))))"

definition alertSubscribeAdd :: "rule_lib \<Rightarrow> request \<Rightarrow> AlertSubscribe \<Rightarrow> gin_ctx \<Rightarrow> unit reply center_act" where
  "alertSubscribeAdd L rq f c =
     bind_act (must_get ''username'' (gc_username c)) (\<lambda>username.
     bind_act (UrlParamInt64 rq ''id'') (\<lambda>bgid.
     if bgid \<le> 0 then stop (Bomb 400 ''group_id invalid'')
     else render_message (AlertSubscribe_Add L (f\<lparr>as_CreateBy := username, as_UpdateBy := username, as_GroupId := bgid\<rparr>))))"

definition subscribe_columns :: "AlertSubscribe \<Rightarrow> AlertSubscribe \<Rightarrow> AlertSubscribe" where
  "subscribe_columns b r = r\<lparr>as_Name := as_Name b, as_Disabled := as_Disabled b, as_Prod := as_Prod b, as_Cate := as_Cate b,
     as_DatasourceIds := as_DatasourceIds b, as_Cluster := as_Cluster b, as_RuleId := as_RuleId b, as_Tags := as_Tags b,
     as_RedefineSeverity := as_RedefineSeverity b, as_NewSeverity := as_NewSeverity b, as_RedefineChannels := as_RedefineChannels b,
     as_NewChannels := as_NewChannels b, as_UserGroupIds := as_UserGroupIds b, as_UpdateAt := as_UpdateAt b, as_UpdateBy := as_UpdateBy b,
     as_Webhooks := as_Webhooks b, as_ForDuration := as_ForDuration b, as_RedefineWebhooks := as_RedefineWebhooks b,
     as_Severities := as_Severities b, as_ExtraConfig := as_ExtraConfig b, as_BusiGroups := as_BusiGroups b\<rparr>"

definition alertSubscribePut :: "rule_lib \<Rightarrow> AlertSubscribe list \<Rightarrow> gin_ctx \<Rightarrow> unit reply center_act" where
  "alertSubscribePut L fs c =
     bind_act Now_Unix (\<lambda>timestamp.
     bind_act (must_get ''username'' (gc_username c)) (\<lambda>username.
     bind_act (each (\<lambda>f. dangerous (AlertSubscribe_Update L subscribe_columns (f\<lparr>as_UpdateBy := username, as_UpdateAt := timestamp\<rparr>))) fs) (\<lambda>_.
     ret (Message 200 ''''))))"

definition alertSubscribeDel :: "int list \<Rightarrow> unit reply center_act" where
  "alertSubscribeDel ids = bind_act (ids_form ids) (\<lambda>_. render_message (AlertSubscribeDel ids))"

definition alertSubscribeGetsByService :: "rule_lib \<Rightarrow> AlertSubscribe list reply center_act" where
  "alertSubscribeGetsByService L = render_data (AlertSubscribeGetsByService L)"

subsection \<open>Recording rules\<close>

definition recordingRuleGets :: "center_router \<Rightarrow> rule_lib \<Rightarrow> request \<Rightarrow> RecordingRule list reply center_act" where
  "recordingRuleGets R L rq = bind_act (UrlParamInt64 rq ''id'') (\<lambda>busiGroupId. render_data (RecordingRuleGets R L busiGroupId))"

definition recordingRuleGetsByService :: "rule_lib \<Rightarrow> RecordingRule list reply center_act" where
  "recordingRuleGetsByService L = render_data (RecordingRuleEnabledGets L)"

definition recordingRuleGet :: "rule_lib \<Rightarrow> request \<Rightarrow> RecordingRule reply center_act" where
  "recordingRuleGet L rq =
     bind_act (UrlParamInt64 rq ''rrid'') (\<lambda>rrid.
     bind_act (dangerous (RecordingRuleGetById L rrid)) (\<lambda>r.
     case r of None \<Rightarrow> not_found ''No such recording rule'' | Some ar \<Rightarrow> ret (Data ar)))"

fun add_records :: "rule_lib \<Rightarrow> (RecordingRule \<Rightarrow> RecordingRule) \<Rightarrow> RecordingRule list \<Rightarrow> (string, string) go_map \<Rightarrow> (string, string) go_map center_act" where
  "add_records L prepare [] reterr = ret reterr"
| "add_records L prepare (r # lst) reterr =
     (let re = RecordingRule_FE2DB (rl_records L) (prepare r) in
      bind_act (attempt (RecordingRule_Add L re)) (\<lambda>x.
      add_records L prepare lst (go_set (rr_Name re) (case x of Inl e \<Rightarrow> e | Inr _ \<Rightarrow> '''') reterr)))"

definition recordingRuleAddByFE :: "rule_lib \<Rightarrow> request \<Rightarrow> RecordingRule list \<Rightarrow> gin_ctx \<Rightarrow> (string, string) go_map reply center_act" where
  "recordingRuleAddByFE L rq lst c =
     bind_act (must_get ''username'' (gc_username c)) (\<lambda>username.
     if length lst = 0 then stop (Bomb 400 ''input json is empty'')
     else bind_act (UrlParamInt64 rq ''id'') (\<lambda>bgid.
     bind_act (add_records L (\<lambda>r. r\<lparr>rr_Id := 0, rr_GroupId := bgid, rr_CreateBy := username, rr_UpdateBy := username\<rparr>) lst []) (\<lambda>reterr.
     ret (Data reterr))))"

definition recordingRulePutByFE :: "rule_lib \<Rightarrow> request \<Rightarrow> RecordingRule \<Rightarrow> gin_ctx \<Rightarrow> unit reply center_act" where
  "recordingRulePutByFE L rq f c =
     bind_act (UrlParamInt64 rq ''rrid'') (\<lambda>rrid.
     bind_act (dangerous (RecordingRuleGetById L rrid)) (\<lambda>r.
     case r of None \<Rightarrow> not_found ''No such recording rule''
     | Some ar \<Rightarrow>
        bind_act (bgrwCheck (rr_GroupId ar) c) (\<lambda>c1.
        bind_act (must_get ''username'' (gc_username c1)) (\<lambda>username.
        render_message (RecordingRule_Update L ar (f\<lparr>rr_UpdateBy := username\<rparr>))))))"

definition recordingRuleDel :: "request \<Rightarrow> int list \<Rightarrow> unit reply center_act" where
  "recordingRuleDel rq ids =
     bind_act (ids_form ids) (\<lambda>_. bind_act (UrlParamInt64 rq ''id'') (\<lambda>bgid. render_message (RecordingRuleDels ids bgid)))"

text \<open>The data sources come as a text of numbers and are stored as JSON.\<close>

definition datasource_field :: "rule_lib \<Rightarrow> (string, json) go_map \<Rightarrow> (string, json) go_map center_act" where
  "datasource_field L flds =
     (case go_get flds ''datasource_ids'' of None \<Rightarrow> ret flds
      | Some (JStr t) \<Rightarrow>
         if list_ex (\<lambda>i. ParseInt i = None) (Fields t) then stop (Bomb 400 ''datasource_ids error'')
         else ret (go_set ''datasource_ids'' (JStr (rl_marshal_ints L (List.map_filter ParseInt (Fields t)))) flds)
      | Some _ \<Rightarrow> stop (Crash Type_assertion))"

definition recordingRulePutFields :: "rule_lib \<Rightarrow> fieldForm \<Rightarrow> gin_ctx \<Rightarrow> unit reply center_act" where
  "recordingRulePutFields L f c =
     (if length (ff_Fields f) = 0 then stop (Bomb 400 ''fields empty'')
      else bind_act (must_get ''username'' (gc_username c)) (\<lambda>username.
      bind_act Now_Unix (\<lambda>now.
      bind_act (datasource_field L (stamped username now (ff_Fields f))) (\<lambda>flds.
      bind_act (each (\<lambda>i. bind_act (dangerous (RecordingRuleGetById L i)) (\<lambda>r.
        case r of None \<Rightarrow> ret () | Some ar \<Rightarrow> dangerous (RecordingRule_UpdateFieldsMap L ar flds))) (ff_Ids f)) (\<lambda>_.
      ret (Message 200 ''''))))))"

subsection \<open>Routes\<close>

text \<open>The data of an answer is left out, as in \<open>serve\<close>.\<close>

datatype rule_call =
    Rules_get | Rules_post "rule_form list" | Rules_import "rule_form list" | Rules_delete "int list"
  | Rules_fields "(string \<times> json) range_order" alertRuleFieldForm | Rule_put rule_form | Rule_get | Rule_validate AlertRule
  | Records_get | Records_post "RecordingRule list" | Records_delete "int list" | Record_put RecordingRule | Record_get | Records_fields fieldForm
  | Mutes_get | Mutes_preview bool AlertMute | Mutes_post AlertMute | Mutes_delete "int list" | Mute_put AlertMute | Mutes_fields fieldForm
  | Subscribes_get | Subscribe_get | Subscribes_post AlertSubscribe | Subscribes_put "AlertSubscribe list" | Subscribes_delete "int list"

text \<open>The caches of teams and users and the reader of contacts that the validation of a rule uses.\<close>

record rule_caches =
  rx_contacts :: nlib
  rx_groups :: "(int, UserGroup) cache"
  rx_users :: "(int, User) cache"

fun rule_route :: "center_router \<Rightarrow> rule_lib \<Rightarrow> rule_caches \<Rightarrow> request \<Rightarrow> rule_call \<Rightarrow> guard list \<times> (gin_ctx \<Rightarrow> unit reply center_act)" where
  "rule_route R L X rq Rules_get = ([Mw_user, Mw_perm ''/alert-rules''], (\<lambda>c. answered (alertRuleGets R L rq)))"
| "rule_route R L X rq (Rules_post lst) = ([Mw_user, Mw_perm ''/alert-rules/add'', Mw_bgrw], (\<lambda>c. answered (alertRuleAddByFE L rq lst c)))"
| "rule_route R L X rq (Rules_import lst) = ([Mw_user, Mw_perm ''/alert-rules/add'', Mw_bgrw], (\<lambda>c. answered (alertRuleAddByImport L rq lst c)))"
| "rule_route R L X rq (Rules_delete ids) = ([Mw_user, Mw_perm ''/alert-rules/del'', Mw_bgrw], (\<lambda>c. alertRuleDel rq ids))"
| "rule_route R L X rq (Rules_fields ord f) = ([Mw_user, Mw_perm ''/alert-rules/put'', Mw_bgrw], alertRulePutFields L ord f)"
| "rule_route R L X rq (Rule_put f) = ([Mw_user, Mw_perm ''/alert-rules/put''], alertRulePutByFE L rq f)"
| "rule_route R L X rq Rule_get = ([Mw_user, Mw_perm ''/alert-rules''], (\<lambda>c. answered (alertRuleGet L rq)))"
| "rule_route R L X rq (Rule_validate f) =
     ([Mw_user, Mw_perm ''/alert-rules/put''], (\<lambda>c. alertRuleValidation (rx_contacts X) (rx_groups X) (rx_users X) f))"
| "rule_route R L X rq Records_get = ([Mw_user, Mw_perm ''/recording-rules''], (\<lambda>c. answered (recordingRuleGets R L rq)))"
| "rule_route R L X rq (Records_post lst) = ([Mw_user, Mw_perm ''/recording-rules/add'', Mw_bgrw], (\<lambda>c. answered (recordingRuleAddByFE L rq lst c)))"
| "rule_route R L X rq (Records_delete ids) = ([Mw_user, Mw_perm ''/recording-rules/del'', Mw_bgrw], (\<lambda>c. recordingRuleDel rq ids))"
| "rule_route R L X rq (Record_put f) = ([Mw_user, Mw_perm ''/recording-rules/put'', Mw_bgrw], recordingRulePutByFE L rq f)"
| "rule_route R L X rq Record_get = ([Mw_user, Mw_perm ''/recording-rules''], (\<lambda>c. answered (recordingRuleGet L rq)))"
| "rule_route R L X rq (Records_fields f) = ([Mw_user, Mw_perm ''/recording-rules/put''], recordingRulePutFields L f)"
| "rule_route R L X rq Mutes_get = ([Mw_user, Mw_perm ''/alert-mutes'', Mw_bgro], (\<lambda>c. answered (alertMuteGetsByBG L rq)))"
| "rule_route R L X rq (Mutes_preview ids_given f) =
     ([Mw_user, Mw_perm ''/alert-mutes/add'', Mw_bgrw], (\<lambda>c. answered (alertMutePreview L rq ids_given f)))"
| "rule_route R L X rq (Mutes_post f) = ([Mw_user, Mw_perm ''/alert-mutes/add'', Mw_bgrw], alertMuteAdd L rq f)"
| "rule_route R L X rq (Mutes_delete ids) = ([Mw_user, Mw_perm ''/alert-mutes/del'', Mw_bgrw], (\<lambda>c. alertMuteDel ids))"
| "rule_route R L X rq (Mute_put f) = ([Mw_user, Mw_perm ''/alert-mutes/put''], alertMutePutByFE L rq f)"
| "rule_route R L X rq (Mutes_fields f) = ([Mw_user, Mw_perm ''/alert-mutes/put'', Mw_bgrw], alertMutePutFields L f)"
| "rule_route R L X rq Subscribes_get = ([Mw_user, Mw_perm ''/alert-subscribes'', Mw_bgro], (\<lambda>c. answered (alertSubscribeGets L rq)))"
| "rule_route R L X rq Subscribe_get = ([Mw_user, Mw_perm ''/alert-subscribes''], (\<lambda>c. answered (alertSubscribeGet L rq)))"
| "rule_route R L X rq (Subscribes_post f) = ([Mw_user, Mw_perm ''/alert-subscribes/add'', Mw_bgrw], alertSubscribeAdd L rq f)"
| "rule_route R L X rq (Subscribes_put fs) = ([Mw_user, Mw_perm ''/alert-subscribes/put'', Mw_bgrw], alertSubscribePut L fs)"
| "rule_route R L X rq (Subscribes_delete ids) = ([Mw_user, Mw_perm ''/alert-subscribes/del'', Mw_bgrw], (\<lambda>c. alertSubscribeDel ids))"

definition serve_rule :: "center_router \<Rightarrow> rule_lib \<Rightarrow> rule_caches \<Rightarrow> request \<Rightarrow> rule_call \<Rightarrow> unit reply center_act" where
  "serve_rule R L X rq call = (case rule_route R L X rq call of (guards, handler) \<Rightarrow> chain (auth R rq # map (mw rq) guards) handler)"

end
