(* ===== verification/Rule_Spec.thy ===== *)
theory Rule_Spec
  imports Host_Spec Rule_Pages
begin

text \<open>
  What the pages for rules guarantee about the tables of alerting rules, mutes, subscriptions and
  recording rules. The locale \<open>rule_rows\<close> states what a property of these tables must satisfy to
  hold after every request that acts on one group: rows may be added and replaced once they are
  verified, and deleted, in groups the user may write. It is interpreted twice: the rows of other
  groups do not change, and all rows are valid.
\<close>

subsection \<open>Verified rows\<close>

lemma AlertRule_Verify_frame:
  "AlertRule_Verify L a = Inr a' \<Longrightarrow> ar_Id a' = ar_Id a \<and> ar_GroupId a' = ar_GroupId a"
  by (auto simp: AlertRule_Verify_def Let_def fix_datasources_def fix_prod_def fix_cate_def fix_interval_def split: if_splits option.splits)

lemma rule_valid_row: "rule_valid a \<Longrightarrow> rule_valid (rule_row (a\<lparr>ar_CreateAt := t, ar_UpdateAt := t'\<rparr>))" "rule_valid a \<Longrightarrow> rule_valid (rule_row a)"
  by (simp_all add: rule_valid_def rule_row_def)

lemma rule_row_frame [simp]: "ar_Id (rule_row a) = ar_Id a" "ar_GroupId (rule_row a) = ar_GroupId a"
  by (simp_all add: rule_row_def)

lemmas fe_defs = fe_times_def fe_days_def fe_lists_def fe_datasources_def fe_config_def fe_annotations_def fe_extra_def
lemmas db_defs = db_times_def db_days_def db_lists_def AlertRule_FillDatasourceIds_def

lemma fe_frame [simp]:
  "ar_Id (fe_times a) = ar_Id a" "ar_Id (fe_days a) = ar_Id a" "ar_Id (fe_lists L a) = ar_Id a" "ar_Id (fe_datasources L a) = ar_Id a"
  "ar_Id (fe_config L a) = ar_Id a" "ar_Id (fe_annotations L b a) = ar_Id a" "ar_Id (fe_extra L a) = ar_Id a"
  "ar_GroupId (fe_times a) = ar_GroupId a" "ar_GroupId (fe_days a) = ar_GroupId a" "ar_GroupId (fe_lists L a) = ar_GroupId a"
  "ar_GroupId (fe_datasources L a) = ar_GroupId a" "ar_GroupId (fe_config L a) = ar_GroupId a"
  "ar_GroupId (fe_annotations L b a) = ar_GroupId a" "ar_GroupId (fe_extra L a) = ar_GroupId a"
  by (simp_all add: fe_defs Let_def)

lemma FE2DB_frame: "ar_Id (AlertRule_FE2DB L b a) = ar_Id a" "ar_GroupId (AlertRule_FE2DB L b a) = ar_GroupId a"
  by (simp_all add: AlertRule_FE2DB_def)

lemma DB2FE_frame:
  assumes "AlertRule_DB2FE L r = Inr ar"
  shows "ar_Id ar = ar_Id r" "ar_GroupId ar = ar_GroupId r" "ar_NotifyGroupsJSON ar = Fields (ar_NotifyGroups r)"
  using assms by (auto simp: AlertRule_DB2FE_def db_defs Let_def res_bind_def split: if_splits)

definition mute_ok :: "rule_lib \<Rightarrow> AlertMute \<Rightarrow> bool" where
  "mute_ok L m \<longleftrightarrow> 0 \<le> am_GroupId m \<and> am_Btime m < am_Etime m \<and> (\<exists>fs. GetTagFilters (rl_lib L) (am_Tags m) = Some fs \<and> fs \<noteq> [])"

definition subscribe_ok :: "rule_lib \<Rightarrow> AlertSubscribe \<Rightarrow> bool" where
  "subscribe_ok L b \<longleftrightarrow> GetTagFilters (rl_lib L) (as_Tags b) \<noteq> None \<and> GetTagFilters (rl_lib L) (as_BusiGroups b) \<noteq> None \<and>
     (\<forall>g \<in> set (Fields (as_UserGroupIds b)). ParseInt g \<noteq> None)"

definition record_ok :: "rule_lib \<Rightarrow> RecordingRule \<Rightarrow> bool" where
  "record_ok L r \<longleftrightarrow> 0 \<le> rr_GroupId r \<and> 0 < rr_PromEvalInterval r \<and> (\<forall>t \<in> set (Fields (rr_AppendTags r)). tag_valid (rl_names L) t)"

lemma ok_ids [simp]:
  "rule_valid (r\<lparr>ar_Id := i\<rparr>) = rule_valid r" "mute_ok L (m\<lparr>am_Id := i\<rparr>) = mute_ok L m"
  "subscribe_ok L (b\<lparr>as_Id := i\<rparr>) = subscribe_ok L b" "record_ok L (re\<lparr>rr_Id := i\<rparr>) = record_ok L re"
  by (simp_all add: rule_valid_def mute_ok_def subscribe_ok_def record_ok_def)

lemma AlertMute_Verify_row:
  assumes "AlertMute_Verify (rl_lib L) m = Inr m'"
  shows "am_Id m' = am_Id m" "am_GroupId m' = am_GroupId m" "mute_ok L (mute_row ((AlertMute_FE2DB L m')\<lparr>am_CreateAt := t, am_UpdateAt := t'\<rparr>))"
    "mute_ok L (mute_row (AlertMute_FE2DB L m'))"
  using assms by (auto simp: AlertMute_Verify_def AlertMute_Parse_def mute_ok_def mute_row_def AlertMute_FE2DB_def Let_def split: if_splits option.splits)

lemma AlertSubscribe_Verify_row:
  assumes "AlertSubscribe_Verify (rl_lib L) b = Inr b'"
  shows "as_Id b' = as_Id b" "as_GroupId b' = as_GroupId b" "subscribe_ok L (subscribe_row ((AlertSubscribe_FE2DB L b')\<lparr>as_CreateAt := t, as_UpdateAt := t'\<rparr>))"
    "subscribe_ok L (AlertSubscribe_FE2DB L b')"
  using assms by (auto simp: AlertSubscribe_Verify_def AlertSubscribe_Parse_def subscribe_ok_def subscribe_row_def AlertSubscribe_FE2DB_def check_gids_None Let_def
      split: if_splits option.splits)

lemma RecordingRule_Verify_row:
  assumes "RecordingRule_Verify (rl_names L) r = Inr r'"
  shows "rr_Id r' = rr_Id r" "rr_GroupId r' = rr_GroupId r" "record_ok L (record_row (r'\<lparr>rr_CreateAt := t, rr_UpdateAt := t'\<rparr>))"
    "record_ok L (record_row r')"
proof -
  show "rr_Id r' = rr_Id r" "rr_GroupId r' = rr_GroupId r"
    using assms by (auto simp: RecordingRule_Verify_def Let_def split: if_splits option.splits)
  have "0 \<le> rr_GroupId r'" "0 < rr_PromEvalInterval r'"
    using assms by (auto simp: RecordingRule_Verify_def Let_def split: if_splits option.splits)
  then show "record_ok L (record_row (r'\<lparr>rr_CreateAt := t, rr_UpdateAt := t'\<rparr>))" "record_ok L (record_row r')"
    using RecordingRule_Verify_tags [OF assms] by (simp_all add: record_ok_def record_row_def)
qed

subsection \<open>Properties of one table\<close>

text \<open>
  A property \<open>P\<close> of the rows of a table that survives adding and replacing verified rows and deleting
  rows, in groups with \<open>W\<close>.
\<close>

locale owned_rows =
  fixes P :: "'r list \<Rightarrow> bool" and ok :: "'r \<Rightarrow> bool" and key :: "'r \<Rightarrow> int" and grp :: "'r \<Rightarrow> int" and W :: "int \<Rightarrow> bool"
  assumes add: "P rows \<Longrightarrow> ok r \<Longrightarrow> W (grp r) \<Longrightarrow> key r \<notin> key ` set rows \<Longrightarrow> P (rows @ [r])"
    and put: "P rows \<Longrightarrow> x \<in> set rows \<Longrightarrow> W (grp x) \<Longrightarrow> ok r \<Longrightarrow> key r = key x \<Longrightarrow> grp r = grp x \<Longrightarrow>
      P (update_where (\<lambda>y. key y = key x) (\<lambda>_. r) rows)"
    and del: "P rows \<Longrightarrow> W g \<Longrightarrow> P (filter (\<lambda>r. \<not> (key r = i \<and> grp r = g)) rows)"

text \<open>The rows of groups without \<open>W\<close> satisfy \<open>Q\<close>; the keys are unique.\<close>

definition foreign :: "(int \<Rightarrow> bool) \<Rightarrow> ('r \<Rightarrow> int) \<Rightarrow> 'r list \<Rightarrow> 'r list" where
  "foreign W grp rows = filter (\<lambda>r. \<not> W (grp r)) rows"

definition outside :: "(int \<Rightarrow> bool) \<Rightarrow> ('r \<Rightarrow> int) \<Rightarrow> ('r \<Rightarrow> int) \<Rightarrow> ('r list \<Rightarrow> bool) \<Rightarrow> 'r list \<Rightarrow> bool" where
  "outside W key grp Q rows \<longleftrightarrow> Q (foreign W grp rows) \<and> distinct (map key rows)"

lemma update_where_keys: "(\<And>y. p y \<Longrightarrow> y \<in> set rows \<Longrightarrow> key (f y) = key y) \<Longrightarrow> map key (update_where p f rows) = map key rows"
  by (induction rows) (auto simp: update_where_def)

lemma foreign_update:
  "(\<And>y. y \<in> set rows \<Longrightarrow> p y \<Longrightarrow> (W (grp (f y)) \<longleftrightarrow> W (grp y)) \<and> (W (grp y) \<or> f y = y)) \<Longrightarrow>
   foreign W grp (update_where p f rows) = foreign W grp rows"
  by (induction rows) (auto simp: foreign_def update_where_def)

lemma outside_owned: "owned_rows (outside W key grp Q) ok key grp W"
proof
  show "outside W key grp Q (rows @ [r])"
    if "outside W key grp Q rows" "W (grp r)" "key r \<notin> key ` set rows" for rows r
    using that by (simp add: outside_def foreign_def)
next
  fix rows x r
  assume u: "outside W key grp Q rows" and x: "x \<in> set rows" "W (grp x)" and r: "key r = key x" "grp r = grp x"
  have "y = x" if "y \<in> set rows" "key y = key x" for y
    using u x(1) that by (auto simp: outside_def distinct_map dest: inj_onD)
  then have "foreign W grp (update_where (\<lambda>y. key y = key x) (\<lambda>_. r) rows) = foreign W grp rows"
    using x r by (intro foreign_update) auto
  moreover have "map key (update_where (\<lambda>y. key y = key x) (\<lambda>_. r) rows) = map key rows" using r by (intro update_where_keys) simp
  ultimately show "outside W key grp Q (update_where (\<lambda>y. key y = key x) (\<lambda>_. r) rows)" using u by (simp add: outside_def)
next
  fix rows g i
  assume u: "outside W key grp Q rows" "W g"
  then have "filter (\<lambda>r. \<not> W (grp r)) (filter (\<lambda>r. \<not> (key r = i \<and> grp r = g)) rows) = filter (\<lambda>r. \<not> W (grp r)) rows"
    by (auto simp: filter_filter intro!: filter_cong)
  then show "outside W key grp Q (filter (\<lambda>r. \<not> (key r = i \<and> grp r = g)) rows)"
    using u by (simp add: outside_def foreign_def distinct_map_filter)
qed

lemma valid_owned: "owned_rows (\<lambda>rows. \<forall>r \<in> set rows. ok r) ok key grp W"
  by unfold_locales (auto simp: set_update_where)

subsection \<open>The four tables\<close>

context table_invariant
begin

lemma under_fact: "(\<And>s. I s \<Longrightarrow> P s \<Longrightarrow> Q) \<Longrightarrow> (Q \<Longrightarrow> under P m) \<Longrightarrow> under P m"
  by (auto simp: under_def)

lemma under_weaken: "under Q m \<Longrightarrow> (\<And>s. I s \<Longrightarrow> P s \<Longrightarrow> Q s) \<Longrightarrow> under P m"
  by (auto simp: under_def)

lemma preserves_statement: "(\<And>a s. I s \<Longrightarrow> I (snd (f a s))) \<Longrightarrow> preserves I (statement f)"
  by (rule under_all, rule under_statement) (simp_all add: steady_def)

end

lemma preserves_bind_result:
  assumes "preserves I m" and "\<And>x s t. I s \<Longrightarrow> m s = (Inr x, t) \<Longrightarrow> Q x" and "\<And>x. Q x \<Longrightarrow> preserves I (f x)"
  shows "preserves I (bind_act m f)"
  unfolding preserves_def
proof (intro allI impI)
  fix s
  assume I: "I s"
  obtain r t where m: "m s = (r, t)" by (cases "m s")
  then have "I t" using assms(1) I by (auto simp: preserves_def)
  then show "I (snd (bind_act m f s))" using m I assms(2,3) by (cases r) (auto simp: bind_act_def preserves_def)
qed

lemma seen: "sees m v \<Longrightarrow> m s = (Inr x, t) \<Longrightarrow> v s = Inr x"
  using sees_outcome [of m v s] by force

lemma steady_rules [simp]:
  "steady ce_alert_rule" "steady ce_alert_mute" "steady ce_alert_subscribe" "steady ce_recording_rule"
  "steady (\<lambda>s. g1 (ce_alert_rule s))" "steady (\<lambda>s. g2 (ce_alert_mute s))" "steady (\<lambda>s. g3 (ce_alert_subscribe s))" "steady (\<lambda>s. g4 (ce_recording_rule s))"
  by (simp_all add: steady_def)

text \<open>What the permission check of a handler establishes for the user of the request.\<close>

definition rights :: "(int \<Rightarrow> bool) \<Rightarrow> User \<Rightarrow> center \<Rightarrow> bool" where
  "rights W u s \<longleftrightarrow> (\<forall>g bg. group_with s g = Some bg \<longrightarrow> may_group s u [''rw''] bg \<longrightarrow> W g)"

lemma rights_frame [simp]:
  "rights W u (s\<lparr>ce_alert_rule := a\<rparr>) = rights W u s" "rights W u (s\<lparr>ce_alert_mute := b\<rparr>) = rights W u s"
  "rights W u (s\<lparr>ce_alert_subscribe := c\<rparr>) = rights W u s" "rights W u (s\<lparr>ce_recording_rule := d\<rparr>) = rights W u s"
  "rights W u (s\<lparr>ce_step := n\<rparr>) = rights W u s" "rights W u (s\<lparr>ce_alert_cur_event := e\<rparr>) = rights W u s"
  by (simp_all add: rights_def group_with_def may_group_def member_of_def)

locale rule_rows =
  ra: owned_rows A rule_valid ar_Id ar_GroupId W +
  rb: owned_rows B "mute_ok L" am_Id am_GroupId W +
  rc: owned_rows C "subscribe_ok L" as_Id as_GroupId W +
  rd: owned_rows D "record_ok L" rr_Id rr_GroupId W
  for A :: "AlertRule list \<Rightarrow> bool" and B :: "AlertMute list \<Rightarrow> bool" and C :: "AlertSubscribe list \<Rightarrow> bool" and D :: "RecordingRule list \<Rightarrow> bool"
    and L :: rule_lib and W :: "int \<Rightarrow> bool"
begin

definition rows_inv :: "User \<Rightarrow> center \<Rightarrow> bool" where
  "rows_inv u s \<longleftrightarrow> A (ce_alert_rule s) \<and> B (ce_alert_mute s) \<and> C (ce_alert_subscribe s) \<and> D (ce_recording_rule s) \<and> rights W u s"

end

sublocale rule_rows \<subseteq> ti: table_invariant "rows_inv u" for u
  by unfold_locales (simp add: rows_inv_def)

lemma reads_rule_lookups [sat_rules]:
  "reads (panicking x)" "reads (checked y)" "reads (map_panicking f xs)" "reads (AlertRuleExists L i g ds n)" "reads (AlertRuleGetById L i)"
  "reads (AlertRuleGets R L g)" "reads (AlertRuleGetName i)"
  "reads (AlertMuteGetById L i)" "reads (AlertMuteGetsByBG L g)" "reads (AlertCurEventGetsFromAlertMute b m)"
  "reads (AlertSubscribeGets g)" "reads (AlertSubscribeGet sp)" "reads (RecordingRuleGetById L i)" "reads (RecordingRuleGets R L g)"
  "reads (ids_form ids)" "reads (not_found msg)" "reads (FillRuleName sub rcache)"
  by (auto simp: panicking_def checked_def map_panicking_def AlertRuleExists_def AlertRuleGetById_def AlertRuleGet_def AlertRuleGets_def AlertRuleGetName_def
      AlertMuteGetById_def AlertMuteGet_def AlertMuteGetsByBG_def AlertCurEventGetsFromAlertMute_def AlertSubscribeGets_def AlertSubscribeGet_def
      RecordingRuleGetById_def RecordingRuleGet_def RecordingRuleGets_def ids_form_def not_found_def FillRuleName_def Let_def
      intro!: sat_rules)

lemma reads_bgrwCheck [sat_rules]: "reads (bgrwCheck g c)"
  unfolding bgrwCheck_def group_check_def router_BusiGroup_def load_def allow_def by (intro sat_rules)

lemma reads_fill_groups [sat_rules]: "reads (fill_groups gs ex objs del cache)"
  by (induction gs ex objs del cache rule: fill_groups.induct) (auto intro!: sat_rules split: option.split)

lemma sees_checks:
  "sees (checked x) (\<lambda>s. case x of Inl e \<Rightarrow> Inl (Err e) | Inr y \<Rightarrow> Inr y)" "sees (panicking z) (\<lambda>s. case z of Inl p \<Rightarrow> Inl (Crash p) | Inr y \<Rightarrow> Inr y)"
  by (cases x; simp add: checked_def sees_ret sees_stop) (cases z; simp add: panicking_def sees_ret sees_stop)

lemma sees_bgrwCheck:
  "gc_user c = Some (fill_roles u) \<Longrightarrow>
   sees (bgrwCheck g c) (\<lambda>s. case group_with s g of None \<Rightarrow> Inl (Bomb 404 ''No such BusiGroup'')
     | Some bg \<Rightarrow> if may_group s u [''rw''] bg then Inr (c\<lparr>gc_busi_group := Some bg\<rparr>) else Inl (Bomb 403 ''forbidden''))"
  unfolding bgrwCheck_def group_check_def router_BusiGroup_def must_get_def
  by (rule sees_eq, simp, rule sees_bind [OF sees_load [OF sees_lookups(3)]], rule sees_allow [OF sees_CanDoBusiGroup]) (auto split: option.split)

text \<open>A row that was found by a condition: the row itself is in the table.\<close>

lemma sees_found:
  "sees (AlertRuleGetById L i) (\<lambda>s. case first (filter (\<lambda>r. ar_Id r = i) (ce_alert_rule s)) of None \<Rightarrow> Inr None
     | Some r \<Rightarrow> (case AlertRule_DB2FE L r of Inl p \<Rightarrow> Inl (Crash p) | Inr ar \<Rightarrow> Inr (Some ar)))"
  "sees (AlertMuteGetById L i) (\<lambda>s. case first (filter (\<lambda>m. am_Id m = i) (ce_alert_mute s)) of None \<Rightarrow> Inr None
     | Some m \<Rightarrow> (case AlertMute_DB2FE L m of (Some e, _) \<Rightarrow> Inl (Err e) | (None, m1) \<Rightarrow> Inr (Some m1)))"
  "sees (RecordingRuleGetById L i) (\<lambda>s. Inr (map_option (RecordingRule_DB2FE (rl_records L)) (first (filter (\<lambda>r. rr_Id r = i) (ce_recording_rule s)))))"
proof -
  have m: "sees (case AlertMute_DB2FE L m of (Some e, _) \<Rightarrow> stop (Err e) | (None, m1) \<Rightarrow> ret (Some m1))
      (\<lambda>s. case AlertMute_DB2FE L m of (Some e, _) \<Rightarrow> Inl (Err e) | (None, m1) \<Rightarrow> Inr (Some m1))" for m
    by (cases "AlertMute_DB2FE L m"; cases "fst (AlertMute_DB2FE L m)") (auto intro: sees_ret sees_stop)
  show "sees (AlertRuleGetById L i) (\<lambda>s. case first (filter (\<lambda>r. ar_Id r = i) (ce_alert_rule s)) of None \<Rightarrow> Inr None
     | Some r \<Rightarrow> (case AlertRule_DB2FE L r of Inl p \<Rightarrow> Inl (Crash p) | Inr ar \<Rightarrow> Inr (Some ar)))"
    unfolding AlertRuleGetById_def AlertRuleGet_def Find_def
    by (rule sees_eq, (rule sees_checks sees_intros steady_rules)+) (simp split: option.split sum.split)
  show "sees (AlertMuteGetById L i) (\<lambda>s. case first (filter (\<lambda>m. am_Id m = i) (ce_alert_mute s)) of None \<Rightarrow> Inr None
     | Some m \<Rightarrow> (case AlertMute_DB2FE L m of (Some e, _) \<Rightarrow> Inl (Err e) | (None, m1) \<Rightarrow> Inr (Some m1)))"
    unfolding AlertMuteGetById_def AlertMuteGet_def Find_def
    by (rule sees_eq, (rule m sees_intros steady_rules)+) (simp split: option.split)
  show "sees (RecordingRuleGetById L i) (\<lambda>s. Inr (map_option (RecordingRule_DB2FE (rl_records L)) (first (filter (\<lambda>r. rr_Id r = i) (ce_recording_rule s)))))"
    unfolding RecordingRuleGetById_def RecordingRuleGet_def Find_def
    by (rule sees_eq, (rule sees_intros steady_rules)+) simp
qed

lemma mute_frames: "AlertMute_DB2FE L m = (e, m1) \<Longrightarrow> am_Id m1 = am_Id m \<and> am_GroupId m1 = am_GroupId m"
  "am_Id (mute_row (AlertMute_FE2DB L m2)) = am_Id m2" "am_GroupId (mute_row (AlertMute_FE2DB L m2)) = am_GroupId m2"
  by (auto simp: AlertMute_DB2FE_def mute_row_def AlertMute_FE2DB_def Let_def split: if_splits prod.splits)

context rule_rows
begin

lemmas keep_steps = sat_rules ti.preserves_reads

lemma keeps_added:
  "rule_valid r \<Longrightarrow> W (ar_GroupId r) \<Longrightarrow>
     preserves (rows_inv u) (add_row ce_alert_rule (\<lambda>rows s. s\<lparr>ce_alert_rule := rows\<rparr>) ar_Id (\<lambda>i r. r\<lparr>ar_Id := i\<rparr>) r)"
  "mute_ok L m \<Longrightarrow> W (am_GroupId m) \<Longrightarrow>
     preserves (rows_inv u) (add_row ce_alert_mute (\<lambda>rows s. s\<lparr>ce_alert_mute := rows\<rparr>) am_Id (\<lambda>i r. r\<lparr>am_Id := i\<rparr>) m)"
  "subscribe_ok L b \<Longrightarrow> W (as_GroupId b) \<Longrightarrow>
     preserves (rows_inv u) (add_row ce_alert_subscribe (\<lambda>rows s. s\<lparr>ce_alert_subscribe := rows\<rparr>) as_Id (\<lambda>i r. r\<lparr>as_Id := i\<rparr>) b)"
  "record_ok L re \<Longrightarrow> W (rr_GroupId re) \<Longrightarrow>
     preserves (rows_inv u) (add_row ce_recording_rule (\<lambda>rows s. s\<lparr>ce_recording_rule := rows\<rparr>) rr_Id (\<lambda>i r. r\<lparr>rr_Id := i\<rparr>) re)"
  unfolding add_row_def Let_def
  by (rule ti.preserves_statement; auto simp: rows_inv_def intro!: ra.add rb.add rc.add rd.add)+

lemma keeps_AlertRule_Add: "W (ar_GroupId a) \<Longrightarrow> preserves (rows_inv u) (AlertRule_Add L a)"
proof (cases "AlertRule_Verify (rl_lib L) a")
  case (Inr a')
  assume "W (ar_GroupId a)"
  then have a': "W (ar_GroupId a')" "rule_valid a'" using AlertRule_Verify_frame [OF Inr] AlertRule_Verify_valid [OF Inr] by auto
  show ?thesis
    unfolding AlertRule_Add_def Inr checked_def sum.case bind_ret
    by (intro keep_steps keeps_added) (use a' rule_valid_row [OF a'(2)] in simp_all)
qed (simp add: AlertRule_Add_def checked_def sat_rules)

lemma keeps_other_adds:
  "W (am_GroupId m) \<Longrightarrow> preserves (rows_inv u) (AlertMute_Add L m)"
  "W (as_GroupId b) \<Longrightarrow> preserves (rows_inv u) (AlertSubscribe_Add L b)"
  "W (rr_GroupId re) \<Longrightarrow> preserves (rows_inv u) (RecordingRule_Add L re)"
proof -
  show "preserves (rows_inv u) (AlertMute_Add L m)" if W: "W (am_GroupId m)"
  proof (cases "AlertMute_Verify (rl_lib L) m")
    case (Inr m')
    show ?thesis
      unfolding AlertMute_Add_def Inr checked_def sum.case bind_ret
      by (intro keep_steps keeps_added) (use W AlertMute_Verify_row [OF Inr] in \<open>simp_all add: mute_row_def AlertMute_FE2DB_def Let_def\<close>)
  qed (simp add: AlertMute_Add_def checked_def sat_rules)
  show "preserves (rows_inv u) (AlertSubscribe_Add L b)" if W: "W (as_GroupId b)"
  proof (cases "AlertSubscribe_Verify (rl_lib L) b")
    case (Inr b')
    show ?thesis
      unfolding AlertSubscribe_Add_def Inr checked_def sum.case bind_ret
      by (intro keep_steps keeps_added) (use W AlertSubscribe_Verify_row [OF Inr] in \<open>simp_all add: subscribe_row_def AlertSubscribe_FE2DB_def Let_def\<close>)
  qed (simp add: AlertSubscribe_Add_def checked_def sat_rules)
  show "preserves (rows_inv u) (RecordingRule_Add L re)" if W: "W (rr_GroupId re)"
  proof (cases "RecordingRule_Verify (rl_names L) re")
    case (Inr re')
    show ?thesis
      unfolding RecordingRule_Add_def Inr checked_def sum.case bind_ret
      by (intro keep_steps keeps_added) (use W RecordingRule_Verify_row [OF Inr] in \<open>simp_all add: record_row_def\<close>)
  qed (simp add: RecordingRule_Add_def checked_def sat_rules)
qed

end

lemma steady_member: "steady (\<lambda>s. x \<in> set (ce_alert_rule s))" "steady (\<lambda>s. y \<in> set (ce_alert_mute s))" "steady (\<lambda>s. z \<in> set (ce_recording_rule s))"
  by (simp_all add: steady_def)

lemma snd_render_message: "snd (render_message m s) = snd (m s)"
  by (auto simp: render_message_def bind_act_def attempt_def ret_def split: prod.split sum.split failure.split)

context rule_rows
begin

text \<open>Replacing the row \<open>x\<close> that a handler found, in a group of the user.\<close>

abbreviation keeps_under :: "User \<Rightarrow> (center \<Rightarrow> bool) \<Rightarrow> 'a center_act \<Rightarrow> bool" where
  "keeps_under u \<equiv> table_invariant.under (rows_inv u)"

lemma keeps_AlertRule_Update:
  assumes "ar_Id ar = ar_Id x" "ar_GroupId ar = ar_GroupId x" "W (ar_GroupId x)"
  shows "keeps_under u (\<lambda>s. x \<in> set (ce_alert_rule s)) (AlertRule_Update L ar b f)"
  unfolding AlertRule_Update_def
proof (rule ti.under_reads [OF _ steady_member(1)], (intro keep_steps)[1], rule ti.under_reads [OF reads_lookups(1) steady_member(1)])
  fix y now
  let ?f = "(AlertRule_FE2DB L b f)\<lparr>ar_Id := ar_Id ar, ar_GroupId := ar_GroupId ar, ar_CreateAt := ar_CreateAt ar, ar_CreateBy := ar_CreateBy ar, ar_UpdateAt := now\<rparr>"
  show "keeps_under u (\<lambda>s. x \<in> set (ce_alert_rule s)) (bind_act (checked (AlertRule_Verify (rl_lib L) ?f)) (\<lambda>f1. update_rule (ar_Id ar) (\<lambda>_. rule_row f1)))"
  proof (cases "AlertRule_Verify (rl_lib L) ?f")
    case (Inr f1)
    have f1: "rule_valid (rule_row f1)" "ar_Id f1 = ar_Id x" "ar_GroupId f1 = ar_GroupId x"
      using AlertRule_Verify_valid [OF Inr] AlertRule_Verify_frame [OF Inr] assms(1,2) by (simp_all add: rule_valid_row)
    show ?thesis
      unfolding Inr checked_def sum.case bind_ret update_rule_def
      by (rule ti.under_execute) (use assms f1 in \<open>auto simp: rows_inv_def steady_def intro!: ra.put\<close>)
  qed (simp add: checked_def ti.under_preserves sat_rules)
qed

lemma keeps_AlertMute_Update:
  assumes "am_Id m = am_Id x" "am_GroupId m = am_GroupId x" "W (am_GroupId x)"
  shows "keeps_under u (\<lambda>s. x \<in> set (ce_alert_mute s)) (AlertMute_Update L m f)"
  unfolding AlertMute_Update_def
proof (rule ti.under_reads [OF reads_lookups(1) steady_member(2)])
  fix now
  let ?f = "f\<lparr>am_Id := am_Id m, am_GroupId := am_GroupId m, am_CreateAt := am_CreateAt m, am_CreateBy := am_CreateBy m, am_UpdateAt := now\<rparr>"
  show "keeps_under u (\<lambda>s. x \<in> set (ce_alert_mute s)) (bind_act (checked (AlertMute_Verify (rl_lib L) ?f)) (\<lambda>f1.
      execute (\<lambda>s. s\<lparr>ce_alert_mute := update_where (\<lambda>r. am_Id r = am_Id m) (\<lambda>_. mute_row (AlertMute_FE2DB L f1)) (ce_alert_mute s)\<rparr>)))"
  proof (cases "AlertMute_Verify (rl_lib L) ?f")
    case (Inr f1)
    show ?thesis
      unfolding Inr checked_def sum.case bind_ret
      by (rule ti.under_execute) (use assms AlertMute_Verify_row [OF Inr] in \<open>auto simp: rows_inv_def mute_frames steady_def intro!: rb.put\<close>)
  qed (simp add: checked_def ti.under_preserves sat_rules)
qed

lemma keeps_RecordingRule_Update:
  assumes "rr_Id re = rr_Id x" "rr_GroupId re = rr_GroupId x" "W (rr_GroupId x)"
  shows "keeps_under u (\<lambda>s. x \<in> set (ce_recording_rule s)) (RecordingRule_Update L re f)"
  unfolding RecordingRule_Update_def
proof (rule ti.under_reads [OF reads_lookups(1) steady_member(3)])
  fix now
  let ?f = "(RecordingRule_FE2DB (rl_records L) f)\<lparr>rr_Id := rr_Id re, rr_GroupId := rr_GroupId re, rr_CreateAt := rr_CreateAt re, rr_CreateBy := rr_CreateBy re, rr_UpdateAt := now\<rparr>"
  show "keeps_under u (\<lambda>s. x \<in> set (ce_recording_rule s)) (bind_act (checked (RecordingRule_Verify (rl_names L) ?f)) (\<lambda>f1.
      execute (\<lambda>s. s\<lparr>ce_recording_rule := update_where (\<lambda>r. rr_Id r = rr_Id re) (\<lambda>_. record_row f1) (ce_recording_rule s)\<rparr>)))"
  proof (cases "RecordingRule_Verify (rl_names L) ?f")
    case (Inr f1)
    show ?thesis
      unfolding Inr checked_def sum.case bind_ret
      by (rule ti.under_execute) (use assms RecordingRule_Verify_row [OF Inr] in \<open>auto simp: rows_inv_def record_row_def steady_def intro!: rd.put\<close>)
  qed (simp add: checked_def ti.under_preserves sat_rules)
qed

lemma keeps_checked_put:
  assumes c: "gc_user c = Some (fill_roles u)" and P: "steady P" and g: "\<And>c1. W g \<Longrightarrow> keeps_under u P (f c1)"
  shows "keeps_under u P (bind_act (bgrwCheck g c) f)"
proof (rule ti.under_sees [OF sees_bgrwCheck [OF c] P])
  fix c1
  show "keeps_under u (\<lambda>s. P s \<and> (case group_with s g of None \<Rightarrow> Inl (Bomb 404 ''No such BusiGroup'')
     | Some bg \<Rightarrow> if may_group s u [''rw''] bg then Inr (c\<lparr>gc_busi_group := Some bg\<rparr>) else Inl (Bomb 403 ''forbidden'')) = Inr c1) (f c1)"
    by (rule ti.under_fact [where Q = "W g"])
      (auto simp: rows_inv_def rights_def split: option.splits if_splits intro!: ti.under_weaken [OF g])
qed

lemma keeps_row_found:
  assumes m: "sees m v" and v: "\<And>s y. v s = Inr (Some y) \<Longrightarrow> \<exists>x. Q x y s"
    and f: "\<And>x y. keeps_under u (Q x y) (f (Some y))" and n: "preserves (rows_inv u) (f None)"
  shows "preserves (rows_inv u) (bind_act m f)"
proof (rule ti.under_all, rule ti.under_sees [OF m steady_const])
  fix r
  show "keeps_under u (\<lambda>s. True \<and> v s = Inr r) (f r)"
    using v f n by (cases r) (auto simp: ti.under_def preserves_def dest!: v)
qed

lemma keeps_under_found:
  assumes "gc_user c = Some (fill_roles u)" "steady P" and "\<And>username. W g \<Longrightarrow> keeps_under u P (f username)" and "\<And>s. Q s \<Longrightarrow> P s"
  shows "keeps_under u Q (bind_act (bgrwCheck g c) (\<lambda>c1. bind_act (must_get ''username'' (gc_username c1)) (\<lambda>username. render_message (f username))))"
proof (rule ti.under_weaken [OF keeps_checked_put [OF assms(1,2)]])
  fix c1
  assume "W g"
  have "keeps_under u P (render_message (f username))" for username
    using assms(3) [OF \<open>W g\<close>, of username] by (simp add: ti.under_def snd_render_message)
  then show "keeps_under u P (bind_act (must_get ''username'' (gc_username c1)) (\<lambda>username. render_message (f username)))"
    by (intro ti.under_reads reads_checks assms(2))
qed (use assms(4) in simp)

lemma keeps_puts:
  assumes c: "gc_user c = Some (fill_roles u)"
  shows "preserves (rows_inv u) (alertRulePutByFE L rq f c)" "preserves (rows_inv u) (alertMutePutByFE L rq m c)"
    "preserves (rows_inv u) (recordingRulePutByFE L rq re c)"
proof -
  have err: "map_err Danger r = Inr x \<Longrightarrow> r = Inr x" for r :: "failure + 'x" and x
    by (auto simp: map_err_def split: sum.splits failure.splits)
  show "preserves (rows_inv u) (alertRulePutByFE L rq f c)"
    unfolding alertRulePutByFE_def
  proof (rule preserves_bind, intro keep_steps, rule keeps_row_found [OF sees_change_err [OF sees_found(1), where h = Danger, folded dangerous_def]])
    fix y x
    show "keeps_under u (\<lambda>s. x \<in> set (ce_alert_rule s) \<and> ar_Id y = ar_Id x \<and> ar_GroupId y = ar_GroupId x) (case Some y of None \<Rightarrow> not_found ''No such AlertRule''
       | Some ar \<Rightarrow> bind_act (bgrwCheck (ar_GroupId ar) c) (\<lambda>c1. bind_act (must_get ''username'' (gc_username c1)) (\<lambda>username.
          render_message (AlertRule_Update L ar (fst f) ((snd f)\<lparr>ar_UpdateBy := username\<rparr>)))))"
      unfolding option.case
      by (rule ti.under_fact [where Q = "ar_Id y = ar_Id x \<and> ar_GroupId y = ar_GroupId x"], simp,
          rule keeps_under_found [OF c, where P = "\<lambda>s. x \<in> set (ce_alert_rule s)"]) (auto intro!: keeps_AlertRule_Update simp: steady_def)
  qed (auto dest!: err first_filter dest: DB2FE_frame split: option.splits sum.splits intro: keep_steps)
  show "preserves (rows_inv u) (alertMutePutByFE L rq m c)"
    unfolding alertMutePutByFE_def
  proof (rule preserves_bind, intro keep_steps, rule keeps_row_found [OF sees_change_err [OF sees_found(2), where h = Danger, folded dangerous_def]])
    fix y x
    show "keeps_under u (\<lambda>s. x \<in> set (ce_alert_mute s) \<and> am_Id y = am_Id x \<and> am_GroupId y = am_GroupId x) (case Some y of None \<Rightarrow> not_found ''No such AlertMute''
       | Some am \<Rightarrow> bind_act (bgrwCheck (am_GroupId am) c) (\<lambda>c1. bind_act (must_get ''username'' (gc_username c1)) (\<lambda>username.
          render_message (AlertMute_Update L am (m\<lparr>am_UpdateBy := username\<rparr>)))))"
      unfolding option.case
      by (rule ti.under_fact [where Q = "am_Id y = am_Id x \<and> am_GroupId y = am_GroupId x"], simp,
          rule keeps_under_found [OF c steady_member(2)]) (auto intro!: keeps_AlertMute_Update)
  qed (auto dest!: err first_filter dest: mute_frames(1) split: option.splits prod.splits intro: keep_steps)
  show "preserves (rows_inv u) (recordingRulePutByFE L rq re c)"
    unfolding recordingRulePutByFE_def
  proof (rule preserves_bind, intro keep_steps, rule keeps_row_found [OF sees_change_err [OF sees_found(3), where h = Danger, folded dangerous_def]])
    fix y x
    show "keeps_under u (\<lambda>s. x \<in> set (ce_recording_rule s) \<and> rr_Id y = rr_Id x \<and> rr_GroupId y = rr_GroupId x) (case Some y of None \<Rightarrow> not_found ''No such recording rule''
       | Some ar \<Rightarrow> bind_act (bgrwCheck (rr_GroupId ar) c) (\<lambda>c1. bind_act (must_get ''username'' (gc_username c1)) (\<lambda>username.
          render_message (RecordingRule_Update L ar (re\<lparr>rr_UpdateBy := username\<rparr>)))))"
      unfolding option.case
      by (rule ti.under_fact [where Q = "rr_Id y = rr_Id x \<and> rr_GroupId y = rr_GroupId x"], simp,
          rule keeps_under_found [OF c steady_member(3)]) (auto intro!: keeps_RecordingRule_Update)
  qed (auto simp: RecordingRule_DB2FE_def dest!: err first_filter intro: keep_steps)
qed

lemma keeps_deletes:
  "W g \<Longrightarrow> preserves (rows_inv u) (AlertRuleDels ids [g])" "W g \<Longrightarrow> preserves (rows_inv u) (RecordingRuleDels ids g)"
  unfolding AlertRuleDels_def RecordingRuleDels_def delete_rule_def Let_def list.case
  by (intro sat_rules ti.preserves_statement ti.preserves_execute; simp add: rows_inv_def ra.del rd.del del: de_Morgan_conj)+

lemma keeps_add_rules:
  "(\<And>a. W (ar_GroupId (prepare a))) \<Longrightarrow> preserves (rows_inv u) (add_rules L tr prepare lst errs)"
  by (induction lst arbitrary: errs) (auto simp: Let_def FE2DB_frame intro!: sat_rules keeps_AlertRule_Add)

lemma keeps_add_records:
  "(\<And>a. W (rr_GroupId (prepare a))) \<Longrightarrow> preserves (rows_inv u) (add_records L prepare lst errs)"
  by (induction lst arbitrary: errs) (auto simp: Let_def RecordingRule_FE2DB_def intro!: sat_rules keeps_other_adds)

end

context rule_rows
begin

lemma keeps_rendered: "preserves (rows_inv u) m \<Longrightarrow> preserves (rows_inv u) (render_message m)"
  by (simp add: preserves_def snd_render_message)

text \<open>The handlers that act on the group in the path.\<close>

lemma keeps_path_group:
  assumes "\<And>g. rq_int rq ''id'' = Inr g \<Longrightarrow> preserves (rows_inv u) (f g)"
  shows "preserves (rows_inv u) (bind_act (UrlParamInt64 rq ''id'') f)"
  by (rule preserves_bind_result [OF ti.preserves_reads [OF sees_reads [OF sees_UrlParam]], where Q = "\<lambda>g. rq_int rq ''id'' = Inr g"])
    (use assms seen [OF sees_UrlParam] in blast)+

lemma keeps_group_pages:
  assumes "\<And>g. rq_int rq ''id'' = Inr g \<Longrightarrow> W g"
  shows "preserves (rows_inv u) (alertRuleAddByFE L rq lst c)" "preserves (rows_inv u) (alertRuleAddByImport L rq lst c)"
    "preserves (rows_inv u) (alertRuleDel rq ids)" "preserves (rows_inv u) (recordingRuleAddByFE L rq recs c)"
    "preserves (rows_inv u) (recordingRuleDel rq ids)" "preserves (rows_inv u) (alertMuteAdd L rq m c)" "preserves (rows_inv u) (alertSubscribeAdd L rq b c)"
  unfolding alertRuleAddByFE_def alertRuleAddByImport_def alertRuleAdd_def alertRuleDel_def recordingRuleAddByFE_def recordingRuleDel_def
    alertMuteAdd_def alertSubscribeAdd_def
  by (intro preserves_bind [OF ti.preserves_reads] preserves_bind [OF keeps_add_rules] preserves_bind [OF keeps_add_records] keeps_path_group preserves_if
      reads_checks reads_rule_lookups keeps_rendered keeps_deletes keeps_other_adds preserves_ret preserves_stop; simp add: assms signed_def)+

end

text \<open>
  The requests that act on the rows of one group: the group of the path, or the group of the row
  that the path names. The others change rows by the identifiers of the body.
\<close>

fun by_group :: "rule_call \<Rightarrow> bool" where
  "by_group (Rules_fields ord f) = False"
| "by_group (Records_fields f) = False"
| "by_group (Mutes_fields f) = False"
| "by_group (Mutes_delete ids) = False"
| "by_group (Subscribes_put fs) = False"
| "by_group (Subscribes_delete ids) = False"
| "by_group call = True"

text \<open>The requests that show the teams of rules and subscriptions; they drop deleted teams from the rows they show.\<close>

fun shows_teams :: "rule_call \<Rightarrow> bool" where
  "shows_teams Rules_get = True"
| "shows_teams Rule_get = True"
| "shows_teams Subscribes_get = True"
| "shows_teams Subscribe_get = True"
| "shows_teams call = False"

lemma reads_rule_pages [sat_rules]:
  "reads (alertRuleValidation N groups users f)" "reads (recordingRuleGets R L rq)" "reads (recordingRuleGet L rq)" "reads (alertMuteGetsByBG L rq)"
  "reads (alertMutePreview L rq given m)"
  by (auto simp: alertRuleValidation_def recordingRuleGets_def recordingRuleGet_def alertMuteGetsByBG_def alertMutePreview_def render_data_def Let_def
      intro!: sat_rules reads_checks split: option.split)

context rule_rows
begin

lemma keeps_answered: "preserves (rows_inv u) m \<Longrightarrow> preserves (rows_inv u) (answered m)"
  unfolding answered_def by (auto intro!: preserves_bind preserves_reply preserves_ret)

lemma keeps_route:
  assumes "gc_user c = Some (fill_roles u)" and "\<And>g. Mw_bgrw \<in> set (fst (rule_route R L X rq call)) \<Longrightarrow> rq_int rq ''id'' = Inr g \<Longrightarrow> W g"
    and "by_group call" "\<not> shows_teams call"
  shows "preserves (rows_inv u) (snd (rule_route R L X rq call) c)"
  using assms(2-4)
  by (cases call) (auto intro!: keeps_answered keeps_group_pages keeps_puts [OF assms(1)] ti.preserves_reads [OF reads_rule_pages(1)] ti.preserves_reads [OF reads_rule_pages(2)]
      ti.preserves_reads [OF reads_rule_pages(3)] ti.preserves_reads [OF reads_rule_pages(4)] ti.preserves_reads [OF reads_rule_pages(5)])

end

text \<open>Rows that a page reads: each comes from a row of the table.\<close>

lemma foldr_panicking:
  "foldr (\<lambda>x r. res_bind (f x) (\<lambda>y. res_bind r (\<lambda>ys. Inr (y # ys)))) xs (Inr []) = Inr ys \<Longrightarrow> \<forall>y \<in> set ys. \<exists>x \<in> set xs. f x = Inr y"
  by (induction xs arbitrary: ys) (fastforce simp: res_bind_Inr_iff)+

lemma set_ordered: "set (order_by C key rows) = set rows" "set (newest_first ord rows) = set rows"
  by (simp_all add: order_by_def newest_first_def)

lemma AlertRuleGets_rows:
  assumes "AlertRuleGets R L g s = (Inr ars, t)" and "ar \<in> set ars"
  shows "\<exists>r \<in> set (ce_alert_rule s). AlertRule_DB2FE L r = Inr ar"
proof -
  have "sees (AlertRuleGets R L g) (\<lambda>s. case foldr (\<lambda>x r. res_bind (AlertRule_DB2FE L x) (\<lambda>y. res_bind r (\<lambda>ys. Inr (y # ys))))
      (order_by (cr_lib R) ar_Name (filter (\<lambda>r. ar_GroupId r = g) (ce_alert_rule s))) (Inr []) of Inl p \<Rightarrow> Inl (Crash p) | Inr y \<Rightarrow> Inr y)"
    unfolding AlertRuleGets_def map_panicking_def
    by (rule sees_eq, (rule sees_checks sees_intros steady_rules)+) simp
  then show ?thesis using assms by (fastforce dest!: seen foldr_panicking simp: set_ordered split: sum.splits)
qed

lemma AlertSubscribeGets_rows: "AlertSubscribeGets g s = (Inr bs, t) \<Longrightarrow> set bs \<subseteq> set (ce_alert_subscribe s)"
  "AlertSubscribeGet p s = (Inr (Some b), t) \<Longrightarrow> b \<in> set (ce_alert_subscribe s)"
proof -
  have "sees (AlertSubscribeGets g) (\<lambda>s. Inr (newest_first as_Id (filter (\<lambda>b. as_GroupId b = g) (ce_alert_subscribe s))))"
    unfolding AlertSubscribeGets_def by (rule sees_query) (simp add: steady_def)
  then show "AlertSubscribeGets g s = (Inr bs, t) \<Longrightarrow> set bs \<subseteq> set (ce_alert_subscribe s)"
    by (auto dest!: seen simp: set_ordered)
  have "sees (AlertSubscribeGet p) (\<lambda>s. Inr (first (filter p (ce_alert_subscribe s))))"
    unfolding AlertSubscribeGet_def Find_def by (rule sees_eq, (rule sees_intros steady_rules)+) simp
  then show "AlertSubscribeGet p s = (Inr (Some b), t) \<Longrightarrow> b \<in> set (ce_alert_subscribe s)"
    by (auto dest!: seen first_filter)
qed

lemma attempt_Inr: "attempt m s = (Inr (Inr x), t) \<Longrightarrow> m s = (Inr x, t)" and dangerous_Inr: "dangerous m s = (Inr x, t) \<Longrightarrow> m s = (Inr x, t)"
  by (auto simp: attempt_def dangerous_def change_err_def split: prod.splits sum.splits failure.splits)

subsection \<open>Requests\<close>

lemma rule_route_opens: "fst (rule_route R L X rq call) = [] \<or> opens (hd (fst (rule_route R L X rq call)))"
  by (cases call) (auto simp: opens_def)

lemma rule_route_guarded: "fst (rule_route R L X rq call) \<noteq> []"
  by (cases call) auto

text \<open>A chain of guards refuses the request, or calls the handler for a user of a session whom all guards admit.\<close>

lemma chain_served:
  assumes "\<not> hc_ProxyAuth_Enable (cr_http R)" "gs \<noteq> []" "opens (hd gs)" and "chain (auth R rq # map (mw rq) gs) h s = (r, s')"
  obtains (refused) n where "s' = s\<lparr>ce_step := n\<rparr>"
  | (served) c n uid un u where "h c (s\<lparr>ce_step := n\<rparr>) = (r, s')" "gc_user c = Some (fill_roles u)"
      "session R rq s = Some (uid, un)" "user_with s uid = Some u" "\<forall>g \<in> set gs. grants s rq uid g"
proof -
  from chain_outcome [OF assms(1), of gs rq h s] assms(2-4)
  consider c n uid un where "h c (s\<lparr>ce_step := n\<rparr>) = (r, s')" "ctx_ok s rq uid c" "gc_user c \<noteq> None" "session R rq s = Some (uid, un)"
      "\<forall>g \<in> set gs. grants s rq uid g"
    | "refused s (r, s')" by metis
  then show thesis
  proof cases
    case 1
    obtain u where "user_with s uid = Some u" "gc_user c = Some (fill_roles u)" using 1(2,3) by (auto simp: ctx_ok_def)
    then show thesis using served 1 by blast
  next
    case 2
    then show thesis using refused unfolding refused_def by fastforce
  qed
qed

text \<open>The outcome of a request: refused before its handler, or the handler ran for a user of a session.\<close>

lemma serve_rule_outcome:
  assumes "\<not> hc_ProxyAuth_Enable (cr_http R)" and "serve_rule R L X rq call s = (r, s')"
  obtains (refused) n where "s' = s\<lparr>ce_step := n\<rparr>"
  | (served) c n uid un u where "snd (rule_route R L X rq call) c (s\<lparr>ce_step := n\<rparr>) = (r, s')" "gc_user c = Some (fill_roles u)"
      "session R rq s = Some (uid, un)" "user_with s uid = Some u" "\<forall>g \<in> set (fst (rule_route R L X rq call)). grants s rq uid g"
proof -
  let ?gs = "fst (rule_route R L X rq call)" and ?h = "snd (rule_route R L X rq call)"
  have serve: "serve_rule R L X rq call s = chain (auth R rq # map (mw rq) ?gs) ?h s" by (simp add: serve_rule_def split_beta)
  have gs: "?gs \<noteq> []" "opens (hd ?gs)" using rule_route_guarded [of R L X rq call] rule_route_opens [of R L X rq call] by auto
  from assms(1) gs assms(2) [unfolded serve] show thesis by (cases rule: chain_served) (use refused served in blast)+
qed

lemma granted_group:
  "Mw_bgrw \<in> set gs \<Longrightarrow> \<forall>g \<in> set gs. grants s rq uid g \<Longrightarrow> user_with s uid = Some u \<Longrightarrow> rq_int rq ''id'' = Inr i \<Longrightarrow> may_write s u i"
  using may_group_write by (fastforce simp: grants_def)

end
