(* ===== verification/Rule_Shown.thy ===== *)
theory Rule_Shown
  imports Rule_Spec
begin

text \<open>
  The pages that show the teams of rules and subscriptions. They look each team up and write the row
  again without the teams that were deleted. The locale \<open>cleaned_rows\<close> extends what a property of a
  table must satisfy by this change, and \<open>shown_rows\<close> proves that the four pages keep it.
\<close>

subsection \<open>Rows without deleted teams\<close>

definition live :: "UserGroup list \<Rightarrow> string list \<Rightarrow> string list" where
  "live T gs = filter (\<lambda>g. parse_id g \<in> ug_Id ` set T) gs"

lemma live_simps [simp]: "live T [] = []"
  "live T (g # gs) = (if parse_id g \<in> ug_Id ` set T then g # live T gs else live T gs)" "live T (live T gs) = live T gs"
  by (simp_all add: live_def)

lemma live_words: "\<forall>g \<in> set (live T (Fields t)). word g"
  by (auto simp: live_def intro: Fields_words)

lemma Fields_live: "Fields (Join (live T (Fields t)) '' '') = live T (Fields t)"
  by (rule Fields_Join [OF live_words])

text \<open>\<open>S i gs\<close> states that the row with the key \<open>i\<close> may name the teams \<open>gs\<close> instead of its own.\<close>

locale cleaned_rows = owned_rows P ok key grp W
  for P :: "'r list \<Rightarrow> bool" and ok :: "'r \<Rightarrow> bool" and key :: "'r \<Rightarrow> int" and grp :: "'r \<Rightarrow> int" and W :: "int \<Rightarrow> bool" +
  fixes teams :: "'r \<Rightarrow> string" and set_teams :: "string \<Rightarrow> 'r \<Rightarrow> 'r" and T :: "UserGroup list" and S :: "int \<Rightarrow> string list \<Rightarrow> bool"
  assumes clean: "P rows \<Longrightarrow> S i gs \<Longrightarrow> P (update_where (\<lambda>y. key y = i) (set_teams (Join gs '' '')) rows)"
    and named: "P rows \<Longrightarrow> x \<in> set rows \<Longrightarrow> S (key x) (live T (Fields (teams x)))"

text \<open>Valid rows stay valid.\<close>

lemma valid_cleaned:
  assumes "\<And>x g. ok x \<Longrightarrow> g \<in> set (Fields (teams x)) \<Longrightarrow> G g"
    and "\<And>x gs. ok x \<Longrightarrow> \<forall>g \<in> set gs. word g \<and> G g \<Longrightarrow> ok (set_teams (Join gs '' '') x)"
  shows "cleaned_rows (\<lambda>rows. \<forall>r \<in> set rows. ok r) ok key grp W teams set_teams T (\<lambda>i gs. \<forall>g \<in> set gs. word g \<and> G g)"
  by (intro cleaned_rows.intro valid_owned cleaned_rows_axioms.intro)
    (use assms live_words in \<open>auto simp: set_update_where live_def\<close>)

text \<open>
  Each row of a group without \<open>W\<close> is that of \<open>rows0\<close>, or that row without the teams that are not in
  \<open>T\<close>; the order of these rows and the other columns stay.
\<close>

definition cleaned :: "('r \<Rightarrow> string) \<Rightarrow> (string \<Rightarrow> 'r \<Rightarrow> 'r) \<Rightarrow> UserGroup list \<Rightarrow> 'r \<Rightarrow> 'r" where
  "cleaned teams set_teams T r = set_teams (Join (live T (Fields (teams r))) '' '') r"

definition only_cleaned :: "('r \<Rightarrow> string) \<Rightarrow> (string \<Rightarrow> 'r \<Rightarrow> 'r) \<Rightarrow> UserGroup list \<Rightarrow> 'r list \<Rightarrow> 'r list \<Rightarrow> bool" where
  "only_cleaned teams set_teams T = list_all2 (\<lambda>r r'. r' = r \<or> r' = cleaned teams set_teams T r)"

lemma list_all2_partner: "list_all2 R xs ys \<Longrightarrow> x \<in> set xs \<Longrightarrow> \<exists>y \<in> set ys. R x y"
  by (induction rule: list_all2_induct) auto

lemma foreign_update_same:
  "(\<And>y. grp (f y) = grp y) \<Longrightarrow> foreign W grp (update_where p f rows) = update_where p f (foreign W grp rows)"
  by (induction rows) (auto simp: foreign_def update_where_def)

lemma only_cleaned_update:
  assumes "\<And>t y. key (set_teams t y) = key y" "\<And>t t' y. set_teams t (set_teams t' y) = set_teams t y"
    and "\<forall>r \<in> set xs. key r = i \<longrightarrow> gs = live T (Fields (teams r))" and "only_cleaned teams set_teams T xs ys"
  shows "only_cleaned teams set_teams T xs (update_where (\<lambda>y. key y = i) (set_teams (Join gs '' '')) ys)"
  using assms(4,3) unfolding only_cleaned_def
  by (induction rule: list_all2_induct) (auto simp: update_where_def cleaned_def assms(1,2))

lemma foreign_cleaned:
  assumes set_teams: "\<And>t y. key (set_teams t y) = key y" "\<And>t y. grp (set_teams t y) = grp y" "\<And>t t' y. set_teams t (set_teams t' y) = set_teams t y"
    and teams: "\<And>t y. teams (set_teams t y) = t"
  shows "cleaned_rows (outside W key grp (only_cleaned teams set_teams T (foreign W grp rows0))) ok key grp W teams set_teams T
    (\<lambda>i gs. \<forall>r \<in> set (foreign W grp rows0). key r = i \<longrightarrow> gs = live T (Fields (teams r)))"
proof (intro cleaned_rows.intro outside_owned cleaned_rows_axioms.intro)
  let ?P = "outside W key grp (only_cleaned teams set_teams T (foreign W grp rows0))"
  show "?P (update_where (\<lambda>y. key y = i) (set_teams (Join gs '' '')) rows)"
    if "?P rows" "\<forall>r \<in> set (foreign W grp rows0). key r = i \<longrightarrow> gs = live T (Fields (teams r))" for rows i gs
  proof -
    let ?u = "update_where (\<lambda>y. key y = i) (set_teams (Join gs '' ''))"
    have "foreign W grp (?u rows) = ?u (foreign W grp rows)" by (rule foreign_update_same) (rule set_teams(2))
    moreover have "map key (?u rows) = map key rows" by (rule update_where_keys) (rule set_teams(1))
    moreover have "only_cleaned teams set_teams T (foreign W grp rows0) (?u (foreign W grp rows))"
      using that by (intro only_cleaned_update set_teams) (auto simp only: outside_def)
    ultimately show ?thesis using that(1) by (simp only: outside_def)
  qed
  fix rows x
  assume P: "?P rows" and x: "x \<in> set rows"
  show "\<forall>r \<in> set (foreign W grp rows0). key r = key x \<longrightarrow> live T (Fields (teams x)) = live T (Fields (teams r))"
  proof (intro ballI impI)
    fix r
    assume r: "r \<in> set (foreign W grp rows0)" "key r = key x"
    from P r(1) obtain r' where r': "r' \<in> set (foreign W grp rows)" "r' = r \<or> r' = cleaned teams set_teams T r"
      unfolding outside_def only_cleaned_def by (blast dest: list_all2_partner)
    then have "key r' = key x" using r(2) set_teams(1) by (auto simp: cleaned_def)
    moreover have "r' \<in> set rows" "distinct (map key rows)" using r'(1) P by (auto simp: foreign_def outside_def)
    ultimately have "x = r'" using x by (auto simp: distinct_map dest: inj_onD)
    then show "live T (Fields (teams x)) = live T (Fields (teams r))" using r'(2) by (auto simp: cleaned_def teams Fields_live)
  qed
qed

subsection \<open>Handlers with results\<close>

text \<open>From a state with \<open>I\<close> the handler keeps \<open>I\<close>, and what it returns satisfies \<open>Q\<close>.\<close>

definition yields :: "(center \<Rightarrow> bool) \<Rightarrow> 'a center_act \<Rightarrow> ('a \<Rightarrow> bool) \<Rightarrow> bool" where
  "yields I m Q \<longleftrightarrow> (\<forall>s. I s \<longrightarrow> I (snd (m s)) \<and> (\<forall>x. fst (m s) = Inr x \<longrightarrow> Q x))"

lemma yields_bind:
  assumes "yields I m Q" and "\<And>x. Q x \<Longrightarrow> yields I (f x) R"
  shows "yields I (bind_act m f) R"
  unfolding yields_def
proof (intro allI impI)
  fix s
  assume "I s"
  then show "I (snd (bind_act m f s)) \<and> (\<forall>x. fst (bind_act m f s) = Inr x \<longrightarrow> R x)"
    using assms by (cases "m s"; cases "fst (m s)") (auto simp: yields_def bind_act_def)
qed

lemma yields_simps: "Q x \<Longrightarrow> yields I (ret x) Q" "yields I (stop e) Q"
  by (simp_all add: yields_def ret_def stop_def)

lemma yields_preserves: "yields I m Q \<Longrightarrow> preserves I m" "preserves I m \<Longrightarrow> yields I m (\<lambda>x. True)"
  by (simp_all add: yields_def preserves_def)

lemma yields_errors:
  "yields I m Q \<Longrightarrow> yields I (attempt m) (\<lambda>r. case r of Inl e \<Rightarrow> True | Inr x \<Rightarrow> Q x)" "yields I m Q \<Longrightarrow> yields I (dangerous m) Q"
  by (fastforce simp: yields_def attempt_def dangerous_def change_err_def split: prod.splits sum.splits failure.splits)+

lemma yields_if: "(b \<Longrightarrow> yields I m Q) \<Longrightarrow> (\<not> b \<Longrightarrow> yields I n Q) \<Longrightarrow> yields I (if b then m else n) Q"
  by simp

context table_invariant
begin

lemma yields_sees: "sees m v \<Longrightarrow> (\<And>s x. I s \<Longrightarrow> v s = Inr x \<Longrightarrow> Q x) \<Longrightarrow> yields I m Q"
  unfolding yields_def using preserves_reads [OF sees_reads] by (metis preserves_def seen prod.collapse)

end

subsection \<open>The pages\<close>

locale shown_rows = rule_rows A B C D L W +
  ca: cleaned_rows A rule_valid ar_Id ar_GroupId W ar_NotifyGroups "\<lambda>t r. r\<lparr>ar_NotifyGroups := t\<rparr>" T Sa +
  cc: cleaned_rows C "subscribe_ok L" as_Id as_GroupId W as_UserGroupIds "\<lambda>t r. r\<lparr>as_UserGroupIds := t\<rparr>" T Sc
  for A :: "AlertRule list \<Rightarrow> bool" and B :: "AlertMute list \<Rightarrow> bool" and C :: "AlertSubscribe list \<Rightarrow> bool" and D :: "RecordingRule list \<Rightarrow> bool"
    and L :: rule_lib and W :: "int \<Rightarrow> bool" and T :: "UserGroup list" and Sa :: "int \<Rightarrow> string list \<Rightarrow> bool" and Sc :: "int \<Rightarrow> string list \<Rightarrow> bool"
begin

definition shown_inv :: "User \<Rightarrow> center \<Rightarrow> bool" where
  "shown_inv u s \<longleftrightarrow> rows_inv u s \<and> ce_user_group s = T"

end

sublocale shown_rows \<subseteq> ts: table_invariant "shown_inv u" for u
  by unfold_locales (simp add: shown_inv_def rows_inv_def)

text \<open>The teams found so far are in the table.\<close>

definition cache_live :: "UserGroup list \<Rightarrow> (int, UserGroup) go_map \<Rightarrow> bool" where
  "cache_live T cache \<longleftrightarrow> (\<forall>i ug. go_get cache i = Some ug \<longrightarrow> i \<in> ug_Id ` set T)"

lemma cache_live_simps [simp]: "cache_live T []" "cache_live T cache \<Longrightarrow> i \<in> ug_Id ` set T \<Longrightarrow> cache_live T (go_set i ug cache)"
  by (auto simp: cache_live_def update_conv')

lemma team_with_None: "team_with s i = None \<longleftrightarrow> i \<notin> ug_Id ` set (ce_user_group s)"
  by (auto simp: team_with_def first_def filter_empty_conv dest!: filter_eq_ConsD split: list.splits)

context shown_rows
begin

lemma yields_team:
  "yields (shown_inv u) (attempt (UserGroupGetById i)) (\<lambda>r. case r of Inl e \<Rightarrow> True | Inr x \<Rightarrow> x = None \<longleftrightarrow> i \<notin> ug_Id ` set T)"
  by (rule yields_errors, rule ts.yields_sees [OF sees_lookups(2)]) (auto simp: shown_inv_def team_with_None)

lemma yields_fill_groups:
  "cache_live T cache \<Longrightarrow> yields (shown_inv u) (fill_groups gs ex objs del cache)
     (\<lambda>(err, ex', objs', del', cache'). cache_live T cache' \<and> (err = None \<longrightarrow> ex' = ex @ live T gs))"
proof (induction gs arbitrary: ex objs del cache)
  case (Cons g gs)
  show ?case
  proof (cases "go_get cache (parse_id g)")
    case None
    show ?thesis
      unfolding fill_groups.simps None option.case
    proof (rule yields_bind [OF yields_team], goal_cases)
      case (1 r)
      then consider e where "r = Inl e" | "r = Inr None" "parse_id g \<notin> ug_Id ` set T" | ug where "r = Inr (Some ug)" "parse_id g \<in> ug_Id ` set T"
        by (cases r; cases "projr r") auto
      then show ?case
      proof cases
        case 1
        then show ?thesis using Cons.prems by (simp add: yields_simps)
      next
        case w: 2
        then show ?thesis using Cons.IH [OF Cons.prems, of ex objs True] by simp
      next
        case w: 3
        then show ?thesis using Cons.IH [of "go_set (parse_id g) ug cache" "ex @ [g]" "objs @ [ug]" del] Cons.prems by simp
      qed
    qed
  next
    case (Some ug)
    then have "parse_id g \<in> ug_Id ` set T" using Cons.prems by (auto simp: cache_live_def)
    then show ?thesis using Cons.IH [OF Cons.prems, of "ex @ [g]" "objs @ [ug]" del] Some by simp
  qed
qed (simp add: yields_simps)

lemma keeps_cleaned:
  "Sa i gs \<Longrightarrow> preserves (shown_inv u) (update_rule i (\<lambda>r. r\<lparr>ar_NotifyGroups := Join gs '' ''\<rparr>))"
  "Sc i gs \<Longrightarrow> preserves (shown_inv u) (execute (\<lambda>s. s\<lparr>ce_alert_subscribe :=
     update_where (\<lambda>r. as_Id r = i) (\<lambda>r. r\<lparr>as_UserGroupIds := Join gs '' ''\<rparr>) (ce_alert_subscribe s)\<rparr>))"
  unfolding update_rule_def by (rule ts.preserves_execute; auto simp: shown_inv_def rows_inv_def intro: ca.clean cc.clean)+

lemma yields_FillNotifyGroups:
  assumes "Sa (ar_Id ar) (live T (ar_NotifyGroupsJSON ar))" and "cache_live T cache"
  shows "yields (shown_inv u) (AlertRule_FillNotifyGroups ar cache) (\<lambda>(err, ar1, cache1). cache_live T cache1)"
  unfolding AlertRule_FillNotifyGroups_def Let_def
  by (rule yields_if, simp add: yields_simps assms(2), rule yields_bind [OF yields_fill_groups [OF assms(2)]])
    (use assms(1) keeps_cleaned(1) in \<open>auto intro!: yields_if yields_simps yields_bind [OF yields_preserves(2)] preserves_attempt\<close>)

lemma yields_FillUserGroups:
  assumes "Sc (as_Id b) (live T (Fields (as_UserGroupIds b)))" and "cache_live T cache"
  shows "yields (shown_inv u) (AlertSubscribe_FillUserGroups b cache) (\<lambda>(b1, cache1). cache_live T cache1)"
  unfolding AlertSubscribe_FillUserGroups_def Let_def
  by (rule yields_if, simp add: yields_simps assms(2), rule yields_bind [OF yields_fill_groups [OF assms(2)]])
    (use assms(1) keeps_cleaned(2) in \<open>auto intro!: yields_if yields_simps yields_bind [OF yields_preserves(2)] preserves_attempt split: option.split\<close>)

lemma yields_fill_rules:
  "\<forall>ar \<in> set ars. Sa (ar_Id ar) (live T (ar_NotifyGroupsJSON ar)) \<Longrightarrow> cache_live T cache \<Longrightarrow> yields (shown_inv u) (fill_rules f ars cache) (\<lambda>x. True)"
proof (induction ars arbitrary: cache)
  case (Cons ar ars)
  then show ?case
    unfolding fill_rules.simps
    by (intro yields_bind [OF yields_FillNotifyGroups]) (auto intro!: yields_bind [OF Cons.IH] yields_simps)
qed (simp add: yields_simps)

lemma yields_fill_subscribe:
  assumes "Sc (as_Id b) (live T (Fields (as_UserGroupIds b)))" and "cache_live T uc"
  shows "yields (shown_inv u) (fill_subscribe L b uc rc) (\<lambda>(b1, uc1, rc1). cache_live T uc1)"
  unfolding fill_subscribe_def
  by (rule yields_bind [OF yields_errors(2) [OF yields_FillUserGroups [OF assms]]])
    (auto intro!: yields_bind [OF yields_preserves(2) [OF ts.preserves_reads [OF reads_dangerous [OF reads_rule_lookups(17)]]]] yields_simps
      split: prod.split option.split)

lemma yields_fill_subscribes:
  "\<forall>b \<in> set bs. Sc (as_Id b) (live T (Fields (as_UserGroupIds b))) \<Longrightarrow> cache_live T uc \<Longrightarrow> yields (shown_inv u) (fill_subscribes L bs uc rc) (\<lambda>x. True)"
proof (induction bs arbitrary: uc rc)
  case (Cons b bs)
  then show ?case
    unfolding fill_subscribes.simps
    by (intro yields_bind [OF yields_fill_subscribe]) (auto intro!: yields_bind [OF Cons.IH] yields_simps)
qed (simp add: yields_simps)

text \<open>The rows that the pages read.\<close>

lemma rows_named:
  "shown_inv u s \<Longrightarrow> r \<in> set (ce_alert_rule s) \<Longrightarrow> AlertRule_DB2FE L r = Inr ar \<Longrightarrow> Sa (ar_Id ar) (live T (ar_NotifyGroupsJSON ar))"
  "shown_inv u s \<Longrightarrow> b \<in> set (ce_alert_subscribe s) \<Longrightarrow> Sc (as_Id b) (live T (Fields (as_UserGroupIds b)))"
proof -
  show "Sa (ar_Id ar) (live T (ar_NotifyGroupsJSON ar))" if "shown_inv u s" "r \<in> set (ce_alert_rule s)" "AlertRule_DB2FE L r = Inr ar"
    using ca.named [OF _ that(2)] that(1) by (simp add: DB2FE_frame [OF that(3)] shown_inv_def rows_inv_def)
  show "Sc (as_Id b) (live T (Fields (as_UserGroupIds b)))" if "shown_inv u s" "b \<in> set (ce_alert_subscribe s)"
    using cc.named [OF _ that(2)] that(1) by (simp add: shown_inv_def rows_inv_def)
qed

lemma yields_read:
  assumes "reads m" and "\<And>s x t. shown_inv u s \<Longrightarrow> m s = (Inr x, t) \<Longrightarrow> Q x"
  shows "yields (shown_inv u) m Q"
  unfolding yields_def using ts.preserves_reads [OF assms(1)] assms(2) by (metis preserves_def prod.collapse)

lemma yields_rows:
  "yields (shown_inv u) (attempt (AlertRuleGets R L g)) (\<lambda>r. case r of Inl e \<Rightarrow> True | Inr ars \<Rightarrow> \<forall>ar \<in> set ars. Sa (ar_Id ar) (live T (ar_NotifyGroupsJSON ar)))"
  "yields (shown_inv u) (dangerous (AlertRuleGetById L i)) (\<lambda>r. case r of None \<Rightarrow> True | Some ar \<Rightarrow> Sa (ar_Id ar) (live T (ar_NotifyGroupsJSON ar)))"
  "yields (shown_inv u) (dangerous (AlertSubscribeGets g)) (\<lambda>bs. \<forall>b \<in> set bs. Sc (as_Id b) (live T (Fields (as_UserGroupIds b))))"
  "yields (shown_inv u) (dangerous (AlertSubscribeGet p)) (\<lambda>r. case r of None \<Rightarrow> True | Some b \<Rightarrow> Sc (as_Id b) (live T (Fields (as_UserGroupIds b))))"
proof -
  show "yields (shown_inv u) (attempt (AlertRuleGets R L g)) (\<lambda>r. case r of Inl e \<Rightarrow> True | Inr ars \<Rightarrow> \<forall>ar \<in> set ars. Sa (ar_Id ar) (live T (ar_NotifyGroupsJSON ar)))"
    by (rule yields_errors, rule yields_read [OF reads_rule_lookups(6)]) (blast dest: AlertRuleGets_rows rows_named(1))
  show "yields (shown_inv u) (dangerous (AlertRuleGetById L i)) (\<lambda>r. case r of None \<Rightarrow> True | Some ar \<Rightarrow> Sa (ar_Id ar) (live T (ar_NotifyGroupsJSON ar)))"
    by (rule yields_errors, rule ts.yields_sees [OF sees_found(1)]) (auto dest!: first_filter dest: rows_named(1) split: option.splits sum.splits)
  show "yields (shown_inv u) (dangerous (AlertSubscribeGets g)) (\<lambda>bs. \<forall>b \<in> set bs. Sc (as_Id b) (live T (Fields (as_UserGroupIds b))))"
    by (rule yields_errors, rule yields_read [OF reads_rule_lookups(11)]) (blast dest: AlertSubscribeGets_rows(1) rows_named(2))
  show "yields (shown_inv u) (dangerous (AlertSubscribeGet p)) (\<lambda>r. case r of None \<Rightarrow> True | Some b \<Rightarrow> Sc (as_Id b) (live T (Fields (as_UserGroupIds b))))"
    by (rule yields_errors, rule yields_read [OF reads_rule_lookups(12)]) (auto dest: AlertSubscribeGets_rows(2) rows_named(2) split: option.split)
qed

lemma yields_param: "yields (shown_inv u) (UrlParamInt64 rq k) (\<lambda>x. True)"
  by (rule yields_preserves(2), rule ts.preserves_reads, rule sees_reads [OF sees_UrlParam])

lemma yields_not_found: "yields (shown_inv u) (not_found msg) (\<lambda>x. True)"
  by (rule yields_preserves(2), rule ts.preserves_reads, rule reads_rule_lookups)

lemma yields_pages:
  "yields (shown_inv u) (alertRuleGets R L rq) (\<lambda>x. True)" "yields (shown_inv u) (alertRuleGet L rq) (\<lambda>x. True)"
  "yields (shown_inv u) (alertSubscribeGets L rq) (\<lambda>x. True)" "yields (shown_inv u) (alertSubscribeGet L rq) (\<lambda>x. True)"
proof -
  show "yields (shown_inv u) (alertRuleGets R L rq) (\<lambda>x. True)"
    unfolding alertRuleGets_def
    by (rule yields_bind [OF yields_param], rule yields_bind [OF yields_rows(1)])
      (auto intro!: yields_simps yields_bind [OF yields_fill_rules] split: sum.splits)
  show "yields (shown_inv u) (alertRuleGet L rq) (\<lambda>x. True)"
    unfolding alertRuleGet_def
    by (rule yields_bind [OF yields_param], rule yields_bind [OF yields_rows(2)])
      (auto intro!: yields_simps yields_not_found yields_bind [OF yields_FillNotifyGroups] split: option.splits)
  show "yields (shown_inv u) (alertSubscribeGets L rq) (\<lambda>x. True)"
    unfolding alertSubscribeGets_def
    by (rule yields_bind [OF yields_param], rule yields_bind [OF yields_rows(3)])
      (auto intro!: yields_simps yields_bind [OF yields_fill_subscribes])
  show "yields (shown_inv u) (alertSubscribeGet L rq) (\<lambda>x. True)"
    unfolding alertSubscribeGet_def
    by (rule yields_bind [OF yields_param], rule yields_bind [OF yields_rows(4)])
      (auto intro!: yields_simps yields_not_found yields_bind [OF yields_fill_subscribe] split: option.splits)
qed

lemma keeps_shown: "shows_teams call \<Longrightarrow> preserves (shown_inv u) (snd (rule_route R L X rq call) c)"
  by (cases call) (auto simp: answered_def intro!: preserves_bind yields_preserves(1) [OF yields_pages(1)] yields_preserves(1) [OF yields_pages(2)]
      yields_preserves(1) [OF yields_pages(3)] yields_preserves(1) [OF yields_pages(4)] preserves_reply preserves_ret)

end

end
