(* ===== verification/Rule_Samples.thy ===== *)
theory Rule_Samples
  imports Host_Spec Rule_Pages Dispatch_Spec
begin

text \<open>
  A small instance of the tables of rules for witnesses. Lists of numbers are written as JSON; the other texts are
  opaque.
\<close>

definition sample_ints :: "int list \<Rightarrow> string" where
  "sample_ints xs = ''['' @ Join (map Itoa xs) '','' @ '']''"

definition sample_rule_lib :: rule_lib where
  "sample_rule_lib = \<lparr>rl_lib = sample_lib\<lparr>lib_decode_filters := (\<lambda>s. Some [\<lparr>tf_Key = ''ident'', tf_Func = ''=='', tf_Value = s, tf_Regexp = None, tf_Vset = []\<rparr>])\<rparr>,
     rl_int = (\<lambda>s. 0), rl_marshal_ints = sample_ints, rl_unmarshal_ints = (\<lambda>s xs. (None, List.map_filter ParseInt (Split (butlast (tl s)) '',''))),
     rl_marshal_strings = (\<lambda>xs. ''''), rl_unmarshal_strings = (\<lambda>s xs. (None, xs)), rl_marshal_periodic = (\<lambda>ps. ''null''),
     rl_unmarshal_periodic = (\<lambda>s ps. (None, ps)), rl_unmarshal_json = (\<lambda>s j. (None, JNull)), rl_decode_strmap = (\<lambda>s m. Inr m),
     rl_marshal_prom = (\<lambda>c. ''{}''), rl_decode_prom = (\<lambda>s. Inl ''x''), rl_marshal_host = (\<lambda>c. ''{}''), rl_decode_host = (\<lambda>s. Inl ''x''),
     rl_marshal_query = (\<lambda>q. ''{}''), rl_decode_query = (\<lambda>s. Inl ''x''),
     rl_records = \<lparr>rc_marshal_ids = sample_ints, rc_unmarshal_ids = (\<lambda>s xs. xs), rc_marshal_queries = (\<lambda>q. ''[]''), rc_unmarshal_queries = (\<lambda>s q. q)\<rparr>,
     rl_names = sample_names_any, rl_i18n = (\<lambda>l s. s), rl_rule_column = (\<lambda>k v r. if k = ''disabled'' then Some (r\<lparr>ar_Disabled := 1\<rparr>) else Some r),
     rl_mute_column = (\<lambda>k v r. Some r), rl_record_column = (\<lambda>k v r. Some r)\<rparr>"

definition sample_mute :: AlertMute where
  "sample_mute = \<lparr>am_Id = 0, am_GroupId = 0, am_Note = '''', am_Cate = PROMETHEUS, am_Prod = METRIC, am_DatasourceIds = '''', am_DatasourceIdsJson = [3],
     am_Cluster = '''', am_Tags = ''web01'', am_Cause = ''x'', am_Btime = 0, am_Etime = 2000, am_Disabled = 0, am_CreateBy = '''', am_UpdateBy = '''',
     am_CreateAt = 0, am_UpdateAt = 0, am_ITags = [], am_MuteTimeType = 0, am_PeriodicMutes = '''', am_PeriodicMutesJson = [], am_Severities = '''',
     am_SeveritiesJson = [2]\<rparr>"

definition sample_caches :: rule_caches where
  "sample_caches = \<lparr>rx_contacts = sample_nlib, rx_groups = NewCache, rx_users = NewCache\<rparr>"

text \<open>A user of a team with the group 5; a mute and a rule of the group 9.\<close>

definition sample_rules :: center where
  "sample_rules = (sample_center ''u'' [(''/jwt/u'', (''7-bob'', None))])\<lparr>
     ce_alert_mute := [sample_mute\<lparr>am_Id := 40, am_GroupId := 9\<rparr>], ce_alert_rule := [zero_AlertRule\<lparr>ar_Id := 50, ar_GroupId := 9, ar_Name := ''a''\<rparr>],
     ce_role_operation := map (\<lambda>op. \<lparr>op_RoleName = ''Standard'', op_Operation = op\<rparr>)
       [''/alert-mutes/add'', ''/alert-mutes/del'', ''/alert-rules/put'', ''/alert-rules'']\<rparr>"

definition sample_rules_after :: "rule_call \<Rightarrow> center" where
  "sample_rules_after call = snd (serve_rule sample_crouter sample_rule_lib sample_caches (sample_request sample_token) call sample_rules)"

end
