(* ===== verification/Rule_Owners.thy ===== *)
theory Rule_Owners
  imports Rule_Shown Rule_Samples
begin

text \<open>
  What a request on the pages for rules, mutes, subscriptions and recording rules may change of the
  rows of others.
\<close>

subsection \<open>The rows of others\<close>

definition rule_tables :: "center \<Rightarrow> AlertRule list \<times> AlertMute list \<times> AlertSubscribe list \<times> RecordingRule list" where
  "rule_tables s = (ce_alert_rule s, ce_alert_mute s, ce_alert_subscribe s, ce_recording_rule s)"

definition rule_keys :: "center \<Rightarrow> bool" where
  "rule_keys s \<longleftrightarrow> distinct (map ar_Id (ce_alert_rule s)) \<and> distinct (map am_Id (ce_alert_mute s)) \<and>
     distinct (map as_Id (ce_alert_subscribe s)) \<and> distinct (map rr_Id (ce_recording_rule s))"

text \<open>The rows in groups without \<open>W\<close>.\<close>

definition rows_outside :: "(int \<Rightarrow> bool) \<Rightarrow> center \<Rightarrow> AlertRule list \<times> AlertMute list \<times> AlertSubscribe list \<times> RecordingRule list" where
  "rows_outside W s = (foreign W ar_GroupId (ce_alert_rule s), foreign W am_GroupId (ce_alert_mute s),
     foreign W as_GroupId (ce_alert_subscribe s), foreign W rr_GroupId (ce_recording_rule s))"

text \<open>
  A page that shows teams changed at most the lists of teams: in each rule and subscription outside, the list
  is the same or has lost exactly the teams that do not exist.
\<close>

abbreviation rules_cleaned :: "UserGroup list \<Rightarrow> AlertRule list \<Rightarrow> AlertRule list \<Rightarrow> bool" where
  "rules_cleaned \<equiv> only_cleaned ar_NotifyGroups (\<lambda>t r. r\<lparr>ar_NotifyGroups := t\<rparr>)"

abbreviation subscribes_cleaned :: "UserGroup list \<Rightarrow> AlertSubscribe list \<Rightarrow> AlertSubscribe list \<Rightarrow> bool" where
  "subscribes_cleaned \<equiv> only_cleaned as_UserGroupIds (\<lambda>t r. r\<lparr>as_UserGroupIds := t\<rparr>)"

definition rows_cleaned :: "(int \<Rightarrow> bool) \<Rightarrow> center \<Rightarrow> center \<Rightarrow> bool" where
  "rows_cleaned W s s' \<longleftrightarrow>
     rules_cleaned (ce_user_group s) (foreign W ar_GroupId (ce_alert_rule s)) (foreign W ar_GroupId (ce_alert_rule s')) \<and>
     foreign W am_GroupId (ce_alert_mute s') = foreign W am_GroupId (ce_alert_mute s) \<and>
     subscribes_cleaned (ce_user_group s) (foreign W as_GroupId (ce_alert_subscribe s)) (foreign W as_GroupId (ce_alert_subscribe s')) \<and>
     foreign W rr_GroupId (ce_recording_rule s') = foreign W rr_GroupId (ce_recording_rule s)"

abbreviation same_outside :: "(int \<Rightarrow> bool) \<Rightarrow> ('r \<Rightarrow> int) \<Rightarrow> ('r \<Rightarrow> int) \<Rightarrow> 'r list \<Rightarrow> 'r list \<Rightarrow> bool" where
  "same_outside W key grp rows0 \<equiv> outside W key grp (\<lambda>rows. rows = foreign W grp rows0)"

interpretation others: rule_rows
  "same_outside W ar_Id ar_GroupId (ce_alert_rule s)" "same_outside W am_Id am_GroupId (ce_alert_mute s)"
  "same_outside W as_Id as_GroupId (ce_alert_subscribe s)" "same_outside W rr_Id rr_GroupId (ce_recording_rule s)"
  L W for W and s :: center and L
  by (intro rule_rows.intro outside_owned)

interpretation shown: shown_rows
  "outside W ar_Id ar_GroupId (rules_cleaned (ce_user_group s) (foreign W ar_GroupId (ce_alert_rule s)))" "same_outside W am_Id am_GroupId (ce_alert_mute s)"
  "outside W as_Id as_GroupId (subscribes_cleaned (ce_user_group s) (foreign W as_GroupId (ce_alert_subscribe s)))"
  "same_outside W rr_Id rr_GroupId (ce_recording_rule s)" L W "ce_user_group s"
  "\<lambda>i gs. \<forall>r \<in> set (foreign W ar_GroupId (ce_alert_rule s)). ar_Id r = i \<longrightarrow> gs = live (ce_user_group s) (Fields (ar_NotifyGroups r))"
  "\<lambda>i gs. \<forall>b \<in> set (foreign W as_GroupId (ce_alert_subscribe s)). as_Id b = i \<longrightarrow> gs = live (ce_user_group s) (Fields (as_UserGroupIds b))"
  for W and s :: center and L
  by (intro shown_rows.intro rule_rows.intro outside_owned foreign_cleaned) simp_all

lemma others_inv:
  "others.rows_inv W s u t \<longleftrightarrow> rule_keys t \<and> rows_outside W t = rows_outside W s \<and> rights W u t"
  unfolding others.rows_inv_def outside_def rule_keys_def rows_outside_def by auto

lemma shown_inv:
  "shown.shown_inv W s u t \<longleftrightarrow> rule_keys t \<and> rows_cleaned W s t \<and> rights W u t \<and> ce_user_group t = ce_user_group s"
  unfolding shown.shown_inv_def shown.rows_inv_def outside_def rule_keys_def rows_cleaned_def by blast

lemma rights_may_write: "rights (may_write s u) u s"
  unfolding rights_def using may_group_write by blast

lemma rows_cleaned_refl: "rows_cleaned W s (s\<lparr>ce_step := n\<rparr>)"
  by (simp add: rows_cleaned_def only_cleaned_def list.rel_refl)

text \<open>C15. A request on the pages for rules, mutes, subscriptions and recording rules that acts on one
  group leaves the four tables as they were, or it comes from a user whom every guard of its route
  admits. Then the rows in groups that the user may not write are exactly the same as before, in
  every column; only the four pages that show the teams of rules and subscriptions may write such
  rows, and they change nothing but the list of teams of a rule or subscription, from which they
  drop exactly the teams that do not exist. The identifiers stay unique.\<close>

theorem rows_of_others:
  assumes "\<not> hc_ProxyAuth_Enable (cr_http R)" and "rule_keys s" and "by_group call" and "serve_rule R L X rq call s = (r, s')"
  shows "rule_keys s' \<and> (rule_tables s' = rule_tables s \<or>
    (\<exists>uid un u. session R rq s = Some (uid, un) \<and> user_with s uid = Some u \<and>
       (\<forall>g \<in> set (fst (rule_route R L X rq call)). grants s rq uid g) \<and>
       (if shows_teams call then rows_cleaned (may_write s u) s s'
        else rows_outside (may_write s u) s' = rows_outside (may_write s u) s)))"
  using assms(1,4)
proof (cases rule: serve_rule_outcome)
  case (refused n)
  then show ?thesis using assms(2) by (simp add: rule_keys_def rule_tables_def)
next
  case (served c n uid un u)
  let ?W = "may_write s u"
  have "rule_keys s' \<and> (if shows_teams call then rows_cleaned ?W s s' else rows_outside ?W s' = rows_outside ?W s)"
  proof (cases "shows_teams call")
    case True
    have "shown.shown_inv ?W s u (s\<lparr>ce_step := n\<rparr>)"
      using assms(2) rights_may_write [of s u] rows_cleaned_refl by (simp add: shown_inv rule_keys_def)
    then have "shown.shown_inv ?W s u s'" using shown.keeps_shown [OF True] served(1) unfolding preserves_def by (metis snd_conv)
    then show ?thesis using True by (simp add: shown_inv)
  next
    case False
    have "preserves (others.rows_inv ?W s u) (snd (rule_route R L X rq call) c)"
      by (rule others.keeps_route [OF served(2) _ assms(3) False]) (rule granted_group [OF _ served(5,4)])
    moreover have "others.rows_inv ?W s u (s\<lparr>ce_step := n\<rparr>)"
      using assms(2) rights_may_write [of s u] by (simp add: others_inv rule_keys_def rows_outside_def)
    ultimately have "others.rows_inv ?W s u s'" using served(1) unfolding preserves_def by (metis snd_conv)
    then show ?thesis using False by (simp add: others_inv)
  qed
  then show ?thesis using served(3-5) by blast
qed

theorem rows_of_others_witness:
  "map am_GroupId (ce_alert_mute (sample_rules_after (Mutes_post sample_mute))) = [9, 5] \<and>
   rows_outside (may_write sample_rules sample_user) (sample_rules_after (Mutes_post sample_mute)) =
     rows_outside (may_write sample_rules sample_user) sample_rules"
proof -
  have "\<not> hc_ProxyAuth_Enable (cr_http sample_crouter)" "rule_keys sample_rules"
    by (simp_all add: sample_crouter_def sample_conf_def rule_keys_def sample_rules_def sample_center_def)
  moreover have "map am_GroupId (ce_alert_mute (sample_rules_after (Mutes_post sample_mute))) = [9, 5]"
    "map am_GroupId (ce_alert_mute sample_rules) = [9]" by code_simp+
  moreover have "user_with sample_rules 7 = Some sample_user" by code_simp
  moreover have "session sample_crouter (sample_request sample_token) sample_rules = Some (7, ''bob'')" by code_simp
  ultimately show ?thesis
    using rows_of_others [of sample_crouter sample_rules "Mutes_post sample_mute" sample_rule_lib sample_caches "sample_request sample_token"
        "fst (serve_rule sample_crouter sample_rule_lib sample_caches (sample_request sample_token) (Mutes_post sample_mute) sample_rules)"
        "sample_rules_after (Mutes_post sample_mute)"]
    by (auto simp: sample_rules_after_def rule_tables_def)
qed

text \<open>
  Requests that name rows in their body are only checked for the group of the path: the user of the
  group 5 deletes the mute and disables the rule of the group 9.
\<close>

lemma rows_by_id:
  "map am_Id (ce_alert_mute sample_rules) = [40]" "ce_alert_mute (sample_rules_after (Mutes_delete [40])) = []"
  "map ar_Disabled (ce_alert_rule sample_rules) = [0]"
  "map ar_Disabled (ce_alert_rule (sample_rules_after (Rules_fields (\<lambda>m. m) \<lparr>rff_Ids = [50], rff_Fields = [(''disabled'', JNum ''1'')], rff_Action = ''''\<rparr>))) = [1]"
  "may_write sample_rules sample_user 9 = False"
  by code_simp+

text \<open>
  A page that shows rules writes them: the user of the group 5 looks at the rules of the group 9, and a
  team that does not exist is dropped from the row.
\<close>

lemma page_writes_row:
  "map ar_NotifyGroups (ce_alert_rule (snd (serve_rule sample_crouter sample_rule_lib sample_caches
     ((sample_request sample_token)\<lparr>rq_int := (\<lambda>n. Inr 9)\<rparr>) Rules_get
     (sample_rules\<lparr>ce_alert_rule := [zero_AlertRule\<lparr>ar_Id := 50, ar_GroupId := 9, ar_NotifyGroups := ''3 77''\<rparr>]\<rparr>)))) = [''3'']"
  by code_simp

end
