(* ===== verification/Rule_Valid.thy ===== *)
theory Rule_Valid
  imports Rule_Shown Rule_Samples
begin

text \<open>
  Which rows the pages for rules store: all rows are valid; what is read back after a rule was saved;
  and what the preview of a mute promises.
\<close>

subsection \<open>Valid rows\<close>

definition rows_valid :: "rule_lib \<Rightarrow> center \<Rightarrow> bool" where
  "rows_valid L s \<longleftrightarrow> (\<forall>r \<in> set (ce_alert_rule s). rule_valid r) \<and> (\<forall>m \<in> set (ce_alert_mute s). mute_ok L m) \<and>
     (\<forall>b \<in> set (ce_alert_subscribe s). subscribe_ok L b) \<and> (\<forall>r \<in> set (ce_recording_rule s). record_ok L r)"

lemma ok_teams:
  "\<forall>g \<in> set gs. word g \<and> ParseInt g \<noteq> None \<Longrightarrow> rule_valid r \<Longrightarrow> rule_valid (r\<lparr>ar_NotifyGroups := Join gs '' ''\<rparr>)"
  "\<forall>g \<in> set gs. word g \<and> ParseInt g \<noteq> None \<Longrightarrow> subscribe_ok L b \<Longrightarrow> subscribe_ok L (b\<lparr>as_UserGroupIds := Join gs '' ''\<rparr>)"
  by (simp_all add: rule_valid_def subscribe_ok_def Fields_Join)

interpretation stored: shown_rows
  "\<lambda>rows. \<forall>r \<in> set rows. rule_valid r" "\<lambda>rows. \<forall>m \<in> set rows. mute_ok L m" "\<lambda>rows. \<forall>b \<in> set rows. subscribe_ok L b"
  "\<lambda>rows. \<forall>r \<in> set rows. record_ok L r" L "\<lambda>g. True" T
  "\<lambda>i gs. \<forall>g \<in> set gs. word g \<and> ParseInt g \<noteq> None" "\<lambda>i gs. \<forall>g \<in> set gs. word g \<and> ParseInt g \<noteq> None" for L T
  by (intro shown_rows.intro rule_rows.intro valid_cleaned valid_owned ok_teams) (auto simp: rule_valid_def subscribe_ok_def)

lemma stored_inv: "stored.rows_inv L u s \<longleftrightarrow> rows_valid L s" "stored.shown_inv L T u s \<longleftrightarrow> rows_valid L s \<and> ce_user_group s = T"
  by (simp_all add: stored.rows_inv_def stored.shown_inv_def rows_valid_def rights_def)

fun by_fields :: "rule_call \<Rightarrow> bool" where
  "by_fields (Rules_fields ord f) = True"
| "by_fields (Records_fields f) = True"
| "by_fields (Mutes_fields f) = True"
| "by_fields call = False"

lemma subscribe_columns_ok: "subscribe_ok L (AlertSubscribe_FE2DB L b) \<Longrightarrow> subscribe_ok L (subscribe_columns (AlertSubscribe_FE2DB L b) r)"
  by (simp add: subscribe_ok_def subscribe_columns_def)

interpretation rvi: table_invariant "rows_valid L" for L
  by unfold_locales (simp add: rows_valid_def)

lemma valid_by_id:
  "preserves (rows_valid L) (AlertMuteDel ids)" "preserves (rows_valid L) (AlertSubscribeDel ids)"
  "preserves (rows_valid L) (AlertSubscribe_Update L subscribe_columns b)"
proof -
  show "preserves (rows_valid L) (AlertMuteDel ids)" "preserves (rows_valid L) (AlertSubscribeDel ids)"
    unfolding AlertMuteDel_def AlertSubscribeDel_def by (intro sat_rules rvi.preserves_execute; auto simp: rows_valid_def)+
  show "preserves (rows_valid L) (AlertSubscribe_Update L subscribe_columns b)"
  proof (cases "AlertSubscribe_Verify (rl_lib L) b")
    case (Inr b1)
    show ?thesis
      unfolding AlertSubscribe_Update_def Inr checked_def sum.case bind_ret
      by (intro sat_rules rvi.preserves_execute)
        (use subscribe_columns_ok AlertSubscribe_Verify_row(4) [OF Inr] in \<open>auto simp: rows_valid_def set_update_where\<close>)
  qed (simp add: AlertSubscribe_Update_def checked_def sat_rules)
qed

lemma valid_pages_by_id:
  "preserves (rows_valid L) (alertMuteDel ids)" "preserves (rows_valid L) (alertSubscribeDel ids)" "preserves (rows_valid L) (alertSubscribePut L fs c)"
  unfolding alertMuteDel_def alertSubscribeDel_def alertSubscribePut_def render_message_def
  by (intro sat_rules rvi.preserves_reads [OF reads_rule_lookups(15)] rvi.preserves_reads [OF reads_checks(1)] rvi.preserves_reads [OF reads_lookups(1)] valid_by_id)+

lemma valid_route:
  assumes "gc_user c = Some (fill_roles u)" and "\<not> by_fields call"
  shows "preserves (rows_valid L) (snd (rule_route R L X rq call) c)"
proof -
  consider "shows_teams call" | "by_group call" "\<not> shows_teams call" | "\<not> by_group call" by blast
  then show ?thesis
  proof cases
    case 1
    from stored.keeps_shown [OF 1] show ?thesis by (simp add: stored_inv(2) preserves_def)
  next
    case 2
    have "preserves (stored.rows_inv L u) (snd (rule_route R L X rq call) c)"
      by (rule stored.keeps_route [OF assms(1) TrueI 2])
    then show ?thesis by (simp add: stored_inv(1) preserves_def)
  next
    case 3
    then show ?thesis using assms(2) by (cases call) (auto intro: valid_pages_by_id)
  qed
qed

text \<open>A sequence of requests.\<close>

fun serve_rules :: "center_router \<Rightarrow> rule_lib \<Rightarrow> rule_caches \<Rightarrow> (request \<times> rule_call) list \<Rightarrow> center \<Rightarrow> center" where
  "serve_rules R L X [] s = s"
| "serve_rules R L X ((rq, call) # reqs) s = serve_rules R L X reqs (snd (serve_rule R L X rq call s))"

lemma valid_serve:
  assumes "\<not> hc_ProxyAuth_Enable (cr_http R)" and "rows_valid L s" and "\<not> by_fields call"
  shows "rows_valid L (snd (serve_rule R L X rq call s))"
proof -
  obtain r s' where run: "serve_rule R L X rq call s = (r, s')" by (cases "serve_rule R L X rq call s")
  from assms(1) run have "rows_valid L s'"
  proof (cases rule: serve_rule_outcome)
    case (refused n)
    then show ?thesis using assms(2) by (simp add: rows_valid_def)
  next
    case (served c n uid un u)
    have "rows_valid L (s\<lparr>ce_step := n\<rparr>)" using assms(2) by (simp add: rows_valid_def)
    then show ?thesis using valid_route [OF served(2) assms(3)] served(1) unfolding preserves_def by (metis snd_conv)
  qed
  then show ?thesis by (simp add: run)
qed

text \<open>C21. Whatever requests are made on the pages for rules, mutes, subscriptions and recording rules,
  apart from those that set fields by name, and whatever statements fail: every stored alerting
  rule, mute, subscription and recording rule stays valid. A mute has filters that compile and an
  end after its beginning, a subscription filters that compile and teams that are numbers, a
  recording rule labels with valid names and a positive interval.\<close>

theorem stored_rows_valid:
  assumes "\<not> hc_ProxyAuth_Enable (cr_http R)" and "rows_valid L s" and "\<forall>(rq, call) \<in> set reqs. \<not> by_fields call"
  shows "rows_valid L (serve_rules R L X reqs s)"
  using assms(2,3)
proof (induction reqs arbitrary: s)
  case (Cons req reqs)
  then show ?case using valid_serve [OF assms(1)] by (cases req) auto
qed simp

definition sample_valid_rules :: center where
  "sample_valid_rules = sample_rules\<lparr>ce_alert_rule := []\<rparr>"

theorem stored_rows_valid_witness:
  "map am_GroupId (ce_alert_mute (serve_rules sample_crouter sample_rule_lib sample_caches
      [(sample_request sample_token, Mutes_post sample_mute)] sample_valid_rules)) = [9, 5] \<and>
   rows_valid sample_rule_lib (serve_rules sample_crouter sample_rule_lib sample_caches
      [(sample_request sample_token, Mutes_post sample_mute)] sample_valid_rules)"
proof -
  have "\<not> hc_ProxyAuth_Enable (cr_http sample_crouter)" by (simp add: sample_crouter_def sample_conf_def)
  moreover have "rows_valid sample_rule_lib sample_valid_rules"
    by (simp add: rows_valid_def sample_valid_rules_def sample_rules_def sample_center_def mute_ok_def sample_mute_def sample_rule_lib_def sample_lib_def
        GetTagFilters_def prepare_filter_def)
  moreover have "map am_GroupId (ce_alert_mute (serve_rules sample_crouter sample_rule_lib sample_caches
      [(sample_request sample_token, Mutes_post sample_mute)] sample_valid_rules)) = [9, 5]" by code_simp
  ultimately show ?thesis
    using stored_rows_valid [of sample_crouter sample_rule_lib sample_valid_rules
        "[(sample_request sample_token, Mutes_post sample_mute)]" sample_caches] by simp
qed

subsection \<open>Saving a rule and reading it\<close>

lemma Join_ends:
  "ws \<noteq> [] \<Longrightarrow> \<forall>w \<in> set ws. word w \<Longrightarrow> Join ws sep \<noteq> [] \<and> \<not> is_space (hd (Join ws sep)) \<and> \<not> is_space (last (Join ws sep))"
  by (induction ws sep rule: Join.induct) (auto simp: word_def)

lemma TrimSpace_words: "\<forall>w \<in> set ws. word w \<Longrightarrow> TrimSpace (Join ws '' '') = Join ws '' ''"
proof (cases "ws = []")
  case False
  assume "\<forall>w \<in> set ws. word w"
  note ends = Join_ends [OF False this, of "'' ''"]
  then have "dropWhile is_space (Join ws '' '') = Join ws '' ''" by (cases "Join ws '' ''") auto
  moreover have "TrimRight_by is_space s = s" if "s \<noteq> []" "\<not> is_space (last s)" for s
    using that by (cases s rule: rev_cases) (auto simp: TrimRight_by_append)
  ultimately show ?thesis using ends by (simp add: TrimSpace_def)
qed (simp add: TrimSpace_def TrimRight_by_def)

lemma days_loop_Join: "days_loop acc ws = acc @ Join (map (\<lambda>w. Join w '' '') ws) '';''"
  by (induction acc ws rule: days_loop.induct) auto

lemma Join_chars: "c \<notin> set sep \<Longrightarrow> \<forall>w \<in> set ws. c \<notin> set w \<Longrightarrow> c \<notin> set (Join ws sep)"
  by (induction ws sep rule: Join.induct) auto

text \<open>What a form for a rule may hold: lists of words, days without the separator, and at least one time span, day and data source.\<close>

definition form_clean :: "AlertRule \<Rightarrow> bool" where
  "form_clean f \<longleftrightarrow>
     (\<forall>w \<in> set (ar_NotifyChannelsJSON f) \<union> set (ar_NotifyGroupsJSON f) \<union> set (ar_CallbacksJSON f) \<union> set (ar_AppendTagsJSON f) \<union>
        set (ar_EnableStimesJSON f) \<union> set (ar_EnableEtimesJSON f). word w) \<and>
     (\<forall>ws \<in> set (ar_EnableDaysOfWeeksJSON f). \<forall>w \<in> set ws. word w \<and> CHR '';'' \<notin> set w) \<and>
     ar_EnableStimesJSON f \<noteq> [] \<and> ar_EnableDaysOfWeeksJSON f \<noteq> [] \<and> ar_EnableDaysOfWeek f = '''' \<and> ar_DatasourceIdsJson f \<noteq> [] \<and>
     ar_RuleConfigJson f \<noteq> JNull \<and> ar_ExtraConfigJSON f \<noteq> JNull"

text \<open>The values of the form survive being written as JSON and read.\<close>

definition form_codec :: "rule_lib \<Rightarrow> AlertRule \<Rightarrow> bool" where
  "form_codec L f \<longleftrightarrow>
     (\<forall>j \<in> {ar_AlgoParamsJson f, ar_RuleConfigJson f, ar_ExtraConfigJSON f}. lib_unmarshal (rl_lib L) (lib_marshal (rl_lib L) j) JNull = j) \<and>
     lib_unmarshal_strmap (rl_lib L) (lib_marshal (rl_lib L) (json_of_strmap (ar_AnnotationsJSON f))) [] = ar_AnnotationsJSON f \<and>
     rl_marshal_ints L (ar_DatasourceIdsJson f) \<noteq> '''' \<and>
     snd (rl_unmarshal_ints L (rl_marshal_ints L (ar_DatasourceIdsJson f)) []) = ar_DatasourceIdsJson f"

definition entered :: "AlertRule \<Rightarrow> (string list list \<times> string list list) \<times> int list \<times> (json \<times> json \<times> json) \<times> (string, string) go_map \<times> string \<times> string \<times> int \<times> int" where
  "entered r = (([ar_NotifyChannelsJSON r, ar_NotifyGroupsJSON r, ar_CallbacksJSON r, ar_AppendTagsJSON r, ar_EnableStimesJSON r, ar_EnableEtimesJSON r],
     ar_EnableDaysOfWeeksJSON r), ar_DatasourceIdsJson r, (ar_AlgoParamsJson r, ar_RuleConfigJson r, ar_ExtraConfigJSON r), ar_AnnotationsJSON r,
     ar_Name r, ar_Note r, ar_Disabled r, ar_NotifyRepeatStep r)"

lemma days_read:
  assumes "form_clean f"
  shows "map Fields (Split (ar_EnableDaysOfWeek (fe_days f)) '';'') = ar_EnableDaysOfWeeksJSON f"
proof -
  let ?days = "ar_EnableDaysOfWeeksJSON f" and ?join = "\<lambda>w. Join w '' ''"
  have days: "?days \<noteq> []" "\<forall>ws \<in> set ?days. \<forall>w \<in> set ws. word w \<and> CHR '';'' \<notin> set w" "ar_EnableDaysOfWeek f = ''''"
    using assms by (auto simp: form_clean_def)
  have "ar_EnableDaysOfWeek (fe_days f) = Join (map ?join ?days) '';''"
    using days(1,3) by (cases ?days rule: remdups_adj.cases) (auto simp: fe_days_def Let_def days_loop_Join)
  moreover have "Split (Join (map ?join ?days) '';'') '';'' = map ?join ?days"
    using days(1,2) Join_chars [of "CHR '';''" "'' ''"] by (intro Split_Join) auto
  ultimately show ?thesis using days(2) by (simp add: map_idI Fields_Join)
qed

lemma execute_Inr: "execute g s = (Inr x, t) \<Longrightarrow> \<exists>n. t = g (s\<lparr>ce_step := n\<rparr>)"
  by (auto simp: execute_def statement_def bind_Inr_iff ask_def stop_def split: option.splits)

lemma AlertRule_Update_effect:
  assumes "AlertRule_Update L ar b f s = (Inr (), t)"
  obtains n now f1 where "t = s\<lparr>ce_step := n, ce_alert_rule := update_where (\<lambda>r. ar_Id r = ar_Id ar) (\<lambda>_. rule_row f1) (ce_alert_rule s)\<rparr>"
    "AlertRule_Verify (rl_lib L) ((AlertRule_FE2DB L b f)\<lparr>ar_Id := ar_Id ar, ar_GroupId := ar_GroupId ar,
       ar_CreateAt := ar_CreateAt ar, ar_CreateBy := ar_CreateBy ar, ar_UpdateAt := now\<rparr>) = Inr f1"
proof -
  let ?name = "if ar_Name ar \<noteq> ar_Name f then bind_act (AlertRuleExists L (ar_Id ar) (ar_GroupId ar) (ar_DatasourceIdsJson ar) (ar_Name f))
      (\<lambda>exists. if exists then stop (Err ''AlertRule already exists'') else ret ()) else ret ()"
  let ?f = "\<lambda>now. (AlertRule_FE2DB L b f)\<lparr>ar_Id := ar_Id ar, ar_GroupId := ar_GroupId ar, ar_CreateAt := ar_CreateAt ar, ar_CreateBy := ar_CreateBy ar, ar_UpdateAt := now\<rparr>"
  from assms obtain s1 now s2 f1 s3 where run: "?name s = (Inr (), s1)" "Now_Unix s1 = (Inr now, s2)"
      "checked (AlertRule_Verify (rl_lib L) (?f now)) s2 = (Inr f1, s3)" "update_rule (ar_Id ar) (\<lambda>_. rule_row f1) s3 = (Inr (), t)"
    unfolding AlertRule_Update_def bind_Inr_iff by fastforce
  have "reads ?name" by (intro sat_rules)
  from reads_state [OF this run(1)] obtain n1 where s1: "s1 = s\<lparr>ce_step := n1\<rparr>" by blast
  from reads_state [OF reads_lookups(1) run(2)] obtain n2 where s2: "s2 = s1\<lparr>ce_step := n2\<rparr>" by blast
  have f1: "AlertRule_Verify (rl_lib L) (?f now) = Inr f1" "s3 = s2"
    using run(3) by (auto simp: checked_def ret_def stop_def split: sum.splits)
  from run(4) [unfolded update_rule_def, THEN execute_Inr] obtain n where
    "t = s\<lparr>ce_step := n, ce_alert_rule := update_where (\<lambda>r. ar_Id r = ar_Id ar) (\<lambda>_. rule_row f1) (ce_alert_rule s)\<rparr>"
    by (auto simp: s1 s2 f1(2))
  from that [OF this f1(1)] show thesis .
qed

text \<open>What validation changes of a rule.\<close>

lemma fix_steps:
  "\<exists>d. fix_datasources a = a\<lparr>ar_DatasourceIdsJson := d\<rparr>" "\<exists>p. fix_prod a = a\<lparr>ar_Prod := p\<rparr>" "\<exists>c. fix_cate a = a\<lparr>ar_Cate := c\<rparr>"
  "\<exists>i. fix_interval a = a\<lparr>ar_PromEvalInterval := i\<rparr>"
  by (cases a; auto simp: fix_datasources_def fix_prod_def fix_cate_def fix_interval_def)+

lemma AlertRule_Verify_result:
  assumes "AlertRule_Verify L a = Inr a'"
  shows "\<exists>d p c i. a' = a\<lparr>ar_DatasourceIdsJson := d, ar_Prod := p, ar_Cate := c, ar_PromEvalInterval := i, ar_AppendTags := TrimSpace (ar_AppendTags a)\<rparr>"
proof -
  obtain d p c i where "fix_datasources a = a\<lparr>ar_DatasourceIdsJson := d\<rparr>"
    "fix_prod (a\<lparr>ar_DatasourceIdsJson := d\<rparr>) = a\<lparr>ar_DatasourceIdsJson := d, ar_Prod := p\<rparr>"
    "fix_cate (a\<lparr>ar_DatasourceIdsJson := d, ar_Prod := p\<rparr>) = a\<lparr>ar_DatasourceIdsJson := d, ar_Prod := p, ar_Cate := c\<rparr>"
    "fix_interval (a\<lparr>ar_DatasourceIdsJson := d, ar_Prod := p, ar_Cate := c\<rparr>) = a\<lparr>ar_DatasourceIdsJson := d, ar_Prod := p, ar_Cate := c, ar_PromEvalInterval := i\<rparr>"
    using fix_steps by metis
  then show ?thesis using assms by (auto simp: AlertRule_Verify_def Let_def split: if_splits option.splits)
qed

lemma Verify_columns:
  assumes "AlertRule_Verify L a = Inr a'"
  shows "ar_NotifyChannels a' = ar_NotifyChannels a" "ar_NotifyGroups a' = ar_NotifyGroups a" "ar_Callbacks a' = ar_Callbacks a"
    "ar_AppendTags a' = TrimSpace (ar_AppendTags a)" "ar_EnableStime a' = ar_EnableStime a" "ar_EnableEtime a' = ar_EnableEtime a"
    "ar_EnableDaysOfWeek a' = ar_EnableDaysOfWeek a" "ar_DatasourceIds a' = ar_DatasourceIds a" "ar_AlgoParams a' = ar_AlgoParams a"
    "ar_RuleConfig a' = ar_RuleConfig a" "ar_ExtraConfig a' = ar_ExtraConfig a" "ar_Annotations a' = ar_Annotations a"
    "ar_Name a' = ar_Name a" "ar_Note a' = ar_Note a" "ar_Disabled a' = ar_Disabled a" "ar_NotifyRepeatStep a' = ar_NotifyRepeatStep a"
  using AlertRule_Verify_result [OF assms] by auto

text \<open>The steps of \<open>AlertRule_FE2DB\<close> on such a form.\<close>

lemma fe_steps:
  "ar_EnableStimesJSON a \<noteq> [] \<Longrightarrow> fe_times a = a\<lparr>ar_EnableStime := Join (ar_EnableStimesJSON a) '' '', ar_EnableEtime := Join (ar_EnableEtimesJSON a) '' ''\<rparr>"
  "ar_DatasourceIdsJson a \<noteq> [] \<Longrightarrow> fe_datasources L a = a\<lparr>ar_DatasourceIds := rl_marshal_ints L (ar_DatasourceIdsJson a)\<rparr>"
  "ar_RuleConfigJson a \<noteq> JNull \<Longrightarrow> fe_config L a = a\<lparr>ar_RuleConfig := lib_marshal (rl_lib L) (ar_RuleConfigJson a), ar_PromQl := ''''\<rparr>"
  "fe_annotations L True a = a\<lparr>ar_Annotations := lib_marshal (rl_lib L) (json_of_strmap (ar_AnnotationsJSON a))\<rparr>"
  "ar_ExtraConfigJSON a \<noteq> JNull \<Longrightarrow> fe_extra L a = a\<lparr>ar_ExtraConfig := lib_marshal (rl_lib L) (ar_ExtraConfigJSON a)\<rparr>"
  by (simp_all add: fe_times_def fe_datasources_def fe_config_def fe_annotations_def fe_extra_def Let_def)

lemma fe_days_step: "\<exists>d. fe_days a = a\<lparr>ar_EnableDaysOfWeek := d\<rparr> \<and> d = ar_EnableDaysOfWeek (fe_days a)"
  by (simp add: fe_days_def Let_def)

lemma FE2DB_form:
  assumes "form_clean f"
  shows "AlertRule_FE2DB L True f = f\<lparr>ar_EnableStime := Join (ar_EnableStimesJSON f) '' '', ar_EnableEtime := Join (ar_EnableEtimesJSON f) '' '',
     ar_EnableDaysOfWeek := ar_EnableDaysOfWeek (fe_days f), ar_NotifyChannels := Join (ar_NotifyChannelsJSON f) '' '',
     ar_NotifyGroups := Join (ar_NotifyGroupsJSON f) '' '', ar_Callbacks := Join (ar_CallbacksJSON f) '' '', ar_AppendTags := Join (ar_AppendTagsJSON f) '' '',
     ar_AlgoParams := lib_marshal (rl_lib L) (ar_AlgoParamsJson f), ar_DatasourceIds := rl_marshal_ints L (ar_DatasourceIdsJson f),
     ar_RuleConfig := lib_marshal (rl_lib L) (ar_RuleConfigJson f), ar_PromQl := '''',
     ar_Annotations := lib_marshal (rl_lib L) (json_of_strmap (ar_AnnotationsJSON f)), ar_ExtraConfig := lib_marshal (rl_lib L) (ar_ExtraConfigJSON f)\<rparr>"
proof -
  have f: "ar_EnableStimesJSON f \<noteq> []" "ar_DatasourceIdsJson f \<noteq> []" "ar_RuleConfigJson f \<noteq> JNull" "ar_ExtraConfigJSON f \<noteq> JNull"
    using assms by (auto simp: form_clean_def)
  obtain d where d: "fe_days (fe_times f) = (fe_times f)\<lparr>ar_EnableDaysOfWeek := d\<rparr>" "d = ar_EnableDaysOfWeek (fe_days (fe_times f))"
    using fe_days_step by blast
  have "d = ar_EnableDaysOfWeek (fe_days f)" by (simp add: d(2) fe_steps(1) [OF f(1)] fe_days_def Let_def)
  then have "fe_days (fe_times f) = f\<lparr>ar_EnableStime := Join (ar_EnableStimesJSON f) '' '', ar_EnableEtime := Join (ar_EnableEtimesJSON f) '' '',
      ar_EnableDaysOfWeek := ar_EnableDaysOfWeek (fe_days f)\<rparr>"
    using d(1) by (simp only: fe_steps(1) [OF f(1)])
  then show ?thesis unfolding AlertRule_FE2DB_def by (simp add: fe_lists_def fe_steps f)
qed

lemma FE2DB_columns:
  assumes "form_clean f"
  shows "ar_NotifyChannels (AlertRule_FE2DB L True f) = Join (ar_NotifyChannelsJSON f) '' ''" "ar_NotifyGroups (AlertRule_FE2DB L True f) = Join (ar_NotifyGroupsJSON f) '' ''"
    "ar_Callbacks (AlertRule_FE2DB L True f) = Join (ar_CallbacksJSON f) '' ''" "ar_AppendTags (AlertRule_FE2DB L True f) = Join (ar_AppendTagsJSON f) '' ''"
    "ar_EnableStime (AlertRule_FE2DB L True f) = Join (ar_EnableStimesJSON f) '' ''" "ar_EnableEtime (AlertRule_FE2DB L True f) = Join (ar_EnableEtimesJSON f) '' ''"
    "ar_EnableDaysOfWeek (AlertRule_FE2DB L True f) = ar_EnableDaysOfWeek (fe_days f)"
    "ar_DatasourceIds (AlertRule_FE2DB L True f) = rl_marshal_ints L (ar_DatasourceIdsJson f)"
    "ar_AlgoParams (AlertRule_FE2DB L True f) = lib_marshal (rl_lib L) (ar_AlgoParamsJson f)"
    "ar_RuleConfig (AlertRule_FE2DB L True f) = lib_marshal (rl_lib L) (ar_RuleConfigJson f)"
    "ar_ExtraConfig (AlertRule_FE2DB L True f) = lib_marshal (rl_lib L) (ar_ExtraConfigJSON f)"
    "ar_Annotations (AlertRule_FE2DB L True f) = lib_marshal (rl_lib L) (json_of_strmap (ar_AnnotationsJSON f))"
    "ar_Name (AlertRule_FE2DB L True f) = ar_Name f" "ar_Note (AlertRule_FE2DB L True f) = ar_Note f" "ar_Disabled (AlertRule_FE2DB L True f) = ar_Disabled f"
    "ar_NotifyRepeatStep (AlertRule_FE2DB L True f) = ar_NotifyRepeatStep f"
  by (simp_all add: FE2DB_form [OF assms])

lemma db_times_read:
  "Fields (ar_EnableStime a) \<noteq> [] \<Longrightarrow> \<exists>x y. db_times a = Inr (a\<lparr>ar_EnableStimesJSON := Fields (ar_EnableStime a),
     ar_EnableEtimesJSON := Fields (ar_EnableEtime a), ar_EnableStimeJSON := x, ar_EnableEtimeJSON := y\<rparr>)"
  by (cases a) (auto simp: db_times_def Let_def)

lemma row_read:
  assumes f: "form_clean f" "form_codec L f" and f1: "AlertRule_Verify (rl_lib L) ((AlertRule_FE2DB L True f)\<lparr>ar_Id := i, ar_GroupId := g,
    ar_CreateAt := t, ar_CreateBy := by0, ar_UpdateAt := now\<rparr>) = Inr f1"
  shows "\<exists>r. AlertRule_DB2FE L (rule_row f1) = Inr r \<and> entered r = entered f \<and> ar_Id r = i \<and> ar_GroupId r = g \<and> ar_CreateBy r = by0"
proof -
  note cols = Verify_columns [OF f1, simplified, unfolded FE2DB_columns [OF f(1)]]
  have words: "\<forall>w \<in> set (ar_NotifyChannelsJSON f). word w" "\<forall>w \<in> set (ar_NotifyGroupsJSON f). word w" "\<forall>w \<in> set (ar_CallbacksJSON f). word w"
    "\<forall>w \<in> set (ar_AppendTagsJSON f). word w" "\<forall>w \<in> set (ar_EnableStimesJSON f). word w" "\<forall>w \<in> set (ar_EnableEtimesJSON f). word w"
    and ne: "ar_EnableStimesJSON f \<noteq> []" "ar_RuleConfigJson f \<noteq> JNull"
    using f(1) by (auto simp: form_clean_def)
  have frame: "ar_Id f1 = i" "ar_GroupId f1 = g" "ar_CreateBy f1 = by0"
    using AlertRule_Verify_result [OF f1] by auto
  note fields = words [THEN Fields_Join]
  have "ar_EnableStime (rule_row f1) = ar_EnableStime f1" "ar_EnableEtime (rule_row f1) = ar_EnableEtime f1" by (simp_all add: rule_row_def)
  then obtain a1 x y where a1: "db_times (rule_row f1) = Inr a1" "a1 = (rule_row f1)\<lparr>ar_EnableStimesJSON := ar_EnableStimesJSON f,
      ar_EnableEtimesJSON := ar_EnableEtimesJSON f, ar_EnableStimeJSON := x, ar_EnableEtimeJSON := y\<rparr>"
    using db_times_read [of "rule_row f1"] ne(1) fields(5,6) cols(5,6) by auto
  let ?r = "AlertRule_FillDatasourceIds L (db_lists L (db_days a1))"
  have "ar_EnableDaysOfWeeksJSON ?r = ar_EnableDaysOfWeeksJSON f" "ar_EnableStimesJSON ?r = ar_EnableStimesJSON f" "ar_EnableEtimesJSON ?r = ar_EnableEtimesJSON f"
    by (subst a1(2), simp add: AlertRule_FillDatasourceIds_def db_lists_def db_days_def rule_row_def Let_def cols days_read [OF f(1)])+
  moreover have "ar_NotifyChannelsJSON ?r = ar_NotifyChannelsJSON f" "ar_NotifyGroupsJSON ?r = ar_NotifyGroupsJSON f" "ar_CallbacksJSON ?r = ar_CallbacksJSON f"
      "ar_AppendTagsJSON ?r = ar_AppendTagsJSON f"
    by (subst a1(2), simp add: AlertRule_FillDatasourceIds_def db_lists_def db_days_def rule_row_def Let_def cols fields TrimSpace_words [OF words(4)])+
  moreover have "ar_AlgoParamsJson ?r = ar_AlgoParamsJson f" "ar_RuleConfigJson ?r = ar_RuleConfigJson f" "ar_ExtraConfigJSON ?r = ar_ExtraConfigJSON f"
      "ar_AnnotationsJSON ?r = ar_AnnotationsJSON f" "ar_DatasourceIdsJson ?r = ar_DatasourceIdsJson f"
    by (subst a1(2), use f(2) in \<open>simp add: AlertRule_FillDatasourceIds_def db_lists_def db_days_def rule_row_def Let_def cols form_codec_def\<close>)+
  moreover have "ar_Name ?r = ar_Name f" "ar_Note ?r = ar_Note f" "ar_Disabled ?r = ar_Disabled f" "ar_NotifyRepeatStep ?r = ar_NotifyRepeatStep f"
      "ar_Id ?r = i" "ar_GroupId ?r = g" "ar_CreateBy ?r = by0"
    by (subst a1(2), simp add: AlertRule_FillDatasourceIds_def db_lists_def db_days_def rule_row_def Let_def cols frame)+
  ultimately have "entered ?r = entered f \<and> ar_Id ?r = i \<and> ar_GroupId ?r = g \<and> ar_CreateBy ?r = by0" by (simp only: entered_def)
  then show ?thesis using a1(1) by (simp add: AlertRule_DB2FE_def)
qed

lemma updated_first:
  assumes "i \<in> key ` set rows" and "key r = i"
  shows "first (filter (\<lambda>x. key x = i) (update_where (\<lambda>x. key x = i) (\<lambda>_. r) rows)) = Some r"
proof -
  have "set (filter (\<lambda>x. key x = i) (update_where (\<lambda>x. key x = i) (\<lambda>_. r) rows)) = {r}"
    using assms by (auto simp: set_update_where)
  then show ?thesis by (cases "filter (\<lambda>x. key x = i) (update_where (\<lambda>x. key x = i) (\<lambda>_. r) rows)") (auto simp: first_def)
qed

text \<open>C22. Saving a rule and reading it: when the lists of the form hold words and its values survive being
  written as JSON, then after a successful update of an existing rule a read of its row returns what
  was entered (channels, teams, callbacks, tags, time spans, days, data sources, configuration,
  annotations, name), under the identifier, the group and the creator of the row.\<close>

theorem rule_put_get:
  assumes "AlertRule_Update L ar True f s = (Inr (), t)" and "ar_Id ar \<in> ar_Id ` set (ce_alert_rule s)"
    and "form_clean f" "form_codec L f" and "calm t"
  shows "\<exists>r n. AlertRuleGetById L (ar_Id ar) t = (Inr (Some r), t\<lparr>ce_step := n\<rparr>) \<and> entered r = entered f \<and>
    ar_Id r = ar_Id ar \<and> ar_GroupId r = ar_GroupId ar \<and> ar_CreateBy r = ar_CreateBy ar"
proof -
  obtain n now f1 where t: "t = s\<lparr>ce_step := n, ce_alert_rule := update_where (\<lambda>r. ar_Id r = ar_Id ar) (\<lambda>_. rule_row f1) (ce_alert_rule s)\<rparr>"
    and f1: "AlertRule_Verify (rl_lib L) ((AlertRule_FE2DB L True f)\<lparr>ar_Id := ar_Id ar, ar_GroupId := ar_GroupId ar,
       ar_CreateAt := ar_CreateAt ar, ar_CreateBy := ar_CreateBy ar, ar_UpdateAt := now\<rparr>) = Inr f1"
    by (rule AlertRule_Update_effect [OF assms(1)])
  obtain r where r: "AlertRule_DB2FE L (rule_row f1) = Inr r" "entered r = entered f" "ar_Id r = ar_Id ar" "ar_GroupId r = ar_GroupId ar" "ar_CreateBy r = ar_CreateBy ar"
    using row_read [OF assms(3,4) f1] by blast
  have "ar_Id (rule_row f1) = ar_Id ar" using AlertRule_Verify_frame [OF f1] by simp
  from updated_first [OF assms(2) this] have "first (filter (\<lambda>x. ar_Id x = ar_Id ar) (ce_alert_rule t)) = Some (rule_row f1)" by (simp add: t)
  then have "fst (AlertRuleGetById L (ar_Id ar) t) = Inr (Some r)"
    using sees_outcome [OF sees_found(1) [of L "ar_Id ar"], of t] assms(5) r(1) by (auto simp: isl_def)
  then show ?thesis using sees_outcome [OF sees_found(1) [of L "ar_Id ar"], of t] r(2-) by (metis prod.collapse)
qed

definition sample_form :: AlertRule where
  "sample_form = zero_AlertRule\<lparr>ar_Name := ''cpu'', ar_NotifyChannelsJSON := [''email'', ''wecom''], ar_NotifyGroupsJSON := [''3''], ar_CallbacksJSON := [''http://a''],
     ar_AppendTagsJSON := [''team=ops''], ar_EnableStimesJSON := [''00:00'', ''08:00''], ar_EnableEtimesJSON := [''06:00'', ''20:00''],
     ar_EnableDaysOfWeeksJSON := [[''0'', ''6''], [''1'', ''2'']], ar_DatasourceIdsJson := [3, 4], ar_RuleConfigJson := JStr ''c'', ar_ExtraConfigJSON := JStr ''x''\<rparr>"

definition sample_text_lib :: rule_lib where
  "sample_text_lib = sample_rule_lib\<lparr>rl_lib := sample_lib\<lparr>lib_marshal := (\<lambda>j. case j of JStr t \<Rightarrow> CHR ''s'' # t | _ \<Rightarrow> ''null''),
     lib_unmarshal := (\<lambda>s j. if s = ''null'' then JNull else JStr (tl s)), lib_unmarshal_strmap := (\<lambda>s m. [])\<rparr>\<rparr>"

definition sample_old_rule :: AlertRule where
  "sample_old_rule = zero_AlertRule\<lparr>ar_Id := 50, ar_GroupId := 9, ar_Name := ''a''\<rparr>"

lemma sample_calm: "calm (sample_rules\<lparr>ce_step := n, ce_alert_rule := rows\<rparr>)"
  by (simp add: calm_def sample_rules_def sample_center_def)

theorem rule_put_get_witness:
  "\<exists>r n. AlertRuleGetById sample_text_lib 50 (snd (AlertRule_Update sample_text_lib sample_old_rule True sample_form sample_rules)) =
      (Inr (Some r), (snd (AlertRule_Update sample_text_lib sample_old_rule True sample_form sample_rules))\<lparr>ce_step := n\<rparr>) \<and>
    entered r = entered sample_form \<and> ar_Id r = 50 \<and> ar_GroupId r = 9"
proof -
  let ?run = "AlertRule_Update sample_text_lib sample_old_rule True sample_form sample_rules"
  have "fst ?run = Inr ()" by code_simp
  then have "?run = (Inr (), snd ?run)" by (metis prod.collapse)
  moreover have "ar_Id sample_old_rule \<in> ar_Id ` set (ce_alert_rule sample_rules)" "ar_Id sample_old_rule = 50" "ar_GroupId sample_old_rule = 9" by code_simp+
  moreover have "form_clean sample_form" "form_codec sample_text_lib sample_form" by code_simp+
  moreover from calculation(1) have "calm (snd ?run)" by (rule AlertRule_Update_effect) (metis sample_calm)
  ultimately show ?thesis using rule_put_get [of sample_text_lib sample_old_rule sample_form sample_rules "snd ?run"] by metis
qed

end
