(* ===== verification/Mute_Preview.thy ===== *)
theory Mute_Preview
  imports Rule_Spec Rule_Samples
begin

text \<open>
  What the preview of a mute promises (\<open>center/router/router_mute.go\<close>), across the pages of the center,
  the tables and the alerting engine.
\<close>

text \<open>A mute that was verified, stored at the time \<open>now\<close> and loaded into the cache of the alerting engine.\<close>

definition cached_mute :: "rule_lib \<Rightarrow> AlertMute \<Rightarrow> int \<Rightarrow> AlertMute option" where
  "cached_mute L m now = AlertMute_Parse (rl_lib L) (snd (AlertMute_DB2FE L (mute_row ((AlertMute_FE2DB L m)\<lparr>am_CreateAt := now, am_UpdateAt := now\<rparr>))))"

definition mute_codec :: "rule_lib \<Rightarrow> AlertMute \<Rightarrow> bool" where
  "mute_codec L m \<longleftrightarrow> rl_unmarshal_ints L (rl_marshal_ints L (am_DatasourceIdsJson m)) [] = (None, am_DatasourceIdsJson m) \<and>
     rl_unmarshal_periodic L (rl_marshal_periodic L (am_PeriodicMutesJson m)) [] = (None, am_PeriodicMutesJson m) \<and>
     (if am_SeveritiesJson m = [] then am_Severities m = ''''
      else rl_marshal_ints L (am_SeveritiesJson m) \<noteq> '''' \<and> rl_unmarshal_ints L (rl_marshal_ints L (am_SeveritiesJson m)) [] = (None, am_SeveritiesJson m))"

lemma cached_mute_same:
  assumes "AlertMute_Verify (rl_lib L) m0 = Inr m" and "mute_codec L m"
  shows "\<exists>c. cached_mute L m now = Some c \<and> am_ITags c = am_ITags m \<and> am_DatasourceIdsJson c = am_DatasourceIdsJson m \<and>
    am_SeveritiesJson c = am_SeveritiesJson m \<and> am_PeriodicMutesJson c = am_PeriodicMutesJson m \<and> am_MuteTimeType c = am_MuteTimeType m \<and>
    am_Btime c = am_Btime m \<and> am_Etime c = am_Etime m \<and> am_Disabled c = am_Disabled m"
proof -
  have "GetTagFilters (rl_lib L) (am_Tags m) = Some (am_ITags m)"
    using assms(1) by (auto simp: AlertMute_Verify_def AlertMute_Parse_def Let_def split: if_splits option.splits)
  then show ?thesis
    using assms(2) by (cases "am_SeveritiesJson m = []")
      (auto simp: cached_mute_def AlertMute_Parse_def AlertMute_DB2FE_def mute_row_def AlertMute_FE2DB_def Let_def mute_codec_def)
qed

lemma match_events_set:
  "match_events its rows = Inr evs \<Longrightarrow> set evs = {e \<in> DB2Mem ` set rows. MatchTags (ev_TagsMap e) its = Inr True}"
proof (induction rows arbitrary: evs)
  case (Cons row rows)
  obtain b es where b: "MatchTags (ev_TagsMap (DB2Mem row)) its = Inr b" and es: "match_events its rows = Inr es"
    and evs: "evs = (if b then DB2Mem row # es else es)"
    using Cons.prems by (auto simp: Let_def res_bind_Inr_iff)
  show ?case using Cons.IH [OF es] b by (auto simp: evs)
qed simp

text \<open>What a preview returns: the current events that the mute's columns select and its filters match.\<close>

lemma preview_rows:
  assumes "alertMutePreview L rq given f s = (Inr (Data evs), t)"
    and "rq_int rq ''id'' = Inr g" and "AlertMute_Verify (rl_lib L) (f\<lparr>am_GroupId := g\<rparr>) = Inr m"
  shows "set evs = {e \<in> DB2Mem ` {row \<in> set (ce_alert_cur_event s). muted_where given m row}. MatchTags (ev_TagsMap e) (am_ITags m) = Inr True}"
proof -
  let ?rows = "\<lambda>m s. newest_first ev_Id (filter (muted_where given m) (ce_alert_cur_event s))"
  have rows: "sees (AlertCurEventGetsFromAlertMute given m) (\<lambda>s. Inr (?rows m s))" for m
    unfolding AlertCurEventGetsFromAlertMute_def by (rule sees_query) (simp add: steady_def)
  from assms(1) obtain g' s1 m' s2 lst s3 s4 where run: "UrlParamInt64 rq ''id'' s = (Inr g', s1)"
      "dangerous (checked (AlertMute_Verify (rl_lib L) (f\<lparr>am_GroupId := g'\<rparr>))) s1 = (Inr m', s2)"
      "dangerous (AlertCurEventGetsFromAlertMute given m') s2 = (Inr lst, s3)" "panicking (match_events (am_ITags m') lst) s3 = (Inr evs, s4)"
    unfolding alertMutePreview_def bind_Inr_iff by (auto simp: ret_def)
  have g: "g' = g" using seen [OF sees_UrlParam run(1)] assms(2) by simp
  have "AlertMute_Verify (rl_lib L) (f\<lparr>am_GroupId := g'\<rparr>) = Inr m'"
    using run(2) [THEN dangerous_Inr, THEN seen [OF sees_checks(1)]] by (simp split: sum.splits)
  then have m: "m' = m" using assms(3) g by simp
  obtain n1 where s1: "s1 = s\<lparr>ce_step := n1\<rparr>" using reads_state [OF reads_checks(2) run(1)] by blast
  obtain n2 where s2: "s2 = s1\<lparr>ce_step := n2\<rparr>" using reads_state [OF sees_reads [OF sees_checks(1)] dangerous_Inr [OF run(2)]] by blast
  have "match_events (am_ITags m) lst = Inr evs" using run(4) [THEN seen [OF sees_checks(2)]] m by (simp split: sum.splits)
  moreover have "lst = ?rows m s2" using run(3) [THEN dangerous_Inr, THEN seen [OF rows]] m by simp
  then have "set lst = {row \<in> set (ce_alert_cur_event s). muted_where given m row}" by (simp add: set_ordered s1 s2)
  ultimately show ?thesis using match_events_set by blast
qed

text \<open>For an event of the product and category of the mute, selection and filters are what the engine
  checks.\<close>

lemma selected_iff_matches:
  assumes m: "AlertMute_Verify (rl_lib L) m0 = Inr m" and codec: "mute_codec L m" and c: "cached_mute L m now = Some c"
    and e: "e = DB2Mem row" "ev_GroupId row = am_GroupId m" "ev_RuleProd row = am_Prod m"
    and ds: "if am_Prod m = HOST then ev_DatasourceId row = 0 else given \<and> ev_DatasourceId row \<noteq> 0 \<and> ev_Cate row = am_Cate m"
    and sev: "0 \<notin> set (am_SeveritiesJson m)"
    and live: "am_Disabled m \<noteq> 1" "mute_time (rl_lib L) m e (ev_TriggerTime e)"
  shows "muted_where given m row \<and> MatchTags (ev_TagsMap e) (am_ITags m) = Inr True \<longleftrightarrow> mute_matches (rl_lib L) e c"
proof -
  have same: "am_ITags c = am_ITags m" "am_DatasourceIdsJson c = am_DatasourceIdsJson m" "am_SeveritiesJson c = am_SeveritiesJson m"
    "am_PeriodicMutesJson c = am_PeriodicMutesJson m" "am_MuteTimeType c = am_MuteTimeType m" "am_Btime c = am_Btime m" "am_Etime c = am_Etime m"
    "am_Disabled c = am_Disabled m"
    using cached_mute_same [OF m codec, of now] c by auto
  have "\<forall>f \<in> set (am_ITags m). filter_ready f" using AlertMute_Verify_ok(4) [OF m] .
  then have tags: "MatchTags (ev_TagsMap e) (am_ITags m) = Inr True \<longleftrightarrow>
      (\<forall>f \<in> set (am_ITags c). \<exists>v. go_get (ev_TagsMap e) (tf_Key f) = Some v \<and> filter_holds v f)"
    by (simp add: MatchTags_ready same)
  have row: "ev_DatasourceId e = ev_DatasourceId row" "ev_Severity e = ev_Severity row" by (simp_all add: e(1) DB2Mem_def Let_def)
  have "muted_where given m row \<longleftrightarrow> mute_severity c e \<and> mute_datasource c e"
    using e(2,3) ds sev AlertMute_Verify_ok(5) [OF m]
    by (auto simp: muted_where_def mute_severity_def mute_datasource_def same row severity_loop_iff IsAllDatasource_iff split: if_splits list.splits)
  moreover have "mute_time (rl_lib L) c e (ev_TriggerTime e)" using live(2) by (simp only: mute_time_def same)
  ultimately show ?thesis using live(1) tags by (auto simp: mute_matches_def same)
qed

text \<open>C23. What the preview of a mute shows is what the mute will silence. Take a current event of the group,
  product and category of an enabled mute whose time the mute covers; for a product other than hosts
  the mute has a list of data sources and the event has a data source, for hosts it has none; and the
  mute does not list the severity 0, which the engine reads as all severities. If the preview shows
  the event then the alerting engine suppresses it once the mute is in its cache, and if the engine
  suppresses it with this mute alone in the cache of the group then the preview shows it. (The
  engine does not compare the product and the category, so a mute also silences events of other
  ones, which its preview does not show.)\<close>

theorem preview_is_muted:
  assumes "alertMutePreview L rq given f s = (Inr (Data evs), t)"
    and "rq_int rq ''id'' = Inr g" and "AlertMute_Verify (rl_lib L) (f\<lparr>am_GroupId := g\<rparr>) = Inr m" and "mute_codec L m"
    and "row \<in> set (ce_alert_cur_event s)" "e = DB2Mem row" "ev_GroupId row = g" "ev_RuleProd row = am_Prod m"
    and "if am_Prod m = HOST then ev_DatasourceId row = 0 else given \<and> ev_DatasourceId row \<noteq> 0 \<and> ev_Cate row = am_Cate m"
    and "0 \<notin> set (am_SeveritiesJson m)" and "am_Disabled m \<noteq> 1" and "mute_time (rl_lib L) m e (ev_TriggerTime e)"
    and "mutes_ready E" "env_lib E = rl_lib L" "env_mutes E g = Some ms" and "cached_mute L m now = Some c" "c \<in> set ms"
  shows "(e \<in> set evs \<longrightarrow> EventMuteStrategy E e = Inr True) \<and> (ms = [c] \<longrightarrow> EventMuteStrategy E e = Inr True \<longrightarrow> e \<in> set evs)"
proof -
  have g: "am_GroupId m = g" using AlertMute_Verify_row(2) [OF assms(3)] by simp
  have match: "muted_where given m r \<and> MatchTags (ev_TagsMap e) (am_ITags m) = Inr True \<longleftrightarrow> mute_matches (rl_lib L) e c"
    if "e = DB2Mem r" "ev_GroupId r = ev_GroupId row" "ev_RuleProd r = ev_RuleProd row" "ev_DatasourceId r = ev_DatasourceId row" "ev_Cate r = ev_Cate row" for r
    using selected_iff_matches [OF assms(3,4,16) that(1)] that assms(7-12) g by simp
  have fields: "ev_GroupId r = ev_GroupId row \<and> ev_RuleProd r = ev_RuleProd row \<and> ev_DatasourceId r = ev_DatasourceId row \<and> ev_Cate r = ev_Cate row"
    if "DB2Mem r = e" for r
  proof -
    have "h (DB2Mem r) = h (DB2Mem row)" for h :: "AlertCurEvent \<Rightarrow> string \<times> string \<times> int \<times> int" using that assms(6) by simp
    from this [of "\<lambda>e. (ev_RuleProd e, ev_Cate e, ev_GroupId e, ev_DatasourceId e)"] show ?thesis by (simp add: DB2Mem_def Let_def)
  qed
  have "e \<in> set evs \<longleftrightarrow> mute_matches (rl_lib L) e c"
  proof
    assume "e \<in> set evs"
    then obtain r where "e = DB2Mem r" "muted_where given m r" "MatchTags (ev_TagsMap e) (am_ITags m) = Inr True"
      unfolding preview_rows [OF assms(1-3)] by blast
    then show "mute_matches (rl_lib L) e c" using match fields by metis
  next
    assume "mute_matches (rl_lib L) e c"
    then have "muted_where given m row" "MatchTags (ev_TagsMap e) (am_ITags m) = Inr True" using match [OF assms(6)] by simp_all
    then show "e \<in> set evs" unfolding preview_rows [OF assms(1-3)] using assms(5,6) by blast
  qed
  moreover have "ev_GroupId e = g" using assms(6,7) by (simp add: DB2Mem_def Let_def)
  ultimately show ?thesis using assms(13-15,17) by (auto simp: EventMuteStrategy_ready)
qed

definition sample_firing :: AlertCurEvent where
  "sample_firing = zero_AlertCurEvent\<lparr>ev_Id := 8, ev_GroupId := 5, ev_RuleProd := METRIC, ev_Cate := PROMETHEUS, ev_DatasourceId := 3, ev_Severity := 2,
     ev_TriggerTime := 1000, ev_Tags := ''ident=web01''\<rparr>"

definition sample_muting :: AlertMute where
  "sample_muting = sample_mute\<lparr>am_GroupId := 5, am_ITags := [\<lparr>tf_Key = ''ident'', tf_Func = ''=='', tf_Value = ''web01'', tf_Regexp = None, tf_Vset = []\<rparr>]\<rparr>"

definition sample_muted_env :: env where
  "sample_muted_env = sample_env\<lparr>env_lib := rl_lib sample_rule_lib, env_mutes := (\<lambda>g. Some [the (cached_mute sample_rule_lib sample_muting 0)])\<rparr>"

theorem preview_is_muted_witness:
  "fst (alertMutePreview sample_rule_lib (sample_request sample_token) True sample_mute (sample_rules\<lparr>ce_alert_cur_event := [sample_firing]\<rparr>)) =
     Inr (Data [DB2Mem sample_firing]) \<and> EventMuteStrategy sample_muted_env (DB2Mem sample_firing) = Inr True"
proof -
  let ?s = "sample_rules\<lparr>ce_alert_cur_event := [sample_firing]\<rparr>"
  have shown: "fst (alertMutePreview sample_rule_lib (sample_request sample_token) True sample_mute ?s) = Inr (Data [DB2Mem sample_firing])" by code_simp
  have "(DB2Mem sample_firing \<in> set [DB2Mem sample_firing] \<longrightarrow> EventMuteStrategy sample_muted_env (DB2Mem sample_firing) = Inr True) \<and>
      ([the (cached_mute sample_rule_lib sample_muting 0)] = [the (cached_mute sample_rule_lib sample_muting 0)] \<longrightarrow>
        EventMuteStrategy sample_muted_env (DB2Mem sample_firing) = Inr True \<longrightarrow> DB2Mem sample_firing \<in> set [DB2Mem sample_firing])"
  proof (rule preview_is_muted [where L = sample_rule_lib and rq = "sample_request sample_token" and given = True and f = sample_mute and m = sample_muting and row = sample_firing
      and s = "sample_rules\<lparr>ce_alert_cur_event := [sample_firing]\<rparr>" and g = 5 and now = 0 and ms = "[the (cached_mute sample_rule_lib sample_muting 0)]"
      and evs = "[DB2Mem sample_firing]" and c = "the (cached_mute sample_rule_lib sample_muting 0)"
      and t = "snd (alertMutePreview sample_rule_lib (sample_request sample_token) True sample_mute (sample_rules\<lparr>ce_alert_cur_event := [sample_firing]\<rparr>))"])
  have v: "AlertMute_Verify (rl_lib sample_rule_lib) (sample_mute\<lparr>am_GroupId := 5\<rparr>) = Inr sample_muting" 
    by (simp add: AlertMute_Verify_def AlertMute_Parse_def GetTagFilters_def prepare_filter_def sample_rule_lib_def sample_lib_def sample_mute_def sample_muting_def Let_def)
  then show "AlertMute_Verify (rl_lib sample_rule_lib) (sample_mute\<lparr>am_GroupId := 5\<rparr>) = Inr sample_muting" .
  show codec: "mute_codec sample_rule_lib sample_muting" by code_simp
  obtain c where c: "cached_mute sample_rule_lib sample_muting 0 = Some c" "am_ITags c = am_ITags sample_muting"
    using cached_mute_same [OF v codec, of 0] by blast
  then show "cached_mute sample_rule_lib sample_muting 0 = Some (the (cached_mute sample_rule_lib sample_muting 0))" by simp
  have "mute_ready c" using AlertMute_Verify_ok(4) [OF v] c(2) by (simp add: mute_ready_def)
  then show "mutes_ready sample_muted_env" using c(1) by (simp add: mutes_ready_def sample_muted_env_def)
  show "alertMutePreview sample_rule_lib (sample_request sample_token) True sample_mute ?s =
      (Inr (Data [DB2Mem sample_firing]), snd (alertMutePreview sample_rule_lib (sample_request sample_token) True sample_mute ?s))"
    using shown by (metis prod.collapse)
  show "rq_int (sample_request sample_token) ''id'' = Inr 5" by (simp add: sample_request_def)
  show "if am_Prod sample_muting = HOST then ev_DatasourceId sample_firing = 0
      else True \<and> ev_DatasourceId sample_firing \<noteq> 0 \<and> ev_Cate sample_firing = am_Cate sample_muting" by code_simp
  show "0 \<notin> set (am_SeveritiesJson sample_muting)" "ev_RuleProd sample_firing = am_Prod sample_muting" "ev_GroupId sample_firing = 5" by code_simp+
  show "am_Disabled sample_muting \<noteq> 1" by code_simp
  show "mute_time (rl_lib sample_rule_lib) sample_muting (DB2Mem sample_firing) (ev_TriggerTime (DB2Mem sample_firing))" by code_simp
  qed (simp_all add: sample_muted_env_def)
  then show ?thesis using shown by simp
qed

text \<open>A mute without a list of data sources previews the events of all of them, and silences none of these.\<close>

lemma preview_without_sources:
  "muted_where False (sample_muting\<lparr>am_DatasourceIdsJson := []\<rparr>) sample_firing = True"
  "matchMute (rl_lib sample_rule_lib) (DB2Mem sample_firing) (sample_muting\<lparr>am_DatasourceIdsJson := []\<rparr>) None = Inr False"
  by code_simp+

end
