(* ===== verification/Alert_Router.thy ===== *)
theory Alert_Router
  imports Effects Scheduler Dispatch_Spec
begin

text \<open>
  The HTTP interface of the alerting engine (\<open>alert/router/router_event.go\<close>): events that other
  programs push into the queue, events that engines outside the center persist through the center,
  and anomaly points for rules that are evaluated elsewhere, which are forwarded to the instance
  that owns the rule. \<open>pkg/poster/post.go\<close> makes the requests between the instances.
\<close>

subsection \<open>Requests between instances\<close>

text \<open>
  The HTTP client is a parameter: whether a request can be built for an address, and what its
  execution returns, an error or a status with the outcome of reading the body. A decoder returns
  the error field and the data of an answer.
\<close>

record http_answer =
  ha_StatusCode :: int
  ha_Body :: "string + string"

record http_client =
  hx_new :: "string \<Rightarrow> string option"
  hx_do :: "nat \<Rightarrow> string \<Rightarrow> string + http_answer"

definition answer_of :: "(string \<Rightarrow> string + (string \<times> 'a)) \<Rightarrow> (string \<Rightarrow> string) \<Rightarrow> http_answer \<Rightarrow> string + 'a" where
  "answer_of decode context resp =
     (if ha_StatusCode resp \<noteq> 200 then Inl (''unexpected status code: '' @ Itoa (ha_StatusCode resp))
      else case ha_Body resp of Inl e \<Rightarrow> Inl (''failed to read response body: '' @ e)
      | Inr body \<Rightarrow> (case decode body of Inl e \<Rightarrow> Inl (''failed to decode response: '' @ e @ context body)
          | Inr (err, dat) \<Rightarrow> if err \<noteq> '''' then Inl (''error from server: '' @ err) else Inr dat))"

definition GetByUrl :: "http_client \<Rightarrow> (string \<Rightarrow> string + (string \<times> 'a)) \<Rightarrow> string \<Rightarrow> string + 'a" where
  "GetByUrl H decode url =
     (case hx_new H url of Some e \<Rightarrow> Inl (''failed to create request: '' @ e)
      | None \<Rightarrow> (case hx_do H 0 url of Inl e \<Rightarrow> Inl (''failed to fetch from url: '' @ e)
          | Inr resp \<Rightarrow> answer_of decode (\<lambda>b. '''') resp))"

text \<open>The addresses are tried in a random order; \<open>addrs\<close> is the shuffled list.\<close>

fun get_loop :: "http_client \<Rightarrow> (string \<Rightarrow> string + (string \<times> 'a)) \<Rightarrow> string list \<Rightarrow> string \<Rightarrow> 'a option" where
  "get_loop H decode [] path = None"
| "get_loop H decode (addr # addrs) path =
     (case GetByUrl H decode (addr @ path) of Inl e \<Rightarrow> get_loop H decode addrs path | Inr dat \<Rightarrow> Some dat)"

definition GetByUrls :: "http_client \<Rightarrow> (string \<Rightarrow> string + (string \<times> 'a)) \<Rightarrow> string list \<Rightarrow> string \<Rightarrow> string + 'a" where
  "GetByUrls H decode addrs path =
     (case get_loop H decode addrs path of Some dat \<Rightarrow> Inr dat
      | None \<Rightarrow> Inl (''failed to get data from center, path= '' @ path @ '', ctx.CenterApi.Addrs= ['' @ Join addrs '' '' @ '']''))"

text \<open>A request that cannot be built is used all the same.\<close>

definition PostByUrl :: "http_client \<Rightarrow> (string \<Rightarrow> string + (string \<times> unit)) \<Rightarrow> string \<Rightarrow> (string option) res" where
  "PostByUrl H decode url =
     (if hx_new H url \<noteq> None then Inl Nil_dereference
      else case hx_do H 0 url of Inl e \<Rightarrow> Inr (Some (''failed to fetch from url: '' @ e))
      | Inr resp \<Rightarrow> (case answer_of decode (\<lambda>b. '' body:'' @ b) resp of Inl e \<Rightarrow> Inr (Some e) | Inr _ \<Rightarrow> Inr None))"

fun post_loop :: "http_client \<Rightarrow> (string \<Rightarrow> string + (string \<times> unit)) \<Rightarrow> string list \<Rightarrow> string \<Rightarrow> string option \<Rightarrow> (string option) res" where
  "post_loop H decode [] path err = Inr err"
| "post_loop H decode (addr # addrs) path err =
     res_bind (PostByUrl H decode (addr @ path)) (\<lambda>r. if r = None then Inr None else post_loop H decode addrs path r)"

definition PostByUrls :: "http_client \<Rightarrow> (string \<Rightarrow> string + (string \<times> unit)) \<Rightarrow> string list \<Rightarrow> string \<Rightarrow> (string option) res" where
  "PostByUrls H decode addrs path =
     res_bind (post_loop H decode addrs path None) (\<lambda>err.
     Inr (if length addrs < 1 then Some (''submission of the POST request from the center has failed, path= '' @ path) else err))"

text \<open>The attempts of a request with retries, with the number of requests that were executed; one that
  fails here, for instance by a timeout, may have been served all the same. A retry count of zero
  makes no request.\<close>

fun retry_loop :: "http_client \<Rightarrow> string \<Rightarrow> nat \<Rightarrow> nat \<Rightarrow> (string + http_answer) \<Rightarrow> nat \<times> (string + http_answer)" where
  "retry_loop H url i 0 r = (i, r)"
| "retry_loop H url i (Suc n) r = (case hx_do H i url of Inr resp \<Rightarrow> (Suc i, Inr resp) | Inl e \<Rightarrow> retry_loop H url (Suc i) n (Inl e))"

definition read_answer :: "string + http_answer \<Rightarrow> string + string \<times> int" where
  "read_answer r = (case r of Inl e \<Rightarrow> Inl e
     | Inr resp \<Rightarrow> (case ha_Body resp of Inl e \<Rightarrow> Inl e | Inr b \<Rightarrow> Inr (b, ha_StatusCode resp)))"

definition PostJSON :: "http_client \<Rightarrow> string \<Rightarrow> nat option \<Rightarrow> nat \<times> (string + string \<times> int) res" where
  "PostJSON H url retries =
     (case hx_new H url of Some e \<Rightarrow> (0, Inr (Inl e))
      | None \<Rightarrow>
         (case retries of
            Some 0 \<Rightarrow> (0, Inl Nil_dereference)
          | Some (Suc n) \<Rightarrow> (case retry_loop H url 0 (Suc n) (Inl '''') of (m, r) \<Rightarrow> (m, Inr (read_answer r)))
          | None \<Rightarrow> (1, Inr (read_answer (hx_do H 0 url)))))"

lemma get_loop_finds: "get_loop H decode addrs path = Some d \<Longrightarrow> \<exists>a \<in> set addrs. GetByUrl H decode (a @ path) = Inr d"
  by (induction addrs) (auto split: sum.splits)

lemma get_loop_tries: "a \<in> set addrs \<Longrightarrow> GetByUrl H decode (a @ path) = Inr d \<Longrightarrow> get_loop H decode addrs path \<noteq> None"
  by (induction addrs) (auto split: sum.split)

text \<open>In whatever order the addresses are tried, the data comes from one that answers, if there is one.\<close>

lemma GetByUrls_answers:
  assumes "a \<in> set addrs" "GetByUrl H decode (a @ path) = Inr d"
  shows "\<exists>b \<in> set addrs. \<exists>d. GetByUrls H decode addrs path = Inr d \<and> GetByUrl H decode (b @ path) = Inr d"
proof -
  obtain d' where d': "get_loop H decode addrs path = Some d'" using get_loop_tries [OF assms] by auto
  then show ?thesis using get_loop_finds [OF d'] by (auto simp: GetByUrls_def)
qed

text \<open>The attempts stop at the first one that is answered.\<close>

definition answered :: "http_client \<Rightarrow> string \<Rightarrow> nat \<Rightarrow> bool" where
  "answered H url i \<longleftrightarrow> (\<exists>x. hx_do H i url = Inr x)"

lemma retry_stops:
  "(\<exists>j x. i \<le> j \<and> j < i + n \<and> (\<forall>k. i \<le> k \<longrightarrow> k < j \<longrightarrow> \<not> answered H url k) \<and> hx_do H j url = Inr x \<and>
      retry_loop H url i n r = (Suc j, Inr x)) \<or>
   ((\<forall>k. i \<le> k \<longrightarrow> k < i + n \<longrightarrow> \<not> answered H url k) \<and>
      (\<exists>e. retry_loop H url i n r = (i + n, if n = 0 then r else Inl e)))"
proof (induction n arbitrary: i r)
  case 0
  then show ?case by simp
next
  case (Suc n)
  show ?case
  proof (cases "hx_do H i url")
    case (Inr y)
    then show ?thesis by (intro disjI1 exI [of _ i] exI [of _ y]) simp
  next
    case (Inl e)
    then have i: "\<not> answered H url i" by (simp add: answered_def)
    have split: "i \<le> k \<longleftrightarrow> k = i \<or> Suc i \<le> k" for k by auto
    from Suc.IH [of "Suc i" "Inl e"] show ?thesis
    proof
      assume "\<exists>j x. Suc i \<le> j \<and> j < Suc i + n \<and> (\<forall>k. Suc i \<le> k \<longrightarrow> k < j \<longrightarrow> \<not> answered H url k) \<and>
        hx_do H j url = Inr x \<and> retry_loop H url (Suc i) n (Inl e) = (Suc j, Inr x)"
      then show ?thesis using Inl i by (intro disjI1) (auto simp: split)
    next
      assume "(\<forall>k. Suc i \<le> k \<longrightarrow> k < Suc i + n \<longrightarrow> \<not> answered H url k) \<and>
        (\<exists>e'. retry_loop H url (Suc i) n (Inl e) = (Suc i + n, if n = 0 then Inl e else Inl e'))"
      then show ?thesis using Inl i by (intro disjI2) (auto simp: split)
    qed
  qed
qed

subsection \<open>Events for the queue\<close>

text \<open>
  The queue is a bounded list of a library: \<open>push\<close> inserts an event or reports that the queue is full.
  The state of the handlers is the queue.
\<close>

definition event_texts :: "lib \<Rightarrow> AlertCurEvent \<Rightarrow> AlertCurEvent" where
  "event_texts L e =
     (let e1 = (case ParseRule L ''rule_name'' e of Inl err \<Rightarrow> e\<lparr>ev_RuleName := ''failed to parse rule name: '' @ err\<rparr> | Inr x \<Rightarrow> x);
          e2 = (case ParseRule L ''rule_note'' e1 of Inl err \<Rightarrow> e1\<lparr>ev_RuleNote := ''failed to parse rule note: '' @ err\<rparr> | Inr x \<Rightarrow> x)
      in (case ParseRule L ''annotations'' e2 of Inl err \<Rightarrow> e2\<lparr>ev_RuleNote := ''failed to parse rule note: '' @ err\<rparr> | Inr x \<Rightarrow> x))"

definition TrimPrefix :: "string \<Rightarrow> string \<Rightarrow> string" where
  "TrimPrefix s p = (if prefix p s then drop (length p) s else s)"

definition event_tags :: "AlertCurEvent \<Rightarrow> AlertCurEvent" where
  "event_tags e =
     (if prefix '';'' (ev_RuleNote e)
      then let e1 = e\<lparr>ev_RuleNote := TrimPrefix (ev_RuleNote e) '';''\<rparr>; e2 = e1\<lparr>ev_Tags := ReplaceAll (ev_RuleNote e1) '' '' '',,''\<rparr>
           in e2\<lparr>ev_TagsJSON := Split (ev_Tags e2) '',,''\<rparr>
      else e\<lparr>ev_Tags := Join (ev_TagsJSON e) '',,''\<rparr>)"

definition event_lists :: "AlertCurEvent \<Rightarrow> AlertCurEvent" where
  "event_lists e = e\<lparr>ev_Callbacks := Join (ev_CallbacksJSON e) '' '', ev_NotifyChannels := Join (ev_NotifyChannelsJSON e) '' '',
     ev_NotifyGroups := Join (ev_NotifyGroupsJSON e) '' ''\<rparr>"

definition router_pushEventToQueue :: "env \<Rightarrow> (AlertCurEvent \<Rightarrow> 'q \<Rightarrow> bool \<times> 'q) \<Rightarrow> AlertCurEvent \<Rightarrow> ('q, unit) act" where
  "router_pushEventToQueue E push event0 q =
     (if ev_RuleId event0 = 0 then (Inl (Bomb 200 ''event is illegal''), q)
      else let event = event0\<lparr>ev_TagsMap := tags_of_pairs (ev_TagsJSON event0) []\<rparr> in
      case EventMuteStrategy E event of Inl p \<Rightarrow> (Inl (Crash p), q)
      | Inr True \<Rightarrow> (Inr (), q)
      | Inr False \<Rightarrow>
         let e3 = event_lists (event_tags (event_texts (env_lib E) event)) in
         (case push e3 q of (True, q1) \<Rightarrow> (Inr (), q1) | (False, q1) \<Rightarrow> (Inl (Bomb 200 ''push_queue err: queue is full''), q1)))"

subsection \<open>Persisting for other engines\<close>

text \<open>What arrives of an event: the columns are not part of its JSON form.\<close>

definition posted :: "AlertCurEvent \<Rightarrow> AlertCurEvent" where
  "posted e = e\<lparr>ev_RuleConfig := '''', ev_Callbacks := '''', ev_NotifyChannels := '''', ev_NotifyGroups := '''', ev_Tags := '''', ev_Annotations := ''''\<rparr>"

definition eventPersist :: "lib \<Rightarrow> 'd db_ops \<Rightarrow> AlertCurEvent \<Rightarrow> 'd \<Rightarrow> 'd persist_result" where
  "eventPersist L ops body d = EventPersist ops (AlertCurEvent_FE2DB L body) d"

subsection \<open>Points for rules evaluated elsewhere\<close>

record eventForm =
  ef_Alert :: bool
  ef_AnomalyPoints :: "AnomalyPoint list"
  ef_RuleId :: int
  ef_DatasourceId :: int
  ef_Inhibit :: bool

text \<open>What a request starts: jobs on the processor with a key, and requests to other instances, one
  entry for every request that is executed, whether it is answered or not.\<close>

datatype event_job = Job_handle string "AnomalyPoint list" bool | Job_recover string string int string | Forwarded string eventForm

definition make_event_url :: "string \<Rightarrow> string" where
  "make_event_url instance0 = ''http://'' @ instance0 @ ''/v1/n9e/make-event''"

definition forwardEvent :: "(string \<Rightarrow> http_client) \<Rightarrow> eventForm \<Rightarrow> string \<Rightarrow> event_job list \<times> (string option) res" where
  "forwardEvent H event instance0 =
     (case PostJSON (H instance0) (make_event_url instance0) (Some 3) of (m, r) \<Rightarrow>
        (replicate m (Forwarded instance0 event), res_bind r (\<lambda>x. Inr (case x of Inl e \<Rightarrow> Some e | Inr _ \<Rightarrow> None))))"

definition event_jobs :: "lib \<Rightarrow> eventForm \<Rightarrow> event_job list" where
  "event_jobs L f =
     (let key = RuleKey (ef_DatasourceId f) (ef_RuleId f) in
      if ef_Alert f then [Job_handle key (ef_AnomalyPoints f) (ef_Inhibit f)]
      else map (\<lambda>v. Job_recover key (Hash L (ef_RuleId f) (ef_DatasourceId f) v) (ap_Timestamp v) (ReadableValue v)) (ef_AnomalyPoints f))"

text \<open>The state is the hash rings, to which a look-up may add an empty one, and the jobs started so far.\<close>

type_synonym 'r make_state = "'r rings \<times> event_job list"

definition make_event :: "lib \<Rightarrow> 'r ring_ops \<Rightarrow> string \<Rightarrow> (string \<Rightarrow> http_client) \<Rightarrow> (string, pstate) go_map \<Rightarrow> eventForm \<Rightarrow> ('r make_state, unit) act" where
  "make_event L R endpoint H externals f = (\<lambda>(rings, jobs).
     case GetNode R (ef_DatasourceId f) (Itoa (ef_RuleId f)) rings of
       (rings1, Inl err) \<Rightarrow> (Inl (Bomb 200 ''event node not exists''), (rings1, jobs))
     | (rings1, Inr node) \<Rightarrow>
        if node \<noteq> endpoint then
          (case forwardEvent H f node of
             (posts, Inl p) \<Rightarrow> (Inl (Crash p), (rings1, jobs @ posts))
           | (posts, Inr (Some e)) \<Rightarrow> (Inl (Bomb 200 ''event forward error''), (rings1, jobs @ posts))
           | (posts, Inr None) \<Rightarrow> (Inr (), (rings1, jobs @ posts)))
        else if GetExternalAlertRule externals (ef_DatasourceId f) (ef_RuleId f) = None
        then (Inl (Bomb 200 ''rule not exists''), (rings1, jobs))
        else (Inr (), (rings1, jobs @ event_jobs L f)))"

definition makeEvent :: "lib \<Rightarrow> 'r ring_ops \<Rightarrow> string \<Rightarrow> (string \<Rightarrow> http_client) \<Rightarrow> (string, pstate) go_map \<Rightarrow> eventForm list \<Rightarrow> ('r make_state, unit) act" where
  "makeEvent L R endpoint H externals forms = each (make_event L R endpoint H externals) forms"

subsection \<open>Properties\<close>

text \<open>The columns of an event: blank-separated words in the lists, and texts the JSON library wrote and
  reads back to the value it wrote.\<close>

lemma columns_survive:
  assumes "\<forall>w \<in> set (chans @ groups @ calls). word w"
    and "ev_NotifyChannels e = Join chans '' ''" "ev_NotifyGroups e = Join groups '' ''" "ev_Callbacks e = Join calls '' ''"
    and "ev_Annotations e = lib_marshal L (json_of_strmap ann)"
      "lib_unmarshal_strmap L (lib_marshal L (json_of_strmap ann)) (ev_AnnotationsJSON e) = ann"
    and "ev_RuleConfig e = lib_marshal L cfg" "lib_unmarshal L (lib_marshal L cfg) (ev_RuleConfigJson e) = cfg"
    and "e' = AlertCurEvent_DB2FE L e"
  shows "e' = e\<lparr>ev_NotifyChannelsJSON := chans, ev_NotifyGroupsJSON := groups, ev_CallbacksJSON := calls,
      ev_TagsJSON := Split (ev_Tags e) '',,'', ev_AnnotationsJSON := ann, ev_RuleConfigJson := cfg\<rparr>"
    "AlertCurEvent_FE2DB L (posted e') = e'"
proof -
  have f: "Fields (Join chans '' '') = chans" "Fields (Join groups '' '') = groups" "Fields (Join calls '' '') = calls"
    using assms(1) by (auto intro!: Fields_Join)
  show e': "e' = e\<lparr>ev_NotifyChannelsJSON := chans, ev_NotifyGroupsJSON := groups, ev_CallbacksJSON := calls,
      ev_TagsJSON := Split (ev_Tags e) '',,'', ev_AnnotationsJSON := ann, ev_RuleConfigJson := cfg\<rparr>"
    using assms(2-9) f by (simp add: AlertCurEvent_DB2FE_def)
  have "Join (Split (ev_Tags e) '',,'') '',,'' = ev_Tags e" by (rule Join_Split) simp
  then show "AlertCurEvent_FE2DB L (posted e') = e'"
    using assms(2-5,7) by (simp add: e' AlertCurEvent_FE2DB_def posted_def)
qed

text \<open>C26. An engine outside the center persists through the center. It changes no table itself and posts
  the event with its lists filled from the columns; the columns are not part of the JSON form of the
  event and do not arrive. The center restores every one of them, so it runs exactly the statements
  an engine in the center would run on the event, with the same result. The columns of channels,
  groups and callbacks hold words separated by blanks, and those of annotations and configuration
  hold texts that the JSON library wrote and reads back to the values it wrote.\<close>

theorem remote_persist:
  assumes "\<forall>w \<in> set (chans @ groups @ calls). word w"
    and "ev_NotifyChannels e = Join chans '' ''" "ev_NotifyGroups e = Join groups '' ''" "ev_Callbacks e = Join calls '' ''"
    and "ev_Annotations e = lib_marshal L (json_of_strmap ann)"
      "lib_unmarshal_strmap L (lib_marshal L (json_of_strmap ann)) (ev_AnnotationsJSON e) = ann"
    and "ev_RuleConfig e = lib_marshal L cfg" "lib_unmarshal L (lib_marshal L cfg) (ev_RuleConfigJson e) = cfg"
    and "ev_Status e = 0" and "persist False ops L e t = (e', t', rs)"
  shows "t' = t \<and> rs = [PostEvent ''/v1/n9e/event-persist'' e'] \<and>
    e' = e\<lparr>ev_NotifyChannelsJSON := chans, ev_NotifyGroupsJSON := groups, ev_CallbacksJSON := calls,
      ev_TagsJSON := Split (ev_Tags e) '',,'', ev_AnnotationsJSON := ann, ev_RuleConfigJson := cfg\<rparr> \<and>
    eventPersist L cops (posted e') d = EventPersist cops e' d"
proof -
  have p: "e' = AlertCurEvent_DB2FE L e" "t' = t" "rs = [PostEvent ''/v1/n9e/event-persist'' e']"
    using assms(9,10) by (auto simp: persist_def Let_def)
  note C = columns_survive [OF assms(1-8) p(1)]
  have "eventPersist L cops (posted e') d = EventPersist cops e' d"
    unfolding eventPersist_def C(2) ..
  with C(1) p(2,3) show ?thesis by (intro conjI)
qed

text \<open>A library that can write two maps and two configurations.\<close>

definition sample_codec :: lib where
  "sample_codec = sample_lib\<lparr>
     lib_marshal := (\<lambda>j. case j of JObj [(k, JStr v)] \<Rightarrow> k @ '':'' @ v | _ \<Rightarrow> ''null''),
     lib_unmarshal := (\<lambda>s j. case SplitN2 s '':'' of [k, v] \<Rightarrow> JObj [(k, JStr v)] | _ \<Rightarrow> JNull),
     lib_unmarshal_strmap := (\<lambda>s m. case SplitN2 s '':'' of [k, v] \<Rightarrow> AList.update k v m | _ \<Rightarrow> [])\<rparr>"

definition sample_columns :: AlertCurEvent where
  "sample_columns = sample_event\<lparr>ev_NotifyChannels := ''email sms'', ev_NotifyGroups := ''5'', ev_Callbacks := '''',
     ev_Annotations := ''runbook:r1'', ev_RuleConfig := ''query:up'', ev_Tags := ''a=b,,c=d''\<rparr>"

theorem remote_persist_witness:
  "eventPersist sample_codec (table_ops no_faults) (posted (AlertCurEvent_DB2FE sample_codec sample_columns)) empty_tables =
     EventPersist (table_ops no_faults) (AlertCurEvent_DB2FE sample_codec sample_columns) empty_tables \<and>
   map ev_NotifyChannels (tb_cur (fst (eventPersist sample_codec (table_ops no_faults)
     (posted (AlertCurEvent_DB2FE sample_codec sample_columns)) empty_tables))) = [''email sms'']"
proof -
  let ?e' = "AlertCurEvent_DB2FE sample_codec sample_columns"
  have p: "persist False (table_ops no_faults) sample_codec sample_columns empty_tables =
      (?e', empty_tables, [PostEvent ''/v1/n9e/event-persist'' ?e'])" by code_simp
  have "eventPersist sample_codec (table_ops no_faults) (posted ?e') empty_tables =
      EventPersist (table_ops no_faults) ?e' empty_tables"
    by (rule remote_persist [where chans = "[''email'', ''sms'']" and groups = "[''5'']" and calls = "[]" and e = sample_columns
          and ann = "[(''runbook'', ''r1'')]" and cfg = "JObj [(''query'', JStr ''up'')]", OF _ _ _ _ _ _ _ _ _ p,
          THEN conjunct2, THEN conjunct2, THEN conjunct2]) code_simp+
  moreover have "map ev_NotifyChannels (tb_cur (fst (EventPersist (table_ops no_faults) ?e' empty_tables))) = [''email sms'']"
    by code_simp
  ultimately show ?thesis by simp
qed

lemma GetNode_ring:
  assumes "ring_laws R members" "go_get rings ds = Some (ring_of R servers)" "servers \<noteq> []"
  shows "\<exists>owner \<in> set servers. \<forall>rings'. go_get rings' ds = Some (ring_of R servers) \<longrightarrow> GetNode R ds pk rings' = (rings', Inr owner)"
proof -
  have "members (ring_of R servers) \<noteq> {}" using assms(3) ring_members [OF assms(1)] by simp
  then obtain owner where "owner \<in> set servers" "rg_get R (ring_of R servers) pk = Inr owner"
    using assms(1) ring_members [OF assms(1)] unfolding ring_laws_def by metis
  then show ?thesis by (intro bexI [of _ owner]) (auto simp: GetNode_def)
qed

text \<open>The instances that are up to date on the servers of a data source find the same owner of a rule.\<close>

lemma common_owner:
  assumes "ring_laws R members" "servers \<noteq> []"
    "\<And>k. k \<in> set servers \<Longrightarrow> up_to_date R (F k) (C k) ds (l k) (n k)"
    "\<And>k. k \<in> set servers \<Longrightarrow> mset (l k) = mset servers"
  shows "\<exists>owner \<in> set servers. \<forall>k \<in> set servers. GetNode R ds pk (nm_Rings (n k)) = (nm_Rings (n k), Inr owner)"
proof -
  have r: "go_get (nm_Rings (n k)) ds = Some (ring_of R (sort servers))" if "k \<in> set servers" for k
    using up_to_date_ring [OF assms(3) [OF that]] assms(4) [OF that] by (metis mset_sort properties_for_sort sorted_sort)
  have "hd servers \<in> set servers" "sort servers \<noteq> []" using assms(2) by (auto simp flip: set_empty)
  with GetNode_ring [OF assms(1) r] obtain owner where "owner \<in> set (sort servers)"
      "\<forall>rings'. go_get rings' ds = Some (ring_of R (sort servers)) \<longrightarrow> GetNode R ds pk rings' = (rings', Inr owner)"
    by metis
  then show ?thesis using r by auto
qed

text \<open>The outcome of forwarding: the attempts go to the owner and stop at the first one it answers; the
  third that fails is an error.\<close>

definition forward_outcome :: "(string \<Rightarrow> http_client) \<Rightarrow> string \<Rightarrow> eventForm \<Rightarrow> event_job list \<Rightarrow> bool \<Rightarrow> bool" where
  "forward_outcome H owner f posts ok \<longleftrightarrow>
     (\<exists>j < 3. (\<forall>i < j. \<not> answered (H owner) (make_event_url owner) i) \<and> answered (H owner) (make_event_url owner) j \<and>
        posts = replicate (Suc j) (Forwarded owner f) \<and> ok) \<or>
     ((\<forall>i < 3. \<not> answered (H owner) (make_event_url owner) i) \<and> posts = replicate 3 (Forwarded owner f) \<and> \<not> ok)"

lemma forward_attempts:
  assumes "hx_new (H node) (make_event_url node) = None"
    and "\<And>i y. hx_do (H node) i (make_event_url node) = Inr y \<Longrightarrow> \<exists>b. ha_Body y = Inr b"
  shows "\<exists>posts r. forwardEvent H f node = (posts, Inr r) \<and> forward_outcome H node f posts (r = None)"
  using retry_stops [of 0 3 "H node" "make_event_url node" "Inl ''''"]
proof
  assume "\<exists>j x. 0 \<le> j \<and> j < 0 + 3 \<and> (\<forall>k. 0 \<le> k \<longrightarrow> k < j \<longrightarrow> \<not> answered (H node) (make_event_url node) k) \<and>
    hx_do (H node) j (make_event_url node) = Inr x \<and> retry_loop (H node) (make_event_url node) 0 3 (Inl '''') = (Suc j, Inr x)"
  then obtain j x where j: "j < 3" "\<forall>k < j. \<not> answered (H node) (make_event_url node) k"
    "hx_do (H node) j (make_event_url node) = Inr x" "retry_loop (H node) (make_event_url node) 0 3 (Inl '''') = (Suc j, Inr x)" by auto
  obtain b where "ha_Body x = Inr b" using assms(2) [OF j(3)] by blast
  then have "forwardEvent H f node = (replicate (Suc j) (Forwarded node f), Inr None)"
    using assms(1) j(4) by (simp add: forwardEvent_def PostJSON_def numeral_3_eq_3 read_answer_def)
  then show ?thesis using j by (auto simp: forward_outcome_def answered_def)
next
  assume a: "(\<forall>k. 0 \<le> k \<longrightarrow> k < 0 + 3 \<longrightarrow> \<not> answered (H node) (make_event_url node) k) \<and>
    (\<exists>e. retry_loop (H node) (make_event_url node) 0 3 (Inl '''') = (0 + 3, if 3 = (0 :: nat) then Inl '''' else Inl e))"
  then obtain e where "retry_loop (H node) (make_event_url node) 0 3 (Inl '''') = (3, Inl e)" by auto
  then have "forwardEvent H f node = (replicate 3 (Forwarded node f), Inr (Some e))"
    using assms(1) by (simp add: forwardEvent_def PostJSON_def numeral_3_eq_3 read_answer_def)
  then show ?thesis using a by (auto simp: forward_outcome_def)
qed

text \<open>C25. Points of a rule that is evaluated elsewhere, sent to one of the instances that are listed for
  the data source and agree on that list. They all find the same owner among themselves. The owner
  starts the jobs of the points on its processor, or reports that it does not have the rule, and
  forwards nothing. Every other instance starts no job: it posts the points to the owner and to
  nobody else, up to three times, stopping at the first attempt that is answered, and reports an
  error when none is. An attempt without an answer may have been served, so the owner may get the
  points more than once.\<close>

theorem points_reach_owner:
  assumes "ring_laws R members" "servers \<noteq> []"
    "\<And>k. k \<in> set servers \<Longrightarrow> up_to_date R (F k) (C k) (ef_DatasourceId f) (l k) (n k)"
    "\<And>k. k \<in> set servers \<Longrightarrow> mset (l k) = mset servers"
    "\<And>k. k \<in> set servers \<Longrightarrow> hx_new (H k) (make_event_url k) = None"
    "\<And>k i y. hx_do (H k) i (make_event_url k) = Inr y \<Longrightarrow> \<exists>b. ha_Body y = Inr b"
  shows "\<exists>owner \<in> set servers. \<forall>k \<in> set servers.
    (k = owner \<longrightarrow> makeEvent L R k H (X k) [f] (nm_Rings (n k), []) =
       (if GetExternalAlertRule (X k) (ef_DatasourceId f) (ef_RuleId f) = None then (Inl (Bomb 200 ''rule not exists''), (nm_Rings (n k), []))
        else (Inr (), (nm_Rings (n k), event_jobs L f)))) \<and>
    (k \<noteq> owner \<longrightarrow> (\<exists>posts ok. forward_outcome H owner f posts ok \<and> makeEvent L R k H (X k) [f] (nm_Rings (n k), []) =
       (if ok then Inr () else Inl (Bomb 200 ''event forward error''), (nm_Rings (n k), posts))))"
proof -
  obtain owner where o: "owner \<in> set servers"
      "\<And>k. k \<in> set servers \<Longrightarrow> GetNode R (ef_DatasourceId f) (Itoa (ef_RuleId f)) (nm_Rings (n k)) = (nm_Rings (n k), Inr owner)"
    using common_owner [OF assms(1-4)] by metis
  have "\<exists>posts r. forwardEvent H f owner = (posts, Inr r) \<and> forward_outcome H owner f posts (r = None)"
    by (rule forward_attempts) (use assms(5) [OF o(1)] in assumption, erule assms(6))
  then obtain posts r where fw: "forwardEvent H f owner = (posts, Inr r)" "forward_outcome H owner f posts (r = None)"
    by blast
  have "k \<noteq> owner \<longrightarrow> makeEvent L R k H (X k) [f] (nm_Rings (n k), []) =
      (if r = None then Inr () else Inl (Bomb 200 ''event forward error''), (nm_Rings (n k), posts))"
    "k = owner \<longrightarrow> makeEvent L R k H (X k) [f] (nm_Rings (n k), []) =
       (if GetExternalAlertRule (X k) (ef_DatasourceId f) (ef_RuleId f) = None then (Inl (Bomb 200 ''rule not exists''), (nm_Rings (n k), []))
        else (Inr (), (nm_Rings (n k), event_jobs L f)))" if "k \<in> set servers" for k
    using o(2) [OF that] fw(1) by (auto simp: makeEvent_def make_event_def bind_act_def ret_def split: option.split)
  then show ?thesis using o(1) fw(2) by (intro bexI [of _ owner]) blast+
qed

definition sample_http :: "string \<Rightarrow> http_client" where
  "sample_http k = \<lparr>hx_new = (\<lambda>url. None), hx_do = (\<lambda>i url. if i = 0 then Inl ''timeout'' else Inr \<lparr>ha_StatusCode = 200, ha_Body = Inr ''{}''\<rparr>)\<rparr>"

definition sample_points :: eventForm where
  "sample_points = \<lparr>ef_Alert = True, ef_AnomalyPoints = [sample_point], ef_RuleId = 7, ef_DatasourceId = 1, ef_Inhibit = False\<rparr>"

theorem points_reach_owner_witness:
  "\<exists>owner. owner \<in> {''a:1'', ''b:1''} \<and> makeEvent sample_lib list_ring ''a:1'' sample_http [(RuleKey 1 7, sample_proc)] [sample_points] (nm_Rings (sample_naming ''a:1''), []) =
      (Inr (), (nm_Rings (sample_naming ''a:1''),
         if ''a:1'' = owner then event_jobs sample_lib sample_points else [Forwarded owner sample_points, Forwarded owner sample_points]))"
proof -
  let ?X = "\<lambda>k :: string. [(RuleKey 1 7, sample_proc)]"
  have x: "GetExternalAlertRule (?X k) (ef_DatasourceId sample_points) (ef_RuleId sample_points) \<noteq> None" for k
    by (simp add: GetExternalAlertRule_def sample_points_def)
  have two: "ok \<and> posts = [Forwarded owner sample_points, Forwarded owner sample_points]"
    if F: "forward_outcome sample_http owner sample_points posts ok" for owner posts ok
  proof -
    have a: "answered (sample_http owner) (make_event_url owner) i \<longleftrightarrow> i \<noteq> 0" for i
      by (simp add: answered_def sample_http_def)
    have "(1::nat) < 3" by simp
    then obtain j where j: "\<forall>i < j. i = 0" "j \<noteq> 0" "posts = replicate (Suc j) (Forwarded owner sample_points)" "ok"
      using F unfolding forward_outcome_def a by (metis one_neq_zero)
    have "j = Suc 0" using j(1,2) by (cases j) auto
    then show ?thesis using j by simp
  qed
  have "\<exists>owner \<in> set [''a:1'', ''b:1'']. \<forall>k \<in> set [''a:1'', ''b:1''].
    (k = owner \<longrightarrow> makeEvent sample_lib list_ring k sample_http (?X k) [sample_points] (nm_Rings (sample_naming k), []) =
       (if GetExternalAlertRule (?X k) (ef_DatasourceId sample_points) (ef_RuleId sample_points) = None
        then (Inl (Bomb 200 ''rule not exists''), (nm_Rings (sample_naming k), []))
        else (Inr (), (nm_Rings (sample_naming k), event_jobs sample_lib sample_points)))) \<and>
    (k \<noteq> owner \<longrightarrow> (\<exists>posts ok. forward_outcome sample_http owner sample_points posts ok \<and>
       makeEvent sample_lib list_ring k sample_http (?X k) [sample_points] (nm_Rings (sample_naming k), []) =
       (if ok then Inr () else Inl (Bomb 200 ''event forward error''), (nm_Rings (sample_naming k), posts))))"
  proof (rule points_reach_owner [where members = set and l = "\<lambda>k. [''a:1'', ''b:1'']" and F = "\<lambda>k. no_engine_faults" and C = sample_cfg])
    show "ring_laws list_ring set" by (rule list_ring_laws)
    show "up_to_date list_ring no_engine_faults (sample_cfg k) (ef_DatasourceId sample_points) [''a:1'', ''b:1''] (sample_naming k)"
      if "k \<in> set [''a:1'', ''b:1'']" for k
      using that by (simp only: sample_points_def eventForm.simps) (rule sample_up_to_date, simp)
    show "hx_new (sample_http k) (make_event_url k) = None" for k by (simp add: sample_http_def)
    show "\<exists>b. ha_Body y = Inr b" if "hx_do (sample_http k) i (make_event_url k) = Inr y" for k i y
      using that by (auto simp: sample_http_def split: if_splits)
  qed simp_all
  then obtain owner where o: "owner \<in> set [''a:1'', ''b:1'']" and
    m: "(''a:1'' = owner \<longrightarrow> makeEvent sample_lib list_ring ''a:1'' sample_http (?X ''a:1'') [sample_points] (nm_Rings (sample_naming ''a:1''), []) =
         (if GetExternalAlertRule (?X ''a:1'') (ef_DatasourceId sample_points) (ef_RuleId sample_points) = None
          then (Inl (Bomb 200 ''rule not exists''), (nm_Rings (sample_naming ''a:1''), []))
          else (Inr (), (nm_Rings (sample_naming ''a:1''), event_jobs sample_lib sample_points)))) \<and>
      (''a:1'' \<noteq> owner \<longrightarrow> (\<exists>posts ok. forward_outcome sample_http owner sample_points posts ok \<and>
         makeEvent sample_lib list_ring ''a:1'' sample_http (?X ''a:1'') [sample_points] (nm_Rings (sample_naming ''a:1''), []) =
         (if ok then Inr () else Inl (Bomb 200 ''event forward error''), (nm_Rings (sample_naming ''a:1''), posts))))"
    by (elim bexE) (drule bspec [of _ _ "''a:1''"], simp, blast)
  show ?thesis
  proof (cases "''a:1'' = owner")
    case True
    then show ?thesis using o m [THEN conjunct1, THEN mp, OF True] x by (intro exI [of _ owner]) simp
  next
    case False
    from m [THEN conjunct2, THEN mp, OF False] obtain posts ok where
      "forward_outcome sample_http owner sample_points posts ok"
      "makeEvent sample_lib list_ring ''a:1'' sample_http (?X ''a:1'') [sample_points] (nm_Rings (sample_naming ''a:1''), []) =
        (if ok then Inr () else Inl (Bomb 200 ''event forward error''), (nm_Rings (sample_naming ''a:1''), posts))"
      by (elim exE conjE)
    then show ?thesis using o False two [of owner posts ok] by (intro exI [of _ owner]) simp
  qed
qed

end
