(* ===== verification/Board_Pages.thy ===== *)
theory Board_Pages
  imports Rule_Tables
begin

text \<open>
  Dashboards: the operations of \<open>models/board.go\<close> and \<open>models/board_payload.go\<close> and the handlers of
  \<open>center/router/router_board.go\<close> with their routes of \<open>router.go\<close>. A dashboard has a row in the table of
  boards and, under the same identifier, its configuration in the table of payloads. A page names a
  dashboard by its identifier or by its ident; how the database compares the column of identifiers
  with a text is the parameter \<open>same\<close>.
\<close>

subsection \<open>Payloads\<close>

definition BoardPayload_Update :: "BoardPayload \<Rightarrow> unit center_act" where
  "BoardPayload_Update p =
     execute (\<lambda>s. s\<lparr>ce_board_payload := update_where (\<lambda>r. bp_Id r = bp_Id p) (\<lambda>r. r\<lparr>bp_Payload := bp_Payload p\<rparr>) (ce_board_payload s)\<rparr>)"

definition BoardPayloadGets :: "int list \<Rightarrow> BoardPayload list center_act" where
  "BoardPayloadGets ids = (if length ids = 0 then stop (Err ''empty ids'') else Find ce_board_payload (\<lambda>p. bp_Id p \<in> set ids))"

definition BoardPayloadGet :: "int \<Rightarrow> string center_act" where
  "BoardPayloadGet i =
     bind_act (BoardPayloadGets [i]) (\<lambda>payloads. case first payloads of None \<Rightarrow> ret '''' | Some p \<Rightarrow> ret (bp_Payload p))"

definition BoardPayloadSave :: "int \<Rightarrow> string \<Rightarrow> unit center_act" where
  "BoardPayloadSave i payload =
     bind_act (Find ce_board_payload (\<lambda>p. bp_Id p = i)) (\<lambda>lst.
     case first lst of
       Some bp \<Rightarrow>
         if bp_Id bp > 0 then BoardPayload_Update (bp\<lparr>bp_Payload := payload\<rparr>)
         else add_row ce_board_payload (\<lambda>rows s. s\<lparr>ce_board_payload := rows\<rparr>) bp_Id (\<lambda>i r. r\<lparr>bp_Id := i\<rparr>) \<lparr>bp_Id = i, bp_Payload = payload\<rparr>
     | None \<Rightarrow> add_row ce_board_payload (\<lambda>rows s. s\<lparr>ce_board_payload := rows\<rparr>) bp_Id (\<lambda>i r. r\<lparr>bp_Id := i\<rparr>) \<lparr>bp_Id = i, bp_Payload = payload\<rparr>)"

subsection \<open>Boards\<close>

definition Board_Verify :: "center_lib \<Rightarrow> Board \<Rightarrow> string option" where
  "Board_Verify L b =
     (if bo_Name b = '''' then Some ''Name is blank''
      else if cl_Dangerous L (bo_Name b) then Some ''Name has invalid characters'' else None)"

definition board_ok :: "center_lib \<Rightarrow> Board \<Rightarrow> unit center_act" where
  "board_ok L b = (case Board_Verify L b of Some e \<Rightarrow> stop (Err e) | None \<Rightarrow> ret ())"

definition CanRenameIdent :: "Board \<Rightarrow> string \<Rightarrow> bool center_act" where
  "CanRenameIdent b ident =
     (if ident = '''' then ret True
      else bind_act (Count ce_board (\<lambda>r. bo_Ident r = ident \<and> bo_Id r \<noteq> bo_Id b)) (\<lambda>cnt. ret (cnt = 0)))"

text \<open>The row does not hold the configuration; the new identifier is filled in.\<close>

definition insert_board :: "Board \<Rightarrow> Board center_act" where
  "insert_board b = statement (\<lambda>a s.
     let i = (if bo_Id b = 0 then an_id a else bo_Id b) in
     if i \<in> set (map bo_Id (ce_board s)) then (Inl (Err ''Duplicate entry for key PRIMARY''), s)
     else (Inr (b\<lparr>bo_Id := i\<rparr>), s\<lparr>ce_board := ce_board s @ [b\<lparr>bo_Id := i, bo_Configs := ''''\<rparr>]\<rparr>))"

definition Board_Add :: "center_lib \<Rightarrow> Board \<Rightarrow> Board center_act" where
  "Board_Add L b =
     bind_act (board_ok L b) (\<lambda>_.
     bind_act (if bo_Ident b \<noteq> '''' then
         bind_act (Count ce_board (\<lambda>r. bo_Ident r = bo_Ident b)) (\<lambda>cnt. if cnt > 0 then stop (Err ''Ident duplicate'') else ret ())
       else ret ()) (\<lambda>_.
     bind_act Now_Unix (\<lambda>now. insert_board (b\<lparr>bo_CreateAt := now, bo_UpdateAt := now\<rparr>))))"

definition Board_Update :: "center_lib \<Rightarrow> (Board \<Rightarrow> Board \<Rightarrow> Board) \<Rightarrow> Board \<Rightarrow> unit center_act" where
  "Board_Update L columns b =
     bind_act (board_ok L b) (\<lambda>_.
     if bo_Id b = 0 then stop (Err ''WHERE conditions required'')
     else execute (\<lambda>s. s\<lparr>ce_board := update_where (\<lambda>r. bo_Id r = bo_Id b) (columns b) (ce_board s)\<rparr>))"

definition Board_Del :: "Board \<Rightarrow> unit center_act" where
  "Board_Del b = transaction (
     bind_act (execute (\<lambda>s. s\<lparr>ce_board_payload := filter (\<lambda>p. bp_Id p \<noteq> bo_Id b) (ce_board_payload s)\<rparr>)) (\<lambda>_.
     execute (\<lambda>s. s\<lparr>ce_board := filter (\<lambda>r. bo_Id r \<noteq> bo_Id b) (ce_board s)\<rparr>)))"

definition BoardGetByID :: "int \<Rightarrow> Board option center_act" where
  "BoardGetByID i = bind_act (Find ce_board (\<lambda>r. bo_Id r = i)) (\<lambda>lst. ret (first lst))"

definition BoardGet :: "(Board \<Rightarrow> bool) \<Rightarrow> Board option center_act" where
  "BoardGet p =
     bind_act (Find ce_board p) (\<lambda>lst.
     case first lst of None \<Rightarrow> ret None
     | Some b \<Rightarrow> bind_act (BoardPayloadGet (bo_Id b)) (\<lambda>payload. ret (Some (b\<lparr>bo_Configs := payload\<rparr>))))"

definition BoardCount :: "(Board \<Rightarrow> bool) \<Rightarrow> int center_act" where
  "BoardCount p = Count ce_board p"

definition BoardExists :: "(Board \<Rightarrow> bool) \<Rightarrow> bool center_act" where
  "BoardExists p = bind_act (BoardCount p) (\<lambda>num. ret (num > 0))"

definition board_like :: "center_lib \<Rightarrow> string \<Rightarrow> Board \<Rightarrow> bool" where
  "board_like L w b =
     (if prefix ''-'' w then \<not> cl_like L (bo_Name b) (contains_pattern (tl w)) \<and> \<not> cl_like L (bo_Tags b) (contains_pattern (tl w))
      else cl_like L (bo_Name b) (contains_pattern w) \<or> cl_like L (bo_Tags b) (contains_pattern w))"

definition BoardGetsByGroupId :: "center_lib \<Rightarrow> int \<Rightarrow> string \<Rightarrow> Board list center_act" where
  "BoardGetsByGroupId L groupId q =
     query (\<lambda>s. order_by L bo_Name (filter (\<lambda>b. bo_GroupId b = groupId \<and> list_all (\<lambda>w. board_like L w b) (Fields q)) (ce_board s)))"

definition BoardGets :: "center_lib \<Rightarrow> string \<Rightarrow> (Board \<Rightarrow> bool) \<Rightarrow> Board list center_act" where
  "BoardGets L q p = query (\<lambda>s. order_by L bo_Name (filter (\<lambda>b. p b \<and> list_all (\<lambda>w. board_like L w b) (Fields q)) (ce_board s)))"

definition BoardSetHide :: "int list \<Rightarrow> unit center_act" where
  "BoardSetHide ids = transaction (
     bind_act (execute (\<lambda>s. s\<lparr>ce_board := update_where (\<lambda>r. bo_BuiltIn r = 1) (\<lambda>r. r\<lparr>bo_Hide := 0\<rparr>) (ce_board s)\<rparr>)) (\<lambda>_.
     execute (\<lambda>s. s\<lparr>ce_board := update_where (\<lambda>r. bo_Id r \<in> set ids \<and> bo_BuiltIn r = 1) (\<lambda>r. r\<lparr>bo_Hide := 1\<rparr>) (ce_board s)\<rparr>)))"

subsection \<open>Handlers\<close>

record boardForm =
  bf_Name :: string
  bf_Ident :: string
  bf_Tags :: string
  bf_Configs :: string
  bf_Public :: int

definition no_dashboard :: "'a center_act" where
  "no_dashboard = stop (Bomb 404 ''No such dashboard'')"

definition router_Board :: "int \<Rightarrow> Board center_act" where
  "router_Board i =
     bind_act (dangerous (BoardGet (\<lambda>r. bo_Id r = i))) (\<lambda>r. case r of None \<Rightarrow> no_dashboard | Some b \<Rightarrow> ret b)"

text \<open>An administrator passes; others need to write, or read, the group of the board.\<close>

definition board_rw :: "Board \<Rightarrow> User \<Rightarrow> gin_ctx \<Rightarrow> unit center_act" where
  "board_rw b me c = (if \<not> IsAdmin me then bind_act (bgrwCheck (bo_GroupId b) c) (\<lambda>_. ret ()) else ret ())"

definition boardAdd :: "center_router \<Rightarrow> request \<Rightarrow> boardForm \<Rightarrow> gin_ctx \<Rightarrow> Board reply center_act" where
  "boardAdd R rq f c =
     bind_act (must_get ''user'' (gc_user c)) (\<lambda>me.
     bind_act (UrlParamInt64 rq ''id'') (\<lambda>bgid.
     bind_act (dangerous (Board_Add (cr_lib R) \<lparr>bo_Id = 0, bo_GroupId = bgid, bo_Name = bf_Name f, bo_Ident = bf_Ident f, bo_Tags = bf_Tags f,
       bo_CreateAt = 0, bo_CreateBy = us_Username me, bo_UpdateAt = 0, bo_UpdateBy = us_Username me, bo_Configs = bf_Configs f, bo_Public = 0,
       bo_BuiltIn = 0, bo_Hide = 0\<rparr>)) (\<lambda>board.
     bind_act (if bf_Configs f \<noteq> '''' then dangerous (BoardPayloadSave (bo_Id board) (bf_Configs f)) else ret ()) (\<lambda>_.
     ret (Data board)))))"

definition boardGet :: "center_router \<Rightarrow> (int \<Rightarrow> string \<Rightarrow> bool) \<Rightarrow> request \<Rightarrow> string \<Rightarrow> gin_ctx \<Rightarrow> Board reply center_act" where
  "boardGet R same rq bid c =
     bind_act (dangerous (BoardGet (\<lambda>r. same (bo_Id r) bid \<or> bo_Ident r = bid))) (\<lambda>r.
     case r of None \<Rightarrow> no_dashboard
     | Some board \<Rightarrow>
        if bo_Public board = 0 then
          bind_act (auth R rq c) (\<lambda>c1.
          bind_act (user_mw c1) (\<lambda>c2.
          bind_act (must_get ''user'' (gc_user c2)) (\<lambda>me.
          bind_act (if \<not> IsAdmin me then bind_act (bgroCheck (bo_GroupId board) c2) (\<lambda>_. ret ()) else ret ()) (\<lambda>_.
          ret (Data board)))))
        else ret (Data board))"

definition boardPureGet :: "request \<Rightarrow> Board reply center_act" where
  "boardPureGet rq =
     bind_act (UrlParamInt64 rq ''bid'') (\<lambda>bid.
     bind_act (dangerous (BoardGetByID bid)) (\<lambda>r. case r of None \<Rightarrow> no_dashboard | Some b \<Rightarrow> ret (Data b)))"

definition del_board :: "gin_ctx \<Rightarrow> int \<Rightarrow> unit center_act" where
  "del_board c bid =
     bind_act (dangerous (BoardGet (\<lambda>r. bo_Id r = bid))) (\<lambda>r.
     case r of None \<Rightarrow> ret ()
     | Some board \<Rightarrow>
        bind_act (must_get ''user'' (gc_user c)) (\<lambda>me.
        bind_act (board_rw board me c) (\<lambda>_. dangerous (Board_Del board))))"

definition ids_given :: "int list \<Rightarrow> unit center_act" where
  "ids_given ids = (if length ids = 0 then stop (Bomb 400 ''ids empty'') else ret ())"

definition boardDel :: "int list \<Rightarrow> gin_ctx \<Rightarrow> unit reply center_act" where
  "boardDel ids c = bind_act (ids_given ids) (\<lambda>_. bind_act (each (del_board c) ids) (\<lambda>_. ret (Message 200 '''')))"

definition boardPut :: "center_router \<Rightarrow> request \<Rightarrow> boardForm \<Rightarrow> gin_ctx \<Rightarrow> Board reply center_act" where
  "boardPut R rq f c =
     bind_act (must_get ''user'' (gc_user c)) (\<lambda>me.
     bind_act (UrlParamInt64 rq ''bid'') (\<lambda>bid.
     bind_act (router_Board bid) (\<lambda>bo.
     bind_act (board_rw bo me c) (\<lambda>_.
     bind_act (dangerous (CanRenameIdent bo (bf_Ident f))) (\<lambda>can.
     if \<not> can then stop (Bomb 200 ''Ident duplicate'')
     else bind_act Now_Unix (\<lambda>now.
       let bo1 = bo\<lparr>bo_Name := bf_Name f, bo_Ident := bf_Ident f, bo_Tags := bf_Tags f, bo_UpdateBy := us_Username me, bo_UpdateAt := now\<rparr> in
       bind_act (attempt (Board_Update (cr_lib R) (\<lambda>b r. r\<lparr>bo_Name := bo_Name b, bo_Ident := bo_Ident b, bo_Tags := bo_Tags b,
         bo_UpdateBy := bo_UpdateBy b, bo_UpdateAt := bo_UpdateAt b\<rparr>) bo1)) (\<lambda>r.
       case r of Inl e \<Rightarrow> ret (Message 200 e) | Inr _ \<Rightarrow> ret (Data bo1))))))))"

definition touched :: "Board \<Rightarrow> Board \<Rightarrow> Board" where
  "touched b r = r\<lparr>bo_UpdateBy := bo_UpdateBy b, bo_UpdateAt := bo_UpdateAt b\<rparr>"

definition boardPutConfigs :: "center_router \<Rightarrow> (int \<Rightarrow> string \<Rightarrow> bool) \<Rightarrow> string \<Rightarrow> boardForm \<Rightarrow> gin_ctx \<Rightarrow> Board reply center_act" where
  "boardPutConfigs R same bid f c =
     bind_act (must_get ''user'' (gc_user c)) (\<lambda>me.
     bind_act (dangerous (BoardGet (\<lambda>r. same (bo_Id r) bid \<or> bo_Ident r = bid))) (\<lambda>r.
     case r of None \<Rightarrow> no_dashboard
     | Some bo \<Rightarrow>
        bind_act (board_rw bo me c) (\<lambda>_.
        bind_act Now_Unix (\<lambda>now.
        let bo1 = bo\<lparr>bo_UpdateBy := us_Username me, bo_UpdateAt := now\<rparr> in
        bind_act (dangerous (Board_Update (cr_lib R) touched bo1)) (\<lambda>_.
        bind_act (dangerous (BoardPayloadSave (bo_Id bo1) (bf_Configs f))) (\<lambda>_.
        ret (Data (bo1\<lparr>bo_Configs := bf_Configs f\<rparr>))))))))"

definition boardPutPublic :: "center_router \<Rightarrow> request \<Rightarrow> boardForm \<Rightarrow> gin_ctx \<Rightarrow> Board reply center_act" where
  "boardPutPublic R rq f c =
     bind_act (must_get ''user'' (gc_user c)) (\<lambda>me.
     bind_act (UrlParamInt64 rq ''bid'') (\<lambda>bid.
     bind_act (router_Board bid) (\<lambda>bo.
     bind_act (board_rw bo me c) (\<lambda>_.
     bind_act Now_Unix (\<lambda>now.
     let bo1 = bo\<lparr>bo_Public := bf_Public f, bo_UpdateBy := us_Username me, bo_UpdateAt := now\<rparr> in
     bind_act (attempt (Board_Update (cr_lib R) (\<lambda>b r. (touched b r)\<lparr>bo_Public := bo_Public b\<rparr>) bo1)) (\<lambda>r.
     case r of Inl e \<Rightarrow> ret (Message 200 e) | Inr _ \<Rightarrow> ret (Data bo1)))))))"

definition boardGets :: "center_router \<Rightarrow> request \<Rightarrow> string \<Rightarrow> Board list reply center_act" where
  "boardGets R rq q = bind_act (UrlParamInt64 rq ''id'') (\<lambda>bgid. render_data (BoardGetsByGroupId (cr_lib R) bgid q))"

definition boardClone :: "center_router \<Rightarrow> request \<Rightarrow> gin_ctx \<Rightarrow> unit reply center_act" where
  "boardClone R rq c =
     bind_act (must_get ''user'' (gc_user c)) (\<lambda>me.
     bind_act (UrlParamInt64 rq ''bid'') (\<lambda>bid.
     bind_act (router_Board bid) (\<lambda>bo.
     bind_act (if bo_Ident bo \<noteq> '''' then bind_act ask (\<lambda>a. ret (an_uuid a)) else ret '''') (\<lambda>ident.
     bind_act (dangerous (Board_Add (cr_lib R) \<lparr>bo_Id = 0, bo_GroupId = bo_GroupId bo, bo_Name = bo_Name bo @ '' Copy'', bo_Ident = ident,
       bo_Tags = bo_Tags bo, bo_CreateAt = 0, bo_CreateBy = us_Username me, bo_UpdateAt = 0, bo_UpdateBy = us_Username me, bo_Configs = '''',
       bo_Public = 0, bo_BuiltIn = 0, bo_Hide = 0\<rparr>)) (\<lambda>newBoard.
     bind_act (dangerous (BoardPayloadGet (bo_Id bo))) (\<lambda>payload.
     bind_act (if payload \<noteq> '''' then dangerous (BoardPayloadSave (bo_Id newBoard) payload) else ret ()) (\<lambda>_.
     ret (Message 200 ''''))))))))"

subsection \<open>Routes\<close>

datatype board_call = Boards_get string | Boards_post boardForm | Board_clone | Board_get string | Board_pure_get | Board_put boardForm
  | Board_configs string boardForm | Board_public boardForm | Boards_delete "int list"

fun board_route :: "center_router \<Rightarrow> (int \<Rightarrow> string \<Rightarrow> bool) \<Rightarrow> request \<Rightarrow> board_call \<Rightarrow> guard list option \<times> (gin_ctx \<Rightarrow> unit reply center_act)" where
  "board_route R same rq (Boards_get q) = (Some [Mw_user, Mw_perm ''/dashboards'', Mw_bgro], (\<lambda>c. answered (boardGets R rq q)))"
| "board_route R same rq (Boards_post f) = (Some [Mw_user, Mw_perm ''/dashboards/add'', Mw_bgrw], (\<lambda>c. answered (boardAdd R rq f c)))"
| "board_route R same rq Board_clone = (Some [Mw_user, Mw_perm ''/dashboards/add'', Mw_bgrw], boardClone R rq)"
| "board_route R same rq (Board_get bid) = (None, (\<lambda>c. answered (boardGet R same rq bid c)))"
| "board_route R same rq Board_pure_get = (None, (\<lambda>c. answered (boardPureGet rq)))"
| "board_route R same rq (Board_put f) = (Some [Mw_user, Mw_perm ''/dashboards/put''], (\<lambda>c. answered (boardPut R rq f c)))"
| "board_route R same rq (Board_configs bid f) = (Some [Mw_user, Mw_perm ''/dashboards/put''], (\<lambda>c. answered (boardPutConfigs R same bid f c)))"
| "board_route R same rq (Board_public f) = (Some [Mw_user, Mw_perm ''/dashboards/put''], (\<lambda>c. answered (boardPutPublic R rq f c)))"
| "board_route R same rq (Boards_delete ids) = (Some [Mw_user, Mw_perm ''/dashboards/del''], boardDel ids)"

text \<open>Two routes have no middleware.\<close>

definition serve_board :: "center_router \<Rightarrow> (int \<Rightarrow> string \<Rightarrow> bool) \<Rightarrow> request \<Rightarrow> board_call \<Rightarrow> unit reply center_act" where
  "serve_board R same rq call =
     (case board_route R same rq call of (None, handler) \<Rightarrow> handler empty_ctx
      | (Some guards, handler) \<Rightarrow> chain (auth R rq # map (mw rq) guards) handler)"

end
