(* ===== verification/Board_Spec.thy ===== *)
theory Board_Spec
  imports Host_Spec Rule_Spec Board_Pages
begin

text \<open>
  What the pages for dashboards guarantee: the tables of boards and payloads stay consistent, boards
  in groups the user may not write do not change, and a board that is not public is only shown to
  users who may read its group. The locale \<open>board_rows\<close> states the laws of a property of the two tables
  that the handlers keep; the first two properties are interpretations of it.
\<close>

subsection \<open>The laws\<close>

definition ident_free :: "Board list \<Rightarrow> int \<Rightarrow> string \<Rightarrow> bool" where
  "ident_free bs i ident \<longleftrightarrow> ident = '''' \<or> (\<forall>r \<in> set bs. bo_Id r \<noteq> i \<longrightarrow> bo_Ident r \<noteq> ident)"

locale board_rows =
  fixes P :: "Board list \<Rightarrow> BoardPayload list \<Rightarrow> bool" and W :: "int \<Rightarrow> bool"
  assumes positive: "P bs ps \<Longrightarrow> b \<in> set bs \<Longrightarrow> 0 < bo_Id b"
    and add: "P bs ps \<Longrightarrow> W (bo_GroupId b) \<Longrightarrow> 0 < bo_Id b \<Longrightarrow> bo_Id b \<notin> bo_Id ` set bs \<Longrightarrow> ident_free bs (bo_Id b) (bo_Ident b) \<Longrightarrow> P (bs @ [b]) ps"
    and put: "P bs ps \<Longrightarrow> x \<in> set bs \<Longrightarrow> W (bo_GroupId x) \<Longrightarrow> bo_Id x = i \<Longrightarrow> (\<And>r. bo_Id (f r) = bo_Id r \<and> bo_GroupId (f r) = bo_GroupId r) \<Longrightarrow>
      (\<And>r. bo_Ident (f r) = bo_Ident r \<or> ident_free bs i (bo_Ident (f r))) \<Longrightarrow> P (update_where (\<lambda>r. bo_Id r = i) f bs) ps"
    and del: "P bs ps \<Longrightarrow> x \<in> set bs \<Longrightarrow> W (bo_GroupId x) \<Longrightarrow> bo_Id x = i \<Longrightarrow> P (filter (\<lambda>r. bo_Id r \<noteq> i) bs) (filter (\<lambda>p. bp_Id p \<noteq> i) ps)"
    and save: "P bs ps \<Longrightarrow> x \<in> set bs \<Longrightarrow> W (bo_GroupId x) \<Longrightarrow> bo_Id x = i \<Longrightarrow> P bs (update_where (\<lambda>p. bp_Id p = i) (\<lambda>p. p\<lparr>bp_Payload := t\<rparr>) ps)"
    and save_new: "P bs ps \<Longrightarrow> x \<in> set bs \<Longrightarrow> W (bo_GroupId x) \<Longrightarrow> bo_Id x = i \<Longrightarrow> i \<notin> bp_Id ` set ps \<Longrightarrow> P bs (ps @ [\<lparr>bp_Id = i, bp_Payload = t\<rparr>])"
begin

text \<open>New rows get positive identifiers.\<close>

definition board_inv :: "User \<Rightarrow> center \<Rightarrow> bool" where
  "board_inv u s \<longleftrightarrow> P (ce_board s) (ce_board_payload s) \<and> rights W u s \<and> (AdminRole \<in> roles_of u \<longrightarrow> (\<forall>g. W g)) \<and> (\<forall>n. 0 < an_id (ce_answers s n))"

end

sublocale board_rows \<subseteq> bi: table_invariant "board_inv u" for u
  by unfold_locales (simp add: board_inv_def)

context table_invariant
begin

lemma under_after:
  assumes "sat (\<lambda>s. I s \<and> P s) m (\<lambda>x s. I s \<and> Q x s) (\<lambda>e. I)" and "\<And>x. under (Q x) (f x)"
  shows "under P (bind_act m f)"
  unfolding under_def
proof (intro allI impI)
  fix s
  assume "I s" "P s"
  obtain r t where m: "m s = (r, t)" by (cases "m s")
  with assms(1) \<open>I s\<close> \<open>P s\<close> have "case r of Inl e \<Rightarrow> I t | Inr x \<Rightarrow> I t \<and> Q x t" by (fastforce simp: sat_def split: sum.splits)
  then show "I (snd (bind_act m f s))" using m assms(2) by (cases r) (auto simp: bind_act_def under_def)
qed

lemma sat_sees:
  assumes "sees m v" and "steady P"
  shows "sat (\<lambda>s. I s \<and> P s) m (\<lambda>x s. I s \<and> P s \<and> v s = Inr x) (\<lambda>e. I)"
  unfolding sat_def
proof (intro allI impI)
  fix s
  assume s: "I s \<and> P s"
  obtain r t where m: "m s = (r, t)" by (cases "m s")
  then obtain n where n: "ce_step s \<le> n" "t = s\<lparr>ce_step := n\<rparr>" using reads_state [OF sees_reads [OF assms(1)]] by blast
  then have t: "I t" "P t" using later s assms(2) by (auto simp: steady_def)
  have "v t = v s" using n assms(1) by (simp add: sees_def steady_def)
  then show "case m s of (Inl e, s1) \<Rightarrow> I s1 | (Inr x, s1) \<Rightarrow> I s1 \<and> P s1 \<and> v s1 = Inr x"
    using m t seen [OF assms(1), of s] by (cases r) auto
qed

lemma sat_reads:
  assumes "reads m" and "steady P"
  shows "sat (\<lambda>s. I s \<and> P s) m (\<lambda>x s. I s \<and> P s) (\<lambda>e. I)"
  unfolding sat_def
proof (intro allI impI)
  fix s
  assume s: "I s \<and> P s"
  obtain r t where m: "m s = (r, t)" by (cases "m s")
  then obtain n where n: "ce_step s \<le> n" "t = s\<lparr>ce_step := n\<rparr>" using reads_state [OF assms(1)] by blast
  then have "I t" "P t" using later s assms(2) by (auto simp: steady_def)
  then show "case m s of (Inl e, s1) \<Rightarrow> I s1 | (Inr x, s1) \<Rightarrow> I s1 \<and> P s1" using m by (cases r) auto
qed

lemma under_dangerous: "under P m \<Longrightarrow> under P (dangerous m)" "under P m \<Longrightarrow> under P (attempt m)"
  by (simp_all add: under_def dangerous_def snd_attempt snd_change_err)

lemma under_sat: "sat (\<lambda>s. I s \<and> P s) m (\<lambda>x s. I s \<and> Q x s) (\<lambda>e. I) \<Longrightarrow> under P m"
  unfolding sat_def under_def by (fastforce split: prod.splits sum.splits)

lemma under_ret: "under P (ret x)" "under P (stop e)"
  by (simp_all add: under_def ret_def stop_def)

end

lemma sat_dangerous: "sat P m Q (\<lambda>e. E) \<Longrightarrow> sat P (dangerous m) Q (\<lambda>e. E)"
  unfolding sat_def dangerous_def change_err_def by (fastforce split: prod.splits sum.splits failure.splits)

lemma rights_boards [simp]:
  "rights W u (s\<lparr>ce_board := a\<rparr>) = rights W u s" "rights W u (s\<lparr>ce_board_payload := b\<rparr>) = rights W u s"
  by (simp_all add: rights_def group_with_def may_group_def member_of_def)

lemma outside_update:
  "(\<And>r. r \<in> set rows \<Longrightarrow> p r \<Longrightarrow> \<not> q r \<and> \<not> q (f r)) \<Longrightarrow> filter q (update_where p f rows) = filter q rows"
  by (induction rows) (auto simp: update_where_def)

lemma steady_boards [simp]:
  "steady ce_board" "steady ce_board_payload" "steady (\<lambda>s. g1 (ce_board s))" "steady (\<lambda>s. g2 (ce_board_payload s))"
  by (simp_all add: steady_def)

lemma reads_boards [sat_rules]:
  "reads (BoardPayloadGets ids)" "reads (BoardPayloadGet i)" "reads (board_ok L b)" "reads (CanRenameIdent b ident)" "reads (BoardGetByID i)"
  "reads (BoardGet p)" "reads (BoardGetsByGroupId L g q)" "reads no_dashboard" "reads (router_Board i)" "reads (ids_given ids)"
  by (auto simp: BoardPayloadGets_def BoardPayloadGet_def board_ok_def CanRenameIdent_def BoardGetByID_def BoardGet_def BoardGetsByGroupId_def no_dashboard_def
      router_Board_def ids_given_def intro!: sat_rules)

subsection \<open>The operations\<close>

text \<open>There is a board with the identifier in a group with \<open>W\<close>.\<close>

definition owned_board :: "(int \<Rightarrow> bool) \<Rightarrow> int \<Rightarrow> center \<Rightarrow> bool" where
  "owned_board W i s \<longleftrightarrow> (\<exists>x \<in> set (ce_board s). bo_Id x = i \<and> W (bo_GroupId x))"

lemma steady_owned [simp]: "steady (owned_board W i)" "steady (\<lambda>s. owned_board W i s \<and> ident_free (ce_board s) i ident)"
  by (simp_all add: steady_def owned_board_def)

lemma sees_ident_free:
  "sees (CanRenameIdent b ident) (\<lambda>s. Inr (ident_free (ce_board s) (bo_Id b) ident))"
  unfolding CanRenameIdent_def
  by (rule sees_eq, (rule sees_intros steady_boards)+) (auto simp: ident_free_def filter_empty_conv)

lemma sees_ident_new:
  "sees (if ident \<noteq> '''' then bind_act (Count ce_board (\<lambda>r. bo_Ident r = ident)) (\<lambda>cnt. if cnt > 0 then stop (Err ''Ident duplicate'') else ret ()) else ret ())
     (\<lambda>s. if ident = '''' \<or> ident \<notin> bo_Ident ` set (ce_board s) then Inr () else Inl (Err ''Ident duplicate''))"
  by (rule sees_eq, (rule sees_intros steady_boards)+) (auto simp: filter_empty_conv)

lemma sees_BoardGet:
  "\<exists>v. sees (BoardGet p) v \<and> (\<forall>s y. v s = Inr (Some y) \<longrightarrow> (\<exists>x \<in> set (ce_board s). p x \<and> bo_Id y = bo_Id x \<and> bo_GroupId y = bo_GroupId x \<and>
     bo_Ident y = bo_Ident x \<and> bo_Public y = bo_Public x))"
proof -
  have pay: "sees (BoardPayloadGet i) (\<lambda>s. Inr (case first (filter (\<lambda>p. bp_Id p \<in> set [i]) (ce_board_payload s)) of None \<Rightarrow> '''' | Some p \<Rightarrow> bp_Payload p))" for i
    unfolding BoardPayloadGet_def BoardPayloadGets_def Find_def
    by (rule sees_eq, (rule sees_intros steady_boards)+) (auto split: option.split)
  let ?v = "\<lambda>s. case first (filter p (ce_board s)) of None \<Rightarrow> Inr None
     | Some b \<Rightarrow> Inr (Some (b\<lparr>bo_Configs := (case first (filter (\<lambda>p. bp_Id p \<in> set [bo_Id b]) (ce_board_payload s)) of None \<Rightarrow> '''' | Some p \<Rightarrow> bp_Payload p)\<rparr>))"
  have "sees (BoardGet p) ?v"
    unfolding BoardGet_def Find_def
    by (rule sees_eq, (rule pay sees_intros steady_boards)+) (simp split: option.split)
  moreover have "\<exists>x \<in> set (ce_board s). p x \<and> bo_Id y = bo_Id x \<and> bo_GroupId y = bo_GroupId x \<and> bo_Ident y = bo_Ident x \<and> bo_Public y = bo_Public x"
    if y: "?v s = Inr (Some y)" for s y
  proof (cases "first (filter p (ce_board s))")
    case (Some x)
    then show ?thesis using y first_filter [OF Some] by (intro bexI [of _ x]) auto
  qed (use y in simp)
  ultimately show ?thesis by blast
qed

context board_rows
begin

abbreviation keeps_board :: "User \<Rightarrow> (center \<Rightarrow> bool) \<Rightarrow> 'a center_act \<Rightarrow> bool" where
  "keeps_board u \<equiv> table_invariant.under (board_inv u)"

lemma keeps_BoardPayloadSave: "keeps_board u (owned_board W i) (BoardPayloadSave i t)"
proof -
  have pos: "board_inv u s \<Longrightarrow> owned_board W i s \<Longrightarrow> 0 < i" for s
    using positive by (auto simp: board_inv_def owned_board_def)
  have new: "keeps_board u (owned_board W i) (add_row ce_board_payload (\<lambda>rows s. s\<lparr>ce_board_payload := rows\<rparr>) bp_Id (\<lambda>i r. r\<lparr>bp_Id := i\<rparr>) \<lparr>bp_Id = i, bp_Payload = t\<rparr>)"
    unfolding add_row_def Let_def
    by (rule bi.under_statement) (use pos in \<open>fastforce simp: board_inv_def owned_board_def intro: save_new\<close>)+
  have upd: "keeps_board u (owned_board W i) (BoardPayload_Update (bp\<lparr>bp_Payload := t\<rparr>))" if "bp_Id bp = i" for bp
    unfolding BoardPayload_Update_def by (rule bi.under_execute) (use that in \<open>auto simp: board_inv_def owned_board_def intro!: save\<close>)
  have "sees (Find ce_board_payload (\<lambda>p. bp_Id p = i)) (\<lambda>s. Inr (filter (\<lambda>p. bp_Id p = i) (ce_board_payload s)))"
    unfolding Find_def by (rule sees_query) simp
  then show ?thesis
    unfolding BoardPayloadSave_def
  proof (rule bi.under_sees)
    fix lst
    show "keeps_board u (\<lambda>s. owned_board W i s \<and> Inr (filter (\<lambda>p. bp_Id p = i) (ce_board_payload s)) = Inr lst) (case first lst of
        Some bp \<Rightarrow> if bp_Id bp > 0 then BoardPayload_Update (bp\<lparr>bp_Payload := t\<rparr>)
          else add_row ce_board_payload (\<lambda>rows s. s\<lparr>ce_board_payload := rows\<rparr>) bp_Id (\<lambda>i r. r\<lparr>bp_Id := i\<rparr>) \<lparr>bp_Id = i, bp_Payload = t\<rparr>
      | None \<Rightarrow> add_row ce_board_payload (\<lambda>rows s. s\<lparr>ce_board_payload := rows\<rparr>) bp_Id (\<lambda>i r. r\<lparr>bp_Id := i\<rparr>) \<lparr>bp_Id = i, bp_Payload = t\<rparr>)"
      by (rule bi.under_fact [where Q = "\<forall>bp \<in> set lst. bp_Id bp = i"])
        (auto simp: first_def split: list.split intro!: bi.under_weaken [OF new] bi.under_weaken [OF upd])
  qed simp
qed

lemma keeps_insert_board:
  assumes "W (bo_GroupId b)" "bo_Id b = 0"
  shows "sat (\<lambda>s. board_inv u s \<and> (bo_Ident b = '''' \<or> bo_Ident b \<notin> bo_Ident ` set (ce_board s))) (insert_board b)
    (\<lambda>x s. board_inv u s \<and> owned_board W (bo_Id x) s) (\<lambda>e. board_inv u)"
proof -
  have "P (ce_board s @ [b\<lparr>bo_Id := i, bo_Configs := ''''\<rparr>]) (ce_board_payload s)"
    if "P (ce_board s) (ce_board_payload s)" "bo_Ident b = '''' \<or> bo_Ident b \<notin> bo_Ident ` set (ce_board s)" "0 < i" "i \<notin> bo_Id ` set (ce_board s)" for s :: center and i
    using that assms(1) by (intro add) (auto simp: ident_free_def image_iff)
  then show ?thesis
    unfolding insert_board_def statement_def sat_def using assms
    by (auto simp: bind_act_def ask_def stop_def Let_def board_inv_def owned_board_def split: option.split)
qed

lemma keeps_Board_Add:
  assumes "W (bo_GroupId b)" "bo_Id b = 0"
  shows "sat (board_inv u) (dangerous (Board_Add L b)) (\<lambda>x s. board_inv u s \<and> owned_board W (bo_Id x) s) (\<lambda>e. board_inv u)"
proof -
  have checked: "sat (\<lambda>s. board_inv u s \<and> True) (if bo_Ident b \<noteq> '''' then bind_act (Count ce_board (\<lambda>r. bo_Ident r = bo_Ident b))
        (\<lambda>cnt. if cnt > 0 then stop (Err ''Ident duplicate'') else ret ()) else ret ())
      (\<lambda>x s. board_inv u s \<and> (bo_Ident b = '''' \<or> bo_Ident b \<notin> bo_Ident ` set (ce_board s))) (\<lambda>e. board_inv u)"
    by (rule sat_weaken [OF bi.sat_sees [OF sees_ident_new steady_const]]) (auto split: if_splits)
  have ins: "sat (\<lambda>s. board_inv u s \<and> (bo_Ident b = '''' \<or> bo_Ident b \<notin> bo_Ident ` set (ce_board s))) (insert_board (b\<lparr>bo_CreateAt := now, bo_UpdateAt := now\<rparr>))
      (\<lambda>x s. board_inv u s \<and> owned_board W (bo_Id x) s) (\<lambda>e. board_inv u)" for now
    using keeps_insert_board [of "b\<lparr>bo_CreateAt := now, bo_UpdateAt := now\<rparr>" u] assms by simp
  have "sat (\<lambda>s. board_inv u s \<and> True) (Board_Add L b) (\<lambda>x s. board_inv u s \<and> owned_board W (bo_Id x) s) (\<lambda>e. board_inv u)"
    unfolding Board_Add_def
    by (rule sat_bind [OF bi.sat_reads [OF reads_boards(3) steady_const]], rule sat_bind [OF checked], rule sat_bind [OF bi.sat_reads [OF reads_lookups(1)] ins]) (simp add: steady_def)
  then show ?thesis using sat_dangerous by simp
qed

lemma keeps_Board_Update:
  assumes f: "\<And>r. bo_Id (f b r) = bo_Id r \<and> bo_GroupId (f b r) = bo_GroupId r" "\<And>r. bo_Ident (f b r) = bo_Ident r \<or> bo_Ident (f b r) = ident"
  shows "sat (\<lambda>s. board_inv u s \<and> (owned_board W (bo_Id b) s \<and> ident_free (ce_board s) (bo_Id b) ident)) (Board_Update L f b)
    (\<lambda>x s. board_inv u s \<and> owned_board W (bo_Id b) s) (\<lambda>e. board_inv u)"
proof -
  have "P (update_where (\<lambda>r. bo_Id r = bo_Id b) (f b) (ce_board s)) (ce_board_payload s) \<and>
      (\<exists>x \<in> set (update_where (\<lambda>r. bo_Id r = bo_Id b) (f b) (ce_board s)). bo_Id x = bo_Id b \<and> W (bo_GroupId x))"
    if s: "P (ce_board s) (ce_board_payload s)" "owned_board W (bo_Id b) s" "ident_free (ce_board s) (bo_Id b) ident" for s :: center
  proof -
    obtain x where x: "x \<in> set (ce_board s)" "bo_Id x = bo_Id b" "W (bo_GroupId x)" using s(2) by (auto simp: owned_board_def)
    have "f b x \<in> set (update_where (\<lambda>r. bo_Id r = bo_Id b) (f b) (ce_board s))" using x by (auto simp: set_update_where)
    moreover have "P (update_where (\<lambda>r. bo_Id r = bo_Id b) (f b) (ce_board s)) (ce_board_payload s)"
      by (rule put [OF s(1) x(1,3,2) f(1)]) (use f(2) s(3) in metis)
    ultimately show ?thesis using x(2,3) f(1) by (intro conjI bexI [of _ "f b x"]) simp_all
  qed
  then show ?thesis
    unfolding Board_Update_def board_ok_def execute_def statement_def sat_def
    by (auto simp: bind_act_def ask_def stop_def ret_def board_inv_def owned_board_def split: option.split)
qed

end

context board_rows
begin

lemma keeps_Board_Del: "keeps_board u (owned_board W (bo_Id b)) (Board_Del b)"
  unfolding Board_Del_def
proof (rule bi.under_transaction)
  let ?m = "bind_act (execute (\<lambda>s. s\<lparr>ce_board_payload := filter (\<lambda>p. bp_Id p \<noteq> bo_Id b) (ce_board_payload s)\<rparr>)) (\<lambda>_.
     execute (\<lambda>s. s\<lparr>ce_board := filter (\<lambda>r. bo_Id r \<noteq> bo_Id b) (ce_board s)\<rparr>))"
  have "advances ?m" by (intro advances_bind advances_execute) simp_all
  then show "ce_step s \<le> ce_step (snd (?m s))" for s by (simp add: advances_def)
  fix s x t
  assume inv: "board_inv u s" "owned_board W (bo_Id b) s" and m: "?m s = (Inr x, t)"
  then obtain n where "t = s\<lparr>ce_board_payload := filter (\<lambda>p. bp_Id p \<noteq> bo_Id b) (ce_board_payload s), ce_step := n, ce_board := filter (\<lambda>r. bo_Id r \<noteq> bo_Id b) (ce_board s)\<rparr>"
    by (auto simp: bind_Inr_iff dest!: execute_ok)
  then show "board_inv u t" using inv by (auto simp: board_inv_def owned_board_def intro: del)
qed

lemma keeps_board_rw:
  assumes c: "gc_user c = Some (fill_roles u)" and Q: "steady Q" and f: "\<And>x. W (bo_GroupId b) \<Longrightarrow> keeps_board u Q (f x)"
  shows "keeps_board u Q (bind_act (board_rw b (fill_roles u) c) f)"
proof (cases "IsAdmin (fill_roles u)")
  case True
  then have w: "board_inv u s \<Longrightarrow> W (bo_GroupId b)" for s by (simp add: board_inv_def)
  have "board_rw b (fill_roles u) c = ret ()" using True by (simp add: board_rw_def)
  then show ?thesis using f by (simp add: bi.under_def) (metis w)
next
  case False
  have "keeps_board u Q (bind_act (bgrwCheck (bo_GroupId b) c) (\<lambda>c1. f ()))"
  proof (rule bi.under_sees [OF sees_bgrwCheck [OF c] Q])
    fix c1
    show "keeps_board u (\<lambda>s. Q s \<and> (case group_with s (bo_GroupId b) of None \<Rightarrow> Inl (Bomb 404 ''No such BusiGroup'')
       | Some bg \<Rightarrow> if may_group s u [''rw''] bg then Inr (c\<lparr>gc_busi_group := Some bg\<rparr>) else Inl (Bomb 403 ''forbidden'')) = Inr c1) (f ())"
      by (rule bi.under_fact [where Q = "W (bo_GroupId b)"])
        (auto simp: board_inv_def rights_def split: option.splits if_splits intro!: bi.under_weaken [OF f])
  qed
  then show ?thesis using False by (simp add: board_rw_def bind_assoc)
qed

end

text \<open>The board that a handler read: its identifier, group and ident are those of a row.\<close>

definition read_board :: "Board \<Rightarrow> center \<Rightarrow> bool" where
  "read_board y s \<longleftrightarrow> (\<exists>x \<in> set (ce_board s). bo_Id x = bo_Id y \<and> bo_GroupId x = bo_GroupId y \<and> bo_Ident x = bo_Ident y)"

lemma read_board_steady [simp]: "steady (read_board y)"
  by (simp add: steady_def read_board_def)

lemma read_board_owned: "read_board y s \<Longrightarrow> W (bo_GroupId y) \<Longrightarrow> owned_board W (bo_Id y) s"
  by (auto simp: read_board_def owned_board_def)

lemma sees_read_board: "\<exists>v. sees (dangerous (BoardGet p)) v \<and> (\<forall>s y. v s = Inr (Some y) \<longrightarrow> read_board y s)"
proof -
  obtain v where v: "sees (BoardGet p) v" "\<And>s y. v s = Inr (Some y) \<Longrightarrow> read_board y s"
    using sees_BoardGet [of p] by (fastforce simp: read_board_def)
  have "map_err Danger r = Inr x \<Longrightarrow> r = Inr x" for r :: "failure + Board option" and x
    by (auto simp: map_err_def split: sum.splits failure.splits)
  then show ?thesis using v sees_change_err [OF v(1), where h = Danger, folded dangerous_def] by blast
qed

context board_rows
begin

lemma keeps_read_board:
  assumes f: "\<And>y. keeps_board u (read_board y) (f (Some y))" and n: "preserves (board_inv u) (f None)"
  shows "preserves (board_inv u) (bind_act (dangerous (BoardGet p)) f)"
proof -
  obtain v where v: "sees (dangerous (BoardGet p)) v" "\<And>s y. v s = Inr (Some y) \<Longrightarrow> read_board y s" using sees_read_board by blast
  show ?thesis
  proof (rule bi.under_all, rule bi.under_sees [OF v(1) steady_const])
    fix r
    show "keeps_board u (\<lambda>s. True \<and> v s = Inr r) (f r)"
      using n by (cases r) (auto intro: bi.under_preserves bi.under_weaken [OF f] dest: v(2))
  qed
qed

lemma keeps_owned_after_rw:
  assumes "gc_user c = Some (fill_roles u)" and "\<And>x. keeps_board u (owned_board W (bo_Id y)) (f x)"
  shows "keeps_board u (read_board y) (bind_act (board_rw y (fill_roles u) c) f)"
  by (rule keeps_board_rw [OF assms(1)], simp) (rule bi.under_weaken [OF assms(2)], rule read_board_owned)

lemma keeps_boardDel:
  assumes "gc_user c = Some (fill_roles u)"
  shows "preserves (board_inv u) (boardDel ids c)"
proof -
  have "preserves (board_inv u) (del_board c i)" for i
    unfolding del_board_def
    by (rule keeps_read_board) (auto simp: must_get_def assms intro!: keeps_owned_after_rw bi.under_dangerous(1) keeps_Board_Del sat_rules)
  then show ?thesis unfolding boardDel_def by (intro preserves_bind [OF bi.preserves_reads [OF reads_boards(10)]] preserves_bind [OF preserves_each] preserves_ret)
qed

lemma keeps_updated:
  assumes f: "\<And>r. bo_Id (f b r) = bo_Id r \<and> bo_GroupId (f b r) = bo_GroupId r" "\<And>r. bo_Ident (f b r) = bo_Ident r"
  shows "sat (\<lambda>s. board_inv u s \<and> owned_board W (bo_Id b) s) (dangerous (Board_Update L f b)) (\<lambda>x s. board_inv u s \<and> owned_board W (bo_Id b) s) (\<lambda>e. board_inv u)"
    "keeps_board u (owned_board W (bo_Id b)) (attempt (Board_Update L f b))"
proof -
  have upd: "sat (\<lambda>s. board_inv u s \<and> owned_board W (bo_Id b) s) (Board_Update L f b) (\<lambda>x s. board_inv u s \<and> owned_board W (bo_Id b) s) (\<lambda>e. board_inv u)"
    by (rule sat_weaken [OF keeps_Board_Update [where f = f and b = b and ident = "''''"]]) (use f in \<open>auto simp: ident_free_def\<close>)
  show "sat (\<lambda>s. board_inv u s \<and> owned_board W (bo_Id b) s) (dangerous (Board_Update L f b)) (\<lambda>x s. board_inv u s \<and> owned_board W (bo_Id b) s) (\<lambda>e. board_inv u)"
    by (rule sat_dangerous [OF upd])
  show "keeps_board u (owned_board W (bo_Id b)) (attempt (Board_Update L f b))"
    by (rule bi.under_dangerous(2), rule bi.under_sat [OF upd])
qed

lemma under_last: "keeps_board u Q m \<Longrightarrow> (\<And>x. reads (f x)) \<Longrightarrow> keeps_board u Q (bind_act m f)"
  unfolding bi.under_def bind_act_def using bi.reads_kept by (fastforce split: prod.split sum.split)

lemma keeps_boardPutPublic:
  assumes "gc_user c = Some (fill_roles u)"
  shows "preserves (board_inv u) (boardPutPublic R rq f c)"
proof -
  have "keeps_board u (owned_board W (bo_Id b)) (bind_act (attempt (Board_Update (cr_lib R) (\<lambda>b r. (touched b r)\<lparr>bo_Public := bo_Public b\<rparr>)
      (b\<lparr>bo_Public := p, bo_UpdateBy := by1, bo_UpdateAt := now\<rparr>))) (\<lambda>r.
      case r of Inl e \<Rightarrow> ret (Message 200 e) | Inr _ \<Rightarrow> ret (Data b1)))" for b p by1 now b1
    by (rule under_last) (use keeps_updated(2) [where b = "b\<lparr>bo_Public := p, bo_UpdateBy := by1, bo_UpdateAt := now\<rparr>"] in
        \<open>auto simp: touched_def intro!: sat_rules split: sum.split\<close>)
  then show ?thesis
    unfolding boardPutPublic_def router_Board_def must_get_def assms option.case bind_ret bind_assoc Let_def
    by (intro preserves_bind [OF bi.preserves_reads [OF sees_reads [OF sees_UrlParam]]] keeps_read_board)
      (auto simp: no_dashboard_def intro!: sat_rules keeps_owned_after_rw assms bi.under_reads [OF reads_lookups(1)])
qed

end

context board_rows
begin

lemma keeps_boardPutConfigs:
  assumes "gc_user c = Some (fill_roles u)"
  shows "preserves (board_inv u) (boardPutConfigs R same bid f c)"
proof -
  have "keeps_board u (owned_board W (bo_Id b)) (bind_act (dangerous (Board_Update (cr_lib R) touched (b\<lparr>bo_UpdateBy := by1, bo_UpdateAt := now\<rparr>))) (\<lambda>_.
      bind_act (dangerous (BoardPayloadSave (bo_Id (b\<lparr>bo_UpdateBy := by1, bo_UpdateAt := now\<rparr>)) t)) (\<lambda>_. ret d)))" for b by1 now t and d :: "Board reply"
    by (rule bi.under_after [where Q = "\<lambda>_. owned_board W (bo_Id b)"])
      (use keeps_updated(1) [where b = "b\<lparr>bo_UpdateBy := by1, bo_UpdateAt := now\<rparr>" and f = touched] in
        \<open>auto simp: touched_def intro!: sat_rules under_last bi.under_dangerous(1) keeps_BoardPayloadSave\<close>)
  then show ?thesis
    unfolding boardPutConfigs_def must_get_def assms option.case bind_ret bind_assoc Let_def
    by (intro keeps_read_board)
      (auto simp: no_dashboard_def intro!: sat_rules keeps_owned_after_rw assms bi.under_reads [OF reads_lookups(1)])
qed

lemma keeps_boardPut:
  assumes "gc_user c = Some (fill_roles u)"
  shows "preserves (board_inv u) (boardPut R rq f c)"
proof -
  let ?cols = "\<lambda>b r. r\<lparr>bo_Name := bo_Name b, bo_Ident := bo_Ident b, bo_Tags := bo_Tags b, bo_UpdateBy := bo_UpdateBy b, bo_UpdateAt := bo_UpdateAt b\<rparr>"
  let ?new = "\<lambda>b now. b\<lparr>bo_Name := bf_Name f, bo_Ident := bf_Ident f, bo_Tags := bf_Tags f, bo_UpdateBy := us_Username u, bo_UpdateAt := now\<rparr>"
  have upd: "keeps_board u (\<lambda>s. owned_board W (bo_Id b) s \<and> ident_free (ce_board s) (bo_Id b) (bf_Ident f)) (bind_act (attempt (Board_Update (cr_lib R) ?cols (?new b now)))
      (\<lambda>r. case r of Inl e \<Rightarrow> ret (Message 200 e) | Inr _ \<Rightarrow> ret (Data (?new b now))))" for b now
    by (rule under_last, rule bi.under_dangerous(2), rule bi.under_sat)
      (use keeps_Board_Update [where f = ?cols and b = "?new b now" and ident = "bf_Ident f"] in \<open>auto intro!: sat_rules split: sum.split\<close>)
  have renamed: "keeps_board u (owned_board W (bo_Id b)) (bind_act (dangerous (CanRenameIdent b (bf_Ident f))) (\<lambda>can.
     if \<not> can then stop (Bomb 200 ''Ident duplicate'')
     else bind_act Now_Unix (\<lambda>now. bind_act (attempt (Board_Update (cr_lib R) ?cols (?new b now)))
      (\<lambda>r. case r of Inl e \<Rightarrow> ret (Message 200 e) | Inr _ \<Rightarrow> ret (Data (?new b now))))))" for b
  proof (rule bi.under_sees [OF sees_change_err [OF sees_ident_free, where h = Danger, folded dangerous_def]])
    fix can
    show "keeps_board u (\<lambda>s. owned_board W (bo_Id b) s \<and> map_err Danger (Inr (ident_free (ce_board s) (bo_Id b) (bf_Ident f))) = Inr can)
      (if \<not> can then stop (Bomb 200 ''Ident duplicate'')
     else bind_act Now_Unix (\<lambda>now. bind_act (attempt (Board_Update (cr_lib R) ?cols (?new b now)))
      (\<lambda>r. case r of Inl e \<Rightarrow> ret (Message 200 e) | Inr _ \<Rightarrow> ret (Data (?new b now)))))"
      by (cases can) (auto simp: map_err_def bi.under_ret intro!: bi.under_reads [OF reads_lookups(1)] upd)
  qed simp
  show ?thesis
    unfolding boardPut_def router_Board_def must_get_def assms option.case bind_ret bind_assoc Let_def fill_roles_simps
    by (intro preserves_bind [OF bi.preserves_reads [OF sees_reads [OF sees_UrlParam]]] keeps_read_board)
      (auto simp: no_dashboard_def intro!: sat_rules keeps_owned_after_rw assms renamed)
qed

lemma keeps_added_board:
  assumes "W (bo_GroupId b)" "bo_Id b = 0" and f: "\<And>x. keeps_board u (owned_board W (bo_Id x)) (f x)"
  shows "preserves (board_inv u) (bind_act (dangerous (Board_Add L b)) f)"
  by (rule bi.under_all, rule bi.under_after [where Q = "\<lambda>x. owned_board W (bo_Id x)"])
    (use sat_weaken [OF keeps_Board_Add [OF assms(1,2)]] f in auto)

lemma keeps_boardAdd:
  assumes "\<And>g. rq_int rq ''id'' = Inr g \<Longrightarrow> W g"
  shows "preserves (board_inv u) (boardAdd R rq f c)"
proof -
  have path: "preserves (board_inv u) (bind_act (UrlParamInt64 rq ''id'') h)" if "\<And>g. W g \<Longrightarrow> preserves (board_inv u) (h g)" for h :: "int \<Rightarrow> Board reply center_act"
    by (rule preserves_bind_result [OF bi.preserves_reads [OF sees_reads [OF sees_UrlParam]], where Q = W]) (use assms that seen [OF sees_UrlParam] in blast)+
  show ?thesis
    unfolding boardAdd_def
    by (rule preserves_bind [OF bi.preserves_reads [OF reads_checks(1)]], rule path)
      (auto intro!: keeps_added_board under_last bi.under_if bi.under_dangerous(1) keeps_BoardPayloadSave reads_ret bi.under_ret)
qed

lemma keeps_boardClone:
  assumes "\<And>g. W g"
  shows "preserves (board_inv u) (boardClone R rq c)"
proof -
  have save: "keeps_board u (owned_board W (bo_Id x)) (bind_act (dangerous (BoardPayloadGet i)) (\<lambda>payload.
     bind_act (if payload \<noteq> '''' then dangerous (BoardPayloadSave (bo_Id x) payload) else ret ()) (\<lambda>_. ret (Message 200 ''''))))" for x i
    by (rule bi.under_reads [OF reads_dangerous [OF reads_boards(2)]])
      (auto intro!: under_last bi.under_if bi.under_dangerous(1) keeps_BoardPayloadSave sat_rules bi.under_ret)
  show ?thesis
    unfolding boardClone_def router_Board_def
    by (intro preserves_bind [OF bi.preserves_reads [OF reads_checks(1)]] preserves_bind [OF bi.preserves_reads [OF reads_checks(2)]]
        preserves_bind [OF bi.preserves_reads [OF reads_dangerous [OF reads_boards(6)]]] preserves_bind [OF bi.preserves_reads] keeps_added_board save)
      (auto simp: no_dashboard_def assms intro!: sat_rules split: option.split)
qed

end

lemma reads_board_pages [sat_rules]: "reads (boardGets R rq q)" "reads (boardPureGet rq)"
  unfolding boardGets_def boardPureGet_def render_data_def no_dashboard_def by (auto intro!: sat_rules split: option.split)

text \<open>Cloning copies into the group of the board, which is not the one that was checked.\<close>

fun copies :: "board_call \<Rightarrow> bool" where
  "copies Board_clone = True"
| "copies call = False"

context board_rows
begin

lemma keeps_replied: "preserves (board_inv u) m \<Longrightarrow> preserves (board_inv u) (answered m)"
  unfolding answered_def by (auto intro!: preserves_bind preserves_reply preserves_ret)

lemma keeps_board_route:
  assumes "board_route R same rq call = (Some gs, h)" and "gc_user c = Some (fill_roles u)" and "\<And>g. Mw_bgrw \<in> set gs \<Longrightarrow> rq_int rq ''id'' = Inr g \<Longrightarrow> W g"
    and "copies call \<Longrightarrow> \<forall>g. W g"
  shows "preserves (board_inv u) (h c)"
  using assms(1,3,4)
  by (cases call) (auto intro!: keeps_replied keeps_boardAdd keeps_boardClone keeps_boardPut [OF assms(2)] keeps_boardPutConfigs [OF assms(2)]
      keeps_boardPutPublic [OF assms(2)] keeps_boardDel [OF assms(2)] bi.preserves_reads [OF reads_board_pages(1)])

end

subsection \<open>Requests\<close>

lemma board_route_guards: "board_route R same rq call = (Some gs, h) \<Longrightarrow> gs \<noteq> [] \<and> opens (hd gs)"
  by (cases call) (auto simp: opens_def)

lemma reads_boardGet:
  assumes "\<not> hc_ProxyAuth_Enable (cr_http R)"
  shows "reads (boardGet R same rq bid c)"
  unfolding boardGet_def bgroCheck_def group_check_def router_BusiGroup_def load_def allow_def no_dashboard_def
  by (auto simp: user_mw_def intro!: sat_rules reads_auth [OF assms] split: option.split)

lemma serve_board_outcome:
  assumes "\<not> hc_ProxyAuth_Enable (cr_http R)" and "serve_board R same rq call s = (r, s')"
  obtains (unchanged) n where "s' = s\<lparr>ce_step := n\<rparr>"
  | (served) c n uid un u gs h where "board_route R same rq call = (Some gs, h)" "h c (s\<lparr>ce_step := n\<rparr>) = (r, s')" "gc_user c = Some (fill_roles u)"
      "session R rq s = Some (uid, un)" "user_with s uid = Some u" "\<forall>g \<in> set gs. grants s rq uid g"
proof (cases "fst (board_route R same rq call)")
  case None
  then have "reads (serve_board R same rq call)"
    unfolding serve_board_def
    by (cases call) (auto simp: answered_def intro!: sat_rules reads_boardGet assms(1))
  then show thesis using unchanged assms(2) reads_state by blast
next
  case (Some gs)
  obtain h where h: "board_route R same rq call = (Some gs, h)" using Some by (cases "board_route R same rq call") auto
  have serve: "serve_board R same rq call s = chain (auth R rq # map (mw rq) gs) h s" by (simp add: serve_board_def h)
  have gs: "gs \<noteq> []" "opens (hd gs)" using board_route_guards [OF h] by auto
  from assms(1) gs assms(2) [unfolded serve] show thesis
    by (cases rule: chain_served) (use unchanged served [OF h] in blast)+
qed

end
