(* ===== verification/Board_Owners.thy ===== *)
theory Board_Owners
  imports Board_Spec Rule_Owners
begin

text \<open>
  The properties of the pages for dashboards: the tables stay consistent, the dashboards of other
  groups do not change, and a dashboard that is not public is shown to users who may read its group.
\<close>

subsection \<open>Consistency\<close>

definition idents_unique :: "Board list \<Rightarrow> bool" where
  "idents_unique bs \<longleftrightarrow> (\<forall>a \<in> set bs. \<forall>b \<in> set bs. bo_Ident a = bo_Ident b \<longrightarrow> bo_Ident a \<noteq> '''' \<longrightarrow> bo_Id a = bo_Id b)"

definition boards_ok :: "Board list \<Rightarrow> BoardPayload list \<Rightarrow> bool" where
  "boards_ok bs ps \<longleftrightarrow> distinct (map bo_Id bs) \<and> (\<forall>b \<in> set bs. 0 < bo_Id b) \<and> idents_unique bs \<and>
     distinct (map bp_Id ps) \<and> bp_Id ` set ps \<subseteq> bo_Id ` set bs"

lemma idents_uniqueI: "(\<And>a b. a \<in> set bs \<Longrightarrow> b \<in> set bs \<Longrightarrow> bo_Ident a = bo_Ident b \<Longrightarrow> bo_Ident a \<noteq> '''' \<Longrightarrow> bo_Id a = bo_Id b) \<Longrightarrow> idents_unique bs"
  unfolding idents_unique_def by blast

lemma idents_uniqueD: "idents_unique bs \<Longrightarrow> a \<in> set bs \<Longrightarrow> b \<in> set bs \<Longrightarrow> bo_Ident a = bo_Ident b \<Longrightarrow> bo_Ident a \<noteq> '''' \<Longrightarrow> bo_Id a = bo_Id b"
  unfolding idents_unique_def by blast

lemma idents_unique_subset: "idents_unique bs \<Longrightarrow> set cs \<subseteq> set bs \<Longrightarrow> idents_unique cs"
  unfolding idents_unique_def by blast

lemma ident_freeD: "ident_free bs i ident \<Longrightarrow> r \<in> set bs \<Longrightarrow> bo_Ident r = ident \<Longrightarrow> ident \<noteq> '''' \<Longrightarrow> bo_Id r = i"
  unfolding ident_free_def by blast

lemma idents_unique_add:
  assumes "idents_unique bs" "ident_free bs (bo_Id b) (bo_Ident b)"
  shows "idents_unique (bs @ [b])"
proof (rule idents_uniqueI)
  fix x y
  assume "x \<in> set (bs @ [b])" "y \<in> set (bs @ [b])" and e: "bo_Ident x = bo_Ident y" "bo_Ident x \<noteq> ''''"
  then consider "x \<in> set bs" "y \<in> set bs" | "x \<in> set bs" "y = b" | "x = b" "y \<in> set bs" | "x = b" "y = b" by auto
  then show "bo_Id x = bo_Id y"
  proof cases
    case 1
    then show ?thesis using idents_uniqueD [OF assms(1)] e by blast
  next
    case 2
    then show ?thesis using ident_freeD [OF assms(2), of x] e by simp
  next
    case 3
    then show ?thesis using ident_freeD [OF assms(2), of y] e by simp
  qed simp
qed

lemma boards_ok_add: "boards_ok bs ps \<Longrightarrow> 0 < bo_Id b \<Longrightarrow> bo_Id b \<notin> bo_Id ` set bs \<Longrightarrow> ident_free bs (bo_Id b) (bo_Ident b) \<Longrightarrow> boards_ok (bs @ [b]) ps"
  unfolding boards_ok_def using idents_unique_add [of bs b] by auto

lemma update_where_ids: "(\<And>r. key (f r) = key r) \<Longrightarrow> map key (update_where p f rows) = map key rows"
  by (rule update_where_keys) simp

lemma idents_unique_put:
  assumes u: "idents_unique bs" and f: "\<And>r. bo_Id (f r) = bo_Id r" "\<And>r. bo_Ident (f r) = bo_Ident r \<or> ident_free bs i (bo_Ident (f r))"
  shows "idents_unique (update_where (\<lambda>r. bo_Id r = i) f bs)"
proof (rule idents_uniqueI)
  let ?g = "\<lambda>r. if bo_Id r = i then f r else r"
  have row: "set (update_where (\<lambda>r. bo_Id r = i) f bs) = ?g ` set bs" by (simp add: update_where_def)
  have mixed: "bo_Id x = bo_Id y" if "x \<in> set bs" "y \<in> set bs" "bo_Id x = i" "bo_Ident (f x) = bo_Ident y" "bo_Ident y \<noteq> ''''" for x y
    using f(2) [of x]
  proof
    assume "bo_Ident (f x) = bo_Ident x"
    then show ?thesis using idents_uniqueD [OF u that(1,2)] that(4,5) by simp
  next
    assume "ident_free bs i (bo_Ident (f x))"
    from ident_freeD [OF this that(2) that(4) [symmetric]] show ?thesis using that(3,5) unfolding that(4) by blast
  qed
  fix a b
  assume "a \<in> set (update_where (\<lambda>r. bo_Id r = i) f bs)" "b \<in> set (update_where (\<lambda>r. bo_Id r = i) f bs)" and e: "bo_Ident a = bo_Ident b" "bo_Ident a \<noteq> ''''"
  then have "a \<in> ?g ` set bs" "b \<in> ?g ` set bs" unfolding row by blast+
  then obtain x y where x: "x \<in> set bs" "a = ?g x" and y: "y \<in> set bs" "b = ?g y" by (elim imageE) blast
  show "bo_Id a = bo_Id b"
  proof (cases "bo_Id x = i"; cases "bo_Id y = i")
    assume "bo_Id x = i" "bo_Id y \<noteq> i"
    then show ?thesis using mixed [of x y] x y e f(1) by simp
  next
    assume "bo_Id x \<noteq> i" "bo_Id y = i"
    then show ?thesis using mixed [of y x] x y e f(1) by simp
  next
    assume "bo_Id x \<noteq> i" "bo_Id y \<noteq> i"
    then show ?thesis using idents_uniqueD [OF u x(1) y(1)] x y e by simp
  qed (use x y f(1) in simp)
qed

lemma boards_ok_put:
  assumes ok: "boards_ok bs ps" and f: "\<And>r. bo_Id (f r) = bo_Id r" "\<And>r. bo_Ident (f r) = bo_Ident r \<or> ident_free bs i (bo_Ident (f r))"
  shows "boards_ok (update_where (\<lambda>r. bo_Id r = i) f bs) ps"
proof -
  let ?bs = "update_where (\<lambda>r. bo_Id r = i) f bs"
  have keys: "map bo_Id ?bs = map bo_Id bs" by (rule update_where_ids) (rule f(1))
  then have ids: "bo_Id ` set ?bs = bo_Id ` set bs" by (metis set_map)
  have "\<forall>i \<in> bo_Id ` set bs. 0 < i" using ok by (simp add: boards_ok_def)
  then have "\<forall>b \<in> set ?bs. 0 < bo_Id b" using ids by blast
  then show ?thesis using ok keys ids idents_unique_put [of bs f i] f by (simp add: boards_ok_def)
qed

lemma boards_ok_del: "boards_ok bs ps \<Longrightarrow> boards_ok (filter (\<lambda>r. bo_Id r \<noteq> i) bs) (filter (\<lambda>p. bp_Id p \<noteq> i) ps)"
  unfolding boards_ok_def using idents_unique_subset [of bs "filter (\<lambda>r. bo_Id r \<noteq> i) bs"] by (auto simp: distinct_map_filter)

lemma boards_ok_save: "boards_ok bs ps \<Longrightarrow> boards_ok bs (update_where (\<lambda>p. bp_Id p = i) (\<lambda>p. p\<lparr>bp_Payload := t\<rparr>) ps)"
proof -
  have keys: "map bp_Id (update_where (\<lambda>p. bp_Id p = i) (\<lambda>p. p\<lparr>bp_Payload := t\<rparr>) ps) = map bp_Id ps" by (rule update_where_ids) simp
  then have "bp_Id ` set (update_where (\<lambda>p. bp_Id p = i) (\<lambda>p. p\<lparr>bp_Payload := t\<rparr>) ps) = bp_Id ` set ps" by (metis set_map)
  then show "boards_ok bs ps \<Longrightarrow> boards_ok bs (update_where (\<lambda>p. bp_Id p = i) (\<lambda>p. p\<lparr>bp_Payload := t\<rparr>) ps)" using keys by (simp add: boards_ok_def)
qed

lemma boards_ok_save_new: "boards_ok bs ps \<Longrightarrow> i \<in> bo_Id ` set bs \<Longrightarrow> i \<notin> bp_Id ` set ps \<Longrightarrow> boards_ok bs (ps @ [\<lparr>bp_Id = i, bp_Payload = t\<rparr>])"
  by (simp add: boards_ok_def)

interpretation consistent: board_rows boards_ok "\<lambda>g. True"
proof
  show "0 < bo_Id b" if "boards_ok bs ps" "b \<in> set bs" for bs ps b using that by (simp add: boards_ok_def)
qed (auto intro!: boards_ok_add boards_ok_put boards_ok_del boards_ok_save boards_ok_save_new)

text \<open>
  The boards in groups without \<open>W\<close> and their payloads.
\<close>

definition boards_outside :: "(int \<Rightarrow> bool) \<Rightarrow> Board list \<Rightarrow> Board list" where
  "boards_outside W bs = filter (\<lambda>b. \<not> W (bo_GroupId b)) bs"

definition payloads_outside :: "(int \<Rightarrow> bool) \<Rightarrow> Board list \<Rightarrow> BoardPayload list \<Rightarrow> BoardPayload list" where
  "payloads_outside W bs ps = filter (\<lambda>p. bp_Id p \<in> bo_Id ` set (boards_outside W bs)) ps"

definition boards_kept :: "(int \<Rightarrow> bool) \<Rightarrow> center \<Rightarrow> Board list \<Rightarrow> BoardPayload list \<Rightarrow> bool" where
  "boards_kept W s bs ps \<longleftrightarrow> boards_ok bs ps \<and> boards_outside W bs = boards_outside W (ce_board s) \<and>
     payloads_outside W bs ps = payloads_outside W (ce_board s) (ce_board_payload s)"

lemma boards_kept_step:
  assumes "boards_kept W s bs ps" "boards_ok bs' ps'" and out: "boards_outside W bs' = boards_outside W bs" and "payloads_outside W bs ps' = payloads_outside W bs ps"
  shows "boards_kept W s bs' ps'"
proof -
  have "payloads_outside W bs' ps' = payloads_outside W bs ps'" by (simp add: payloads_outside_def out)
  then show ?thesis using assms unfolding boards_kept_def by metis
qed

lemma owned_not_outside:
  assumes "boards_ok bs ps" "x \<in> set bs" "W (bo_GroupId x)"
  shows "bo_Id x \<notin> bo_Id ` set (boards_outside W bs)"
proof
  assume "bo_Id x \<in> bo_Id ` set (boards_outside W bs)"
  then obtain y where "y \<in> set bs" "\<not> W (bo_GroupId y)" "bo_Id y = bo_Id x" by (auto simp: boards_outside_def)
  moreover have "inj_on bo_Id (set bs)" using assms(1) by (simp add: boards_ok_def distinct_map)
  ultimately show False using assms(2,3) by (metis inj_onD)
qed

interpretation apart: board_rows "boards_kept W s" W for W and s :: center
proof
  fix bs ps and b x :: Board and i and f and t :: string
  let ?out = "boards_outside W" and ?pay = "payloads_outside W"
  show "0 < bo_Id b" if "boards_kept W s bs ps" "b \<in> set bs" using that by (simp add: boards_kept_def boards_ok_def)
  show "boards_kept W s (bs @ [b]) ps"
    if k: "boards_kept W s bs ps" and "W (bo_GroupId b)" "0 < bo_Id b" "bo_Id b \<notin> bo_Id ` set bs" "ident_free bs (bo_Id b) (bo_Ident b)"
  proof -
    have out: "?out (bs @ [b]) = ?out bs" using that(2) by (simp add: boards_outside_def)
    have "boards_ok (bs @ [b]) ps" using k that(3-5) by (intro boards_ok_add) (simp_all add: boards_kept_def)
    then show ?thesis using boards_kept_step [OF k _ out] by simp
  qed
  assume k: "boards_kept W s bs ps" and x: "x \<in> set bs" "W (bo_GroupId x)" "bo_Id x = i"
  then have ok: "boards_ok bs ps" by (simp add: boards_kept_def)
  have i: "i \<notin> bo_Id ` set (?out bs)" using owned_not_outside [where W = W, OF ok x(1,2)] x(3) by simp
  then have own: "W (bo_GroupId r)" if "r \<in> set bs" "bo_Id r = i" for r using that by (auto simp: boards_outside_def)
  show "boards_kept W s (update_where (\<lambda>r. bo_Id r = i) f bs) ps"
    if f: "\<And>r. bo_Id (f r) = bo_Id r \<and> bo_GroupId (f r) = bo_GroupId r" "\<And>r. bo_Ident (f r) = bo_Ident r \<or> ident_free bs i (bo_Ident (f r))"
  proof -
    have "?out (update_where (\<lambda>r. bo_Id r = i) f bs) = ?out bs"
      unfolding boards_outside_def by (rule outside_update) (use own f(1) in simp)
    then show ?thesis using boards_kept_step [OF k boards_ok_put [OF ok _ f(2)]] f(1) by simp
  qed
  show "boards_kept W s (filter (\<lambda>r. bo_Id r \<noteq> i) bs) (filter (\<lambda>p. bp_Id p \<noteq> i) ps)"
  proof -
    have out: "?out (filter (\<lambda>r. bo_Id r \<noteq> i) bs) = ?out bs" unfolding boards_outside_def filter_filter by (rule filter_cong) (use own in auto)
    have "?pay bs (filter (\<lambda>p. bp_Id p \<noteq> i) ps) = ?pay bs ps" unfolding payloads_outside_def filter_filter by (rule filter_cong) (use i in auto)
    then show ?thesis by (rule boards_kept_step [OF k boards_ok_del [OF ok] out])
  qed
  show "boards_kept W s bs (update_where (\<lambda>p. bp_Id p = i) (\<lambda>p. p\<lparr>bp_Payload := t\<rparr>) ps)"
  proof -
    have "?pay bs (update_where (\<lambda>p. bp_Id p = i) (\<lambda>p. p\<lparr>bp_Payload := t\<rparr>) ps) = ?pay bs ps"
      unfolding payloads_outside_def by (rule outside_update) (use i in simp)
    then show ?thesis using boards_kept_step [OF k boards_ok_save [OF ok]] by simp
  qed
  show "boards_kept W s bs (ps @ [\<lparr>bp_Id = i, bp_Payload = t\<rparr>])" if "i \<notin> bp_Id ` set ps"
    by (rule boards_kept_step [OF k boards_ok_save_new [OF ok _ that]]) (use i x in \<open>auto simp: payloads_outside_def\<close>)
qed

subsection \<open>Requests\<close>

definition positive_ids :: "center \<Rightarrow> bool" where
  "positive_ids s \<longleftrightarrow> (\<forall>n. 0 < an_id (ce_answers s n))"

text \<open>C18. A request on the pages for dashboards keeps their tables consistent: the identifiers of boards
  are positive and unique, two boards have the same ident only if it is empty, every payload belongs
  to a board and no board has two.\<close>

theorem boards_consistent:
  assumes "\<not> hc_ProxyAuth_Enable (cr_http R)" and "boards_ok (ce_board s) (ce_board_payload s)" and "positive_ids s"
    and "serve_board R same rq call s = (r, s')"
  shows "boards_ok (ce_board s') (ce_board_payload s')"
  using assms(1,4)
proof (cases rule: serve_board_outcome)
  case (unchanged n)
  then show ?thesis using assms(2) by simp
next
  case (served c n uid un u gs h)
  have "preserves (consistent.board_inv u) (h c)" by (rule consistent.keeps_board_route [OF served(1,3)]) simp_all
  moreover have "consistent.board_inv u (s\<lparr>ce_step := n\<rparr>)" using assms(2,3) by (simp add: consistent.board_inv_def rights_def positive_ids_def)
  ultimately have "consistent.board_inv u s'" using served(2) unfolding preserves_def by (metis snd_conv)
  then show ?thesis by (simp add: consistent.board_inv_def)
qed

text \<open>C16. A request on the pages for dashboards, other than a copy, leaves the two tables as they were, or
  it comes from a user of a session whom every guard of its route admits; then the dashboards of the
  groups that the user may not write, and their payloads, are the same as before.\<close>

theorem boards_of_others:
  assumes "\<not> hc_ProxyAuth_Enable (cr_http R)" and "boards_ok (ce_board s) (ce_board_payload s)" and "positive_ids s" and "\<not> copies call"
    and "serve_board R same rq call s = (r, s')"
  shows "(ce_board s' = ce_board s \<and> ce_board_payload s' = ce_board_payload s) \<or>
    (\<exists>uid un u gs. session R rq s = Some (uid, un) \<and> user_with s uid = Some u \<and> fst (board_route R same rq call) = Some gs \<and> (\<forall>g \<in> set gs. grants s rq uid g) \<and>
       boards_outside (may_write s u) (ce_board s') = boards_outside (may_write s u) (ce_board s) \<and>
       payloads_outside (may_write s u) (ce_board s') (ce_board_payload s') = payloads_outside (may_write s u) (ce_board s) (ce_board_payload s))"
  using assms(1,5)
proof (cases rule: serve_board_outcome)
  case (unchanged n)
  then show ?thesis by simp
next
  case (served c n uid un u gs h)
  let ?W = "may_write s u"
  have "preserves (apart.board_inv ?W s u) (h c)"
    by (rule apart.keeps_board_route [OF served(1,3)]) (use assms(4) granted_group [OF _ served(6,5)] in blast)+
  moreover have "apart.board_inv ?W s u (s\<lparr>ce_step := n\<rparr>)"
    using assms(2,3) rights_may_write [of s u] by (simp add: apart.board_inv_def boards_kept_def positive_ids_def may_write_def)
  ultimately have "apart.board_inv ?W s u s'" using served(2) unfolding preserves_def by (metis snd_conv)
  then show ?thesis using served(1,4-6) by (auto simp: apart.board_inv_def boards_kept_def)
qed

subsection \<open>Reading\<close>

lemma sees_bgroCheck:
  "gc_user c = Some (fill_roles u) \<Longrightarrow>
   sees (bgroCheck g c) (\<lambda>s. case group_with s g of None \<Rightarrow> Inl (Bomb 404 ''No such BusiGroup'')
     | Some bg \<Rightarrow> if may_group s u [] bg then Inr (c\<lparr>gc_busi_group := Some bg\<rparr>) else Inl (Bomb 403 ''forbidden''))"
  unfolding bgroCheck_def group_check_def router_BusiGroup_def must_get_def
  by (rule sees_eq, simp, rule sees_bind [OF sees_load [OF sees_lookups(3)]], rule sees_allow [OF sees_CanDoBusiGroup]) (auto split: option.split)

text \<open>What the session of a private board needs.\<close>

definition reads_group :: "center_router \<Rightarrow> request \<Rightarrow> center \<Rightarrow> int \<Rightarrow> bool" where
  "reads_group R rq s g \<longleftrightarrow> (\<exists>n uid un u. session R rq (s\<lparr>ce_step := n\<rparr>) = Some (uid, un) \<and> user_with s uid = Some u \<and>
     (AdminRole \<in> roles_of u \<or> (\<exists>bg. group_with s g = Some bg \<and> may_group s u [] bg)))"

lemma auth_session:
  assumes "\<not> hc_ProxyAuth_Enable (cr_http R)" "auth R rq empty_ctx s = (Inr c, t)"
  shows "\<exists>uid un. session R rq s = Some (uid, un) \<and> gc_userid c = Some uid"
  using assms jwtAuth_outcome [where R = R and rq = rq and s = s and c = empty_ctx] by (auto simp: auth_def split: option.splits prod.splits)

lemma private_board_guarded:
  assumes np: "\<not> hc_ProxyAuth_Enable (cr_http R)" and "s1 = s\<lparr>ce_step := n\<rparr>"
    and a: "auth R rq empty_ctx s1 = (Inr c1, s2)" and m: "user_mw c1 s2 = (Inr c2, s3)" and g: "must_get ''user'' (gc_user c2) s3 = (Inr me, s4)"
    and b: "(if \<not> IsAdmin me then bind_act (bgroCheck i c2) (\<lambda>_. ret ()) else ret ()) s4 = (Inr z, s5)"
  shows "reads_group R rq s i"
proof -
  obtain uid un where sess: "session R rq s1 = Some (uid, un)" "gc_userid c1 = Some uid" using auth_session [OF np a] by blast
  have e: "user_with s1 j = user_with s j" "group_with s1 j = group_with s j" "may_group s1 u f bg = may_group s u f bg" for j u f bg
    unfolding assms(2) by (simp_all add: user_with_def group_with_def may_group_def member_of_def)
  obtain n2 n3 n4 where st: "s2 = s1\<lparr>ce_step := n2\<rparr>" "s3 = s1\<lparr>ce_step := n3\<rparr>" "s4 = s1\<lparr>ce_step := n4\<rparr>"
    using reads_state [OF reads_auth [OF np] a] reads_state [OF sees_reads [OF sees_user_mw [OF sess(2)]] m] reads_state [OF reads_checks(1) g] by force
  obtain u where u: "user_with s uid = Some u" "gc_user c2 = Some (fill_roles u)"
    using seen [OF sees_user_mw [OF sess(2)] m] st(1) e(1) by (auto simp: user_with_def split: option.splits)
  have me: "me = fill_roles u" using g u(2) by (simp add: must_get_def ret_def)
  have "AdminRole \<in> roles_of u \<or> (\<exists>bg. group_with s i = Some bg \<and> may_group s u [] bg)"
  proof (cases "AdminRole \<in> roles_of u")
    case False
    then obtain c3 t where "bgroCheck i c2 s4 = (Inr c3, t)" using b me by (auto simp: bind_Inr_iff)
    from seen [OF sees_bgroCheck [OF u(2)] this] show ?thesis
      unfolding st(3) assms(2) by (auto simp: group_with_def may_group_def member_of_def split: option.splits if_splits)
  qed simp
  then show ?thesis using sess(1) u(1) unfolding reads_group_def assms(2) by blast
qed

lemma boardGet_guarded:
  assumes "\<not> hc_ProxyAuth_Enable (cr_http R)" and "boardGet R same rq bid empty_ctx s = (Inr (Data b), s')"
  shows "(\<exists>x \<in> set (ce_board s). (same (bo_Id x) bid \<or> bo_Ident x = bid) \<and> bo_Id b = bo_Id x \<and> bo_GroupId b = bo_GroupId x \<and> bo_Public b = bo_Public x) \<and>
    (bo_Public b = 0 \<longrightarrow> reads_group R rq s (bo_GroupId b))"
proof -
  obtain v where v: "sees (BoardGet (\<lambda>r. same (bo_Id r) bid \<or> bo_Ident r = bid)) v" "\<And>s y. v s = Inr (Some y) \<Longrightarrow>
      \<exists>x \<in> set (ce_board s). (same (bo_Id x) bid \<or> bo_Ident x = bid) \<and> bo_Id y = bo_Id x \<and> bo_GroupId y = bo_GroupId x \<and> bo_Ident y = bo_Ident x \<and> bo_Public y = bo_Public x"
    using sees_BoardGet [where p = "\<lambda>r. same (bo_Id r) bid \<or> bo_Ident r = bid"] by (elim exE conjE) (rule that, assumption, drule spec2, erule mp)
  let ?shown = "\<lambda>y. if bo_Public y = 0 then bind_act (auth R rq empty_ctx) (\<lambda>c1. bind_act (user_mw c1) (\<lambda>c2. bind_act (must_get ''user'' (gc_user c2)) (\<lambda>me.
      bind_act (if \<not> IsAdmin me then bind_act (bgroCheck (bo_GroupId y) c2) (\<lambda>_. ret ()) else ret ()) (\<lambda>_. ret (Data y))))) else ret (Data y)"
  obtain q s1 where q: "dangerous (BoardGet (\<lambda>r. same (bo_Id r) bid \<or> bo_Ident r = bid)) s = (Inr q, s1)"
    and rest: "(case q of None \<Rightarrow> no_dashboard | Some y \<Rightarrow> ?shown y) s1 = (Inr (Data b), s')"
    using assms(2) [unfolded boardGet_def, THEN bind_Inr_iff [THEN iffD1]] by (elim exE conjE) (rule that)
  obtain y where y1: "q = Some y" using rest by (cases q) (simp_all add: no_dashboard_def stop_def)
  have y: "BoardGet (\<lambda>r. same (bo_Id r) bid \<or> bo_Ident r = bid) s = (Inr (Some y), s1)" using dangerous_Inr [OF q] y1 by simp
  have shown: "?shown y s1 = (Inr (Data b), s')" using rest y1 by simp
  have b: "b = y"
    using shown by (cases "bo_Public y = 0") (auto simp: bind_Inr_iff ret_def)
  have row: "\<exists>x \<in> set (ce_board s). (same (bo_Id x) bid \<or> bo_Ident x = bid) \<and> bo_Id y = bo_Id x \<and> bo_GroupId y = bo_GroupId x \<and> bo_Ident y = bo_Ident x \<and> bo_Public y = bo_Public x"
    by (rule v(2), rule seen [OF v(1) y])
  obtain n where n: "s1 = s\<lparr>ce_step := n\<rparr>" using reads_state [OF reads_boards(6) y] by blast
  have "reads_group R rq s (bo_GroupId y)" if p: "bo_Public y = 0"
    using shown unfolding if_P [OF p] bind_Inr_iff by (elim exE conjE) (rule private_board_guarded [OF assms(1) n])
  then show ?thesis using row b by blast
qed

text \<open>The page without a session answers with the row, which has no configuration.\<close>

lemma boardPureGet_row:
  assumes "boardPureGet rq s = (Inr (Data b), s')"
  shows "b \<in> set (ce_board s) \<and> rq_int rq ''bid'' = Inr (bo_Id b)"
proof -
  obtain i s1 q s2 where u: "UrlParamInt64 rq ''bid'' s = (Inr i, s1)" and q: "dangerous (BoardGetByID i) s1 = (Inr q, s2)"
    and rest: "(case q of None \<Rightarrow> no_dashboard | Some b \<Rightarrow> ret (Data b)) s2 = (Inr (Data b), s')"
    using assms [unfolded boardPureGet_def] unfolding bind_Inr_iff by (elim exE conjE) (rule that)
  have b: "q = Some b" using rest by (cases q) (simp_all add: no_dashboard_def stop_def ret_def)
  have v: "sees (BoardGetByID i) (\<lambda>s. Inr (first (filter (\<lambda>r. bo_Id r = i) (ce_board s))))"
    unfolding BoardGetByID_def Find_def by (rule sees_eq, (rule sees_intros steady_boards)+) simp
  have "first (filter (\<lambda>r. bo_Id r = i) (ce_board s1)) = Some b"
    using seen [OF v dangerous_Inr [OF q]] b by simp
  from first_filter [OF this] have "b \<in> set (ce_board s1)" "bo_Id b = i" by simp_all
  moreover obtain n where "s1 = s\<lparr>ce_step := n\<rparr>" using reads_state [OF reads_checks(2) u] by blast
  ultimately show ?thesis using seen [OF sees_UrlParam u] by simp
qed

text \<open>C17. The two pages that show one dashboard. \<open>boardGet\<close> answers with a row whose identifier or ident is
  the one asked for, and with its configuration; if the dashboard is not public then the request has
  a session of an administrator or of a user with a team that may read the group of the dashboard.
  \<open>boardPureGet\<close>, which has no authentication, answers with the row of the identifier asked for,
  whoever asks, public or not, but without its configuration (which is no column of the row). So the
  configuration of a dashboard that is not public is shown to those who may read its group only.\<close>

theorem board_read_guarded:
  assumes "\<not> hc_ProxyAuth_Enable (cr_http R)" and "\<forall>x \<in> set (ce_board s). bo_Configs x = ''''"
  shows "(\<forall>bid b s'. boardGet R same rq bid empty_ctx s = (Inr (Data b), s') \<longrightarrow>
      (\<exists>x \<in> set (ce_board s). (same (bo_Id x) bid \<or> bo_Ident x = bid) \<and> bo_Id b = bo_Id x \<and> bo_GroupId b = bo_GroupId x \<and> bo_Public b = bo_Public x) \<and>
      (bo_Public b = 0 \<longrightarrow> reads_group R rq s (bo_GroupId b))) \<and>
    (\<forall>b s'. boardPureGet rq s = (Inr (Data b), s') \<longrightarrow>
      b \<in> set (ce_board s) \<and> rq_int rq ''bid'' = Inr (bo_Id b) \<and> bo_Configs b = '''')"
  using boardGet_guarded [OF assms(1)] boardPureGet_row assms(2) by blast

subsection \<open>A small instance\<close>

definition sample_board :: Board where
  "sample_board = \<lparr>bo_Id = 60, bo_GroupId = 9, bo_Name = ''net'', bo_Ident = ''n'', bo_Tags = '''', bo_CreateAt = 0, bo_CreateBy = '''', bo_UpdateAt = 0,
     bo_UpdateBy = '''', bo_Configs = '''', bo_Public = 0, bo_BuiltIn = 0, bo_Hide = 0\<rparr>"

text \<open>A board of the group 5 of the user, and one of the group 9.\<close>

definition sample_boards :: center where
  "sample_boards = (sample_center ''u'' [(''/jwt/u'', (''7-bob'', None))])\<lparr>
     ce_board := [sample_board, sample_board\<lparr>bo_Id := 61, bo_GroupId := 5, bo_Ident := ''h''\<rparr>], ce_board_payload := [\<lparr>bp_Id = 60, bp_Payload = ''{}''\<rparr>],
     ce_role_operation := map (\<lambda>op. \<lparr>op_RoleName = ''Standard'', op_Operation = op\<rparr>) [''/dashboards/add'', ''/dashboards/del'', ''/dashboards/put'']\<rparr>"

definition sample_boardForm :: boardForm where
  "sample_boardForm = \<lparr>bf_Name = ''disk'', bf_Ident = ''d'', bf_Tags = '''', bf_Configs = ''[]'', bf_Public = 0\<rparr>"

definition sample_boards_after :: "board_call \<Rightarrow> (failure + unit reply) \<times> center" where
  "sample_boards_after call = serve_board sample_crouter (\<lambda>i t. Itoa i = t) (sample_request sample_token) call sample_boards"

lemma sample_boards_hyps:
  "\<not> hc_ProxyAuth_Enable (cr_http sample_crouter)" "boards_ok (ce_board sample_boards) (ce_board_payload sample_boards)" "positive_ids sample_boards"
  by (simp_all add: sample_crouter_def sample_conf_def boards_ok_def idents_unique_def positive_ids_def sample_boards_def sample_board_def sample_center_def)

theorem boards_consistent_witness:
  "map bo_Id (ce_board (snd (sample_boards_after (Boards_post sample_boardForm)))) = [60, 61, 109] \<and>
   boards_ok (ce_board (snd (sample_boards_after (Boards_post sample_boardForm)))) (ce_board_payload (snd (sample_boards_after (Boards_post sample_boardForm))))"
proof
  show "map bo_Id (ce_board (snd (sample_boards_after (Boards_post sample_boardForm)))) = [60, 61, 109]" by code_simp
  show "boards_ok (ce_board (snd (sample_boards_after (Boards_post sample_boardForm)))) (ce_board_payload (snd (sample_boards_after (Boards_post sample_boardForm))))"
    using boards_consistent [OF sample_boards_hyps, of "\<lambda>i t. Itoa i = t" "sample_request sample_token" "Boards_post sample_boardForm"
        "fst (sample_boards_after (Boards_post sample_boardForm))"] by (simp add: sample_boards_after_def)
qed

theorem boards_of_others_witness:
  "map bo_Id (ce_board (snd (sample_boards_after (Boards_delete [61])))) = [60] \<and>
   boards_outside (may_write sample_boards sample_user) (ce_board (snd (sample_boards_after (Boards_delete [61])))) =
     boards_outside (may_write sample_boards sample_user) (ce_board sample_boards)"
proof -
  have "map bo_Id (ce_board (snd (sample_boards_after (Boards_delete [61])))) = [60]" "map bo_Id (ce_board sample_boards) = [60, 61]"
    "user_with sample_boards 7 = Some sample_user" "session sample_crouter (sample_request sample_token) sample_boards = Some (7, ''bob'')"
    by code_simp+
  then show ?thesis
    using boards_of_others [OF sample_boards_hyps, of "Boards_delete [61]" "\<lambda>i t. Itoa i = t" "sample_request sample_token" "fst (sample_boards_after (Boards_delete [61]))"
        "snd (sample_boards_after (Boards_delete [61]))"]
    by (auto simp: sample_boards_after_def)
qed

theorem board_read_guarded_witness:
  "(case fst (boardGet sample_crouter (\<lambda>i t. Itoa i = t) (sample_request sample_token) ''61'' empty_ctx sample_boards) of
     Inr (Data b) \<Rightarrow> bo_Public b = 0 \<and> bo_GroupId b = 5 \<and> reads_group sample_crouter (sample_request sample_token) sample_boards 5 | _ \<Rightarrow> False) \<and>
   (case fst (boardPureGet ((sample_request '''')\<lparr>rq_int := (\<lambda>n. Inr 60)\<rparr>) sample_boards) of
     Inr (Data b) \<Rightarrow> bo_Id b = 60 \<and> bo_Configs b = '''' | _ \<Rightarrow> False)"
proof -
  let ?m = "boardGet sample_crouter (\<lambda>i t. Itoa i = t) (sample_request sample_token) ''61'' empty_ctx sample_boards"
  have shown: "case fst ?m of Inr (Data b) \<Rightarrow> bo_Public b = 0 \<and> bo_GroupId b = 5 | _ \<Rightarrow> False" by code_simp
  then obtain b where b: "fst ?m = Inr (Data b)" "bo_Public b = 0" "bo_GroupId b = 5" by (auto split: sum.splits reply.splits)
  have m: "?m = (Inr (Data b), snd ?m)" using b(1) by (metis prod.collapse)
  let ?rq = "(sample_request '''')\<lparr>rq_int := (\<lambda>n. Inr 60)\<rparr>"
  have "case fst (boardPureGet ?rq sample_boards) of Inr (Data b) \<Rightarrow> True | _ \<Rightarrow> False" by code_simp
  then obtain x where x: "fst (boardPureGet ?rq sample_boards) = Inr (Data x)" by (auto split: sum.splits reply.splits)
  then have p: "boardPureGet ?rq sample_boards = (Inr (Data x), snd (boardPureGet ?rq sample_boards))" by (metis prod.collapse)
  have c: "\<forall>x \<in> set (ce_board sample_boards). bo_Configs x = ''''" by (simp add: sample_boards_def sample_board_def)
  note G = board_read_guarded [OF sample_boards_hyps(1) c]
  have "reads_group sample_crouter (sample_request sample_token) sample_boards 5"
    using G [THEN conjunct1, rule_format, OF m] b by simp
  moreover have "bo_Id x = 60 \<and> bo_Configs x = ''''" using G [of _ ?rq, THEN conjunct2, rule_format, OF p] by simp
  ultimately show ?thesis using b x by simp
qed

text \<open>
  A user with the group 5 deletes none of the boards of the group 9, but clones them there.
\<close>

lemma boards_cloned:
  "map bo_GroupId (ce_board (snd (serve_board sample_crouter (\<lambda>i t. Itoa i = t) ((sample_request sample_token)\<lparr>rq_int := (\<lambda>n. Inr (if n = ''bid'' then 60 else 5))\<rparr>)
     Board_clone sample_boards))) = [9, 5, 9]"
  "map bo_Id (ce_board (snd (sample_boards_after (Boards_delete [60])))) = [60, 61]"
  by code_simp+

end
