(* ===== verification/Event_Pages.thy ===== *)
theory Event_Pages
  imports Rule_Tables "HOL-Library.Product_Lexorder"
begin

text \<open>
  The pages for current and past events and for the views that group them: the queries of
  \<open>models/alert_cur_event.go\<close> and \<open>alert_his_event.go\<close>, \<open>models/alert_aggr_view.go\<close>, and the handlers of
  \<open>center/router/router_alert_cur_event.go\<close>, \<open>router_alert_his_event.go\<close> and \<open>router_alert_aggr_view.go\<close> with
  their routes. The parameters of a request are the fields of \<open>event_query\<close>; the offset is the one that
  the library computes from the page and the limit. The order in which Go enumerates a map, and the
  one in which an unstable sort leaves equal elements, are arguments.
\<close>

subsection \<open>Teams of an event\<close>

fun fill_teams :: "string list \<Rightarrow> UserGroup list \<Rightarrow> (int, UserGroup) go_map \<Rightarrow> (UserGroup list \<times> (int, UserGroup) go_map) center_act" where
  "fill_teams [] objs cache = ret (objs, cache)"
| "fill_teams (g # gs) objs cache =
     (case ParseInt g of None \<Rightarrow> fill_teams gs objs cache
      | Some i \<Rightarrow>
         (case go_get cache i of Some ug \<Rightarrow> fill_teams gs (objs @ [ug]) cache
          | None \<Rightarrow> bind_act (attempt (UserGroupGetById i)) (\<lambda>r.
              case r of Inl e \<Rightarrow> ret (objs, cache)
              | Inr None \<Rightarrow> fill_teams gs objs cache
              | Inr (Some ug) \<Rightarrow> fill_teams gs (objs @ [ug]) (go_set i ug cache))))"

text \<open>The callers ignore the error; what was found before it is kept.\<close>

definition AlertCurEvent_FillNotifyGroups :: "AlertCurEvent \<Rightarrow> (int, UserGroup) go_map \<Rightarrow> (AlertCurEvent \<times> (int, UserGroup) go_map) center_act" where
  "AlertCurEvent_FillNotifyGroups e cache =
     (if length (ev_NotifyGroupsJSON e) = 0 then ret (e\<lparr>ev_NotifyGroupsObj := []\<rparr>, cache)
      else bind_act (fill_teams (ev_NotifyGroupsJSON e) (ev_NotifyGroupsObj e) cache) (\<lambda>(objs, cache1). ret (e\<lparr>ev_NotifyGroupsObj := objs\<rparr>, cache1)))"

definition AlertHisEvent_FillNotifyGroups :: "AlertHisEvent \<Rightarrow> (int, UserGroup) go_map \<Rightarrow> (AlertHisEvent \<times> (int, UserGroup) go_map) center_act" where
  "AlertHisEvent_FillNotifyGroups e cache =
     (if length (he_NotifyGroupsJSON e) = 0 then ret (e\<lparr>he_NotifyGroupsObj := []\<rparr>, cache)
      else bind_act (fill_teams (he_NotifyGroupsJSON e) (he_NotifyGroupsObj e) cache) (\<lambda>(objs, cache1). ret (e\<lparr>he_NotifyGroupsObj := objs\<rparr>, cache1)))"

text \<open>The loop over a list of events, with one cache.\<close>

fun fill_events :: "('e \<Rightarrow> (int, UserGroup) go_map \<Rightarrow> ('e \<times> (int, UserGroup) go_map) center_act) \<Rightarrow> 'e list \<Rightarrow> (int, UserGroup) go_map \<Rightarrow> 'e list center_act" where
  "fill_events f [] cache = ret []"
| "fill_events f (e # es) cache =
     bind_act (f e cache) (\<lambda>(e1, cache1). bind_act (fill_events f es cache1) (\<lambda>rest. ret (e1 # rest)))"

subsection \<open>Current events\<close>

text \<open>Every word of the query must occur in the name of the rule or in the tags.\<close>

definition words_like :: "center_lib \<Rightarrow> string \<Rightarrow> string \<Rightarrow> string \<Rightarrow> bool" where
  "words_like C q name tags \<longleftrightarrow>
     (q \<noteq> '''' \<longrightarrow> list_all (\<lambda>w. cl_like C name (contains_pattern w) \<or> cl_like C tags (contains_pattern w)) (Fields q))"

record event_filter =
  ef_prods :: "string list"
  ef_bgid :: int
  ef_stime :: int
  ef_etime :: int
  ef_severity :: int
  ef_recovered :: int
  ef_dsIds :: "int list"
  ef_cates :: "string list"
  ef_query :: string

definition cur_where :: "center_lib \<Rightarrow> event_filter \<Rightarrow> AlertCurEvent \<Rightarrow> bool" where
  "cur_where C f e \<longleftrightarrow>
     (ef_stime f \<noteq> 0 \<and> ef_etime f \<noteq> 0 \<longrightarrow> ef_stime f \<le> ev_TriggerTime e \<and> ev_TriggerTime e \<le> ef_etime f) \<and>
     (length (ef_prods f) \<noteq> 0 \<longrightarrow> ev_RuleProd e \<in> set (ef_prods f)) \<and>
     (ef_bgid f > 0 \<longrightarrow> ev_GroupId e = ef_bgid f) \<and>
     (ef_severity f \<ge> 0 \<longrightarrow> ev_Severity e = ef_severity f) \<and>
     (length (ef_dsIds f) > 0 \<longrightarrow> ev_DatasourceId e \<in> set (ef_dsIds f)) \<and>
     (length (ef_cates f) > 0 \<longrightarrow> ev_Cate e \<in> set (ef_cates f)) \<and>
     words_like C (ef_query f) (ev_RuleName e) (ev_Tags e)"

definition AlertCurEventTotal :: "center_lib \<Rightarrow> event_filter \<Rightarrow> int center_act" where
  "AlertCurEventTotal C f = Count ce_alert_cur_event (cur_where C f)"

definition AlertCurEventGets :: "center_lib \<Rightarrow> lib \<Rightarrow> event_filter \<Rightarrow> int \<Rightarrow> int \<Rightarrow> AlertCurEvent list center_act" where
  "AlertCurEventGets C L f limit offset =
     bind_act (query (\<lambda>s. limit_offset limit offset (newest_first ev_Id (filter (cur_where C f) (ce_alert_cur_event s))))) (\<lambda>lst.
     ret (map (AlertCurEvent_DB2FE L) lst))"

definition AlertCurEventDel :: "int list \<Rightarrow> unit center_act" where
  "AlertCurEventDel ids =
     (if length ids = 0 then ret ()
      else execute (\<lambda>s. s\<lparr>ce_alert_cur_event := filter (\<lambda>e. ev_Id e \<notin> set ids) (ce_alert_cur_event s)\<rparr>))"

definition AlertCurEventGet :: "lib \<Rightarrow> (AlertCurEvent \<Rightarrow> bool) \<Rightarrow> AlertCurEvent option center_act" where
  "AlertCurEventGet L p =
     bind_act (Find ce_alert_cur_event p) (\<lambda>lst.
     case first lst of None \<Rightarrow> ret None
     | Some e \<Rightarrow> bind_act (AlertCurEvent_FillNotifyGroups (AlertCurEvent_DB2FE L e) []) (\<lambda>(e1, cache). ret (Some e1)))"

definition AlertCurEventGetById :: "lib \<Rightarrow> int \<Rightarrow> AlertCurEvent option center_act" where
  "AlertCurEventGetById L i = AlertCurEventGet L (\<lambda>e. ev_Id e = i)"

fun set_counts :: "(int \<times> int) list \<Rightarrow> (int, int) go_map \<Rightarrow> (int, int) go_map" where
  "set_counts [] m = m"
| "set_counts ((g, n) # arr) m = set_counts arr (go_set g n m)"

text \<open>The number of events per group, for the groups that have any.\<close>

definition AlertNumbers :: "int list \<Rightarrow> (int, int) go_map center_act" where
  "AlertNumbers bgids =
     (if length bgids = 0 then ret []
      else bind_act (query (\<lambda>s. map (\<lambda>g. (g, int (length (filter (\<lambda>e. ev_GroupId e = g) (ce_alert_cur_event s)))))
             (remdups (filter (\<lambda>g. g \<in> set bgids) (map ev_GroupId (ce_alert_cur_event s)))))) (\<lambda>arr.
           ret (set_counts arr [])))"

definition AlertCurEventGetByIds :: "lib \<Rightarrow> int list \<Rightarrow> AlertCurEvent list center_act" where
  "AlertCurEventGetByIds L ids =
     (if length ids = 0 then ret []
      else bind_act (query (\<lambda>s. newest_first ev_Id (filter (\<lambda>e. ev_Id e \<in> set ids) (ce_alert_cur_event s)))) (\<lambda>lst.
           ret (map (AlertCurEvent_DB2FE L) lst)))"

text \<open>Outside the center the events come from its service interface, \<open>fetch\<close>.\<close>

definition AlertCurEventGetByRuleIdAndDsId :: "center_lib \<Rightarrow> lib \<Rightarrow> (string \<Rightarrow> string + AlertCurEvent list) \<Rightarrow> int \<Rightarrow> int \<Rightarrow> AlertCurEvent list center_act" where
  "AlertCurEventGetByRuleIdAndDsId C L fetch ruleId datasourceId =
     (if \<not> cl_IsCenter C then
        bind_act (remote (fetch (''/v1/n9e/alert-cur-events-get-by-rid?rid='' @ Itoa ruleId @ ''&dsid='' @ Itoa datasourceId))) (\<lambda>lst.
        ret (map (AlertCurEvent_FE2DB L) lst))
      else bind_act (Find ce_alert_cur_event (\<lambda>e. ev_RuleId e = ruleId \<and> ev_DatasourceId e = datasourceId)) (\<lambda>lst.
        ret (map (AlertCurEvent_DB2FE L) lst)))"

fun add_hash :: "AlertCurEvent list \<Rightarrow> (int, string set) go_map \<Rightarrow> (int, string set) go_map" where
  "add_hash [] m = m"
| "add_hash (e # es) m =
     add_hash es (case go_get m (ev_RuleId e) of
       Some hs \<Rightarrow> go_set (ev_RuleId e) (insert (ev_Hash e) hs) m
     | None \<Rightarrow> go_set (ev_RuleId e) {ev_Hash e} m)"

definition AlertCurEventGetMap :: "(int \<Rightarrow> string \<Rightarrow> bool) \<Rightarrow> string \<Rightarrow> (int, string set) go_map center_act" where
  "AlertCurEventGetMap same cluster =
     bind_act (Find ce_alert_cur_event (\<lambda>e. cluster \<noteq> '''' \<longrightarrow> same (ev_DatasourceId e) cluster)) (\<lambda>lst. ret (add_hash lst []))"

subsection \<open>Past events\<close>

definition AlertHisEvent_DB2FE :: "lib \<Rightarrow> AlertHisEvent \<Rightarrow> AlertHisEvent" where
  "AlertHisEvent_DB2FE L e = e\<lparr>
     he_NotifyChannelsJSON := Fields (he_NotifyChannels e),
     he_NotifyGroupsJSON := Fields (he_NotifyGroups e),
     he_CallbacksJSON := Fields (he_Callbacks e),
     he_TagsJSON := Split (he_Tags e) '',,'',
     he_AnnotationsJSON := lib_unmarshal_strmap L (he_Annotations e) (he_AnnotationsJSON e),
     he_RuleConfigJson := lib_unmarshal L (he_RuleConfig e) (he_RuleConfigJson e)\<rparr>"

definition his_where :: "center_lib \<Rightarrow> event_filter \<Rightarrow> AlertHisEvent \<Rightarrow> bool" where
  "his_where C f e \<longleftrightarrow>
     ef_stime f \<le> he_LastEvalTime e \<and> he_LastEvalTime e \<le> ef_etime f \<and>
     (length (ef_prods f) > 0 \<longrightarrow> he_RuleProd e \<in> set (ef_prods f)) \<and>
     (ef_bgid f > 0 \<longrightarrow> he_GroupId e = ef_bgid f) \<and>
     (ef_severity f \<ge> 0 \<longrightarrow> he_Severity e = ef_severity f) \<and>
     (ef_recovered f \<ge> 0 \<longrightarrow> he_IsRecovered e = ef_recovered f) \<and>
     (length (ef_dsIds f) > 0 \<longrightarrow> he_DatasourceId e \<in> set (ef_dsIds f)) \<and>
     (length (ef_cates f) > 0 \<longrightarrow> he_Cate e \<in> set (ef_cates f)) \<and>
     words_like C (ef_query f) (he_RuleName e) (he_Tags e)"

definition AlertHisEventTotal :: "center_lib \<Rightarrow> event_filter \<Rightarrow> int center_act" where
  "AlertHisEventTotal C f = Count ce_alert_his_event (his_where C f)"

definition AlertHisEventGets :: "center_lib \<Rightarrow> lib \<Rightarrow> event_filter \<Rightarrow> int \<Rightarrow> int \<Rightarrow> AlertHisEvent list center_act" where
  "AlertHisEventGets C L f limit offset =
     bind_act (query (\<lambda>s. limit_offset limit offset (newest_first he_Id (filter (his_where C f) (ce_alert_his_event s))))) (\<lambda>lst.
     ret (map (AlertHisEvent_DB2FE L) lst))"

definition AlertHisEventGet :: "lib \<Rightarrow> (AlertHisEvent \<Rightarrow> bool) \<Rightarrow> AlertHisEvent option center_act" where
  "AlertHisEventGet L p =
     bind_act (Find ce_alert_his_event p) (\<lambda>lst.
     case first lst of None \<Rightarrow> ret None
     | Some e \<Rightarrow> bind_act (AlertHisEvent_FillNotifyGroups (AlertHisEvent_DB2FE L e) []) (\<lambda>(e1, cache). ret (Some e1)))"

definition AlertHisEventGetById :: "lib \<Rightarrow> int \<Rightarrow> AlertHisEvent option center_act" where
  "AlertHisEventGetById L i = AlertHisEventGet L (\<lambda>e. he_Id e = i)"

subsection \<open>Views\<close>

definition validFields :: "string list" where
  "validFields = [''cluster'', ''group_id'', ''group_name'', ''rule_id'', ''rule_name'', ''severity'', ''runbook_url'', ''target_ident'', ''target_note'']"

fun rule_error :: "string list \<Rightarrow> string option" where
  "rule_error [] = None"
| "rule_error (a # arr) =
     (let pair = Split a '':'' in
      if length pair \<noteq> 2 then Some ''rule invalid''
      else if \<not> (pair ! 0 = ''field'' \<or> pair ! 0 = ''tagkey'') then Some ''rule invalid''
      else if pair ! 0 = ''field'' \<and> pair ! 1 \<notin> set validFields then Some (''unsupported field: '' @ pair ! 1)
      else rule_error arr)"

definition AlertAggrView_Verify :: "AlertAggrView \<Rightarrow> string + AlertAggrView" where
  "AlertAggrView_Verify v0 =
     (let v = v0\<lparr>av_Name := TrimSpace (av_Name v0)\<rparr> in
      if av_Name v = '''' then Inl ''name is blank''
      else let v1 = v\<lparr>av_Rule := TrimSpace (av_Rule v)\<rparr> in
        if av_Rule v1 = '''' then Inl ''rule is blank''
        else case rule_error (Split (av_Rule v1) ''::'') of Some e \<Rightarrow> Inl e | None \<Rightarrow> Inr v1)"

definition AlertAggrView_Add :: "AlertAggrView \<Rightarrow> AlertAggrView center_act" where
  "AlertAggrView_Add v0 =
     bind_act (checked (AlertAggrView_Verify v0)) (\<lambda>v.
     bind_act Now_Unix (\<lambda>now.
     let v1 = v\<lparr>av_CreateAt := now, av_UpdateAt := now, av_Cate := 1\<rparr> in
     statement (\<lambda>a s.
       let i = (if av_Id v1 = 0 then an_id a else av_Id v1) in
       if i \<in> set (map av_Id (ce_alert_aggr_view s)) then (Inl (Err ''Duplicate entry for key PRIMARY''), s)
       else (Inr (v1\<lparr>av_Id := i\<rparr>), s\<lparr>ce_alert_aggr_view := ce_alert_aggr_view s @ [v1\<lparr>av_Id := i\<rparr>]\<rparr>))))"

definition AlertAggrView_Update :: "AlertAggrView \<Rightarrow> unit center_act" where
  "AlertAggrView_Update v0 =
     bind_act (checked (AlertAggrView_Verify v0)) (\<lambda>v.
     bind_act Now_Unix (\<lambda>now.
     if av_Id v = 0 then stop (Err ''WHERE conditions required'')
     else execute (\<lambda>s. s\<lparr>ce_alert_aggr_view := update_where (\<lambda>r. av_Id r = av_Id v)
       (\<lambda>r. r\<lparr>av_Name := av_Name v, av_Rule := av_Rule v, av_Cate := av_Cate v, av_UpdateAt := now, av_CreateBy := av_CreateBy v\<rparr>) (ce_alert_aggr_view s)\<rparr>)))"

text \<open>The optional argument \<open>createBy\<close> is a list; only its elements are compared.\<close>

definition AlertAggrViewDel :: "int list \<Rightarrow> int list \<Rightarrow> unit center_act" where
  "AlertAggrViewDel ids createBy =
     (if length ids = 0 then ret ()
      else if length createBy > 0 then
        execute (\<lambda>s. s\<lparr>ce_alert_aggr_view := filter (\<lambda>v. \<not> (av_Id v \<in> set ids \<and> av_CreateBy v \<in> set createBy)) (ce_alert_aggr_view s)\<rparr>)
      else execute (\<lambda>s. s\<lparr>ce_alert_aggr_view := filter (\<lambda>v. av_Id v \<notin> set ids) (ce_alert_aggr_view s)\<rparr>))"

definition AlertAggrViewGets :: "(AlertAggrView list \<Rightarrow> AlertAggrView list) \<Rightarrow> int \<Rightarrow> AlertAggrView list center_act" where
  "AlertAggrViewGets ord createBy =
     bind_act (Find ce_alert_aggr_view (\<lambda>v. av_CreateBy v = createBy \<or> av_Cate v = 0)) (\<lambda>lst.
     ret (if length lst > 1 then sort_key (\<lambda>v. (av_Cate v, av_Name v)) (ord lst) else lst))"

definition AlertAggrViewGet :: "(AlertAggrView \<Rightarrow> bool) \<Rightarrow> AlertAggrView option center_act" where
  "AlertAggrViewGet p = bind_act (Find ce_alert_aggr_view p) (\<lambda>lst. ret (first lst))"

subsection \<open>Parameters of a request\<close>

record event_query =
  eq_stime :: int
  eq_etime :: int
  eq_hours :: int
  eq_severity :: int
  eq_is_recovered :: int
  eq_query :: string
  eq_limit :: int
  eq_offset :: int
  eq_bgid :: int
  eq_datasource_ids :: string
  eq_prods :: string
  eq_rule_prods :: string
  eq_cate :: string
  eq_rule :: string

definition queryDatasourceIds :: "event_query \<Rightarrow> int list" where
  "queryDatasourceIds q = map parse_id (Fields (ReplaceAll (eq_datasource_ids q) '','' '' ''))"

definition time_range :: "event_query \<Rightarrow> int \<Rightarrow> int \<times> int" where
  "time_range q now =
     (let (stime, etime) = (if eq_hours q \<noteq> 0 then (wrap64 (now - 3600 * eq_hours q), now + 3600 * 24) else (eq_stime q, eq_etime q))
      in (stime, if stime \<noteq> 0 \<and> etime = 0 then now + 3600 * 24 else etime))"

definition getTimeRange :: "event_query \<Rightarrow> (int \<times> int) center_act" where
  "getTimeRange q = bind_act Now_Unix (\<lambda>now. ret (time_range q now))"

definition query_prods :: "event_query \<Rightarrow> string list" where
  "query_prods q =
     (let prod = (if eq_prods q = '''' then eq_rule_prods q else eq_prods q)
      in if prod \<noteq> '''' then Split prod '','' else [])"

definition query_cates :: "event_query \<Rightarrow> string list" where
  "query_cates q = (if eq_cate q \<noteq> ''$all'' then Split (eq_cate q) '','' else [])"

definition query_filter :: "event_query \<Rightarrow> int \<Rightarrow> int \<Rightarrow> event_filter" where
  "query_filter q stime etime = \<lparr>ef_prods = query_prods q, ef_bgid = eq_bgid q, ef_stime = stime, ef_etime = etime, ef_severity = eq_severity q,
     ef_recovered = eq_is_recovered q, ef_dsIds = queryDatasourceIds q, ef_cates = query_cates q, ef_query = eq_query q\<rparr>"

fun parse_rules :: "string list \<Rightarrow> AggrRule list center_act" where
  "parse_rules [] = ret []"
| "parse_rules (a # arr) =
     (let pair = Split a '':'' in
      if length pair \<noteq> 2 then stop (Bomb 400 ''rule invalid'')
      else if \<not> (pair ! 0 = ''field'' \<or> pair ! 0 = ''tagkey'') then stop (Bomb 400 ''rule invalid'')
      else bind_act (parse_rules arr) (\<lambda>rules. ret (\<lparr>ag_Type = pair ! 0, ag_Value = pair ! 1\<rparr> # rules)))"

definition parseAggrRules :: "string \<Rightarrow> AggrRule list center_act" where
  "parseAggrRules rule =
     (let aggrRules = Split rule ''::'' in
      if length aggrRules = 0 then stop (Bomb 400 ''rule empty'') else parse_rules aggrRules)"

subsection \<open>Cards\<close>

record AlertCard =
  ac_Title :: string
  ac_Total :: int
  ac_EventIds :: "int list"
  ac_Severity :: int

definition add_card :: "AggrRule list \<Rightarrow> AlertCurEvent \<Rightarrow> (string, AlertCard) go_map \<Rightarrow> (string, AlertCard) go_map" where
  "add_card rules event cardmap =
     (let title = GenCardTitle event rules in
      case go_get cardmap title of
        Some c \<Rightarrow> go_set title (c\<lparr>ac_Total := ac_Total c + 1, ac_EventIds := ac_EventIds c @ [ev_Id event],
          ac_Severity := (if ev_Severity event < ac_Severity c then ev_Severity event else ac_Severity c)\<rparr>) cardmap
      | None \<Rightarrow> go_set title \<lparr>ac_Title = title, ac_Total = 1, ac_EventIds = [ev_Id event], ac_Severity = ev_Severity event\<rparr> cardmap)"

definition card_map :: "AggrRule list \<Rightarrow> AlertCurEvent list \<Rightarrow> (string, AlertCard) go_map" where
  "card_map rules events = fold (add_card rules) events []"

text \<open>The titles are the keys of the map, so every look-up succeeds.\<close>

definition cards_of :: "string range_order \<Rightarrow> AggrRule list \<Rightarrow> AlertCurEvent list \<Rightarrow> AlertCard list" where
  "cards_of ord rules events =
     (let cardmap = card_map rules events; titles = sort (ord (go_keys cardmap)) in
      sort_key (\<lambda>c. (ac_Severity c, - ac_Total c)) (List.map_filter (go_get cardmap) titles))"

definition alertCurEventsCard :: "center_router \<Rightarrow> lib \<Rightarrow> string range_order \<Rightarrow> event_query \<Rightarrow> AlertCard list reply center_act" where
  "alertCurEventsCard R L ord q =
     bind_act (getTimeRange q) (\<lambda>(stime, etime).
     bind_act (parseAggrRules (eq_rule q)) (\<lambda>rules.
     bind_act (dangerous (AlertCurEventGets (cr_lib R) L (query_filter q stime etime) 50000 0)) (\<lambda>lst.
     ret (Data (cards_of ord rules lst)))))"

subsection \<open>Handlers\<close>

definition alertCurEventsCardDetails :: "lib \<Rightarrow> int list \<Rightarrow> AlertCurEvent list reply center_act" where
  "alertCurEventsCardDetails L ids =
     bind_act (attempt (AlertCurEventGetByIds L ids)) (\<lambda>r.
     case r of Inl e \<Rightarrow> ret (Message 200 e)
     | Inr lst \<Rightarrow> bind_act (fill_events AlertCurEvent_FillNotifyGroups lst []) (\<lambda>lst1. ret (Data lst1)))"

definition alertCurEventsGetByRid :: "center_router \<Rightarrow> lib \<Rightarrow> (string \<Rightarrow> string + AlertCurEvent list) \<Rightarrow> int \<Rightarrow> int \<Rightarrow> AlertCurEvent list reply center_act" where
  "alertCurEventsGetByRid R L fetch rid dsId = render_data (AlertCurEventGetByRuleIdAndDsId (cr_lib R) L fetch rid dsId)"

definition alertCurEventsList :: "center_router \<Rightarrow> lib \<Rightarrow> event_query \<Rightarrow> (AlertCurEvent list \<times> int) reply center_act" where
  "alertCurEventsList R L q =
     bind_act (getTimeRange q) (\<lambda>(stime, etime).
     bind_act (dangerous (AlertCurEventTotal (cr_lib R) (query_filter q stime etime))) (\<lambda>total.
     bind_act (dangerous (AlertCurEventGets (cr_lib R) L (query_filter q stime etime) (eq_limit q) (eq_offset q))) (\<lambda>lst.
     bind_act (fill_events AlertCurEvent_FillNotifyGroups lst []) (\<lambda>lst1. ret (Data (lst1, total))))))"

text \<open>An identifier without an event makes the handler dereference a nil pointer.\<close>

fun check_events :: "lib \<Rightarrow> int list \<Rightarrow> int set \<Rightarrow> gin_ctx \<Rightarrow> gin_ctx center_act" where
  "check_events L [] done1 c = ret c"
| "check_events L (i # ids) done1 c =
     bind_act (dangerous (AlertCurEventGetById L i)) (\<lambda>event.
     case event of None \<Rightarrow> stop (Crash Nil_dereference)
     | Some e \<Rightarrow>
        if ev_GroupId e \<in> done1 then check_events L ids done1 c
        else bind_act (bgrwCheck (ev_GroupId e) c) (\<lambda>c1. check_events L ids (insert (ev_GroupId e) done1) c1))"

definition checkCurEventBusiGroupRWPermission :: "lib \<Rightarrow> int list \<Rightarrow> gin_ctx \<Rightarrow> gin_ctx center_act" where
  "checkCurEventBusiGroupRWPermission L ids c = check_events L ids {0} c"

definition alertCurEventDel :: "lib \<Rightarrow> int list \<Rightarrow> gin_ctx \<Rightarrow> unit reply center_act" where
  "alertCurEventDel L ids c =
     bind_act (if length ids = 0 then stop (Bomb 400 ''ids empty'') else ret ()) (\<lambda>_.
     bind_act (checkCurEventBusiGroupRWPermission L ids c) (\<lambda>_. render_message (AlertCurEventDel ids)))"

definition alertCurEventGet :: "lib \<Rightarrow> request \<Rightarrow> AlertCurEvent reply center_act" where
  "alertCurEventGet L rq =
     bind_act (UrlParamInt64 rq ''eid'') (\<lambda>eid.
     bind_act (dangerous (AlertCurEventGetById L eid)) (\<lambda>event.
     case event of None \<Rightarrow> stop (Bomb 404 ''No such active event'') | Some e \<Rightarrow> ret (Data e)))"

definition alertHisEventsList :: "center_router \<Rightarrow> lib \<Rightarrow> event_query \<Rightarrow> (AlertHisEvent list \<times> int) reply center_act" where
  "alertHisEventsList R L q =
     bind_act (getTimeRange q) (\<lambda>(stime, etime).
     bind_act (dangerous (AlertHisEventTotal (cr_lib R) (query_filter q stime etime))) (\<lambda>total.
     bind_act (dangerous (AlertHisEventGets (cr_lib R) L (query_filter q stime etime) (eq_limit q) (eq_offset q))) (\<lambda>lst.
     bind_act (fill_events AlertHisEvent_FillNotifyGroups lst []) (\<lambda>lst1. ret (Data (lst1, total))))))"

definition alertHisEventGet :: "lib \<Rightarrow> request \<Rightarrow> AlertHisEvent reply center_act" where
  "alertHisEventGet L rq =
     bind_act (UrlParamInt64 rq ''eid'') (\<lambda>eid.
     bind_act (dangerous (AlertHisEventGetById L eid)) (\<lambda>event.
     case event of None \<Rightarrow> stop (Bomb 404 ''No such alert event'') | Some e \<Rightarrow> ret (Data e)))"

definition alertAggrViewGets :: "(AlertAggrView list \<Rightarrow> AlertAggrView list) \<Rightarrow> gin_ctx \<Rightarrow> AlertAggrView list reply center_act" where
  "alertAggrViewGets ord c = bind_act (must_get ''userid'' (gc_userid c)) (\<lambda>userid. render_data (AlertAggrViewGets ord userid))"

definition alertAggrViewAdd :: "AlertAggrView \<Rightarrow> gin_ctx \<Rightarrow> AlertAggrView reply center_act" where
  "alertAggrViewAdd f c =
     bind_act (must_get ''user'' (gc_user c)) (\<lambda>me.
     let f1 = (if \<not> IsAdmin me then f\<lparr>av_Cate := 1\<rparr> else f) in
     bind_act (dangerous (AlertAggrView_Add (f1\<lparr>av_Id := 0, av_CreateBy := us_Id me\<rparr>))) (\<lambda>f2. ret (Data f2)))"

definition alertAggrViewDel :: "int list \<Rightarrow> gin_ctx \<Rightarrow> unit reply center_act" where
  "alertAggrViewDel ids c =
     bind_act (if length ids = 0 then stop (Bomb 400 ''ids empty'') else ret ()) (\<lambda>_.
     bind_act (must_get ''user'' (gc_user c)) (\<lambda>me.
     if IsAdmin me then render_message (AlertAggrViewDel ids []) else render_message (AlertAggrViewDel ids [us_Id me])))"

definition alertAggrViewPut :: "AlertAggrView \<Rightarrow> gin_ctx \<Rightarrow> unit reply center_act" where
  "alertAggrViewPut f c =
     bind_act (dangerous (AlertAggrViewGet (\<lambda>v. av_Id v = av_Id f))) (\<lambda>r.
     case r of None \<Rightarrow> ret (Message 200 (''no such item(id: '' @ Itoa (av_Id f) @ '')''))
     | Some view \<Rightarrow>
        bind_act (must_get ''user'' (gc_user c)) (\<lambda>me.
        if \<not> IsAdmin me \<and> av_CreateBy view \<noteq> us_Id me then ret (Message 403 ''forbidden'')
        else let cate = (if \<not> IsAdmin me then 1 else av_Cate f);
                 by1 = (if av_CreateBy view = 0 then us_Id me else av_CreateBy view)
             in render_message (AlertAggrView_Update (view\<lparr>av_Name := av_Name f, av_Rule := av_Rule f, av_Cate := cate, av_CreateBy := by1\<rparr>))))"

subsection \<open>Routes\<close>

datatype event_call = Cur_event_get | His_event_get | Cur_events_list event_query | Cur_events_card event_query | Cur_events_details "int list"
  | His_events_list event_query | Cur_events_delete "int list" | Views_get | Views_delete "int list" | Views_post AlertAggrView | Views_put AlertAggrView

text \<open>\<open>AlertDetail\<close> is the setting that shows single events without a session.\<close>

record event_env =
  ee_lib :: lib
  ee_titles :: "string range_order"
  ee_views :: "AlertAggrView list \<Rightarrow> AlertAggrView list"
  ee_AlertDetail :: bool

fun event_route :: "center_router \<Rightarrow> event_env \<Rightarrow> request \<Rightarrow> event_call \<Rightarrow> guard list option \<times> (gin_ctx \<Rightarrow> unit reply center_act)" where
  "event_route R E rq Cur_event_get = (if ee_AlertDetail E then None else Some [], (\<lambda>c. answered (alertCurEventGet (ee_lib E) rq)))"
| "event_route R E rq His_event_get = (if ee_AlertDetail E then None else Some [], (\<lambda>c. answered (alertHisEventGet (ee_lib E) rq)))"
| "event_route R E rq (Cur_events_list q) = (Some [], (\<lambda>c. answered (alertCurEventsList R (ee_lib E) q)))"
| "event_route R E rq (Cur_events_card q) = (Some [], (\<lambda>c. answered (alertCurEventsCard R (ee_lib E) (ee_titles E) q)))"
| "event_route R E rq (Cur_events_details ids) = (Some [], (\<lambda>c. answered (alertCurEventsCardDetails (ee_lib E) ids)))"
| "event_route R E rq (His_events_list q) = (Some [], (\<lambda>c. answered (alertHisEventsList R (ee_lib E) q)))"
| "event_route R E rq (Cur_events_delete ids) = (Some [Mw_user, Mw_perm ''/alert-cur-events/del''], alertCurEventDel (ee_lib E) ids)"
| "event_route R E rq Views_get = (Some [], (\<lambda>c. answered (alertAggrViewGets (ee_views E) c)))"
| "event_route R E rq (Views_delete ids) = (Some [Mw_user], alertAggrViewDel ids)"
| "event_route R E rq (Views_post v) = (Some [Mw_user], (\<lambda>c. answered (alertAggrViewAdd v c)))"
| "event_route R E rq (Views_put v) = (Some [Mw_user], alertAggrViewPut v)"

definition serve_event :: "center_router \<Rightarrow> event_env \<Rightarrow> request \<Rightarrow> event_call \<Rightarrow> unit reply center_act" where
  "serve_event R E rq call =
     (case event_route R E rq call of (None, handler) \<Rightarrow> handler empty_ctx
      | (Some guards, handler) \<Rightarrow> chain (auth R rq # map (mw rq) guards) handler)"

end
