(* ===== verification/Event_Spec.thy ===== *)
theory Event_Spec
  imports Board_Spec Event_Pages Rule_Samples
begin

text \<open>
  What the pages for events guarantee: the cards are the groups of the selected events, whatever the
  order in which the map is enumerated; only events of groups the user may write are deleted; the
  views of other users do not change, and every stored view has a rule that the page accepts.
\<close>

subsection \<open>Cards\<close>

definition card_for :: "AggrRule list \<Rightarrow> AlertCurEvent list \<Rightarrow> string \<Rightarrow> AlertCard" where
  "card_for rules es t =
     (let g = filter (\<lambda>e. GenCardTitle e rules = t) es
      in \<lparr>ac_Title = t, ac_Total = int (length g), ac_EventIds = map ev_Id g, ac_Severity = Min (ev_Severity ` set g)\<rparr>)"

definition card_spec :: "AggrRule list \<Rightarrow> AlertCurEvent list \<Rightarrow> AlertCard list" where
  "card_spec rules es =
     sort_key (\<lambda>c. (ac_Severity c, - ac_Total c)) (map (card_for rules es) (sorted_list_of_set ((\<lambda>e. GenCardTitle e rules) ` set es)))"

lemma card_map_snoc: "card_map rules (es @ [e]) = add_card rules e (card_map rules es)"
  by (simp add: card_map_def)

lemma card_for_other: "GenCardTitle e rules \<noteq> t \<Longrightarrow> card_for rules (es @ [e]) t = card_for rules es t"
  by (simp add: card_for_def)

lemma card_for_new: "\<forall>x \<in> set es. GenCardTitle x rules \<noteq> GenCardTitle e rules \<Longrightarrow>
   card_for rules (es @ [e]) (GenCardTitle e rules) =
     \<lparr>ac_Title = GenCardTitle e rules, ac_Total = 1, ac_EventIds = [ev_Id e], ac_Severity = ev_Severity e\<rparr>"
  by (simp add: card_for_def filter_empty_conv [THEN iffD2])

lemma card_for_more:
  assumes "x \<in> set es" "GenCardTitle x rules = GenCardTitle e rules"
  shows "card_for rules (es @ [e]) (GenCardTitle e rules) = (let c = card_for rules es (GenCardTitle e rules) in
    c\<lparr>ac_Total := ac_Total c + 1, ac_EventIds := ac_EventIds c @ [ev_Id e], ac_Severity := (if ev_Severity e < ac_Severity c then ev_Severity e else ac_Severity c)\<rparr>)"
proof -
  let ?g = "filter (\<lambda>y. GenCardTitle y rules = GenCardTitle e rules) es"
  have "ev_Severity ` set ?g \<noteq> {}" using assms by auto
  then have "Min (insert (ev_Severity e) (ev_Severity ` set ?g)) = min (ev_Severity e) (Min (ev_Severity ` set ?g))" by (intro Min_insert) simp_all
  then show ?thesis by (simp add: card_for_def Let_def min_def insert_commute not_less)
qed

lemma card_map_get:
  "go_get (card_map rules es) t = (if t \<in> (\<lambda>e. GenCardTitle e rules) ` set es then Some (card_for rules es t) else None)"
proof (induction es arbitrary: t rule: rev_induct)
  case Nil
  then show ?case by (simp add: card_map_def)
next
  case (snoc e es)
  let ?t = "GenCardTitle e rules"
  show ?case
  proof (cases "?t \<in> (\<lambda>e. GenCardTitle e rules) ` set es")
    case True
    then obtain x where "x \<in> set es" "GenCardTitle x rules = ?t" by auto
    then show ?thesis
      using True snoc.IH card_for_more [of x es rules e] card_for_other [of e rules t es]
      by (cases "t = ?t") (auto simp: card_map_snoc add_card_def Let_def update_conv')
  next
    case False
    then have "\<forall>x \<in> set es. GenCardTitle x rules \<noteq> ?t" unfolding image_iff by metis
    then show ?thesis
      using False snoc.IH card_for_new [of es rules e] card_for_other [of e rules t es]
      by (cases "t = ?t") (auto simp: card_map_snoc add_card_def Let_def update_conv')
  qed
qed

lemma card_map_keys: "distinct (go_keys (card_map rules es))" "set (go_keys (card_map rules es)) = (\<lambda>e. GenCardTitle e rules) ` set es"
proof -
  have "distinct (map fst (card_map rules es))"
    by (induction es rule: rev_induct) (auto simp: card_map_def add_card_def Let_def AList.distinct_update simp del: map_of_eq_Some_iff split: option.split)
  then show "distinct (go_keys (card_map rules es))" by (simp add: go_keys_def)
  have "set (go_keys (card_map rules es)) = dom (go_get (card_map rules es))" by (simp add: go_keys_def dom_map_of_conv_image_fst)
  then show "set (go_keys (card_map rules es)) = (\<lambda>e. GenCardTitle e rules) ` set es" by (auto simp: card_map_get split: if_splits)
qed

lemma cards_of_spec:
  assumes "fair_order ord"
  shows "cards_of ord rules es = card_spec rules es"
proof -
  let ?m = "card_map rules es" and ?T = "(\<lambda>e. GenCardTitle e rules) ` set es"
  have "sort (ord (go_keys ?m)) = sort (go_keys ?m)" by (rule properties_for_sort) (use assms in \<open>simp_all add: fair_order_def\<close>)
  also have "\<dots> = sorted_list_of_set (set (go_keys ?m))"
    using card_map_keys(1) [of rules es] sorted_list_of_set_sort_remdups [of "go_keys ?m"] by (simp add: distinct_remdups_id)
  finally have titles: "sort (ord (go_keys ?m)) = sorted_list_of_set ?T" unfolding card_map_keys(2) .
  have "List.map_filter (go_get ?m) ts = map (card_for rules es) ts" if "set ts \<subseteq> ?T" for ts
    using that by (induction ts) (simp_all add: card_map_get)
  then show ?thesis by (simp add: cards_of_def card_spec_def Let_def titles)
qed

text \<open>The cards divide the events.\<close>

lemma cards_partition: "mset (concat (map ac_EventIds (card_spec rules es))) = mset (map ev_Id es)"
proof -
  let ?T = "(\<lambda>e. GenCardTitle e rules) ` set es"
  have ids: "ac_EventIds (card_for rules es t) = map ev_Id (filter (\<lambda>e. GenCardTitle e rules = t) es)" for t by (simp add: card_for_def Let_def)
  have perm: "mset (concat (map f (sort_key k xs))) = mset (concat (map f xs))" for f :: "AlertCard \<Rightarrow> int list" and k :: "AlertCard \<Rightarrow> int \<times> int" and xs
    by (simp add: mset_concat flip: sum_mset_sum_list)
  have two: "mset (filter (\<lambda>e. GenCardTitle e rules = t) es) + mset (filter (\<lambda>e. GenCardTitle e rules \<in> A) es) =
      mset (filter (\<lambda>e. GenCardTitle e rules = t \<or> GenCardTitle e rules \<in> A) es)" if "t \<notin> A" for t A
    using that by (induction es) auto
  have "mset (concat (map (\<lambda>t. filter (\<lambda>e. GenCardTitle e rules = t) es) ts)) = mset (filter (\<lambda>e. GenCardTitle e rules \<in> set ts) es)" if "distinct ts" for ts
    using that by (induction ts) (simp_all add: two [unfolded mset_filter])
  from this [of "sorted_list_of_set ?T"]
  have "mset (concat (map (\<lambda>t. filter (\<lambda>e. GenCardTitle e rules = t) es) (sorted_list_of_set ?T))) = mset es"
    by (simp add: filter_True del: mset_concat)
  moreover have "concat (map ac_EventIds (map (card_for rules es) ts)) = map ev_Id (concat (map (\<lambda>t. filter (\<lambda>e. GenCardTitle e rules = t) es) ts))" for ts
    by (induction ts) (simp_all add: ids)
  ultimately show ?thesis unfolding card_spec_def perm by (simp only: mset_map)
qed

definition aggr_part :: "string \<Rightarrow> bool" where
  "aggr_part a \<longleftrightarrow> length (Split a '':'') = 2 \<and> Split a '':'' ! 0 \<in> {''field'', ''tagkey''}"

definition rules_of :: "string \<Rightarrow> AggrRule list" where
  "rules_of rule = map (\<lambda>a. \<lparr>ag_Type = Split a '':'' ! 0, ag_Value = Split a '':'' ! 1\<rparr>) (Split rule ''::'')"

lemma parse_rules_eq:
  "parse_rules arr = (if list_all aggr_part arr then ret (map (\<lambda>a. \<lparr>ag_Type = Split a '':'' ! 0, ag_Value = Split a '':'' ! 1\<rparr>) arr) else stop (Bomb 400 ''rule invalid''))"
  by (induction arr) (auto simp: aggr_part_def Let_def)

lemma Split_nonempty: "Split s sep \<noteq> []"
proof -
  have "split_acc sep acc k s \<noteq> []" for acc k by (induction sep acc k s rule: split_acc.induct) auto
  then show ?thesis by (simp add: Split_def)
qed

lemma parseAggrRules_eq:
  "parseAggrRules rule = (if list_all aggr_part (Split rule ''::'') then ret (rules_of rule) else stop (Bomb 400 ''rule invalid''))"
  using Split_nonempty [of rule "''::''"] by (simp add: parseAggrRules_def parse_rules_eq rules_of_def Let_def)

text \<open>The events the page shows: the newest 50000 of those that the parameters select.\<close>

definition selected_events :: "center_router \<Rightarrow> lib \<Rightarrow> event_query \<Rightarrow> int \<Rightarrow> center \<Rightarrow> AlertCurEvent list" where
  "selected_events R L q now s =
     map (AlertCurEvent_DB2FE L) (take 50000 (newest_first ev_Id
       (filter (cur_where (cr_lib R) (query_filter q (fst (time_range q now)) (snd (time_range q now)))) (ce_alert_cur_event s))))"

lemma sees_AlertCurEventGets:
  "sees (AlertCurEventGets C L f limit offset) (\<lambda>s. Inr (map (AlertCurEvent_DB2FE L) (limit_offset limit offset (newest_first ev_Id (filter (cur_where C f) (ce_alert_cur_event s))))))"
  unfolding AlertCurEventGets_def by (rule sees_eq, rule sees_bind [OF sees_query sees_ret]) (simp_all add: steady_def)

text \<open>C20. The page of cards, when no statement fails: a rule with a part that is not a field or a tag is
  refused; otherwise there is one card for every title that the selected events have, with the number
  and the identifiers of the events of that title and the most urgent of their severities, the most
  urgent cards first, of these the largest, of these by title. The order in which the map of cards is
  enumerated does not matter, every selected event is on exactly one card, and no table changes.\<close>

theorem event_cards:
  assumes "fair_order ord" and "calm s"
  shows "fst (alertCurEventsCard R L ord q s) =
      (if list_all aggr_part (Split (eq_rule q) ''::'')
       then Inr (Data (card_spec (rules_of (eq_rule q)) (selected_events R L q (an_now (ce_answers s (ce_step s))) s)))
       else Inl (Bomb 400 ''rule invalid'')) \<and>
    mset (concat (map ac_EventIds (card_spec (rules_of (eq_rule q)) (selected_events R L q (an_now (ce_answers s (ce_step s))) s)))) =
      mset (map ev_Id (selected_events R L q (an_now (ce_answers s (ce_step s))) s)) \<and>
    (\<exists>n. snd (alertCurEventsCard R L ord q s) = s\<lparr>ce_step := n\<rparr>)"
proof (intro conjI cards_partition)
  let ?now = "an_now (ce_answers s (ce_step s))" and ?s = "s\<lparr>ce_step := Suc (ce_step s)\<rparr>"
  let ?f = "query_filter q (fst (time_range q ?now)) (snd (time_range q ?now))"
  have run: "alertCurEventsCard R L ord q s = bind_act (parseAggrRules (eq_rule q)) (\<lambda>rules.
      bind_act (dangerous (AlertCurEventGets (cr_lib R) L ?f 50000 0)) (\<lambda>lst. ret (Data (cards_of ord rules lst)))) ?s"
    by (simp add: alertCurEventsCard_def getTimeRange_def Now_Unix_def case_prod_beta bind_step [of ask s, OF ask_apply])
  have page: "sees (bind_act (dangerous (AlertCurEventGets (cr_lib R) L ?f 50000 0)) (\<lambda>lst. ret (Data (cards_of ord rules lst))))
      (\<lambda>s1. Inr (Data (card_spec rules (selected_events R L q ?now s1))))" for rules
    by (rule sees_eq, rule sees_bind [OF sees_change_err [OF sees_AlertCurEventGets, where h = Danger, folded dangerous_def] sees_ret])
      (simp add: map_err_def cards_of_spec [OF assms(1)] selected_events_def limit_offset_def)
  from sees_outcome [OF page [of "rules_of (eq_rule q)"], of ?s] calm_later [OF assms(2), of "Suc (ce_step s)"]
  have ok: "fst (bind_act (dangerous (AlertCurEventGets (cr_lib R) L ?f 50000 0)) (\<lambda>lst. ret (Data (cards_of ord (rules_of (eq_rule q)) lst))) ?s) =
      Inr (Data (card_spec (rules_of (eq_rule q)) (selected_events R L q ?now s)))"
    and st: "\<exists>n. snd (bind_act (dangerous (AlertCurEventGets (cr_lib R) L ?f 50000 0)) (\<lambda>lst. ret (Data (cards_of ord (rules_of (eq_rule q)) lst))) ?s) = s\<lparr>ce_step := n\<rparr>"
    by (auto simp: selected_events_def)
  show "fst (alertCurEventsCard R L ord q s) = (if list_all aggr_part (Split (eq_rule q) ''::'')
       then Inr (Data (card_spec (rules_of (eq_rule q)) (selected_events R L q ?now s))) else Inl (Bomb 400 ''rule invalid''))"
    using ok by (simp add: run parseAggrRules_eq stop_def)
  show "\<exists>n. snd (alertCurEventsCard R L ord q s) = s\<lparr>ce_step := n\<rparr>"
    using st by (cases "list_all aggr_part (Split (eq_rule q) ''::'')") (auto simp: run parseAggrRules_eq stop_def)
qed

subsection \<open>Deleting events\<close>

lemma reads_fill_teams [sat_rules]: "reads (fill_teams gs objs cache)"
  by (induction gs objs cache rule: fill_teams.induct) (auto intro!: sat_rules split: option.split)

lemma reads_fills [sat_rules]: "reads (AlertCurEvent_FillNotifyGroups e cache)" "reads (AlertHisEvent_FillNotifyGroups h cache)"
  unfolding AlertCurEvent_FillNotifyGroups_def AlertHisEvent_FillNotifyGroups_def by (auto intro!: sat_rules)

lemma reads_fill_events [sat_rules]: "(\<And>e cache. reads (f e cache)) \<Longrightarrow> reads (fill_events f es cache)"
  by (induction f es cache rule: fill_events.induct) (auto intro!: sat_rules)

lemma reads_event_lookups [sat_rules]:
  "reads (AlertCurEventGet L p)" "reads (AlertCurEventGetById L i)" "reads (AlertHisEventGet L hp)" "reads (AlertHisEventGetById L i)"
  "reads (AlertCurEventTotal C f)" "reads (AlertCurEventGets C L f limit offset)" "reads (AlertHisEventTotal C f)" "reads (AlertHisEventGets C L f limit offset)"
  "reads (AlertCurEventGetByIds L ids)" "reads (AlertAggrViewGets ord u)" "reads (AlertAggrViewGet vp)" "reads (parseAggrRules rule)" "reads (getTimeRange q)"
  by (auto simp: AlertCurEventGet_def AlertCurEventGetById_def AlertHisEventGet_def AlertHisEventGetById_def AlertCurEventTotal_def AlertCurEventGets_def
      AlertHisEventTotal_def AlertHisEventGets_def AlertCurEventGetByIds_def AlertAggrViewGets_def AlertAggrViewGet_def parseAggrRules_eq getTimeRange_def
      intro!: sat_rules split: option.split)

text \<open>Filling in the teams keeps the identifier and the group.\<close>

lemma found_event:
  assumes "AlertCurEventGetById L i s = (Inr (Some e), t)"
  shows "\<exists>x \<in> set (ce_alert_cur_event s). ev_Id x = i \<and> ev_GroupId e = ev_GroupId x"
proof -
  obtain lst s1 where l: "Find ce_alert_cur_event (\<lambda>e. ev_Id e = i) s = (Inr lst, s1)"
    "(case first lst of None \<Rightarrow> ret None
     | Some e \<Rightarrow> bind_act (AlertCurEvent_FillNotifyGroups (AlertCurEvent_DB2FE L e) []) (\<lambda>(e1, cache). ret (Some e1))) s1 = (Inr (Some e), t)"
    using assms unfolding AlertCurEventGetById_def AlertCurEventGet_def bind_Inr_iff by blast
  have "sees (Find ce_alert_cur_event (\<lambda>e. ev_Id e = i)) (\<lambda>s. Inr (filter (\<lambda>e. ev_Id e = i) (ce_alert_cur_event s)))"
    unfolding Find_def by (rule sees_query) (simp add: steady_def)
  from seen [OF this l(1)] have lst: "lst = filter (\<lambda>e. ev_Id e = i) (ce_alert_cur_event s)" by simp
  obtain x where x: "first lst = Some x" using l(2) by (cases "first lst") (simp_all add: ret_def)
  have "ev_GroupId e = ev_GroupId x"
    using l(2) x by (auto simp: bind_Inr_iff AlertCurEvent_FillNotifyGroups_def AlertCurEvent_DB2FE_def ret_def split: if_splits)
  then show ?thesis using first_filter [OF x [unfolded lst]] by blast
qed

lemma check_events_ok:
  assumes "check_events L ids D c s = (Inr c', t)" and "gc_user c = Some (fill_roles u)"
  shows "\<forall>i \<in> set ids. \<exists>x \<in> set (ce_alert_cur_event s). ev_Id x = i \<and> (ev_GroupId x \<in> D \<or> may_write s u (ev_GroupId x))"
  using assms
proof (induction ids arbitrary: D c s)
  case Nil
  then show ?case by simp
next
  case (Cons i ids)
  obtain ev s1 where g: "AlertCurEventGetById L i s = (Inr ev, s1)"
    and rest: "(case ev of None \<Rightarrow> stop (Crash Nil_dereference)
     | Some e \<Rightarrow> if ev_GroupId e \<in> D then check_events L ids D c
        else bind_act (bgrwCheck (ev_GroupId e) c) (\<lambda>c1. check_events L ids (insert (ev_GroupId e) D) c1)) s1 = (Inr c', t)"
    using Cons.prems(1) unfolding check_events.simps bind_Inr_iff by (blast dest: dangerous_Inr)
  obtain e where e: "ev = Some e" using rest by (cases ev) (simp_all add: stop_def)
  obtain x where x: "x \<in> set (ce_alert_cur_event s)" "ev_Id x = i" "ev_GroupId e = ev_GroupId x" using found_event [OF g [unfolded e]] by blast
  obtain n where n: "s1 = s\<lparr>ce_step := n\<rparr>" using reads_state [OF reads_event_lookups(2) g] by blast
  have mw: "may_write (s\<lparr>ce_step := k\<rparr>) u j = may_write s u j" for k j by (simp add: may_write_def member_of_def)
  show ?case
  proof (cases "ev_GroupId e \<in> D")
    case True
    then have "check_events L ids D c s1 = (Inr c', t)" using rest e by simp
    from Cons.IH [OF this Cons.prems(2)] show ?thesis using x True unfolding n mw by auto
  next
    case False
    then obtain c1 s2 where b: "bgrwCheck (ev_GroupId e) c s1 = (Inr c1, s2)" and r: "check_events L ids (insert (ev_GroupId e) D) c1 s2 = (Inr c', t)"
      using rest e by (auto simp: bind_Inr_iff)
    from seen [OF sees_bgrwCheck [OF Cons.prems(2)] b] obtain bg where bg: "group_with s1 (ev_GroupId e) = Some bg" "may_group s1 u [''rw''] bg" "c1 = c\<lparr>gc_busi_group := Some bg\<rparr>"
      by (auto split: option.splits if_splits)
    obtain k where k: "s2 = s1\<lparr>ce_step := k\<rparr>" using reads_state [OF reads_bgrwCheck b] by blast
    have may: "may_write s u (ev_GroupId e)" using may_group_write [OF bg(1,2)] unfolding n mw .
    have "gc_user c1 = Some (fill_roles u)" using bg(3) Cons.prems(2) by simp
    from Cons.IH [OF r this] have "\<forall>i \<in> set ids. \<exists>x \<in> set (ce_alert_cur_event s). ev_Id x = i \<and> (ev_GroupId x \<in> insert (ev_GroupId e) D \<or> may_write s u (ev_GroupId x))"
      unfolding k n mw by (simp add: mw)
    then show ?thesis using x may by fastforce
  qed
qed

subsection \<open>Views\<close>

definition view_ok :: "AlertAggrView \<Rightarrow> bool" where
  "view_ok v \<longleftrightarrow> av_Name v \<noteq> '''' \<and> list_all aggr_part (Split (av_Rule v) ''::'')"

lemma rule_error_None: "rule_error arr = None \<Longrightarrow> list_all aggr_part arr"
  by (induction arr) (auto simp: aggr_part_def Let_def split: if_splits)

lemma AlertAggrView_Verify_row:
  assumes "AlertAggrView_Verify v0 = Inr v"
  shows "av_Id v = av_Id v0" "av_CreateBy v = av_CreateBy v0" "view_ok v"
  using assms by (auto simp: AlertAggrView_Verify_def Let_def view_ok_def dest: rule_error_None split: if_splits option.splits)

text \<open>The views that the user may change: an administrator all, another user the own ones.\<close>

definition may_view :: "User \<Rightarrow> int \<Rightarrow> bool" where
  "may_view u i \<longleftrightarrow> AdminRole \<in> roles_of u \<or> i = us_Id u"

definition views_outside :: "User \<Rightarrow> AlertAggrView list \<Rightarrow> AlertAggrView list" where
  "views_outside u vs = filter (\<lambda>v. \<not> may_view u (av_CreateBy v)) vs"

definition views_inv :: "User \<Rightarrow> AlertAggrView list \<Rightarrow> center \<Rightarrow> bool" where
  "views_inv u vs0 s \<longleftrightarrow> distinct (map av_Id (ce_alert_aggr_view s)) \<and> views_outside u (ce_alert_aggr_view s) = views_outside u vs0 \<and>
     (list_all view_ok vs0 \<longrightarrow> list_all view_ok (ce_alert_aggr_view s))"

interpretation vi: table_invariant "views_inv u vs0" for u vs0
  by unfold_locales (simp add: views_inv_def)

lemma keeps_view_add:
  assumes "may_view u (av_CreateBy v)"
  shows "preserves (views_inv u vs0) (AlertAggrView_Add v)"
proof (cases "AlertAggrView_Verify v")
  case (Inr v')
  show ?thesis
    unfolding AlertAggrView_Add_def Inr checked_def sum.case bind_ret Let_def
    by (rule preserves_bind [OF vi.preserves_reads [OF reads_lookups(1)]], rule vi.preserves_statement)
      (use assms AlertAggrView_Verify_row [OF Inr] in \<open>auto simp: views_inv_def views_outside_def view_ok_def\<close>)
qed (simp add: AlertAggrView_Add_def checked_def sat_rules)

lemma keeps_view_put:
  assumes "may_view u (av_CreateBy v)" "may_view u (av_CreateBy x)" "av_Id x = av_Id v"
  shows "vi.under u vs0 (\<lambda>s. x \<in> set (ce_alert_aggr_view s)) (AlertAggrView_Update v)"
proof (cases "AlertAggrView_Verify v")
  case (Inr v')
  have v': "av_Id v' = av_Id x" "may_view u (av_CreateBy v')" "view_ok v'" using AlertAggrView_Verify_row [OF Inr] assms by simp_all
  let ?f = "\<lambda>now r. r\<lparr>av_Name := av_Name v', av_Rule := av_Rule v', av_Cate := av_Cate v', av_UpdateAt := now, av_CreateBy := av_CreateBy v'\<rparr>"
  have "views_inv u vs0 (s\<lparr>ce_alert_aggr_view := update_where (\<lambda>r. av_Id r = av_Id v') (?f now) (ce_alert_aggr_view s)\<rparr>)"
    if s: "views_inv u vs0 s" and x: "x \<in> set (ce_alert_aggr_view s)" for s :: center and now
  proof -
    let ?vs = "ce_alert_aggr_view s"
    have one: "r = x" if "r \<in> set ?vs" "av_Id r = av_Id v'" for r
      using s x that v'(1) by (auto simp: views_inv_def distinct_map dest: inj_onD)
    have "map av_Id (update_where (\<lambda>r. av_Id r = av_Id v') (?f now) ?vs) = map av_Id ?vs" by (rule update_where_keys) simp
    moreover have "views_outside u (update_where (\<lambda>r. av_Id r = av_Id v') (?f now) ?vs) = views_outside u ?vs"
      unfolding views_outside_def by (rule outside_update) (use one v'(2) assms(2) in auto)
    moreover have "list_all view_ok ?vs \<Longrightarrow> list_all view_ok (update_where (\<lambda>r. av_Id r = av_Id v') (?f now) ?vs)"
      using v'(3) by (auto simp: list_all_iff set_update_where view_ok_def)
    ultimately show ?thesis using s by (simp add: views_inv_def)
  qed
  then show ?thesis
    unfolding AlertAggrView_Update_def Inr checked_def sum.case bind_ret
    by (intro vi.under_reads [OF reads_lookups(1)] vi.under_if vi.under_execute vi.under_ret) (auto simp: steady_def)
qed (simp add: AlertAggrView_Update_def checked_def vi.under_ret)

lemma keeps_view_del:
  assumes "createBy = [] \<longrightarrow> AdminRole \<in> roles_of u" "\<forall>i \<in> set createBy. may_view u i"
  shows "preserves (views_inv u vs0) (AlertAggrViewDel ids createBy)"
proof -
  have less: "views_inv u vs0 (s\<lparr>ce_alert_aggr_view := filter p (ce_alert_aggr_view s)\<rparr>)"
    if "views_inv u vs0 s" "\<And>v. \<not> may_view u (av_CreateBy v) \<Longrightarrow> p v" for s :: center and p
  proof -
    have "views_outside u (filter p (ce_alert_aggr_view s)) = views_outside u (ce_alert_aggr_view s)"
      unfolding views_outside_def filter_filter by (rule filter_cong) (use that(2) in auto)
    then show ?thesis using that(1) by (auto simp: views_inv_def distinct_map_filter list_all_iff)
  qed
  show ?thesis
    unfolding AlertAggrViewDel_def
    by (intro preserves_if preserves_ret vi.preserves_execute less) (use assms in \<open>auto simp: may_view_def\<close>)
qed

lemma preserves_rendered: "preserves I m \<Longrightarrow> preserves I (render_message m)"
  by (simp add: preserves_def snd_render_message)

lemma keeps_view_pages:
  assumes "gc_user c = Some (fill_roles u)"
  shows "preserves (views_inv u vs0) (alertAggrViewAdd v c)" "preserves (views_inv u vs0) (alertAggrViewDel ids c)"
    "preserves (views_inv u vs0) (alertAggrViewPut v c)"
proof -
  show "preserves (views_inv u vs0) (alertAggrViewAdd v c)"
    unfolding alertAggrViewAdd_def must_get_def assms option.case bind_ret Let_def
    by (intro preserves_bind [OF preserves_dangerous [OF keeps_view_add]] preserves_ret) (simp add: may_view_def)
  show "preserves (views_inv u vs0) (alertAggrViewDel ids c)"
    unfolding alertAggrViewDel_def must_get_def assms option.case bind_ret
    by (auto intro!: preserves_bind preserves_stop preserves_ret preserves_rendered keeps_view_del simp: may_view_def)
  have put: "vi.under u vs0 (\<lambda>s. x \<in> set (ce_alert_aggr_view s)) (render_message (AlertAggrView_Update w))"
    if "may_view u (av_CreateBy w)" "may_view u (av_CreateBy x)" "av_Id x = av_Id w" for w x
    using keeps_view_put [OF that, of vs0] by (simp add: vi.under_def snd_render_message)
  have "sees (AlertAggrViewGet (\<lambda>r. av_Id r = av_Id v)) (\<lambda>s. Inr (first (filter (\<lambda>r. av_Id r = av_Id v) (ce_alert_aggr_view s))))"
    unfolding AlertAggrViewGet_def Find_def by (rule sees_eq, rule sees_bind [OF sees_query sees_ret]) (simp_all add: steady_def)
  note get = sees_change_err [OF this, where h = Danger, folded dangerous_def]
  show "preserves (views_inv u vs0) (alertAggrViewPut v c)"
    unfolding alertAggrViewPut_def must_get_def assms
  proof (rule vi.under_all, rule vi.under_sees [OF get steady_const], unfold option.case bind_ret)
    fix r
    show "vi.under u vs0 (\<lambda>s. True \<and> map_err Danger (Inr (first (filter (\<lambda>r. av_Id r = av_Id v) (ce_alert_aggr_view s)))) = Inr r) (case r of
         None \<Rightarrow> ret (Message 200 (''no such item(id: '' @ Itoa (av_Id v) @ '')''))
       | Some view \<Rightarrow>
          if \<not> IsAdmin (fill_roles u) \<and> av_CreateBy view \<noteq> us_Id (fill_roles u) then ret (Message 403 ''forbidden'')
          else let cate = (if \<not> IsAdmin (fill_roles u) then 1 else av_Cate v); by1 = (if av_CreateBy view = 0 then us_Id (fill_roles u) else av_CreateBy view)
            in render_message (AlertAggrView_Update (view\<lparr>av_Name := av_Name v, av_Rule := av_Rule v, av_Cate := cate, av_CreateBy := by1\<rparr>)))"
    proof (cases r)
      case (Some x)
      then show ?thesis
        by (auto simp: map_err_def Let_def may_view_def vi.under_ret intro!: vi.under_weaken [OF put, where x1 = x] dest: first_filter)
    qed (simp add: vi.under_ret)
  qed
qed

subsection \<open>Requests\<close>

lemma reads_event_pages [sat_rules]:
  "reads (alertCurEventGet L rq)" "reads (alertHisEventGet L rq)" "reads (alertCurEventsList R L q)" "reads (alertCurEventsCard R L ord q)"
  "reads (alertCurEventsCardDetails L ids)" "reads (alertHisEventsList R L q)" "reads (alertAggrViewGets vord c)"
  by (auto simp: alertCurEventGet_def alertHisEventGet_def alertCurEventsList_def alertCurEventsCard_def alertCurEventsCardDetails_def alertHisEventsList_def
      alertAggrViewGets_def render_data_def intro!: sat_rules split: option.split)

lemma event_route_guards: "event_route R E rq call = (Some gs, h) \<Longrightarrow> gs \<noteq> [] \<Longrightarrow> opens (hd gs)"
  by (cases call) (auto simp: opens_def split: if_splits)

lemma event_route_reads: "event_route R E rq call = (gs, h) \<Longrightarrow> gs = None \<or> gs = Some [] \<Longrightarrow> reads (h c)"
  by (cases call) (auto simp: answered_def intro!: sat_rules)

text \<open>Only requests with a user of a session change anything.\<close>

lemma serve_event_outcome:
  assumes "\<not> hc_ProxyAuth_Enable (cr_http R)" and "serve_event R E rq call s = (r, s')"
  obtains (unchanged) n where "s' = s\<lparr>ce_step := n\<rparr>"
  | (served) c n uid un u gs h where "event_route R E rq call = (Some gs, h)" "gs \<noteq> []" "h c (s\<lparr>ce_step := n\<rparr>) = (r, s')" "gc_user c = Some (fill_roles u)"
      "session R rq s = Some (uid, un)" "user_with s uid = Some u" "\<forall>g \<in> set gs. grants s rq uid g"
proof -
  obtain g h where route: "event_route R E rq call = (g, h)" by (cases "event_route R E rq call")
  show thesis
  proof (cases "g = None \<or> g = Some []")
    case True
    have h: "reads (h c)" for c by (rule event_route_reads [OF route True])
    have "reads (serve_event R E rq call)"
    proof (cases g)
      case None
      then show ?thesis using h by (simp add: serve_event_def route)
    next
      case (Some gs)
      then show ?thesis using True h reads_auth [OF assms(1)] by (simp add: serve_event_def route chain_def sat_rules)
    qed
    then show thesis using unchanged assms(2) reads_state by blast
  next
    case False
    then obtain gs where gs: "g = Some gs" "gs \<noteq> []" by auto
    have serve: "serve_event R E rq call s = chain (auth R rq # map (mw rq) gs) h s" by (simp add: serve_event_def route gs(1))
    from assms(1) gs(2) event_route_guards [OF route [unfolded gs(1)] gs(2)] assms(2) [unfolded serve] show thesis
      by (cases rule: chain_served) (use unchanged served [OF route [unfolded gs(1)] gs(2)] in blast)+
  qed
qed

interpretation ei: table_invariant "\<lambda>s. ce_alert_cur_event s = es" for es
  by unfold_locales simp

lemma views_keep_events:
  "preserves (\<lambda>s. ce_alert_cur_event s = es) (alertAggrViewAdd v c)" "preserves (\<lambda>s. ce_alert_cur_event s = es) (alertAggrViewDel ids c)"
  "preserves (\<lambda>s. ce_alert_cur_event s = es) (alertAggrViewPut v c)"
proof -
  have st: "preserves (\<lambda>s. ce_alert_cur_event s = es) (AlertAggrView_Add w)" "preserves (\<lambda>s. ce_alert_cur_event s = es) (AlertAggrView_Update w)"
    "preserves (\<lambda>s. ce_alert_cur_event s = es) (AlertAggrViewDel ids by1)" for w by1
    unfolding AlertAggrView_Add_def AlertAggrView_Update_def AlertAggrViewDel_def Let_def checked_def
    by (auto intro!: preserves_bind ei.preserves_statement ei.preserves_execute ei.preserves_reads [OF reads_lookups(1)] preserves_ret preserves_stop split: sum.split)
  show "preserves (\<lambda>s. ce_alert_cur_event s = es) (alertAggrViewAdd v c)" "preserves (\<lambda>s. ce_alert_cur_event s = es) (alertAggrViewDel ids c)"
    "preserves (\<lambda>s. ce_alert_cur_event s = es) (alertAggrViewPut v c)"
    unfolding alertAggrViewAdd_def alertAggrViewDel_def alertAggrViewPut_def Let_def
    by (auto intro!: preserves_bind preserves_rendered st preserves_ret preserves_stop ei.preserves_reads [OF reads_checks(1)] ei.preserves_reads [OF reads_dangerous [OF reads_event_lookups(11)]]
        preserves_dangerous split: option.split)
qed

lemma reads_check_events: "reads (check_events L ids D c)"
  by (induction ids arbitrary: D c) (auto intro!: sat_rules split: option.split)

lemma alertCurEventDel_effect:
  assumes "alertCurEventDel L ids c s = (r, s')" and "gc_user c = Some (fill_roles u)"
  shows "ce_alert_cur_event s' = ce_alert_cur_event s \<or>
    (ce_alert_cur_event s' = filter (\<lambda>e. ev_Id e \<notin> set ids) (ce_alert_cur_event s) \<and>
     (\<forall>i \<in> set ids. \<exists>x \<in> set (ce_alert_cur_event s). ev_Id x = i \<and> (ev_GroupId x = 0 \<or> may_write s u (ev_GroupId x))))"
proof (cases "length ids = 0")
  case True
  then show ?thesis using assms(1) by (simp add: alertCurEventDel_def stop_def)
next
  case False
  let ?chk = "check_events L ids {0} c"
  obtain x s1 where x: "?chk s = (x, s1)" by (cases "?chk s")
  obtain n where n: "s1 = s\<lparr>ce_step := n\<rparr>" using reads_state [OF reads_check_events x] by blast
  have run: "alertCurEventDel L ids c s = bind_act ?chk (\<lambda>_. render_message (AlertCurEventDel ids)) s"
    using False by (simp add: alertCurEventDel_def checkCurEventBusiGroupRWPermission_def)
  show ?thesis
  proof (cases x)
    case (Inl e)
    then have "s' = s1" using assms(1) x unfolding run by (simp add: bind_act_def)
    then show ?thesis using n by simp
  next
    case (Inr c')
    have ok: "\<forall>i \<in> set ids. \<exists>x \<in> set (ce_alert_cur_event s). ev_Id x = i \<and> (ev_GroupId x = 0 \<or> may_write s u (ev_GroupId x))"
      using check_events_ok [OF x [unfolded Inr] assms(2)] by simp
    have "s' = snd (AlertCurEventDel ids s1)"
      using assms(1) snd_render_message [of "AlertCurEventDel ids" s1] x Inr unfolding run by (simp add: bind_act_def [of ?chk])
    then have "ce_alert_cur_event s' \<in> {ce_alert_cur_event s, filter (\<lambda>e. ev_Id e \<notin> set ids) (ce_alert_cur_event s)}"
      using False n by (simp add: AlertCurEventDel_def execute_def statement_def bind_act_def ask_apply stop_def split: option.split)
    then show ?thesis using ok by blast
  qed
qed

text \<open>C19. A request on the pages for events leaves the current events as they were, or it deletes events,
  and then for a user of a session who has the permission to; it deletes exactly those it names, each
  of them in a group that the user may write or without a group.\<close>

theorem events_deleted:
  assumes "\<not> hc_ProxyAuth_Enable (cr_http R)" and "distinct (map ev_Id (ce_alert_cur_event s))" and "serve_event R E rq call s = (r, s')"
  shows "ce_alert_cur_event s' = ce_alert_cur_event s \<or>
    (\<exists>ids uid un u. call = Cur_events_delete ids \<and> session R rq s = Some (uid, un) \<and> user_with s uid = Some u \<and> may_operate s u ''/alert-cur-events/del'' \<and>
       ce_alert_cur_event s' = filter (\<lambda>e. ev_Id e \<notin> set ids) (ce_alert_cur_event s) \<and>
       (\<forall>e \<in> set (ce_alert_cur_event s). ev_Id e \<in> set ids \<longrightarrow> ev_GroupId e = 0 \<or> may_write s u (ev_GroupId e)))"
  using assms(1,3)
proof (cases rule: serve_event_outcome)
  case (unchanged n)
  then show ?thesis by simp
next
  case (served c n uid un u gs h)
  let ?s = "s\<lparr>ce_step := n\<rparr>"
  show ?thesis
  proof (cases "\<exists>ids. call = Cur_events_delete ids")
    case True
    then obtain ids where call: "call = Cur_events_delete ids" by blast
    then have h: "h = alertCurEventDel (ee_lib E) ids" "Mw_perm ''/alert-cur-events/del'' \<in> set gs" using served(1) by auto
    have perm: "may_operate s u ''/alert-cur-events/del''" using served(6,7) h(2) by (auto simp: grants_def)
    have inj: "x = e" if "x \<in> set (ce_alert_cur_event s)" "e \<in> set (ce_alert_cur_event s)" "ev_Id x = ev_Id e" for x e
      using assms(2) that by (auto simp: distinct_map dest: inj_onD)
    have mw: "may_write ?s u j = may_write s u j" for j by (simp add: may_write_def member_of_def)
    from alertCurEventDel_effect [OF served(3) [unfolded h(1)] served(4)] show ?thesis
    proof
      assume d: "ce_alert_cur_event s' = filter (\<lambda>e. ev_Id e \<notin> set ids) (ce_alert_cur_event ?s) \<and>
        (\<forall>i \<in> set ids. \<exists>x \<in> set (ce_alert_cur_event ?s). ev_Id x = i \<and> (ev_GroupId x = 0 \<or> may_write ?s u (ev_GroupId x)))"
      have "ev_GroupId e = 0 \<or> may_write s u (ev_GroupId e)" if "e \<in> set (ce_alert_cur_event s)" "ev_Id e \<in> set ids" for e
        using d that inj mw by fastforce
      then show ?thesis using d call perm served(5,6) by auto
    qed simp
  next
    case False
    then have "preserves (\<lambda>s. ce_alert_cur_event s = ce_alert_cur_event ?s) (h c)"
      using served(1,2) by (cases call) (auto simp: answered_def intro!: preserves_bind views_keep_events preserves_reply preserves_ret split: if_splits)
    then have "ce_alert_cur_event s' = ce_alert_cur_event ?s" using served(3) unfolding preserves_def by (metis snd_conv)
    then show ?thesis by simp
  qed
qed

lemma keeps_views_event_del: "preserves (views_inv u vs0) (alertCurEventDel L ids c)"
  unfolding alertCurEventDel_def checkCurEventBusiGroupRWPermission_def AlertCurEventDel_def
  by (intro preserves_bind [OF preserves_if] preserves_bind [OF vi.preserves_reads [OF reads_check_events]] preserves_rendered preserves_if preserves_ret preserves_stop
      vi.preserves_execute) (simp add: views_inv_def)

text \<open>A request on the pages for events keeps the identifiers of the views unique, and every view named
  and with a rule that the page of cards accepts; it leaves the views as they were, or it comes from a
  user of a session who, unless an administrator, changes and deletes only views created by the same
  user.\<close>

theorem views_guarded:
  assumes "\<not> hc_ProxyAuth_Enable (cr_http R)" and "distinct (map av_Id (ce_alert_aggr_view s))" and "serve_event R E rq call s = (r, s')"
  shows "distinct (map av_Id (ce_alert_aggr_view s')) \<and> (list_all view_ok (ce_alert_aggr_view s) \<longrightarrow> list_all view_ok (ce_alert_aggr_view s')) \<and>
    (ce_alert_aggr_view s' = ce_alert_aggr_view s \<or>
     (\<exists>uid un u. session R rq s = Some (uid, un) \<and> user_with s uid = Some u \<and>
        views_outside u (ce_alert_aggr_view s') = views_outside u (ce_alert_aggr_view s)))"
  using assms(1,3)
proof (cases rule: serve_event_outcome)
  case (unchanged n)
  then show ?thesis using assms(2) by simp
next
  case (served c n uid un u gs h)
  have "preserves (views_inv u (ce_alert_aggr_view s)) (h c)"
    using served(1,2)
    by (cases call) (auto simp: answered_def intro!: preserves_bind [OF keeps_view_pages(1) [OF served(4)]] keeps_view_pages(2,3) [OF served(4)] keeps_views_event_del
        preserves_reply preserves_ret split: if_splits)
  moreover have "views_inv u (ce_alert_aggr_view s) (s\<lparr>ce_step := n\<rparr>)" using assms(2) by (simp add: views_inv_def)
  ultimately have "views_inv u (ce_alert_aggr_view s) s'" using served(3) unfolding preserves_def by (metis snd_conv)
  then show ?thesis using served(5,6) by (auto simp: views_inv_def)
qed

subsection \<open>A small instance\<close>

definition sample_events :: center where
  "sample_events = (sample_center ''u'' [(''/jwt/u'', (''7-bob'', None))])\<lparr>
     ce_alert_cur_event := [zero_AlertCurEvent\<lparr>ev_Id := 1, ev_GroupId := 5, ev_RuleName := ''cpu'', ev_Severity := 2\<rparr>,
       zero_AlertCurEvent\<lparr>ev_Id := 2, ev_GroupId := 9, ev_RuleName := ''cpu'', ev_Severity := 1\<rparr>,
       zero_AlertCurEvent\<lparr>ev_Id := 3, ev_GroupId := 9, ev_RuleName := ''disk'', ev_Severity := 2\<rparr>],
     ce_alert_aggr_view := [\<lparr>av_Id = 70, av_Name = ''all'', av_Rule = ''field:rule_name'', av_Cate = 0, av_CreateAt = 0, av_CreateBy = 1, av_UpdateAt = 0\<rparr>],
     ce_role_operation := [\<lparr>op_RoleName = ''Standard'', op_Operation = ''/alert-cur-events/del''\<rparr>]\<rparr>"

definition sample_query :: event_query where
  "sample_query = \<lparr>eq_stime = 0, eq_etime = 0, eq_hours = 0, eq_severity = -1, eq_is_recovered = -1, eq_query = '''', eq_limit = 20, eq_offset = 0, eq_bgid = 0,
     eq_datasource_ids = '''', eq_prods = '''', eq_rule_prods = '''', eq_cate = ''$all'', eq_rule = ''field:rule_name''\<rparr>"

definition sample_event_env :: event_env where
  "sample_event_env = \<lparr>ee_lib = sample_lib, ee_titles = rev, ee_views = (\<lambda>vs. vs), ee_AlertDetail = False\<rparr>"

definition sample_events_after :: "event_call \<Rightarrow> (failure + unit reply) \<times> center" where
  "sample_events_after call = serve_event sample_crouter sample_event_env (sample_request sample_token) call sample_events"

definition sample_view :: AlertAggrView where
  "sample_view = \<lparr>av_Id = 0, av_Name = ''mine'', av_Rule = '' tagkey:ident::field:severity'', av_Cate = 0, av_CreateAt = 0, av_CreateBy = 1, av_UpdateAt = 0\<rparr>"

lemma sample_events_hyps:
  "\<not> hc_ProxyAuth_Enable (cr_http sample_crouter)" "distinct (map ev_Id (ce_alert_cur_event sample_events))" "distinct (map av_Id (ce_alert_aggr_view sample_events))"
  "calm sample_events"
  by (simp_all add: sample_crouter_def sample_conf_def sample_events_def sample_center_def zero_AlertCurEvent_def calm_def)

lemma sample_events_user:
  "user_with sample_events 7 = Some sample_user" "session sample_crouter (sample_request sample_token) sample_events = Some (7, ''bob'')"
  by code_simp+

theorem event_cards_witness:
  "fst (alertCurEventsCard sample_crouter sample_lib rev sample_query sample_events) =
     Inr (Data [\<lparr>ac_Title = ''cpu'', ac_Total = 2, ac_EventIds = [2, 1], ac_Severity = 1\<rparr>, \<lparr>ac_Title = ''disk'', ac_Total = 1, ac_EventIds = [3], ac_Severity = 2\<rparr>])"
proof -
  let ?now = "an_now (ce_answers sample_events (ce_step sample_events))" and ?rules = "rules_of (eq_rule sample_query)"
  let ?es = "newest_first ev_Id (filter (cur_where (cr_lib sample_crouter) (query_filter sample_query (fst (time_range sample_query ?now)) (snd (time_range sample_query ?now))))
    (ce_alert_cur_event sample_events))"
  have "length ?es \<le> length (ce_alert_cur_event sample_events)" by (simp add: newest_first_def)
  also have "\<dots> \<le> 50000" by (simp add: sample_events_def)
  finally have es: "selected_events sample_crouter sample_lib sample_query ?now sample_events = map (AlertCurEvent_DB2FE sample_lib) ?es"
    by (simp add: selected_events_def)
  have "cards_of rev ?rules (map (AlertCurEvent_DB2FE sample_lib) ?es) =
      [\<lparr>ac_Title = ''cpu'', ac_Total = 2, ac_EventIds = [2, 1], ac_Severity = 1\<rparr>, \<lparr>ac_Title = ''disk'', ac_Total = 1, ac_EventIds = [3], ac_Severity = 2\<rparr>]"
    by code_simp
  moreover have "list_all aggr_part (Split (eq_rule sample_query) ''::'')" by code_simp
  ultimately show ?thesis
    using event_cards [OF fair_order_rev sample_events_hyps(4), of sample_crouter sample_lib sample_query] by (simp add: es cards_of_spec [OF fair_order_rev])
qed

theorem events_deleted_witness:
  "map ev_Id (ce_alert_cur_event (snd (sample_events_after (Cur_events_delete [1])))) = [2, 3] \<and> map ev_Id (ce_alert_cur_event sample_events) = [1, 2, 3] \<and>
   may_write sample_events sample_user 5"
proof -
  let ?t = "snd (sample_events_after (Cur_events_delete [1]))"
  have ids: "map ev_Id (ce_alert_cur_event ?t) = [2, 3]" "map ev_Id (ce_alert_cur_event sample_events) = [1, 2, 3]" by code_simp+
  have "serve_event sample_crouter sample_event_env (sample_request sample_token) (Cur_events_delete [1]) sample_events = (fst (sample_events_after (Cur_events_delete [1])), ?t)"
    by (simp add: sample_events_after_def)
  from events_deleted [OF sample_events_hyps(1,2) this]
  have "\<forall>e \<in> set (ce_alert_cur_event sample_events). ev_Id e \<in> set [1] \<longrightarrow> ev_GroupId e = 0 \<or> may_write sample_events sample_user (ev_GroupId e)"
  proof
    assume "ce_alert_cur_event ?t = ce_alert_cur_event sample_events"
    then have "[2, 3] = ([1, 2, 3] :: int list)" using ids by (simp only:)
    then show ?thesis by simp
  qed (use sample_events_user in fastforce)
  moreover have "hd (ce_alert_cur_event sample_events) \<in> set (ce_alert_cur_event sample_events)" "ev_Id (hd (ce_alert_cur_event sample_events)) = 1"
    "ev_GroupId (hd (ce_alert_cur_event sample_events)) = 5" by (simp_all add: sample_events_def zero_AlertCurEvent_def)
  ultimately show ?thesis using ids by fastforce
qed

text \<open>With an event of the group 9 in the list nothing is deleted.\<close>

lemma events_refused: "map ev_Id (ce_alert_cur_event (snd (sample_events_after (Cur_events_delete [1, 2])))) = [1, 2, 3]"
  by code_simp

theorem views_guarded_witness:
  "map av_Rule (ce_alert_aggr_view (snd (sample_events_after (Views_post sample_view)))) = [''field:rule_name'', ''tagkey:ident::field:severity''] \<and>
   list_all view_ok (ce_alert_aggr_view (snd (sample_events_after (Views_post sample_view)))) \<and>
   map av_Id (ce_alert_aggr_view (snd (sample_events_after (Views_delete [70])))) = [70]"
proof -
  have "list_all view_ok (ce_alert_aggr_view sample_events)" by code_simp
  moreover have "map av_Rule (ce_alert_aggr_view (snd (sample_events_after (Views_post sample_view)))) = [''field:rule_name'', ''tagkey:ident::field:severity'']"
    "map av_Id (ce_alert_aggr_view (snd (sample_events_after (Views_delete [70])))) = [70]"
    by code_simp+
  ultimately show ?thesis
    using views_guarded [OF sample_events_hyps(1,3), of sample_event_env "sample_request sample_token" "Views_post sample_view" "fst (sample_events_after (Views_post sample_view))"
        "snd (sample_events_after (Views_post sample_view))"]
    by (simp add: sample_events_after_def)
qed

end
