(* ===== verification/Spec2Isabelle.thy ===== *)
theory Spec2Isabelle
  imports Pipeline Eval_Runs Scheduler_Spec Recording Push_Spec Secu Host_Spec Rule_Owners Rule_Valid Mute_Preview Alert_Router Board_Owners
    Event_Spec
begin

text \<open>
  \<^bold>\<open>Nightingale: alerting engine, push gateway and center\<close>

  Nightingale is a monitoring system. Agents push time series to the \<^emph>\<open>push gateway\<close>, which labels
  them, registers the hosts they come from and forwards them to storage. The \<^emph>\<open>alerting engine\<close> keeps
  one worker per alerting rule and data source; a worker queries the storage (or the table of hosts)
  periodically and turns anomalous values into events. Events pass the muting strategies and the
  for-duration of the rule, enter a queue, are persisted, matched against subscriptions and sent to
  users through channels. Several instances of the engine share the rules: each announces itself by
  heartbeats, and a consistent hash ring per data source assigns every rule to one instance. All of
  them read rules, hosts, users, mutes and subscriptions from caches of the database tables. The
  \<^emph>\<open>center\<close> serves the web pages: users log in and, as far as their roles and teams permit, change
  these tables.

  \<^bold>\<open>Conventions\<close>

  \<^item> A struct is a \<open>record\<close> with the fields the modelled code reads or writes, prefixed by an
    abbreviation of the struct's name; operations keep their Go names, with the receiver's name in
    front where two packages use the same one. Parts of a long function that are loop bodies or
    branches are definitions of their own, composed as in the function.
  \<^item> A Go map is an association list with one entry per key (\<open>go_wf\<close>); the locale \<open>go_map_spec\<close> of
    \<open>Prelude\<close> is the contract its clients use. Go enumerates a map in an order of its own: the order is
    an argument of type \<open>range_order\<close>, and properties hold for every \<open>fair_order\<close>, which only rearranges
    the entries.
  \<^item> Code that may panic (index out of range, nil pointer, failed type assertion) returns
    \<open>panic + 'a\<close>; code that returns an error returns an \<open>option\<close> or a sum that carries it.
  \<^item> Where pointers are shared, the model has a heap: the processor of a rule stores addresses of
    events, because the same event can be in the pending map and in the firing map.
  \<^item> Code outside the repository is a parameter: \<open>lib\<close> (MD5, JSON and regular expressions),
    \<open>ring_ops\<close> (the consistent hash library), \<open>event_ops\<close> and the other records of database
    operations, \<open>relabel_lib\<close>, the block cipher in \<open>Secu\<close>. What the program relies on is a hypothesis
    of the properties (or an assumption of a locale), and each witness instantiates the parameter.
  \<^item> Integers are \<open>int\<close>; a conversion or sum that can leave 64 bits is written with \<open>wrap64\<close>, bytes and
    hash words are \<open>word\<close>s. Floating point numbers are compared exactly where the code only compares;
    \<open>Float64\<close> rounds quotients and products to 53 digits. Strings are lists of bytes; functions that
    change the case of letters are exact on ASCII.
  \<^item> The clock, random numbers and answers of the database are arguments of the step that reads them.

  \<^bold>\<open>Shared theories\<close>

  \<open>Prelude\<close>, \<open>Go_Strings\<close> (the used functions of \<open>strings\<close>, \<open>strconv\<close>, \<open>sort\<close>, \<open>time\<close>), \<open>Float64\<close>,
  \<open>Data_Model\<close> (the structs of \<open>models/\<close>), \<open>Alert_Models\<close> (methods of rules, events, mutes, subscriptions and
  targets in \<open>models/alert_rule.go\<close>, \<open>alert_cur_event.go\<close>, \<open>alert_mute.go\<close>, \<open>alert_subscribe.go\<close>,
  \<open>target.go\<close>), \<open>Time_Series\<close> (the remote write messages and \<open>pushgw/pconf\<close>'s use of them), \<open>Samples\<close>
  (concrete instances for witnesses).

  \<^bold>\<open>Alerting engine\<close>

  \<^item> \<open>Alert_Common\<close>: \<open>alert/common\<close>, from query results to anomaly points, tag matching, rule keys.
  \<^item> \<open>Mute\<close>: \<open>alert/mute\<close>, the muting strategies in the order the code tries them.
  \<^item> \<open>Processor\<close>: \<open>alert/process\<close>, the state \<open>pstate\<close> (heap, pending and firing map, queue) and
    \<open>Handle\<close>, \<open>HandleRecover\<close>, \<open>RecoverSingle\<close>, \<open>fireEvent\<close>, \<open>inhibitEvent\<close> and \<open>RecoverAlertCurEventFromDb\<close>.
    \<open>Processor_Invariant\<close> states the invariant \<open>proc_inv\<close> and its preservation; \<open>Processor_Spec\<close> and
    \<open>Processor_Runs\<close> show what an evaluation does (which events fire, stay pending or recover, how
    notices are throttled and inhibited), the invariant of every reachable state, that an evaluation
    returns, and that a restarted processor resumes from the database.
  \<^item> \<open>Eval\<close> and \<open>Host_Query\<close>: \<open>alert/eval/eval.go\<close> and the host filters of \<open>models/host.go\<close> and
    \<open>models/target.go\<close>; the conditions select the hosts the filters mean, but for a filter that excludes
    several tags (\<open>tags_excluded_any\<close>). \<open>Eval_Runs\<close>: the points of a Prometheus and of a host rule, the percentage trigger,
    and termination of a tick.
  \<^item> \<open>Naming\<close>: \<open>alert/naming\<close> and \<open>models/alerting_engine.go\<close>, heartbeats, the table of engines and
    the rings; every rule has one owner among instances that saw the same table.
  \<^item> \<open>Scheduler\<close>: \<open>alert/eval/alert_rule.go\<close> and \<open>alert/record/scheduler.go\<close>, which start and stop workers;
    \<open>Scheduler_Spec\<close> shows that a pass runs exactly the wanted workers, for both schedulers through the
    locale \<open>reconciler\<close>, and, joined with \<open>Naming\<close>, that exactly one of the listed instances that agree
    on the list runs a rule; an instance that is not listed and has an old ring is not covered
    (\<open>stale_ring_kept\<close>).
  \<^item> \<open>Recording\<close>: \<open>models/recording_rule.go\<close>, \<open>alert/record\<close>: recording rules and the series they write.
  \<^item> \<open>Notify_Target\<close>, \<open>Dispatch\<close>, \<open>Persist\<close>, \<open>Senders\<close>: \<open>alert/dispatch\<close>, \<open>models/alert_his_event.go\<close>,
    \<open>alert/sender\<close>. \<open>Dispatch_Spec\<close>: recipients, subscription copies, the tables of current and past
    events, permission to run tasks.
  \<^item> \<open>Memsto\<close>: \<open>memsto\<close>, the caches, as one generic cache with the locale of its synchronisation;
    \<open>Prom_Clients\<close>: \<open>prom\<close>, one client per data source.
  \<^item> \<open>Alert_Router\<close>: \<open>alert/router/router_event.go\<close> and \<open>pkg/poster\<close>, the interface for pushed events and for
    rules evaluated elsewhere: instances that agree on the list of instances handle the points on the
    owner of the rule, or post them to it, in at most three attempts. An event posted by an engine
    outside the center arrives with every column the center needs.
  \<^item> \<open>Pipeline\<close>: a worker, the queue and the goroutines of the consumer beside each other (\<open>worker_run\<close>, any
    interleaving, on shared events). When the consumer has caught up, the table of current alerts
    mirrors the firing map, if the consumer has one slot or the last entry of a hash was not
    overtaken; with more slots a firing alert can lose its row (\<open>overtaking_loses_row\<close>). The caches
    deliver rows the readers cannot panic on.

  \<^bold>\<open>Push gateway and configuration\<close>

  \<^item> \<open>Ingest\<close>: the formats of Open-Falcon, OpenTSDB and Datadog (\<open>pushgw/router/router_openfalcon.go\<close>,
    \<open>router_opentsdb.go\<close>, \<open>router_datadog.go\<close>). \<open>Push_Router\<close>: the handlers and \<open>pushgw/router/fns.go\<close>. \<open>Push_Spec\<close>:
    what a request leaves in the queues and in the set of hosts, whatever fails in it.
  \<^item> \<open>Write_Queue\<close>, \<open>Relabel\<close>, \<open>Writers\<close>: \<open>pushgw/writer\<close>. The queue meets the contract \<open>bounded_fifo\<close>;
    with concurrent producers its limit can be exceeded by less than the number of producers. Series
    leave a queue in order, in batches; every batch has one goroutine per backend, which makes at
    most one request (\<open>wrun\<close>: pushes, consumer rounds, ends of goroutines and removals of idle queues
    in any order). Requests of different batches may overtake each other and a failed one is lost.
    The relabelling rules refine operations on label functions.
  \<^item> \<open>Idents\<close>: \<open>pushgw/idents\<close>, hosts seen and their rows in the table of targets.
  \<^item> \<open>Secu\<close>: \<open>pkg/secu/aes.go\<close> and \<open>conf/crypto.go\<close>, a round trip for every block cipher.

  \<^bold>\<open>Center\<close>

  \<^item> \<open>Effects\<close>: actions on a state that may stop early (an error, an answer that ends the request, a
    panic), with triples; \<open>Center\<close>: the tables as lists of rows and the statements on them. Each
    statement takes the next \<open>answer\<close> of the environment, which says whether it fails, which identifier
    a new row gets and what the clock shows; a transaction that fails restores the tables. Requests
    are handled one after the other. Strings are compared exactly, \<open>LIKE\<close> and the order of strings
    are parameters, rows that the statement does not order come in the order of insertion.
  \<^item> \<open>Center\<close> and \<open>Center_Users\<close>: \<open>models/user.go\<close>, \<open>user_group.go\<close>, \<open>user_group_member.go\<close>, \<open>busi_group.go\<close>,
    \<open>busi_group_member.go\<close>, \<open>role.go\<close>, \<open>role_operation.go\<close>, passwords of \<open>common.go\<close> and \<open>configs.go\<close>.
  \<^item> \<open>Sessions\<close>: \<open>center/router/router_mw.go\<close>, \<open>router_login.go\<close>: tokens, the entries in Redis, the
    middleware that finds the user and checks permissions, login with password, directory or a
    single-sign-on provider, logout and refresh. The token library, the captcha, RSA and the answers
    of the providers are parameters. \<open>Center_Handlers\<close>: the handlers for users, teams, business groups and
    roles and the routes of \<open>router.go\<close> with their guards. \<open>Center_Samples\<close>: a small instance.
  \<^item> \<open>Access_Spec\<close>: a handler runs exactly for the requests that the tables permit. \<open>Session_Spec\<close>: from
    login to logout a token names its user, and a refresh replaces it. \<open>Center_Inv\<close>: whatever
    sequence of requests, the business groups stay well formed (a group keeps a row of a member team,
    though the team may be gone); the locale \<open>table_invariant\<close> reduces
    such an invariant to the statements of the handlers.
  \<^item> \<open>Host_Pages\<close>: the rest of \<open>models/target.go\<close> and the handlers of \<open>center/router/router_target.go\<close>.
    \<open>Host_Spec\<close>: only hosts of groups the user may write change, and only such groups gain hosts.
  \<^item> \<open>Rule_Tables\<close>: the operations on the tables of \<open>models/alert_rule.go\<close>, \<open>alert_mute.go\<close>, \<open>alert_subscribe.go\<close>
    and \<open>recording_rule.go\<close>; \<open>Rule_Pages\<close>: the handlers of \<open>router_alert_rule.go\<close>, \<open>router_mute.go\<close>,
    \<open>router_alert_subscribe.go\<close> and \<open>router_recording_rule.go\<close>. \<open>Rule_Spec\<close> reduces a property of these tables
    to laws of single rows (the locales \<open>owned_rows\<close> and \<open>rule_rows\<close>), and \<open>Rule_Shown\<close> does so for the pages that
    show teams and drop the deleted ones from the rows (\<open>cleaned_rows\<close>, \<open>shown_rows\<close>). The locales are
    interpreted in \<open>Rule_Owners\<close>, where a request leaves the rows of groups its user may not write as
    they were, except for teams that do not exist, and in \<open>Rule_Valid\<close>, where all stored rows are valid;
    \<open>Rule_Valid\<close> also has the round trip of a rule through its columns. \<open>Mute_Preview\<close>: for events of the
    product and category of a mute, its preview shows those the engine suppresses. \<open>Rule_Samples\<close>: a
    small instance.
  \<^item> \<open>Board_Pages\<close>: dashboards, \<open>models/board.go\<close>, \<open>board_payload.go\<close> and \<open>center/router/router_board.go\<close>.
    \<open>Board_Spec\<close> reduces a property of their two tables to the laws of the locale \<open>board_rows\<close>; in
    \<open>Board_Owners\<close> it is interpreted for the consistency of the tables and for the dashboards of other
    groups; the configuration of a private dashboard is shown to readers of its group only, its row to
    anyone.
  \<^item> \<open>Event_Pages\<close>: the pages for current and past events and the views that group them, \<open>models/alert_aggr_view.go\<close>
    and the queries of \<open>alert_cur_event.go\<close> and \<open>alert_his_event.go\<close>, \<open>center/router/router_alert_cur_event.go\<close>,
    \<open>router_alert_his_event.go\<close>, \<open>router_alert_aggr_view.go\<close>. \<open>Event_Spec\<close>: the cards are the groups of the
    selected events, only events of groups the user may write are deleted, views of others do not
    change and every stored rule of a view is accepted by the page.

  \<^bold>\<open>Bounds and fuel\<close>

  Loops over lists and maps are structural. The loops without a structural argument are functions
  with a measure (string search and splitting, base 64, block chaining). Endless loops of the
  program (timers, consumers) are modelled by one round; a run is a list of rounds or a reachability
  predicate, so the properties hold for any number of them. The notification queue is taken never to
  reach its limit of ten million events. The statements of the pipeline do not fail, and the
  consumption of one event is one step of a run.

  \<^bold>\<open>Not modelled\<close>

  \<^item> \<open>center/router\<close>: the pages for data sources, tasks, settings and the statistics of events, and the decoding of
    requests. \<open>center/sso\<close>, \<open>pkg/ldapx\<close>, \<open>pkg/oidcx\<close>, \<open>pkg/oauth2x\<close>, \<open>pkg/cas\<close>: protocol clients over third-party
    libraries; only what the center does with their answers is modelled.
  \<^item> \<open>pkg/prom\<close>: an HTTP client adapted from the Prometheus project; only the decision what to post is
    modelled. \<open>pkg/tplx\<close>: functions for message templates.
  \<^item> \<open>storage\<close>, \<open>pkg/ormx\<close>, \<open>pkg/httpx\<close>, \<open>cmd\<close>: connections and command lines. RSA decryption of passwords.
  \<^item> Timers, log output and Prometheus counters; HTTP, SMTP and TLS transports;
    compression and protocol buffer encoding. The SQL text of a query is not interpreted: \<open>Center\<close> has
    the operation on lists it describes, \<open>Host_Query\<close> gives the meaning of the host filters.
\<close>

end
